(* ===== verification/Prelude.thy ===== *)
theory Prelude
  imports Main "HOL-Library.Word"
begin

unbundle bit_operations_syntax

text \<open>
  Shared vocabulary of the development: the machine integer types of the C++ code, the sum
  type used for thrown exceptions, bit-field access as the sources write it (shift, then mask),
  and the list and word lemmas the component theories use.
\<close>

named_theorems field_simps_word \<open>facts about bit fields of machine words\<close>
named_theorems op_defs \<open>definitions of state-changing operations, for unfolding in invariant proofs\<close>

subsection \<open>Machine integers\<close>

type_synonym u8 = "8 word"
type_synonym u16 = "16 word"
type_synonym u32 = "32 word"
type_synonym u64 = "64 word"

lemma unat_u64_less: "unat (w :: u64) < 2 ^ 64"
proof -
  have "unat w < 2 ^ LENGTH(64)" by (rule unsigned_less)
  then show ?thesis by simp
qed

lemma sint_eq_uint_small: "unat (w :: u64) < 2 ^ 63 \<Longrightarrow> sint w = uint w"
proof -
  assume "unat w < 2 ^ 63"
  then have "int (unat w) < int (2 ^ 63)"
    by (simp only: of_nat_less_iff)
  then have "uint w < 2 ^ 63" by simp
  then have "signed_take_bit 63 (uint w) = uint w"
    by (intro signed_take_bit_int_eq_self) (simp_all add: order_trans [OF _ uint_ge_0])
  then show ?thesis
    by (simp add: sint_uint)
qed

lemma sint_u64: "sint (w :: u64) = (if uint w < 2 ^ 63 then uint w else uint w - 2 ^ 64)"
proof -
  have "sint w = (uint w + 2 ^ 63) mod 2 ^ 64 - 2 ^ 63"
    by (simp add: sint_uint signed_take_bit_eq_take_bit_shift take_bit_eq_mod)
  moreover have b: "0 \<le> uint w" "uint w < 2 ^ 64"
    using uint_ge_0 [of w] uint_bounded [of w] by simp_all
  moreover have "(uint w + 2 ^ 63) mod 2 ^ 64 = (if uint w < 2 ^ 63 then uint w + 2 ^ 63 else uint w + 2 ^ 63 - 2 ^ 64)"
  proof (cases "uint w < 2 ^ 63")
    case True
    then show ?thesis using b by (simp add: mod_pos_pos_trivial)
  next
    case False
    have "(uint w + 2 ^ 63) mod 2 ^ 64 = (uint w + 2 ^ 63 - 2 ^ 64) mod 2 ^ 64"
      by (rule minus_mod_self2 [symmetric])
    also have "\<dots> = uint w + 2 ^ 63 - 2 ^ 64"
      using False b by (intro mod_pos_pos_trivial) simp_all
    finally show ?thesis using False by simp
  qed
  ultimately show ?thesis by simp
qed

subsection \<open>Exceptions as values\<close>

text \<open>
  A C++ function that may throw returns a sum: \<open>Inl\<close> the exception, \<open>Inr\<close> the value.
  \<open>UndefinedBehaviour\<close> marks an access of a \<open>std::array\<close> or a shift whose operand the language
  leaves undefined.
\<close>

datatype cpp_error =
    OutOfRange
  | InvalidArgument
  | RuntimeError
  | UndefinedBehaviour

definition and_then :: "'e + 'a \<Rightarrow> ('a \<Rightarrow> 'e + 'b) \<Rightarrow> 'e + 'b" where
  "and_then r f = (case r of Inl e \<Rightarrow> Inl e | Inr a \<Rightarrow> f a)"

lemma and_then_simps [simp]:
  "and_then (Inl e) f = Inl e"
  "and_then (Inr a) f = f a"
  by (simp_all add: and_then_def)

lemma and_then_eq_Inr: "and_then r f = Inr b \<longleftrightarrow> (\<exists>a. r = Inr a \<and> f a = Inr b)"
  by (cases r) simp_all

definition is_ok :: "'e + 'a \<Rightarrow> bool" where
  "is_ok r = (case r of Inl _ \<Rightarrow> False | Inr _ \<Rightarrow> True)"

lemma is_ok_simps [simp]: "is_ok (Inr a)" "\<not> is_ok (Inl e)"
  by (simp_all add: is_ok_def)

lemma is_okE: "is_ok r \<Longrightarrow> (\<And>a. r = Inr a \<Longrightarrow> P) \<Longrightarrow> P"
  by (cases r) auto

text \<open>An access of a \<open>std::array\<close> with \<open>operator[]\<close>: undefined past its end.\<close>

definition arr_get :: "'a list \<Rightarrow> nat \<Rightarrow> cpp_error + 'a" where
  "arr_get xs i = (if i < length xs then Inr (xs ! i) else Inl UndefinedBehaviour)"

definition arr_set :: "'a list \<Rightarrow> nat \<Rightarrow> 'a \<Rightarrow> cpp_error + 'a list" where
  "arr_set xs i x = (if i < length xs then Inr (xs[i := x]) else Inl UndefinedBehaviour)"

lemma arr_get_ok [simp]: "i < length xs \<Longrightarrow> arr_get xs i = Inr (xs ! i)"
  by (simp add: arr_get_def)

lemma arr_set_ok [simp]: "i < length xs \<Longrightarrow> arr_set xs i x = Inr (xs[i := x])"
  by (simp add: arr_set_def)

subsection \<open>Bit fields\<close>

text \<open>\<open>get_bits s n w\<close> is the source's \<open>(w >> s) & ((1 << n) - 1)\<close>.\<close>

definition get_bits :: "nat \<Rightarrow> nat \<Rightarrow> 'a::len word \<Rightarrow> 'a word" where
  "get_bits s n w = drop_bit s w AND mask n"

text \<open>\<open>put_bits s n v w\<close> is the source's \<open>(w & ~(((1 << n) - 1) << s)) | (v << s)\<close>.\<close>

definition put_bits :: "nat \<Rightarrow> nat \<Rightarrow> 'a::len word \<Rightarrow> 'a word \<Rightarrow> 'a word" where
  "put_bits s n v w = (w AND NOT (push_bit s (mask n))) OR push_bit s v"

lemma get_bits_take_bit: "get_bits s n w = take_bit n (drop_bit s w)"
  by (simp add: get_bits_def take_bit_eq_mask)

lemma bit_get_bits [field_simps_word]:
  "bit (get_bits s n w) i \<longleftrightarrow> i < n \<and> bit w (s + i)"
  for w :: "'a::len word"
  by (auto simp: get_bits_take_bit bit_simps dest: bit_imp_le_length)

lemma unat_get_bits: "unat (get_bits s n w) = (unat w div 2 ^ s) mod 2 ^ n"
proof -
  have "take_bit LENGTH('a) (unat w) = unat w" for w :: "'a::len word"
    by (rule take_bit_nat_eq_self) (rule unsigned_less)
  then have "unat (get_bits s n w) = take_bit n (drop_bit s (unat w))"
    by (simp add: get_bits_take_bit unsigned_take_bit_eq unsigned_drop_bit_eq)
  then show ?thesis
    by (simp add: take_bit_eq_mod drop_bit_eq_div)
qed

lemma uint_get_bits: "uint (get_bits s n w) = (uint w div 2 ^ s) mod 2 ^ n"
proof -
  have "int (unat (get_bits s n w)) = (int (unat w) div 2 ^ s) mod 2 ^ n"
    by (simp add: unat_get_bits zdiv_int zmod_int)
  then show ?thesis by simp
qed

lemma unat_drop_bit_div: "unat (drop_bit n w) = unat w div 2 ^ n"
  for w :: "'a::len word"
  by (simp only: unat_drop_bit_eq) (rule drop_bit_eq_div)

lemma uint_drop_bit: "uint (drop_bit n w) = uint w div 2 ^ n"
  for w :: "'a::len word"
proof -
  have "unat (drop_bit n w) = unat w div 2 ^ n"
    by (simp only: unat_drop_bit_eq) (rule drop_bit_eq_div)
  then have "int (unat (drop_bit n w)) = int (unat w) div 2 ^ n"
    by (simp only: zdiv_int) simp
  then show ?thesis by simp
qed

lemma get_bits_less: "unat (get_bits s n w) < 2 ^ n"
  by (simp add: unat_get_bits)

lemma bit_put_bits [field_simps_word]:
  "bit (put_bits s n v w) i \<longleftrightarrow>
     i < LENGTH('a) \<and> ((bit w i \<and> \<not> (s \<le> i \<and> i < s + n)) \<or> (s \<le> i \<and> bit v (i - s)))"
  for v w :: "'a::len word"
  by (auto simp: put_bits_def bit_simps)

lemma not_bit_of_small:
  assumes "unat v < 2 ^ n" and "n \<le> i"
  shows "\<not> bit (v :: 'a::len word) i"
proof -
  have "take_bit n (unat v) = unat v"
    by (rule take_bit_nat_eq_self) (rule assms(1))
  then have "\<not> bit (unat v) i"
    using assms(2) by (metis bit_take_bit_iff not_le)
  then show ?thesis
    by (simp add: bit_unsigned_iff)
qed

text \<open>Reading back the field just written, when the value fits the field.\<close>

lemma get_put_same [simp]:
  assumes "unat v < 2 ^ n" and "s + n \<le> LENGTH('a)"
  shows "get_bits s n (put_bits s n v w) = (v :: 'a::len word)"
proof (rule bit_word_eqI)
  fix i assume "i < LENGTH('a)"
  have "i < n" if "bit v i"
    using not_bit_of_small [OF assms(1)] that not_le by blast
  then show "bit (get_bits s n (put_bits s n v w)) i = bit v i"
    using assms(2) by (auto simp: field_simps_word)
qed

text \<open>A disjoint field is untouched, when the value written fits its own field.\<close>

lemma get_put_other [simp]:
  assumes "unat v < 2 ^ n" and "s + n \<le> s' \<or> s' + n' \<le> s"
  shows "get_bits s' n' (put_bits s n v w) = get_bits s' n' (w :: 'a::len word)"
proof (rule bit_word_eqI)
  fix i assume "i < LENGTH('a)"
  have "\<not> bit v (s' + i - s)" if "s \<le> s' + i" "i < n'"
    by (rule not_bit_of_small [OF assms(1)]) (use assms(2) that in linarith)
  then show "bit (get_bits s' n' (put_bits s n v w)) i = bit (get_bits s' n' w) i"
    using assms(2) by (auto simp: field_simps_word dest: bit_imp_le_length)
qed

lemma get_bits_mono_len: "get_bits s n w = 0 \<Longrightarrow> m \<le> n \<Longrightarrow> get_bits s m w = 0"
  for w :: "'a::len word"
proof (rule bit_word_eqI)
  fix i assume "get_bits s n w = 0" "m \<le> n"
  then show "bit (get_bits s m w) i = bit 0 i"
    by (metis bit_0_eq bit_get_bits bot_apply bot_bool_def less_le_trans)
qed

subsection \<open>Page masks\<close>

text \<open>The sources align an address with \<open>addr & ~(pageSize - 1)\<close> and keep \<open>addr & (pageSize - 1)\<close>.\<close>

lemma mask_split_or: "(w AND NOT m) OR (w AND m) = (w :: 'a::len word)"
  by (rule bit_word_eqI) (auto simp: bit_simps)

lemma mask_split_plus: "(w AND NOT m) + (w AND m) = (w :: 'a::len word)"
proof -
  have "(w AND NOT m) AND (w AND m) = 0"
    by (rule bit_word_eqI) (auto simp: bit_simps)
  then have "(w AND NOT m) + (w AND m) = (w AND NOT m) OR (w AND m)"
    by (rule disjunctive_add_eq_or)
  then show ?thesis
    by (simp only: mask_split_or)
qed

lemma and_not_idem [simp]: "(w AND NOT m) AND NOT m = w AND NOT (m :: 'a::len word)"
  by (rule bit_word_eqI) (auto simp: bit_simps)

lemma unat_and_mask: "unat (w AND mask k) = unat w mod 2 ^ k"
  for w :: "'a::len word"
  using unat_get_bits [of 0 k w] by (simp add: get_bits_def)

lemma unat_and_not_mask: "unat (w AND NOT (mask k)) = unat w - unat w mod 2 ^ k"
  for w :: "'a::len word"
proof -
  have "w AND NOT (mask k) = w - (w AND mask k)"
    using mask_split_plus [of w "mask k"] by (simp add: algebra_simps)
  moreover have "w AND mask k \<le> w"
    by (simp add: word_le_nat_alt unat_and_mask)
  ultimately show ?thesis
    by (simp add: unat_sub unat_and_mask)
qed

subsection \<open>First position with a property\<close>

fun first_index :: "('a \<Rightarrow> bool) \<Rightarrow> 'a list \<Rightarrow> nat option" where
  "first_index P [] = None"
| "first_index P (x # xs) = (if P x then Some 0 else map_option Suc (first_index P xs))"

lemma first_index_None: "first_index P xs = None \<longleftrightarrow> (\<forall>x \<in> set xs. \<not> P x)"
  by (induction xs) auto

lemma first_index_Some:
  "first_index P xs = Some k \<longleftrightarrow> k < length xs \<and> P (xs ! k) \<and> (\<forall>j < k. \<not> P (xs ! j))"
proof (induction xs arbitrary: k)
  case Nil
  then show ?case by simp
next
  case (Cons x xs)
  then show ?case
    by (cases k) (auto simp: All_less_Suc2 nth_Cons split: nat.splits)
qed

lemma first_index_less: "first_index P xs = Some k \<Longrightarrow> k < length xs"
  by (simp add: first_index_Some)

end
