(* ===== verification/Bytes.thy ===== *)
theory Bytes
  imports Prelude
begin

text \<open>
  Byte sequences as the sources handle them: \<open>memcpy\<close> between a buffer and an array at an offset,
  and the little-endian image of an integer (\<open>memcpy\<close> of a \<open>uint32_t\<close> or \<open>uint64_t\<close>), with the
  laws of reading back what was written.
\<close>

subsection \<open>Copying into and out of an array\<close>

definition read_bytes :: "'b list \<Rightarrow> nat \<Rightarrow> nat \<Rightarrow> 'b list" where
  "read_bytes data a n = take n (drop a data)"

definition write_bytes :: "'b list \<Rightarrow> nat \<Rightarrow> 'b list \<Rightarrow> 'b list" where
  "write_bytes data a bs = take a data @ bs @ drop (a + length bs) data"

lemma length_read_bytes [simp]: "a + n \<le> length data \<Longrightarrow> length (read_bytes data a n) = n"
  by (simp add: read_bytes_def)

lemma length_write_bytes [simp]: "a + length bs \<le> length data \<Longrightarrow> length (write_bytes data a bs) = length data"
  by (simp add: write_bytes_def)

lemma nth_read_bytes: "a + n \<le> length data \<Longrightarrow> i < n \<Longrightarrow> read_bytes data a n ! i = data ! (a + i)"
  by (simp add: read_bytes_def)

lemma nth_write_bytes:
  "a + length bs \<le> length data \<Longrightarrow> i < length data \<Longrightarrow>
   write_bytes data a bs ! i = (if a \<le> i \<and> i < a + length bs then bs ! (i - a) else data ! i)"
  by (auto simp: write_bytes_def nth_append)

lemma read_write_same [simp]:
  "a + length bs \<le> length data \<Longrightarrow> read_bytes (write_bytes data a bs) a (length bs) = bs"
  by (simp add: read_bytes_def write_bytes_def)

lemma read_write_disjoint:
  assumes "a + length bs \<le> length data" "b + n \<le> length data" "b + n \<le> a \<or> a + length bs \<le> b"
  shows "read_bytes (write_bytes data a bs) b n = read_bytes data b n"
  using assms by (intro nth_equalityI) (auto simp: nth_read_bytes nth_write_bytes)

lemma write_bytes_split:
  assumes "a + length xs + length ys \<le> length data"
  shows "write_bytes (write_bytes data a xs) (a + length xs) ys = write_bytes data a (xs @ ys)"
proof (rule nth_equalityI)
  show "length (write_bytes (write_bytes data a xs) (a + length xs) ys) = length (write_bytes data a (xs @ ys))"
    using assms by simp
  fix i
  assume "i < length (write_bytes (write_bytes data a xs) (a + length xs) ys)"
  with assms show "write_bytes (write_bytes data a xs) (a + length xs) ys ! i = write_bytes data a (xs @ ys) ! i"
    by (auto simp: nth_write_bytes nth_append)
qed

lemma read_bytes_split:
  "read_bytes data a (m + n) = read_bytes data a m @ read_bytes data (a + m) n"
  by (simp add: read_bytes_def take_add add.commute)

subsection \<open>Little-endian integers\<close>

fun le_bytes :: "nat \<Rightarrow> 'a::len word \<Rightarrow> u8 list" where
  "le_bytes 0 w = []"
| "le_bytes (Suc n) w = ucast w # le_bytes n (drop_bit 8 w)"

fun le_value :: "u8 list \<Rightarrow> 'a::len word" where
  "le_value [] = 0"
| "le_value (b # bs) = ucast b OR push_bit 8 (le_value bs)"

lemma length_le_bytes [simp]: "length (le_bytes n w) = n"
  by (induction n w rule: le_bytes.induct) simp_all

lemma bit_le_value:
  "bit (le_value bs :: 'a::len word) i \<longleftrightarrow>
     i < LENGTH('a) \<and> i < 8 * length bs \<and> bit (bs ! (i div 8)) (i mod 8)"
proof (induction bs arbitrary: i)
  case Nil
  then show ?case by simp
next
  case (Cons b bs)
  show ?case
  proof (cases "i < 8")
    case True
    then show ?thesis
      by (auto simp: bit_simps)
  next
    case False
    then have "i div 8 = Suc ((i - 8) div 8)" "i mod 8 = (i - 8) mod 8"
      by (simp_all add: le_div_geq le_mod_geq not_less)
    moreover have "\<not> bit b i"
      using False by (auto dest: bit_imp_le_length)
    ultimately show ?thesis
      using False by (auto simp: bit_simps Cons.IH)
  qed
qed

lemma nth_le_bytes:
  "i < n \<Longrightarrow> le_bytes n w ! i = ucast (drop_bit (8 * i) w)"
proof (induction n w arbitrary: i rule: le_bytes.induct)
  case (1 w)
  then show ?case by simp
next
  case (2 n w)
  then show ?case
    by (cases i) (simp_all add: drop_bit_drop_bit add.commute)
qed

text \<open>Round trips, when the bytes cover the word exactly.\<close>

lemma le_value_le_bytes:
  assumes "8 * n = LENGTH('a)"
  shows "le_value (le_bytes n w) = (w :: 'a::len word)"
proof (rule bit_word_eqI)
  fix i
  assume i: "i < LENGTH('a)"
  with assms have "i div 8 < n"
    by (simp add: less_mult_imp_div_less)
  then have "bit (le_bytes n w ! (i div 8)) (i mod 8) = bit w (8 * (i div 8) + i mod 8)"
    by (simp add: nth_le_bytes bit_simps)
  with assms i show "bit (le_value (le_bytes n w) :: 'a word) i = bit w i"
    by (simp add: bit_le_value)
qed

lemma le_bytes_le_value:
  assumes "8 * length bs = LENGTH('a)"
  shows "le_bytes (length bs) (le_value bs :: 'a::len word) = bs"
proof (rule nth_equalityI)
  show "length (le_bytes (length bs) (le_value bs :: 'a word)) = length bs" by simp
  fix i
  assume "i < length (le_bytes (length bs) (le_value bs :: 'a word))"
  then have i: "i < length bs" by simp
  show "le_bytes (length bs) (le_value bs :: 'a word) ! i = bs ! i"
  proof (rule bit_word_eqI)
    fix j
    assume "j < LENGTH(8)"
    then have j: "j < 8" by simp
    with i assms have "8 * i + j < LENGTH('a)" by linarith
    with i j assms show "bit (le_bytes (length bs) (le_value bs :: 'a word) ! i) j = bit (bs ! i) j"
      by (simp add: nth_le_bytes bit_simps bit_le_value)
  qed
qed

subsection \<open>Powers of two\<close>

text \<open>\<open>n > 0 && (n & (n - 1)) == 0\<close>: the test the sources use for page and sector sizes.\<close>

definition IsPowerOfTwo :: "u64 \<Rightarrow> bool" where
  "IsPowerOfTwo n \<longleftrightarrow> n > 0 \<and> n AND (n - 1) = 0"

lemma bit_iff_odd_div: "bit (w :: u64) k \<longleftrightarrow> odd (unat w div 2 ^ k)"
proof -
  have "bit (unat w) k \<longleftrightarrow> odd (unat w div 2 ^ k)"
    by (rule bit_iff_odd)
  then show ?thesis
    by (auto simp: bit_unsigned_iff dest: bit_imp_le_length)
qed

lemma IsPowerOfTwo_iff: "IsPowerOfTwo n \<longleftrightarrow> (\<exists>k < 64. n = push_bit k 1)"
proof
  assume p: "IsPowerOfTwo n"
  then have n: "0 < unat n" by (simp add: IsPowerOfTwo_def word_less_nat_alt)
  then obtain k where k: "2 ^ k \<le> unat n" "unat n < 2 ^ (k + 1)"
    using ex_power_ivl1 [of 2 "unat n"] by auto
  have k64: "k < 64"
  proof (rule ccontr)
    assume "\<not> k < 64"
    then have "(2 :: nat) ^ 64 \<le> 2 ^ k" by (intro power_increasing) simp_all
    with k(1) unat_u64_less [of n] show False by linarith
  qed
  have pk: "unat (push_bit k 1 :: u64) = 2 ^ k"
  proof -
    have "unat (push_bit k 1 :: u64) = take_bit 64 (push_bit k 1)"
      by (subst unsigned_push_bit_eq) simp
    moreover have "(2 :: nat) ^ k < 2 ^ 64"
      using k64 by (intro power_strict_increasing) simp_all
    ultimately show ?thesis
      by (simp only: push_bit_eq_mult take_bit_nat_eq_self mult_1)
  qed
  have "n = push_bit k 1"
  proof (rule ccontr)
    assume ne: "n \<noteq> push_bit k 1"
    then have "2 ^ k < unat n"
      using k(1) pk by (metis le_neq_implies_less word_unat_eq_iff)
    then have m: "2 ^ k \<le> unat (n - 1)" "unat (n - 1) < 2 ^ (k + 1)"
      using n k(2) by (simp_all add: unat_minus_one unat_gt_0 [symmetric])
    have "x div 2 ^ k = 1" if "2 ^ k \<le> x" "x < 2 ^ (k + 1)" for x :: nat
      using that by (simp add: div_nat_eqI)
    then have "bit n k" "bit (n - 1) k"
      using k m by (simp_all add: bit_iff_odd_div)
    then have "bit (n AND (n - 1)) k" by (simp add: bit_simps)
    with p show False by (simp add: IsPowerOfTwo_def)
  qed
  with k64 show "\<exists>k < 64. n = push_bit k 1" by blast
next
  assume "\<exists>k < 64. n = push_bit k 1"
  then obtain k where k: "k < 64" "n = push_bit k 1" by blast
  have m: "n - 1 = mask k"
    by (simp add: k(2) mask_eq_exp_minus_1 push_bit_eq_mult)
  have "n \<noteq> 0"
  proof
    assume "n = 0"
    moreover have "bit n k" using k by (simp add: bit_simps)
    ultimately show False by simp
  qed
  then show "IsPowerOfTwo n"
    by (simp add: IsPowerOfTwo_def m word_neq_0_conv)
      (simp add: k(2), rule bit_word_eqI, auto simp: bit_simps)
qed

end
