(* ===== verification/Bounded_History.thy ===== *)
theory Bounded_History
  imports Prelude
begin

text \<open>
  The interface of the bounded logs of the program (the MMU's instruction trace, the boot
  state history, the console scrollback): appending keeps the newest \<open>limit\<close> entries. The locale
  states that one law and derives what the clients rely on: the log never exceeds its limit, it is
  a suffix of everything that was appended, and the newest entry is always present.
\<close>

locale bounded_history =
  fixes limit :: nat
    and add :: "'a \<Rightarrow> 'a list \<Rightarrow> 'a list"
  assumes add_newest: "length h \<le> limit \<Longrightarrow> add x h = drop (Suc (length h) - limit) (h @ [x])"
begin

lemma add_bounded: "length h \<le> limit \<Longrightarrow> length (add x h) \<le> limit"
  by (simp add: add_newest)

lemma fold_bounded: "length h \<le> limit \<Longrightarrow> length (fold add xs h) \<le> limit"
  by (induction xs arbitrary: h) (simp_all add: add_bounded)

text \<open>After any sequence of appends the log is the newest part of the whole sequence.\<close>

lemma fold_newest:
  "length h \<le> limit \<Longrightarrow> fold add xs h = drop (length h + length xs - limit) (h @ xs)"
proof (induction xs arbitrary: h)
  case Nil
  then show ?case by simp
next
  case (Cons x xs)
  let ?h = "add x h"
  have "fold add (x # xs) h = drop (length ?h + length xs - limit) (?h @ xs)"
    using Cons by (simp add: add_bounded)
  also have "\<dots> = drop (length h + length (x # xs) - limit) (h @ x # xs)"
  proof (cases "Suc (length h) \<le> limit")
    case True
    then have "?h = h @ [x]" using Cons.prems by (simp add: add_newest)
    then show ?thesis by simp
  next
    case False
    with Cons.prems have l: "length h = limit" by simp
    then have "?h = drop 1 (h @ [x])" using Cons.prems by (simp add: add_newest)
    then have "length ?h = length h" "?h @ xs = drop 1 (h @ x # xs)"
      by (cases h; simp)+
    moreover have "length h + length (x # xs) - limit = Suc (length xs)"
      using l by simp
    ultimately show ?thesis
      using l by (simp only: drop_drop) (simp only: diff_add_inverse add_Suc_right add_0_right One_nat_def)
  qed
  finally show ?case .
qed

lemma newest_present: "0 < limit \<Longrightarrow> length h \<le> limit \<Longrightarrow> x \<in> set (add x h)"
  by (simp add: add_newest)

end

end
