(* ===== verification/Mmu.thy ===== *)
theory Mmu
  imports Bytes Bounded_History
begin

text \<open>
  The memory management unit (\<open>src/src/mmu/mmu.cpp\<close>, \<open>src/include/IMMU.h\<close>, \<open>mmu.h\<close>,
  \<open>Watchpoint.h\<close>): the single-level page table as a map from page addresses to entries, translation,
  permission checks, access hooks, watchpoints and the instruction trace. A hook receives the
  access and the buffer and returns whether it still allows the access together with the buffer it
  leaves; a watchpoint callback returns the two control flags it may change. Logging and the textual
  dumps are not modelled.
\<close>

subsection \<open>Data\<close>

datatype access_type = ACC_READ | ACC_WRITE | ACC_EXECUTE | ACC_NON_ACCESS

text \<open>\<open>PermissionFlags\<close> is a set of bits in a \<open>uint8_t\<close>.\<close>

abbreviation "PERM_NONE \<equiv> 0 :: u8"
abbreviation "PERM_READ \<equiv> 1 :: u8"
abbreviation "PERM_WRITE \<equiv> 2 :: u8"
abbreviation "PERM_EXECUTE \<equiv> 4 :: u8"

definition HasPermission :: "u8 \<Rightarrow> u8 \<Rightarrow> bool" where
  "HasPermission flags required \<longleftrightarrow> flags AND required = required"

datatype fault_type =
    NOT_MAPPED
  | NOT_PRESENT
  | PERMISSION_READ
  | PERMISSION_WRITE
  | PERMISSION_EXEC

text \<open>What a memory access may throw: a \<open>PageFault\<close> or one of the standard exceptions.\<close>

datatype mem_error =
    PageFault fault_type u64 access_type
  | Std cpp_error

record page_entry =
  pe_physicalAddress :: u64
  pe_permissions :: u8
  pe_present :: bool
  pe_accessed :: bool
  pe_dirty :: bool

definition PageEntry :: "u64 \<Rightarrow> u8 \<Rightarrow> page_entry" where
  "PageEntry physAddr perms = \<lparr>pe_physicalAddress = physAddr, pe_permissions = perms,
     pe_present = True, pe_accessed = False, pe_dirty = False\<rparr>"

record hook_context =
  hc_address :: u64
  hc_physicalAddress :: u64
  hc_size :: nat
  hc_accessType :: access_type

type_synonym memory_hook = "hook_context \<Rightarrow> u8 list \<Rightarrow> bool \<times> u8 list"

datatype wp_type = WP_READ | WP_WRITE | WP_ACCESS

datatype wp_condition =
    COND_ALWAYS
  | COND_VALUE_EQUALS
  | COND_VALUE_NOT_EQUALS
  | COND_VALUE_CHANGED
  | COND_VALUE_GREATER
  | COND_VALUE_LESS

record instruction_trace =
  it_instructionPointer :: u64
  it_bundleAddress :: u64
  it_disassembly :: string
  it_timestamp :: u64

record wp_context =
  wc_address :: u64
  wc_watchpointStart :: u64
  wc_watchpointEnd :: u64
  wc_accessSize :: nat
  wc_triggerType :: wp_type
  wc_data :: "u8 list"
  wc_oldValue :: u64
  wc_newValue :: u64
  wc_isWrite :: bool
  wc_instructionTrace :: "instruction_trace list"

text \<open>A callback's answer: \<open>continueExecution\<close> and \<open>skipAccess\<close> as it leaves them.\<close>

type_synonym wp_callback = "wp_context \<Rightarrow> bool \<times> bool"

record watchpoint =
  wp_id :: nat
  wp_addressStart :: u64
  wp_addressEnd :: u64
  wp_kind :: wp_type
  wp_cond :: wp_condition
  wp_conditionValue :: u64
  wp_callback_fn :: "wp_callback option"
  wp_enabled :: bool
  wp_captureInstructions :: bool
  wp_instructionTraceDepth :: nat
  wp_triggerCount :: nat
  wp_maxTriggers :: nat
  wp_lastValue :: u64
  wp_hasLastValue :: bool

definition new_watchpoint :: "u64 \<Rightarrow> u64 \<Rightarrow> wp_type \<Rightarrow> wp_callback option \<Rightarrow> watchpoint" where
  "new_watchpoint start end ty cb = \<lparr>wp_id = 0, wp_addressStart = start, wp_addressEnd = end,
     wp_kind = ty, wp_cond = COND_ALWAYS, wp_conditionValue = 0, wp_callback_fn = cb,
     wp_enabled = True, wp_captureInstructions = False, wp_instructionTraceDepth = 0,
     wp_triggerCount = 0, wp_maxTriggers = 0, wp_lastValue = 0, wp_hasLastValue = False\<rparr>"

record mmu =
  mmu_pageTable :: "u64 \<Rightarrow> page_entry option"
  mmu_readHooks :: "(nat \<times> memory_hook) list"
  mmu_writeHooks :: "(nat \<times> memory_hook) list"
  mmu_nextHookId :: nat
  mmu_watchpoints :: "watchpoint list"
  mmu_nextWatchpointId :: nat
  mmu_traceBuffer :: "instruction_trace list"
  mmu_traceDepth :: nat
  mmu_pageSize :: u64
  mmu_enabled :: bool

text \<open>The constructor, with its two checks of the page size.\<close>

definition MMU :: "u64 \<Rightarrow> bool \<Rightarrow> cpp_error + mmu" where
  "MMU pageSize enabled =
     (if \<not> IsPowerOfTwo pageSize then Inl InvalidArgument
      else if pageSize < 256 \<or> pageSize > 256 * 1024 * 1024 then Inl InvalidArgument
      else Inr \<lparr>mmu_pageTable = Map.empty, mmu_readHooks = [], mmu_writeHooks = [],
             mmu_nextHookId = 0, mmu_watchpoints = [], mmu_nextWatchpointId = 0,
             mmu_traceBuffer = [], mmu_traceDepth = 100, mmu_pageSize = pageSize,
             mmu_enabled = enabled\<rparr>)"

definition AlignToPage :: "mmu \<Rightarrow> u64 \<Rightarrow> u64" where
  "AlignToPage m addr = addr AND NOT (mmu_pageSize m - 1)"

definition GetPageOffset :: "mmu \<Rightarrow> u64 \<Rightarrow> u64" where
  "GetPageOffset m addr = addr AND (mmu_pageSize m - 1)"

subsection \<open>Translation\<close>

definition TranslateAddress :: "mmu \<Rightarrow> u64 \<Rightarrow> mem_error + u64" where
  "TranslateAddress m va =
     (if \<not> mmu_enabled m then Inr va
      else case mmu_pageTable m (AlignToPage m va) of
             None \<Rightarrow> Inl (PageFault NOT_MAPPED va ACC_READ)
           | Some entry \<Rightarrow>
               if \<not> pe_present entry then Inl (PageFault NOT_PRESENT va ACC_READ)
               else Inr (pe_physicalAddress entry + GetPageOffset m va))"

definition CanTranslate :: "mmu \<Rightarrow> u64 \<Rightarrow> bool" where
  "CanTranslate m va \<longleftrightarrow>
     (if \<not> mmu_enabled m then True
      else case mmu_pageTable m (AlignToPage m va) of
             None \<Rightarrow> False | Some entry \<Rightarrow> pe_present entry)"

subsection \<open>The page table\<close>

definition MapPage :: "u64 \<Rightarrow> u64 \<Rightarrow> u8 \<Rightarrow> mmu \<Rightarrow> mmu" where
  "MapPage va pa permissions m =
     m\<lparr>mmu_pageTable := (mmu_pageTable m)(AlignToPage m va \<mapsto> PageEntry (AlignToPage m pa) permissions)\<rparr>"

definition UnmapPage :: "u64 \<Rightarrow> mmu \<Rightarrow> mmu" where
  "UnmapPage va m = m\<lparr>mmu_pageTable := (mmu_pageTable m)(AlignToPage m va := None)\<rparr>"

definition GetPageEntry :: "mmu \<Rightarrow> u64 \<Rightarrow> page_entry option" where
  "GetPageEntry m va = mmu_pageTable m (AlignToPage m va)"

definition SetPagePermissions :: "u64 \<Rightarrow> u8 \<Rightarrow> mmu \<Rightarrow> cpp_error + mmu" where
  "SetPagePermissions va permissions m =
     (case mmu_pageTable m (AlignToPage m va) of
        None \<Rightarrow> Inl RuntimeError
      | Some entry \<Rightarrow>
          Inr (m\<lparr>mmu_pageTable := (mmu_pageTable m)
                  (AlignToPage m va \<mapsto> entry\<lparr>pe_permissions := permissions\<rparr>)\<rparr>))"

definition ClearPageTable :: "mmu \<Rightarrow> mmu" where
  "ClearPageTable m = m\<lparr>mmu_pageTable := Map.empty\<rparr>"

definition RestorePageTable :: "(u64 \<Rightarrow> page_entry option) \<Rightarrow> mmu \<Rightarrow> mmu" where
  "RestorePageTable pt m = m\<lparr>mmu_pageTable := pt\<rparr>"

definition SetEnabled :: "bool \<Rightarrow> mmu \<Rightarrow> mmu" where
  "SetEnabled b m = m\<lparr>mmu_enabled := b\<rparr>"

text \<open>The loop of \<open>MapIdentityRange\<close>; a loop that does not end is \<open>None\<close>.\<close>

partial_function (option) map_range_loop :: "u64 \<Rightarrow> u64 \<Rightarrow> u8 \<Rightarrow> mmu \<Rightarrow> mmu option" where
  "map_range_loop addr pageEnd permissions m =
     (if addr < pageEnd
      then map_range_loop (addr + mmu_pageSize m) pageEnd permissions (MapPage addr addr permissions m)
      else Some m)"

definition range_end :: "mmu \<Rightarrow> u64 \<Rightarrow> u64 \<Rightarrow> u64" where
  "range_end m startAddr sz =
     (let endAddr = startAddr + sz;
          pageEnd = AlignToPage m endAddr
      in if GetPageOffset m endAddr \<noteq> 0 then pageEnd + mmu_pageSize m else pageEnd)"

definition MapIdentityRange :: "u64 \<Rightarrow> u64 \<Rightarrow> u8 \<Rightarrow> mmu \<Rightarrow> mmu option" where
  "MapIdentityRange startAddr sz permissions m =
     map_range_loop (AlignToPage m startAddr) (range_end m startAddr sz) permissions m"

subsection \<open>Permissions\<close>

definition CheckPermission :: "mmu \<Rightarrow> u64 \<Rightarrow> access_type \<Rightarrow> bool" where
  "CheckPermission m va acc \<longleftrightarrow>
     (if \<not> mmu_enabled m then True
      else case GetPageEntry m va of
             None \<Rightarrow> False
           | Some entry \<Rightarrow>
               if \<not> pe_present entry then False
               else (case acc of
                       ACC_READ \<Rightarrow> HasPermission (pe_permissions entry) PERM_READ
                     | ACC_WRITE \<Rightarrow> HasPermission (pe_permissions entry) PERM_WRITE
                     | ACC_EXECUTE \<Rightarrow> HasPermission (pe_permissions entry) PERM_EXECUTE
                     | ACC_NON_ACCESS \<Rightarrow> True))"

definition CheckPermissionOrThrow :: "mmu \<Rightarrow> u64 \<Rightarrow> access_type \<Rightarrow> mem_error + unit" where
  "CheckPermissionOrThrow m va acc =
     (if \<not> mmu_enabled m then Inr ()
      else case mmu_pageTable m (AlignToPage m va) of
             None \<Rightarrow> Inl (PageFault NOT_MAPPED va acc)
           | Some entry \<Rightarrow>
               if \<not> pe_present entry then Inl (PageFault NOT_PRESENT va acc)
               else
                 let (hasPermission, faultType) =
                   (case acc of
                      ACC_READ \<Rightarrow> (HasPermission (pe_permissions entry) PERM_READ, PERMISSION_READ)
                    | ACC_WRITE \<Rightarrow> (HasPermission (pe_permissions entry) PERM_WRITE, PERMISSION_WRITE)
                    | ACC_EXECUTE \<Rightarrow> (HasPermission (pe_permissions entry) PERM_EXECUTE, PERMISSION_EXEC)
                    | ACC_NON_ACCESS \<Rightarrow> (True, PERMISSION_READ))
                 in if \<not> hasPermission then Inl (PageFault faultType va acc) else Inr ())"

subsection \<open>Hooks\<close>

definition RegisterReadHook :: "memory_hook \<Rightarrow> mmu \<Rightarrow> nat \<times> mmu" where
  "RegisterReadHook hook m =
     (mmu_nextHookId m, m\<lparr>mmu_readHooks := mmu_readHooks m @ [(mmu_nextHookId m, hook)],
                          mmu_nextHookId := mmu_nextHookId m + 1\<rparr>)"

definition RegisterWriteHook :: "memory_hook \<Rightarrow> mmu \<Rightarrow> nat \<times> mmu" where
  "RegisterWriteHook hook m =
     (mmu_nextHookId m, m\<lparr>mmu_writeHooks := mmu_writeHooks m @ [(mmu_nextHookId m, hook)],
                          mmu_nextHookId := mmu_nextHookId m + 1\<rparr>)"

definition UnregisterReadHook :: "nat \<Rightarrow> mmu \<Rightarrow> mmu" where
  "UnregisterReadHook hookId m =
     m\<lparr>mmu_readHooks := filter (\<lambda>h. fst h \<noteq> hookId) (mmu_readHooks m)\<rparr>"

definition UnregisterWriteHook :: "nat \<Rightarrow> mmu \<Rightarrow> mmu" where
  "UnregisterWriteHook hookId m =
     m\<lparr>mmu_writeHooks := filter (\<lambda>h. fst h \<noteq> hookId) (mmu_writeHooks m)\<rparr>"

definition ClearHooks :: "mmu \<Rightarrow> mmu" where
  "ClearHooks m = m\<lparr>mmu_readHooks := [], mmu_writeHooks := []\<rparr>"

text \<open>The loop over the hooks: it stops at the first that denies; the buffer is threaded through.\<close>

fun run_hooks :: "(nat \<times> memory_hook) list \<Rightarrow> hook_context \<Rightarrow> u8 list \<Rightarrow> bool \<times> u8 list" where
  "run_hooks [] context data = (True, data)"
| "run_hooks ((i, callback) # hooks) context data =
     (case callback context data of
        (allow, data') \<Rightarrow> if \<not> allow then (False, data') else run_hooks hooks context data')"

subsection \<open>Watchpoints\<close>

text \<open>\<open>Watchpoint::ShouldTrigger\<close>; the end of the access wraps like the \<open>uint64_t\<close> it is.\<close>

definition ShouldTrigger :: "watchpoint \<Rightarrow> u64 \<Rightarrow> nat \<Rightarrow> bool \<Rightarrow> bool" where
  "ShouldTrigger wp address sz isWrite \<longleftrightarrow>
     (if \<not> wp_enabled wp then False
      else
        let accessEnd = address + of_nat sz in
        if accessEnd \<le> wp_addressStart wp \<or> address \<ge> wp_addressEnd wp then False
        else if wp_kind wp = WP_READ \<and> isWrite then False
        else if wp_kind wp = WP_WRITE \<and> \<not> isWrite then False
        else if wp_maxTriggers wp > 0 \<and> wp_triggerCount wp \<ge> wp_maxTriggers wp then False
        else True)"

text \<open>\<open>Watchpoint::CheckCondition\<close> updates the remembered value, so it returns the watchpoint too.\<close>

definition CheckCondition :: "watchpoint \<Rightarrow> u64 \<Rightarrow> bool \<times> watchpoint" where
  "CheckCondition wp value =
     (case wp_cond wp of
        COND_ALWAYS \<Rightarrow> (True, wp)
      | COND_VALUE_EQUALS \<Rightarrow> (value = wp_conditionValue wp, wp)
      | COND_VALUE_NOT_EQUALS \<Rightarrow> (value \<noteq> wp_conditionValue wp, wp)
      | COND_VALUE_CHANGED \<Rightarrow>
          if \<not> wp_hasLastValue wp
          then (False, wp\<lparr>wp_lastValue := value, wp_hasLastValue := True\<rparr>)
          else (value \<noteq> wp_lastValue wp, wp\<lparr>wp_lastValue := value\<rparr>)
      | COND_VALUE_GREATER \<Rightarrow> (value > wp_conditionValue wp, wp)
      | COND_VALUE_LESS \<Rightarrow> (value < wp_conditionValue wp, wp))"

definition ExtractValue :: "u8 list \<Rightarrow> nat \<Rightarrow> u64" where
  "ExtractValue data sz = (if sz = 0 then 0 else le_value (take (min sz 8) data))"

definition captured_trace :: "instruction_trace list \<Rightarrow> watchpoint \<Rightarrow> instruction_trace list" where
  "captured_trace buffer wp =
     (if wp_captureInstructions wp \<and> wp_instructionTraceDepth wp > 0
      then let traceCount = min (wp_instructionTraceDepth wp) (length buffer)
           in drop (length buffer - traceCount) buffer
      else [])"

definition wp_context_of ::
  "instruction_trace list \<Rightarrow> watchpoint \<Rightarrow> u64 \<Rightarrow> nat \<Rightarrow> bool \<Rightarrow> u8 list \<Rightarrow> u64 \<Rightarrow> wp_context" where
  "wp_context_of buffer wp address sz isWrite data value =
     \<lparr>wc_address = address, wc_watchpointStart = wp_addressStart wp,
      wc_watchpointEnd = wp_addressEnd wp, wc_accessSize = sz, wc_triggerType = wp_kind wp,
      wc_data = data, wc_oldValue = wp_lastValue wp, wc_newValue = value, wc_isWrite = isWrite,
      wc_instructionTrace = captured_trace buffer wp\<rparr>"

text \<open>One iteration of the loop of \<open>CheckWatchpoints\<close>: whether the loop goes on, the context the
  callback was given (when it was reached) and the watchpoint it leaves.\<close>

definition check_watchpoint ::
  "instruction_trace list \<Rightarrow> u64 \<Rightarrow> nat \<Rightarrow> bool \<Rightarrow> u8 list \<Rightarrow> watchpoint
     \<Rightarrow> bool \<times> wp_context option \<times> watchpoint" where
  "check_watchpoint buffer address sz isWrite data wp =
     (if \<not> ShouldTrigger wp address sz isWrite then (True, None, wp)
      else
        let value = ExtractValue data sz;
            (cond, wp1) = CheckCondition wp value
        in if \<not> cond then (True, None, wp1)
           else
             let context = wp_context_of buffer wp1 address sz isWrite data value;
                 wp2 = wp1\<lparr>wp_triggerCount := wp_triggerCount wp1 + 1\<rparr>;
                 (continueExecution, skipAccess) =
                   (case wp_callback_fn wp2 of None \<Rightarrow> (True, False) | Some f \<Rightarrow> f context);
                 wp3 = (if wp_maxTriggers wp2 > 0 \<and> wp_triggerCount wp2 \<ge> wp_maxTriggers wp2
                        then wp2\<lparr>wp_enabled := False\<rparr> else wp2)
             in (\<not> (\<not> continueExecution \<or> skipAccess), Some context, wp3))"

fun CheckWatchpoints ::
  "instruction_trace list \<Rightarrow> u64 \<Rightarrow> nat \<Rightarrow> bool \<Rightarrow> u8 list \<Rightarrow> watchpoint list
     \<Rightarrow> bool \<times> watchpoint list" where
  "CheckWatchpoints buffer address sz isWrite data [] = (True, [])"
| "CheckWatchpoints buffer address sz isWrite data (wp # wps) =
     (case check_watchpoint buffer address sz isWrite data wp of
        (go_on, ctx, wp') \<Rightarrow>
          if \<not> go_on then (False, wp' # wps)
          else
            (case CheckWatchpoints buffer address sz isWrite data wps of
               (ok, wps') \<Rightarrow> (ok, wp' # wps')))"

definition RegisterWatchpoint :: "watchpoint \<Rightarrow> mmu \<Rightarrow> nat \<times> mmu" where
  "RegisterWatchpoint wp m =
     (mmu_nextWatchpointId m,
      m\<lparr>mmu_watchpoints := mmu_watchpoints m @ [wp\<lparr>wp_id := mmu_nextWatchpointId m\<rparr>],
        mmu_nextWatchpointId := mmu_nextWatchpointId m + 1\<rparr>)"

text \<open>\<open>erase\<close> of the first match, and the update of the first match.\<close>

fun erase_first :: "('a \<Rightarrow> bool) \<Rightarrow> 'a list \<Rightarrow> 'a list option" where
  "erase_first P [] = None"
| "erase_first P (x # xs) = (if P x then Some xs else map_option ((#) x) (erase_first P xs))"

fun update_first :: "('a \<Rightarrow> bool) \<Rightarrow> ('a \<Rightarrow> 'a) \<Rightarrow> 'a list \<Rightarrow> 'a list option" where
  "update_first P f [] = None"
| "update_first P f (x # xs) =
     (if P x then Some (f x # xs) else map_option ((#) x) (update_first P f xs))"

definition UnregisterWatchpoint :: "nat \<Rightarrow> mmu \<Rightarrow> bool \<times> mmu" where
  "UnregisterWatchpoint wid m =
     (case erase_first (\<lambda>wp. wp_id wp = wid) (mmu_watchpoints m) of
        Some wps \<Rightarrow> (True, m\<lparr>mmu_watchpoints := wps\<rparr>)
      | None \<Rightarrow> (False, m))"

definition SetWatchpointEnabled :: "nat \<Rightarrow> bool \<Rightarrow> mmu \<Rightarrow> bool \<times> mmu" where
  "SetWatchpointEnabled wid b m =
     (case update_first (\<lambda>wp. wp_id wp = wid) (\<lambda>wp. wp\<lparr>wp_enabled := b\<rparr>) (mmu_watchpoints m) of
        Some wps \<Rightarrow> (True, m\<lparr>mmu_watchpoints := wps\<rparr>)
      | None \<Rightarrow> (False, m))"

definition GetWatchpoint :: "mmu \<Rightarrow> nat \<Rightarrow> watchpoint option" where
  "GetWatchpoint m wid = find (\<lambda>wp. wp_id wp = wid) (mmu_watchpoints m)"

definition ClearWatchpoints :: "mmu \<Rightarrow> mmu" where
  "ClearWatchpoints m = m\<lparr>mmu_watchpoints := []\<rparr>"

subsection \<open>Instruction trace\<close>

definition trace_add :: "nat \<Rightarrow> instruction_trace \<Rightarrow> instruction_trace list \<Rightarrow> instruction_trace list" where
  "trace_add depth t buffer =
     (let b = buffer @ [t] in if length b > depth then drop 1 b else b)"

definition AddInstructionTrace :: "instruction_trace \<Rightarrow> mmu \<Rightarrow> mmu" where
  "AddInstructionTrace t m = m\<lparr>mmu_traceBuffer := trace_add (mmu_traceDepth m) t (mmu_traceBuffer m)\<rparr>"

definition ClearInstructionTrace :: "mmu \<Rightarrow> mmu" where
  "ClearInstructionTrace m = m\<lparr>mmu_traceBuffer := []\<rparr>"

fun trim_trace :: "nat \<Rightarrow> instruction_trace list \<Rightarrow> instruction_trace list" where
  "trim_trace depth [] = []"
| "trim_trace depth (t # ts) = (if length (t # ts) > depth then trim_trace depth ts else t # ts)"

definition SetInstructionTraceDepth :: "nat \<Rightarrow> mmu \<Rightarrow> mmu" where
  "SetInstructionTraceDepth depth m =
     m\<lparr>mmu_traceDepth := depth, mmu_traceBuffer := trim_trace depth (mmu_traceBuffer m)\<rparr>"

subsection \<open>Hooks and watchpoints around an access\<close>

text \<open>The result: whether the access may proceed, the buffer after the hooks, the new MMU.\<close>

definition InvokeReadHooks :: "u64 \<Rightarrow> u64 \<Rightarrow> u8 list \<Rightarrow> mmu \<Rightarrow> bool \<times> u8 list \<times> mmu" where
  "InvokeReadHooks va pa data m =
     (case run_hooks (mmu_readHooks m)
             \<lparr>hc_address = va, hc_physicalAddress = pa, hc_size = length data, hc_accessType = ACC_READ\<rparr> data of
        (allow, data') \<Rightarrow>
          if \<not> allow then (False, data', m)
          else
            (case CheckWatchpoints (mmu_traceBuffer m) va (length data) False data' (mmu_watchpoints m) of
               (ok, wps) \<Rightarrow> (ok, data', m\<lparr>mmu_watchpoints := wps\<rparr>)))"

definition InvokeWriteHooks :: "u64 \<Rightarrow> u64 \<Rightarrow> u8 list \<Rightarrow> mmu \<Rightarrow> bool \<times> u8 list \<times> mmu" where
  "InvokeWriteHooks va pa data m =
     (case run_hooks (mmu_writeHooks m)
             \<lparr>hc_address = va, hc_physicalAddress = pa, hc_size = length data, hc_accessType = ACC_WRITE\<rparr> data of
        (allow, data') \<Rightarrow>
          if \<not> allow then (False, data', m)
          else
            (case CheckWatchpoints (mmu_traceBuffer m) va (length data) True data' (mmu_watchpoints m) of
               (ok, wps) \<Rightarrow> (ok, data', m\<lparr>mmu_watchpoints := wps\<rparr>)))"

end
