(* ===== verification/Mmu_Props.thy ===== *)
theory Mmu_Props
  imports Mmu
begin

text \<open>
  Correctness of the memory management unit: page arithmetic, what mapping, unmapping and
  permission changes do to every translation, the identity range loop, agreement of the throwing
  and the boolean permission checks, watchpoint trigger budgets and the instruction trace.
\<close>

subsection \<open>Page arithmetic\<close>

definition page_size_bits :: "mmu \<Rightarrow> nat \<Rightarrow> bool" where
  "page_size_bits m k \<longleftrightarrow> 8 \<le> k \<and> k \<le> 28 \<and> mmu_pageSize m = push_bit k 1"

definition mmu_ok :: "mmu \<Rightarrow> bool" where
  "mmu_ok m \<longleftrightarrow> (\<exists>k. page_size_bits m k)"

lemma unat_push_bit_one: "k < 64 \<Longrightarrow> unat (push_bit k 1 :: u64) = 2 ^ k"
proof -
  assume k: "k < 64"
  have "unat (push_bit k 1 :: u64) = take_bit 64 (push_bit k 1)"
    by (subst unsigned_push_bit_eq) simp
  moreover have "(2 :: nat) ^ k < 2 ^ 64"
    using k by (intro power_strict_increasing) simp_all
  ultimately show ?thesis
    by (simp only: push_bit_eq_mult take_bit_nat_eq_self mult_1)
qed

lemma MMU_ok:
  assumes "MMU ps en = Inr m"
  shows "mmu_ok m \<and> mmu_pageSize m = ps \<and> mmu_pageTable m = Map.empty \<and> mmu_enabled m = en"
proof -
  have p: "IsPowerOfTwo ps" "256 \<le> ps" "ps \<le> 256 * 1024 * 1024"
    and m: "mmu_pageSize m = ps" "mmu_pageTable m = Map.empty" "mmu_enabled m = en"
    using assms by (auto simp: MMU_def not_less split: if_splits)
  from p(1) obtain k where k: "k < 64" "ps = push_bit k 1"
    unfolding IsPowerOfTwo_iff by blast
  have "(2 :: nat) ^ 8 \<le> 2 ^ k" "(2 :: nat) ^ k \<le> 2 ^ 28"
    using p(2,3) unat_push_bit_one [OF k(1)] by (simp_all add: word_le_nat_alt k(2))
  then have "8 \<le> k" "k \<le> 28"
    by (simp_all only: power_increasing_iff power_inject_exp one_less_numeral_iff semiring_norm)
  with m k show ?thesis
    by (auto simp: mmu_ok_def page_size_bits_def)
qed

lemma page_size_mask: "page_size_bits m k \<Longrightarrow> mmu_pageSize m - 1 = mask k"
  by (simp add: page_size_bits_def mask_eq_exp_minus_1 push_bit_eq_mult)

lemma AlignToPage_mask: "page_size_bits m k \<Longrightarrow> AlignToPage m a = a AND NOT (mask k)"
  by (simp add: AlignToPage_def page_size_mask)

lemma GetPageOffset_mask: "page_size_bits m k \<Longrightarrow> GetPageOffset m a = a AND mask k"
  by (simp add: GetPageOffset_def page_size_mask)

lemma align_plus_offset: "AlignToPage m a + GetPageOffset m a = a"
  by (simp add: AlignToPage_def GetPageOffset_def mask_split_plus)

lemma AlignToPage_idem [simp]: "AlignToPage m (AlignToPage m a) = AlignToPage m a"
  by (simp add: AlignToPage_def)

lemma unat_AlignToPage: "page_size_bits m k \<Longrightarrow> unat (AlignToPage m a) = unat a - unat a mod 2 ^ k"
  by (simp add: AlignToPage_mask unat_and_not_mask)

lemma unat_GetPageOffset: "page_size_bits m k \<Longrightarrow> unat (GetPageOffset m a) = unat a mod 2 ^ k"
  by (simp add: GetPageOffset_mask unat_and_mask)

lemma AlignToPage_cong: "mmu_pageSize m = mmu_pageSize m' \<Longrightarrow> AlignToPage m = AlignToPage m'"
  by (simp add: AlignToPage_def fun_eq_iff)

lemma GetPageOffset_cong: "mmu_pageSize m = mmu_pageSize m' \<Longrightarrow> GetPageOffset m = GetPageOffset m'"
  by (simp add: GetPageOffset_def fun_eq_iff)

lemma MapPage_simps [simp]:
  "mmu_pageSize (MapPage va pa p m) = mmu_pageSize m"
  "mmu_enabled (MapPage va pa p m) = mmu_enabled m"
  "AlignToPage (MapPage va pa p m) = AlignToPage m"
  "GetPageOffset (MapPage va pa p m) = GetPageOffset m"
  by (simp_all add: MapPage_def AlignToPage_def GetPageOffset_def fun_eq_iff)

lemma UnmapPage_simps [simp]:
  "mmu_pageSize (UnmapPage va m) = mmu_pageSize m"
  "mmu_enabled (UnmapPage va m) = mmu_enabled m"
  "AlignToPage (UnmapPage va m) = AlignToPage m"
  "GetPageOffset (UnmapPage va m) = GetPageOffset m"
  by (simp_all add: UnmapPage_def AlignToPage_def GetPageOffset_def fun_eq_iff)

subsection \<open>What an operation does to every translation\<close>

text \<open>mapping a page sets the translation and the rights of exactly the addresses of that page
  (frame address plus page offset, the given permission bits), unmapping it makes exactly those
  addresses fault as not mapped, and every other address keeps its translation and rights.\<close>

theorem map_unmap_page:
  assumes "mmu_enabled m"
  shows
    "TranslateAddress (MapPage va pa p m) x =
       (if AlignToPage m x = AlignToPage m va then Inr (AlignToPage m pa + GetPageOffset m x)
        else TranslateAddress m x) \<and>
     CheckPermission (MapPage va pa p m) x acc =
       (if AlignToPage m x = AlignToPage m va
        then (case acc of ACC_READ \<Rightarrow> HasPermission p PERM_READ | ACC_WRITE \<Rightarrow> HasPermission p PERM_WRITE
              | ACC_EXECUTE \<Rightarrow> HasPermission p PERM_EXECUTE | ACC_NON_ACCESS \<Rightarrow> True)
        else CheckPermission m x acc) \<and>
     TranslateAddress (UnmapPage va m) x =
       (if AlignToPage m x = AlignToPage m va then Inl (PageFault NOT_MAPPED x ACC_READ)
        else TranslateAddress m x) \<and>
     CheckPermission (UnmapPage va m) x acc =
       (AlignToPage m x \<noteq> AlignToPage m va \<and> CheckPermission m x acc)"
proof -
  have t: "mmu_pageTable (MapPage va pa p m) y =
      (if y = AlignToPage m va then Some (PageEntry (AlignToPage m pa) p) else mmu_pageTable m y)"
    "mmu_pageTable (UnmapPage va m) y = (if y = AlignToPage m va then None else mmu_pageTable m y)" for y
    by (simp_all add: MapPage_def UnmapPage_def)
  show ?thesis
    using assms
    by (simp add: TranslateAddress_def CheckPermission_def GetPageEntry_def t PageEntry_def
      split: option.split access_type.split)
qed

lemma map_unmap_page_witness:
  "\<exists>m. MMU 4096 True = Inr m \<and> TranslateAddress (MapPage 0x5000 0x9123 PERM_READ m) 0x5010 = Inr 0x9010"
proof -
  obtain m where m: "MMU 4096 True = Inr m"
    by (simp add: MMU_def IsPowerOfTwo_def)
  from MMU_ok [OF m] have e: "mmu_enabled m" "mmu_pageSize m = 4096" by simp_all
  from map_unmap_page [OF e(1), of "0x5000" "0x9123" PERM_READ "0x5010"] m show ?thesis
    by (simp add: AlignToPage_def GetPageOffset_def e(2))
qed

lemma CheckPermission_throw:
  "CheckPermission m va acc = (CheckPermissionOrThrow m va acc = Inr ())"
  by (auto simp: CheckPermission_def CheckPermissionOrThrow_def GetPageEntry_def
      split: option.splits access_type.splits)

lemma CanTranslate_throw: "CanTranslate m va = is_ok (TranslateAddress m va)"
  by (auto simp: CanTranslate_def TranslateAddress_def split: option.splits)

lemma CheckPermission_translates: "CheckPermission m va acc \<Longrightarrow> CanTranslate m va"
  by (auto simp: CheckPermission_def CanTranslate_def GetPageEntry_def split: option.splits if_splits)

text \<open>the throwing and the boolean checks agree: \<open>CheckPermission\<close> holds exactly when
  \<open>CheckPermissionOrThrow\<close> does not throw, \<open>CanTranslate\<close> exactly when \<open>TranslateAddress\<close> does not
  throw, and an address whose permission check passes always translates.\<close>

theorem checks_agree:
  "CheckPermission m va acc = (CheckPermissionOrThrow m va acc = Inr ()) \<and>
   CanTranslate m va = is_ok (TranslateAddress m va) \<and>
   (CheckPermission m va acc \<longrightarrow> CanTranslate m va)"
  using CheckPermission_throw CanTranslate_throw CheckPermission_translates by blast

lemma checks_agree_witness:
  "CheckPermission (MapPage 0 0 PERM_READ \<lparr>mmu_pageTable = Map.empty, mmu_readHooks = [],
     mmu_writeHooks = [], mmu_nextHookId = 0, mmu_watchpoints = [], mmu_nextWatchpointId = 0,
     mmu_traceBuffer = [], mmu_traceDepth = 100, mmu_pageSize = 4096, mmu_enabled = True\<rparr>) 8 ACC_READ
   \<and> CanTranslate (MapPage 0 0 PERM_READ \<lparr>mmu_pageTable = Map.empty, mmu_readHooks = [],
     mmu_writeHooks = [], mmu_nextHookId = 0, mmu_watchpoints = [], mmu_nextWatchpointId = 0,
     mmu_traceBuffer = [], mmu_traceDepth = 100, mmu_pageSize = 4096, mmu_enabled = True\<rparr>) 8"
  (is "CheckPermission ?m 8 ACC_READ \<and> _")
proof -
  have "CheckPermission ?m 8 ACC_READ"
    by (simp add: CheckPermission_def GetPageEntry_def MapPage_def AlignToPage_def PageEntry_def
      HasPermission_def)
  with checks_agree [of ?m 8 ACC_READ] show ?thesis by blast
qed

subsection \<open>Identity mapping of a range\<close>

lemma aligned_iff: "page_size_bits m k \<Longrightarrow> AlignToPage m x = x \<longleftrightarrow> 2 ^ k dvd unat x"
  using unat_AlignToPage [of m k x] mod_less_eq_dividend [of "unat x" "2 ^ k"]
  unfolding word_unat_eq_iff dvd_eq_mod_eq_0 by linarith

lemma page_size_unat: "page_size_bits m k \<Longrightarrow> unat (mmu_pageSize m) = 2 ^ k"
  unfolding page_size_bits_def using unat_push_bit_one [of k] by simp

lemma next_page:
  fixes a x :: nat
  assumes "p dvd a" "p dvd x" "a < x"
  shows "a + p \<le> x"
  using assms by (metis add_le_cancel_left dvd_diff_nat dvd_imp_le le_add_diff_inverse less_imp_le_nat zero_less_diff)

lemma page_size_bits_cong: "mmu_pageSize m = mmu_pageSize m' \<Longrightarrow> page_size_bits m k = page_size_bits m' k"
  by (simp add: page_size_bits_def)

lemma map_range_loop_result:
  assumes "page_size_bits m k" "2 ^ k dvd unat addr" "unat pageEnd = unat addr + n * 2 ^ k"
  shows "\<exists>m'. map_range_loop addr pageEnd p m = Some m' \<and>
     mmu_pageSize m' = mmu_pageSize m \<and> mmu_enabled m' = mmu_enabled m \<and>
     (\<forall>x. mmu_pageTable m' x =
        (if 2 ^ k dvd unat x \<and> addr \<le> x \<and> x < pageEnd then Some (PageEntry x p) else mmu_pageTable m x))"
  using assms
proof (induction n arbitrary: addr m)
  case 0
  then have "addr = pageEnd" by (simp add: word_unat_eq_iff)
  then show ?case by (auto simp: map_range_loop.simps)
next
  case (Suc n)
  let ?m = "MapPage addr addr p m" and ?next = "addr + mmu_pageSize m"
  have small: "unat addr + 2 ^ k < 2 ^ 64"
    using Suc.prems(3) unat_u64_less [of pageEnd] by simp
  then have nxt: "unat ?next = unat addr + 2 ^ k"
    using page_size_unat [OF Suc.prems(1)] by (simp add: unat_word_ariths)
  have "page_size_bits ?m k" "2 ^ k dvd unat ?next" "unat pageEnd = unat ?next + n * 2 ^ k"
    using Suc.prems nxt by (simp_all add: page_size_bits_def)
  from Suc.IH [OF this] obtain m' where m': "map_range_loop ?next pageEnd p ?m = Some m'"
    "mmu_pageSize m' = mmu_pageSize m" "mmu_enabled m' = mmu_enabled m"
    "\<And>x. mmu_pageTable m' x =
        (if 2 ^ k dvd unat x \<and> ?next \<le> x \<and> x < pageEnd then Some (PageEntry x p) else mmu_pageTable ?m x)"
    by auto
  have lt: "addr < pageEnd"
    using Suc.prems(3) by (simp add: word_less_nat_alt)
  have al: "AlignToPage m addr = addr"
    using aligned_iff [OF Suc.prems(1)] Suc.prems(2) by simp
  have "mmu_pageTable m' x =
      (if 2 ^ k dvd unat x \<and> addr \<le> x \<and> x < pageEnd then Some (PageEntry x p) else mmu_pageTable m x)" for x
  proof (cases "x = addr")
    case True
    moreover have "\<not> ?next \<le> addr"
      using nxt by (simp add: word_le_nat_alt)
    ultimately show ?thesis
      using Suc.prems(2) lt al by (simp add: m'(4) MapPage_def)
  next
    case False
    have "?next \<le> x \<longleftrightarrow> addr \<le> x" if "2 ^ k dvd unat x"
      using next_page [OF Suc.prems(2) that] False nxt
      by (auto simp: word_le_nat_alt word_unat_eq_iff)
    with False al show ?thesis
      by (auto simp: m'(4) MapPage_def)
  qed
  with m' lt show ?case
    by (subst map_range_loop.simps) auto
qed

lemma dvd_page_end:
  assumes "page_size_bits m k"
  shows "2 ^ k dvd unat (range_end m a n)" "unat a + unat n + 2 ^ k \<le> 2 ^ 64 \<Longrightarrow>
     unat (range_end m a n) < unat a + unat n + 2 ^ k \<and> unat a + unat n \<le> unat (range_end m a n)"
proof -
  let ?e = "a + n"
  have k: "k < 64" and ps: "unat (mmu_pageSize m) = 2 ^ k"
    using assms page_size_unat by (auto simp: page_size_bits_def)
  have off: "GetPageOffset m ?e \<noteq> 0 \<longleftrightarrow> unat ?e mod 2 ^ k \<noteq> 0"
    using unat_GetPageOffset [OF assms, of ?e] by (simp add: word_unat_eq_iff)
  have al: "unat (AlignToPage m ?e) = unat ?e - unat ?e mod 2 ^ k"
    by (rule unat_AlignToPage [OF assms])
  have d: "2 ^ k dvd unat (AlignToPage m ?e)"
    unfolding al by (rule dvd_minus_mod)
  have w: "2 ^ k dvd (2 ^ 64 :: nat)"
    using k by (intro le_imp_power_dvd) simp
  have "2 ^ k dvd unat (AlignToPage m ?e + mmu_pageSize m)"
    unfolding unat_word_ariths ps using d w by (simp add: dvd_mod)
  with d show "2 ^ k dvd unat (range_end m a n)"
    by (simp add: range_end_def Let_def)
  assume b: "unat a + unat n + 2 ^ k \<le> 2 ^ 64"
  moreover have "0 < (2 :: nat) ^ k" by simp
  ultimately have "unat a + unat n < 2 ^ 64" by linarith
  then have e: "unat ?e = unat a + unat n"
    by (simp add: unat_word_ariths)
  have "unat (AlignToPage m ?e + mmu_pageSize m) = unat ?e - unat ?e mod 2 ^ k + 2 ^ k"
    if "unat ?e mod 2 ^ k \<noteq> 0"
    using b that unfolding unat_word_ariths ps al e by simp
  note up = this
  define r where "r = unat ?e mod 2 ^ k"
  have r: "r \<le> unat ?e" "r < 2 ^ k"
    by (simp_all add: r_def)
  show "unat (range_end m a n) < unat a + unat n + 2 ^ k \<and>
      unat a + unat n \<le> unat (range_end m a n)"
  proof (cases "GetPageOffset m ?e = 0")
    case True
    then have "r = 0" using off by (simp add: r_def)
    with True show ?thesis
      using al r_def e by (simp add: range_end_def Let_def)
  next
    case False
    then have "unat (range_end m a n) = unat ?e - r + 2 ^ k" "0 < r"
      using off up by (simp_all add: range_end_def Let_def r_def)
    with r show ?thesis
      unfolding e by linarith
  qed
qed

text \<open>\<open>MapIdentityRange\<close> always terminates; when the rounded-up range stays below the top of the
  address space, afterwards exactly the addresses from the first page boundary at or below the start
  to the page boundary at or above the end translate to themselves with the given rights, and the
  others translate as before.\<close>

theorem MapIdentityRange_correct:
  assumes "mmu_ok m" "mmu_enabled m"
    and "unat start + unat n + unat (mmu_pageSize m) \<le> 2 ^ 64"
  shows "\<exists>m'. MapIdentityRange start n p m = Some m' \<and>
     (\<forall>x. TranslateAddress m' x =
        (if AlignToPage m start \<le> x \<and> x < range_end m start n then Inr x else TranslateAddress m x)) \<and>
     unat start + unat n \<le> unat (range_end m start n) \<and>
     unat (range_end m start n) < unat start + unat n + unat (mmu_pageSize m)"
proof -
  obtain k where k: "page_size_bits m k"
    using assms(1) by (auto simp: mmu_ok_def)
  note ps = page_size_unat [OF k]
  let ?a = "AlignToPage m start" and ?e = "range_end m start n"
  have da: "2 ^ k dvd unat ?a"
    using aligned_iff [OF k, of ?a] by simp
  have e: "2 ^ k dvd unat ?e" "unat ?e < unat start + unat n + 2 ^ k" "unat start + unat n \<le> unat ?e"
    using dvd_page_end [OF k, of start n] assms(3) ps by auto
  have "unat ?a \<le> unat start"
    using unat_AlignToPage [OF k] by simp
  then have le: "unat ?a \<le> unat ?e" using e(3) by linarith
  then have "2 ^ k dvd unat ?e - unat ?a"
    using da e(1) by (simp add: dvd_diff_nat)
  then obtain q where "unat ?e - unat ?a = q * 2 ^ k"
    by (metis dvd_def mult.commute)
  then have "unat ?e = unat ?a + q * 2 ^ k" using le by linarith
  from map_range_loop_result [OF k da this] obtain m' where m': "MapIdentityRange start n p m = Some m'"
    "mmu_pageSize m' = mmu_pageSize m" "mmu_enabled m' = mmu_enabled m"
    "\<And>x. mmu_pageTable m' x =
        (if 2 ^ k dvd unat x \<and> ?a \<le> x \<and> x < ?e then Some (PageEntry x p) else mmu_pageTable m x)"
    unfolding MapIdentityRange_def by blast
  have page: "?a \<le> AlignToPage m x \<and> AlignToPage m x < ?e \<longleftrightarrow> ?a \<le> x \<and> x < ?e" for x
  proof -
    define r where "r = unat x mod 2 ^ k"
    have ux: "unat (AlignToPage m x) = unat x - r" "r \<le> unat x" "r < 2 ^ k"
      using unat_AlignToPage [OF k] by (simp_all add: r_def)
    have dx: "2 ^ k dvd unat (AlignToPage m x)"
      using aligned_iff [OF k, of "AlignToPage m x"] by simp
    have "unat ?a \<le> unat x \<Longrightarrow> unat ?a \<le> unat x - r"
      using next_page [OF dx da] ux by linarith
    moreover have "unat x - r < unat ?e \<Longrightarrow> unat x < unat ?e"
      using next_page [OF dx e(1)] ux by linarith
    ultimately show ?thesis
      using ux by (auto simp: word_le_nat_alt word_less_nat_alt)
  qed
  have "TranslateAddress m' x =
      (if ?a \<le> x \<and> x < ?e then Inr x else TranslateAddress m x)" for x
  proof -
    have "2 ^ k dvd unat (AlignToPage m x)"
      using aligned_iff [OF k, of "AlignToPage m x"] by simp
    then show ?thesis
      using assms(2) m'(2,3) page [of x] AlignToPage_cong [OF m'(2)] GetPageOffset_cong [OF m'(2)]
        align_plus_offset [of m x]
      by (simp add: TranslateAddress_def m'(4) PageEntry_def split: option.split)
  qed
  with m'(1) e ps show ?thesis by auto
qed

lemma MapIdentityRange_correct_witness:
  "\<exists>m m'. MMU 4096 True = Inr m \<and> MapIdentityRange 0x1800 0x2000 7 m = Some m' \<and>
     TranslateAddress m' 0x3FFF = Inr 0x3FFF"
proof -
  obtain m where m: "MMU 4096 True = Inr m"
    by (simp add: MMU_def IsPowerOfTwo_def)
  from MMU_ok [OF m] have ok: "mmu_ok m" "mmu_enabled m" "mmu_pageSize m = 4096" by simp_all
  from MapIdentityRange_correct [OF ok(1,2), of "0x1800" "0x2000" 7] ok(3)
  obtain m' where "MapIdentityRange 0x1800 0x2000 7 m = Some m'"
    "\<forall>x. TranslateAddress m' x = (if AlignToPage m 0x1800 \<le> x \<and> x < range_end m 0x1800 0x2000
      then Inr x else TranslateAddress m x)"
    by auto
  with m show ?thesis
    by (auto simp: AlignToPage_def GetPageOffset_def range_end_def ok(3))
qed

text \<open>a range whose end, rounded up to a page, reaches the top of the address space is not mapped at
  all: the end wraps to zero and the loop never runs.\<close>

theorem MapIdentityRange_top_maps_nothing:
  assumes "mmu_ok m" "2 ^ 64 < unat start + unat n + unat (mmu_pageSize m)" "unat start + unat n \<le> 2 ^ 64"
  shows "MapIdentityRange start n p m = Some m"
proof -
  obtain k where k: "page_size_bits m k"
    using assms(1) by (auto simp: mmu_ok_def)
  note ps = page_size_unat [OF k]
  have kk: "k < 64" using k by (simp add: page_size_bits_def)
  have w: "(2 :: nat) ^ k dvd 2 ^ 64" using kk by (intro le_imp_power_dvd) simp
  have "range_end m start n = 0"
  proof (cases "unat start + unat n = 2 ^ 64")
    case True
    then have "start + n = 0" by (simp add: word_unat_eq_iff unat_word_ariths)
    then show ?thesis
      by (simp add: range_end_def AlignToPage_def GetPageOffset_def Let_def)
  next
    case False
    with assms(3) have lt: "unat start + unat n < 2 ^ 64" by simp
    then have u: "unat (start + n) = unat start + unat n"
      by (simp add: unat_word_ariths)
    let ?al = "AlignToPage m (start + n)"
    have d: "2 ^ k dvd unat ?al"
      using aligned_iff [OF k, of ?al] by simp
    have b: "unat ?al \<le> unat start + unat n"
      using unat_AlignToPage [OF k, of "start + n"] u by simp
    have "2 ^ 64 \<le> unat ?al + 2 ^ k"
    proof (rule ccontr)
      define r where "r = unat (start + n) mod 2 ^ k"
      have r: "unat ?al = unat start + unat n - r" "r < 2 ^ k" "r \<le> unat start + unat n"
        using unat_AlignToPage [OF k, of "start + n"] u by (simp_all add: r_def)
      assume "\<not> 2 ^ 64 \<le> unat ?al + 2 ^ k"
      then have "unat ?al + 2 ^ k < 2 ^ 64" by simp
      then have "unat ?al + 2 ^ k + 2 ^ k \<le> 2 ^ 64"
        using next_page [of "2 ^ k" "unat ?al + 2 ^ k" "2 ^ 64"] d w by simp
      with r assms(2) ps show False by linarith
    qed
    moreover have "unat ?al + 2 ^ k \<le> 2 ^ 64"
      using next_page [OF d w] b lt by linarith
    ultimately have s: "unat ?al + 2 ^ k = 2 ^ 64" by simp
    then have z: "?al + mmu_pageSize m = 0"
      using ps by (simp add: word_unat_eq_iff unat_word_ariths)
    have "GetPageOffset m (start + n) \<noteq> 0"
    proof
      assume "GetPageOffset m (start + n) = 0"
      then have "unat ?al = unat start + unat n"
        using align_plus_offset [of m "start + n"] u by simp
      with s assms(2) ps show False by simp
    qed
    with z show ?thesis by (simp add: range_end_def Let_def)
  qed
  then show ?thesis
    by (simp add: MapIdentityRange_def map_range_loop.simps)
qed

lemma MapIdentityRange_top_maps_nothing_witness:
  "\<exists>m. MMU 4096 True = Inr m \<and> MapIdentityRange 0xFFFFFFFFFFFFE000 0x1800 7 m = Some m"
proof -
  obtain m where m: "MMU 4096 True = Inr m"
    by (simp add: MMU_def IsPowerOfTwo_def)
  from MMU_ok [OF m] have ok: "mmu_ok m" "mmu_pageSize m = 4096" by simp_all
  from MapIdentityRange_top_maps_nothing [OF ok(1), of "0xFFFFFFFFFFFFE000" "0x1800" 7] ok(2) m show ?thesis
    by simp
qed

subsection \<open>Watchpoints\<close>

lemma CheckCondition_keeps [simp]:
  "wp_triggerCount (snd (CheckCondition wp v)) = wp_triggerCount wp"
  "wp_maxTriggers (snd (CheckCondition wp v)) = wp_maxTriggers wp"
  "wp_enabled (snd (CheckCondition wp v)) = wp_enabled wp"
  "wp_id (snd (CheckCondition wp v)) = wp_id wp"
  "wp_callback_fn (snd (CheckCondition wp v)) = wp_callback_fn wp"
  by (simp_all add: CheckCondition_def split: wp_condition.split)

text \<open>What one iteration does: nothing, a remembered value, or a trigger.\<close>

lemma check_watchpoint_cases:
  assumes "check_watchpoint buf a n w data wp = (go_on, ctx, wp')"
  obtains (skipped) "\<not> ShouldTrigger wp a n w" "go_on" "ctx = None" "wp' = wp"
  | (untriggered) "ShouldTrigger wp a n w" "go_on" "ctx = None" "wp' = snd (CheckCondition wp (ExtractValue data n))"
  | (triggered) "ShouldTrigger wp a n w" "fst (CheckCondition wp (ExtractValue data n))"
      "ctx = Some (wp_context_of buf (snd (CheckCondition wp (ExtractValue data n))) a n w data (ExtractValue data n))"
      "wp_triggerCount wp' = Suc (wp_triggerCount wp)" "wp_maxTriggers wp' = wp_maxTriggers wp"
      "wp_id wp' = wp_id wp"
      "wp_enabled wp' = (wp_maxTriggers wp = 0 \<or> Suc (wp_triggerCount wp) < wp_maxTriggers wp)"
proof (cases "ShouldTrigger wp a n w")
  case False
  with assms show thesis
    by (intro skipped) (simp_all add: check_watchpoint_def)
next
  case True
  then have en: "wp_enabled wp"
    by (simp add: ShouldTrigger_def split: if_splits)
  obtain c wp1 where c: "CheckCondition wp (ExtractValue data n) = (c, wp1)"
    by (cases "CheckCondition wp (ExtractValue data n)")
  then have keeps: "wp_triggerCount wp1 = wp_triggerCount wp" "wp_maxTriggers wp1 = wp_maxTriggers wp"
    "wp_enabled wp1 = wp_enabled wp" "wp_id wp1 = wp_id wp"
    using CheckCondition_keeps [of wp "ExtractValue data n"] by simp_all
  show thesis
  proof (cases c)
    case False
    with assms True c show thesis
      by (intro untriggered) (simp_all add: check_watchpoint_def Let_def)
  next
    case c': True
    with assms True c keeps en show thesis
      by (intro triggered)
        (auto simp: check_watchpoint_def Let_def split: prod.splits if_splits)
  qed
qed

text \<open>The trigger budget: a watchpoint with a maximum never counts past it.\<close>

definition wp_within :: "watchpoint \<Rightarrow> bool" where
  "wp_within wp \<longleftrightarrow> wp_maxTriggers wp = 0 \<or> wp_triggerCount wp \<le> wp_maxTriggers wp"

lemma check_watchpoint_within:
  assumes "check_watchpoint buf a n w data wp = (go_on, ctx, wp')" "wp_within wp"
  shows "wp_within wp' \<and> wp_maxTriggers wp' = wp_maxTriggers wp \<and> wp_id wp' = wp_id wp"
  using assms(1)
proof (cases rule: check_watchpoint_cases)
  case triggered
  then show ?thesis
    by (auto simp: wp_within_def ShouldTrigger_def split: if_splits)
qed (use assms(2) in \<open>simp_all add: wp_within_def\<close>)

text \<open>however many accesses are checked, every watchpoint with a maximum has triggered at most that
  many times, keeps its identity, and one that has used its budget never triggers again.\<close>

theorem watchpoint_budget:
  assumes "list_all wp_within wps" "CheckWatchpoints buf a n w data wps = (ok, wps')"
  shows "list_all wp_within wps' \<and> map wp_id wps' = map wp_id wps \<and>
     (\<forall>wp \<in> set wps'. wp_maxTriggers wp > 0 \<and> wp_triggerCount wp = wp_maxTriggers wp \<longrightarrow>
        \<not> ShouldTrigger wp b k v)"
proof -
  have "list_all wp_within wps' \<and> map wp_id wps' = map wp_id wps"
    using assms
  proof (induction wps arbitrary: ok wps')
    case Nil
    then show ?case by simp
  next
    case (Cons wp wps)
    obtain go_on ctx wp1 where one: "check_watchpoint buf a n w data wp = (go_on, ctx, wp1)"
      by (rule prod_cases3)
    have wp1: "wp_within wp1" "wp_id wp1 = wp_id wp"
      using check_watchpoint_within [OF one] Cons.prems(1) by simp_all
    obtain ok' rest where rest: "CheckWatchpoints buf a n w data wps = (ok', rest)"
      by (rule prod.exhaust)
    have "list_all wp_within rest \<and> map wp_id rest = map wp_id wps"
      using Cons.IH [OF _ rest] Cons.prems(1) by simp
    with Cons.prems one rest wp1 show ?case
      by (auto split: if_splits)
  qed
  then show ?thesis
    by (auto simp: ShouldTrigger_def Let_def)
qed

lemma watchpoint_budget_witness:
  "\<exists>ok wps'. CheckWatchpoints [] 0x10 4 True [1, 2, 3, 4]
     [(new_watchpoint 0x10 0x14 WP_WRITE None)\<lparr>wp_maxTriggers := 1\<rparr>] = (ok, wps') \<and>
     list_all wp_within wps'"
proof -
  obtain ok wps' where c: "CheckWatchpoints [] 0x10 4 True [1, 2, 3, 4]
     [(new_watchpoint 0x10 0x14 WP_WRITE None)\<lparr>wp_maxTriggers := 1\<rparr>] = (ok, wps')"
    by (rule prod.exhaust)
  have "list_all wp_within [(new_watchpoint 0x10 0x14 WP_WRITE None)\<lparr>wp_maxTriggers := 1\<rparr>]"
    by (simp add: wp_within_def new_watchpoint_def)
  from watchpoint_budget [OF this c] c show ?thesis by blast
qed

text \<open>a watchpoint on a changing value passes its callback the new value as the old one: the context
  is filled after the remembered value has been overwritten, so the previous value is lost.\<close>

theorem value_changed_loses_old_value:
  assumes "wp_cond wp = COND_VALUE_CHANGED"
    and "check_watchpoint buf a n w data wp = (go_on, Some ctx, wp')"
  shows "wc_oldValue ctx = wc_newValue ctx \<and> wc_newValue ctx = ExtractValue data n \<and>
     wp_lastValue wp \<noteq> wc_oldValue ctx"
  using assms(2)
proof (cases rule: check_watchpoint_cases)
  case triggered
  with assms(1) show ?thesis
    by (auto simp: CheckCondition_def wp_context_of_def split: if_splits)
qed simp_all

lemma value_changed_loses_old_value_witness:
  "\<exists>ctx wp'. check_watchpoint [] 0x10 1 True [9]
     ((new_watchpoint 0x10 0x14 WP_WRITE None)
        \<lparr>wp_cond := COND_VALUE_CHANGED, wp_hasLastValue := True, wp_lastValue := 5\<rparr>) = (True, Some ctx, wp') \<and>
     wc_oldValue ctx = 9"
proof -
  let ?wp = "(new_watchpoint 0x10 0x14 WP_WRITE None)
        \<lparr>wp_cond := COND_VALUE_CHANGED, wp_hasLastValue := True, wp_lastValue := 5\<rparr>"
  obtain ctx wp' where c: "check_watchpoint [] 0x10 1 True [9] ?wp = (True, Some ctx, wp')"
    by (simp add: check_watchpoint_def ShouldTrigger_def new_watchpoint_def ExtractValue_def
      CheckCondition_def Let_def)
  have "ExtractValue [9] 1 = 9" by (simp add: ExtractValue_def)
  with value_changed_loses_old_value [OF _ c] c show ?thesis by simp
qed

subsection \<open>The instruction trace\<close>

interpretation trace_log: bounded_history depth "trace_add depth" for depth
proof unfold_locales
  fix h :: "instruction_trace list" and x
  assume "length h \<le> depth"
  then show "trace_add depth x h = drop (Suc (length h) - depth) (h @ [x])"
    by (cases "length h = depth") (auto simp: trace_add_def Let_def)
qed

lemma trim_trace_drop: "trim_trace depth ts = drop (length ts - depth) ts"
  by (induction depth ts rule: trim_trace.induct) (auto simp: Suc_diff_le)

lemma AddInstructionTrace_fold:
  "fold AddInstructionTrace ts m =
     m\<lparr>mmu_traceBuffer := fold (trace_add (mmu_traceDepth m)) ts (mmu_traceBuffer m)\<rparr>"
  by (induction ts arbitrary: m) (simp_all add: AddInstructionTrace_def)

text \<open>setting the trace depth and then tracing any number of instructions leaves exactly the newest
  \<open>depth\<close> of the old and new entries, in execution order.\<close>

theorem trace_keeps_newest:
  "mmu_traceBuffer (fold AddInstructionTrace ts (SetInstructionTraceDepth depth m)) =
     (let all = mmu_traceBuffer m @ ts in drop (length all - depth) all)"
proof -
  let ?h = "drop (length (mmu_traceBuffer m) - depth) (mmu_traceBuffer m)"
  have "length ?h \<le> depth" by simp
  from trace_log.fold_newest [OF this, of ts] show ?thesis
    by (cases "length (mmu_traceBuffer m) \<le> depth")
      (simp_all add: AddInstructionTrace_fold SetInstructionTraceDepth_def trim_trace_drop Let_def
        add.commute)
qed

end
