(* ===== verification/Io_Devices.thy ===== *)
theory Io_Devices
  imports Bytes
begin

text \<open>
  The memory-mapped device interface (\<open>src/include/IODevice.h\<close>), the virtual timer
  (\<open>src/src/io/Timer.cpp\<close>), the interrupt controller (\<open>InterruptController.cpp\<close>) and the processor
  interrupt block (\<open>ProcessorInterruptBlock.cpp\<close>). A device read returns \<open>None\<close> where the code
  returns false. Delivery callbacks are observers: an operation returns the vectors it delivered, in
  order; the callback of the interrupt block, whose answer the code uses, is an argument.
\<close>

subsection \<open>The device interface\<close>

definition HandlesRange :: "u64 \<Rightarrow> nat \<Rightarrow> u64 \<Rightarrow> nat \<Rightarrow> bool" where
  "HandlesRange base devSize address n \<longleftrightarrow>
     (if n = 0 then False
      else
        let end_addr = base + of_nat devSize;
            requestEnd = address + of_nat n
        in address \<ge> base \<and> requestEnd \<ge> address \<and> requestEnd \<le> end_addr)"

lemma HandlesRange_nonzero: "HandlesRange base sz a n \<Longrightarrow> 0 < n"
  by (simp add: HandlesRange_def split: if_splits)

lemma unat_add_no_wrap:
  assumes "n < 2 ^ 64" "a \<le> a + (of_nat n :: u64)"
  shows "unat (a + of_nat n) = unat a + n"
proof (rule ccontr)
  have n: "unat (of_nat n :: u64) = n"
    using assms(1) by (simp add: unat_of_nat take_bit_nat_eq_self)
  assume "unat (a + of_nat n) \<noteq> unat a + n"
  then have "2 ^ 64 \<le> unat a + n"
    using n by (simp add: unat_word_ariths) (metis mod_less not_less)
  moreover have "unat a + n < 2 * 2 ^ 64"
    using assms(1) unat_u64_less [of a] by simp
  ultimately have "unat (a + of_nat n) = unat a + n - 2 ^ 64"
    using n by (simp add: unat_word_ariths le_mod_geq)
  moreover have "unat a \<le> unat (a + of_nat n)"
    using assms(2) by (simp add: word_le_nat_alt)
  ultimately show False
    using assms(1) \<open>2 ^ 64 \<le> unat a + n\<close> by linarith
qed

text \<open>A handled request lies inside the device's window, whatever the base address.\<close>

lemma HandlesRange_bounds:
  assumes "HandlesRange base sz a n" "n < 2 ^ 64" "sz < 2 ^ 64"
  shows "unat base \<le> unat a" "unat a + n \<le> unat base + sz" "unat (a - base) = unat a - unat base"
    "unat (a - base) + n \<le> sz"
proof -
  have h: "base \<le> a" "a \<le> a + of_nat n" "a + of_nat n \<le> base + of_nat sz"
    using assms(1) by (simp_all add: HandlesRange_def Let_def split: if_splits)
  have e: "unat (a + of_nat n) = unat a + n"
    by (rule unat_add_no_wrap [OF assms(2) h(2)])
  have "unat (base + of_nat sz) \<le> unat base + sz"
    using assms(3) by (simp add: unat_word_ariths unat_of_nat take_bit_nat_eq_self)
  with h e show "unat base \<le> unat a" "unat a + n \<le> unat base + sz"
    by (simp_all add: word_le_nat_alt)
  moreover show "unat (a - base) = unat a - unat base"
    using h(1) by (rule unat_sub)
  ultimately show "unat (a - base) + n \<le> sz" by linarith
qed

text \<open>
  What the memory relies on when it dispatches an access to a device: a successful read of a
  well-formed device fills the whole buffer, and a write leaves the window where it is and the
  device well formed.
\<close>

locale mmio_device =
  fixes base :: "'d \<Rightarrow> u64"
    and window :: "'d \<Rightarrow> nat"
    and rd :: "'d \<Rightarrow> u64 \<Rightarrow> nat \<Rightarrow> u8 list option"
    and wr :: "'d \<Rightarrow> u64 \<Rightarrow> u8 list \<Rightarrow> 'd option"
    and dev_ok :: "'d \<Rightarrow> bool"
  assumes ok_window: "dev_ok d \<Longrightarrow> window d < 2 ^ 64"
    and rd_length: "dev_ok d \<Longrightarrow> n < 2 ^ 64 \<Longrightarrow> rd d a n = Some bs \<Longrightarrow> length bs = n"
    and wr_window: "wr d a bs = Some d' \<Longrightarrow> base d' = base d \<and> window d' = window d"
    and wr_ok: "dev_ok d \<Longrightarrow> length bs < 2 ^ 64 \<Longrightarrow> wr d a bs = Some d' \<Longrightarrow> dev_ok d'"
begin

definition handles :: "'d \<Rightarrow> u64 \<Rightarrow> nat \<Rightarrow> bool" where
  "handles d a n = HandlesRange (base d) (window d) a n"

definition disjoint_windows :: "'d \<Rightarrow> 'd \<Rightarrow> bool" where
  "disjoint_windows d e \<longleftrightarrow>
     unat (base d) + window d \<le> unat (base e) \<or> unat (base e) + window e \<le> unat (base d)"

lemma handles_disjoint:
  assumes "disjoint_windows d e" "handles d a n" "n < 2 ^ 64" "dev_ok d" "dev_ok e"
  shows "\<not> handles e a n"
proof
  assume "handles e a n"
  with assms have "unat (base d) \<le> unat a" "unat a + n \<le> unat (base d) + window d"
    "unat (base e) \<le> unat a" "unat a + n \<le> unat (base e) + window e" "n \<noteq> 0"
    using HandlesRange_bounds [of "base d" "window d" a n] HandlesRange_bounds [of "base e" "window e" a n]
      HandlesRange_nonzero [of "base d" "window d" a n] ok_window [of d] ok_window [of e]
    by (simp_all add: handles_def)
  with assms(1) show False
    by (auto simp: disjoint_windows_def)
qed

lemma wr_handles: "wr d a bs = Some d' \<Longrightarrow> handles d' b n = handles d b n"
  using wr_window [of d a bs d'] by (simp add: handles_def)

end

subsection \<open>The virtual timer\<close>

record virtual_timer =
  vt_baseAddress :: u64
  vt_intervalCycles :: u64
  vt_elapsedCycles :: u64
  vt_interruptVector :: u8
  vt_enabled :: bool
  vt_periodic :: bool
  vt_interruptPending :: bool

definition VirtualTimer :: "u64 \<Rightarrow> virtual_timer" where
  "VirtualTimer baseAddress = \<lparr>vt_baseAddress = baseAddress, vt_intervalCycles = 0,
     vt_elapsedCycles = 0, vt_interruptVector = 0x20, vt_enabled = False, vt_periodic = True,
     vt_interruptPending = False\<rparr>"

abbreviation "timer_kRegisterSize \<equiv> 24 :: nat"

definition byte_of_bool :: "bool \<Rightarrow> u8" where
  "byte_of_bool b = (if b then 1 else 0)"

definition timer_image :: "virtual_timer \<Rightarrow> u8 list" where
  "timer_image t =
     [byte_of_bool (vt_enabled t), byte_of_bool (vt_periodic t), 0, 0, 0, 0, 0, 0]
     @ le_bytes 8 (vt_intervalCycles t)
     @ [vt_interruptVector t, byte_of_bool (vt_interruptPending t), 0, 0, 0, 0, 0, 0]"

definition timer_Read :: "virtual_timer \<Rightarrow> u64 \<Rightarrow> nat \<Rightarrow> u8 list option" where
  "timer_Read t address n =
     (if \<not> HandlesRange (vt_baseAddress t) timer_kRegisterSize address n then None
      else Some (read_bytes (timer_image t) (unat (address - vt_baseAddress t)) n))"

definition timer_Acknowledge :: "virtual_timer \<Rightarrow> virtual_timer" where
  "timer_Acknowledge t = t\<lparr>vt_interruptPending := False\<rparr>"

definition timer_write_byte :: "u64 \<Rightarrow> u8 \<Rightarrow> virtual_timer \<Rightarrow> virtual_timer" where
  "timer_write_byte offset value t =
     (if offset = 0 then
        let t1 = t\<lparr>vt_enabled := (value AND 1 \<noteq> 0), vt_periodic := (value AND 2 \<noteq> 0)\<rparr>
        in if \<not> vt_enabled t1 then t1\<lparr>vt_elapsedCycles := 0\<rparr> else t1
      else if offset \<ge> 8 \<and> offset < 16 then
        t\<lparr>vt_intervalCycles := put_bits (8 * unat (offset - 8)) 8 (ucast value) (vt_intervalCycles t),
          vt_elapsedCycles := 0\<rparr>
      else if offset = 16 then t\<lparr>vt_interruptVector := value\<rparr>
      else if offset = 17 \<and> value \<noteq> 0 then timer_Acknowledge t
      else t)"

fun timer_write_bytes :: "u64 \<Rightarrow> u8 list \<Rightarrow> virtual_timer \<Rightarrow> virtual_timer" where
  "timer_write_bytes offset [] t = t"
| "timer_write_bytes offset (b # bs) t = timer_write_bytes (offset + 1) bs (timer_write_byte offset b t)"

definition timer_Write :: "virtual_timer \<Rightarrow> u64 \<Rightarrow> u8 list \<Rightarrow> virtual_timer option" where
  "timer_Write t address bs =
     (if \<not> HandlesRange (vt_baseAddress t) timer_kRegisterSize address (length bs) then None
      else Some (timer_write_bytes (address - vt_baseAddress t) bs t))"

text \<open>\<open>Raise\<close> marks the interrupt pending and hands the vector to the controller.\<close>

definition timer_Raise :: "virtual_timer \<Rightarrow> virtual_timer \<times> u8" where
  "timer_Raise t = (t\<lparr>vt_interruptPending := True\<rparr>, vt_interruptVector t)"

function tick_loop :: "virtual_timer \<Rightarrow> u8 list \<Rightarrow> virtual_timer \<times> u8 list" where
  "tick_loop t raised =
     (if vt_enabled t \<and> vt_intervalCycles t > 0 \<and> vt_elapsedCycles t \<ge> vt_intervalCycles t
      then
        let (t2, v) = timer_Raise (t\<lparr>vt_elapsedCycles := vt_elapsedCycles t - vt_intervalCycles t\<rparr>)
        in tick_loop
             (if \<not> vt_periodic t2 then t2\<lparr>vt_enabled := False, vt_elapsedCycles := 0\<rparr> else t2)
             (raised @ [v])
      else (t, raised))"
  by pat_completeness auto

lemma interval_step: "0 < i \<Longrightarrow> i \<le> e \<Longrightarrow> unat (e - i) < unat (e :: u64)"
  by (simp add: unat_sub word_less_nat_alt word_le_nat_alt)

termination tick_loop
proof (relation "measure (\<lambda>(t, r). unat (vt_elapsedCycles t))", simp, clarsimp)
  fix t :: virtual_timer and t2 v
  assume a: "vt_enabled t" "0 < vt_intervalCycles t" "vt_intervalCycles t \<le> vt_elapsedCycles t"
    and r: "(t2, v) = timer_Raise (t\<lparr>vt_elapsedCycles := vt_elapsedCycles t - vt_intervalCycles t\<rparr>)"
  have "vt_elapsedCycles t2 = vt_elapsedCycles t - vt_intervalCycles t"
    using r by (simp add: timer_Raise_def)
  with interval_step [OF a(2,3)]
  show "(\<not> vt_periodic t2 \<longrightarrow> 0 < unat (vt_elapsedCycles t)) \<and>
        (vt_periodic t2 \<longrightarrow> unat (vt_elapsedCycles t2) < unat (vt_elapsedCycles t))"
    by simp
qed

text \<open>\<open>Tick\<close>: the timer afterwards and the vectors it raised, in order.\<close>

definition timer_Tick :: "u64 \<Rightarrow> virtual_timer \<Rightarrow> virtual_timer \<times> u8 list" where
  "timer_Tick cycles t =
     (if \<not> vt_enabled t \<or> vt_intervalCycles t = 0 \<or> cycles = 0 then (t, [])
      else tick_loop (t\<lparr>vt_elapsedCycles := vt_elapsedCycles t + cycles\<rparr>) [])"

definition timer_Configure :: "u64 \<Rightarrow> u8 \<Rightarrow> bool \<Rightarrow> bool \<Rightarrow> virtual_timer \<Rightarrow> virtual_timer" where
  "timer_Configure intervalCycles vector periodic enabled t =
     t\<lparr>vt_intervalCycles := intervalCycles, vt_interruptVector := vector, vt_periodic := periodic,
       vt_enabled := enabled, vt_elapsedCycles := 0, vt_interruptPending := False\<rparr>"

definition timer_Reset :: "virtual_timer \<Rightarrow> virtual_timer" where
  "timer_Reset t = t\<lparr>vt_intervalCycles := 0, vt_elapsedCycles := 0, vt_interruptVector := 0x20,
     vt_enabled := False, vt_periodic := True, vt_interruptPending := False\<rparr>"

text \<open>A snapshot (\<open>TimerDeviceState\<close>) holds the same seven fields.\<close>

definition timer_createSnapshot :: "virtual_timer \<Rightarrow> virtual_timer" where
  "timer_createSnapshot t = t"

definition timer_restoreSnapshot :: "virtual_timer \<Rightarrow> virtual_timer \<Rightarrow> virtual_timer" where
  "timer_restoreSnapshot snapshot t =
     t\<lparr>vt_baseAddress := vt_baseAddress snapshot, vt_intervalCycles := vt_intervalCycles snapshot,
       vt_elapsedCycles := vt_elapsedCycles snapshot, vt_interruptVector := vt_interruptVector snapshot,
       vt_enabled := vt_enabled snapshot, vt_periodic := vt_periodic snapshot,
       vt_interruptPending := vt_interruptPending snapshot\<rparr>"

subsection \<open>The timer as a memory-mapped device\<close>

lemma length_timer_image [simp]: "length (timer_image t) = 24"
  by (simp add: timer_image_def)

lemma timer_write_byte_base [simp]: "vt_baseAddress (timer_write_byte off b t) = vt_baseAddress t"
  by (simp add: timer_write_byte_def timer_Acknowledge_def Let_def)

lemma timer_write_bytes_base [simp]: "vt_baseAddress (timer_write_bytes off bs t) = vt_baseAddress t"
  by (induction off bs t rule: timer_write_bytes.induct) simp_all

interpretation timer_device: mmio_device vt_baseAddress "\<lambda>_. timer_kRegisterSize" timer_Read timer_Write
  "\<lambda>_. True"
proof unfold_locales
  fix t :: virtual_timer and a n bs
  assume "n < 2 ^ 64" "timer_Read t a n = Some bs"
  then show "length bs = n"
    using HandlesRange_bounds(4) [of "vt_baseAddress t" 24 a n]
    by (auto simp: timer_Read_def split: if_splits)
qed (auto simp: timer_Write_def split: if_splits)

subsection \<open>Ticking\<close>

declare tick_loop.simps [simp del]

lemma tick_loop_idle:
  "\<not> (vt_enabled t \<and> vt_intervalCycles t > 0 \<and> vt_elapsedCycles t \<ge> vt_intervalCycles t) \<Longrightarrow>
   tick_loop t raised = (t, raised)"
  by (subst tick_loop.simps) (auto split: if_split)

lemma tick_loop_oneshot:
  assumes "vt_enabled t" "vt_intervalCycles t > 0" "\<not> vt_periodic t" "vt_intervalCycles t \<le> vt_elapsedCycles t"
  shows "tick_loop t raised =
    (t\<lparr>vt_elapsedCycles := 0, vt_enabled := False, vt_interruptPending := True\<rparr>,
     raised @ [vt_interruptVector t])"
  using assms by (subst tick_loop.simps) (simp add: timer_Raise_def tick_loop_idle)

lemma tick_loop_periodic:
  assumes "vt_enabled t" "vt_intervalCycles t > 0" "vt_periodic t"
  shows "tick_loop t raised =
    (t\<lparr>vt_elapsedCycles := vt_elapsedCycles t mod vt_intervalCycles t,
       vt_interruptPending := vt_interruptPending t \<or> vt_intervalCycles t \<le> vt_elapsedCycles t\<rparr>,
     raised @ replicate (unat (vt_elapsedCycles t) div unat (vt_intervalCycles t)) (vt_interruptVector t))"
  using assms
proof (induction "unat (vt_elapsedCycles t)" arbitrary: t raised rule: less_induct)
  case less
  let ?e = "vt_elapsedCycles t" and ?i = "vt_intervalCycles t"
  show ?case
  proof (cases "?i \<le> ?e")
    case False
    then have "unat ?e < unat ?i" by (simp add: word_less_nat_alt word_le_nat_alt)
    then have "?e mod ?i = ?e" by (simp add: word_unat_eq_iff unat_mod)
    with False \<open>unat ?e < unat ?i\<close> show ?thesis
      by (simp add: tick_loop_idle)
  next
    case True
    let ?t = "t\<lparr>vt_elapsedCycles := ?e - ?i, vt_interruptPending := True\<rparr>"
    have le: "unat ?i \<le> unat ?e" and pos: "0 < unat ?i"
      using True less.prems(2) by (simp_all add: word_le_nat_alt word_less_nat_alt)
    have sub: "unat (?e - ?i) = unat ?e - unat ?i"
      using True by (rule unat_sub)
    have m: "(?e - ?i) mod ?i = ?e mod ?i"
      using le pos by (simp add: word_unat_eq_iff unat_mod sub le_mod_geq)
    have d: "unat ?e div unat ?i = Suc (unat (?e - ?i) div unat ?i)"
      using le pos by (simp add: sub le_div_geq)
    have "tick_loop t raised = tick_loop ?t (raised @ [vt_interruptVector t])"
      using True less.prems by (subst tick_loop.simps) (simp add: timer_Raise_def)
    also have "\<dots> = (?t\<lparr>vt_elapsedCycles := (?e - ?i) mod ?i, vt_interruptPending := True\<rparr>,
        (raised @ [vt_interruptVector t]) @ replicate (unat (?e - ?i) div unat ?i) (vt_interruptVector t))"
      using less.hyps [of ?t "raised @ [vt_interruptVector t]"] interval_step [OF less.prems(2) True] less.prems
      by simp
    finally show ?thesis
      using True by (simp add: m d)
  qed
qed

text \<open>a running periodic timer with interval \<open>i\<close> that is advanced by \<open>c\<close> cycles raises its vector
  \<open>(elapsed + c) div i\<close> times and keeps the remainder; a one-shot timer raises at most once and then
  stops with its counter cleared.\<close>

theorem timer_tick_counts:
  assumes "vt_enabled t" "vt_intervalCycles t \<noteq> 0" "c \<noteq> 0"
    and "unat (vt_elapsedCycles t) + unat c < 2 ^ 64"
    and "tot = unat (vt_elapsedCycles t) + unat c" "i = unat (vt_intervalCycles t)"
  shows "(vt_periodic t \<longrightarrow>
        snd (timer_Tick c t) = replicate (tot div i) (vt_interruptVector t) \<and>
        unat (vt_elapsedCycles (fst (timer_Tick c t))) = tot mod i \<and>
        vt_enabled (fst (timer_Tick c t)) \<and>
        vt_interruptPending (fst (timer_Tick c t)) = (vt_interruptPending t \<or> i \<le> tot)) \<and>
     (\<not> vt_periodic t \<longrightarrow>
        snd (timer_Tick c t) = (if i \<le> tot then [vt_interruptVector t] else []) \<and>
        vt_enabled (fst (timer_Tick c t)) = (tot < i) \<and>
        unat (vt_elapsedCycles (fst (timer_Tick c t))) = (if i \<le> tot then 0 else tot))"
proof -
  let ?t = "t\<lparr>vt_elapsedCycles := vt_elapsedCycles t + c\<rparr>"
  have e: "unat (vt_elapsedCycles t + c) = tot"
    using assms(4,5) by (simp add: unat_word_ariths)
  have run: "timer_Tick c t = tick_loop ?t []"
    using assms(1-3) by (simp add: timer_Tick_def)
  have le: "vt_intervalCycles t \<le> vt_elapsedCycles t + c \<longleftrightarrow> i \<le> tot"
    using e assms(6) by (simp add: word_le_nat_alt)
  have pos: "0 < vt_intervalCycles t"
    using assms(2) by (simp add: word_neq_0_conv)
  show ?thesis
  proof (cases "vt_periodic t")
    case True
    then show ?thesis
      using tick_loop_periodic [of ?t "[]"] assms(1,6) pos e le run by (simp add: unat_mod)
  next
    case False
    show ?thesis
    proof (cases "i \<le> tot")
      case True
      then show ?thesis
        using tick_loop_oneshot [of ?t "[]"] False assms(1) pos le run by simp
    next
      case False': False
      then show ?thesis
        using tick_loop_idle [of ?t "[]"] False assms(1) le run e by simp
    qed
  qed
qed

lemma timer_tick_counts_witness:
  "snd (timer_Tick 25 (timer_Configure 10 0x40 True True (VirtualTimer 0xFFFF0100))) = replicate 2 0x40"
proof -
  define t where "t = timer_Configure 10 0x40 True True (VirtualTimer 0xFFFF0100)"
  have t: "vt_enabled t" "vt_intervalCycles t = 10" "vt_elapsedCycles t = 0" "vt_periodic t"
    "vt_interruptVector t = 0x40"
    by (simp_all add: t_def timer_Configure_def)
  have "vt_intervalCycles t \<noteq> 0" "(25 :: u64) \<noteq> 0"
    "unat (vt_elapsedCycles t) + unat (25 :: u64) < 2 ^ 64" "25 = unat (vt_elapsedCycles t) + unat (25 :: u64)"
    "10 = unat (vt_intervalCycles t)"
    by (simp_all add: t)
  from timer_tick_counts [OF t(1) this] show ?thesis
    unfolding t_def [symmetric] by (simp add: t)
qed

text \<open>for a periodic timer the way cycles are batched does not matter: ticking \<open>a\<close> and then \<open>b\<close>
  cycles gives the same timer state and the same raised vectors as ticking \<open>a + b\<close> at once.\<close>

theorem timer_tick_batching:
  assumes "vt_enabled t" "vt_intervalCycles t \<noteq> 0" "vt_periodic t" "a \<noteq> 0" "b \<noteq> 0"
    and "unat (vt_elapsedCycles t) + unat a + unat b < 2 ^ 64"
  shows "timer_Tick (a + b) t =
    (let (t1, v1) = timer_Tick a t; (t2, v2) = timer_Tick b t1 in (t2, v1 @ v2))"
proof -
  let ?e = "unat (vt_elapsedCycles t)" and ?i = "unat (vt_intervalCycles t)"
  have i: "0 < ?i" and ipos: "0 < vt_intervalCycles t"
    using assms(2) by (simp_all add: unat_gt_0 word_neq_0_conv)
  have ab: "unat (a + b) = unat a + unat b" "a + b \<noteq> 0"
    using assms(4,6) by (simp_all add: unat_word_ariths word_unat_eq_iff)
  define u where "u = vt_elapsedCycles t + a"
  have u: "unat u = ?e + unat a"
    using assms(6) by (simp add: u_def unat_word_ariths)
  define w where "w = u mod vt_intervalCycles t + b"
  have w: "unat w = unat u mod ?i + unat b"
  proof -
    have "unat u mod ?i + unat b < 2 ^ 64"
      using assms(6) u mod_less_eq_dividend [of "unat u" ?i] by linarith
    then show ?thesis
      unfolding w_def unat_word_ariths(1) unat_mod by simp
  qed
  have s: "unat (vt_elapsedCycles t + (a + b)) = unat u + unat b"
    using assms(6) u by (simp add: unat_word_ariths ab(1))
  have T1: "timer_Tick a t = (t\<lparr>vt_elapsedCycles := u mod vt_intervalCycles t,
      vt_interruptPending := vt_interruptPending t \<or> vt_intervalCycles t \<le> u\<rparr>,
      replicate (unat u div ?i) (vt_interruptVector t))"
    using tick_loop_periodic [of "t\<lparr>vt_elapsedCycles := u\<rparr>" "[]"] assms(1-4) ipos
    by (simp add: timer_Tick_def u_def)
  have T2: "timer_Tick b (fst (timer_Tick a t)) =
     (t\<lparr>vt_elapsedCycles := w mod vt_intervalCycles t,
       vt_interruptPending := (vt_interruptPending t \<or> vt_intervalCycles t \<le> u) \<or> vt_intervalCycles t \<le> w\<rparr>,
      replicate (unat w div ?i) (vt_interruptVector t))"
    using tick_loop_periodic [of "(fst (timer_Tick a t))\<lparr>vt_elapsedCycles := w\<rparr>" "[]"] assms(1-5) ipos
    by (simp add: timer_Tick_def [of b] T1 w_def)
  have T3: "timer_Tick (a + b) t =
     (t\<lparr>vt_elapsedCycles := (vt_elapsedCycles t + (a + b)) mod vt_intervalCycles t,
       vt_interruptPending := vt_interruptPending t \<or> vt_intervalCycles t \<le> vt_elapsedCycles t + (a + b)\<rparr>,
      replicate (unat (vt_elapsedCycles t + (a + b)) div ?i) (vt_interruptVector t))"
    using tick_loop_periodic [of "t\<lparr>vt_elapsedCycles := vt_elapsedCycles t + (a + b)\<rparr>" "[]"] assms(1-3) ab(2) ipos
    by (simp add: timer_Tick_def)
  have m: "(vt_elapsedCycles t + (a + b)) mod vt_intervalCycles t = w mod vt_intervalCycles t"
    by (simp add: word_unat_eq_iff unat_mod s w mod_add_left_eq)
  have split: "unat u + unat b = ?i * (unat u div ?i) + unat w"
    unfolding w by simp
  have d: "(unat u + unat b) div ?i = unat u div ?i + unat w div ?i"
    unfolding split using i by simp
  have p: "vt_intervalCycles t \<le> vt_elapsedCycles t + (a + b) \<longleftrightarrow>
      vt_intervalCycles t \<le> u \<or> vt_intervalCycles t \<le> w"
  proof -
    have "?i \<le> unat u + unat b \<longleftrightarrow> 0 < unat u div ?i + unat w div ?i"
      using i unfolding d [symmetric] by (simp add: div_greater_zero_iff)
    also have "\<dots> \<longleftrightarrow> ?i \<le> unat u \<or> ?i \<le> unat w"
      using i by (simp add: div_greater_zero_iff)
    finally show ?thesis by (simp add: word_le_nat_alt s)
  qed
  show ?thesis
    using T1 T2 T3 by (simp add: m p s d replicate_add split: prod.splits)
qed

lemma timer_tick_batching_witness:
  "timer_Tick (7 + 8) (timer_Configure 10 0x40 True True (VirtualTimer 0)) =
    (let (t1, v1) = timer_Tick 7 (timer_Configure 10 0x40 True True (VirtualTimer 0));
         (t2, v2) = timer_Tick 8 t1 in (t2, v1 @ v2))"
  by (rule timer_tick_batching) (simp_all add: timer_Configure_def)

text \<open>the control register does not read back as it is written: reading the control word of any
  timer and writing the same bytes back makes it one-shot, because a read reports the periodic flag
  in byte 1 while a write takes it from bit 1 of byte 0.\<close>

theorem timer_control_readback_clears_periodic:
  assumes "unat (vt_baseAddress t) + 24 < 2 ^ 64"
  shows "\<exists>bs t'. timer_Read t (vt_baseAddress t) 2 = Some bs \<and>
     timer_Write t (vt_baseAddress t) bs = Some t' \<and> vt_enabled t' = vt_enabled t \<and> \<not> vt_periodic t'"
proof -
  have "unat (vt_baseAddress t + of_nat n) = unat (vt_baseAddress t) + n" if "n \<le> 24" for n
    using assms that by (simp add: unat_word_ariths unat_of_nat take_bit_nat_eq_self)
  from this [of 2] this [of 24]
  have h: "HandlesRange (vt_baseAddress t) 24 (vt_baseAddress t) 2"
    by (simp add: HandlesRange_def Let_def word_le_nat_alt)
  have img: "read_bytes (timer_image t) 0 2 = [byte_of_bool (vt_enabled t), byte_of_bool (vt_periodic t)]"
    by (simp add: timer_image_def read_bytes_def)
  have "length [byte_of_bool (vt_enabled t), byte_of_bool (vt_periodic t)] = 2" by simp
  then show ?thesis
    using h
    by (auto simp: timer_Read_def timer_Write_def img timer_write_byte_def byte_of_bool_def Let_def
      simp del: list.size split: if_splits)
qed

lemma timer_control_readback_clears_periodic_witness:
  "\<exists>bs t'. timer_Read (VirtualTimer 0xFFFF0100) 0xFFFF0100 2 = Some bs \<and>
     timer_Write (VirtualTimer 0xFFFF0100) 0xFFFF0100 bs = Some t' \<and> \<not> vt_periodic t'"
  using timer_control_readback_clears_periodic [of "VirtualTimer 0xFFFF0100"]
  by (auto simp: VirtualTimer_def)

end
