(* ===== verification/Interrupts.thy ===== *)
theory Interrupts
  imports Io_Devices
begin

text \<open>
  The interrupt controller (\<open>BasicInterruptController\<close>, \<open>src/src/io/InterruptController.cpp\<close>) and the
  processor interrupt block (\<open>ProcessorInterruptBlock\<close>), and the timer driving the controller. The
  controller's queue is a list with its front first; the delivery callback is an observer, so every
  operation that may deliver returns the delivered vectors in order.
\<close>

subsection \<open>The interrupt controller\<close>

record interrupt_source =
  src_id :: nat
  src_name :: string
  src_vector :: u8
  src_enabled :: bool

record interrupt_controller =
  ic_deliveryCallback :: bool
  ic_sources :: "interrupt_source list"
  ic_pendingVectors :: "u8 list"
  ic_nextSourceId :: nat

definition BasicInterruptController :: interrupt_controller where
  "BasicInterruptController = \<lparr>ic_deliveryCallback = False, ic_sources = [],
     ic_pendingVectors = [], ic_nextSourceId = 1\<rparr>"

text \<open>The loop pops the front until the queue is empty.\<close>

fun deliver_loop :: "u8 list \<Rightarrow> u8 list \<Rightarrow> u8 list \<times> u8 list" where
  "deliver_loop [] delivered = ([], delivered)"
| "deliver_loop (v # pending) delivered = deliver_loop pending (delivered @ [v])"

definition DeliverPendingInterrupts :: "interrupt_controller \<Rightarrow> interrupt_controller \<times> u8 list" where
  "DeliverPendingInterrupts ic =
     (if \<not> ic_deliveryCallback ic then (ic, [])
      else let (pending, delivered) = deliver_loop (ic_pendingVectors ic) []
           in (ic\<lparr>ic_pendingVectors := pending\<rparr>, delivered))"

definition RegisterDeliveryCallback :: "bool \<Rightarrow> interrupt_controller \<Rightarrow> interrupt_controller \<times> u8 list" where
  "RegisterDeliveryCallback present ic = DeliverPendingInterrupts (ic\<lparr>ic_deliveryCallback := present\<rparr>)"

definition RegisterSource :: "string \<Rightarrow> u8 \<Rightarrow> interrupt_controller \<Rightarrow> nat \<times> interrupt_controller" where
  "RegisterSource name vector ic =
     (ic_nextSourceId ic,
      ic\<lparr>ic_sources := ic_sources ic @
           [\<lparr>src_id = ic_nextSourceId ic, src_name = name, src_vector = vector, src_enabled = True\<rparr>],
         ic_nextSourceId := ic_nextSourceId ic + 1\<rparr>)"

fun set_source_enabled :: "nat \<Rightarrow> bool \<Rightarrow> interrupt_source list \<Rightarrow> bool \<times> interrupt_source list" where
  "set_source_enabled sourceId b [] = (False, [])"
| "set_source_enabled sourceId b (s # ss) =
     (if src_id s = sourceId then (True, s\<lparr>src_enabled := b\<rparr> # ss)
      else (case set_source_enabled sourceId b ss of (r, ss') \<Rightarrow> (r, s # ss')))"

definition SetSourceEnabled :: "nat \<Rightarrow> bool \<Rightarrow> interrupt_controller \<Rightarrow> bool \<times> interrupt_controller" where
  "SetSourceEnabled sourceId b ic =
     (case set_source_enabled sourceId b (ic_sources ic) of
        (r, ss) \<Rightarrow> (r, ic\<lparr>ic_sources := ss\<rparr>))"

text \<open>\<open>RaiseInterrupt(uint8_t)\<close>: queue the vector, then deliver; it always answers true.\<close>

definition RaiseInterrupt :: "u8 \<Rightarrow> interrupt_controller \<Rightarrow> interrupt_controller \<times> u8 list" where
  "RaiseInterrupt vector ic =
     DeliverPendingInterrupts (ic\<lparr>ic_pendingVectors := ic_pendingVectors ic @ [vector]\<rparr>)"

text \<open>\<open>RaiseInterrupt(size_t)\<close>: the first source with that id, if it is enabled.\<close>

definition RaiseInterruptSource ::
  "nat \<Rightarrow> interrupt_controller \<Rightarrow> bool \<times> interrupt_controller \<times> u8 list" where
  "RaiseInterruptSource sourceId ic =
     (case find (\<lambda>s. src_id s = sourceId) (ic_sources ic) of
        None \<Rightarrow> (False, ic, [])
      | Some s \<Rightarrow>
          if \<not> src_enabled s then (False, ic, [])
          else (True, RaiseInterrupt (src_vector s) ic))"

definition HasPendingInterrupt :: "interrupt_controller \<Rightarrow> bool" where
  "HasPendingInterrupt ic \<longleftrightarrow> ic_pendingVectors ic \<noteq> []"

definition GetNextPendingInterrupt :: "interrupt_controller \<Rightarrow> u8 option \<times> interrupt_controller" where
  "GetNextPendingInterrupt ic =
     (case ic_pendingVectors ic of
        [] \<Rightarrow> (None, ic)
      | v # vs \<Rightarrow> (Some v, ic\<lparr>ic_pendingVectors := vs\<rparr>))"

definition ic_Reset :: "interrupt_controller \<Rightarrow> interrupt_controller" where
  "ic_Reset ic = ic\<lparr>ic_pendingVectors := []\<rparr>"

record ic_snapshot =
  snap_pendingInterrupts :: "bool list"
  snap_maskedInterrupts :: "bool list"
  snap_sources :: "interrupt_source list"
  snap_nextSourceId :: nat

definition set_flags :: "u8 list \<Rightarrow> bool list" where
  "set_flags vs = fold (\<lambda>v flags. flags[unat v := True]) vs (replicate 256 False)"

definition ic_createSnapshot :: "interrupt_controller \<Rightarrow> ic_snapshot" where
  "ic_createSnapshot ic = \<lparr>
     snap_pendingInterrupts = set_flags (ic_pendingVectors ic),
     snap_maskedInterrupts = set_flags (map src_vector (filter (\<lambda>s. \<not> src_enabled s) (ic_sources ic))),
     snap_sources = ic_sources ic,
     snap_nextSourceId = ic_nextSourceId ic\<rparr>"

definition pending_of_flags :: "bool list \<Rightarrow> u8 list" where
  "pending_of_flags flags = map of_nat (filter (\<lambda>i. flags ! i) [0..<length flags])"

definition ic_restoreSnapshot :: "ic_snapshot \<Rightarrow> interrupt_controller \<Rightarrow> interrupt_controller" where
  "ic_restoreSnapshot snapshot ic =
     (let masked = snap_maskedInterrupts snapshot;
          unmask = (\<lambda>s. if unat (src_vector s) < length masked
                        then s\<lparr>src_enabled := \<not> masked ! unat (src_vector s)\<rparr> else s);
          ic1 = ic\<lparr>ic_pendingVectors := pending_of_flags (snap_pendingInterrupts snapshot),
                   ic_sources := map unmask (ic_sources ic)\<rparr>
      in if snap_sources snapshot \<noteq> []
         then ic1\<lparr>ic_sources := snap_sources snapshot, ic_nextSourceId := snap_nextSourceId snapshot\<rparr>
         else ic1)"

subsection \<open>Delivery order\<close>

lemma deliver_loop_all: "deliver_loop pending delivered = ([], delivered @ pending)"
  by (induction pending arbitrary: delivered) simp_all

lemma DeliverPending_eq:
  "DeliverPendingInterrupts ic =
     (if ic_deliveryCallback ic then (ic\<lparr>ic_pendingVectors := []\<rparr>, ic_pendingVectors ic) else (ic, []))"
  by (simp add: DeliverPendingInterrupts_def deliver_loop_all)

lemma Raise_eq:
  "RaiseInterrupt v ic =
     (if ic_deliveryCallback ic then (ic\<lparr>ic_pendingVectors := []\<rparr>, ic_pendingVectors ic @ [v])
      else (ic\<lparr>ic_pendingVectors := ic_pendingVectors ic @ [v]\<rparr>, []))"
  by (simp add: RaiseInterrupt_def DeliverPending_eq)

text \<open>Raising a sequence of vectors: the controller afterwards and everything delivered.\<close>

primrec raise_all :: "u8 list \<Rightarrow> interrupt_controller \<Rightarrow> interrupt_controller \<times> u8 list" where
  "raise_all [] ic = (ic, [])"
| "raise_all (v # vs) ic =
     (case RaiseInterrupt v ic of (ic1, d1) \<Rightarrow>
      case raise_all vs ic1 of (ic2, d2) \<Rightarrow> (ic2, d1 @ d2))"

text \<open>Draining with \<open>GetNextPendingInterrupt\<close> until it answers false; the fuel bounds the calls.\<close>

fun drain :: "nat \<Rightarrow> interrupt_controller \<Rightarrow> u8 list \<times> interrupt_controller" where
  "drain 0 ic = ([], ic)"
| "drain (Suc n) ic =
     (case GetNextPendingInterrupt ic of
        (None, ic') \<Rightarrow> ([], ic')
      | (Some v, ic') \<Rightarrow> (case drain n ic' of (vs, ic'') \<Rightarrow> (v # vs, ic'')))"

lemma drain_pending:
  "length (ic_pendingVectors ic) \<le> n \<Longrightarrow> drain n ic = (ic_pendingVectors ic, ic\<lparr>ic_pendingVectors := []\<rparr>)"
proof (induction n arbitrary: ic)
  case 0
  then show ?case by simp
next
  case (Suc n)
  then show ?case
    by (cases "ic_pendingVectors ic") (simp_all add: GetNextPendingInterrupt_def)
qed

lemma raise_all_no_callback:
  "\<not> ic_deliveryCallback ic \<Longrightarrow>
   raise_all vs ic = (ic\<lparr>ic_pendingVectors := ic_pendingVectors ic @ vs\<rparr>, [])"
  by (induction vs arbitrary: ic) (simp_all add: Raise_eq)

lemma raise_all_callback:
  "ic_deliveryCallback ic \<Longrightarrow> raise_all vs ic =
     (if vs = [] then (ic, []) else (ic\<lparr>ic_pendingVectors := []\<rparr>, ic_pendingVectors ic @ vs))"
  by (induction vs arbitrary: ic) (simp_all add: Raise_eq)

text \<open>no interrupt is lost, duplicated or reordered: the vectors raised before a callback exists are
  delivered in order when one is registered or come out of \<open>GetNextPendingInterrupt\<close> in order, and with
  a callback every raise is delivered at once and nothing stays pending.\<close>

theorem interrupts_fifo:
  assumes "\<not> ic_deliveryCallback ic" "ic_pendingVectors ic = []"
  shows "snd (RegisterDeliveryCallback True (fst (raise_all vs ic))) = vs \<and>
     fst (drain (length vs) (fst (raise_all vs ic))) = vs \<and>
     (let ic1 = fst (RegisterDeliveryCallback True (fst (raise_all vs ic)))
      in snd (raise_all ws ic1) = ws \<and> \<not> HasPendingInterrupt (fst (raise_all ws ic1)))"
  using assms
  by (auto simp: raise_all_no_callback raise_all_callback RegisterDeliveryCallback_def
      DeliverPending_eq drain_pending HasPendingInterrupt_def Let_def)

lemma interrupts_fifo_witness:
  "snd (RegisterDeliveryCallback True (fst (raise_all [3, 1, 3] BasicInterruptController))) = [3, 1, 3]"
  using interrupts_fifo [of BasicInterruptController "[3, 1, 3]" "[]"]
  by (simp add: BasicInterruptController_def)

subsection \<open>Snapshots\<close>

lemma set_flags_length [simp]: "length (set_flags vs) = 256"
proof -
  have "length (fold (\<lambda>v flags. flags[unat v := True]) vs xs) = length xs" for xs :: "bool list"
    by (induction vs arbitrary: xs) simp_all
  then show ?thesis by (simp add: set_flags_def)
qed

lemma set_flags_nth: "i < 256 \<Longrightarrow> set_flags vs ! i \<longleftrightarrow> (\<exists>v \<in> set vs. unat v = i)"
proof -
  have "i < length xs \<Longrightarrow> fold (\<lambda>v flags. flags[unat v := True]) vs xs ! i \<longleftrightarrow> xs ! i \<or> (\<exists>v \<in> set vs. unat v = i)"
    for xs :: "bool list"
  proof (induction vs arbitrary: xs)
    case Nil
    then show ?case by simp
  next
    case (Cons a vs)
    then show ?case by (cases "unat a = i") auto
  qed
  from this [of "replicate 256 False"] show "i < 256 \<Longrightarrow> ?thesis"
    by (simp add: set_flags_def)
qed

lemma unat_u8_less: "unat (v :: u8) < 256"
proof -
  have "unat v < 2 ^ LENGTH(8)" by (rule unsigned_less)
  then show ?thesis by simp
qed

lemma pending_of_set_flags:
  "pending_of_flags (set_flags vs) = sorted_list_of_set (set vs)"
proof -
  have u: "unat (of_nat i :: u8) = i" if "i < 256" for i
    using that by (simp add: unat_of_nat take_bit_nat_eq_self)
  have members: "set (pending_of_flags (set_flags vs)) = set vs"
  proof (intro equalityI subsetI)
    fix x assume "x \<in> set (pending_of_flags (set_flags vs))"
    then obtain i where "i < 256" "set_flags vs ! i" "x = of_nat i"
      by (auto simp: pending_of_flags_def)
    then show "x \<in> set vs"
      by (auto simp: set_flags_nth)
  next
    fix x assume "x \<in> set vs"
    then show "x \<in> set (pending_of_flags (set_flags vs))"
      using unat_u8_less [of x] set_flags_nth [of "unat x" vs]
      by (auto simp: pending_of_flags_def intro!: image_eqI [of _ _ "unat x"])
  qed
  have le: "of_nat i \<le> (of_nat j :: u8) \<longleftrightarrow> i \<le> j" if "i < 256" "j < 256" for i j
    using u that by (simp add: word_le_nat_alt)
  have eq: "of_nat i = (of_nat j :: u8) \<longleftrightarrow> i = j" if "i < 256" "j < 256" for i j
    using u that by (metis u)
  have "sorted (filter (\<lambda>i. set_flags vs ! i) [0..<256])" "distinct (filter (\<lambda>i. set_flags vs ! i) [0..<256])"
    by (simp_all add: sorted_wrt_filter)
  then have "sorted (pending_of_flags (set_flags vs))" "distinct (pending_of_flags (set_flags vs))"
    by (auto simp: pending_of_flags_def sorted_wrt_map distinct_map inj_on_def eq
      intro: sorted_wrt_mono_rel [where P = "(\<le>)"] simp: le)
  then show ?thesis
    by (metis members sorted_list_of_set.idem_if_sorted_distinct)
qed

text \<open>restoring a snapshot brings the sources and their masks back exactly, but the pending queue
  comes back as the increasing list of the distinct pending vectors: the order of arrival and repeated
  vectors are lost.\<close>

theorem interrupt_snapshot_roundtrip:
  assumes "ic_sources ic \<noteq> []"
  shows "ic_restoreSnapshot (ic_createSnapshot ic) ic' =
     ic'\<lparr>ic_sources := ic_sources ic, ic_nextSourceId := ic_nextSourceId ic,
         ic_pendingVectors := sorted_list_of_set (set (ic_pendingVectors ic))\<rparr>"
  using assms by (simp add: ic_restoreSnapshot_def ic_createSnapshot_def pending_of_set_flags Let_def)

lemma interrupt_snapshot_roundtrip_witness:
  "ic_pendingVectors (ic_restoreSnapshot (ic_createSnapshot (fst (raise_all [9, 4, 9]
     (snd (RegisterSource ''timer'' 0x20 BasicInterruptController))))) BasicInterruptController) = [4, 9]"
proof -
  define ic where "ic = fst (raise_all [9, 4, 9] (snd (RegisterSource ''timer'' 0x20 BasicInterruptController)))"
  have ic: "ic_sources ic \<noteq> []" "ic_pendingVectors ic = [9, 4, 9]"
    by (simp_all add: ic_def RaiseInterrupt_def DeliverPending_eq RegisterSource_def BasicInterruptController_def)
  have "sorted_list_of_set (set [4, 9 :: u8]) = [4, 9]"
    by (rule sorted_list_of_set.idem_if_sorted_distinct) simp_all
  then show ?thesis
    unfolding ic_def [symmetric] by (simp add: interrupt_snapshot_roundtrip [OF ic(1)] ic(2) insert_commute)
qed

subsection \<open>The timer driving the controller\<close>

text \<open>\<open>VirtualTimer::Tick\<close> with a controller attached: every raise goes to \<open>RaiseInterrupt\<close>.\<close>

definition tick_into :: "u64 \<Rightarrow> virtual_timer \<times> interrupt_controller
    \<Rightarrow> (virtual_timer \<times> interrupt_controller) \<times> u8 list" where
  "tick_into cycles = (\<lambda>(t, ic).
     let (t', raised) = timer_Tick cycles t;
         (ic', delivered) = raise_all raised ic
     in ((t', ic'), delivered))"

subsection \<open>The processor interrupt block\<close>

record pib_address =
  pa_id :: u8
  pa_eid :: u8
  pa_redirect :: bool
  pa_aligned :: bool

record pib_message =
  pm_vector :: u8
  pm_deliveryMode :: u8

record pib_statistics =
  ps_writes :: u64
  ps_acceptedInt :: u64
  ps_ignoredInvalidVector :: u64
  ps_ignoredUnsupportedMode :: u64
  ps_ignoredRedirect :: u64
  ps_unavailableTarget :: u64
  ps_hasLastMessage :: bool
  ps_lastAddress :: pib_address
  ps_lastMessage :: pib_message

record pib =
  pib_baseAddress :: u64
  pib_statistics :: pib_statistics

definition pib_kIpiRegionSize :: nat where
  "pib_kIpiRegionSize = 0x00100000"

definition ProcessorInterruptBlock :: "u64 \<Rightarrow> pib" where
  "ProcessorInterruptBlock baseAddress = \<lparr>pib_baseAddress = baseAddress,
     pib_statistics = \<lparr>ps_writes = 0, ps_acceptedInt = 0, ps_ignoredInvalidVector = 0,
       ps_ignoredUnsupportedMode = 0, ps_ignoredRedirect = 0, ps_unavailableTarget = 0,
       ps_hasLastMessage = False,
       ps_lastAddress = \<lparr>pa_id = 0, pa_eid = 0, pa_redirect = False, pa_aligned = False\<rparr>,
       ps_lastMessage = \<lparr>pm_vector = 0, pm_deliveryMode = 0\<rparr>\<rparr>\<rparr>"

definition pib_Read :: "pib \<Rightarrow> u64 \<Rightarrow> nat \<Rightarrow> u8 list option" where
  "pib_Read p address n = None"

definition DecodeAddress :: "u64 \<Rightarrow> pib_address" where
  "DecodeAddress address = \<lparr>
     pa_id = ucast (drop_bit 12 address AND 0xff),
     pa_eid = ucast (drop_bit 4 address AND 0xff),
     pa_redirect = (address AND 8 \<noteq> 0),
     pa_aligned = (address AND 7 = 0)\<rparr>"

definition DecodeMessage :: "u64 \<Rightarrow> pib_message" where
  "DecodeMessage data = \<lparr>
     pm_vector = ucast (data AND 0xff),
     pm_deliveryMode = ucast (drop_bit 8 data AND 7)\<rparr>"

definition IsIntVectorLegal :: "u8 \<Rightarrow> bool" where
  "IsIntVectorLegal vector \<longleftrightarrow> vector = 0 \<or> vector = 2 \<or> vector \<ge> 16"

type_synonym pib_callback = "u8 \<Rightarrow> u8 \<Rightarrow> u8 \<Rightarrow> u8 \<Rightarrow> bool \<Rightarrow> bool"

text \<open>The result also tells whether the delivery callback was called, and with which message.\<close>

definition pib_Write :: "pib_callback option \<Rightarrow> pib \<Rightarrow> u64 \<Rightarrow> u8 list \<Rightarrow> pib \<times> (pib_address \<times> pib_message) option" where
  "pib_Write callback p address bs =
     (let st = (pib_statistics p)\<lparr>ps_writes := ps_writes (pib_statistics p) + 1\<rparr>
      in if length bs \<noteq> 8 \<or> address AND 7 \<noteq> 0 then (p\<lparr>pib_statistics := st\<rparr>, None)
         else
           let a = DecodeAddress address;
               m = DecodeMessage (le_value bs);
               st = st\<lparr>ps_hasLastMessage := True, ps_lastAddress := a, ps_lastMessage := m\<rparr>
           in if pa_redirect a then
                (p\<lparr>pib_statistics := st\<lparr>ps_ignoredRedirect := ps_ignoredRedirect st + 1\<rparr>\<rparr>, None)
              else if pm_deliveryMode m \<noteq> 0 then
                (p\<lparr>pib_statistics := st\<lparr>ps_ignoredUnsupportedMode := ps_ignoredUnsupportedMode st + 1\<rparr>\<rparr>, None)
              else if \<not> IsIntVectorLegal (pm_vector m) then
                (p\<lparr>pib_statistics := st\<lparr>ps_ignoredInvalidVector := ps_ignoredInvalidVector st + 1\<rparr>\<rparr>, None)
              else
                (case callback of
                   None \<Rightarrow> (p\<lparr>pib_statistics := st\<lparr>ps_unavailableTarget := ps_unavailableTarget st + 1\<rparr>\<rparr>, None)
                 | Some cb \<Rightarrow>
                     if cb (pa_id a) (pa_eid a) (pm_vector m) (pm_deliveryMode m) (pa_redirect a)
                     then (p\<lparr>pib_statistics := st\<lparr>ps_acceptedInt := ps_acceptedInt st + 1\<rparr>\<rparr>, Some (a, m))
                     else (p\<lparr>pib_statistics := st\<lparr>ps_unavailableTarget := ps_unavailableTarget st + 1\<rparr>\<rparr>, Some (a, m))))"

text \<open>As a device: the window is fixed, every write is consumed, no read succeeds.\<close>

definition pib_device_Write :: "pib_callback option \<Rightarrow> pib \<Rightarrow> u64 \<Rightarrow> u8 list \<Rightarrow> pib option" where
  "pib_device_Write callback p address bs = Some (fst (pib_Write callback p address bs))"

interpretation pib_device: mmio_device pib_baseAddress "\<lambda>_. pib_kIpiRegionSize" pib_Read
  "pib_device_Write callback" "\<lambda>_. True" for callback
  by unfold_locales
    (auto simp: pib_kIpiRegionSize_def pib_Read_def pib_device_Write_def pib_Write_def Let_def split: option.splits if_splits)

text \<open>The address of the interrupt message to processor \<open>(id, eid)\<close>, and the message for a vector.\<close>

definition ipi_address :: "u64 \<Rightarrow> u8 \<Rightarrow> u8 \<Rightarrow> u64" where
  "ipi_address base i e = base OR push_bit 12 (ucast i) OR push_bit 4 (ucast e)"

lemma DecodeAddress_ipi:
  assumes "take_bit 20 base = 0"
  shows "DecodeAddress (ipi_address base i e) = \<lparr>pa_id = i, pa_eid = e, pa_redirect = False, pa_aligned = True\<rparr>"
proof -
  have low: "\<not> bit base k" if "k < 20" for k
    using assms that by (metis bit_take_bit_iff bit_0_eq bot_apply bot_bool_def)
  have m: "(0xff :: u64) = mask 8" "(7 :: u64) = mask 3"
    by (simp_all add: mask_eq_exp_minus_1)
  have eight: "(8 :: int) = 2 ^ 3" by simp
  have b8: "bit (8 :: int) n \<longleftrightarrow> n = 3" for n
    unfolding eight bit_exp_iff by auto
  have "ucast (drop_bit 12 (ipi_address base i e) AND 0xff) = i"
    "ucast (drop_bit 4 (ipi_address base i e) AND 0xff) = e"
    unfolding m ipi_address_def
    by (rule bit_word_eqI; auto simp: bit_simps low dest: bit_imp_le_length)+
  moreover have "ipi_address base i e AND 8 = 0"
    unfolding ipi_address_def by (rule bit_word_eqI) (auto simp: bit_simps low b8)
  moreover have "ipi_address base i e AND 7 = 0"
    unfolding m ipi_address_def by (rule bit_word_eqI) (auto simp: bit_simps low)
  ultimately show ?thesis
    by (simp add: DecodeAddress_def)
qed

text \<open>an 8-byte write of a vector to the message address of processor \<open>(id, eid)\<close> reaches the delivery
  callback with exactly that id, eid and vector when the vector is architecturally legal, and otherwise
  only counts an invalid vector; in both cases the device consumes the write.\<close>

theorem ipi_delivery:
  assumes "take_bit 20 base = 0"
  shows "snd (pib_Write (Some cb) p (ipi_address base i e) (le_bytes 8 (ucast v :: u64))) =
       (if v = 0 \<or> v = 2 \<or> v \<ge> 16
        then Some (\<lparr>pa_id = i, pa_eid = e, pa_redirect = False, pa_aligned = True\<rparr>,
                   \<lparr>pm_vector = v, pm_deliveryMode = 0\<rparr>)
        else None) \<and>
     ps_acceptedInt (pib_statistics (fst (pib_Write (Some cb) p (ipi_address base i e) (le_bytes 8 (ucast v :: u64))))) =
       ps_acceptedInt (pib_statistics p) +
         (if (v = 0 \<or> v = 2 \<or> v \<ge> 16) \<and> cb i e v 0 False then 1 else 0)"
proof -
  have m: "(0xff :: u64) = mask 8" "(7 :: u64) = mask 3"
    by (simp_all add: mask_eq_exp_minus_1)
  have "ucast ((ucast v :: u64) AND 0xff) = v" "ucast (drop_bit 8 (ucast v :: u64) AND 7) = (0 :: u8)"
    unfolding m by (rule bit_word_eqI; auto simp: bit_simps dest: bit_imp_le_length)+
  then have msg: "DecodeMessage (ucast v) = \<lparr>pm_vector = v, pm_deliveryMode = 0\<rparr>"
    by (simp add: DecodeMessage_def)
  have val: "le_value (le_bytes 8 (ucast v :: u64)) = (ucast v :: u64)"
    by (rule le_value_le_bytes) simp
  have "ipi_address base i e AND 7 = 0"
    using DecodeAddress_ipi [OF assms, of i e] by (simp add: DecodeAddress_def)
  then show ?thesis
    by (simp add: pib_Write_def Let_def DecodeAddress_ipi [OF assms] val msg IsIntVectorLegal_def)
qed

lemma ipi_delivery_witness:
  "snd (pib_Write (Some (\<lambda>i e v m r. True)) (ProcessorInterruptBlock 0xFEE00000)
     (ipi_address 0xFEE00000 3 1) (le_bytes 8 (ucast (0x31 :: u8) :: u64))) =
   Some (\<lparr>pa_id = 3, pa_eid = 1, pa_redirect = False, pa_aligned = True\<rparr>,
         \<lparr>pm_vector = 0x31, pm_deliveryMode = 0\<rparr>)"
proof -
  have "take_bit 20 (0xFEE00000 :: u64) = 0"
    by (simp add: take_bit_eq_mask mask_eq_exp_minus_1)
  from ipi_delivery [OF this, of "\<lambda>i e v m r. True" "ProcessorInterruptBlock 0xFEE00000" 3 1 "0x31"]
  show ?thesis by simp
qed

end
