(* ===== verification/Console.thy ===== *)
theory Console
  imports Io_Devices Bounded_History
begin

text \<open>
  The scrollback buffer (\<open>ConsoleOutputBuffer\<close>, \<open>src/src/io/ConsoleOutputBuffer.cpp\<close>) and the
  memory-mapped console on top of it (\<open>VirtualConsole\<close>, \<open>Console.cpp\<close>). The host stream is the
  string written to it so far. The mutex is not modelled: every operation holds it for its whole body.
\<close>

subsection \<open>The scrollback buffer\<close>

abbreviation newline :: char where "newline \<equiv> CHR 0x0A"

record console_buffer =
  cb_lines :: "string list"
  cb_currentLine :: string
  cb_maxLines :: nat
  cb_totalBytesWritten :: u64

definition ConsoleOutputBuffer :: "nat \<Rightarrow> console_buffer" where
  "ConsoleOutputBuffer maxLines = \<lparr>cb_lines = [], cb_currentLine = [], cb_maxLines = maxLines,
     cb_totalBytesWritten = 0\<rparr>"

fun pop_to :: "nat \<Rightarrow> string list \<Rightarrow> string list" where
  "pop_to m [] = []"
| "pop_to m (l # ls) = (if length (l # ls) > m then pop_to m ls else l # ls)"

definition enforceMaxLines :: "console_buffer \<Rightarrow> console_buffer" where
  "enforceMaxLines b = (if cb_maxLines b = 0 then b else b\<lparr>cb_lines := pop_to (cb_maxLines b) (cb_lines b)\<rparr>)"

definition completeLine :: "console_buffer \<Rightarrow> console_buffer" where
  "completeLine b =
     (if cb_currentLine b = [] \<or> last (cb_currentLine b) \<noteq> newline then b
      else enforceMaxLines
             (b\<lparr>cb_lines := cb_lines b @ [butlast (cb_currentLine b)], cb_currentLine := []\<rparr>))"

definition appendChar :: "char \<Rightarrow> console_buffer \<Rightarrow> console_buffer" where
  "appendChar c b =
     (let b1 = b\<lparr>cb_currentLine := cb_currentLine b @ [c], cb_totalBytesWritten := cb_totalBytesWritten b + 1\<rparr>
      in if c = newline then completeLine b1 else b1)"

definition appendLine :: "string \<Rightarrow> console_buffer \<Rightarrow> console_buffer" where
  "appendLine line b =
     (let b1 = (if cb_currentLine b \<noteq> [] then completeLine b else b)
      in enforceMaxLines (b1\<lparr>cb_lines := cb_lines b1 @ [line],
           cb_totalBytesWritten := cb_totalBytesWritten b1 + of_nat (length line) + 1\<rparr>))"

primrec appendText :: "string \<Rightarrow> console_buffer \<Rightarrow> console_buffer" where
  "appendText [] b = b"
| "appendText (c # cs) b = appendText cs (appendChar c b)"

definition getAllLines :: "console_buffer \<Rightarrow> string list" where
  "getAllLines b = cb_lines b @ (if cb_currentLine b \<noteq> [] then [cb_currentLine b] else [])"

definition total_lines :: "console_buffer \<Rightarrow> nat" where
  "total_lines b = length (cb_lines b) + (if cb_currentLine b \<noteq> [] then 1 else 0)"

definition line_at :: "console_buffer \<Rightarrow> nat \<Rightarrow> string list" where
  "line_at b i =
     (if i < length (cb_lines b) then [cb_lines b ! i]
      else if i = length (cb_lines b) \<and> cb_currentLine b \<noteq> [] then [cb_currentLine b] else [])"

definition getLines :: "console_buffer \<Rightarrow> nat \<Rightarrow> nat \<Rightarrow> string list" where
  "getLines b startLine count =
     (if startLine \<ge> total_lines b then []
      else
        let endLine = (if count > 0 then min (startLine + count) (total_lines b) else total_lines b)
        in concat (map (line_at b) [startLine..<endLine]))"

definition getLinesSince :: "console_buffer \<Rightarrow> nat \<Rightarrow> string list" where
  "getLinesSince b since =
     (if since \<ge> total_lines b then [] else concat (map (line_at b) [since..<total_lines b]))"

text \<open>The loop over the lines from the newest; \<open>tempResult\<close> grows at its front.\<close>

fun recent_loop :: "string list \<Rightarrow> nat \<Rightarrow> nat \<Rightarrow> string \<Rightarrow> string" where
  "recent_loop [] bytesCollected maxBytes tempResult = tempResult"
| "recent_loop (l # ls) bytesCollected maxBytes tempResult =
     (if bytesCollected < maxBytes then
        let lineLength = length l + 1 in
        if bytesCollected + lineLength \<le> maxBytes
        then recent_loop ls (bytesCollected + lineLength) maxBytes (l @ [newline] @ tempResult)
        else
          let remainingBytes = maxBytes - bytesCollected in
          if remainingBytes > 0
          then drop (length l - (remainingBytes - 1)) l @ [newline] @ tempResult
          else tempResult
      else tempResult)"

definition getRecentOutput :: "console_buffer \<Rightarrow> nat \<Rightarrow> string" where
  "getRecentOutput b maxBytes =
     (let cur = cb_currentLine b;
          (result, bytesCollected) =
            (if cur \<noteq> [] \<and> 0 < maxBytes then
               let bytesToAdd = min (length cur) maxBytes in
               ((if bytesToAdd < length cur then drop (length cur - bytesToAdd) cur else cur), bytesToAdd)
             else ([], 0))
      in if bytesCollected < maxBytes \<and> cb_lines b \<noteq> []
         then recent_loop (rev (cb_lines b)) bytesCollected maxBytes [] @ result
         else result)"

definition getCurrentBufferSize :: "console_buffer \<Rightarrow> nat" where
  "getCurrentBufferSize b =
     length (cb_currentLine b) + sum_list (map (\<lambda>l. length l + 1) (cb_lines b))"

definition buffer_clear :: "console_buffer \<Rightarrow> console_buffer" where
  "buffer_clear b = b\<lparr>cb_lines := [], cb_currentLine := [], cb_totalBytesWritten := 0\<rparr>"

definition setMaxLines :: "nat \<Rightarrow> console_buffer \<Rightarrow> console_buffer" where
  "setMaxLines maxLines b = enforceMaxLines (b\<lparr>cb_maxLines := maxLines\<rparr>)"

definition restoreExactState :: "string list \<Rightarrow> string \<Rightarrow> nat \<Rightarrow> u64 \<Rightarrow> console_buffer \<Rightarrow> console_buffer" where
  "restoreExactState completeLines currentLine maxLines totalBytes b =
     enforceMaxLines \<lparr>cb_lines = completeLines, cb_currentLine = currentLine, cb_maxLines = maxLines,
       cb_totalBytesWritten = totalBytes\<rparr>"

subsection \<open>The console device\<close>

record virtual_console =
  vc_baseAddress :: u64
  vc_output :: string
  vc_buffer :: string
  vc_outputBuffer :: console_buffer

definition VirtualConsole :: "u64 \<Rightarrow> nat \<Rightarrow> virtual_console" where
  "VirtualConsole baseAddress scrollbackLines = \<lparr>vc_baseAddress = baseAddress, vc_output = [],
     vc_buffer = [], vc_outputBuffer = ConsoleOutputBuffer scrollbackLines\<rparr>"

abbreviation "console_kRegisterSize \<equiv> 8 :: nat"

definition console_Flush :: "virtual_console \<Rightarrow> virtual_console" where
  "console_Flush c =
     (if vc_buffer c = [] then c
      else c\<lparr>vc_output := vc_output c @ vc_buffer c, vc_buffer := []\<rparr>)"

definition console_WriteChar :: "char \<Rightarrow> virtual_console \<Rightarrow> virtual_console" where
  "console_WriteChar v c =
     (let c1 = c\<lparr>vc_buffer := vc_buffer c @ [v], vc_outputBuffer := appendChar v (vc_outputBuffer c)\<rparr>
      in if v = newline then console_Flush c1 else c1)"

definition console_read_byte :: "virtual_console \<Rightarrow> u64 \<Rightarrow> u8" where
  "console_read_byte c offset = (if offset = 4 then of_nat (length (vc_buffer c)) AND 0xFF else 0)"

definition console_Read :: "virtual_console \<Rightarrow> u64 \<Rightarrow> nat \<Rightarrow> u8 list option" where
  "console_Read c address n =
     (if \<not> HandlesRange (vc_baseAddress c) console_kRegisterSize address n then None
      else Some (map (\<lambda>i. console_read_byte c (address - vc_baseAddress c + of_nat i)) [0..<n]))"

fun console_write_bytes :: "u64 \<Rightarrow> u8 list \<Rightarrow> virtual_console \<Rightarrow> virtual_console" where
  "console_write_bytes offset [] c = c"
| "console_write_bytes offset (b # bs) c =
     console_write_bytes (offset + 1) bs
       (if offset = 0 then console_WriteChar (char_of (unat b)) c
        else if offset = 5 \<and> b \<noteq> 0 then console_Flush c
        else c)"

definition console_Write :: "virtual_console \<Rightarrow> u64 \<Rightarrow> u8 list \<Rightarrow> virtual_console option" where
  "console_Write c address bs =
     (if \<not> HandlesRange (vc_baseAddress c) console_kRegisterSize address (length bs) then None
      else Some (console_write_bytes (address - vc_baseAddress c) bs c))"

definition console_Reset :: "virtual_console \<Rightarrow> virtual_console" where
  "console_Reset c = c\<lparr>vc_buffer := [], vc_outputBuffer := buffer_clear (vc_outputBuffer c)\<rparr>"

record console_snapshot =
  cs_baseAddress :: u64
  cs_currentBuffer :: string
  cs_outputLines :: "string list"
  cs_totalBytesWritten :: u64
  cs_completeLines :: "string list"
  cs_currentLine :: string
  cs_maxLines :: nat

definition console_createSnapshot :: "virtual_console \<Rightarrow> console_snapshot" where
  "console_createSnapshot c = \<lparr>cs_baseAddress = vc_baseAddress c, cs_currentBuffer = vc_buffer c,
     cs_outputLines = getAllLines (vc_outputBuffer c),
     cs_totalBytesWritten = cb_totalBytesWritten (vc_outputBuffer c),
     cs_completeLines = cb_lines (vc_outputBuffer c),
     cs_currentLine = cb_currentLine (vc_outputBuffer c),
     cs_maxLines = cb_maxLines (vc_outputBuffer c)\<rparr>"

definition console_restoreSnapshot :: "console_snapshot \<Rightarrow> virtual_console \<Rightarrow> virtual_console" where
  "console_restoreSnapshot s c =
     c\<lparr>vc_baseAddress := cs_baseAddress s, vc_buffer := cs_currentBuffer s,
       vc_outputBuffer :=
         (if cs_completeLines s \<noteq> [] \<or> cs_currentLine s \<noteq> [] \<or> cs_maxLines s \<noteq> 10000
             \<or> cs_totalBytesWritten s = 0
          then restoreExactState (cs_completeLines s) (cs_currentLine s) (cs_maxLines s)
                 (cs_totalBytesWritten s) (vc_outputBuffer c)
          else fold (\<lambda>line b. appendChar newline (appendText line b)) (cs_outputLines s)
                 (buffer_clear (vc_outputBuffer c)))\<rparr>"

subsection \<open>The retained text\<close>

definition text_of :: "console_buffer \<Rightarrow> string" where
  "text_of b = concat (map (\<lambda>l. l @ [newline]) (cb_lines b)) @ cb_currentLine b"

definition newest :: "nat \<Rightarrow> 'a list \<Rightarrow> 'a list" where
  "newest n xs = drop (length xs - n) xs"

lemma newest_all [simp]: "length xs \<le> n \<Longrightarrow> newest n xs = xs"
  by (simp add: newest_def)

lemma newest_append:
  "newest n (xs @ ys) = (if length ys \<le> n then newest (n - length ys) xs @ ys else newest n ys)"
  by (auto simp: newest_def)

lemma newest_0 [simp]: "newest 0 xs = []"
  by (simp add: newest_def)

lemma pop_to_newest: "pop_to m ls = newest m ls"
  by (induction m ls rule: pop_to.induct) (auto simp: newest_def Suc_diff_le)

lemma recent_loop_newest:
  "c \<le> m \<Longrightarrow> recent_loop ls c m t = newest (m - c) (concat (map (\<lambda>l. l @ [newline]) (rev ls))) @ t"
proof (induction ls c m t rule: recent_loop.induct)
  case (1 c m t)
  then show ?case by (simp add: newest_def)
next
  case (2 l ls c m t)
  show ?case
  proof (cases "c + (length l + 1) \<le> m")
    case True
    then show ?thesis
      using 2 by (simp add: newest_append Let_def)
  next
    case False
    then have "newest (m - c) (concat (map (\<lambda>l. l @ [newline]) (rev ls)) @ l @ [newline])
        = newest (m - c) (l @ [newline])"
      by (subst newest_append) simp
    also have "\<dots> = (if c < m then drop (length l - (m - c - 1)) l @ [newline] else [])"
    proof (cases "c < m")
      case True
      have n: "newest (m - c) (l @ [newline]) = newest (m - c - 1) l @ [newline]"
        unfolding newest_append using True by auto
      show ?thesis
        using True unfolding n newest_def by simp
    next
      case False
      then show ?thesis by simp
    qed
    finally show ?thesis
      using False by (auto simp: Let_def)
  qed
qed

text \<open>\<open>getRecentOutput(n)\<close> returns exactly the last \<open>n\<close> bytes of the retained output (all of it when
  there is less), across line boundaries.\<close>

theorem recent_output_is_suffix:
  "getRecentOutput b n = newest n (text_of b)"
proof -
  let ?cur = "cb_currentLine b" and ?ls = "concat (map (\<lambda>l. l @ [newline]) (cb_lines b))"
  show ?thesis
  proof (cases "length ?cur < n")
    case True
    then have r: "getRecentOutput b n =
        (if cb_lines b \<noteq> [] then recent_loop (rev (cb_lines b)) (length ?cur) n [] @ ?cur else ?cur)"
      by (auto simp: getRecentOutput_def Let_def)
    show ?thesis
      using True unfolding r text_of_def newest_append
      by (auto simp: recent_loop_newest newest_def)
  next
    case False
    have "getRecentOutput b n = newest n ?cur"
      using False
      by (cases "?cur = []"; cases "n = 0"; cases "length ?cur = n")
        (auto simp: getRecentOutput_def Let_def newest_def min_def)
    then show ?thesis
      using False unfolding text_of_def newest_append by auto
  qed
qed

subsection \<open>Appending text\<close>

lemma enforce_simps [simp]:
  "cb_currentLine (enforceMaxLines b) = cb_currentLine b"
  "cb_maxLines (enforceMaxLines b) = cb_maxLines b"
  "cb_totalBytesWritten (enforceMaxLines b) = cb_totalBytesWritten b"
  "cb_lines (enforceMaxLines b) = (if cb_maxLines b = 0 then cb_lines b else newest (cb_maxLines b) (cb_lines b))"
  by (simp_all add: enforceMaxLines_def pop_to_newest)

lemma appendChar_eq:
  "appendChar c b =
     (if c = newline
      then enforceMaxLines (b\<lparr>cb_lines := cb_lines b @ [cb_currentLine b], cb_currentLine := [],
             cb_totalBytesWritten := cb_totalBytesWritten b + 1\<rparr>)
      else b\<lparr>cb_currentLine := cb_currentLine b @ [c], cb_totalBytesWritten := cb_totalBytesWritten b + 1\<rparr>)"
  by (simp add: appendChar_def completeLine_def Let_def)

lemma appendChar_fields:
  "cb_lines (appendChar c b) =
     (if c \<noteq> newline then cb_lines b
      else if cb_maxLines b = 0 then cb_lines b @ [cb_currentLine b]
      else newest (cb_maxLines b) (cb_lines b @ [cb_currentLine b]))"
  "cb_currentLine (appendChar c b) = (if c = newline then [] else cb_currentLine b @ [c])"
  "cb_maxLines (appendChar c b) = cb_maxLines b"
  "cb_totalBytesWritten (appendChar c b) = cb_totalBytesWritten b + 1"
  by (simp_all add: appendChar_eq)

interpretation scrollback: bounded_history m "\<lambda>l h. pop_to m (h @ [l])" for m
  by unfold_locales (simp add: pop_to_newest newest_def)

lemma newest_newest: "newest m (newest m xs @ ys) = newest m (xs @ ys)"
  by (cases "length xs \<le> m") (auto simp: newest_def add.commute)

text \<open>appending text loses nothing: without a line limit the retained text grows by exactly the text
  appended; with a limit \<open>m\<close> the retained lines are the newest \<open>m\<close> of the unlimited ones and the partial
  line is the same; the byte counter grows by the length of the text.\<close>

theorem appendText_correct:
  assumes "u = b\<lparr>cb_maxLines := 0\<rparr>"
  shows "text_of (appendText s u) = text_of b @ s \<and>
     cb_currentLine (appendText s b) = cb_currentLine (appendText s u) \<and>
     (cb_maxLines b \<noteq> 0 \<and> length (cb_lines b) \<le> cb_maxLines b \<longrightarrow>
        cb_lines (appendText s b) = newest (cb_maxLines b) (cb_lines (appendText s u))) \<and>
     cb_totalBytesWritten (appendText s b) = cb_totalBytesWritten b + of_nat (length s)"
proof -
  have grow: "cb_maxLines v = 0 \<Longrightarrow> text_of (appendText s v) = text_of v @ s" for v
  proof (induction s arbitrary: v)
    case Nil
    then show ?case by simp
  next
    case (Cons c s)
    have "text_of (appendChar c v) = text_of v @ [c]"
      using Cons.prems by (simp add: text_of_def appendChar_fields)
    with Cons show ?case by (simp add: appendChar_fields)
  qed
  have sim: "cb_currentLine (appendText s w) = cb_currentLine (appendText s v) \<and>
      cb_totalBytesWritten (appendText s w) = cb_totalBytesWritten w + of_nat (length s) \<and>
      (cb_maxLines w \<noteq> 0 \<and> cb_lines w = newest (cb_maxLines w) (cb_lines v) \<longrightarrow>
         cb_lines (appendText s w) = newest (cb_maxLines w) (cb_lines (appendText s v)))"
    if "cb_maxLines v = 0" "cb_currentLine w = cb_currentLine v" for v w
    using that
  proof (induction s arbitrary: v w)
    case Nil
    then show ?case by simp
  next
    case (Cons c s)
    have "cb_maxLines (appendChar c v) = 0"
      "cb_currentLine (appendChar c w) = cb_currentLine (appendChar c v)"
      using Cons.prems by (simp_all add: appendChar_fields)
    note ih = Cons.IH [OF this]
    have "cb_lines (appendChar c w) = newest (cb_maxLines w) (cb_lines (appendChar c v))"
      if "cb_maxLines w \<noteq> 0" "cb_lines w = newest (cb_maxLines w) (cb_lines v)"
      using that Cons.prems by (simp add: appendChar_fields newest_newest)
    with ih show ?case
      by (simp add: appendChar_fields add.assoc)
  qed
  show ?thesis
    using grow [of u] sim [of u b] by (simp add: assms text_of_def)
qed

lemma appendText_correct_witness:
  "text_of (appendText ''ab'' ((ConsoleOutputBuffer 5)\<lparr>cb_maxLines := 0\<rparr>)) = ''ab''"
  using appendText_correct [OF refl, of "''ab''" "ConsoleOutputBuffer 5"]
  by (simp add: text_of_def ConsoleOutputBuffer_def)

text \<open>\<open>appendLine\<close> reorders output: a pending partial line is not completed, because \<open>completeLine\<close>
  ignores a line without a newline, so the new line is stored before the older text and the two are
  not separated afterwards.\<close>

theorem appendLine_reorders:
  assumes "cb_currentLine b \<noteq> []" "newline \<notin> set (cb_currentLine b)" "cb_maxLines b = 0"
  shows "cb_lines (appendLine l b) = cb_lines b @ [l] \<and>
     cb_currentLine (appendLine l b) = cb_currentLine b \<and>
     text_of (appendLine l b) = concat (map (\<lambda>l. l @ [newline]) (cb_lines b)) @ l @ [newline] @ cb_currentLine b"
proof -
  have "last (cb_currentLine b) \<noteq> newline"
    using assms(1,2) last_in_set by metis
  then show ?thesis
    using assms by (simp add: appendLine_def completeLine_def Let_def text_of_def)
qed

lemma appendLine_reorders_witness:
  "text_of (appendLine ''new'' (appendText ''old'' (ConsoleOutputBuffer 0))) = ''new'' @ [newline] @ ''old''"
proof -
  let ?b = "appendText ''old'' (ConsoleOutputBuffer 0)"
  have b: "cb_currentLine ?b = ''old''" "cb_lines ?b = []" "cb_maxLines ?b = 0"
    by (simp_all add: appendChar_eq ConsoleOutputBuffer_def)
  have "cb_currentLine ?b \<noteq> []" "newline \<notin> set (cb_currentLine ?b)"
    unfolding b by simp_all
  from appendLine_reorders [OF this b(3), of "''new''"] show ?thesis
    by (simp only: b) simp
qed

subsection \<open>The console device\<close>

lemma console_keeps_base [simp]:
  "vc_baseAddress (console_Flush c) = vc_baseAddress c"
  "vc_baseAddress (console_WriteChar v c) = vc_baseAddress c"
  by (simp_all add: console_Flush_def console_WriteChar_def Let_def)

lemma console_write_bytes_base [simp]: "vc_baseAddress (console_write_bytes off bs c) = vc_baseAddress c"
  by (induction off bs c rule: console_write_bytes.induct) simp_all

text \<open>Well-formed consoles: the unflushed text has no newline, the scrollback respects its limit, and an
  empty scrollback has counted nothing.\<close>

definition buffer_ok :: "console_buffer \<Rightarrow> bool" where
  "buffer_ok b \<longleftrightarrow> (cb_maxLines b = 0 \<or> length (cb_lines b) \<le> cb_maxLines b) \<and>
     (cb_lines b = [] \<and> cb_currentLine b = [] \<longrightarrow> cb_totalBytesWritten b = 0)"

definition console_ok :: "virtual_console \<Rightarrow> bool" where
  "console_ok c \<longleftrightarrow> newline \<notin> set (vc_buffer c) \<and> buffer_ok (vc_outputBuffer c)"

lemma length_newest: "length (newest n xs) = min n (length xs)"
  by (simp add: newest_def)

lemma newest_eq_Nil: "newest n xs = [] \<longleftrightarrow> n = 0 \<or> xs = []"
  by (cases n; cases xs) (simp_all add: newest_def)

lemma buffer_ok_appendChar: "buffer_ok b \<Longrightarrow> buffer_ok (appendChar c b)"
  by (auto simp: buffer_ok_def appendChar_fields length_newest newest_eq_Nil)

lemma buffer_ok_new: "buffer_ok (ConsoleOutputBuffer n)" "buffer_ok (buffer_clear b)"
  by (simp_all add: buffer_ok_def ConsoleOutputBuffer_def buffer_clear_def)

lemma console_ok_WriteChar: "console_ok c \<Longrightarrow> console_ok (console_WriteChar v c)"
  by (auto simp: console_ok_def console_WriteChar_def console_Flush_def Let_def buffer_ok_appendChar)

lemma console_ok_Flush: "console_ok c \<Longrightarrow> console_ok (console_Flush c)"
  by (auto simp: console_ok_def console_Flush_def)

text \<open>The characters a write sends to the data register: at most the first byte, at offset 0.\<close>

lemma console_write_bytes_spec:
  "console_ok c \<Longrightarrow> console_ok (console_write_bytes off bs c)"
  by (induction off bs c rule: console_write_bytes.induct)
    (simp_all add: console_ok_WriteChar console_ok_Flush)

interpretation console_device: mmio_device vc_baseAddress "\<lambda>_. console_kRegisterSize" console_Read console_Write
  console_ok
  by unfold_locales (auto simp: console_Read_def console_Write_def console_write_bytes_spec split: if_splits)

lemma console_Write_ok: "console_ok c \<Longrightarrow> console_Write c a bs = Some c' \<Longrightarrow> console_ok c'"
  by (auto simp: console_Write_def console_write_bytes_spec split: if_splits)

text \<open>printing a string through the data register, one byte per write, never loses a character: what
  reached the host stream followed by the unflushed buffer is the old content followed by the string,
  everything up to the last newline has reached the host, and the console stays well formed.\<close>

theorem console_prints_everything:
  assumes "console_ok c" "c' = fold console_WriteChar str c"
  shows "vc_output c' @ vc_buffer c' = vc_output c @ vc_buffer c @ str \<and>
     newline \<notin> set (vc_buffer c') \<and> console_ok c' \<and>
     vc_outputBuffer c' = appendText str (vc_outputBuffer c)"
  using assms
proof (induction str arbitrary: c)
  case Nil
  then show ?case by (simp add: console_ok_def)
next
  case (Cons v str)
  let ?c = "console_WriteChar v c"
  have "vc_output ?c @ vc_buffer ?c = vc_output c @ vc_buffer c @ [v]"
    "vc_outputBuffer ?c = appendChar v (vc_outputBuffer c)"
    by (simp_all add: console_WriteChar_def console_Flush_def Let_def)
  with Cons.IH [OF console_ok_WriteChar [OF Cons.prems(1), of v]] Cons.prems show ?case
    by simp
qed

lemma console_prints_everything_witness:
  "vc_output (fold console_WriteChar (''hi'' @ [newline]) (VirtualConsole 0xFFFF0000 100)) = ''hi'' @ [newline]"
proof -
  let ?c = "fold console_WriteChar (''hi'' @ [newline]) (VirtualConsole 0xFFFF0000 100)"
  have "console_ok (VirtualConsole 0xFFFF0000 100)"
    by (simp add: console_ok_def VirtualConsole_def buffer_ok_new)
  from console_prints_everything [OF this refl, of "''hi'' @ [newline]"]
  have all: "vc_output ?c @ vc_buffer ?c = ''hi'' @ [newline]"
    by (simp add: VirtualConsole_def)
  have "vc_buffer ?c = []"
    by (simp add: console_WriteChar_def console_Flush_def Let_def)
  with all show ?thesis by simp
qed

text \<open>a console snapshot restores exactly: applied to any console, it brings back the base address,
  the unflushed text and the whole scrollback state of the console it was taken from; only the host
  stream is that of the target.\<close>

theorem console_snapshot_roundtrip:
  assumes "console_ok c"
  shows "console_restoreSnapshot (console_createSnapshot c) c' = c\<lparr>vc_output := vc_output c'\<rparr>"
proof -
  let ?b = "vc_outputBuffer c"
  have lim: "cb_maxLines ?b = 0 \<or> length (cb_lines ?b) \<le> cb_maxLines ?b"
    and empty: "cb_lines ?b = [] \<Longrightarrow> cb_currentLine ?b = [] \<Longrightarrow> cb_totalBytesWritten ?b = 0"
    using assms by (simp_all add: console_ok_def buffer_ok_def)
  have "restoreExactState (cb_lines ?b) (cb_currentLine ?b) (cb_maxLines ?b) (cb_totalBytesWritten ?b)
      (vc_outputBuffer c') = ?b"
    using lim by (auto simp: restoreExactState_def enforceMaxLines_def pop_to_newest)
  then show ?thesis
    using empty by (cases c) (auto simp: console_restoreSnapshot_def console_createSnapshot_def)
qed

lemma console_snapshot_roundtrip_witness:
  "console_restoreSnapshot (console_createSnapshot (VirtualConsole 0xFFFF0000 10000)) (VirtualConsole 0 3)
     = VirtualConsole 0xFFFF0000 10000"
proof -
  have "console_ok (VirtualConsole 0xFFFF0000 10000)"
    by (simp add: console_ok_def VirtualConsole_def buffer_ok_new)
  from console_snapshot_roundtrip [OF this, of "VirtualConsole 0 3"] show ?thesis
    by (simp add: VirtualConsole_def)
qed

end
