(* ===== verification/Framebuffer.thy ===== *)
theory Framebuffer
  imports Io_Devices
begin

text \<open>
  The framebuffer device (\<open>FramebufferDevice\<close>, \<open>src/src/io/FramebufferDevice.cpp\<close>): a flat BGRA32 byte
  array with device reads and writes, clearing, glyph drawing and snapshots. \<open>size_t\<close> arithmetic on
  coordinates is written out modulo \<open>2 ^ 64\<close>; the boot trace calls are not modelled.
\<close>

record framebuffer =
  fb_baseAddress :: u64
  fb_width :: nat
  fb_height :: nat
  fb_pitch :: nat
  fb_bufferSize :: nat
  fb_data :: "u8 list"

abbreviation "kBytesPerPixel \<equiv> 4 :: nat"

definition fb_Clear :: "u32 \<Rightarrow> framebuffer \<Rightarrow> framebuffer" where
  "fb_Clear color f =
     f\<lparr>fb_data := write_bytes (fb_data f) 0 (concat (replicate (fb_width f * fb_height f) (le_bytes 4 color)))\<rparr>"

definition FramebufferDevice :: "u64 \<Rightarrow> nat \<Rightarrow> nat \<Rightarrow> framebuffer" where
  "FramebufferDevice baseAddress width height =
     fb_Clear 0xFF000000 \<lparr>fb_baseAddress = baseAddress, fb_width = width, fb_height = height,
       fb_pitch = width * kBytesPerPixel, fb_bufferSize = width * kBytesPerPixel * height,
       fb_data = replicate (width * kBytesPerPixel * height) 0\<rparr>"

definition fb_Read :: "framebuffer \<Rightarrow> u64 \<Rightarrow> nat \<Rightarrow> u8 list option" where
  "fb_Read f address n =
     (if \<not> HandlesRange (fb_baseAddress f) (fb_bufferSize f) address n then None
      else
        let offset = address - fb_baseAddress f in
        if offset + of_nat n > of_nat (fb_bufferSize f) then None
        else Some (read_bytes (fb_data f) (unat offset) n))"

definition fb_Write :: "framebuffer \<Rightarrow> u64 \<Rightarrow> u8 list \<Rightarrow> framebuffer option" where
  "fb_Write f address bs =
     (if \<not> HandlesRange (fb_baseAddress f) (fb_bufferSize f) address (length bs) then None
      else
        let offset = address - fb_baseAddress f in
        if offset + of_nat (length bs) > of_nat (fb_bufferSize f) then None
        else Some (f\<lparr>fb_data := write_bytes (fb_data f) (unat offset) bs\<rparr>))"

definition CopyFramebuffer :: "framebuffer \<Rightarrow> nat \<Rightarrow> u8 list option" where
  "CopyFramebuffer f destSize =
     (if destSize < fb_bufferSize f then None else Some (take (fb_bufferSize f) (fb_data f)))"

subsection \<open>Glyphs\<close>

definition to_upper :: "char \<Rightarrow> char" where
  "to_upper c = (let n = of_char c :: nat in if 97 \<le> n \<and> n \<le> 122 then char_of (n - 32) else c)"

text \<open>Seven rows of five columns, as the literals of the source concatenate them.\<close>

definition GlyphRows :: "char \<Rightarrow> string" where
  "GlyphRows c =
     (let u = to_upper c in
     if u = CHR 0x41 then ''01110100011000111111100011000110001''
     else if u = CHR 0x42 then ''11110100011000111110100011000111110''
     else if u = CHR 0x43 then ''01111100001000010000100001000001111''
     else if u = CHR 0x44 then ''11110100011000110001100011000111110''
     else if u = CHR 0x45 then ''11111100001000011110100001000011111''
     else if u = CHR 0x46 then ''11111100001000011110100001000010000''
     else if u = CHR 0x47 then ''01111100001000010011100011000101111''
     else if u = CHR 0x48 then ''10001100011000111111100011000110001''
     else if u = CHR 0x49 then ''11111001000010000100001000010011111''
     else if u = CHR 0x4A then ''00111000100001000010100101001001100''
     else if u = CHR 0x4B then ''10001100101010011000101001001010001''
     else if u = CHR 0x4C then ''10000100001000010000100001000011111''
     else if u = CHR 0x4D then ''10001110111010110101100011000110001''
     else if u = CHR 0x4E then ''10001110011010110011100011000110001''
     else if u = CHR 0x4F then ''01110100011000110001100011000101110''
     else if u = CHR 0x50 then ''11110100011000111110100001000010000''
     else if u = CHR 0x51 then ''01110100011000110001101011001001101''
     else if u = CHR 0x52 then ''11110100011000111110101001001010001''
     else if u = CHR 0x53 then ''01111100001000001110000010000111110''
     else if u = CHR 0x54 then ''11111001000010000100001000010000100''
     else if u = CHR 0x55 then ''10001100011000110001100011000101110''
     else if u = CHR 0x56 then ''10001100011000110001010100101000100''
     else if u = CHR 0x57 then ''10001100011000110101101011010101010''
     else if u = CHR 0x58 then ''10001010100010000100001000101010001''
     else if u = CHR 0x59 then ''10001010100010000100001000010000100''
     else if u = CHR 0x5A then ''11111000010001000100010001000011111''
     else if u = CHR 0x30 then ''01110100011001110101110011000101110''
     else if u = CHR 0x31 then ''00100011000010000100001000010001110''
     else if u = CHR 0x32 then ''01110100010000100010001000100011111''
     else if u = CHR 0x33 then ''11110000010000101110000010000111110''
     else if u = CHR 0x34 then ''00010001100101010010111110001000010''
     else if u = CHR 0x35 then ''11111100001000011110000010000111110''
     else if u = CHR 0x36 then ''01111100001000011110100011000101110''
     else if u = CHR 0x37 then ''11111000010001000100010000100001000''
     else if u = CHR 0x38 then ''01110100011000101110100011000101110''
     else if u = CHR 0x39 then ''01110100011000101111000010000111110''
     else if u = CHR 0x3A then ''00000001000010000000001000010000000''
     else if u = CHR 0x2E then ''00000000000000000000000000110001100''
     else if u = CHR 0x2D then ''00000000000000011111000000000000000''
     else if u = CHR 0x2F then ''00001000100001000100010000100010000''
     else if u = CHR 0x20 then ''00000000000000000000000000000000000''
     else ''11111000010001000100001000000000100'')"

definition glyph_pixels :: "string \<Rightarrow> nat \<Rightarrow> nat \<Rightarrow> nat \<Rightarrow> (nat \<times> nat) list" where
  "glyph_pixels glyph cursorX y scale =
     [((cursorX + col * scale + sx) mod 2 ^ 64, (y + row * scale + sy) mod 2 ^ 64).
        row \<leftarrow> [0..<7], col \<leftarrow> [0..<5], glyph ! (row * 5 + col) = CHR 0x31,
        sy \<leftarrow> [0..<scale], sx \<leftarrow> [0..<scale]]"

definition set_pixel :: "u32 \<Rightarrow> nat \<times> nat \<Rightarrow> framebuffer \<Rightarrow> framebuffer" where
  "set_pixel color = (\<lambda>(px, py) f.
     if px < fb_width f \<and> py < fb_height f
     then f\<lparr>fb_data := write_bytes (fb_data f) (4 * (py * fb_width f + px)) (le_bytes 4 color)\<rparr>
     else f)"

fun draw_chars :: "string \<Rightarrow> nat \<Rightarrow> nat \<Rightarrow> u32 \<Rightarrow> nat \<Rightarrow> framebuffer \<Rightarrow> framebuffer" where
  "draw_chars [] cursorX y color scale f = f"
| "draw_chars (c # cs) cursorX y color scale f =
     (let f1 = fold (set_pixel color) (glyph_pixels (GlyphRows c) cursorX y scale) f;
          cursorX1 = (cursorX + 6 * scale) mod 2 ^ 64
      in if cursorX1 \<ge> fb_width f1 then f1 else draw_chars cs cursorX1 y color scale f1)"

definition DrawText :: "nat \<Rightarrow> nat \<Rightarrow> string \<Rightarrow> u32 \<Rightarrow> nat \<Rightarrow> framebuffer \<Rightarrow> framebuffer" where
  "DrawText x y str color scale f = (if scale = 0 then f else draw_chars str x y color scale f)"

definition fb_createSnapshot :: "framebuffer \<Rightarrow> framebuffer" where
  "fb_createSnapshot f = f"

definition fb_restoreSnapshot :: "framebuffer \<Rightarrow> framebuffer \<Rightarrow> bool \<times> framebuffer" where
  "fb_restoreSnapshot s f =
     (if fb_width s \<noteq> fb_width f \<or> fb_height s \<noteq> fb_height f \<or> fb_pitch s \<noteq> fb_pitch f
         \<or> length (fb_data s) \<noteq> fb_bufferSize f
      then (False, f)
      else (True, f\<lparr>fb_baseAddress := fb_baseAddress s, fb_data := fb_data s\<rparr>))"

subsection \<open>Well-formed framebuffers\<close>

definition fb_ok :: "framebuffer \<Rightarrow> bool" where
  "fb_ok f \<longleftrightarrow> fb_pitch f = 4 * fb_width f \<and> fb_bufferSize f = 4 * (fb_width f * fb_height f) \<and>
     length (fb_data f) = fb_bufferSize f"

text \<open>The four bytes of a pixel.\<close>

definition pixel :: "framebuffer \<Rightarrow> nat \<Rightarrow> nat \<Rightarrow> u8 list" where
  "pixel f x y = read_bytes (fb_data f) (4 * (y * fb_width f + x)) 4"

lemma pixel_index:
  fixes x y w h :: nat
  assumes "x < w" "y < h"
  shows "4 * (y * w + x) + 4 \<le> 4 * (w * h)"
proof -
  have "y * w + x < y * w + w" using assms(1) by simp
  also have "\<dots> = (y + 1) * w" by simp
  also have "\<dots> \<le> h * w" using assms(2) by (intro mult_le_mono1) simp
  finally show ?thesis by (simp add: mult.commute)
qed

lemma length_concat_replicate: "length (concat (replicate n xs)) = n * length xs"
  by (induction n) simp_all

lemma fb_ok_Clear: "fb_ok f \<Longrightarrow> fb_ok (fb_Clear c f)"
  by (simp add: fb_ok_def fb_Clear_def length_concat_replicate)

lemma fb_ok_new: "fb_ok (FramebufferDevice b w h)"
  unfolding FramebufferDevice_def by (rule fb_ok_Clear) (simp add: fb_ok_def)

lemma set_pixel_fields [simp]:
  "fb_width (set_pixel c p f) = fb_width f" "fb_height (set_pixel c p f) = fb_height f"
  "fb_baseAddress (set_pixel c p f) = fb_baseAddress f"
  by (simp_all add: set_pixel_def split: prod.split)

lemma fb_ok_set_pixel: "fb_ok f \<Longrightarrow> fb_ok (set_pixel c p f)"
  using pixel_index [of "fst p" "fb_width f" "snd p" "fb_height f"]
  by (auto simp: set_pixel_def fb_ok_def split: prod.split)

lemma pixel_set_pixel:
  assumes "fb_ok f" "x < fb_width f" "y < fb_height f"
  shows "pixel (set_pixel c (px, py) f) x y =
    (if px = x \<and> py = y then le_bytes 4 c else pixel f x y)"
proof (cases "px < fb_width f \<and> py < fb_height f")
  case False
  with assms show ?thesis by (auto simp: set_pixel_def)
next
  case True
  note ix = pixel_index [of px "fb_width f" py "fb_height f"] pixel_index [OF assms(2,3)]
  have lens: "4 * (py * fb_width f + px) + length (le_bytes 4 c) \<le> length (fb_data f)"
    "4 * (y * fb_width f + x) + 4 \<le> length (fb_data f)"
    using ix True assms(1) by (simp_all add: fb_ok_def)
  show ?thesis
  proof (cases "px = x \<and> py = y")
    case True
    then show ?thesis
      using read_write_same [OF lens(1)] \<open>px < fb_width f \<and> py < fb_height f\<close>
      by (simp add: set_pixel_def pixel_def)
  next
    case False
    have "py * fb_width f + px \<noteq> y * fb_width f + x"
    proof
      assume eq: "py * fb_width f + px = y * fb_width f + x"
      then have "(px + py * fb_width f) mod fb_width f = (x + y * fb_width f) mod fb_width f"
        "(px + py * fb_width f) div fb_width f = (x + y * fb_width f) div fb_width f"
        by (simp_all add: add.commute)
      with True assms(2) False show False by auto
    qed
    then have "4 * (y * fb_width f + x) + 4 \<le> 4 * (py * fb_width f + px) \<or>
        4 * (py * fb_width f + px) + length (le_bytes 4 c) \<le> 4 * (y * fb_width f + x)"
      by auto
    from read_write_disjoint [OF lens this] show ?thesis
      using True False by (auto simp: set_pixel_def pixel_def)
  qed
qed

lemma set_pixels:
  assumes "fb_ok f" "x < fb_width f" "y < fb_height f"
  shows "fb_ok (fold (set_pixel c) ps f) \<and>
    fb_width (fold (set_pixel c) ps f) = fb_width f \<and> fb_height (fold (set_pixel c) ps f) = fb_height f \<and>
    pixel (fold (set_pixel c) ps f) x y = (if (x, y) \<in> set ps then le_bytes 4 c else pixel f x y)"
  using assms
proof (induction ps arbitrary: f)
  case Nil
  then show ?case by simp
next
  case (Cons p ps)
  obtain px py where p: "p = (px, py)" by (cases p)
  from Cons.IH [of "set_pixel c p f"] Cons.prems show ?case
    by (auto simp: fb_ok_set_pixel p pixel_set_pixel)
qed

text \<open>Whatever the coordinates, the buffer keeps its shape and a visible pixel is painted or kept.\<close>

lemma DrawText_frame:
  assumes "fb_ok f" "px < fb_width f" "py < fb_height f"
  shows "fb_ok (DrawText x y str color scale f) \<and>
     fb_width (DrawText x y str color scale f) = fb_width f \<and>
     fb_height (DrawText x y str color scale f) = fb_height f \<and>
     pixel (DrawText x y str color scale f) px py \<in> {le_bytes 4 color, pixel f px py}"
proof -
  have "fb_ok (draw_chars str x y color scale f) \<and> fb_width (draw_chars str x y color scale f) = fb_width f \<and>
     fb_height (draw_chars str x y color scale f) = fb_height f \<and>
     pixel (draw_chars str x y color scale f) px py \<in> {le_bytes 4 color, pixel f px py}"
    using assms
  proof (induction str arbitrary: x f)
    case Nil
    then show ?case by simp
  next
    case (Cons c cs)
    let ?f = "fold (set_pixel color) (glyph_pixels (GlyphRows c) x y scale) f"
    from set_pixels [OF Cons.prems] Cons.IH [of ?f "(x + 6 * scale) mod 2 ^ 64"] Cons.prems
    show ?case by (auto simp: Let_def)
  qed
  with assms show ?thesis by (simp add: DrawText_def)
qed

text \<open>What a reader sees of a text at \<open>(x, y)\<close>, without a loop: the pixel lies in a cell of six by seven dots of
  \<open>scale\<close> by \<open>scale\<close> pixels, and the dot of that cell is set in the glyph of the character the cell is for. The
  sixth column of a cell is the gap between two characters.\<close>

definition text_dot :: "string \<Rightarrow> nat \<Rightarrow> nat \<Rightarrow> bool" where
  "text_dot str col row \<longleftrightarrow> col div 6 < length str \<and> col mod 6 < 5 \<and> row < 7 \<and>
     GlyphRows (str ! (col div 6)) ! (row * 5 + col mod 6) = CHR 0x31"

definition text_lit :: "string \<Rightarrow> nat \<Rightarrow> nat \<Rightarrow> nat \<Rightarrow> nat \<Rightarrow> nat \<Rightarrow> bool" where
  "text_lit str x y scale px py \<longleftrightarrow>
     0 < scale \<and> x \<le> px \<and> y \<le> py \<and> text_dot str ((px - x) div scale) ((py - y) div scale)"

lemma text_lit_in_box:
  assumes "text_lit str x y scale px py"
  shows "x \<le> px \<and> px < x + 6 * scale * length str \<and> y \<le> py \<and> py < y + 7 * scale"
proof -
  have "(px - x) div scale < length str * 6" "(py - y) div scale < 7" "0 < scale" "x \<le> px" "y \<le> py"
    using assms by (auto simp: text_lit_def text_dot_def div_less_iff_less_mult)
  then show ?thesis
    by (auto simp: div_less_iff_less_mult algebra_simps)
qed

lemma dot_pixel:
  fixes p x s :: nat
  assumes "0 < s"
  shows "(\<exists>d. p = x + i * s + d \<and> d < s) \<longleftrightarrow> x \<le> p \<and> (p - x) div s = i"
proof
  assume "\<exists>d. p = x + i * s + d \<and> d < s"
  then show "x \<le> p \<and> (p - x) div s = i" by auto
next
  assume *: "x \<le> p \<and> (p - x) div s = i"
  then have "p = x + i * s + (p - x) mod s"
    using div_mult_mod_eq [of "p - x" s] by auto
  moreover have "(p - x) mod s < s" using assms by simp
  ultimately show "\<exists>d. p = x + i * s + d \<and> d < s" by blast
qed

lemma glyph_pixels_mem: "(px, py) \<in> set (glyph_pixels g x y s) \<longleftrightarrow>
      (\<exists>r c. r < 7 \<and> c < 5 \<and> g ! (r * 5 + c) = CHR 0x31 \<and>
         (\<exists>d. px = (x + c * s + d) mod 2 ^ 64 \<and> d < s) \<and> (\<exists>d. py = (y + r * s + d) mod 2 ^ 64 \<and> d < s))"
   (is "?l = ?r")
proof
  assume ?l then show ?r unfolding glyph_pixels_def 
    by (auto split: if_splits simp del: power_numeral UN_simps) blast+
next
  assume ?r
  then obtain r c d e where *: "r < 7" "c < 5" "g ! (r * 5 + c) = CHR 0x31" "d < s" "e < s"
    "px = (x + c * s + d) mod 2 ^ 64" "py = (y + r * s + e) mod 2 ^ 64" by blast
  then have "(px, py) \<in> set (if g ! (r * 5 + c) = CHR 0x31 then
      concat (map (\<lambda>sy. map (\<lambda>sx. ((x + c * s + sx) mod 2 ^ 64, (y + r * s + sy) mod 2 ^ 64)) [0..<s]) [0..<s]) else [])"
    by (simp add: bexI [of _ e])
  with *(1,2) show ?l unfolding glyph_pixels_def
    by (simp only: set_concat [where xs = "map _ _"] set_map UN_iff bex_simps)
      (rule bexI [of _ r], rule bexI [of _ c], simp_all)
qed

text \<open>One glyph away from the end of the coordinate space.\<close>

lemma glyph_pixels_iff:
  assumes "0 < s" "x + 6 * s \<le> 2 ^ 64" "y + 7 * s \<le> 2 ^ 64"
  shows "(px, py) \<in> set (glyph_pixels g x y s) \<longleftrightarrow>
    x \<le> px \<and> y \<le> py \<and> (px - x) div s < 5 \<and> (py - y) div s < 7 \<and>
    g ! ((py - y) div s * 5 + (px - x) div s) = CHR 0x31"
proof -
  have small: "(x + c * s + d) mod 2 ^ 64 = x + c * s + d" if "c < 5" "d < s" for c d
  proof -
    have "c * s \<le> 4 * s" using that by (intro mult_le_mono1) simp
    with that assms show ?thesis by (intro mod_less) linarith
  qed
  have small': "(y + r * s + d) mod 2 ^ 64 = y + r * s + d" if "r < 7" "d < s" for r d
  proof -
    have "r * s \<le> 6 * s" using that by (intro mult_le_mono1) simp
    with that assms show ?thesis by (intro mod_less) linarith
  qed
  have "(px, py) \<in> set (glyph_pixels g x y s) \<longleftrightarrow>
      (\<exists>r c. r < 7 \<and> c < 5 \<and> g ! (r * 5 + c) = CHR 0x31 \<and>
         (\<exists>d. px = (x + c * s + d) mod 2 ^ 64 \<and> d < s) \<and> (\<exists>d. py = (y + r * s + d) mod 2 ^ 64 \<and> d < s))"
    by (rule glyph_pixels_mem)
  also have "\<dots> \<longleftrightarrow> (\<exists>r c. r < 7 \<and> c < 5 \<and> g ! (r * 5 + c) = CHR 0x31 \<and>
         (\<exists>d. px = x + c * s + d \<and> d < s) \<and> (\<exists>d. py = y + r * s + d \<and> d < s))"
    using small small' by metis
  also have "\<dots> \<longleftrightarrow> (\<exists>r c. r < 7 \<and> c < 5 \<and> g ! (r * 5 + c) = CHR 0x31 \<and>
         (x \<le> px \<and> (px - x) div s = c) \<and> (y \<le> py \<and> (py - y) div s = r))"
    by (simp only: dot_pixel [OF assms(1)])
  finally show ?thesis by blast
qed

lemma text_dot_Cons:
  "text_dot (ch # cs) col row \<longleftrightarrow>
     (if col < 6 then col < 5 \<and> row < 7 \<and> GlyphRows ch ! (row * 5 + col) = CHR 0x31
      else text_dot cs (col - 6) row)"
proof (cases "col < 6")
  case True
  then show ?thesis by (simp add: text_dot_def)
next
  case False
  then have "col div 6 = Suc ((col - 6) div 6)" "col mod 6 = (col - 6) mod 6"
    by (simp_all add: le_div_geq le_mod_geq)
  with False show ?thesis by (simp add: text_dot_def)
qed

lemma text_lit_Cons:
  assumes "0 < s"
  shows "text_lit (ch # cs) x y s px py \<longleftrightarrow>
    x \<le> px \<and> y \<le> py \<and> (px - x) div s < 5 \<and> (py - y) div s < 7 \<and>
       GlyphRows ch ! ((py - y) div s * 5 + (px - x) div s) = CHR 0x31
    \<or> text_lit cs (x + 6 * s) y s px py"
proof (cases "x + 6 * s \<le> px")
  case True
  then have "(px - x) div s = (px - (x + 6 * s)) div s + 6"
    using assms by (metis (no_types, lifting) add.commute add_leD1 bot_nat_0.not_eq_extremum diff_add
      diff_diff_left div_mult_self2 le_add_diff_inverse mult.commute nat_le_linear ordered_cancel_comm_monoid_diff_class.le_diff_conv2)
  with True assms show ?thesis by (auto simp: text_lit_def text_dot_Cons)
next
  case False
  then have "(px - x) div s < 6" if "x \<le> px"
    using that assms by (simp add: div_less_iff_less_mult)
  with False assms show ?thesis by (auto simp: text_lit_def text_dot_Cons)
qed

lemma draw_chars_exact:
  assumes "fb_ok f" "px < fb_width f" "py < fb_height f" "0 < s"
    "x + 6 * s * length str < 2 ^ 64" "y + 7 * s \<le> 2 ^ 64"
  shows "pixel (draw_chars str x y color s f) px py =
     (if text_lit str x y s px py then le_bytes 4 color else pixel f px py)"
  using assms
proof (induction str arbitrary: x f)
  case Nil
  then show ?case by (simp add: text_lit_def text_dot_def)
next
  case (Cons ch cs)
  let ?f = "fold (set_pixel color) (glyph_pixels (GlyphRows ch) x y s) f"
  have next_x: "(x + 6 * s) mod 2 ^ 64 = x + 6 * s" "x + 6 * s \<le> 2 ^ 64"
    "x + 6 * s + 6 * s * length cs < 2 ^ 64"
    using Cons.prems(5) by (simp_all add: algebra_simps)
  note f = set_pixels [OF Cons.prems(1-3), of color "glyph_pixels (GlyphRows ch) x y s"]
  note g = glyph_pixels_iff [OF Cons.prems(4) next_x(2) Cons.prems(6), of px py "GlyphRows ch"]
  note lit = text_lit_Cons [OF Cons.prems(4), of ch cs x y px py]
  show ?case
  proof (cases "x + 6 * s \<ge> fb_width f")
    case True
    then have "\<not> text_lit cs (x + 6 * s) y s px py"
      using Cons.prems(2) by (auto simp: text_lit_def)
    then show ?thesis
      using True f next_x(1) unfolding lit g [symmetric] by (simp add: Let_def)
  next
    case False
    have "pixel (draw_chars cs (x + 6 * s) y color s ?f) px py =
        (if text_lit cs (x + 6 * s) y s px py then le_bytes 4 color else pixel ?f px py)"
      by (rule Cons.IH) (use f Cons.prems next_x in simp_all)
    then show ?thesis
      using False f next_x(1) unfolding lit g [symmetric] by (simp add: Let_def)
  qed
qed

text \<open>C36: drawing text keeps the framebuffer's shape and paints exactly the dots of the text: a visible pixel has the
  drawing colour afterwards when it lies in a set dot of the scaled glyph of its character (so inside the text's box of
  \<open>6 * scale * length str\<close> by \<open>7 * scale\<close> pixels), and is unchanged otherwise. The box must not pass the end of the
  64-bit coordinate space, where the code's \<open>size_t\<close> arithmetic would wrap it around.\<close>

theorem DrawText_bounds:
  assumes "fb_ok f" "px < fb_width f" "py < fb_height f"
    "x + 6 * scale * length str < 2 ^ 64" "y + 7 * scale \<le> 2 ^ 64"
  shows "fb_ok (DrawText x y str color scale f) \<and>
     fb_width (DrawText x y str color scale f) = fb_width f \<and>
     fb_height (DrawText x y str color scale f) = fb_height f \<and>
     pixel (DrawText x y str color scale f) px py =
       (if text_lit str x y scale px py then le_bytes 4 color else pixel f px py) \<and>
     (text_lit str x y scale px py \<longrightarrow>
       px \<in> {x..<x + 6 * scale * length str} \<and> py \<in> {y..<y + 7 * scale})"
proof -
  have "pixel (DrawText x y str color scale f) px py =
      (if text_lit str x y scale px py then le_bytes 4 color else pixel f px py)"
    using draw_chars_exact [OF assms(1-3) _ assms(4,5)] by (simp add: DrawText_def text_lit_def)
  then show ?thesis
    using DrawText_frame [OF assms(1-3)] text_lit_in_box by auto
qed

text \<open>The letter I at scale 2: its top left dot is lit, the gap to its right is not.\<close>

lemma DrawText_bounds_witness:
  "pixel (DrawText 1 0 ''I'' 0xFFFFFFFF 2 (FramebufferDevice 0xB8000000 16 8)) 2 1 = [255, 255, 255, 255] \<and>
   pixel (DrawText 1 0 ''I'' 0xFFFFFFFF 2 (FramebufferDevice 0xB8000000 16 8)) 11 1 =
     pixel (FramebufferDevice 0xB8000000 16 8) 11 1"
proof -
  have dims: "fb_width (FramebufferDevice 0xB8000000 16 8) = 16" "fb_height (FramebufferDevice 0xB8000000 16 8) = 8"
    by (simp_all add: FramebufferDevice_def fb_Clear_def)
  have lit: "text_lit ''I'' 1 0 2 2 1" "\<not> text_lit ''I'' 1 0 2 11 1"
    by (simp_all add: text_lit_def text_dot_def GlyphRows_def to_upper_def)
  have "le_bytes 4 (0xFFFFFFFF :: u32) = [255, 255, 255, 255]"
    by code_simp
  then show ?thesis
    using DrawText_bounds [OF fb_ok_new, of 2 "0xB8000000" 16 8 1 1 2 "''I''" 0 "0xFFFFFFFF"]
      DrawText_bounds [OF fb_ok_new, of 11 "0xB8000000" 16 8 1 1 2 "''I''" 0 "0xFFFFFFFF"] lit
    by (simp add: dims)
qed

subsection \<open>The framebuffer as a device\<close>

lemma fb_Write_fields:
  "fb_Write f a bs = Some f' \<Longrightarrow> fb_baseAddress f' = fb_baseAddress f \<and> fb_bufferSize f' = fb_bufferSize f"
  by (auto simp: fb_Write_def Let_def split: if_splits)

interpretation fb_device: mmio_device fb_baseAddress fb_bufferSize fb_Read fb_Write
  "\<lambda>f. fb_ok f \<and> fb_bufferSize f < 2 ^ 64"
proof unfold_locales
  fix f a n bs
  assume "fb_ok f \<and> fb_bufferSize f < 2 ^ 64" "n < 2 ^ 64" "fb_Read f a n = Some bs"
  then show "length bs = n"
    using HandlesRange_bounds(4) [of "fb_baseAddress f" "fb_bufferSize f" a n]
    by (auto simp: fb_ok_def fb_Read_def Let_def split: if_splits)
next
  fix f :: framebuffer and a bs f'
  assume "fb_ok f \<and> fb_bufferSize f < 2 ^ 64" "length bs < 2 ^ 64" "fb_Write f a bs = Some f'"
  then show "fb_ok f' \<and> fb_bufferSize f' < 2 ^ 64"
    using HandlesRange_bounds(4) [of "fb_baseAddress f" "fb_bufferSize f" a "length bs"]
    by (auto simp: fb_ok_def fb_Write_def Let_def split: if_splits)
qed (use fb_Write_fields in blast)+

end
