(* ===== verification/Byte_Store.thy ===== *)
theory Byte_Store
  imports Bytes
begin

text \<open>
  The interface of a flat store of bytes with checked access: the guest's physical memory and the
  memory-backed block device provide it, the translation code and the file systems rely on it. The
  laws say that accesses inside the capacity succeed, that a read returns what was last written
  there, and that a write leaves every byte outside its range alone.
\<close>

locale byte_store =
  fixes store_ok :: "'s \<Rightarrow> bool"
    and cap :: "'s \<Rightarrow> nat"
    and rd :: "'s \<Rightarrow> nat \<Rightarrow> nat \<Rightarrow> u8 list option"
    and wr :: "'s \<Rightarrow> nat \<Rightarrow> u8 list \<Rightarrow> 's option"
  assumes rd_ok: "store_ok s \<Longrightarrow> a + n \<le> cap s \<Longrightarrow> \<exists>bs. rd s a n = Some bs \<and> length bs = n"
    and wr_ok: "store_ok s \<Longrightarrow> a + length bs \<le> cap s \<Longrightarrow>
      \<exists>s'. wr s a bs = Some s' \<and> store_ok s' \<and> cap s' = cap s"
    and rd_wr_same: "store_ok s \<Longrightarrow> a + length bs \<le> cap s \<Longrightarrow> wr s a bs = Some s' \<Longrightarrow>
      rd s' a (length bs) = Some bs"
    and rd_wr_other: "store_ok s \<Longrightarrow> a + length bs \<le> cap s \<Longrightarrow> b + n \<le> cap s \<Longrightarrow>
      wr s a bs = Some s' \<Longrightarrow> b + n \<le> a \<or> a + length bs \<le> b \<Longrightarrow> rd s' b n = rd s b n"
begin

lemma wr_keeps: "store_ok s \<Longrightarrow> a + length bs \<le> cap s \<Longrightarrow> wr s a bs = Some s' \<Longrightarrow> store_ok s' \<and> cap s' = cap s"
  using wr_ok [of s a bs] by auto

text \<open>A little-endian 64-bit cell.\<close>

definition put64 :: "nat \<Rightarrow> u64 \<Rightarrow> 's \<Rightarrow> 's option" where
  "put64 a v s = wr s a (le_bytes 8 v)"

definition get64 :: "'s \<Rightarrow> nat \<Rightarrow> u64 option" where
  "get64 s a = map_option le_value (rd s a 8)"

lemma get_put64:
  assumes "store_ok s" "a + 8 \<le> cap s" "put64 a v s = Some s'"
  shows "get64 s' a = Some v"
  using rd_wr_same [of s a "le_bytes 8 v" s'] assms
  by (simp add: put64_def get64_def le_value_le_bytes)

lemma get_put64_other:
  assumes "store_ok s" "a + 8 \<le> cap s" "b + 8 \<le> cap s" "put64 a v s = Some s'" "b + 8 \<le> a \<or> a + 8 \<le> b"
  shows "get64 s' b = get64 s b"
  using rd_wr_other [of s a "le_bytes 8 v" b 8 s'] assms
  by (simp add: put64_def get64_def)

text \<open>Writes to disjoint ranges can be exchanged as far as any read can tell.\<close>

lemma writes_commute:
  assumes "store_ok s" "a + length xs \<le> cap s" "b + length ys \<le> cap s"
    and "a + length xs \<le> b \<or> b + length ys \<le> a"
    and "wr s a xs = Some s1" "wr s1 b ys = Some s2" "wr s b ys = Some t1" "wr t1 a xs = Some t2"
  shows "rd s2 a (length xs) = rd t2 a (length xs)" "rd s2 b (length ys) = rd t2 b (length ys)"
proof -
  have c: "store_ok s1 \<and> cap s1 = cap s" "store_ok t1 \<and> cap t1 = cap s"
    by (rule wr_keeps [OF assms(1,2,5)], rule wr_keeps [OF assms(1,3,7)])
  have "rd s2 a (length xs) = rd s1 a (length xs)"
    by (rule rd_wr_other [of s1 b ys a "length xs" s2]) (use assms c in auto)
  also have "rd s1 a (length xs) = Some xs"
    by (rule rd_wr_same [OF assms(1,2,5)])
  also have "Some xs = rd t2 a (length xs)"
    by (rule rd_wr_same [symmetric, of t1 a xs t2]) (use assms c in auto)
  finally show "rd s2 a (length xs) = rd t2 a (length xs)" .
  have "rd t2 b (length ys) = rd t1 b (length ys)"
    by (rule rd_wr_other [of t1 a xs b "length ys" t2]) (use assms c in auto)
  also have "rd t1 b (length ys) = Some ys"
    by (rule rd_wr_same [OF assms(1,3,7)])
  also have "Some ys = rd s2 b (length ys)"
    by (rule rd_wr_same [symmetric, of s1 b ys s2]) (use assms c in auto)
  finally show "rd s2 b (length ys) = rd t2 b (length ys)" by simp
qed

end

end
