(* ===== verification/Guest_Memory.thy ===== *)
theory Guest_Memory
  imports Mmu_Props Interrupts Console Framebuffer Byte_Store
begin

text \<open>
  The guest memory (\<open>src/src/memory/memory.cpp\<close>, \<open>src/include/memory.h\<close>): a flat byte array, the
  MMU in front of it and the memory-mapped devices. Accesses return the new memory beside the answer,
  because hooks and watchpoints keep what they counted even when the access throws. A device is one
  of the four implementations of \<open>IMemoryMappedDevice\<close>, identified by the number that stands for its
  pointer. Page faults are logged by the code before they are rethrown; logging is not modelled.
\<close>

subsection \<open>Devices behind the interface\<close>

datatype vm_device =
    TimerDev virtual_timer
  | ConsoleDev virtual_console
  | FramebufferDev framebuffer
  | PibDev pib "pib_callback option"

fun dev_GetBaseAddress :: "vm_device \<Rightarrow> u64" where
  "dev_GetBaseAddress (TimerDev t) = vt_baseAddress t"
| "dev_GetBaseAddress (ConsoleDev c) = vc_baseAddress c"
| "dev_GetBaseAddress (FramebufferDev f) = fb_baseAddress f"
| "dev_GetBaseAddress (PibDev p cb) = pib_baseAddress p"

fun dev_GetSize :: "vm_device \<Rightarrow> nat" where
  "dev_GetSize (TimerDev t) = timer_kRegisterSize"
| "dev_GetSize (ConsoleDev c) = console_kRegisterSize"
| "dev_GetSize (FramebufferDev f) = fb_bufferSize f"
| "dev_GetSize (PibDev p cb) = pib_kIpiRegionSize"

fun dev_Read :: "vm_device \<Rightarrow> u64 \<Rightarrow> nat \<Rightarrow> u8 list option" where
  "dev_Read (TimerDev t) a n = timer_Read t a n"
| "dev_Read (ConsoleDev c) a n = console_Read c a n"
| "dev_Read (FramebufferDev f) a n = fb_Read f a n"
| "dev_Read (PibDev p cb) a n = pib_Read p a n"

fun dev_Write :: "vm_device \<Rightarrow> u64 \<Rightarrow> u8 list \<Rightarrow> vm_device option" where
  "dev_Write (TimerDev t) a bs = map_option TimerDev (timer_Write t a bs)"
| "dev_Write (ConsoleDev c) a bs = map_option ConsoleDev (console_Write c a bs)"
| "dev_Write (FramebufferDev f) a bs = map_option FramebufferDev (fb_Write f a bs)"
| "dev_Write (PibDev p cb) a bs = map_option (\<lambda>p'. PibDev p' cb) (pib_device_Write cb p a bs)"

fun dev_ok :: "vm_device \<Rightarrow> bool" where
  "dev_ok (ConsoleDev c) = console_ok c"
| "dev_ok (FramebufferDev f) = (fb_ok f \<and> fb_bufferSize f < 2 ^ 64)"
| "dev_ok _ = True"

interpretation vm_device: mmio_device dev_GetBaseAddress dev_GetSize dev_Read dev_Write dev_ok
proof unfold_locales
  show "dev_ok d \<Longrightarrow> dev_GetSize d < 2 ^ 64" for d
    by (cases d) (simp_all add: pib_kIpiRegionSize_def)
  show "length bs = n" if "dev_ok d" "n < 2 ^ 64" "dev_Read d a n = Some bs" for d a n bs
  proof (cases d)
    case (TimerDev t)
    with that show ?thesis by (intro timer_device.rd_length [of n t a bs]) simp_all
  next
    case (ConsoleDev c)
    with that show ?thesis by (intro console_device.rd_length [of c n a bs]) simp_all
  next
    case (FramebufferDev f)
    with that show ?thesis by (intro fb_device.rd_length [of f n a bs]) simp_all
  next
    case (PibDev p cb)
    with that show ?thesis by (simp add: pib_Read_def)
  qed
  show "dev_GetBaseAddress d' = dev_GetBaseAddress d \<and> dev_GetSize d' = dev_GetSize d"
    if "dev_Write d a bs = Some d'" for d a bs d'
  proof (cases d)
    case (TimerDev t)
    with that show ?thesis by (auto dest: timer_device.wr_window)
  next
    case (ConsoleDev c)
    with that show ?thesis by (auto dest: console_device.wr_window)
  next
    case (FramebufferDev f)
    with that show ?thesis by (auto dest: fb_device.wr_window)
  next
    case (PibDev p cb)
    with that show ?thesis by (auto dest: pib_device.wr_window)
  qed
  show "dev_ok d'" if "dev_ok d" "length bs < 2 ^ 64" "dev_Write d a bs = Some d'" for d a bs d'
  proof (cases d)
    case (ConsoleDev c)
    with that show ?thesis by (auto dest: console_device.wr_ok)
  next
    case (FramebufferDev f)
    with that obtain f' where "fb_Write f a bs = Some f'" "d' = FramebufferDev f'" by auto
    with that FramebufferDev show ?thesis
      using fb_device.wr_ok [of f bs a f'] by simp
  qed (use that in auto)
qed

subsection \<open>State\<close>

record memory =
  mem_data :: "u8 list"
  mem_mmu :: mmu
  mem_devices :: "(nat \<times> vm_device) list"

text \<open>The constructor: \<open>None\<close> would be an identity mapping loop that never ends.\<close>

definition Memory :: "nat \<Rightarrow> bool \<Rightarrow> u64 \<Rightarrow> (cpp_error + memory) option" where
  "Memory n enableMMU pageSize =
     (case MMU pageSize enableMMU of
        Inl e \<Rightarrow> Some (Inl e)
      | Inr m \<Rightarrow>
          if n = 0 then Some (Inl InvalidArgument)
          else if enableMMU then
            map_option (\<lambda>m'. Inr \<lparr>mem_data = replicate n 0, mem_mmu = m', mem_devices = []\<rparr>)
              (MapIdentityRange 0 (of_nat n) 7 m)
          else Some (Inr \<lparr>mem_data = replicate n 0, mem_mmu = m, mem_devices = []\<rparr>))"

definition checkBounds :: "memory \<Rightarrow> u64 \<Rightarrow> nat \<Rightarrow> cpp_error + unit" where
  "checkBounds m address n =
     (let memorySize = length (mem_data m) in
      if unat address \<ge> memorySize then Inl OutOfRange
      else if n > memorySize - unat address then Inl OutOfRange
      else Inr ())"

subsection \<open>Direct access\<close>

definition loadBuffer :: "u64 \<Rightarrow> u8 list \<Rightarrow> memory \<Rightarrow> cpp_error + memory" where
  "loadBuffer address bs m =
     (if bs = [] then Inr m
      else and_then (checkBounds m address (length bs)) (\<lambda>_.
        Inr (m\<lparr>mem_data := write_bytes (mem_data m) (unat address) bs\<rparr>)))"

text \<open>\<open>read<T>\<close> and \<open>write<T>\<close> for \<open>uint8_t\<close>, \<open>uint32_t\<close> and \<open>uint64_t\<close>: the width is the type's.\<close>

definition mem_read :: "memory \<Rightarrow> u64 \<Rightarrow> cpp_error + 'a::len word" where
  "mem_read m address =
     (let n = LENGTH('a) div 8 in
      and_then (checkBounds m address n) (\<lambda>_.
        Inr (le_value (read_bytes (mem_data m) (unat address) n))))"

definition mem_write :: "u64 \<Rightarrow> 'a::len word \<Rightarrow> memory \<Rightarrow> cpp_error + memory" where
  "mem_write address v m =
     (let n = LENGTH('a) div 8 in
      and_then (checkBounds m address n) (\<lambda>_.
        Inr (m\<lparr>mem_data := write_bytes (mem_data m) (unat address) (le_bytes n v)\<rparr>)))"

definition mem_Clear :: "memory \<Rightarrow> memory" where
  "mem_Clear m = m\<lparr>mem_data := replicate (length (mem_data m)) 0\<rparr>"

subsection \<open>Access through the MMU\<close>

definition lift_std :: "cpp_error + 'a \<Rightarrow> mem_error + 'a" where
  "lift_std r = (case r of Inl e \<Rightarrow> Inl (Std e) | Inr a \<Rightarrow> Inr a)"

text \<open>The answer of a read is the destination buffer; \<open>dest\<close> is its content before the call.\<close>

definition mmuRead :: "memory \<Rightarrow> u64 \<Rightarrow> u8 list \<Rightarrow> (mem_error + u8 list) \<times> memory" where
  "mmuRead m address dest =
     (let n = length dest; u = mem_mmu m in
      case checkBounds m address n of
        Inl e \<Rightarrow> (Inl (Std e), m)
      | Inr _ \<Rightarrow>
        if \<not> mmu_enabled u then (Inr (read_bytes (mem_data m) (unat address) n), m)
        else
          (case CheckPermissionOrThrow u address ACC_READ of
             Inl e \<Rightarrow> (Inl e, m)
           | Inr _ \<Rightarrow>
             (case TranslateAddress u address of
                Inl e \<Rightarrow> (Inl e, m)
              | Inr physicalAddr \<Rightarrow>
                (case checkBounds m physicalAddr n of
                   Inl e \<Rightarrow> (Inl (Std e), m)
                 | Inr _ \<Rightarrow>
                   (case InvokeReadHooks address physicalAddr dest u of
                      (ok, dest', u') \<Rightarrow>
                        if \<not> ok then (Inl (Std RuntimeError), m\<lparr>mem_mmu := u'\<rparr>)
                        else (Inr (read_bytes (mem_data m) (unat physicalAddr) n), m\<lparr>mem_mmu := u'\<rparr>))))))"

definition mmuWrite :: "u64 \<Rightarrow> u8 list \<Rightarrow> memory \<Rightarrow> (mem_error + unit) \<times> memory" where
  "mmuWrite address src m =
     (let n = length src; u = mem_mmu m in
      case checkBounds m address n of
        Inl e \<Rightarrow> (Inl (Std e), m)
      | Inr _ \<Rightarrow>
        if \<not> mmu_enabled u
        then (Inr (), m\<lparr>mem_data := write_bytes (mem_data m) (unat address) src\<rparr>)
        else
          (case CheckPermissionOrThrow u address ACC_WRITE of
             Inl e \<Rightarrow> (Inl e, m)
           | Inr _ \<Rightarrow>
             (case TranslateAddress u address of
                Inl e \<Rightarrow> (Inl e, m)
              | Inr physicalAddr \<Rightarrow>
                (case checkBounds m physicalAddr n of
                   Inl e \<Rightarrow> (Inl (Std e), m)
                 | Inr _ \<Rightarrow>
                   (case InvokeWriteHooks address physicalAddr src u of
                      (ok, src', u') \<Rightarrow>
                        if \<not> ok then (Inl (Std RuntimeError), m\<lparr>mem_mmu := u'\<rparr>)
                        else (Inr (), m\<lparr>mem_mmu := u',
                               mem_data := write_bytes (mem_data m) (unat physicalAddr) src'\<rparr>))))))"

subsection \<open>Devices\<close>

text \<open>The first device that handles the range answers; its failure is the answer too.\<close>

fun tryDeviceRead :: "(nat \<times> vm_device) list \<Rightarrow> u64 \<Rightarrow> nat \<Rightarrow> u8 list option" where
  "tryDeviceRead [] address n = None"
| "tryDeviceRead ((i, d) # ds) address n =
     (if HandlesRange (dev_GetBaseAddress d) (dev_GetSize d) address n then dev_Read d address n
      else tryDeviceRead ds address n)"

fun tryDeviceWrite :: "(nat \<times> vm_device) list \<Rightarrow> u64 \<Rightarrow> u8 list \<Rightarrow> (nat \<times> vm_device) list option" where
  "tryDeviceWrite [] address bs = None"
| "tryDeviceWrite ((i, d) # ds) address bs =
     (if HandlesRange (dev_GetBaseAddress d) (dev_GetSize d) address (length bs)
      then map_option (\<lambda>d'. (i, d') # ds) (dev_Write d address bs)
      else map_option ((#) (i, d)) (tryDeviceWrite ds address bs))"

definition mem_Read :: "memory \<Rightarrow> u64 \<Rightarrow> u8 list \<Rightarrow> (mem_error + u8 list) \<times> memory" where
  "mem_Read m address dest =
     (if dest = [] then (Inr [], m)
      else case tryDeviceRead (mem_devices m) address (length dest) of
             Some bs \<Rightarrow> (Inr bs, m)
           | None \<Rightarrow> mmuRead m address dest)"

definition mem_Write :: "u64 \<Rightarrow> u8 list \<Rightarrow> memory \<Rightarrow> (mem_error + unit) \<times> memory" where
  "mem_Write address src m =
     (if src = [] then (Inr (), m)
      else case tryDeviceWrite (mem_devices m) address src of
             Some ds \<Rightarrow> (Inr (), m\<lparr>mem_devices := ds\<rparr>)
           | None \<Rightarrow> mmuWrite address src m)"

text \<open>The check of a new device against the registered ones, in registration order.\<close>

fun can_register :: "nat \<Rightarrow> vm_device \<Rightarrow> (nat \<times> vm_device) list \<Rightarrow> cpp_error + bool" where
  "can_register i d [] = Inr True"
| "can_register i d ((j, e) # ds) =
     (if j = i then Inr False
      else
        let existingBase = dev_GetBaseAddress e;
            existingEnd = existingBase + of_nat (dev_GetSize e);
            deviceBase = dev_GetBaseAddress d;
            deviceEnd = deviceBase + of_nat (dev_GetSize d)
        in if deviceBase < existingEnd \<and> existingBase < deviceEnd then Inl InvalidArgument
           else can_register i d ds)"

definition RegisterDevice :: "nat \<Rightarrow> vm_device \<Rightarrow> memory \<Rightarrow> cpp_error + memory" where
  "RegisterDevice i d m =
     and_then (can_register i d (mem_devices m)) (\<lambda>new.
       Inr (if new then m\<lparr>mem_devices := mem_devices m @ [(i, d)]\<rparr> else m))"

definition UnregisterDevice :: "nat \<Rightarrow> memory \<Rightarrow> bool \<times> memory" where
  "UnregisterDevice i m =
     (case erase_first (\<lambda>x. fst x = i) (mem_devices m) of
        None \<Rightarrow> (False, m)
      | Some ds \<Rightarrow> (True, m\<lparr>mem_devices := ds\<rparr>))"

subsection \<open>Snapshots\<close>

record memory_snapshot =
  ms_data :: "u8 list"
  ms_pageTable :: "u64 \<Rightarrow> page_entry option"
  ms_mmuEnabled :: bool

definition mem_CreateSnapshot :: "memory \<Rightarrow> memory_snapshot" where
  "mem_CreateSnapshot m = \<lparr>ms_data = mem_data m, ms_pageTable = mmu_pageTable (mem_mmu m),
     ms_mmuEnabled = mmu_enabled (mem_mmu m)\<rparr>"

definition mem_RestoreSnapshot :: "memory_snapshot \<Rightarrow> memory \<Rightarrow> cpp_error + memory" where
  "mem_RestoreSnapshot s m =
     (if length (ms_data s) \<noteq> length (mem_data m) then Inl InvalidArgument
      else Inr (m\<lparr>mem_data := ms_data s,
             mem_mmu := SetEnabled (ms_mmuEnabled s) (RestorePageTable (ms_pageTable s) (mem_mmu m))\<rparr>))"

end
