(* ===== verification/Guest_Memory_Props.thy ===== *)
theory Guest_Memory_Props
  imports Guest_Memory
begin

text \<open>
  Correctness of the guest memory: bounds, reading back writes through the MMU, what page tables,
  hooks and devices do to an access, and snapshots. Untranslated memory is an instance of
  \<open>byte_store\<close>.
\<close>

subsection \<open>Bounds\<close>

lemma checkBounds_iff:
  "checkBounds m a n = Inr () \<longleftrightarrow> unat a < length (mem_data m) \<and> unat a + n \<le> length (mem_data m)"
  by (auto simp: checkBounds_def Let_def)

lemma checkBounds_cases:
  "checkBounds m a n = (if unat a < length (mem_data m) \<and> unat a + n \<le> length (mem_data m)
     then Inr () else Inl OutOfRange)"
  by (auto simp: checkBounds_def Let_def)

lemma checkBounds_cong: "mem_data m = mem_data m' \<Longrightarrow> checkBounds m = checkBounds m'"
  by (simp add: checkBounds_def fun_eq_iff)

lemma InvokeReadHooks_keeps:
  "InvokeReadHooks va pa d u = (ok, d', u') \<Longrightarrow>
   mmu_pageTable u' = mmu_pageTable u \<and> mmu_enabled u' = mmu_enabled u \<and> mmu_pageSize u' = mmu_pageSize u"
  by (auto simp: InvokeReadHooks_def split: prod.splits if_splits)

subsection \<open>Untranslated memory is a byte store\<close>

definition flat_memory :: "memory \<Rightarrow> bool" where
  "flat_memory m \<longleftrightarrow> \<not> mmu_enabled (mem_mmu m) \<and> mem_devices m = [] \<and> length (mem_data m) < 2 ^ 64"

definition flat_rd :: "memory \<Rightarrow> nat \<Rightarrow> nat \<Rightarrow> u8 list option" where
  "flat_rd m a n =
     (case fst (mem_Read m (of_nat a) (replicate n 0)) of Inr bs \<Rightarrow> Some bs | Inl _ \<Rightarrow> None)"

definition flat_wr :: "memory \<Rightarrow> nat \<Rightarrow> u8 list \<Rightarrow> memory option" where
  "flat_wr m a bs =
     (case mem_Write (of_nat a) bs m of (Inr _, m') \<Rightarrow> Some m' | (Inl _, _) \<Rightarrow> None)"

lemma flat_rd_eq:
  assumes "flat_memory m" "a + n \<le> length (mem_data m)"
  shows "flat_rd m a n = Some (read_bytes (mem_data m) a n)"
proof (cases "n = 0")
  case True
  then show ?thesis by (simp add: flat_rd_def mem_Read_def read_bytes_def)
next
  case False
  have "a < 2 ^ 64" using assms by (simp add: flat_memory_def)
  then have "unat (of_nat a :: u64) = a" by (simp add: unat_of_nat take_bit_nat_eq_self)
  with False assms show ?thesis
    by (simp add: flat_rd_def mem_Read_def mmuRead_def flat_memory_def checkBounds_cases Let_def)
qed

lemma flat_wr_eq:
  assumes "flat_memory m" "a + length bs \<le> length (mem_data m)"
  shows "flat_wr m a bs = Some (m\<lparr>mem_data := write_bytes (mem_data m) a bs\<rparr>)"
proof (cases "bs = []")
  case True
  then show ?thesis by (simp add: flat_wr_def mem_Write_def write_bytes_def)
next
  case False
  have "a < 2 ^ 64" using assms by (simp add: flat_memory_def)
  then have "unat (of_nat a :: u64) = a" by (simp add: unat_of_nat take_bit_nat_eq_self)
  moreover have "a < length (mem_data m)"
    using False assms(2) by (cases bs) simp_all
  ultimately show ?thesis
    using False assms
    by (simp add: flat_wr_def mem_Write_def mmuWrite_def flat_memory_def checkBounds_cases Let_def)
qed

interpretation flat_store: byte_store flat_memory "\<lambda>m. length (mem_data m)" flat_rd flat_wr
proof unfold_locales
  fix m m' :: memory and a n b and bs :: "u8 list"
  assume ok: "flat_memory m"
  show "a + n \<le> length (mem_data m) \<Longrightarrow> \<exists>bs. flat_rd m a n = Some bs \<and> length bs = n"
    by (simp add: flat_rd_eq ok)
  assume len: "a + length bs \<le> length (mem_data m)"
  have ok': "flat_memory (m\<lparr>mem_data := write_bytes (mem_data m) a bs\<rparr>)"
    using ok len by (simp add: flat_memory_def)
  then show "\<exists>m'. flat_wr m a bs = Some m' \<and> flat_memory m' \<and> length (mem_data m') = length (mem_data m)"
    using len by (simp add: flat_wr_eq ok)
  assume wr: "flat_wr m a bs = Some m'"
  then have m': "m' = m\<lparr>mem_data := write_bytes (mem_data m) a bs\<rparr>"
    by (simp add: flat_wr_eq ok len)
  show "flat_rd m' a (length bs) = Some bs"
    using ok' len by (simp add: m' flat_rd_eq)
  show "b + n \<le> length (mem_data m) \<Longrightarrow> b + n \<le> a \<or> a + length bs \<le> b \<Longrightarrow> flat_rd m' b n = flat_rd m b n"
    using ok ok' len by (simp add: m' flat_rd_eq read_write_disjoint)
qed

subsection \<open>Reading back a write through the MMU\<close>

definition quiet :: "mmu \<Rightarrow> bool" where
  "quiet u \<longleftrightarrow> mmu_readHooks u = [] \<and> mmu_writeHooks u = [] \<and> mmu_watchpoints u = []"

lemma quiet_hooks:
  assumes "quiet u"
  shows "InvokeReadHooks va pa d u = (True, d, u)" "InvokeWriteHooks va pa d u = (True, d, u)"
  using assms by (simp_all add: InvokeReadHooks_def InvokeWriteHooks_def quiet_def)

lemma mmuRead_enabled:
  assumes "mmu_enabled (mem_mmu m)" "quiet (mem_mmu m)"
    "CheckPermission (mem_mmu m) a ACC_READ" "TranslateAddress (mem_mmu m) a = Inr pa"
    "checkBounds m a (length dest) = Inr ()" "checkBounds m pa (length dest) = Inr ()"
  shows "mmuRead m a dest = (Inr (read_bytes (mem_data m) (unat pa) (length dest)), m)"
proof -
  have "CheckPermissionOrThrow (mem_mmu m) a ACC_READ = Inr ()"
    using assms(3) by (simp add: CheckPermission_throw)
  with assms show ?thesis
    by (simp add: mmuRead_def Let_def quiet_hooks)
qed

text \<open>A write that succeeded, taken apart.\<close>

lemma mmuWrite_success:
  assumes "mmuWrite a src m = (Inr (), m')" "mmu_enabled (mem_mmu m)"
  obtains pa src' u' where "CheckPermission (mem_mmu m) a ACC_WRITE" "TranslateAddress (mem_mmu m) a = Inr pa"
    "checkBounds m a (length src) = Inr ()" "checkBounds m pa (length src) = Inr ()"
    "InvokeWriteHooks a pa src (mem_mmu m) = (True, src', u')"
    "m' = m\<lparr>mem_mmu := u', mem_data := write_bytes (mem_data m) (unat pa) src'\<rparr>"
  using assms
  by (auto simp: mmuWrite_def Let_def CheckPermission_throw split: sum.splits prod.splits if_splits)

lemma mmuRead_success:
  assumes "mmuRead m a dest = (Inr bs, m')" "mmu_enabled (mem_mmu m)"
  obtains pa dest' u' where "CheckPermission (mem_mmu m) a ACC_READ" "TranslateAddress (mem_mmu m) a = Inr pa"
    "checkBounds m a (length dest) = Inr ()" "checkBounds m pa (length dest) = Inr ()"
    "InvokeReadHooks a pa dest (mem_mmu m) = (True, dest', u')" "m' = m\<lparr>mem_mmu := u'\<rparr>"
    "bs = read_bytes (mem_data m) (unat pa) (length dest)"
  using assms
  by (auto simp: mmuRead_def Let_def CheckPermission_throw split: sum.splits prod.splits if_splits)

text \<open>C26: through the enabled MMU, with no hooks or watchpoints and outside every device window, a
  successful write is read back by the next read of the same range when the page may be read, and it
  changes exactly the bytes of memory its translation names.\<close>

theorem write_then_read:
  assumes "mmu_enabled (mem_mmu m)" "quiet (mem_mmu m)" "src \<noteq> []" "length dest = length src"
    and "mem_Write a src m = (Inr (), m')" "CheckPermission (mem_mmu m) a ACC_READ"
    and "tryDeviceWrite (mem_devices m) a src = None"
    and "tryDeviceRead (mem_devices m) a (length src) = None"
  shows "fst (mem_Read m' a dest) = Inr src \<and>
     (\<exists>pa. TranslateAddress (mem_mmu m) a = Inr pa \<and> mem_data m' = write_bytes (mem_data m) (unat pa) src \<and>
        (\<forall>i < length (mem_data m). i < unat pa \<or> unat pa + length src \<le> i \<longrightarrow>
           mem_data m' ! i = mem_data m ! i)) \<and>
     mem_mmu m' = mem_mmu m \<and> mem_devices m' = mem_devices m"
proof -
  have w: "mmuWrite a src m = (Inr (), m')"
    using assms(3,5,7) by (simp add: mem_Write_def)
  obtain pa src' u' where pa: "TranslateAddress (mem_mmu m) a = Inr pa"
    "checkBounds m a (length src) = Inr ()" "checkBounds m pa (length src) = Inr ()"
    "InvokeWriteHooks a pa src (mem_mmu m) = (True, src', u')"
    "m' = m\<lparr>mem_mmu := u', mem_data := write_bytes (mem_data m) (unat pa) src'\<rparr>"
    by (rule mmuWrite_success [OF w assms(1)])
  have m': "m' = m\<lparr>mem_data := write_bytes (mem_data m) (unat pa) src\<rparr>"
    using pa(4,5) by (simp add: quiet_hooks [OF assms(2)])
  have b: "unat pa + length src \<le> length (mem_data m)"
    using pa(3) by (simp add: checkBounds_iff)
  have "checkBounds m' = checkBounds m"
    using b by (simp add: m' checkBounds_def fun_eq_iff)
  then have "mmuRead m' a dest = (Inr (read_bytes (mem_data m') (unat pa) (length dest)), m')"
    using assms(1,2,4,6) pa(1-3) by (intro mmuRead_enabled) (simp_all add: m')
  moreover have "dest \<noteq> []" using assms(3,4) by auto
  ultimately have "fst (mem_Read m' a dest) = Inr src"
    using assms(4,8) b by (simp add: mem_Read_def m')
  then show ?thesis
    using pa(1) b by (auto simp: m' nth_write_bytes)
qed

text \<open>A small concrete memory, for instances of the theorems: 64 bytes in 256-byte pages, page 0 mapped.\<close>

definition demo_mmu :: mmu where
  "demo_mmu = \<lparr>mmu_pageTable = [0 \<mapsto> PageEntry 0 7], mmu_readHooks = [], mmu_writeHooks = [],
     mmu_nextHookId = 0, mmu_watchpoints = [], mmu_nextWatchpointId = 0, mmu_traceBuffer = [],
     mmu_traceDepth = 100, mmu_pageSize = 256, mmu_enabled = True\<rparr>"

definition demo_memory :: memory where
  "demo_memory = \<lparr>mem_data = replicate 64 0, mem_mmu = demo_mmu, mem_devices = []\<rparr>"

lemma demo_access:
  assumes "a AND NOT 255 = 0"
  shows "CheckPermission demo_mmu a acc" "TranslateAddress demo_mmu a = Inr (a AND 255)" "quiet demo_mmu"
    "mmu_enabled demo_mmu"
  using assms
  by (simp_all add: CheckPermission_def GetPageEntry_def TranslateAddress_def AlignToPage_def GetPageOffset_def
      demo_mmu_def PageEntry_def HasPermission_def quiet_def split: access_type.split)

lemma write_then_read_witness:
  "\<exists>m'. mem_Write 2 [7, 8] demo_memory = (Inr (), m') \<and> fst (mem_Read m' 2 [0, 0]) = Inr [7, 8]"
proof -
  have a: "(2 :: u64) AND NOT 255 = 0" by simp
  note acc = demo_access [OF a]
  have perm: "CheckPermissionOrThrow demo_mmu 2 ACC_WRITE = Inr ()"
    using acc(1) by (simp add: CheckPermission_throw)
  have w: "mem_Write 2 [7, 8] demo_memory = (Inr (), demo_memory\<lparr>mem_data := write_bytes (replicate 64 0) 2 [7, 8]\<rparr>)"
    by (simp add: mem_Write_def mmuWrite_def Let_def demo_memory_def checkBounds_def acc perm quiet_hooks)
  have "mmu_enabled (mem_mmu demo_memory)" "quiet (mem_mmu demo_memory)"
    "CheckPermission (mem_mmu demo_memory) 2 ACC_READ"
    using acc by (simp_all add: demo_memory_def)
  from write_then_read [OF this(1,2) _ _ w this(3), of "[0, 0]"] w show ?thesis
    by (simp add: demo_memory_def)
qed

subsection \<open>Only the first page of an access is looked up\<close>

lemma other_page:
  assumes "AlignToPage u b \<noteq> AlignToPage u a"
  shows "CheckPermissionOrThrow (UnmapPage b u) a acc = CheckPermissionOrThrow u a acc"
    "TranslateAddress (UnmapPage b u) a = TranslateAddress u a"
proof -
  have "mmu_pageTable (UnmapPage b u) (AlignToPage u a) = mmu_pageTable u (AlignToPage u a)"
    using assms by (simp add: UnmapPage_def)
  then show "CheckPermissionOrThrow (UnmapPage b u) a acc = CheckPermissionOrThrow u a acc"
    "TranslateAddress (UnmapPage b u) a = TranslateAddress u a"
    unfolding CheckPermissionOrThrow_def TranslateAddress_def UnmapPage_simps by simp_all
qed

lemma UnmapPage_hooks:
  "InvokeReadHooks va pa d (UnmapPage b u) =
     (case InvokeReadHooks va pa d u of (ok, d', u') \<Rightarrow> (ok, d', UnmapPage b u'))"
  "InvokeWriteHooks va pa d (UnmapPage b u) =
     (case InvokeWriteHooks va pa d u of (ok, d', u') \<Rightarrow> (ok, d', UnmapPage b u'))"
  by (simp_all add: InvokeReadHooks_def InvokeWriteHooks_def UnmapPage_def AlignToPage_def
      split: prod.split)

text \<open>an access that runs past the end of its page is checked and translated by its first byte alone:
  unmapping any other page, in particular the page the access continues into, changes neither whether
  a read or write of any length succeeds nor the bytes it reads or stores.\<close>

theorem access_uses_first_page_only:
  assumes "AlignToPage (mem_mmu m) b \<noteq> AlignToPage (mem_mmu m) a"
  shows "fst (mem_Read (m\<lparr>mem_mmu := UnmapPage b (mem_mmu m)\<rparr>) a dest) = fst (mem_Read m a dest) \<and>
     fst (mem_Write a src (m\<lparr>mem_mmu := UnmapPage b (mem_mmu m)\<rparr>)) = fst (mem_Write a src m) \<and>
     mem_data (snd (mem_Write a src (m\<lparr>mem_mmu := UnmapPage b (mem_mmu m)\<rparr>))) = mem_data (snd (mem_Write a src m))"
proof -
  let ?m = "m\<lparr>mem_mmu := UnmapPage b (mem_mmu m)\<rparr>"
  have cb: "checkBounds ?m = checkBounds m"
    by (rule checkBounds_cong) simp
  have "fst (mmuRead ?m a dest) = fst (mmuRead m a dest)"
    by (simp add: mmuRead_def Let_def cb other_page [OF assms] UnmapPage_hooks split: sum.split prod.split)
  moreover have "fst (mmuWrite a src ?m) = fst (mmuWrite a src m) \<and>
      mem_data (snd (mmuWrite a src ?m)) = mem_data (snd (mmuWrite a src m))"
    by (simp add: mmuWrite_def Let_def cb other_page [OF assms] UnmapPage_hooks split: sum.split prod.split)
  ultimately show ?thesis
    by (simp add: mem_Read_def mem_Write_def split: option.split)
qed

text \<open>In the witness the read of 8 bytes at 252 crosses into the unmapped page 256.\<close>

lemma access_uses_first_page_only_witness:
  "fst (mem_Read (demo_memory\<lparr>mem_data := replicate 512 0,
       mem_mmu := UnmapPage 256 demo_mmu\<rparr>) 252 (replicate 8 1)) =
   fst (mem_Read (demo_memory\<lparr>mem_data := replicate 512 0\<rparr>) 252 (replicate 8 1)) \<and>
   \<not> CheckPermission (UnmapPage 256 demo_mmu) 256 ACC_READ"
proof -
  have "AlignToPage (mem_mmu (demo_memory\<lparr>mem_data := replicate 512 0\<rparr>)) 256 \<noteq>
      AlignToPage (mem_mmu (demo_memory\<lparr>mem_data := replicate 512 0\<rparr>)) 252"
    by (simp add: demo_memory_def demo_mmu_def AlignToPage_def)
  from access_uses_first_page_only [OF this, of "replicate 8 1" "[]"]
  have "fst (mem_Read (demo_memory\<lparr>mem_data := replicate 512 0,
       mem_mmu := UnmapPage 256 demo_mmu\<rparr>) 252 (replicate 8 1)) =
   fst (mem_Read (demo_memory\<lparr>mem_data := replicate 512 0\<rparr>) 252 (replicate 8 1))"
    by (simp add: demo_memory_def)
  moreover have "\<not> CheckPermission (UnmapPage 256 demo_mmu) 256 ACC_READ"
    by (simp add: CheckPermission_def GetPageEntry_def UnmapPage_def demo_mmu_def AlignToPage_def)
  ultimately show ?thesis by blast
qed

subsection \<open>Hooks\<close>

text \<open>what a hook writes into the buffer reaches a write but never a read: a successful read returns
  the bytes of memory at the translated address whatever the read hooks did to the buffer, while a
  successful write stores the buffer as the write hooks left it.\<close>

theorem hooks_change_writes_not_reads:
  assumes "mmu_enabled (mem_mmu m)"
  shows "(mmuRead m a dest = (Inr bs, m1) \<longrightarrow>
       (\<exists>pa. TranslateAddress (mem_mmu m) a = Inr pa \<and> bs = read_bytes (mem_data m) (unat pa) (length dest))) \<and>
     (mmuWrite a src m = (Inr (), m2) \<longrightarrow>
       (\<exists>pa. TranslateAddress (mem_mmu m) a = Inr pa \<and>
          mem_data m2 = write_bytes (mem_data m) (unat pa)
            (fst (snd (InvokeWriteHooks a pa src (mem_mmu m))))))"
proof (intro conjI impI)
  assume r: "mmuRead m a dest = (Inr bs, m1)"
  show "\<exists>pa. TranslateAddress (mem_mmu m) a = Inr pa \<and> bs = read_bytes (mem_data m) (unat pa) (length dest)"
    by (rule mmuRead_success [OF r assms]) blast
next
  assume w: "mmuWrite a src m = (Inr (), m2)"
  show "\<exists>pa. TranslateAddress (mem_mmu m) a = Inr pa \<and>
          mem_data m2 = write_bytes (mem_data m) (unat pa) (fst (snd (InvokeWriteHooks a pa src (mem_mmu m))))"
    by (rule mmuWrite_success [OF w assms]) auto
qed

text \<open>In the witness a read hook replaces the buffer by \<open>9\<close>s; the read still returns the zeros of memory.\<close>

lemma hooks_change_writes_not_reads_witness:
  "\<exists>m1. mmuRead (demo_memory\<lparr>mem_mmu := demo_mmu\<lparr>mmu_readHooks := [(0, \<lambda>c d. (True, map (\<lambda>_. 9) d))]\<rparr>\<rparr>) 4 [1, 1]
     = (Inr [0, 0], m1)"
proof -
  define u where "u = demo_mmu\<lparr>mmu_readHooks := [(0, \<lambda>c d. (True, map (\<lambda>_. 9) d))]\<rparr>"
  define m where "m = demo_memory\<lparr>mem_mmu := u\<rparr>"
  have tr: "TranslateAddress u 4 = Inr 4" and ck: "CheckPermissionOrThrow u 4 ACC_READ = Inr ()"
    and u: "mmu_enabled u" "mmu_readHooks u = [(0, \<lambda>c d. (True, map (\<lambda>_. 9) d))]" "mmu_watchpoints u = []"
    by (simp_all add: u_def TranslateAddress_def CheckPermissionOrThrow_def demo_mmu_def AlignToPage_def
        GetPageOffset_def PageEntry_def HasPermission_def)
  have m: "mem_mmu m = u" "mem_data m = replicate 64 0"
    by (simp_all add: m_def demo_memory_def)
  obtain bs m1 where r: "mmuRead m 4 [1, 1] = (Inr bs, m1)"
    by (simp add: mmuRead_def Let_def tr ck checkBounds_def m u InvokeReadHooks_def)
  from hooks_change_writes_not_reads [of m 4 "[1, 1]" bs m1] r tr u(1)
  have "bs = [0, 0]" by (simp add: m read_bytes_def)
  with r show ?thesis
    unfolding m_def u_def by blast
qed

subsection \<open>Device dispatch\<close>

text \<open>Registered devices have distinct identities, are well formed and have windows that neither wrap nor
  overlap.\<close>

definition no_wrap :: "vm_device \<Rightarrow> bool" where
  "no_wrap d \<longleftrightarrow> unat (dev_GetBaseAddress d) + dev_GetSize d < 2 ^ 64"

definition devices_ok :: "(nat \<times> vm_device) list \<Rightarrow> bool" where
  "devices_ok ds \<longleftrightarrow> distinct (map fst ds) \<and> (\<forall>(i, d) \<in> set ds. dev_ok d \<and> no_wrap d) \<and>
     (\<forall>x \<in> set ds. \<forall>y \<in> set ds. x \<noteq> y \<longrightarrow> vm_device.disjoint_windows (snd x) (snd y))"

lemma window_end:
  assumes "no_wrap d"
  shows "unat (dev_GetBaseAddress d + of_nat (dev_GetSize d)) = unat (dev_GetBaseAddress d) + dev_GetSize d"
  using assms by (simp add: no_wrap_def unat_word_ariths unat_of_nat take_bit_nat_eq_self)

lemma can_register_disjoint:
  assumes "can_register i d ds = Inr True" "no_wrap d" "\<forall>(j, e) \<in> set ds. no_wrap e"
  shows "\<forall>(j, e) \<in> set ds. j \<noteq> i \<and> vm_device.disjoint_windows d e"
  using assms
proof (induction ds)
  case Nil
  then show ?case by simp
next
  case (Cons x ds)
  obtain j e where x: "x = (j, e)" by (cases x)
  have "can_register i d ds = Inr True" "j \<noteq> i"
    "\<not> (dev_GetBaseAddress d < dev_GetBaseAddress e + of_nat (dev_GetSize e) \<and>
        dev_GetBaseAddress e < dev_GetBaseAddress d + of_nat (dev_GetSize d))"
    using Cons.prems(1) by (auto simp: x Let_def split: if_splits)
  moreover have "vm_device.disjoint_windows d e"
    using calculation(3) window_end [of d] window_end [of e] Cons.prems(2,3)
    by (auto simp: x vm_device.disjoint_windows_def word_less_nat_alt)
  ultimately show ?case
    using Cons by (simp add: x)
qed

lemma disjoint_windows_sym: "vm_device.disjoint_windows d e = vm_device.disjoint_windows e d"
  by (auto simp: vm_device.disjoint_windows_def)

lemma devices_ok_register:
  assumes "devices_ok (mem_devices m)" "RegisterDevice i d m = Inr m'" "dev_ok d" "no_wrap d"
  shows "devices_ok (mem_devices m')"
proof -
  from assms(2) obtain new where new: "can_register i d (mem_devices m) = Inr new"
    and m': "m' = (if new then m\<lparr>mem_devices := mem_devices m @ [(i, d)]\<rparr> else m)"
    by (auto simp: RegisterDevice_def and_then_eq_Inr)
  show ?thesis
  proof (cases new)
    case False
    with assms(1) m' show ?thesis by simp
  next
    case True
    have "\<forall>(j, e) \<in> set (mem_devices m). j \<noteq> i \<and> vm_device.disjoint_windows d e"
      using new True assms(1,4) by (intro can_register_disjoint) (auto simp: devices_ok_def)
    then show ?thesis
      using assms(1,3,4) True m' disjoint_windows_sym
      by (auto simp: devices_ok_def)
  qed
qed

lemma tryDeviceRead_find:
  "tryDeviceRead ds a n =
     (case find (\<lambda>x. vm_device.handles (snd x) a n) ds of None \<Rightarrow> None | Some x \<Rightarrow> dev_Read (snd x) a n)"
  by (induction ds a n rule: tryDeviceRead.induct) (auto simp: vm_device.handles_def)

lemma handler_unique:
  assumes "devices_ok ds" "n < 2 ^ 64" "x \<in> set ds" "y \<in> set ds"
    "vm_device.handles (snd x) a n" "vm_device.handles (snd y) a n"
  shows "x = y"
proof (rule ccontr)
  assume "x \<noteq> y"
  with assms have "vm_device.disjoint_windows (snd x) (snd y)" "dev_ok (snd x)" "dev_ok (snd y)"
    by (auto simp: devices_ok_def)
  from vm_device.handles_disjoint [OF this(1) assms(5,2) this(2,3)] assms(6) show False by blast
qed

lemma find_unique:
  assumes "\<And>x y. x \<in> set ds \<Longrightarrow> y \<in> set ds \<Longrightarrow> P x \<Longrightarrow> P y \<Longrightarrow> x = y" "set ds' = set ds"
  shows "find P ds' = find P ds"
proof (cases "find P ds")
  case None
  then have "find P ds' = None" using assms(2) by (simp add: find_None_iff)
  with None show ?thesis by simp
next
  case (Some x)
  have found: "z \<in> set es \<and> P z" if "find P es = Some z" for es z
    using that by (induction es) (auto split: if_splits)
  from found [OF Some] have x: "x \<in> set ds" "P x" by simp_all
  then have "find P ds' \<noteq> None"
    using assms(2) by (auto simp: find_None_iff)
  then obtain y where y: "find P ds' = Some y" by blast
  from found [OF y] have "y \<in> set ds" "P y" using assms(2) by simp_all
  then have "y = x" by (intro assms(1) x)
  with Some y show ?thesis by simp
qed

text \<open>the devices accepted by \<open>RegisterDevice\<close> never compete: registration keeps the windows pairwise
  disjoint, so a read is answered by the same device whatever the order the devices are listed in.\<close>

theorem device_dispatch_deterministic:
  assumes "devices_ok (mem_devices m)" "RegisterDevice i d m = Inr m'" "dev_ok d" "no_wrap d"
    and "set ds = set (mem_devices m')" "n < 2 ^ 64"
  shows "devices_ok (mem_devices m') \<and> tryDeviceRead ds a n = tryDeviceRead (mem_devices m') a n"
proof -
  have ok: "devices_ok (mem_devices m')"
    by (rule devices_ok_register [OF assms(1-4)])
  have "find (\<lambda>x. vm_device.handles (snd x) a n) ds = find (\<lambda>x. vm_device.handles (snd x) a n) (mem_devices m')"
    by (rule find_unique [OF handler_unique [OF ok assms(6)] assms(5)])
  with ok show ?thesis by (simp add: tryDeviceRead_find)
qed

lemma device_dispatch_deterministic_witness:
  "\<exists>m1 m2. RegisterDevice 1 (TimerDev (VirtualTimer 0xFFFF0100)) demo_memory = Inr m1 \<and>
     RegisterDevice 2 (ConsoleDev (VirtualConsole 0xFFFF0000 10)) m1 = Inr m2 \<and>
     devices_ok (mem_devices m2) \<and>
     tryDeviceRead (rev (mem_devices m2)) 0xFFFF0004 1 = tryDeviceRead (mem_devices m2) 0xFFFF0004 1"
proof -
  let ?t = "TimerDev (VirtualTimer 0xFFFF0100)" and ?c = "ConsoleDev (VirtualConsole 0xFFFF0000 10)"
  have r1: "RegisterDevice 1 ?t demo_memory = Inr (demo_memory\<lparr>mem_devices := [(1, ?t)]\<rparr>)" (is "_ = Inr ?m1")
    by (simp add: RegisterDevice_def demo_memory_def)
  have r2: "RegisterDevice 2 ?c ?m1 = Inr (?m1\<lparr>mem_devices := [(1, ?t), (2, ?c)]\<rparr>)" (is "_ = Inr ?m2")
    by (simp add: RegisterDevice_def VirtualTimer_def VirtualConsole_def)
  have ok1: "devices_ok (mem_devices ?m1)"
    by (simp add: devices_ok_def no_wrap_def VirtualTimer_def)
  have "dev_ok ?c" "no_wrap ?c"
    by (simp_all add: console_ok_def VirtualConsole_def buffer_ok_new no_wrap_def)
  from device_dispatch_deterministic [OF ok1 r2 this, of "rev (mem_devices ?m2)" 1 "0xFFFF0004"] r1 r2
  show ?thesis by fastforce
qed

subsection \<open>Snapshots\<close>

text \<open>restoring a memory snapshot into any memory of the same size makes it indistinguishable from the
  snapshotted one for direct reads and for translation: contents, page table and the enable flag come
  back; hooks, watchpoints and devices stay those of the target; other sizes are rejected.\<close>

theorem memory_snapshot_roundtrip:
  "mem_RestoreSnapshot (mem_CreateSnapshot m) m' =
     (if length (mem_data m) = length (mem_data m')
      then Inr (m'\<lparr>mem_data := mem_data m,
             mem_mmu := (mem_mmu m')\<lparr>mmu_pageTable := mmu_pageTable (mem_mmu m),
                                     mmu_enabled := mmu_enabled (mem_mmu m)\<rparr>\<rparr>)
      else Inl InvalidArgument) \<and>
   (mmu_pageSize (mem_mmu m) = mmu_pageSize (mem_mmu m') \<longrightarrow>
      TranslateAddress ((mem_mmu m')\<lparr>mmu_pageTable := mmu_pageTable (mem_mmu m),
                                     mmu_enabled := mmu_enabled (mem_mmu m)\<rparr>) a
        = TranslateAddress (mem_mmu m) a)"
  by (simp add: mem_RestoreSnapshot_def mem_CreateSnapshot_def SetEnabled_def RestorePageTable_def
      TranslateAddress_def AlignToPage_def GetPageOffset_def split: option.split)

lemma memory_snapshot_roundtrip_witness:
  "mem_RestoreSnapshot (mem_CreateSnapshot demo_memory) (demo_memory\<lparr>mem_data := replicate 64 3\<rparr>) = Inr demo_memory"
  using memory_snapshot_roundtrip [of demo_memory "demo_memory\<lparr>mem_data := replicate 64 3\<rparr>" 0]
  by (simp add: demo_memory_def demo_mmu_def)

end
