(* ===== verification/Rse.thy ===== *)
theory Rse
  imports Prelude
begin

text \<open>
  Backing-store address arithmetic of the register stack engine (\<open>src/src/core/cpu.cpp\<close>, the
  helpers \<open>skipRseRegisters\<close> and \<open>rseRegistersBetween\<close>). Every 64th word of the backing store
  (slot 63) holds a NaT collection, so moving by \<open>n\<close> registers moves by \<open>n\<close> words plus one word
  for each collection passed. The lemmas relate the source's counting loops to division by 63
  and show that the two helpers are inverse to each other.
\<close>

subsection \<open>The source's definitions\<close>

text \<open>The \<open>int64_t\<close> locals stay far below \<open>2 ^ 63\<close> for every caller, so they are \<open>int\<close> here.\<close>

function skip_back_loop :: "int \<Rightarrow> int \<Rightarrow> int" where
  "skip_back_loop delta collectionWords =
     (if delta \<le> - 0x3F then skip_back_loop (delta + 0x3F) (collectionWords - 1)
      else collectionWords)"
  by pat_completeness auto
termination
  by (relation "measure (\<lambda>(delta, _). nat (- delta))") auto

function skip_forward_loop :: "int \<Rightarrow> int \<Rightarrow> int" where
  "skip_forward_loop delta collectionWords =
     (if delta \<ge> 0x3F then skip_forward_loop (delta - 0x3F) (collectionWords + 1)
      else collectionWords)"
  by pat_completeness auto
termination
  by (relation "measure (\<lambda>(delta, _). nat delta)") auto

declare skip_back_loop.simps [simp del] skip_forward_loop.simps [simp del]

definition rse_slot :: "u64 \<Rightarrow> u64" where
  "rse_slot address = get_bits 3 6 address"

definition skipRseRegisters :: "u64 \<Rightarrow> int \<Rightarrow> u64" where
  "skipRseRegisters address registerCount =
     (if registerCount = 0 then address
      else
        let delta0 = uint (rse_slot address) + registerCount;
            delta = (if registerCount < 0 then delta0 - 0x3E else delta0);
            collectionWords =
              (if delta < 0 then skip_back_loop delta 0 else skip_forward_loop delta 0)
        in address + word_of_int (registerCount + collectionWords) * 8)"

definition rseRegistersBetween :: "u64 \<Rightarrow> u64 \<Rightarrow> u64" where
  "rseRegistersBetween bspstore bsp =
     (if bsp < bspstore then 0
      else
        let backingStoreWords = drop_bit 3 (bsp - bspstore);
            firstNatSlot = rse_slot bspstore;
            natCollectionWords = (firstNatSlot + backingStoreWords) div 64
        in backingStoreWords - natCollectionWords)"

subsection \<open>The loops compute a quotient\<close>

lemma skip_forward_loop_div: "0 \<le> delta \<Longrightarrow> skip_forward_loop delta c = c + delta div 63"
proof (induction delta c rule: skip_forward_loop.induct)
  case (1 delta c)
  show ?case
  proof (cases "63 \<le> delta")
    case True
    with "1.IH" have "skip_forward_loop (delta - 63) (c + 1) = c + 1 + (delta - 63) div 63"
      by simp
    moreover have "delta div 63 = 1 + (delta - 63) div 63"
      using True by (simp add: div_pos_geq)
    ultimately show ?thesis
      using True by (simp add: skip_forward_loop.simps [of delta])
  next
    case False
    with "1.prems" show ?thesis
      by (simp add: skip_forward_loop.simps [of delta])
  qed
qed

lemma skip_back_loop_div: "delta \<le> 0 \<Longrightarrow> skip_back_loop delta c = c - (- delta) div 63"
proof (induction delta c rule: skip_back_loop.induct)
  case (1 delta c)
  show ?case
  proof (cases "delta \<le> - 63")
    case True
    with "1.IH" have "skip_back_loop (delta + 63) (c - 1) = c - 1 - (- delta - 63) div 63"
      by simp
    moreover have "(- delta) div 63 = 1 + (- delta - 63) div 63"
      using True by (simp add: div_pos_geq)
    ultimately show ?thesis
      using True by (simp add: skip_back_loop.simps [of delta])
  next
    case False
    with "1.prems" show ?thesis
      by (simp add: skip_back_loop.simps [of delta])
  qed
qed

subsection \<open>Closed forms\<close>

lemma uint_rse_slot: "uint (rse_slot a) = (uint a div 8) mod 64"
  by (simp add: rse_slot_def uint_get_bits)

lemma uint_rse_slot_bounds: "0 \<le> uint (rse_slot a)" "uint (rse_slot a) < 64"
  by (simp_all add: uint_rse_slot)

lemma skipRse_forward:
  assumes "0 \<le> n" and nz: "n \<noteq> 0 \<or> uint (rse_slot a) \<noteq> 63"
  shows "skipRseRegisters a n = a + word_of_int (n + (uint (rse_slot a) + n) div 63) * 8"
proof (cases "n = 0")
  case True
  with nz have "uint (rse_slot a) div 63 = 0"
    using uint_rse_slot_bounds [of a] by (simp add: div_pos_pos_trivial)
  with True show ?thesis
    by (simp add: skipRseRegisters_def)
next
  case False
  have "\<not> uint (rse_slot a) + n < 0"
    using assms uint_rse_slot_bounds [of a] by linarith
  with False assms show ?thesis
    by (simp add: skipRseRegisters_def Let_def skip_forward_loop_div)
qed

lemma skipRse_back:
  assumes "0 < n"
  shows "skipRseRegisters a (- n) =
     a + word_of_int (- n - (62 + n - uint (rse_slot a)) div 63) * 8"
proof -
  have "(if uint (rse_slot a) - n - 62 < 0
         then skip_back_loop (uint (rse_slot a) - n - 62) 0
         else skip_forward_loop (uint (rse_slot a) - n - 62) 0)
      = - ((62 + n - uint (rse_slot a)) div 63)"
  proof (cases "uint (rse_slot a) - n - 62 < 0")
    case True
    then show ?thesis
      by (simp add: skip_back_loop_div algebra_simps)
  next
    case False
    then have "uint (rse_slot a) - n - 62 = 0"
      using assms uint_rse_slot_bounds [of a] by linarith
    then show ?thesis
      by (simp add: skip_forward_loop_div algebra_simps)
  qed
  with assms show ?thesis
    by (simp add: skipRseRegisters_def Let_def algebra_simps)
qed

text \<open>Slots move modulo 64, whatever the wrap-around of the address.\<close>

lemma uint_rse_slot_add:
  "uint (rse_slot (a + word_of_int k * 8)) = (uint (rse_slot a) + k) mod 64"
proof -
  have "uint (a + word_of_int k * 8) = (uint a + k * 8) mod 2 ^ 64"
    by (simp add: uint_word_ariths uint_word_of_int mod_simps)
  then have "uint (rse_slot (a + word_of_int k * 8)) = ((uint a + k * 8) mod 2 ^ 64) div 8 mod 64"
    by (simp add: uint_rse_slot)
  also have "\<dots> = ((uint a + k * 8) div 8) mod 64"
  proof -
    have "take_bit 6 (drop_bit 3 (take_bit 64 x)) = take_bit 6 (drop_bit 3 x)" for x :: int
      by (simp add: bit_eq_iff bit_simps) auto
    then show ?thesis
      by (simp add: take_bit_eq_mod drop_bit_eq_div)
  qed
  also have "(uint a + k * 8) div 8 = uint a div 8 + k"
    by simp
  finally show ?thesis
    by (simp add: uint_rse_slot mod_simps)
qed

lemma slot_after_skip:
  assumes "0 < n"
  shows "uint (rse_slot (skipRseRegisters a n)) = (uint (rse_slot a) + n) mod 63"
proof -
  define d where "d = uint (rse_slot a) + n"
  have "skipRseRegisters a n = a + word_of_int (n + d div 63) * 8"
    using assms by (simp add: skipRse_forward d_def)
  then have "uint (rse_slot (skipRseRegisters a n)) = (d + d div 63) mod 64"
    by (simp only: uint_rse_slot_add) (simp add: d_def add.assoc)
  also have "d + d div 63 = 64 * (d div 63) + d mod 63"
    using div_mult_mod_eq [of d 63] by simp
  also have "(64 * (d div 63) + d mod 63) mod 64 = d mod 63"
    by simp
  finally show ?thesis
    by (simp add: d_def)
qed

text \<open>Moving forward never lands on a NaT collection.\<close>

lemma skip_avoids_nat_slot: "0 < n \<Longrightarrow> uint (rse_slot (skipRseRegisters a n)) < 63"
  by (simp add: slot_after_skip)

subsection \<open>The helpers are inverse to each other\<close>

lemma skip_back_forward:
  assumes slot: "uint (rse_slot a) \<noteq> 63" and n: "0 \<le> n"
  shows "skipRseRegisters (skipRseRegisters a n) (- n) = a"
proof (cases "n = 0")
  case True
  then show ?thesis by (simp add: skipRseRegisters_def)
next
  case False
  with n have n: "0 < n" by simp
  define s where "s = uint (rse_slot a)"
  define q where "q = (s + n) div 63"
  have s: "0 \<le> s" "s \<le> 62"
    using slot uint_rse_slot_bounds [of a] by (simp_all add: s_def)
  have "(62 + n - (s + n) mod 63) div 63 = (62 - s + 63 * q) div 63"
    by (simp add: q_def minus_mod_eq_mult_div [symmetric] algebra_simps)
  also have "\<dots> = q"
    using s by (simp add: div_pos_pos_trivial)
  finally have "(62 + n - (s + n) mod 63) div 63 = q" .
  then have bwd: "skipRseRegisters (skipRseRegisters a n) (- n) =
      skipRseRegisters a n + word_of_int (- n - q) * 8"
    using n by (simp add: skipRse_back slot_after_skip s_def)
  have fwd: "skipRseRegisters a n = a + word_of_int (n + q) * 8"
    using n by (simp add: skipRse_forward s_def q_def)
  have "(a + word_of_int (n + q) * 8) + word_of_int (- n - q) * 8
      = a + word_of_int ((n + q) + (- n - q)) * 8"
    by (simp only: of_int_add distrib_right add.assoc)
  also have "\<dots> = a"
    by simp
  finally show ?thesis
    by (subst bwd, subst fwd)
qed

text \<open>
  Counting the registers between a spill pointer and the pointer \<open>n\<close> registers above it gives
  \<open>n\<close> back, as long as the two pointers do not wrap around the address space.
\<close>

lemma between_skip:
  assumes n: "0 \<le> n" and nz: "n \<noteq> 0 \<or> uint (rse_slot a) \<noteq> 63"
    and room: "uint a + 8 * (n + (uint (rse_slot a) + n) div 63) < 2 ^ 64"
  shows "rseRegistersBetween a (skipRseRegisters a n) = word_of_int n"
proof -
  define s where "s = uint (rse_slot a)"
  define q where "q = (s + n) div 63"
  have s: "0 \<le> s" "s < 64"
    using uint_rse_slot_bounds [of a] by (simp_all add: s_def)
  have q: "0 \<le> q"
    using n s by (simp add: q_def pos_imp_zdiv_nonneg_iff)
  have fwd: "skipRseRegisters a n = a + word_of_int (8 * (n + q))"
    using skipRse_forward [OF n nz] by (simp add: s_def q_def mult.commute)
  have small: "8 * (n + q) < 2 ^ 64"
    using room uint_ge_0 [of a] unfolding s_def q_def by linarith
  then have u: "uint (word_of_int (8 * (n + q)) :: u64) = 8 * (n + q)"
    using n q by (intro uint_word_of_int_eq [THEN trans]) (simp add: take_bit_int_eq_self_iff)
  have "uint (a + word_of_int (8 * (n + q))) = uint a + 8 * (n + q)"
    using n q room u by (subst uint_add_lem [THEN iffD1]) (simp_all add: s_def q_def)
  then have le: "\<not> skipRseRegisters a n < a"
    using n q by (simp add: fwd word_less_def)
  have words: "uint (drop_bit 3 (skipRseRegisters a n - a)) = n + q"
  proof -
    have "skipRseRegisters a n - a = word_of_int (8 * (n + q))"
      by (simp add: fwd)
    moreover have "uint (drop_bit 3 w) = uint w div 8" for w :: u64
      by (simp add: uint_drop_bit)
    ultimately show ?thesis
      using u by simp
  qed
  have "uint (rse_slot a + drop_bit 3 (skipRseRegisters a n - a)) = s + (n + q)"
    using small s n q by (subst uint_add_lem [THEN iffD1]) (simp_all add: words s_def)
  then have "uint ((rse_slot a + drop_bit 3 (skipRseRegisters a n - a)) div 64) = (s + n + q) div 64"
    by (simp add: uint_div_distrib add.assoc)
  also have "s + n + q = 64 * q + (s + n) mod 63"
    by (simp add: q_def minus_div_mult_eq_mod [symmetric])
  also have "(64 * q + (s + n) mod 63) div 64 = q"
    by (simp add: div_pos_pos_trivial)
  finally have nat_words: "uint ((rse_slot a + drop_bit 3 (skipRseRegisters a n - a)) div 64) = q" .
  have "rseRegistersBetween a (skipRseRegisters a n) =
      word_of_int (uint (drop_bit 3 (skipRseRegisters a n - a)))
      - word_of_int (uint ((rse_slot a + drop_bit 3 (skipRseRegisters a n - a)) div 64))"
    using le by (simp add: rseRegistersBetween_def Let_def)
  then show ?thesis
    by (simp only: words nat_words flip: of_int_diff) simp
qed

end
