(* ===== verification/Tlb.thy ===== *)
theory Tlb
  imports Prelude
begin

text \<open>
  Translation entries and the replacement policy of the instruction and data TLBs
  (\<open>src/src/core/cpu.cpp\<close>: \<open>translationEntryCovers\<close>, \<open>insertTranslationEntry\<close>,
  \<open>purgeTranslationEntries\<close>; \<open>TranslationRegisterState\<close> of \<open>src/include/cpu_state.h\<close>).
  The \<open>std::array\<close> of entries is a list whose length is the template parameter \<open>EntryCount\<close>.
  The lemmas show that the single search loop picks the matching entry, else the first free one,
  else the round-robin victim, that a page never has two entries, and what a purge removes.
\<close>

subsection \<open>The source's definitions\<close>

record translation_entry =
  physicalAddress :: u64
  virtualAddress :: u64
  itir :: u64
  regionValue :: u64
  valid :: bool

definition empty_entry :: translation_entry where
  "empty_entry = \<lparr>physicalAddress = 0, virtualAddress = 0, itir = 0, regionValue = 0, valid = False\<rparr>"

definition region_id :: "u64 \<Rightarrow> u64" where
  "region_id rv = get_bits 8 24 rv"

definition itir_page_shift :: "u64 \<Rightarrow> nat" where
  "itir_page_shift it = unat (get_bits 2 6 it)"

definition page_mask :: "nat \<Rightarrow> u64" where
  "page_mask pageShift = push_bit pageShift 1 - 1"

definition translationEntryCovers :: "translation_entry \<Rightarrow> u64 \<Rightarrow> u64 \<Rightarrow> bool" where
  "translationEntryCovers entry va regionId =
     (if \<not> valid entry \<or> region_id (regionValue entry) \<noteq> regionId then False
      else
        let pageShift = itir_page_shift (itir entry) in
        if pageShift < 12 \<or> pageShift > 61 then False
        else (virtualAddress entry AND NOT (page_mask pageShift))
               = (va AND NOT (page_mask pageShift)))"

text \<open>The search loop: \<open>i\<close> is the loop counter, \<open>selected\<close> the variable of the same name.\<close>

fun select_entry ::
  "nat \<Rightarrow> u64 \<Rightarrow> u64 \<Rightarrow> nat \<Rightarrow> translation_entry list \<Rightarrow> nat \<Rightarrow> nat \<Rightarrow> nat" where
  "select_entry EntryCount va rid pageShift [] i selected = selected"
| "select_entry EntryCount va rid pageShift (e # es) i selected =
     (if translationEntryCovers e va rid \<and> itir_page_shift (itir e) = pageShift then i
      else select_entry EntryCount va rid pageShift es (Suc i)
             (if \<not> valid e \<and> selected = EntryCount then i else selected))"

definition insertTranslationEntry ::
  "translation_entry list \<Rightarrow> nat \<Rightarrow> u64 \<Rightarrow> u64 \<Rightarrow> u64 \<Rightarrow> u64
     \<Rightarrow> cpp_error + translation_entry list \<times> nat" where
  "insertTranslationEntry entries replacementIndex tte va it rv =
     (let EntryCount = length entries;
          rid = region_id rv;
          pageShift = itir_page_shift it
      in if pageShift < 12 \<or> pageShift > 61 then Inl InvalidArgument
         else
           let aligned = va AND NOT (page_mask pageShift);
               found = select_entry EntryCount aligned rid pageShift entries 0 EntryCount;
               selected = (if found = EntryCount then replacementIndex mod EntryCount else found);
               replacementIndex' =
                 (if found = EntryCount then (selected + 1) mod EntryCount else replacementIndex)
           in Inr (entries[selected :=
                     \<lparr>physicalAddress = tte, virtualAddress = aligned, itir = it,
                      regionValue = rv, valid = True\<rparr>], replacementIndex'))"

definition purgeTranslationEntries ::
  "translation_entry list \<Rightarrow> u64 \<Rightarrow> nat \<Rightarrow> u64 \<Rightarrow> translation_entry list" where
  "purgeTranslationEntries entries va pageShift regionId =
     (if pageShift < 12 \<or> pageShift > 61 then entries
      else map (\<lambda>e. if translationEntryCovers e va regionId then e\<lparr>valid := False\<rparr> else e) entries)"

subsection \<open>The page mask\<close>

lemma page_mask_eq: "page_mask n = mask n"
  by (simp add: page_mask_def mask_eq_exp_minus_1 push_bit_eq_mult)

lemma translationEntryCovers_aligned [simp]:
  "itir_page_shift (itir e) = ps \<Longrightarrow>
   translationEntryCovers e (va AND NOT (page_mask ps)) rid = translationEntryCovers e va rid"
  by (auto simp: translationEntryCovers_def Let_def)

lemma coversD:
  assumes "translationEntryCovers e va rid"
  shows "valid e" "region_id (regionValue e) = rid"
    "12 \<le> itir_page_shift (itir e)" "itir_page_shift (itir e) \<le> 61"
    "virtualAddress e AND NOT (page_mask (itir_page_shift (itir e)))
       = va AND NOT (page_mask (itir_page_shift (itir e)))"
  using assms by (auto simp: translationEntryCovers_def Let_def split: if_splits)

subsection \<open>What the search loop selects\<close>

definition same_page :: "u64 \<Rightarrow> u64 \<Rightarrow> nat \<Rightarrow> translation_entry \<Rightarrow> bool" where
  "same_page va rid ps e \<longleftrightarrow> translationEntryCovers e va rid \<and> itir_page_shift (itir e) = ps"

text \<open>The loop is the two-pass search: a matching entry first, else the first free entry.\<close>

lemma select_entry_two_pass:
  assumes "i + length es \<le> n"
  shows "select_entry n va rid ps es i sel =
     (case first_index (same_page va rid ps) es of
        Some k \<Rightarrow> i + k
      | None \<Rightarrow> (if sel \<noteq> n then sel
                 else case first_index (\<lambda>e. \<not> valid e) es of Some k \<Rightarrow> i + k | None \<Rightarrow> n))"
  using assms
proof (induction es arbitrary: i sel)
  case Nil
  then show ?case by simp
next
  case (Cons e es)
  then have i: "i < n" "Suc i + length es \<le> n" by simp_all
  show ?case
  proof (cases "same_page va rid ps e")
    case True
    then show ?thesis by (simp add: same_page_def)
  next
    case False
    then have "select_entry n va rid ps (e # es) i sel =
        select_entry n va rid ps es (Suc i) (if \<not> valid e \<and> sel = n then i else sel)"
      by (auto simp: same_page_def)
    with False i show ?thesis
      by (auto simp: Cons.IH [OF i(2)] split: option.splits)
  qed
qed

text \<open>The slot an insertion writes, and the new replacement index.\<close>

definition victim :: "translation_entry list \<Rightarrow> nat \<Rightarrow> u64 \<Rightarrow> u64 \<Rightarrow> nat \<Rightarrow> nat \<times> nat" where
  "victim es ri va rid ps =
     (case first_index (same_page va rid ps) es of
        Some k \<Rightarrow> (k, ri)
      | None \<Rightarrow>
          (case first_index (\<lambda>e. \<not> valid e) es of
             Some k \<Rightarrow> (k, ri)
           | None \<Rightarrow> (ri mod length es, (ri mod length es + 1) mod length es)))"

lemma same_page_aligned [simp]:
  "same_page (va AND NOT (page_mask ps)) rid ps = same_page va rid ps"
  by (auto simp: same_page_def fun_eq_iff)

lemma insertTranslationEntry_victim:
  assumes "12 \<le> itir_page_shift it" "itir_page_shift it \<le> 61"
  shows "insertTranslationEntry es ri tte va it rv =
     Inr (es[fst (victim es ri va (region_id rv) (itir_page_shift it)) :=
            \<lparr>physicalAddress = tte, virtualAddress = va AND NOT (page_mask (itir_page_shift it)),
             itir = it, regionValue = rv, valid = True\<rparr>],
          snd (victim es ri va (region_id rv) (itir_page_shift it)))"
proof -
  let ?va = "va AND NOT (page_mask (itir_page_shift it))"
  have "select_entry (length es) ?va (region_id rv) (itir_page_shift it) es 0 (length es) =
     (case first_index (same_page va (region_id rv) (itir_page_shift it)) es of
        Some k \<Rightarrow> k
      | None \<Rightarrow> (case first_index (\<lambda>e. \<not> valid e) es of Some k \<Rightarrow> k | None \<Rightarrow> length es))"
    by (subst select_entry_two_pass) (auto split: option.splits)
  note sel = this
  show ?thesis
  proof (cases "first_index (same_page va (region_id rv) (itir_page_shift it)) es")
    case (Some k)
    with assms sel show ?thesis
      by (simp add: insertTranslationEntry_def victim_def Let_def first_index_less [THEN less_imp_neq])
  next
    case None
    with assms sel show ?thesis
      by (cases "first_index (\<lambda>e. \<not> valid e) es")
        (simp_all add: insertTranslationEntry_def victim_def Let_def
          first_index_less [THEN less_imp_neq])
  qed
qed

lemma insertTranslationEntry_error:
  "itir_page_shift it < 12 \<or> 61 < itir_page_shift it \<Longrightarrow>
   insertTranslationEntry es ri tte va it rv = Inl InvalidArgument"
  by (simp add: insertTranslationEntry_def Let_def)

lemma insertTranslationEntry_Inr:
  "insertTranslationEntry es ri tte va it rv = Inr r \<Longrightarrow>
   12 \<le> itir_page_shift it \<and> itir_page_shift it \<le> 61"
  by (auto simp: insertTranslationEntry_def Let_def split: if_splits)

lemma victim_less: "es \<noteq> [] \<Longrightarrow> fst (victim es ri va rid ps) < length es"
  by (auto simp: victim_def first_index_Some split: option.splits)

lemma victim_index: "es \<noteq> [] \<Longrightarrow> ri < length es \<Longrightarrow> snd (victim es ri va rid ps) < length es"
  by (auto simp: victim_def split: option.splits)

lemma insert_length:
  assumes "insertTranslationEntry es ri tte va it rv = Inr (es', ri')" "es \<noteq> []"
  shows "length es' = length es \<and> (ri < length es \<longrightarrow> ri' < length es)"
  using assms(1) victim_index [OF assms(2)]
    insertTranslationEntry_victim [of it es ri tte va rv] insertTranslationEntry_Inr [OF assms(1)]
  by auto

subsection \<open>At most one entry per page\<close>

text \<open>
  \<open>tlb_ok\<close>: valid entries hold an aligned address and a legal page size, and no two valid
  entries translate the same page (same region, page size and page number).
\<close>

definition entry_ok :: "translation_entry \<Rightarrow> bool" where
  "entry_ok e \<longleftrightarrow> (valid e \<longrightarrow>
     12 \<le> itir_page_shift (itir e) \<and> itir_page_shift (itir e) \<le> 61 \<and>
     virtualAddress e AND NOT (page_mask (itir_page_shift (itir e))) = virtualAddress e)"

definition collide :: "translation_entry \<Rightarrow> translation_entry \<Rightarrow> bool" where
  "collide e f \<longleftrightarrow> valid e \<and> valid f \<and>
     region_id (regionValue e) = region_id (regionValue f) \<and>
     itir_page_shift (itir e) = itir_page_shift (itir f) \<and>
     virtualAddress e = virtualAddress f"

lemma collide_sym: "collide e f = collide f e"
  by (auto simp: collide_def)

definition tlb_ok :: "translation_entry list \<Rightarrow> bool" where
  "tlb_ok es \<longleftrightarrow> (\<forall>e \<in> set es. entry_ok e) \<and>
     (\<forall>i < length es. \<forall>j < length es. i \<noteq> j \<longrightarrow> \<not> collide (es ! i) (es ! j))"

lemma tlb_ok_empty: "tlb_ok (replicate n empty_entry)"
  by (simp add: tlb_ok_def entry_ok_def collide_def empty_entry_def)

lemma same_page_collide:
  assumes "entry_ok e" "valid e"
  shows "same_page va (region_id rv) ps e \<longleftrightarrow>
    region_id (regionValue e) = region_id rv \<and> itir_page_shift (itir e) = ps \<and>
    virtualAddress e = va AND NOT (page_mask ps)"
  using assms
  by (auto simp: same_page_def entry_ok_def translationEntryCovers_def Let_def split: if_splits)

lemma entry_ok_invalidate: "entry_ok e \<Longrightarrow> entry_ok (e\<lparr>valid := False\<rparr>)"
  by (simp add: entry_ok_def)

lemma collide_invalidate [simp]:
  "\<not> collide (e\<lparr>valid := False\<rparr>) f" "\<not> collide e (f\<lparr>valid := False\<rparr>)"
  by (simp_all add: collide_def)

lemma purge_ok: "tlb_ok es \<Longrightarrow> tlb_ok (purgeTranslationEntries es va ps rid)"
  by (auto simp: tlb_ok_def purgeTranslationEntries_def entry_ok_invalidate)

text \<open>A purge reads the page size only to reject illegal ones.\<close>

lemma purge_size_irrelevant:
  "\<lbrakk>12 \<le> ps; ps \<le> 61; 12 \<le> ps'; ps' \<le> 61\<rbrakk> \<Longrightarrow>
   purgeTranslationEntries es va ps rid = purgeTranslationEntries es va ps' rid"
  by (simp add: purgeTranslationEntries_def)

lemma purge_removes:
  assumes "12 \<le> ps" "ps \<le> 61" "e \<in> set (purgeTranslationEntries es va ps rid)"
  shows "\<not> translationEntryCovers e va rid"
proof -
  have "\<not> translationEntryCovers (f\<lparr>valid := False\<rparr>) va rid" for f
    by (simp add: translationEntryCovers_def)
  with assms show ?thesis
    by (auto simp: purgeTranslationEntries_def)
qed

lemma tlb_ok_insert:
  assumes ok: "tlb_ok es" and nonempty: "es \<noteq> []"
    and ins: "insertTranslationEntry es ri tte va it rv = Inr (es', ri')"
  shows "tlb_ok es'"
proof -
  let ?ps = "itir_page_shift it" and ?rid = "region_id rv"
  let ?va = "va AND NOT (page_mask ?ps)"
  let ?new = "\<lparr>physicalAddress = tte, virtualAddress = ?va, itir = it, regionValue = rv, valid = True\<rparr>"
  define k where "k = fst (victim es ri va ?rid ?ps)"
  have ps: "12 \<le> ?ps" "?ps \<le> 61"
    using insertTranslationEntry_Inr [OF ins] by simp_all
  then have es': "es' = es[k := ?new]" and k: "k < length es"
    using ins insertTranslationEntry_victim [OF ps] victim_less [OF nonempty]
    by (simp_all add: k_def)
  have new: "entry_ok ?new"
    using ps by (simp add: entry_ok_def)
  have other: "\<not> collide ?new (es ! j)" if j: "j < length es" "j \<noteq> k" for j
  proof
    assume c: "collide ?new (es ! j)"
    with ok j have sj: "same_page va ?rid ?ps (es ! j)"
      by (subst same_page_collide) (auto simp: collide_def tlb_ok_def)
    then obtain i where i: "first_index (same_page va ?rid ?ps) es = Some i"
      using j by (metis first_index_None not_None_eq nth_mem)
    then have ik: "i = k" and si: "same_page va ?rid ?ps (es ! i)"
      by (simp add: k_def victim_def) (use i in \<open>simp add: first_index_Some\<close>)
    from si have "valid (es ! i)"
      by (auto simp: same_page_def dest: coversD)
    moreover have "entry_ok (es ! i)"
      using ok k ik by (simp add: tlb_ok_def)
    ultimately have "collide (es ! i) (es ! j)"
      using si c unfolding collide_def by (auto simp: same_page_collide)
    with ok j ik k show False
      by (auto simp: tlb_ok_def)
  qed
  then have other': "\<not> collide (es ! j) ?new" if "j < length es" "j \<noteq> k" for j
    using that by (simp add: collide_sym)
  have "\<forall>e \<in> set es'. entry_ok e"
    using ok new set_update_subset_insert [of es k ?new] by (auto simp: es' tlb_ok_def)
  moreover have "\<not> collide (es' ! i) (es' ! j)" if "i < length es" "j < length es" "i \<noteq> j" for i j
    using that ok other [of j] other' [of i] k
    by (cases "i = k"; cases "j = k") (simp_all add: es' tlb_ok_def)
  ultimately show ?thesis
    by (simp add: tlb_ok_def es')
qed

end
