(* ===== verification/Cpu_State.thy ===== *)
theory Cpu_State
  imports Rse Tlb
begin

text \<open>
  The architectural register state of one IA-64 processor (\<open>CPUState\<close> of
  \<open>src/include/cpu_state.h\<close> and \<open>src/src/core/cpu.cpp\<close>): the register files as lists with the
  lengths of the C++ arrays, the logical-to-physical renaming of rotating registers, the checked
  accessors, the translation registers and TLBs, the RSE view and the modulo-scheduled loop step.
  An out-of-range index throws \<open>OutOfRange\<close>; an array access past its end is
  \<open>UndefinedBehaviour\<close>.
\<close>

subsection \<open>State\<close>

abbreviation "NUM_GENERAL_REGISTERS \<equiv> 128 :: nat"
abbreviation "NUM_PHYSICAL_GENERAL_REGISTERS \<equiv> 144 :: nat"
abbreviation "NUM_STATIC_GR \<equiv> 32 :: nat"
abbreviation "NUM_FLOAT_REGISTERS \<equiv> 128 :: nat"
abbreviation "NUM_STATIC_FR \<equiv> 32 :: nat"
abbreviation "NUM_PREDICATE_REGISTERS \<equiv> 64 :: nat"
abbreviation "NUM_STATIC_PR \<equiv> 16 :: nat"
abbreviation "NUM_BRANCH_REGISTERS \<equiv> 8 :: nat"
abbreviation "NUM_REGION_REGISTERS \<equiv> 8 :: nat"
abbreviation "NUM_CONTROL_REGISTERS \<equiv> 128 :: nat"
abbreviation "NUM_TRANSLATION_REGISTERS \<equiv> 256 :: nat"
abbreviation "NUM_INSTRUCTION_TLB_ENTRIES \<equiv> 64 :: nat"
abbreviation "NUM_DATA_TLB_ENTRIES \<equiv> 64 :: nat"
abbreviation "NUM_CPUID_REGISTERS \<equiv> 5 :: nat"
abbreviation "NUM_APPLICATION_REGISTERS \<equiv> 128 :: nat"

definition IA64_PSR_BN_MASK :: u64 where
  "IA64_PSR_BN_MASK = push_bit 44 1"

record rse_state =
  rse_cfm :: u64
  rse_rsc :: u64
  rse_bsp :: u64
  rse_bspstore :: u64
  rse_rnat :: u64
  rse_pfs :: u64
  rse_sof :: u8
  rse_sol :: u8
  rse_sor :: u8

definition init_rse :: rse_state where
  "init_rse = \<lparr>rse_cfm = 0, rse_rsc = 0, rse_bsp = 0, rse_bspstore = 0, rse_rnat = 0,
     rse_pfs = 0, rse_sof = 0, rse_sol = 0, rse_sor = 0\<rparr>"

record cpu_state =
  cpu_gr :: "u64 list"
  cpu_gr_nat :: "bool list"
  cpu_fr :: "u8 list list"
  cpu_pr :: "bool list"
  cpu_br :: "u64 list"
  cpu_rr :: "u64 list"
  cpu_cr :: "u64 list"
  cpu_cpuid :: "u64 list"
  cpu_itr :: "translation_entry list"
  cpu_dtr :: "translation_entry list"
  cpu_itlb :: "translation_entry list"
  cpu_dtlb :: "translation_entry list"
  cpu_itlbReplacementIndex :: nat
  cpu_dtlbReplacementIndex :: nat
  cpu_ar :: "u64 list"
  cpu_rse :: rse_state
  cpu_ip :: u64
  cpu_cfm :: u64
  cpu_psr :: u64

text \<open>\<open>CPUState::Reset\<close>, also the state the constructor leaves.\<close>

definition Reset :: cpu_state where
  "Reset = \<lparr>
     cpu_gr = replicate NUM_PHYSICAL_GENERAL_REGISTERS 0,
     cpu_gr_nat = replicate NUM_PHYSICAL_GENERAL_REGISTERS False,
     cpu_fr = replicate NUM_FLOAT_REGISTERS (replicate 16 0),
     cpu_pr = (replicate NUM_PREDICATE_REGISTERS False)[0 := True],
     cpu_br = replicate NUM_BRANCH_REGISTERS 0,
     cpu_rr = replicate NUM_REGION_REGISTERS 0,
     cpu_cr = replicate NUM_CONTROL_REGISTERS 0,
     cpu_cpuid = [0x49656e69756e6547, 0x000000006c65746e, 0, 4, 1],
     cpu_itr = replicate NUM_TRANSLATION_REGISTERS empty_entry,
     cpu_dtr = replicate NUM_TRANSLATION_REGISTERS empty_entry,
     cpu_itlb = replicate NUM_INSTRUCTION_TLB_ENTRIES empty_entry,
     cpu_dtlb = replicate NUM_DATA_TLB_ENTRIES empty_entry,
     cpu_itlbReplacementIndex = 0,
     cpu_dtlbReplacementIndex = 0,
     cpu_ar = replicate NUM_APPLICATION_REGISTERS 0,
     cpu_rse = init_rse,
     cpu_ip = 0,
     cpu_cfm = 0,
     cpu_psr = IA64_PSR_BN_MASK\<rparr>"

subsection \<open>The current frame marker and register renaming\<close>

definition GetSOF :: "cpu_state \<Rightarrow> nat" where "GetSOF s = unat (get_bits 0 7 (cpu_cfm s))"
definition GetSOL :: "cpu_state \<Rightarrow> nat" where "GetSOL s = unat (get_bits 7 7 (cpu_cfm s))"
definition GetSOR :: "cpu_state \<Rightarrow> nat" where "GetSOR s = unat (get_bits 14 4 (cpu_cfm s))"
definition GetRRB_GR :: "cpu_state \<Rightarrow> nat" where "GetRRB_GR s = unat (get_bits 18 7 (cpu_cfm s))"
definition GetRRB_FR :: "cpu_state \<Rightarrow> nat" where "GetRRB_FR s = unat (get_bits 25 7 (cpu_cfm s))"
definition GetRRB_PR :: "cpu_state \<Rightarrow> nat" where "GetRRB_PR s = unat (get_bits 32 6 (cpu_cfm s))"

definition SetCFM :: "u64 \<Rightarrow> cpu_state \<Rightarrow> cpu_state" where
  "SetCFM value s = s\<lparr>cpu_cfm := value, cpu_rse := (cpu_rse s)\<lparr>
     rse_cfm := value, rse_pfs := value,
     rse_sof := ucast (get_bits 0 7 value),
     rse_sol := ucast (get_bits 7 7 value),
     rse_sor := ucast (get_bits 14 4 value)\<rparr>\<rparr>"

definition SetIP :: "u64 \<Rightarrow> cpu_state \<Rightarrow> cpu_state" where
  "SetIP value s = s\<lparr>cpu_ip := value\<rparr>"

definition SetPSR :: "u64 \<Rightarrow> cpu_state \<Rightarrow> cpu_state" where
  "SetPSR value s = s\<lparr>cpu_psr := value\<rparr>"

definition SetRSEStateForCheckpoint :: "rse_state \<Rightarrow> cpu_state \<Rightarrow> cpu_state" where
  "SetRSEStateForCheckpoint state s = s\<lparr>cpu_rse := state\<rparr>"

definition MapGR :: "cpu_state \<Rightarrow> nat \<Rightarrow> nat" where
  "MapGR s logical =
     (if logical \<ge> 16 \<and> logical < NUM_STATIC_GR \<and> cpu_psr s AND IA64_PSR_BN_MASK \<noteq> 0
      then NUM_GENERAL_REGISTERS + (logical - 16)
      else if logical < NUM_STATIC_GR \<or> logical \<ge> NUM_GENERAL_REGISTERS then logical
      else
        let rotatingSize = GetSOR s * 8 in
        if rotatingSize = 0 \<or> logical \<ge> NUM_STATIC_GR + rotatingSize then logical
        else NUM_STATIC_GR + ((logical - NUM_STATIC_GR + GetRRB_GR s) mod rotatingSize))"

definition MapFR :: "cpu_state \<Rightarrow> nat \<Rightarrow> nat" where
  "MapFR s logical =
     (if logical < NUM_STATIC_FR \<or> logical \<ge> NUM_FLOAT_REGISTERS then logical
      else NUM_STATIC_FR +
        ((logical - NUM_STATIC_FR + GetRRB_FR s) mod (NUM_FLOAT_REGISTERS - NUM_STATIC_FR)))"

definition MapPR :: "cpu_state \<Rightarrow> nat \<Rightarrow> nat" where
  "MapPR s logical =
     (if logical < NUM_STATIC_PR \<or> logical \<ge> NUM_PREDICATE_REGISTERS then logical
      else NUM_STATIC_PR +
        ((logical - NUM_STATIC_PR + GetRRB_PR s) mod (NUM_PREDICATE_REGISTERS - NUM_STATIC_PR)))"

definition RotateRegisters :: "cpu_state \<Rightarrow> cpu_state" where
  "RotateRegisters s =
     (let grSize = GetSOR s * 8;
          cfm0 = cpu_cfm s;
          cfm1 = (if grSize \<noteq> 0
                  then put_bits 18 7 (of_nat ((GetRRB_GR s + grSize - 1) mod grSize)) cfm0
                  else cfm0);
          nextFR = (GetRRB_FR s + 96 - 1) mod 96;
          nextPR = (GetRRB_PR s + 48 - 1) mod 48;
          cfm2 = put_bits 25 7 (of_nat nextFR) cfm1;
          cfm3 = put_bits 32 6 (of_nat nextPR) cfm2
      in SetCFM cfm3 s)"

subsection \<open>General, floating-point and predicate registers\<close>

definition GetGR :: "cpu_state \<Rightarrow> nat \<Rightarrow> cpp_error + u64" where
  "GetGR s index =
     (if index \<ge> NUM_GENERAL_REGISTERS then Inl OutOfRange
      else if index = 0 then Inr 0 else arr_get (cpu_gr s) (MapGR s index))"

definition SetGR :: "nat \<Rightarrow> u64 \<Rightarrow> cpu_state \<Rightarrow> cpp_error + cpu_state" where
  "SetGR index value s =
     (if index \<ge> NUM_GENERAL_REGISTERS then Inl OutOfRange
      else if index \<noteq> 0 then
        let physical = MapGR s index in
        and_then (arr_set (cpu_gr s) physical value) (\<lambda>gr.
        and_then (arr_set (cpu_gr_nat s) physical False) (\<lambda>nat.
        Inr (s\<lparr>cpu_gr := gr, cpu_gr_nat := nat\<rparr>)))
      else Inr s)"

definition GetGRNaT :: "cpu_state \<Rightarrow> nat \<Rightarrow> cpp_error + bool" where
  "GetGRNaT s index =
     (if index \<ge> NUM_GENERAL_REGISTERS then Inl OutOfRange
      else if index = 0 then Inr False else arr_get (cpu_gr_nat s) (MapGR s index))"

definition SetGRNaT :: "nat \<Rightarrow> bool \<Rightarrow> cpu_state \<Rightarrow> cpp_error + cpu_state" where
  "SetGRNaT index value s =
     (if index \<ge> NUM_GENERAL_REGISTERS then Inl OutOfRange
      else if index \<noteq> 0 then
        and_then (arr_set (cpu_gr_nat s) (MapGR s index) value) (\<lambda>nat.
        Inr (s\<lparr>cpu_gr_nat := nat\<rparr>))
      else Inr s)"

definition GetGRPhysical :: "cpu_state \<Rightarrow> nat \<Rightarrow> cpp_error + u64" where
  "GetGRPhysical s index =
     (if index \<ge> NUM_PHYSICAL_GENERAL_REGISTERS then Inl OutOfRange
      else if index = 0 then Inr 0 else arr_get (cpu_gr s) index)"

definition SetGRPhysical :: "nat \<Rightarrow> u64 \<Rightarrow> cpu_state \<Rightarrow> cpp_error + cpu_state" where
  "SetGRPhysical index value s =
     (if index \<ge> NUM_PHYSICAL_GENERAL_REGISTERS then Inl OutOfRange
      else if index \<noteq> 0 then
        and_then (arr_set (cpu_gr s) index value) (\<lambda>gr.
        and_then (arr_set (cpu_gr_nat s) index False) (\<lambda>nat.
        Inr (s\<lparr>cpu_gr := gr, cpu_gr_nat := nat\<rparr>)))
      else Inr s)"

definition GetGRNaTPhysical :: "cpu_state \<Rightarrow> nat \<Rightarrow> cpp_error + bool" where
  "GetGRNaTPhysical s index =
     (if index \<ge> NUM_PHYSICAL_GENERAL_REGISTERS then Inl OutOfRange
      else if index = 0 then Inr False else arr_get (cpu_gr_nat s) index)"

definition SetGRNaTPhysical :: "nat \<Rightarrow> bool \<Rightarrow> cpu_state \<Rightarrow> cpp_error + cpu_state" where
  "SetGRNaTPhysical index value s =
     (if index \<ge> NUM_PHYSICAL_GENERAL_REGISTERS then Inl OutOfRange
      else if index \<noteq> 0 then
        and_then (arr_set (cpu_gr_nat s) index value) (\<lambda>nat. Inr (s\<lparr>cpu_gr_nat := nat\<rparr>))
      else Inr s)"

text \<open>\<open>f0\<close> reads as +0.0; \<open>f1\<close> reads as significand \<open>0x8000000000000000\<close>, exponent \<open>0xFFFF\<close>.\<close>

definition fr_zero :: "u8 list" where
  "fr_zero = replicate 16 0"

definition fr_one :: "u8 list" where
  "fr_one = [0, 0, 0, 0, 0, 0, 0, 0x80, 0xFF, 0xFF, 0, 0, 0, 0, 0, 0]"

definition GetFR :: "cpu_state \<Rightarrow> nat \<Rightarrow> cpp_error + u8 list" where
  "GetFR s index =
     (if index \<ge> NUM_FLOAT_REGISTERS then Inl OutOfRange
      else
        let physical = MapFR s index in
        if physical = 0 then Inr fr_zero
        else if physical = 1 then Inr fr_one
        else arr_get (cpu_fr s) physical)"

definition SetFR :: "nat \<Rightarrow> u8 list \<Rightarrow> cpu_state \<Rightarrow> cpp_error + cpu_state" where
  "SetFR index value s =
     (if index \<ge> NUM_FLOAT_REGISTERS then Inl OutOfRange
      else
        let physical = MapFR s index in
        if physical = 0 \<or> physical = 1 then Inr s
        else and_then (arr_set (cpu_fr s) physical value) (\<lambda>fr. Inr (s\<lparr>cpu_fr := fr\<rparr>)))"

definition GetFRPhysical :: "cpu_state \<Rightarrow> nat \<Rightarrow> cpp_error + u8 list" where
  "GetFRPhysical s index =
     (if index \<ge> NUM_FLOAT_REGISTERS then Inl OutOfRange
      else if index = 0 then Inr fr_zero
      else if index = 1 then Inr fr_one
      else arr_get (cpu_fr s) index)"

definition SetFRPhysical :: "nat \<Rightarrow> u8 list \<Rightarrow> cpu_state \<Rightarrow> cpp_error + cpu_state" where
  "SetFRPhysical index value s =
     (if index \<ge> NUM_FLOAT_REGISTERS then Inl OutOfRange
      else if index \<noteq> 0 \<and> index \<noteq> 1 then
        and_then (arr_set (cpu_fr s) index value) (\<lambda>fr. Inr (s\<lparr>cpu_fr := fr\<rparr>))
      else Inr s)"

definition GetPR :: "cpu_state \<Rightarrow> nat \<Rightarrow> cpp_error + bool" where
  "GetPR s index =
     (if index \<ge> NUM_PREDICATE_REGISTERS then Inl OutOfRange
      else if index = 0 then Inr True else arr_get (cpu_pr s) (MapPR s index))"

definition SetPR :: "nat \<Rightarrow> bool \<Rightarrow> cpu_state \<Rightarrow> cpp_error + cpu_state" where
  "SetPR index value s =
     (if index \<ge> NUM_PREDICATE_REGISTERS then Inl OutOfRange
      else if index \<noteq> 0 then
        and_then (arr_set (cpu_pr s) (MapPR s index) value) (\<lambda>pr. Inr (s\<lparr>cpu_pr := pr\<rparr>))
      else Inr s)"

definition GetPRUnrotated :: "cpu_state \<Rightarrow> nat \<Rightarrow> cpp_error + bool" where
  "GetPRUnrotated s index =
     (if index \<ge> NUM_PREDICATE_REGISTERS then Inl OutOfRange
      else if index = 0 then Inr True else arr_get (cpu_pr s) index)"

definition SetPRUnrotated :: "nat \<Rightarrow> bool \<Rightarrow> cpu_state \<Rightarrow> cpp_error + cpu_state" where
  "SetPRUnrotated index value s =
     (if index \<ge> NUM_PREDICATE_REGISTERS then Inl OutOfRange
      else if index \<noteq> 0 then
        and_then (arr_set (cpu_pr s) index value) (\<lambda>pr. Inr (s\<lparr>cpu_pr := pr\<rparr>))
      else Inr s)"

definition GetPRPhysical :: "cpu_state \<Rightarrow> nat \<Rightarrow> cpp_error + bool" where
  "GetPRPhysical s index =
     (if index \<ge> NUM_PREDICATE_REGISTERS then Inl OutOfRange
      else if index = 0 then Inr True else arr_get (cpu_pr s) index)"

definition SetPRPhysical :: "nat \<Rightarrow> bool \<Rightarrow> cpu_state \<Rightarrow> cpp_error + cpu_state" where
  "SetPRPhysical index value s =
     (if index \<ge> NUM_PREDICATE_REGISTERS then Inl OutOfRange
      else if index \<noteq> 0 then
        and_then (arr_set (cpu_pr s) index value) (\<lambda>pr. Inr (s\<lparr>cpu_pr := pr\<rparr>))
      else Inr s)"

subsection \<open>Branch, region, control and identification registers\<close>

definition GetBR :: "cpu_state \<Rightarrow> nat \<Rightarrow> cpp_error + u64" where
  "GetBR s index =
     (if index \<ge> NUM_BRANCH_REGISTERS then Inl OutOfRange else arr_get (cpu_br s) index)"

definition SetBR :: "nat \<Rightarrow> u64 \<Rightarrow> cpu_state \<Rightarrow> cpp_error + cpu_state" where
  "SetBR index value s =
     (if index \<ge> NUM_BRANCH_REGISTERS then Inl OutOfRange
      else and_then (arr_set (cpu_br s) index value) (\<lambda>br. Inr (s\<lparr>cpu_br := br\<rparr>)))"

definition GetRR :: "cpu_state \<Rightarrow> nat \<Rightarrow> cpp_error + u64" where
  "GetRR s index =
     (if index \<ge> NUM_REGION_REGISTERS then Inl OutOfRange else arr_get (cpu_rr s) index)"

definition SetRR :: "nat \<Rightarrow> u64 \<Rightarrow> cpu_state \<Rightarrow> cpp_error + cpu_state" where
  "SetRR index value s =
     (if index \<ge> NUM_REGION_REGISTERS then Inl OutOfRange
      else and_then (arr_set (cpu_rr s) index value) (\<lambda>rr. Inr (s\<lparr>cpu_rr := rr\<rparr>)))"

definition GetCR :: "cpu_state \<Rightarrow> nat \<Rightarrow> cpp_error + u64" where
  "GetCR s index =
     (if index \<ge> NUM_CONTROL_REGISTERS then Inl OutOfRange else arr_get (cpu_cr s) index)"

definition SetCR :: "nat \<Rightarrow> u64 \<Rightarrow> cpu_state \<Rightarrow> cpp_error + cpu_state" where
  "SetCR index value s =
     (if index \<ge> NUM_CONTROL_REGISTERS then Inl OutOfRange
      else and_then (arr_set (cpu_cr s) index value) (\<lambda>cr. Inr (s\<lparr>cpu_cr := cr\<rparr>)))"

definition GetCPUID :: "cpu_state \<Rightarrow> nat \<Rightarrow> cpp_error + u64" where
  "GetCPUID s index =
     (if index \<ge> NUM_CPUID_REGISTERS then Inl OutOfRange else arr_get (cpu_cpuid s) index)"

definition SetCPUIDForCheckpoint :: "nat \<Rightarrow> u64 \<Rightarrow> cpu_state \<Rightarrow> cpp_error + cpu_state" where
  "SetCPUIDForCheckpoint index value s =
     (if index \<ge> NUM_CPUID_REGISTERS then Inl OutOfRange
      else and_then (arr_set (cpu_cpuid s) index value) (\<lambda>c. Inr (s\<lparr>cpu_cpuid := c\<rparr>)))"

subsection \<open>Translation registers and TLBs\<close>

definition GetITR :: "cpu_state \<Rightarrow> nat \<Rightarrow> cpp_error + translation_entry" where
  "GetITR s index =
     (if index \<ge> NUM_TRANSLATION_REGISTERS then Inl OutOfRange else arr_get (cpu_itr s) index)"

definition GetDTR :: "cpu_state \<Rightarrow> nat \<Rightarrow> cpp_error + translation_entry" where
  "GetDTR s index =
     (if index \<ge> NUM_TRANSLATION_REGISTERS then Inl OutOfRange else arr_get (cpu_dtr s) index)"

definition GetITLB :: "cpu_state \<Rightarrow> nat \<Rightarrow> cpp_error + translation_entry" where
  "GetITLB s index =
     (if index \<ge> NUM_INSTRUCTION_TLB_ENTRIES then Inl OutOfRange else arr_get (cpu_itlb s) index)"

definition GetDTLB :: "cpu_state \<Rightarrow> nat \<Rightarrow> cpp_error + translation_entry" where
  "GetDTLB s index =
     (if index \<ge> NUM_DATA_TLB_ENTRIES then Inl OutOfRange else arr_get (cpu_dtlb s) index)"

definition SetITRStateForCheckpoint ::
  "nat \<Rightarrow> translation_entry \<Rightarrow> cpu_state \<Rightarrow> cpp_error + cpu_state" where
  "SetITRStateForCheckpoint index e s =
     (if index \<ge> NUM_TRANSLATION_REGISTERS then Inl OutOfRange
      else and_then (arr_set (cpu_itr s) index e) (\<lambda>xs. Inr (s\<lparr>cpu_itr := xs\<rparr>)))"

definition SetDTRStateForCheckpoint ::
  "nat \<Rightarrow> translation_entry \<Rightarrow> cpu_state \<Rightarrow> cpp_error + cpu_state" where
  "SetDTRStateForCheckpoint index e s =
     (if index \<ge> NUM_TRANSLATION_REGISTERS then Inl OutOfRange
      else and_then (arr_set (cpu_dtr s) index e) (\<lambda>xs. Inr (s\<lparr>cpu_dtr := xs\<rparr>)))"

definition SetITLBStateForCheckpoint ::
  "nat \<Rightarrow> translation_entry \<Rightarrow> cpu_state \<Rightarrow> cpp_error + cpu_state" where
  "SetITLBStateForCheckpoint index e s =
     (if index \<ge> NUM_INSTRUCTION_TLB_ENTRIES then Inl OutOfRange
      else and_then (arr_set (cpu_itlb s) index e) (\<lambda>xs. Inr (s\<lparr>cpu_itlb := xs\<rparr>)))"

definition SetDTLBStateForCheckpoint ::
  "nat \<Rightarrow> translation_entry \<Rightarrow> cpu_state \<Rightarrow> cpp_error + cpu_state" where
  "SetDTLBStateForCheckpoint index e s =
     (if index \<ge> NUM_DATA_TLB_ENTRIES then Inl OutOfRange
      else and_then (arr_set (cpu_dtlb s) index e) (\<lambda>xs. Inr (s\<lparr>cpu_dtlb := xs\<rparr>)))"

definition InsertITLB :: "u64 \<Rightarrow> u64 \<Rightarrow> u64 \<Rightarrow> u64 \<Rightarrow> cpu_state \<Rightarrow> cpp_error + cpu_state" where
  "InsertITLB tte va it rv s =
     and_then (insertTranslationEntry (cpu_itlb s) (cpu_itlbReplacementIndex s) tte va it rv)
       (\<lambda>(xs, ri). Inr (s\<lparr>cpu_itlb := xs, cpu_itlbReplacementIndex := ri\<rparr>))"

definition InsertDTLB :: "u64 \<Rightarrow> u64 \<Rightarrow> u64 \<Rightarrow> u64 \<Rightarrow> cpu_state \<Rightarrow> cpp_error + cpu_state" where
  "InsertDTLB tte va it rv s =
     and_then (insertTranslationEntry (cpu_dtlb s) (cpu_dtlbReplacementIndex s) tte va it rv)
       (\<lambda>(xs, ri). Inr (s\<lparr>cpu_dtlb := xs, cpu_dtlbReplacementIndex := ri\<rparr>))"

definition PurgeITLB :: "u64 \<Rightarrow> nat \<Rightarrow> u64 \<Rightarrow> cpu_state \<Rightarrow> cpu_state" where
  "PurgeITLB va pageShift rid s =
     s\<lparr>cpu_itlb := purgeTranslationEntries (cpu_itlb s) va pageShift rid\<rparr>"

definition PurgeDTLB :: "u64 \<Rightarrow> nat \<Rightarrow> u64 \<Rightarrow> cpu_state \<Rightarrow> cpu_state" where
  "PurgeDTLB va pageShift rid s =
     s\<lparr>cpu_dtlb := purgeTranslationEntries (cpu_dtlb s) va pageShift rid\<rparr>"

definition SetITLBReplacementIndexForCheckpoint :: "nat \<Rightarrow> cpu_state \<Rightarrow> cpu_state" where
  "SetITLBReplacementIndexForCheckpoint index s =
     s\<lparr>cpu_itlbReplacementIndex := index mod NUM_INSTRUCTION_TLB_ENTRIES\<rparr>"

definition SetDTLBReplacementIndexForCheckpoint :: "nat \<Rightarrow> cpu_state \<Rightarrow> cpu_state" where
  "SetDTLBReplacementIndexForCheckpoint index s =
     s\<lparr>cpu_dtlbReplacementIndex := index mod NUM_DATA_TLB_ENTRIES\<rparr>"

definition SetITR :: "nat \<Rightarrow> u64 \<Rightarrow> u64 \<Rightarrow> u64 \<Rightarrow> u64 \<Rightarrow> cpu_state \<Rightarrow> cpp_error + cpu_state" where
  "SetITR index pa va it rv s =
     (if index \<ge> NUM_TRANSLATION_REGISTERS then Inl OutOfRange
      else and_then (arr_set (cpu_itr s) index
             \<lparr>physicalAddress = pa, virtualAddress = va, itir = it, regionValue = rv, valid = True\<rparr>)
             (\<lambda>xs. Inr (s\<lparr>cpu_itr := xs\<rparr>)))"

definition SetDTR :: "nat \<Rightarrow> u64 \<Rightarrow> u64 \<Rightarrow> u64 \<Rightarrow> u64 \<Rightarrow> cpu_state \<Rightarrow> cpp_error + cpu_state" where
  "SetDTR index pa va it rv s =
     (if index \<ge> NUM_TRANSLATION_REGISTERS then Inl OutOfRange
      else and_then (arr_set (cpu_dtr s) index
             \<lparr>physicalAddress = pa, virtualAddress = va, itir = it, regionValue = rv, valid = True\<rparr>)
             (\<lambda>xs. Inr (s\<lparr>cpu_dtr := xs\<rparr>)))"

subsection \<open>Application registers and the register stack engine\<close>

definition GetAR :: "cpu_state \<Rightarrow> nat \<Rightarrow> cpp_error + u64" where
  "GetAR s index =
     (if index \<ge> NUM_APPLICATION_REGISTERS then Inl OutOfRange else arr_get (cpu_ar s) index)"

text \<open>The \<open>switch\<close> that mirrors the RSE registers into \<open>rse_\<close>.\<close>

definition mirror_ar :: "nat \<Rightarrow> u64 \<Rightarrow> rse_state \<Rightarrow> rse_state" where
  "mirror_ar index value r =
     (if index = 16 then r\<lparr>rse_rsc := value\<rparr>
      else if index = 17 then r\<lparr>rse_bsp := value\<rparr>
      else if index = 18 then r\<lparr>rse_bspstore := value\<rparr>
      else if index = 19 then r\<lparr>rse_rnat := value\<rparr>
      else if index = 64 then r\<lparr>rse_pfs := value, rse_cfm := value,
        rse_sof := ucast (get_bits 0 7 value),
        rse_sol := ucast (get_bits 7 7 value),
        rse_sor := ucast (get_bits 14 4 value)\<rparr>
      else r)"

definition SetAR :: "nat \<Rightarrow> u64 \<Rightarrow> cpu_state \<Rightarrow> cpp_error + cpu_state" where
  "SetAR index value s =
     (if index \<ge> NUM_APPLICATION_REGISTERS then Inl OutOfRange
      else and_then (arr_set (cpu_ar s) index value) (\<lambda>ar.
        Inr (s\<lparr>cpu_ar := ar, cpu_rse := mirror_ar index value (cpu_rse s)\<rparr>)))"

definition AdvanceITC :: "u64 \<Rightarrow> cpu_state \<Rightarrow> cpu_state" where
  "AdvanceITC ticks s = s\<lparr>cpu_ar := (cpu_ar s)[44 := cpu_ar s ! 44 + ticks]\<rparr>"

definition WriteBSPSTORE :: "u64 \<Rightarrow> cpu_state \<Rightarrow> cpp_error + cpu_state" where
  "WriteBSPSTORE value s =
     and_then (GetAR s 18) (\<lambda>bspstore.
     and_then (GetAR s 17) (\<lambda>bsp.
       let dirtyRegisters = rseRegistersBetween bspstore bsp;
           newBspstore = value AND NOT 7
       in and_then (SetAR 18 newBspstore s)
            (SetAR 17 (skipRseRegisters newBspstore (sint dirtyRegisters)))))"

definition AdvanceBSPForCall :: "cpu_state \<Rightarrow> cpp_error + cpu_state" where
  "AdvanceBSPForCall s =
     and_then (GetAR s 17) (\<lambda>bsp. SetAR 17 (skipRseRegisters bsp (int (GetSOL s))) s)"

definition RewindBSPForReturn :: "nat \<Rightarrow> cpu_state \<Rightarrow> cpp_error + cpu_state" where
  "RewindBSPForReturn callerSol s =
     and_then (GetAR s 17) (\<lambda>bsp.
       let returnedBsp = skipRseRegisters bsp (- int callerSol) in
       and_then (SetAR 17 returnedBsp s) (\<lambda>s'.
       and_then (GetAR s' 18) (\<lambda>bspstore.
         if bspstore > returnedBsp then SetAR 18 returnedBsp s' else Inr s')))"

subsection \<open>Modulo-scheduled loops\<close>

record modulo_loop_result =
  lcBefore :: u64
  lcAfter :: u64
  ecBefore :: u64
  ecAfter :: u64
  cfmBefore :: u64
  cfmAfter :: u64
  pr63Before :: bool
  pr63After :: bool
  prMaskBefore :: u64
  prMaskAfter :: u64
  branchTaken :: bool
  rotated :: bool

text \<open>The loop that collects the predicates into a mask, from register \<open>i\<close> on.\<close>

fun pr_mask_loop :: "cpu_state \<Rightarrow> nat list \<Rightarrow> u64 \<Rightarrow> cpp_error + u64" where
  "pr_mask_loop s [] m = Inr m"
| "pr_mask_loop s (i # is) m =
     and_then (GetPR s i) (\<lambda>p. pr_mask_loop s is (if p then m OR push_bit i 1 else m))"

definition pr_mask :: "cpu_state \<Rightarrow> cpp_error + u64" where
  "pr_mask s = pr_mask_loop s [0..<NUM_PREDICATE_REGISTERS] 0"

text \<open>The four-way branch on LC and EC: the new state, \<open>branchTaken\<close> and \<open>rotated\<close>.\<close>

definition modulo_loop_branch :: "bool \<Rightarrow> u64 \<Rightarrow> u64 \<Rightarrow> cpu_state \<Rightarrow> cpp_error + cpu_state \<times> bool \<times> bool" where
  "modulo_loop_branch exitSense lc ec s =
     (if lc \<noteq> 0 then
        and_then (SetAR 65 (lc - 1) s) (\<lambda>s1.
        and_then (SetPR 63 True s1) (\<lambda>s2. Inr (RotateRegisters s2, \<not> exitSense, True)))
      else if ec > 1 then
        and_then (SetAR 66 (ec - 1) s) (\<lambda>s1.
        and_then (SetPR 63 False s1) (\<lambda>s2. Inr (RotateRegisters s2, \<not> exitSense, True)))
      else if ec = 1 then
        and_then (SetAR 66 0 s) (\<lambda>s1.
        and_then (SetPR 63 False s1) (\<lambda>s2. Inr (RotateRegisters s2, exitSense, True)))
      else
        and_then (SetPR 63 False s) (\<lambda>s1. Inr (s1, exitSense, False)))"

definition ExecuteModuloLoopStage ::
  "bool \<Rightarrow> cpu_state \<Rightarrow> cpp_error + modulo_loop_result \<times> cpu_state" where
  "ExecuteModuloLoopStage exitSense s =
     and_then (GetAR s 65) (\<lambda>lc.
     and_then (GetAR s 66) (\<lambda>ec.
     and_then (GetPR s 63) (\<lambda>p63.
     and_then (pr_mask s) (\<lambda>mask0.
     and_then (modulo_loop_branch exitSense lc ec s) (\<lambda>(s', taken, rot).
     and_then (GetAR s' 65) (\<lambda>lc'.
     and_then (GetAR s' 66) (\<lambda>ec'.
     and_then (GetPR s' 63) (\<lambda>p63'.
     and_then (pr_mask s') (\<lambda>mask1.
       Inr (\<lparr>lcBefore = lc, lcAfter = lc', ecBefore = ec, ecAfter = ec',
              cfmBefore = cpu_cfm s, cfmAfter = cpu_cfm s', pr63Before = p63, pr63After = p63',
              prMaskBefore = mask0, prMaskAfter = mask1, branchTaken = taken, rotated = rot\<rparr>,
            s'))))))))))"

definition ExecuteBrCTop :: "cpu_state \<Rightarrow> cpp_error + modulo_loop_result \<times> cpu_state" where
  "ExecuteBrCTop = ExecuteModuloLoopStage False"

definition ExecuteBrCExit :: "cpu_state \<Rightarrow> cpp_error + modulo_loop_result \<times> cpu_state" where
  "ExecuteBrCExit = ExecuteModuloLoopStage True"

end
