(* ===== verification/Register_Bank.thy ===== *)
theory Register_Bank
  imports Prelude
begin

text \<open>
  The interface every register file of the processor offers its clients: a bank of \<open>n\<close>
  registers with a checked read and a checked write. \<open>writable\<close> separates the ordinary registers
  from the hardwired ones (GR0, FR0, FR1, PR0), whose writes are ignored. The locale states what
  the instruction emulation and the checkpoint code rely on; its lemmas (last write wins, writes
  to different registers do not interfere, restoring a saved bank brings every register back)
  are proved once and hold for each register file that interprets it.
\<close>

locale reg_bank =
  fixes n :: nat
    and writable :: "nat \<Rightarrow> bool"
    and vok :: "'v \<Rightarrow> bool"
    and invar :: "'s \<Rightarrow> bool"
    and get :: "'s \<Rightarrow> nat \<Rightarrow> cpp_error + 'v"
    and set :: "nat \<Rightarrow> 'v \<Rightarrow> 's \<Rightarrow> cpp_error + 's"
  assumes get_out: "n \<le> i \<Longrightarrow> get s i = Inl OutOfRange"
    and set_out: "n \<le> i \<Longrightarrow> set i v s = Inl OutOfRange"
    and get_in: "invar s \<Longrightarrow> i < n \<Longrightarrow> \<exists>v. get s i = Inr v \<and> vok v"
    and set_in: "invar s \<Longrightarrow> i < n \<Longrightarrow> vok v \<Longrightarrow> \<exists>s'. set i v s = Inr s' \<and> invar s'"
    and get_set: "invar s \<Longrightarrow> vok v \<Longrightarrow> set i v s = Inr s' \<Longrightarrow> j < n \<Longrightarrow>
      get s' j = (if j = i \<and> writable i then Inr v else get s j)"
begin

lemma set_lt: "set i v s = Inr s' \<Longrightarrow> i < n"
  using set_out [of i v s] by (cases "n \<le> i") auto

lemma set_invar: "invar s \<Longrightarrow> vok v \<Longrightarrow> set i v s = Inr s' \<Longrightarrow> invar s'"
  using set_in [of s i v] set_lt [of i v s s'] by auto

lemma get_set_same: "\<lbrakk>invar s; vok v; set i v s = Inr s'; writable i\<rbrakk> \<Longrightarrow> get s' i = Inr v"
  by (simp add: get_set set_lt)

lemma get_set_other: "\<lbrakk>invar s; vok v; set i v s = Inr s'; j \<noteq> i; j < n\<rbrakk> \<Longrightarrow> get s' j = get s j"
  by (simp add: get_set)

lemma set_ignored: "\<lbrakk>invar s; vok v; set i v s = Inr s'; \<not> writable i; j < n\<rbrakk> \<Longrightarrow> get s' j = get s j"
  by (simp add: get_set)

text \<open>An access is answered or throws \<open>OutOfRange\<close>: it never leaves the array.\<close>

lemma get_no_ub: "invar s \<Longrightarrow> get s i \<noteq> Inl UndefinedBehaviour"
  using get_in [of s i] get_out [of i s] by (cases "i < n") auto

lemma set_no_ub: "invar s \<Longrightarrow> vok v \<Longrightarrow> set i v s \<noteq> Inl UndefinedBehaviour"
  using set_in [of s i v] set_out [of i v s] by (cases "i < n") auto

text \<open>Writing a list of values to consecutive registers, as the checkpoint code does.\<close>

primrec write_from :: "nat \<Rightarrow> 'v list \<Rightarrow> 's \<Rightarrow> cpp_error + 's" where
  "write_from i [] s = Inr s"
| "write_from i (v # vs) s = and_then (set i v s) (write_from (Suc i) vs)"

lemma write_from_spec:
  assumes "invar s" and "\<forall>v \<in> List.set vs. vok v" and "i + length vs \<le> n"
  shows "\<exists>s'. write_from i vs s = Inr s' \<and> invar s' \<and>
     (\<forall>j < n. get s' j =
        (if i \<le> j \<and> j < i + length vs \<and> writable j then Inr (vs ! (j - i)) else get s j))"
  using assms
proof (induction vs arbitrary: i s)
  case Nil
  then show ?case by auto
next
  case (Cons v vs)
  then have i: "i < n" "vok v" by simp_all
  with Cons.prems(1) obtain s1 where s1: "set i v s = Inr s1" "invar s1"
    using set_in by blast
  have "\<forall>v \<in> List.set vs. vok v" and "Suc i + length vs \<le> n"
    using Cons.prems by simp_all
  from Cons.IH [OF s1(2) this] obtain s' where s':
    "write_from (Suc i) vs s1 = Inr s'" "invar s'"
    "\<forall>j < n. get s' j =
       (if Suc i \<le> j \<and> j < Suc i + length vs \<and> writable j then Inr (vs ! (j - Suc i)) else get s1 j)"
    by blast
  have "get s' j =
      (if i \<le> j \<and> j < i + length (v # vs) \<and> writable j then Inr ((v # vs) ! (j - i)) else get s j)"
    if j: "j < n" for j
  proof (cases "j = i")
    case True
    with s' j Cons.prems(1) i s1 show ?thesis by (simp add: get_set)
  next
    case False
    then have "\<not> Suc i \<le> j \<Longrightarrow> j < i" by simp
    moreover have "(v # vs) ! (j - i) = vs ! (j - Suc i)" if "i < j"
      using that by (simp add: nth_Cons' Suc_diff_Suc [symmetric] del: Suc_diff_Suc)
    ultimately show ?thesis
      using False s' j Cons.prems(1) i s1 by (auto simp: get_set Suc_le_eq)
  qed
  with s1 s' show ?case by simp
qed

lemma restore_bank:
  assumes "invar s" and "length vs = n" and "\<forall>v \<in> List.set vs. vok v"
  obtains s' where "write_from 0 vs s = Inr s'" and "invar s'"
    and "\<And>j. j < n \<Longrightarrow> writable j \<Longrightarrow> get s' j = Inr (vs ! j)"
    and "\<And>j. j < n \<Longrightarrow> \<not> writable j \<Longrightarrow> get s' j = get s j"
  using write_from_spec [of s vs 0] assms by auto

end

end
