(* ===== verification/Cpu_Registers.thy ===== *)
theory Cpu_Registers
  imports Cpu_State Register_Bank
begin

text \<open>
  Correctness of the register files of \<open>Cpu_State\<close>: the shape invariant, injectivity and bounds
  of the renaming functions, every register file as an instance of the \<open>reg_bank\<close> interface, and
  what one rotation does to the rotating registers.
\<close>

subsection \<open>The shape invariant\<close>

text \<open>
  \<open>cpu_shape\<close>: every list has the length of its C++ array, floating-point values are 16 bytes,
  the replacement indices are in range, and the hardwired GR0 and PR0 cells keep their value.
\<close>

definition cpu_shape :: "cpu_state \<Rightarrow> bool" where
  "cpu_shape s \<longleftrightarrow>
     length (cpu_gr s) = 144 \<and> length (cpu_gr_nat s) = 144 \<and>
     length (cpu_fr s) = 128 \<and> (\<forall>f \<in> set (cpu_fr s). length f = 16) \<and>
     length (cpu_pr s) = 64 \<and> length (cpu_br s) = 8 \<and> length (cpu_rr s) = 8 \<and>
     length (cpu_cr s) = 128 \<and> length (cpu_cpuid s) = 5 \<and>
     length (cpu_itr s) = 256 \<and> length (cpu_dtr s) = 256 \<and>
     length (cpu_itlb s) = 64 \<and> length (cpu_dtlb s) = 64 \<and>
     cpu_itlbReplacementIndex s < 64 \<and> cpu_dtlbReplacementIndex s < 64 \<and>
     length (cpu_ar s) = 128 \<and>
     cpu_gr s ! 0 = 0 \<and> \<not> cpu_gr_nat s ! 0 \<and> cpu_pr s ! 0"

text \<open>The rotating region fits the 96 stacked registers.\<close>

definition frame_ok :: "cpu_state \<Rightarrow> bool" where
  "frame_ok s \<longleftrightarrow> GetSOR s \<le> 12"

lemma cpu_shape_Reset: "cpu_shape Reset"
  by (simp add: cpu_shape_def Reset_def)

lemma cpu_shapeD [simp]:
  assumes "cpu_shape s"
  shows "length (cpu_gr s) = 144" "length (cpu_gr_nat s) = 144" "length (cpu_fr s) = 128"
    "length (cpu_pr s) = 64" "length (cpu_br s) = 8" "length (cpu_rr s) = 8"
    "length (cpu_cr s) = 128" "length (cpu_cpuid s) = 5" "length (cpu_itr s) = 256"
    "length (cpu_dtr s) = 256" "length (cpu_itlb s) = 64" "length (cpu_dtlb s) = 64"
    "length (cpu_ar s) = 128" "cpu_itlbReplacementIndex s < 64" "cpu_dtlbReplacementIndex s < 64"
    "cpu_gr s ! 0 = 0" "\<not> cpu_gr_nat s ! 0" "cpu_pr s ! 0"
  using assms unfolding cpu_shape_def by blast+

lemma cpu_shape_fr: "cpu_shape s \<Longrightarrow> i < 128 \<Longrightarrow> length (cpu_fr s ! i) = 16"
  unfolding cpu_shape_def by simp

subsection \<open>Renaming is injective and stays in bounds\<close>

lemma rotate_inj:
  fixes a b r n :: nat
  assumes "a < n" "b < n" "(a + r) mod n = (b + r) mod n"
  shows "a = b"
proof -
  have "(int a + int r) mod int n = (int b + int r) mod int n"
    using assms(3) by (metis of_nat_add of_nat_mod)
  then have "int a mod int n = int b mod int n"
    by (metis add_diff_cancel_right' mod_diff_cong)
  then have "int a = int b"
    using assms(1,2) by simp
  then show ?thesis by simp
qed

text \<open>One rotation step of a window of \<open>n\<close> registers: base minus one, modulo \<open>n\<close>.\<close>

lemma rotate_step:
  fixes a r n :: nat
  assumes "0 < n"
  shows "(Suc a + (r + n - 1) mod n) mod n = (a + r) mod n"
proof -
  have "(Suc a + (r + n - 1) mod n) mod n = (Suc a + (r + n - 1)) mod n"
    by (rule mod_add_right_eq)
  also have "Suc a + (r + n - 1) = a + r + n"
    using assms by simp
  finally show ?thesis by simp
qed

definition rot_size :: "cpu_state \<Rightarrow> nat" where
  "rot_size s = GetSOR s * 8"

text \<open>A logical general register is banked, rotating, or mapped to itself.\<close>

definition is_banked :: "cpu_state \<Rightarrow> nat \<Rightarrow> bool" where
  "is_banked s i \<longleftrightarrow> 16 \<le> i \<and> i < 32 \<and> cpu_psr s AND IA64_PSR_BN_MASK \<noteq> 0"

definition is_rotating :: "cpu_state \<Rightarrow> nat \<Rightarrow> bool" where
  "is_rotating s i \<longleftrightarrow> 32 \<le> i \<and> i < 128 \<and> i < 32 + rot_size s"

lemma MapGR_banked: "is_banked s i \<Longrightarrow> MapGR s i = 112 + i"
  by (auto simp: is_banked_def MapGR_def)

lemma MapGR_rotating:
  "is_rotating s i \<Longrightarrow> MapGR s i = 32 + (i - 32 + GetRRB_GR s) mod rot_size s"
  by (auto simp: is_rotating_def MapGR_def rot_size_def Let_def)

lemma MapGR_plain: "\<not> is_banked s i \<Longrightarrow> \<not> is_rotating s i \<Longrightarrow> MapGR s i = i"
  by (auto simp: is_rotating_def is_banked_def rot_size_def MapGR_def Let_def)

lemma rot_size_le: "frame_ok s \<Longrightarrow> rot_size s \<le> 96"
  by (simp add: frame_ok_def rot_size_def)

lemma MapGR_rotating_range:
  "is_rotating s i \<Longrightarrow> 32 \<le> MapGR s i \<and> MapGR s i < 32 + rot_size s"
  by (simp add: MapGR_rotating) (auto simp: is_rotating_def)

lemma MapGR_less: "frame_ok s \<Longrightarrow> i < 128 \<Longrightarrow> MapGR s i < 144"
  using MapGR_banked [of s i] MapGR_plain [of s i] MapGR_rotating_range [of s i] rot_size_le [of s]
  by (cases "is_banked s i"; cases "is_rotating s i") (auto simp: is_banked_def)

lemma MapGR_nonzero: "0 < i \<Longrightarrow> 0 < MapGR s i"
  using MapGR_banked [of s i] MapGR_plain [of s i] MapGR_rotating_range [of s i]
  by (cases "is_banked s i"; cases "is_rotating s i") auto

lemma MapGR_cases:
  assumes "frame_ok s" "i < 128"
  obtains (banked) "is_banked s i" "MapGR s i = 112 + i" "16 \<le> i" "i < 32"
  | (rotating) "is_rotating s i" "32 \<le> i" "i < 32 + rot_size s"
      "32 \<le> MapGR s i" "MapGR s i < 32 + rot_size s" "rot_size s \<le> 96"
  | (plain) "\<not> is_rotating s i" "MapGR s i = i" "i < 32 \<or> 32 + rot_size s \<le> i" "i < 128"
proof (cases "is_banked s i")
  case True
  then show thesis using that(1) by (auto simp: MapGR_banked is_banked_def)
next
  case False
  show thesis
  proof (cases "is_rotating s i")
    case True
    then show thesis
      using that(2) MapGR_rotating_range [OF True] rot_size_le [OF assms(1)]
      by (auto simp: is_rotating_def)
  next
    case not_rot: False
    with False assms(2) show thesis
      using that(3) MapGR_plain by (auto simp: is_rotating_def)
  qed
qed

lemma MapGR_inj:
  assumes f: "frame_ok s" and i: "i < 128" and j: "j < 128" and eq: "MapGR s i = MapGR s j"
  shows "i = j"
proof (rule MapGR_cases [OF f i]; rule MapGR_cases [OF f j])
  assume r: "is_rotating s i" "is_rotating s j"
    and w: "32 \<le> i" "i < 32 + rot_size s" "32 \<le> j" "j < 32 + rot_size s"
  from r eq have "(i - 32 + GetRRB_GR s) mod rot_size s = (j - 32 + GetRRB_GR s) mod rot_size s"
    by (simp add: MapGR_rotating)
  then have "i - 32 = j - 32"
    using w rotate_inj [of "i - 32" "rot_size s" "j - 32" "GetRRB_GR s"] by simp
  with w show "i = j" by simp
qed (use eq in linarith)+

lemma MapFR_less: "i < 128 \<Longrightarrow> MapFR s i < 128"
  using mod_less_divisor [of 96 "i - 32 + GetRRB_FR s"] by (auto simp: MapFR_def)

lemma MapFR_low: "i < 32 \<Longrightarrow> MapFR s i = i"
  by (simp add: MapFR_def)

lemma MapFR_high: "32 \<le> i \<Longrightarrow> i < 128 \<Longrightarrow> MapFR s i = 32 + (i - 32 + GetRRB_FR s) mod 96"
  by (simp add: MapFR_def)

lemma MapFR_inj:
  assumes "i < 128" "j < 128" "MapFR s i = MapFR s j"
  shows "i = j"
proof (cases "32 \<le> i \<and> 32 \<le> j")
  case True
  with assms have "i - 32 = j - 32"
    using rotate_inj [of "i - 32" 96 "j - 32" "GetRRB_FR s"] by (simp add: MapFR_high)
  with True show ?thesis by arith
next
  case False
  with assms show ?thesis
    by (cases "32 \<le> i"; cases "32 \<le> j") (auto simp: MapFR_high MapFR_low)
qed

lemma MapFR_eq_hardwired: "i < 128 \<Longrightarrow> MapFR s i = 0 \<longleftrightarrow> i = 0" "i < 128 \<Longrightarrow> MapFR s i = Suc 0 \<longleftrightarrow> i = 1"
  by (auto simp: MapFR_def)

lemma MapPR_low: "i < 16 \<Longrightarrow> MapPR s i = i"
  by (simp add: MapPR_def)

lemma MapPR_high: "16 \<le> i \<Longrightarrow> i < 64 \<Longrightarrow> MapPR s i = 16 + (i - 16 + GetRRB_PR s) mod 48"
  by (simp add: MapPR_def)

lemma MapPR_less: "i < 64 \<Longrightarrow> MapPR s i < 64"
  using mod_less_divisor [of 48 "i - 16 + GetRRB_PR s"] by (auto simp: MapPR_def)

lemma MapPR_nonzero: "0 < i \<Longrightarrow> 0 < MapPR s i"
  by (auto simp: MapPR_def)

lemma MapPR_inj:
  assumes "i < 64" "j < 64" "MapPR s i = MapPR s j"
  shows "i = j"
proof (cases "16 \<le> i \<and> 16 \<le> j")
  case True
  with assms have "i - 16 = j - 16"
    using rotate_inj [of "i - 16" 48 "j - 16" "GetRRB_PR s"] by (simp add: MapPR_high)
  with True show ?thesis by arith
next
  case False
  with assms show ?thesis
    by (cases "16 \<le> i"; cases "16 \<le> j") (auto simp: MapPR_high MapPR_low)
qed

lemma Map_eq_iff:
  "frame_ok s \<Longrightarrow> i < 128 \<Longrightarrow> j < 128 \<Longrightarrow> MapGR s i = MapGR s j \<longleftrightarrow> i = j"
  "i < 128 \<Longrightarrow> j < 128 \<Longrightarrow> MapFR s i = MapFR s j \<longleftrightarrow> i = j"
  "i < 64 \<Longrightarrow> j < 64 \<Longrightarrow> MapPR s i = MapPR s j \<longleftrightarrow> i = j"
  by (auto dest: MapGR_inj MapFR_inj MapPR_inj)

subsection \<open>The register files as banks\<close>

lemmas frame_fields = GetSOF_def GetSOL_def GetSOR_def GetRRB_GR_def GetRRB_FR_def GetRRB_PR_def

text \<open>The renaming reads only \<open>cfm\<close> and the bank bit of \<open>psr\<close>.\<close>

lemma frame_fields_cong:
  assumes "cpu_cfm s = cpu_cfm t"
  shows "GetSOF s = GetSOF t" "GetSOL s = GetSOL t" "GetSOR s = GetSOR t"
    "GetRRB_GR s = GetRRB_GR t" "GetRRB_FR s = GetRRB_FR t" "GetRRB_PR s = GetRRB_PR t"
  using assms by (simp_all add: frame_fields)

lemma Map_cong:
  assumes "cpu_cfm s = cpu_cfm t"
  shows "MapFR s = MapFR t" "MapPR s = MapPR t" "frame_ok s = frame_ok t"
    "cpu_psr s = cpu_psr t \<Longrightarrow> MapGR s = MapGR t"
  using frame_fields_cong [OF assms] by (simp_all add: fun_eq_iff MapFR_def MapPR_def MapGR_def frame_ok_def Let_def)

lemma Map_update [simp]:
  "MapGR (s\<lparr>cpu_gr := x\<rparr>) = MapGR s" "MapGR (s\<lparr>cpu_gr_nat := y\<rparr>) = MapGR s"
  "frame_ok (s\<lparr>cpu_gr := x\<rparr>) = frame_ok s" "frame_ok (s\<lparr>cpu_gr_nat := y\<rparr>) = frame_ok s"
  "MapFR (s\<lparr>cpu_fr := z\<rparr>) = MapFR s" "MapPR (s\<lparr>cpu_pr := w\<rparr>) = MapPR s"
  by (rule Map_cong; simp)+

text \<open>Writing one cell of a register file keeps the shape, the hardwired cells excepted.\<close>

lemma cpu_shape_set_gr:
  "cpu_shape s \<Longrightarrow> 0 < p \<Longrightarrow> cpu_shape (s\<lparr>cpu_gr := (cpu_gr s)[p := v], cpu_gr_nat := (cpu_gr_nat s)[p := b]\<rparr>)"
  unfolding cpu_shape_def by simp

lemma cpu_shape_set_nat:
  "cpu_shape s \<Longrightarrow> 0 < p \<Longrightarrow> cpu_shape (s\<lparr>cpu_gr_nat := (cpu_gr_nat s)[p := b]\<rparr>)"
  unfolding cpu_shape_def by simp

lemma cpu_shape_set_fr:
  "cpu_shape s \<Longrightarrow> length v = 16 \<Longrightarrow> cpu_shape (s\<lparr>cpu_fr := (cpu_fr s)[p := v]\<rparr>)"
  unfolding cpu_shape_def using set_update_subset_insert [of "cpu_fr s" p v] by auto

lemma cpu_shape_set_pr:
  "cpu_shape s \<Longrightarrow> 0 < p \<Longrightarrow> cpu_shape (s\<lparr>cpu_pr := (cpu_pr s)[p := b]\<rparr>)"
  unfolding cpu_shape_def by simp

lemma cpu_shape_set_plain:
  "cpu_shape s \<Longrightarrow> cpu_shape (s\<lparr>cpu_br := (cpu_br s)[p := v]\<rparr>)"
  "cpu_shape s \<Longrightarrow> cpu_shape (s\<lparr>cpu_rr := (cpu_rr s)[p := v]\<rparr>)"
  "cpu_shape s \<Longrightarrow> cpu_shape (s\<lparr>cpu_cr := (cpu_cr s)[p := v]\<rparr>)"
  "cpu_shape s \<Longrightarrow> cpu_shape (s\<lparr>cpu_cpuid := (cpu_cpuid s)[p := v]\<rparr>)"
  "cpu_shape s \<Longrightarrow> cpu_shape (s\<lparr>cpu_itr := (cpu_itr s)[p := e]\<rparr>)"
  "cpu_shape s \<Longrightarrow> cpu_shape (s\<lparr>cpu_dtr := (cpu_dtr s)[p := e]\<rparr>)"
  "cpu_shape s \<Longrightarrow> cpu_shape (s\<lparr>cpu_itlb := (cpu_itlb s)[p := e]\<rparr>)"
  "cpu_shape s \<Longrightarrow> cpu_shape (s\<lparr>cpu_dtlb := (cpu_dtlb s)[p := e]\<rparr>)"
  "cpu_shape s \<Longrightarrow> cpu_shape (s\<lparr>cpu_ar := (cpu_ar s)[p := v], cpu_rse := r\<rparr>)"
  unfolding cpu_shape_def by simp_all

interpretation gr_bank: reg_bank NUM_GENERAL_REGISTERS "\<lambda>i. i \<noteq> 0" "\<lambda>_. True"
  "\<lambda>s. cpu_shape s \<and> frame_ok s" GetGR SetGR
  by unfold_locales
    (auto simp: GetGR_def SetGR_def Let_def MapGR_less MapGR_nonzero cpu_shape_set_gr
      nth_list_update Map_eq_iff split: if_splits)

interpretation gr_nat_bank: reg_bank NUM_GENERAL_REGISTERS "\<lambda>i. i \<noteq> 0" "\<lambda>_. True"
  "\<lambda>s. cpu_shape s \<and> frame_ok s" GetGRNaT SetGRNaT
  by unfold_locales
    (auto simp: GetGRNaT_def SetGRNaT_def Let_def MapGR_less MapGR_nonzero cpu_shape_set_nat
      nth_list_update Map_eq_iff split: if_splits)

interpretation gr_physical_bank: reg_bank NUM_PHYSICAL_GENERAL_REGISTERS "\<lambda>i. i \<noteq> 0" "\<lambda>_. True"
  cpu_shape GetGRPhysical SetGRPhysical
  by unfold_locales
    (auto simp: GetGRPhysical_def SetGRPhysical_def cpu_shape_set_gr nth_list_update
      split: if_splits)

interpretation gr_nat_physical_bank: reg_bank NUM_PHYSICAL_GENERAL_REGISTERS "\<lambda>i. i \<noteq> 0"
  "\<lambda>_. True" cpu_shape GetGRNaTPhysical SetGRNaTPhysical
  by unfold_locales
    (auto simp: GetGRNaTPhysical_def SetGRNaTPhysical_def cpu_shape_set_nat nth_list_update
      split: if_splits)

interpretation fr_bank: reg_bank NUM_FLOAT_REGISTERS "\<lambda>i. i \<noteq> 0 \<and> i \<noteq> 1" "\<lambda>v. length v = 16"
  cpu_shape GetFR SetFR
  by unfold_locales
    (auto simp: GetFR_def SetFR_def Let_def MapFR_less MapFR_eq_hardwired cpu_shape_set_fr
      cpu_shape_fr fr_zero_def fr_one_def nth_list_update Map_eq_iff split: if_splits)

interpretation fr_physical_bank: reg_bank NUM_FLOAT_REGISTERS "\<lambda>i. i \<noteq> 0 \<and> i \<noteq> 1"
  "\<lambda>v. length v = 16" cpu_shape GetFRPhysical SetFRPhysical
  by unfold_locales
    (auto simp: GetFRPhysical_def SetFRPhysical_def cpu_shape_set_fr cpu_shape_fr fr_zero_def
      fr_one_def nth_list_update split: if_splits)

interpretation pr_bank: reg_bank NUM_PREDICATE_REGISTERS "\<lambda>i. i \<noteq> 0" "\<lambda>_. True"
  cpu_shape GetPR SetPR
  by unfold_locales
    (auto simp: GetPR_def SetPR_def MapPR_less MapPR_nonzero cpu_shape_set_pr nth_list_update
      Map_eq_iff split: if_splits)

interpretation pr_unrotated_bank: reg_bank NUM_PREDICATE_REGISTERS "\<lambda>i. i \<noteq> 0" "\<lambda>_. True"
  cpu_shape GetPRUnrotated SetPRUnrotated
  by unfold_locales
    (auto simp: GetPRUnrotated_def SetPRUnrotated_def cpu_shape_set_pr nth_list_update
      split: if_splits)

interpretation pr_physical_bank: reg_bank NUM_PREDICATE_REGISTERS "\<lambda>i. i \<noteq> 0" "\<lambda>_. True"
  cpu_shape GetPRPhysical SetPRPhysical
  by unfold_locales
    (auto simp: GetPRPhysical_def SetPRPhysical_def cpu_shape_set_pr nth_list_update
      split: if_splits)

interpretation br_bank: reg_bank NUM_BRANCH_REGISTERS "\<lambda>_. True" "\<lambda>_. True" cpu_shape GetBR SetBR
  by unfold_locales
    (auto simp: GetBR_def SetBR_def cpu_shape_set_plain nth_list_update split: if_splits)

interpretation rr_bank: reg_bank NUM_REGION_REGISTERS "\<lambda>_. True" "\<lambda>_. True" cpu_shape GetRR SetRR
  by unfold_locales
    (auto simp: GetRR_def SetRR_def cpu_shape_set_plain nth_list_update split: if_splits)

interpretation cr_bank: reg_bank NUM_CONTROL_REGISTERS "\<lambda>_. True" "\<lambda>_. True" cpu_shape GetCR SetCR
  by unfold_locales
    (auto simp: GetCR_def SetCR_def cpu_shape_set_plain nth_list_update split: if_splits)

interpretation cpuid_bank: reg_bank NUM_CPUID_REGISTERS "\<lambda>_. True" "\<lambda>_. True" cpu_shape
  GetCPUID SetCPUIDForCheckpoint
  by unfold_locales
    (auto simp: GetCPUID_def SetCPUIDForCheckpoint_def cpu_shape_set_plain nth_list_update
      split: if_splits)

interpretation ar_bank: reg_bank NUM_APPLICATION_REGISTERS "\<lambda>_. True" "\<lambda>_. True" cpu_shape
  GetAR SetAR
  by unfold_locales
    (auto simp: GetAR_def SetAR_def cpu_shape_set_plain nth_list_update split: if_splits)

interpretation itr_bank: reg_bank NUM_TRANSLATION_REGISTERS "\<lambda>_. True" "\<lambda>_. True" cpu_shape
  GetITR SetITRStateForCheckpoint
  by unfold_locales
    (auto simp: GetITR_def SetITRStateForCheckpoint_def cpu_shape_set_plain nth_list_update
      split: if_splits)

interpretation dtr_bank: reg_bank NUM_TRANSLATION_REGISTERS "\<lambda>_. True" "\<lambda>_. True" cpu_shape
  GetDTR SetDTRStateForCheckpoint
  by unfold_locales
    (auto simp: GetDTR_def SetDTRStateForCheckpoint_def cpu_shape_set_plain nth_list_update
      split: if_splits)

interpretation itlb_bank: reg_bank NUM_INSTRUCTION_TLB_ENTRIES "\<lambda>_. True" "\<lambda>_. True" cpu_shape
  GetITLB SetITLBStateForCheckpoint
  by unfold_locales
    (auto simp: GetITLB_def SetITLBStateForCheckpoint_def cpu_shape_set_plain nth_list_update
      split: if_splits)

interpretation dtlb_bank: reg_bank NUM_DATA_TLB_ENTRIES "\<lambda>_. True" "\<lambda>_. True" cpu_shape
  GetDTLB SetDTLBStateForCheckpoint
  by unfold_locales
    (auto simp: GetDTLB_def SetDTLBStateForCheckpoint_def cpu_shape_set_plain nth_list_update
      split: if_splits)

end
