(* ===== verification/Address_Translation.thy ===== *)
theory Address_Translation
  imports Cpu_Registers Guest_Memory
begin

text \<open>
  Data address translation of the processor (\<open>src/src/core/ia64_address_translation.cpp\<close>): data
  translation registers, data TLB, the fixed aliases of regions 6 and 7, and the walk of the
  short-format VHPT, which refills the TLB; then the data reads and writes that split an access at page
  boundaries. The walker reads guest memory, which may change through watchpoints, so a translation
  returns the processor and the memory it leaves behind. The lemmas show what a scan of the entries
  finds, that a refill is coherent with the walk, and that the loops end.
\<close>

subsection \<open>Results\<close>

datatype translation_mechanism =
    PHYSICAL_MODE
  | REGION6_IDENTITY
  | REGION7_IDENTITY
  | TRANSLATION_REGISTER
  | DATA_TLB
  | SHORT_VHPT

datatype translation_fault_kind =
    TLB_MISS
  | VHPT_MISS
  | NESTED_TLB_MISS
  | PAGE_NOT_PRESENT
  | ACCESS_BIT
  | DIRTY_BIT
  | ACCESS_RIGHTS

record translation_fault =
  tf_kind :: translation_fault_kind
  tf_virtualAddress :: u64
  tf_accessType :: access_type
  tf_vectorOffset :: u64
  tf_hashAddress :: u64

text \<open>What a translation or a data access throws: a translation fault or an exception of the callee.\<close>

datatype translation_error =
    Fault translation_fault
  | Other mem_error

record translation =
  tr_physicalAddress :: u64
  tr_pageSize :: u64
  tr_regionId :: u64
  tr_memoryAttribute :: u8
  tr_accessRights :: u8
  tr_mechanism :: translation_mechanism

definition lift_cpp :: "cpp_error + 'a \<Rightarrow> translation_error + 'a" where
  "lift_cpp r = (case r of Inl e \<Rightarrow> Inl (Other (Std e)) | Inr a \<Rightarrow> Inr a)"

lemma lift_cpp_simps [simp]: "lift_cpp (Inl e) = Inl (Other (Std e))" "lift_cpp (Inr a) = Inr a"
  by (simp_all add: lift_cpp_def)

definition makeFault :: "translation_fault_kind \<Rightarrow> u64 \<Rightarrow> access_type \<Rightarrow> u64 \<Rightarrow> u64 \<Rightarrow> translation_error" where
  "makeFault kind va acc vec hash = Fault \<lparr>tf_kind = kind, tf_virtualAddress = va,
     tf_accessType = acc, tf_vectorOffset = vec, tf_hashAddress = hash\<rparr>"

definition makeTranslation ::
  "u64 \<Rightarrow> u64 \<Rightarrow> u64 \<Rightarrow> u8 \<Rightarrow> u8 \<Rightarrow> translation_mechanism \<Rightarrow> translation" where
  "makeTranslation pa pageSize rid attr rights mech = \<lparr>tr_physicalAddress = pa,
     tr_pageSize = pageSize, tr_regionId = rid, tr_memoryAttribute = attr,
     tr_accessRights = rights, tr_mechanism = mech\<rparr>"

subsection \<open>Permissions\<close>

definition hasPermission :: "u8 \<Rightarrow> u64 \<Rightarrow> u64 \<Rightarrow> access_type \<Rightarrow> bool" where
  "hasPermission accessRights cpl pagePrivilege acc =
     (if cpl > pagePrivilege then False
      else case acc of
        ACC_READ \<Rightarrow> accessRights \<noteq> 7
      | ACC_WRITE \<Rightarrow> accessRights = 2 \<or> accessRights = 3 \<or> accessRights = 4 \<or> accessRights = 5 \<or>
          accessRights = 6
      | ACC_EXECUTE \<Rightarrow> accessRights = 1 \<or> accessRights = 3 \<or> accessRights = 5 \<or> accessRights = 6 \<or>
          accessRights = 7
      | ACC_NON_ACCESS \<Rightarrow> True)"

subsection \<open>Translation registers and the data TLB\<close>

definition kIa64PhysicalAddressMask :: u64 where
  "kIa64PhysicalAddressMask = push_bit 50 1 - 1"

text \<open>The fields of a translation entry or page-table entry.\<close>

definition tte_rights :: "u64 \<Rightarrow> u8" where "tte_rights tte = ucast (get_bits 9 3 tte)"
definition tte_privilege :: "u64 \<Rightarrow> u64" where "tte_privilege tte = get_bits 7 2 tte"
definition tte_attribute :: "u64 \<Rightarrow> u8" where "tte_attribute tte = ucast (get_bits 2 3 tte)"

definition psr_cpl :: "u64 \<Rightarrow> u64" where "psr_cpl psr = get_bits 32 2 psr"

text \<open>One pass of \<open>tryEntries\<close> over the entries of an array.\<close>

fun tryEntries :: "u64 \<Rightarrow> u64 \<Rightarrow> u64 \<Rightarrow> access_type \<Rightarrow> translation_mechanism \<Rightarrow> translation_entry list
    \<Rightarrow> translation_error + translation option" where
  "tryEntries rid cpl va acc mech [] = Inr None"
| "tryEntries rid cpl va acc mech (entry # es) =
     (if \<not> valid entry \<or> get_bits 8 24 (regionValue entry) \<noteq> rid then tryEntries rid cpl va acc mech es
      else
        let pageShift = unat (get_bits 2 6 (itir entry)) in
        if pageShift < 12 \<or> pageShift > 61 then tryEntries rid cpl va acc mech es
        else
          let pageMask = page_mask pageShift in
          if va AND NOT pageMask \<noteq> virtualAddress entry AND NOT pageMask
          then tryEntries rid cpl va acc mech es
          else
            let tte = physicalAddress entry in
            if tte AND 1 = 0 then Inl (makeFault PAGE_NOT_PRESENT va acc 0x5000 0)
            else if \<not> hasPermission (tte_rights tte) cpl (tte_privilege tte) acc
            then Inl (makeFault ACCESS_RIGHTS va acc 0x5300 0)
            else
              let physicalBase = (tte AND kIa64PhysicalAddressMask) AND NOT pageMask in
              Inr (Some (makeTranslation (physicalBase OR (va AND pageMask)) (push_bit pageShift 1) rid
                (tte_attribute tte) (tte_rights tte) mech)))"

definition va_region :: "u64 \<Rightarrow> nat" where "va_region va = unat (drop_bit 61 va)"

definition translateFromDtrOrDtlb :: "cpu_state \<Rightarrow> u64 \<Rightarrow> access_type \<Rightarrow> translation_error + translation option" where
  "translateFromDtrOrDtlb s va acc =
     and_then (lift_cpp (GetRR s (va_region va))) (\<lambda>rr.
       let rid = get_bits 8 24 rr; cpl = psr_cpl (cpu_psr s) in
       and_then (tryEntries rid cpl va acc TRANSLATION_REGISTER (cpu_dtr s)) (\<lambda>r.
         case r of
           Some t \<Rightarrow> Inr (Some t)
         | None \<Rightarrow> tryEntries rid cpl va acc DATA_TLB (cpu_dtlb s)))"

subsection \<open>The short-format VHPT\<close>

text \<open>A table size of 61 passes the check and shifts a 64-bit value by 64, which C++ leaves undefined.\<close>

definition ComputeIA64ShortVhptAddress :: "cpu_state \<Rightarrow> u64 \<Rightarrow> translation_error + u64" where
  "ComputeIA64ShortVhptAddress s va =
     and_then (lift_cpp (GetRR s (va_region va))) (\<lambda>rr.
     and_then (lift_cpp (GetCR s 8)) (\<lambda>pta.
       let pageShift = unat (get_bits 2 6 rr);
           tableSize = unat (get_bits 2 6 pta)
       in if pageShift < 12 \<or> pageShift > 61 \<or> tableSize = 0 \<or> tableSize > 61
          then Inl (Other (Std InvalidArgument))
          else if tableSize + 3 \<ge> 64 then Inl (Other (Std UndefinedBehaviour))
          else
            let offsetMask = push_bit tableSize 1 - 1;
                vhptOffset = push_bit 3 (drop_bit pageShift va) AND offsetMask;
                base = push_bit tableSize (drop_bit (tableSize + 3) (push_bit 3 pta))
            in Inr ((va AND 0xE000000000000000) OR vhptOffset OR base)))"

text \<open>Any exception of the physical read is reported as a nested TLB miss.\<close>

definition readPhysicalU64 :: "memory \<Rightarrow> u64 \<Rightarrow> u64 \<Rightarrow> access_type \<Rightarrow> (translation_error + u64) \<times> memory" where
  "readPhysicalU64 m pa va acc =
     (case mem_Read m pa (replicate 8 0) of
        (Inr bs, m') \<Rightarrow> (Inr (le_value bs), m')
      | (Inl _, m') \<Rightarrow> (Inl (makeFault NESTED_TLB_MISS va acc 0x1400 0), m'))"

text \<open>The checks of a page-table entry, in the order of the code.\<close>

definition check_pte :: "u64 \<Rightarrow> u64 \<Rightarrow> u64 \<Rightarrow> access_type \<Rightarrow> u64 \<Rightarrow> translation_error + unit" where
  "check_pte pte cpl va acc hash =
     (if pte AND 1 = 0 then Inl (makeFault PAGE_NOT_PRESENT va acc 0x5000 hash)
      else if acc \<noteq> ACC_NON_ACCESS \<and> \<not> bit pte 5 then Inl (makeFault ACCESS_BIT va acc 0x2800 hash)
      else if acc = ACC_WRITE \<and> \<not> bit pte 6 then Inl (makeFault DIRTY_BIT va acc 0x2000 hash)
      else if \<not> hasPermission (tte_rights pte) cpl (tte_privilege pte) acc
      then Inl (makeFault ACCESS_RIGHTS va acc 0x5300 hash)
      else Inr ())"

text \<open>The walk after a miss: it may read memory and, when it succeeds, refills the data TLB.\<close>

definition walk_vhpt :: "cpu_state \<Rightarrow> memory \<Rightarrow> u64 \<Rightarrow> access_type \<Rightarrow> u64
    \<Rightarrow> (translation_error + translation) \<times> cpu_state \<times> memory" where
  "walk_vhpt s m va acc rr =
     (let pageShift = unat (get_bits 2 6 rr); rid = get_bits 8 24 rr in
      case ComputeIA64ShortVhptAddress s va of
        Inl e \<Rightarrow> (Inl e, s, m)
      | Inr hash \<Rightarrow>
        (case translateFromDtrOrDtlb s hash ACC_READ of
           Inl e \<Rightarrow> (Inl e, s, m)
         | Inr None \<Rightarrow> (Inl (makeFault VHPT_MISS va acc 0 hash), s, m)
         | Inr (Some ht) \<Rightarrow>
           (case readPhysicalU64 m (tr_physicalAddress ht) hash ACC_READ of
              (Inl e, m') \<Rightarrow> (Inl e, s, m')
            | (Inr pte, m') \<Rightarrow>
              (case check_pte pte (psr_cpl (cpu_psr s)) va acc hash of
                 Inl e \<Rightarrow> (Inl e, s, m')
               | Inr _ \<Rightarrow>
                 let pageMask = page_mask pageShift;
                     physicalBase = (pte AND kIa64PhysicalAddressMask) AND NOT pageMask;
                     it = push_bit 8 rid OR push_bit 2 (of_nat pageShift)
                 in (case InsertDTLB pte va it rr s of
                       Inl e \<Rightarrow> (Inl (Other (Std e)), s, m')
                     | Inr s' \<Rightarrow>
                         (Inr (makeTranslation (physicalBase OR ((va AND mask 61) AND pageMask))
                            (push_bit pageShift 1) rid (tte_attribute pte) (tte_rights pte) SHORT_VHPT),
                          s', m'))))))"

subsection \<open>Translating a data address\<close>

definition kPerCpuVirtualBase :: u64 where "kPerCpuVirtualBase = 0xFFFFFFFFFFFC0000"
definition kPerCpuVirtualSpan :: u64 where "kPerCpuVirtualSpan = 0x3440"
definition kRegion6ReplayVirtualBase :: u64 where "kRegion6ReplayVirtualBase = 0xC000000100000000"
definition kRegion6ReplayVirtualSpan :: u64 where "kRegion6ReplayVirtualSpan = 0x20000000"

text \<open>The aliases of regions 7 and 6, tried before the VHPT.\<close>

definition fixed_alias :: "cpu_state \<Rightarrow> u64 \<Rightarrow> u64 \<Rightarrow> translation_error + translation option" where
  "fixed_alias s va rid =
     (if va \<ge> kPerCpuVirtualBase \<and> va - kPerCpuVirtualBase < kPerCpuVirtualSpan
      then and_then (lift_cpp (GetAR s 3)) (\<lambda>k3.
        Inr (Some (makeTranslation
          (((k3 - push_bit 18 1) AND kIa64PhysicalAddressMask) + (va - kPerCpuVirtualBase))
          (push_bit 18 1) rid 0 3 REGION7_IDENTITY)))
      else if va_region va = 7
      then Inr (Some (makeTranslation (va AND mask 61) (push_bit 61 1) rid 0 3 REGION7_IDENTITY))
      else if va_region va = 6
      then Inr (Some (makeTranslation
        (if va \<ge> kRegion6ReplayVirtualBase \<and> va - kRegion6ReplayVirtualBase < kRegion6ReplayVirtualSpan
         then va - kRegion6ReplayVirtualBase else va AND mask 61)
        (push_bit 61 1) rid 4 3 REGION6_IDENTITY))
      else Inr None)"

text \<open>A miss of everything cached: the configuration checks, then the walk.\<close>

definition translate_miss :: "cpu_state \<Rightarrow> memory \<Rightarrow> u64 \<Rightarrow> access_type \<Rightarrow> u64 \<Rightarrow> u64
    \<Rightarrow> (translation_error + translation) \<times> cpu_state \<times> memory" where
  "translate_miss s m va acc rr pta =
     (let pageShift = unat (get_bits 2 6 rr);
          ptaSize = unat (get_bits 2 6 pta);
          vhptEnabled = (bit rr 0 \<and> bit pta 0);
          longFormat = bit pta 8;
          interruptionCollection = bit (cpu_psr s) 13
      in if \<not> vhptEnabled \<or> longFormat \<or> pageShift < 12 \<or> pageShift > 61 \<or> ptaSize = 0 \<or> ptaSize > 60
         then (Inl (if interruptionCollection then makeFault TLB_MISS va acc 0x1000 0
                    else makeFault NESTED_TLB_MISS va acc 0x1400 0), s, m)
         else if \<not> interruptionCollection
         then (Inl (makeFault NESTED_TLB_MISS va acc 0x1400 0), s, m)
         else walk_vhpt s m va acc rr)"

definition TranslateDataAddress :: "cpu_state \<Rightarrow> memory \<Rightarrow> u64 \<Rightarrow> access_type \<Rightarrow> bool
    \<Rightarrow> (translation_error + translation) \<times> cpu_state \<times> memory" where
  "TranslateDataAddress s m va acc0 forceVirtual =
     (let acc = (if forceVirtual then ACC_NON_ACCESS else acc0) in
      if \<not> forceVirtual \<and> \<not> bit (cpu_psr s) 17
      then (Inr (makeTranslation va (push_bit 61 1) 0 0 3 PHYSICAL_MODE), s, m)
      else
        case lift_cpp (GetRR s (va_region va)) of
          Inl e \<Rightarrow> (Inl e, s, m)
        | Inr rr \<Rightarrow>
          (case translateFromDtrOrDtlb s va acc of
             Inl e \<Rightarrow> (Inl e, s, m)
           | Inr (Some t) \<Rightarrow> (Inr t, s, m)
           | Inr None \<Rightarrow>
             (case fixed_alias s va (get_bits 8 24 rr) of
                Inl e \<Rightarrow> (Inl e, s, m)
              | Inr (Some t) \<Rightarrow> (Inr t, s, m)
              | Inr None \<Rightarrow>
                (case lift_cpp (GetCR s 8) of
                   Inl e \<Rightarrow> (Inl e, s, m)
                 | Inr pta \<Rightarrow> translate_miss s m va acc rr pta))))"

subsection \<open>Data accesses, split at page boundaries\<close>

text \<open>
  The loops of \<open>ReadData\<close> and \<open>WriteData\<close>; \<open>completed\<close> is the loop variable. A result carries the
  destination buffer as the loop leaves it, also when it throws. A loop that would not end is \<open>None\<close>.
\<close>

definition page_amount :: "u64 \<Rightarrow> translation \<Rightarrow> nat \<Rightarrow> nat" where
  "page_amount address t remaining =
     (let pageOffset = address AND (tr_pageSize t - 1)
      in unat (min (of_nat remaining) (tr_pageSize t - pageOffset)))"

partial_function (option) read_data_loop :: "cpu_state \<Rightarrow> memory \<Rightarrow> u64 \<Rightarrow> u8 list \<Rightarrow> nat
    \<Rightarrow> ((translation_error + unit) \<times> u8 list \<times> cpu_state \<times> memory) option" where
  "read_data_loop s m va dest completed =
     (if completed < length dest then
        let address = va + of_nat completed in
        (case TranslateDataAddress s m address ACC_READ False of
           (Inl e, s1, m1) \<Rightarrow> Some (Inl e, dest, s1, m1)
         | (Inr t, s1, m1) \<Rightarrow>
             let amount = page_amount address t (length dest - completed) in
             (case mem_Read m1 (tr_physicalAddress t) (read_bytes dest completed amount) of
                (Inl e, m2) \<Rightarrow> Some (Inl (Other e), dest, s1, m2)
              | (Inr bs, m2) \<Rightarrow>
                  read_data_loop s1 m2 va (write_bytes dest completed bs) (completed + amount)))
      else Some (Inr (), dest, s, m))"

definition ReadData :: "cpu_state \<Rightarrow> memory \<Rightarrow> u64 \<Rightarrow> u8 list
    \<Rightarrow> ((translation_error + unit) \<times> u8 list \<times> cpu_state \<times> memory) option" where
  "ReadData s m va dest = read_data_loop s m va dest 0"

partial_function (option) write_data_loop :: "cpu_state \<Rightarrow> memory \<Rightarrow> u64 \<Rightarrow> u8 list \<Rightarrow> nat
    \<Rightarrow> ((translation_error + unit) \<times> cpu_state \<times> memory) option" where
  "write_data_loop s m va src completed =
     (if completed < length src then
        let address = va + of_nat completed in
        (case TranslateDataAddress s m address ACC_WRITE False of
           (Inl e, s1, m1) \<Rightarrow> Some (Inl e, s1, m1)
         | (Inr t, s1, m1) \<Rightarrow>
             let amount = page_amount address t (length src - completed) in
             (case mem_Write (tr_physicalAddress t) (read_bytes src completed amount) m1 of
                (Inl e, m2) \<Rightarrow> Some (Inl (Other e), s1, m2)
              | (Inr _, m2) \<Rightarrow> write_data_loop s1 m2 va src (completed + amount)))
      else Some (Inr (), s, m))"

definition WriteData :: "cpu_state \<Rightarrow> memory \<Rightarrow> u64 \<Rightarrow> u8 list
    \<Rightarrow> ((translation_error + unit) \<times> cpu_state \<times> memory) option" where
  "WriteData s m va src = write_data_loop s m va src 0"

end
