(* ===== verification/Address_Translation_Props.thy ===== *)
theory Address_Translation_Props
  imports Address_Translation
begin

text \<open>
  Correctness of data address translation: a scan of the entries is a search for a covering one, the
  page-table walk refills the TLB coherently, where the dirty bit is missed, and that accesses split at
  page boundaries always return.
\<close>

subsection \<open>What a scan of the entries finds\<close>

text \<open>The checks and the address of the entry a scan stops at.\<close>

definition use_entry :: "u64 \<Rightarrow> u64 \<Rightarrow> u64 \<Rightarrow> access_type \<Rightarrow> translation_mechanism \<Rightarrow> translation_entry
    \<Rightarrow> translation_error + translation" where
  "use_entry rid cpl va acc mech e =
     (let tte = physicalAddress e; pageMask = page_mask (itir_page_shift (itir e)) in
      if tte AND 1 = 0 then Inl (makeFault PAGE_NOT_PRESENT va acc 0x5000 0)
      else if \<not> hasPermission (tte_rights tte) cpl (tte_privilege tte) acc
      then Inl (makeFault ACCESS_RIGHTS va acc 0x5300 0)
      else Inr (makeTranslation (((tte AND kIa64PhysicalAddressMask) AND NOT pageMask) OR (va AND pageMask))
             (push_bit (itir_page_shift (itir e)) 1) rid (tte_attribute tte) (tte_rights tte) mech))"

definition covering :: "u64 \<Rightarrow> u64 \<Rightarrow> translation_entry list \<Rightarrow> translation_entry option" where
  "covering rid va es = find (\<lambda>e. translationEntryCovers e va rid) es"

lemma tryEntries_covering:
  "tryEntries rid cpl va acc mech es =
     (case covering rid va es of
        None \<Rightarrow> Inr None
      | Some e \<Rightarrow> and_then (use_entry rid cpl va acc mech e) (\<lambda>t. Inr (Some t)))"
proof (induction es)
  case Nil
  then show ?case by (simp add: covering_def)
next
  case (Cons e es)
  show ?case
  proof (cases "translationEntryCovers e va rid")
    case True
    note c = coversD [OF this]
    have "tryEntries rid cpl va acc mech (e # es) =
        and_then (use_entry rid cpl va acc mech e) (\<lambda>t. Inr (Some t))"
      using c by (simp add: use_entry_def Let_def region_id_def itir_page_shift_def)
    with True show ?thesis by (simp add: covering_def)
  next
    case False
    then have "tryEntries rid cpl va acc mech (e # es) = tryEntries rid cpl va acc mech es"
      by (auto simp: translationEntryCovers_def Let_def region_id_def itir_page_shift_def)
    with False Cons show ?thesis by (simp add: covering_def)
  qed
qed

lemma covering_Some: "covering rid va es = Some e \<Longrightarrow> e \<in> set es \<and> translationEntryCovers e va rid"
  by (auto simp: covering_def find_Some_iff)

lemma covering_None: "covering rid va es = None \<longleftrightarrow> (\<forall>e \<in> set es. \<not> translationEntryCovers e va rid)"
  by (auto simp: covering_def find_None_iff)

text \<open>A new entry is the one found, when nothing covered the address before.\<close>

lemma covering_update:
  assumes "covering rid va es = None" "k < length es" "translationEntryCovers e va rid"
  shows "covering rid va (es[k := e]) = Some e"
proof -
  have "\<not> translationEntryCovers (es[k := e] ! j) va rid" if "j < k" for j
    using assms that by (simp add: covering_None)
  then show ?thesis
    using assms(2,3) unfolding covering_def find_Some_iff by (intro exI [of _ k]) simp
qed

lemma va_region_less: "va_region va < 8"
proof -
  have "unat va div 2 ^ 61 < 8"
    using unat_u64_less [of va] by simp
  then have "drop_bit 61 (unat va) < 8"
    by (simp only: drop_bit_eq_div)
  then show ?thesis
    by (simp only: va_region_def unat_drop_bit_eq)
qed

lemma GetRR_region [simp]: "cpu_shape s \<Longrightarrow> GetRR s (va_region va) = Inr (cpu_rr s ! va_region va)"
  using va_region_less [of va] by (simp add: GetRR_def)

definition va_rid :: "cpu_state \<Rightarrow> u64 \<Rightarrow> u64" where
  "va_rid s va = get_bits 8 24 (cpu_rr s ! va_region va)"

text \<open>Translation registers first, then the TLB.\<close>

lemma translateFromDtrOrDtlb_eq:
  assumes "cpu_shape s"
  shows "translateFromDtrOrDtlb s va acc =
     (case covering (va_rid s va) va (cpu_dtr s) of
        Some e \<Rightarrow> and_then (use_entry (va_rid s va) (psr_cpl (cpu_psr s)) va acc TRANSLATION_REGISTER e)
                    (\<lambda>t. Inr (Some t))
      | None \<Rightarrow>
          (case covering (va_rid s va) va (cpu_dtlb s) of
             Some e \<Rightarrow> and_then (use_entry (va_rid s va) (psr_cpl (cpu_psr s)) va acc DATA_TLB e)
                         (\<lambda>t. Inr (Some t))
           | None \<Rightarrow> Inr None))"
  using assms
  by (simp add: translateFromDtrOrDtlb_def tryEntries_covering va_rid_def Let_def and_then_def
      split: option.split sum.split)

lemma use_entry_Inr:
  "use_entry rid cpl va acc mech e = Inr t \<longleftrightarrow>
   physicalAddress e AND 1 \<noteq> 0 \<and>
   hasPermission (tte_rights (physicalAddress e)) cpl (tte_privilege (physicalAddress e)) acc \<and>
   t = makeTranslation (((physicalAddress e AND kIa64PhysicalAddressMask) AND
          NOT (page_mask (itir_page_shift (itir e)))) OR (va AND page_mask (itir_page_shift (itir e))))
         (push_bit (itir_page_shift (itir e)) 1) rid (tte_attribute (physicalAddress e))
         (tte_rights (physicalAddress e)) mech"
  by (auto simp: use_entry_def Let_def)

lemma tryEntries_None: "tryEntries rid cpl va acc mech es = Inr None \<longleftrightarrow> covering rid va es = None"
  by (auto simp: tryEntries_covering and_then_eq_Inr split: option.split)

lemma translateFromDtrOrDtlb_None:
  "cpu_shape s \<Longrightarrow> translateFromDtrOrDtlb s va acc = Inr None \<longleftrightarrow>
     covering (va_rid s va) va (cpu_dtr s) = None \<and> covering (va_rid s va) va (cpu_dtlb s) = None"
  by (auto simp: translateFromDtrOrDtlb_eq and_then_eq_Inr split: option.split)

subsection \<open>Coherence of the refill\<close>

lemma mask_and_mask: "m \<le> n \<Longrightarrow> (x AND mask n) AND mask m = (x AND mask m :: u64)"
  by (rule bit_word_eqI) (auto simp: bit_simps)

lemma field_of_refill:
  fixes rid :: u64
  assumes "rid = get_bits 8 24 rr" "ps = unat (get_bits 2 6 rr)"
  shows "itir_page_shift (push_bit 8 rid OR push_bit 2 (of_nat ps)) = ps"
proof -
  have ps: "of_nat ps = get_bits 2 6 rr"
    by (simp add: assms(2))
  have "get_bits 2 6 (push_bit 8 rid OR push_bit 2 (get_bits 2 6 rr)) = get_bits 2 6 rr"
    unfolding assms(1) by (rule bit_word_eqI) (auto simp: field_simps_word bit_simps)
  then show ?thesis
    by (simp add: itir_page_shift_def ps assms(2))
qed

text \<open>A successful walk, taken apart.\<close>

lemma walk_vhpt_success:
  assumes "walk_vhpt s m va acc rr = (Inr t, s', m')"
  obtains pte hash where "check_pte pte (psr_cpl (cpu_psr s)) va acc hash = Inr ()"
    "InsertDTLB pte va (push_bit 8 (get_bits 8 24 rr) OR push_bit 2 (of_nat (unat (get_bits 2 6 rr)))) rr s = Inr s'"
    "t = makeTranslation (((pte AND kIa64PhysicalAddressMask) AND NOT (page_mask (unat (get_bits 2 6 rr)))) OR
           ((va AND mask 61) AND page_mask (unat (get_bits 2 6 rr))))
           (push_bit (unat (get_bits 2 6 rr)) 1) (get_bits 8 24 rr) (tte_attribute pte) (tte_rights pte) SHORT_VHPT"
proof -
  from assms show thesis
    by (auto simp: walk_vhpt_def Let_def split: sum.splits option.splits prod.splits intro!: that)
qed

lemma TranslateDataAddress_walk:
  assumes "cpu_shape s" "TranslateDataAddress s m va acc force = (Inr t, s', m')" "tr_mechanism t = SHORT_VHPT"
  obtains "translateFromDtrOrDtlb s va (if force then ACC_NON_ACCESS else acc) = Inr None"
    "walk_vhpt s m va (if force then ACC_NON_ACCESS else acc) (cpu_rr s ! va_region va) = (Inr t, s', m')"
    "force \<or> bit (cpu_psr s) 17"
proof -
  have no_hit: "translateFromDtrOrDtlb s va a \<noteq> Inr (Some t)" for a
    using assms(1,3) by (auto simp: translateFromDtrOrDtlb_eq and_then_eq_Inr use_entry_Inr makeTranslation_def
        split: option.split)
  have no_alias: "fixed_alias s va r \<noteq> Inr (Some t)" for r
    using assms(3) by (auto simp: fixed_alias_def and_then_eq_Inr makeTranslation_def split: if_splits)
  show thesis
    using assms(2,3) that no_hit no_alias GetRR_region [OF assms(1), of va]
    by (auto simp: TranslateDataAddress_def translate_miss_def Let_def makeTranslation_def
        split: if_splits sum.splits option.splits)
qed

lemma page_base_covers:
  assumes "12 \<le> ps" "ps \<le> 61" "itir_page_shift it = ps" "region_id rv = rid"
  shows "translationEntryCovers \<lparr>physicalAddress = tte, virtualAddress = va AND NOT (page_mask ps),
     itir = it, regionValue = rv, valid = True\<rparr> va rid"
  using assms by (simp add: translationEntryCovers_def Let_def)

lemma region_id_get_bits: "region_id rv = get_bits 8 24 rv"
  by (simp add: region_id_def)

text \<open>What a refill leaves: the new entry is the one the next scan of the TLB finds.\<close>

lemma refill_covering:
  assumes "cpu_shape s" "covering (get_bits 8 24 rr) va (cpu_dtlb s) = None" "it = push_bit 8 (get_bits 8 24 rr) OR push_bit 2 (of_nat ps)"
    "ps = unat (get_bits 2 6 rr)" "InsertDTLB pte va it rr s = Inr s'"
  obtains e where "covering (get_bits 8 24 rr) va (cpu_dtlb s') = Some e" "physicalAddress e = pte"
    "itir_page_shift (itir e) = ps" "cpu_dtr s' = cpu_dtr s" "cpu_rr s' = cpu_rr s" "cpu_psr s' = cpu_psr s"
    "cpu_shape s'" "cpu_cr s' = cpu_cr s" "cpu_ar s' = cpu_ar s"
proof -
  have ips: "itir_page_shift it = ps"
    unfolding assms(3) by (rule field_of_refill [OF refl assms(4)])
  from assms(5) obtain es ri where ins: "insertTranslationEntry (cpu_dtlb s) (cpu_dtlbReplacementIndex s) pte va it rr = Inr (es, ri)"
    and s': "s' = s\<lparr>cpu_dtlb := es, cpu_dtlbReplacementIndex := ri\<rparr>"
    by (auto simp: InsertDTLB_def and_then_eq_Inr)
  have range: "12 \<le> ps" "ps \<le> 61"
    using insertTranslationEntry_Inr [OF ins] by (simp_all add: ips)
  have ne: "cpu_dtlb s \<noteq> []"
    using cpu_shapeD(12) [OF assms(1)] by auto
  let ?k = "fst (victim (cpu_dtlb s) (cpu_dtlbReplacementIndex s) va (region_id rr) ps)"
  let ?e = "\<lparr>physicalAddress = pte, virtualAddress = va AND NOT (page_mask ps), itir = it, regionValue = rr, valid = True\<rparr>"
  have es: "es = (cpu_dtlb s)[?k := ?e]"
    using insertTranslationEntry_victim [of it "cpu_dtlb s" "cpu_dtlbReplacementIndex s" pte va rr] range ins
    by (simp add: ips)
  have "translationEntryCovers ?e va (get_bits 8 24 rr)"
    by (rule page_base_covers [OF range ips region_id_get_bits])
  then have "covering (get_bits 8 24 rr) va es = Some ?e"
    unfolding es by (rule covering_update [OF assms(2) victim_less [OF ne]])
  moreover have "cpu_shape s'"
    using insert_length [OF ins ne] assms(1) unfolding cpu_shape_def s' by simp
  ultimately show thesis
    by (intro that [of ?e]) (simp_all add: s' ips)
qed

text \<open>After a successful walk the address hits the data TLB, for every access the entry's rights allow.\<close>

lemma refill_hits:
  assumes "cpu_shape s" "TranslateDataAddress s m va acc force = (Inr t, s', m')"
    "tr_mechanism t = SHORT_VHPT"
  obtains pte hash where "check_pte pte (psr_cpl (cpu_psr s)) va (if force then ACC_NON_ACCESS else acc) hash = Inr ()"
    "tr_accessRights t = tte_rights pte"
    "\<forall>a. hasPermission (tte_rights pte) (psr_cpl (cpu_psr s)) (tte_privilege pte) a \<longrightarrow>
       translateFromDtrOrDtlb s' va a = Inr (Some (t\<lparr>tr_mechanism := DATA_TLB\<rparr>))"
    "cpu_shape s'" "force \<or> bit (cpu_psr s') 17"
proof -
  let ?rr = "cpu_rr s ! va_region va"
  define a where "a = (if force then ACC_NON_ACCESS else acc)"
  define ps where "ps = unat (get_bits 2 6 ?rr)"
  obtain none: "translateFromDtrOrDtlb s va a = Inr None" and walk: "walk_vhpt s m va a ?rr = (Inr t, s', m')"
    and dt: "force \<or> bit (cpu_psr s) 17"
    by (rule TranslateDataAddress_walk [OF assms]) (simp add: a_def)
  obtain pte hash where pte: "check_pte pte (psr_cpl (cpu_psr s)) va a hash = Inr ()"
    and ins: "InsertDTLB pte va (push_bit 8 (get_bits 8 24 ?rr) OR push_bit 2 (of_nat ps)) ?rr s = Inr s'"
    and t: "t = makeTranslation (((pte AND kIa64PhysicalAddressMask) AND NOT (page_mask ps)) OR
           ((va AND mask 61) AND page_mask ps))
           (push_bit ps 1) (get_bits 8 24 ?rr) (tte_attribute pte) (tte_rights pte) SHORT_VHPT"
    by (rule walk_vhpt_success [OF walk]) (simp add: ps_def)
  have cov: "covering (get_bits 8 24 ?rr) va (cpu_dtr s) = None" "covering (get_bits 8 24 ?rr) va (cpu_dtlb s) = None"
    using none translateFromDtrOrDtlb_None [OF assms(1)] by (simp_all add: va_rid_def)
  obtain e where e: "covering (get_bits 8 24 ?rr) va (cpu_dtlb s') = Some e" "physicalAddress e = pte"
    "itir_page_shift (itir e) = ps" and same: "cpu_dtr s' = cpu_dtr s" "cpu_rr s' = cpu_rr s" "cpu_psr s' = cpu_psr s"
    and shape: "cpu_shape s'"
    by (rule refill_covering [OF assms(1) cov(2) refl ps_def ins])
  have "ps \<le> 61"
    using covering_Some [OF e(1)] coversD(4) e(3) by blast
  then have off: "(va AND mask 61) AND page_mask ps = va AND page_mask ps"
    by (simp add: page_mask_eq mask_and_mask)
  have present: "pte AND 1 \<noteq> 0"
    using pte by (auto simp: check_pte_def)
  have "translateFromDtrOrDtlb s' va b = Inr (Some (t\<lparr>tr_mechanism := DATA_TLB\<rparr>))"
    if "hasPermission (tte_rights pte) (psr_cpl (cpu_psr s)) (tte_privilege pte) b" for b
  proof -
    have "use_entry (get_bits 8 24 ?rr) (psr_cpl (cpu_psr s)) va b DATA_TLB e = Inr (t\<lparr>tr_mechanism := DATA_TLB\<rparr>)"
      unfolding use_entry_Inr using present that by (simp add: e t off makeTranslation_def)
    then show ?thesis
      using cov(1) e(1) by (simp add: translateFromDtrOrDtlb_eq [OF shape] va_rid_def same)
  qed
  with pte dt shape show thesis
    by (intro that [of pte hash]) (simp_all add: a_def same t makeTranslation_def)
qed

text \<open>C27: a walk of the page table refills the data TLB coherently: translating the same address again is a TLB
  hit with the same physical address, page size, region, attributes and rights, and neither reads memory
  nor changes the processor.\<close>

theorem vhpt_refill_coherent:
  assumes "cpu_shape s" "TranslateDataAddress s m va acc force = (Inr t, s', m')"
    "tr_mechanism t = SHORT_VHPT"
  shows "TranslateDataAddress s' m2 va acc force = (Inr (t\<lparr>tr_mechanism := DATA_TLB\<rparr>), s', m2)"
proof -
  obtain pte hash where pte: "check_pte pte (psr_cpl (cpu_psr s)) va (if force then ACC_NON_ACCESS else acc) hash = Inr ()"
    and "tr_accessRights t = tte_rights pte"
    and hit: "\<forall>a. hasPermission (tte_rights pte) (psr_cpl (cpu_psr s)) (tte_privilege pte) a \<longrightarrow>
      translateFromDtrOrDtlb s' va a = Inr (Some (t\<lparr>tr_mechanism := DATA_TLB\<rparr>))"
    and s': "cpu_shape s'" "force \<or> bit (cpu_psr s') 17"
    by (rule refill_hits [OF assms])
  have "translateFromDtrOrDtlb s' va (if force then ACC_NON_ACCESS else acc) = Inr (Some (t\<lparr>tr_mechanism := DATA_TLB\<rparr>))"
    using hit pte by (auto simp: check_pte_def split: if_splits)
  then show ?thesis
    using GetRR_region [OF s'(1), of va] s'(2) by (auto simp: TranslateDataAddress_def Let_def)
qed

text \<open>A small machine for instances: translation register 0 maps the page table at address 0, whose entry
  for page 5 is present, accessed, writable and clean.\<close>

definition demo_pte :: u64 where "demo_pte = 0x7421"

definition demo_cpu :: cpu_state where
  "demo_cpu = Reset\<lparr>cpu_psr := 0x22000, cpu_rr := (replicate 8 0)[0 := 0x31],
     cpu_cr := (replicate 128 0)[8 := 0x3D],
     cpu_dtr := \<lparr>physicalAddress = 1, virtualAddress = 0, itir = 0x30, regionValue = 0, valid = True\<rparr>
        # replicate 255 empty_entry\<rparr>"

definition demo_table :: memory where
  "demo_table = \<lparr>mem_data = write_bytes (replicate 64 0) 0x28 (le_bytes 8 demo_pte),
     mem_mmu = \<lparr>mmu_pageTable = Map.empty, mmu_readHooks = [], mmu_writeHooks = [],
       mmu_nextHookId = 0, mmu_watchpoints = [], mmu_nextWatchpointId = 0, mmu_traceBuffer = [],
       mmu_traceDepth = 100, mmu_pageSize = 256, mmu_enabled = False\<rparr>, mem_devices = []\<rparr>"

lemma covering_empty: "covering rid va (replicate n empty_entry) = None"
  by (simp add: covering_None translationEntryCovers_def empty_entry_def)

lemma covering_Cons:
  "covering rid va (e # es) = (if translationEntryCovers e va rid then Some e else covering rid va es)"
  by (simp add: covering_def)

lemma demo_cpu_shape: "cpu_shape demo_cpu"
  using cpu_shape_Reset unfolding cpu_shape_def demo_cpu_def by simp

lemma demo_lookup:
  "translateFromDtrOrDtlb demo_cpu 0x5000 acc = Inr None"
  "translateFromDtrOrDtlb demo_cpu 0x28 ACC_READ = Inr (Some (makeTranslation 0x28 0x1000 0 0 0 TRANSLATION_REGISTER))"
proof -
  have fields: "va_rid demo_cpu 0x5000 = 0" "va_rid demo_cpu 0x28 = 0" "psr_cpl (cpu_psr demo_cpu) = 0"
    "cpu_dtlb demo_cpu = replicate 64 empty_entry"
    by (simp_all add: va_rid_def va_region_def demo_cpu_def psr_cpl_def get_bits_def Reset_def mask_eq_exp_minus_1)
  have dtr: "cpu_dtr demo_cpu = \<lparr>physicalAddress = 1, virtualAddress = 0, itir = 0x30, regionValue = 0, valid = True\<rparr>
        # replicate 255 empty_entry"
    by (simp add: demo_cpu_def)
  have c: "covering 0 0x5000 (cpu_dtr demo_cpu) = None"
    "covering 0 0x28 (cpu_dtr demo_cpu) = Some \<lparr>physicalAddress = 1, virtualAddress = 0, itir = 0x30, regionValue = 0, valid = True\<rparr>"
    unfolding dtr covering_Cons covering_empty
    by (simp_all add: translationEntryCovers_def region_id_def itir_page_shift_def get_bits_def page_mask_def
        mask_eq_exp_minus_1)
  show "translateFromDtrOrDtlb demo_cpu 0x5000 acc = Inr None"
    by (simp add: translateFromDtrOrDtlb_eq [OF demo_cpu_shape] fields c covering_empty)
  show "translateFromDtrOrDtlb demo_cpu 0x28 ACC_READ = Inr (Some (makeTranslation 0x28 0x1000 0 0 0 TRANSLATION_REGISTER))"
    by (simp add: translateFromDtrOrDtlb_eq [OF demo_cpu_shape] fields c use_entry_def Let_def hasPermission_def
        tte_rights_def tte_privilege_def tte_attribute_def itir_page_shift_def get_bits_def page_mask_def
        mask_eq_exp_minus_1 kIa64PhysicalAddressMask_def)
qed

lemma demo_read_pte: "readPhysicalU64 demo_table 0x28 va acc = (Inr demo_pte, demo_table)"
proof -
  have "read_bytes (write_bytes (replicate 64 0) 0x28 (le_bytes 8 demo_pte)) 0x28 8 = le_bytes 8 demo_pte"
    using read_write_same [of "0x28" "le_bytes 8 demo_pte" "replicate 64 0"] by simp
  then have "mem_Read demo_table 0x28 (replicate 8 0) = (Inr (le_bytes 8 demo_pte), demo_table)"
    by (simp add: mem_Read_def mmuRead_def demo_table_def checkBounds_def Let_def)
  then show ?thesis
    by (simp add: readPhysicalU64_def le_value_le_bytes)
qed

lemma demo_hash: "ComputeIA64ShortVhptAddress demo_cpu 0x5000 = Inr 0x28"
proof -
  have "GetRR demo_cpu (va_region 0x5000) = Inr 0x31" "GetCR demo_cpu 8 = Inr 0x3D"
    by (simp_all add: GetRR_def GetCR_def va_region_def demo_cpu_def)
  then show ?thesis
    by (simp add: ComputeIA64ShortVhptAddress_def Let_def get_bits_def mask_eq_exp_minus_1)
qed

text \<open>Reading and writing page 5 of the small machine.\<close>

lemma demo_insert: "\<exists>s'. InsertDTLB pte va 0x30 rr demo_cpu = Inr s'"
proof -
  have "itir_page_shift 0x30 = 12"
    by (simp add: itir_page_shift_def get_bits_def mask_eq_exp_minus_1)
  then show ?thesis
    by (simp add: InsertDTLB_def insertTranslationEntry_victim)
qed

lemma demo_translate:
  "TranslateDataAddress demo_cpu demo_table 0x5000 acc False = walk_vhpt demo_cpu demo_table 0x5000 acc 0x31"
proof -
  have "GetRR demo_cpu (va_region 0x5000) = Inr 0x31" "GetCR demo_cpu 8 = Inr 0x3D"
    "bit (cpu_psr demo_cpu) 17" "bit (cpu_psr demo_cpu) 13" "fixed_alias demo_cpu 0x5000 rid = Inr None" for rid
    by (simp_all add: GetRR_def GetCR_def va_region_def demo_cpu_def fixed_alias_def kPerCpuVirtualBase_def)
  then show ?thesis
    by (simp add: TranslateDataAddress_def demo_lookup translate_miss_def get_bits_def mask_eq_exp_minus_1)
qed

lemma demo_walk:
  "\<exists>s'. TranslateDataAddress demo_cpu demo_table 0x5000 ACC_READ False =
     (Inr (makeTranslation 0x7000 0x1000 0 0 2 SHORT_VHPT), s', demo_table)"
  "TranslateDataAddress demo_cpu demo_table 0x5000 ACC_WRITE False =
     (Inl (makeFault DIRTY_BIT 0x5000 ACC_WRITE 0x2000 0x28), demo_cpu, demo_table)"
proof -
  have cpl: "psr_cpl (cpu_psr demo_cpu) = 0"
    by (simp add: demo_cpu_def psr_cpl_def get_bits_def mask_eq_exp_minus_1)
  have pte: "check_pte demo_pte 0 0x5000 ACC_READ 0x28 = Inr ()"
    "check_pte demo_pte 0 0x5000 ACC_WRITE 0x28 = Inl (makeFault DIRTY_BIT 0x5000 ACC_WRITE 0x2000 0x28)"
    by (simp_all add: check_pte_def demo_pte_def hasPermission_def tte_rights_def tte_privilege_def get_bits_def
        mask_eq_exp_minus_1)
  note walk = demo_hash demo_lookup demo_read_pte cpl pte
  have ps: "get_bits 2 6 (0x31 :: u64) = 12" "get_bits 8 24 (0x31 :: u64) = 0"
    by (simp_all add: get_bits_def mask_eq_exp_minus_1)
  have tr: "tr_physicalAddress (makeTranslation 0x28 0x1000 0 0 0 TRANSLATION_REGISTER) = 0x28"
    by (simp add: makeTranslation_def)
  obtain s' where s': "InsertDTLB demo_pte 0x5000 0x30 0x31 demo_cpu = Inr s'"
    using demo_insert by blast
  have "walk_vhpt demo_cpu demo_table 0x5000 ACC_READ 0x31 =
     (Inr (makeTranslation (((demo_pte AND kIa64PhysicalAddressMask) AND NOT (page_mask 12)) OR
        ((0x5000 AND mask 61) AND page_mask 12)) (push_bit 12 1) 0 (tte_attribute demo_pte) (tte_rights demo_pte)
        SHORT_VHPT), s', demo_table)"
    by (simp add: walk_vhpt_def walk ps tr s' Let_def)
  also have "makeTranslation (((demo_pte AND kIa64PhysicalAddressMask) AND NOT (page_mask 12)) OR
        ((0x5000 AND mask 61) AND page_mask 12)) (push_bit 12 1) 0 (tte_attribute demo_pte) (tte_rights demo_pte)
        SHORT_VHPT = makeTranslation 0x7000 0x1000 0 0 2 SHORT_VHPT"
    by (simp add: demo_pte_def kIa64PhysicalAddressMask_def page_mask_def tte_attribute_def tte_rights_def get_bits_def
        mask_eq_exp_minus_1)
  finally show "\<exists>s'. TranslateDataAddress demo_cpu demo_table 0x5000 ACC_READ False =
     (Inr (makeTranslation 0x7000 0x1000 0 0 2 SHORT_VHPT), s', demo_table)"
    by (simp add: demo_translate)
  show "TranslateDataAddress demo_cpu demo_table 0x5000 ACC_WRITE False =
     (Inl (makeFault DIRTY_BIT 0x5000 ACC_WRITE 0x2000 0x28), demo_cpu, demo_table)"
    by (simp add: demo_translate walk_vhpt_def walk ps tr)
qed

lemma vhpt_refill_coherent_witness:
  "\<exists>s'. TranslateDataAddress demo_cpu demo_table 0x5000 ACC_READ False =
      (Inr (makeTranslation 0x7000 0x1000 0 0 2 SHORT_VHPT), s', demo_table) \<and>
     TranslateDataAddress s' demo_table 0x5000 ACC_READ False =
      (Inr (makeTranslation 0x7000 0x1000 0 0 2 DATA_TLB), s', demo_table)"
proof -
  obtain s' where s': "TranslateDataAddress demo_cpu demo_table 0x5000 ACC_READ False =
     (Inr (makeTranslation 0x7000 0x1000 0 0 2 SHORT_VHPT), s', demo_table)"
    using demo_walk(1) by blast
  from vhpt_refill_coherent [OF demo_cpu_shape s', of demo_table] s' show ?thesis
    by (simp add: makeTranslation_def)
qed

text \<open>only the page-table walk looks at the dirty bit. Where a write to a clean page faults so that the guest can
  mark the page dirty, the same write succeeds once a read has brought the page into the data TLB.\<close>

theorem read_hides_dirty_fault:
  assumes "cpu_shape s" "TranslateDataAddress s m va ACC_WRITE False = (Inl (Fault f), s1, m1)" "tf_kind f = DIRTY_BIT"
    and "TranslateDataAddress s m va ACC_READ False = (Inr t, s', m')" "tr_mechanism t = SHORT_VHPT"
    and "tr_accessRights t \<in> {2, 3, 4, 5, 6}"
  shows "TranslateDataAddress s' m' va ACC_WRITE False = (Inr (t\<lparr>tr_mechanism := DATA_TLB\<rparr>), s', m')"
proof -
  obtain pte rights where "check_pte pte (psr_cpl (cpu_psr s)) va ACC_READ rights = Inr ()" "tr_accessRights t = tte_rights pte"
    and hit: "\<forall>a. hasPermission (tte_rights pte) (psr_cpl (cpu_psr s)) (tte_privilege pte) a \<longrightarrow>
      translateFromDtrOrDtlb s' va a = Inr (Some (t\<lparr>tr_mechanism := DATA_TLB\<rparr>))"
    and s': "cpu_shape s'" "bit (cpu_psr s') 17"
    by (rule refill_hits [OF assms(1,4,5)]) simp
  then have "hasPermission (tte_rights pte) (psr_cpl (cpu_psr s)) (tte_privilege pte) ACC_WRITE"
    using assms(6) by (auto simp: check_pte_def hasPermission_def split: if_splits)
  with hit have "translateFromDtrOrDtlb s' va ACC_WRITE = Inr (Some (t\<lparr>tr_mechanism := DATA_TLB\<rparr>))"
    by blast
  then show ?thesis
    using GetRR_region [OF s'(1), of va] s'(2) by (simp add: TranslateDataAddress_def)
qed

lemma read_hides_dirty_fault_witness:
  "\<exists>s'. TranslateDataAddress demo_cpu demo_table 0x5000 ACC_WRITE False =
      (Inl (makeFault DIRTY_BIT 0x5000 ACC_WRITE 0x2000 0x28), demo_cpu, demo_table) \<and>
     TranslateDataAddress demo_cpu demo_table 0x5000 ACC_READ False =
      (Inr (makeTranslation 0x7000 0x1000 0 0 2 SHORT_VHPT), s', demo_table) \<and>
     TranslateDataAddress s' demo_table 0x5000 ACC_WRITE False =
      (Inr (makeTranslation 0x7000 0x1000 0 0 2 DATA_TLB), s', demo_table)"
proof -
  obtain s' where s': "TranslateDataAddress demo_cpu demo_table 0x5000 ACC_READ False =
     (Inr (makeTranslation 0x7000 0x1000 0 0 2 SHORT_VHPT), s', demo_table)"
    using demo_walk(1) by blast
  from read_hides_dirty_fault [OF demo_cpu_shape demo_walk(2) [unfolded makeFault_def] _ s'] s' demo_walk(2) show ?thesis
    by (simp add: makeTranslation_def)
qed

subsection \<open>Split accesses end\<close>

definition page_sized :: "translation \<Rightarrow> bool" where
  "page_sized t \<longleftrightarrow> (\<exists>k \<le> 61. tr_pageSize t = 2 ^ k)"

lemma page_sized_make [simp]: "k \<le> 61 \<Longrightarrow> page_sized (makeTranslation pa (2 ^ k) rid attr rights mech)"
  by (auto simp: page_sized_def makeTranslation_def)

lemma tryEntries_page_sized:
  "tryEntries rid cpl va acc mech es = Inr (Some t) \<Longrightarrow> page_sized t"
  by (auto simp: tryEntries_covering and_then_eq_Inr use_entry_Inr dest!: covering_Some dest: coversD(4)
      split: option.splits)

lemma translateFromDtrOrDtlb_page_sized:
  "translateFromDtrOrDtlb s va acc = Inr (Some t) \<Longrightarrow> page_sized t"
  by (auto simp: translateFromDtrOrDtlb_def Let_def and_then_eq_Inr split: option.splits
      intro: tryEntries_page_sized)

lemma fixed_alias_page_sized: "fixed_alias s va rid = Inr (Some t) \<Longrightarrow> page_sized t"
proof -
  have "page_sized (makeTranslation pa 0x2000000000000000 r attr rights mech)"
    "page_sized (makeTranslation pa 0x40000 r attr rights mech)" for pa r attr rights mech
    using page_sized_make [of 61 pa r attr rights mech] page_sized_make [of 18 pa r attr rights mech] by simp_all
  then show "fixed_alias s va rid = Inr (Some t) \<Longrightarrow> page_sized t"
    by (auto simp: fixed_alias_def and_then_eq_Inr split: if_splits)
qed

lemma walk_vhpt_page_sized:
  assumes "walk_vhpt s m va acc rr = (Inr t, s', m')" "unat (get_bits 2 6 rr) \<le> 61"
  shows "page_sized t"
proof -
  from assms(1) obtain pte where "t = makeTranslation (((pte AND kIa64PhysicalAddressMask) AND NOT (page_mask (unat (get_bits 2 6 rr)))) OR
           ((va AND mask 61) AND page_mask (unat (get_bits 2 6 rr))))
           (push_bit (unat (get_bits 2 6 rr)) 1) (get_bits 8 24 rr) (tte_attribute pte) (tte_rights pte) SHORT_VHPT"
    by (rule walk_vhpt_success)
  with assms(2) show ?thesis by (auto simp: page_sized_def makeTranslation_def)
qed

lemma TranslateDataAddress_page_sized:
  assumes "TranslateDataAddress s m va acc force = (Inr t, s', m')"
  shows "page_sized t"
proof -
  have "page_sized (makeTranslation pa 0x2000000000000000 r attr rights mech)" for pa r attr rights mech
    using page_sized_make [of 61 pa r attr rights mech] by simp
  with assms show ?thesis
    by (auto simp: TranslateDataAddress_def translate_miss_def Let_def
        split: if_splits sum.splits option.splits
        intro: translateFromDtrOrDtlb_page_sized fixed_alias_page_sized walk_vhpt_page_sized)
qed

lemma page_amount_bounds:
  assumes "page_sized t" "0 < n" "n < 2 ^ 64"
  shows "0 < page_amount a t n" "page_amount a t n \<le> n"
proof -
  obtain k where k: "k \<le> 61" "tr_pageSize t = 2 ^ k"
    using assms(1) by (auto simp: page_sized_def)
  have m: "tr_pageSize t - 1 = mask k"
    by (simp add: k(2) mask_eq_exp_minus_1 push_bit_eq_mult)
  have "\<not> bit (a AND mask k) k" "bit (tr_pageSize t) k"
    using k by (simp_all add: bit_simps bit_exp_iff)
  then have "a AND mask k \<noteq> tr_pageSize t" by metis
  then have 1: "tr_pageSize t - (a AND (tr_pageSize t - 1)) \<noteq> 0"
    by (auto simp: m)
  have n: "unat (of_nat n :: u64) = n"
    using assms(3) by (simp add: unat_of_nat take_bit_nat_eq_self)
  have 2: "(of_nat n :: u64) \<noteq> 0"
  proof
    assume "(of_nat n :: u64) = 0"
    with n have "n = 0" by simp
    with assms(2) show False by simp
  qed
  define x :: u64 where "x = of_nat n"
  define y where "y = tr_pageSize t - (a AND (tr_pageSize t - 1))"
  have pa: "page_amount a t n = unat (min x y)"
    by (simp add: page_amount_def x_def y_def Let_def)
  have "min x y \<noteq> 0"
    using 1 2 by (auto simp: min_def x_def y_def)
  then show "0 < page_amount a t n"
    by (simp add: pa unat_gt_0)
  have "min x y \<le> x" by simp
  then have "unat (min x y) \<le> unat x" by (simp only: word_le_nat_alt)
  then show "page_amount a t n \<le> n"
    by (simp add: pa n x_def)
qed

text \<open>Reading physical memory, and so translating, leaves its contents and devices alone.\<close>

lemma mem_Read_keeps:
  "mem_Read m a dest = (r, m') \<Longrightarrow> mem_data m' = mem_data m \<and> mem_devices m' = mem_devices m"
  by (auto simp: mem_Read_def mmuRead_def Let_def split: if_splits option.splits sum.splits prod.splits)

lemma readPhysicalU64_keeps:
  "readPhysicalU64 m pa va acc = (r, m') \<Longrightarrow> mem_data m' = mem_data m \<and> mem_devices m' = mem_devices m"
  by (auto simp: readPhysicalU64_def dest: mem_Read_keeps split: prod.splits sum.splits)

lemma walk_vhpt_keeps:
  "walk_vhpt s m va acc rr = (r, s', m') \<Longrightarrow> mem_data m' = mem_data m \<and> mem_devices m' = mem_devices m"
  by (auto simp: walk_vhpt_def Let_def dest!: readPhysicalU64_keeps split: prod.splits sum.splits option.splits)

lemma TranslateDataAddress_keeps:
  "TranslateDataAddress s m va acc force = (r, s', m') \<Longrightarrow> mem_data m' = mem_data m \<and> mem_devices m' = mem_devices m"
  by (auto simp: TranslateDataAddress_def translate_miss_def Let_def dest: walk_vhpt_keeps
      split: if_splits sum.splits option.splits)

definition devices_sound :: "memory \<Rightarrow> bool" where
  "devices_sound m \<longleftrightarrow> (\<forall>(i, d) \<in> set (mem_devices m). dev_ok d)"

lemma tryDeviceRead_length:
  assumes "tryDeviceRead ds a n = Some bs" "\<forall>(i, d) \<in> set ds. dev_ok d" "n < 2 ^ 64"
  shows "length bs = n"
  using assms
  by (induction ds a n rule: tryDeviceRead.induct) (auto split: if_splits intro: vm_device.rd_length)

lemma mem_Read_length:
  assumes "mem_Read m a dest = (Inr bs, m')" "devices_sound m" "length dest < 2 ^ 64"
  shows "length bs = length dest"
proof -
  have "checkBounds m x n = Inr () \<Longrightarrow> unat x + n \<le> length (mem_data m)" for x n
    by (auto simp: checkBounds_def Let_def split: if_splits)
  with assms show ?thesis
    by (auto simp: mem_Read_def mmuRead_def Let_def devices_sound_def dest: tryDeviceRead_length
        split: if_splits option.splits sum.splits prod.splits)
qed

lemma read_data_loop_total:
  assumes "devices_sound m" "length dest < 2 ^ 64" "completed \<le> length dest"
  shows "\<exists>r buf s' m'. read_data_loop s m va dest completed = Some (r, buf, s', m') \<and>
     length buf = length dest \<and> mem_data m' = mem_data m \<and> mem_devices m' = mem_devices m"
  using assms
proof (induction "length dest - completed" arbitrary: s m dest completed rule: less_induct)
  case less
  show ?case
  proof (cases "completed < length dest")
    case False
    then show ?thesis by (subst read_data_loop.simps) simp
  next
    case True
    let ?a = "va + of_nat completed"
    obtain r s1 m1 where tr: "TranslateDataAddress s m ?a ACC_READ False = (r, s1, m1)"
      by (metis prod_cases3)
    note k1 = TranslateDataAddress_keeps [OF tr]
    show ?thesis
    proof (cases r)
      case (Inl e)
      with tr k1 True show ?thesis by (subst read_data_loop.simps) simp
    next
      case (Inr t)
      let ?n = "page_amount ?a t (length dest - completed)"
      have n: "0 < ?n" "?n \<le> length dest - completed"
        using page_amount_bounds [OF TranslateDataAddress_page_sized [OF tr [unfolded Inr]]] True less.prems(2)
        by simp_all
      obtain r2 m2 where rd: "mem_Read m1 (tr_physicalAddress t) (read_bytes dest completed ?n) = (r2, m2)"
        by (meson surj_pair)
      note k2 = mem_Read_keeps [OF rd]
      show ?thesis
      proof (cases r2)
        case (Inl e)
        with tr Inr rd k1 k2 True show ?thesis by (subst read_data_loop.simps) (simp add: Let_def)
      next
        case (Inr bs)
        have "devices_sound m1" using less.prems(1) k1 by (simp add: devices_sound_def)
        then have bs: "length bs = ?n"
          using mem_Read_length [OF rd [unfolded Inr]] n less.prems(2) True by simp
        let ?d = "write_bytes dest completed bs"
        have d: "length ?d = length dest" using bs n by simp
        have "\<exists>r buf s' m'. read_data_loop s1 m2 va ?d (completed + ?n) = Some (r, buf, s', m') \<and>
          length buf = length ?d \<and> mem_data m' = mem_data m2 \<and> mem_devices m' = mem_devices m2"
          by (rule less.hyps) (use n d True less.prems k1 k2 in \<open>simp_all add: devices_sound_def\<close>)
        then show ?thesis
          using tr \<open>r = Inr t\<close> rd Inr k1 k2 True d by (subst read_data_loop.simps) (simp add: Let_def)
      qed
    qed
  qed
qed

lemma write_data_loop_total:
  assumes "length src < 2 ^ 64" "completed \<le> length src"
  shows "\<exists>r. write_data_loop s m va src completed = Some r"
  using assms
proof (induction "length src - completed" arbitrary: s m completed rule: less_induct)
  case less
  show ?case
  proof (cases "completed < length src")
    case False
    then show ?thesis by (subst write_data_loop.simps) simp
  next
    case True
    let ?a = "va + of_nat completed"
    obtain r s1 m1 where tr: "TranslateDataAddress s m ?a ACC_WRITE False = (r, s1, m1)"
      by (metis prod_cases3)
    show ?thesis
    proof (cases r)
      case (Inl e)
      with tr True show ?thesis by (subst write_data_loop.simps) simp
    next
      case (Inr t)
      let ?n = "page_amount ?a t (length src - completed)"
      have n: "0 < ?n" "?n \<le> length src - completed"
        using page_amount_bounds [OF TranslateDataAddress_page_sized [OF tr [unfolded Inr]]] True less.prems(1)
        by simp_all
      obtain r2 m2 where wr: "mem_Write (tr_physicalAddress t) (read_bytes src completed ?n) m1 = (r2, m2)"
        by (meson surj_pair)
      have "\<exists>r. write_data_loop s1 m2 va src (completed + ?n) = Some r"
        by (rule less.hyps) (use n True less.prems in simp_all)
      then show ?thesis
        using tr Inr wr True by (subst write_data_loop.simps) (auto simp: Let_def split: sum.split)
    qed
  qed
qed

text \<open>C28: data accesses of any length return: the page-splitting loops always make progress. A read fills a buffer
  of the requested length and leaves the contents and devices of memory as they were, even when it faults
  half way.\<close>

theorem data_accesses_return:
  assumes "devices_sound m" "length dest < 2 ^ 64" "length src < 2 ^ 64"
  shows "(\<exists>r buf s' m'. ReadData s m va dest = Some (r, buf, s', m') \<and> length buf = length dest \<and>
       mem_data m' = mem_data m \<and> mem_devices m' = mem_devices m) \<and>
     (\<exists>r s' m'. WriteData s m va src = Some (r, s', m'))"
  using read_data_loop_total [OF assms(1,2), of 0 s va] write_data_loop_total [OF assms(3), of 0 s m va]
  by (auto simp: ReadData_def WriteData_def)

lemma data_accesses_return_witness:
  "\<exists>r buf s' m'. ReadData demo_cpu demo_table 0x5FFE [0, 0, 0, 0] = Some (r, buf, s', m') \<and> length buf = 4 \<and>
     mem_data m' = mem_data demo_table"
proof -
  have "devices_sound demo_table" by (simp add: devices_sound_def demo_table_def)
  from data_accesses_return [OF this, of "[0, 0, 0, 0]" "[]" demo_cpu "0x5FFE"] show ?thesis by auto
qed

end
