(* ===== verification/Boot_State.thy ===== *)
theory Boot_State
  imports Bounded_History
begin

text \<open>
  The boot state machine of a virtual machine (\<open>src/src/vm/VMBootStateMachine.cpp\<close>). The clock readings
  of one call are the argument \<open>clock\<close> (\<open>clock 0\<close> the first reading of the call, and so on); condition
  validators are predicates over an environment \<open>'e\<close> the call is given; registered callbacks are
  observers, named by a number (\<open>None\<close> an empty \<open>std::function\<close>), and a call returns the notifications it
  made, in order. The maps of conditions and callbacks give the empty list where the C++ map has no key.
  The lemmas show that a validated transition takes an edge of the graph, that userspace is reached only through the
  whole boot sequence or past the validation (a forced transition or a checkpoint restore), and what \<open>shutdown\<close> and a power-off can do from each state.
\<close>

subsection \<open>State\<close>

datatype boot_state =
    POWERED_OFF
  | POWER_ON
  | FIRMWARE_INIT
  | BOOTLOADER_EXEC
  | KERNEL_LOAD
  | KERNEL_ENTRY
  | KERNEL_INIT
  | INIT_PROCESS
  | USERSPACE_RUNNING
  | SHUTDOWN_INIT
  | STOPPING_SERVICES
  | KERNEL_SHUTDOWN
  | FIRMWARE_SHUTDOWN
  | POWER_OFF
  | BOOT_FAILED
  | KERNEL_PANIC
  | EMERGENCY_HALT

record boot_transition =
  bt_fromState :: boot_state
  bt_toState :: boot_state
  bt_timestamp :: u64
  bt_reason :: string
  bt_successful :: bool

record 'e boot_condition =
  bc_name :: string
  bc_description :: string
  bc_validator :: "('e \<Rightarrow> bool) option"

datatype boot_event =
    Exited nat
  | Entered nat
  | Changed nat boot_state boot_state string
  | Failed nat boot_state boot_state string

record 'e boot_machine =
  bm_currentState :: boot_state
  bm_previousState :: boot_state
  bm_currentStateEntryTime :: u64
  bm_powerOnTime :: u64
  bm_bootCompleteTime :: u64
  bm_transitionConditions :: "boot_state \<Rightarrow> boot_state \<Rightarrow> 'e boot_condition list"
  bm_stateChangeCallbacks :: "nat option list"
  bm_validationFailureCallbacks :: "nat option list"
  bm_enterStateCallbacks :: "boot_state \<Rightarrow> nat option list"
  bm_exitStateCallbacks :: "boot_state \<Rightarrow> nat option list"
  bm_transitionHistory :: "boot_transition list"
  bm_maxHistorySize :: nat
  bm_stateTimeAccumulator :: "boot_state \<Rightarrow> u64 option"
  bm_validTransitions :: "boot_state \<Rightarrow> boot_state list option"

text \<open>The graph of \<open>initializeTransitionGraph\<close>: every state has an entry.\<close>

fun transition_graph :: "boot_state \<Rightarrow> boot_state list" where
  "transition_graph POWERED_OFF = [POWER_ON]"
| "transition_graph POWER_ON = [FIRMWARE_INIT, BOOT_FAILED, EMERGENCY_HALT]"
| "transition_graph FIRMWARE_INIT = [BOOTLOADER_EXEC, BOOT_FAILED, EMERGENCY_HALT]"
| "transition_graph BOOTLOADER_EXEC = [KERNEL_LOAD, BOOT_FAILED, EMERGENCY_HALT]"
| "transition_graph KERNEL_LOAD = [KERNEL_ENTRY, BOOT_FAILED, EMERGENCY_HALT]"
| "transition_graph KERNEL_ENTRY = [KERNEL_INIT, KERNEL_PANIC, EMERGENCY_HALT]"
| "transition_graph KERNEL_INIT = [INIT_PROCESS, KERNEL_PANIC, EMERGENCY_HALT]"
| "transition_graph INIT_PROCESS = [USERSPACE_RUNNING, KERNEL_PANIC, EMERGENCY_HALT]"
| "transition_graph USERSPACE_RUNNING = [SHUTDOWN_INIT, KERNEL_PANIC, EMERGENCY_HALT]"
| "transition_graph SHUTDOWN_INIT = [STOPPING_SERVICES, EMERGENCY_HALT]"
| "transition_graph STOPPING_SERVICES = [KERNEL_SHUTDOWN, EMERGENCY_HALT]"
| "transition_graph KERNEL_SHUTDOWN = [FIRMWARE_SHUTDOWN, EMERGENCY_HALT]"
| "transition_graph FIRMWARE_SHUTDOWN = [POWER_OFF]"
| "transition_graph POWER_OFF = [POWERED_OFF]"
| "transition_graph BOOT_FAILED = [POWER_OFF, POWERED_OFF]"
| "transition_graph KERNEL_PANIC = [EMERGENCY_HALT, POWER_OFF]"
| "transition_graph EMERGENCY_HALT = [POWERED_OFF]"

definition VMBootStateMachine :: "u64 \<Rightarrow> 'e boot_machine" where
  "VMBootStateMachine now = \<lparr>bm_currentState = POWERED_OFF, bm_previousState = POWERED_OFF,
     bm_currentStateEntryTime = now, bm_powerOnTime = 0, bm_bootCompleteTime = 0,
     bm_transitionConditions = (\<lambda>_ _. []), bm_stateChangeCallbacks = [],
     bm_validationFailureCallbacks = [], bm_enterStateCallbacks = (\<lambda>_. []),
     bm_exitStateCallbacks = (\<lambda>_. []), bm_transitionHistory = [], bm_maxHistorySize = 1000,
     bm_stateTimeAccumulator = Map.empty, bm_validTransitions = (\<lambda>s. Some (transition_graph s))\<rparr>"

subsection \<open>Helpers\<close>

definition getTimeInCurrentState :: "u64 \<Rightarrow> 'e boot_machine \<Rightarrow> u64" where
  "getTimeInCurrentState now m = now - bm_currentStateEntryTime m"

definition isInErrorState :: "'e boot_machine \<Rightarrow> bool" where
  "isInErrorState m \<longleftrightarrow> bm_currentState m = BOOT_FAILED \<or> bm_currentState m = KERNEL_PANIC \<or>
     bm_currentState m = EMERGENCY_HALT"

definition isTransitionInGraph :: "boot_state \<Rightarrow> boot_state \<Rightarrow> 'e boot_machine \<Rightarrow> bool" where
  "isTransitionInGraph f t m =
     (case bm_validTransitions m f of None \<Rightarrow> False | Some ts \<Rightarrow> t \<in> set ts)"

text \<open>The first failed condition, or \<open>None\<close> when all hold.\<close>

fun check_conditions :: "'e \<Rightarrow> 'e boot_condition list \<Rightarrow> string option" where
  "check_conditions env [] = None"
| "check_conditions env (c # cs) =
     (case bc_validator c of
        None \<Rightarrow> Some (bc_name c @ '': '' @ bc_description c)
      | Some v \<Rightarrow>
          if v env then check_conditions env cs else Some (bc_name c @ '': '' @ bc_description c))"

definition validateTransitionConditions ::
  "'e \<Rightarrow> boot_state \<Rightarrow> boot_state \<Rightarrow> 'e boot_machine \<Rightarrow> string option" where
  "validateTransitionConditions env f t m = check_conditions env (bm_transitionConditions m f t)"

definition canTransition :: "'e \<Rightarrow> boot_state \<Rightarrow> boot_state \<Rightarrow> 'e boot_machine \<Rightarrow> string option" where
  "canTransition env f t m =
     (if \<not> isTransitionInGraph f t m then Some ''Invalid transition path''
      else validateTransitionConditions env f t m)"

definition history_add :: "nat \<Rightarrow> boot_transition \<Rightarrow> boot_transition list \<Rightarrow> boot_transition list" where
  "history_add maxHistorySize tr h =
     (let h' = h @ [tr] in if length h' > maxHistorySize then drop 1 h' else h')"

definition recordTransition ::
  "u64 \<Rightarrow> boot_state \<Rightarrow> boot_state \<Rightarrow> string \<Rightarrow> bool \<Rightarrow> 'e boot_machine \<Rightarrow> 'e boot_machine" where
  "recordTransition now f t reason successful m =
     m\<lparr>bm_transitionHistory := history_add (bm_maxHistorySize m)
         \<lparr>bt_fromState = f, bt_toState = t, bt_timestamp = now, bt_reason = reason,
          bt_successful = successful\<rparr> (bm_transitionHistory m)\<rparr>"

text \<open>A list of callbacks notifies the non-empty ones, in order.\<close>

definition notify :: "(nat \<Rightarrow> boot_event) \<Rightarrow> nat option list \<Rightarrow> boot_event list" where
  "notify ev cs = map ev (List.map_filter id cs)"

definition notifyStateChange :: "boot_state \<Rightarrow> boot_state \<Rightarrow> string \<Rightarrow> 'e boot_machine \<Rightarrow> boot_event list" where
  "notifyStateChange f t reason m = notify (\<lambda>i. Changed i f t reason) (bm_stateChangeCallbacks m)"

definition notifyValidationFailure :: "boot_state \<Rightarrow> boot_state \<Rightarrow> string \<Rightarrow> 'e boot_machine \<Rightarrow> boot_event list" where
  "notifyValidationFailure f t msg m = notify (\<lambda>i. Failed i f t msg) (bm_validationFailureCallbacks m)"

definition updateTimeTracking :: "u64 \<Rightarrow> 'e boot_machine \<Rightarrow> 'e boot_machine" where
  "updateTimeTracking now m =
     (let timeInState = getTimeInCurrentState now m;
          old = (case bm_stateTimeAccumulator m (bm_currentState m) of None \<Rightarrow> 0 | Some t \<Rightarrow> t)
      in m\<lparr>bm_stateTimeAccumulator :=
             (bm_stateTimeAccumulator m)(bm_currentState m \<mapsto> old + timeInState)\<rparr>)"

subsection \<open>Transitions\<close>

text \<open>The switch to a new state, with the power-on and boot-complete milestones.\<close>

definition enter_state :: "(nat \<Rightarrow> u64) \<Rightarrow> boot_state \<Rightarrow> 'e boot_machine \<Rightarrow> 'e boot_machine" where
  "enter_state clock newState m0 =
     (let m = updateTimeTracking (clock 0) m0
      in m\<lparr>bm_previousState := bm_currentState m, bm_currentState := newState,
           bm_currentStateEntryTime := clock 1\<rparr>)"

definition milestones :: "boot_state \<Rightarrow> boot_state \<Rightarrow> 'e boot_machine \<Rightarrow> 'e boot_machine" where
  "milestones oldState newState m =
     (let m1 = (if oldState = POWERED_OFF \<and> newState = POWER_ON
                then m\<lparr>bm_powerOnTime := bm_currentStateEntryTime m\<rparr> else m)
      in if newState = USERSPACE_RUNNING \<and> bm_bootCompleteTime m1 = 0
         then m1\<lparr>bm_bootCompleteTime := bm_currentStateEntryTime m1\<rparr> else m1)"

definition transition :: "(nat \<Rightarrow> u64) \<Rightarrow> 'e \<Rightarrow> boot_state \<Rightarrow> string \<Rightarrow> 'e boot_machine
    \<Rightarrow> bool \<times> boot_event list \<times> 'e boot_machine" where
  "transition clock env newState reason m =
     (let oldState = bm_currentState m in
      if \<not> isTransitionInGraph oldState newState m
      then (False, notifyValidationFailure oldState newState ''Invalid state transition path'' m,
            recordTransition (clock 0) oldState newState reason False m)
      else
        case validateTransitionConditions env oldState newState m of
          Some failed \<Rightarrow> (False, notifyValidationFailure oldState newState failed m,
            recordTransition (clock 0) oldState newState reason False m)
        | None \<Rightarrow>
            let m1 = milestones oldState newState (enter_state clock newState m);
                m2 = recordTransition (clock 2) oldState newState reason True m1
            in (True,
                notify Exited (bm_exitStateCallbacks m1 oldState) @
                notify Entered (bm_enterStateCallbacks m1 newState) @
                notifyStateChange oldState newState reason m2, m2))"

definition forceTransition :: "(nat \<Rightarrow> u64) \<Rightarrow> boot_state \<Rightarrow> string \<Rightarrow> 'e boot_machine
    \<Rightarrow> boot_event list \<times> 'e boot_machine" where
  "forceTransition clock newState reason m =
     (let oldState = bm_currentState m;
          m1 = enter_state clock newState m;
          m2 = recordTransition (clock 2) oldState newState (''FORCED: '' @ reason) True m1
      in (notifyStateChange oldState newState reason m2, m2))"

definition boot_reset :: "(nat \<Rightarrow> u64) \<Rightarrow> 'e boot_machine \<Rightarrow> 'e boot_machine" where
  "boot_reset clock m =
     (enter_state clock POWERED_OFF m)
       \<lparr>bm_powerOnTime := 0, bm_bootCompleteTime := 0, bm_stateTimeAccumulator := Map.empty\<rparr>"

definition powerOn :: "(nat \<Rightarrow> u64) \<Rightarrow> 'e \<Rightarrow> 'e boot_machine \<Rightarrow> bool \<times> boot_event list \<times> 'e boot_machine" where
  "powerOn clock env m =
     (if bm_currentState m \<noteq> POWERED_OFF then (False, [], m)
      else transition clock env POWER_ON ''Power button pressed'' m)"

definition shutdown :: "(nat \<Rightarrow> u64) \<Rightarrow> 'e \<Rightarrow> 'e boot_machine \<Rightarrow> bool \<times> boot_event list \<times> 'e boot_machine" where
  "shutdown clock env m =
     (if bm_currentState m \<in> {POWERED_OFF, SHUTDOWN_INIT, STOPPING_SERVICES, KERNEL_SHUTDOWN,
           FIRMWARE_SHUTDOWN, POWER_OFF}
      then (False, [], m)
      else transition clock env SHUTDOWN_INIT ''Shutdown initiated'' m)"

subsection \<open>Conditions, callbacks, history\<close>

definition addTransitionCondition :: "boot_state \<Rightarrow> boot_state \<Rightarrow> string \<Rightarrow> string \<Rightarrow> ('e \<Rightarrow> bool) option
    \<Rightarrow> 'e boot_machine \<Rightarrow> 'e boot_machine" where
  "addTransitionCondition f t name descr v m =
     m\<lparr>bm_transitionConditions := (bm_transitionConditions m)(f := (bm_transitionConditions m f)(t :=
        bm_transitionConditions m f t @ [\<lparr>bc_name = name, bc_description = descr, bc_validator = v\<rparr>]))\<rparr>"

definition removeTransitionCondition :: "boot_state \<Rightarrow> boot_state \<Rightarrow> string
    \<Rightarrow> 'e boot_machine \<Rightarrow> 'e boot_machine" where
  "removeTransitionCondition f t name m =
     m\<lparr>bm_transitionConditions := (bm_transitionConditions m)(f := (bm_transitionConditions m f)(t :=
        filter (\<lambda>c. bc_name c \<noteq> name) (bm_transitionConditions m f t)))\<rparr>"

definition onStateChanged :: "nat option \<Rightarrow> 'e boot_machine \<Rightarrow> 'e boot_machine" where
  "onStateChanged cb m = m\<lparr>bm_stateChangeCallbacks := bm_stateChangeCallbacks m @ [cb]\<rparr>"

definition onValidationFailure :: "nat option \<Rightarrow> 'e boot_machine \<Rightarrow> 'e boot_machine" where
  "onValidationFailure cb m = m\<lparr>bm_validationFailureCallbacks := bm_validationFailureCallbacks m @ [cb]\<rparr>"

definition onEnterState :: "boot_state \<Rightarrow> nat option \<Rightarrow> 'e boot_machine \<Rightarrow> 'e boot_machine" where
  "onEnterState st cb m =
     m\<lparr>bm_enterStateCallbacks := (bm_enterStateCallbacks m)(st := bm_enterStateCallbacks m st @ [cb])\<rparr>"

definition onExitState :: "boot_state \<Rightarrow> nat option \<Rightarrow> 'e boot_machine \<Rightarrow> 'e boot_machine" where
  "onExitState st cb m =
     m\<lparr>bm_exitStateCallbacks := (bm_exitStateCallbacks m)(st := bm_exitStateCallbacks m st @ [cb])\<rparr>"

definition empty_transition :: boot_transition where
  "empty_transition = \<lparr>bt_fromState = POWERED_OFF, bt_toState = POWERED_OFF, bt_timestamp = 0,
     bt_reason = '''', bt_successful = False\<rparr>"

definition getLastTransition :: "'e boot_machine \<Rightarrow> boot_transition" where
  "getLastTransition m =
     (if bm_transitionHistory m = [] then empty_transition else last (bm_transitionHistory m))"

definition getTotalBootTime :: "'e boot_machine \<Rightarrow> u64" where
  "getTotalBootTime m =
     (if bm_bootCompleteTime m = 0 \<or> bm_powerOnTime m = 0 then 0
      else bm_bootCompleteTime m - bm_powerOnTime m)"

definition getTimeInState :: "u64 \<Rightarrow> boot_state \<Rightarrow> 'e boot_machine \<Rightarrow> u64" where
  "getTimeInState now st m =
     (case bm_stateTimeAccumulator m st of
        None \<Rightarrow> 0
      | Some acc \<Rightarrow> if bm_currentState m = st then acc + getTimeInCurrentState now m else acc)"

definition clearHistory :: "'e boot_machine \<Rightarrow> 'e boot_machine" where
  "clearHistory m = m\<lparr>bm_transitionHistory := []\<rparr>"

definition restoreCheckpointState :: "boot_state \<Rightarrow> boot_state \<Rightarrow> 'e boot_machine \<Rightarrow> 'e boot_machine" where
  "restoreCheckpointState cur prev m =
     m\<lparr>bm_currentState := cur, bm_previousState := prev, bm_currentStateEntryTime := 0,
       bm_powerOnTime := 0, bm_bootCompleteTime := 0, bm_transitionHistory := [],
       bm_stateTimeAccumulator := Map.empty\<rparr>"

subsection \<open>Histories\<close>

interpretation boot_history: bounded_history limit "history_add limit" for limit
proof unfold_locales
  fix h :: "boot_transition list" and x
  assume "length h \<le> limit"
  then show "history_add limit x h = drop (Suc (length h) - limit) (h @ [x])"
    by (cases "length h = limit") (auto simp: history_add_def Let_def)
qed

lemmas boot_ops = enter_state_def milestones_def updateTimeTracking_def recordTransition_def

lemma transition_fields:
  assumes "transition clock env n r m = (ok, evs, m')"
  shows "bm_validTransitions m' = bm_validTransitions m" "bm_maxHistorySize m' = bm_maxHistorySize m"
    "bm_transitionConditions m' = bm_transitionConditions m"
    "bm_currentState m' = (if ok then n else bm_currentState m)"
    "bm_previousState m' = (if ok then bm_currentState m else bm_previousState m)"
    "ok \<longleftrightarrow> canTransition env (bm_currentState m) n m = None"
    "\<exists>x. bm_transitionHistory m' = history_add (bm_maxHistorySize m) x (bm_transitionHistory m)"
  using assms
  by (auto simp: transition_def canTransition_def boot_ops Let_def split: if_splits option.splits)

subsection \<open>Runs\<close>

text \<open>
  A run: any sequence of the operations of the class. The second argument lists the states the machine was in,
  newest first: \<open>Went s\<close> when a validated transition entered \<open>s\<close>, \<open>Put s\<close> when the constructor, a reset, a
  forced transition or a checkpoint restore put the machine there past the graph.
\<close>

datatype boot_entry = Went (entry_state: boot_state) | Put (entry_state: boot_state)

inductive boot_run :: "'e boot_machine \<Rightarrow> boot_entry list \<Rightarrow> bool" where
  start: "boot_run (VMBootStateMachine now) [Put POWERED_OFF]"
| go: "\<lbrakk>boot_run m tr; transition clock env n r m = (True, evs, m')\<rbrakk> \<Longrightarrow> boot_run m' (Went n # tr)"
| stay: "\<lbrakk>boot_run m tr; transition clock env n r m = (False, evs, m')\<rbrakk> \<Longrightarrow> boot_run m' tr"
| force: "\<lbrakk>boot_run m tr; forceTransition clock n r m = (evs, m')\<rbrakk> \<Longrightarrow> boot_run m' (Put n # tr)"
| restore: "boot_run m tr \<Longrightarrow> boot_run (restoreCheckpointState n p m) (Put n # tr)"
| reset: "boot_run m tr \<Longrightarrow> boot_run (boot_reset clock m) (Put POWERED_OFF # tr)"
| condition: "boot_run m tr \<Longrightarrow> boot_run (addTransitionCondition f t name descr v m) tr"
| no_condition: "boot_run m tr \<Longrightarrow> boot_run (removeTransitionCondition f t name m) tr"
| changed: "boot_run m tr \<Longrightarrow> boot_run (onStateChanged cb m) tr"
| failed: "boot_run m tr \<Longrightarrow> boot_run (onValidationFailure cb m) tr"
| entering: "boot_run m tr \<Longrightarrow> boot_run (onEnterState st cb m) tr"
| exiting: "boot_run m tr \<Longrightarrow> boot_run (onExitState st cb m) tr"
| forget: "boot_run m tr \<Longrightarrow> boot_run (clearHistory m) tr"

inductive_cases boot_runE: "boot_run m tr"

text \<open>\<open>powerOn\<close> and \<open>shutdown\<close> are no operations of their own: they request a transition or do nothing.\<close>

lemma powerOn_run:
  assumes "boot_run m tr" "powerOn clock env m = (ok, evs, m')"
  shows "boot_run m' (if ok then Went POWER_ON # tr else tr)"
  using assms by (auto simp: powerOn_def intro: boot_run.go boot_run.stay split: if_splits)

lemma shutdown_run:
  assumes "boot_run m tr" "shutdown clock env m = (ok, evs, m')"
  shows "boot_run m' (if ok then Went SHUTDOWN_INIT # tr else tr)"
  using assms by (auto simp: shutdown_def intro: boot_run.go boot_run.stay split: if_splits)

text \<open>Every state that was entered by a transition is a successor of the one before.\<close>

fun run_path :: "boot_entry list \<Rightarrow> bool" where
  "run_path [] = False"
| "run_path (Put s # tr) = True"
| "run_path (Went s # tr) = (tr \<noteq> [] \<and> s \<in> set (transition_graph (entry_state (hd tr))) \<and> run_path tr)"

text \<open>A path of the graph, newest state first, that starts powered off.\<close>

fun graph_path :: "boot_state list \<Rightarrow> bool" where
  "graph_path [] = False"
| "graph_path [s] = (s = POWERED_OFF)"
| "graph_path (s # s' # tr) = (s \<in> set (transition_graph s') \<and> graph_path (s' # tr))"

lemmas boot_config_defs = addTransitionCondition_def removeTransitionCondition_def onStateChanged_def
  onValidationFailure_def onEnterState_def onExitState_def clearHistory_def

lemma boot_run_invariant:
  assumes "boot_run m tr"
  shows "run_path tr \<and> bm_currentState m = entry_state (hd tr) \<and> (\<forall>s. bm_validTransitions m s = Some (transition_graph s)) \<and>
    length (bm_transitionHistory m) \<le> bm_maxHistorySize m"
  using assms
proof (induction rule: boot_run.induct)
  case (start now)
  then show ?case by (simp add: VMBootStateMachine_def)
next
  case (go m tr clock env n r evs m')
  note f = transition_fields [OF go.hyps(2)]
  have "n \<in> set (transition_graph (entry_state (hd tr)))"
    using f(6) go.IH by (simp add: canTransition_def isTransitionInGraph_def split: if_splits)
  moreover obtain s tr' where "tr = s # tr'"
    using go.IH by (cases tr) simp_all
  moreover have "length (bm_transitionHistory m') \<le> bm_maxHistorySize m'"
    using boot_history.add_bounded go.IH f(2,7) by auto
  ultimately show ?case
    using go.IH f by simp
next
  case (force m tr clock n r evs m')
  then have "\<exists>x. bm_transitionHistory m' = history_add (bm_maxHistorySize m) x (bm_transitionHistory m)"
    "bm_maxHistorySize m' = bm_maxHistorySize m"
    by (auto simp: forceTransition_def boot_ops Let_def)
  then have "length (bm_transitionHistory m') \<le> bm_maxHistorySize m'"
    using boot_history.add_bounded force.IH by auto
  then show ?case
    using force by (auto simp: forceTransition_def boot_ops Let_def)
next
  case (stay m tr clock env n r evs m')
  note f = transition_fields [OF stay.hyps(2)]
  have "length (bm_transitionHistory m') \<le> bm_maxHistorySize m'"
    using boot_history.add_bounded stay.IH f(2,7) by auto
  then show ?case
    using stay.IH f by simp
qed (simp_all add: boot_config_defs restoreCheckpointState_def boot_reset_def enter_state_def updateTimeTracking_def Let_def)

text \<open>Each state of the boot sequence has one predecessor in the graph.\<close>

lemma graph_pred:
  "POWER_ON \<in> set (transition_graph s) \<longleftrightarrow> s = POWERED_OFF"
  "FIRMWARE_INIT \<in> set (transition_graph s) \<longleftrightarrow> s = POWER_ON"
  "BOOTLOADER_EXEC \<in> set (transition_graph s) \<longleftrightarrow> s = FIRMWARE_INIT"
  "KERNEL_LOAD \<in> set (transition_graph s) \<longleftrightarrow> s = BOOTLOADER_EXEC"
  "KERNEL_ENTRY \<in> set (transition_graph s) \<longleftrightarrow> s = KERNEL_LOAD"
  "KERNEL_INIT \<in> set (transition_graph s) \<longleftrightarrow> s = KERNEL_ENTRY"
  "INIT_PROCESS \<in> set (transition_graph s) \<longleftrightarrow> s = KERNEL_INIT"
  "USERSPACE_RUNNING \<in> set (transition_graph s) \<longleftrightarrow> s = INIT_PROCESS"
  "SHUTDOWN_INIT \<in> set (transition_graph s) \<longleftrightarrow> s = USERSPACE_RUNNING"
  by (cases s; simp)+

text \<open>The boot sequence, backwards from userspace, and chains of states with one predecessor each.\<close>

definition boot_path :: "boot_state list" where
  "boot_path = [USERSPACE_RUNNING, INIT_PROCESS, KERNEL_INIT, KERNEL_ENTRY, KERNEL_LOAD, BOOTLOADER_EXEC,
     FIRMWARE_INIT, POWER_ON, POWERED_OFF]"

fun forced_path :: "boot_state list \<Rightarrow> bool" where
  "forced_path (s # p # ps) \<longleftrightarrow> (\<forall>x. s \<in> set (transition_graph x) \<longrightarrow> x = p) \<and> forced_path (p # ps)"
| "forced_path _ = True"

lemma forced_boot_path: "forced_path boot_path"
  by (simp add: boot_path_def graph_pred)

lemma run_along_path:
  assumes "run_path tr" "entry_state (hd tr) = s" "forced_path (s # ps)"
  shows "(\<exists>k tr'. k \<le> length ps \<and> tr = map Went (take k (s # ps)) @ Put ((s # ps) ! k) # tr') \<or>
    (\<exists>tr'. tr = map Went (s # ps) @ tr')"
  using assms
proof (induction ps arbitrary: s tr)
  case Nil
  then show ?case by (cases tr rule: run_path.cases) auto
next
  case (Cons p ps)
  show ?case
  proof (cases tr rule: run_path.cases)
    case 1
    with Cons.prems show ?thesis by simp
  next
    case (2 s' tr')
    then have "tr = map Went (take 0 (s # p # ps)) @ Put ((s # p # ps) ! 0) # tr'"
      using Cons.prems(2) by simp
    then show ?thesis by blast
  next
    case (3 s' tr')
    have "entry_state (hd tr') = p" "run_path tr'" "forced_path (p # ps)" "s' = s"
      using Cons.prems 3 by auto
    from Cons.IH [OF this(2,1,3)] show ?thesis
    proof (elim disjE exE conjE)
      fix k tr''
      assume "k \<le> length ps" "tr' = map Went (take k (p # ps)) @ Put ((p # ps) ! k) # tr''"
      then have "Suc k \<le> length (p # ps)"
        "tr = map Went (take (Suc k) (s # p # ps)) @ Put ((s # p # ps) ! Suc k) # tr''"
        using 3 \<open>s' = s\<close> by simp_all
      then show ?thesis by blast
    next
      fix tr''
      assume "tr' = map Went (p # ps) @ tr''"
      then show ?thesis using 3 \<open>s' = s\<close> by simp
    qed
  qed
qed

text \<open>C29: whatever operations are performed on the boot machine, with whatever conditions and callbacks installed,
  when it is in userspace the latest states of its run are the boot sequence, each entered by a validated transition,
  back to power-off or to the latest point where a forced transition or a checkpoint restore put the machine into one
  of these states past the validation; without such a point other than power-off, the whole sequence was run. The
  recorded history never outgrows its bound.\<close>

theorem userspace_needs_full_boot:
  assumes "boot_run m tr" "bm_currentState m = USERSPACE_RUNNING"
  shows "((\<exists>k tr'. k < length boot_path \<and> tr = map Went (take k boot_path) @ Put (boot_path ! k) # tr') \<or>
      (\<exists>tr'. tr = map Went boot_path @ tr')) \<and>
    ((\<forall>s. Put s \<in> set tr \<longrightarrow> s = POWERED_OFF) \<longrightarrow> take 9 (map entry_state tr) = boot_path) \<and>
    length (bm_transitionHistory m) \<le> bm_maxHistorySize m"
proof -
  note inv = boot_run_invariant [OF assms(1)]
  obtain ps where ps: "boot_path = USERSPACE_RUNNING # ps" "length ps = 8" "length boot_path = 9"
    by (simp add: boot_path_def)
  then have len: "k < length boot_path \<longleftrightarrow> k \<le> length ps" for k
    by auto
  have path: "(\<exists>k tr'. k < length boot_path \<and> tr = map Went (take k boot_path) @ Put (boot_path ! k) # tr') \<or>
      (\<exists>tr'. tr = map Went boot_path @ tr')"
    using run_along_path [of tr USERSPACE_RUNNING ps, folded ps(1)] inv assms(2) forced_boot_path ps(1)
    unfolding len by simp
  have "take 9 (map entry_state tr) = boot_path" if only: "\<forall>s. Put s \<in> set tr \<longrightarrow> s = POWERED_OFF"
    using path
  proof (elim disjE exE conjE)
    fix k tr'
    assume k: "k < length boot_path" "tr = map Went (take k boot_path) @ Put (boot_path ! k) # tr'"
    then have "boot_path ! k = POWERED_OFF" using only by auto
    with k(1) have "k = 8" by (auto simp: boot_path_def less_Suc_eq numeral_eq_Suc)
    with k(2) show ?thesis by (simp add: boot_path_def comp_def)
  qed (simp add: boot_path_def comp_def)
  with path inv show ?thesis by blast
qed

text \<open>A sequence of requested transitions, each of which must succeed.\<close>

primrec drive :: "(nat \<Rightarrow> u64) \<Rightarrow> 'e \<Rightarrow> boot_state list \<Rightarrow> 'e boot_machine \<Rightarrow> 'e boot_machine option" where
  "drive clock env [] m = Some m"
| "drive clock env (n # ns) m =
     (case transition clock env n '''' m of
        (True, _, m') \<Rightarrow> drive clock env ns m'
      | (False, _, _) \<Rightarrow> None)"

definition graph_ok :: "'e boot_machine \<Rightarrow> bool" where
  "graph_ok m \<longleftrightarrow> (\<forall>s. bm_validTransitions m s = Some (transition_graph s))"

definition unconditional :: "'e boot_machine \<Rightarrow> bool" where
  "unconditional m \<longleftrightarrow> (\<forall>f t. bm_transitionConditions m f t = [])"

lemma new_machine [simp]:
  "graph_ok (VMBootStateMachine now)" "unconditional (VMBootStateMachine now)"
  "bm_currentState (VMBootStateMachine now) = POWERED_OFF"
  by (simp_all add: graph_ok_def unconditional_def VMBootStateMachine_def)

lemma transition_unconditional:
  assumes "graph_ok m" "unconditional m" "n \<in> set (transition_graph (bm_currentState m))"
  obtains evs m' where "transition clock env n r m = (True, evs, m')" "graph_ok m'" "unconditional m'"
    "bm_currentState m' = n"
proof -
  obtain ok evs m' where t: "transition clock env n r m = (ok, evs, m')"
    by (metis prod_cases3)
  note f = transition_fields [OF t]
  have ok
    using assms f(6) by (simp add: canTransition_def isTransitionInGraph_def validateTransitionConditions_def
        graph_ok_def unconditional_def)
  with t f assms(1,2) show thesis
    by (intro that [of evs m']) (simp_all add: graph_ok_def unconditional_def)
qed

lemma graph_path_suffix: "graph_path (xs @ y # ys) \<Longrightarrow> graph_path (y # ys)"
proof (induction xs)
  case (Cons x xs)
  then show ?case by (cases xs) auto
qed simp

lemma drive_path:
  assumes "graph_ok m" "unconditional m" "graph_path (rev ns @ tr)" "tr \<noteq> []" "hd tr = bm_currentState m"
  shows "\<exists>m'. drive clock env ns m = Some m' \<and> bm_currentState m' = hd (rev ns @ tr)"
  using assms
proof (induction ns arbitrary: m tr)
  case Nil
  then show ?case by simp
next
  case (Cons n ns)
  obtain s tr' where tr: "tr = s # tr'" using Cons.prems(4) by (cases tr) auto
  have "graph_path (n # tr)"
    using Cons.prems(3) graph_path_suffix [of "rev ns" n tr] by simp
  then have "n \<in> set (transition_graph (bm_currentState m))"
    using Cons.prems(5) by (simp add: tr)
  then obtain evs m' where m': "transition clock env n '''' m = (True, evs, m')" "graph_ok m'" "unconditional m'"
    "bm_currentState m' = n"
    by (rule transition_unconditional [OF Cons.prems(1,2)])
  have "\<exists>m''. drive clock env ns m' = Some m'' \<and> bm_currentState m'' = hd (rev ns @ n # tr)"
    by (rule Cons.IH [OF m'(2,3)]) (use Cons.prems(3) m'(4) in simp_all)
  with m'(1) show ?case by simp
qed

lemma drive_run: "boot_run m tr \<Longrightarrow> drive clock env ns m = Some m' \<Longrightarrow> boot_run m' (map Went (rev ns) @ tr)"
proof (induction ns arbitrary: m tr)
  case Nil
  then show ?case by simp
next
  case (Cons n ns)
  from Cons.prems(2) obtain evs m1 where t: "transition clock env n '''' m = (True, evs, m1)"
    "drive clock env ns m1 = Some m'"
    by (auto split: prod.splits bool.splits)
  from Cons.IH [OF boot_run.go [OF Cons.prems(1) t(1)] t(2)] show ?case by simp
qed

lemma userspace_needs_full_boot_witness:
  "\<exists>m :: unit boot_machine. \<exists>tr. boot_run m tr \<and> bm_currentState m = USERSPACE_RUNNING \<and>
     take 9 (map entry_state tr) = boot_path"
proof -
  define m0 :: "unit boot_machine" where "m0 = VMBootStateMachine 0"
  define ns where "ns = [POWER_ON, FIRMWARE_INIT, BOOTLOADER_EXEC, KERNEL_LOAD, KERNEL_ENTRY, KERNEL_INIT,
    INIT_PROCESS, USERSPACE_RUNNING]"
  have "graph_path (rev ns @ [POWERED_OFF])" "hd (rev ns @ [POWERED_OFF]) = USERSPACE_RUNNING"
    by (simp_all add: ns_def)
  then obtain m where m: "drive (\<lambda>_. 1) () ns m0 = Some m" "bm_currentState m = USERSPACE_RUNNING"
    using drive_path [of m0 ns "[POWERED_OFF]" "\<lambda>_. 1" "()"] by (auto simp: m0_def)
  have run: "boot_run m (map Went (rev ns) @ [Put POWERED_OFF])"
    using drive_run [OF boot_run.start m(1) [unfolded m0_def]] .
  have "\<forall>s. Put s \<in> set (map Went (rev ns) @ [Put POWERED_OFF]) \<longrightarrow> s = POWERED_OFF" by auto
  with userspace_needs_full_boot [OF run m(2)] run m(2) show ?thesis by blast
qed

text \<open>A forced transition does bypass the sequence.\<close>

lemma forced_userspace:
  "boot_run (snd (forceTransition clock USERSPACE_RUNNING r (VMBootStateMachine now))) [Put USERSPACE_RUNNING, Put POWERED_OFF] \<and>
   bm_currentState (snd (forceTransition clock USERSPACE_RUNNING r (VMBootStateMachine now))) = USERSPACE_RUNNING"
  using boot_run.force [OF boot_run.start prod.collapse [symmetric]]
  by (simp add: forceTransition_def boot_ops Let_def)

text \<open>from every state a machine without installed conditions can be powered off, and two transitions are
  always enough.\<close>

theorem power_off_within_two:
  assumes "graph_ok m" "unconditional m"
  shows "\<exists>ns m'. length ns \<le> 2 \<and> drive clock env ns m = Some m' \<and> bm_currentState m' = POWERED_OFF"
proof -
  have two: ?thesis
    if edges: "x \<in> set (transition_graph (bm_currentState m))" "POWERED_OFF \<in> set (transition_graph x)" for x
  proof -
    obtain e1 m1 where m1: "transition clock env x '''' m = (True, e1, m1)" "graph_ok m1" "unconditional m1"
      "bm_currentState m1 = x"
      by (rule transition_unconditional [OF assms edges(1)])
    obtain e2 m2 where "transition clock env POWERED_OFF '''' m1 = (True, e2, m2)" "bm_currentState m2 = POWERED_OFF"
      by (rule transition_unconditional [OF m1(2,3)]) (use edges(2) m1(4) in simp_all)
    with m1(1) show ?thesis
      by (intro exI [of _ "[x, POWERED_OFF]"]) simp
  qed
  show ?thesis
  proof (cases "POWERED_OFF \<in> set (transition_graph (bm_currentState m))")
    case True
    obtain e1 m1 where "transition clock env POWERED_OFF '''' m = (True, e1, m1)" "bm_currentState m1 = POWERED_OFF"
      by (rule transition_unconditional [OF assms True])
    then show ?thesis by (intro exI [of _ "[POWERED_OFF]"]) simp
  next
    case False
    show ?thesis
    proof (cases "bm_currentState m = POWERED_OFF")
      case True
      then show ?thesis by (intro exI [of _ "[]"]) simp
    next
      case off: False
      then have "EMERGENCY_HALT \<in> set (transition_graph (bm_currentState m)) \<or>
          POWER_OFF \<in> set (transition_graph (bm_currentState m))"
        using False by (cases "bm_currentState m") simp_all
      then show ?thesis using two by auto
    qed
  qed
qed

lemma power_off_within_two_witness:
  "\<exists>ns m'. length ns \<le> 2 \<and>
     drive (\<lambda>_. 1) () ns ((VMBootStateMachine 0)\<lparr>bm_currentState := KERNEL_INIT\<rparr> :: unit boot_machine) = Some m' \<and>
     bm_currentState m' = POWERED_OFF"
  by (rule power_off_within_two) (simp_all add: graph_ok_def unconditional_def VMBootStateMachine_def)

text \<open>\<open>shutdown\<close> documents itself as usable from most states; the graph has an edge to \<open>SHUTDOWN_INIT\<close> from
  userspace only, so from every other state it is refused and changes nothing but the history.\<close>

lemma shutdown_only_from_userspace:
  assumes "graph_ok m" "shutdown clock env m = (ok, evs, m')"
  shows "ok \<longleftrightarrow> bm_currentState m = USERSPACE_RUNNING \<and>
      validateTransitionConditions env USERSPACE_RUNNING SHUTDOWN_INIT m = None"
    "\<not> ok \<Longrightarrow> bm_currentState m' = bm_currentState m"
proof -
  have edge: "SHUTDOWN_INIT \<in> set (transition_graph s) \<longleftrightarrow> s = USERSPACE_RUNNING" for s
    by (rule graph_pred(9))
  show "ok \<longleftrightarrow> bm_currentState m = USERSPACE_RUNNING \<and>
      validateTransitionConditions env USERSPACE_RUNNING SHUTDOWN_INIT m = None"
    using assms transition_fields(6) [of clock env SHUTDOWN_INIT "''Shutdown initiated''" m ok evs m'] edge
    by (auto simp: shutdown_def canTransition_def isTransitionInGraph_def graph_ok_def split: if_splits)
  show "\<not> ok \<Longrightarrow> bm_currentState m' = bm_currentState m"
    using assms(2) transition_fields(4) [of clock env SHUTDOWN_INIT "''Shutdown initiated''" m ok evs m']
    by (auto simp: shutdown_def split: if_splits)
qed

text \<open>The time of the present state counts only after the state has been left once before.\<close>

lemma first_visit_has_no_time:
  "bm_stateTimeAccumulator m (bm_currentState m) = None \<Longrightarrow> getTimeInState now (bm_currentState m) m = 0"
  by (simp add: getTimeInState_def)

end
