(* ===== verification/Scheduler.thy ===== *)
theory Scheduler
  imports Prelude "HOL-Library.Signed_Division"
begin

text \<open>
  The CPU contexts and the round-robin scheduler (\<open>src/src/vm/CPUContext.cpp\<close>,
  \<open>src/src/vm/SimpleCPUScheduler.cpp\<close>). The vector of context pointers is a list of optional contexts
  (\<open>None\<close> a null pointer). Executing one instruction of a processor, \<open>CPU::step\<close>, is the argument
  \<open>step\<close>; preemption callbacks act on an environment \<open>'e\<close>, and \<open>onBeforeSchedule\<close> may change the contexts
  it is handed. The lemmas show that the scheduler is fair and what a quantum executes.
\<close>

subsection \<open>CPU contexts\<close>

datatype cpu_execution_state = IDLE | RUNNING | HALTED | WAITING | ERROR

record 'c cpu_context =
  ctx_cpu :: "'c option"
  ctx_cpuId :: u32
  ctx_state :: cpu_execution_state
  ctx_cyclesExecuted :: u64
  ctx_instructionsExecuted :: u64
  ctx_idleCycles :: u64
  ctx_enabled :: bool
  ctx_lastActivationTime :: u64

definition CPUContext :: "u32 \<Rightarrow> 'c cpu_context" where
  "CPUContext i = \<lparr>ctx_cpu = None, ctx_cpuId = i, ctx_state = IDLE, ctx_cyclesExecuted = 0,
     ctx_instructionsExecuted = 0, ctx_idleCycles = 0, ctx_enabled = False, ctx_lastActivationTime = 0\<rparr>"

definition isRunning :: "'c cpu_context \<Rightarrow> bool" where
  "isRunning c \<longleftrightarrow> ctx_state c = RUNNING"

definition runnable :: "'c cpu_context option \<Rightarrow> bool" where
  "runnable c = (case c of None \<Rightarrow> False | Some ctx \<Rightarrow> ctx_enabled ctx \<and> isRunning ctx)"

subsection \<open>The scheduler\<close>

record ('c, 'e) preemption_callback =
  pc_onBeforeSchedule :: "int \<Rightarrow> 'c cpu_context option list \<Rightarrow> 'e \<Rightarrow> bool \<times> 'c cpu_context option list \<times> 'e"
  pc_onAfterInstruction :: "int \<Rightarrow> u64 \<Rightarrow> 'e \<Rightarrow> bool \<times> 'e"
  pc_onQuantumExpired :: "int \<Rightarrow> u64 \<Rightarrow> 'e \<Rightarrow> 'e"

record ('c, 'e) scheduler =
  sch_lastCPUIndex :: int
  sch_numCPUs :: nat
  sch_quantumSize :: u64
  sch_preemptionCallbacks :: "(nat \<times> ('c, 'e) preemption_callback) list"
  sch_cpuBundleCounters :: "u64 list"

definition SimpleCPUScheduler :: "('c, 'e) scheduler" where
  "SimpleCPUScheduler = \<lparr>sch_lastCPUIndex = -1, sch_numCPUs = 0, sch_quantumSize = 10,
     sch_preemptionCallbacks = [], sch_cpuBundleCounters = []\<rparr>"

text \<open>\<open>resize\<close> keeps the counters that are there.\<close>

definition sch_initialize :: "'c cpu_context option list \<Rightarrow> ('c, 'e) scheduler \<Rightarrow> ('c, 'e) scheduler" where
  "sch_initialize cpus s =
     s\<lparr>sch_numCPUs := length cpus, sch_lastCPUIndex := -1,
       sch_cpuBundleCounters := take (length cpus) (sch_cpuBundleCounters s) @
         replicate (length cpus - length (sch_cpuBundleCounters s)) 0\<rparr>"

text \<open>The search loop, from index \<open>i\<close>; \<open>-1\<close> is not found.\<close>

fun find_runnable :: "int \<Rightarrow> 'c cpu_context option list \<Rightarrow> int" where
  "find_runnable i [] = -1"
| "find_runnable i (c # cs) = (if runnable c then i else find_runnable (i + 1) cs)"

definition findNextRunnableCPU :: "'c cpu_context option list \<Rightarrow> int \<Rightarrow> cpp_error + int" where
  "findNextRunnableCPU cpus startIndex =
     (if startIndex < 0 \<and> cpus \<noteq> [] then Inl UndefinedBehaviour
      else Inr (find_runnable startIndex (drop (nat startIndex) cpus)))"

definition selectNextCPU :: "'c cpu_context option list \<Rightarrow> ('c, 'e) scheduler \<Rightarrow> cpp_error + int" where
  "selectNextCPU cpus s =
     (if cpus = [] then Inr (-1)
      else if length cpus = 1 then Inr (if runnable (cpus ! 0) then 0 else -1)
      else
        let startIndex = (sch_lastCPUIndex s + 1) smod int (length cpus) in
        and_then (findNextRunnableCPU cpus startIndex) (\<lambda>nextCPU.
          if nextCPU \<noteq> -1 then Inr nextCPU
          else if startIndex \<noteq> 0 then findNextRunnableCPU cpus 0
          else Inr nextCPU))"

definition onCPUExecuted :: "int \<Rightarrow> ('c, 'e) scheduler \<Rightarrow> ('c, 'e) scheduler" where
  "onCPUExecuted cpuIndex s = s\<lparr>sch_lastCPUIndex := cpuIndex\<rparr>"

definition sch_reset :: "('c, 'e) scheduler \<Rightarrow> ('c, 'e) scheduler" where
  "sch_reset s = s\<lparr>sch_lastCPUIndex := -1,
     sch_cpuBundleCounters := map (\<lambda>_. 0) (sch_cpuBundleCounters s)\<rparr>"

subsection \<open>Stepping\<close>

definition executeSingleInstruction :: "('c \<Rightarrow> bool \<times> 'c) \<Rightarrow> 'c cpu_context option \<Rightarrow> int \<Rightarrow> ('c, 'e) scheduler
    \<Rightarrow> bool \<times> 'c cpu_context option \<times> ('c, 'e) scheduler" where
  "executeSingleInstruction step ctx cpuIndex s =
     (case ctx of
        None \<Rightarrow> (False, ctx, s)
      | Some c \<Rightarrow>
          (case ctx_cpu c of
             None \<Rightarrow> (False, ctx, s)
           | Some cpu \<Rightarrow>
               (case step cpu of
                  (shouldContinue, cpu') \<Rightarrow>
                    (shouldContinue,
                     Some (c\<lparr>ctx_cpu := Some cpu', ctx_cyclesExecuted := ctx_cyclesExecuted c + 1,
                       ctx_instructionsExecuted := ctx_instructionsExecuted c + 1\<rparr>),
                     onCPUExecuted cpuIndex s))))"

definition stepCPU :: "('c \<Rightarrow> bool \<times> 'c) \<Rightarrow> 'c cpu_context option list \<Rightarrow> int \<Rightarrow> ('c, 'e) scheduler
    \<Rightarrow> bool \<times> 'c cpu_context option list \<times> ('c, 'e) scheduler" where
  "stepCPU step cpus cpuIndex s =
     (if cpuIndex < 0 \<or> cpuIndex \<ge> int (length cpus) then (False, cpus, s)
      else if \<not> runnable (cpus ! nat cpuIndex) then (False, cpus, s)
      else
        case executeSingleInstruction step (cpus ! nat cpuIndex) cpuIndex s of
          (ok, c', s') \<Rightarrow> (ok, cpus[nat cpuIndex := c'], s'))"

fun step_all_loop :: "('c \<Rightarrow> bool \<times> 'c) \<Rightarrow> int \<Rightarrow> 'c cpu_context option list \<Rightarrow> int \<Rightarrow> ('c, 'e) scheduler
    \<Rightarrow> int \<times> 'c cpu_context option list \<times> ('c, 'e) scheduler" where
  "step_all_loop step i [] successCount s = (successCount, [], s)"
| "step_all_loop step i (c # cs) successCount s =
     (if runnable c then
        case executeSingleInstruction step c i s of
          (ok, c', s') \<Rightarrow>
            (case step_all_loop step (i + 1) cs (if ok then successCount + 1 else successCount) s' of
               (n, cs', s'') \<Rightarrow> (n, c' # cs', s''))
      else
        case step_all_loop step (i + 1) cs successCount s of (n, cs', s'') \<Rightarrow> (n, c # cs', s''))"

definition stepAllCPUs :: "('c \<Rightarrow> bool \<times> 'c) \<Rightarrow> 'c cpu_context option list \<Rightarrow> ('c, 'e) scheduler
    \<Rightarrow> int \<times> 'c cpu_context option list \<times> ('c, 'e) scheduler" where
  "stepAllCPUs step cpus s = step_all_loop step 0 cpus 0 s"

subsection \<open>Quanta and preemption\<close>

fun before_callbacks :: "int \<Rightarrow> (nat \<times> ('c, 'e) preemption_callback) list \<Rightarrow> 'c cpu_context option list \<Rightarrow> 'e
    \<Rightarrow> bool \<times> 'c cpu_context option list \<times> 'e" where
  "before_callbacks cpu [] cpus e = (True, cpus, e)"
| "before_callbacks cpu ((i, cb) # cbs) cpus e =
     (case pc_onBeforeSchedule cb cpu cpus e of
        (True, cpus', e') \<Rightarrow> before_callbacks cpu cbs cpus' e'
      | (False, cpus', e') \<Rightarrow> (False, cpus', e'))"

fun after_callbacks :: "int \<Rightarrow> u64 \<Rightarrow> (nat \<times> ('c, 'e) preemption_callback) list \<Rightarrow> 'e \<Rightarrow> bool \<times> 'e" where
  "after_callbacks cpu n [] e = (True, e)"
| "after_callbacks cpu n ((i, cb) # cbs) e =
     (case pc_onAfterInstruction cb cpu n e of
        (True, e') \<Rightarrow> after_callbacks cpu n cbs e'
      | (False, e') \<Rightarrow> (False, e'))"

fun expired_callbacks :: "int \<Rightarrow> u64 \<Rightarrow> (nat \<times> ('c, 'e) preemption_callback) list \<Rightarrow> 'e \<Rightarrow> 'e" where
  "expired_callbacks cpu n [] e = e"
| "expired_callbacks cpu n ((i, cb) # cbs) e = expired_callbacks cpu n cbs (pc_onQuantumExpired cb cpu n e)"

text \<open>
  One bundle: the instructions from \<open>instrInBundle\<close> on, \<open>left\<close> of them. The first component says whether the
  bundle was completed.
\<close>

primrec bundle_loop :: "nat \<Rightarrow> ('c \<Rightarrow> bool \<times> 'c) \<Rightarrow> nat \<Rightarrow> u64 \<Rightarrow> 'c cpu_context option list \<Rightarrow> ('c, 'e) scheduler \<Rightarrow> 'e
    \<Rightarrow> bool \<times> 'c cpu_context option list \<times> ('c, 'e) scheduler \<times> 'e" where
  "bundle_loop 0 step i bundles cpus s e = (True, cpus, s, e)"
| "bundle_loop (Suc left) step i bundles cpus s e =
     (case before_callbacks (int i) (sch_preemptionCallbacks s) cpus e of
        (False, cpus1, e1) \<Rightarrow> (False, cpus1, s, e1)
      | (True, cpus1, e1) \<Rightarrow>
          (case executeSingleInstruction step (cpus1 ! i) (int i) s of
             (False, c', s1) \<Rightarrow> (False, cpus1[i := c'], s1, e1)
           | (True, c', s1) \<Rightarrow>
               let instructionsInQuantum = bundles * 3 + (2 - of_nat left) + 1 in
               (case after_callbacks (int i) instructionsInQuantum (sch_preemptionCallbacks s1) e1 of
                  (False, e2) \<Rightarrow> (False, cpus1[i := c'], s1, e2)
                | (True, e2) \<Rightarrow>
                    if (case c' of None \<Rightarrow> True | Some c \<Rightarrow> \<not> isRunning c)
                    then (False, cpus1[i := c'], s1, e2)
                    else bundle_loop left step i bundles (cpus1[i := c']) s1 e2)))"

primrec quantum_loop :: "nat \<Rightarrow> ('c \<Rightarrow> bool \<times> 'c) \<Rightarrow> nat \<Rightarrow> u64 \<Rightarrow> 'c cpu_context option list \<Rightarrow> ('c, 'e) scheduler \<Rightarrow> 'e
    \<Rightarrow> u64 \<times> 'c cpu_context option list \<times> ('c, 'e) scheduler \<times> 'e" where
  "quantum_loop 0 step i bundles cpus s e =
     (bundles, cpus, s, expired_callbacks (int i) bundles (sch_preemptionCallbacks s) e)"
| "quantum_loop (Suc n) step i bundles cpus s e =
     (case bundle_loop 3 step i bundles cpus s e of
        (False, cpus1, s1, e1) \<Rightarrow>
          (bundles, cpus1, s1, expired_callbacks (int i) bundles (sch_preemptionCallbacks s1) e1)
      | (True, cpus1, s1, e1) \<Rightarrow>
          let s2 = (if i < length (sch_cpuBundleCounters s1)
                    then s1\<lparr>sch_cpuBundleCounters := (sch_cpuBundleCounters s1)[i := sch_cpuBundleCounters s1 ! i + 1]\<rparr>
                    else s1)
          in quantum_loop n step i (bundles + 1) cpus1 s2 e1)"

definition stepQuantum :: "('c \<Rightarrow> bool \<times> 'c) \<Rightarrow> 'c cpu_context option list \<Rightarrow> int \<Rightarrow> u64 \<Rightarrow> ('c, 'e) scheduler \<Rightarrow> 'e
    \<Rightarrow> u64 \<times> 'c cpu_context option list \<times> ('c, 'e) scheduler \<times> 'e" where
  "stepQuantum step cpus cpuIndex bundleCount s e =
     (if cpuIndex < 0 \<or> cpuIndex \<ge> int (length cpus) then (0, cpus, s, e)
      else if \<not> runnable (cpus ! nat cpuIndex) then (0, cpus, s, e)
      else quantum_loop (unat bundleCount) step (nat cpuIndex) 0 cpus s e)"

definition registerPreemptionCallback ::
  "nat \<Rightarrow> ('c, 'e) preemption_callback \<Rightarrow> ('c, 'e) scheduler \<Rightarrow> ('c, 'e) scheduler" where
  "registerPreemptionCallback i cb s = s\<lparr>sch_preemptionCallbacks := sch_preemptionCallbacks s @ [(i, cb)]\<rparr>"

fun remove_callback :: "nat \<Rightarrow> (nat \<times> 'b) list \<Rightarrow> (nat \<times> 'b) list" where
  "remove_callback i [] = []"
| "remove_callback i ((j, cb) # cbs) = (if j = i then cbs else (j, cb) # remove_callback i cbs)"

definition unregisterPreemptionCallback :: "nat \<Rightarrow> ('c, 'e) scheduler \<Rightarrow> ('c, 'e) scheduler" where
  "unregisterPreemptionCallback i s =
     s\<lparr>sch_preemptionCallbacks := remove_callback i (sch_preemptionCallbacks s)\<rparr>"

definition setQuantumSize :: "u64 \<Rightarrow> ('c, 'e) scheduler \<Rightarrow> ('c, 'e) scheduler" where
  "setQuantumSize n s = s\<lparr>sch_quantumSize := n\<rparr>"

record scheduler_snapshot =
  ss_lastCPUIndex :: int
  ss_numCPUs :: int
  ss_quantumSize :: u64
  ss_cpuBundleCounters :: "u64 list"

definition sch_createSnapshot :: "('c, 'e) scheduler \<Rightarrow> scheduler_snapshot" where
  "sch_createSnapshot s = \<lparr>ss_lastCPUIndex = sch_lastCPUIndex s, ss_numCPUs = int (sch_numCPUs s),
     ss_quantumSize = sch_quantumSize s, ss_cpuBundleCounters = sch_cpuBundleCounters s\<rparr>"

definition sch_restoreSnapshot :: "scheduler_snapshot \<Rightarrow> ('c, 'e) scheduler \<Rightarrow> bool \<times> ('c, 'e) scheduler" where
  "sch_restoreSnapshot ss s =
     (if ss_numCPUs ss < 0 \<or> ss_lastCPUIndex ss < -1 \<or> ss_lastCPUIndex ss \<ge> ss_numCPUs ss \<or>
         int (length (ss_cpuBundleCounters ss)) \<noteq> ss_numCPUs ss \<or> ss_quantumSize ss = 0
      then (False, s)
      else (True, s\<lparr>sch_lastCPUIndex := ss_lastCPUIndex ss, sch_numCPUs := nat (ss_numCPUs ss),
             sch_quantumSize := ss_quantumSize ss, sch_cpuBundleCounters := ss_cpuBundleCounters ss\<rparr>))"

subsection \<open>Fairness of the selection\<close>

lemma find_runnable_first:
  "find_runnable i cs = (case first_index runnable cs of None \<Rightarrow> -1 | Some k \<Rightarrow> i + int k)"
  by (induction cs arbitrary: i) (auto split: option.split)

text \<open>Where the search starts.\<close>

definition start_index :: "nat \<Rightarrow> ('c, 'e) scheduler \<Rightarrow> nat" where
  "start_index n s = nat ((sch_lastCPUIndex s + 1) mod int n)"

definition index_ok :: "nat \<Rightarrow> ('c, 'e) scheduler \<Rightarrow> bool" where
  "index_ok n s \<longleftrightarrow> -1 \<le> sch_lastCPUIndex s \<and> sch_lastCPUIndex s < int n"

lemma selectNextCPU_cases:
  assumes "index_ok (length cpus) s" "cpus \<noteq> []"
  shows "selectNextCPU cpus s =
    (case first_index runnable (drop (start_index (length cpus) s) cpus) of
       Some k \<Rightarrow> Inr (int (start_index (length cpus) s + k))
     | None \<Rightarrow> Inr (case first_index runnable cpus of Some k \<Rightarrow> int k | None \<Rightarrow> -1))"
proof -
  let ?n = "length cpus" and ?p = "start_index (length cpus) s"
  have n: "0 < ?n" using assms(2) by simp
  have p: "(sch_lastCPUIndex s + 1) smod int ?n = int ?p"
    using assms(1) n by (cases "sch_lastCPUIndex s + 1 = 0")
      (simp_all add: index_ok_def start_index_def smod_int_alt_def sgn_1_pos)
  show ?thesis
  proof (cases "?n = 1")
    case True
    then obtain c where c: "cpus = [c]" by (cases cpus) auto
    then have "?p = 0" by (simp add: start_index_def)
    with c show ?thesis by (simp add: selectNextCPU_def)
  next
    case False
    have z: "?p = 0 \<Longrightarrow> drop ?p cpus = cpus" by simp
    show ?thesis
      using False assms(2) z
      by (auto simp: selectNextCPU_def p findNextRunnableCPU_def find_runnable_first Let_def split: option.split)
  qed
qed

text \<open>The selected processor is the first runnable one in cyclic order.\<close>

lemma selectNextCPU_cyclic:
  assumes "index_ok (length cpus) s" "i < length cpus" "runnable (cpus ! i)"
  defines "n \<equiv> length cpus" and "p \<equiv> start_index (length cpus) s"
  obtains d where "d < n" "selectNextCPU cpus s = Inr (int ((p + d) mod n))"
    "\<forall>e < d. \<not> runnable (cpus ! ((p + e) mod n))"
proof -
  have n: "0 < n" "cpus \<noteq> []" using assms(2) by (auto simp: n_def)
  have p: "p < n" using n by (simp add: p_def start_index_def n_def nat_less_iff)
  note sel = selectNextCPU_cases [OF assms(1) n(2), folded n_def p_def]
  show thesis
  proof (cases "first_index runnable (drop p cpus)")
    case (Some k)
    then have k: "p + k < n" "\<And>j. j < k \<Longrightarrow> \<not> runnable (cpus ! (p + j))"
      using p by (auto simp: first_index_Some n_def)
    then show thesis
      using sel Some by (intro that [of k]) simp_all
  next
    case None
    have none: "\<not> runnable (cpus ! j)" if "p \<le> j" "j < n" for j
    proof -
      have "drop p cpus ! (j - p) \<in> set (drop p cpus)"
        using that by (intro nth_mem) (simp add: n_def)
      moreover have "drop p cpus ! (j - p) = cpus ! j"
        using that by (simp add: n_def)
      ultimately show ?thesis
        using None by (simp add: first_index_None)
    qed
    obtain k where k: "first_index runnable cpus = Some k"
      using assms(2,3) by (cases "first_index runnable cpus") (auto simp: first_index_None)
    then have k': "k < n" "runnable (cpus ! k)" "\<And>j. j < k \<Longrightarrow> \<not> runnable (cpus ! j)"
      by (auto simp: first_index_Some n_def)
    have kp: "k < p" using none k'(1,2) by (meson not_le)
    have e: "(p + (n - p + k)) mod n = k" using p k'(1) by simp
    show thesis
    proof (rule that [of "n - p + k"])
      show "n - p + k < n" using kp p by simp
      show "selectNextCPU cpus s = Inr (int ((p + (n - p + k)) mod n))"
        using sel None k e by simp
      have "\<not> runnable (cpus ! ((p + j) mod n))" if j: "j < n - p + k" for j
      proof (cases "p + j < n")
        case True
        then show ?thesis using none [of "p + j"] by simp
      next
        case False
        then have "(p + j) mod n = p + j - n" using j k'(1) p by (simp add: mod_if)
        moreover have "p + j - n < k" using j False p by linarith
        ultimately show ?thesis using k'(3) by simp
      qed
      then show "\<forall>e < n - p + k. \<not> runnable (cpus ! ((p + e) mod n))" by blast
    qed
  qed
qed

text \<open>Rounds of the scheduler: select, run, select again, while the contexts stay as they are.\<close>

primrec schedule_rounds :: "nat \<Rightarrow> 'c cpu_context option list \<Rightarrow> ('c, 'e) scheduler \<Rightarrow> int list" where
  "schedule_rounds 0 cpus s = []"
| "schedule_rounds (Suc k) cpus s =
     (case selectNextCPU cpus s of
        Inl _ \<Rightarrow> []
      | Inr i \<Rightarrow> if i = -1 then [] else i # schedule_rounds k cpus (onCPUExecuted i s))"

text \<open>How many processors are between the last one run and processor \<open>i\<close>.\<close>

definition distance :: "nat \<Rightarrow> nat \<Rightarrow> ('c, 'e) scheduler \<Rightarrow> nat" where
  "distance n i s = nat ((int i - sch_lastCPUIndex s - 1) mod int n)"

lemma distance_less: "0 < n \<Longrightarrow> distance n i s < n"
  by (simp add: distance_def nat_less_iff)

lemma distance_start:
  assumes "i < n"
  shows "(start_index n s + distance n i s) mod n = i"
proof -
  have "int ((start_index n s + distance n i s) mod n) =
      ((sch_lastCPUIndex s + 1) mod int n + (int i - sch_lastCPUIndex s - 1) mod int n) mod int n"
    using assms by (simp add: start_index_def distance_def of_nat_mod)
  also have "\<dots> = int i mod int n"
    by (simp add: mod_add_eq)
  finally show ?thesis using assms by simp
qed

lemma round_robin_within:
  assumes "index_ok (length cpus) s" "i < length cpus" "runnable (cpus ! i)" "distance (length cpus) i s < k"
  shows "int i \<in> set (schedule_rounds k cpus s)"
  using assms(1,4)
proof (induction k arbitrary: s)
  case 0
  then show ?case by simp
next
  case (Suc k)
  let ?n = "length cpus" and ?p = "start_index (length cpus) s" and ?D = "distance (length cpus) i s"
  obtain d where d: "d < ?n" "selectNextCPU cpus s = Inr (int ((?p + d) mod ?n))"
    "\<forall>e < d. \<not> runnable (cpus ! ((?p + e) mod ?n))"
    by (rule selectNextCPU_cyclic [OF Suc.prems(1) assms(2,3)])
  note at = distance_start [OF assms(2), of s]
  have dD: "d \<le> ?D"
    using d(3) at assms(3) by (metis not_le)
  show ?case
  proof (cases "d = ?D")
    case True
    then show ?thesis using d(2) at by simp
  next
    case False
    let ?j = "(?p + d) mod ?n"
    define s' where "s' = onCPUExecuted (int ?j) s"
    have "?j < ?n" using assms(2) by (intro mod_less_divisor) linarith
    then have ok: "index_ok ?n s'"
      by (simp add: s'_def index_ok_def onCPUExecuted_def)
    have "0 < int ?n" using assms(2) by linarith
    then have "0 \<le> (int i - int ?j - 1) mod int ?n" by (rule pos_mod_sign)
    then have "int (distance ?n i s') = (int i - int ?j - 1) mod int ?n"
      by (simp add: distance_def s'_def onCPUExecuted_def)
    also have "\<dots> = (int ((?p + ?D) mod ?n) - int ((?p + d) mod ?n) - 1) mod int ?n"
      by (simp only: at)
    also have "\<dots> = (int (?p + ?D) - int (?p + d) - 1) mod int ?n"
      unfolding of_nat_mod by (intro mod_diff_cong) simp_all
    also have "int (?p + ?D) - int (?p + d) - 1 = int (?D - d - 1)"
      using dD False by simp
    also have "\<dots> mod int ?n = int (?D - d - 1)"
    proof (rule mod_pos_pos_trivial)
      have "?D < ?n" using assms(2) by (intro distance_less) linarith
      then show "int (?D - d - 1) < int ?n" by linarith
    qed simp
    finally have "distance ?n i s' < k"
      using Suc.prems(2) dD False by simp
    then have "int i \<in> set (schedule_rounds k cpus s')"
      by (rule Suc.IH [OF ok])
    then show ?thesis
      using d(2) by (simp add: s'_def)
  qed
qed

text \<open>C34: the scheduler is fair: whatever it ran last, every processor that stays runnable is selected within as
  many rounds as there are processors.\<close>

theorem round_robin_fair:
  assumes "index_ok (length cpus) s" "i < length cpus" "runnable (cpus ! i)"
  shows "int i \<in> set (schedule_rounds (length cpus) cpus s)"
proof (rule round_robin_within [OF assms])
  have "0 < length cpus" using assms(2) by linarith
  then show "distance (length cpus) i s < length cpus" by (rule distance_less)
qed

definition demo_context :: "bool \<Rightarrow> unit cpu_context option" where
  "demo_context on = Some ((CPUContext 0)\<lparr>ctx_cpu := Some (), ctx_enabled := on, ctx_state := RUNNING\<rparr>)"

lemma round_robin_fair_witness:
  "2 \<in> set (schedule_rounds 3 [demo_context True, demo_context False, demo_context True]
     (SimpleCPUScheduler\<lparr>sch_lastCPUIndex := 2\<rparr> :: (unit, unit) scheduler))"
proof -
  let ?s = "SimpleCPUScheduler\<lparr>sch_lastCPUIndex := 2\<rparr> :: (unit, unit) scheduler"
  have "index_ok 3 ?s" by (simp add: index_ok_def)
  moreover have "runnable (demo_context True)"
    by (simp add: runnable_def demo_context_def isRunning_def)
  moreover define cs where "cs = [demo_context True, demo_context False, demo_context True]"
  ultimately have "int 2 \<in> set (schedule_rounds (length cs) cs ?s)"
    by (intro round_robin_fair) (simp_all add: cs_def index_ok_def)
  moreover have "length cs = 3" by (simp add: cs_def)
  ultimately show ?thesis by (simp only: cs_def of_nat_numeral)
qed

subsection \<open>What a quantum executes\<close>

text \<open>A context after \<open>k\<close> instructions of its processor.\<close>

definition ran :: "('c \<Rightarrow> bool \<times> 'c) \<Rightarrow> nat \<Rightarrow> 'c cpu_context \<Rightarrow> 'c cpu_context" where
  "ran step k c = c\<lparr>ctx_cpu := map_option ((snd \<circ> step) ^^ k) (ctx_cpu c),
     ctx_cyclesExecuted := ctx_cyclesExecuted c + of_nat k,
     ctx_instructionsExecuted := ctx_instructionsExecuted c + of_nat k\<rparr>"

lemma ran_simps [simp]: "ctx_state (ran step k c) = ctx_state c" "ctx_enabled (ran step k c) = ctx_enabled c"
  "ctx_cpu (ran step k c) = None \<longleftrightarrow> ctx_cpu c = None"
  by (simp_all add: ran_def)

lemma ran_0: "ran step 0 c = c"
  by (simp add: ran_def option.map_id0)

lemma ran_ran: "ran step j (ran step k c) = ran step (k + j) c"
proof -
  have "map_option ((snd \<circ> step) ^^ j) (map_option ((snd \<circ> step) ^^ k) x) = map_option ((snd \<circ> step) ^^ (k + j)) x" for x
    by (cases x) (simp_all add: funpow_add add.commute)
  then show ?thesis
    by (simp add: ran_def add.assoc)
qed

text \<open>The answer of the \<open>k\<close>-th of the instructions that follow: whether the processor asks to continue.\<close>

definition continues :: "('c \<Rightarrow> bool \<times> 'c) \<Rightarrow> nat \<Rightarrow> 'c cpu_context \<Rightarrow> bool" where
  "continues step k c = (case ctx_cpu c of None \<Rightarrow> False | Some cpu \<Rightarrow> fst (step (((snd \<circ> step) ^^ k) cpu)))"

lemma continues_ran: "continues step k (ran step j c) = continues step (j + k) c"
proof -
  have "((snd \<circ> step) ^^ k) (((snd \<circ> step) ^^ j) x) = ((snd \<circ> step) ^^ (j + k)) x" for x
    by (metis add.commute comp_apply funpow_add)
  then show ?thesis by (simp add: continues_def ran_def split: option.split)
qed

lemma executeSingleInstruction_ran:
  assumes "ctx_cpu c \<noteq> None"
  shows "executeSingleInstruction step (Some c) i s = (continues step 0 c, Some (ran step 1 c), onCPUExecuted i s)"
proof -
  obtain cpu where cpu: "ctx_cpu c = Some cpu" using assms by blast
  then show ?thesis
    by (simp add: executeSingleInstruction_def ran_def continues_def split: prod.split)
qed

lemma all_less_Suc_iff: "(\<forall>j < Suc k. P j) \<longleftrightarrow> P 0 \<and> (\<forall>j < k. P (Suc j))"
  by (metis Suc_less_eq less_Suc_eq_0_disj)

lemma bundle_loop_ran:
  assumes "i < length cpus" "cpus ! i = Some c" "ctx_cpu c \<noteq> None" "isRunning c"
    "sch_preemptionCallbacks s = []" "\<forall>j < k. continues step j c"
  shows "bundle_loop k step i b cpus s e =
     (True, cpus[i := Some (ran step k c)], if k = 0 then s else onCPUExecuted (int i) s, e)"
  using assms
proof (induction k arbitrary: cpus c s)
  case 0
  then have "cpus[i := Some c] = cpus" by (metis list_update_id)
  then show ?case by (simp add: ran_0)
next
  case (Suc k)
  let ?cpus = "cpus[i := Some (ran step 1 c)]"
  note go = Suc.prems(6) [unfolded all_less_Suc_iff]
  have "bundle_loop (Suc k) step i b cpus s e = bundle_loop k step i b ?cpus (onCPUExecuted (int i) s) e"
    using Suc.prems go by (simp add: executeSingleInstruction_ran Let_def onCPUExecuted_def isRunning_def)
  also have "\<dots> = (True, ?cpus[i := Some (ran step k (ran step 1 c))],
      if k = 0 then onCPUExecuted (int i) s else onCPUExecuted (int i) (onCPUExecuted (int i) s), e)"
    by (rule Suc.IH) (use Suc.prems go in \<open>simp_all add: onCPUExecuted_def isRunning_def continues_ran\<close>)
  finally show ?case
    by (simp add: ran_ran onCPUExecuted_def)
qed

lemma bundle_loop_stops:
  assumes "i < length cpus" "cpus ! i = Some c" "ctx_cpu c \<noteq> None" "isRunning c"
    "sch_preemptionCallbacks s = []" "k < left" "\<forall>j < k. continues step j c" "\<not> continues step k c"
  shows "bundle_loop left step i b cpus s e =
     (False, cpus[i := Some (ran step (k + 1) c)], onCPUExecuted (int i) s, e)"
  using assms
proof (induction k arbitrary: left cpus c s)
  case 0
  then show ?case by (cases left) (simp_all add: executeSingleInstruction_ran)
next
  case (Suc k)
  obtain l where l: "left = Suc l" "k < l" using Suc.prems(6) by (cases left) auto
  let ?cpus = "cpus[i := Some (ran step 1 c)]"
  note go = Suc.prems(7) [unfolded all_less_Suc_iff]
  have "bundle_loop left step i b cpus s e = bundle_loop l step i b ?cpus (onCPUExecuted (int i) s) e"
    using Suc.prems go l by (simp add: executeSingleInstruction_ran Let_def onCPUExecuted_def isRunning_def)
  also have "\<dots> = (False, ?cpus[i := Some (ran step (k + 1) (ran step 1 c))],
      onCPUExecuted (int i) (onCPUExecuted (int i) s), e)"
    by (rule Suc.IH) (use Suc.prems go l in \<open>simp_all add: onCPUExecuted_def isRunning_def continues_ran\<close>)
  finally show ?case
    by (simp add: ran_ran onCPUExecuted_def)
qed

lemma quantum_loop_ran:
  assumes "i < length cpus" "cpus ! i = Some c" "ctx_cpu c \<noteq> None" "isRunning c"
    "sch_preemptionCallbacks s = []" "i < length (sch_cpuBundleCounters s)"
    "k \<le> 3 * n" "\<forall>j < k. continues step j c" "k < 3 * n \<longrightarrow> \<not> continues step k c"
  shows "\<exists>s'. quantum_loop n step i b cpus s e =
       (b + of_nat (k div 3), cpus[i := Some (ran step (min (k + 1) (3 * n)) c)], s', e) \<and>
     sch_cpuBundleCounters s' =
       (sch_cpuBundleCounters s)[i := sch_cpuBundleCounters s ! i + of_nat (k div 3)]"
  using assms
proof (induction n arbitrary: b cpus c s k)
  case 0
  then have "cpus[i := Some c] = cpus" by (metis list_update_id)
  with 0 show ?case by (simp add: ran_0)
next
  case (Suc n)
  show ?case
  proof (cases "k < 3")
    case True
    then have "bundle_loop 3 step i b cpus s e =
        (False, cpus[i := Some (ran step (k + 1) c)], onCPUExecuted (int i) s, e)"
      using Suc.prems by (intro bundle_loop_stops) auto
    moreover have "min (k + 1) (3 * Suc n) = k + 1" using True by simp
    ultimately show ?thesis
      using True Suc.prems by (simp add: onCPUExecuted_def)
  next
    case False
    let ?cpus = "cpus[i := Some (ran step 3 c)]"
    define s1 where "s1 = (onCPUExecuted (int i) s)\<lparr>sch_cpuBundleCounters :=
      (sch_cpuBundleCounters s)[i := sch_cpuBundleCounters s ! i + 1]\<rparr>"
    have run: "bundle_loop 3 step i b cpus s e = (True, ?cpus, onCPUExecuted (int i) s, e)"
      using bundle_loop_ran [OF Suc.prems(1-5), of 3] Suc.prems(8) False by simp
    have "quantum_loop (Suc n) step i b cpus s e = quantum_loop n step i (b + 1) ?cpus s1 e"
      using Suc.prems run by (simp add: Let_def s1_def onCPUExecuted_def)
    moreover have "\<exists>s'. quantum_loop n step i (b + 1) ?cpus s1 e =
        (b + 1 + of_nat ((k - 3) div 3), ?cpus[i := Some (ran step (min (k - 3 + 1) (3 * n)) (ran step 3 c))], s', e) \<and>
       sch_cpuBundleCounters s' =
         (sch_cpuBundleCounters s1)[i := sch_cpuBundleCounters s1 ! i + of_nat ((k - 3) div 3)]"
      by (rule Suc.IH)
        (use Suc.prems False in \<open>auto simp: s1_def onCPUExecuted_def isRunning_def continues_ran less_diff_conv2\<close>)
    moreover have "k div 3 = Suc ((k - 3) div 3)" using False by (simp add: le_div_geq)
    moreover have "3 + min (k - 3 + 1) (3 * n) = min (k + 1) (3 * Suc n)" using False by simp
    ultimately show ?thesis
      using Suc.prems by (auto simp: ran_ran s1_def add.assoc)
  qed
qed

text \<open>C35: with no preemption callback registered, a quantum of \<open>n\<close> bundles of an enabled, running processor that the
  scheduler keeps a bundle counter for executes
  instructions until the processor's step first asks to stop: if the first \<open>k\<close> steps ask to continue and the next does
  not, it executes \<open>k + 1\<close> instructions, reports \<open>k div 3\<close> complete bundles and adds that to the bundle counter; if
  none of \<open>3 n\<close> steps asks to stop (\<open>k = 3 n\<close>), it executes exactly \<open>3 n\<close> instructions and reports \<open>n\<close> bundles. No other
  context is touched.\<close>

theorem quantum_runs_bundles:
  assumes "i < length cpus" "cpus ! i = Some c" "ctx_cpu c \<noteq> None" "ctx_enabled c" "isRunning c"
    "sch_preemptionCallbacks s = []" "i < length (sch_cpuBundleCounters s)"
    "k \<le> 3 * unat n" "\<forall>j < k. continues step j c" "k < 3 * unat n \<longrightarrow> \<not> continues step k c"
  shows "\<exists>s'. stepQuantum step cpus (int i) n s e =
       (of_nat (k div 3), cpus[i := Some (ran step (min (k + 1) (3 * unat n)) c)], s', e) \<and>
     sch_cpuBundleCounters s' =
       (sch_cpuBundleCounters s)[i := sch_cpuBundleCounters s ! i + of_nat (k div 3)]"
  using quantum_loop_ran [OF assms(1-3,5-10), of 0 e] assms
  by (simp add: stepQuantum_def runnable_def)

text \<open>A processor that stops at its fifth instruction: five instructions, one complete bundle of the two asked for.\<close>

lemma quantum_runs_bundles_witness:
  "\<exists>s'. stepQuantum (\<lambda>x. (x < 4, x + 1)) [Some ((CPUContext 0)\<lparr>ctx_cpu := Some (0 :: nat), ctx_enabled := True, ctx_state := RUNNING\<rparr>)]
      0 2 (SimpleCPUScheduler\<lparr>sch_cpuBundleCounters := [5]\<rparr>) () =
    (1, [Some ((CPUContext 0)\<lparr>ctx_cpu := Some 5, ctx_enabled := True, ctx_state := RUNNING,
           ctx_cyclesExecuted := 5, ctx_instructionsExecuted := 5\<rparr>)], s', ()) \<and>
     sch_cpuBundleCounters s' = [6]"
proof -
  let ?step = "\<lambda>x. (x < 4, x + 1)"
  let ?c = "(CPUContext 0)\<lparr>ctx_cpu := Some (0 :: nat), ctx_enabled := True, ctx_state := RUNNING\<rparr>"
  let ?s = "SimpleCPUScheduler\<lparr>sch_cpuBundleCounters := [5]\<rparr>"
  have "((snd \<circ> ?step) ^^ j) 0 = j" for j :: nat by (induction j) simp_all
  then have "continues ?step j ?c \<longleftrightarrow> j < 4" and
    "ran ?step 5 ?c = ?c\<lparr>ctx_cpu := Some 5, ctx_cyclesExecuted := 5, ctx_instructionsExecuted := 5\<rparr>" for j
    by (simp_all add: continues_def ran_def CPUContext_def)
  moreover have "unat (2 :: u64) = 2" "isRunning ?c" by (simp_all add: isRunning_def)
  ultimately show ?thesis
    using quantum_runs_bundles [of 0 "[Some ?c]" ?c ?s 4 2 ?step "()"]
    by (simp add: SimpleCPUScheduler_def CPUContext_def)
qed

end
