(* ===== verification/Wide_Int.thy ===== *)
theory Wide_Int
  imports Prelude
begin

text \<open>
  The multi-word integers of the instruction executor (\<open>src/src/decoder/decoder.cpp\<close>):
  \<open>UInt128Parts\<close> with \<open>MultiplyUnsigned64\<close>, \<open>MultiplySigned64\<close> and \<open>AddUInt128\<close>, and
  \<open>WideInteger\<close>, twelve 32-bit limbs, with \<open>SignedWideInteger\<close> on top.  \<open>std::array\<close> of limbs is
  a list whose length is 12 in every value the code builds.  The lemmas relate every operation to
  the integer the limbs stand for (\<open>u128_val\<close>, \<open>wide_val\<close>, \<open>signed_wide_val\<close>).
\<close>

subsection \<open>128-bit products\<close>

record uint128 =
  u128_lo :: u64
  u128_hi :: u64

definition MultiplyUnsigned64 :: "u64 \<Rightarrow> u64 \<Rightarrow> uint128" where
  "MultiplyUnsigned64 left right =
     (let leftLo = left AND 0xFFFFFFFF; leftHi = drop_bit 32 left;
          rightLo = right AND 0xFFFFFFFF; rightHi = drop_bit 32 right;
          p0 = leftLo * rightLo; p1 = leftLo * rightHi;
          p2 = leftHi * rightLo; p3 = leftHi * rightHi;
          middle = drop_bit 32 p0 + (p1 AND 0xFFFFFFFF) + (p2 AND 0xFFFFFFFF)
      in \<lparr>u128_lo = (p0 AND 0xFFFFFFFF) OR push_bit 32 middle,
          u128_hi = p3 + (drop_bit 32 p1 + drop_bit 32 p2 + drop_bit 32 middle)\<rparr>)"

definition MultiplySigned64 :: "u64 \<Rightarrow> u64 \<Rightarrow> uint128" where
  "MultiplySigned64 left right =
     (let r0 = MultiplyUnsigned64 left right;
          r1 = (if drop_bit 63 left \<noteq> 0 then r0\<lparr>u128_hi := u128_hi r0 - right\<rparr> else r0)
      in if drop_bit 63 right \<noteq> 0 then r1\<lparr>u128_hi := u128_hi r1 - left\<rparr> else r1)"

definition AddUInt128 :: "uint128 \<Rightarrow> u64 \<Rightarrow> uint128" where
  "AddUInt128 left right =
     (let oldLo = u128_lo left; l1 = left\<lparr>u128_lo := u128_lo left + right\<rparr>
      in if u128_lo l1 < oldLo then l1\<lparr>u128_hi := u128_hi l1 + 1\<rparr> else l1)"

subsection \<open>Twelve-limb integers\<close>

definition kLimbCount :: nat where
  "kLimbCount = 12"

definition wide_zero :: "u32 list" where
  "wide_zero = replicate kLimbCount 0"

definition IsZero :: "u32 list \<Rightarrow> bool" where
  "IsZero limbs = (\<forall>l \<in> set limbs. l = 0)"

text \<open>The inner loop of \<open>BitLength\<close>: shift right until nothing is left, counting.\<close>

function limb_bits :: "u32 \<Rightarrow> nat" where
  "limb_bits value = (if value \<noteq> 0 then Suc (limb_bits (drop_bit 1 value)) else 0)"
  by pat_completeness auto

lemma drop_bit_1_less: "w \<noteq> 0 \<Longrightarrow> unat (drop_bit 1 w) < unat (w :: 'a::len word)"
  by (simp only: unat_drop_bit_div) (simp add: unat_gt_0)

termination limb_bits
  by (relation "measure unat") (simp_all add: drop_bit_1_less [simplified])

declare limb_bits.simps [simp del]

text \<open>The outer loop runs from the top limb down; \<open>bit_length_from i\<close> looks at limbs below \<open>i\<close>.\<close>

primrec bit_length_from :: "u32 list \<Rightarrow> nat \<Rightarrow> nat" where
  "bit_length_from limbs 0 = 0"
| "bit_length_from limbs (Suc i) =
     (if limbs ! i = 0 then bit_length_from limbs i else i * 32 + limb_bits (limbs ! i))"

definition BitLength :: "u32 list \<Rightarrow> nat" where
  "BitLength limbs = bit_length_from limbs kLimbCount"

definition Low64 :: "u32 list \<Rightarrow> u64" where
  "Low64 limbs = ucast (limbs ! 0) OR push_bit 32 (ucast (limbs ! 1))"

definition TestBit :: "u32 list \<Rightarrow> nat \<Rightarrow> bool" where
  "TestBit limbs b =
     (let limb = b div 32 in
      limb < kLimbCount \<and> drop_bit (b mod 32) (limbs ! limb) AND 1 \<noteq> 0)"

definition AnyBelow :: "u32 list \<Rightarrow> nat \<Rightarrow> bool" where
  "AnyBelow limbs bitCount =
     (let fullLimbs = bitCount div 32 in
      (\<exists>l \<in> set (take (min fullLimbs kLimbCount) limbs). l \<noteq> 0) \<or>
      (fullLimbs < kLimbCount \<and> bitCount mod 32 \<noteq> 0 \<and>
       limbs ! fullLimbs AND (push_bit (bitCount mod 32) 1 - 1) \<noteq> 0))"

text \<open>One round of the loop of \<open>ShiftLeft\<close>: limb \<open>i\<close> is spread over two limbs of the result.\<close>

definition shift_left_limb :: "u32 list \<Rightarrow> nat \<Rightarrow> nat \<Rightarrow> nat \<Rightarrow> u32 list \<Rightarrow> u32 list" where
  "shift_left_limb limbs limbShift bitShift i res =
     (let r1 = res[i + limbShift := (res ! (i + limbShift)) OR push_bit bitShift (limbs ! i)]
      in if bitShift \<noteq> 0 \<and> i + limbShift + 1 < kLimbCount
         then r1[i + limbShift + 1 := (r1 ! (i + limbShift + 1)) OR drop_bit (32 - bitShift) (limbs ! i)]
         else r1)"

definition ShiftLeft :: "u32 list \<Rightarrow> nat \<Rightarrow> u32 list" where
  "ShiftLeft limbs bits =
     (if bits \<ge> kLimbCount * 32 then wide_zero
      else fold (shift_left_limb limbs (bits div 32) (bits mod 32))
             [0..<kLimbCount - bits div 32] wide_zero)"

text \<open>Every round of the loop of \<open>ShiftRight\<close> writes one limb of the result, from two sources.\<close>

definition shift_right_limb :: "u32 list \<Rightarrow> nat \<Rightarrow> nat \<Rightarrow> u32" where
  "shift_right_limb limbs bitShift source =
     (let r = drop_bit bitShift (limbs ! source)
      in if bitShift \<noteq> 0 \<and> source + 1 < kLimbCount
         then r OR push_bit (32 - bitShift) (limbs ! (source + 1)) else r)"

definition ShiftRight :: "u32 list \<Rightarrow> nat \<Rightarrow> u32 list" where
  "ShiftRight limbs bits =
     (if bits \<ge> kLimbCount * 32 then wide_zero
      else map (\<lambda>i. if i + bits div 32 < kLimbCount
                     then shift_right_limb limbs (bits mod 32) (i + bits div 32) else 0)
             [0..<kLimbCount])"

definition FromU64 :: "u64 \<Rightarrow> u32 list" where
  "FromU64 value = wide_zero[0 := ucast value, 1 := ucast (drop_bit 32 value)]"

definition FromUInt128 :: "uint128 \<Rightarrow> u32 list" where
  "FromUInt128 value =
     wide_zero[0 := ucast (u128_lo value), 1 := ucast (drop_bit 32 (u128_lo value)),
               2 := ucast (u128_hi value), 3 := ucast (drop_bit 32 (u128_hi value))]"

fun add_limbs :: "u64 \<Rightarrow> u32 list \<Rightarrow> u32 list \<Rightarrow> u32 list" where
  "add_limbs carry (l # ls) (r # rs) =
     (let sum = ucast l + ucast r + carry
      in ucast sum # add_limbs (drop_bit 32 sum) ls rs)"
| "add_limbs carry _ _ = []"

definition Add :: "u32 list \<Rightarrow> u32 list \<Rightarrow> u32 list" where
  "Add = add_limbs 0"

fun subtract_limbs :: "u64 \<Rightarrow> u32 list \<Rightarrow> u32 list \<Rightarrow> u32 list" where
  "subtract_limbs borrow (l # ls) (r # rs) =
     (let subtrahend = ucast r + borrow
      in ucast (ucast l - subtrahend) #
         subtract_limbs (if ucast l < subtrahend then 1 else 0) ls rs)"
| "subtract_limbs borrow _ _ = []"

definition Subtract :: "u32 list \<Rightarrow> u32 list \<Rightarrow> u32 list" where
  "Subtract = subtract_limbs 0"

primrec compare_from :: "u32 list \<Rightarrow> u32 list \<Rightarrow> nat \<Rightarrow> int" where
  "compare_from left right 0 = 0"
| "compare_from left right (Suc i) =
     (if left ! i \<noteq> right ! i then (if left ! i < right ! i then -1 else 1)
      else compare_from left right i)"

definition Compare :: "u32 list \<Rightarrow> u32 list \<Rightarrow> int" where
  "Compare left right = compare_from left right kLimbCount"

record signed_wide =
  sw_negative :: bool
  sw_magnitude :: "u32 list"

definition AddSignedWide :: "signed_wide \<Rightarrow> signed_wide \<Rightarrow> signed_wide" where
  "AddSignedWide left right =
     (if sw_negative left = sw_negative right
      then \<lparr>sw_negative = sw_negative left,
            sw_magnitude = Add (sw_magnitude left) (sw_magnitude right)\<rparr>
      else
        let comparison = Compare (sw_magnitude left) (sw_magnitude right) in
        if comparison = 0 then \<lparr>sw_negative = False, sw_magnitude = wide_zero\<rparr>
        else if comparison > 0
        then \<lparr>sw_negative = sw_negative left,
              sw_magnitude = Subtract (sw_magnitude left) (sw_magnitude right)\<rparr>
        else \<lparr>sw_negative = sw_negative right,
              sw_magnitude = Subtract (sw_magnitude right) (sw_magnitude left)\<rparr>)"

subsection \<open>The integers the limbs stand for\<close>

primrec wide_val :: "u32 list \<Rightarrow> nat" where
  "wide_val [] = 0"
| "wide_val (l # ls) = unat l + 2 ^ 32 * wide_val ls"

definition wide_shape :: "u32 list \<Rightarrow> bool" where
  "wide_shape limbs \<longleftrightarrow> length limbs = kLimbCount"

lemma unat_u32_less: "unat (l :: u32) < 2 ^ 32"
proof -
  have "unat l < 2 ^ LENGTH(32)" by (rule unsigned_less)
  then show ?thesis by simp
qed

lemma wide_val_less: "wide_val xs < 2 ^ (32 * length xs)"
proof (induction xs)
  case Nil
  then show ?case by simp
next
  case (Cons x xs)
  have "unat x + 2 ^ 32 * wide_val xs < 2 ^ 32 * Suc (wide_val xs)"
    using unat_u32_less [of x] by simp
  also have "\<dots> \<le> 2 ^ 32 * 2 ^ (32 * length xs)"
    using Cons.IH by (intro mult_le_mono) auto
  finally show ?case
    by (simp add: power_add)
qed

lemma bit_wide_val:
  "bit (wide_val xs) k \<longleftrightarrow> k div 32 < length xs \<and> bit (xs ! (k div 32)) (k mod 32)"
proof (induction xs arbitrary: k)
  case Nil
  then show ?case by simp
next
  case (Cons x xs)
  have tb: "take_bit 32 (unat x) = unat x"
    by (rule take_bit_nat_eq_self) (rule unat_u32_less)
  have "unat x + 2 ^ 32 * wide_val xs = unat x + push_bit 32 (wide_val xs)"
    by (simp only: push_bit_eq_mult mult.commute)
  also have "\<dots> = unat x OR push_bit 32 (wide_val xs)"
  proof (rule disjunctive_add_eq_or)
    show "unat x AND push_bit 32 (wide_val xs) = 0"
      by (subst tb [symmetric]) (rule bit_eqI, auto simp: bit_simps)
  qed
  finally have v: "wide_val (x # xs) = unat x OR push_bit 32 (wide_val xs)"
    by simp
  show ?case
  proof (cases "k < 32")
    case True
    then show ?thesis
      unfolding v by (auto simp: bit_simps)
  next
    case False
    then have "k div 32 = Suc ((k - 32) div 32)" "k mod 32 = (k - 32) mod 32"
      by (simp_all add: le_div_geq le_mod_geq not_less)
    moreover have "\<not> bit (unat x) k"
      using False by (subst tb [symmetric]) (simp add: bit_simps)
    ultimately show ?thesis
      using False unfolding v by (auto simp: bit_simps Cons.IH)
  qed
qed

lemma wide_val_zero [simp]: "wide_val (replicate n 0) = 0"
  by (induction n) simp_all

lemma wide_val_wide_zero [simp]: "wide_val wide_zero = 0"
  by (simp add: wide_zero_def)

lemma shape_wide_zero [simp]: "wide_shape wide_zero"
  by (simp add: wide_shape_def wide_zero_def)

lemma IsZero_iff: "IsZero xs \<longleftrightarrow> wide_val xs = 0"
  by (induction xs) (auto simp: IsZero_def unat_eq_zero)

lemma kLimbCount_numeral: "kLimbCount = Suc (Suc (Suc (Suc (Suc (Suc (Suc (Suc (Suc (Suc (Suc (Suc 0)))))))))))"
  by (simp add: kLimbCount_def)

lemma unat_low_high: "unat (w AND 0xFFFFFFFF :: u64) = unat w mod 2 ^ 32"
  "unat (drop_bit 32 (w :: u64)) = unat w div 2 ^ 32"
  "unat (ucast w :: u32) = unat w mod 2 ^ 32"
proof -
  have "(0xFFFFFFFF :: u64) = mask 32"
    by (simp add: mask_eq_exp_minus_1)
  then show "unat (w AND 0xFFFFFFFF) = unat w mod 2 ^ 32"
    by (simp only: unat_and_mask)
  show "unat (drop_bit 32 w) = unat w div 2 ^ 32"
    by (rule unat_drop_bit_div)
  show "unat (ucast w :: u32) = unat w mod 2 ^ 32"
    by (simp add: unsigned_ucast_eq take_bit_eq_mod)
qed

lemma FromU64_val: "wide_val (FromU64 w) = unat w"
proof -
  have "unat w div 2 ^ 32 < 2 ^ 32"
    using unat_u64_less [of w] by (simp add: less_mult_imp_div_less)
  then have "unat w mod 2 ^ 32 + 2 ^ 32 * (unat w div 2 ^ 32 mod 2 ^ 32) = unat w"
    by (simp add: mod_div_mult_eq)
  then show ?thesis
    by (simp add: FromU64_def wide_zero_def kLimbCount_numeral unat_low_high)
qed

definition u128_val :: "uint128 \<Rightarrow> nat" where
  "u128_val x = unat (u128_lo x) + 2 ^ 64 * unat (u128_hi x)"

lemma FromUInt128_val: "wide_val (FromUInt128 x) = u128_val x"
proof -
  have d: "unat w div 2 ^ 32 < 2 ^ 32" for w :: u64
    using unat_u64_less [of w] by (simp add: less_mult_imp_div_less)
  then have s: "unat w mod 2 ^ 32 + 2 ^ 32 * (unat w div 2 ^ 32 mod 2 ^ 32) = unat w" for w :: u64
    by (simp add: mod_div_mult_eq)
  show ?thesis
    using s [of "u128_lo x"] s [of "u128_hi x"]
    by (simp add: FromUInt128_def wide_zero_def kLimbCount_numeral unat_low_high u128_val_def distrib_left)
qed

lemma shape_From [simp]: "wide_shape (FromU64 w)" "wide_shape (FromUInt128 x)"
  by (simp_all add: wide_shape_def FromU64_def FromUInt128_def wide_zero_def)

lemma Low64_val:
  assumes "wide_shape xs"
  shows "unat (Low64 xs) = wide_val xs mod 2 ^ 64"
proof -
  have "unat (Low64 xs) = take_bit 64 (wide_val xs)"
  proof (rule bit_eqI)
    fix k
    have "k div 32 = 0 \<longleftrightarrow> k < 32" "k < 64 \<Longrightarrow> \<not> k < 32 \<Longrightarrow> k div 32 = 1 \<and> k mod 32 = k - 32" for k :: nat
      by (auto simp: le_mod_geq)
    then show "bit (unat (Low64 xs)) k = bit (take_bit 64 (wide_val xs)) k"
      using assms by (cases "k < 32") (auto simp: Low64_def bit_wide_val bit_simps wide_shape_def
        kLimbCount_def unsigned_or_eq dest: bit_imp_le_length)
  qed
  then show ?thesis
    by (simp add: take_bit_eq_mod)
qed

subsection \<open>Products are exact\<close>

text \<open>Schoolbook multiplication in base \<open>2 ^ 32\<close>, as an identity of natural numbers.\<close>

lemma schoolbook:
  fixes B a b c d :: nat
  assumes "0 < B"
  defines "p0 \<equiv> b * d" and "p1 \<equiv> b * c" and "p2 \<equiv> a * d"
  defines "mid \<equiv> p0 div B + p1 mod B + p2 mod B"
  shows "(a * B + b) * (c * B + d) =
     p0 mod B + B * (mid mod B) + B * B * (a * c + (p1 div B + p2 div B + mid div B))"
proof -
  have "B * B * (mid div B) + B * (mid mod B) = B * mid"
    by (metis mult_div_mod_eq distrib_left mult.assoc)
  moreover have "B * B * (p1 div B) + B * (p1 mod B) = B * p1" "B * B * (p2 div B) + B * (p2 mod B) = B * p2"
    by (metis mult_div_mod_eq distrib_left mult.assoc)+
  moreover have "p0 = B * (p0 div B) + p0 mod B"
    by simp
  moreover have "B * mid = B * (p0 div B) + B * (p1 mod B) + B * (p2 mod B)"
    by (simp add: mid_def distrib_left)
  ultimately have "p0 mod B + B * (mid mod B) + B * B * (a * c + (p1 div B + p2 div B + mid div B))
      = B * B * (a * c) + B * p1 + B * p2 + p0"
    by (simp only: distrib_left)
  then show ?thesis
    unfolding p0_def p1_def p2_def by (simp add: algebra_simps)
qed

lemma MultiplyUnsigned64_exact: "u128_val (MultiplyUnsigned64 x y) = unat x * unat y"
proof -
  let ?B = "2 ^ 32 :: nat"
  define a b c d where "a = unat x div ?B" "b = unat x mod ?B" "c = unat y div ?B" "d = unat y mod ?B"
  note abcd = this
  have lt: "a < ?B" "b < ?B" "c < ?B" "d < ?B"
    using unat_u64_less [of x] unat_u64_less [of y] by (simp_all add: abcd less_mult_imp_div_less)
  have prod: "u * v \<le> (?B - 1) * (?B - 1)" if "u < ?B" "v < ?B" for u v
    using that by (intro mult_le_mono) simp_all
  have mul: "unat (p * q) = unat p * unat q" if "unat p < ?B" "unat q < ?B" for p q :: u64
    using prod [OF that] by (simp add: unat_mult_lem [THEN iffD1])
  define xl xh yl yh where "xl = x AND 0xFFFFFFFF" "xh = drop_bit 32 x" "yl = y AND 0xFFFFFFFF" "yh = drop_bit 32 y"
  note parts = this
  have u: "unat xl = b" "unat xh = a" "unat yl = d" "unat yh = c"
    by (simp_all only: parts unat_low_high abcd)
  have p: "unat (xl * yl) = b * d" "unat (xl * yh) = b * c" "unat (xh * yl) = a * d" "unat (xh * yh) = a * c"
    using lt by (simp_all only: mul u)
  define mid where "mid = b * d div ?B + b * c mod ?B + a * d mod ?B"
  define w where "w = drop_bit 32 (xl * yl) + (xl * yh AND 0xFFFFFFFF) + (xh * yl AND 0xFFFFFFFF)"
  have bd: "b * d div ?B < ?B"
    using prod [OF lt(2) lt(4)] by (simp add: less_mult_imp_div_less)
  have add: "unat (p + q) = unat p + unat q" if "unat p + unat q < 2 ^ 64" for p q :: u64
    using that by (simp add: unat_add_lem [THEN iffD1])
  have w: "unat w = mid"
  proof -
    have l: "unat (drop_bit 32 (xl * yl)) = b * d div ?B" "unat (xl * yh AND 0xFFFFFFFF) = b * c mod ?B"
      "unat (xh * yl AND 0xFFFFFFFF) = a * d mod ?B"
      by (simp_all only: unat_low_high p)
    have "b * c mod ?B < ?B" "a * d mod ?B < ?B" by simp_all
    with bd have s: "b * d div ?B + b * c mod ?B < 2 ^ 64" "b * d div ?B + b * c mod ?B + a * d mod ?B < 2 ^ 64"
      by simp_all
    have "unat (drop_bit 32 (xl * yl) + (xl * yh AND 0xFFFFFFFF)) = b * d div ?B + b * c mod ?B"
      using s(1) by (simp only: add l)
    with s(2) show ?thesis
      by (simp only: w_def add l mid_def)
  qed
  have key: "unat x * unat y = b * d mod ?B + ?B * (mid mod ?B) +
      ?B * ?B * (a * c + (b * c div ?B + a * d div ?B + mid div ?B))"
  proof -
    have "unat x = a * ?B + b" "unat y = c * ?B + d"
      by (simp_all add: abcd div_mult_mod_eq)
    then show ?thesis
      using schoolbook [of ?B a b c d] by (simp only: mid_def) simp
  qed
  have "unat x * unat y \<le> (2 ^ 64 - 1) * (2 ^ 64 - 1)"
    using unat_u64_less [of x] unat_u64_less [of y] by (intro mult_le_mono) simp_all
  then have hi_lt: "a * c + (b * c div ?B + a * d div ?B + mid div ?B) < 2 ^ 64"
    unfolding key by simp
  have hi: "unat (u128_hi (MultiplyUnsigned64 x y)) = a * c + (b * c div ?B + a * d div ?B + mid div ?B)"
  proof -
    have l: "unat (drop_bit 32 (xl * yh)) = b * c div ?B" "unat (drop_bit 32 (xh * yl)) = a * d div ?B"
      "unat (drop_bit 32 w) = mid div ?B"
      by (simp_all only: unat_low_high p w)
    have s: "b * c div ?B + a * d div ?B < 2 ^ 64" "b * c div ?B + a * d div ?B + mid div ?B < 2 ^ 64"
      using hi_lt by simp_all
    have "unat (xh * yh + (drop_bit 32 (xl * yh) + drop_bit 32 (xh * yl) + drop_bit 32 w)) =
        a * c + (b * c div ?B + a * d div ?B + mid div ?B)"
      using s hi_lt by (simp only: add l p)
    then show ?thesis
      by (simp only: MultiplyUnsigned64_def Let_def uint128.simps parts w_def)
  qed
  have lo: "unat (u128_lo (MultiplyUnsigned64 x y)) = b * d mod ?B + ?B * (mid mod ?B)"
  proof -
    have e: "(xl * yl AND 0xFFFFFFFF) OR push_bit 32 w = (xl * yl AND 0xFFFFFFFF) + push_bit 32 w"
      by (rule disjunctive_add_eq_or [symmetric], rule bit_word_eqI)
        (auto simp: bit_simps mask_eq_exp_minus_1 [of 32, where 'a = u64, simplified, symmetric])
    have "unat (push_bit 32 w) = ?B * (mid mod ?B)"
    proof -
      have "unat (push_bit 32 w) = mid * ?B mod 2 ^ LENGTH(64)"
        by (simp only: unsigned_push_bit_eq w take_bit_eq_mod) (simp only: push_bit_eq_mult)
      also have "\<dots> = mid * ?B mod (?B * ?B)" by simp
      finally show ?thesis by (simp only: mult_mod_right mult.commute [of mid])
    qed
    moreover have "unat (xl * yl AND 0xFFFFFFFF) = b * d mod ?B"
      by (simp only: unat_low_high p)
    moreover have "b * d mod ?B + ?B * (mid mod ?B) < 2 ^ 64"
    proof -
      have "b * d mod ?B < ?B" "mid mod ?B \<le> ?B - 1" by simp_all
      then have "b * d mod ?B + ?B * (mid mod ?B) < ?B + ?B * (?B - 1)"
        by (intro add_less_le_mono mult_le_mono2)
      then show ?thesis by simp
    qed
    ultimately have "unat ((xl * yl AND 0xFFFFFFFF) + push_bit 32 w) = b * d mod ?B + ?B * (mid mod ?B)"
      by (simp only: add)
    then show ?thesis
      by (simp only: MultiplyUnsigned64_def Let_def uint128.simps parts [symmetric] w_def [symmetric] e)
  qed
  show ?thesis
    unfolding u128_val_def hi lo key by simp
qed

text \<open>The signed product is exact modulo \<open>2 ^ 128\<close>.\<close>

lemma u128_sub_hi:
  "int (u128_val (r\<lparr>u128_hi := u128_hi r - y\<rparr>)) mod 2 ^ 128
    = (int (u128_val r) - 2 ^ 64 * uint y) mod 2 ^ 128"
proof -
  have "uint (u128_hi r - y) = (uint (u128_hi r) - uint y) mod 2 ^ 64"
    by (simp add: uint_word_ariths)
  then have "2 ^ 64 * uint (u128_hi r - y) = (2 ^ 64 * uint (u128_hi r) - 2 ^ 64 * uint y) mod 2 ^ 128"
    using mod_mult_mult1 [of "2 ^ 64" "uint (u128_hi r) - uint y" "2 ^ 64 :: int"]
    by (simp add: right_diff_distrib)
  then have "(int (unat (u128_lo r)) + 2 ^ 64 * uint (u128_hi r - y)) mod 2 ^ 128
      = (int (unat (u128_lo r)) + (2 ^ 64 * uint (u128_hi r) - 2 ^ 64 * uint y)) mod 2 ^ 128"
    by (simp add: mod_simps)
  then show ?thesis
    by (simp add: u128_val_def algebra_simps)
qed

lemma top_bit_set: "drop_bit 63 w \<noteq> 0 \<longleftrightarrow> 2 ^ 63 \<le> uint (w :: u64)"
proof -
  have "drop_bit 63 w = 0 \<longleftrightarrow> uint (drop_bit 63 w) = 0"
    by (metis uint_0_iff)
  also have "\<dots> \<longleftrightarrow> uint w < 2 ^ 63"
    using uint_ge_0 [of w] by (simp only: uint_drop_bit zdiv_eq_0_iff) auto
  finally show ?thesis by linarith
qed

lemma signed_product_mod:
  fixes X Y K :: int
  shows "(X * Y - (if p then K else 0) * Y - (if q then K else 0) * X) mod (K * K)
    = ((X - (if p then K else 0)) * (Y - (if q then K else 0))) mod (K * K)"
proof -
  have "(X - (if p then K else 0)) * (Y - (if q then K else 0))
      = (X * Y - (if p then K else 0) * Y - (if q then K else 0) * X) + (if p \<and> q then 1 else 0) * (K * K)"
    by (simp add: algebra_simps)
  then show ?thesis by (simp only: mod_mult_self3 mod_mult_self1)
qed

lemma MultiplySigned64_exact:
  "int (u128_val (MultiplySigned64 x y)) mod 2 ^ 128 = (sint x * sint y) mod 2 ^ 128"
proof -
  let ?M = "2 ^ 128 :: int"
  define r where "r = MultiplyUnsigned64 x y"
  define r1 where "r1 = (if drop_bit 63 x \<noteq> 0 then r\<lparr>u128_hi := u128_hi r - y\<rparr> else r)"
  have sx: "sint w = uint w - (if drop_bit 63 w \<noteq> 0 then 2 ^ 64 else 0)" for w :: u64
    by (simp add: sint_u64 top_bit_set)
  have pw: "?M = 2 ^ 64 * 2 ^ 64" by simp
  have r0: "int (u128_val r) = uint x * uint y"
    by (simp add: r_def MultiplyUnsigned64_exact)
  have r1: "int (u128_val r1) mod ?M = (uint x * uint y - (if drop_bit 63 x \<noteq> 0 then 2 ^ 64 else 0) * uint y) mod ?M"
    using u128_sub_hi [of r y] by (cases "drop_bit 63 x \<noteq> 0") (simp_all only: r1_def r0 if_True if_False mult_zero_left diff_zero simp_thms)
  have "int (u128_val (MultiplySigned64 x y)) mod ?M
      = (int (u128_val r1) - (if drop_bit 63 y \<noteq> 0 then 2 ^ 64 else 0) * uint x) mod ?M"
  proof -
    have "MultiplySigned64 x y = (if drop_bit 63 y \<noteq> 0 then r1\<lparr>u128_hi := u128_hi r1 - x\<rparr> else r1)"
      by (simp only: MultiplySigned64_def Let_def r_def r1_def)
    then show ?thesis
      using u128_sub_hi [of r1 x]
      by (cases "drop_bit 63 y \<noteq> 0") (simp_all only: if_True if_False mult_zero_left diff_zero simp_thms)
  qed
  also have "\<dots> = ((uint x * uint y - (if drop_bit 63 x \<noteq> 0 then 2 ^ 64 else 0) * uint y)
      - (if drop_bit 63 y \<noteq> 0 then 2 ^ 64 else 0) * uint x) mod ?M"
    by (rule mod_diff_cong [OF r1 refl])
  also have "\<dots> = (sint x * sint y) mod ?M"
    using signed_product_mod [of "uint x" "uint y" "drop_bit 63 x \<noteq> 0" "2 ^ 64" "drop_bit 63 y \<noteq> 0"]
    by (simp only: sx pw)
  finally show ?thesis .
qed

lemma mod_two_digits: "c < M \<Longrightarrow> (c + M * k) mod (M * N) = c + M * (k mod N)" for c M k N :: nat
  by (simp add: mod_mult2_eq)

lemma u128_val_less: "u128_val r < 2 ^ 128"
proof -
  have "unat (u128_lo r) < 2 ^ 64" "unat (u128_hi r) \<le> 2 ^ 64 - 1"
    using unat_u64_less [of "u128_lo r"] unat_u64_less [of "u128_hi r"] by simp_all
  then have "unat (u128_lo r) + 2 ^ 64 * unat (u128_hi r) < 2 ^ 64 + 2 ^ 64 * (2 ^ 64 - 1)"
    by (intro add_less_le_mono mult_le_mono2)
  then show ?thesis by (simp add: u128_val_def)
qed

lemma AddUInt128_val: "u128_val (AddUInt128 r y) = (u128_val r + unat y) mod 2 ^ 128"
proof -
  let ?l = "u128_lo r" and ?h = "u128_hi r"
  have l: "unat (?l + y) = (if unat ?l + unat y < 2 ^ 64 then unat ?l + unat y else unat ?l + unat y - 2 ^ 64)"
    using unat_plus_if' [of ?l y] by simp
  have c: "?l + y < ?l \<longleftrightarrow> \<not> unat ?l + unat y < 2 ^ 64"
    using unat_u64_less [of y] unat_u64_less [of ?l] by (simp only: word_less_nat_alt l) auto
  show ?thesis
  proof (cases "unat ?l + unat y < 2 ^ 64")
    case True
    then have "u128_val (AddUInt128 r y) = u128_val r + unat y"
      using c l by (simp add: AddUInt128_def Let_def u128_val_def)
    then show ?thesis
      using u128_val_less [of "AddUInt128 r y"] by simp
  next
    case False
    have h: "unat (?h + 1) = (unat ?h + 1) mod 2 ^ 64"
      by (simp add: unat_word_ariths)
    have "u128_val (AddUInt128 r y) = unat ?l + unat y - 2 ^ 64 + 2 ^ 64 * ((unat ?h + 1) mod 2 ^ 64)"
      using False c l h by (simp add: AddUInt128_def Let_def u128_val_def)
    also have "\<dots> = (unat ?l + unat y - 2 ^ 64 + 2 ^ 64 * (unat ?h + 1)) mod (2 ^ 64 * 2 ^ 64)"
    proof -
      have "unat ?l + unat y - 2 ^ 64 < 2 ^ 64"
        using unat_u64_less [of y] unat_u64_less [of ?l] by simp
      then show ?thesis
        by (simp only: mod_two_digits)
    qed
    also have "\<dots> = (u128_val r + unat y) mod 2 ^ 128"
      using False by (simp add: u128_val_def algebra_simps)
    finally show ?thesis .
  qed
qed

subsection \<open>Limb arithmetic is integer arithmetic\<close>

lemma uint_u32_less: "uint (l :: u32) < 2 ^ 32"
  using uint_bounded [of l] by simp

lemma unat_ucast_u32 [simp]: "unat (ucast (l :: u32) :: u64) = unat l"
  using unat_u32_less [of l] by (simp add: unsigned_ucast_eq take_bit_nat_eq_self)

lemma length_add_limbs [simp]: "length ls = length rs \<Longrightarrow> length (add_limbs c ls rs) = length rs"
  by (induction c ls rs rule: add_limbs.induct) (simp_all add: Let_def)

lemma add_limbs_val:
  "length ls = length rs \<Longrightarrow> unat c \<le> 1 \<Longrightarrow>
   wide_val (add_limbs c ls rs) = (wide_val ls + wide_val rs + unat c) mod 2 ^ (32 * length rs)"
proof (induction c ls rs rule: add_limbs.induct)
  case (1 c l ls r rs)
  define S where "S = unat l + unat r + unat c"
  have sum: "unat (ucast l + ucast r + c :: u64) = S"
  proof -
    have "unat (ucast l + ucast r :: u64) = unat l + unat r"
      using unat_u32_less [of l] unat_u32_less [of r] by (subst unat_add_lem [THEN iffD1]) simp_all
    then show ?thesis
      using unat_u32_less [of l] unat_u32_less [of r] "1.prems"(2)
      by (subst unat_add_lem [THEN iffD1]) (simp_all add: S_def)
  qed
  have "S < 2 * 2 ^ 32"
    using unat_u32_less [of l] unat_u32_less [of r] "1.prems"(2) by (simp add: S_def)
  then have "S div 2 ^ 32 \<le> 1"
    using less_mult_imp_div_less [of S 2 "2 ^ 32"] by simp
  then have carry: "unat (drop_bit 32 (ucast l + ucast r + c :: u64)) \<le> 1"
    by (simp only: unat_drop_bit_div sum)
  have IH: "wide_val (add_limbs (drop_bit 32 (ucast l + ucast r + c)) ls rs)
      = (wide_val ls + wide_val rs + S div 2 ^ 32) mod 2 ^ (32 * length rs)"
    using "1.IH" [OF refl] "1.prems" carry by (simp only: unat_drop_bit_div sum length_Cons nat.inject)
  have split: "wide_val (l # ls) + wide_val (r # rs) + unat c
      = S mod 2 ^ 32 + 2 ^ 32 * (wide_val ls + wide_val rs + S div 2 ^ 32)"
  proof -
    have "S = S mod 2 ^ 32 + 2 ^ 32 * (S div 2 ^ 32)" by simp
    then show ?thesis by (simp add: S_def distrib_left)
  qed
  have pw: "(2 :: nat) ^ (32 * length (r # rs)) = 2 ^ 32 * 2 ^ (32 * length rs)"
    by (simp add: power_add)
  have "wide_val (add_limbs c (l # ls) (r # rs)) = S mod 2 ^ 32 +
      2 ^ 32 * ((wide_val ls + wide_val rs + S div 2 ^ 32) mod 2 ^ (32 * length rs))"
    by (simp only: add_limbs.simps Let_def wide_val.simps IH unat_low_high sum)
  also have "\<dots> = (wide_val (l # ls) + wide_val (r # rs) + unat c) mod 2 ^ (32 * length (r # rs))"
    unfolding split pw by (rule mod_two_digits [symmetric]) simp
  finally show ?case .
qed simp_all

lemma Add_val:
  assumes "wide_shape a" "wide_shape b" "wide_val a + wide_val b < 2 ^ 384"
  shows "wide_val (Add a b) = wide_val a + wide_val b"
  using assms add_limbs_val [of a b 0]
  by (simp add: Add_def wide_shape_def kLimbCount_def del: One_nat_def)

lemma length_subtract_limbs [simp]: "length ls = length rs \<Longrightarrow> length (subtract_limbs c ls rs) = length rs"
  by (induction c ls rs rule: subtract_limbs.induct) (simp_all add: Let_def)

lemma subtract_limbs_val:
  "length ls = length rs \<Longrightarrow> unat c \<le> 1 \<Longrightarrow> wide_val rs + unat c \<le> wide_val ls \<Longrightarrow>
   wide_val (subtract_limbs c ls rs) = wide_val ls - wide_val rs - unat c"
proof (induction c ls rs rule: subtract_limbs.induct)
  case (1 b l ls r rs)
  have sub: "unat (ucast r + b :: u64) = unat r + unat b"
    using unat_u32_less [of r] "1.prems"(2) by (subst unat_add_lem [THEN iffD1]) simp_all
  let ?b' = "if (ucast l :: u64) < ucast r + b then 1 else 0 :: u64"
  define L R B' where "L = unat l" and "R = unat r + unat b" and "B' = unat ?b'"
  note LRB = this
  have lt: "(ucast l :: u64) < ucast r + b \<longleftrightarrow> L < R"
    by (simp add: word_less_nat_alt sub LRB)
  then have B': "B' = (if L < R then 1 else 0)"
    by (simp add: LRB)
  have bounds: "L < 2 ^ 32" "R \<le> 2 ^ 32"
    using unat_u32_less [of l] unat_u32_less [of r] "1.prems"(2) by (simp_all add: LRB)
  have wrap: "uint (ucast l - (ucast r + b) :: u64) = (int L - int R) mod 2 ^ 64"
  proof -
    have "uint (X - Y) = (uint X - uint Y) mod 2 ^ 64" for X Y :: u64
      by (simp add: uint_word_ariths)
    moreover have "uint (ucast r + b :: u64) = int R"
      using arg_cong [OF sub, of int] by (simp add: LRB)
    moreover have "uint (ucast l :: u64) = int L"
      using uint_u32_less [of l] by (simp add: LRB unsigned_ucast_eq take_bit_int_eq_self)
    ultimately show ?thesis by presburger
  qed
  have low: "int (unat (ucast (ucast l - (ucast r + b) :: u64) :: u32)) = int L - int R + 2 ^ 32 * int B'"
  proof -
    have "int (unat (ucast (ucast l - (ucast r + b) :: u64) :: u32)) = (int L - int R) mod 2 ^ 32"
      using wrap by (simp add: unsigned_ucast_eq take_bit_eq_mod mod_mod_cancel zmod_int)
    also have "\<dots> = (int L - int R + 2 ^ 32 * int B') mod 2 ^ 32"
      by (rule mod_mult_self2 [symmetric])
    also have "\<dots> = int L - int R + 2 ^ 32 * int B'"
      using bounds B' by (intro mod_pos_pos_trivial) auto
    finally show ?thesis .
  qed
  have le: "R + 2 ^ 32 * wide_val rs \<le> L + 2 ^ 32 * wide_val ls"
    using "1.prems"(3) by (simp add: LRB)
  have up: "wide_val rs + B' \<le> wide_val ls"
  proof (rule ccontr)
    assume "\<not> ?thesis"
    then have "2 ^ 32 * Suc (wide_val ls) \<le> 2 ^ 32 * (wide_val rs + B')"
      by (intro mult_le_mono2) simp
    then show False
      using le bounds B' by (cases "L < R") auto
  qed
  have "unat ?b' \<le> 1" by simp
  then have "wide_val (subtract_limbs ?b' ls rs) = wide_val ls - wide_val rs - B'"
    using "1.IH" [OF refl] "1.prems"(1) up unfolding LRB(3) by (simp only: length_Cons nat.inject)
  then have hi: "int (wide_val (subtract_limbs ?b' ls rs)) = int (wide_val ls) - int (wide_val rs) - int B'"
    using up by linarith
  have "int (wide_val (subtract_limbs b (l # ls) (r # rs)))
      = int (unat (ucast (ucast l - (ucast r + b) :: u64) :: u32)) + 2 ^ 32 * int (wide_val (subtract_limbs ?b' ls rs))"
    by (simp only: subtract_limbs.simps Let_def wide_val.simps of_nat_add of_nat_mult of_nat_power of_nat_numeral)
  also have "\<dots> = int (L + 2 ^ 32 * wide_val ls) - int (R + 2 ^ 32 * wide_val rs)"
    by (simp only: low hi) (simp add: algebra_simps)
  finally have "wide_val (subtract_limbs b (l # ls) (r # rs)) = (L + 2 ^ 32 * wide_val ls) - (R + 2 ^ 32 * wide_val rs)"
    using le by linarith
  then show ?case
    by (simp only: wide_val.simps LRB)
qed simp_all

lemma Subtract_val:
  assumes "wide_shape a" "wide_shape b" "wide_val b \<le> wide_val a"
  shows "wide_val (Subtract a b) = wide_val a - wide_val b"
  using assms subtract_limbs_val [of a b 0] by (simp add: Subtract_def wide_shape_def)

lemma wide_val_take_Suc:
  "i < length xs \<Longrightarrow> wide_val (take (Suc i) xs) = wide_val (take i xs) + 2 ^ (32 * i) * unat (xs ! i)"
proof (induction xs arbitrary: i)
  case Nil
  then show ?case by simp
next
  case (Cons x xs)
  then show ?case
    by (cases i) (simp_all add: power_add distrib_left)
qed

lemma wide_val_take_less: "i \<le> length xs \<Longrightarrow> wide_val (take i xs) < 2 ^ (32 * i)"
  using wide_val_less [of "take i xs"] by simp

lemma compare_from_val:
  assumes "length a = length b"
  shows "i \<le> length a \<Longrightarrow> compare_from a b i =
    (if wide_val (take i a) < wide_val (take i b) then -1
     else if wide_val (take i a) = wide_val (take i b) then 0 else 1)"
proof (induction i)
  case 0
  then show ?case by simp
next
  case (Suc i)
  have digit: "wide_val (take (Suc i) a) < wide_val (take (Suc i) b)"
    if "a ! i < b ! i" "length a = length b" "Suc i \<le> length a" for a b
  proof -
    have "wide_val (take (Suc i) a) < 2 ^ (32 * i) * Suc (unat (a ! i))"
      using that wide_val_take_less [of i a] by (simp add: wide_val_take_Suc)
    also have "\<dots> \<le> 2 ^ (32 * i) * unat (b ! i)"
      using that(1) by (intro mult_le_mono2) (simp add: word_less_nat_alt)
    also have "\<dots> \<le> wide_val (take (Suc i) b)"
      using that by (simp add: wide_val_take_Suc)
    finally show ?thesis .
  qed
  consider "a ! i < b ! i" | "b ! i < a ! i" | "a ! i = b ! i"
    by fastforce
  then show ?case
  proof cases
    case 1
    then show ?thesis
      using digit [OF 1 assms Suc.prems] by (auto simp: word_less_nat_alt)
  next
    case 2
    then show ?thesis
      using digit [OF 2] assms Suc.prems by fastforce
  next
    case 3
    then show ?thesis
      using Suc assms by (simp add: wide_val_take_Suc)
  qed
qed

lemma Compare_val:
  assumes "wide_shape a" "wide_shape b"
  shows "Compare a b = (if wide_val a < wide_val b then -1 else if wide_val a = wide_val b then 0 else 1)"
  using assms compare_from_val [of a b 12] by (simp add: Compare_def wide_shape_def kLimbCount_def)

lemma shape_Add_Subtract [simp]:
  "wide_shape a \<Longrightarrow> wide_shape b \<Longrightarrow> wide_shape (Add a b)"
  "wide_shape a \<Longrightarrow> wide_shape b \<Longrightarrow> wide_shape (Subtract a b)"
  by (simp_all add: wide_shape_def Add_def Subtract_def)

text \<open>Signed addition implements integer addition, as long as the sum of the magnitudes fits.\<close>

definition signed_wide_val :: "signed_wide \<Rightarrow> int" where
  "signed_wide_val x = (if sw_negative x then - int (wide_val (sw_magnitude x)) else int (wide_val (sw_magnitude x)))"

lemma AddSignedWide_shape [simp]:
  "wide_shape (sw_magnitude x) \<Longrightarrow> wide_shape (sw_magnitude y) \<Longrightarrow>
   wide_shape (sw_magnitude (AddSignedWide x y))"
  by (simp add: AddSignedWide_def Let_def)

lemma AddSignedWide_val:
  assumes "wide_shape (sw_magnitude x)" "wide_shape (sw_magnitude y)"
    and "wide_val (sw_magnitude x) + wide_val (sw_magnitude y) < 2 ^ 384"
  shows "signed_wide_val (AddSignedWide x y) = signed_wide_val x + signed_wide_val y"
  using assms(1,2) Add_val [OF assms]
  by (auto simp: AddSignedWide_def signed_wide_val_def Let_def Compare_val Subtract_val not_less)

subsection \<open>Bit queries and shifts\<close>

lemma limb_bits_bounds:
  "unat w < 2 ^ limb_bits w \<and> (w \<noteq> 0 \<longrightarrow> 2 ^ (limb_bits w - 1) \<le> unat w \<and> 0 < limb_bits w)"
proof (induction w rule: limb_bits.induct)
  case (1 w)
  show ?case
  proof (cases "w = 0")
    case True
    then show ?thesis by (simp add: limb_bits.simps)
  next
    case False
    define v where "v = drop_bit 1 w"
    have v: "unat v = unat w div 2"
      by (simp only: v_def unat_drop_bit_div power_one_right)
    have IH: "unat v < 2 ^ limb_bits v" "v \<noteq> 0 \<Longrightarrow> 2 ^ (limb_bits v - 1) \<le> unat v \<and> 0 < limb_bits v"
      using "1.IH" [OF False] by (simp_all add: v_def)
    have lb: "limb_bits w = Suc (limb_bits v)"
      using False by (subst limb_bits.simps) (simp add: v_def)
    have up: "unat w < 2 * 2 ^ limb_bits v"
      using IH(1) v by simp
    have "2 ^ limb_bits v \<le> unat w"
    proof (cases "v = 0")
      case True
      then show ?thesis
        using False by (simp add: limb_bits.simps Suc_le_eq unat_gt_0)
    next
      case False
      then have "2 * 2 ^ (limb_bits v - 1) \<le> 2 * unat v" "0 < limb_bits v"
        using IH(2) by simp_all
      then show ?thesis
        using v by (simp add: power_eq_if split: if_splits)
    qed
    with up lb show ?thesis by simp
  qed
qed

lemma bit_length_from_bounds:
  "i \<le> length xs \<Longrightarrow> wide_val (take i xs) < 2 ^ bit_length_from xs i \<and>
     (wide_val (take i xs) \<noteq> 0 \<longrightarrow> 2 ^ (bit_length_from xs i - 1) \<le> wide_val (take i xs) \<and> 0 < bit_length_from xs i)"
proof (induction i)
  case 0
  then show ?case by simp
next
  case (Suc i)
  show ?case
  proof (cases "xs ! i = 0")
    case True
    then show ?thesis using Suc by (simp add: wide_val_take_Suc)
  next
    case False
    let ?k = "limb_bits (xs ! i)"
    have k: "unat (xs ! i) < 2 ^ ?k" "2 ^ (?k - 1) \<le> unat (xs ! i)" "0 < ?k"
      using limb_bits_bounds [of "xs ! i"] False by auto
    have "wide_val (take (Suc i) xs) < 2 ^ (32 * i) * Suc (unat (xs ! i))"
      using Suc.prems wide_val_take_less [of i xs] by (simp add: wide_val_take_Suc)
    also have "\<dots> \<le> 2 ^ (32 * i) * 2 ^ ?k"
      using k(1) by (intro mult_le_mono2) simp
    finally have up: "wide_val (take (Suc i) xs) < 2 ^ (i * 32 + ?k)"
      by (simp add: power_add mult.commute)
    have "i * 32 + ?k - 1 = 32 * i + (?k - 1)"
      using k(3) by simp
    then have "(2 :: nat) ^ (i * 32 + ?k - 1) = 2 ^ (32 * i) * 2 ^ (?k - 1)"
      by (simp only: power_add)
    also have "\<dots> \<le> 2 ^ (32 * i) * unat (xs ! i)"
      using k(2) by (rule mult_le_mono2)
    also have "\<dots> \<le> wide_val (take (Suc i) xs)"
      using Suc.prems by (simp add: wide_val_take_Suc)
    finally show ?thesis
      using up k(3) False by simp
  qed
qed

lemma BitLength_bounds:
  assumes "wide_shape xs"
  shows "wide_val xs < 2 ^ BitLength xs"
    and "wide_val xs \<noteq> 0 \<Longrightarrow> 2 ^ (BitLength xs - 1) \<le> wide_val xs"
    and "wide_val xs \<noteq> 0 \<Longrightarrow> 0 < BitLength xs"
  using bit_length_from_bounds [of 12 xs] assms by (simp_all add: BitLength_def wide_shape_def kLimbCount_def)

lemma word_eq_0_iff_bits: "w = 0 \<longleftrightarrow> (\<forall>k < LENGTH('a). \<not> bit w k)" for w :: "'a::len word"
  by (auto intro: bit_word_eqI)

lemma and_1_bit: "drop_bit m w AND 1 \<noteq> 0 \<longleftrightarrow> bit w m" for w :: "'a::len word"
  by (auto simp: word_eq_0_iff_bits bit_simps dest: bit_imp_le_length)

lemma TestBit_val: "wide_shape xs \<Longrightarrow> TestBit xs k \<longleftrightarrow> bit (wide_val xs) k"
  by (simp only: TestBit_def Let_def wide_shape_def bit_wide_val and_1_bit)

lemma mod_power_eq_0_iff: "(m :: nat) mod 2 ^ n = 0 \<longleftrightarrow> (\<forall>k < n. \<not> bit m k)"
proof -
  have "m mod 2 ^ n = 0 \<longleftrightarrow> take_bit n m = 0" by (simp add: take_bit_eq_mod)
  also have "\<dots> \<longleftrightarrow> (\<forall>k. \<not> bit (take_bit n m) k)"
    by (metis bit_eqI bit_0_eq bot_apply bot_bool_def)
  finally show ?thesis by (auto simp: bit_take_bit_iff)
qed

lemma AnyBelow_val:
  assumes "wide_shape xs"
  shows "AnyBelow xs n \<longleftrightarrow> wide_val xs mod 2 ^ n \<noteq> 0"
proof -
  have len: "length xs = kLimbCount"
    using assms by (simp add: wide_shape_def)
  have full: "(\<exists>l \<in> set (take (min (n div 32) kLimbCount) xs). l \<noteq> 0) \<longleftrightarrow>
      (\<exists>k. k div 32 < n div 32 \<and> k div 32 < kLimbCount \<and> bit (xs ! (k div 32)) (k mod 32))"
  proof
    assume "\<exists>l \<in> set (take (min (n div 32) kLimbCount) xs). l \<noteq> 0"
    then obtain j where j: "j < n div 32" "j < kLimbCount" "xs ! j \<noteq> 0"
      by (auto simp: set_conv_nth len)
    then obtain t where "t < 32" "bit (xs ! j) t"
      by (auto simp: word_eq_0_iff_bits)
    then have "(32 * j + t) div 32 = j" "(32 * j + t) mod 32 = t" by simp_all
    with j \<open>bit (xs ! j) t\<close> show "\<exists>k. k div 32 < n div 32 \<and> k div 32 < kLimbCount \<and> bit (xs ! (k div 32)) (k mod 32)"
      by metis
  next
    assume "\<exists>k. k div 32 < n div 32 \<and> k div 32 < kLimbCount \<and> bit (xs ! (k div 32)) (k mod 32)"
    then obtain j t where "j < n div 32" "j < kLimbCount" "bit (xs ! j) t" by blast
    then show "\<exists>l \<in> set (take (min (n div 32) kLimbCount) xs). l \<noteq> 0"
      by (intro bexI [of _ "xs ! j"]) (auto simp: set_conv_nth len intro!: exI [of _ j])
  qed
  have part: "xs ! (n div 32) AND (push_bit (n mod 32) 1 - 1) \<noteq> 0 \<longleftrightarrow>
      (\<exists>k. k div 32 = n div 32 \<and> k < n \<and> bit (xs ! (k div 32)) (k mod 32))"
  proof -
    have m: "push_bit (n mod 32) 1 - 1 = (mask (n mod 32) :: u32)"
      by (simp add: mask_eq_exp_minus_1 push_bit_eq_mult)
    have "xs ! (n div 32) AND mask (n mod 32) \<noteq> 0 \<longleftrightarrow> (\<exists>t < n mod 32. bit (xs ! (n div 32)) t)"
      by (auto simp: word_eq_0_iff_bits bit_simps intro: bit_imp_le_length [of "xs ! (n div 32)", simplified])
    also have "\<dots> \<longleftrightarrow> (\<exists>k. k div 32 = n div 32 \<and> k < n \<and> bit (xs ! (k div 32)) (k mod 32))"
    proof
      assume "\<exists>t < n mod 32. bit (xs ! (n div 32)) t"
      then obtain t where t: "t < n mod 32" "bit (xs ! (n div 32)) t" by blast
      then have "t < 32" by (meson less_trans mod_less_divisor zero_less_numeral)
      then have k: "(32 * (n div 32) + t) div 32 = n div 32" "(32 * (n div 32) + t) mod 32 = t" by simp_all
      moreover have "32 * (n div 32) + t < n" using t(1) mult_div_mod_eq [of 32 n] by linarith
      ultimately show "\<exists>k. k div 32 = n div 32 \<and> k < n \<and> bit (xs ! (k div 32)) (k mod 32)"
        using t(2) by metis
    next
      assume "\<exists>k. k div 32 = n div 32 \<and> k < n \<and> bit (xs ! (k div 32)) (k mod 32)"
      then obtain k where k: "k div 32 = n div 32" "k < n" "bit (xs ! (k div 32)) (k mod 32)" by blast
      then have "k mod 32 < n mod 32" using mult_div_mod_eq [of 32 n] mult_div_mod_eq [of 32 k] by linarith
      with k show "\<exists>t < n mod 32. bit (xs ! (n div 32)) t" by metis
    qed
    finally show ?thesis by (simp only: m)
  qed
  have below: "k < n \<longleftrightarrow> k div 32 < n div 32 \<or> (k div 32 = n div 32 \<and> k < n)" for k
    by (metis div_le_mono leD le_less not_less order_less_imp_le)
  have zero: "k div 32 = n div 32 \<and> k < n \<Longrightarrow> n mod 32 \<noteq> 0" for k
    using mult_div_mod_eq [of 32 n] mult_div_mod_eq [of 32 k] by linarith
  have "AnyBelow xs n \<longleftrightarrow> (\<exists>k. (k div 32 < n div 32 \<or> (k div 32 = n div 32 \<and> k < n)) \<and>
      k div 32 < kLimbCount \<and> bit (xs ! (k div 32)) (k mod 32))"
    unfolding AnyBelow_def Let_def full part
    by (rule iffI; elim disjE exE conjE) (use zero in \<open>fastforce | metis\<close>)+
  then have "AnyBelow xs n \<longleftrightarrow> (\<exists>k < n. k div 32 < kLimbCount \<and> bit (xs ! (k div 32)) (k mod 32))"
    by (simp only: below [symmetric])
  then show ?thesis
    by (simp add: mod_power_eq_0_iff bit_wide_val len)
qed

lemma length_shift_left_fold [simp]:
  "length (fold (shift_left_limb xs ls bs) is res) = length res"
  by (induction "is" arbitrary: res) (simp_all add: shift_left_limb_def Let_def)

text \<open>The limbs of the result after \<open>m\<close> rounds of the loop.\<close>

lemma shift_left_rounds:
  assumes "length res = kLimbCount" "m + ls \<le> kLimbCount" "\<forall>j < kLimbCount. res ! j = 0" "j < kLimbCount"
  shows "fold (shift_left_limb xs ls bs) [0..<m] res ! j =
    (if ls \<le> j \<and> j - ls < m then push_bit bs (xs ! (j - ls)) else 0) OR
    (if bs \<noteq> 0 \<and> ls < j \<and> j - ls - 1 < m then drop_bit (32 - bs) (xs ! (j - ls - 1)) else 0)"
  using assms(2,4)
proof (induction m arbitrary: j)
  case 0
  then show ?case using assms by simp
next
  case (Suc m)
  let ?r = "fold (shift_left_limb xs ls bs) [0..<m] res"
  have IH: "?r ! j = (if ls \<le> j \<and> j - ls < m then push_bit bs (xs ! (j - ls)) else 0) OR
    (if bs \<noteq> 0 \<and> ls < j \<and> j - ls - 1 < m then drop_bit (32 - bs) (xs ! (j - ls - 1)) else 0)"
    if "j < kLimbCount" for j
    using Suc that by simp
  have len: "length ?r = kLimbCount" using assms(1) by simp
  have "fold (shift_left_limb xs ls bs) [0..<Suc m] res ! j = shift_left_limb xs ls bs m ?r ! j"
    by simp
  also have "\<dots> = (if j = m + ls then (?r ! j) OR push_bit bs (xs ! m)
      else if bs \<noteq> 0 \<and> j = m + ls + 1 then (?r ! j) OR drop_bit (32 - bs) (xs ! m) else ?r ! j)"
    using Suc.prems len by (auto simp: shift_left_limb_def Let_def nth_list_update)
  also have "\<dots> = (if ls \<le> j \<and> j - ls < Suc m then push_bit bs (xs ! (j - ls)) else 0) OR
    (if bs \<noteq> 0 \<and> ls < j \<and> j - ls - 1 < Suc m then drop_bit (32 - bs) (xs ! (j - ls - 1)) else 0)"
  proof (cases "j = m + ls")
    case True
    then show ?thesis using Suc.prems IH [of j] by (auto simp: or.commute)
  next
    case False
    show ?thesis
    proof (cases "bs \<noteq> 0 \<and> j = m + ls + 1")
      case True
      then show ?thesis using Suc.prems IH [of j] by auto
    next
      case F2: False
      have "(ls \<le> j \<and> j - ls < Suc m) = (ls \<le> j \<and> j - ls < m)" using False by auto
      moreover have "(bs \<noteq> 0 \<and> ls < j \<and> j - ls - 1 < Suc m) = (bs \<noteq> 0 \<and> ls < j \<and> j - ls - 1 < m)"
        using F2 by auto
      ultimately show ?thesis using False F2 IH [OF Suc.prems(2)] by (cases "bs = 0") auto
    qed
  qed
  finally show ?case .
qed

lemma digit_diff:
  fixes q r a b :: nat
  assumes "r < 32" "b < 32" "32 * a + b \<le> 32 * q + r"
  shows "a \<le> q"
    and "q - a = (if r < b then Suc ((32 * q + r - (32 * a + b)) div 32) else (32 * q + r - (32 * a + b)) div 32)"
    and "(32 * q + r - (32 * a + b)) mod 32 = (if r < b then r + 32 - b else r - b)"
proof -
  show "a \<le> q" using assms by linarith
  then obtain c where c: "q = a + c" by (auto simp: le_iff_add)
  have div_eq: "(32 * d + e) div 32 = d" "(32 * d + e) mod 32 = e" if "e < 32" for d e :: nat
    using that by simp_all
  show "q - a = (if r < b then Suc ((32 * q + r - (32 * a + b)) div 32) else (32 * q + r - (32 * a + b)) div 32)"
    and "(32 * q + r - (32 * a + b)) mod 32 = (if r < b then r + 32 - b else r - b)"
  proof (atomize (full), cases "r < b")
    case True
    then obtain d where d: "c = Suc d" using assms c by (cases c) auto
    have e: "32 * q + r - (32 * a + b) = 32 * d + (r + 32 - b)" "r + 32 - b < 32"
      using assms True by (simp_all add: c d)
    show "q - a = (if r < b then Suc ((32 * q + r - (32 * a + b)) div 32) else (32 * q + r - (32 * a + b)) div 32)
      \<and> (32 * q + r - (32 * a + b)) mod 32 = (if r < b then r + 32 - b else r - b)"
      using True by (simp only: e(1) div_eq [OF e(2)] if_True) (simp add: c d)
  next
    case False
    have e: "32 * q + r - (32 * a + b) = 32 * c + (r - b)" "r - b < 32"
      using assms False by (simp_all add: c)
    show "q - a = (if r < b then Suc ((32 * q + r - (32 * a + b)) div 32) else (32 * q + r - (32 * a + b)) div 32)
      \<and> (32 * q + r - (32 * a + b)) mod 32 = (if r < b then r + 32 - b else r - b)"
      using False by (simp only: e(1) div_eq [OF e(2)] if_False) (simp add: c)
  qed
qed

lemma shift_index:
  fixes k n :: nat
  assumes "n \<le> k"
  shows "n div 32 \<le> k div 32"
    and "k div 32 - n div 32 = (if k mod 32 < n mod 32 then Suc ((k - n) div 32) else (k - n) div 32)"
    and "(k - n) mod 32 = (if k mod 32 < n mod 32 then k mod 32 + 32 - n mod 32 else k mod 32 - n mod 32)"
  using digit_diff [of "k mod 32" "n mod 32" "n div 32" "k div 32"] assms by simp_all

text \<open>A limb of the shifted number takes its bits from two neighbouring limbs.\<close>

lemma bit_spread:
  fixes x y :: u32
  assumes "r < 32" "b < 32"
  shows "bit ((if p then push_bit b x else 0) OR (if b \<noteq> 0 \<and> q then drop_bit (32 - b) y else 0)) r
    \<longleftrightarrow> (if r < b then q \<and> bit y (r + 32 - b) else p \<and> bit x (r - b))"
proof -
  have "\<not> bit y (32 - b + r)" if "\<not> r < b"
    using that by (auto dest!: bit_imp_le_length)
  moreover have "32 - b + r = r + 32 - b" using assms by simp
  ultimately show ?thesis
    using assms by (auto simp: bit_or_iff bit_push_bit_iff bit_drop_bit_eq)
qed

lemma shape_ShiftLeft [simp]: "wide_shape (ShiftLeft xs n)"
  by (simp add: wide_shape_def ShiftLeft_def wide_zero_def)

lemma diff_Suc_less: "a - b = Suc c \<Longrightarrow> b < a" "a - b = Suc c \<Longrightarrow> a - b - 1 = c" for a b c :: nat
  by auto

lemma ShiftLeft_nth:
  assumes "n < 384" "j < kLimbCount"
  shows "ShiftLeft xs n ! j =
    (if n div 32 \<le> j then push_bit (n mod 32) (xs ! (j - n div 32)) else 0) OR
    (if n mod 32 \<noteq> 0 \<and> n div 32 < j then drop_bit (32 - n mod 32) (xs ! (j - n div 32 - 1)) else 0)"
proof -
  let ?N = "n div 32"
  have N: "?N < kLimbCount"
    using assms(1) by (auto simp: kLimbCount_def less_mult_imp_div_less)
  have "(?N \<le> j \<and> j - ?N < kLimbCount - ?N) = (?N \<le> j)"
    "(n mod 32 \<noteq> 0 \<and> ?N < j \<and> j - ?N - 1 < kLimbCount - ?N) = (n mod 32 \<noteq> 0 \<and> ?N < j)"
    using assms(2) by auto
  moreover have "\<not> kLimbCount * 32 \<le> n" using assms(1) by (simp add: kLimbCount_def)
  ultimately show ?thesis
    using shift_left_rounds [of wide_zero "kLimbCount - ?N" ?N j xs "n mod 32"] N assms(2)
    by (simp only: ShiftLeft_def if_False) (simp add: wide_zero_def)
qed

lemma ShiftLeft_val:
  assumes "wide_shape xs"
  shows "wide_val (ShiftLeft xs n) = (wide_val xs * 2 ^ n) mod 2 ^ 384"
proof -
  have len: "length xs = kLimbCount" using assms by (simp add: wide_shape_def)
  have "wide_val (ShiftLeft xs n) = take_bit 384 (push_bit n (wide_val xs))"
  proof (rule bit_eqI)
    fix k
    show "bit (wide_val (ShiftLeft xs n)) k = bit (take_bit 384 (push_bit n (wide_val xs))) k"
    proof (cases "k < 384 \<and> n < 384")
      case False
      have "length (ShiftLeft xs n) = kLimbCount"
        using shape_ShiftLeft by (simp only: wide_shape_def)
      with False show ?thesis
        by (auto simp: bit_wide_val bit_simps ShiftLeft_def wide_zero_def kLimbCount_def)
    next
      case True
      then have kl: "k div 32 < kLimbCount" by (auto simp: kLimbCount_def less_mult_imp_div_less)
      have sl: "ShiftLeft xs n ! (k div 32) =
        (if n div 32 \<le> k div 32 then push_bit (n mod 32) (xs ! (k div 32 - n div 32)) else 0) OR
        (if n mod 32 \<noteq> 0 \<and> n div 32 < k div 32
         then drop_bit (32 - n mod 32) (xs ! (k div 32 - n div 32 - 1)) else 0)"
        using True kl by (intro ShiftLeft_nth) simp_all
      have sp: "bit (ShiftLeft xs n ! (k div 32)) (k mod 32) \<longleftrightarrow>
        (if k mod 32 < n mod 32
         then n div 32 < k div 32 \<and> bit (xs ! (k div 32 - n div 32 - 1)) (k mod 32 + 32 - n mod 32)
         else n div 32 \<le> k div 32 \<and> bit (xs ! (k div 32 - n div 32)) (k mod 32 - n mod 32))"
        unfolding sl by (rule bit_spread) simp_all
      have "bit (wide_val (ShiftLeft xs n)) k \<longleftrightarrow> bit (ShiftLeft xs n ! (k div 32)) (k mod 32)"
        using kl shape_ShiftLeft by (simp add: bit_wide_val wide_shape_def)
      also have "\<dots> \<longleftrightarrow> n \<le> k \<and> bit (xs ! ((k - n) div 32)) ((k - n) mod 32)"
      proof (cases "n \<le> k")
        case True
        note si = shift_index [OF True]
        show ?thesis
        proof (cases "k mod 32 < n mod 32")
          case R: True
          then have "k div 32 - n div 32 = Suc ((k - n) div 32)"
            using si(2) by (simp only: if_True)
          then have "n div 32 < k div 32" "k div 32 - n div 32 - 1 = (k - n) div 32"
            by (rule diff_Suc_less)+
          then show ?thesis
            by (simp only: sp si(3) R if_True True simp_thms)
        next
          case R: False
          show ?thesis
            by (simp only: sp si(1,2,3) R if_False True simp_thms)
        qed
      next
        case False
        then have "k div 32 < n div 32 \<or> (k div 32 = n div 32 \<and> k mod 32 < n mod 32)"
          using mult_div_mod_eq [of 32 n] mult_div_mod_eq [of 32 k] div_le_mono [of k n 32] by linarith
        then have "k mod 32 < n mod 32 \<Longrightarrow> \<not> n div 32 < k div 32" "\<not> k mod 32 < n mod 32 \<Longrightarrow> \<not> n div 32 \<le> k div 32"
          by (metis less_asym less_irrefl not_le)+
        with False show ?thesis
          by (cases "k mod 32 < n mod 32") (simp_all only: sp if_True if_False simp_thms)
      qed
      also have "\<dots> \<longleftrightarrow> bit (take_bit 384 (push_bit n (wide_val xs))) k"
        using True by (auto simp: bit_simps bit_wide_val len kLimbCount_def)
      finally show ?thesis .
    qed
  qed
  then show ?thesis by (simp only: take_bit_eq_mod push_bit_eq_mult)
qed

lemma bit_gather:
  fixes x y :: u32
  assumes "r < 32" "b < 32"
  shows "bit (if b \<noteq> 0 \<and> q then drop_bit b x OR push_bit (32 - b) y else drop_bit b x) r
    \<longleftrightarrow> (if r + b < 32 then bit x (r + b) else q \<and> bit y (r + b - 32))"
proof -
  have "\<not> bit x (b + r)" if "\<not> r + b < 32"
    using that by (auto dest!: bit_imp_le_length)
  moreover have "r - (32 - b) = r + b - 32" using assms by simp
  ultimately show ?thesis
    using assms by (auto simp: bit_or_iff bit_push_bit_iff bit_drop_bit_eq add.commute)
qed

lemma digit_carry:
  fixes r b i :: nat
  assumes "r < 32" "b < 32"
  shows "(32 * i + (r + b)) div 32 = (if r + b < 32 then i else i + 1)"
    and "(32 * i + (r + b)) mod 32 = (if r + b < 32 then r + b else r + b - 32)"
proof -
  have div_eq: "(32 * d + e) div 32 = d" "(32 * d + e) mod 32 = e" if "e < 32" for d e :: nat
    using that by simp_all
  have e: "32 * i + (r + b) = 32 * (i + 1) + (r + b - 32)" "r + b - 32 < 32" if "\<not> r + b < 32"
    using that assms by simp_all
  show "(32 * i + (r + b)) div 32 = (if r + b < 32 then i else i + 1)"
    and "(32 * i + (r + b)) mod 32 = (if r + b < 32 then r + b else r + b - 32)"
  proof (atomize (full), cases "r + b < 32")
    case False
    show "(32 * i + (r + b)) div 32 = (if r + b < 32 then i else i + 1) \<and>
      (32 * i + (r + b)) mod 32 = (if r + b < 32 then r + b else r + b - 32)"
      by (simp only: e(1) [OF False] div_eq [OF e(2) [OF False]] False if_False)
  qed (simp_all only: div_eq if_True)
qed

lemma shape_ShiftRight [simp]: "wide_shape (ShiftRight xs n)"
  by (simp add: wide_shape_def ShiftRight_def wide_zero_def)

lemma ShiftRight_val:
  assumes "wide_shape xs"
  shows "wide_val (ShiftRight xs n) = wide_val xs div 2 ^ n"
proof -
  have len: "length xs = kLimbCount" using assms by (simp add: wide_shape_def)
  have "wide_val (ShiftRight xs n) = drop_bit n (wide_val xs)"
  proof (rule bit_eqI)
    fix k
    have lenR: "length (ShiftRight xs n) = kLimbCount"
      using shape_ShiftRight by (simp only: wide_shape_def)
    show "bit (wide_val (ShiftRight xs n)) k = bit (drop_bit n (wide_val xs)) k"
    proof (cases "k div 32 < kLimbCount \<and> n < 384")
      case False
      then have "kLimbCount \<le> (n + k) div 32"
        using div_le_mono [of k "n + k" 32] div_le_mono [of 384 "n + k" 32] by (auto simp: kLimbCount_def not_less)
      moreover have "\<not> bit (wide_val (ShiftRight xs n)) k"
        using False lenR by (auto simp: bit_wide_val ShiftRight_def wide_zero_def kLimbCount_def)
      ultimately show ?thesis
        by (simp add: bit_drop_bit_eq bit_wide_val len)
    next
      case True
      let ?i = "k div 32 + n div 32" and ?r = "k mod 32" and ?b = "n mod 32"
      have nth: "ShiftRight xs n ! (k div 32) = (if ?i < kLimbCount then shift_right_limb xs ?b ?i else 0)"
        using True by (simp add: ShiftRight_def kLimbCount_def not_le)
      have sum: "n + k = 32 * ?i + (?r + ?b)" by simp
      have idx: "(n + k) div 32 = (if ?r + ?b < 32 then ?i else ?i + 1)"
        "(n + k) mod 32 = (if ?r + ?b < 32 then ?r + ?b else ?r + ?b - 32)"
        using digit_carry [of ?r ?b ?i] by (simp_all only: sum mod_less_divisor zero_less_numeral simp_thms)
      have "bit (wide_val (ShiftRight xs n)) k \<longleftrightarrow> bit (ShiftRight xs n ! (k div 32)) ?r"
        using True lenR by (simp add: bit_wide_val)
      also have "\<dots> \<longleftrightarrow> (if ?r + ?b < 32 then ?i < kLimbCount \<and> bit (xs ! ?i) (?r + ?b)
          else ?i + 1 < kLimbCount \<and> bit (xs ! (?i + 1)) (?r + ?b - 32))"
        using bit_gather [of ?r ?b "?i + 1 < kLimbCount" "xs ! ?i" "xs ! (?i + 1)"]
        by (auto simp: nth shift_right_limb_def Let_def)
      also have "\<dots> \<longleftrightarrow> bit (drop_bit n (wide_val xs)) k"
        by (cases "?r + ?b < 32") (simp_all only: bit_drop_bit_eq comp_def bit_wide_val len idx if_True if_False)
      finally show ?thesis .
    qed
  qed
  then show ?thesis by (simp only: drop_bit_eq_div)
qed

end
