(* ===== verification/Instruction.thy ===== *)
theory Instruction
  imports Address_Translation Wide_Int
begin

text \<open>
  The decoded instruction (\<open>InstructionEx\<close> of \<open>src/include/decoder.h\<close>) and the execution context of
  \<open>InstructionEx::Execute\<close> (\<open>src/src/decoder/decoder.cpp\<close>). The enumeration \<open>InstructionType\<close> is
  split into one datatype per section of its declaration, wrapped by \<open>instruction_type\<close>; the
  constructors keep the source's names, with \<open>_GR\<close> appended to those that are words of the logic.

  An execution step reads and changes the processor and the memory, may throw, and may fail to
  return: \<open>exec\<close> is the type of such steps. Changes made before an exception stay.
\<close>

subsection \<open>The instruction set\<close>

datatype move_type =
    MOV_GR | MOV_FROM_BR | MOV_TO_BR | MOV_FROM_AR | MOV_FROM_PSR | MOV_TO_PSR
  | MOV_FROM_CPUID | MOV_TO_PMC | MOV_FROM_PMC | MOV_TO_AR | MOV_FROM_RR | MOV_TO_RR
  | MOV_FROM_CR | MOV_TO_CR | ITR_I | ITR_D | ITC_I | ITC_D | THASH | PTC_L | MOV_FROM_PR
  | MOV_FROM_IP | MOV_TO_PR | MOV_TO_PR_ROT | MOV_IMM | MOVL | GETF_SIG | GETF_EXP | SETF_SIG

datatype arith_type = ADD | ADD_P1 | ADD_IMM | ADDL | SUB | SUB_M1 | SUB_IMM | ADDP4

datatype logic_type =
    AND_GR | AND_IMM | OR_GR | OR_IMM | XOR_GR | XOR_IMM | ANDCM | ANDCM_IMM

datatype shift_type = SHL | SHR | SHRA | SHRP | SHLADD | POPCNT | MUX1 | CZX1_R

datatype field_type = EXTR | DEP | DEP_Z | ZXT1 | ZXT2 | ZXT4 | SXT1 | SXT2 | SXT4

datatype compare_type =
    CMP_EQ | CMP_NE | CMP_LT | CMP_LE | CMP_GT | CMP_GE | CMP_LTU | CMP_LEU | CMP_GTU | CMP_GEU
  | CMP4_EQ | CMP4_NE | CMP4_LT | CMP4_LE | CMP4_GT | CMP4_GE | CMP4_LTU | CMP4_LEU | CMP4_GTU
  | CMP4_GEU

datatype memory_type =
    LD1 | LD2 | LD4 | LD8 | CMPXCHG4_ACQ | CMPXCHG8_ACQ | CMPXCHG4_REL | CMPXCHG8_REL | XCHG4
  | FETCHADD4_ACQ | FETCHADD4_REL | ST1 | ST2 | ST4 | ST8 | LD1_S | LD2_S | LD4_S | LD8_S | LFETCH
  | CHK_A_NC | CHK_A_CLR | INVALA | FC | TPA | SYNC_I | SRLZ_I | SRLZ_D | MF | MF_A | SSM | RSM | RFI
  | FLUSHRS | LOADRS

datatype branch_type =
    BR_COND | BR_CALL | BR_RET | BR_IA | BR_CLOOP | BR_CTOP | BR_CEXIT | BR_WTOP | BR_WEXIT | BRP

datatype test_type = TBIT_Z | TBIT_NZ | TNAT_Z | TNAT_NZ

datatype float_type =
    FMA | FMS | FNMA | XMA | XMA_H | XMA_HU | FSELECT | FCMP | FCLASS | FRCPA | FRSQRTA | FPRCPA
  | FPRSQRTA | FMIN | FMAX | FAMIN | FAMAX | FMERGE | FABS | FNEG | FNEGABS | FPABS | FPNEG
  | FCVT_FX | FCVT_FXU | FCVT_XF | FCVT_XUF | FPCVT_FX | FPCVT_FXU | FPCVT_XF

datatype spill_type = LDF_FILL | STF8 | STF_SPILL

datatype instruction_type =
    NOP
  | Move move_type
  | Arith arith_type
  | Logic logic_type
  | Shift shift_type
  | Field field_type
  | Compare_Op compare_type
  | Memory_Op memory_type
  | Branch branch_type
  | ALLOC
  | Test test_type
  | Float_Op float_type
  | Spill spill_type
  | BREAK
  | BSW
  | COVER
  | CLRRB
  | UNKNOWN

datatype unit_type = M_UNIT | I_UNIT | F_UNIT | B_UNIT | L_UNIT | X_UNIT | INVALID_UNIT

datatype compare_completer = NORMAL | UNC | AND_COMPLETER | OR_COMPLETER | OR_ANDCM

record instruction =
  in_type :: instruction_type
  in_unit :: unit_type
  in_rawBits :: u64
  in_predicate :: u8
  in_predicate2 :: u8
  in_dst :: u8
  in_src1 :: u8
  in_src2 :: u8
  in_src3 :: u8
  in_immediate :: u64
  in_hasImmediate :: bool
  in_branchTarget :: u64
  in_hasBranchTarget :: bool
  in_compareCompleter :: compare_completer
  in_lfetchFault :: bool
  in_lfetchExclusive :: bool
  in_lfetchHint :: u8
  in_registerUpdate :: bool

definition InstructionEx :: "instruction_type \<Rightarrow> unit_type \<Rightarrow> instruction" where
  "InstructionEx type unit =
     \<lparr>in_type = type, in_unit = unit, in_rawBits = 0, in_predicate = 0, in_predicate2 = 0, in_dst = 0,
      in_src1 = 0, in_src2 = 0, in_src3 = 0, in_immediate = 0, in_hasImmediate = False,
      in_branchTarget = 0, in_hasBranchTarget = False, in_compareCompleter = NORMAL,
      in_lfetchFault = False, in_lfetchExclusive = False, in_lfetchHint = 0, in_registerUpdate = False\<rparr>"

definition SetOperands :: "u8 \<Rightarrow> u8 \<Rightarrow> u8 \<Rightarrow> instruction \<Rightarrow> instruction" where
  "SetOperands dst src1 src2 i = i\<lparr>in_dst := dst, in_src1 := src1, in_src2 := src2\<rparr>"

definition SetOperands4 :: "u8 \<Rightarrow> u8 \<Rightarrow> u8 \<Rightarrow> u8 \<Rightarrow> instruction \<Rightarrow> instruction" where
  "SetOperands4 dst src1 src2 src3 i = i\<lparr>in_dst := dst, in_src1 := src1, in_src2 := src2, in_src3 := src3\<rparr>"

definition SetImmediate :: "u64 \<Rightarrow> instruction \<Rightarrow> instruction" where
  "SetImmediate imm i = i\<lparr>in_immediate := imm, in_hasImmediate := True\<rparr>"

definition SetBranchTarget :: "u64 \<Rightarrow> instruction \<Rightarrow> instruction" where
  "SetBranchTarget target i = i\<lparr>in_branchTarget := target, in_hasBranchTarget := True\<rparr>"

subsection \<open>Execution steps\<close>

type_synonym machine = "cpu_state \<times> memory"
type_synonym 'a exec = "machine \<Rightarrow> ((translation_error + 'a) \<times> machine) option"

definition ret :: "'a \<Rightarrow> 'a exec" where
  "ret a = (\<lambda>\<sigma>. Some (Inr a, \<sigma>))"

definition throw :: "cpp_error \<Rightarrow> 'a exec" where
  "throw e = (\<lambda>\<sigma>. Some (Inl (Other (Std e)), \<sigma>))"

definition bind :: "'a exec \<Rightarrow> ('a \<Rightarrow> 'b exec) \<Rightarrow> 'b exec" where
  "bind m f = (\<lambda>\<sigma>. case m \<sigma> of None \<Rightarrow> None
     | Some (Inl e, \<sigma>') \<Rightarrow> Some (Inl e, \<sigma>')
     | Some (Inr a, \<sigma>') \<Rightarrow> f a \<sigma>')"

definition next_step :: "unit exec \<Rightarrow> 'b exec \<Rightarrow> 'b exec" where
  "next_step m n = bind m (\<lambda>_. n)"

text \<open>A member function of \<open>CPUState\<close> that reads, and one that changes the processor.\<close>

definition from_cpu :: "(cpu_state \<Rightarrow> cpp_error + 'a) \<Rightarrow> 'a exec" where
  "from_cpu f = (\<lambda>(s, m). Some (lift_cpp (f s), s, m))"

definition to_cpu :: "(cpu_state \<Rightarrow> cpp_error + cpu_state) \<Rightarrow> unit exec" where
  "to_cpu f = (\<lambda>(s, m). Some (case f s of Inl e \<Rightarrow> (Inl (Other (Std e)), s, m) | Inr s' \<Rightarrow> (Inr (), s', m)))"

lemma exec_simps [simp]:
  "ret a \<sigma> = Some (Inr a, \<sigma>)"
  "throw e \<sigma> = Some (Inl (Other (Std e)), \<sigma>)"
  "bind (ret a) f = f a"
  by (auto simp: ret_def throw_def bind_def fun_eq_iff split: sum.splits)

abbreviation "gr r \<equiv> from_cpu (\<lambda>s. GetGR s (unat (r :: u8)))"
abbreviation "gr_nat r \<equiv> from_cpu (\<lambda>s. GetGRNaT s (unat (r :: u8)))"
abbreviation "set_gr r v \<equiv> to_cpu (SetGR (unat (r :: u8)) v)"
abbreviation "set_gr_nat r b \<equiv> to_cpu (SetGRNaT (unat (r :: u8)) b)"
abbreviation "fr r \<equiv> from_cpu (\<lambda>s. GetFR s (unat (r :: u8)))"
abbreviation "set_fr r v \<equiv> to_cpu (SetFR (unat (r :: u8)) v)"
abbreviation "set_pr r b \<equiv> to_cpu (SetPR (unat (r :: u8)) b)"
abbreviation "ar n \<equiv> from_cpu (\<lambda>s. GetAR s n)"
abbreviation "psr \<equiv> from_cpu (\<lambda>s. Inr (cpu_psr s))"
abbreviation "set_psr v \<equiv> to_cpu (\<lambda>s. Inr (SetPSR v s))"
abbreviation "cr n \<equiv> from_cpu (\<lambda>s. GetCR s n)"
abbreviation "rr n \<equiv> from_cpu (\<lambda>s. GetRR s n)"

text \<open>The data accesses of \<open>readIa64Data\<close> and \<open>writeIa64Data\<close>.\<close>

definition readIa64Data :: "u64 \<Rightarrow> nat \<Rightarrow> u8 list exec" where
  "readIa64Data address n = (\<lambda>(s, m).
     case ReadData s m address (replicate n 0) of
       None \<Rightarrow> None
     | Some (Inl e, dest, s', m') \<Rightarrow> Some (Inl e, s', m')
     | Some (Inr _, dest, s', m') \<Rightarrow> Some (Inr dest, s', m'))"

definition writeIa64Data :: "u64 \<Rightarrow> u8 list \<Rightarrow> unit exec" where
  "writeIa64Data address source = (\<lambda>(s, m).
     case WriteData s m address source of
       None \<Rightarrow> None
     | Some (r, s', m') \<Rightarrow> Some (r, s', m'))"

definition translateIa64KernelDataAddress :: "u64 \<Rightarrow> access_type \<Rightarrow> bool \<Rightarrow> u64 exec" where
  "translateIa64KernelDataAddress address acc forceVirtual = (\<lambda>(s, m).
     case TranslateDataAddress s m address acc forceVirtual of
       (Inl e, s', m') \<Rightarrow> Some (Inl e, s', m')
     | (Inr t, s', m') \<Rightarrow> Some (Inr (tr_physicalAddress t), s', m'))"

subsection \<open>Helpers of the executor\<close>

definition architecturalInstructionPointer :: "cpu_state \<Rightarrow> u64" where
  "architecturalInstructionPointer s =
     (let ip = cpu_ip s in
      if bit (cpu_psr s) 36 \<and> ip \<ge> 0x04000000 \<and> ip - 0x04000000 < 0x01000000
      then 0xA000000100000000 + (ip - 0x04000000) else ip)"

definition CheckPredicate :: "u8 \<Rightarrow> bool exec" where
  "CheckPredicate predReg =
     (if predReg = 0 then ret True else from_cpu (\<lambda>s. GetPR s (unat predReg)))"

definition SignExtend :: "u64 \<Rightarrow> nat \<Rightarrow> u64" where
  "SignExtend value bits =
     (let sign_bit = push_bit (bits - 1) 1 :: u64
      in if value AND sign_bit \<noteq> 0 then value OR NOT (push_bit bits 1 - 1) else value)"

definition ReadLittleEndian64 :: "u8 list \<Rightarrow> u64" where
  "ReadLittleEndian64 bytes = le_value (take 8 bytes)"

definition WriteLittleEndian64 :: "nat \<Rightarrow> u64 \<Rightarrow> u8 list \<Rightarrow> u8 list" where
  "WriteLittleEndian64 offset value bytes = write_bytes bytes offset (le_bytes 8 value)"

text \<open>A register image of a zeroed 16-byte buffer with its two halves written.\<close>

definition fr_image :: "u64 \<Rightarrow> u64 \<Rightarrow> u8 list" where
  "fr_image significand signAndExponent =
     WriteLittleEndian64 8 signAndExponent (WriteLittleEndian64 0 significand (replicate 16 0))"

definition IsNatVal :: "u8 list \<Rightarrow> bool" where
  "IsNatVal bytes =
     (let significand = ReadLittleEndian64 bytes;
          signAndExponent = ReadLittleEndian64 (drop 8 bytes)
      in significand = 0 \<and> signAndExponent AND 0x3FFFF = 0x1FFFE)"

definition NatVal_image :: "u8 list" where
  "NatVal_image = WriteLittleEndian64 8 0x1FFFE (replicate 16 0)"

end
