(* ===== verification/Float_Arith.thy ===== *)
theory Float_Arith
  imports Instruction
begin

text \<open>
  Floating-point arithmetic on the IA-64 register format (\<open>src/src/decoder/decoder.cpp\<close>, from
  \<open>IA64FloatingValue\<close> to \<open>ExecuteAddp4\<close>): reading and classifying register images, the conversions to
  fixed point, fused multiply-add with its rounding, and the reciprocal approximations. The host's
  \<open>long double\<close> is a parameter: \<open>host_float\<close> lists the library operations the approximations use.
\<close>

subsection \<open>Register images\<close>

record ia64_float =
  fv_significand :: u64
  fv_exponent :: u32
  fv_negative :: bool
  fv_natVal :: bool

definition ReadIA64FloatingValue :: "u8 list \<Rightarrow> ia64_float" where
  "ReadIA64FloatingValue bytes =
     (let signAndExponent = ReadLittleEndian64 (drop 8 bytes)
      in \<lparr>fv_significand = ReadLittleEndian64 bytes,
          fv_exponent = ucast (signAndExponent AND 0x1FFFF),
          fv_negative = (signAndExponent AND push_bit 17 1 \<noteq> 0),
          fv_natVal = IsNatVal bytes\<rparr>)"

datatype float_class =
    Zero | Finite | PositiveInfinity | NegativeInfinity | NaN | Unsupported | PseudoZero

definition ClassifyIA64FloatingValue :: "ia64_float \<Rightarrow> float_class" where
  "ClassifyIA64FloatingValue v =
     (if fv_natVal v then Unsupported
      else if fv_exponent v = 0x1FFFF then
        (if fv_significand v = 0x8000000000000000
         then (if fv_negative v then NegativeInfinity else PositiveInfinity)
         else if fv_significand v AND 0x8000000000000000 \<noteq> 0 then NaN else Unsupported)
      else if fv_significand v = 0 then (if fv_exponent v = 0 then Zero else PseudoZero)
      else Finite)"

definition IsIA64Finite :: "float_class \<Rightarrow> bool" where
  "IsIA64Finite c = (c = Finite)"

definition IsIA64ZeroLike :: "float_class \<Rightarrow> bool" where
  "IsIA64ZeroLike c = (c = Zero \<or> c = PseudoZero)"

definition IsIA64NaNLike :: "float_class \<Rightarrow> bool" where
  "IsIA64NaNLike c = (c = NaN \<or> c = Unsupported)"

definition IA64Zero_image :: "bool \<Rightarrow> u8 list" where
  "IA64Zero_image negative = WriteLittleEndian64 8 (if negative then push_bit 17 1 else 0) (replicate 16 0)"

definition IA64Infinity_image :: "bool \<Rightarrow> u8 list" where
  "IA64Infinity_image negative = fr_image 0x8000000000000000 (0x1FFFF OR (if negative then push_bit 17 1 else 0))"

definition IA64NaN_image :: "u8 list" where
  "IA64NaN_image = fr_image 0xC000000000000000 0x1FFFF"

subsection \<open>The host's long double\<close>

record 'f host_float =
  hf_of_u64 :: "u64 \<Rightarrow> 'f"
  hf_to_u64 :: "'f \<Rightarrow> u64"
  hf_zero :: "bool \<Rightarrow> 'f"
  hf_one :: 'f
  hf_half :: 'f
  hf_two32 :: 'f
  hf_neg :: "'f \<Rightarrow> 'f"
  hf_fabs :: "'f \<Rightarrow> 'f"
  hf_add :: "'f \<Rightarrow> 'f \<Rightarrow> 'f"
  hf_sub :: "'f \<Rightarrow> 'f \<Rightarrow> 'f"
  hf_mul :: "'f \<Rightarrow> 'f \<Rightarrow> 'f"
  hf_div :: "'f \<Rightarrow> 'f \<Rightarrow> 'f"
  hf_sqrt :: "'f \<Rightarrow> 'f"
  hf_floor :: "'f \<Rightarrow> 'f"
  hf_ldexp :: "'f \<Rightarrow> int \<Rightarrow> 'f"
  hf_frexp :: "'f \<Rightarrow> 'f \<times> int"
  hf_is_zero :: "'f \<Rightarrow> bool"
  hf_isfinite :: "'f \<Rightarrow> bool"

definition IA64ToLongDouble :: "'f host_float \<Rightarrow> ia64_float \<Rightarrow> 'f" where
  "IA64ToLongDouble h v =
     (if fv_significand v = 0 then hf_zero h (fv_negative v)
      else
        let exponent = (if fv_exponent v = 0 then -16382 - 63 else uint (fv_exponent v) - 65535 - 63);
            magnitude = hf_ldexp h (hf_of_u64 h (fv_significand v)) exponent
        in if fv_negative v then hf_neg h magnitude else magnitude)"

text \<open>The significand is rounded from two 32-bit halves; the result is the register image.\<close>

definition IA64Approximation_image :: "'f host_float \<Rightarrow> 'f \<Rightarrow> bool \<Rightarrow> u8 list" where
  "IA64Approximation_image h value negative =
     (if hf_is_zero h value then IA64Zero_image negative
      else if \<not> hf_isfinite h value then IA64Infinity_image negative
      else
        let (fraction, exponent) = hf_frexp h (hf_fabs h value);
            scaled = hf_ldexp h fraction 64;
            highPart = hf_floor h (hf_div h scaled (hf_two32 h));
            high0 = hf_to_u64 h highPart;
            low0 = hf_to_u64 h (hf_floor h (hf_add h (hf_sub h scaled (hf_mul h highPart (hf_two32 h))) (hf_half h)));
            (low1, high1) = (if low0 = 0x100000000 then (0, high0 + 1) else (low0, high0));
            biased0 = 65535 + exponent - 1;
            (high, low, biasedExponent) =
              (if high1 \<ge> 0x100000000 then (0x80000000, 0, biased0 + 1) else (high1, low1, biased0))
        in if biasedExponent \<ge> 0x1FFFF then IA64Infinity_image negative
           else if biasedExponent \<le> 0 then IA64Zero_image negative
           else fr_image (push_bit 32 high OR low)
                  (of_int biasedExponent OR (if negative then push_bit 17 1 else 0)))"

subsection \<open>Reciprocal approximations\<close>

definition frsqrta :: "'f host_float \<Rightarrow> u8 \<Rightarrow> ia64_float \<Rightarrow> u8 \<Rightarrow> unit exec" where
  "frsqrta h destination first predicate2 =
     (if fv_natVal first
      then next_step (set_fr destination NatVal_image) (set_pr predicate2 False)
      else
        let c = ClassifyIA64FloatingValue first;
            (result, p) =
              (if IsIA64ZeroLike c then (IA64Infinity_image (fv_negative first), False)
               else if c = PositiveInfinity then (IA64Zero_image False, False)
               else if IsIA64Finite c \<and> \<not> fv_negative first
               then (IA64Approximation_image h (hf_div h (hf_one h) (hf_sqrt h (IA64ToLongDouble h first))) False, True)
               else (IA64NaN_image, False))
        in next_step (set_pr predicate2 p) (set_fr destination result))"

definition frcpa :: "'f host_float \<Rightarrow> u8 \<Rightarrow> ia64_float \<Rightarrow> ia64_float \<Rightarrow> u8 \<Rightarrow> unit exec" where
  "frcpa h destination first second predicate2 =
     (if fv_natVal first \<or> fv_natVal second
      then next_step (set_fr destination NatVal_image) (set_pr predicate2 False)
      else
        let nc = ClassifyIA64FloatingValue first; dc = ClassifyIA64FloatingValue second;
            numeratorZero = IsIA64ZeroLike nc; denominatorZero = IsIA64ZeroLike dc;
            numeratorFinite = IsIA64Finite nc; denominatorFinite = IsIA64Finite dc;
            numeratorInfinity = (nc = PositiveInfinity \<or> nc = NegativeInfinity);
            denominatorInfinity = (dc = PositiveInfinity \<or> dc = NegativeInfinity);
            (result, p) =
              (if IsIA64NaNLike nc \<or> IsIA64NaNLike dc \<or> (numeratorInfinity \<and> denominatorInfinity) \<or>
                  (numeratorZero \<and> denominatorZero) then (IA64NaN_image, False)
               else if numeratorInfinity \<or> denominatorZero
               then (IA64Infinity_image (fv_negative first \<noteq> fv_negative second), False)
               else if denominatorInfinity \<or> numeratorZero
               then (IA64Zero_image (fv_negative first \<noteq> fv_negative second), False)
               else if numeratorFinite \<and> denominatorFinite
               then (IA64Approximation_image h
                       (hf_div h (hf_one h) (hf_fabs h (IA64ToLongDouble h second))) (fv_negative second), True)
               else (IA64NaN_image, False))
        in next_step (set_pr predicate2 p) (set_fr destination result))"

definition ExecuteReciprocalApproximation ::
  "'f host_float \<Rightarrow> float_type \<Rightarrow> u8 \<Rightarrow> u8 \<Rightarrow> u8 \<Rightarrow> u8 \<Rightarrow> unit exec" where
  "ExecuteReciprocalApproximation h type destination source1 source2 predicate2 =
     bind (fr source1) (\<lambda>source1Bytes.
       let first = ReadIA64FloatingValue source1Bytes in
       if type = FRSQRTA then frsqrta h destination first predicate2
       else bind (fr source2) (\<lambda>source2Bytes.
         frcpa h destination first (ReadIA64FloatingValue source2Bytes) predicate2))"

subsection \<open>Conversion to fixed point\<close>

definition kIntegerExponent :: int where
  "kIntegerExponent = 0x1003E"

text \<open>The shift of both conversions: the significand moved by the distance of the exponents.\<close>

definition shifted_significand :: "ia64_float \<Rightarrow> u64" where
  "shifted_significand value =
     (let shift = uint (fv_exponent value) - kIntegerExponent
      in if shift \<ge> 64 then 0
         else if shift \<ge> 0 then push_bit (nat shift) (fv_significand value)
         else if shift > -64 then drop_bit (nat (- shift)) (fv_significand value)
         else 0)"

definition ExecuteUnsignedFixedTruncate :: "u8 \<Rightarrow> u8 \<Rightarrow> unit exec" where
  "ExecuteUnsignedFixedTruncate destination source =
     bind (fr source) (\<lambda>sourceBytes.
       let value = ReadIA64FloatingValue sourceBytes in
       if fv_natVal value then set_fr destination NatVal_image
       else if fv_negative value \<or> \<not> IsIA64Finite (ClassifyIA64FloatingValue value)
       then set_fr destination sourceBytes
       else set_fr destination (fr_image (shifted_significand value) (of_int kIntegerExponent)))"

definition ExecuteSignedFixedTruncate :: "u8 \<Rightarrow> u8 \<Rightarrow> unit exec" where
  "ExecuteSignedFixedTruncate destination source =
     bind (fr source) (\<lambda>sourceBytes.
       let value = ReadIA64FloatingValue sourceBytes in
       if fv_natVal value then set_fr destination NatVal_image
       else if fv_significand value = 0 then set_fr destination (fr_image 0 (of_int kIntegerExponent))
       else
         let integerValue = shifted_significand value;
             integerValue' = (if fv_negative value then NOT integerValue + 1 else integerValue)
         in set_fr destination (fr_image integerValue' (of_int kIntegerExponent)))"

subsection \<open>Fused multiply-add\<close>

definition FusedArithmeticPrecisionBits :: "u64 \<Rightarrow> u64 \<Rightarrow> nat" where
  "FusedArithmeticPrecisionBits fpsr rawBits =
     (let major = get_bits 37 4 rawBits;
          fixedSingle = (drop_bit 36 rawBits AND 1 \<noteq> 0)
      in if fixedSingle then 24
         else if major = 0x9 \<or> major = 0xB \<or> major = 0xD then 53
         else
           let sf = unat (get_bits 34 2 rawBits);
               controls = drop_bit (sf * 7) fpsr AND 0x7F;
               pc = drop_bit 2 controls AND 3
           in if pc = 0 then 24 else if pc = 1 then 53 else 64)"

definition fused_rounding :: "u64 \<Rightarrow> u64 \<Rightarrow> u8" where
  "fused_rounding fpsr rawBits = ucast (drop_bit (unat (get_bits 34 2 rawBits) * 7) fpsr AND 3)"

definition ShouldRoundUp :: "u32 list \<Rightarrow> nat \<Rightarrow> u64 \<Rightarrow> bool \<Rightarrow> u8 \<Rightarrow> bool" where
  "ShouldRoundUp magnitude shift retained negative roundingControl =
     (if shift = 0 then False
      else
        let discarded = AnyBelow magnitude shift; rc = roundingControl AND 3
        in if rc = 1 then False
           else if rc = 2 then \<not> negative \<and> discarded
           else if rc = 3 then negative \<and> discarded
           else if \<not> TestBit magnitude (shift - 1) then False
           else AnyBelow magnitude (shift - 1) \<or> retained AND 1 \<noteq> 0)"

definition RoundedIA64Value_image :: "signed_wide \<Rightarrow> int \<Rightarrow> nat \<Rightarrow> u8 \<Rightarrow> u8 list" where
  "RoundedIA64Value_image exact exponentBase precisionBits roundingControl =
     (if IsZero (sw_magnitude exact) then replicate 16 0
      else
        let originalBitLength = BitLength (sw_magnitude exact);
            shift = (if originalBitLength > precisionBits then originalBitLength - precisionBits else 0);
            retained0 = Low64 (ShiftRight (sw_magnitude exact) shift);
            retained1 = (if ShouldRoundUp (sw_magnitude exact) shift retained0 (sw_negative exact) roundingControl
                         then retained0 + 1 else retained0);
            (retained2, resultBitLength) =
              (if precisionBits < 64 \<and> retained1 = push_bit precisionBits 1
               then (drop_bit 1 retained1, originalBitLength + 1) else (retained1, originalBitLength));
            retained3 = (if originalBitLength < precisionBits
                         then push_bit (precisionBits - originalBitLength) retained2 else retained2);
            significand = (if precisionBits = 64 then retained3 else push_bit (64 - precisionBits) retained3);
            exponent = 0x1003E + exponentBase + int resultBitLength - 64;
            exponent' = max 0 (min 0x1FFFF exponent)
        in fr_image significand (of_int exponent' OR (if sw_negative exact then push_bit 17 1 else 0)))"

text \<open>
  The sum before rounding: the exact value with the exponent its unit stands for. \<open>addend\<close> is the
  register number; register 0 means that there is no addend.
\<close>

definition fused_exact :: "float_type \<Rightarrow> u8 \<Rightarrow> ia64_float \<Rightarrow> ia64_float \<Rightarrow> ia64_float \<Rightarrow> signed_wide \<times> int" where
  "fused_exact type addend left right addendValue =
     (let productExponent = uint (fv_exponent left) - kIntegerExponent + uint (fv_exponent right) - kIntegerExponent;
          addendExponent = (if addend = 0 then productExponent else uint (fv_exponent addendValue) - kIntegerExponent);
          productNegative = ((fv_negative left \<noteq> fv_negative right) = (type \<noteq> FNMA));
          addendNegative = (addend \<noteq> 0 \<and> (fv_negative addendValue \<noteq> (type = FMS)));
          exactProduct = \<lparr>sw_negative = productNegative,
            sw_magnitude = FromUInt128 (MultiplyUnsigned64 (fv_significand left) (fv_significand right))\<rparr>;
          plainAddend = \<lparr>sw_negative = addendNegative, sw_magnitude = FromU64 (fv_significand addendValue)\<rparr>
      in if addend \<noteq> 0 then
           if IsZero (sw_magnitude exactProduct) then (plainAddend, addendExponent)
           else if fv_significand addendValue = 0 then (exactProduct, productExponent)
           else if \<bar>productExponent - addendExponent\<bar> \<le> 256 then
             let commonExponent = min productExponent addendExponent;
                 shiftedProduct = exactProduct\<lparr>sw_magnitude :=
                   ShiftLeft (sw_magnitude exactProduct) (nat (productExponent - commonExponent))\<rparr>;
                 exactAddend = \<lparr>sw_negative = addendNegative,
                   sw_magnitude = ShiftLeft (FromU64 (fv_significand addendValue)) (nat (addendExponent - commonExponent))\<rparr>
             in (AddSignedWide shiftedProduct exactAddend, commonExponent)
           else
             (if productExponent < addendExponent then exactProduct else plainAddend,
              if productExponent \<le> addendExponent then productExponent else addendExponent)
         else (exactProduct, productExponent))"

definition ExecuteFusedArithmetic :: "float_type \<Rightarrow> u64 \<Rightarrow> u8 \<Rightarrow> u8 \<Rightarrow> u8 \<Rightarrow> u8 \<Rightarrow> unit exec" where
  "ExecuteFusedArithmetic type rawBits destination multiplicand multiplier addend =
     bind (fr multiplicand) (\<lambda>multiplicandBytes.
     bind (fr multiplier) (\<lambda>multiplierBytes.
     bind (if addend \<noteq> 0 then fr addend else ret (replicate 16 0)) (\<lambda>addendBytes.
       let left = ReadIA64FloatingValue multiplicandBytes;
           right = ReadIA64FloatingValue multiplierBytes;
           addendValue = ReadIA64FloatingValue addendBytes
       in if fv_natVal left \<or> fv_natVal right \<or> (addend \<noteq> 0 \<and> fv_natVal addendValue)
          then set_fr destination NatVal_image
          else
            let (exact, exponentBase) = fused_exact type addend left right addendValue in
            bind (ar 40) (\<lambda>fpsr.
              set_fr destination (RoundedIA64Value_image exact exponentBase
                (FusedArithmeticPrecisionBits fpsr rawBits) (fused_rounding fpsr rawBits))))))"

subsection \<open>Pointer addition\<close>

definition ExecuteAddp4 :: "u8 \<Rightarrow> u64 \<Rightarrow> bool \<Rightarrow> u64 \<Rightarrow> bool \<Rightarrow> unit exec" where
  "ExecuteAddp4 destination firstOperand firstOperandNat baseOperand baseOperandNat =
     (let low32 = (firstOperand + baseOperand) AND 0xFFFFFFFF;
          regionBits = push_bit 61 (get_bits 30 2 baseOperand)
      in next_step (set_gr destination (low32 OR regionBits))
           (set_gr_nat destination (firstOperandNat \<or> baseOperandNat)))"

end
