(* ===== verification/Float_Props.thy ===== *)
theory Float_Props
  imports Float_Arith
begin

text \<open>
  Correctness of fused multiply-add: the sum before rounding is the exact integer combination of the
  operands (\<open>fused_exact_val\<close>), rounding picks the neighbour that the rounding mode asks for
  (\<open>rounded_image\<close>), and the two together give the correctly rounded result.  The remaining lemmas show
  where the code departs from that: a separation of the exponents above 256, a carry out of a 64-bit
  significand, and the bits the rounding mode is read from.
\<close>

subsection \<open>Register images read back\<close>

lemma write_zero16: "WriteLittleEndian64 0 a (replicate 16 0) = le_bytes 8 a @ replicate 8 0"
  by (simp add: WriteLittleEndian64_def write_bytes_def)

lemma fr_image_bytes: "fr_image a b = le_bytes 8 a @ le_bytes 8 b"
  by (simp add: fr_image_def write_zero16) (simp add: WriteLittleEndian64_def write_bytes_def)

lemma length_fr_image [simp]: "length (fr_image a b) = 16"
  by (simp add: fr_image_bytes)

lemma read_fr_image [simp]:
  "ReadLittleEndian64 (fr_image a b) = a" "ReadLittleEndian64 (drop 8 (fr_image a b)) = b"
  by (simp_all add: fr_image_bytes ReadLittleEndian64_def le_value_le_bytes)

lemma eight_Suc: "8 = Suc (Suc (Suc (Suc (Suc (Suc (Suc (Suc 0)))))))"
  by simp

lemma le_bytes_8: "le_bytes 8 (w :: u64) = [ucast w, ucast (drop_bit 8 w), ucast (drop_bit 16 w),
    ucast (drop_bit 24 w), ucast (drop_bit 32 w), ucast (drop_bit 40 w), ucast (drop_bit 48 w), ucast (drop_bit 56 w)]"
  by (subst eight_Suc) (simp add: drop_bit_drop_bit)

lemma replicate_8: "replicate 8 x = [x, x, x, x, x, x, x, x]"
  by (subst eight_Suc) simp

lemma NatVal_is_image: "NatVal_image = fr_image 0 0x1FFFE"
proof -
  have "le_bytes 8 (0 :: u64) = replicate 8 0"
    by (simp add: le_bytes_8 replicate_8)
  then show ?thesis
    by (simp add: fr_image_bytes NatVal_image_def WriteLittleEndian64_def write_bytes_def)
qed

lemma IsNatVal_image: "IsNatVal (fr_image a b) \<longleftrightarrow> a = 0 \<and> b AND 0x3FFFF = 0x1FFFE"
  by (simp add: IsNatVal_def Let_def)

text \<open>The exponent and the sign of an image whose upper half is a 17-bit exponent and a sign bit.\<close>

lemma sign_exponent_fields:
  fixes e :: u64
  assumes "unat e < 2 ^ 17"
  shows "(e OR (if n then push_bit 17 1 else 0)) AND 0x1FFFF = e"
    and "(e OR (if n then push_bit 17 1 else 0)) AND push_bit 17 1 \<noteq> 0 \<longleftrightarrow> n"
proof -
  have m: "(0x1FFFF :: u64) = mask 17" by (simp add: mask_eq_exp_minus_1)
  have hi: "i < 17" if "bit e i" for i
    using not_bit_of_small [OF assms, of i] that by (auto simp: not_less [symmetric])
  define P where "P = push_bit 17 (1 :: u64)"
  have P: "bit P i \<longleftrightarrow> i = 17" for i
    by (auto simp only: P_def bit_push_bit_iff bit_1_iff) simp
  show "(e OR (if n then push_bit 17 1 else 0)) AND 0x1FFFF = e"
    unfolding m P_def [symmetric] using hi by (intro bit_word_eqI) (auto simp: bit_simps P not_less)
  show "(e OR (if n then push_bit 17 1 else 0)) AND push_bit 17 1 \<noteq> 0 \<longleftrightarrow> n"
    unfolding P_def [symmetric] using hi by (auto simp: word_eq_0_iff_bits bit_simps P intro: exI [of _ 17])
qed

lemma read_value_image:
  assumes "0 \<le> e" "e \<le> 0x1FFFF" "sig \<noteq> 0"
  shows "ReadIA64FloatingValue (fr_image sig (of_int e OR (if n then push_bit 17 1 else 0)))
    = \<lparr>fv_significand = sig, fv_exponent = of_int e, fv_negative = n, fv_natVal = False\<rparr>"
proof -
  have u: "uint (of_int e :: u64) = e"
    using assms by (simp add: word_of_int_inverse)
  have "unat (of_int e :: u64) < 2 ^ 17"
  proof -
    from u have "int (unat (of_int e :: u64)) < int (2 ^ 17)"
      using assms by simp
    then show ?thesis by (simp only: of_nat_less_iff)
  qed
  note fields = sign_exponent_fields [OF this, of n]
  have "ucast (of_int e :: u64) = (of_int e :: u32)"
  proof (rule unsigned_word_eqI)
    have "uint (ucast (of_int e :: u64) :: u32) = e"
      using assms by (simp only: unsigned_ucast_eq u) (simp add: take_bit_int_eq_self)
    moreover have "uint (of_int e :: u32) = e"
      using assms by (simp add: word_of_int_inverse)
    ultimately show "uint (ucast (of_int e :: u64) :: u32) = uint (of_int e :: u32)" by simp
  qed
  then show ?thesis
    using assms(3) by (simp only: ReadIA64FloatingValue_def Let_def read_fr_image fields IsNatVal_image) simp
qed

subsection \<open>The sum before rounding is exact\<close>

definition fv_int :: "ia64_float \<Rightarrow> int" where
  "fv_int v = (if fv_negative v then - int (unat (fv_significand v)) else int (unat (fv_significand v)))"

definition fused_product :: "float_type \<Rightarrow> ia64_float \<Rightarrow> ia64_float \<Rightarrow> int" where
  "fused_product type l r = (if type = FNMA then - (fv_int l * fv_int r) else fv_int l * fv_int r)"

definition fused_addend :: "float_type \<Rightarrow> ia64_float \<Rightarrow> int" where
  "fused_addend type c = (if type = FMS then - fv_int c else fv_int c)"

definition product_exponent :: "ia64_float \<Rightarrow> ia64_float \<Rightarrow> int" where
  "product_exponent l r = uint (fv_exponent l) - kIntegerExponent + uint (fv_exponent r) - kIntegerExponent"

definition addend_exponent :: "ia64_float \<Rightarrow> int" where
  "addend_exponent c = uint (fv_exponent c) - kIntegerExponent"

lemma unat_product_less: "unat (a :: u64) * unat (b :: u64) \<le> (2 ^ 64 - 1) * (2 ^ 64 - 1)"
  using unat_u64_less [of a] unat_u64_less [of b] by (intro mult_le_mono) simp_all

lemma scaled_less:
  assumes "x \<le> (2 ^ 64 - 1) * (2 ^ 64 - 1)" "d \<le> 256"
  shows "x * 2 ^ d + 2 ^ 64 \<le> (2 ^ 384 :: nat)"
proof -
  have "x * 2 ^ d \<le> (2 ^ 64 - 1) * (2 ^ 64 - 1) * 2 ^ 256"
    using assms by (intro mult_le_mono power_increasing) simp_all
  then show ?thesis by (rule order_trans [OF add_le_mono1]) simp
qed

lemma ShiftLeft_exact: "wide_shape xs \<Longrightarrow> wide_val xs * 2 ^ n < 2 ^ 384 \<Longrightarrow> wide_val (ShiftLeft xs n) = wide_val xs * 2 ^ n"
  by (simp only: ShiftLeft_val mod_less)

lemma signed_product:
  "(if (na \<noteq> nb) = (type \<noteq> FNMA) then - int (a * b) else int (a * b)) =
   (if type = FNMA then - ((if na then - int a else int a) * (if nb then - int b else int b))
    else (if na then - int a else int a) * (if nb then - int b else int b))"
  by auto

lemma aligned_sum_fits:
  assumes "m = unat (a :: u64) * unat (b :: u64)" "n = unat (c :: u64)" "0 \<le> d" "d \<le> 256" "0 \<le> e" "e \<le> 256" "d = 0 \<or> e = 0"
  shows "m * 2 ^ nat d + n * 2 ^ nat e < 2 ^ 384" "m * 2 ^ nat d < 2 ^ 384" "n * 2 ^ nat e < 2 ^ 384"
proof -
  have m: "m \<le> (2 ^ 64 - 1) * (2 ^ 64 - 1)" and n: "n < 2 ^ 64" "n \<le> (2 ^ 64 - 1) * (2 ^ 64 - 1)"
    using unat_product_less [of a b] unat_u64_less [of c] assms(1,2) by simp_all
  show s: "m * 2 ^ nat d + n * 2 ^ nat e < 2 ^ 384"
  proof (cases "e = 0")
    case True
    have "nat d \<le> 256" using assms(4) by simp
    from scaled_less [OF m this] n(1) have "m * 2 ^ nat d + n < 2 ^ 384" by linarith
    with True show ?thesis by simp
  next
    case False
    then have "d = 0" using assms(7) by simp
    moreover have "n * 2 ^ nat e \<le> 2 ^ 64 * 2 ^ 256"
      using n(1) assms(5,6) by (intro mult_le_mono power_increasing) simp_all
    moreover have "m \<le> 2 ^ 128" using m by simp
    ultimately show ?thesis by simp
  qed
  then show "m * 2 ^ nat d < 2 ^ 384" "n * 2 ^ nat e < 2 ^ 384" by simp_all
qed

lemma fused_exact_no_addend:
  "fused_exact type 0 l r c = (x, e) \<Longrightarrow> wide_shape (sw_magnitude x) \<and> e = product_exponent l r \<and>
     signed_wide_val x = fused_product type l r"
  using signed_product [of "fv_negative l" "fv_negative r" type "unat (fv_significand l)" "unat (fv_significand r)"]
  by (auto simp: fused_exact_def Let_def product_exponent_def signed_wide_val_def FromUInt128_val
    MultiplyUnsigned64_exact fused_product_def fv_int_def)

text \<open>With exponents at most 256 apart the code computes product plus addend exactly.\<close>

lemma fused_exact_val:
  assumes "fused_exact type addend l r c = (x, e)" "addend \<noteq> 0"
    and "\<bar>product_exponent l r - addend_exponent c\<bar> \<le> 256"
  defines "lo \<equiv> min (product_exponent l r) (addend_exponent c)"
  shows "wide_shape (sw_magnitude x)" "lo \<le> e"
    and "signed_wide_val x * 2 ^ nat (e - lo) =
      fused_product type l r * 2 ^ nat (product_exponent l r - lo) +
      fused_addend type c * 2 ^ nat (addend_exponent c - lo)"
    and "fused_product type l r \<noteq> 0 \<Longrightarrow> fused_addend type c \<noteq> 0 \<Longrightarrow> e = lo"
proof -
  let ?pe = "product_exponent l r" and ?ae = "addend_exponent c"
  define m n where "m = unat (fv_significand l) * unat (fv_significand r)" and "n = unat (fv_significand c)"
  define np nc where "np = ((fv_negative l \<noteq> fv_negative r) = (type \<noteq> FNMA))" and "nc = (fv_negative c \<noteq> (type = FMS))"
  define P A where "P = FromUInt128 (MultiplyUnsigned64 (fv_significand l) (fv_significand r))"
    and "A = FromU64 (fv_significand c)"
  have P: "wide_shape P" "wide_val P = m" and A: "wide_shape A" "wide_val A = n"
    by (simp_all add: P_def A_def FromUInt128_val MultiplyUnsigned64_exact FromU64_val m_def n_def)
  have fp: "fused_product type l r = (if np then - int m else int m)"
    using signed_product [of "fv_negative l" "fv_negative r" type "unat (fv_significand l)" "unat (fv_significand r)"]
    by (simp add: np_def m_def fused_product_def fv_int_def)
  have fa: "fused_addend type c = (if nc then - int n else int n)"
    by (auto simp: nc_def n_def fused_addend_def fv_int_def)
  have d: "0 \<le> ?pe - lo" "?pe - lo \<le> 256" "0 \<le> ?ae - lo" "?ae - lo \<le> 256" "?pe - lo = 0 \<or> ?ae - lo = 0" "lo \<le> ?pe" "lo \<le> ?ae"
    using assms(3) by (auto simp: lo_def min_def)
  note fits = aligned_sum_fits [OF m_def n_def d(1-5)]
  let ?S = "ShiftLeft P (nat (?pe - lo))" and ?T = "ShiftLeft A (nat (?ae - lo))"
  have S: "wide_val ?S = m * 2 ^ nat (?pe - lo)" and T: "wide_val ?T = n * 2 ^ nat (?ae - lo)"
    using P A fits by (simp_all add: ShiftLeft_exact)
  have eq: "(x, e) =
    (if m = 0 then (\<lparr>sw_negative = nc, sw_magnitude = A\<rparr>, ?ae)
     else if n = 0 then (\<lparr>sw_negative = np, sw_magnitude = P\<rparr>, ?pe)
     else (AddSignedWide \<lparr>sw_negative = np, sw_magnitude = ?S\<rparr> \<lparr>sw_negative = nc, sw_magnitude = ?T\<rparr>, lo))"
    using assms(1) [symmetric] assms(2,3) IsZero_iff [of P] P(2)
    by (simp add: fused_exact_def Let_def product_exponent_def addend_exponent_def np_def nc_def P_def [symmetric]
        A_def [symmetric] lo_def n_def unat_eq_zero)
  have add: "signed_wide_val (AddSignedWide \<lparr>sw_negative = np, sw_magnitude = ?S\<rparr> \<lparr>sw_negative = nc, sw_magnitude = ?T\<rparr>)
      = fused_product type l r * 2 ^ nat (?pe - lo) + fused_addend type c * 2 ^ nat (?ae - lo)"
    using fits(1) by (subst AddSignedWide_val) (simp_all add: S T, simp add: signed_wide_val_def S T fp fa)
  show "wide_shape (sw_magnitude x)"
    using eq P A by (simp split: if_splits)
  show "lo \<le> e"
    using eq d by (simp split: if_splits)
  show "signed_wide_val x * 2 ^ nat (e - lo) =
      fused_product type l r * 2 ^ nat (?pe - lo) + fused_addend type c * 2 ^ nat (?ae - lo)"
    using eq add by (auto simp: signed_wide_val_def P A fp fa split: if_splits)
  show "fused_product type l r \<noteq> 0 \<Longrightarrow> fused_addend type c \<noteq> 0 \<Longrightarrow> e = lo"
    using eq by (auto simp: fp fa split: if_splits)
qed

text \<open>The same without a condition on the exponents when the product or the addend is zero, and for register 0 as the
  addend.\<close>

lemma fv_int_zero: "fv_int v = 0 \<longleftrightarrow> unat (fv_significand v) = 0"
  by (simp add: fv_int_def unat_eq_zero uint_0_iff)

lemma fused_product_zero: "fused_product type l r = 0 \<longleftrightarrow> unat (fv_significand l) * unat (fv_significand r) = 0"
  by (simp only: fused_product_def fv_int_zero mult_eq_0_iff neg_equal_0_iff_equal split: if_split) simp

lemma fused_exact_any:
  assumes "fused_exact type addend l r c = (x, e)" "addend = 0 \<longrightarrow> fv_significand c = 0"
    and near: "fused_product type l r \<noteq> 0 \<longrightarrow> fused_addend type c \<noteq> 0 \<longrightarrow>
      \<bar>product_exponent l r - addend_exponent c\<bar> \<le> 256"
  defines "lo \<equiv> min (product_exponent l r) (addend_exponent c)"
  shows "wide_shape (sw_magnitude x) \<and> lo \<le> e \<and>
    signed_wide_val x * 2 ^ nat (e - lo) =
      fused_product type l r * 2 ^ nat (product_exponent l r - lo) +
      fused_addend type c * 2 ^ nat (addend_exponent c - lo)"
proof (cases "addend = 0")
  case True
  then have "fused_addend type c = 0" using assms(2) by (simp add: fused_addend_def fv_int_def)
  then show ?thesis
    using fused_exact_no_addend [of type l r c x e] assms(1) True by (simp add: lo_def)
next
  case False
  define P A where "P = FromUInt128 (MultiplyUnsigned64 (fv_significand l) (fv_significand r))"
    and "A = FromU64 (fv_significand c)"
  have P: "wide_shape P" "wide_val P = unat (fv_significand l) * unat (fv_significand r)"
    and A: "wide_shape A" "wide_val A = unat (fv_significand c)"
    by (simp_all add: P_def A_def FromUInt128_val MultiplyUnsigned64_exact FromU64_val)
  show ?thesis
  proof (cases "fused_product type l r = 0")
    case zero: True
    then have "wide_val P = 0" by (simp only: P(2) fused_product_zero)
    then have "x = \<lparr>sw_negative = (fv_negative c \<noteq> (type = FMS)), sw_magnitude = A\<rparr>" "e = addend_exponent c"
      using assms(1) False IsZero_iff [of P]
      by (simp_all add: fused_exact_def Let_def P_def [symmetric] A_def [symmetric] addend_exponent_def)
    then show ?thesis
      using A zero by (auto simp: lo_def signed_wide_val_def fused_addend_def fv_int_def)
  next
    case nonzero: False
    then have "wide_val P \<noteq> 0" by (simp only: P(2) fused_product_zero) simp
    show ?thesis
    proof (cases "fused_addend type c = 0")
      case zero: True
      then have "fv_significand c = 0" by (simp add: fused_addend_def fv_int_zero unat_eq_zero split: if_splits)
      then have "x = \<lparr>sw_negative = ((fv_negative l \<noteq> fv_negative r) = (type \<noteq> FNMA)), sw_magnitude = P\<rparr>"
        "e = product_exponent l r"
        using assms(1) False IsZero_iff [of P] \<open>wide_val P \<noteq> 0\<close>
        by (simp_all add: fused_exact_def Let_def P_def [symmetric] A_def [symmetric] product_exponent_def)
      then show ?thesis
        using P zero signed_product [of "fv_negative l" "fv_negative r" type "unat (fv_significand l)" "unat (fv_significand r)"]
        by (simp add: lo_def signed_wide_val_def fused_product_def fv_int_def)
    next
      case both: False
      with nonzero near have "\<bar>product_exponent l r - addend_exponent c\<bar> \<le> 256" by blast
      from fused_exact_val [OF assms(1) False this] show ?thesis unfolding lo_def by blast
    qed
  qed
qed

subsection \<open>Rounding\<close>

text \<open>Reference rounding of a natural number to a multiple of \<open>2 ^ s\<close>: mode 0 nearest, ties to even;
  1 towards zero; 2 up; 3 down.\<close>

definition rounds_away :: "u8 \<Rightarrow> bool \<Rightarrow> nat \<Rightarrow> nat \<Rightarrow> bool" where
  "rounds_away rc neg s v =
     (let q = v div 2 ^ s; r = v mod 2 ^ s in
      if rc AND 3 = 1 then False
      else if rc AND 3 = 2 then \<not> neg \<and> r \<noteq> 0
      else if rc AND 3 = 3 then neg \<and> r \<noteq> 0
      else 2 ^ s < 2 * r \<or> (2 * r = 2 ^ s \<and> odd q))"

definition rounded_mag :: "u8 \<Rightarrow> bool \<Rightarrow> nat \<Rightarrow> nat \<Rightarrow> nat" where
  "rounded_mag rc neg s v = (v div 2 ^ s + (if rounds_away rc neg s v then 1 else 0)) * 2 ^ s"

text \<open>What that means: never a whole unit away, at most half a unit in mode 0, and on the right side.\<close>

lemma rounded_mag_nearest:
  assumes "rc AND 3 = 0"
  shows "2 * \<bar>int (rounded_mag rc neg s v) - int v\<bar> \<le> 2 ^ s"
proof -
  define q r where "q = v div 2 ^ s" and "r = v mod 2 ^ s"
  have v: "v = q * 2 ^ s + r"
    unfolding q_def r_def by (rule div_mult_mod_eq [symmetric])
  have r: "r < 2 ^ s" by (simp add: r_def)
  have up: "rounds_away rc neg s v \<longleftrightarrow> 2 ^ s < 2 * r \<or> (2 * r = 2 ^ s \<and> odd q)"
    using assms by (simp add: rounds_away_def Let_def q_def r_def)
  have "int (rounded_mag rc neg s v) - int v = (if rounds_away rc neg s v then int (2 ^ s) - int r else - int r)"
    by (simp add: rounded_mag_def q_def [symmetric] distrib_right) (simp add: v)
  moreover have "2 * r \<le> 2 ^ s" if "\<not> rounds_away rc neg s v" using up that by simp
  moreover have "2 ^ s \<le> 2 * r" if "rounds_away rc neg s v" using up that by auto
  moreover have "int (2 * r) \<le> int (2 ^ s) \<longleftrightarrow> 2 * r \<le> 2 ^ s" "int (2 ^ s) \<le> int (2 * r) \<longleftrightarrow> 2 ^ s \<le> 2 * r"
    "int r < int (2 ^ s)"
    using r by (simp_all only: of_nat_le_iff of_nat_less_iff)
  ultimately show ?thesis by (cases "rounds_away rc neg s v") auto
qed

lemma rounded_mag_exact: "v mod 2 ^ s = 0 \<Longrightarrow> rounded_mag rc neg s v = v"
  by (auto simp: rounded_mag_def rounds_away_def Let_def)

lemma rounded_mag_directed:
  "rc AND 3 = 1 \<Longrightarrow> rounded_mag rc neg s v = v - v mod 2 ^ s"
  "rc AND 3 = 2 \<Longrightarrow> \<not> neg \<Longrightarrow> v \<le> rounded_mag rc neg s v"
  "rc AND 3 = 3 \<Longrightarrow> \<not> neg \<Longrightarrow> rounded_mag rc neg s v \<le> v"
proof -
  have v: "v = v div 2 ^ s * 2 ^ s + v mod 2 ^ s" by (rule div_mult_mod_eq [symmetric])
  show "rc AND 3 = 1 \<Longrightarrow> rounded_mag rc neg s v = v - v mod 2 ^ s"
    by (simp add: rounded_mag_def rounds_away_def Let_def minus_mod_eq_div_mult)
  have "v mod 2 ^ s \<le> 2 ^ s" by (simp add: less_imp_le)
  with v have "v \<le> v div 2 ^ s * 2 ^ s + 2 ^ s" by linarith
  then show "rc AND 3 = 2 \<Longrightarrow> \<not> neg \<Longrightarrow> v \<le> rounded_mag rc neg s v"
    by (auto simp: rounded_mag_def rounds_away_def Let_def add.commute)
  show "rc AND 3 = 3 \<Longrightarrow> \<not> neg \<Longrightarrow> rounded_mag rc neg s v \<le> v"
    by (simp add: rounded_mag_def rounds_away_def Let_def)
qed

text \<open>Rounding does not depend on the unit the number is written in.\<close>

lemma rounded_mag_scale: "rounded_mag rc neg (s + k) (v * 2 ^ k) = rounded_mag rc neg s v * 2 ^ k"
proof -
  have q: "v * 2 ^ k div 2 ^ (s + k) = v div 2 ^ s" and r: "v * 2 ^ k mod 2 ^ (s + k) = v mod 2 ^ s * 2 ^ k"
    by (simp_all add: power_add mult_mod_left)
  have "2 ^ (s + k) < 2 * (v mod 2 ^ s * 2 ^ k) \<longleftrightarrow> 2 ^ s * 2 ^ k < (2 * (v mod 2 ^ s)) * 2 ^ k"
    "2 * (v mod 2 ^ s * 2 ^ k) = 2 ^ (s + k) \<longleftrightarrow> (2 * (v mod 2 ^ s)) * 2 ^ k = 2 ^ s * (2 :: nat) ^ k"
    by (simp_all only: power_add mult.assoc)
  then have "rounds_away rc neg (s + k) (v * 2 ^ k) = rounds_away rc neg s v"
    unfolding rounds_away_def Let_def q r by simp
  then show ?thesis unfolding rounded_mag_def q by (simp add: power_add mult.assoc)
qed

lemma rounded_mag_scaled_length:
  assumes "0 < p"
  shows "rounded_mag rc neg (b + k - p) (v * 2 ^ k) = rounded_mag rc neg (b - p) v * 2 ^ k"
proof (cases "p \<le> b")
  case True
  then have "b + k - p = (b - p) + k" by simp
  then show ?thesis by (simp only: rounded_mag_scale)
next
  case False
  then have "(2 :: nat) ^ (b + k - p) dvd 2 ^ k" by (intro le_imp_power_dvd) simp
  then have "v * 2 ^ k mod 2 ^ (b + k - p) = 0" by (simp add: dvd_mult)
  with False show ?thesis by (simp add: rounded_mag_exact)
qed

lemma ShouldRoundUp_iff:
  assumes "wide_shape xs"
  shows "ShouldRoundUp xs s (Low64 (ShiftRight xs s)) neg rc \<longleftrightarrow> rounds_away rc neg s (wide_val xs)"
proof (cases s)
  case 0
  then show ?thesis
    by (simp add: ShouldRoundUp_def rounds_away_def)
next
  case (Suc t)
  let ?v = "wide_val xs"
  have odd: "Low64 (ShiftRight xs s) AND 1 \<noteq> 0 \<longleftrightarrow> odd (?v div 2 ^ s)"
  proof -
    have "Low64 (ShiftRight xs s) AND 1 \<noteq> 0 \<longleftrightarrow> bit (Low64 (ShiftRight xs s)) 0"
      using and_1_bit [of 0 "Low64 (ShiftRight xs s)"] by simp
    also have "\<dots> \<longleftrightarrow> odd (unat (Low64 (ShiftRight xs s)))"
      by (metis bit_0 bit_unsigned_iff possible_bit_def zero_less_iff_neq_zero len_gt_0 possible_bit_0)
    also have "unat (Low64 (ShiftRight xs s)) = ?v div 2 ^ s mod 2 ^ 64"
      using assms by (simp only: Low64_val shape_ShiftRight ShiftRight_val)
    finally show ?thesis by (simp add: dvd_mod_iff)
  qed
  have r: "?v mod 2 ^ s = (if bit ?v t then 2 ^ t else 0) + ?v mod 2 ^ t"
    unfolding Suc take_bit_eq_mod [symmetric] by (simp add: take_bit_Suc_from_most)
  define R L b where "R = ?v mod 2 ^ s" and "L = ?v mod 2 ^ t" and "b = bit ?v t"
  have lt: "L < 2 ^ t" by (simp add: L_def)
  have R: "R = (if b then 2 ^ t else 0) + L"
    using r by (simp only: R_def L_def b_def)
  have s: "(2 :: nat) ^ s = 2 * 2 ^ t" "s \<noteq> 0" "s - 1 = t" by (simp_all add: Suc)
  have "ShouldRoundUp xs s (Low64 (ShiftRight xs s)) neg rc \<longleftrightarrow>
    (if rc AND 3 = 1 then False else if rc AND 3 = 2 then \<not> neg \<and> R \<noteq> 0
     else if rc AND 3 = 3 then neg \<and> R \<noteq> 0 else b \<and> (L \<noteq> 0 \<or> odd (?v div 2 ^ s)))"
    unfolding ShouldRoundUp_def Let_def s(3) odd AnyBelow_val [OF assms] TestBit_val [OF assms]
      R_def [symmetric] L_def [symmetric] b_def [symmetric] using s(2) by simp
  moreover have "b \<and> (L \<noteq> 0 \<or> odd (?v div 2 ^ s)) \<longleftrightarrow> 2 ^ s < 2 * R \<or> (2 * R = 2 ^ s \<and> odd (?v div 2 ^ s))"
    using lt unfolding R s(1) by auto
  ultimately show ?thesis
    by (simp only: rounds_away_def Let_def R_def [symmetric])
qed

text \<open>The significand and the bit length the rounding leaves, as numbers.\<close>

definition fits_precision :: "nat \<Rightarrow> nat \<Rightarrow> u8 \<Rightarrow> bool \<Rightarrow> nat \<Rightarrow> bool" where
  "fits_precision p n rc neg v \<longleftrightarrow> p < 64 \<or> p = 64 \<and> rounded_mag rc neg (n - p) v < 2 ^ n"

lemma quotient_bounds:
  fixes v n p :: nat
  assumes "v < 2 ^ n" "2 ^ (n - 1) \<le> v" "p < n" "0 < p"
  shows "v div 2 ^ (n - p) < 2 ^ p" "2 ^ (p - 1) \<le> v div 2 ^ (n - p)"
proof -
  have "(2 :: nat) ^ n = 2 ^ p * 2 ^ (n - p)" "(2 :: nat) ^ (n - 1) = 2 ^ (p - 1) * 2 ^ (n - p)"
    using assms(3,4) by (simp_all flip: power_add)
  with assms(1,2) show "v div 2 ^ (n - p) < 2 ^ p" "2 ^ (p - 1) \<le> v div 2 ^ (n - p)"
    by (simp_all add: less_mult_imp_div_less less_eq_div_iff_mult_less_eq)
qed

lemma unat_push_exact: "unat w * 2 ^ k < 2 ^ 64 \<Longrightarrow> unat (push_bit k (w :: u64)) = unat w * 2 ^ k"
  by (simp only: unsigned_push_bit_eq take_bit_eq_mod) (simp only: push_bit_eq_mult, simp)

lemma rounded_image:
  assumes shape: "wide_shape (sw_magnitude x)" and nz: "wide_val (sw_magnitude x) \<noteq> 0"
    and p: "0 < p" "p \<le> 64" and fits: "fits_precision p (BitLength (sw_magnitude x)) rc (sw_negative x) (wide_val (sw_magnitude x))"
  obtains sig rl where
    "RoundedIA64Value_image x base p rc =
       fr_image sig (of_int (max 0 (min 0x1FFFF (0x1003E + base + int rl - 64))) OR (if sw_negative x then push_bit 17 1 else 0))"
    "unat sig * 2 ^ rl =
       rounded_mag rc (sw_negative x) (BitLength (sw_magnitude x) - p) (wide_val (sw_magnitude x)) * 2 ^ 64"
    "2 ^ 63 \<le> unat sig" "rl = BitLength (sw_magnitude x) \<or> rl = BitLength (sw_magnitude x) + 1"
proof -
  let ?m = "sw_magnitude x"
  define v n where "v = wide_val ?m" and "n = BitLength ?m"
  define s where "s = n - p"
  define up where "up = rounds_away rc (sw_negative x) s v"
  have v: "v < 2 ^ n" "2 ^ (n - 1) \<le> v" "0 < n"
    using BitLength_bounds [OF shape] nz by (simp_all add: v_def n_def)
  have v0: "v \<noteq> 0" using nz by (simp add: v_def)
  define q where "q = v div 2 ^ s"
  have q: "q < 2 ^ p" "2 ^ (min n p - 1) \<le> q" "n \<le> p \<Longrightarrow> q = v"
  proof -
    show "n \<le> p \<Longrightarrow> q = v" by (simp add: q_def s_def)
    show "q < 2 ^ p"
    proof (cases "p < n")
      case False
      then have "(2 :: nat) ^ n \<le> 2 ^ p" by (intro power_increasing) simp_all
      from less_le_trans [OF v(1) this] False show ?thesis by (simp add: q_def s_def)
    qed (use quotient_bounds [OF v(1,2) _ p(1)] in \<open>simp add: q_def s_def\<close>)
    show "2 ^ (min n p - 1) \<le> q"
    proof (cases "p < n")
      case True
      with quotient_bounds [OF v(1,2) True p(1)] show ?thesis by (simp add: q_def s_def min_def)
    next
      case False
      with v(2) show ?thesis by (simp add: q_def s_def min_def)
    qed
  qed
  have p64: "(2 :: nat) ^ p \<le> 2 ^ 64" using p(2) by (intro power_increasing) simp_all
  have low: "unat (Low64 (ShiftRight ?m s)) = q"
    using q(1) p64 shape by (simp only: Low64_val shape_ShiftRight ShiftRight_val v_def [symmetric] q_def [symmetric]) simp
  have noup: "n \<le> p \<Longrightarrow> \<not> up"
    by (simp add: up_def s_def rounds_away_def Let_def)
  define q1 where "q1 = (if up then q + 1 else q)"
  have mag: "rounded_mag rc (sw_negative x) s v = q1 * 2 ^ s"
    by (simp add: rounded_mag_def up_def [symmetric] q_def [symmetric] q1_def)
  have q1_fits: "q1 < 2 ^ 64"
  proof (cases "p < 64")
    case True
    then have "(2 :: nat) ^ p \<le> 2 ^ 63" by (intro power_increasing) simp_all
    with q(1) have "q + 1 \<le> 2 ^ 63" by linarith
    then show ?thesis by (simp add: q1_def)
  next
    case False
    then have "p = 64" using p(2) by simp
    then have r: "q1 * 2 ^ s < 2 ^ n"
      using fits unfolding fits_precision_def v_def [symmetric] n_def [symmetric] s_def [symmetric] mag by simp
    show ?thesis
    proof (cases "n \<le> p")
      case True
      with noup q(1) \<open>p = 64\<close> show ?thesis by (simp add: q1_def)
    next
      case False
      then have "n = 64 + s" using \<open>p = 64\<close> by (simp add: s_def)
      then have "(2 :: nat) ^ n = 2 ^ 64 * 2 ^ s" by (simp only: power_add)
      with r show ?thesis by simp
    qed
  qed
  define w1 where "w1 = (if up then Low64 (ShiftRight ?m s) + 1 else Low64 (ShiftRight ?m s))"
  have w1: "unat w1 = q1"
    using q1_fits low by (auto simp: w1_def q1_def unat_word_ariths)
  have sh: "(if p < n then n - p else 0) = s" by (simp add: s_def)
  note image = RoundedIA64Value_image_def [of x base p rc, unfolded Let_def IsZero_iff v_def [symmetric]
    n_def [symmetric] sh ShouldRoundUp_iff [OF shape] up_def [symmetric] w1_def [symmetric] if_not_P [OF v0]]
  have pb: "unat (push_bit p (1 :: u64)) = 2 ^ p" if "p < 64"
  proof -
    have "(2 :: nat) ^ p < 2 ^ 64" using that by (rule power_strict_increasing) simp
    then show ?thesis by (subst unat_push_exact) simp_all
  qed
  show thesis
  proof (cases "p < 64 \<and> q1 = 2 ^ p")
    case True
    then have np: "p < n" using noup q(1) by (cases "n \<le> p") (auto simp: q1_def split: if_splits)
    have carry: "w1 = push_bit p 1"
      using True w1 pb by (simp add: word_unat_eq_iff)
    define sig where "sig = push_bit (64 - p) (drop_bit 1 w1)"
    have d: "unat (drop_bit 1 w1) = 2 ^ (p - 1)"
      using True p(1) by (simp only: unat_drop_bit_div w1) (simp add: power_eq_if)
    have pw: "(2 :: nat) ^ (p - 1) * 2 ^ (64 - p) = 2 ^ 63"
    proof -
      have "p - 1 + (64 - p) = 63" using True p(1) by linarith
      then show ?thesis by (simp only: flip: power_add)
    qed
    have sig: "unat sig = 2 ^ 63"
      unfolding sig_def using pw by (subst unat_push_exact) (simp_all only: d, simp)
    show thesis
    proof (rule that [of sig "n + 1"])
      show "RoundedIA64Value_image x base p rc =
         fr_image sig (of_int (max 0 (min 0x1FFFF (0x1003E + base + int (n + 1) - 64))) OR (if sw_negative x then push_bit 17 1 else 0))"
        using True np carry by (subst image) (simp only: prod.case if_True if_False simp_thms sig_def not_less_iff_gr_or_eq
          order_less_asym, simp)
      have "(2 :: nat) ^ 63 * 2 ^ (n + 1) = 2 ^ p * 2 ^ s * 2 ^ 64"
      proof -
        have "63 + (n + 1) = p + s + 64" using np by (simp add: s_def)
        then show ?thesis by (simp only: flip: power_add)
      qed
      then show "unat sig * 2 ^ (n + 1) = rounded_mag rc (sw_negative x) (BitLength ?m - p) (wide_val ?m) * 2 ^ 64"
        using True by (simp only: sig mag v_def [symmetric] n_def [symmetric] s_def [symmetric])
    qed (use sig in \<open>simp_all add: n_def\<close>)
  next
    case False
    define k where "k = (if n < p then p - n else 0)"
    define sig where "sig = (if p = 64 then push_bit k w1 else push_bit (64 - p) (push_bit k w1))"
    have kn: "n \<le> p \<Longrightarrow> k + n = p" "p < n \<Longrightarrow> k = 0" by (auto simp: k_def)
    have q1lt: "q1 * 2 ^ k < 2 ^ p" "2 ^ (p - 1) \<le> q1 * 2 ^ k"
    proof -
      show "q1 * 2 ^ k < 2 ^ p"
      proof (cases "n \<le> p")
        case True
        then have "q1 * 2 ^ k < 2 ^ n * 2 ^ k" using noup q(3) v(1) by (simp add: q1_def)
        then show ?thesis using kn(1) [OF True] by (simp add: add.commute flip: power_add)
      next
        case F: False
        have "q1 \<noteq> 2 ^ p" using False q1_fits p(2) by (cases "p = 64") auto
        with F q(1) show ?thesis by (simp add: k_def q1_def split: if_splits)
      qed
      show "2 ^ (p - 1) \<le> q1 * 2 ^ k"
      proof (cases "n \<le> p")
        case True
        have "p - 1 = (n - 1) + k" using kn(1) [OF True] v(3) by simp
        then have "(2 :: nat) ^ (p - 1) = 2 ^ (n - 1) * 2 ^ k" by (simp only: power_add)
        then show ?thesis using True noup q(3) v(2) by (simp add: q1_def)
      next
        case F: False
        with q(2) show ?thesis by (simp add: k_def q1_def min_def split: if_splits)
      qed
    qed
    have u1: "unat (push_bit k w1) = q1 * 2 ^ k"
      using q1lt(1) p64 by (subst unat_push_exact) (simp_all add: w1)
    have sig: "unat sig = q1 * 2 ^ k * 2 ^ (64 - p)"
    proof (cases "p = 64")
      case True
      then show ?thesis by (simp add: sig_def u1)
    next
      case F: False
      have "q1 * 2 ^ k * 2 ^ (64 - p) < 2 ^ p * 2 ^ (64 - p)" using q1lt(1) by simp
      also have "\<dots> = 2 ^ 64" using p(2) by (simp flip: power_add)
      finally have "unat (push_bit (64 - p) (push_bit k w1)) = q1 * 2 ^ k * 2 ^ (64 - p)"
        by (subst unat_push_exact) (simp_all only: u1)
      with F show ?thesis by (simp only: sig_def if_False)
    qed
    show thesis
    proof (rule that [of sig n])
      have nc: "\<not> (p < 64 \<and> w1 = push_bit p 1)"
        using False w1 pb by auto
      show "RoundedIA64Value_image x base p rc =
         fr_image sig (of_int (max 0 (min 0x1FFFF (0x1003E + base + int n - 64))) OR (if sw_negative x then push_bit 17 1 else 0))"
        by (subst image, subst if_not_P [OF nc]) (auto simp: sig_def k_def)
      have "k + (64 - p) + n = s + 64"
        using p(2) kn by (cases "n \<le> p") (simp_all add: s_def)
      then have "(2 :: nat) ^ k * 2 ^ (64 - p) * 2 ^ n = 2 ^ s * 2 ^ 64"
        by (simp only: flip: power_add)
      then show "unat sig * 2 ^ n = rounded_mag rc (sw_negative x) (BitLength ?m - p) (wide_val ?m) * 2 ^ 64"
        by (simp only: sig mag v_def [symmetric] n_def [symmetric] s_def [symmetric] mult.assoc)
      have "(2 :: nat) ^ 63 = 2 ^ (p - 1) * 2 ^ (64 - p)"
        using p by (simp only: flip: power_add) simp
      also have "\<dots> \<le> unat sig"
        unfolding sig using q1lt(2) by (rule mult_le_mono1)
      finally show "2 ^ 63 \<le> unat sig" .
    qed (simp add: n_def)
  qed
qed

subsection \<open>Fused multiply-add is correctly rounded\<close>

lemma bit_length_unique:
  fixes v a b :: nat
  assumes "2 ^ (a - 1) \<le> v" "v < 2 ^ a" "2 ^ (b - 1) \<le> v" "v < 2 ^ b" "0 < a" "0 < b"
  shows "a = b"
proof -
  have "(2 :: nat) ^ (a - 1) < 2 ^ b" "(2 :: nat) ^ (b - 1) < 2 ^ a"
    using assms(1-4) by linarith+
  then have "a - 1 < b" "b - 1 < a"
    by (auto simp: power_strict_increasing_iff)
  with assms(5,6) show ?thesis by linarith
qed

lemma precision_values: "FusedArithmeticPrecisionBits fpsr raw \<in> {24, 53, 64}"
  by (simp add: FusedArithmeticPrecisionBits_def Let_def)

lemma read_zero_image: "fv_significand (ReadIA64FloatingValue (replicate 16 0)) = 0" "\<not> IsNatVal (replicate 16 0)"
proof -
  have "replicate 16 (0 :: u8) = fr_image 0 0"
    by (simp add: fr_image_bytes le_bytes_8 replicate_8 replicate_add [of 8 8, simplified])
  then show "fv_significand (ReadIA64FloatingValue (replicate 16 0)) = 0" "\<not> IsNatVal (replicate 16 0)"
    by (simp_all add: ReadIA64FloatingValue_def Let_def IsNatVal_image)
qed

lemma GetFR_zero: "GetFR s 0 = Inr C \<Longrightarrow> C = replicate 16 0"
  by (simp add: GetFR_def MapFR_def fr_zero_def)

lemma fused_runs:
  assumes "GetFR s (unat a) = Inr A" "GetFR s (unat b) = Inr B" "GetFR s (unat c) = Inr C" "GetAR s 40 = Inr fpsr"
    and "\<not> IsNatVal A" "\<not> IsNatVal B" "\<not> IsNatVal C"
    and "fused_exact type c (ReadIA64FloatingValue A) (ReadIA64FloatingValue B) (ReadIA64FloatingValue C) = (x, e)"
  shows "ExecuteFusedArithmetic type raw d a b c (s, m) =
    set_fr d (RoundedIA64Value_image x e (FusedArithmeticPrecisionBits fpsr raw) (fused_rounding fpsr raw)) (s, m)"
proof (cases "c = 0")
  case True
  then have "C = replicate 16 0" using assms(3) GetFR_zero by simp
  with True assms show ?thesis
    by (simp add: ExecuteFusedArithmetic_def bind_def from_cpu_def Let_def ReadIA64FloatingValue_def)
next
  case False
  with assms show ?thesis
    by (simp add: ExecuteFusedArithmetic_def bind_def from_cpu_def Let_def ReadIA64FloatingValue_def)
qed

text \<open>C33: fused multiply-add, multiply-subtract and negative multiply-add are correctly rounded. With the operands read
  as sign, exponent and significand, none of them NaTVal, the exact sum \<open>T\<close> of product and addend (in units of the
  smaller of their exponents) is rounded to the precision of the instruction in the mode the code reads from FPSR, and the
  register written holds the normalised result, when
  (1) product or addend is zero (register f0 included), or their exponents are at most 256 apart;
  (2) the sum is not zero, and \<open>n\<close> is its bit length;
  (3) the precision is below 64 bits, or it is 64 and rounding does not carry out of the significand;
  (4) the exponent of the result fits, below the one reserved for infinities and NaNs.
  Operands that are infinities or NaNs are outside the meaning of this: the code takes their exponent for a number.\<close>

theorem fma_correctly_rounded:
  fixes type :: float_type and a b c d :: u8
  assumes regs: "GetFR s (unat a) = Inr A" "GetFR s (unat b) = Inr B" "GetFR s (unat c) = Inr C" "GetAR s 40 = Inr fpsr"
    and nats: "\<not> IsNatVal A" "\<not> IsNatVal B" "\<not> IsNatVal C"
  defines "l \<equiv> ReadIA64FloatingValue A" and "r \<equiv> ReadIA64FloatingValue B" and "cc \<equiv> ReadIA64FloatingValue C"
  defines "lo \<equiv> min (product_exponent l r) (addend_exponent cc)"
  defines "T \<equiv> fused_product type l r * 2 ^ nat (product_exponent l r - lo) +
      fused_addend type cc * 2 ^ nat (addend_exponent cc - lo)"
  assumes near: "fused_product type l r \<noteq> 0 \<longrightarrow> fused_addend type cc \<noteq> 0 \<longrightarrow>
      \<bar>product_exponent l r - addend_exponent cc\<bar> \<le> 256"
    and "T \<noteq> 0"
    and n: "2 ^ (n - 1) \<le> nat \<bar>T\<bar>" "nat \<bar>T\<bar> < 2 ^ n" "0 < n"
    and p: "FusedArithmeticPrecisionBits fpsr raw = p"
      "p < 64 \<or> rounded_mag (fused_rounding fpsr raw) (T < 0) (n - p) (nat \<bar>T\<bar>) < 2 ^ n"
    and range: "0 \<le> 0x1003E + lo + int n - 64" "0x1003E + lo + int n - 63 \<le> 0x1FFFE"
  shows "\<exists>img sig E. ExecuteFusedArithmetic type raw d a b c (s, m) = set_fr d img (s, m) \<and>
    ReadIA64FloatingValue img = \<lparr>fv_significand = sig, fv_exponent = of_int E, fv_negative = (T < 0), fv_natVal = False\<rparr> \<and>
    2 ^ 63 \<le> unat sig \<and> 0 \<le> E \<and> E < 0x1FFFF \<and>
    unat sig * 2 ^ nat (E - 0x1003E - lo + 64) =
      rounded_mag (fused_rounding fpsr raw) (T < 0) (n - p) (nat \<bar>T\<bar>) * 2 ^ 64"
proof -
  obtain x e where x: "fused_exact type c l r cc = (x, e)" by fastforce
  have "c = 0 \<longrightarrow> fv_significand cc = 0"
    using regs(3) GetFR_zero read_zero_image(1) by (auto simp: cc_def)
  from fused_exact_any [OF x this near, folded lo_def, folded T_def]
  have val: "wide_shape (sw_magnitude x)" "lo \<le> e" "signed_wide_val x * 2 ^ nat (e - lo) = T" by simp_all
  let ?v = "wide_val (sw_magnitude x)" and ?b = "BitLength (sw_magnitude x)" and ?rc = "fused_rounding fpsr raw"
  define k where "k = nat (e - lo)"
  have k: "int k = e - lo" using val(2) by (simp add: k_def)
  have v: "nat \<bar>T\<bar> = ?v * 2 ^ k" "?v \<noteq> 0" "sw_negative x \<longleftrightarrow> T < 0"
    using val(3) \<open>T \<noteq> 0\<close>
    by (auto simp: signed_wide_val_def k_def abs_mult nat_mult_distrib nat_power_eq mult_less_0_iff split: if_splits)
  have bl: "n = ?b + k"
  proof (rule bit_length_unique [OF n(1,2) _ _ n(3)])
    have B: "2 ^ (?b - 1) \<le> ?v" "?v < 2 ^ ?b" "0 < ?b" using BitLength_bounds [OF val(1)] v(2) by simp_all
    have "?b + k - 1 = (?b - 1) + k" using B(3) by simp
    then show "2 ^ (?b + k - 1) \<le> nat \<bar>T\<bar>" using B(1) by (simp add: v(1) power_add)
    show "nat \<bar>T\<bar> < 2 ^ (?b + k)" using B(2) by (simp add: v(1) power_add)
    show "0 < ?b + k" using B(3) by simp
  qed
  have p0: "0 < p" "p \<le> 64" using precision_values [of fpsr raw] p(1) by auto
  have scaled: "rounded_mag rc neg (n - p) (nat \<bar>T\<bar>) = rounded_mag rc neg (?b - p) ?v * 2 ^ k" for rc neg
    unfolding bl v(1) by (rule rounded_mag_scaled_length [OF p0(1)])
  have fits: "fits_precision p ?b ?rc (sw_negative x) ?v"
  proof (cases "p < 64")
    case False
    then have "rounded_mag ?rc (T < 0) (?b - p) ?v * 2 ^ k < 2 ^ ?b * 2 ^ k"
      using p(2) scaled by (simp add: bl power_add)
    with False p0(2) show ?thesis by (simp add: fits_precision_def v(3))
  qed (simp add: fits_precision_def)
  obtain sig rl where img:
    "RoundedIA64Value_image x e p ?rc =
       fr_image sig (of_int (max 0 (min 0x1FFFF (0x1003E + e + int rl - 64))) OR (if sw_negative x then push_bit 17 1 else 0))"
    "unat sig * 2 ^ rl = rounded_mag ?rc (sw_negative x) (?b - p) ?v * 2 ^ 64"
    "2 ^ 63 \<le> unat sig" "rl = ?b \<or> rl = ?b + 1"
    by (rule rounded_image [OF val(1) v(2) p0 fits])
  let ?E = "0x1003E + e + int rl - 64"
  have E: "0 \<le> ?E" "?E < 0x1FFFF" using img(4) bl range k by auto
  have "sig \<noteq> 0" using img(3) by auto
  have cl: "max 0 (min 0x1FFFF ?E) = ?E" using E by simp
  have "ReadIA64FloatingValue (RoundedIA64Value_image x e p ?rc) =
      \<lparr>fv_significand = sig, fv_exponent = of_int ?E, fv_negative = (T < 0), fv_natVal = False\<rparr>"
    using read_value_image [OF E(1) less_imp_le [OF E(2)] \<open>sig \<noteq> 0\<close>, of "T < 0"] by (simp only: img(1) [unfolded cl v(3)])
  moreover have "nat (?E - 0x1003E - lo + 64) = rl + k" using k by simp
  moreover have "unat sig * 2 ^ (rl + k) = rounded_mag ?rc (T < 0) (n - p) (nat \<bar>T\<bar>) * 2 ^ 64"
    unfolding scaled power_add using img(2) v(3) by (simp add: mult.assoc [symmetric])
  ultimately show ?thesis
    using fused_runs [OF regs nats x [unfolded l_def r_def cc_def]] E img(3)
    by (intro exI [of _ "RoundedIA64Value_image x e p ?rc"] exI [of _ sig] exI [of _ ?E])
      (simp only: p(1) simp_thms)
qed

text \<open>A sum of zero leaves the register image zero, whatever the rounding mode.\<close>

lemma fma_zero:
  assumes "fused_exact type c l r cc = (x, e)" "signed_wide_val x = 0"
  shows "RoundedIA64Value_image x e p rc = replicate 16 0"
proof -
  have "wide_val (sw_magnitude x) = 0" using assms(2) by (auto simp: signed_wide_val_def split: if_splits)
  then show ?thesis by (simp add: RoundedIA64Value_image_def IsZero_iff)
qed

lemma read_fr_one: "ReadIA64FloatingValue fr_one =
    \<lparr>fv_significand = 0x8000000000000000, fv_exponent = 0xFFFF, fv_negative = False, fv_natVal = False\<rparr>"
proof -
  have "fr_one = fr_image 0x8000000000000000 0xFFFF"
    by (simp add: fr_image_bytes fr_one_def le_bytes_8)
  moreover have "ReadIA64FloatingValue (fr_image 0x8000000000000000 (of_int 0xFFFF OR (if False then push_bit 17 1 else 0)))
    = \<lparr>fv_significand = 0x8000000000000000, fv_exponent = of_int 0xFFFF, fv_negative = False, fv_natVal = False\<rparr>"
    by (rule read_value_image) simp_all
  ultimately show ?thesis by simp
qed

lemma one_plus_one: "fused_product FMA v v = 2 ^ 126 \<and> fused_addend FMA v = 2 ^ 63 \<and>
    product_exponent v v = -126 \<and> addend_exponent v = -63"
  if "v = \<lparr>fv_significand = 0x8000000000000000, fv_exponent = 0xFFFF, fv_negative = False, fv_natVal = False\<rparr>"
  by (simp add: that fused_product_def fused_addend_def fv_int_def product_exponent_def addend_exponent_def
      kIntegerExponent_def)

lemma fma_correctly_rounded_witness:
  "\<forall>m. \<exists>img sig E. ExecuteFusedArithmetic FMA 0x1000000000 2 1 1 1 (Reset, m) = set_fr 2 img (Reset, m) \<and>
    ReadIA64FloatingValue img = \<lparr>fv_significand = sig, fv_exponent = of_int E, fv_negative = False, fv_natVal = False\<rparr> \<and>
    2 ^ 63 \<le> unat sig \<and> unat sig * 2 ^ nat (E - 0x1003E + 126 + 64) = 2 ^ 127 * 2 ^ 64"
proof
  fix m
  let ?v = "ReadIA64FloatingValue fr_one"
  have v: "fused_product FMA ?v ?v = 2 ^ 126" "fused_addend FMA ?v = 2 ^ 63" "product_exponent ?v ?v = -126" "addend_exponent ?v = -63"
    using one_plus_one [OF read_fr_one] by blast+
  have f: "GetFR Reset (unat (1 :: u8)) = Inr fr_one"
    by (simp add: GetFR_def MapFR_def)
  have a: "GetAR Reset 40 = Inr 0"
    by (simp add: GetAR_def Reset_def)
  have nn: "\<not> IsNatVal fr_one"
    using read_fr_one by (simp add: ReadIA64FloatingValue_def Let_def)
  have p: "FusedArithmeticPrecisionBits 0 0x1000000000 = 24"
    by (simp add: FusedArithmeticPrecisionBits_def Let_def)
  have rc: "rounded_mag (fused_rounding 0 0x1000000000) False (128 - 24) (2 ^ 127) = 2 ^ 127"
    by (rule rounded_mag_exact) simp
  have lo: "min (-126) (-63) = (-126 :: int)" by simp
  have T: "2 ^ 126 * 2 ^ nat (-126 - -126) + 2 ^ 63 * 2 ^ nat (-63 - -126) = (2 ^ 127 :: int)" by simp
  have n: "nat \<bar>2 ^ 127 :: int\<bar> = 2 ^ 127" by simp
  have neg: "((2 :: int) ^ 127 < 0) = False" by simp
  have near: "(2 :: int) ^ 126 \<noteq> 0 \<longrightarrow> (2 :: int) ^ 63 \<noteq> 0 \<longrightarrow> \<bar>-126 - -63 :: int\<bar> \<le> 256" "(2 :: int) ^ 127 \<noteq> 0" by simp_all
  have b: "(2 :: nat) ^ (128 - 1) \<le> 2 ^ 127" "(2 :: nat) ^ 127 < 2 ^ 128" "(0 :: nat) < 128" by simp_all
  have range: "0 \<le> 0x1003E + (-126) + int 128 - 64" "0x1003E + (-126) + int 128 - 63 \<le> 0x1FFFE" by simp_all
  have p64: "(24 :: nat) < 64 \<or> (2 :: nat) ^ 127 < 2 ^ 128" by simp
  note run = fma_correctly_rounded [where type = FMA and a = 1 and b = 1 and c = 1 and d = 2 and m = m
    and raw = "0x1000000000" and n = 128 and p = 24, OF f f f a nn nn nn, unfolded v lo T n neg rc,
    OF near b p p64 range]
  then obtain img sig E where r: "ExecuteFusedArithmetic FMA 0x1000000000 2 1 1 1 (Reset, m) = set_fr 2 img (Reset, m)"
    "ReadIA64FloatingValue img = \<lparr>fv_significand = sig, fv_exponent = of_int E, fv_negative = False, fv_natVal = False\<rparr>"
    "2 ^ 63 \<le> unat sig" "unat sig * 2 ^ nat (E - 0x1003E - (-126) + 64) = 2 ^ 127 * 2 ^ 64"
    by blast
  have "E - 0x1003E - (-126) + 64 = E - 0x1003E + 126 + 64" by simp
  with r show "\<exists>img sig E. ExecuteFusedArithmetic FMA 0x1000000000 2 1 1 1 (Reset, m) = set_fr 2 img (Reset, m) \<and>
    ReadIA64FloatingValue img = \<lparr>fv_significand = sig, fv_exponent = of_int E, fv_negative = False, fv_natVal = False\<rparr> \<and>
    2 ^ 63 \<le> unat sig \<and> unat sig * 2 ^ nat (E - 0x1003E + 126 + 64) = 2 ^ 127 * 2 ^ 64"
    by metis
qed

subsection \<open>Where the arithmetic goes wrong\<close>

text \<open>With exponents more than 256 apart the operand with the smaller exponent is kept and the larger one lost.\<close>

lemma fused_drops_larger:
  assumes "addend \<noteq> 0" "fv_significand l \<noteq> 0" "fv_significand r \<noteq> 0" "fv_significand c \<noteq> 0"
    and "product_exponent l r > addend_exponent c + 256"
  shows "fused_exact type addend l r c =
    (\<lparr>sw_negative = (fv_negative c \<noteq> (type = FMS)), sw_magnitude = FromU64 (fv_significand c)\<rparr>, addend_exponent c)"
proof -
  have "\<not> IsZero (FromUInt128 (MultiplyUnsigned64 (fv_significand l) (fv_significand r)))"
    using assms(2,3) by (simp add: IsZero_iff FromUInt128_val MultiplyUnsigned64_exact unat_eq_zero)
  then show ?thesis
    using assms(1,4,5) unfolding product_exponent_def addend_exponent_def by (simp add: fused_exact_def Let_def)
qed

text \<open>Rounding the 65-bit number \<open>2 ^ 65 - 1\<close> to 64 bits carries out of the significand: the result is zero.\<close>

lemma rounding_carry_lost:
  "RoundedIA64Value_image \<lparr>sw_negative = False, sw_magnitude = FromUInt128 \<lparr>u128_lo = 0xFFFFFFFFFFFFFFFF, u128_hi = 1\<rparr>\<rparr> 0 64 0
   = fr_image 0 0x1003F"
proof -
  define M where "M = FromUInt128 \<lparr>u128_lo = 0xFFFFFFFFFFFFFFFF, u128_hi = 1\<rparr>"
  have shape: "wide_shape M" and val: "wide_val M = 2 ^ 65 - 1"
    by (simp_all add: M_def FromUInt128_val u128_val_def)
  have bl: "BitLength M = 65"
    using BitLength_bounds [OF shape] val by (intro bit_length_unique [of _ "2 ^ 65 - 1"]) simp_all
  have low: "Low64 (ShiftRight M 1) = 0xFFFFFFFFFFFFFFFF"
    using Low64_val [OF shape_ShiftRight [of M 1]] by (simp add: word_unat_eq_iff ShiftRight_val [OF shape] val)
  have up: "ShouldRoundUp M 1 (Low64 (ShiftRight M 1)) False 0"
    by (simp only: ShouldRoundUp_iff [OF shape] val) (simp add: rounds_away_def)
  have sh: "(if 65 > (64 :: nat) then 65 - 64 else 0) = (1 :: nat)" by simp
  have w: "(0xFFFFFFFFFFFFFFFF :: u64) + 1 = 0" by simp
  have "RoundedIA64Value_image \<lparr>sw_negative = False, sw_magnitude = M\<rparr> 0 64 0 = fr_image 0 0x1003F"
    unfolding RoundedIA64Value_image_def Let_def signed_wide.simps bl sh if_P [OF up]
    by (simp add: IsZero_iff val) (simp only: One_nat_def [symmetric] low w)
  then show ?thesis by (simp only: M_def)
qed

text \<open>FPSR as the bootstrap code sets it selects rounding down for status field 0 instead of to nearest.\<close>

lemma bootstrap_fpsr_rounds_down: "get_bits 34 2 raw = 0 \<Longrightarrow> fused_rounding 0x0009804C0270033F raw = 3"
  by (simp add: fused_rounding_def)

text \<open>A finite result too large for the exponent field becomes a NaN, not an infinity.\<close>

lemma overflow_is_nan:
  "ClassifyIA64FloatingValue (ReadIA64FloatingValue (fr_image 0xC000000000000000 0x1FFFF)) = NaN"
proof -
  have "ReadIA64FloatingValue (fr_image 0xC000000000000000 (of_int 0x1FFFF OR (if False then push_bit 17 1 else 0)))
    = \<lparr>fv_significand = 0xC000000000000000, fv_exponent = of_int 0x1FFFF, fv_negative = False, fv_natVal = False\<rparr>"
    by (rule read_value_image) simp_all
  then have "ReadIA64FloatingValue (fr_image 0xC000000000000000 0x1FFFF)
    = \<lparr>fv_significand = 0xC000000000000000, fv_exponent = 0x1FFFF, fv_negative = False, fv_natVal = False\<rparr>"
    by simp
  then show ?thesis
    by (simp add: ClassifyIA64FloatingValue_def)
qed

end
