(* ===== verification/Cpu_Loops.thy ===== *)
theory Cpu_Loops
  imports Cpu_Registers
begin

text \<open>
  Register rotation, the modulo-scheduled loop branches \<open>br.ctop\<close> and \<open>br.cexit\<close>, and the
  register stack engine operations of \<open>Cpu_State\<close>: what a rotation does to every rotating
  register, how many iterations a counted loop makes, and how calls and returns move the
  backing-store pointers.
\<close>

subsection \<open>What a rotation changes\<close>

lemma unat_of_nat_small: "n < 2 ^ 64 \<Longrightarrow> unat (of_nat n :: u64) = n"
  by (simp add: unat_of_nat take_bit_nat_eq_self)

lemma GetRRB_less: "GetRRB_GR s < 128" "GetRRB_FR s < 128" "GetRRB_PR s < 64" "GetSOR s < 16"
  "GetSOF s < 128" "GetSOL s < 128"
  using get_bits_less [of 18 7 "cpu_cfm s"] get_bits_less [of 25 7 "cpu_cfm s"]
    get_bits_less [of 32 6 "cpu_cfm s"] get_bits_less [of 14 4 "cpu_cfm s"]
    get_bits_less [of 0 7 "cpu_cfm s"] get_bits_less [of 7 7 "cpu_cfm s"]
  by (simp_all add: frame_fields)

lemma cpu_cfm_SetCFM [simp]: "cpu_cfm (SetCFM v s) = v"
  by (simp add: SetCFM_def)

lemma SetCFM_keeps [simp]:
  "cpu_gr (SetCFM v s) = cpu_gr s" "cpu_gr_nat (SetCFM v s) = cpu_gr_nat s"
  "cpu_fr (SetCFM v s) = cpu_fr s" "cpu_pr (SetCFM v s) = cpu_pr s"
  "cpu_ar (SetCFM v s) = cpu_ar s" "cpu_psr (SetCFM v s) = cpu_psr s"
  "cpu_itlb (SetCFM v s) = cpu_itlb s" "cpu_dtlb (SetCFM v s) = cpu_dtlb s"
  "cpu_shape (SetCFM v s) = cpu_shape s"
  by (simp_all add: SetCFM_def) (unfold cpu_shape_def, simp)

lemma RotateRegisters_keeps [simp]:
  "cpu_gr (RotateRegisters s) = cpu_gr s" "cpu_gr_nat (RotateRegisters s) = cpu_gr_nat s"
  "cpu_fr (RotateRegisters s) = cpu_fr s" "cpu_pr (RotateRegisters s) = cpu_pr s"
  "cpu_ar (RotateRegisters s) = cpu_ar s" "cpu_psr (RotateRegisters s) = cpu_psr s"
  "cpu_itlb (RotateRegisters s) = cpu_itlb s" "cpu_dtlb (RotateRegisters s) = cpu_dtlb s"
  "cpu_shape (RotateRegisters s) = cpu_shape s"
  by (simp_all only: RotateRegisters_def Let_def SetCFM_keeps)

lemma mod_fits: "0 < m \<Longrightarrow> m \<le> 128 \<Longrightarrow> (n :: nat) mod m < 2 ^ 64"
  by (rule less_trans [of _ 128, OF less_le_trans [of _ m 128, OF mod_less_divisor]]) simp_all

lemma unat_of_nat_mod_less:
  assumes "0 < m" "m \<le> 128" "m \<le> k"
  shows "unat (of_nat ((n :: nat) mod m) :: u64) < k"
  unfolding unat_of_nat_small [OF mod_fits [OF assms(1,2)]]
  using mod_less_divisor [OF assms(1)] assms(3) by (rule less_le_trans)

text \<open>The three values a rotation writes fit their fields of the frame marker.\<close>

lemma rotate_fits:
  "GetSOR s \<noteq> 0 \<Longrightarrow>
     unat (of_nat ((GetRRB_GR s + GetSOR s * 8 - 1) mod (GetSOR s * 8)) :: u64) < 2 ^ 7"
  "unat (of_nat ((GetRRB_FR s + 96 - 1) mod 96) :: u64) < 2 ^ 7"
  "unat (of_nat ((GetRRB_PR s + 48 - 1) mod 48) :: u64) < 2 ^ 6"
  using GetRRB_less(4) [of s] by (intro unat_of_nat_mod_less; simp)+

lemma rotate_frame_fields:
  "GetSOF (RotateRegisters s) = GetSOF s" "GetSOL (RotateRegisters s) = GetSOL s"
  "GetSOR (RotateRegisters s) = GetSOR s"
  "GetRRB_GR (RotateRegisters s) =
     (if GetSOR s = 0 then GetRRB_GR s
      else (GetRRB_GR s + GetSOR s * 8 - 1) mod (GetSOR s * 8))"
  "GetRRB_FR (RotateRegisters s) = (GetRRB_FR s + 96 - 1) mod 96"
  "GetRRB_PR (RotateRegisters s) = (GetRRB_PR s + 48 - 1) mod 48"
proof -
  have small: "GetSOR s \<noteq> 0 \<Longrightarrow> (GetRRB_GR s + GetSOR s * 8 - 1) mod (GetSOR s * 8) < 2 ^ 64"
    using GetRRB_less(4) [of s] by (intro mod_fits) auto
  have small': "n mod 96 < 2 ^ 64" "n mod 48 < 2 ^ 64" for n :: nat
    by (rule mod_fits; simp)+
  note fits = rotate_fits [of s]
  have cfm: "cpu_cfm (RotateRegisters s) =
     put_bits 32 6 (of_nat ((GetRRB_PR s + 48 - 1) mod 48))
      (put_bits 25 7 (of_nat ((GetRRB_FR s + 96 - 1) mod 96))
        (if GetSOR s = 0 then cpu_cfm s
         else put_bits 18 7 (of_nat ((GetRRB_GR s + GetSOR s * 8 - 1) mod (GetSOR s * 8)))
           (cpu_cfm s)))"
    by (simp add: RotateRegisters_def Let_def)
  show "GetSOF (RotateRegisters s) = GetSOF s" "GetSOL (RotateRegisters s) = GetSOL s"
    "GetSOR (RotateRegisters s) = GetSOR s"
    using fits by (simp_all add: GetSOF_def GetSOL_def GetSOR_def cfm del: of_nat_mod)
  show "GetRRB_GR (RotateRegisters s) = (if GetSOR s = 0 then GetRRB_GR s
      else (GetRRB_GR s + GetSOR s * 8 - 1) mod (GetSOR s * 8))"
    using fits small
    by (cases "GetSOR s = 0") (simp_all add: GetRRB_GR_def [of "RotateRegisters s"] cfm unat_of_nat_small,
      simp_all add: GetRRB_GR_def)
  show "GetRRB_FR (RotateRegisters s) = (GetRRB_FR s + 96 - 1) mod 96"
    using fits small' by (simp add: GetRRB_FR_def [of "RotateRegisters s"] cfm unat_of_nat_small)
  show "GetRRB_PR (RotateRegisters s) = (GetRRB_PR s + 48 - 1) mod 48"
    using fits small' by (simp add: GetRRB_PR_def [of "RotateRegisters s"] cfm unat_of_nat_small)
qed

subsection \<open>Rotation renames the rotating registers by one\<close>

lemma rotate_wrap:
  fixes r n :: nat
  assumes "0 < n"
  shows "(r + n - 1) mod n mod n = (n - 1 + r) mod n"
  using assms by (simp add: add.commute)

lemma MapFR_rotate:
  "32 \<le> i \<Longrightarrow> i < 127 \<Longrightarrow> MapFR (RotateRegisters s) (Suc i) = MapFR s i"
  "MapFR (RotateRegisters s) 32 = MapFR s 127"
  using rotate_step [of 96 "i - 32" "GetRRB_FR s"] rotate_wrap [of 96 "GetRRB_FR s"]
  by (auto simp: MapFR_high rotate_frame_fields elim!: less_eqE)

lemma MapPR_rotate:
  "16 \<le> i \<Longrightarrow> i < 63 \<Longrightarrow> MapPR (RotateRegisters s) (Suc i) = MapPR s i"
  "MapPR (RotateRegisters s) 16 = MapPR s 63"
  using rotate_step [of 48 "i - 16" "GetRRB_PR s"] rotate_wrap [of 48 "GetRRB_PR s"]
  by (auto simp: MapPR_high rotate_frame_fields elim!: less_eqE)

lemma is_rotating_rotate [simp]: "is_rotating (RotateRegisters s) i = is_rotating s i"
  by (simp add: is_rotating_def rot_size_def rotate_frame_fields)

lemma MapGR_rotate:
  assumes "is_rotating s i" "is_rotating s (Suc i)"
  shows "MapGR (RotateRegisters s) (Suc i) = MapGR s i"
proof -
  have pos: "0 < rot_size s" "GetSOR s \<noteq> 0" and i: "32 \<le> i"
    using assms by (auto simp: is_rotating_def rot_size_def)
  have "MapGR (RotateRegisters s) (Suc i) =
      32 + (Suc (i - 32) + (GetRRB_GR s + rot_size s - 1) mod rot_size s) mod rot_size s"
    using assms pos i
    by (auto simp: MapGR_rotating rotate_frame_fields rot_size_def elim!: less_eqE)
  then show ?thesis
    unfolding rotate_step [OF pos(1)] by (simp add: MapGR_rotating assms)
qed

lemma MapGR_rotate_wrap:
  assumes "frame_ok s" "GetSOR s \<noteq> 0"
  shows "MapGR (RotateRegisters s) 32 = MapGR s (31 + rot_size s)"
proof -
  have "is_rotating s 32" "is_rotating s (31 + rot_size s)"
    using assms by (auto simp: is_rotating_def rot_size_def frame_ok_def)
  then show ?thesis
    using assms rotate_wrap [of "rot_size s" "GetRRB_GR s"]
    by (simp add: MapGR_rotating rotate_frame_fields rot_size_def)
qed

lemma MapGR_rotate_other:
  "\<not> is_rotating s i \<Longrightarrow> MapGR (RotateRegisters s) i = MapGR s i"
  by (cases "is_banked s i")
    (auto simp: MapGR_banked MapGR_plain is_banked_def)

lemma GetGR_cong:
  "\<lbrakk>MapGR t j = MapGR s i; cpu_gr t = cpu_gr s; 0 < i; 0 < j; i < 128; j < 128\<rbrakk> \<Longrightarrow> GetGR t j = GetGR s i"
  by (simp add: GetGR_def)

lemma GetFR_cong:
  "\<lbrakk>MapFR t j = MapFR s i; cpu_fr t = cpu_fr s; i < 128; j < 128\<rbrakk> \<Longrightarrow> GetFR t j = GetFR s i"
  by (simp add: GetFR_def Let_def)

lemma GetPR_cong:
  "\<lbrakk>MapPR t j = MapPR s i; cpu_pr t = cpu_pr s; 0 < i; 0 < j; i < 64; j < 64\<rbrakk> \<Longrightarrow> GetPR t j = GetPR s i"
  by (simp add: GetPR_def)

text \<open>C23: a rotation renames every rotating register by one: afterwards logical register
  \<open>i + 1\<close> reads what logical register \<open>i\<close> read, the first rotating register of the window reads
  what the last one read, and registers outside the windows are unchanged.\<close>

theorem rotation_renames:
  assumes "frame_ok s"
  shows
    "(\<forall>i. 32 \<le> i \<and> i < 127 \<longrightarrow> GetFR (RotateRegisters s) (Suc i) = GetFR s i) \<and>
     GetFR (RotateRegisters s) 32 = GetFR s 127 \<and>
     (\<forall>i. 16 \<le> i \<and> i < 63 \<longrightarrow> GetPR (RotateRegisters s) (Suc i) = GetPR s i) \<and>
     GetPR (RotateRegisters s) 16 = GetPR s 63 \<and>
     (\<forall>i. 32 \<le> i \<and> Suc i < 32 + 8 * GetSOR s \<longrightarrow>
        GetGR (RotateRegisters s) (Suc i) = GetGR s i) \<and>
     (GetSOR s \<noteq> 0 \<longrightarrow> GetGR (RotateRegisters s) 32 = GetGR s (31 + 8 * GetSOR s)) \<and>
     (\<forall>i. i < 32 \<or> 32 + 8 * GetSOR s \<le> i \<longrightarrow> GetGR (RotateRegisters s) i = GetGR s i)"
proof (intro conjI allI impI)
  have rs: "rot_size s = 8 * GetSOR s" "8 * GetSOR s \<le> 96"
    using assms by (simp_all add: rot_size_def frame_ok_def)
  show "GetGR (RotateRegisters s) (Suc i) = GetGR s i" if "32 \<le> i \<and> Suc i < 32 + 8 * GetSOR s" for i
    using that rs by (intro GetGR_cong MapGR_rotate) (auto simp: is_rotating_def)
  show "GetGR (RotateRegisters s) 32 = GetGR s (31 + 8 * GetSOR s)" if "GetSOR s \<noteq> 0"
    using that rs MapGR_rotate_wrap [OF assms that] by (intro GetGR_cong) auto
  show "GetGR (RotateRegisters s) i = GetGR s i" if "i < 32 \<or> 32 + 8 * GetSOR s \<le> i" for i
    using that rs MapGR_rotate_other [of s i] by (auto simp: GetGR_def is_rotating_def)
qed (auto intro!: GetFR_cong GetPR_cong simp: MapFR_rotate MapPR_rotate)

lemma rotation_renames_witness:
  "GetFR (RotateRegisters Reset) 41 = GetFR Reset 40 \<and>
   GetPR (RotateRegisters Reset) 16 = GetPR Reset 63 \<and>
   GetGR (RotateRegisters Reset) 5 = GetGR Reset 5"
proof -
  have "frame_ok Reset"
    by (simp add: frame_ok_def GetSOR_def Reset_def get_bits_def)
  note r = rotation_renames [OF this]
  from r [THEN conjunct1, THEN spec, of 40] r show ?thesis by simp
qed

subsection \<open>The loop branches\<close>

lemma SetAR_ok:
  "cpu_shape s \<Longrightarrow> i < 128 \<Longrightarrow>
   SetAR i v s = Inr (s\<lparr>cpu_ar := (cpu_ar s)[i := v], cpu_rse := mirror_ar i v (cpu_rse s)\<rparr>)"
  by (simp add: SetAR_def)

lemma GetAR_ok: "cpu_shape s \<Longrightarrow> i < 128 \<Longrightarrow> GetAR s i = Inr (cpu_ar s ! i)"
  by (simp add: GetAR_def)

lemma SetPR_ok:
  "cpu_shape s \<Longrightarrow> 0 < i \<Longrightarrow> i < 64 \<Longrightarrow>
   SetPR i v s = Inr (s\<lparr>cpu_pr := (cpu_pr s)[MapPR s i := v]\<rparr>)"
  by (simp add: SetPR_def MapPR_less)

lemma GetPR_ok: "cpu_shape s \<Longrightarrow> i < 64 \<Longrightarrow> \<exists>b. GetPR s i = Inr b"
  using pr_bank.get_in by simp

lemma pr_mask_loop_bits:
  assumes "cpu_shape s" "\<forall>i \<in> set is. i < 64"
  shows "\<exists>m'. pr_mask_loop s is m = Inr m' \<and>
    (\<forall>j < 64. bit m' j \<longleftrightarrow> bit m j \<or> (j \<in> set is \<and> GetPR s j = Inr True))"
  using assms(2)
proof (induction "is" arbitrary: m)
  case Nil
  then show ?case by simp
next
  case (Cons i "is")
  then obtain b where b: "GetPR s i = Inr b"
    using GetPR_ok [OF assms(1), of i] by auto
  from Cons obtain m' where "pr_mask_loop s is (if b then m OR push_bit i 1 else m) = Inr m'"
    "\<forall>j < 64. bit m' j \<longleftrightarrow>
       bit (if b then m OR push_bit i 1 else m) j \<or> (j \<in> set is \<and> GetPR s j = Inr True)"
    by (metis list.set_intros(2))
  with b show ?case
    by (cases b) (auto simp: bit_simps)
qed

lemma pr_mask_bits:
  assumes "cpu_shape s"
  obtains m where "pr_mask s = Inr m" "\<And>j. j < 64 \<Longrightarrow> bit m j \<longleftrightarrow> GetPR s j = Inr True"
proof -
  from pr_mask_loop_bits [OF assms, of "[0..<64]" 0]
  obtain m where "pr_mask s = Inr m" "\<forall>j < 64. bit m j \<longleftrightarrow> GetPR s j = Inr True"
    by (auto simp: pr_mask_def)
  then show thesis by (intro that) auto
qed

text \<open>What one branch does to the loop counters: the specification of \<open>br.ctop\<close>.\<close>

definition loop_step :: "u64 \<times> u64 \<Rightarrow> (u64 \<times> u64) \<times> bool \<times> bool" where
  "loop_step = (\<lambda>(lc, ec).
     if lc \<noteq> 0 then ((lc - 1, ec), True, True)
     else if ec > 1 then ((0, ec - 1), True, True)
     else if ec = 1 then ((0, 0), False, True)
     else ((0, 0), False, False))"

definition loop_counters :: "cpu_state \<Rightarrow> u64 \<times> u64" where
  "loop_counters s = (cpu_ar s ! 65, cpu_ar s ! 66)"

text \<open>The state a branch leaves: new counters, the stage predicate written, then rotation.\<close>

definition stage_state :: "u64 \<times> u64 \<Rightarrow> bool \<Rightarrow> bool \<Rightarrow> cpu_state \<Rightarrow> cpu_state" where
  "stage_state counters p rot s =
     (let s1 = s\<lparr>cpu_ar := (cpu_ar s)[65 := fst counters, 66 := snd counters],
               cpu_pr := (cpu_pr s)[MapPR s 63 := p]\<rparr>
      in if rot then RotateRegisters s1 else s1)"

lemma MapPR_frame: "cpu_cfm s = cpu_cfm t \<Longrightarrow> MapPR s = MapPR t"
  by (rule Map_cong)

lemma modulo_loop_branch_spec:
  assumes "cpu_shape s"
  shows "modulo_loop_branch ex (cpu_ar s ! 65) (cpu_ar s ! 66) s =
    (case loop_step (loop_counters s) of
       (counters, taken, rot) \<Rightarrow>
         Inr (stage_state counters (cpu_ar s ! 65 \<noteq> 0) rot s, (if ex then \<not> taken else taken), rot))"
proof -
  have ar: "cpu_shape (s\<lparr>cpu_ar := (cpu_ar s)[i := v]\<rparr>)" for i v
    using assms unfolding cpu_shape_def by simp
  have mp: "MapPR (s\<lparr>cpu_ar := x\<rparr>) = MapPR s" for x
    by (rule MapPR_frame) simp
  have self: "(cpu_ar s)[i := v, j := cpu_ar s ! j] = (cpu_ar s)[i := v]"
    "(cpu_ar s)[i := cpu_ar s ! i] = cpu_ar s" if "i \<noteq> j" for i j v
    using that by (metis list_update_id list_update_swap)+
  have z: "cpu_ar s ! i = 0 \<Longrightarrow> (cpu_ar s)[i := 0] = cpu_ar s" for i
    by (metis list_update_id)
  have ec: "\<not> 1 < w \<Longrightarrow> w \<noteq> 1 \<Longrightarrow> w = 0" for w :: u64
    by (metis not_less_iff_gr_or_eq word_gt_0 word_le_sub1 order_antisym diff_self word_neq_0_conv
      word_less_1)
  show ?thesis
    using assms ar self z ec [of "cpu_ar s ! 66"]
    by (auto simp: modulo_loop_branch_def loop_step_def loop_counters_def stage_state_def Let_def
      SetAR_ok SetPR_ok mp mirror_ar_def)
qed

lemma stage_state_shape: "cpu_shape s \<Longrightarrow> cpu_shape (stage_state c p rot s)"
proof -
  assume "cpu_shape s"
  then have "cpu_shape (s\<lparr>cpu_ar := (cpu_ar s)[65 := fst c, 66 := snd c],
      cpu_pr := (cpu_pr s)[MapPR s 63 := p]\<rparr>)"
    using MapPR_nonzero [of 63 s] unfolding cpu_shape_def by simp
  then show ?thesis
    by (simp add: stage_state_def Let_def)
qed

lemma stage_state_counters:
  "cpu_shape s \<Longrightarrow> loop_counters (stage_state c p rot s) = c"
  by (simp add: stage_state_def loop_counters_def Let_def)

text \<open>After a rotating branch the stage predicate is the first rotating one, \<open>p16\<close>.\<close>

lemma stage_state_PR16:
  assumes "cpu_shape s"
  shows "GetPR (stage_state c p True s) 16 = Inr p"
proof -
  let ?s1 = "s\<lparr>cpu_ar := (cpu_ar s)[65 := fst c, 66 := snd c], cpu_pr := (cpu_pr s)[MapPR s 63 := p]\<rparr>"
  have "MapPR ?s1 = MapPR s"
    by (rule MapPR_frame) simp
  moreover have "MapPR s 63 < 64"
    by (simp add: MapPR_less)
  ultimately show ?thesis
    using assms by (simp add: stage_state_def Let_def GetPR_def MapPR_rotate)
qed

lemma ExecuteModuloLoopStage_spec:
  assumes "cpu_shape s"
  obtains r s' where "ExecuteModuloLoopStage ex s = Inr (r, s')" "cpu_shape s'"
    "s' = stage_state (fst (loop_step (loop_counters s))) (fst (loop_counters s) \<noteq> 0) (rotated r) s"
    "(lcBefore r, ecBefore r) = loop_counters s" "(lcAfter r, ecAfter r) = loop_counters s'"
    "(loop_counters s', if ex then \<not> branchTaken r else branchTaken r, rotated r)
       = loop_step (loop_counters s)"
    "\<And>j. j < 64 \<Longrightarrow> bit (prMaskBefore r) j \<longleftrightarrow> GetPR s j = Inr True"
    "\<And>j. j < 64 \<Longrightarrow> bit (prMaskAfter r) j \<longleftrightarrow> GetPR s' j = Inr True"
proof -
  obtain c taken rot where st: "loop_step (loop_counters s) = (c, taken, rot)"
    by (metis prod_cases3)
  define s' where "s' = stage_state c (cpu_ar s ! 65 \<noteq> 0) rot s"
  have s': "cpu_shape s'" "loop_counters s' = c"
    using assms by (simp_all add: s'_def stage_state_shape stage_state_counters)
  obtain m where m: "pr_mask s = Inr m" "\<And>j. j < 64 \<Longrightarrow> bit m j \<longleftrightarrow> GetPR s j = Inr True"
    using pr_mask_bits [OF assms] by metis
  obtain m' where m': "pr_mask s' = Inr m'" "\<And>j. j < 64 \<Longrightarrow> bit m' j \<longleftrightarrow> GetPR s' j = Inr True"
    using pr_mask_bits [OF s'(1)] by metis
  obtain p p' where p: "GetPR s 63 = Inr p" "GetPR s' 63 = Inr p'"
    using GetPR_ok [OF assms, of 63] GetPR_ok [OF s'(1), of 63] by auto
  have br: "modulo_loop_branch ex (cpu_ar s ! 65) (cpu_ar s ! 66) s
      = Inr (s', if ex then \<not> taken else taken, rot)"
    using modulo_loop_branch_spec [OF assms, of ex] by (simp add: st s'_def)
  show thesis
    by (rule that [of "\<lparr>lcBefore = cpu_ar s ! 65, lcAfter = cpu_ar s' ! 65,
          ecBefore = cpu_ar s ! 66, ecAfter = cpu_ar s' ! 66,
          cfmBefore = cpu_cfm s, cfmAfter = cpu_cfm s', pr63Before = p, pr63After = p',
          prMaskBefore = m, prMaskAfter = m', branchTaken = if ex then \<not> taken else taken,
          rotated = rot\<rparr>" s'])
      (use assms s' m m' p br st in
        \<open>simp_all add: ExecuteModuloLoopStage_def GetAR_ok loop_counters_def s'_def [symmetric]\<close>)
qed

lemma stage_step:
  assumes "cpu_shape s"
  obtains r s' where "ExecuteModuloLoopStage ex s = Inr (r, s')" "cpu_shape s'"
    "s' = stage_state (fst (loop_step (loop_counters s))) (fst (loop_counters s) \<noteq> 0) (rotated r) s"
    "loop_step (loop_counters s) =
       (loop_counters s', if ex then \<not> branchTaken r else branchTaken r, rotated r)"
  using assms
proof (rule ExecuteModuloLoopStage_spec [of s ex])
  fix r s'
  assume a: "ExecuteModuloLoopStage ex s = Inr (r, s')" "cpu_shape s'"
    "s' = stage_state (fst (loop_step (loop_counters s))) (fst (loop_counters s) \<noteq> 0) (rotated r) s"
    "(loop_counters s', if ex then \<not> branchTaken r else branchTaken r, rotated r)
       = loop_step (loop_counters s)"
  show thesis by (rule that [OF a(1-3) a(4) [symmetric]])
qed

lemmas ctop_step = stage_step [where ex = False, folded ExecuteBrCTop_def, unfolded if_False]
lemmas cexit_step = stage_step [where ex = True, folded ExecuteBrCExit_def, unfolded if_True]

text \<open>C21: \<open>br.ctop\<close> and \<open>br.cexit\<close> never throw on a well-formed processor, both implement the counter
  specification \<open>loop_step\<close> with opposite branch senses, reach the same state, and after a rotating
  step \<open>p16\<close> is true exactly while the loop counter had not run out.\<close>

theorem loop_branch_refines:
  assumes "cpu_shape s"
  shows "\<exists>r q s'. ExecuteBrCTop s = Inr (r, s') \<and> ExecuteBrCExit s = Inr (q, s') \<and> cpu_shape s' \<and>
     (loop_counters s', branchTaken r, rotated r) = loop_step (loop_counters s) \<and>
     branchTaken q = (\<not> branchTaken r) \<and> rotated q = rotated r \<and>
     (rotated r \<longrightarrow> GetPR s' 16 = Inr (fst (loop_counters s) \<noteq> 0))"
proof -
  obtain r s' where r: "ExecuteBrCTop s = Inr (r, s')" "cpu_shape s'"
    "s' = stage_state (fst (loop_step (loop_counters s))) (fst (loop_counters s) \<noteq> 0) (rotated r) s"
    "loop_step (loop_counters s) = (loop_counters s', branchTaken r, rotated r)"
    by (rule ctop_step [OF assms])
  obtain q t where q: "ExecuteBrCExit s = Inr (q, t)"
    "t = stage_state (fst (loop_step (loop_counters s))) (fst (loop_counters s) \<noteq> 0) (rotated q) s"
    "loop_step (loop_counters s) = (loop_counters t, \<not> branchTaken q, rotated q)"
    by (rule cexit_step [OF assms])
  have same: "branchTaken q = (\<not> branchTaken r)" "rotated q = rotated r"
    using r(4) q(3) by auto
  then have "t = s'"
    using r(3) q(2) by simp
  moreover have "rotated r \<Longrightarrow> GetPR s' 16 = Inr (fst (loop_counters s) \<noteq> 0)"
    using stage_state_PR16 [OF assms] r(3) by metis
  ultimately show ?thesis
    using r(1,2) q(1) same r(4) [symmetric] by blast
qed

lemma loop_branch_refines_witness:
  "\<exists>r q s'. ExecuteBrCTop Reset = Inr (r, s') \<and> ExecuteBrCExit Reset = Inr (q, s') \<and> cpu_shape s' \<and>
     (loop_counters s', branchTaken r, rotated r) = ((0, 0), False, False) \<and>
     branchTaken q = (\<not> branchTaken r) \<and> rotated q = rotated r \<and>
     (rotated r \<longrightarrow> GetPR s' 16 = Inr (fst (loop_counters Reset) \<noteq> 0))"
proof -
  have "loop_step (loop_counters Reset) = ((0, 0), False, False)"
    by (simp add: loop_step_def loop_counters_def Reset_def)
  with loop_branch_refines [OF cpu_shape_Reset] show ?thesis by simp
qed

text \<open>
  A loop closed by \<open>br.ctop\<close>: run the body, then the branch, until it falls through. The fuel
  bounds the number of iterations; \<open>None\<close> means it ran out. The result counts the executions of
  the body.
\<close>

fun counted_loop ::
  "nat \<Rightarrow> (cpu_state \<Rightarrow> cpu_state) \<Rightarrow> cpu_state \<Rightarrow> (cpp_error + nat \<times> cpu_state) option" where
  "counted_loop 0 body s = None"
| "counted_loop (Suc fuel) body s =
     (case ExecuteBrCTop (body s) of
        Inl e \<Rightarrow> Some (Inl e)
      | Inr (r, s') \<Rightarrow>
          if branchTaken r
          then map_option (\<lambda>res. and_then res (\<lambda>(k, t). Inr (Suc k, t))) (counted_loop fuel body s')
          else Some (Inr (1, s')))"

text \<open>A loop body must leave the loop counters alone.\<close>

definition body_ok :: "(cpu_state \<Rightarrow> cpu_state) \<Rightarrow> bool" where
  "body_ok body \<longleftrightarrow>
     (\<forall>s. cpu_shape s \<longrightarrow> cpu_shape (body s) \<and> loop_counters (body s) = loop_counters s)"

definition loop_count :: "u64 \<times> u64 \<Rightarrow> nat" where
  "loop_count c = unat (fst c) + max 1 (unat (snd c))"

lemma loop_step_count:
  assumes "loop_step c = (c', taken, rot)"
  shows "taken \<Longrightarrow> loop_count c = Suc (loop_count c')"
    "\<not> taken \<Longrightarrow> loop_count c = 1 \<and> c' = (0, 0)"
proof -
  obtain lc ec where c: "c = (lc, ec)" by (cases c)
  have u: "unat (w - 1) = unat w - 1" "0 < unat w" if "w \<noteq> 0" for w :: u64
    using that by (simp_all add: unat_minus_one unat_gt_0)
  have one: "w > 1 \<longleftrightarrow> unat w > 1" "w = 1 \<longleftrightarrow> unat w = 1" for w :: u64
    by (simp_all add: word_less_nat_alt word_unat_eq_iff)
  have "ec > 1 \<Longrightarrow> ec \<noteq> 0"
    by auto
  then show "taken \<Longrightarrow> loop_count c = Suc (loop_count c')"
    using assms u [of lc] u [of ec] one [of ec]
    by (auto simp: c loop_step_def loop_count_def split: if_splits)
  show "\<not> taken \<Longrightarrow> loop_count c = 1 \<and> c' = (0, 0)"
    using assms one [of ec]
    by (auto simp: c loop_step_def loop_count_def split: if_splits)
qed

text \<open>C22: a loop closed by \<open>br.ctop\<close> whose body keeps the loop counters terminates without an
  exception, runs its body exactly \<open>LC + max 1 EC\<close> times (prologue, kernel and epilogue stages) and
  leaves both counters at zero; fuel equal to that count suffices.\<close>

theorem counted_loop_count:
  assumes "body_ok body" "cpu_shape s" "loop_count (loop_counters s) \<le> fuel"
  shows "\<exists>s'. counted_loop fuel body s = Some (Inr (loop_count (loop_counters s), s')) \<and>
     cpu_shape s' \<and> loop_counters s' = (0, 0)"
  using assms(2,3)
proof (induction fuel arbitrary: s)
  case 0
  then show ?case by (simp add: loop_count_def)
next
  case (Suc fuel)
  let ?b = "body s"
  have b: "cpu_shape ?b" "loop_counters ?b = loop_counters s"
    using assms(1) Suc.prems(1) by (simp_all add: body_ok_def)
  obtain r s' where r: "ExecuteBrCTop ?b = Inr (r, s')" "cpu_shape s'"
    "loop_step (loop_counters s) = (loop_counters s', branchTaken r, rotated r)"
    using ctop_step [OF b(1)] unfolding b(2) by metis
  show ?case
  proof (cases "branchTaken r")
    case True
    then have n: "loop_count (loop_counters s) = Suc (loop_count (loop_counters s'))"
      by (rule loop_step_count(1) [OF r(3)])
    with Suc.prems Suc.IH [OF r(2)] show ?thesis
      using True r(1) by fastforce
  next
    case False
    with loop_step_count(2) [OF r(3) False] r show ?thesis by simp
  qed
qed

lemma counted_loop_count_witness:
  "\<exists>s'. counted_loop 5 id (Reset\<lparr>cpu_ar := (replicate 128 0)[65 := 3, 66 := 2]\<rparr>) = Some (Inr (5, s')) \<and>
     cpu_shape s' \<and> loop_counters s' = (0, 0)"
proof -
  let ?s = "Reset\<lparr>cpu_ar := (replicate 128 0)[65 := 3, 66 := 2]\<rparr>"
  have "cpu_shape ?s"
    unfolding cpu_shape_def by (simp add: Reset_def)
  moreover have "loop_count (loop_counters ?s) = 5"
    by (simp add: loop_count_def loop_counters_def)
  ultimately show ?thesis
    using counted_loop_count [of id ?s 5] by (simp add: body_ok_def)
qed

end
