(* ===== verification/Cpu_Guest.thy ===== *)
theory Cpu_Guest
  imports Cpu_Loops
begin

text \<open>
  The processor as its guest drives it: backing-store moves of calls and returns, the \<open>alloc\<close>
  emulation of \<open>src/src/decoder/decoder.cpp\<close>, one operation type for everything an instruction
  does to \<open>CPUState\<close>, and the invariants of every reachable state.
\<close>

subsection \<open>Backing-store pointers\<close>

lemma AdvanceBSP_ok:
  assumes "cpu_shape s"
  shows "AdvanceBSPForCall s = SetAR 17 (skipRseRegisters (cpu_ar s ! 17) (int (GetSOL s))) s"
  using assms by (simp add: AdvanceBSPForCall_def GetAR_ok)

lemma SetAR_result:
  assumes "cpu_shape s" "i < 128"
  obtains s' where "SetAR i v s = Inr s'" "cpu_shape s'" "cpu_ar s' = (cpu_ar s)[i := v]"
    "cpu_cfm s' = cpu_cfm s" "cpu_rse s' = mirror_ar i v (cpu_rse s)" "cpu_gr s' = cpu_gr s"
    "cpu_itlb s' = cpu_itlb s" "cpu_dtlb s' = cpu_dtlb s"
  using assms by (intro that [OF SetAR_ok]) (simp_all add: cpu_shape_set_plain)

lemma RewindBSP_ok:
  assumes "cpu_shape s"
  obtains s' where "RewindBSPForReturn n s = Inr s'" "cpu_shape s'"
    "cpu_ar s' = (cpu_ar s)[17 := skipRseRegisters (cpu_ar s ! 17) (- int n),
       18 := min (cpu_ar s ! 18) (skipRseRegisters (cpu_ar s ! 17) (- int n))]"
    "cpu_cfm s' = cpu_cfm s" "cpu_gr s' = cpu_gr s"
proof -
  let ?b = "skipRseRegisters (cpu_ar s ! 17) (- int n)"
  obtain s1 where s1: "SetAR 17 ?b s = Inr s1" "cpu_shape s1" "cpu_ar s1 = (cpu_ar s)[17 := ?b]"
      "cpu_cfm s1 = cpu_cfm s" "cpu_gr s1 = cpu_gr s"
    by (rule SetAR_result [OF assms, of 17 ?b]) simp_all
  obtain s2 where s2: "SetAR 18 ?b s1 = Inr s2" "cpu_shape s2" "cpu_ar s2 = (cpu_ar s1)[18 := ?b]"
      "cpu_cfm s2 = cpu_cfm s1" "cpu_gr s2 = cpu_gr s1"
    by (rule SetAR_result [OF s1(2), of 18 ?b]) simp_all
  show thesis
  proof (cases "cpu_ar s ! 18 > ?b")
    case True
    then have "min (cpu_ar s ! 18) ?b = ?b"
      by (simp add: min_absorb2 less_imp_le)
    with True assms s1 s2 show thesis
      by (intro that [of s2]) (simp_all add: RewindBSPForReturn_def GetAR_ok Let_def)
  next
    case False
    then have "min (cpu_ar s ! 18) ?b = (cpu_ar s)[17 := ?b] ! 18"
      by (auto simp: min_def not_less)
    then have "(cpu_ar s)[17 := ?b, 18 := min (cpu_ar s ! 18) ?b] = (cpu_ar s)[17 := ?b]"
      by (metis list_update_id)
    with False assms s1 show thesis
      by (intro that [of s1]) (simp_all add: RewindBSPForReturn_def GetAR_ok Let_def)
  qed
qed

text \<open>On a NaT collection slot a forward move first steps over the slot.\<close>

lemma skip_from_collection:
  assumes "uint (rse_slot a) = 63" "0 < n"
  shows "uint (rse_slot (a + 8)) = 0 \<and> skipRseRegisters a n = skipRseRegisters (a + 8) n"
proof -
  have slot: "uint (rse_slot (a + 8)) = 0"
    using uint_rse_slot_add [of a 1] assms(1) by simp
  have "(63 + n) div 63 = n div 63 + 1"
    by (simp add: div_add_self1)
  then have "skipRseRegisters a n = a + word_of_int (n + n div 63 + 1) * 8"
    using skipRse_forward [of n a] assms by (simp add: add.assoc)
  also have "\<dots> = (a + 8) + word_of_int (n + n div 63) * 8"
    by (simp add: algebra_simps)
  also have "\<dots> = skipRseRegisters (a + 8) n"
    using skipRse_forward [of n "a + 8"] assms(2) slot by simp
  finally show ?thesis
    using slot by simp
qed

definition bsp_after_return :: "u64 \<Rightarrow> nat \<Rightarrow> u64" where
  "bsp_after_return bsp n = (if uint (rse_slot bsp) = 63 \<and> n \<noteq> 0 then bsp + 8 else bsp)"

lemma skip_there_and_back: "skipRseRegisters (skipRseRegisters bsp (int n)) (- int n) = bsp_after_return bsp n"
proof (cases "uint (rse_slot bsp) = 63")
  case False
  then show ?thesis
    by (simp add: skip_back_forward bsp_after_return_def)
next
  case True
  show ?thesis
  proof (cases "n = 0")
    case True
    then show ?thesis by (simp add: bsp_after_return_def skipRseRegisters_def)
  next
    case False
    from skip_from_collection [OF True, of "int n"] False True show ?thesis
      by (simp add: skip_back_forward bsp_after_return_def)
  qed
qed

text \<open>C24: a return with the caller's local frame size undoes the backing-store move of the call: the
  backing-store pointer comes back exactly, \<open>BSPSTORE\<close> ends at or below it, and no other application
  register changes, for every frame size and across NaT collection words. The one exception is a
  pointer on a NaT collection slot (slot 63, which \<open>mov ar.bspstore\<close> can set up) with a non-empty local
  frame: it comes back one word higher, on the slot after the collection.\<close>

theorem call_return_roundtrip:
  assumes "cpu_shape s"
  shows "let bsp = cpu_ar s ! 17;
             bsp' = (if uint (rse_slot bsp) = 63 \<and> GetSOL s \<noteq> 0 then bsp + 8 else bsp)
         in \<exists>s1 s2. AdvanceBSPForCall s = Inr s1 \<and> RewindBSPForReturn (GetSOL s) s1 = Inr s2 \<and>
              cpu_ar s2 = (cpu_ar s)[17 := bsp', 18 := min (cpu_ar s ! 18) bsp']"
proof -
  let ?b = "skipRseRegisters (cpu_ar s ! 17) (int (GetSOL s))"
  obtain s1 where s1: "AdvanceBSPForCall s = Inr s1" "cpu_shape s1" "cpu_ar s1 = (cpu_ar s)[17 := ?b]"
    by (rule SetAR_result [OF assms, of 17 ?b]) (simp_all add: AdvanceBSP_ok assms)
  obtain s2 where s2: "RewindBSPForReturn (GetSOL s) s1 = Inr s2"
    "cpu_ar s2 = (cpu_ar s1)[17 := skipRseRegisters (cpu_ar s1 ! 17) (- int (GetSOL s)),
       18 := min (cpu_ar s1 ! 18) (skipRseRegisters (cpu_ar s1 ! 17) (- int (GetSOL s)))]"
    by (rule RewindBSP_ok [OF s1(2), of "GetSOL s"])
  have "length (cpu_ar s) = 128"
    using assms by simp
  then have "cpu_ar s1 ! 17 = ?b" "cpu_ar s1 ! 18 = cpu_ar s ! 18"
    by (simp_all add: s1(3))
  then have "cpu_ar s2 = (cpu_ar s)[17 := bsp_after_return (cpu_ar s ! 17) (GetSOL s),
      18 := min (cpu_ar s ! 18) (bsp_after_return (cpu_ar s ! 17) (GetSOL s))]"
    using s1(3) s2(2) by (simp add: skip_there_and_back)
  with s1(1) s2(1) show ?thesis
    unfolding Let_def bsp_after_return_def by blast
qed

lemma call_return_roundtrip_witness:
  "\<exists>s1 s2. AdvanceBSPForCall Reset = Inr s1 \<and> RewindBSPForReturn (GetSOL Reset) s1 = Inr s2 \<and>
     cpu_ar s2 ! 17 = cpu_ar Reset ! 17"
  using call_return_roundtrip [OF cpu_shape_Reset]
  by (auto simp: Let_def Reset_def rse_slot_def get_bits_def)

lemma between_self: "rseRegistersBetween a a = 0"
proof -
  have "rse_slot a div 64 = 0"
    using uint_rse_slot_bounds [of a] by (simp add: word_uint_eq_iff uint_div)
  then show ?thesis
    by (simp add: rseRegistersBetween_def)
qed

lemma sint_between: "sint (rseRegistersBetween a b) = uint (rseRegistersBetween a b)"
proof (cases "b < a")
  case True
  then show ?thesis by (simp add: rseRegistersBetween_def)
next
  case False
  define w where "w = drop_bit 3 (b - a)"
  have "unat (b - a) < 2 ^ 64"
    by (rule unat_u64_less)
  then have w: "unat w < 2 ^ 61"
    unfolding w_def unat_drop_bit_eq by (simp only: drop_bit_eq_div) (rule less_mult_imp_div_less, simp)
  have "unat (rse_slot a + w) \<le> unat (rse_slot a) + unat w"
    by (simp add: unat_word_ariths)
  moreover have "unat (rse_slot a) < 64"
    using get_bits_less [of 3 6 a] by (simp add: rse_slot_def)
  ultimately have "unat ((rse_slot a + w) div 64) \<le> (63 + unat w) div 64"
    by (simp add: unat_div div_le_mono)
  also have "\<dots> \<le> unat w"
    by (cases "unat w = 0") auto
  finally have "unat (w - (rse_slot a + w) div 64) = unat w - unat ((rse_slot a + w) div 64)"
    by (intro unat_sub) (simp add: word_le_nat_alt)
  then have "unat (rseRegistersBetween a b) < 2 ^ 61"
    using w False by (simp add: rseRegistersBetween_def Let_def w_def)
  then show ?thesis
    by (intro sint_eq_uint_small) simp
qed

text \<open>C25: writing \<open>BSPSTORE\<close> relocates the dirty partition: the new \<open>BSPSTORE\<close> is the value with its
  low three bits cleared, and the number of dirty registers between it and the new \<open>BSP\<close> is the
  number there was before, when the partition fits below the top of the address space.\<close>

theorem WriteBSPSTORE_keeps_dirty:
  assumes "cpu_shape s"
    and "d = uint (rseRegistersBetween (cpu_ar s ! 18) (cpu_ar s ! 17))"
    and "base = v AND NOT 7"
    and "uint base + 8 * (d + (uint (rse_slot base) + d) div 63) < 2 ^ 64"
  shows "\<exists>s'. WriteBSPSTORE v s = Inr s' \<and> cpu_ar s' ! 18 = base \<and>
     rseRegistersBetween (cpu_ar s' ! 18) (cpu_ar s' ! 17) =
       rseRegistersBetween (cpu_ar s ! 18) (cpu_ar s ! 17) \<and>
     cpu_shape s'"
proof -
  let ?b = "skipRseRegisters base d"
  obtain s1 where s1: "SetAR 18 base s = Inr s1" "cpu_shape s1" "cpu_ar s1 = (cpu_ar s)[18 := base]"
    by (rule SetAR_result [OF assms(1), of 18 base]) simp_all
  obtain s2 where s2: "SetAR 17 ?b s1 = Inr s2" "cpu_shape s2" "cpu_ar s2 = (cpu_ar s1)[17 := ?b]"
    by (rule SetAR_result [OF s1(2), of 17 ?b]) simp_all
  have "0 \<le> d" by (simp add: assms(2))
  then have "rseRegistersBetween base ?b = word_of_int d"
    using between_skip [OF _ _ assms(4)] between_self [of base]
    by (cases "d = 0") (simp_all add: skipRseRegisters_def)
  with assms s1 s2 show ?thesis
    by (simp add: WriteBSPSTORE_def GetAR_ok Let_def sint_between)
qed

lemma WriteBSPSTORE_keeps_dirty_witness:
  "\<exists>s'. WriteBSPSTORE 0x1007 Reset = Inr s' \<and> cpu_ar s' ! 18 = 0x1000 \<and>
     rseRegistersBetween (cpu_ar s' ! 18) (cpu_ar s' ! 17) =
       rseRegistersBetween (cpu_ar Reset ! 18) (cpu_ar Reset ! 17) \<and> cpu_shape s'"
  by (rule WriteBSPSTORE_keeps_dirty [OF cpu_shape_Reset refl])
    (simp_all add: Reset_def between_self rse_slot_def get_bits_def mask_eq_exp_minus_1)

subsection \<open>Allocating a stack frame\<close>

text \<open>The \<open>ALLOC\<close> case of \<open>InstructionEx::Execute\<close>; \<open>dst\<close> and \<open>immediate\<close> are the decoded fields.\<close>

definition exec_alloc :: "nat \<Rightarrow> u64 \<Rightarrow> cpu_state \<Rightarrow> cpp_error + cpu_state" where
  "exec_alloc dst immediate s =
     (let sof = get_bits 0 7 immediate;
          sol = get_bits 7 7 immediate;
          sor = get_bits 14 4 immediate
      in if sol > sof \<or> sof > 96 \<or> sor > sof then Inl OutOfRange
         else
           let old_cfm = cpu_cfm s in
           and_then (GetAR s 64) (\<lambda>old_pfs.
           and_then (SetGR dst (if old_pfs = 0 then old_cfm else old_pfs) s) (\<lambda>s1.
           and_then (SetAR 64 old_cfm s1) (\<lambda>s2.
             Inr (SetCFM (sof OR push_bit 7 sol OR push_bit 14 sor) s2)))))"

lemma alloc_cfm_fields:
  fixes imm :: u64
  defines "c \<equiv> get_bits 0 7 imm OR push_bit 7 (get_bits 7 7 imm) OR push_bit 14 (get_bits 14 4 imm)"
  shows "get_bits 14 4 c = get_bits 14 4 imm" "get_bits 0 7 c = get_bits 0 7 imm"
    "get_bits 7 7 c = get_bits 7 7 imm" "get_bits 18 20 c = 0"
  unfolding c_def by (rule bit_word_eqI; auto simp: field_simps_word bit_simps)+

lemma exec_alloc_steps:
  assumes "exec_alloc dst imm s = Inr s'"
  obtains v s1 s2 where "SetGR dst v s = Inr s1" "SetAR 64 (cpu_cfm s) s1 = Inr s2"
    "s' = SetCFM (get_bits 0 7 imm OR push_bit 7 (get_bits 7 7 imm) OR
        push_bit 14 (get_bits 14 4 imm)) s2"
  using assms by (auto simp: exec_alloc_def Let_def and_then_eq_Inr split: if_splits)

text \<open>A frame that fits (eight times \<open>sor\<close> within \<open>sof\<close>) keeps the renaming in bounds.\<close>

lemma exec_alloc_ok:
  assumes "cpu_shape s" "frame_ok s" "exec_alloc dst imm s = Inr s'" "unat (get_bits 14 4 imm) \<le> 12"
  shows "cpu_shape s' \<and> frame_ok s'"
proof -
  obtain v s1 s2 where s1: "SetGR dst v s = Inr s1" and s2: "SetAR 64 (cpu_cfm s) s1 = Inr s2"
    and s': "s' = SetCFM (get_bits 0 7 imm OR push_bit 7 (get_bits 7 7 imm) OR
        push_bit 14 (get_bits 14 4 imm)) s2"
    by (rule exec_alloc_steps [OF assms(3)])
  have "cpu_shape s1"
    using gr_bank.set_invar [OF _ _ s1] assms(1,2) by simp
  then have "cpu_shape s2"
    using ar_bank.set_invar [OF _ _ s2] by simp
  with assms(4) show ?thesis
    by (simp add: s' frame_ok_def GetSOR_def alloc_cfm_fields)
qed

text \<open>The region check of \<open>alloc\<close> compares \<open>sor\<close>, a count of eight-register groups, with \<open>sof\<close>,
  a count of registers, so it accepts rotating regions larger than the register file.\<close>

lemma MapGR_escapes:
  assumes "cpu_shape s" "is_rotating s i" "112 \<le> (i - 32 + GetRRB_GR s) mod rot_size s"
  shows "GetGR s i = Inl UndefinedBehaviour"
proof -
  have "144 \<le> MapGR s i" "i < 128" "i \<noteq> 0"
    using assms by (auto simp: MapGR_rotating is_rotating_def)
  with assms(1) show ?thesis
    by (simp add: GetGR_def arr_get_def)
qed

lemma SetGR_result:
  assumes "cpu_shape s" "frame_ok s" "i < 128"
  obtains s' where "SetGR i v s = Inr s'" "cpu_shape s'" "cpu_cfm s' = cpu_cfm s"
    "cpu_ar s' = cpu_ar s" "cpu_rse s' = cpu_rse s" "cpu_itlb s' = cpu_itlb s" "cpu_dtlb s' = cpu_dtlb s"
proof -
  obtain s' where s': "SetGR i v s = Inr s'" "cpu_shape s'"
    using gr_bank.set_in [of s i v] assms by auto
  then show thesis
    by (intro that [of s']) (auto simp: SetGR_def Let_def and_then_eq_Inr split: if_splits)
qed

lemma exec_alloc_result:
  assumes "cpu_shape s" "frame_ok s" "dst < 128"
    "get_bits 7 7 imm \<le> get_bits 0 7 imm" "get_bits 0 7 imm \<le> 96" "get_bits 14 4 imm \<le> get_bits 0 7 imm"
  obtains s' where "exec_alloc dst imm s = Inr s'" "cpu_shape s'"
    "cpu_ar s' = (cpu_ar s)[64 := cpu_cfm s]"
    "GetSOF s' = unat (get_bits 0 7 imm)" "GetSOL s' = unat (get_bits 7 7 imm)"
    "GetSOR s' = unat (get_bits 14 4 imm)" "GetRRB_GR s' = 0" "GetRRB_FR s' = 0" "GetRRB_PR s' = 0"
proof -
  let ?c = "get_bits 0 7 imm OR push_bit 7 (get_bits 7 7 imm) OR push_bit 14 (get_bits 14 4 imm)"
  define v where "v = (if cpu_ar s ! 64 = 0 then cpu_cfm s else cpu_ar s ! 64)"
  obtain s1 where s1: "SetGR dst v s = Inr s1" "cpu_shape s1" "cpu_cfm s1 = cpu_cfm s" "cpu_ar s1 = cpu_ar s"
    by (rule SetGR_result [OF assms(1-3)])
  obtain s2 where s2: "SetAR 64 (cpu_cfm s) s1 = Inr s2" "cpu_shape s2"
      "cpu_ar s2 = (cpu_ar s1)[64 := cpu_cfm s]"
    by (rule SetAR_result [OF s1(2), of 64 "cpu_cfm s"]) simp_all
  have rrb: "get_bits 18 7 ?c = 0" "get_bits 25 7 ?c = 0" "get_bits 32 6 ?c = 0"
    by (rule bit_word_eqI; auto simp: field_simps_word bit_simps)+
  have "exec_alloc dst imm s = Inr (SetCFM ?c s2)"
    using assms s1(1) s2(1) by (simp add: exec_alloc_def Let_def GetAR_ok v_def not_less)
  then show thesis
    by (rule that)
      (use s2 s1 rrb in \<open>simp_all add: frame_fields alloc_cfm_fields\<close>)
qed

text \<open>C40: \<open>alloc\<close> accepts a frame of 96 registers with \<open>sor = 15\<close>, that is 120 rotating registers; one
  rotating \<open>br.ctop\<close> later, reading general register 32 indexes past the end of the 144-entry
  register array. This happens from every well-formed state whose loop counter is not zero.\<close>

theorem alloc_escapes_register_file:
  assumes "cpu_shape s" "frame_ok s" "cpu_ar s ! 65 \<noteq> 0"
  shows "\<exists>s1 r s2. exec_alloc 33 0x3C060 s = Inr s1 \<and> ExecuteBrCTop s1 = Inr (r, s2) \<and>
     GetGR s2 32 = Inl UndefinedBehaviour"
proof -
  have fields: "get_bits 0 7 (0x3C060 :: u64) = 96" "get_bits 7 7 (0x3C060 :: u64) = 0"
    "get_bits 14 4 (0x3C060 :: u64) = 15"
    by (simp_all add: get_bits_def mask_eq_exp_minus_1)
  obtain s1 where s1: "exec_alloc 33 0x3C060 s = Inr s1" "cpu_shape s1"
      "cpu_ar s1 = (cpu_ar s)[64 := cpu_cfm s]" "GetSOR s1 = 15" "GetRRB_GR s1 = 0"
    by (rule exec_alloc_result [OF assms(1,2), of 33 "0x3C060"]) (simp_all add: fields)
  obtain r s2 where r: "ExecuteBrCTop s1 = Inr (r, s2)" "cpu_shape s2"
    "s2 = stage_state (fst (loop_step (loop_counters s1))) (fst (loop_counters s1) \<noteq> 0) (rotated r) s1"
    "loop_step (loop_counters s1) = (loop_counters s2, branchTaken r, rotated r)"
    by (rule ctop_step [OF s1(2)])
  have "rotated r"
    using r(4) assms(3) s1(3) by (auto simp: loop_counters_def loop_step_def)
  then obtain t where t: "s2 = RotateRegisters t" "cpu_cfm t = cpu_cfm s1"
    using r(3) by (simp add: stage_state_def Let_def)
  have "GetSOR t = 15" "GetRRB_GR t = 0"
    using s1(4,5) frame_fields_cong [OF t(2)] by simp_all
  then have s2: "GetSOR s2 = 15" "GetRRB_GR s2 = 119"
    by (simp_all add: t(1) rotate_frame_fields)
  then have "GetGR s2 32 = Inl UndefinedBehaviour"
    by (intro MapGR_escapes [OF r(2)]) (simp_all add: is_rotating_def rot_size_def)
  with s1(1) r(1) show ?thesis by blast
qed

lemma alloc_escapes_register_file_witness:
  "\<exists>s1 r s2. exec_alloc 33 0x3C060 (Reset\<lparr>cpu_ar := (replicate 128 0)[65 := 1]\<rparr>) = Inr s1 \<and>
     ExecuteBrCTop s1 = Inr (r, s2) \<and> GetGR s2 32 = Inl UndefinedBehaviour"
proof -
  have "cpu_shape (Reset\<lparr>cpu_ar := (replicate 128 0)[65 := 1]\<rparr>)"
    using cpu_shape_Reset unfolding cpu_shape_def by simp
  moreover have "frame_ok (Reset\<lparr>cpu_ar := (replicate 128 0)[65 := 1]\<rparr>)"
    by (simp add: frame_ok_def GetSOR_def Reset_def get_bits_def)
  ultimately show ?thesis
    by (rule alloc_escapes_register_file) simp
qed

subsection \<open>Everything an instruction does to the processor\<close>

datatype cpu_op =
    OpSetGR nat u64
  | OpSetGRNaT nat bool
  | OpSetGRPhysical nat u64
  | OpSetGRNaTPhysical nat bool
  | OpSetFR nat "u8 list"
  | OpSetFRPhysical nat "u8 list"
  | OpSetPR nat bool
  | OpSetPRUnrotated nat bool
  | OpSetPRPhysical nat bool
  | OpSetBR nat u64
  | OpSetRR nat u64
  | OpSetCR nat u64
  | OpSetAR nat u64
  | OpInsertITLB u64 u64 u64 u64
  | OpInsertDTLB u64 u64 u64 u64
  | OpPurgeITLB u64 nat u64
  | OpPurgeDTLB u64 nat u64
  | OpSetITR nat u64 u64 u64 u64
  | OpSetDTR nat u64 u64 u64 u64
  | OpAdvanceITC u64
  | OpWriteBSPSTORE u64
  | OpCall
  | OpReturn nat
  | OpBrCTop
  | OpBrCExit
  | OpAlloc nat u64
  | OpSetCFM u64
  | OpSetIP u64
  | OpSetPSR u64

fun cpu_exec :: "cpu_op \<Rightarrow> cpu_state \<Rightarrow> cpp_error + cpu_state" where
  "cpu_exec (OpSetGR i v) s = SetGR i v s"
| "cpu_exec (OpSetGRNaT i b) s = SetGRNaT i b s"
| "cpu_exec (OpSetGRPhysical i v) s = SetGRPhysical i v s"
| "cpu_exec (OpSetGRNaTPhysical i b) s = SetGRNaTPhysical i b s"
| "cpu_exec (OpSetFR i v) s = SetFR i v s"
| "cpu_exec (OpSetFRPhysical i v) s = SetFRPhysical i v s"
| "cpu_exec (OpSetPR i b) s = SetPR i b s"
| "cpu_exec (OpSetPRUnrotated i b) s = SetPRUnrotated i b s"
| "cpu_exec (OpSetPRPhysical i b) s = SetPRPhysical i b s"
| "cpu_exec (OpSetBR i v) s = SetBR i v s"
| "cpu_exec (OpSetRR i v) s = SetRR i v s"
| "cpu_exec (OpSetCR i v) s = SetCR i v s"
| "cpu_exec (OpSetAR i v) s = SetAR i v s"
| "cpu_exec (OpInsertITLB tte va it rv) s = InsertITLB tte va it rv s"
| "cpu_exec (OpInsertDTLB tte va it rv) s = InsertDTLB tte va it rv s"
| "cpu_exec (OpPurgeITLB va ps rid) s = Inr (PurgeITLB va ps rid s)"
| "cpu_exec (OpPurgeDTLB va ps rid) s = Inr (PurgeDTLB va ps rid s)"
| "cpu_exec (OpSetITR i pa va it rv) s = SetITR i pa va it rv s"
| "cpu_exec (OpSetDTR i pa va it rv) s = SetDTR i pa va it rv s"
| "cpu_exec (OpAdvanceITC n) s = Inr (AdvanceITC n s)"
| "cpu_exec (OpWriteBSPSTORE v) s = WriteBSPSTORE v s"
| "cpu_exec OpCall s = AdvanceBSPForCall s"
| "cpu_exec (OpReturn n) s = RewindBSPForReturn n s"
| "cpu_exec OpBrCTop s = and_then (ExecuteBrCTop s) (\<lambda>(r, s'). Inr s')"
| "cpu_exec OpBrCExit s = and_then (ExecuteBrCExit s) (\<lambda>(r, s'). Inr s')"
| "cpu_exec (OpAlloc dst imm) s = exec_alloc dst imm s"
| "cpu_exec (OpSetCFM v) s = Inr (SetCFM v s)"
| "cpu_exec (OpSetIP v) s = Inr (SetIP v s)"
| "cpu_exec (OpSetPSR v) s = Inr (SetPSR v s)"

text \<open>
  What the types of the source guarantee of an operation: a floating-point value is an array of 16 bytes. Apart from
  that an operation is legal for a caller when the frame it sets up, if it sets one up, has a rotating region that fits
  the register file (\<open>sor\<close> at most 12); the source does not check this.
\<close>

fun op_typed :: "cpu_op \<Rightarrow> bool" where
  "op_typed (OpSetFR i v) = (length v = 16)"
| "op_typed (OpSetFRPhysical i v) = (length v = 16)"
| "op_typed _ = True"

fun op_frame_fits :: "cpu_op \<Rightarrow> bool" where
  "op_frame_fits (OpAlloc dst imm) = (unat (get_bits 14 4 imm) \<le> 12)"
| "op_frame_fits (OpSetCFM v) = (unat (get_bits 14 4 v) \<le> 12)"
| "op_frame_fits _ = True"

fun op_legal :: "cpu_op \<Rightarrow> bool" where
  "op_legal (OpSetFR i v) = (length v = 16)"
| "op_legal (OpSetFRPhysical i v) = (length v = 16)"
| "op_legal (OpAlloc dst imm) = (unat (get_bits 14 4 imm) \<le> 12)"
| "op_legal (OpSetCFM v) = (unat (get_bits 14 4 v) \<le> 12)"
| "op_legal _ = True"

lemma op_legal_iff: "op_legal op \<longleftrightarrow> op_typed op \<and> op_frame_fits op"
  by (cases op) simp_all

text \<open>The RSE view mirrors the application registers it caches.\<close>

definition rse_mirror :: "cpu_state \<Rightarrow> bool" where
  "rse_mirror s \<longleftrightarrow>
     rse_rsc (cpu_rse s) = cpu_ar s ! 16 \<and> rse_bsp (cpu_rse s) = cpu_ar s ! 17 \<and>
     rse_bspstore (cpu_rse s) = cpu_ar s ! 18 \<and> rse_rnat (cpu_rse s) = cpu_ar s ! 19"

text \<open>The invariant, with or without the clause on the frame.\<close>

definition guest_inv :: "bool \<Rightarrow> cpu_state \<Rightarrow> bool" where
  "guest_inv fits s \<longleftrightarrow> cpu_shape s \<and> (fits \<longrightarrow> frame_ok s) \<and> rse_mirror s \<and> tlb_ok (cpu_itlb s) \<and> tlb_ok (cpu_dtlb s)"

definition guest_ok :: "cpu_state \<Rightarrow> bool" where
  "guest_ok s \<longleftrightarrow> cpu_shape s \<and> frame_ok s \<and> rse_mirror s \<and> tlb_ok (cpu_itlb s) \<and> tlb_ok (cpu_dtlb s)"

definition guest_sound :: "cpu_state \<Rightarrow> bool" where
  "guest_sound s \<longleftrightarrow> cpu_shape s \<and> rse_mirror s \<and> tlb_ok (cpu_itlb s) \<and> tlb_ok (cpu_dtlb s)"

lemma guest_inv_cases: "guest_inv True s = guest_ok s" "guest_inv False s = guest_sound s"
  by (simp_all add: guest_inv_def guest_ok_def guest_sound_def)

text \<open>Every state some sequence of operations reaches, whatever frames they set up.\<close>

inductive cpu_reachable :: "cpu_state \<Rightarrow> bool" where
  init: "cpu_reachable Reset"
| step: "\<lbrakk>cpu_reachable s; op_typed op; cpu_exec op s = Inr s'\<rbrakk> \<Longrightarrow> cpu_reachable s'"

inductive_cases cpu_reachableE: "cpu_reachable s"

lemma arr_set_eq_Inr: "arr_set xs i x = Inr ys \<longleftrightarrow> i < length xs \<and> ys = xs[i := x]"
  by (auto simp: arr_set_def)

lemma guest_inv_Reset: "guest_inv fits Reset"
  unfolding guest_inv_def using cpu_shape_Reset
  by (simp add: frame_ok_def GetSOR_def rse_mirror_def init_rse_def Reset_def get_bits_def tlb_ok_empty)

text \<open>Operations that touch neither the frame marker, the RSE registers nor the TLBs.\<close>

lemma guest_inv_frame:
  assumes "guest_inv fits s" "cpu_shape s'" "cpu_cfm s' = cpu_cfm s" "cpu_ar s' = cpu_ar s"
    "cpu_rse s' = cpu_rse s" "cpu_itlb s' = cpu_itlb s" "cpu_dtlb s' = cpu_dtlb s"
  shows "guest_inv fits s'"
  using assms Map_cong(3) [OF assms(3)] by (simp add: guest_inv_def rse_mirror_def)

lemmas bank_defs = SetGR_def SetGRNaT_def SetGRPhysical_def SetGRNaTPhysical_def SetFR_def
  SetFRPhysical_def SetPR_def SetPRUnrotated_def SetPRPhysical_def SetBR_def SetRR_def SetCR_def
  SetITR_def SetDTR_def Let_def and_then_eq_Inr

lemma guest_inv_banks:
  assumes "guest_inv fits s"
  shows "SetGR i v s = Inr s' \<Longrightarrow> guest_inv fits s'"
    "SetGRNaT i b s = Inr s' \<Longrightarrow> guest_inv fits s'"
    "SetGRPhysical i v s = Inr s' \<Longrightarrow> guest_inv fits s'"
    "SetGRNaTPhysical i b s = Inr s' \<Longrightarrow> guest_inv fits s'"
    "SetFR i f s = Inr s' \<Longrightarrow> length f = 16 \<Longrightarrow> guest_inv fits s'"
    "SetFRPhysical i f s = Inr s' \<Longrightarrow> length f = 16 \<Longrightarrow> guest_inv fits s'"
    "SetPR i b s = Inr s' \<Longrightarrow> guest_inv fits s'"
    "SetPRUnrotated i b s = Inr s' \<Longrightarrow> guest_inv fits s'"
    "SetPRPhysical i b s = Inr s' \<Longrightarrow> guest_inv fits s'"
    "SetBR i v s = Inr s' \<Longrightarrow> guest_inv fits s'"
    "SetRR i v s = Inr s' \<Longrightarrow> guest_inv fits s'"
    "SetCR i v s = Inr s' \<Longrightarrow> guest_inv fits s'"
    "SetITR i pa va it rv s = Inr s' \<Longrightarrow> guest_inv fits s'"
    "SetDTR i pa va it rv s = Inr s' \<Longrightarrow> guest_inv fits s'"
proof -
  have ok: "cpu_shape s"
    using assms by (simp_all add: guest_inv_def)
  note frame = guest_inv_frame [OF assms]
  show "SetGR i v s = Inr s' \<Longrightarrow> guest_inv fits s'"
    using ok by (intro frame) (auto simp: bank_defs arr_set_eq_Inr cpu_shape_set_gr MapGR_nonzero split: if_splits)
  show "SetGRNaT i b s = Inr s' \<Longrightarrow> guest_inv fits s'"
    using ok by (intro frame) (auto simp: bank_defs arr_set_eq_Inr cpu_shape_set_nat MapGR_nonzero split: if_splits)
  show "SetGRPhysical i v s = Inr s' \<Longrightarrow> guest_inv fits s'"
    using gr_physical_bank.set_invar [of s i v s'] ok by (intro frame) (auto simp: bank_defs split: if_splits)
  show "SetGRNaTPhysical i b s = Inr s' \<Longrightarrow> guest_inv fits s'"
    using gr_nat_physical_bank.set_invar [of s i b s'] ok by (intro frame) (auto simp: bank_defs split: if_splits)
  show "SetFR i f s = Inr s' \<Longrightarrow> length f = 16 \<Longrightarrow> guest_inv fits s'"
    using fr_bank.set_invar [of s f i s'] ok by (intro frame) (auto simp: bank_defs split: if_splits)
  show "SetFRPhysical i f s = Inr s' \<Longrightarrow> length f = 16 \<Longrightarrow> guest_inv fits s'"
    using fr_physical_bank.set_invar [of s f i s'] ok by (intro frame) (auto simp: bank_defs split: if_splits)
  show "SetPR i b s = Inr s' \<Longrightarrow> guest_inv fits s'"
    using pr_bank.set_invar [of s i b s'] ok by (intro frame) (auto simp: bank_defs split: if_splits)
  show "SetPRUnrotated i b s = Inr s' \<Longrightarrow> guest_inv fits s'"
    using pr_unrotated_bank.set_invar [of s i b s'] ok by (intro frame) (auto simp: bank_defs split: if_splits)
  show "SetPRPhysical i b s = Inr s' \<Longrightarrow> guest_inv fits s'"
    using pr_physical_bank.set_invar [of s i b s'] ok by (intro frame) (auto simp: bank_defs split: if_splits)
  show "SetBR i v s = Inr s' \<Longrightarrow> guest_inv fits s'" "SetRR i v s = Inr s' \<Longrightarrow> guest_inv fits s'"
    "SetCR i v s = Inr s' \<Longrightarrow> guest_inv fits s'" "SetITR i pa va it rv s = Inr s' \<Longrightarrow> guest_inv fits s'"
    "SetDTR i pa va it rv s = Inr s' \<Longrightarrow> guest_inv fits s'"
    using ok by (auto intro!: frame simp: bank_defs cpu_shape_set_plain split: if_splits)
qed

lemma guest_inv_SetAR:
  assumes "guest_inv fits s" "SetAR i v s = Inr s'"
  shows "guest_inv fits s'"
proof -
  have ok: "cpu_shape s" "fits \<Longrightarrow> frame_ok s" "rse_mirror s"
    using assms(1) by (simp_all add: guest_inv_def)
  have i: "i < 128"
    using ar_bank.set_lt assms(2) by blast
  obtain s1 where s1: "SetAR i v s = Inr s1" "cpu_shape s1" "cpu_ar s1 = (cpu_ar s)[i := v]"
    "cpu_cfm s1 = cpu_cfm s" "cpu_rse s1 = mirror_ar i v (cpu_rse s)"
    "cpu_itlb s1 = cpu_itlb s" "cpu_dtlb s1 = cpu_dtlb s"
    by (rule SetAR_result [OF ok(1) i, of v])
  have "rse_mirror s1"
    using ok i s1 by (auto simp: rse_mirror_def mirror_ar_def nth_list_update)
  with s1 assms Map_cong(3) [OF s1(4)] show ?thesis
    by (simp add: guest_inv_def)
qed

lemma guest_inv_SetCFM: "guest_inv fits s \<Longrightarrow> (fits \<Longrightarrow> unat (get_bits 14 4 v) \<le> 12) \<Longrightarrow> guest_inv fits (SetCFM v s)"
  by (simp add: guest_inv_def frame_ok_def GetSOR_def rse_mirror_def) (simp add: SetCFM_def)

lemma guest_inv_special:
  assumes "guest_inv fits s"
  shows "guest_inv fits (SetIP v s)" "guest_inv fits (SetPSR v s)"
proof -
  have ip: "cpu_shape (SetIP v s)" and psr: "cpu_shape (SetPSR v s)"
    using assms unfolding guest_inv_def cpu_shape_def SetIP_def SetPSR_def by simp_all
  show "guest_inv fits (SetIP v s)"
    by (rule guest_inv_frame [OF assms]) (use ip in \<open>simp_all add: SetIP_def\<close>)
  show "guest_inv fits (SetPSR v s)"
    by (rule guest_inv_frame [OF assms]) (use psr in \<open>simp_all add: SetPSR_def\<close>)
qed

lemma guest_inv_tlb:
  assumes "guest_inv fits s"
  shows "InsertITLB tte va it rv s = Inr s' \<Longrightarrow> guest_inv fits s'"
    "InsertDTLB tte va it rv s = Inr s' \<Longrightarrow> guest_inv fits s'"
    "guest_inv fits (PurgeITLB va ps rid s)" "guest_inv fits (PurgeDTLB va ps rid s)"
proof -
  have ok: "cpu_shape s" "fits \<Longrightarrow> frame_ok s" "rse_mirror s" "tlb_ok (cpu_itlb s)" "tlb_ok (cpu_dtlb s)"
    using assms by (simp_all add: guest_inv_def)
  have ne: "cpu_itlb s \<noteq> []" "cpu_dtlb s \<noteq> []"
    using cpu_shapeD(11,12) [OF ok(1)] by auto
  show "guest_inv fits s'" if ins: "InsertITLB tte va it rv s = Inr s'"
  proof -
    from ins obtain es ri where e: "insertTranslationEntry (cpu_itlb s) (cpu_itlbReplacementIndex s) tte va it rv
        = Inr (es, ri)" and s': "s' = s\<lparr>cpu_itlb := es, cpu_itlbReplacementIndex := ri\<rparr>"
      by (auto simp: InsertITLB_def and_then_eq_Inr)
    have "length es = 64 \<and> ri < 64"
      using insert_length [OF e ne(1)] ok(1) by simp
    then have "cpu_shape s'"
      using ok(1) unfolding cpu_shape_def s' by simp
    moreover have "fits \<Longrightarrow> frame_ok s'"
      using ok(2) Map_cong(3) [of s' s] by (simp add: s')
    ultimately show ?thesis
      using ok tlb_ok_insert [OF ok(4) ne(1) e] by (simp add: guest_inv_def rse_mirror_def s')
  qed
  show "guest_inv fits s'" if ins: "InsertDTLB tte va it rv s = Inr s'"
  proof -
    from ins obtain es ri where e: "insertTranslationEntry (cpu_dtlb s) (cpu_dtlbReplacementIndex s) tte va it rv
        = Inr (es, ri)" and s': "s' = s\<lparr>cpu_dtlb := es, cpu_dtlbReplacementIndex := ri\<rparr>"
      by (auto simp: InsertDTLB_def and_then_eq_Inr)
    have "length es = 64 \<and> ri < 64"
      using insert_length [OF e ne(2)] ok(1) by simp
    then have "cpu_shape s'"
      using ok(1) unfolding cpu_shape_def s' by simp
    moreover have "fits \<Longrightarrow> frame_ok s'"
      using ok(2) Map_cong(3) [of s' s] by (simp add: s')
    ultimately show ?thesis
      using ok tlb_ok_insert [OF ok(5) ne(2) e] by (simp add: guest_inv_def rse_mirror_def s')
  qed
  have len: "length (purgeTranslationEntries es va ps rid) = length es" for es
    by (simp add: purgeTranslationEntries_def)
  have "cpu_shape (PurgeITLB va ps rid s)" "cpu_shape (PurgeDTLB va ps rid s)"
    using ok(1) unfolding cpu_shape_def PurgeITLB_def PurgeDTLB_def by (simp_all add: len)
  moreover have "fits \<Longrightarrow> frame_ok (PurgeITLB va ps rid s)" "fits \<Longrightarrow> frame_ok (PurgeDTLB va ps rid s)"
    using ok(2) Map_cong(3) [of "PurgeITLB va ps rid s" s] Map_cong(3) [of "PurgeDTLB va ps rid s" s]
    by (simp_all add: PurgeITLB_def PurgeDTLB_def)
  ultimately show "guest_inv fits (PurgeITLB va ps rid s)" "guest_inv fits (PurgeDTLB va ps rid s)"
    using ok by (simp_all add: guest_inv_def rse_mirror_def)
      (simp_all add: PurgeITLB_def PurgeDTLB_def purge_ok)
qed

lemma guest_inv_rotate:
  assumes "guest_inv fits s"
  shows "guest_inv fits (RotateRegisters s)"
  using assms rotate_frame_fields(3) [of s]
  by (simp add: guest_inv_def frame_ok_def rse_mirror_def)
    (simp add: RotateRegisters_def SetCFM_def Let_def)

lemma guest_inv_loop_branch:
  assumes "guest_inv fits s" "modulo_loop_branch ex lc ec s = Inr (s', t, r)"
  shows "guest_inv fits s'"
  using assms
  by (auto simp: modulo_loop_branch_def and_then_eq_Inr split: if_splits
      dest: guest_inv_SetAR guest_inv_banks(7) intro!: guest_inv_rotate)

lemma guest_inv_stage:
  assumes "guest_inv fits s" "ExecuteModuloLoopStage ex s = Inr (r, s')"
  shows "guest_inv fits s'"
proof -
  from assms(2) obtain lc ec t rot where "modulo_loop_branch ex lc ec s = Inr (s', t, rot)"
    by (auto simp: ExecuteModuloLoopStage_def and_then_eq_Inr)
  then show ?thesis
    by (rule guest_inv_loop_branch [OF assms(1)])
qed

lemma guest_inv_frames:
  assumes "guest_inv fits s"
  shows "WriteBSPSTORE v s = Inr s' \<Longrightarrow> guest_inv fits s'"
    "AdvanceBSPForCall s = Inr s' \<Longrightarrow> guest_inv fits s'"
    "RewindBSPForReturn n s = Inr s' \<Longrightarrow> guest_inv fits s'"
    "exec_alloc dst imm s = Inr s' \<Longrightarrow> (fits \<Longrightarrow> unat (get_bits 14 4 imm) \<le> 12) \<Longrightarrow> guest_inv fits s'"
    "guest_inv fits (AdvanceITC k s)"
proof -
  show "WriteBSPSTORE v s = Inr s' \<Longrightarrow> guest_inv fits s'"
    by (auto simp: WriteBSPSTORE_def Let_def and_then_eq_Inr dest!: guest_inv_SetAR [OF assms]
        dest: guest_inv_SetAR)
  show "AdvanceBSPForCall s = Inr s' \<Longrightarrow> guest_inv fits s'"
    by (auto simp: AdvanceBSPForCall_def and_then_eq_Inr dest: guest_inv_SetAR [OF assms])
  show "RewindBSPForReturn n s = Inr s' \<Longrightarrow> guest_inv fits s'"
    by (auto simp: RewindBSPForReturn_def Let_def and_then_eq_Inr split: if_splits
        dest!: guest_inv_SetAR [OF assms] dest: guest_inv_SetAR)
  show "guest_inv fits s'" if "exec_alloc dst imm s = Inr s'" "fits \<Longrightarrow> unat (get_bits 14 4 imm) \<le> 12"
  proof (rule exec_alloc_steps [OF that(1)])
    fix v s1 s2
    assume s1: "SetGR dst v s = Inr s1" and s2: "SetAR 64 (cpu_cfm s) s1 = Inr s2"
      and s': "s' = SetCFM (get_bits 0 7 imm OR push_bit 7 (get_bits 7 7 imm) OR
        push_bit 14 (get_bits 14 4 imm)) s2"
    have "guest_inv fits s2"
      by (rule guest_inv_SetAR [OF guest_inv_banks(1) [OF assms s1] s2])
    then show ?thesis
      unfolding s' by (rule guest_inv_SetCFM) (use that(2) in \<open>simp add: alloc_cfm_fields\<close>)
  qed
  have "cpu_shape (AdvanceITC k s)"
    using assms unfolding guest_inv_def cpu_shape_def AdvanceITC_def by simp
  then show "guest_inv fits (AdvanceITC k s)"
    using assms Map_cong(3) [of "AdvanceITC k s" s]
    by (simp add: guest_inv_def rse_mirror_def) (simp add: AdvanceITC_def)
qed

lemma guest_inv_exec:
  assumes "guest_inv fits s" "op_typed op" "fits \<Longrightarrow> op_frame_fits op" "cpu_exec op s = Inr s'"
  shows "guest_inv fits s'"
  using assms(2-4)
  by (cases op)
    (auto simp: ExecuteBrCTop_def ExecuteBrCExit_def and_then_eq_Inr
      intro: guest_inv_banks [OF assms(1)] guest_inv_SetAR [OF assms(1)] guest_inv_tlb [OF assms(1)]
        guest_inv_frames [OF assms(1)] guest_inv_stage [OF assms(1)] guest_inv_SetCFM [OF assms(1)]
        guest_inv_special [OF assms(1)])

lemmas guest_ok_Reset = guest_inv_Reset [of True, unfolded guest_inv_cases]

lemma guest_ok_exec: "guest_ok s \<Longrightarrow> op_legal op \<Longrightarrow> cpu_exec op s = Inr s' \<Longrightarrow> guest_ok s'"
  using guest_inv_exec [of True s op s'] by (simp add: guest_inv_cases op_legal_iff)

lemmas guest_ok_tlb = guest_inv_tlb [of True, unfolded guest_inv_cases]

lemma reachable_sound: "cpu_reachable s \<Longrightarrow> guest_inv False s"
  by (induction rule: cpu_reachable.induct) (auto intro: guest_inv_Reset guest_inv_exec)



subsection \<open>No operation leaves its array\<close>

lemma insert_no_ub: "insertTranslationEntry es ri tte va it rv \<noteq> Inl UndefinedBehaviour"
  by (simp add: insertTranslationEntry_def Let_def)

lemma frames_no_ub:
  assumes "cpu_shape s"
  shows "AdvanceBSPForCall s \<noteq> Inl UndefinedBehaviour"
    "RewindBSPForReturn n s \<noteq> Inl UndefinedBehaviour"
    "WriteBSPSTORE v s \<noteq> Inl UndefinedBehaviour"
    "ExecuteModuloLoopStage ex s \<noteq> Inl UndefinedBehaviour"
proof -
  show "AdvanceBSPForCall s \<noteq> Inl UndefinedBehaviour"
    by (simp add: AdvanceBSP_ok SetAR_ok assms)
  show "RewindBSPForReturn n s \<noteq> Inl UndefinedBehaviour"
    by (rule RewindBSP_ok [OF assms, of n]) simp
  obtain r s' where "ExecuteModuloLoopStage ex s = Inr (r, s')"
    by (rule stage_step [OF assms, of ex]) (rule that)
  then show "ExecuteModuloLoopStage ex s \<noteq> Inl UndefinedBehaviour" by simp
  obtain s1 where "SetAR 18 (v AND NOT 7) s = Inr s1" "cpu_shape s1"
    by (rule SetAR_result [OF assms, of 18 "v AND NOT 7"]) simp_all
  then show "WriteBSPSTORE v s \<noteq> Inl UndefinedBehaviour"
    using assms by (simp add: WriteBSPSTORE_def GetAR_ok Let_def SetAR_ok)
qed

lemma alloc_no_ub:
  assumes "cpu_shape s" "frame_ok s"
  shows "exec_alloc dst imm s \<noteq> Inl UndefinedBehaviour"
proof -
  have gr: "SetGR dst v s = Inl OutOfRange \<or> (\<exists>s1. SetGR dst v s = Inr s1 \<and> cpu_shape s1)" for v
    using gr_bank.set_in [of s dst v] gr_bank.set_out [of dst v s] assms
    by (cases "dst < 128") auto
  have "and_then (SetGR dst v s) (\<lambda>s1. and_then (SetAR 64 c s1) (\<lambda>s2. Inr (f s2)))
      \<noteq> Inl UndefinedBehaviour" for v c and f :: "cpu_state \<Rightarrow> cpu_state"
    using gr [of v] SetAR_ok [of _ 64 c] by auto
  then show ?thesis
    using assms(1) by (simp add: exec_alloc_def Let_def GetAR_ok)
qed

lemma exec_no_ub:
  assumes "guest_ok s" "op_typed op"
  shows "cpu_exec op s \<noteq> Inl UndefinedBehaviour"
proof -
  have ok: "cpu_shape s" "frame_ok s"
    using assms(1) by (simp_all add: guest_ok_def)
  note sets = gr_bank.set_no_ub gr_nat_bank.set_no_ub gr_physical_bank.set_no_ub
    gr_nat_physical_bank.set_no_ub fr_bank.set_no_ub fr_physical_bank.set_no_ub pr_bank.set_no_ub
    pr_unrotated_bank.set_no_ub pr_physical_bank.set_no_ub br_bank.set_no_ub rr_bank.set_no_ub
    cr_bank.set_no_ub ar_bank.set_no_ub
  have tr: "SetITR i pa va it rv s \<noteq> Inl UndefinedBehaviour" "SetDTR i pa va it rv s \<noteq> Inl UndefinedBehaviour"
    for i pa va it rv
    using ok by (simp_all add: SetITR_def SetDTR_def)
  have tlb: "InsertITLB tte va it rv s \<noteq> Inl UndefinedBehaviour"
    "InsertDTLB tte va it rv s \<noteq> Inl UndefinedBehaviour" for tte va it rv
    using insert_no_ub [of "cpu_itlb s" "cpu_itlbReplacementIndex s" tte va it rv]
      insert_no_ub [of "cpu_dtlb s" "cpu_dtlbReplacementIndex s" tte va it rv]
    by (auto simp: InsertITLB_def InsertDTLB_def and_then_def split: sum.splits)
  have loops: "and_then (ExecuteBrCTop s) (\<lambda>(r, s'). Inr s') \<noteq> Inl UndefinedBehaviour"
    "and_then (ExecuteBrCExit s) (\<lambda>(r, s'). Inr s') \<noteq> Inl UndefinedBehaviour"
    using frames_no_ub(4) [OF ok(1), of False] frames_no_ub(4) [OF ok(1), of True]
    by (auto simp: ExecuteBrCTop_def ExecuteBrCExit_def and_then_def split: sum.splits)
  show ?thesis
    using assms(2)
    by (cases op)
      (simp_all add: sets ok tr tlb loops frames_no_ub [OF ok(1)] alloc_no_ub [OF ok])
qed

text \<open>C1: on a processor reached from reset by any operations, through whatever frames, no operation and no read
  indexes outside the register arrays as long as the current frame's rotating region fits the register file
  (\<open>sor\<close> at most 12): the answer is a value or the documented \<open>out_of_range\<close>, whatever the index and whatever
  the rotation bases. Without the condition on \<open>sor\<close>, which the source does not enforce, C40 shows a read past
  the array.\<close>

theorem reachable_memory_safe:
  assumes "cpu_reachable s" "op_typed op" "GetSOR s \<le> 12"
  shows "cpu_exec op s \<noteq> Inl UndefinedBehaviour \<and> GetGR s i \<noteq> Inl UndefinedBehaviour \<and>
     GetGRNaT s i \<noteq> Inl UndefinedBehaviour \<and> GetFR s i \<noteq> Inl UndefinedBehaviour \<and>
     GetPR s i \<noteq> Inl UndefinedBehaviour \<and> GetAR s i \<noteq> Inl UndefinedBehaviour"
proof -
  have "guest_ok s"
    using reachable_sound [OF assms(1)] assms(3) by (simp add: guest_inv_def guest_ok_def frame_ok_def)
  then show ?thesis
    using exec_no_ub [OF _ assms(2)]
    by (simp add: guest_ok_def gr_bank.get_no_ub gr_nat_bank.get_no_ub fr_bank.get_no_ub
      pr_bank.get_no_ub ar_bank.get_no_ub)
qed

lemma reachable_memory_safe_witness:
  "cpu_exec (OpAlloc 5 (push_bit 14 15)) Reset \<noteq> Inl UndefinedBehaviour \<and> GetGR Reset 127 \<noteq> Inl UndefinedBehaviour"
  using reachable_memory_safe [OF cpu_reachable.init, of "OpAlloc 5 (push_bit 14 15)" 127]
  by (simp add: GetSOR_def Reset_def get_bits_def)

end
