(* ===== verification/Execute.thy ===== *)
theory Execute
  imports Float_Arith Cpu_Guest
begin

text \<open>
  \<open>InstructionEx::Execute\<close> of \<open>src/src/decoder/decoder.cpp\<close>: one function per section of its switch,
  composed by \<open>Execute\<close>, which first checks the qualifying predicate. The reads of one statement
  come before its writes, in the order the code has them; a write that happened before an exception
  stays. The diagnostics of \<open>ALLOC\<close> are left out. A little-endian host is assumed where the code
  reinterprets an integer as bytes.
\<close>

subsection \<open>Moves\<close>

text \<open>The loops of \<open>MOV_FROM_PR\<close>, \<open>MOV_TO_PR\<close> and \<open>MOV_TO_PR_ROT\<close>, over the predicates still to visit.\<close>

fun collect_predicates :: "nat list \<Rightarrow> u64 \<Rightarrow> cpu_state \<Rightarrow> cpp_error + u64" where
  "collect_predicates [] value s = Inr value"
| "collect_predicates (i # is) value s =
     and_then (GetPRUnrotated s i) (\<lambda>p.
       collect_predicates is (if p then value OR push_bit i 1 else value) s)"

fun spread_predicates :: "u64 \<Rightarrow> u64 \<Rightarrow> nat list \<Rightarrow> cpu_state \<Rightarrow> cpp_error + cpu_state" where
  "spread_predicates m value [] s = Inr s"
| "spread_predicates m value (i # is) s =
     (if drop_bit i m AND 1 \<noteq> 0
      then and_then (SetPRUnrotated i (drop_bit i value AND 1 \<noteq> 0) s) (spread_predicates m value is)
      else spread_predicates m value is s)"

definition region_of :: "u64 \<Rightarrow> nat" where
  "region_of va = unat (drop_bit 61 va AND 7)"

definition exec_insert_tr :: "bool \<Rightarrow> instruction \<Rightarrow> unit exec" where
  "exec_insert_tr instruction_side i =
     bind (cr 20) (\<lambda>virtualAddress.
     bind (rr (region_of virtualAddress)) (\<lambda>regionValue.
     bind (gr (in_dst i)) (\<lambda>d.
     bind (gr (in_src1 i)) (\<lambda>physicalAddress.
     bind (cr 21) (\<lambda>itir.
       let selector = unat (d AND 0xFF) in
       if instruction_side
       then to_cpu (SetITR selector physicalAddress virtualAddress itir regionValue)
       else to_cpu (SetDTR selector physicalAddress virtualAddress itir regionValue))))))"

definition exec_insert_tc :: "bool \<Rightarrow> instruction \<Rightarrow> unit exec" where
  "exec_insert_tc instruction_side i =
     bind (cr 20) (\<lambda>virtualAddress.
     bind (rr (region_of virtualAddress)) (\<lambda>regionValue.
     bind (gr (in_src1 i)) (\<lambda>tte.
     bind (cr 21) (\<lambda>itir.
       if instruction_side
       then to_cpu (InsertITLB tte virtualAddress itir regionValue)
       else to_cpu (InsertDTLB tte virtualAddress itir regionValue)))))"

definition exec_purge :: "instruction \<Rightarrow> unit exec" where
  "exec_purge i =
     bind (gr (in_src1 i)) (\<lambda>virtualAddress.
     bind (gr (in_src2 i)) (\<lambda>size_field.
     bind (rr (region_of virtualAddress)) (\<lambda>region.
       let pageShift = unat (drop_bit 2 size_field AND 0x3F);
           rid = drop_bit 8 region AND 0xFFFFFF
       in next_step (to_cpu (\<lambda>s. Inr (PurgeITLB virtualAddress pageShift rid s)))
            (to_cpu (\<lambda>s. Inr (PurgeDTLB virtualAddress pageShift rid s))))))"

definition exec_thash :: "instruction \<Rightarrow> unit exec" where
  "exec_thash i =
     bind (gr (in_src1 i)) (\<lambda>va.
     bind (\<lambda>(s, m). Some (ComputeIA64ShortVhptAddress s va, s, m)) (\<lambda>hash.
       set_gr (in_dst i) hash))"

fun exec_move :: "move_type \<Rightarrow> instruction \<Rightarrow> unit exec" where
  "exec_move MOV_GR i = bind (gr (in_src1 i)) (\<lambda>v. set_gr (in_dst i) v)"
| "exec_move MOV_FROM_BR i = bind (from_cpu (\<lambda>s. GetBR s (unat (in_src1 i)))) (\<lambda>v. set_gr (in_dst i) v)"
| "exec_move MOV_TO_BR i = bind (gr (in_src1 i)) (\<lambda>v. to_cpu (SetBR (unat (in_dst i)) v))"
| "exec_move MOV_FROM_AR i = bind (ar (unat (in_src1 i))) (\<lambda>v. set_gr (in_dst i) v)"
| "exec_move MOV_FROM_PSR i = bind psr (\<lambda>v. set_gr (in_dst i) v)"
| "exec_move MOV_TO_PSR i = bind psr (\<lambda>p. bind (gr (in_src1 i)) (\<lambda>v.
     set_psr ((p AND NOT 0xFFFFFFFF) OR (v AND 0xFFFFFFFF))))"
| "exec_move MOV_FROM_CPUID i = bind (gr (in_src1 i)) (\<lambda>v.
     bind (from_cpu (\<lambda>s. GetCPUID s (unat (v AND 0xFF)))) (\<lambda>c. set_gr (in_dst i) c))"
| "exec_move MOV_TO_AR i =
     bind (if in_hasImmediate i then ret (in_immediate i) else gr (in_src1 i)) (\<lambda>value.
       if in_dst i = 18 then to_cpu (WriteBSPSTORE value) else to_cpu (SetAR (unat (in_dst i)) value))"
| "exec_move MOV_FROM_RR i = bind (gr (in_src1 i)) (\<lambda>v. bind (rr (region_of v)) (\<lambda>r. set_gr (in_dst i) r))"
| "exec_move MOV_TO_RR i = bind (gr (in_dst i)) (\<lambda>d. bind (gr (in_src1 i)) (\<lambda>v. to_cpu (SetRR (region_of d) v)))"
| "exec_move MOV_FROM_CR i = bind (cr (unat (in_src1 i))) (\<lambda>v. set_gr (in_dst i) v)"
| "exec_move MOV_TO_CR i = bind (gr (in_src1 i)) (\<lambda>v. to_cpu (SetCR (unat (in_dst i)) v))"
| "exec_move MOV_TO_PMC i = ret ()"
| "exec_move MOV_FROM_PMC i = set_gr (in_dst i) 0"
| "exec_move ITR_I i = exec_insert_tr True i"
| "exec_move ITR_D i = exec_insert_tr False i"
| "exec_move ITC_I i = exec_insert_tc True i"
| "exec_move ITC_D i = exec_insert_tc False i"
| "exec_move THASH i = exec_thash i"
| "exec_move PTC_L i = exec_purge i"
| "exec_move GETF_SIG i = bind (fr (in_src1 i)) (\<lambda>f. set_gr (in_dst i) (ReadLittleEndian64 f))"
| "exec_move GETF_EXP i = bind (fr (in_src1 i)) (\<lambda>f.
     let signAndExponent = ReadLittleEndian64 (drop 8 f);
         exponent = signAndExponent AND 0x1FFFF;
         sign = drop_bit 17 signAndExponent AND 1
     in next_step (set_gr (in_dst i) (exponent OR push_bit 17 sign)) (set_gr_nat (in_dst i) (IsNatVal f)))"
| "exec_move SETF_SIG i = bind (gr_nat (in_src1 i)) (\<lambda>nat_bit.
     if nat_bit then set_fr (in_dst i) NatVal_image
     else bind (gr (in_src1 i)) (\<lambda>v. set_fr (in_dst i) (fr_image v 0x1003E)))"
| "exec_move MOV_FROM_PR i = bind (from_cpu (collect_predicates [1..<64] 1)) (\<lambda>v. set_gr (in_dst i) v)"
| "exec_move MOV_FROM_IP i = bind (from_cpu (\<lambda>s. Inr (architecturalInstructionPointer s))) (\<lambda>v. set_gr (in_dst i) v)"
| "exec_move MOV_TO_PR i = bind (gr (in_src1 i)) (\<lambda>value.
     to_cpu (spread_predicates (if in_hasImmediate i then in_immediate i else NOT 0) value [1..<64]))"
| "exec_move MOV_TO_PR_ROT i = to_cpu (spread_predicates (NOT 0) (in_immediate i) [16..<64])"
| "exec_move MOV_IMM i = (if in_hasImmediate i then set_gr (in_dst i) (in_immediate i) else ret ())"
| "exec_move MOVL i = (if in_hasImmediate i then set_gr (in_dst i) (in_immediate i) else ret ())"

subsection \<open>Arithmetic and logic\<close>

text \<open>\<open>rDst = f(rSrc1, rSrc2)\<close>, and \<open>rDst = f(imm, r)\<close> when there is an immediate.\<close>

definition binary :: "(u64 \<Rightarrow> u64 \<Rightarrow> u64) \<Rightarrow> instruction \<Rightarrow> unit exec" where
  "binary f i = bind (gr (in_src1 i)) (\<lambda>a. bind (gr (in_src2 i)) (\<lambda>b. set_gr (in_dst i) (f a b)))"

definition unary :: "(u64 \<Rightarrow> u64) \<Rightarrow> instruction \<Rightarrow> unit exec" where
  "unary f i = bind (gr (in_src1 i)) (\<lambda>a. set_gr (in_dst i) (f a))"

definition imm_with :: "u8 \<Rightarrow> (u64 \<Rightarrow> u64 \<Rightarrow> u64) \<Rightarrow> instruction \<Rightarrow> unit exec" where
  "imm_with src f i =
     (if in_hasImmediate i then bind (gr src) (\<lambda>a. set_gr (in_dst i) (f (in_immediate i) a)) else ret ())"

fun exec_arith :: "arith_type \<Rightarrow> instruction \<Rightarrow> unit exec" where
  "exec_arith ADD i = binary (+) i"
| "exec_arith ADD_P1 i = binary (\<lambda>a b. a + b + 1) i"
| "exec_arith ADD_IMM i = imm_with (in_src1 i) (\<lambda>imm a. a + imm) i"
| "exec_arith ADDL i = imm_with (in_src1 i) (\<lambda>imm a. a + imm) i"
| "exec_arith SUB i = binary (-) i"
| "exec_arith SUB_M1 i = binary (\<lambda>a b. a - b - 1) i"
| "exec_arith SUB_IMM i = imm_with (in_src2 i) (-) i"
| "exec_arith ADDP4 i =
     (if in_hasImmediate i
      then bind (gr (in_src1 i)) (\<lambda>base. bind (gr_nat (in_src1 i)) (\<lambda>n.
        ExecuteAddp4 (in_dst i) (in_immediate i) False base n))
      else bind (gr (in_src1 i)) (\<lambda>a. bind (gr_nat (in_src1 i)) (\<lambda>an.
        bind (gr (in_src2 i)) (\<lambda>b. bind (gr_nat (in_src2 i)) (\<lambda>bn.
        ExecuteAddp4 (in_dst i) a an b bn)))))"

fun exec_logic :: "logic_type \<Rightarrow> instruction \<Rightarrow> unit exec" where
  "exec_logic AND_GR i = binary (AND) i"
| "exec_logic AND_IMM i = imm_with (in_src2 i) (AND) i"
| "exec_logic OR_GR i = binary (OR) i"
| "exec_logic OR_IMM i = imm_with (in_src2 i) (OR) i"
| "exec_logic XOR_GR i = binary (XOR) i"
| "exec_logic XOR_IMM i = imm_with (in_src2 i) (XOR) i"
| "exec_logic ANDCM i = binary (\<lambda>a b. a AND NOT b) i"
| "exec_logic ANDCM_IMM i = imm_with (in_src2 i) (\<lambda>imm b. imm AND NOT b) i"

subsection \<open>Shifts, byte permutations, bit fields\<close>

definition popcount :: "u64 \<Rightarrow> u64" where
  "popcount w = of_nat (length (filter (bit w) [0..<64]))"

definition mux1_table :: "u64 \<Rightarrow> nat list option" where
  "mux1_table selector =
     (if selector = 8 then Some [0, 4, 2, 6, 1, 5, 3, 7]
      else if selector = 9 then Some [0, 4, 1, 5, 2, 6, 3, 7]
      else if selector = 0xA then Some [0, 2, 4, 6, 1, 3, 5, 7]
      else if selector = 0xB then Some [7, 6, 5, 4, 3, 2, 1, 0]
      else None)"

definition mux1 :: "u64 \<Rightarrow> u64 \<Rightarrow> u64" where
  "mux1 selector source =
     (let bytes = le_bytes 8 source in
      le_value (case mux1_table (selector AND 0xF) of
          None \<Rightarrow> replicate 8 (bytes ! 0)
        | Some table \<Rightarrow> map ((!) bytes) table))"

text \<open>The search loop of \<open>CZX1_R\<close>, over the byte indices still to look at.\<close>

fun first_zero_byte :: "u64 \<Rightarrow> nat list \<Rightarrow> u64" where
  "first_zero_byte source [] = 8"
| "first_zero_byte source (i # is) =
     (if drop_bit (i * 8) source AND 0xFF = 0 then of_nat i else first_zero_byte source is)"

fun exec_shift :: "shift_type \<Rightarrow> instruction \<Rightarrow> unit exec" where
  "exec_shift SHL i =
     bind (if in_hasImmediate i then ret (in_immediate i) else gr (in_src2 i)) (\<lambda>c.
     bind (gr (in_src1 i)) (\<lambda>a.
       next_step (set_gr (in_dst i) (push_bit (unat (c AND 0x3F)) a))
         (bind (gr_nat (in_src1 i)) (\<lambda>n1.
            if n1 then set_gr_nat (in_dst i) True
            else if in_hasImmediate i then set_gr_nat (in_dst i) False
            else bind (gr_nat (in_src2 i)) (\<lambda>n2. set_gr_nat (in_dst i) n2)))))"
| "exec_shift SHR i = binary (\<lambda>a b. drop_bit (unat (b AND 0x3F)) a) i"
| "exec_shift SHRA i = binary (\<lambda>a b. signed_drop_bit (unat (b AND 0x3F)) a) i"
| "exec_shift POPCNT i = unary popcount i"
| "exec_shift MUX1 i = bind (gr (in_src1 i)) (\<lambda>source.
     next_step (set_gr (in_dst i) (mux1 (in_immediate i) source))
       (bind (gr_nat (in_src1 i)) (\<lambda>n. set_gr_nat (in_dst i) n)))"
| "exec_shift CZX1_R i = bind (gr (in_src1 i)) (\<lambda>source.
     next_step (set_gr (in_dst i) (first_zero_byte source [0..<8]))
       (bind (gr_nat (in_src1 i)) (\<lambda>n. set_gr_nat (in_dst i) n)))"
| "exec_shift SHRP i =
     (if in_hasImmediate i then
        bind (gr (in_src2 i)) (\<lambda>low. bind (gr (in_src1 i)) (\<lambda>high.
          let count = unat (in_immediate i AND 0x3F);
              value = (if count = 0 then low else drop_bit count low OR push_bit (64 - count) high)
          in next_step (set_gr (in_dst i) value)
            (bind (gr_nat (in_src1 i)) (\<lambda>n1.
               if n1 then set_gr_nat (in_dst i) True
               else bind (gr_nat (in_src2 i)) (\<lambda>n2. set_gr_nat (in_dst i) n2)))))
      else ret ())"
| "exec_shift SHLADD i =
     (if in_hasImmediate i
      then binary (\<lambda>a b. push_bit (unat (in_immediate i AND 0x3F)) a + b) i else ret ())"

text \<open>Position, length and mask of a field, from the packed immediate.\<close>

definition field_pos :: "u64 \<Rightarrow> nat" where
  "field_pos imm = unat (imm AND 0x3F)"

definition field_len :: "u64 \<Rightarrow> nat" where
  "field_len imm = unat (drop_bit 6 imm AND 0x3F) + 1"

definition field_mask :: "nat \<Rightarrow> u64" where
  "field_mask len = (if len \<ge> 64 then NOT 0 else push_bit len 1 - 1)"

definition extr_value :: "u64 \<Rightarrow> u64 \<Rightarrow> u64" where
  "extr_value imm src = drop_bit (field_pos imm) src AND field_mask (field_len imm)"

definition dep_value :: "u64 \<Rightarrow> u64 \<Rightarrow> u64 \<Rightarrow> u64" where
  "dep_value imm src dest_val =
     (let m = push_bit (field_pos imm) (field_mask (field_len imm))
      in (dest_val AND NOT m) OR (push_bit (field_pos imm) src AND m))"

definition dep_z_value :: "u64 \<Rightarrow> u64 \<Rightarrow> u64" where
  "dep_z_value imm src = push_bit (field_pos imm) src AND push_bit (field_pos imm) (field_mask (field_len imm))"

fun exec_field :: "field_type \<Rightarrow> instruction \<Rightarrow> unit exec" where
  "exec_field EXTR i = imm_with (in_src1 i) extr_value i"
| "exec_field DEP i =
     (if in_hasImmediate i then
        bind (gr (in_src2 i)) (\<lambda>dest_val.
        bind (if drop_bit 12 (in_immediate i) AND 1 \<noteq> 0
              then ret (if drop_bit 13 (in_immediate i) AND 1 \<noteq> 0 then NOT 0 else 0)
              else gr (in_src1 i)) (\<lambda>src_val.
          set_gr (in_dst i) (dep_value (in_immediate i) src_val dest_val)))
      else ret ())"
| "exec_field DEP_Z i = imm_with (in_src1 i) dep_z_value i"
| "exec_field ZXT1 i = unary (\<lambda>a. a AND 0xFF) i"
| "exec_field ZXT2 i = unary (\<lambda>a. a AND 0xFFFF) i"
| "exec_field ZXT4 i = unary (\<lambda>a. a AND 0xFFFFFFFF) i"
| "exec_field SXT1 i = unary (\<lambda>a. SignExtend (a AND 0xFF) 8) i"
| "exec_field SXT2 i = unary (\<lambda>a. SignExtend (a AND 0xFFFF) 16) i"
| "exec_field SXT4 i = unary (\<lambda>a. SignExtend (a AND 0xFFFFFFFF) 32) i"

subsection \<open>Tests and compares\<close>

definition set_predicates :: "instruction \<Rightarrow> bool \<Rightarrow> bool \<Rightarrow> unit exec" where
  "set_predicates i p1 p2 = next_step (set_pr (in_dst i) p1) (set_pr (in_src3 i) p2)"

definition writeComparePredicates :: "instruction \<Rightarrow> bool \<Rightarrow> unit exec" where
  "writeComparePredicates i result =
     (case in_compareCompleter i of
        NORMAL \<Rightarrow> set_predicates i result (\<not> result)
      | UNC \<Rightarrow> set_predicates i result (\<not> result)
      | AND_COMPLETER \<Rightarrow> if \<not> result then set_predicates i False False else ret ()
      | OR_COMPLETER \<Rightarrow> if result then set_predicates i True True else ret ()
      | OR_ANDCM \<Rightarrow> if result then set_predicates i True False else ret ())"

definition exec_tbit :: "bool \<Rightarrow> instruction \<Rightarrow> unit exec" where
  "exec_tbit zero i =
     (if in_hasImmediate i then
        bind (gr (in_src1 i)) (\<lambda>v.
          let b = drop_bit (unat (in_immediate i AND 0x3F)) v AND 1;
              condition = (if zero then b = 0 else b \<noteq> 0)
          in if in_compareCompleter i = OR_ANDCM then writeComparePredicates i condition
             else set_predicates i condition (\<not> condition))
      else ret ())"

definition exec_tnat :: "bool \<Rightarrow> instruction \<Rightarrow> unit exec" where
  "exec_tnat zero i =
     bind (gr_nat (in_src1 i)) (\<lambda>n.
       let condition = (if zero then \<not> n else n) in
       if in_compareCompleter i = NORMAL \<or> in_compareCompleter i = UNC
       then set_predicates i condition (\<not> condition)
       else writeComparePredicates i condition)"

fun exec_test :: "test_type \<Rightarrow> instruction \<Rightarrow> unit exec" where
  "exec_test TBIT_Z i = exec_tbit True i"
| "exec_test TBIT_NZ i = exec_tbit False i"
| "exec_test TNAT_Z i = exec_tnat True i"
| "exec_test TNAT_NZ i = exec_tnat False i"

text \<open>The relation of each compare: the 64-bit ones on the words, the 32-bit ones on their low halves.\<close>

definition low32 :: "u64 \<Rightarrow> u32" where
  "low32 v = ucast v"

fun compare_result :: "compare_type \<Rightarrow> u64 \<Rightarrow> u64 \<Rightarrow> bool" where
  "compare_result CMP_EQ a b \<longleftrightarrow> a = b"
| "compare_result CMP_NE a b \<longleftrightarrow> a \<noteq> b"
| "compare_result CMP_LT a b \<longleftrightarrow> sint a < sint b"
| "compare_result CMP_LE a b \<longleftrightarrow> sint a \<le> sint b"
| "compare_result CMP_GT a b \<longleftrightarrow> sint a > sint b"
| "compare_result CMP_GE a b \<longleftrightarrow> sint a \<ge> sint b"
| "compare_result CMP_LTU a b \<longleftrightarrow> a < b"
| "compare_result CMP_LEU a b \<longleftrightarrow> a \<le> b"
| "compare_result CMP_GTU a b \<longleftrightarrow> a > b"
| "compare_result CMP_GEU a b \<longleftrightarrow> a \<ge> b"
| "compare_result CMP4_EQ a b \<longleftrightarrow> low32 a = low32 b"
| "compare_result CMP4_NE a b \<longleftrightarrow> low32 a \<noteq> low32 b"
| "compare_result CMP4_LT a b \<longleftrightarrow> sint (low32 a) < sint (low32 b)"
| "compare_result CMP4_LE a b \<longleftrightarrow> sint (low32 a) \<le> sint (low32 b)"
| "compare_result CMP4_GT a b \<longleftrightarrow> sint (low32 a) > sint (low32 b)"
| "compare_result CMP4_GE a b \<longleftrightarrow> sint (low32 a) \<ge> sint (low32 b)"
| "compare_result CMP4_LTU a b \<longleftrightarrow> low32 a < low32 b"
| "compare_result CMP4_LEU a b \<longleftrightarrow> low32 a \<le> low32 b"
| "compare_result CMP4_GTU a b \<longleftrightarrow> low32 a > low32 b"
| "compare_result CMP4_GEU a b \<longleftrightarrow> low32 a \<ge> low32 b"

definition exec_compare :: "compare_type \<Rightarrow> instruction \<Rightarrow> unit exec" where
  "exec_compare c i =
     bind (if in_hasImmediate i then ret (in_immediate i) else gr (in_src1 i)) (\<lambda>lhs.
     bind (gr (in_src2 i)) (\<lambda>rhs.
       writeComparePredicates i (compare_result c lhs rhs)))"

subsection \<open>Memory\<close>

definition exec_load :: "nat \<Rightarrow> instruction \<Rightarrow> unit exec" where
  "exec_load n i =
     bind (gr (in_src1 i)) (\<lambda>baseAddress.
     bind (readIa64Data baseAddress n) (\<lambda>value.
     next_step (set_gr (in_dst i) (le_value value))
       (if in_hasImmediate i then set_gr (in_src1 i) (baseAddress + in_immediate i)
        else if in_src2 i \<noteq> 0
        then bind (gr (in_src2 i)) (\<lambda>increment. set_gr (in_src1 i) (baseAddress + increment))
        else ret ())))"

definition exec_store :: "nat \<Rightarrow> instruction \<Rightarrow> unit exec" where
  "exec_store n i =
     bind (gr (in_dst i)) (\<lambda>baseAddress.
     bind (gr (in_src1 i)) (\<lambda>value.
     next_step (writeIa64Data baseAddress (le_bytes n value))
       (if in_hasImmediate i then set_gr (in_dst i) (baseAddress + in_immediate i) else ret ())))"

definition finish_atomic :: "instruction \<Rightarrow> u64 \<Rightarrow> unit exec" where
  "finish_atomic i oldValue = next_step (set_gr (in_dst i) oldValue) (set_gr_nat (in_dst i) False)"

definition exec_cmpxchg :: "nat \<Rightarrow> instruction \<Rightarrow> unit exec" where
  "exec_cmpxchg n i =
     bind (gr (in_src1 i)) (\<lambda>address.
     bind (readIa64Data address n) (\<lambda>old.
     bind (ar 32) (\<lambda>ccv.
       let oldValue = le_value old :: u64 in
       next_step
         (if oldValue = take_bit (8 * n) ccv
          then bind (gr (in_src2 i)) (\<lambda>newValue. writeIa64Data address (le_bytes n newValue))
          else ret ())
         (finish_atomic i oldValue))))"

definition exec_xchg4 :: "instruction \<Rightarrow> unit exec" where
  "exec_xchg4 i =
     bind (gr (in_src1 i)) (\<lambda>address.
     bind (readIa64Data address 4) (\<lambda>old.
     bind (gr (in_src2 i)) (\<lambda>newValue.
     next_step (writeIa64Data address (le_bytes 4 newValue))
       (finish_atomic i (le_value old)))))"

definition exec_fetchadd4 :: "instruction \<Rightarrow> unit exec" where
  "exec_fetchadd4 i =
     bind (gr (in_src1 i)) (\<lambda>address.
     bind (readIa64Data address 4) (\<lambda>old.
       let oldValue = le_value old :: u32;
           newValue = oldValue + ucast (in_immediate i)
       in next_step (writeIa64Data address (le_bytes 4 newValue))
            (finish_atomic i (ucast oldValue))))"

definition exec_lfetch :: "instruction \<Rightarrow> unit exec" where
  "exec_lfetch i =
     next_step
       (if in_lfetchFault i
        then bind (gr (in_src1 i)) (\<lambda>address. bind (readIa64Data address 1) (\<lambda>_. ret ())) else ret ())
       (if in_registerUpdate i
        then bind (gr (in_src1 i)) (\<lambda>baseAddress.
          bind (if in_hasImmediate i then ret (in_immediate i) else gr (in_src2 i)) (\<lambda>increment.
            set_gr (in_src1 i) (baseAddress + increment)))
        else ret ())"

definition exec_fc :: "instruction \<Rightarrow> unit exec" where
  "exec_fc i =
     bind (gr (in_src1 i)) (\<lambda>address.
     bind (translateIa64KernelDataAddress address ACC_READ False) (\<lambda>translatedAddress.
     bind (\<lambda>(s, m). Some (case TranslateAddress (mem_mmu m) translatedAddress of
              Inl e \<Rightarrow> Inl (Other e) | Inr _ \<Rightarrow> Inr (), s, m)) (\<lambda>_.
     bind psr (\<lambda>p.
       if drop_bit 32 p AND 3 \<noteq> 0
       then (\<lambda>(s, m). Some (case CheckPermissionOrThrow (mem_mmu m) translatedAddress ACC_READ of
              Inl e \<Rightarrow> Inl (Other e) | Inr _ \<Rightarrow> Inr (), s, m))
       else ret ()))))"

definition exec_tpa :: "instruction \<Rightarrow> unit exec" where
  "exec_tpa i =
     bind (gr (in_src1 i)) (\<lambda>address.
     bind (translateIa64KernelDataAddress address ACC_READ True) (\<lambda>physical.
       next_step (set_gr (in_dst i) physical) (set_gr_nat (in_dst i) False)))"

definition kPsrSystemMask :: u64 where
  "kPsrSystemMask = 0xFFFFFF"

fun exec_memory :: "memory_type \<Rightarrow> instruction \<Rightarrow> unit exec" where
  "exec_memory LD1 i = exec_load 1 i"
| "exec_memory LD1_S i = exec_load 1 i"
| "exec_memory LD2 i = exec_load 2 i"
| "exec_memory LD2_S i = exec_load 2 i"
| "exec_memory LD4 i = exec_load 4 i"
| "exec_memory LD4_S i = exec_load 4 i"
| "exec_memory LD8 i = exec_load 8 i"
| "exec_memory LD8_S i = exec_load 8 i"
| "exec_memory LFETCH i = exec_lfetch i"
| "exec_memory CMPXCHG4_ACQ i = exec_cmpxchg 4 i"
| "exec_memory CMPXCHG4_REL i = exec_cmpxchg 4 i"
| "exec_memory CMPXCHG8_ACQ i = exec_cmpxchg 8 i"
| "exec_memory CMPXCHG8_REL i = exec_cmpxchg 8 i"
| "exec_memory XCHG4 i = exec_xchg4 i"
| "exec_memory FETCHADD4_ACQ i = exec_fetchadd4 i"
| "exec_memory FETCHADD4_REL i = exec_fetchadd4 i"
| "exec_memory ST1 i = exec_store 1 i"
| "exec_memory ST2 i = exec_store 2 i"
| "exec_memory ST4 i = exec_store 4 i"
| "exec_memory ST8 i = exec_store 8 i"
| "exec_memory CHK_A_NC i = ret ()"
| "exec_memory CHK_A_CLR i = ret ()"
| "exec_memory INVALA i = ret ()"
| "exec_memory FC i = exec_fc i"
| "exec_memory TPA i = exec_tpa i"
| "exec_memory SYNC_I i = ret ()"
| "exec_memory SRLZ_I i = ret ()"
| "exec_memory SRLZ_D i = ret ()"
| "exec_memory MF i = ret ()"
| "exec_memory MF_A i = ret ()"
| "exec_memory SSM i = bind psr (\<lambda>p.
     set_psr ((p AND NOT kPsrSystemMask) OR ((p AND kPsrSystemMask) OR (in_immediate i AND kPsrSystemMask))))"
| "exec_memory RSM i = bind psr (\<lambda>p.
     set_psr ((p AND NOT kPsrSystemMask) OR ((p AND kPsrSystemMask) AND NOT (in_immediate i AND kPsrSystemMask))))"
| "exec_memory RFI i = bind (cr 16) (\<lambda>ipsr. next_step (set_psr ipsr)
     (bind (cr 19) (\<lambda>iip. to_cpu (\<lambda>s. Inr (SetIP (iip AND NOT 0xF) s)))))"
| "exec_memory FLUSHRS i = bind (ar 17) (\<lambda>bsp. to_cpu (SetAR 18 bsp))"
| "exec_memory LOADRS i = ret ()"

definition exec_spill :: "spill_type \<Rightarrow> instruction \<Rightarrow> unit exec" where
  "exec_spill t i =
     (case t of
        LDF_FILL \<Rightarrow>
          bind (gr (in_src1 i)) (\<lambda>baseAddress.
          bind (readIa64Data baseAddress 16) (\<lambda>image.
          next_step (set_fr (in_dst i) image)
            (if in_hasImmediate i then set_gr (in_src1 i) (baseAddress + in_immediate i) else ret ())))
      | STF8 \<Rightarrow>
          bind (gr (in_dst i)) (\<lambda>baseAddress.
          bind (fr (in_src1 i)) (\<lambda>image.
            if IsNatVal image then throw RuntimeError
            else next_step (writeIa64Data baseAddress (take 8 image))
              (if in_hasImmediate i then set_gr (in_dst i) (baseAddress + in_immediate i) else ret ())))
      | STF_SPILL \<Rightarrow>
          bind (gr (in_dst i)) (\<lambda>baseAddress.
          bind (fr (in_src1 i)) (\<lambda>image.
          next_step (writeIa64Data baseAddress image)
            (if in_hasImmediate i then set_gr (in_dst i) (baseAddress + in_immediate i) else ret ()))))"

subsection \<open>Floating point, branches, frames\<close>

definition exec_xma :: "float_type \<Rightarrow> instruction \<Rightarrow> unit exec" where
  "exec_xma t i =
     bind (fr (in_src3 i)) (\<lambda>fr2. bind (fr (in_src1 i)) (\<lambda>fr3. bind (fr (in_src2 i)) (\<lambda>fr4.
       if IsNatVal fr2 \<or> IsNatVal fr3 \<or> IsNatVal fr4 then set_fr (in_dst i) NatVal_image
       else
         let addend = ReadLittleEndian64 fr2; left = ReadLittleEndian64 fr3; right = ReadLittleEndian64 fr4;
             high = (t \<noteq> XMA);
             product = AddUInt128 (if t = XMA_HU then MultiplyUnsigned64 left right
                                   else MultiplySigned64 left right) addend
         in set_fr (in_dst i) (fr_image (if high then u128_hi product else u128_lo product) 0x1003E))))"

definition exec_float :: "'f host_float \<Rightarrow> float_type \<Rightarrow> instruction \<Rightarrow> unit exec" where
  "exec_float h t i =
     (if t = FCVT_FXU then
        (if drop_bit 27 (in_rawBits i) AND 0x3F = 0x1B
         then ExecuteUnsignedFixedTruncate (in_dst i) (in_src1 i)
         else bind (fr (in_src1 i)) (\<lambda>f. set_fr (in_dst i) f))
      else if t = FCVT_FX then ExecuteSignedFixedTruncate (in_dst i) (in_src1 i)
      else if t = FMA \<or> t = FMS \<or> t = FNMA
      then ExecuteFusedArithmetic t (in_rawBits i) (in_dst i) (in_src1 i) (in_src2 i) (in_src3 i)
      else if t = FRCPA \<or> t = FRSQRTA
      then ExecuteReciprocalApproximation h t (in_dst i) (in_src1 i) (in_src2 i) (in_predicate2 i)
      else if t = XMA \<or> t = XMA_H \<or> t = XMA_HU then exec_xma t i
      else ret ())"

definition exec_branch :: "branch_type \<Rightarrow> instruction \<Rightarrow> unit exec" where
  "exec_branch t i =
     (case t of
        BR_CALL \<Rightarrow> to_cpu (\<lambda>s. SetBR (unat (in_dst i)) (architecturalInstructionPointer s + 16) s)
      | BR_CLOOP \<Rightarrow> bind (ar 65) (\<lambda>lc. if lc \<noteq> 0 then to_cpu (SetAR 65 (lc - 1)) else ret ())
      | BR_CTOP \<Rightarrow> to_cpu (\<lambda>s. and_then (ExecuteBrCTop s) (\<lambda>(r, s'). Inr s'))
      | BR_CEXIT \<Rightarrow> to_cpu (\<lambda>s. and_then (ExecuteBrCExit s) (\<lambda>(r, s'). Inr s'))
      | _ \<Rightarrow> ret ())"

definition exec_bsw :: "instruction \<Rightarrow> unit exec" where
  "exec_bsw i = bind psr (\<lambda>p.
     set_psr ((p AND NOT IA64_PSR_BN_MASK) OR (if in_immediate i AND 1 \<noteq> 0 then IA64_PSR_BN_MASK else 0)))"

definition kFrameMarkerMask :: u64 where
  "kFrameMarkerMask = 0x3FFFFFFFFF"

definition exec_cover :: "unit exec" where
  "exec_cover =
     bind (from_cpu (\<lambda>s. Inr (cpu_cfm s))) (\<lambda>cfm.
     bind psr (\<lambda>p.
       next_step
         (if \<not> bit p 13 then to_cpu (SetCR 23 ((cfm AND kFrameMarkerMask) OR push_bit 63 1)) else ret ())
         (to_cpu (\<lambda>s. Inr (SetCFM (cfm AND NOT kFrameMarkerMask) s)))))"

definition exec_clrrb :: "instruction \<Rightarrow> unit exec" where
  "exec_clrrb i =
     to_cpu (\<lambda>s.
       let cfm = cpu_cfm s;
           kRrbGrMask = push_bit 18 0x7F; kRrbFrMask = push_bit 25 0x7F; kRrbPrMask = push_bit 32 0x3F
       in Inr (SetCFM (if in_immediate i \<noteq> 0 then cfm AND NOT kRrbPrMask
                       else cfm AND NOT (kRrbGrMask OR kRrbFrMask OR kRrbPrMask)) s))"

subsection \<open>The whole instruction\<close>

definition dispatch :: "'f host_float \<Rightarrow> instruction \<Rightarrow> unit exec" where
  "dispatch h i =
     (case in_type i of
        NOP \<Rightarrow> ret ()
      | Move t \<Rightarrow> exec_move t i
      | Arith t \<Rightarrow> exec_arith t i
      | Logic t \<Rightarrow> exec_logic t i
      | Shift t \<Rightarrow> exec_shift t i
      | Field t \<Rightarrow> exec_field t i
      | Compare_Op t \<Rightarrow> exec_compare t i
      | Memory_Op t \<Rightarrow> exec_memory t i
      | Branch t \<Rightarrow> exec_branch t i
      | ALLOC \<Rightarrow> if in_hasImmediate i then to_cpu (exec_alloc (unat (in_dst i)) (in_immediate i)) else ret ()
      | Test t \<Rightarrow> exec_test t i
      | Float_Op t \<Rightarrow> exec_float h t i
      | Spill t \<Rightarrow> exec_spill t i
      | BREAK \<Rightarrow> ret ()
      | BSW \<Rightarrow> exec_bsw i
      | COVER \<Rightarrow> exec_cover
      | CLRRB \<Rightarrow> exec_clrrb i
      | UNKNOWN \<Rightarrow> ret ())"

definition is_compare :: "instruction_type \<Rightarrow> bool" where
  "is_compare t = (case t of Compare_Op _ \<Rightarrow> True | _ \<Rightarrow> False)"

definition nullified :: "instruction \<Rightarrow> unit exec" where
  "nullified i =
     next_step (if in_compareCompleter i = UNC \<and> is_compare (in_type i) then set_predicates i False False else ret ())
       (if in_type i = Float_Op FRCPA \<or> in_type i = Float_Op FRSQRTA then set_pr (in_predicate2 i) False else ret ())"

definition Execute :: "'f host_float \<Rightarrow> bool \<Rightarrow> instruction \<Rightarrow> unit exec" where
  "Execute h ignorePredicate i =
     (let isCountedLoopBranch = (in_type i = Branch BR_CLOOP \<or> in_type i = Branch BR_CTOP \<or> in_type i = Branch BR_CEXIT)
      in bind (if \<not> ignorePredicate \<and> \<not> isCountedLoopBranch then CheckPredicate (in_predicate i) else ret True)
           (\<lambda>p. if p then dispatch h i else nullified i))"

end
