(* ===== verification/Execute_Logic.thy ===== *)
theory Execute_Logic
  imports Execute Float_Props Address_Translation_Props
begin

text \<open>
  The contract an execution step needs of the processor and the memory, as a locale: operations of
  the processor, translations and data accesses keep an invariant, return, and never index outside an
  array. Inside it, \<open>steps\<close> carries such facts through sequences of steps, and \<open>Execute_steps\<close> shows
  them for every legal instruction. The interpretation \<open>guest\<close> discharges the contract for the
  invariant of the reachable processor states.
\<close>

abbreviation "ub \<equiv> Other (Std UndefinedBehaviour)"

text \<open>\<open>steps P m Q\<close>: from a state with \<open>P\<close> the step returns, keeps \<open>P\<close>, leaves no array, and its result satisfies \<open>Q\<close>.\<close>

definition steps :: "(machine \<Rightarrow> bool) \<Rightarrow> 'a exec \<Rightarrow> ('a \<Rightarrow> bool) \<Rightarrow> bool" where
  "steps P m Q \<longleftrightarrow> (\<forall>\<sigma>. P \<sigma> \<longrightarrow>
     (\<exists>r \<sigma>'. m \<sigma> = Some (r, \<sigma>') \<and> P \<sigma>' \<and> r \<noteq> Inl ub \<and> (\<forall>a. r = Inr a \<longrightarrow> Q a)))"

lemma stepsD: "steps P m Q \<Longrightarrow> P \<sigma> \<Longrightarrow> \<exists>r \<sigma>'. m \<sigma> = Some (r, \<sigma>') \<and> P \<sigma>' \<and> r \<noteq> Inl ub \<and> (\<forall>a. r = Inr a \<longrightarrow> Q a)"
  unfolding steps_def by blast

lemma steps_ret: "Q a \<Longrightarrow> steps P (ret a) Q"
  by (simp add: steps_def)

lemma steps_throw: "e \<noteq> UndefinedBehaviour \<Longrightarrow> steps P (throw e) Q"
  by (simp add: steps_def)

lemma steps_weaken: "steps P m Q \<Longrightarrow> (\<And>a. Q a \<Longrightarrow> R a) \<Longrightarrow> steps P m R"
  unfolding steps_def by blast

lemma steps_bind:
  assumes "steps P m Q" "\<And>a. Q a \<Longrightarrow> steps P (f a) R"
  shows "steps P (bind m f) R"
  unfolding steps_def
proof (intro allI impI)
  fix \<sigma>
  assume "P \<sigma>"
  then obtain r \<sigma>' where m: "m \<sigma> = Some (r, \<sigma>')" "P \<sigma>'" "r \<noteq> Inl ub" "\<forall>a. r = Inr a \<longrightarrow> Q a"
    using stepsD [OF assms(1)] by blast
  show "\<exists>r \<sigma>'. bind m f \<sigma> = Some (r, \<sigma>') \<and> P \<sigma>' \<and> r \<noteq> Inl ub \<and> (\<forall>a. r = Inr a \<longrightarrow> R a)"
  proof (cases r)
    case (Inl e)
    with m show ?thesis by (auto simp: bind_def)
  next
    case (Inr a)
    with m stepsD [OF assms(2)] show ?thesis by (simp add: bind_def)
  qed
qed

lemma steps_next: "steps P m (\<lambda>_. True) \<Longrightarrow> steps P n R \<Longrightarrow> steps P (next_step m n) R"
  unfolding next_step_def by (rule steps_bind)

lemma steps_if: "(c \<Longrightarrow> steps P m Q) \<Longrightarrow> (\<not> c \<Longrightarrow> steps P n Q) \<Longrightarrow> steps P (if c then m else n) Q"
  by simp

lemma steps_from_cpu:
  assumes "\<And>s m. P (s, m) \<Longrightarrow> f s \<noteq> Inl UndefinedBehaviour" "\<And>s m a. P (s, m) \<Longrightarrow> f s = Inr a \<Longrightarrow> Q a"
  shows "steps P (from_cpu f) Q"
  using assms by (auto simp: steps_def from_cpu_def lift_cpp_def split: sum.splits)

text \<open>Instructions whose operands respect the frame limits; \<open>THASH\<close> may shift by the word length and is left out.\<close>

definition legal_instruction :: "instruction \<Rightarrow> bool" where
  "legal_instruction i \<longleftrightarrow> in_type i \<noteq> Move THASH \<and>
     (in_type i = ALLOC \<longrightarrow> in_hasImmediate i \<longrightarrow> unat (get_bits 14 4 (in_immediate i)) \<le> 12)"

lemma image_lengths [simp]:
  "length NatVal_image = 16" "length (IA64Zero_image n) = 16" "length (IA64Infinity_image n) = 16"
  "length IA64NaN_image = 16" "length (IA64Approximation_image h v n) = 16"
  "length (RoundedIA64Value_image x e p rc) = 16"
proof -
  show "length NatVal_image = 16" by (simp add: NatVal_is_image)
  show z: "length (IA64Zero_image n) = 16" for n
    by (simp add: IA64Zero_image_def WriteLittleEndian64_def)
  show i: "length (IA64Infinity_image n) = 16" for n by (simp add: IA64Infinity_image_def)
  show "length IA64NaN_image = 16" by (simp add: IA64NaN_image_def)
  show "length (IA64Approximation_image h v n) = 16"
    by (auto simp: IA64Approximation_image_def z i Let_def split: prod.splits)
  show "length (RoundedIA64Value_image x e p rc) = 16"
    by (simp add: RoundedIA64Value_image_def Let_def split: prod.splits)
qed

locale execution_context =
  fixes P :: "machine \<Rightarrow> bool"
  assumes op_ok: "P (s, m) \<Longrightarrow> op_legal op \<Longrightarrow> cpu_exec op s \<noteq> Inl UndefinedBehaviour"
    and op_keeps: "P (s, m) \<Longrightarrow> op_legal op \<Longrightarrow> cpu_exec op s = Inr s' \<Longrightarrow> P (s', m)"
    and reads_ok: "P (s, m) \<Longrightarrow> GetGR s i \<noteq> Inl UndefinedBehaviour \<and> GetGRNaT s i \<noteq> Inl UndefinedBehaviour \<and>
      GetFR s i \<noteq> Inl UndefinedBehaviour \<and> GetPR s i \<noteq> Inl UndefinedBehaviour \<and> GetPRUnrotated s i \<noteq> Inl UndefinedBehaviour \<and>
      GetBR s i \<noteq> Inl UndefinedBehaviour \<and> GetAR s i \<noteq> Inl UndefinedBehaviour \<and> GetCR s i \<noteq> Inl UndefinedBehaviour \<and>
      GetRR s i \<noteq> Inl UndefinedBehaviour \<and> GetCPUID s i \<noteq> Inl UndefinedBehaviour"
    and fr_length: "P (s, m) \<Longrightarrow> GetFR s i = Inr f \<Longrightarrow> length f = 16"
    and sor_fits: "P (s, m) \<Longrightarrow> GetSOR s \<le> 12"
    and translate_steps: "steps P (translateIa64KernelDataAddress a acc force) (\<lambda>_. True)"
    and mmu_ok: "P (s, m) \<Longrightarrow> TranslateAddress (mem_mmu m) a \<noteq> Inl (Std UndefinedBehaviour) \<and>
      CheckPermissionOrThrow (mem_mmu m) a acc \<noteq> Inl (Std UndefinedBehaviour)"
    and read_steps: "n < 2 ^ 64 \<Longrightarrow> steps P (readIa64Data a n) (\<lambda>bs. length bs = n)"
    and write_steps: "length bs < 2 ^ 64 \<Longrightarrow> steps P (writeIa64Data a bs) (\<lambda>_. True)"
begin

lemma steps_to_cpu:
  assumes "\<And>s m. P (s, m) \<Longrightarrow> \<exists>op. op_legal op \<and> f s = cpu_exec op s"
  shows "steps P (to_cpu f) (\<lambda>_. True)"
  unfolding steps_def
proof (intro allI impI)
  fix \<sigma> assume "P \<sigma>"
  then obtain s m where \<sigma>: "\<sigma> = (s, m)" "P (s, m)" by (cases \<sigma>) auto
  with assms obtain op where op: "op_legal op" "f s = cpu_exec op s" by blast
  show "\<exists>r \<sigma>'. to_cpu f \<sigma> = Some (r, \<sigma>') \<and> P \<sigma>' \<and> r \<noteq> Inl ub \<and> (\<forall>a. r = Inr a \<longrightarrow> True)"
    using op_ok [OF \<sigma>(2) op(1)] op_keeps [OF \<sigma>(2) op(1)] \<sigma>
    by (auto simp: to_cpu_def op(2) split: sum.splits)
qed

lemma steps_op: "op_legal op \<Longrightarrow> steps P (to_cpu (cpu_exec op)) (\<lambda>_. True)"
  by (rule steps_to_cpu) auto

lemma steps_sets:
  "steps P (to_cpu (SetGR i v)) (\<lambda>_. True)" "steps P (to_cpu (SetGRNaT i b)) (\<lambda>_. True)"
  "steps P (to_cpu (SetPR i b)) (\<lambda>_. True)" "steps P (to_cpu (SetBR i v)) (\<lambda>_. True)"
  "steps P (to_cpu (SetRR i v)) (\<lambda>_. True)" "steps P (to_cpu (SetCR i v)) (\<lambda>_. True)"
  "steps P (to_cpu (SetAR i v)) (\<lambda>_. True)" "steps P (to_cpu (WriteBSPSTORE v)) (\<lambda>_. True)"
  "steps P (to_cpu (\<lambda>s. Inr (SetPSR v s))) (\<lambda>_. True)" "steps P (to_cpu (\<lambda>s. Inr (SetIP v s))) (\<lambda>_. True)"
  "steps P (to_cpu (SetITR i pa va it rv)) (\<lambda>_. True)" "steps P (to_cpu (SetDTR i pa va it rv)) (\<lambda>_. True)"
  "steps P (to_cpu (InsertITLB pa va it rv)) (\<lambda>_. True)" "steps P (to_cpu (InsertDTLB pa va it rv)) (\<lambda>_. True)"
  "steps P (to_cpu (\<lambda>s. Inr (PurgeITLB va ps rid s))) (\<lambda>_. True)"
  "steps P (to_cpu (\<lambda>s. Inr (PurgeDTLB va ps rid s))) (\<lambda>_. True)"
  by (rule steps_to_cpu, (rule exI [of _ "OpSetGR i v"] exI [of _ "OpSetGRNaT i b"] exI [of _ "OpSetPR i b"]
      exI [of _ "OpSetBR i v"] exI [of _ "OpSetRR i v"] exI [of _ "OpSetCR i v"] exI [of _ "OpSetAR i v"]
      exI [of _ "OpWriteBSPSTORE v"] exI [of _ "OpSetPSR v"] exI [of _ "OpSetIP v"]
      exI [of _ "OpSetITR i pa va it rv"] exI [of _ "OpSetDTR i pa va it rv"] exI [of _ "OpInsertITLB pa va it rv"]
      exI [of _ "OpInsertDTLB pa va it rv"] exI [of _ "OpPurgeITLB va ps rid"] exI [of _ "OpPurgeDTLB va ps rid"],
      simp; fail))+

lemma steps_set_fr: "length f = 16 \<Longrightarrow> steps P (to_cpu (SetFR i f)) (\<lambda>_. True)"
  by (rule steps_to_cpu, rule exI [of _ "OpSetFR i f"]) simp

lemma steps_gets:
  "steps P (from_cpu (\<lambda>s. GetGR s i)) (\<lambda>_. True)" "steps P (from_cpu (\<lambda>s. GetGRNaT s i)) (\<lambda>_. True)"
  "steps P (from_cpu (\<lambda>s. GetPR s i)) (\<lambda>_. True)" "steps P (from_cpu (\<lambda>s. GetBR s i)) (\<lambda>_. True)"
  "steps P (from_cpu (\<lambda>s. GetAR s i)) (\<lambda>_. True)" "steps P (from_cpu (\<lambda>s. GetCR s i)) (\<lambda>_. True)"
  "steps P (from_cpu (\<lambda>s. GetRR s i)) (\<lambda>_. True)" "steps P (from_cpu (\<lambda>s. GetCPUID s i)) (\<lambda>_. True)"
  "steps P (from_cpu (\<lambda>s. Inr (g s))) (\<lambda>_. True)"
  by (rule steps_from_cpu; use reads_ok in \<open>simp; fail\<close>)+

lemma steps_get_fr: "steps P (from_cpu (\<lambda>s. GetFR s i)) (\<lambda>f. length f = 16)"
  by (rule steps_from_cpu) (use reads_ok fr_length in auto)

lemma steps_operand: "steps P (if b then ret v else from_cpu (\<lambda>s. GetGR s i)) (\<lambda>_. True)"
  by (simp add: steps_ret steps_gets)

lemmas steps_rules = steps_next steps_ret steps_sets steps_operand steps_gets
  steps_get_fr steps_set_fr translate_steps read_steps write_steps

lemmas steps_auto = steps_bind [where Q = "\<lambda>_. True"]

lemma steps_binary: "steps P (binary f i) (\<lambda>_. True)"
  unfolding binary_def by (intro steps_auto steps_rules TrueI)

lemma steps_unary: "steps P (unary f i) (\<lambda>_. True)"
  unfolding unary_def by (intro steps_auto steps_rules TrueI)

lemma steps_imm_with: "steps P (imm_with src f i) (\<lambda>_. True)"
  unfolding imm_with_def by (intro steps_if steps_auto steps_rules TrueI)

lemma steps_addp4: "steps P (ExecuteAddp4 d a an b bn) (\<lambda>_. True)"
  unfolding ExecuteAddp4_def Let_def by (intro steps_rules)

lemma steps_arith: "steps P (exec_arith t i) (\<lambda>_. True)"
  by (cases t) (simp_all only: exec_arith.simps steps_binary steps_imm_with,
    intro steps_if steps_auto steps_rules steps_addp4 TrueI)

lemma steps_logic: "steps P (exec_logic t i) (\<lambda>_. True)"
  by (cases t) (simp_all only: exec_logic.simps steps_binary steps_imm_with)

lemma steps_shift: "steps P (exec_shift t i) (\<lambda>_. True)"
  by (cases t; simp only: exec_shift.simps steps_binary steps_unary Let_def; intro steps_if steps_auto steps_rules TrueI steps_binary)

lemma steps_field: "steps P (exec_field t i) (\<lambda>_. True)"
proof (cases t)
  case DEP
  then show ?thesis
    by (simp only: exec_field.simps) (intro steps_if steps_auto steps_rules TrueI)
qed (simp_all only: exec_field.simps steps_unary steps_imm_with)

lemma steps_predicates: "steps P (set_predicates i a b) (\<lambda>_. True)"
  unfolding set_predicates_def by (intro steps_rules TrueI)

lemma steps_write_predicates: "steps P (writeComparePredicates i b) (\<lambda>_. True)"
  by (cases "in_compareCompleter i") (simp_all add: writeComparePredicates_def steps_predicates steps_ret)

lemma steps_compare: "steps P (exec_compare t i) (\<lambda>_. True)"
  unfolding exec_compare_def by (intro steps_auto steps_rules steps_write_predicates TrueI)

lemma steps_test: "steps P (exec_test t i) (\<lambda>_. True)"
  by (cases t; simp only: exec_test.simps exec_tbit_def exec_tnat_def Let_def;
    intro steps_if steps_auto steps_rules steps_predicates steps_write_predicates TrueI)

lemma steps_collect: "steps P (from_cpu (collect_predicates is v)) (\<lambda>_. True)"
proof (rule steps_from_cpu)
  fix s m
  assume "P (s, m)"
  then show "collect_predicates is v s \<noteq> Inl UndefinedBehaviour"
  proof (induction "is" arbitrary: v)
    case (Cons i "is")
    then show ?case
      using reads_ok [OF Cons.prems, of i] by (cases "GetPRUnrotated s i") auto
  qed simp
qed simp

lemma steps_spread: "steps P (to_cpu (spread_predicates msk v is)) (\<lambda>_. True)"
proof -
  have "\<forall>s m. P (s, m) \<longrightarrow> (case spread_predicates msk v is s of
      Inl e \<Rightarrow> P (s, m) \<and> e \<noteq> UndefinedBehaviour | Inr s' \<Rightarrow> P (s', m))"
  proof (induction "is")
    case (Cons i "is")
    show ?case
    proof (intro allI impI)
      fix s m
      assume P: "P (s, m)"
      show "case spread_predicates msk v (i # is) s of
        Inl e \<Rightarrow> P (s, m) \<and> e \<noteq> UndefinedBehaviour | Inr s' \<Rightarrow> P (s', m)"
      proof (cases "drop_bit i msk AND 1 \<noteq> 0")
        case False
        with Cons P show ?thesis by simp
      next
        case True
        let ?op = "OpSetPRUnrotated i (drop_bit i v AND 1 \<noteq> 0)"
        show ?thesis
        proof (cases "cpu_exec ?op s")
          case (Inl e)
          with op_ok [OF P, of ?op] True P show ?thesis by auto
        next
          case (Inr s1)
          then have P1: "P (s1, m)" using op_keeps [OF P, of ?op s1] by simp
          have "case spread_predicates msk v is s1 of
            Inl e \<Rightarrow> P (s1, m) \<and> e \<noteq> UndefinedBehaviour | Inr s' \<Rightarrow> P (s', m)"
            using Cons P1 by blast
          with True Inr P show ?thesis by (auto split: sum.splits)
        qed
      qed
    qed
  qed simp
  then show ?thesis
    unfolding steps_def by (fastforce simp: to_cpu_def split: sum.splits prod.splits)
qed

lemma steps_move: "legal_instruction i \<Longrightarrow> in_type i = Move t \<Longrightarrow> steps P (exec_move t i) (\<lambda>_. True)"
  by (cases t; simp only: exec_move.simps exec_insert_tr_def exec_insert_tc_def exec_purge_def Let_def if_True if_False
      legal_instruction_def simp_thms;
    (intro steps_if steps_auto steps_rules steps_collect steps_spread TrueI refl
      steps_bind [OF steps_get_fr] steps_set_fr)?; simp)

lemma steps_load: "n < 2 ^ 64 \<Longrightarrow> steps P (exec_load n i) (\<lambda>_. True)"
  unfolding exec_load_def
  by (intro steps_if steps_auto steps_bind [OF read_steps] steps_rules TrueI) simp_all

lemma steps_store: "n < 2 ^ 64 \<Longrightarrow> steps P (exec_store n i) (\<lambda>_. True)"
  unfolding exec_store_def by (intro steps_if steps_auto steps_rules TrueI) simp_all

lemma steps_finish: "steps P (finish_atomic i v) (\<lambda>_. True)"
  unfolding finish_atomic_def by (intro steps_rules)

lemma steps_atomics:
  "n < 2 ^ 64 \<Longrightarrow> steps P (exec_cmpxchg n i) (\<lambda>_. True)"
  "steps P (exec_xchg4 i) (\<lambda>_. True)" "steps P (exec_fetchadd4 i) (\<lambda>_. True)" "steps P (exec_lfetch i) (\<lambda>_. True)"
  unfolding exec_cmpxchg_def exec_xchg4_def exec_fetchadd4_def exec_lfetch_def Let_def
  by (intro steps_if steps_auto steps_bind [OF read_steps] steps_rules steps_finish TrueI; simp)+

lemma steps_mmu:
  "steps P (\<lambda>(s, m). Some (case TranslateAddress (mem_mmu m) a of Inl e \<Rightarrow> Inl (Other e) | Inr _ \<Rightarrow> Inr (), s, m)) (\<lambda>_. True)"
  "steps P (\<lambda>(s, m). Some (case CheckPermissionOrThrow (mem_mmu m) a ACC_READ of Inl e \<Rightarrow> Inl (Other e) | Inr _ \<Rightarrow> Inr (), s, m)) (\<lambda>_. True)"
  using mmu_ok unfolding steps_def by (fastforce split: sum.splits)+

lemma steps_fc_tpa: "steps P (exec_fc i) (\<lambda>_. True)" "steps P (exec_tpa i) (\<lambda>_. True)"
  unfolding exec_fc_def exec_tpa_def
  by (intro steps_if steps_auto steps_rules steps_mmu TrueI)+

lemma steps_memory: "steps P (exec_memory t i) (\<lambda>_. True)"
  by (cases t; simp only: exec_memory.simps;
    intro steps_load steps_store steps_atomics steps_fc_tpa steps_auto steps_rules TrueI; simp)

lemma steps_fr: "(\<And>f. length f = 16 \<Longrightarrow> steps P (k f) Q) \<Longrightarrow> steps P (bind (from_cpu (\<lambda>s. GetFR s j)) k) Q"
  by (rule steps_bind [OF steps_get_fr])

lemma steps_spill: "steps P (exec_spill t i) (\<lambda>_. True)"
proof (cases t)
  case LDF_FILL
  then show ?thesis
    unfolding exec_spill_def
    by simp (intro steps_auto steps_bind [OF read_steps] steps_next steps_set_fr steps_if steps_rules TrueI; simp)
next
  case STF8
  then show ?thesis
    unfolding exec_spill_def
    by simp (intro steps_auto steps_fr steps_if steps_throw steps_rules TrueI; simp)
next
  case STF_SPILL
  then show ?thesis
    unfolding exec_spill_def
    by simp (intro steps_auto steps_fr steps_if steps_rules TrueI; simp)
qed

lemma steps_image_then_pr: "length f = 16 \<Longrightarrow> steps P (next_step (set_fr d f) (set_pr p b)) (\<lambda>_. True)"
  "length f = 16 \<Longrightarrow> steps P (next_step (set_pr p b) (set_fr d f)) (\<lambda>_. True)"
  by (intro steps_rules; simp)+

lemma steps_reciprocal: "steps P (ExecuteReciprocalApproximation h t d a b p) (\<lambda>_. True)"
proof -
  have r: "steps P (frsqrta h d v p) (\<lambda>_. True)" for v
    by (auto simp: frsqrta_def Let_def intro!: steps_image_then_pr split: prod.splits)
  have c: "steps P (frcpa h d v w p) (\<lambda>_. True)" for v w
    by (auto simp: frcpa_def Let_def intro!: steps_image_then_pr split: prod.splits)
  show ?thesis
    unfolding ExecuteReciprocalApproximation_def Let_def by (intro steps_fr steps_if r c)
qed

lemma steps_float: "steps P (exec_float h t i) (\<lambda>_. True)"
proof -
  have fma: "steps P (ExecuteFusedArithmetic t raw d a b c) (\<lambda>_. True)" for raw d a b c
  proof -
    have fin: "steps P (bind (from_cpu (\<lambda>s. GetAR s 40)) (\<lambda>fpsr. set_fr d (RoundedIA64Value_image x e (pr fpsr) (rc fpsr)))) (\<lambda>_. True)"
      for x e pr rc by (intro steps_auto steps_rules steps_set_fr) simp
    have "steps P (case fused_exact t c l r cc of (x, e) \<Rightarrow>
      bind (from_cpu (\<lambda>s. GetAR s 40)) (\<lambda>fpsr. set_fr d (RoundedIA64Value_image x e
        (FusedArithmeticPrecisionBits fpsr raw) (fused_rounding fpsr raw)))) (\<lambda>_. True)" for l r cc
      by (cases "fused_exact t c l r cc") (simp only: prod.case fin)
    moreover have "steps P (if c \<noteq> 0 then from_cpu (\<lambda>s. GetFR s j) else ret (replicate 16 0)) (\<lambda>_. True)" for j
      by (auto intro: steps_ret steps_weaken [OF steps_get_fr])
    ultimately show ?thesis
      unfolding ExecuteFusedArithmetic_def Let_def
      by (intro steps_fr steps_auto steps_if steps_set_fr) simp_all
  qed
  have cvt: "steps P (ExecuteUnsignedFixedTruncate d a) (\<lambda>_. True)" "steps P (ExecuteSignedFixedTruncate d a) (\<lambda>_. True)" for d a
    unfolding ExecuteUnsignedFixedTruncate_def ExecuteSignedFixedTruncate_def Let_def
    by (intro steps_fr steps_if steps_set_fr; simp)+
  have xma: "steps P (exec_xma t i) (\<lambda>_. True)"
    unfolding exec_xma_def Let_def by (intro steps_fr steps_if steps_set_fr; simp)
  show ?thesis
    unfolding exec_float_def
    by (intro steps_if fma cvt xma steps_reciprocal steps_ret TrueI steps_fr steps_set_fr)
qed

lemma steps_branch: "steps P (exec_branch t i) (\<lambda>_. True)"
proof -
  have "steps P (to_cpu (\<lambda>s. SetBR (unat (in_dst i)) (architecturalInstructionPointer s + 16) s)) (\<lambda>_. True)"
    by (rule steps_to_cpu, rule_tac x = "OpSetBR (unat (in_dst i)) (architecturalInstructionPointer s + 16)" in exI) simp
  moreover have "steps P (to_cpu (\<lambda>s. and_then (ExecuteBrCTop s) (\<lambda>(r, s'). Inr s'))) (\<lambda>_. True)"
    by (rule steps_to_cpu, rule exI [of _ OpBrCTop]) simp
  moreover have "steps P (to_cpu (\<lambda>s. and_then (ExecuteBrCExit s) (\<lambda>(r, s'). Inr s'))) (\<lambda>_. True)"
    by (rule steps_to_cpu, rule exI [of _ OpBrCExit]) simp
  ultimately show ?thesis
    unfolding exec_branch_def
    by (cases t) (simp_all add: steps_ret, intro steps_auto steps_if steps_rules TrueI)
qed

lemma steps_frames:
  "steps P (exec_bsw i) (\<lambda>_. True)" "steps P exec_cover (\<lambda>_. True)" "steps P (exec_clrrb i) (\<lambda>_. True)"
proof -
  show "steps P (exec_bsw i) (\<lambda>_. True)"
    unfolding exec_bsw_def by (intro steps_auto steps_rules)
  have "steps P (to_cpu (\<lambda>s. Inr (SetCFM (cfm AND NOT kFrameMarkerMask) s))) (\<lambda>_. True)" for cfm
  proof (rule steps_to_cpu, rule exI [of _ "OpSetCFM (cfm AND NOT kFrameMarkerMask)"])
    have "get_bits 14 4 (cfm AND NOT kFrameMarkerMask) = 0"
    proof (rule bit_word_eqI)
      fix k
      have m: "kFrameMarkerMask = mask 38" by (simp add: kFrameMarkerMask_def mask_eq_exp_minus_1)
      show "bit (get_bits 14 4 (cfm AND NOT kFrameMarkerMask)) k = bit 0 k"
        unfolding m by (auto simp: field_simps_word bit_simps)
    qed
    then show "op_legal (OpSetCFM (cfm AND NOT kFrameMarkerMask)) \<and>
      Inr (SetCFM (cfm AND NOT kFrameMarkerMask) s) = cpu_exec (OpSetCFM (cfm AND NOT kFrameMarkerMask)) s" for s
      by simp
  qed
  then show "steps P exec_cover (\<lambda>_. True)"
    unfolding exec_cover_def by (intro steps_auto steps_next steps_if steps_rules TrueI) simp
  have low: "get_bits 14 4 (cfm AND NOT x) = get_bits 14 4 cfm" if "\<And>k. k < 18 \<Longrightarrow> \<not> bit x k" for cfm x :: u64
    using that by (intro bit_word_eqI) (auto simp: field_simps_word bit_simps)
  have nb: "\<not> bit (push_bit m w) k" if "k < 18" "18 \<le> m" for m k and w :: u64
    using that by (simp add: bit_push_bit_iff)
  have hi: "\<not> bit (push_bit 18 w) k" "\<not> bit (push_bit 25 w) k" "\<not> bit (push_bit 32 w) k" if "k < 18" for k and w :: u64
    using that by (rule nb, simp)+
  show "steps P (exec_clrrb i) (\<lambda>_. True)"
    unfolding exec_clrrb_def
  proof (rule steps_to_cpu)
    fix s m
    assume "P (s, m)"
    then have sor: "unat (get_bits 14 4 (cpu_cfm s)) \<le> 12" using sor_fits by (simp add: GetSOR_def)
    define c where "c = (if in_immediate i \<noteq> 0 then cpu_cfm s AND NOT (push_bit 32 0x3F)
      else cpu_cfm s AND NOT (push_bit 18 0x7F OR push_bit 25 0x7F OR push_bit 32 0x3F))"
    have "get_bits 14 4 c = get_bits 14 4 (cpu_cfm s)"
    proof (cases "in_immediate i \<noteq> 0")
      case True
      then show ?thesis
        unfolding c_def if_P [OF True] by (intro low hi)
    next
      case False
      then show ?thesis
        unfolding c_def if_not_P [OF False] by (intro low) (simp only: bit_or_iff hi simp_thms)
    qed
    with sor have "op_legal (OpSetCFM c)" by simp
    then show "\<exists>op. op_legal op \<and> (let cfm = cpu_cfm s; kRrbGrMask = push_bit 18 0x7F; kRrbFrMask = push_bit 25 0x7F;
        kRrbPrMask = push_bit 32 0x3F
      in Inr (SetCFM (if in_immediate i \<noteq> 0 then cfm AND NOT kRrbPrMask
                      else cfm AND NOT (kRrbGrMask OR kRrbFrMask OR kRrbPrMask)) s)) = cpu_exec op s"
      by (intro exI [of _ "OpSetCFM c"]) (simp add: Let_def c_def)
  qed
qed

lemma steps_alloc: "unat (get_bits 14 4 imm) \<le> 12 \<Longrightarrow> steps P (to_cpu (exec_alloc d imm)) (\<lambda>_. True)"
  by (rule steps_to_cpu, rule exI [of _ "OpAlloc d imm"]) simp

lemma steps_dispatch: "legal_instruction i \<Longrightarrow> steps P (dispatch h i) (\<lambda>_. True)"
  by (cases "in_type i")
    (simp_all add: dispatch_def legal_instruction_def steps_ret steps_arith steps_logic steps_shift steps_field steps_compare
      steps_memory steps_branch steps_test steps_float steps_spill steps_frames steps_alloc
      steps_move [unfolded legal_instruction_def])

lemma Execute_steps: "legal_instruction i \<Longrightarrow> steps P (Execute h ignore i) (\<lambda>_. True)"
proof -
  assume "legal_instruction i"
  moreover have "steps P (nullified i) (\<lambda>_. True)"
    unfolding nullified_def by (intro steps_next steps_if steps_predicates steps_rules TrueI)
  moreover have "steps P (CheckPredicate p) (\<lambda>_. True)" for p
    unfolding CheckPredicate_def by (intro steps_if steps_rules TrueI)
  ultimately show ?thesis
    unfolding Execute_def Let_def by (intro steps_auto steps_if steps_dispatch steps_ret TrueI) simp_all
qed

end

end
