(* ===== verification/Execute_Props.thy ===== *)
theory Execute_Props
  imports Execute_Logic
begin

text \<open>
  Properties of \<open>Execute\<close>. The execution contract is discharged for the invariant of reachable
  processors (interpretation \<open>guest\<close>), which gives safety and termination of every legal instruction;
  then follow the functional properties of the groups of instructions.
\<close>

subsection \<open>Translations and data accesses meet the contract\<close>

definition machine_ok :: "machine \<Rightarrow> bool" where
  "machine_ok = (\<lambda>(s, m). guest_ok s \<and> devices_sound m)"

lemma makeFault_not_ub [simp]: "makeFault k va acc vec hash \<noteq> ub" "ub \<noteq> makeFault k va acc vec hash"
  by (simp_all add: makeFault_def)

lemma lift_not_ub: "r \<noteq> Inl UndefinedBehaviour \<Longrightarrow> lift_cpp r \<noteq> Inl ub"
  by (cases r) simp_all

lemma tryEntries_not_ub: "tryEntries rid cpl va acc mech es \<noteq> Inl ub"
  by (induction es) (auto simp: Let_def split: if_splits)

lemma region_register: "guest_ok s \<Longrightarrow> GetRR s (va_region va) = Inr (cpu_rr s ! va_region va)"
  by (simp add: guest_ok_def)

lemma translateFrom_not_ub: "guest_ok s \<Longrightarrow> translateFromDtrOrDtlb s va acc \<noteq> Inl ub"
  using tryEntries_not_ub [of _ _ va acc]
  by (auto simp: translateFromDtrOrDtlb_def region_register Let_def and_then_def split: sum.splits option.splits)

lemma control_register: "guest_ok s \<Longrightarrow> i < 128 \<Longrightarrow> GetCR s i = Inr (cpu_cr s ! i)"
  by (simp add: GetCR_def guest_ok_def)

lemma application_register: "guest_ok s \<Longrightarrow> i < 128 \<Longrightarrow> GetAR s i \<noteq> Inl UndefinedBehaviour"
  by (simp add: guest_ok_def ar_bank.get_no_ub)

lemma check_pte_not_ub: "check_pte pte cpl va acc hash \<noteq> Inl ub"
  by (simp add: check_pte_def)

lemma insert_dtlb_not_ub: "guest_ok s \<Longrightarrow> InsertDTLB tte va it rv s \<noteq> Inl UndefinedBehaviour"
  using exec_no_ub [of s "OpInsertDTLB tte va it rv"] by simp

lemma walk_vhpt_guest:
  assumes ok: "guest_ok s" and size: "unat (get_bits 2 6 (cpu_cr s ! 8)) \<le> 60"
    and run: "walk_vhpt s m va acc rv = (r, s', m')"
  shows "guest_ok s' \<and> r \<noteq> Inl ub"
proof -
  have hash: "ComputeIA64ShortVhptAddress s va \<noteq> Inl ub"
    using size by (simp add: ComputeIA64ShortVhptAddress_def region_register [OF ok] control_register [OF ok] Let_def)
  have rd: "readPhysicalU64 m pa va acc = (x, m1) \<Longrightarrow> x \<noteq> Inl ub" for m pa va acc x m1
    by (auto simp: readPhysicalU64_def split: prod.splits sum.splits)
  show ?thesis
    using run ok hash translateFrom_not_ub [OF ok] check_pte_not_ub insert_dtlb_not_ub [OF ok] guest_ok_tlb(2) [OF ok]
    by (auto simp: walk_vhpt_def Let_def dest: rd split: sum.splits option.splits prod.splits)
qed

lemma TranslateDataAddress_guest:
  assumes ok: "guest_ok s" and run: "TranslateDataAddress s m va acc force = (r, s', m')"
  shows "guest_ok s' \<and> r \<noteq> Inl ub"
proof -
  have miss: "translate_miss s m va a rv (cpu_cr s ! 8) = (r, s', m') \<Longrightarrow> guest_ok s' \<and> r \<noteq> Inl ub" for a rv
    using walk_vhpt_guest [OF ok, of m va a rv r s' m'] ok
    by (auto simp: translate_miss_def Let_def split: if_splits)
  have fixed: "fixed_alias s va rid \<noteq> Inl ub" for rid
    using application_register [OF ok, of 3]
    by (auto simp: fixed_alias_def and_then_def lift_cpp_def split: sum.splits)
  show ?thesis
    using run ok translateFrom_not_ub [OF ok] fixed miss
    by (auto simp: TranslateDataAddress_def region_register control_register Let_def
      split: if_splits sum.splits option.splits)
qed

lemma TranslateDataAddress_machine:
  "machine_ok (s, m) \<Longrightarrow> TranslateDataAddress s m va acc force = (r, s', m') \<Longrightarrow> machine_ok (s', m') \<and> r \<noteq> Inl ub"
  using TranslateDataAddress_guest [of s m va acc force r s' m'] TranslateDataAddress_keeps [of s m va acc force r s' m']
  by (simp add: machine_ok_def devices_sound_def)

lemma mem_not_ub:
  "mem_Read m a dest \<noteq> (Inl (Std UndefinedBehaviour), m')"
  "mem_Write a bs m \<noteq> (Inl (Std UndefinedBehaviour), m')"
  by (auto simp: mem_Read_def mmuRead_def mem_Write_def mmuWrite_def Let_def checkBounds_def CheckPermissionOrThrow_def
      TranslateAddress_def split: if_splits option.splits sum.splits prod.splits)

lemma tryDeviceWrite_sound:
  "tryDeviceWrite ds a bs = Some ds' \<Longrightarrow> length bs < 2 ^ 64 \<Longrightarrow> \<forall>(i, d) \<in> set ds. dev_ok d \<Longrightarrow> \<forall>(i, d) \<in> set ds'. dev_ok d"
proof (induction ds a bs arbitrary: ds' rule: tryDeviceWrite.induct)
  case (2 i d ds a bs)
  then show ?case
    by (fastforce split: if_splits dest: vm_device.wr_ok)
qed simp

lemma mem_Write_sound:
  assumes "mem_Write a bs m = (r, m')" "length bs < 2 ^ 64" "devices_sound m"
  shows "devices_sound m'"
  using assms tryDeviceWrite_sound [of "mem_devices m" a bs]
  by (auto simp: mem_Write_def mmuWrite_def devices_sound_def Let_def split: if_splits option.splits sum.splits prod.splits)

lemma read_loop_machine:
  assumes "machine_ok (s, m)" "length dest < 2 ^ 64" "completed \<le> length dest"
    "read_data_loop s m va dest completed = Some (r, buf, s', m')"
  shows "machine_ok (s', m') \<and> r \<noteq> Inl ub"
  using assms
proof (induction "length dest - completed" arbitrary: s m dest completed rule: less_induct)
  case less
  show ?case
  proof (cases "completed < length dest")
    case False
    with less.prems show ?thesis by (subst (asm) read_data_loop.simps) auto
  next
    case True
    let ?a = "va + of_nat completed"
    obtain r1 s1 m1 where tr: "TranslateDataAddress s m ?a ACC_READ False = (r1, s1, m1)"
      by (metis prod_cases3)
    note ok1 = TranslateDataAddress_machine [OF less.prems(1) tr]
    show ?thesis
    proof (cases r1)
      case (Inl e)
      with tr ok1 True less.prems(4) show ?thesis by (subst (asm) read_data_loop.simps) auto
    next
      case (Inr t)
      let ?n = "page_amount ?a t (length dest - completed)"
      have n: "0 < ?n" "?n \<le> length dest - completed"
        using page_amount_bounds [OF TranslateDataAddress_page_sized [OF tr [unfolded Inr]]] True less.prems(2) by simp_all
      obtain r2 m2 where rd: "mem_Read m1 (tr_physicalAddress t) (read_bytes dest completed ?n) = (r2, m2)"
        by (meson surj_pair)
      have ok2: "machine_ok (s1, m2)"
        using ok1 mem_Read_keeps [OF rd] by (simp add: machine_ok_def devices_sound_def)
      show ?thesis
      proof (cases r2)
        case (Inl e)
        with tr Inr rd ok2 True less.prems(4) mem_not_ub(1) show ?thesis
          by (subst (asm) read_data_loop.simps) (auto simp: Let_def)
      next
        case (Inr bs)
        have bs: "length bs = ?n"
          using mem_Read_length [OF rd [unfolded Inr]] n ok1 less.prems(2) True by (simp add: machine_ok_def)
        let ?d = "write_bytes dest completed bs"
        have d: "length ?d = length dest" using bs n by simp
        have "read_data_loop s1 m2 va ?d (completed + ?n) = Some (r, buf, s', m')"
          using less.prems(4) tr \<open>r1 = Inr t\<close> rd Inr True by (subst (asm) read_data_loop.simps) (simp add: Let_def)
        then show ?thesis
          using less.hyps [of ?d "completed + ?n" s1 m2] n d True less.prems ok2 by simp
      qed
    qed
  qed
qed

lemma write_loop_machine:
  assumes "machine_ok (s, m)" "length src < 2 ^ 64" "completed \<le> length src"
    "write_data_loop s m va src completed = Some (r, s', m')"
  shows "machine_ok (s', m') \<and> r \<noteq> Inl ub"
  using assms
proof (induction "length src - completed" arbitrary: s m completed rule: less_induct)
  case less
  show ?case
  proof (cases "completed < length src")
    case False
    with less.prems show ?thesis by (subst (asm) write_data_loop.simps) auto
  next
    case True
    let ?a = "va + of_nat completed"
    obtain r1 s1 m1 where tr: "TranslateDataAddress s m ?a ACC_WRITE False = (r1, s1, m1)"
      by (metis prod_cases3)
    note ok1 = TranslateDataAddress_machine [OF less.prems(1) tr]
    show ?thesis
    proof (cases r1)
      case (Inl e)
      with tr ok1 True less.prems(4) show ?thesis by (subst (asm) write_data_loop.simps) auto
    next
      case (Inr t)
      let ?n = "page_amount ?a t (length src - completed)"
      have n: "0 < ?n" "?n \<le> length src - completed"
        using page_amount_bounds [OF TranslateDataAddress_page_sized [OF tr [unfolded Inr]]] True less.prems(2) by simp_all
      obtain r2 m2 where wr: "mem_Write (tr_physicalAddress t) (read_bytes src completed ?n) m1 = (r2, m2)"
        by (meson surj_pair)
      have ok2: "machine_ok (s1, m2)"
        using ok1 mem_Write_sound [OF wr] n less.prems(2) True by (simp add: machine_ok_def)
      show ?thesis
      proof (cases r2)
        case (Inl e)
        with tr Inr wr ok2 True less.prems(4) mem_not_ub(2) show ?thesis
          by (subst (asm) write_data_loop.simps) (auto simp: Let_def)
      next
        case (Inr u)
        have "write_data_loop s1 m2 va src (completed + ?n) = Some (r, s', m')"
          using less.prems(4) tr \<open>r1 = Inr t\<close> wr Inr True by (subst (asm) write_data_loop.simps) (simp add: Let_def)
        then show ?thesis
          using less.hyps [of "completed + ?n" s1 m2] n True less.prems ok2 by simp
      qed
    qed
  qed
qed

interpretation guest: execution_context machine_ok
proof
  fix s m op s' i f a acc force n bs
  show "cpu_exec op s \<noteq> Inl UndefinedBehaviour" if "machine_ok (s, m)" "op_legal op"
    using that by (intro exec_no_ub) (simp_all add: machine_ok_def op_legal_iff)
  show "machine_ok (s', m)" if "machine_ok (s, m)" "op_legal op" "cpu_exec op s = Inr s'"
    using that guest_ok_exec [of s op s'] by (simp add: machine_ok_def)
  show "GetGR s i \<noteq> Inl UndefinedBehaviour \<and> GetGRNaT s i \<noteq> Inl UndefinedBehaviour \<and>
      GetFR s i \<noteq> Inl UndefinedBehaviour \<and> GetPR s i \<noteq> Inl UndefinedBehaviour \<and> GetPRUnrotated s i \<noteq> Inl UndefinedBehaviour \<and>
      GetBR s i \<noteq> Inl UndefinedBehaviour \<and> GetAR s i \<noteq> Inl UndefinedBehaviour \<and> GetCR s i \<noteq> Inl UndefinedBehaviour \<and>
      GetRR s i \<noteq> Inl UndefinedBehaviour \<and> GetCPUID s i \<noteq> Inl UndefinedBehaviour" if "machine_ok (s, m)"
    using that by (simp add: machine_ok_def guest_ok_def gr_bank.get_no_ub gr_nat_bank.get_no_ub fr_bank.get_no_ub
      pr_bank.get_no_ub pr_unrotated_bank.get_no_ub br_bank.get_no_ub ar_bank.get_no_ub cr_bank.get_no_ub rr_bank.get_no_ub
      GetCPUID_def)
  show "length f = 16" if "machine_ok (s, m)" "GetFR s i = Inr f"
    using that cpu_shape_fr [of s "MapFR s i"] MapFR_less [of i s]
    by (auto simp: machine_ok_def guest_ok_def GetFR_def Let_def fr_zero_def fr_one_def arr_get_def split: if_splits)
  show "GetSOR s \<le> 12" if "machine_ok (s, m)"
    using that by (simp add: machine_ok_def guest_ok_def frame_ok_def)
  show "steps machine_ok (translateIa64KernelDataAddress a acc force) (\<lambda>_. True)"
    unfolding steps_def translateIa64KernelDataAddress_def
    using TranslateDataAddress_machine by (fastforce split: prod.splits sum.splits)
  show "TranslateAddress (mem_mmu m) a \<noteq> Inl (Std UndefinedBehaviour) \<and>
      CheckPermissionOrThrow (mem_mmu m) a acc \<noteq> Inl (Std UndefinedBehaviour)" if "machine_ok (s, m)"
    by (auto simp: TranslateAddress_def CheckPermissionOrThrow_def Let_def split: option.splits prod.splits if_splits)
  show "steps machine_ok (readIa64Data a n) (\<lambda>bs. length bs = n)" if n64: "n < 2 ^ 64"
    unfolding steps_def
  proof (intro allI impI)
    fix \<sigma>
    assume ok: "machine_ok \<sigma>"
    obtain s m where \<sigma>: "\<sigma> = (s, m)" by (cases \<sigma>)
    obtain r buf s' m' where rd: "ReadData s m a (replicate n 0) = Some (r, buf, s', m')" "length buf = n"
      using read_data_loop_total [of m "replicate n 0" 0 s a] ok n64 by (auto simp: ReadData_def \<sigma> machine_ok_def)
    then have "machine_ok (s', m') \<and> r \<noteq> Inl ub"
      using read_loop_machine [of s m "replicate n 0" 0 a r buf s' m'] ok n64 by (simp add: ReadData_def \<sigma>)
    with rd show "\<exists>r \<sigma>'. readIa64Data a n \<sigma> = Some (r, \<sigma>') \<and> machine_ok \<sigma>' \<and> r \<noteq> Inl ub \<and> (\<forall>x. r = Inr x \<longrightarrow> length x = n)"
      by (cases r) (simp_all add: readIa64Data_def \<sigma>)
  qed
  show "steps machine_ok (writeIa64Data a bs) (\<lambda>_. True)" if len: "length bs < 2 ^ 64"
    unfolding steps_def
  proof (intro allI impI)
    fix \<sigma>
    assume ok: "machine_ok \<sigma>"
    obtain s m where \<sigma>: "\<sigma> = (s, m)" by (cases \<sigma>)
    obtain r s' m' where wr: "WriteData s m a bs = Some (r, s', m')"
      using write_data_loop_total [of bs 0 s m a] len by (auto simp: WriteData_def)
    then have "machine_ok (s', m') \<and> r \<noteq> Inl ub"
      using write_loop_machine [of s m bs 0 a r s' m'] ok len by (simp add: WriteData_def \<sigma>)
    with wr show "\<exists>r \<sigma>'. writeIa64Data a bs \<sigma> = Some (r, \<sigma>') \<and> machine_ok \<sigma>' \<and> r \<noteq> Inl ub \<and> (\<forall>x. r = Inr x \<longrightarrow> True)"
      by (simp add: writeIa64Data_def \<sigma>)
  qed
qed

subsection \<open>Every legal instruction is safe\<close>

text \<open>C3: executing a legal instruction on a sound machine always returns, keeps the processor invariant
  and the devices, and never indexes outside a register file, shifts by the word length or faults in
  any other undefined way: it completes or throws a documented exception.\<close>

theorem execute_safe:
  assumes "legal_instruction i" "guest_ok s" "devices_sound m"
  shows "\<exists>r s' m'. Execute h ignorePredicate i (s, m) = Some (r, s', m') \<and> guest_ok s' \<and> devices_sound m' \<and>
    r \<noteq> Inl (Other (Std UndefinedBehaviour))"
  using stepsD [OF guest.Execute_steps [OF assms(1)], of "(s, m)" h ignorePredicate] assms(2,3)
  by (auto simp: machine_ok_def)

lemma execute_safe_witness:
  "\<forall>h. \<exists>r s' m'. Execute h False (InstructionEx (Memory_Op ST8) M_UNIT) (Reset, demo_table) = Some (r, s', m') \<and>
     guest_ok s' \<and> devices_sound m' \<and> r \<noteq> Inl (Other (Std UndefinedBehaviour))"
proof
  fix h
  have "legal_instruction (InstructionEx (Memory_Op ST8) M_UNIT)" "devices_sound demo_table"
    by (simp_all add: legal_instruction_def InstructionEx_def devices_sound_def demo_table_def)
  from execute_safe [OF this(1) guest_ok_Reset this(2), of h False]
  show "\<exists>r s' m'. Execute h False (InstructionEx (Memory_Op ST8) M_UNIT) (Reset, demo_table) = Some (r, s', m') \<and>
     guest_ok s' \<and> devices_sound m' \<and> r \<noteq> Inl (Other (Std UndefinedBehaviour))" .
qed

end
