(* ===== verification/Execute_Compare.thy ===== *)
theory Execute_Compare
  imports Execute_Functional
begin

text \<open>
  What compares and bit tests do to the predicates: \<open>compare_spec\<close> gives the architectural meaning of a
  completer as a function of the qualifying predicate, the relation and the old target predicates, and
  \<open>compare_predicates\<close> shows that \<open>InstructionEx::Execute\<close> implements it, leaving everything else alone.
\<close>

definition compare_spec :: "compare_completer \<Rightarrow> bool \<Rightarrow> bool \<Rightarrow> bool \<times> bool \<Rightarrow> bool \<times> bool" where
  "compare_spec completer qp r old =
     (case completer of
        NORMAL \<Rightarrow> if qp then (r, \<not> r) else old
      | UNC \<Rightarrow> (qp \<and> r, qp \<and> \<not> r)
      | AND_COMPLETER \<Rightarrow> if qp then (fst old \<and> r, snd old \<and> r) else old
      | OR_COMPLETER \<Rightarrow> if qp then (fst old \<or> r, snd old \<or> r) else old
      | OR_ANDCM \<Rightarrow> if qp then (fst old \<or> r, snd old \<and> \<not> r) else old)"

text \<open>
  The relation a compare type stands for, on integers: which part of the operands is read (the \<open>cmp4\<close> forms read
  the low 32 bits), whether as two's complement or as unsigned numbers, and how the two numbers are compared.
\<close>

definition compare_bits :: "compare_type \<Rightarrow> nat" where
  "compare_bits c = (if c \<in> {CMP_EQ, CMP_NE, CMP_LT, CMP_LE, CMP_GT, CMP_GE, CMP_LTU, CMP_LEU, CMP_GTU, CMP_GEU}
     then 64 else 32)"

definition compares_unsigned :: "compare_type \<Rightarrow> bool" where
  "compares_unsigned c \<longleftrightarrow>
     c \<in> {CMP_LTU, CMP_LEU, CMP_GTU, CMP_GEU, CMP4_LTU, CMP4_LEU, CMP4_GTU, CMP4_GEU}"

definition operand_value :: "compare_type \<Rightarrow> u64 \<Rightarrow> int" where
  "operand_value c x =
     (let n = compare_bits c; v = uint x mod 2 ^ n
      in if compares_unsigned c \<or> v < 2 ^ (n - 1) then v else v - 2 ^ n)"

definition relation_spec :: "compare_type \<Rightarrow> u64 \<Rightarrow> u64 \<Rightarrow> bool" where
  "relation_spec c x y =
     (let v = operand_value c x; w = operand_value c y in
      if c \<in> {CMP_EQ, CMP4_EQ} then v = w
      else if c \<in> {CMP_NE, CMP4_NE} then v \<noteq> w
      else if c \<in> {CMP_LT, CMP_LTU, CMP4_LT, CMP4_LTU} then v < w
      else if c \<in> {CMP_LE, CMP_LEU, CMP4_LE, CMP4_LEU} then v \<le> w
      else if c \<in> {CMP_GT, CMP_GTU, CMP4_GT, CMP4_GTU} then w < v
      else w \<le> v)"

lemma signed_take_bit_cases:
  fixes v :: int
  assumes "0 \<le> v" "v < 2 * 2 ^ n"
  shows "signed_take_bit n v = (if v < 2 ^ n then v else v - 2 * 2 ^ n)"
proof (cases "v < 2 ^ n")
  case True
  then show ?thesis
    using assms by (simp add: signed_take_bit_eq_take_bit_shift take_bit_eq_mod)
next
  case False
  have "v + 2 ^ n = (v - 2 ^ n) + 2 * 2 ^ n" by simp
  then have "(v + 2 ^ n) mod (2 * 2 ^ n) = (v - 2 ^ n) mod (2 * 2 ^ n)"
    by (metis mod_add_self2)
  also have "\<dots> = v - 2 ^ n" using False assms by simp
  finally have "(v + 2 ^ n) mod (2 * 2 ^ n) = v - 2 ^ n" .
  then show ?thesis
    using False by (simp add: signed_take_bit_eq_take_bit_shift take_bit_eq_mod)
qed

lemma sint_cases:
  "sint (x :: u64) = (if uint x < 2 ^ 63 then uint x else uint x - 2 ^ 64)"
  "sint (y :: u32) = (if uint y < 2 ^ 31 then uint y else uint y - 2 ^ 32)"
  using signed_take_bit_cases [of "uint x" 63] signed_take_bit_cases [of "uint y" 31]
    uint_bounded [of x] uint_bounded [of y]
  by (simp_all add: sint_uint)

lemma uint_low32: "uint (low32 x) = uint x mod 2 ^ 32"
  by (simp add: low32_def unsigned_ucast_eq take_bit_eq_mod)

lemma operand_value_eq:
  "compare_bits c = 64 \<Longrightarrow> operand_value c x = (if compares_unsigned c then uint x else sint x)"
  "compare_bits c = 32 \<Longrightarrow> operand_value c x = (if compares_unsigned c then uint (low32 x) else sint (low32 x))"
  using uint_bounded [of x] by (simp_all add: operand_value_def Let_def sint_cases uint_low32)

lemma eq_iff_sint: "uint x = uint y \<longleftrightarrow> sint x = sint y" for x y :: "'a::len word"
  by (simp add: word_uint_eq_iff [symmetric] word_eq_iff_signed)

lemma compare_result_spec: "compare_result c x y = relation_spec c x y"
proof (cases "compare_bits c = 64")
  case True
  then show ?thesis
    by (cases c; simp add: relation_spec_def Let_def operand_value_eq;
        simp add: compare_bits_def compares_unsigned_def word_less_def word_le_def word_uint_eq_iff eq_iff_sint)
next
  case False
  then have "compare_bits c = 32" by (simp add: compare_bits_def split: if_splits)
  then show ?thesis
    by (cases c; simp add: relation_spec_def Let_def operand_value_eq;
        simp add: compare_bits_def compares_unsigned_def word_less_def word_le_def word_uint_eq_iff eq_iff_sint)
qed

text \<open>Predicate \<open>j\<close> after the targets \<open>p1\<close> and \<open>p2\<close> have become \<open>new\<close>; predicate 0 stays true, and
  where both targets are one predicate the second counts, as the code writes it last.\<close>

definition pr_after :: "cpu_state \<Rightarrow> u8 \<Rightarrow> u8 \<Rightarrow> bool \<times> bool \<Rightarrow> nat \<Rightarrow> cpp_error + bool" where
  "pr_after s p1 p2 new j =
     (if j = 0 then Inr True else if j = unat p2 then Inr (snd new)
      else if j = unat p1 then Inr (fst new) else GetPR s j)"

definition writes_predicates :: "unit exec \<Rightarrow> cpu_state \<Rightarrow> u8 \<Rightarrow> u8 \<Rightarrow> bool \<times> bool \<Rightarrow> bool" where
  "writes_predicates ex s p1 p2 new \<longleftrightarrow> (\<forall>m. \<exists>pr. ex (s, m) = Some (Inr (), s\<lparr>cpu_pr := pr\<rparr>, m) \<and>
     (\<forall>j < 64. GetPR (s\<lparr>cpu_pr := pr\<rparr>) j = pr_after s p1 p2 new j))"

lemma GetPR_0 [simp]: "GetPR s 0 = Inr True"
  by (simp add: GetPR_def)

lemma set_pr_run:
  assumes "cpu_shape s" "unat p < 64"
  shows "\<exists>pr. SetPR (unat p) b s = Inr (s\<lparr>cpu_pr := pr\<rparr>) \<and> cpu_shape (s\<lparr>cpu_pr := pr\<rparr>) \<and>
    (\<forall>j < 64. GetPR (s\<lparr>cpu_pr := pr\<rparr>) j = (if j = unat p \<and> j \<noteq> 0 then Inr b else GetPR s j))"
proof -
  obtain s' where s': "SetPR (unat p) b s = Inr s'" "cpu_shape s'"
    using pr_bank.set_in [OF assms(1), of "unat p" b] assms(2) by auto
  have "\<exists>pr. s' = s\<lparr>cpu_pr := pr\<rparr>"
    using s'(1) by (cases "unat p = 0") (auto simp: SetPR_def arr_set_def intro: exI [of _ "cpu_pr s"] split: if_splits)
  with s' show ?thesis
    using pr_bank.get_set [OF assms(1) TrueI s'(1)] by (auto split: if_splits)
qed

lemma set_predicates_writes:
  assumes "cpu_shape s" "unat (in_dst i) < 64" "unat (in_src3 i) < 64"
  shows "writes_predicates (set_predicates i a b) s (in_dst i) (in_src3 i) (a, b)"
  unfolding writes_predicates_def
proof
  fix m
  obtain pr where pr: "SetPR (unat (in_dst i)) a s = Inr (s\<lparr>cpu_pr := pr\<rparr>)" "cpu_shape (s\<lparr>cpu_pr := pr\<rparr>)"
    "\<forall>j < 64. GetPR (s\<lparr>cpu_pr := pr\<rparr>) j = (if j = unat (in_dst i) \<and> j \<noteq> 0 then Inr a else GetPR s j)"
    using set_pr_run [OF assms(1,2)] by blast
  obtain pr' where pr': "SetPR (unat (in_src3 i)) b (s\<lparr>cpu_pr := pr\<rparr>) = Inr (s\<lparr>cpu_pr := pr'\<rparr>)"
    "\<forall>j < 64. GetPR (s\<lparr>cpu_pr := pr'\<rparr>) j = (if j = unat (in_src3 i) \<and> j \<noteq> 0 then Inr b else GetPR (s\<lparr>cpu_pr := pr\<rparr>) j)"
    using set_pr_run [OF pr(2) assms(3), of b] by auto
  have "set_predicates i a b (s, m) = Some (Inr (), s\<lparr>cpu_pr := pr'\<rparr>, m)"
    using pr(1) pr'(1) by (simp add: set_predicates_def next_step_def bind_def to_cpu_def)
  moreover have "GetPR (s\<lparr>cpu_pr := pr'\<rparr>) j = pr_after s (in_dst i) (in_src3 i) (a, b) j" if "j < 64" for j
    using pr(3) pr'(2) that by (auto simp: pr_after_def)
  ultimately show "\<exists>pr. set_predicates i a b (s, m) = Some (Inr (), s\<lparr>cpu_pr := pr\<rparr>, m) \<and>
      (\<forall>j < 64. GetPR (s\<lparr>cpu_pr := pr\<rparr>) j = pr_after s (in_dst i) (in_src3 i) (a, b) j)"
    by blast
qed

lemma ret_writes:
  assumes "GetPR s (unat p1) = Inr a" "GetPR s (unat p2) = Inr b"
  shows "writes_predicates (ret ()) s p1 p2 (a, b)"
  unfolding writes_predicates_def
  using assms by (auto simp: pr_after_def intro!: exI [of _ "cpu_pr s"])

lemma compare_predicates_write:
  assumes "cpu_shape s" "unat (in_dst i) < 64" "unat (in_src3 i) < 64"
    and "GetPR s (unat (in_dst i)) = Inr a" "GetPR s (unat (in_src3 i)) = Inr b"
  shows "writes_predicates (writeComparePredicates i r) s (in_dst i) (in_src3 i)
    (compare_spec (in_compareCompleter i) True r (a, b))"
  using set_predicates_writes [OF assms(1-3)] ret_writes [OF assms(4,5)]
  by (cases "in_compareCompleter i") (simp_all add: writeComparePredicates_def compare_spec_def)

lemma CheckPredicate_run: "GetPR s (unat p) = Inr q \<Longrightarrow> CheckPredicate p (s, m) = Some (Inr q, s, m)"
  by (cases "p = 0") (auto simp: CheckPredicate_def from_cpu_def)

lemma Execute_qualified:
  assumes "GetPR s (unat (in_predicate i)) = Inr q" "in_type i \<notin> {Branch BR_CLOOP, Branch BR_CTOP, Branch BR_CEXIT}"
  shows "Execute h False i (s, m) = (if q then dispatch h i else nullified i) (s, m)"
  using assms(2)
  by (simp add: Execute_def Let_def
      bind_Inr [of "CheckPredicate (in_predicate i)" "(s, m)" q "(s, m)", OF CheckPredicate_run [OF assms(1)]])

text \<open>C32: a compare, with any of the twenty relations on 64-bit or on 32-bit operands, on registers or an immediate,
  writes its two target predicates as the architecture says for its completer, as a function of the qualifying
  predicate, of the relation between the integers the operands stand for (signed or unsigned, at the width of the
  relation) and of the old targets, nullified compares included; if both targets are the same predicate the second
  counts. Nothing else changes. The registers and predicates it names must exist.\<close>

theorem compare_predicates:
  assumes "in_type i = Compare_Op c" "cpu_shape s"
    and "unat (in_dst i) < 64" "unat (in_src3 i) < 64"
    and "GetPR s (unat (in_predicate i)) = Inr q"
    and "GetPR s (unat (in_dst i)) = Inr a" "GetPR s (unat (in_src3 i)) = Inr b"
    and "if in_hasImmediate i then x = in_immediate i else GetGR s (unat (in_src1 i)) = Inr x"
    and "GetGR s (unat (in_src2 i)) = Inr y"
  shows "writes_predicates (Execute h False i) s (in_dst i) (in_src3 i)
    (compare_spec (in_compareCompleter i) q (relation_spec c x y) (a, b))"
proof -
  have run: "Execute h False i (s, m) = (if q then writeComparePredicates i (compare_result c x y) else nullified i) (s, m)" for m
  proof -
    have "dispatch h i (s, m) = writeComparePredicates i (compare_result c x y) (s, m)"
      using assms(8,9) by (simp add: dispatch_def assms(1) exec_compare_def bind_from_cpu split: if_splits)
    moreover have "in_type i \<notin> {Branch BR_CLOOP, Branch BR_CTOP, Branch BR_CEXIT}"
      by (simp add: assms(1))
    ultimately show ?thesis
      by (simp add: Execute_qualified [OF assms(5)])
  qed
  have "writes_predicates (nullified i) s (in_dst i) (in_src3 i) (compare_spec (in_compareCompleter i) False r (a, b))" for r
  proof (cases "in_compareCompleter i = UNC")
    case True
    then have "nullified i = next_step (set_predicates i False False) (ret ())"
      by (simp add: nullified_def assms(1) is_compare_def)
    moreover have "next_step w (ret ()) \<sigma> = w \<sigma>" for w \<sigma>
      by (auto simp: next_step_def bind_def split: option.splits sum.splits)
    ultimately show ?thesis
      using set_predicates_writes [OF assms(2-4)] True by (simp add: writes_predicates_def compare_spec_def)
  next
    case False
    then have "nullified i = ret ()" "compare_spec (in_compareCompleter i) False r (a, b) = (a, b)"
      by (auto simp: nullified_def assms(1) next_step_def compare_spec_def split: compare_completer.splits)
    with ret_writes [OF assms(6,7)] show ?thesis by simp
  qed
  with compare_predicates_write [OF assms(2-4,6,7)] show ?thesis
    by (cases q) (simp_all add: writes_predicates_def run compare_result_spec)
qed

lemma compare_predicates_witness:
  "\<forall>h. writes_predicates (Execute h False (InstructionEx (Compare_Op CMP_LTU) M_UNIT
     \<lparr>in_dst := 6, in_src3 := 7, in_hasImmediate := True, in_immediate := 5, in_compareCompleter := UNC\<rparr>)) Reset 6 7 (False, True)"
proof -
  have "writes_predicates (Execute h False (InstructionEx (Compare_Op CMP_LTU) M_UNIT
     \<lparr>in_dst := 6, in_src3 := 7, in_hasImmediate := True, in_immediate := 5, in_compareCompleter := UNC\<rparr>)) Reset 6 7 (False, True)" for h
  proof -
    let ?i = "InstructionEx (Compare_Op CMP_LTU) M_UNIT
       \<lparr>in_dst := 6, in_src3 := 7, in_hasImmediate := True, in_immediate := 5, in_compareCompleter := UNC\<rparr>"
    have "cpu_shape Reset" by (rule cpu_shape_Reset)
    moreover obtain a b where "GetPR Reset 6 = Inr a" "GetPR Reset 7 = Inr b"
      using GetPR_ok [OF calculation, of 6] GetPR_ok [OF calculation, of 7] by auto
    ultimately show ?thesis
      using compare_predicates [of ?i CMP_LTU Reset True a b 5 0 h]
      by (simp add: InstructionEx_def GetGR_def compare_spec_def relation_spec_def operand_value_def compares_unsigned_def
          compare_bits_def)
  qed
  then show ?thesis by (intro allI)
qed

text \<open>A nullified bit test leaves its targets alone even with the \<open>unc\<close> completer, which should clear both.\<close>

theorem nullified_tbit_keeps_targets:
  assumes "in_type i = Test t" "GetPR s (unat (in_predicate i)) = Inr False" "in_compareCompleter i = UNC"
  shows "Execute h False i (s, m) = Some (Inr (), s, m) \<and> compare_spec (in_compareCompleter i) False r old = (False, False)"
proof -
  have "in_type i \<notin> {Branch BR_CLOOP, Branch BR_CTOP, Branch BR_CEXIT}"
    by (simp add: assms(1))
  from Execute_qualified [OF assms(2) this, of h m] show ?thesis
    by (simp add: nullified_def next_step_def assms(1,3) is_compare_def compare_spec_def)
qed

lemma nullified_tbit_keeps_targets_witness:
  "\<forall>h m. Execute h False (InstructionEx (Test TBIT_Z) I_UNIT
     \<lparr>in_predicate := 6, in_dst := 7, in_src3 := 8, in_hasImmediate := True, in_compareCompleter := UNC\<rparr>) (Reset, m) = Some (Inr (), Reset, m)"
proof -
  have "Execute h False (InstructionEx (Test TBIT_Z) I_UNIT
     \<lparr>in_predicate := 6, in_dst := 7, in_src3 := 8, in_hasImmediate := True, in_compareCompleter := UNC\<rparr>) (Reset, m) = Some (Inr (), Reset, m)" for h m
  proof -
    have "GetPR Reset 6 = Inr False"
      by (simp add: GetPR_def MapPR_def Reset_def GetRRB_PR_def get_bits_def)
    then show ?thesis
      using nullified_tbit_keeps_targets [of "InstructionEx (Test TBIT_Z) I_UNIT
        \<lparr>in_predicate := 6, in_dst := 7, in_src3 := 8, in_hasImmediate := True, in_compareCompleter := UNC\<rparr>" TBIT_Z Reset h m]
      by (simp add: InstructionEx_def)
  qed
  then show ?thesis by (intro allI)
qed

end
