(* ===== verification/Execute_Bits.thy ===== *)
theory Execute_Bits
  imports Execute_Functional
begin

text \<open>
  Bit-field, shift and byte instructions as whole instructions: what they leave in the destination register
  and in its NaT bit. \<open>SetGR\<close> clears the NaT bit of its register, so an instruction that reads the NaT bits of
  its sources after writing its destination loses the bit when both are the same register.
\<close>

subsection \<open>Writes of general registers\<close>

abbreviation "gr_ok s \<equiv> cpu_shape s \<and> frame_ok s"

text \<open>How a general-register write shows to later reads.\<close>

definition gr_update :: "cpu_state \<Rightarrow> nat \<Rightarrow> u64 \<Rightarrow> bool \<Rightarrow> cpu_state \<Rightarrow> bool" where
  "gr_update s r v n s' \<longleftrightarrow> gr_ok s' \<and>
     (\<forall>j < 128. GetGR s' j = (if j = r \<and> j \<noteq> 0 then Inr v else GetGR s j) \<and>
       GetGRNaT s' j = (if j = r \<and> j \<noteq> 0 then Inr n else GetGRNaT s j)) \<and>
     s' = s\<lparr>cpu_gr := cpu_gr s', cpu_gr_nat := cpu_gr_nat s'\<rparr>"

lemma SetGR_update:
  assumes "gr_ok s" "r < 128"
  shows "\<exists>s'. SetGR r v s = Inr s' \<and> gr_update s r v False s'"
proof -
  obtain s' where s': "SetGR r v s = Inr s'" "gr_ok s'"
    using gr_bank.set_in [OF assms(1), of r v] assms(2) by auto
  have "GetGRNaT s' j = (if j = r \<and> j \<noteq> 0 then Inr False else GetGRNaT s j)" if "j < 128" for j
    using s'(1) assms that
    by (auto simp: SetGR_def GetGRNaT_def Let_def MapGR_less MapGR_nonzero nth_list_update Map_eq_iff split: if_splits)
  moreover have "s' = s\<lparr>cpu_gr := cpu_gr s', cpu_gr_nat := cpu_gr_nat s'\<rparr>"
    using s'(1) by (auto simp: SetGR_def Let_def arr_set_def split: if_splits)
  ultimately show ?thesis
    using s' gr_bank.get_set [OF assms(1) TrueI s'(1)] by (auto simp: gr_update_def)
qed

lemma SetGRNaT_update:
  assumes "gr_update s r v n0 s1" "r < 128"
  shows "\<exists>s'. SetGRNaT r n s1 = Inr s' \<and> gr_update s r v n s'"
proof -
  have ok: "gr_ok s1" using assms(1) by (simp add: gr_update_def)
  obtain s' where s': "SetGRNaT r n s1 = Inr s'" "gr_ok s'"
    using gr_nat_bank.set_in [OF ok, of r n] assms(2) by auto
  have "s' = s1\<lparr>cpu_gr_nat := cpu_gr_nat s'\<rparr>" "GetGR s' j = GetGR s1 j" for j
    using s'(1) by (auto simp: SetGRNaT_def GetGR_def arr_set_def MapGR_def Let_def GetSOR_def GetRRB_GR_def split: if_splits)
  then show ?thesis
    using assms(1) s' gr_nat_bank.get_set [OF ok TrueI s'(1)]
    by (cases s; cases s1; cases s') (auto simp: gr_update_def)
qed

lemma gr_ex: "gr_ok s \<Longrightarrow> r < 128 \<Longrightarrow> \<exists>a. GetGR s r = Inr a"
  and nat_ex: "gr_ok s \<Longrightarrow> r < 128 \<Longrightarrow> \<exists>n. GetGRNaT s r = Inr n"
  using gr_bank.get_in [of s r] gr_nat_bank.get_in [of s r] by auto

lemma set_gr_next:
  assumes "gr_ok s" "unat r < 128"
  obtains s' where "gr_update s (unat r) v False s'" "\<And>k :: unit exec. next_step (set_gr r v) k (s, m) = k (s', m)"
proof -
  obtain s' where s': "SetGR (unat r) v s = Inr s'" "gr_update s (unat r) v False s'"
    using SetGR_update [OF assms] by blast
  then show thesis
    by (intro that [of s']) (simp_all add: next_step_def bind_def to_cpu_def)
qed

lemma set_gr_run:
  assumes "gr_ok s" "unat r < 128"
  obtains s' where "gr_update s (unat r) v False s'" "set_gr r v (s, m) = Some (Inr (), s', m)"
  using SetGR_update [OF assms, of v] that by (auto simp: to_cpu_def)

lemma set_nat_run:
  assumes "gr_update s (unat r) v n0 s1" "unat r < 128"
  obtains s' where "gr_update s (unat r) v n s'" "set_gr_nat r n (s1, m) = Some (Inr (), s', m)"
  using SetGRNaT_update [OF assms, of n] that by (auto simp: to_cpu_def)

lemma nat_after:
  "gr_update s r v n s' \<Longrightarrow> j < 128 \<Longrightarrow> GetGRNaT s j = Inr b \<Longrightarrow> r \<noteq> 0 \<Longrightarrow>
   GetGRNaT s' j = Inr (if j = r then n else b)"
  by (simp add: gr_update_def)

text \<open>The end of a shift: the NaT bits of the sources are read after the destination was written.\<close>

lemma late_nat_run:
  assumes u: "gr_update s (unat d) v False s1" and lt: "unat d < 128" "unat a < 128" "unat b < 128" and "d \<noteq> 0"
    and n: "GetGRNaT s (unat a) = Inr na" "GetGRNaT s (unat b) = Inr nb"
  obtains s' where "gr_update s (unat d) v ((d \<noteq> a \<and> na) \<or> (d \<noteq> b \<and> nb)) s'"
    "bind (gr_nat a) (\<lambda>n1. if n1 then set_gr_nat d True else bind (gr_nat b) (\<lambda>n2. set_gr_nat d n2)) (s1, m) = Some (Inr (), s', m)"
proof -
  have d: "unat d \<noteq> 0" using \<open>d \<noteq> 0\<close> by (simp add: unat_eq_zero)
  have a: "GetGRNaT s1 (unat a) = Inr (d \<noteq> a \<and> na)" and b: "GetGRNaT s1 (unat b) = Inr (d \<noteq> b \<and> nb)"
    using nat_after [OF u lt(2) n(1) d] nat_after [OF u lt(3) n(2) d] by (auto simp: word_unat_eq_iff)
  obtain s' where "gr_update s (unat d) v ((d \<noteq> a \<and> na) \<or> (d \<noteq> b \<and> nb)) s'"
    "set_gr_nat d ((d \<noteq> a \<and> na) \<or> (d \<noteq> b \<and> nb)) (s1, m) = Some (Inr (), s', m)"
    using set_nat_run [OF u lt(1)] by blast
  then show thesis
    by (intro that [of s']) (auto simp: bind_from_cpu [where f = "\<lambda>s. GetGRNaT s (unat a)", OF a] bind_from_cpu [where f = "\<lambda>s. GetGRNaT s (unat b)", OF b])
qed

lemma late_nat_run1:
  assumes u: "gr_update s (unat d) v False s1" and lt: "unat d < 128" "unat a < 128" and "d \<noteq> 0"
    and n: "GetGRNaT s (unat a) = Inr na"
  obtains s' where "gr_update s (unat d) v (d \<noteq> a \<and> na) s'"
    "bind (gr_nat a) (\<lambda>n. set_gr_nat d n) (s1, m) = Some (Inr (), s', m)"
proof -
  have d: "unat d \<noteq> 0" using \<open>d \<noteq> 0\<close> by (simp add: unat_eq_zero)
  have a: "GetGRNaT s1 (unat a) = Inr (d \<noteq> a \<and> na)"
    using nat_after [OF u lt(2) n d] by (auto simp: word_unat_eq_iff)
  obtain s' where "gr_update s (unat d) v (d \<noteq> a \<and> na) s'" "set_gr_nat d (d \<noteq> a \<and> na) (s1, m) = Some (Inr (), s', m)"
    using set_nat_run [OF u lt(1)] by blast
  then show thesis
    by (intro that [of s']) (simp_all add: bind_from_cpu [where f = "\<lambda>s. GetGRNaT s (unat a)", OF a])
qed

subsection \<open>The funnel shift\<close>

lemma funnel_shift:
  fixes low high :: u64
  assumes "c < 64"
  shows "unat (if c = 0 then low else drop_bit c low OR push_bit (64 - c) high) =
    ((2 ^ 64 * unat high + unat low) div 2 ^ c) mod 2 ^ 64"
proof -
  define P where "P = push_bit 64 (unat high) OR unat low"
  have "P = push_bit 64 (unat high) + unat low"
    unfolding P_def by (rule disjunctive_add [symmetric]) (auto simp: bit_simps dest: bit_imp_le_length)
  then have P: "2 ^ 64 * unat high + unat low = P"
    by (simp add: push_bit_eq_mult)
  have "take_bit 64 (drop_bit c P) = unat (if c = 0 then low else drop_bit c low OR push_bit (64 - c) high)"
  proof (rule bit_eqI)
    fix k
    show "bit (take_bit 64 (drop_bit c P)) k = bit (unat (if c = 0 then low else drop_bit c low OR push_bit (64 - c) high)) k"
      using assms by (auto simp: P_def bit_simps dest: bit_imp_le_length) (auto simp: not_less add.commute [of k c] dest: bit_imp_le_length)
  qed
  then show ?thesis
    by (simp only: P) (simp add: take_bit_eq_mod drop_bit_eq_div)
qed

lemma exec_shift_run:
  assumes "in_type i = Shift t" "in_predicate i = 0"
  shows "Execute h ignore i = exec_shift t i"
  using assms by (cases ignore) (simp_all add: Execute_true Execute_ignore dispatch_simps)

text \<open>A sample state: every general register 0, the NaT bit of \<open>r5\<close> set.\<close>

definition nat_in_r5 :: cpu_state where
  "nat_in_r5 = Reset\<lparr>cpu_gr_nat := (cpu_gr_nat Reset)[5 := True]\<rparr>"

lemma nat_in_r5:
  "gr_ok nat_in_r5" "GetGR nat_in_r5 5 = Inr 0" "GetGR nat_in_r5 6 = Inr 0" "GetGRNaT nat_in_r5 5 = Inr True"
  "GetGRNaT nat_in_r5 6 = Inr False"
proof -
  show "gr_ok nat_in_r5"
    using cpu_shape_set_nat [OF cpu_shape_Reset, of 5 True] guest_ok_Reset
    by (simp add: nat_in_r5_def guest_ok_def frame_ok_def GetSOR_def)
qed (simp_all add: nat_in_r5_def GetGR_def GetGRNaT_def MapGR_def Reset_def GetSOR_def get_bits_def Let_def)

text \<open>\<open>shrp\<close> leaves the low 64 bits of the 128-bit value \<open>src1:src2\<close> shifted right; the NaT bit of a source
  that is also the destination is lost.\<close>

theorem shrp_funnel:
  assumes "in_type i = Shift SHRP" "in_predicate i = 0" "in_hasImmediate i" "gr_ok s"
    and "unat (in_dst i) < 128" "in_dst i \<noteq> 0" "unat (in_src1 i) < 128" "unat (in_src2 i) < 128"
    and "GetGR s (unat (in_src1 i)) = Inr high" "GetGRNaT s (unat (in_src1 i)) = Inr n1"
    and "GetGR s (unat (in_src2 i)) = Inr low" "GetGRNaT s (unat (in_src2 i)) = Inr n2"
  shows "\<exists>s' v. Execute h ignore i (s, m) = Some (Inr (), s', m) \<and>
    unat v = ((2 ^ 64 * unat high + unat low) div 2 ^ unat (in_immediate i AND 0x3F)) mod 2 ^ 64 \<and>
    gr_update s (unat (in_dst i)) v ((in_dst i \<noteq> in_src1 i \<and> n1) \<or> (in_dst i \<noteq> in_src2 i \<and> n2)) s'"
proof -
  define c where "c = unat (in_immediate i AND 0x3F)"
  define v where "v = (if c = 0 then low else drop_bit c low OR push_bit (64 - c) high)"
  have "in_immediate i AND 0x3F \<le> 0x3F" by (rule word_and_le1)
  then have "c < 64" by (simp add: c_def word_le_nat_alt)
  obtain s1 where s1: "gr_update s (unat (in_dst i)) v False s1"
    "\<And>k :: unit exec. next_step (set_gr (in_dst i) v) k (s, m) = k (s1, m)"
    using set_gr_next [OF assms(4,5)] by blast
  obtain s' where s': "gr_update s (unat (in_dst i)) v ((in_dst i \<noteq> in_src1 i \<and> n1) \<or> (in_dst i \<noteq> in_src2 i \<and> n2)) s'"
    "bind (gr_nat (in_src1 i)) (\<lambda>n1. if n1 then set_gr_nat (in_dst i) True
       else bind (gr_nat (in_src2 i)) (\<lambda>n2. set_gr_nat (in_dst i) n2)) (s1, m) = Some (Inr (), s', m)"
    using late_nat_run [OF s1(1) assms(5,7,8,6,10,12)] by blast
  have "Execute h ignore i (s, m) = Some (Inr (), s', m)"
    using s'(2) assms(3,9,11) by (simp add: exec_shift_run [OF assms(1,2)] bind_from_cpu Let_def c_def [symmetric] v_def [symmetric] s1(2))
  with s'(1) funnel_shift [OF \<open>c < 64\<close>, of low high] show ?thesis
    unfolding c_def [symmetric] v_def [symmetric] by blast
qed

lemma shrp_funnel_witness:
  "\<forall>h m. \<exists>s' v. Execute h False (InstructionEx (Shift SHRP) I_UNIT\<lparr>in_dst := 7, in_src1 := 5, in_src2 := 6, in_immediate := 8,
     in_hasImmediate := True\<rparr>) (nat_in_r5, m) = Some (Inr (), s', m) \<and> gr_update nat_in_r5 7 v True s'"
proof -
  have "\<exists>s' v. Execute h False (InstructionEx (Shift SHRP) I_UNIT\<lparr>in_dst := 7, in_src1 := 5, in_src2 := 6, in_immediate := 8,
     in_hasImmediate := True\<rparr>) (nat_in_r5, m) = Some (Inr (), s', m) \<and> gr_update nat_in_r5 7 v True s'" for h m
  proof -
    let ?i = "InstructionEx (Shift SHRP) I_UNIT\<lparr>in_dst := 7, in_src1 := 5, in_src2 := 6, in_immediate := 8, in_hasImmediate := True\<rparr>"
    show ?thesis
      using shrp_funnel [of ?i nat_in_r5 0 True 0 False h False m] nat_in_r5 by (auto simp: InstructionEx_def)
  qed
  then show ?thesis by (intro allI)
qed

text \<open>\<open>shl\<close> shifts left by the low six bits of the count and propagates the NaT bits of its sources, except those of a
  source that is also the destination, which are cleared before they are read.\<close>

theorem shl_loses_own_nat:
  assumes "in_type i = Shift SHL" "in_predicate i = 0" "gr_ok s"
    and "unat (in_dst i) < 128" "in_dst i \<noteq> 0" "unat (in_src1 i) < 128" "unat (in_src2 i) < 128"
    and "GetGR s (unat (in_src1 i)) = Inr a" "GetGRNaT s (unat (in_src1 i)) = Inr n1"
    and "GetGR s (unat (in_src2 i)) = Inr b" "GetGRNaT s (unat (in_src2 i)) = Inr n2"
  defines "c \<equiv> if in_hasImmediate i then in_immediate i else b"
  shows "\<exists>s'. Execute h ignore i (s, m) = Some (Inr (), s', m) \<and>
    gr_update s (unat (in_dst i)) (a * 2 ^ unat (c AND 0x3F))
      ((in_dst i \<noteq> in_src1 i \<and> n1) \<or> (\<not> in_hasImmediate i \<and> in_dst i \<noteq> in_src2 i \<and> n2)) s'"
proof -
  let ?v = "push_bit (unat (c AND 0x3F)) a"
  have v: "a * 2 ^ unat (c AND 0x3F) = ?v" by (simp add: push_bit_eq_mult)
  obtain s1 where s1: "gr_update s (unat (in_dst i)) ?v False s1"
    "\<And>k :: unit exec. next_step (set_gr (in_dst i) ?v) k (s, m) = k (s1, m)"
    using set_gr_next [OF assms(3,4)] by blast
  show ?thesis
  proof (cases "in_hasImmediate i")
    case True
    obtain s' where s': "gr_update s (unat (in_dst i)) ?v (in_dst i \<noteq> in_src1 i \<and> n1) s'"
      "bind (gr_nat (in_src1 i)) (\<lambda>n. set_gr_nat (in_dst i) n) (s1, m) = Some (Inr (), s', m)"
      using late_nat_run1 [OF s1(1) assms(4,6,5,9)] by blast
    have "(\<lambda>n. if n then set_gr_nat (in_dst i) True else set_gr_nat (in_dst i) False) = (\<lambda>n. set_gr_nat (in_dst i) n)"
      by auto
    then have "Execute h ignore i (s, m) = Some (Inr (), s', m)"
      using s'(2) assms(8) True s1(2) by (simp add: exec_shift_run [OF assms(1,2)] bind_from_cpu c_def)
    with s'(1) True v show ?thesis by auto
  next
    case False
    obtain s' where s': "gr_update s (unat (in_dst i)) ?v ((in_dst i \<noteq> in_src1 i \<and> n1) \<or> (in_dst i \<noteq> in_src2 i \<and> n2)) s'"
      "bind (gr_nat (in_src1 i)) (\<lambda>n1. if n1 then set_gr_nat (in_dst i) True
       else bind (gr_nat (in_src2 i)) (\<lambda>n2. set_gr_nat (in_dst i) n2)) (s1, m) = Some (Inr (), s', m)"
      using late_nat_run [OF s1(1) assms(4,6,7,5,9,11)] by blast
    have "Execute h ignore i (s, m) = Some (Inr (), s', m)"
      using s'(2) assms(8,10) False s1(2) by (simp add: exec_shift_run [OF assms(1,2)] bind_from_cpu c_def)
    with s'(1) False v show ?thesis by auto
  qed
qed

lemma shl_loses_own_nat_witness:
  "\<forall>h m. \<exists>s'. Execute h False (InstructionEx (Shift SHL) I_UNIT\<lparr>in_dst := 5, in_src1 := 5, in_src2 := 6\<rparr>) (nat_in_r5, m)
     = Some (Inr (), s', m) \<and> GetGRNaT nat_in_r5 5 = Inr True \<and> GetGRNaT s' 5 = Inr False"
proof -
  have "\<exists>s'. Execute h False (InstructionEx (Shift SHL) I_UNIT\<lparr>in_dst := 5, in_src1 := 5, in_src2 := 6\<rparr>) (nat_in_r5, m)
     = Some (Inr (), s', m) \<and> GetGRNaT nat_in_r5 5 = Inr True \<and> GetGRNaT s' 5 = Inr False" for h m
  proof -
    let ?i = "InstructionEx (Shift SHL) I_UNIT\<lparr>in_dst := 5, in_src1 := 5, in_src2 := 6\<rparr>"
    show ?thesis
      using shl_loses_own_nat [of ?i nat_in_r5 0 True 0 False h False m] nat_in_r5 by (auto simp: InstructionEx_def gr_update_def)
  qed
  then show ?thesis by (intro allI)
qed

subsection \<open>Bit fields\<close>

lemma bit_field_mask: "bit (field_mask len) n \<longleftrightarrow> n < len \<and> n < 64"
proof (cases "len < 64")
  case True
  then have "field_mask len = mask len"
    by (simp add: field_mask_def mask_eq_exp_minus_1 push_bit_eq_mult)
  with True show ?thesis by (auto simp: bit_simps)
qed (auto simp: field_mask_def bit_simps)

lemma field_len_bounds: "0 < field_len imm" "field_len imm \<le> 64"
proof -
  have "drop_bit 6 imm AND 0x3F \<le> 0x3F" by (rule word_and_le1)
  then show "0 < field_len imm" "field_len imm \<le> 64"
    by (simp_all add: field_len_def word_le_nat_alt)
qed

lemma bit_dep_value:
  "n < 64 \<Longrightarrow> bit (dep_value imm a d) n =
    (if field_pos imm \<le> n \<and> n < field_pos imm + field_len imm then bit a (n - field_pos imm) else bit d n)"
  by (auto simp: dep_value_def Let_def bit_simps bit_field_mask)

lemma extr_dep:
  assumes "field_pos imm + field_len imm \<le> 64"
  shows "extr_value imm (dep_value imm a d) = take_bit (field_len imm) a"
proof (rule bit_word_eqI)
  fix n
  assume "n < LENGTH(64)"
  then show "bit (extr_value imm (dep_value imm a d)) n = bit (take_bit (field_len imm) a) n"
    using assms by (cases "field_pos imm + n < 64") (auto simp: extr_value_def bit_simps bit_field_mask bit_dep_value)
qed

lemma exec_field_run:
  assumes "in_type i = Field t" "in_predicate i = 0"
  shows "Execute h ignore i = exec_field t i"
  using assms by (cases ignore) (simp_all add: Execute_true Execute_ignore dispatch_simps)

text \<open>Depositing a field and extracting it again gives the low bits of the source, zero-extended; the deposit changes only
  the bits of the field.\<close>

theorem deposit_extract:
  assumes "in_type i = Field DEP" "in_type j = Field EXTR" "in_predicate i = 0" "in_predicate j = 0"
    and imm: "in_hasImmediate i" "in_hasImmediate j" "in_immediate j = in_immediate i"
      "drop_bit 12 (in_immediate i) AND 1 = 0"
    and fits: "field_pos (in_immediate i) + field_len (in_immediate i) \<le> 64"
    and regs: "gr_ok s" "unat (in_dst i) < 128" "in_dst i \<noteq> 0" "unat (in_dst j) < 128" "in_dst j \<noteq> 0" "in_src1 j = in_dst i"
    and vals: "GetGR s (unat (in_src1 i)) = Inr a" "GetGR s (unat (in_src2 i)) = Inr d"
  shows "\<exists>s1 s2 v. Execute h ignore i (s, m) = Some (Inr (), s1, m) \<and> Execute h ignore' j (s1, m) = Some (Inr (), s2, m) \<and>
    GetGR s1 (unat (in_dst i)) = Inr v \<and>
    (\<forall>n < 64. bit v n = (if field_pos (in_immediate i) \<le> n \<and> n < field_pos (in_immediate i) + field_len (in_immediate i)
       then bit a (n - field_pos (in_immediate i)) else bit d n)) \<and>
    GetGR s2 (unat (in_dst j)) = Inr (take_bit (field_len (in_immediate i)) a)"
proof -
  let ?v = "dep_value (in_immediate i) a d" and ?w = "take_bit (field_len (in_immediate i)) a"
  have nz: "unat (in_dst i) \<noteq> 0" "unat (in_dst j) \<noteq> 0" using regs by (simp_all add: unat_eq_zero)
  obtain s1 where s1: "gr_update s (unat (in_dst i)) ?v False s1" "set_gr (in_dst i) ?v (s, m) = Some (Inr (), s1, m)"
    using set_gr_run [OF regs(1,2)] by blast
  then have g1: "GetGR s1 (unat (in_dst i)) = Inr ?v" "gr_ok s1"
    using regs(2) nz by (simp_all add: gr_update_def)
  obtain s2 where s2: "gr_update s1 (unat (in_dst j)) ?w False s2" "set_gr (in_dst j) ?w (s1, m) = Some (Inr (), s2, m)"
    using set_gr_run [OF g1(2) regs(4)] by blast
  then have "GetGR s2 (unat (in_dst j)) = Inr ?w"
    using regs(4) nz by (simp add: gr_update_def)
  moreover have "Execute h ignore i (s, m) = Some (Inr (), s1, m)"
    using s1(2) imm vals by (simp add: exec_field_run [OF assms(1,3)] bind_from_cpu)
  moreover have "Execute h ignore' j (s1, m) = Some (Inr (), s2, m)"
    using s2(2) imm g1(1) by (simp add: exec_field_run [OF assms(2,4)] imm_with_def bind_from_cpu extr_dep [OF fits] \<open>in_src1 j = in_dst i\<close>)
  ultimately show ?thesis
    using g1(1) bit_dep_value [of _ "in_immediate i" a d] by blast
qed

lemma deposit_extract_witness:
  "\<forall>h m. \<exists>s1 s2 v. Execute h False (SetImmediate 0x1C4 (InstructionEx (Field DEP) I_UNIT\<lparr>in_dst := 7, in_src1 := 5, in_src2 := 6\<rparr>)) (Reset, m)
      = Some (Inr (), s1, m) \<and>
    Execute h False (SetImmediate 0x1C4 (InstructionEx (Field EXTR) I_UNIT\<lparr>in_dst := 8, in_src1 := 7\<rparr>)) (s1, m) = Some (Inr (), s2, m) \<and>
    GetGR s1 7 = Inr v \<and> (\<forall>n < 64. bit v n \<longleftrightarrow> False) \<and> GetGR s2 8 = Inr 0"
proof -
  have "\<exists>s1 s2 v. Execute h False (SetImmediate 0x1C4 (InstructionEx (Field DEP) I_UNIT\<lparr>in_dst := 7, in_src1 := 5, in_src2 := 6\<rparr>)) (Reset, m)
      = Some (Inr (), s1, m) \<and>
    Execute h False (SetImmediate 0x1C4 (InstructionEx (Field EXTR) I_UNIT\<lparr>in_dst := 8, in_src1 := 7\<rparr>)) (s1, m) = Some (Inr (), s2, m) \<and>
    GetGR s1 7 = Inr v \<and> (\<forall>n < 64. bit v n \<longleftrightarrow> False) \<and> GetGR s2 8 = Inr 0" for h m
  proof -
    let ?i = "SetImmediate 0x1C4 (InstructionEx (Field DEP) I_UNIT\<lparr>in_dst := 7, in_src1 := 5, in_src2 := 6\<rparr>)"
    let ?j = "SetImmediate 0x1C4 (InstructionEx (Field EXTR) I_UNIT\<lparr>in_dst := 8, in_src1 := 7\<rparr>)"
    have p: "field_pos 0x1C4 = 4" "field_len 0x1C4 = 8"
      by (simp_all add: field_pos_def field_len_def)
    have g: "GetGR Reset 5 = Inr 0" "GetGR Reset 6 = Inr 0" "gr_ok Reset"
      using guest_ok_Reset by (simp_all add: GetGR_def MapGR_def Reset_def GetSOR_def get_bits_def Let_def guest_ok_def)
    show ?thesis
      using deposit_extract [of ?i ?j Reset 0 0 h False m False] g by (simp add: p SetImmediate_def InstructionEx_def cong: if_cong)
  qed
  then show ?thesis by (intro allI)
qed

subsection \<open>Bytes\<close>

lemma mux1_rev: "mux1 0xB w = le_value (rev (le_bytes 8 w))"
proof -
  have "map ((!) xs) [7, 6, 5, 4, 3, 2, 1, 0] = rev xs" if "length xs = 8" for xs :: "u8 list"
    using that by (auto simp: length_Suc_conv numeral_eq_Suc)
  moreover have "mux1_table (0xB AND 0xF) = Some [7, 6, 5, 4, 3, 2, 1, 0]"
    by (simp add: mux1_table_def)
  ultimately show ?thesis
    unfolding mux1_def Let_def by (simp del: list.map)
qed

text \<open>The byte reversal \<open>mux1 @rev\<close> swaps the endianness: applied twice it is the identity.\<close>

lemma mux1_rev_twice: "mux1 0xB (mux1 0xB w) = w"
proof -
  have "le_bytes 8 (le_value (rev (le_bytes 8 w)) :: u64) = rev (le_bytes 8 w)"
    using le_bytes_le_value [of "rev (le_bytes 8 w)", where 'a = 64] by simp
  then show ?thesis
    using le_value_le_bytes [of 8 w] by (simp add: mux1_rev)
qed

end
