(* ===== verification/Execute_Memory.thy ===== *)
theory Execute_Memory
  imports Execute_Bits Guest_Memory_Props
begin

text \<open>
  Loads, stores and atomic operations as whole instructions. \<open>data_address\<close> says that the processor translates a data
  address without a fault and without changing state (physical addressing, or a hit in the TLBs), \<open>reaches\<close> that the
  memory object reads and writes the resulting address as plain RAM, through its own MMU or with that disabled. Then a
  store followed by a load of the same width returns the stored bytes zero-extended, and a compare-and-exchange is the
  atomic update of the architecture.
\<close>

definition data_address :: "cpu_state \<Rightarrow> u64 \<Rightarrow> nat \<Rightarrow> u64 \<Rightarrow> bool" where
  "data_address s a n pa \<longleftrightarrow> (\<forall>acc \<in> {ACC_READ, ACC_WRITE}. \<exists>t. tr_physicalAddress t = pa \<and> page_amount a t n = n \<and>
     (\<forall>m. TranslateDataAddress s m a acc False = (Inr t, s, m)))"

definition reaches :: "memory \<Rightarrow> u64 \<Rightarrow> nat \<Rightarrow> u64 \<Rightarrow> bool" where
  "reaches m pa n ma \<longleftrightarrow>
     tryDeviceRead (mem_devices m) pa n = None \<and> (\<forall>bs. tryDeviceWrite (mem_devices m) pa bs = None) \<and>
     unat pa + n \<le> length (mem_data m) \<and> unat ma + n \<le> length (mem_data m) \<and>
     (if mmu_enabled (mem_mmu m)
      then quiet (mem_mmu m) \<and> CheckPermission (mem_mmu m) pa ACC_READ \<and> CheckPermission (mem_mmu m) pa ACC_WRITE \<and>
        TranslateAddress (mem_mmu m) pa = Inr ma
      else ma = pa)"

definition plain_ram :: "cpu_state \<Rightarrow> memory \<Rightarrow> bool" where
  "plain_ram s m \<longleftrightarrow> \<not> bit (cpu_psr s) 17 \<and> \<not> mmu_enabled (mem_mmu m) \<and> mem_devices m = [] \<and> length (mem_data m) \<le> 2 ^ 61"

lemma tr_physicalAddress_make [simp]: "tr_physicalAddress (makeTranslation pa ps rid attr rights mech) = pa"
  by (simp add: makeTranslation_def)

lemma next_run: "n \<sigma> = Some (Inr u, \<sigma>') \<Longrightarrow> next_step n k \<sigma> = k \<sigma>'"
  by (simp add: next_step_def bind_def)

lemma physical_translate:
  "\<not> bit (cpu_psr s) 17 \<Longrightarrow>
   TranslateDataAddress s m va acc False = (Inr (makeTranslation va (push_bit 61 1) 0 0 3 PHYSICAL_MODE), s, m)"
  by (simp add: TranslateDataAddress_def Let_def)

lemma physical_amount:
  assumes "unat a + n \<le> 2 ^ 61" "0 < n"
  shows "page_amount a (makeTranslation a (push_bit 61 1) 0 0 3 PHYSICAL_MODE) n = n"
proof -
  have le: "a < 2 ^ 61"
    using assms by (simp add: word_less_nat_alt)
  have p: "push_bit 61 1 = (2 ^ 61 :: u64)" by (simp add: push_bit_eq_mult)
  have "a AND (2 ^ 61 - 1) = a"
    using less_mask_eq [of a 61] le by (simp add: mask_eq_exp_minus_1 take_bit_eq_mask [symmetric])
  moreover have "unat (2 ^ 61 - a) = 2 ^ 61 - unat a"
    using le by (subst unat_sub) (simp_all add: word_le_nat_alt word_less_nat_alt)
  moreover have "unat (of_nat n :: u64) = n"
    using assms by (simp add: unat_of_nat)
  ultimately show ?thesis
    using assms unfolding page_amount_def makeTranslation_def Let_def p
    by (simp add: min_def word_le_nat_alt)
qed

lemma in_bounds: "unat a + n \<le> length (mem_data m) \<Longrightarrow> 0 < n \<Longrightarrow> checkBounds m a n = Inr ()"
  by (simp add: checkBounds_iff)

lemma mem_reads:
  assumes "reaches m pa n ma" "0 < n"
  shows "mem_Read m pa (replicate n 0) = (Inr (read_bytes (mem_data m) (unat ma) n), m)"
proof -
  have b: "checkBounds m pa n = Inr ()" "checkBounds m ma n = Inr ()"
    using assms by (simp_all add: reaches_def in_bounds)
  have "mmuRead m pa (replicate n 0) = (Inr (read_bytes (mem_data m) (unat ma) n), m)"
  proof (cases "mmu_enabled (mem_mmu m)")
    case True
    then show ?thesis
      using mmuRead_enabled [of m pa ma "replicate n 0"] assms b by (simp add: reaches_def)
  next
    case False
    then show ?thesis using assms b by (simp add: mmuRead_def reaches_def Let_def)
  qed
  then show ?thesis using assms by (simp add: mem_Read_def reaches_def)
qed

lemma mem_writes:
  assumes "reaches m pa (length bs) ma" "bs \<noteq> []"
  shows "mem_Write pa bs m = (Inr (), m\<lparr>mem_data := write_bytes (mem_data m) (unat ma) bs\<rparr>)"
proof -
  have b: "checkBounds m pa (length bs) = Inr ()" "checkBounds m ma (length bs) = Inr ()"
    using assms by (simp_all add: reaches_def in_bounds)
  have "mmuWrite pa bs m = (Inr (), m\<lparr>mem_data := write_bytes (mem_data m) (unat ma) bs\<rparr>)"
    using assms b by (auto simp: mmuWrite_def reaches_def Let_def CheckPermission_throw quiet_hooks split: if_splits)
  then show ?thesis using assms by (simp add: mem_Write_def reaches_def)
qed

lemma reaches_written:
  assumes "reaches m pa n ma" "length bs = n"
  shows "reaches (m\<lparr>mem_data := write_bytes (mem_data m) (unat ma) bs\<rparr>) pa n ma"
  using assms by (simp add: reaches_def)

lemma ram_read:
  assumes "data_address s a n pa" "reaches m pa n ma" "0 < n"
  shows "readIa64Data a n (s, m) = Some (Inr (read_bytes (mem_data m) (unat ma) n), s, m)"
proof -
  obtain t where t: "tr_physicalAddress t = pa" "page_amount a t n = n"
    "\<And>m. TranslateDataAddress s m a ACC_READ False = (Inr t, s, m)"
    using assms(1) unfolding data_address_def by blast
  have len: "length (read_bytes (mem_data m) (unat ma) n) = n"
    using assms(2) by (simp add: reaches_def)
  have "read_data_loop s m a (replicate n 0) 0 = Some (Inr (), read_bytes (mem_data m) (unat ma) n, s, m)"
    using assms(3) t len mem_reads [OF assms(2,3)]
    by (subst read_data_loop.simps, simp add: Let_def read_bytes_def [of "replicate n _"])
       (subst read_data_loop.simps, simp add: write_bytes_def)
  then show ?thesis
    by (simp add: readIa64Data_def ReadData_def)
qed

lemma ram_write:
  assumes "data_address s a (length bs) pa" "reaches m pa (length bs) ma" "bs \<noteq> []"
  shows "writeIa64Data a bs (s, m) = Some (Inr (), s, m\<lparr>mem_data := write_bytes (mem_data m) (unat ma) bs\<rparr>)"
proof -
  obtain t where t: "tr_physicalAddress t = pa" "page_amount a t (length bs) = length bs"
    "\<And>m. TranslateDataAddress s m a ACC_WRITE False = (Inr t, s, m)"
    using assms(1) unfolding data_address_def by blast
  have "write_data_loop s m a bs 0 = Some (Inr (), s, m\<lparr>mem_data := write_bytes (mem_data m) (unat ma) bs\<rparr>)"
    using assms(3) t mem_writes [OF assms(2,3)]
    by (subst write_data_loop.simps, simp add: Let_def read_bytes_def [of bs])
       (subst write_data_loop.simps, simp)
  then show ?thesis
    by (simp add: writeIa64Data_def WriteData_def)
qed

text \<open>The two ways to get there: physical addressing, and a range inside a page that is in the data TLBs.\<close>

lemma data_address_physical:
  assumes "\<not> bit (cpu_psr s) 17" "unat a + n \<le> 2 ^ 61" "0 < n"
  shows "data_address s a n a"
  using physical_amount [OF assms(2,3)] by (simp add: data_address_def physical_translate [OF assms(1)])

lemma data_address_tlb:
  assumes "bit (cpu_psr s) 17" "GetRR s (va_region a) = Inr region"
    and "translateFromDtrOrDtlb s a ACC_READ = Inr (Some t)" "translateFromDtrOrDtlb s a ACC_WRITE = Inr (Some t')"
    and "tr_physicalAddress t = pa" "tr_physicalAddress t' = pa" "page_amount a t n = n" "page_amount a t' n = n"
  shows "data_address s a n pa"
  using assms by (simp add: data_address_def TranslateDataAddress_def Let_def)

lemma plain_ram_reaches:
  assumes "plain_ram s m" "unat a + n \<le> length (mem_data m)" "0 < n"
  shows "data_address s a n a" "reaches m a n a"
proof -
  show "data_address s a n a"
    using assms by (intro data_address_physical) (simp_all add: plain_ram_def)
  show "reaches m a n a"
    using assms by (simp add: reaches_def plain_ram_def)
qed

lemma plain_read:
  assumes "plain_ram s m" "unat a + n \<le> length (mem_data m)" "0 < n"
  shows "readIa64Data a n (s, m) = Some (Inr (read_bytes (mem_data m) (unat a) n), s, m)"
  by (rule ram_read [OF plain_ram_reaches [OF assms] assms(3)])

lemma plain_write:
  assumes "plain_ram s m" "unat a + length bs \<le> length (mem_data m)" "bs \<noteq> []"
  shows "writeIa64Data a bs (s, m) = Some (Inr (), s, m\<lparr>mem_data := write_bytes (mem_data m) (unat a) bs\<rparr>)"
proof -
  have "0 < length bs" using assms(3) by simp
  from ram_write [OF plain_ram_reaches [OF assms(1,2) this] assms(3)] show ?thesis .
qed

lemma le_value_le_bytes_take: "le_value (le_bytes n v) = (take_bit (8 * n) v :: u64)"
proof (rule bit_word_eqI)
  fix k
  assume "k < LENGTH(64)"
  moreover have "k div 8 < n \<longleftrightarrow> k < 8 * n" by auto
  moreover have "8 * (k div 8) + k mod 8 = k" by simp
  ultimately show "bit (le_value (le_bytes n v) :: u64) k = bit (take_bit (8 * n) v) k"
    by (auto simp: bit_le_value nth_le_bytes bit_simps)
qed

lemma exec_memory_run:
  assumes "in_type i = Memory_Op t" "in_predicate i = 0"
  shows "Execute h ignore i = exec_memory t i"
  using assms by (cases ignore) (simp_all add: Execute_true Execute_ignore dispatch_simps)

definition access_pairs :: "(memory_type \<times> memory_type \<times> nat) set" where
  "access_pairs = {(ST1, LD1, 1), (ST2, LD2, 2), (ST4, LD4, 4), (ST8, LD8, 8)}"

lemma exec_memory_qualified:
  assumes "in_type i = Memory_Op t" "GetPR s (unat (in_predicate i)) = Inr True"
  shows "Execute h ignore i (s, m) = exec_memory t i (s, m)"
proof (cases "ignore \<or> in_predicate i = 0")
  case True
  then show ?thesis using assms by (auto simp: Execute_true Execute_ignore dispatch_simps)
next
  case False
  then have "CheckPredicate (in_predicate i) (s, m) = Some (Inr True, s, m)"
    using assms(2) by (simp add: CheckPredicate_def from_cpu_def)
  then show ?thesis
    using False assms(1) by (simp add: Execute_def Let_def bind_def dispatch_simps)
qed

text \<open>C30: a store followed by a load of the same width (1, 2, 4 or 8 bytes) from the same address, both with a true
  qualifying predicate and in the form that does not update the base register, returns the low bytes of the stored register,
  zero-extended; the store changes no byte of memory outside the range it names. The address is one the processor
  translates without a fault or a page-table walk (physical addressing or a TLB hit, for the whole range) to RAM that the
  memory object may read and write, with its MMU enabled (no hooks or watchpoints) or disabled, outside the device
  windows.\<close>

theorem store_load:
  assumes "(st, ld, n) \<in> access_pairs" "in_type i = Memory_Op st" "in_type j = Memory_Op ld"
    and "GetPR s (unat (in_predicate i)) = Inr True" "GetPR s (unat (in_predicate j)) = Inr True"
    and "\<not> in_hasImmediate i" "\<not> in_hasImmediate j" "in_src2 j = 0"
    and "GetGR s (unat (in_dst i)) = Inr a" "GetGR s (unat (in_src1 j)) = Inr a" "GetGR s (unat (in_src1 i)) = Inr v"
    and "unat (in_dst j) < 128" "gr_ok s"
    and "data_address s a n pa" "reaches m pa n ma"
  shows "\<exists>m' s'. Execute h ignore i (s, m) = Some (Inr (), s, m') \<and>
    m' = m\<lparr>mem_data := mem_data m'\<rparr> \<and> length (mem_data m') = length (mem_data m) \<and>
    (\<forall>k < length (mem_data m). k < unat ma \<or> unat ma + n \<le> k \<longrightarrow> mem_data m' ! k = mem_data m ! k) \<and>
    Execute h ignore' j (s, m') = Some (Inr (), s', m') \<and> gr_update s (unat (in_dst j)) (take_bit (8 * n) v) False s'"
proof -
  have n: "0 < n" "exec_memory st i = exec_store n i" "exec_memory ld j = exec_load n j"
    using assms(1) by (auto simp: access_pairs_def)
  let ?m = "m\<lparr>mem_data := write_bytes (mem_data m) (unat ma) (le_bytes n v)\<rparr>"
  have le: "unat ma + length (le_bytes n v) \<le> length (mem_data m)" "le_bytes n v \<noteq> []"
    using assms(15) n(1) by (simp_all add: reaches_def flip: length_greater_0_conv)
  have "data_address s a (length (le_bytes n v)) pa" "reaches m pa (length (le_bytes n v)) ma"
    using assms(14,15) by simp_all
  from ram_write [OF this le(2)] have "Execute h ignore i (s, m) = Some (Inr (), s, ?m)"
    using assms(6,9,11) by (simp add: exec_memory_qualified [OF assms(2,4)] n(2) exec_store_def bind_from_cpu next_run)
  moreover obtain s' where s': "gr_update s (unat (in_dst j)) (take_bit (8 * n) v) False s'"
    "set_gr (in_dst j) (take_bit (8 * n) v) (s, ?m) = Some (Inr (), s', ?m)"
    using set_gr_run [OF assms(13,12)] by blast
  moreover have "readIa64Data a n (s, ?m) = Some (Inr (le_bytes n v), s, ?m)"
    using ram_read [OF assms(14) reaches_written [OF assms(15), of "le_bytes n v"] n(1)] read_write_same [OF le(1)] by simp
  then have "Execute h ignore' j (s, ?m) = Some (Inr (), s', ?m)"
    using assms(7,8,10) s'(2)
    by (simp add: exec_memory_qualified [OF assms(3,5)] n(3) exec_load_def bind_from_cpu bind_Inr next_run le_value_le_bytes_take)
  ultimately show ?thesis
    using le by (intro exI [of _ ?m] exI [of _ s']) (auto simp: nth_write_bytes)
qed

text \<open>Sixty-four bytes of plain memory.\<close>

definition demo_ram :: memory where
  "demo_ram = demo_memory\<lparr>mem_mmu := demo_mmu\<lparr>mmu_enabled := False\<rparr>\<rparr>"

lemma demo_ram: "plain_ram Reset demo_ram" "length (mem_data demo_ram) = 64" "gr_ok Reset" "GetGR Reset 5 = Inr 0" "GetGR Reset 6 = Inr 0"
  "GetAR Reset 32 = Inr 0" "read_bytes (mem_data demo_ram) 0 4 = [0, 0, 0, 0]"
proof -
  have r4: "replicate 4 x = [x, x, x, x]" for x :: u8
    by (simp add: numeral_eq_Suc)
  show "plain_ram Reset demo_ram" "length (mem_data demo_ram) = 64"
    by (simp_all add: plain_ram_def demo_ram_def demo_memory_def Reset_def IA64_PSR_BN_MASK_def bit_push_bit_iff bit_numeral_rec)
  show "gr_ok Reset" using guest_ok_Reset by (simp add: guest_ok_def)
  show "GetGR Reset 5 = Inr 0" "GetGR Reset 6 = Inr 0" "GetAR Reset 32 = Inr 0"
    by (simp_all add: GetGR_def MapGR_def GetAR_def Reset_def GetSOR_def get_bits_def Let_def)
  show "read_bytes (mem_data demo_ram) 0 4 = [0, 0, 0, 0]"
    by (simp add: demo_ram_def demo_memory_def read_bytes_def r4)
qed

text \<open>The same memory with its MMU enabled and page 0 mapped.\<close>

lemma demo_reaches: "data_address Reset 0 4 0" "reaches demo_memory 0 4 0" "GetPR Reset 0 = Inr True"
proof -
  have "plain_ram Reset demo_ram" by (rule demo_ram)
  then show "data_address Reset 0 4 0"
    by (intro data_address_physical) (simp_all add: plain_ram_def)
  show "reaches demo_memory 0 4 0"
    using demo_access [of 0] by (simp add: reaches_def demo_memory_def)
  show "GetPR Reset 0 = Inr True" by (simp add: GetPR_def)
qed

lemma store_load_witness:
  "\<forall>h. \<exists>m' s'. Execute h False (InstructionEx (Memory_Op ST4) M_UNIT\<lparr>in_dst := 5, in_src1 := 6\<rparr>) (Reset, demo_memory) = Some (Inr (), Reset, m') \<and>
     Execute h False (InstructionEx (Memory_Op LD4) M_UNIT\<lparr>in_dst := 7, in_src1 := 5\<rparr>) (Reset, m') = Some (Inr (), s', m') \<and>
     GetGR s' 7 = Inr 0"
proof -
  have "\<exists>m' s'. Execute h False (InstructionEx (Memory_Op ST4) M_UNIT\<lparr>in_dst := 5, in_src1 := 6\<rparr>) (Reset, demo_memory) = Some (Inr (), Reset, m') \<and>
     Execute h False (InstructionEx (Memory_Op LD4) M_UNIT\<lparr>in_dst := 7, in_src1 := 5\<rparr>) (Reset, m') = Some (Inr (), s', m') \<and>
     GetGR s' 7 = Inr 0" for h
  proof -
    let ?i = "InstructionEx (Memory_Op ST4) M_UNIT\<lparr>in_dst := 5, in_src1 := 6\<rparr>"
    let ?j = "InstructionEx (Memory_Op LD4) M_UNIT\<lparr>in_dst := 7, in_src1 := 5\<rparr>"
    have "\<exists>m' s'. Execute h False ?i (Reset, demo_memory) = Some (Inr (), Reset, m') \<and> Execute h False ?j (Reset, m') = Some (Inr (), s', m') \<and>
      gr_update Reset 7 0 False s'"
      using store_load [where st = ST4 and ld = LD4 and n = 4 and i = ?i and j = ?j and s = Reset and a = 0 and v = 0
        and m = demo_memory and pa = 0 and ma = 0 and h = h and ignore = False and ignore' = False] demo_ram demo_reaches
      unfolding access_pairs_def InstructionEx_def by (simp del: le_bytes.simps) blast
    then show ?thesis
      unfolding gr_update_def by force
  qed
  then show ?thesis by (intro allI)
qed

text \<open>\<open>cmpxchg\<close> returns the old memory value and clears the NaT bit; memory becomes the low bytes of the new value exactly when the old value
  equals the low bits of \<open>ar.ccv\<close>, and is unchanged otherwise.\<close>

theorem compare_exchange:
  assumes "(t, n) \<in> {(CMPXCHG4_ACQ, 4), (CMPXCHG4_REL, 4), (CMPXCHG8_ACQ, 8), (CMPXCHG8_REL, 8)}"
    and "in_type i = Memory_Op t" "in_predicate i = 0" "unat (in_dst i) < 128" "gr_ok s"
    and "GetGR s (unat (in_src1 i)) = Inr a" "GetGR s (unat (in_src2 i)) = Inr v" "GetAR s 32 = Inr ccv"
    and "plain_ram s m" "unat a + n \<le> length (mem_data m)"
  defines "old \<equiv> le_value (read_bytes (mem_data m) (unat a) n) :: u64"
  shows "\<exists>s'. Execute h ignore i (s, m) = Some (Inr (), s',
      if old = take_bit (8 * n) ccv then m\<lparr>mem_data := write_bytes (mem_data m) (unat a) (le_bytes n v)\<rparr> else m) \<and>
    gr_update s (unat (in_dst i)) old False s'"
proof -
  have n: "0 < n" "exec_memory t i = exec_cmpxchg n i"
    using assms(1) by auto
  define M where "M = (if old = take_bit (8 * n) ccv then m\<lparr>mem_data := write_bytes (mem_data m) (unat a) (le_bytes n v)\<rparr> else m)"
  let ?wr = "if old = take_bit (8 * n) ccv then bind (gr (in_src2 i)) (\<lambda>newValue. writeIa64Data a (le_bytes n newValue)) else ret ()"
  have le: "unat a + length (le_bytes n v) \<le> length (mem_data m)" "le_bytes n v \<noteq> []"
    using assms(10) n(1) by (simp_all flip: length_greater_0_conv)
  have wr: "?wr (s, m) = Some (Inr (), s, M)"
    using plain_write [OF assms(9) le] assms(7) by (simp add: bind_from_cpu M_def)
  obtain s1 where s1: "gr_update s (unat (in_dst i)) old False s1" "set_gr (in_dst i) old (s, M) = Some (Inr (), s1, M)"
    using set_gr_run [OF assms(5,4)] by blast
  obtain s' where s': "gr_update s (unat (in_dst i)) old False s'" "set_gr_nat (in_dst i) False (s1, M) = Some (Inr (), s', M)"
    using set_nat_run [OF s1(1) assms(4)] by blast
  have "finish_atomic i old (s, M) = Some (Inr (), s', M)"
    using s1(2) s'(2) by (simp add: finish_atomic_def next_run)
  then have "next_step ?wr (finish_atomic i old) (s, m) = Some (Inr (), s', M)"
    by (simp only: next_run [of ?wr "(s, m)" "()" "(s, M)", OF wr])
  then have "Execute h ignore i (s, m) = Some (Inr (), s', M)"
    using assms(6,8) plain_read [OF assms(9,10) n(1)]
    by (simp add: exec_memory_run [OF assms(2,3)] n(2) exec_cmpxchg_def bind_from_cpu bind_Inr Let_def flip: old_def)
  with s'(1) show ?thesis unfolding M_def by blast
qed

lemma compare_exchange_witness:
  "\<forall>h. \<exists>s' m'. Execute h False (InstructionEx (Memory_Op CMPXCHG4_ACQ) M_UNIT\<lparr>in_dst := 7, in_src1 := 5, in_src2 := 6\<rparr>) (Reset, demo_ram)
     = Some (Inr (), s', m') \<and> gr_update Reset 7 0 False s'"
proof -
  have "\<exists>s' m'. Execute h False (InstructionEx (Memory_Op CMPXCHG4_ACQ) M_UNIT\<lparr>in_dst := 7, in_src1 := 5, in_src2 := 6\<rparr>) (Reset, demo_ram)
     = Some (Inr (), s', m') \<and> gr_update Reset 7 0 False s'" for h
  proof -
    let ?i = "InstructionEx (Memory_Op CMPXCHG4_ACQ) M_UNIT\<lparr>in_dst := 7, in_src1 := 5, in_src2 := 6\<rparr>"
    have v: "le_value [0 :: u8, 0, 0, 0] = (0 :: u64)" by simp
    show ?thesis
      using compare_exchange [of CMPXCHG4_ACQ 4 ?i Reset 0 0 0 demo_ram h False] demo_ram by (auto simp: v InstructionEx_def)
  qed
  then show ?thesis by (intro allI)
qed

end
