(* ===== verification/Decoder_Formats.thy ===== *)
theory Decoder_Formats
  imports Instruction
begin

text \<open>
  The instruction formats of the decoder (\<open>src/include/ia64_formats.h\<close>): bit extraction, sign extension,
  and one record per format, filled by the \<open>decode\<close> functions and read by the \<open>toInstruction\<close> functions.
  A decode function that returns \<open>false\<close> is \<open>None\<close>; its callers never look at the format then.
\<close>

subsection \<open>Fields of a slot\<close>

definition extractBits :: "u64 \<Rightarrow> nat \<Rightarrow> nat \<Rightarrow> u64" where
  "extractBits slot start len = (let m = push_bit len 1 - 1 in drop_bit start slot AND m)"

text \<open>A field assigned to a \<open>uint8_t\<close>.\<close>

definition field8 :: "u64 \<Rightarrow> nat \<Rightarrow> nat \<Rightarrow> u8" where
  "field8 slot start len = ucast (extractBits slot start len)"

definition signExtend :: "u64 \<Rightarrow> nat \<Rightarrow> u64" where
  "signExtend value bits =
     (let sign_bit = push_bit (bits - 1) 1 in
      if value AND sign_bit \<noteq> 0 then let m = NOT (push_bit bits 1 - 1) in value OR m else value)"

definition extractImm22 :: "u64 \<Rightarrow> u64" where
  "extractImm22 slot =
     (let s = extractBits slot 36 1; imm5c = extractBits slot 22 5;
          imm9d = extractBits slot 27 9; imm7b = extractBits slot 13 7;
          encoded = push_bit 21 s OR push_bit 16 imm5c OR push_bit 7 imm9d OR imm7b
      in signExtend encoded 22)"

lemma extractBits_take: "extractBits slot start len = take_bit len (drop_bit start slot)"
  by (simp add: extractBits_def Let_def take_bit_eq_mask mask_eq_exp_minus_1 push_bit_eq_mult)

lemma bit_extractBits: "bit (extractBits slot start len) k \<longleftrightarrow> k < len \<and> bit slot (start + k)"
  by (auto simp: extractBits_take bit_simps dest: bit_imp_le_length)

lemma signExtend_correct:
  assumes "0 < b" "b < 64"
  shows "signExtend v b = (if bit v (b - 1) then v OR NOT (mask b) else v)"
proof -
  have "push_bit b 1 - 1 = (mask b :: u64)"
    by (simp add: mask_eq_exp_minus_1 push_bit_eq_mult)
  moreover have "v AND push_bit (b - 1) 1 \<noteq> 0 \<longleftrightarrow> bit v (b - 1)"
    by (simp add: bit_iff_and_push_bit_not_eq_0)
  ultimately show ?thesis
    by (simp add: signExtend_def Let_def)
qed

subsection \<open>The formats\<close>

record aformat =
  a_qp :: u8
  a_r1 :: u8
  a_r2 :: u8
  a_r3 :: u8
  a_opcode :: u8
  a_imm :: u64
  a_has_imm :: bool
  a_add_one :: bool
  a_sub_one :: bool
  a_p1 :: u8
  a_p2 :: u8
  a_x2 :: u8
  a_ta :: u8
  a_tb :: u8
  a_c :: u8

definition AFormat :: aformat where
  "AFormat = \<lparr>a_qp = 0, a_r1 = 0, a_r2 = 0, a_r3 = 0, a_opcode = 0, a_imm = 0, a_has_imm = False, a_add_one = False,
     a_sub_one = False, a_p1 = 0, a_p2 = 0, a_x2 = 0, a_ta = 0, a_tb = 0, a_c = 0\<rparr>"

record iformat =
  i_qp :: u8
  i_r1 :: u8
  i_r2 :: u8
  i_r3 :: u8
  i_opcode :: u8
  i_pos :: u8
  i_len :: u8
  i_cpos :: u8
  i_count :: u8
  i_sof :: u8
  i_sol :: u8
  i_sor :: u8
  i_imm :: u64
  i_has_imm :: bool

definition IFormat :: iformat where
  "IFormat = \<lparr>i_qp = 0, i_r1 = 0, i_r2 = 0, i_r3 = 0, i_opcode = 0, i_pos = 0, i_len = 0, i_cpos = 0, i_count = 0,
     i_sof = 0, i_sol = 0, i_sor = 0, i_imm = 0, i_has_imm = False\<rparr>"

datatype mem_op =
    OP_LOAD | OP_STORE | OP_LDF_FILL | OP_STF8 | OP_STF_SPILL | OP_ALLOC | OP_EXCHANGE | OP_XCHG | OP_FETCHADD | OP_LFETCH
  | OP_SETF | OP_GETF | OP_INVALA | OP_FC | OP_SYNC_I | OP_SRLZ_I | OP_SRLZ_D | OP_MF | OP_MF_A | OP_SSM | OP_RSM | OP_RFI
  | OP_FLUSHRS | OP_LOADRS | OP_TPA | OP_MOV_FROM_RR | OP_MOV_TO_RR | OP_MOV_FROM_CR | OP_MOV_TO_CR | OP_ITR_I | OP_ITR_D
  | OP_ITC_I | OP_ITC_D | OP_THASH | OP_PTC_L | OP_MOV_FROM_PSR | OP_MOV_TO_PSR | OP_MOV_FROM_CPUID | OP_MOV_TO_PMC
  | OP_MOV_FROM_PMC

datatype mem_size = SIZE_1 | SIZE_2 | SIZE_4 | SIZE_8 | SIZE_10 | SIZE_16

text \<open>\<open>imm9\<close> is an \<open>int16_t\<close> whose conversions to \<open>uint64_t\<close> sign-extend; it is kept as its 16-bit pattern.\<close>

record mformat =
  m_qp :: u8
  m_r1 :: u8
  m_r2 :: u8
  m_r3 :: u8
  m_opcode :: u8
  m_m :: u8
  m_x :: u8
  m_hint :: u8
  m_operation :: mem_op
  m_size :: mem_size
  m_speculative :: bool
  m_advanced :: bool
  m_acquire :: bool
  m_release :: bool
  m_lfetch_fault :: bool
  m_lfetch_exclusive :: bool
  m_imm9 :: "16 word"
  m_has_imm :: bool
  m_reg_update :: bool
  m_getf_exponent :: bool
  m_imm24 :: u32

definition MFormat :: mformat where
  "MFormat = \<lparr>m_qp = 0, m_r1 = 0, m_r2 = 0, m_r3 = 0, m_opcode = 0, m_m = 0, m_x = 0, m_hint = 0, m_operation = OP_LOAD,
     m_size = SIZE_8, m_speculative = False, m_advanced = False, m_acquire = False, m_release = False,
     m_lfetch_fault = False, m_lfetch_exclusive = False, m_imm9 = 0, m_has_imm = False, m_reg_update = False,
     m_getf_exponent = False, m_imm24 = 0\<rparr>"

datatype branch_kind =
    B_COND | B_CALL | B_RET | B_RFI | B_IA | B_CLOOP | B_CTOP | B_CEXIT | B_WTOP | B_WEXIT | B_BSW0 | B_BSW1 | B_COVER
  | B_CLRRB | B_CLRRB_PR | B_EPC | B_VMSW0 | B_VMSW1 | B_BREAK | B_NOP | B_HINT

record bformat =
  b_qp :: u8
  b_b1 :: u8
  b_b2 :: u8
  b_opcode :: u8
  b_type :: branch_kind
  b_target_offset :: u64
  b_has_target :: bool
  b_wh :: u8
  b_dh :: u8
  b_ph :: u8
  b_indirect :: bool

definition BFormat :: bformat where
  "BFormat = \<lparr>b_qp = 0, b_b1 = 0, b_b2 = 0, b_opcode = 0, b_type = B_COND, b_target_offset = 0, b_has_target = False,
     b_wh = 0, b_dh = 0, b_ph = 0, b_indirect = False\<rparr>"

text \<open>The fields of \<open>FFormat\<close> and \<open>XFormat\<close> that the decoders set or read.\<close>

record fformat =
  f_f1 :: u8
  f_f2 :: u8
  f_f3 :: u8
  f_f4 :: u8
  f_sf :: u8
  f_p1 :: u8
  f_p2 :: u8
  f_ta :: u8
  f_unc :: u8
  f_fclass9 :: "16 word"

definition FFormat :: fformat where
  "FFormat = \<lparr>f_f1 = 0, f_f2 = 0, f_f3 = 0, f_f4 = 0, f_sf = 0, f_p1 = 0, f_p2 = 0, f_ta = 0, f_unc = 0, f_fclass9 = 0\<rparr>"

record xformat =
  x_qp :: u8
  x_r1 :: u8
  x_imm64 :: u64
  x_opcode :: u8
  x_imm21 :: u32
  x_x3 :: u8
  x_imm27 :: u32
  x_i :: u8
  x_imm5c :: u8
  x_imm9d :: "16 word"
  x_ic :: u8
  x_imm7b :: u8
  x_vc :: u8

definition XFormat :: xformat where
  "XFormat = \<lparr>x_qp = 0, x_r1 = 0, x_imm64 = 0, x_opcode = 0, x_imm21 = 0, x_x3 = 0, x_imm27 = 0, x_i = 0, x_imm5c = 0,
     x_imm9d = 0, x_ic = 0, x_imm7b = 0, x_vc = 0\<rparr>"

record lformat =
  l_imm41 :: u64
  l_r1 :: u8

subsection \<open>One-field setters of an instruction\<close>

definition SetPredicate :: "u8 \<Rightarrow> instruction \<Rightarrow> instruction" where
  "SetPredicate p i = i\<lparr>in_predicate := p\<rparr>"

definition SetPredicate2 :: "u8 \<Rightarrow> instruction \<Rightarrow> instruction" where
  "SetPredicate2 p i = i\<lparr>in_predicate2 := p\<rparr>"

definition SetType :: "instruction_type \<Rightarrow> instruction \<Rightarrow> instruction" where
  "SetType t i = i\<lparr>in_type := t\<rparr>"

definition SetRawBits :: "u64 \<Rightarrow> instruction \<Rightarrow> instruction" where
  "SetRawBits b i = i\<lparr>in_rawBits := b\<rparr>"

definition SetCompareCompleter :: "compare_completer \<Rightarrow> instruction \<Rightarrow> instruction" where
  "SetCompareCompleter c i = i\<lparr>in_compareCompleter := c\<rparr>"

definition SetLfetchProperties :: "bool \<Rightarrow> bool \<Rightarrow> u8 \<Rightarrow> instruction \<Rightarrow> instruction" where
  "SetLfetchProperties faulting exclusive hint i = i\<lparr>in_lfetchFault := faulting, in_lfetchExclusive := exclusive, in_lfetchHint := hint\<rparr>"

definition SetRegisterUpdate :: "bool \<Rightarrow> instruction \<Rightarrow> instruction" where
  "SetRegisterUpdate enabled i = i\<lparr>in_registerUpdate := enabled\<rparr>"

lemmas setter_defs = InstructionEx_def SetOperands_def SetOperands4_def SetImmediate_def SetBranchTarget_def SetPredicate_def
  SetPredicate2_def SetType_def SetRawBits_def SetCompareCompleter_def SetLfetchProperties_def SetRegisterUpdate_def

text \<open>An instruction with its qualifying predicate and three operands, as most formats build it.\<close>

abbreviation "insn t u qp d s1 s2 \<equiv> SetOperands d s1 s2 (SetPredicate qp (InstructionEx t u))"

end
