(* ===== verification/Decoder_AI.thy ===== *)
theory Decoder_AI
  imports Decoder_Formats
begin

text \<open>
  The decoders of the A format (\<open>src/src/decoder/atype_decoder.cpp\<close>), the I format
  (\<open>src/src/decoder/itype_decoder.cpp\<close>), the L+X format (\<open>src/src/decoder/lx_decoder.cpp\<close>) and the X format
  (\<open>src/src/decoder/xtype_decoder.cpp\<close>). Local variables of type \<open>uint8_t\<close> that hold a field of at most
  eight bits are kept as the field itself.
\<close>

subsection \<open>A format\<close>

definition decodeIntegerALU :: "u64 \<Rightarrow> u64 \<Rightarrow> u64 \<Rightarrow> u64 \<Rightarrow> u64 \<Rightarrow> aformat \<Rightarrow> aformat option" where
  "decodeIntegerALU raw x2a x2b x4 ve fmt =
     (let s = extractBits raw 36 1;
          imm7 = extractBits raw 13 7;
          imm8 = signExtend (push_bit 7 s OR imm7) 8;
          imm14 = signExtend (push_bit 13 s OR push_bit 7 (extractBits raw 27 6) OR imm7) 14
      in
      if x2a = 0 \<and> ve = 0 \<and> x4 = 0 \<and> x2b \<le> 1
      then Some (fmt\<lparr>a_opcode := 0x80, a_add_one := (x2b = 1)\<rparr>)
      else if x2a = 0 \<and> ve = 0 \<and> x4 = 1 \<and> x2b \<le> 1
      then Some (fmt\<lparr>a_opcode := 0x81, a_sub_one := (x2b = 0)\<rparr>)
      else if x2a = 0 \<and> ve = 0 \<and> x4 = 9 \<and> x2b = 1
      then Some (fmt\<lparr>a_has_imm := True, a_imm := imm8, a_opcode := 0x89\<rparr>)
      else if x2a = 0 \<and> ve = 0 \<and> x4 = 3 \<and> x2b = 0 then Some (fmt\<lparr>a_opcode := 0x83\<rparr>)
      else if x2a = 0 \<and> ve = 0 \<and> x4 = 3 \<and> x2b = 1 then Some (fmt\<lparr>a_opcode := 0x84\<rparr>)
      else if x2a = 0 \<and> ve = 0 \<and> x4 = 3 \<and> x2b = 2 then Some (fmt\<lparr>a_opcode := 0x85\<rparr>)
      else if x2a = 0 \<and> ve = 0 \<and> x4 = 3 \<and> x2b = 3 then Some (fmt\<lparr>a_opcode := 0x86\<rparr>)
      else if x2a = 0 \<and> ve = 0 \<and> x4 = 4
      then Some (fmt\<lparr>a_has_imm := True, a_imm := x2b + 1, a_opcode := 0xA0\<rparr>)
      else if x2a = 0 \<and> ve = 0 \<and> x4 = 0xB
      then
        (let fmt1 = fmt\<lparr>a_has_imm := True, a_imm := imm8, a_r2 := a_r3 fmt\<rparr> in
         if x2b = 0 then Some (fmt1\<lparr>a_opcode := 0x83\<rparr>)
         else if x2b = 1 then Some (fmt1\<lparr>a_opcode := 0x84\<rparr>)
         else if x2b = 2 then Some (fmt1\<lparr>a_opcode := 0x85\<rparr>)
         else if x2b = 3 then Some (fmt1\<lparr>a_opcode := 0x86\<rparr>)
         else None)
      else if x2a = 2 \<and> ve = 0
      then Some (fmt\<lparr>a_has_imm := True, a_imm := imm14, a_r2 := a_r3 fmt, a_opcode := 0x80\<rparr>)
      else if x2a = 3 \<and> ve = 0
      then Some (fmt\<lparr>a_has_imm := True, a_imm := imm14, a_opcode := 0x82\<rparr>)
      else if x2a = 2 then Some (fmt\<lparr>a_has_imm := True, a_imm := imm8\<rparr>)
      else if x2a = 3 then Some (fmt\<lparr>a_has_imm := True, a_imm := imm14\<rparr>)
      else Some fmt)"

definition decodeAddlImm22 :: "u64 \<Rightarrow> aformat \<Rightarrow> aformat option" where
  "decodeAddlImm22 raw fmt =
     Some (fmt\<lparr>a_has_imm := True, a_r3 := field8 raw 20 2, a_imm := extractImm22 raw\<rparr>)"

definition decodeShiftAdd :: "u64 \<Rightarrow> aformat \<Rightarrow> aformat option" where
  "decodeShiftAdd x2a fmt = Some (fmt\<lparr>a_has_imm := True, a_imm := x2a + 1\<rparr>)"

definition decodeCompare :: "u64 \<Rightarrow> u64 \<Rightarrow> u64 \<Rightarrow> aformat \<Rightarrow> aformat option" where
  "decodeCompare raw major x2a fmt =
     (let fmt1 = fmt\<lparr>a_p1 := field8 raw 6 6, a_p2 := field8 raw 27 6, a_opcode := ucast (push_bit 4 major),
            a_x2 := ucast x2a, a_c := field8 raw 12 1, a_ta := field8 raw 33 1, a_tb := field8 raw 36 1\<rparr>
      in Some (if x2a \<ge> 2
        then fmt1\<lparr>a_has_imm := True, a_imm := signExtend (push_bit 7 (extractBits raw 36 1) OR extractBits raw 13 7) 8\<rparr>
        else fmt1))"

definition ATypeDecoder_decode :: "u64 \<Rightarrow> aformat option" where
  "ATypeDecoder_decode raw =
     (let major = extractBits raw 37 4; x2a = extractBits raw 34 2; x2b = extractBits raw 27 2;
          x4 = extractBits raw 29 4; ve = extractBits raw 33 1;
          fmt = AFormat\<lparr>a_qp := field8 raw 0 6, a_r1 := field8 raw 6 7, a_r2 := field8 raw 13 7, a_r3 := field8 raw 20 7,
            a_opcode := ucast (push_bit 4 major OR x4)\<rparr>
      in if major = 8 then decodeIntegerALU raw x2a x2b x4 ve fmt
         else if major = 9 then decodeAddlImm22 raw fmt
         else if major = 0xA then decodeShiftAdd x2a fmt
         else if major = 0xC \<or> major = 0xD \<or> major = 0xE then decodeCompare raw major x2a fmt
         else None)"

definition mapNormalCompareType :: "u8 \<Rightarrow> bool \<Rightarrow> compare_type" where
  "mapNormalCompareType major is32 =
     (if major = 0xC then if is32 then CMP4_LT else CMP_LT
      else if major = 0xD then if is32 then CMP4_LTU else CMP_LTU
      else if major = 0xE then if is32 then CMP4_EQ else CMP_EQ
      else CMP_EQ)"

definition mapEqCompareType :: "bool \<Rightarrow> bool \<Rightarrow> compare_type" where
  "mapEqCompareType is32 notEqual =
     (if is32 then if notEqual then CMP4_NE else CMP4_EQ else if notEqual then CMP_NE else CMP_EQ)"

definition mapZeroCompareType :: "u8 \<Rightarrow> u8 \<Rightarrow> bool \<Rightarrow> compare_type" where
  "mapZeroCompareType ta c is32 =
     (if ta = 0 \<and> c = 0 then if is32 then CMP4_GT else CMP_GT
      else if ta = 0 \<and> c \<noteq> 0 then if is32 then CMP4_LE else CMP_LE
      else if ta \<noteq> 0 \<and> c = 0 then if is32 then CMP4_GE else CMP_GE
      else if is32 then CMP4_LT else CMP_LT)"

definition mapParallelCompareCompleter :: "u8 \<Rightarrow> compare_completer" where
  "mapParallelCompareCompleter major =
     (if major = 0xC then AND_COMPLETER else if major = 0xD then OR_COMPLETER
      else if major = 0xE then OR_ANDCM else NORMAL)"

text \<open>The relation and the completer of a compare.\<close>

definition compare_of :: "aformat \<Rightarrow> compare_type \<times> compare_completer" where
  "compare_of fmt =
     (let major = drop_bit 4 (a_opcode fmt) AND 0xF;
          is32 = (a_x2 fmt AND 1 \<noteq> 0);
          immediateForm = (a_x2 fmt \<ge> 2)
      in if \<not> immediateForm \<and> a_tb fmt \<noteq> 0 \<and> a_r2 fmt = 0
         then (mapZeroCompareType (a_ta fmt) (a_c fmt) is32, mapParallelCompareCompleter major)
         else if a_ta fmt \<noteq> 0
         then (mapEqCompareType is32 (a_c fmt \<noteq> 0), mapParallelCompareCompleter major)
         else (if a_has_imm fmt \<and> major = 0xD \<and> a_imm fmt = 0 then if is32 then CMP4_NE else CMP_NE
               else mapNormalCompareType major is32,
               if a_c fmt \<noteq> 0 then UNC else NORMAL))"

text \<open>The register and the immediate form of one operation.\<close>

definition reg_or_imm :: "aformat \<Rightarrow> instruction_type \<Rightarrow> instruction_type \<Rightarrow> u8 \<times> u8 \<Rightarrow> instruction" where
  "reg_or_imm fmt reg_type imm_type imm_operands =
     (if a_has_imm fmt
      then SetImmediate (a_imm fmt) (insn imm_type I_UNIT (a_qp fmt) (a_r1 fmt) (fst imm_operands) (snd imm_operands))
      else insn reg_type I_UNIT (a_qp fmt) (a_r1 fmt) (a_r2 fmt) (a_r3 fmt))"

definition ATypeDecoder_toInstruction :: "aformat \<Rightarrow> instruction option" where
  "ATypeDecoder_toInstruction fmt =
     (let op = a_opcode fmt in
      if op = 0xA0
      then Some (SetImmediate (a_imm fmt) (insn (Shift SHLADD) I_UNIT (a_qp fmt) (a_r1 fmt) (a_r2 fmt) (a_r3 fmt)))
      else if op = 0x80
      then Some (reg_or_imm fmt (Arith (if a_add_one fmt then ADD_P1 else ADD)) (Arith ADD_IMM) (a_r2 fmt, 0))
      else if op = 0x81
      then Some (reg_or_imm fmt (Arith (if a_sub_one fmt then SUB_M1 else SUB)) (Arith SUB_IMM) (0, a_r3 fmt))
      else if op = 0x89 \<and> a_has_imm fmt
      then Some (SetImmediate (a_imm fmt) (insn (Arith SUB_IMM) I_UNIT (a_qp fmt) (a_r1 fmt) 0 (a_r3 fmt)))
      else if op = 0x82 then Some (reg_or_imm fmt (Arith ADDP4) (Arith ADDP4) (a_r3 fmt, 0))
      else if op = 0x83 then Some (reg_or_imm fmt (Logic AND_GR) (Logic AND_IMM) (0, a_r2 fmt))
      else if op = 0x84 then Some (reg_or_imm fmt (Logic ANDCM) (Logic ANDCM_IMM) (0, a_r2 fmt))
      else if op = 0x85 then Some (reg_or_imm fmt (Logic OR_GR) (Logic OR_IMM) (0, a_r2 fmt))
      else if op = 0x86 then Some (reg_or_imm fmt (Logic XOR_GR) (Logic XOR_IMM) (0, a_r2 fmt))
      else if op AND 0xF0 = 0x90
      then Some (SetImmediate (a_imm fmt) (insn (Arith ADDL) I_UNIT (a_qp fmt) (a_r1 fmt) (a_r3 fmt) 0))
      else if op AND 0xF0 = 0xC0 \<or> op AND 0xF0 = 0xD0 \<or> op AND 0xF0 = 0xE0
      then
        (let (t, c) = compare_of fmt;
             i = SetCompareCompleter c (SetOperands4 (a_p1 fmt) (a_r2 fmt) (a_r3 fmt) (a_p2 fmt)
                   (SetPredicate (a_qp fmt) (InstructionEx (Compare_Op t) I_UNIT)))
         in Some (if a_has_imm fmt then SetImmediate (a_imm fmt) i else i))
      else None)"

subsection \<open>I format\<close>

definition decodeTest :: "u64 \<Rightarrow> iformat \<Rightarrow> iformat option" where
  "decodeTest raw fmt =
     (if extractBits raw 34 2 \<noteq> 0 then None
      else
        let tableIndex = (if extractBits raw 19 1 \<noteq> 0 then 0x10 else 0) OR (if extractBits raw 33 1 \<noteq> 0 then 8 else 0)
              OR (if extractBits raw 36 1 \<noteq> 0 then 4 else 0) OR (if extractBits raw 12 1 \<noteq> 0 then 2 else 0)
              OR (if extractBits raw 13 1 \<noteq> 0 then 1 else 0) :: u8;
            plainTbitZ = (tableIndex = 0 \<or> tableIndex = 0x10);
            tbitZUnc = (tableIndex = 2 \<or> tableIndex = 0x12);
            plainTnatZ = (tableIndex = 1)
        in Some (fmt\<lparr>i_r1 := field8 raw 6 6, i_r2 := field8 raw 27 6, i_r3 := field8 raw 20 7, i_pos := field8 raw 14 6,
             i_opcode := (if plainTbitZ \<or> tbitZUnc then if tbitZUnc then 0x58 else 0x52
                          else if plainTnatZ then 0x54
                          else if tableIndex = 0xC then 0x5D
                          else if tableIndex = 7 then 0x57 else 0x5E)\<rparr>))"

definition decodeMixedI :: "u64 \<Rightarrow> u64 \<Rightarrow> u64 \<Rightarrow> iformat \<Rightarrow> iformat option" where
  "decodeMixedI raw x3 x6 fmt =
     (if x3 = 0 \<and> x6 = 0x10 then Some (fmt\<lparr>i_pos := field8 raw 20 6, i_opcode := 0x10\<rparr>)
      else if x3 = 0 \<and> x6 = 0x11 then Some (fmt\<lparr>i_opcode := 0x11\<rparr>)
      else if x3 = 0 \<and> x6 \<ge> 0x10 \<and> x6 \<le> 0x16 then Some (fmt\<lparr>i_opcode := ucast x6\<rparr>)
      else if x3 = 0 \<and> x6 = 0x1C then Some (fmt\<lparr>i_opcode := ucast x6\<rparr>)
      else if x3 = 0 \<and> x6 = 6
      then Some (fmt\<lparr>i_sof := field8 raw 13 7, i_sol := field8 raw 20 7, i_sor := field8 raw 27 4\<rparr>)
      else Some fmt)"

definition decodeDepositExtract :: "u64 \<Rightarrow> u64 \<Rightarrow> u64 \<Rightarrow> iformat \<Rightarrow> iformat option" where
  "decodeDepositExtract raw x x2 fmt =
     (if x2 = 3 \<and> x = 0 then Some (fmt\<lparr>i_count := field8 raw 27 6, i_opcode := 0x56\<rparr>)
      else
        let fmt1 = fmt\<lparr>i_pos := field8 raw 14 6, i_len := field8 raw 27 6\<rparr> in
        if x2 = 1 then Some (fmt1\<lparr>i_opcode := 0x51\<rparr>)
        else if x2 = 3 \<and> x = 1
        then Some (fmt1\<lparr>i_pos := 0x3F - i_pos fmt1, i_has_imm := True, i_imm := extractBits raw 36 1, i_opcode := 0x5F\<rparr>)
        else Some fmt1)"

definition decodeShift :: "u64 \<Rightarrow> u64 \<Rightarrow> u64 \<Rightarrow> iformat \<Rightarrow> iformat option" where
  "decodeShift raw x2 x6 fmt =
     (let z_a = extractBits raw 36 1; z_b = extractBits raw 33 1; v_e = extractBits raw 32 1;
          x2a = extractBits raw 34 2; x2b = extractBits raw 28 2; x2c = extractBits raw 30 2 in
      if z_a = 0 \<and> z_b = 0 \<and> v_e = 0 \<and> x2a = 3 \<and> x2b = 2 \<and> x2c = 2
      then Some (fmt\<lparr>i_opcode := 0x74, i_has_imm := True, i_imm := extractBits raw 20 4\<rparr>)
      else if x6 = 0x14
      then Some (fmt\<lparr>i_opcode := 0x70, i_has_imm := True, i_count := field8 raw 20 6\<rparr>)
      else if z_a = 0 \<and> z_b = 1 \<and> v_e = 0 \<and> x2a = 1 \<and> x2b = 1 \<and> x2c = 2
      then Some (fmt\<lparr>i_opcode := 0x73, i_has_imm := False\<rparr>)
      else if z_a = 1 \<and> z_b = 1 \<and> v_e = 0 \<and> x2a = 0 \<and> x2b = 0 \<and> x2c = 1
      then Some (fmt\<lparr>i_opcode := 0x70, i_has_imm := False\<rparr>)
      else if z_a = 1 \<and> z_b = 1 \<and> v_e = 0 \<and> x2a = 0 \<and> (x2b = 0 \<or> x2b = 2) \<and> x2c = 0
      then Some (fmt\<lparr>i_opcode := 0x71, i_has_imm := False\<rparr>)
      else if x2 = 3 then Some (fmt\<lparr>i_has_imm := True, i_count := field8 raw 20 6\<rparr>)
      else Some fmt)"

definition decode_major5 :: "u64 \<Rightarrow> iformat \<Rightarrow> iformat option" where
  "decode_major5 raw fmt =
     (let major5_x = extractBits raw 33 1; major5_x2 = extractBits raw 34 2;
          cpos = field8 raw 20 6; encodedLen = field8 raw 27 6;
          depZ = (major5_x = 1 \<and> major5_x2 = 1 \<and> extractBits raw 26 1 = 0)
      in if depZ \<and> encodedLen = cpos
         then Some (fmt\<lparr>i_opcode := 0x70, i_has_imm := True, i_count := 0x3F - cpos\<rparr>)
         else if depZ \<and> encodedLen \<noteq> cpos
         then Some (fmt\<lparr>i_opcode := 0x5E, i_pos := 0x3F - cpos, i_len := encodedLen\<rparr>)
         else case decodeTest raw fmt of
           Some fmt1 \<Rightarrow> Some fmt1
         | None \<Rightarrow> decodeDepositExtract raw major5_x major5_x2 fmt)"

definition ITypeDecoder_decode :: "u64 \<Rightarrow> iformat option" where
  "ITypeDecoder_decode raw =
     (let major = extractBits raw 37 4; x2 = extractBits raw 28 2; x3 = extractBits raw 33 3; x6 = extractBits raw 27 6;
          fmt = IFormat\<lparr>i_qp := field8 raw 0 6, i_r1 := field8 raw 6 7, i_r2 := field8 raw 13 7, i_r3 := field8 raw 20 7,
            i_opcode := ucast (push_bit 4 major OR (x6 AND 0xF))\<rparr>
      in if major = 0 then decodeMixedI raw x3 x6 fmt
         else if major = 4
         then Some (fmt\<lparr>i_opcode := 0x50, i_pos := ucast (0x3F - extractBits raw 31 6), i_len := field8 raw 27 4\<rparr>)
         else if major = 5 then decode_major5 raw fmt
         else if major = 7 then decodeShift raw x2 x6 fmt
         else None)"

definition pos_len :: "iformat \<Rightarrow> u64" where
  "pos_len fmt = push_bit 6 (ucast (i_len fmt)) OR ucast (i_pos fmt)"

text \<open>The tests: \<open>p1, p2 = r3\<close>, with the bit position as immediate for \<open>tbit\<close>.\<close>

definition test_insn :: "iformat \<Rightarrow> test_type \<Rightarrow> instruction" where
  "test_insn fmt t = SetOperands4 (i_r1 fmt) (i_r3 fmt) 0 (i_r2 fmt) (SetPredicate (i_qp fmt) (InstructionEx (Test t) I_UNIT))"

definition i_shift_instruction :: "iformat \<Rightarrow> instruction option" where
  "i_shift_instruction fmt =
     (let op = i_opcode fmt AND 0xF; count = ucast (i_count fmt);
          new = (\<lambda>t d s1 s2. insn (Shift t) I_UNIT (i_qp fmt) d s1 s2) in
      if op = 0
      then Some (if i_has_imm fmt then SetImmediate count (new SHL (i_r1 fmt) (i_r2 fmt) 0)
                 else new SHL (i_r1 fmt) (i_r2 fmt) (i_r3 fmt))
      else if op = 1
      then Some (if i_has_imm fmt then SetImmediate count (new SHR (i_r1 fmt) (i_r2 fmt) 0)
                 else new SHR (i_r1 fmt) (i_r3 fmt) (i_r2 fmt))
      else if op = 2
      then Some (if i_has_imm fmt then SetImmediate count (SetOperands (i_r1 fmt) (i_r2 fmt) 0 (InstructionEx (Shift SHRA) I_UNIT))
                 else SetOperands (i_r1 fmt) (i_r2 fmt) (i_r3 fmt) (InstructionEx (Shift SHRA) I_UNIT))
      else if op = 3 then Some (new POPCNT (i_r1 fmt) (i_r3 fmt) 0)
      else if op = 4 then Some (SetImmediate (i_imm fmt) (new MUX1 (i_r1 fmt) (i_r2 fmt) 0))
      else None)"

definition i_field_instruction :: "iformat \<Rightarrow> instruction option" where
  "i_field_instruction fmt =
     (let op = i_opcode fmt AND 0xF; qp = i_qp fmt; pos = ucast (i_pos fmt) in
      if op = 6
      then Some (SetImmediate (ucast (i_count fmt)) (insn (Shift SHRP) I_UNIT qp (i_r1 fmt) (i_r2 fmt) (i_r3 fmt)))
      else if op = 2 then Some (SetImmediate pos (test_insn fmt TBIT_Z))
      else if op = 8 then Some (SetCompareCompleter UNC (SetImmediate pos (test_insn fmt TBIT_Z)))
      else if op = 3 then Some (SetImmediate pos (test_insn fmt TBIT_NZ))
      else if op = 4 then Some (test_insn fmt TNAT_Z)
      else if op = 5 then Some (test_insn fmt TNAT_NZ)
      else if op = 7 then Some (SetCompareCompleter AND_COMPLETER (test_insn fmt TNAT_NZ))
      else if op = 0xD then Some (SetImmediate pos (SetCompareCompleter OR_ANDCM (test_insn fmt TBIT_Z)))
      else if op = 0xE then Some (SetImmediate (pos_len fmt) (insn (Field DEP_Z) I_UNIT qp (i_r1 fmt) (i_r2 fmt) 0))
      else if op = 0 \<or> op = 0xF
      then Some (if i_has_imm fmt
        then SetImmediate (pos_len fmt OR push_bit 12 1 OR push_bit 13 (i_imm fmt AND 1))
               (insn (Field DEP) I_UNIT qp (i_r1 fmt) 0 (i_r3 fmt))
        else SetImmediate (pos_len fmt) (insn (Field DEP) I_UNIT qp (i_r1 fmt) (i_r2 fmt) (i_r3 fmt)))
      else if op = 1 then Some (SetImmediate (pos_len fmt) (insn (Field EXTR) I_UNIT qp (i_r1 fmt) (i_r3 fmt) 0))
      else None)"

text \<open>The cases on the whole opcode, reached also by the shifts and fields that match none of theirs.\<close>

definition i_other_instruction :: "iformat \<Rightarrow> instruction option" where
  "i_other_instruction fmt =
     (let op = i_opcode fmt; new = (\<lambda>t. insn t I_UNIT (i_qp fmt) (i_r1 fmt) (i_r3 fmt) 0) in
      if op = 0x10 then Some (new (Field ZXT1)) else if op = 0x11 then Some (new (Field ZXT2))
      else if op = 0x12 then Some (new (Field ZXT4)) else if op = 0x14 then Some (new (Field SXT1))
      else if op = 0x15 then Some (new (Field SXT2)) else if op = 0x16 then Some (new (Field SXT4))
      else if op = 0x1C then Some (new (Shift CZX1_R))
      else if op = 0x0C
      then Some (SetImmediate (ucast (i_sof fmt) OR push_bit 7 (ucast (i_sol fmt)) OR push_bit 14 (ucast (i_sor fmt)))
             (SetOperands (i_r1 fmt) 0 0 (InstructionEx ALLOC I_UNIT)))
      else None)"

definition ITypeDecoder_toInstruction :: "iformat \<Rightarrow> instruction option" where
  "ITypeDecoder_toInstruction fmt =
     (let op = i_opcode fmt;
          special = (if op AND 0xF0 = 0x70 then i_shift_instruction fmt
                     else if op AND 0xF0 = 0x50 then i_field_instruction fmt else None)
      in case special of Some i \<Rightarrow> Some i | None \<Rightarrow> i_other_instruction fmt)"

subsection \<open>L+X format\<close>

definition decodeL :: "u64 \<Rightarrow> lformat" where
  "decodeL l_slot = \<lparr>l_imm41 = l_slot AND 0x1FFFFFFFFFF, l_r1 = 0\<rparr>"

definition x_fields :: "u64 \<Rightarrow> xformat" where
  "x_fields x_slot =
     XFormat\<lparr>x_qp := field8 x_slot 0 6, x_r1 := field8 x_slot 6 7, x_imm7b := field8 x_slot 13 7, x_vc := field8 x_slot 20 1,
       x_ic := field8 x_slot 21 1, x_imm5c := field8 x_slot 22 5, x_imm9d := ucast (extractBits x_slot 27 9),
       x_i := field8 x_slot 36 1, x_opcode := field8 x_slot 37 4\<rparr>"

definition x_imm_fields :: "xformat \<Rightarrow> u64" where
  "x_imm_fields fmt =
     push_bit 63 (ucast (x_i fmt)) OR push_bit 21 (ucast (x_ic fmt)) OR push_bit 16 (ucast (x_imm5c fmt))
       OR push_bit 7 (ucast (x_imm9d fmt)) OR ucast (x_imm7b fmt)"

definition decodeX :: "u64 \<Rightarrow> xformat option" where
  "decodeX x_slot =
     (let fmt = x_fields x_slot in
      if x_opcode fmt \<noteq> 6 \<or> x_vc fmt \<noteq> 0 then None else Some (fmt\<lparr>x_imm64 := x_imm_fields fmt\<rparr>))"

definition combineMOVL :: "lformat \<Rightarrow> xformat \<Rightarrow> instruction" where
  "combineMOVL l_fmt x_fmt =
     (let imm41 = l_imm41 l_fmt AND 0x1FFFFFFFFFF;
          final_imm = push_bit 63 (ucast (x_i x_fmt)) OR push_bit 22 imm41 OR push_bit 21 (ucast (x_ic x_fmt))
            OR push_bit 16 (ucast (x_imm5c x_fmt)) OR push_bit 7 (ucast (x_imm9d x_fmt)) OR ucast (x_imm7b x_fmt)
      in SetImmediate final_imm (insn (Move MOVL) L_UNIT (x_qp x_fmt) (x_r1 x_fmt) 0 0))"

subsection \<open>X format\<close>

definition decodeBreak :: "u64 \<Rightarrow> xformat" where
  "decodeBreak slot =
     XFormat\<lparr>x_qp := field8 slot 0 6, x_imm21 := ucast (push_bit 20 (extractBits slot 36 1) OR extractBits slot 6 20),
       x_x3 := field8 slot 33 3\<rparr>"

definition decodeNop :: "u64 \<Rightarrow> xformat" where
  "decodeNop slot = XFormat\<lparr>x_qp := field8 slot 0 6, x_imm27 := ucast (extractBits slot 6 27)\<rparr>"

definition decodeMovl :: "u64 \<Rightarrow> xformat" where
  "decodeMovl slot = x_fields slot"

definition XTypeDecoder_decode :: "u64 \<Rightarrow> instruction" where
  "XTypeDecoder_decode slot =
     (let inst = SetPredicate (field8 slot 0 6) (SetRawBits slot (InstructionEx NOP X_UNIT));
          opcode = extractBits slot 37 4
      in if opcode = 0 then SetImmediate (ucast (x_imm21 (decodeBreak slot))) (SetType BREAK inst)
         else if opcode = 1
         then let fmt = decodeNop slot; inst1 = SetType NOP inst
              in if x_imm27 fmt \<noteq> 0 then SetImmediate (ucast (x_imm27 fmt)) inst1 else inst1
         else if opcode = 6 then SetImmediate (x_imm_fields (decodeMovl slot)) (SetType (Move MOVL) inst)
         else if opcode = 0xC \<or> opcode = 0xD \<or> opcode = 0xE \<or> opcode = 0xF then SetType NOP inst
         else SetType UNKNOWN inst)"

end
