(* ===== verification/Decoder_MBF.thy ===== *)
theory Decoder_MBF
  imports Decoder_Formats
begin

text \<open>
  The decoders of the M format (\<open>src/src/decoder/mtype_decoder.cpp\<close>), the B format
  (\<open>src/src/decoder/btype_decoder.cpp\<close>) and the F format (\<open>src/src/decoder/ftype_decoder.cpp\<close>).
\<close>

subsection \<open>M format\<close>

definition setAccessSize :: "u64 \<Rightarrow> mformat \<Rightarrow> mformat" where
  "setAccessSize x6 fmt =
     (let size_code = x6 AND 3 in
      fmt\<lparr>m_size := (if size_code = 0 then SIZE_1 else if size_code = 1 then SIZE_2 else if size_code = 2 then SIZE_4
                      else SIZE_8)\<rparr>)"

definition decodeLoad :: "u64 \<Rightarrow> u64 \<Rightarrow> mformat \<Rightarrow> mformat" where
  "decodeLoad x6 m fmt =
     (setAccessSize x6 (fmt\<lparr>m_operation := OP_LOAD\<rparr>))
       \<lparr>m_speculative := (x6 AND 0x10 \<noteq> 0), m_advanced := (x6 AND 0x20 \<noteq> 0), m_acquire := (m = 1)\<rparr>"

definition decodeStore :: "u64 \<Rightarrow> u64 \<Rightarrow> mformat \<Rightarrow> mformat" where
  "decodeStore x6 m fmt = (setAccessSize x6 (fmt\<lparr>m_operation := OP_STORE\<rparr>))\<lparr>m_release := (m = 1)\<rparr>"

definition M_decodeAlloc :: "u64 \<Rightarrow> mformat \<Rightarrow> mformat option" where
  "M_decodeAlloc raw fmt =
     (if extractBits raw 33 3 \<noteq> 6 then None
      else Some (fmt\<lparr>m_operation := OP_ALLOC, m_r1 := field8 raw 6 7, m_has_imm := True,
        m_imm9 := ucast (extractBits raw 13 7 OR push_bit 7 (extractBits raw 20 7) OR push_bit 14 (extractBits raw 27 4))\<rparr>))"

text \<open>The 9-bit immediate of the update forms, with the low seven bits at the given position.\<close>

definition imm9_at :: "nat \<Rightarrow> u64 \<Rightarrow> 16 word" where
  "imm9_at p raw =
     ucast (signExtend (push_bit 8 (extractBits raw 36 1) OR push_bit 7 (extractBits raw 27 1) OR extractBits raw p 7) 9)"

text \<open>The fixed encodings of major opcode 1, by their \<open>x6\<close> field.\<close>

definition m1_operation :: "u64 \<Rightarrow> mem_op option" where
  "m1_operation x6 =
     (if x6 = 0 then Some OP_MOV_TO_RR else if x6 = 0x10 then Some OP_MOV_FROM_RR
      else if x6 = 0x2c then Some OP_MOV_TO_CR else if x6 = 0x24 then Some OP_MOV_FROM_CR
      else if x6 = 0x25 then Some OP_MOV_FROM_PSR else if x6 = 0x2d then Some OP_MOV_TO_PSR
      else if x6 = 0x17 then Some OP_MOV_FROM_CPUID
      else if x6 = 4 \<or> x6 = 5 then Some OP_MOV_TO_PMC else if x6 = 0x14 \<or> x6 = 0x15 then Some OP_MOV_FROM_PMC
      else if x6 = 0x0f then Some OP_ITR_I else if x6 = 0x0e then Some OP_ITR_D
      else if x6 = 0x2f then Some OP_ITC_I else if x6 = 0x2e then Some OP_ITC_D
      else if x6 = 0x30 then Some OP_FC else if x6 = 0x1e then Some OP_TPA
      else if x6 = 0x1a then Some OP_THASH else if x6 = 9 then Some OP_PTC_L
      else None)"

text \<open>The fixed encodings of major opcode 0.\<close>

definition m0_decode :: "u64 \<Rightarrow> mformat \<Rightarrow> mformat option" where
  "m0_decode raw fmt =
     (let m = extractBits raw 36 1; x6 = extractBits raw 27 6; x4 = extractBits raw 27 4; x2 = extractBits raw 31 2 in
      if m = 0 \<and> x6 = 0x22 then Some (fmt\<lparr>m_operation := OP_MF\<rparr>)
      else if m = 0 \<and> x6 = 0x23 then Some (fmt\<lparr>m_operation := OP_MF_A\<rparr>)
      else if m = 0 \<and> x6 = 0x33 then Some (fmt\<lparr>m_operation := OP_SYNC_I\<rparr>)
      else if m = 0 \<and> x6 = 0x31 then Some (fmt\<lparr>m_operation := OP_SRLZ_I\<rparr>)
      else if m = 0 \<and> x4 = 0 \<and> x2 = 3 then Some (fmt\<lparr>m_operation := OP_SRLZ_D\<rparr>)
      else if x4 = 6 \<or> x4 = 7
      then Some (fmt\<lparr>m_operation := (if x4 = 6 then OP_SSM else OP_RSM), m_has_imm := True,
             m_imm24 := ucast (extractBits raw 6 21 OR push_bit 21 (extractBits raw 31 2) OR push_bit 23 (extractBits raw 36 1))\<rparr>)
      else if m = 0 \<and> x4 = 0 \<and> x2 = 1 then Some (fmt\<lparr>m_operation := OP_INVALA\<rparr>)
      else if m = 0 \<and> x4 = 0xc \<and> x2 = 0 \<and> m_qp fmt = 0 then Some (fmt\<lparr>m_operation := OP_FLUSHRS\<rparr>)
      else if m = 0 \<and> x4 = 0xa \<and> x2 = 0 \<and> m_qp fmt = 0 then Some (fmt\<lparr>m_operation := OP_LOADRS\<rparr>)
      else None)"

definition m4_decode :: "u64 \<Rightarrow> mformat \<Rightarrow> mformat option" where
  "m4_decode raw fmt =
     (let m = extractBits raw 36 1; x = extractBits raw 27 1; x6 = extractBits raw 30 6; x6row = drop_bit 2 x6 in
      if x = 1 \<and> m = 0 \<and> (x6 = 0x1C \<or> x6 = 0x1D)
      then Some (fmt\<lparr>m_operation := OP_GETF, m_getf_exponent := (x6 = 0x1D)\<rparr>)
      else if x = 1 \<and> m = 0 \<and> (x6 = 2 \<or> x6 = 3 \<or> x6 = 6 \<or> x6 = 7)
      then Some (fmt\<lparr>m_operation := OP_EXCHANGE, m_release := (x6 = 6 \<or> x6 = 7),
             m_size := (if x6 AND 1 \<noteq> 0 then SIZE_8 else SIZE_4)\<rparr>)
      else if x = 1 \<and> m = 0 \<and> (x6 = 8 \<or> x6 = 9 \<or> x6 = 0xA \<or> x6 = 0xB)
      then Some (fmt\<lparr>m_operation := OP_XCHG,
             m_size := (if x6 = 8 then SIZE_1 else if x6 = 9 then SIZE_2 else if x6 = 0xA then SIZE_4 else SIZE_8)\<rparr>)
      else if x = 1 \<and> m = 0 \<and> (x6 = 0x12 \<or> x6 = 0x16)
      then
        (let i2b = extractBits raw 13 2; negative = (extractBits raw 15 1 \<noteq> 0);
             magnitude = (if i2b = 3 then 1 else push_bit (4 - unat i2b) 1) :: 16 word
         in Some (fmt\<lparr>m_operation := OP_FETCHADD, m_size := SIZE_4, m_has_imm := True, m_release := (x6 = 0x16),
                m_imm9 := (if negative then - magnitude else magnitude)\<rparr>))
      else if x = 0 \<and> m = 0 \<and> x6row \<le> 0xA then Some (decodeLoad x6 m fmt)
      else if x = 0 \<and> m = 0 \<and> x6row \<ge> 0xC \<and> x6row \<le> 0xE
      then Some ((decodeStore x6 m fmt)\<lparr>m_r1 := m_r2 fmt\<rparr>)
      else if x = 0 \<and> m = 1 \<and> x6row \<le> 0xA then Some ((decodeLoad x6 m fmt)\<lparr>m_reg_update := True\<rparr>)
      else None)"

definition m5_decode :: "u64 \<Rightarrow> mformat \<Rightarrow> mformat option" where
  "m5_decode raw fmt =
     (let m = extractBits raw 36 1; x6 = extractBits raw 30 6; x6row = drop_bit 2 x6 in
      if x6row \<le> 0xA then Some ((decodeLoad x6 m fmt)\<lparr>m_has_imm := True, m_imm9 := imm9_at 13 raw\<rparr>)
      else if x6row \<ge> 0xC \<and> x6row \<le> 0xE
      then Some ((decodeStore x6 m fmt)\<lparr>m_has_imm := True, m_r1 := m_r2 fmt, m_imm9 := imm9_at 6 raw\<rparr>)
      else None)"

definition m6_decode :: "u64 \<Rightarrow> mformat \<Rightarrow> mformat option" where
  "m6_decode raw fmt =
     (let m = extractBits raw 36 1; x = extractBits raw 27 1; x6 = extractBits raw 30 6 in
      if m = 0 \<and> x6 \<ge> 0x2c \<and> x6 \<le> 0x2f
      then Some (fmt\<lparr>m_operation := OP_LFETCH, m_lfetch_fault := (x6 AND 2 \<noteq> 0), m_lfetch_exclusive := (x6 AND 1 \<noteq> 0),
             m_reg_update := (x = 1)\<rparr>)
      else if x = 1 \<and> m = 0 \<and> x6 = 0x1C then Some (fmt\<lparr>m_operation := OP_SETF\<rparr>)
      else Some (decodeLoad x6 m fmt))"

definition m7_decode :: "u64 \<Rightarrow> mformat \<Rightarrow> mformat option" where
  "m7_decode raw fmt =
     (let x6 = extractBits raw 30 6 in
      if x6 \<ge> 0x2C \<and> x6 \<le> 0x2F
      then Some (fmt\<lparr>m_operation := OP_LFETCH, m_lfetch_fault := (x6 AND 2 \<noteq> 0), m_lfetch_exclusive := (x6 AND 1 \<noteq> 0),
             m_reg_update := True, m_has_imm := True, m_imm9 := imm9_at 13 raw\<rparr>)
      else if x6 = 0x1B
      then Some (fmt\<lparr>m_operation := OP_LDF_FILL, m_size := SIZE_16, m_has_imm := True, m_imm9 := imm9_at 13 raw\<rparr>)
      else if x6 \<noteq> 0x31 \<and> x6 \<noteq> 0x3B then None
      else Some (fmt\<lparr>m_operation := (if x6 = 0x3B then OP_STF_SPILL else OP_STF8),
             m_size := (if x6 = 0x3B then SIZE_16 else SIZE_8), m_r1 := m_r2 fmt, m_has_imm := True, m_imm9 := imm9_at 6 raw\<rparr>))"

definition MTypeDecoder_decode :: "u64 \<Rightarrow> mformat option" where
  "MTypeDecoder_decode raw =
     (let major = extractBits raw 37 4; x3 = extractBits raw 33 3; m = extractBits raw 36 1; x6 = extractBits raw 30 6;
          fmt = MFormat\<lparr>m_qp := field8 raw 0 6, m_r1 := field8 raw 6 7, m_r2 := field8 raw 13 7, m_r3 := field8 raw 20 7,
            m_opcode := ucast (push_bit 4 major OR (x6 AND 0xF)), m_m := field8 raw 36 1, m_x := field8 raw 30 6,
            m_hint := field8 raw 28 2\<rparr>;
          fixed = (if major = 1 \<and> x3 = 0 \<and> m = 0
                   then map_option (\<lambda>op. fmt\<lparr>m_operation := op\<rparr>) (m1_operation (extractBits raw 27 6))
                   else if major = 0 \<and> x3 = 0 then m0_decode raw fmt else None)
      in case fixed of Some f \<Rightarrow> Some f
         | None \<Rightarrow>
           if major = 1 then M_decodeAlloc raw fmt
           else if major = 4 then m4_decode raw fmt
           else if major = 5 then m5_decode raw fmt
           else if major = 6 then m6_decode raw fmt
           else if major = 7 then m7_decode raw fmt
           else None)"

definition imm9_value :: "mformat \<Rightarrow> u64" where
  "imm9_value fmt = signed (m_imm9 fmt)"

fun load_type :: "bool \<Rightarrow> mem_size \<Rightarrow> memory_type option" where
  "load_type spec SIZE_1 = Some (if spec then LD1_S else LD1)"
| "load_type spec SIZE_2 = Some (if spec then LD2_S else LD2)"
| "load_type spec SIZE_4 = Some (if spec then LD4_S else LD4)"
| "load_type spec SIZE_8 = Some (if spec then LD8_S else LD8)"
| "load_type spec _ = None"

fun store_type :: "mem_size \<Rightarrow> memory_type option" where
  "store_type SIZE_1 = Some ST1"
| "store_type SIZE_2 = Some ST2"
| "store_type SIZE_4 = Some ST4"
| "store_type SIZE_8 = Some ST8"
| "store_type _ = None"

text \<open>\<open>new t d s1 s2\<close> is an M-unit instruction with the format's qualifying predicate.\<close>

definition MTypeDecoder_toInstruction :: "mformat \<Rightarrow> instruction option" where
  "MTypeDecoder_toInstruction fmt =
     (let new = (\<lambda>t d s1 s2. insn t M_UNIT (m_qp fmt) d s1 s2);
          plain = (\<lambda>t. Some (SetPredicate (m_qp fmt) (InstructionEx (Memory_Op t) M_UNIT)));
          r1 = m_r1 fmt; r2 = m_r2 fmt; r3 = m_r3 fmt; imm9 = imm9_value fmt in
      case m_operation fmt of
        OP_LOAD \<Rightarrow> map_option (\<lambda>t.
          let i = new (Memory_Op t) r1 r3 (if m_reg_update fmt then r2 else 0)
          in if m_has_imm fmt then SetImmediate imm9 i else i) (load_type (m_speculative fmt) (m_size fmt))
      | OP_STORE \<Rightarrow> map_option (\<lambda>t.
          let i = new (Memory_Op t) r3 r1 0 in if m_has_imm fmt then SetImmediate imm9 i else i) (store_type (m_size fmt))
      | OP_LDF_FILL \<Rightarrow>
          if m_size fmt \<noteq> SIZE_16 \<or> \<not> m_has_imm fmt then None else Some (SetImmediate imm9 (new (Spill LDF_FILL) r1 r3 0))
      | OP_STF8 \<Rightarrow>
          if m_size fmt \<noteq> SIZE_8 \<or> \<not> m_has_imm fmt then None else Some (SetImmediate imm9 (new (Spill STF8) r3 r2 0))
      | OP_STF_SPILL \<Rightarrow>
          if m_size fmt \<noteq> SIZE_16 \<or> \<not> m_has_imm fmt then None else Some (SetImmediate imm9 (new (Spill STF_SPILL) r3 r2 0))
      | OP_FETCHADD \<Rightarrow>
          if m_size fmt \<noteq> SIZE_4 \<or> \<not> m_has_imm fmt then None
          else Some (SetImmediate imm9 (new (Memory_Op (if m_release fmt then FETCHADD4_REL else FETCHADD4_ACQ)) r1 r3 0))
      | OP_LFETCH \<Rightarrow>
          (let i = new (Memory_Op LFETCH) 0 r3 (if m_reg_update fmt then r2 else 0);
               i1 = (if m_has_imm fmt then SetImmediate imm9 i else i)
           in Some (SetRegisterUpdate (m_reg_update fmt)
                (SetLfetchProperties (m_lfetch_fault fmt) (m_lfetch_exclusive fmt) (m_hint fmt) i1)))
      | OP_EXCHANGE \<Rightarrow>
          if m_size fmt = SIZE_4 then Some (new (Memory_Op (if m_release fmt then CMPXCHG4_REL else CMPXCHG4_ACQ)) r1 r3 r2)
          else if m_size fmt = SIZE_8 then Some (new (Memory_Op (if m_release fmt then CMPXCHG8_REL else CMPXCHG8_ACQ)) r1 r3 r2)
          else None
      | OP_XCHG \<Rightarrow> if m_size fmt \<noteq> SIZE_4 then None else Some (new (Memory_Op XCHG4) r1 r3 r2)
      | OP_GETF \<Rightarrow> Some (new (Move (if m_getf_exponent fmt then GETF_EXP else GETF_SIG)) r1 r2 0)
      | OP_SETF \<Rightarrow> Some (new (Move SETF_SIG) r1 r2 0)
      | OP_INVALA \<Rightarrow> plain INVALA
      | OP_FC \<Rightarrow> Some (new (Memory_Op FC) 0 r3 0)
      | OP_TPA \<Rightarrow> Some (new (Memory_Op TPA) r1 r3 0)
      | OP_SYNC_I \<Rightarrow> plain SYNC_I
      | OP_SRLZ_I \<Rightarrow> plain SRLZ_I
      | OP_SRLZ_D \<Rightarrow> plain SRLZ_D
      | OP_MF \<Rightarrow> plain MF
      | OP_MF_A \<Rightarrow> plain MF_A
      | OP_SSM \<Rightarrow> map_option (SetImmediate (ucast (m_imm24 fmt))) (plain SSM)
      | OP_RSM \<Rightarrow> map_option (SetImmediate (ucast (m_imm24 fmt))) (plain RSM)
      | OP_MOV_FROM_RR \<Rightarrow> Some (new (Move MOV_FROM_RR) r1 r3 0)
      | OP_MOV_TO_RR \<Rightarrow> Some (new (Move MOV_TO_RR) r3 r2 0)
      | OP_MOV_FROM_CR \<Rightarrow> Some (new (Move MOV_FROM_CR) r1 r3 0)
      | OP_MOV_FROM_PSR \<Rightarrow> Some (new (Move MOV_FROM_PSR) r1 0 0)
      | OP_MOV_TO_PSR \<Rightarrow> Some (new (Move MOV_TO_PSR) 0 r2 0)
      | OP_MOV_FROM_CPUID \<Rightarrow> Some (new (Move MOV_FROM_CPUID) r1 r3 0)
      | OP_MOV_TO_CR \<Rightarrow> Some (new (Move MOV_TO_CR) r3 r2 0)
      | OP_MOV_TO_PMC \<Rightarrow> Some (new (Move MOV_TO_PMC) r3 r2 0)
      | OP_MOV_FROM_PMC \<Rightarrow> Some (new (Move MOV_FROM_PMC) r1 r3 0)
      | OP_ITR_I \<Rightarrow> Some (new (Move ITR_I) r3 r2 0)
      | OP_ITR_D \<Rightarrow> Some (new (Move ITR_D) r3 r2 0)
      | OP_ITC_I \<Rightarrow> Some (new (Move ITC_I) 0 r2 0)
      | OP_ITC_D \<Rightarrow> Some (new (Move ITC_D) 0 r2 0)
      | OP_THASH \<Rightarrow> Some (new (Move THASH) r1 r3 0)
      | OP_PTC_L \<Rightarrow> Some (new (Move PTC_L) 0 r3 r2)
      | OP_FLUSHRS \<Rightarrow> Some (SetPredicate 0 (InstructionEx (Memory_Op FLUSHRS) M_UNIT))
      | OP_LOADRS \<Rightarrow> Some (SetPredicate 0 (InstructionEx (Memory_Op LOADRS) M_UNIT))
      | OP_ALLOC \<Rightarrow> None
      | OP_RFI \<Rightarrow> None)"

subsection \<open>B format\<close>

text \<open>The target of an IP-relative branch: a signed 21-bit displacement in bundles.\<close>

definition ip_relative_target :: "u64 \<Rightarrow> u64 \<Rightarrow> u64" where
  "ip_relative_target raw current_ip =
     (let imm20b = extractBits raw 13 20; s = extractBits raw 36 1;
          displacement = push_bit 4 (signExtend (push_bit 20 s OR imm20b) 21)
      in current_ip + displacement)"

definition decodeIPRelative :: "u64 \<Rightarrow> u64 \<Rightarrow> u64 \<Rightarrow> u64 \<Rightarrow> bformat \<Rightarrow> bformat" where
  "decodeIPRelative raw btype x6 current_ip fmt0 =
     (let fmt = fmt0\<lparr>b_indirect := False\<rparr> in
      if btype = 4 \<and> x6 = 0x21 then fmt\<lparr>b_indirect := True, b_type := B_RET, b_has_target := False\<rparr>
      else
        let kind = (if btype = 0 then B_COND else if btype = 1 then B_CALL else if btype = 4 then B_COND
                    else if btype = 5 then B_CALL
                    else if x6 AND 0x30 = 0x20 then
                      (if x6 AND 0xF = 0 then B_CLOOP else if x6 AND 0xF = 1 then B_CEXIT
                       else if x6 AND 0xF = 2 then B_CTOP else if x6 AND 0xF = 3 then B_WTOP
                       else if x6 AND 0xF = 4 then B_WEXIT else b_type fmt)
                    else B_COND)
        in fmt\<lparr>b_type := kind, b_target_offset := ip_relative_target raw current_ip, b_has_target := True\<rparr>)"

definition decodeIndirect :: "u64 \<Rightarrow> bformat \<Rightarrow> bformat" where
  "decodeIndirect x6 fmt =
     (let operation = x6 AND 0x1F;
          kind = (if operation = 0 then B_CALL else if operation = 1 then B_CALL
                  else if operation = 4 then B_RET else if operation = 5 then B_IA else B_COND)
      in fmt\<lparr>b_indirect := True, b_type := kind, b_has_target := False\<rparr>)"

text \<open>The special forms of major opcode 0.\<close>

definition special_branch :: "u64 \<Rightarrow> branch_kind option" where
  "special_branch x6 =
     (if x6 = 0 then Some B_BREAK else if x6 = 2 then Some B_COVER else if x6 = 4 then Some B_CLRRB
      else if x6 = 5 then Some B_CLRRB_PR else if x6 = 8 then Some B_RFI else if x6 = 0xC then Some B_BSW0
      else if x6 = 0xD then Some B_BSW1 else if x6 = 0x10 then Some B_EPC else if x6 = 0x18 then Some B_VMSW0
      else if x6 = 0x19 then Some B_VMSW1 else None)"

definition BTypeDecoder_decode :: "u64 \<Rightarrow> u64 \<Rightarrow> bformat option" where
  "BTypeDecoder_decode raw current_ip =
     (let major = extractBits raw 37 4; btype = extractBits raw 6 3; x6 = extractBits raw 27 6;
          fmt = BFormat\<lparr>b_qp := field8 raw 0 6, b_b1 := field8 raw 6 3, b_b2 := field8 raw 13 3, b_wh := field8 raw 33 2,
            b_dh := field8 raw 35 1, b_ph := field8 raw 12 1, b_opcode := ucast (push_bit 4 major OR (x6 AND 0xF))\<rparr>;
          special = (if major = 0 then special_branch x6
                     else if major = 2 \<and> x6 = 0 then Some B_NOP else if major = 2 \<and> x6 = 1 then Some B_HINT else None);
          registerBranch = (major = 1 \<or> (major = 4 \<and> btype = 4) \<or> (major = 0 \<and> btype = 4 \<and> x6 \<noteq> 0x21) \<or> (major = 0 \<and> x6 = 0x20))
      in case special of
        Some kind \<Rightarrow> Some (fmt\<lparr>b_type := kind, b_indirect := False, b_has_target := False\<rparr>)
      | None \<Rightarrow>
        if major = 0 \<or> major = 4
        then
          if registerBranch
          then let f = decodeIndirect x6 fmt
               in Some (if major = 0 \<and> x6 = 0x20 then f\<lparr>b_type := B_COND, b_indirect := True, b_has_target := False\<rparr> else f)
          else let f = decodeIPRelative raw btype x6 current_ip fmt
               in Some (if major = 4
                    then if btype = 2 then f\<lparr>b_type := B_WEXIT\<rparr> else if btype = 3 then f\<lparr>b_type := B_WTOP\<rparr>
                         else if btype = 5 then f\<lparr>b_type := B_CLOOP\<rparr> else if btype = 6 then f\<lparr>b_type := B_CEXIT\<rparr>
                         else if btype = 7 then f\<lparr>b_type := B_CTOP\<rparr> else f
                    else f)
        else if major = 5
        then Some (fmt\<lparr>b_indirect := False, b_type := (if btype = 5 then B_CLOOP else B_CALL),
               b_target_offset := ip_relative_target raw current_ip, b_has_target := True\<rparr>)
        else if major = 1 then Some (decodeIndirect x6 fmt)
        else None)"

fun branch_instruction_type :: "branch_kind \<Rightarrow> instruction_type" where
  "branch_instruction_type B_COND = Branch BR_COND"
| "branch_instruction_type B_CALL = Branch BR_CALL"
| "branch_instruction_type B_RET = Branch BR_RET"
| "branch_instruction_type B_RFI = Memory_Op RFI"
| "branch_instruction_type B_BSW0 = BSW"
| "branch_instruction_type B_BSW1 = BSW"
| "branch_instruction_type B_COVER = COVER"
| "branch_instruction_type B_CLRRB = CLRRB"
| "branch_instruction_type B_CLRRB_PR = CLRRB"
| "branch_instruction_type B_EPC = NOP"
| "branch_instruction_type B_VMSW0 = NOP"
| "branch_instruction_type B_VMSW1 = NOP"
| "branch_instruction_type B_BREAK = BREAK"
| "branch_instruction_type B_NOP = NOP"
| "branch_instruction_type B_HINT = NOP"
| "branch_instruction_type B_IA = Branch BR_IA"
| "branch_instruction_type B_CLOOP = Branch BR_CLOOP"
| "branch_instruction_type B_CTOP = Branch BR_CTOP"
| "branch_instruction_type B_CEXIT = Branch BR_CEXIT"
| "branch_instruction_type B_WTOP = Branch BR_WTOP"
| "branch_instruction_type B_WEXIT = Branch BR_WEXIT"

definition unpredicated_branch :: "branch_kind \<Rightarrow> bool" where
  "unpredicated_branch k \<longleftrightarrow> k \<in> {B_CLOOP, B_CTOP, B_CEXIT, B_RFI, B_BSW0, B_BSW1, B_COVER, B_CLRRB, B_CLRRB_PR, B_EPC,
     B_VMSW0, B_VMSW1, B_BREAK, B_NOP, B_HINT}"

definition BTypeDecoder_toInstruction :: "bformat \<Rightarrow> instruction" where
  "BTypeDecoder_toInstruction fmt =
     (let k = b_type fmt;
          i0 = SetPredicate (if unpredicated_branch k then 0 else b_qp fmt) (InstructionEx (branch_instruction_type k) B_UNIT);
          i1 = (if k \<in> {B_BSW0, B_BSW1} then SetImmediate (if k = B_BSW1 then 1 else 0) i0
                else if k \<in> {B_CLRRB, B_CLRRB_PR} then SetImmediate (if k = B_CLRRB_PR then 1 else 0) i0
                else if k \<in> {B_VMSW0, B_VMSW1} then SetImmediate (if k = B_VMSW1 then 1 else 0) i0 else i0);
          i2 = (if k = B_RET then SetOperands 0 (b_b2 fmt) 0 i1
                else if k = B_CALL then SetOperands (b_b1 fmt) (if b_indirect fmt then b_b2 fmt else 0) 0 i1
                else if k = B_COND \<and> b_indirect fmt then SetOperands 0 (b_b2 fmt) 0 i1 else i1)
      in if b_has_target fmt then SetBranchTarget (b_target_offset fmt) i2 else i2)"

subsection \<open>F format\<close>

definition decodeF1 :: "u64 \<Rightarrow> fformat" where
  "decodeF1 slot = FFormat\<lparr>f_f1 := field8 slot 6 7, f_f2 := field8 slot 13 7, f_f3 := field8 slot 20 7, f_f4 := field8 slot 27 7,
     f_sf := field8 slot 34 2\<rparr>"

definition decodeF2 :: "u64 \<Rightarrow> fformat" where
  "decodeF2 slot = FFormat\<lparr>f_f1 := field8 slot 6 7, f_f2 := field8 slot 13 7, f_f3 := field8 slot 20 7, f_f4 := field8 slot 27 7\<rparr>"

definition decodeF4 :: "u64 \<Rightarrow> fformat" where
  "decodeF4 slot = FFormat\<lparr>f_p1 := field8 slot 6 6, f_f2 := field8 slot 12 7, f_f3 := field8 slot 19 7, f_p2 := field8 slot 26 6,
     f_ta := field8 slot 32 2, f_sf := field8 slot 34 2\<rparr>"

definition decodeF5 :: "u64 \<Rightarrow> fformat" where
  "decodeF5 slot = FFormat\<lparr>f_p1 := field8 slot 6 6, f_f2 := field8 slot 12 7, f_fclass9 := ucast (extractBits slot 19 9),
     f_p2 := field8 slot 28 6, f_ta := field8 slot 34 1, f_unc := field8 slot 35 1\<rparr>"

definition decodeF6 :: "u64 \<Rightarrow> fformat" where
  "decodeF6 slot = FFormat\<lparr>f_f1 := field8 slot 6 7, f_f2 := field8 slot 13 7, f_f3 := field8 slot 20 7, f_p2 := field8 slot 27 6,
     f_sf := field8 slot 34 2\<rparr>"

definition decodeF7 :: "u64 \<Rightarrow> fformat" where
  "decodeF7 slot = FFormat\<lparr>f_f1 := field8 slot 6 7, f_p2 := field8 slot 27 6, f_f3 := field8 slot 20 7, f_sf := field8 slot 34 2\<rparr>"

definition decodeF8 :: "u64 \<Rightarrow> fformat" where
  "decodeF8 slot = FFormat\<lparr>f_f1 := field8 slot 6 7, f_f2 := field8 slot 13 7, f_f3 := field8 slot 20 7, f_sf := field8 slot 34 2\<rparr>"

definition decodeF9 :: "u64 \<Rightarrow> fformat" where
  "decodeF9 slot = FFormat\<lparr>f_f1 := field8 slot 6 7, f_f2 := field8 slot 13 7, f_f3 := field8 slot 20 7\<rparr>"

definition decodeF10 :: "u64 \<Rightarrow> fformat" where
  "decodeF10 slot = FFormat\<lparr>f_f1 := field8 slot 6 7, f_f2 := field8 slot 13 7, f_sf := field8 slot 34 2\<rparr>"

text \<open>The sources of a fused or fixed-point multiply-add are \<open>f3\<close>, \<open>f4\<close>, \<open>f2\<close>.\<close>

definition FTypeDecoder_decode :: "u64 \<Rightarrow> instruction" where
  "FTypeDecoder_decode slot =
     (let qp = field8 slot 0 6;
          inst = SetPredicate qp (SetRawBits slot (InstructionEx NOP F_UNIT));
          opcode = extractBits slot 37 4; bit36 = extractBits slot 36 1 in
      if opcode \<in> {8, 9, 0xA, 0xB, 0xC, 0xD}
      then
        (let parallelForm = (bit36 \<noteq> 0 \<and> (opcode = 9 \<or> opcode = 0xB \<or> opcode = 0xD)); fmt = decodeF1 slot in
         if parallelForm then inst
         else SetOperands4 (f_f1 fmt) (f_f3 fmt) (f_f4 fmt) (f_f2 fmt)
           (SetType (Float_Op (if opcode = 8 \<or> opcode = 9 then FMA else if opcode = 0xA \<or> opcode = 0xB then FMS else FNMA)) inst))
      else if opcode = 4
      then let fmt = decodeF4 slot
           in SetImmediate (ucast (f_p2 fmt)) (SetOperands (f_p1 fmt) (f_f2 fmt) (f_f3 fmt) (SetType (Float_Op FCMP) inst))
      else if opcode = 5
      then let fmt = decodeF5 slot
           in SetImmediate (ucast (f_fclass9 fmt)) (SetOperands (f_p1 fmt) (f_f2 fmt) 0 (SetType (Float_Op FCLASS) inst))
      else if opcode = 0
      then
        (let conversionOpcode = extractBits slot 27 6; x = extractBits slot 33 1 in
         if bit36 = 0 \<and> (conversionOpcode = 0x1B \<or> conversionOpcode = 0x1A)
         then let fmt = decodeF10 slot
              in SetOperands (f_f1 fmt) (f_f2 fmt) 0 (SetType (Float_Op (if conversionOpcode = 0x1B then FCVT_FXU else FCVT_FX)) inst)
         else if x \<noteq> 1 then inst
         else if bit36 = 0
         then let fmt = decodeF6 slot
              in SetPredicate2 (f_p2 fmt) (SetOperands (f_f1 fmt) (f_f2 fmt) (f_f3 fmt) (SetType (Float_Op FRCPA) inst))
         else let fmt = decodeF7 slot
              in SetPredicate2 (f_p2 fmt) (SetOperands (f_f1 fmt) (f_f3 fmt) 0 (SetType (Float_Op FRSQRTA) inst)))
      else if opcode = 1
      then let fmt = decodeF8 slot; x = extractBits slot 33 1
           in SetOperands (f_f1 fmt) (f_f2 fmt) (f_f3 fmt) (SetType (Float_Op (if x = 0 then FMIN else FMAX)) inst)
      else if opcode = 2
      then let fmt = decodeF9 slot in SetOperands (f_f1 fmt) (f_f2 fmt) (f_f3 fmt) (SetType (Float_Op FMERGE) inst)
      else if opcode = 0xE
      then
        (let x2 = extractBits slot 34 2; fmt = decodeF2 slot in
         if bit36 = 1
         then SetOperands4 (f_f1 fmt) (f_f3 fmt) (f_f4 fmt) (f_f2 fmt)
           (SetType (if x2 = 0 then Float_Op XMA else if x2 = 2 then Float_Op XMA_HU else if x2 = 3 then Float_Op XMA_H
                     else UNKNOWN) inst)
         else inst)
      else SetType UNKNOWN inst)"

end
