(* ===== verification/Decoder.thy ===== *)
theory Decoder
  imports Decoder_AI Decoder_MBF
begin

text \<open>
  \<open>InstructionDecoder\<close> (\<open>src/src/decoder/decoder.cpp\<close>): the fields of a 128-bit bundle, the units of its
  template, and \<open>DecodeSlot\<close>, which recognises a few forms itself and passes the others to the decoder of
  their format.
\<close>

subsection \<open>Templates\<close>

text \<open>\<open>TEMPLATES\<close> of \<open>src/include/ia64_opcodes.h\<close>: the stop bits after the three slots, by template.\<close>

definition templates :: "(bool \<times> bool \<times> bool) list" where
  "templates =
     [(False, False, False), (False, False, True), (False, True, False), (False, True, True),
      (False, False, False), (False, False, True), (False, False, False), (False, False, False),
      (False, False, False), (False, False, True), (True, False, False), (True, False, True),
      (False, False, False), (False, False, True), (False, False, False), (False, False, True),
      (False, False, False), (False, False, True), (False, False, False), (False, False, True),
      (False, False, False), (False, False, False), (False, False, False), (False, False, True),
      (False, False, False), (False, False, True), (False, False, False), (False, False, False),
      (False, False, False), (False, False, True), (False, False, False), (False, False, False)]"

definition ExtractTemplate :: "u8 list \<Rightarrow> u8" where
  "ExtractTemplate bundleData = bundleData ! 0 AND 0x1F"

definition GetUnitsForTemplate :: "u8 \<Rightarrow> unit_type list" where
  "GetUnitsForTemplate tmpl =
     (if tmpl \<in> {0, 1, 2, 3} then [M_UNIT, I_UNIT, I_UNIT]
      else if tmpl \<in> {4, 5} then [M_UNIT, L_UNIT, X_UNIT]
      else if tmpl \<in> {8, 9, 0xA, 0xB} then [M_UNIT, M_UNIT, I_UNIT]
      else if tmpl \<in> {0xC, 0xD} then [M_UNIT, F_UNIT, I_UNIT]
      else if tmpl \<in> {0xE, 0xF} then [M_UNIT, M_UNIT, F_UNIT]
      else if tmpl \<in> {0x10, 0x11} then [M_UNIT, I_UNIT, B_UNIT]
      else if tmpl \<in> {0x12, 0x13} then [M_UNIT, B_UNIT, B_UNIT]
      else if tmpl \<in> {0x16, 0x17} then [B_UNIT, B_UNIT, B_UNIT]
      else if tmpl \<in> {0x18, 0x19} then [M_UNIT, M_UNIT, B_UNIT]
      else if tmpl \<in> {0x1C, 0x1D} then [M_UNIT, F_UNIT, B_UNIT]
      else [INVALID_UNIT, INVALID_UNIT, INVALID_UNIT])"

definition IsMLXTemplate :: "u8 \<Rightarrow> bool" where
  "IsMLXTemplate template_field \<longleftrightarrow> template_field = 4 \<or> template_field = 5"

subsection \<open>Slots\<close>

definition ExtractSlot :: "u8 list \<Rightarrow> nat \<Rightarrow> u64" where
  "ExtractSlot bundleData slotIndex =
     (let low = le_value (take 8 bundleData); high = le_value (take 8 (drop 8 bundleData)) in
      if slotIndex = 0 then drop_bit 5 low AND 0x1FFFFFFFFFF
      else if slotIndex = 1 then (drop_bit 46 low OR push_bit 18 (high AND 0x7FFFFFF)) AND 0x1FFFFFFFFFF
      else if slotIndex = 2 then drop_bit 23 high AND 0x1FFFFFFFFFF
      else 0)"

definition ExtractMajorOpcode :: "u64 \<Rightarrow> u64" where
  "ExtractMajorOpcode slotBits = drop_bit 37 slotBits AND 0xF"

definition DecodeMovPrRotImmediate :: "u64 \<Rightarrow> u64" where
  "DecodeMovPrRotImmediate slotBits =
     (let imm27 = drop_bit 6 slotBits AND 0x7FFFFFF; sign = drop_bit 36 slotBits AND 1;
          imm28 = imm27 OR push_bit 27 sign
      in push_bit 16 (SignExtend imm28 28))"

definition slot_alloc :: "u64 \<Rightarrow> unit_type \<Rightarrow> instruction option" where
  "slot_alloc slotBits unit =
     (if \<not> (ExtractMajorOpcode slotBits = 1 \<and> drop_bit 33 slotBits AND 7 = 6) then None
      else
        let r1 = field8 slotBits 6 7; sof = field8 slotBits 13 7; sol = field8 slotBits 20 7; sor = field8 slotBits 27 4
        in Some (SetRawBits slotBits
             (SetImmediate (ucast sof OR push_bit 7 (ucast sol) OR push_bit 14 (ucast sor))
               (SetOperands r1 0 0 (InstructionEx ALLOC unit)))))"

text \<open>The signed 8-bit immediate of \<open>mov ar3 = imm8\<close>.\<close>

definition mov_ar_imm8 :: "u64 \<Rightarrow> unit_type \<Rightarrow> instruction" where
  "mov_ar_imm8 slotBits unit =
     (let imm8 = field8 slotBits 13 7 OR push_bit 7 (field8 slotBits 36 1) in
      SetImmediate (SignExtend (ucast imm8) 8)
        (SetPredicate (field8 slotBits 0 6) (SetOperands (field8 slotBits 20 7) 0 0 (InstructionEx (Move MOV_TO_AR) unit))))"

text \<open>\<open>mov\<close> to and from an application register, selected by \<open>x6\<close> 0x2A or not.\<close>

definition mov_ar_reg :: "u64 \<Rightarrow> unit_type \<Rightarrow> bool \<Rightarrow> instruction" where
  "mov_ar_reg slotBits unit to_ar =
     (let r1 = field8 slotBits 6 7; r2 = field8 slotBits 13 7; ar3 = field8 slotBits 20 7 in
      if to_ar then insn (Move MOV_TO_AR) unit (field8 slotBits 0 6) ar3 r2 0
      else insn (Move MOV_FROM_AR) unit (field8 slotBits 0 6) r1 ar3 0)"

definition nop_with_qp :: "u64 \<Rightarrow> unit_type \<Rightarrow> instruction" where
  "nop_with_qp slotBits unit = SetPredicate (field8 slotBits 0 6) (InstructionEx NOP unit)"

definition a_type :: "u64 \<Rightarrow> instruction option" where
  "a_type slotBits = (case ATypeDecoder_decode slotBits of None \<Rightarrow> None | Some fmt \<Rightarrow> ATypeDecoder_toInstruction fmt)"

definition m_type :: "u64 \<Rightarrow> instruction option" where
  "m_type slotBits = (case MTypeDecoder_decode slotBits of None \<Rightarrow> None | Some fmt \<Rightarrow> MTypeDecoder_toInstruction fmt)"

definition i_type :: "u64 \<Rightarrow> instruction option" where
  "i_type slotBits = (case ITypeDecoder_decode slotBits of None \<Rightarrow> None | Some fmt \<Rightarrow> ITypeDecoder_toInstruction fmt)"

text \<open>The cases of \<open>DecodeSlot\<close> by unit; \<open>None\<close> leads to \<open>UNKNOWN\<close>.\<close>

definition decode_m_unit :: "u64 \<Rightarrow> u64 \<Rightarrow> instruction option" where
  "decode_m_unit slotBits ip =
     (let major = ExtractMajorOpcode slotBits; x3 = drop_bit 33 slotBits AND 7; x6 = drop_bit 27 slotBits AND 0x3F in
      case slot_alloc slotBits M_UNIT of Some i \<Rightarrow> Some i
      | None \<Rightarrow>
        if major = 0 \<and> x3 = 0 \<and> drop_bit 27 slotBits AND 0xF = 8 \<and> drop_bit 31 slotBits AND 3 = 2
        then Some (mov_ar_imm8 slotBits M_UNIT)
        else if major = 0 \<and> x3 = 0 \<and> (x6 = 0 \<or> x6 = 1) then Some (nop_with_qp slotBits M_UNIT)
        else if major = 0 \<and> x3 = 0 \<and> (x6 = 0x2A \<or> x6 = 0x32) then Some (mov_ar_reg slotBits M_UNIT (x6 = 0x2A))
        else if major = 0 \<and> (x3 = 4 \<or> x3 = 5)
        then
          (let r1 = field8 slotBits 6 7; imm21 = push_bit 20 (drop_bit 36 slotBits AND 1) OR (drop_bit 13 slotBits AND 0xFFFFF);
               offset = SignExtend imm21 21 * 16
           in Some (SetBranchTarget (ip + offset)
                (insn (Memory_Op (if x3 = 4 then CHK_A_NC else CHK_A_CLR)) M_UNIT (field8 slotBits 0 6) r1 0 0)))
        else if major = 1 \<and> x3 = 0 \<and> (x6 = 0x2A \<or> x6 = 0x22) then Some (mov_ar_reg slotBits M_UNIT (x6 = 0x2A))
        else if major \<le> 7 then m_type slotBits
        else a_type slotBits)"

definition decode_i_unit :: "u64 \<Rightarrow> instruction option" where
  "decode_i_unit slotBits =
     (let major = ExtractMajorOpcode slotBits; x3 = drop_bit 33 slotBits AND 7; x6 = drop_bit 27 slotBits AND 0x3F;
          r1 = field8 slotBits 6 7; r2 = field8 slotBits 13 7; qp = field8 slotBits 0 6 in
      case slot_alloc slotBits I_UNIT of Some i \<Rightarrow> Some i
      | None \<Rightarrow>
        if major = 0 \<and> x3 = 0 \<and> (x6 = 0 \<or> x6 = 1) then Some (nop_with_qp slotBits I_UNIT)
        else if major = 2 \<and> x3 = 0 \<and> x6 = 0 \<and> drop_bit 6 slotBits AND 0x1FFFFF = 0 then Some (InstructionEx NOP I_UNIT)
        else if major = 0 \<and> x3 = 3
        then
          (let mask7a = extractBits slotBits 6 7; mask8c = extractBits slotBits 24 8; sign = extractBits slotBits 36 1;
               imm16 = mask7a OR push_bit 7 mask8c OR push_bit 15 sign;
               mask17 = SignExtend (push_bit 1 imm16) 17
           in Some (SetImmediate mask17 (insn (Move MOV_TO_PR) I_UNIT qp 0 r2 0)))
        else if major = 0 \<and> x3 = 2 \<and> x6 = 0
        then Some (SetImmediate (DecodeMovPrRotImmediate slotBits) (SetPredicate qp (InstructionEx (Move MOV_TO_PR_ROT) I_UNIT)))
        else if major = 0 \<and> x3 = 0 \<and> x6 = 0x31
        then Some (SetOperands r1 (field8 slotBits 13 3) 0 (InstructionEx (Move MOV_FROM_BR) I_UNIT))
        else if major = 0 \<and> x3 = 0 \<and> x6 = 0x30 then Some (SetOperands r1 0 0 (InstructionEx (Move MOV_FROM_IP) I_UNIT))
        else if major = 0 \<and> x3 = 0 \<and> x6 = 0x33 then Some (SetOperands r1 0 0 (InstructionEx (Move MOV_FROM_PR) I_UNIT))
        else if major = 0 \<and> x3 = 7 \<and> x6 = 0
        then Some (SetOperands (field8 slotBits 6 3) r2 0 (InstructionEx (Move MOV_TO_BR) I_UNIT))
        else if major = 0 \<and> x3 = 0 \<and> x6 = 0x0A then Some (mov_ar_imm8 slotBits I_UNIT)
        else if major = 0 \<and> x3 = 0 \<and> (x6 = 0x2A \<or> x6 = 0x32) then Some (mov_ar_reg slotBits I_UNIT (x6 \<noteq> 0x32))
        else if major = 0 \<and> x3 = 2 \<and> x6 = 0x38 then Some (mov_ar_reg slotBits I_UNIT False)
        else if major \<ge> 8 then a_type slotBits
        else i_type slotBits)"

definition decode_b_unit :: "u64 \<Rightarrow> u64 \<Rightarrow> instruction option" where
  "decode_b_unit slotBits ip =
     (let major = ExtractMajorOpcode slotBits; x3 = drop_bit 33 slotBits AND 7; x6 = drop_bit 27 slotBits AND 0x3F in
      if major = 2 \<and> x3 = 0 \<and> x6 = 0 \<and> drop_bit 6 slotBits AND 0x1FFFFF = 0 then Some (InstructionEx NOP B_UNIT)
      else if major = 7 then Some (InstructionEx (Branch BRP) B_UNIT)
      else if major \<le> 5 then map_option BTypeDecoder_toInstruction (BTypeDecoder_decode slotBits ip)
      else None)"

definition decode_f_unit :: "u64 \<Rightarrow> instruction option" where
  "decode_f_unit slotBits =
     (let major = ExtractMajorOpcode slotBits; x3 = drop_bit 33 slotBits AND 7; x6 = drop_bit 27 slotBits AND 0x3F in
      if major = 0 \<and> x3 = 0 \<and> (x6 = 0 \<or> x6 = 1) then Some (nop_with_qp slotBits F_UNIT)
      else Some (FTypeDecoder_decode slotBits))"

definition DecodeSlot :: "u64 \<Rightarrow> unit_type \<Rightarrow> u64 \<Rightarrow> instruction" where
  "DecodeSlot slotBits unit ip =
     SetRawBits slotBits
       (case (case unit of
            M_UNIT \<Rightarrow> decode_m_unit slotBits ip
          | I_UNIT \<Rightarrow> decode_i_unit slotBits
          | B_UNIT \<Rightarrow> decode_b_unit slotBits ip
          | F_UNIT \<Rightarrow> decode_f_unit slotBits
          | L_UNIT \<Rightarrow> Some (InstructionEx NOP L_UNIT)
          | X_UNIT \<Rightarrow> Some (XTypeDecoder_decode slotBits)
          | INVALID_UNIT \<Rightarrow> None) of
          Some i \<Rightarrow> i | None \<Rightarrow> InstructionEx UNKNOWN unit)"

definition DecodeInstruction :: "u64 \<Rightarrow> unit_type \<Rightarrow> instruction" where
  "DecodeInstruction rawBits unit = SetRawBits rawBits (DecodeSlot rawBits unit 0)"

subsection \<open>Bundles\<close>

record decoded_bundle =
  bn_templateType :: u8
  bn_instructions :: "instruction list"
  bn_hasStop :: bool
  bn_stopAfterSlot :: "bool \<times> bool \<times> bool"

definition DecodeBundleAt :: "u8 list \<Rightarrow> u64 \<Rightarrow> decoded_bundle" where
  "DecodeBundleAt bundleData bundleIP =
     (let tmpl = ExtractTemplate bundleData;
          stops = templates ! unat tmpl;
          instructions =
            (if IsMLXTemplate tmpl then
               (let slot0Bits = ExtractSlot bundleData 0; slot1Bits = ExtractSlot bundleData 1; slot2Bits = ExtractSlot bundleData 2 in
                DecodeInstruction slot0Bits M_UNIT #
                (case decodeX slot2Bits of
                   Some xfmt \<Rightarrow> [SetRawBits slot2Bits (combineMOVL (decodeL slot1Bits) xfmt)]
                 | None \<Rightarrow> [DecodeInstruction slot1Bits L_UNIT, DecodeInstruction slot2Bits X_UNIT]))
             else map (\<lambda>(i, unit). DecodeSlot (ExtractSlot bundleData i) unit bundleIP) (enumerate 0 (GetUnitsForTemplate tmpl)))
      in \<lparr>bn_templateType = tmpl, bn_instructions = instructions,
          bn_hasStop = (fst stops \<or> fst (snd stops) \<or> snd (snd stops)), bn_stopAfterSlot = stops\<rparr>)"

definition DecodeBundle :: "u8 list \<Rightarrow> decoded_bundle" where
  "DecodeBundle bundleData = DecodeBundleAt bundleData 0"

subsection \<open>The simplified decoder\<close>

record simple_instruction =
  si_opcode :: u8
  si_predicate :: u8
  si_operand1 :: u64
  si_operand2 :: u64

definition DecodeInstructionSimple :: "u64 \<Rightarrow> simple_instruction" where
  "DecodeInstructionSimple rawBits =
     \<lparr>si_opcode = ucast (drop_bit 37 rawBits AND 0xF), si_predicate = ucast (drop_bit 31 rawBits AND 0x3F),
      si_operand1 = drop_bit 16 rawBits AND 0x7FFF, si_operand2 = rawBits AND 0xFFFF\<rparr>"

record instruction_bundle =
  ib_template_field :: u8
  ib_slot0 :: simple_instruction
  ib_slot1 :: simple_instruction
  ib_slot2 :: simple_instruction

definition DecodeBundleNew :: "u8 list \<Rightarrow> instruction_bundle" where
  "DecodeBundleNew bundleData =
     \<lparr>ib_template_field = bundleData ! 0 AND 0x1F,
      ib_slot0 = DecodeInstructionSimple (ExtractSlot bundleData 0),
      ib_slot1 = DecodeInstructionSimple (ExtractSlot bundleData 1),
      ib_slot2 = DecodeInstructionSimple (ExtractSlot bundleData 2)\<rparr>"

end
