(* ===== verification/Decoder_Fields.thy ===== *)
theory Decoder_Fields
  imports Decoder
begin

text \<open>
  Encoded slots as lists of fields, and what the decoder's bit extraction reads from them: the automation
  for the encode/decode round trips. \<open>pack [(w1, v1), (w2, v2), ...]\<close> puts \<open>v1\<close> into the low \<open>w1\<close> bits, \<open>v2\<close>
  into the \<open>w2\<close> bits above it, and so on.
\<close>

named_theorems unpack \<open>reading a field of a packed slot\<close>

fun pack :: "(nat \<times> u64) list \<Rightarrow> u64" where
  "pack [] = 0"
| "pack ((w, v) # fs) = take_bit w v OR push_bit w (pack fs)"

lemma bit_pack_Cons:
  "bit (pack ((w, v) # fs)) k \<longleftrightarrow> (if k < w then bit v k else bit (pack fs) (k - w) \<and> k < 64)"
  by (auto simp: bit_simps dest: bit_imp_le_length)

lemma pack_width: "bit (pack fs) k \<Longrightarrow> k < sum_list (map fst fs)"
proof (induction fs arbitrary: k)
  case (Cons f fs)
  obtain w v where f: "f = (w, v)" by force
  show ?case
  proof (cases "k < w")
    case False
    then have "k - w < sum_list (map fst fs)" using Cons by (simp add: f bit_pack_Cons del: pack.simps(2))
    then show ?thesis using False by (simp add: f)
  qed (simp add: f)
qed simp

lemma pack_skip [unpack]:
  "w \<le> s \<Longrightarrow> s + n \<le> 64 \<Longrightarrow> extractBits (pack ((w, v) # fs)) s n = extractBits (pack fs) (s - w) n"
  by (rule bit_eqI) (auto simp: bit_extractBits bit_pack_Cons simp del: pack.simps)

lemma pack_inside [unpack]:
  "s < w \<Longrightarrow> s + n \<le> w \<Longrightarrow> extractBits (pack ((w, v) # fs)) s n = extractBits v s n"
  by (rule bit_eqI) (auto simp: bit_extractBits bit_pack_Cons simp del: pack.simps)

lemma pack_span [unpack]:
  assumes "s < w" "w < s + n" "s + n \<le> 64"
  shows "extractBits (pack ((w, v) # fs)) s n = extractBits v s (w - s) OR push_bit (w - s) (extractBits (pack fs) 0 (n - (w - s)))"
proof (rule bit_eqI)
  fix k :: nat
  show "bit (extractBits (pack ((w, v) # fs)) s n) k \<longleftrightarrow>
      bit (extractBits v s (w - s) OR push_bit (w - s) (extractBits (pack fs) 0 (n - (w - s)))) k"
  proof (cases "k < w - s")
    case True
    with assms show ?thesis
      by (auto simp: bit_extractBits bit_pack_Cons bit_simps simp del: pack.simps)
  next
    case False
    then obtain j where "k = (w - s) + j"
      using le_Suc_ex [of "w - s" k] by auto
    with assms show ?thesis
      by (auto simp: bit_extractBits bit_pack_Cons bit_simps simp del: pack.simps dest: bit_imp_le_length)
  qed
qed

lemma pack_end [unpack]: "extractBits (pack []) s n = 0" "extractBits 0 s n = 0"
  by (simp_all add: extractBits_take)

lemma extract_all: "extractBits v 0 n = take_bit n v"
  by (simp add: extractBits_take)

lemma take_bit_u8:
  assumes "unat (r :: u8) < 2 ^ n"
  shows "take_bit n (ucast r :: u64) = ucast r"
proof (rule bit_eqI)
  fix j
  have "take_bit n (unat r) = unat r" using assms by (rule take_bit_nat_eq_self)
  then have "bit (unat r) j \<longrightarrow> j < n" by (metis bit_take_bit_iff)
  then have "bit r j \<longrightarrow> j < n" by (simp add: bit_unsigned_iff)
  then show "bit (take_bit n (ucast r :: u64)) j \<longleftrightarrow> bit (ucast r :: u64) j"
    by (auto simp: bit_take_bit_iff bit_ucast_iff)
qed

lemma extract_u8 [unpack]: "unat (r :: u8) < 2 ^ n \<Longrightarrow> extractBits (ucast r) 0 n = ucast r"
  by (simp add: extract_all take_bit_u8)

end
