(* ===== verification/Decoder_Roundtrip.thy ===== *)
theory Decoder_Roundtrip
  imports Decoder_Fields
begin

text \<open>
  The decoder against the architecture's encodings. \<open>asm\<close> lists instructions of the A, M and B formats with
  their operands, \<open>encode\<close> gives their 41-bit slots field by field, and \<open>meaning\<close> the operation that has to be
  executed; the decoder recovers it from the slot. Bundles and the two-slot \<open>movl\<close> are treated in the same way.
\<close>

subsection \<open>Immediates split over a slot\<close>

lemma masks [unpack]:
  "drop_bit s x AND 1 = extractBits x s 1" "drop_bit s x AND 3 = extractBits x s 2"
  "drop_bit s x AND 7 = extractBits x s 3" "drop_bit s x AND 0xF = extractBits x s 4"
  "drop_bit s x AND 0x3F = extractBits x s 6" "drop_bit s x AND 0x1FFFFF = extractBits x s 21"
  "drop_bit s x AND 0xFFFFF = extractBits x s 20" "drop_bit s x AND 0x7FFFFFF = extractBits x s 27"
  by (simp_all add: extractBits_def push_bit_eq_mult)

lemma signExtend_take:
  assumes "0 < n" "n < 64"
  shows "signExtend (take_bit n v) n = signed_take_bit (n - 1) v"
proof -
  obtain m where n: "n = Suc m" "m < 63" using assms by (cases n) simp_all
  show ?thesis
  proof (rule bit_eqI)
    fix k :: nat
    assume "possible_bit TYPE(64 word) k"
    then have "k < 64" by simp
    then consider "k < m" | "k = m" | "m < k" "k < 64" by linarith
    then show "bit (signExtend (take_bit n v) n) k \<longleftrightarrow> bit (signed_take_bit (n - 1) v) k"
      using n by cases (auto simp: signExtend_correct bit_simps min_def)
  qed
qed

lemma extract_join: "extractBits v s a OR push_bit a (extractBits v (s + a) b) = extractBits v s (a + b)"
  by (rule bit_eqI) (auto simp: bit_extractBits bit_simps ac_simps dest: bit_imp_le_length)

lemma imm8_join: "push_bit 7 (extractBits v 7 1) OR extractBits v 0 7 = take_bit 8 v"
  using extract_join [of v 0 7 1] by (simp add: extract_all ac_simps)

lemma imm9_join: "push_bit 8 (extractBits v 8 1) OR push_bit 7 (extractBits v 7 1) OR extractBits v 0 7 = take_bit 9 v"
  using extract_join [of v 0 7 1] extract_join [of v 0 8 1] by (simp add: extract_all ac_simps)

lemma imm14_join: "push_bit 13 (extractBits v 13 1) OR push_bit 7 (extractBits v 7 6) OR extractBits v 0 7 = take_bit 14 v"
  using extract_join [of v 0 7 6] extract_join [of v 0 13 1] by (simp add: extract_all ac_simps)

lemma imm21_join: "push_bit 20 (extractBits v 20 1) OR extractBits v 0 20 = take_bit 21 v"
  using extract_join [of v 0 20 1] by (simp add: extract_all ac_simps)

lemma imm22_join:
  "push_bit 21 (extractBits v 21 1) OR push_bit 16 (extractBits v 16 5) OR push_bit 7 (extractBits v 7 9) OR extractBits v 0 7
    = take_bit 22 v"
  using extract_join [of v 0 7 9] extract_join [of v 0 16 5] extract_join [of v 0 21 1] by (simp add: extract_all ac_simps)

subsection \<open>Instructions and their encodings\<close>

datatype alu_op = ADD3 | ADD3_1 | SUB3 | SUB3_1 | ADDP4_3 | AND3 | ANDCM3 | OR3 | XOR3
datatype imm_op = SUB2 | AND2 | ANDCM2 | OR2 | XOR2
datatype relation = LT3 | LTU3 | EQ3
datatype parallel = AND_PAR | OR_PAR | OR_ANDCM_PAR
datatype access = B1 | B2 | B4 | B8

datatype asm =
    Alu alu_op u8 u8 u8
  | Alu_imm imm_op u8 u64 u8
  | Shladd u8 u8 u8 u8
  | Adds u8 u64 u8
  | Addp4_imm u8 u64 u8
  | Addl u8 u64 u8
  | Cmp relation bool bool u8 u8 u8 u8
  | Cmp_imm relation bool bool u8 u8 u64 u8
  | Cmp_par parallel bool bool u8 u8 u8 u8
  | Load access u8 u8
  | Load_reg access u8 u8 u8
  | Load_imm access u8 u8 u64
  | Store access u8 u8
  | Store_imm access u8 u8 u64
  | Br_cond u64
  | Br_call u8 u64
  | Br_cloop u64

primrec alu_code :: "alu_op \<Rightarrow> u64 \<times> u64" where
  "alu_code ADD3 = (0, 0)" | "alu_code ADD3_1 = (0, 1)" | "alu_code SUB3 = (1, 1)" | "alu_code SUB3_1 = (1, 0)"
| "alu_code ADDP4_3 = (2, 0)" | "alu_code AND3 = (3, 0)" | "alu_code ANDCM3 = (3, 1)" | "alu_code OR3 = (3, 2)"
| "alu_code XOR3 = (3, 3)"

primrec imm_code :: "imm_op \<Rightarrow> u64 \<times> u64" where
  "imm_code SUB2 = (9, 1)" | "imm_code AND2 = (0xB, 0)" | "imm_code ANDCM2 = (0xB, 1)" | "imm_code OR2 = (0xB, 2)"
| "imm_code XOR2 = (0xB, 3)"

primrec relation_code :: "relation \<Rightarrow> u64" where
  "relation_code LT3 = 0xC" | "relation_code LTU3 = 0xD" | "relation_code EQ3 = 0xE"

primrec parallel_code :: "parallel \<Rightarrow> u64" where
  "parallel_code AND_PAR = 0xC" | "parallel_code OR_PAR = 0xD" | "parallel_code OR_ANDCM_PAR = 0xE"

primrec access_code :: "access \<Rightarrow> u64" where
  "access_code B1 = 0" | "access_code B2 = 1" | "access_code B4 = 2" | "access_code B8 = 3"

abbreviation part :: "u64 \<Rightarrow> nat \<Rightarrow> nat \<Rightarrow> nat \<times> u64" where
  "part imm s n \<equiv> (n, extractBits imm s n)"

abbreviation flag :: "bool \<Rightarrow> nat \<times> u64" where
  "flag b \<equiv> (1, of_bool b)"

fun slot_fields :: "asm \<Rightarrow> (nat \<times> u64) list" where
  "slot_fields (Alu op r1 r2 r3) =
     [(7, ucast r1), (7, ucast r2), (7, ucast r3), (2, snd (alu_code op)), (4, fst (alu_code op)), (1, 0), (2, 0), (1, 0), (4, 8)]"
| "slot_fields (Alu_imm op r1 imm r3) =
     [(7, ucast r1), part imm 0 7, (7, ucast r3), (2, snd (imm_code op)), (4, fst (imm_code op)), (1, 0), (2, 0), part imm 7 1, (4, 8)]"
| "slot_fields (Shladd r1 r2 n r3) =
     [(7, ucast r1), (7, ucast r2), (7, ucast r3), (2, ucast n - 1), (4, 4), (1, 0), (2, 0), (1, 0), (4, 8)]"
| "slot_fields (Adds r1 imm r3) =
     [(7, ucast r1), part imm 0 7, (7, ucast r3), part imm 7 6, (1, 0), (2, 2), part imm 13 1, (4, 8)]"
| "slot_fields (Addp4_imm r1 imm r3) =
     [(7, ucast r1), part imm 0 7, (7, ucast r3), part imm 7 6, (1, 0), (2, 3), part imm 13 1, (4, 8)]"
| "slot_fields (Addl r1 imm r3) =
     [(7, ucast r1), part imm 0 7, (2, ucast r3), part imm 16 5, part imm 7 9, part imm 21 1, (4, 9)]"
| "slot_fields (Cmp rel w4 unc p1 p2 r2 r3) =
     [(6, ucast p1), flag unc, (7, ucast r2), (7, ucast r3), (6, ucast p2), (1, 0), (2, of_bool w4), (1, 0), (4, relation_code rel)]"
| "slot_fields (Cmp_imm rel w4 unc p1 p2 imm r3) =
     [(6, ucast p1), flag unc, part imm 0 7, (7, ucast r3), (6, ucast p2), (1, 0), (2, 2 + of_bool w4), part imm 7 1,
      (4, relation_code rel)]"
| "slot_fields (Cmp_par par w4 ne p1 p2 r2 r3) =
     [(6, ucast p1), flag ne, (7, ucast r2), (7, ucast r3), (6, ucast p2), (1, 1), (2, of_bool w4), (1, 0), (4, parallel_code par)]"
| "slot_fields (Load sz r1 r3) =
     [(7, ucast r1), (7, 0), (7, ucast r3), (1, 0), (2, 0), (2, access_code sz), (4, 0), (1, 0), (4, 4)]"
| "slot_fields (Load_reg sz r1 r3 r2) =
     [(7, ucast r1), (7, ucast r2), (7, ucast r3), (1, 0), (2, 0), (2, access_code sz), (4, 0), (1, 1), (4, 4)]"
| "slot_fields (Load_imm sz r1 r3 imm) =
     [(7, ucast r1), part imm 0 7, (7, ucast r3), part imm 7 1, (2, 0), (2, access_code sz), (4, 0), part imm 8 1, (4, 5)]"
| "slot_fields (Store sz r3 r2) =
     [(7, 0), (7, ucast r2), (7, ucast r3), (1, 0), (2, 0), (2, access_code sz), (4, 0xC), (1, 0), (4, 4)]"
| "slot_fields (Store_imm sz r3 r2 imm) =
     [part imm 0 7, (7, ucast r2), (7, ucast r3), part imm 7 1, (2, 0), (2, access_code sz), (4, 0xC), part imm 8 1, (4, 5)]"
| "slot_fields (Br_cond disp) =
     [(3, 0), (3, 0), (1, 0), part disp 0 20, (3, 0), part disp 20 1, (4, 4)]"
| "slot_fields (Br_call b1 disp) =
     [(3, ucast b1), (3, 0), (1, 0), part disp 0 20, (3, 0), part disp 20 1, (4, 5)]"
| "slot_fields (Br_cloop disp) =
     [(3, 5), (3, 0), (1, 0), part disp 0 20, (3, 0), part disp 20 1, (4, 4)]"

definition encode :: "u8 \<Rightarrow> asm \<Rightarrow> u64" where
  "encode qp a = pack ((6, ucast qp) # slot_fields a)"

subsection \<open>What has to be executed\<close>

primrec alu_type :: "alu_op \<Rightarrow> instruction_type" where
  "alu_type ADD3 = Arith ADD" | "alu_type ADD3_1 = Arith ADD_P1" | "alu_type SUB3 = Arith SUB" | "alu_type SUB3_1 = Arith SUB_M1"
| "alu_type ADDP4_3 = Arith ADDP4" | "alu_type AND3 = Logic AND_GR" | "alu_type ANDCM3 = Logic ANDCM"
| "alu_type OR3 = Logic OR_GR" | "alu_type XOR3 = Logic XOR_GR"

primrec imm_type :: "imm_op \<Rightarrow> instruction_type" where
  "imm_type SUB2 = Arith SUB_IMM" | "imm_type AND2 = Logic AND_IMM" | "imm_type ANDCM2 = Logic ANDCM_IMM"
| "imm_type OR2 = Logic OR_IMM" | "imm_type XOR2 = Logic XOR_IMM"

fun relation_type :: "relation \<Rightarrow> bool \<Rightarrow> compare_type" where
  "relation_type LT3 w4 = (if w4 then CMP4_LT else CMP_LT)"
| "relation_type LTU3 w4 = (if w4 then CMP4_LTU else CMP_LTU)"
| "relation_type EQ3 w4 = (if w4 then CMP4_EQ else CMP_EQ)"

primrec parallel_completer :: "parallel \<Rightarrow> compare_completer" where
  "parallel_completer AND_PAR = AND_COMPLETER" | "parallel_completer OR_PAR = OR_COMPLETER"
| "parallel_completer OR_ANDCM_PAR = OR_ANDCM"

primrec load_of :: "access \<Rightarrow> memory_type" where
  "load_of B1 = LD1" | "load_of B2 = LD2" | "load_of B4 = LD4" | "load_of B8 = LD8"

primrec store_of :: "access \<Rightarrow> memory_type" where
  "store_of B1 = ST1" | "store_of B2 = ST2" | "store_of B4 = ST4" | "store_of B8 = ST8"

text \<open>\<open>x < imm\<close> unsigned with a zero immediate, \<open>0 < r3\<close>, is decoded as the equivalent \<open>r3 \<noteq> 0\<close>.\<close>

definition imm_relation_type :: "relation \<Rightarrow> bool \<Rightarrow> u64 \<Rightarrow> compare_type" where
  "imm_relation_type rel w4 imm =
     (if rel = LTU3 \<and> imm = 0 then if w4 then CMP4_NE else CMP_NE else relation_type rel w4)"

definition compare_insn :: "compare_type \<Rightarrow> compare_completer \<Rightarrow> u8 \<Rightarrow> u8 \<Rightarrow> u8 \<Rightarrow> u8 \<Rightarrow> u8 \<Rightarrow> instruction" where
  "compare_insn t c qp p1 p2 r2 r3 =
     SetCompareCompleter c (SetOperands4 p1 r2 r3 p2 (SetPredicate qp (InstructionEx (Compare_Op t) I_UNIT)))"

fun meaning :: "u64 \<Rightarrow> u8 \<Rightarrow> asm \<Rightarrow> instruction" where
  "meaning ip qp (Alu op r1 r2 r3) = insn (alu_type op) I_UNIT qp r1 r2 r3"
| "meaning ip qp (Alu_imm op r1 imm r3) = SetImmediate imm (insn (imm_type op) I_UNIT qp r1 0 r3)"
| "meaning ip qp (Shladd r1 r2 n r3) = SetImmediate (ucast n) (insn (Shift SHLADD) I_UNIT qp r1 r2 r3)"
| "meaning ip qp (Adds r1 imm r3) = SetImmediate imm (insn (Arith ADD_IMM) I_UNIT qp r1 r3 0)"
| "meaning ip qp (Addp4_imm r1 imm r3) = SetImmediate imm (insn (Arith ADDP4) I_UNIT qp r1 r3 0)"
| "meaning ip qp (Addl r1 imm r3) = SetImmediate imm (insn (Arith ADDL) I_UNIT qp r1 r3 0)"
| "meaning ip qp (Cmp rel w4 unc p1 p2 r2 r3) = compare_insn (relation_type rel w4) (if unc then UNC else NORMAL) qp p1 p2 r2 r3"
| "meaning ip qp (Cmp_imm rel w4 unc p1 p2 imm r3) =
     SetImmediate imm (compare_insn (imm_relation_type rel w4 imm) (if unc then UNC else NORMAL) qp p1 p2 (ucast (take_bit 7 imm)) r3)"
| "meaning ip qp (Cmp_par par w4 ne p1 p2 r2 r3) = compare_insn (mapEqCompareType w4 ne) (parallel_completer par) qp p1 p2 r2 r3"
| "meaning ip qp (Load sz r1 r3) = insn (Memory_Op (load_of sz)) M_UNIT qp r1 r3 0"
| "meaning ip qp (Load_reg sz r1 r3 r2) = insn (Memory_Op (load_of sz)) M_UNIT qp r1 r3 r2"
| "meaning ip qp (Load_imm sz r1 r3 imm) = SetImmediate imm (insn (Memory_Op (load_of sz)) M_UNIT qp r1 r3 0)"
| "meaning ip qp (Store sz r3 r2) = insn (Memory_Op (store_of sz)) M_UNIT qp r3 r2 0"
| "meaning ip qp (Store_imm sz r3 r2 imm) = SetImmediate imm (insn (Memory_Op (store_of sz)) M_UNIT qp r3 r2 0)"
| "meaning ip qp (Br_cond disp) = SetBranchTarget (ip + 16 * disp) (SetPredicate qp (InstructionEx (Branch BR_COND) B_UNIT))"
| "meaning ip qp (Br_call b1 disp) = SetBranchTarget (ip + 16 * disp) (insn (Branch BR_CALL) B_UNIT qp b1 0 0)"
| "meaning ip qp (Br_cloop disp) = SetBranchTarget (ip + 16 * disp) (InstructionEx (Branch BR_CLOOP) B_UNIT)"

text \<open>The operand ranges of the encodings and the units that accept them.\<close>

abbreviation is_reg :: "u8 \<Rightarrow> bool" where "is_reg r \<equiv> unat r < 128"
abbreviation is_pred :: "u8 \<Rightarrow> bool" where "is_pred p \<equiv> unat p < 64"
abbreviation fits_in :: "nat \<Rightarrow> u64 \<Rightarrow> bool" where "fits_in n imm \<equiv> signed_take_bit (n - 1) imm = imm"

fun encodable :: "asm \<Rightarrow> bool" where
  "encodable (Alu op r1 r2 r3) \<longleftrightarrow> is_reg r1 \<and> is_reg r2 \<and> is_reg r3"
| "encodable (Alu_imm op r1 imm r3) \<longleftrightarrow> is_reg r1 \<and> fits_in 8 imm \<and> is_reg r3"
| "encodable (Shladd r1 r2 n r3) \<longleftrightarrow> is_reg r1 \<and> is_reg r2 \<and> n \<in> {1, 2, 3, 4} \<and> is_reg r3"
| "encodable (Adds r1 imm r3) \<longleftrightarrow> is_reg r1 \<and> fits_in 14 imm \<and> is_reg r3"
| "encodable (Addp4_imm r1 imm r3) \<longleftrightarrow> is_reg r1 \<and> fits_in 14 imm \<and> is_reg r3"
| "encodable (Addl r1 imm r3) \<longleftrightarrow> is_reg r1 \<and> fits_in 22 imm \<and> unat r3 < 4"
| "encodable (Cmp rel w4 unc p1 p2 r2 r3) \<longleftrightarrow> is_pred p1 \<and> is_pred p2 \<and> is_reg r2 \<and> is_reg r3"
| "encodable (Cmp_imm rel w4 unc p1 p2 imm r3) \<longleftrightarrow> is_pred p1 \<and> is_pred p2 \<and> fits_in 8 imm \<and> is_reg r3"
| "encodable (Cmp_par par w4 ne p1 p2 r2 r3) \<longleftrightarrow> is_pred p1 \<and> is_pred p2 \<and> is_reg r2 \<and> is_reg r3"
| "encodable (Load sz r1 r3) \<longleftrightarrow> is_reg r1 \<and> is_reg r3"
| "encodable (Load_reg sz r1 r3 r2) \<longleftrightarrow> is_reg r1 \<and> is_reg r3 \<and> is_reg r2"
| "encodable (Load_imm sz r1 r3 imm) \<longleftrightarrow> is_reg r1 \<and> is_reg r3 \<and> fits_in 9 imm"
| "encodable (Store sz r3 r2) \<longleftrightarrow> is_reg r3 \<and> is_reg r2"
| "encodable (Store_imm sz r3 r2 imm) \<longleftrightarrow> is_reg r3 \<and> is_reg r2 \<and> fits_in 9 imm"
| "encodable (Br_cond disp) \<longleftrightarrow> fits_in 21 disp"
| "encodable (Br_call b1 disp) \<longleftrightarrow> unat b1 < 8 \<and> b1 \<noteq> 5 \<and> fits_in 21 disp"
| "encodable (Br_cloop disp) \<longleftrightarrow> fits_in 21 disp"

fun units_of :: "asm \<Rightarrow> unit_type set" where
  "units_of (Load _ _ _) = {M_UNIT}" | "units_of (Load_reg _ _ _ _) = {M_UNIT}" | "units_of (Load_imm _ _ _ _) = {M_UNIT}"
| "units_of (Store _ _ _) = {M_UNIT}" | "units_of (Store_imm _ _ _ _) = {M_UNIT}"
| "units_of (Br_cond _) = {B_UNIT}" | "units_of (Br_call _ _) = {B_UNIT}" | "units_of (Br_cloop _) = {B_UNIT}"
| "units_of _ = {M_UNIT, I_UNIT}"

subsection \<open>Reading the fields of an encoded instruction\<close>

lemma extract_const [unpack]:
  "(numeral k :: nat) < 2 ^ n \<Longrightarrow> n < 64 \<Longrightarrow> extractBits (numeral k) 0 n = numeral k"
  "0 < n \<Longrightarrow> extractBits 1 0 n = 1"
proof -
  assume "(numeral k :: nat) < 2 ^ n" "n < 64"
  then have "take_bit n (of_nat (numeral k)) = (of_nat (numeral k) :: u64)"
    by (simp only: take_bit_of_nat take_bit_nat_eq_self)
  then show "extractBits (numeral k) 0 n = numeral k" by (simp add: extract_all)
next
  assume "0 < n"
  then show "extractBits 1 0 n = 1" by (cases n) (simp_all add: extract_all)
qed

lemma push_bit_one [unpack]: "push_bit 1 x = 2 * (x :: u64)" by (simp add: push_bit_eq_mult)

lemma join_fits:
  "fits_in 8 imm \<Longrightarrow> signExtend (push_bit 7 (extractBits imm 7 1) OR extractBits imm 0 7) 8 = imm"
  "fits_in 14 imm \<Longrightarrow> signExtend (push_bit 13 (extractBits imm 13 1) OR push_bit 7 (extractBits imm 7 6) OR extractBits imm 0 7) 14 = imm"
  "fits_in 9 imm \<Longrightarrow> signExtend (push_bit 8 (extractBits imm 8 1) OR push_bit 7 (extractBits imm 7 1) OR extractBits imm 0 7) 9 = imm"
  "fits_in 22 imm \<Longrightarrow> signExtend (push_bit 21 (extractBits imm 21 1) OR push_bit 16 (extractBits imm 16 5) OR
     push_bit 7 (extractBits imm 7 9) OR extractBits imm 0 7) 22 = imm"
  "fits_in 21 imm \<Longrightarrow> signExtend (push_bit 20 (extractBits imm 20 1) OR extractBits imm 0 20) 21 = imm"
  by (simp_all only: imm14_join imm22_join imm21_join, simp_all only: imm9_join, simp_all only: imm8_join, simp_all add: signExtend_take)

lemmas fits = join_fits [simplified]

lemma not_2_le_1 [unpack]: "\<not> (2 :: u64) \<le> 1" by (simp add: word_le_nat_alt)

lemma extract_nested [unpack]: "extractBits (extractBits v s n) 0 n = extractBits v s n"
  "extractBits (of_bool b) 0 (Suc 0) = of_bool b"
  by (auto intro!: bit_eqI simp: bit_extractBits bit_simps)

lemma extract_one [unpack]: "extractBits (of_bool b) 0 1 = of_bool b" by (simp add: extract_nested)

lemma push4 [unpack]: "push_bit 4 x = 16 * (x :: u64)"
  by (simp add: push_bit_eq_mult)

lemma imm9_signed:
  assumes "signed_take_bit 8 imm = (imm :: u64)"
  shows "(signed (ucast imm :: 16 word) :: u64) = imm"
proof (rule bit_eqI)
  fix n :: nat
  assume "possible_bit TYPE(64 word) n"
  then have n: "n < 64" by simp
  have s: "bit imm k = bit imm (min 8 k)" if "k < 64" for k
    using that by (subst (1) assms [symmetric]) (simp add: bit_signed_take_bit_iff)
  have "bit (signed (ucast imm :: 16 word) :: u64) n = bit imm (min 15 n)"
  proof -
    have "min 15 n < 16" by simp
    then show ?thesis using n by (simp add: bit_signed_iff bit_ucast_iff del: min_less_iff_disj)
  qed
  also have "\<dots> = bit imm (min 8 (min 15 n))" by (rule s) (use n in linarith)
  also have "min 8 (min 15 n) = min 8 n" by linarith
  also have "bit imm (min 8 n) = bit imm n" by (rule s [OF n, symmetric])
  finally show "bit (signed (ucast imm :: 16 word) :: u64) n \<longleftrightarrow> bit imm n" .
qed

subsection \<open>A format\<close>

lemma a_slot:
  assumes "extractBits raw 37 4 \<ge> 8" "a_type raw = Some i" "u = M_UNIT \<or> u = I_UNIT"
  shows "DecodeSlot raw u ip = SetRawBits raw i"
  using assms(3)
proof
  have m: "\<not> extractBits raw 37 4 \<le> 7" "extractBits raw 37 4 \<noteq> 0" "extractBits raw 37 4 \<noteq> 1" "extractBits raw 37 4 \<noteq> 2"
    using assms(1) by (auto simp: word_le_nat_alt)
  { assume "u = M_UNIT"
    then show ?thesis
      using m assms(2) by (simp add: DecodeSlot_def decode_m_unit_def slot_alloc_def ExtractMajorOpcode_def masks) }
  { assume "u = I_UNIT"
    then show ?thesis
      using m assms(1,2) by (simp add: DecodeSlot_def decode_i_unit_def slot_alloc_def ExtractMajorOpcode_def masks) }
qed

lemma ucast_u8 [unpack]: "ucast (ucast (r :: u8) :: u64) = r"
  by (simp add: ucast_down_ucast_id is_down)

lemmas a_decode = a_type_def ATypeDecoder_decode_def decodeIntegerALU_def decodeAddlImm22_def decodeShiftAdd_def
  decodeCompare_def extractImm22_def AFormat_def field8_def reg_or_imm_def

lemma addl_opcode: "(ucast (0x90 OR extractBits v s 4) :: u8) AND 0xF0 = 0x90"
proof (rule bit_eqI)
  fix k :: nat
  have low: "bit (extractBits v s 4) k \<longrightarrow> k < 4" by (simp add: bit_extractBits)
  show "bit ((ucast (0x90 OR extractBits v s 4) :: u8) AND 0xF0) k \<longleftrightarrow> bit (0x90 :: u8) k"
    by (cases "k < 8") (auto simp: bit_extractBits bit_simps less_Suc_eq numeral_eq_Suc)
qed

lemma toInstruction_addl:
  assumes "a_opcode fmt AND 0xF0 = 0x90"
  shows "ATypeDecoder_toInstruction fmt =
    Some (SetImmediate (a_imm fmt) (insn (Arith ADDL) I_UNIT (a_qp fmt) (a_r1 fmt) (a_r3 fmt) 0))"
proof -
  have "a_opcode fmt \<notin> {0xA0, 0x80, 0x81, 0x89, 0x82, 0x83, 0x84, 0x85, 0x86}" using assms by auto
  then show ?thesis using assms by (simp add: ATypeDecoder_toInstruction_def)
qed

lemma decode_alu:
  assumes "encodable (Alu op r1 r2 r3)" "is_pred qp"
  shows "a_type (encode qp (Alu op r1 r2 r3)) = Some (meaning ip qp (Alu op r1 r2 r3))"
  using assms by (cases op) (simp_all add: a_decode ATypeDecoder_toInstruction_def encode_def unpack del: pack.simps)

lemma decode_alu_imm:
  assumes "encodable (Alu_imm op r1 imm r3)" "is_pred qp"
  shows "a_type (encode qp (Alu_imm op r1 imm r3)) = Some (meaning ip qp (Alu_imm op r1 imm r3))"
  using assms by (cases op) (simp_all add: a_decode ATypeDecoder_toInstruction_def encode_def unpack fits Let_def del: pack.simps)

lemma decode_adds:
  assumes "encodable (Adds r1 imm r3)" "is_pred qp"
  shows "a_type (encode qp (Adds r1 imm r3)) = Some (meaning ip qp (Adds r1 imm r3))"
  using assms by (simp_all add: a_decode ATypeDecoder_toInstruction_def encode_def unpack fits Let_def del: pack.simps)

lemma decode_addp4:
  assumes "encodable (Addp4_imm r1 imm r3)" "is_pred qp"
  shows "a_type (encode qp (Addp4_imm r1 imm r3)) = Some (meaning ip qp (Addp4_imm r1 imm r3))"
  using assms by (simp_all add: a_decode ATypeDecoder_toInstruction_def encode_def unpack fits Let_def del: pack.simps)

lemma decode_addl:
  assumes "encodable (Addl r1 imm r3)" "is_pred qp"
  shows "a_type (encode qp (Addl r1 imm r3)) = Some (meaning ip qp (Addl r1 imm r3))"
  using assms by (simp_all add: a_decode toInstruction_addl addl_opcode encode_def unpack fits Let_def del: pack.simps)

lemma decode_shladd:
  assumes "encodable (Shladd r1 r2 n r3)" "is_pred qp"
  shows "a_type (encode qp (Shladd r1 r2 n r3)) = Some (meaning ip qp (Shladd r1 r2 n r3))"
  using assms by (auto simp: a_decode ATypeDecoder_toInstruction_def encode_def unpack fits Let_def simp del: pack.simps)

lemma decode_cmp:
  assumes "encodable (Cmp rel w4 unc p1 p2 r2 r3)" "is_pred qp"
  shows "a_type (encode qp (Cmp rel w4 unc p1 p2 r2 r3)) = Some (meaning ip qp (Cmp rel w4 unc p1 p2 r2 r3))"
  using assms by (cases rel; cases w4; cases unc) (simp_all add: a_decode ATypeDecoder_toInstruction_def compare_of_def mapNormalCompareType_def compare_insn_def encode_def unpack fits Let_def del: pack.simps)

lemma decode_cmp_par:
  assumes "encodable (Cmp_par par w4 unc p1 p2 r2 r3)" "is_pred qp"
  shows "a_type (encode qp (Cmp_par par w4 unc p1 p2 r2 r3)) = Some (meaning ip qp (Cmp_par par w4 unc p1 p2 r2 r3))"
  using assms by (cases par; cases w4; cases unc) (simp_all add: a_decode ATypeDecoder_toInstruction_def compare_of_def mapParallelCompareCompleter_def compare_insn_def encode_def unpack fits Let_def del: pack.simps)

lemma decode_cmp_imm:
  assumes "encodable (Cmp_imm rel w4 unc p1 p2 imm r3)" "is_pred qp"
  shows "a_type (encode qp (Cmp_imm rel w4 unc p1 p2 imm r3)) = Some (meaning ip qp (Cmp_imm rel w4 unc p1 p2 imm r3))"
  using assms by (cases rel; cases w4; cases unc) (simp_all add: a_decode ATypeDecoder_toInstruction_def compare_of_def mapNormalCompareType_def compare_insn_def imm_relation_type_def extract_all [symmetric] encode_def unpack fits Let_def del: pack.simps)

subsection \<open>M and B formats\<close>

lemmas m_decode = m_type_def MTypeDecoder_decode_def m4_decode_def m5_decode_def decodeLoad_def decodeStore_def setAccessSize_def
  imm9_at_def MTypeDecoder_toInstruction_def MFormat_def field8_def imm9_value_def

lemma decode_load:
  assumes "encodable (Load sz r1 r3)" "is_pred qp"
  shows "m_type (encode qp (Load sz r1 r3)) = Some (meaning ip qp (Load sz r1 r3))"
  using assms by (cases sz) (simp_all add: m_decode encode_def unpack fits Let_def del: pack.simps)

lemma decode_load_reg:
  assumes "encodable (Load_reg sz r1 r3 r2)" "is_pred qp"
  shows "m_type (encode qp (Load_reg sz r1 r3 r2)) = Some (meaning ip qp (Load_reg sz r1 r3 r2))"
  using assms by (cases sz) (simp_all add: m_decode encode_def unpack fits Let_def del: pack.simps)

lemma decode_load_imm:
  assumes "encodable (Load_imm sz r1 r3 imm)" "is_pred qp"
  shows "m_type (encode qp (Load_imm sz r1 r3 imm)) = Some (meaning ip qp (Load_imm sz r1 r3 imm))"
  using assms by (cases sz) (simp_all add: m_decode imm9_signed encode_def unpack fits Let_def del: pack.simps)

lemma decode_store:
  assumes "encodable (Store sz r3 r2)" "is_pred qp"
  shows "m_type (encode qp (Store sz r3 r2)) = Some (meaning ip qp (Store sz r3 r2))"
  using assms by (cases sz) (simp_all add: m_decode encode_def unpack fits Let_def del: pack.simps)

lemma decode_store_imm:
  assumes "encodable (Store_imm sz r3 r2 imm)" "is_pred qp"
  shows "m_type (encode qp (Store_imm sz r3 r2 imm)) = Some (meaning ip qp (Store_imm sz r3 r2 imm))"
  using assms by (cases sz) (simp_all add: m_decode imm9_signed encode_def unpack fits Let_def del: pack.simps)

lemmas b_decode = decode_b_unit_def ExtractMajorOpcode_def BTypeDecoder_decode_def BFormat_def decodeIPRelative_def
  ip_relative_target_def special_branch_def BTypeDecoder_toInstruction_def unpredicated_branch_def field8_def

lemma ucast_eq_5 [unpack]: "(ucast (b :: u8) :: u64) = 5 \<longleftrightarrow> b = 5"
proof
  assume "(ucast b :: u64) = 5"
  then have "(ucast (ucast b :: u64) :: u8) = ucast (5 :: u64)" by (rule arg_cong)
  then show "b = 5" by (simp add: ucast_u8)
qed simp

lemma decode_br_cond:
  assumes "encodable (Br_cond disp)" "is_pred qp"
  shows "decode_b_unit (encode qp (Br_cond disp)) ip = Some (meaning ip qp (Br_cond disp))"
  using assms by (simp add: b_decode encode_def unpack fits Let_def del: pack.simps)

lemma decode_br_call:
  assumes "encodable (Br_call b1 disp)" "is_pred qp"
  shows "decode_b_unit (encode qp (Br_call b1 disp)) ip = Some (meaning ip qp (Br_call b1 disp))"
  using assms by (simp add: b_decode encode_def unpack fits Let_def del: pack.simps)

lemma decode_br_cloop:
  assumes "encodable (Br_cloop disp)" "is_pred qp"
  shows "decode_b_unit (encode qp (Br_cloop disp)) ip = Some (meaning ip qp (Br_cloop disp))"
  using assms by (simp add: SetPredicate_def InstructionEx_def b_decode encode_def unpack fits Let_def del: pack.simps)

subsection \<open>Every instruction decodes to its meaning\<close>

lemma m_slot:
  assumes "extractBits raw 37 4 = 4 \<or> extractBits raw 37 4 = 5" "m_type raw = Some i"
  shows "DecodeSlot raw M_UNIT ip = SetRawBits raw i"
proof -
  have "extractBits raw 37 4 \<le> 7" "extractBits raw 37 4 \<noteq> 0" "extractBits raw 37 4 \<noteq> 1"
    using assms(1) by (auto simp: word_le_nat_alt)
  then show ?thesis
    using assms(2) by (simp add: DecodeSlot_def decode_m_unit_def slot_alloc_def ExtractMajorOpcode_def masks)
qed

lemma b_slot: "decode_b_unit raw ip = Some i \<Longrightarrow> DecodeSlot raw B_UNIT ip = SetRawBits raw i"
  by (simp add: DecodeSlot_def)

fun major_of :: "asm \<Rightarrow> u64" where
  "major_of (Addl _ _ _) = 9"
| "major_of (Cmp rel _ _ _ _ _ _) = relation_code rel"
| "major_of (Cmp_imm rel _ _ _ _ _ _) = relation_code rel"
| "major_of (Cmp_par par _ _ _ _ _ _) = parallel_code par"
| "major_of (Load _ _ _) = 4" | "major_of (Load_reg _ _ _ _) = 4" | "major_of (Store _ _ _) = 4"
| "major_of (Load_imm _ _ _ _) = 5" | "major_of (Store_imm _ _ _ _) = 5"
| "major_of (Br_cond _) = 4" | "major_of (Br_cloop _) = 4" | "major_of (Br_call _ _) = 5"
| "major_of _ = 8"

lemma codes [unpack]:
  "extractBits (relation_code rel) 0 4 = relation_code rel" "extractBits (parallel_code par) 0 4 = parallel_code par"
  by (cases rel; simp add: unpack) (cases par; simp add: unpack)

lemma encode_major: "extractBits (encode qp a) 37 4 = major_of a"
  by (cases a rule: major_of.cases) (simp_all add: encode_def unpack del: pack.simps)

text \<open>A slot that encodes an A, M or B format instruction of the architecture decodes, in every unit that accepts it,
  to the operation, qualifying predicate, operands, sign-extended immediate and branch target it stands for.\<close>

lemma decode_encode:
  assumes "encodable a" "is_pred qp" "u \<in> units_of a"
  shows "DecodeSlot (encode qp a) u ip = SetRawBits (encode qp a) (meaning ip qp a)"
proof -
  have big: "8 \<le> relation_code rel" "8 \<le> parallel_code par" for rel par
    by (cases rel; simp) (cases par; simp)
  have A: "DecodeSlot (encode qp a) u ip = SetRawBits (encode qp a) i"
    if "8 \<le> major_of a" "units_of a = {M_UNIT, I_UNIT}" "a_type (encode qp a) = Some i" for i
    using a_slot [of "encode qp a" i u ip] that assms(3) by (simp add: encode_major)
  have M: "DecodeSlot (encode qp a) u ip = SetRawBits (encode qp a) i"
    if "major_of a = 4 \<or> major_of a = 5" "units_of a = {M_UNIT}" "m_type (encode qp a) = Some i" for i
    using m_slot [of "encode qp a" i ip] that assms(3) by (simp add: encode_major)
  have B: "DecodeSlot (encode qp a) u ip = SetRawBits (encode qp a) i"
    if "units_of a = {B_UNIT}" "decode_b_unit (encode qp a) ip = Some i" for i
    using b_slot [of "encode qp a" ip i] that assms(3) by simp
  show ?thesis
  proof (cases a)
    case (Alu op r1 r2 r3) then show ?thesis using A decode_alu assms(1,2) by simp
  next
    case (Alu_imm op r1 imm r3) then show ?thesis using A decode_alu_imm assms(1,2) by simp
  next
    case (Shladd r1 r2 n r3) then show ?thesis using A decode_shladd assms(1,2) by simp
  next
    case (Adds r1 imm r3) then show ?thesis using A decode_adds assms(1,2) by simp
  next
    case (Addp4_imm r1 imm r3) then show ?thesis using A decode_addp4 assms(1,2) by simp
  next
    case (Addl r1 imm r3) then show ?thesis using A decode_addl assms(1,2) by simp
  next
    case (Cmp rel w4 unc p1 p2 r2 r3) then show ?thesis using A big decode_cmp assms(1,2) by simp
  next
    case (Cmp_imm rel w4 unc p1 p2 imm r3) then show ?thesis using A big decode_cmp_imm assms(1,2) by simp
  next
    case (Cmp_par par w4 ne p1 p2 r2 r3) then show ?thesis using A big decode_cmp_par assms(1,2) by simp
  next
    case (Load sz r1 r3) then show ?thesis using M decode_load assms(1,2) by simp
  next
    case (Load_reg sz r1 r3 r2) then show ?thesis using M decode_load_reg assms(1,2) by simp
  next
    case (Load_imm sz r1 r3 imm) then show ?thesis using M decode_load_imm assms(1,2) by simp
  next
    case (Store sz r3 r2) then show ?thesis using M decode_store assms(1,2) by simp
  next
    case (Store_imm sz r3 r2 imm) then show ?thesis using M decode_store_imm assms(1,2) by simp
  next
    case (Br_cond disp) then show ?thesis using B decode_br_cond assms(1,2) by simp
  next
    case (Br_call b1 disp) then show ?thesis using B decode_br_call assms(1,2) by simp
  next
    case (Br_cloop disp) then show ?thesis using B decode_br_cloop assms(1,2) by simp
  qed
qed

end
