(* ===== verification/Decoder_Types.thy ===== *)
theory Decoder_Types
  imports Decoder_Roundtrip
begin

text \<open>
  The operands of a decoded instruction: whatever the slot, they name registers and predicates that exist.
\<close>

definition operands_ok :: "instruction \<Rightarrow> bool" where
  "operands_ok i \<longleftrightarrow> is_pred (in_predicate i) \<and> is_pred (in_predicate2 i) \<and> is_reg (in_dst i) \<and> is_reg (in_src1 i) \<and>
     is_reg (in_src2 i) \<and> is_reg (in_src3 i)"

named_theorems operands \<open>well-formed operands\<close>

lemma field8_less [operands]: "unat (field8 raw s n) < 2 ^ n"
proof -
  have "field8 raw s n = take_bit n (field8 raw s n)"
    by (rule bit_eqI) (auto simp: field8_def bit_extractBits bit_simps)
  then have "unat (field8 raw s n) = take_bit n (unat (field8 raw s n))"
    by (metis unsigned_take_bit_eq)
  then show ?thesis by (metis take_bit_nat_less_exp)
qed

lemma field8_reg [operands]: "n \<le> 7 \<Longrightarrow> is_reg (field8 raw s n)"
  using field8_less [of raw s n] power_increasing [of n 7 "2 :: nat"] by simp

lemma field8_pred [operands]: "n \<le> 6 \<Longrightarrow> is_pred (field8 raw s n)"
  using field8_less [of raw s n] power_increasing [of n 6 "2 :: nat"] by simp

lemma pred_reg [operands]: "is_pred p \<Longrightarrow> is_reg p" by simp

lemma operands_setters [operands]:
  "operands_ok (InstructionEx t u)"
  "operands_ok i \<Longrightarrow> is_reg d \<Longrightarrow> is_reg a \<Longrightarrow> is_reg b \<Longrightarrow> operands_ok (SetOperands d a b i)"
  "operands_ok i \<Longrightarrow> is_reg d \<Longrightarrow> is_reg a \<Longrightarrow> is_reg b \<Longrightarrow> is_reg c \<Longrightarrow> operands_ok (SetOperands4 d a b c i)"
  "operands_ok i \<Longrightarrow> operands_ok (SetImmediate v i)"
  "operands_ok i \<Longrightarrow> operands_ok (SetBranchTarget v i)"
  "operands_ok i \<Longrightarrow> is_pred p \<Longrightarrow> operands_ok (SetPredicate p i)"
  "operands_ok i \<Longrightarrow> is_pred p \<Longrightarrow> operands_ok (SetPredicate2 p i)"
  "operands_ok i \<Longrightarrow> operands_ok (SetType t i)"
  "operands_ok i \<Longrightarrow> operands_ok (SetRawBits w i)"
  "operands_ok i \<Longrightarrow> operands_ok (SetCompareCompleter cc i)"
  "operands_ok i \<Longrightarrow> operands_ok (SetLfetchProperties f e h i)"
  "operands_ok i \<Longrightarrow> operands_ok (SetRegisterUpdate b' i)"
  by (simp_all add: operands_ok_def setter_defs)

lemma operands_zero [operands]: "is_reg 0" "is_pred 0" by simp_all

text \<open>A property of the outcome of a decoder holds if it holds in both branches of a conditional.\<close>

lemma pred_if [operands]: "pred_option P a \<Longrightarrow> pred_option P b \<Longrightarrow> pred_option P (if c then a else b)"
  by simp

lemma operands_if [operands]:
  "operands_ok a \<Longrightarrow> operands_ok b \<Longrightarrow> operands_ok (if c then a else b)"
  "is_reg r \<Longrightarrow> is_reg q \<Longrightarrow> is_reg (if c then r else q)" "is_pred r \<Longrightarrow> is_pred q \<Longrightarrow> is_pred (if c then r else q)"
  by simp_all

lemma pred_option_Some: "pred_option P x \<Longrightarrow> x = Some y \<Longrightarrow> P y" by simp

subsection \<open>A format\<close>

definition a_ok :: "aformat \<Rightarrow> bool" where
  "a_ok f \<longleftrightarrow> is_pred (a_qp f) \<and> is_reg (a_r1 f) \<and> is_reg (a_r2 f) \<and> is_reg (a_r3 f) \<and> is_pred (a_p1 f) \<and> is_pred (a_p2 f)"

lemma a_parts_ok:
  assumes "a_ok f"
  shows "pred_option a_ok (decodeIntegerALU raw x2a x2b x4 ve f)" "pred_option a_ok (decodeAddlImm22 raw f)"
    "pred_option a_ok (decodeShiftAdd x2a f)" "pred_option a_ok (decodeCompare raw major x2a f)"
  using assms by (simp_all add: decodeIntegerALU_def decodeAddlImm22_def decodeShiftAdd_def decodeCompare_def Let_def operands a_ok_def)

lemma a_decode_ok: "pred_option a_ok (ATypeDecoder_decode raw)"
  by (simp add: ATypeDecoder_decode_def Let_def operands a_parts_ok a_ok_def AFormat_def)


lemma a_instruction_ok: "a_ok f \<Longrightarrow> pred_option operands_ok (ATypeDecoder_toInstruction f)"
  by (simp add: ATypeDecoder_toInstruction_def reg_or_imm_def a_ok_def Let_def operands split: prod.split)

lemma pred_case [operands]:
  "pred_option P m \<Longrightarrow> (\<And>f. P f \<Longrightarrow> pred_option Q (g f)) \<Longrightarrow> pred_option Q (case m of None \<Rightarrow> None | Some f \<Rightarrow> g f)"
  by (cases m) simp_all

lemma a_type_ok: "pred_option operands_ok (a_type raw)"
  unfolding a_type_def by (rule pred_case [OF a_decode_ok a_instruction_ok])

subsection \<open>I format\<close>

definition i_ok :: "iformat \<Rightarrow> bool" where
  "i_ok f \<longleftrightarrow> is_pred (i_qp f) \<and> is_reg (i_r1 f) \<and> is_reg (i_r2 f) \<and> is_reg (i_r3 f)"

lemma pred_orelse [operands]:
  "pred_option P m \<Longrightarrow> pred_option P n \<Longrightarrow> pred_option P (case m of Some f \<Rightarrow> Some f | None \<Rightarrow> n)"
  by (cases m) simp_all

lemma i_parts_ok:
  assumes "i_ok f"
  shows "pred_option i_ok (decodeTest raw f)" "pred_option i_ok (decodeMixedI raw x3 x6 f)"
    "pred_option i_ok (decodeDepositExtract raw x x2 f)" "pred_option i_ok (decodeShift raw x2 x6 f)"
  using assms by (simp_all add: decodeTest_def decodeMixedI_def decodeDepositExtract_def decodeShift_def Let_def operands i_ok_def)

lemma i_decode_ok: "pred_option i_ok (ITypeDecoder_decode raw)"
proof -
  have five: "pred_option i_ok (decode_major5 raw f)" if "i_ok f" for f
    using that i_parts_ok [OF that] by (simp add: decode_major5_def Let_def pred_if pred_orelse i_ok_def)
  show ?thesis
    by (simp add: ITypeDecoder_decode_def Let_def operands i_parts_ok five i_ok_def IFormat_def)
qed

lemma i_instruction_ok:
  assumes "i_ok f"
  shows "pred_option operands_ok (ITypeDecoder_toInstruction f)"
proof -
  have "pred_option operands_ok (i_shift_instruction f)" "pred_option operands_ok (i_field_instruction f)"
    "pred_option operands_ok (i_other_instruction f)"
    using assms by (simp_all add: i_shift_instruction_def i_field_instruction_def i_other_instruction_def test_insn_def i_ok_def
        Let_def operands)
  then show ?thesis by (simp add: ITypeDecoder_toInstruction_def Let_def pred_if pred_orelse)
qed

lemma i_type_ok: "pred_option operands_ok (i_type raw)"
  unfolding i_type_def by (rule pred_case [OF i_decode_ok i_instruction_ok])

subsection \<open>M format\<close>

definition m_ok :: "mformat \<Rightarrow> bool" where
  "m_ok f \<longleftrightarrow> is_pred (m_qp f) \<and> is_reg (m_r1 f) \<and> is_reg (m_r2 f) \<and> is_reg (m_r3 f)"

lemma m_parts_ok:
  assumes "m_ok f"
  shows "pred_option m_ok (M_decodeAlloc raw f)" "pred_option m_ok (m0_decode raw f)" "pred_option m_ok (m4_decode raw f)"
    "pred_option m_ok (m5_decode raw f)" "pred_option m_ok (m6_decode raw f)" "pred_option m_ok (m7_decode raw f)"
  using assms by (simp_all add: M_decodeAlloc_def m0_decode_def m4_decode_def m5_decode_def m6_decode_def m7_decode_def
      decodeLoad_def decodeStore_def setAccessSize_def Let_def operands m_ok_def)

lemma pred_map [operands]: "(\<And>x. P (f x)) \<Longrightarrow> pred_option P (map_option f m)"
  by (cases m) simp_all

lemma m_decode_ok: "pred_option m_ok (MTypeDecoder_decode raw)"
  by (simp add: MTypeDecoder_decode_def Let_def operands m_parts_ok m_ok_def MFormat_def)

lemma m_instruction_ok: "m_ok f \<Longrightarrow> pred_option operands_ok (MTypeDecoder_toInstruction f)"
  by (simp add: MTypeDecoder_toInstruction_def Let_def operands m_ok_def split: mem_op.split)

lemma m_type_ok: "pred_option operands_ok (m_type raw)"
  unfolding m_type_def by (rule pred_case [OF m_decode_ok m_instruction_ok])

subsection \<open>B, F and X formats\<close>

definition b_ok :: "bformat \<Rightarrow> bool" where
  "b_ok f \<longleftrightarrow> is_pred (b_qp f) \<and> is_reg (b_b1 f) \<and> is_reg (b_b2 f)"

lemma b_if [operands]: "b_ok f \<Longrightarrow> b_ok g \<Longrightarrow> b_ok (if c then f else g)" by simp

lemma b_update [operands]:
  "b_ok f \<Longrightarrow> b_ok (f\<lparr>b_indirect := x\<rparr>)" "b_ok f \<Longrightarrow> b_ok (f\<lparr>b_type := k\<rparr>)" "b_ok f \<Longrightarrow> b_ok (f\<lparr>b_has_target := x\<rparr>)"
  "b_ok f \<Longrightarrow> b_ok (f\<lparr>b_target_offset := v\<rparr>)"
  by (simp_all add: b_ok_def)

lemma b_decode_ok: "pred_option b_ok (BTypeDecoder_decode raw ip)"
proof -
  have parts: "b_ok (decodeIPRelative raw btype x6 ip f)" "b_ok (decodeIndirect x6 f)" if "b_ok f" for f btype x6
    using that by (simp_all add: decodeIPRelative_def decodeIndirect_def Let_def operands)
  have "b_ok (BFormat\<lparr>b_qp := field8 raw 0 6, b_b1 := field8 raw 6 3, b_b2 := field8 raw 13 3, b_wh := field8 raw 33 2,
      b_dh := field8 raw 35 1, b_ph := field8 raw 12 1, b_opcode := w\<rparr>)" for w
    by (simp add: b_ok_def operands)
  then show ?thesis
    by (simp add: BTypeDecoder_decode_def Let_def parts operands split: option.split)
qed

lemma b_instruction_ok: "b_ok f \<Longrightarrow> operands_ok (BTypeDecoder_toInstruction f)"
  by (simp add: BTypeDecoder_toInstruction_def Let_def operands b_ok_def)

lemma f_instruction_ok: "operands_ok (FTypeDecoder_decode raw)"
  by (simp add: FTypeDecoder_decode_def Let_def operands decodeF1_def decodeF2_def decodeF4_def decodeF5_def decodeF6_def
      decodeF7_def decodeF8_def decodeF9_def decodeF10_def)

lemma x_instruction_ok: "operands_ok (XTypeDecoder_decode raw)"
  by (simp add: XTypeDecoder_decode_def Let_def operands)

subsection \<open>Slots\<close>

lemma special_forms_ok:
  "pred_option operands_ok (slot_alloc raw u)" "operands_ok (mov_ar_imm8 raw u)" "operands_ok (mov_ar_reg raw u to_ar)"
  "operands_ok (nop_with_qp raw u)"
  by (simp_all add: slot_alloc_def mov_ar_imm8_def mov_ar_reg_def nop_with_qp_def Let_def operands)

lemma unit_forms_ok:
  "pred_option operands_ok (decode_m_unit raw ip)" "pred_option operands_ok (decode_i_unit raw)"
  "pred_option operands_ok (decode_b_unit raw ip)" "pred_option operands_ok (decode_f_unit raw)"
proof -
  show "pred_option operands_ok (decode_m_unit raw ip)"
    by (simp add: decode_m_unit_def Let_def operands special_forms_ok a_type_ok m_type_ok)
  show "pred_option operands_ok (decode_i_unit raw)"
    by (simp add: decode_i_unit_def Let_def operands special_forms_ok a_type_ok i_type_ok)
  have "pred_option operands_ok (map_option BTypeDecoder_toInstruction m)" if "pred_option b_ok m" for m
    using that by (cases m) (simp_all add: b_instruction_ok)
  then show "pred_option operands_ok (decode_b_unit raw ip)"
    by (simp add: decode_b_unit_def Let_def operands b_decode_ok)
  show "pred_option operands_ok (decode_f_unit raw)"
    by (simp add: decode_f_unit_def Let_def operands special_forms_ok f_instruction_ok)
qed

subsection \<open>Predicate and branch register operands\<close>

text \<open>The operands that name predicates or branch registers, by operation: the two targets of a compare or a bit test,
  the first target of a floating-point compare or class test (its second is the second predicate or an immediate),
  and the branch registers of branches and of the moves to and from them.\<close>

abbreviation is_br :: "u8 \<Rightarrow> bool" where "is_br b \<equiv> unat b < 8"

definition is_test :: "instruction \<Rightarrow> bool" where
  "is_test i \<longleftrightarrow> (case in_type i of Test _ \<Rightarrow> True | _ \<Rightarrow> False)"

definition targets_ok :: "instruction \<Rightarrow> bool" where
  "targets_ok i \<longleftrightarrow>
     (case in_type i of
        Compare_Op _ \<Rightarrow> is_pred (in_dst i) \<and> is_pred (in_src3 i)
      | Test _ \<Rightarrow> is_pred (in_dst i) \<and> is_pred (in_src3 i)
      | Float_Op t \<Rightarrow> t \<in> {FCMP, FCLASS} \<longrightarrow> is_pred (in_dst i)
      | Move t \<Rightarrow> (t = MOV_TO_BR \<longrightarrow> is_br (in_dst i)) \<and> (t = MOV_FROM_BR \<longrightarrow> is_br (in_src1 i))
      | Branch _ \<Rightarrow> is_br (in_dst i) \<and> is_br (in_src1 i)
      | _ \<Rightarrow> True)"

lemma field8_br [operands]: "n \<le> 3 \<Longrightarrow> is_br (field8 raw s n)"
  using field8_less [of raw s n] power_increasing [of n 3 "2 :: nat"] by simp

lemma targets_new [operands]: "targets_ok (InstructionEx t u)"
  by (cases t) (simp_all add: targets_ok_def InstructionEx_def)

text \<open>Setters that touch neither the operation nor its operands.\<close>

lemma targets_setters [operands]:
  "targets_ok (SetImmediate v i) = targets_ok i" "targets_ok (SetBranchTarget v i) = targets_ok i"
  "targets_ok (SetPredicate p i) = targets_ok i" "targets_ok (SetPredicate2 p i) = targets_ok i"
  "targets_ok (SetRawBits w i) = targets_ok i" "targets_ok (SetCompareCompleter cc i) = targets_ok i"
  "targets_ok (SetLfetchProperties f e h i) = targets_ok i" "targets_ok (SetRegisterUpdate b' i) = targets_ok i"
  by (simp_all add: targets_ok_def setter_defs split: instruction_type.split)

text \<open>An operation none of whose operands is a predicate or a branch register.\<close>

definition plain_operands :: "instruction_type \<Rightarrow> bool" where
  "plain_operands t \<longleftrightarrow>
     (case t of Compare_Op _ \<Rightarrow> False | Test _ \<Rightarrow> False | Branch _ \<Rightarrow> False
      | Float_Op t \<Rightarrow> t \<notin> {FCMP, FCLASS} | Move t \<Rightarrow> t \<notin> {MOV_TO_BR, MOV_FROM_BR} | _ \<Rightarrow> True)"

lemma plain_simps [operands]:
  "plain_operands NOP" "plain_operands ALLOC" "plain_operands BREAK" "plain_operands UNKNOWN" "plain_operands BSW"
  "plain_operands COVER" "plain_operands CLRRB"
  "plain_operands (Arith a)" "plain_operands (Logic l)" "plain_operands (Shift s)" "plain_operands (Field fl)"
  "plain_operands (Memory_Op m)" "plain_operands (Spill sp)"
  "plain_operands (Float_Op t) \<longleftrightarrow> t \<notin> {FCMP, FCLASS}" "plain_operands (Move v) \<longleftrightarrow> v \<notin> {MOV_TO_BR, MOV_FROM_BR}"
  by (simp_all add: plain_operands_def)

lemma plain_type_if [operands]:
  "plain_operands t \<Longrightarrow> plain_operands t' \<Longrightarrow> plain_operands (if c then t else t')" by simp

lemma targets_plain: "plain_operands (in_type i) \<Longrightarrow> targets_ok i"
  by (auto simp: targets_ok_def plain_operands_def split: instruction_type.splits)

lemma type_setters [operands]:
  "in_type (SetOperands d a b i) = in_type i" "in_type (SetOperands4 d a b c i) = in_type i"
  "in_type (SetPredicate p i) = in_type i" "in_type (InstructionEx t u) = t" "in_type (SetType t i) = t"
  "in_type (SetImmediate v i) = in_type i" "in_type (SetRawBits w i) = in_type i"
  by (simp_all add: setter_defs)

lemma targets_if [operands]:
  "targets_ok a \<Longrightarrow> targets_ok b \<Longrightarrow> targets_ok (if c then a else b)" by simp

subsubsection \<open>A and I format\<close>

lemma a_targets: "a_ok f \<Longrightarrow> pred_option targets_ok (ATypeDecoder_toInstruction f)"
  by (simp add: ATypeDecoder_toInstruction_def reg_or_imm_def a_ok_def Let_def operands targets_plain split: prod.split)
    (simp add: targets_ok_def setter_defs)

lemma a_type_targets: "pred_option targets_ok (a_type raw)"
  unfolding a_type_def by (rule pred_case [OF a_decode_ok a_targets])

text \<open>The slots of the I unit in which the decoder reads two 7-bit registers as the predicates of a bit test: major
  opcode 5 with extension 2, which the architecture reserves and \<open>decodeDepositExtract\<close> accepts with the opcode it
  found.\<close>

definition reserved_test :: "u64 \<Rightarrow> unit_type \<Rightarrow> bool" where
  "reserved_test raw u \<longleftrightarrow> u = I_UNIT \<and> extractBits raw 37 4 = 5 \<and> extractBits raw 34 2 = 2"

definition test_opcode :: "u8 \<Rightarrow> bool" where
  "test_opcode op \<longleftrightarrow> op AND 0xF0 = 0x50 \<and> op AND 0xF \<in> {2, 3, 4, 5, 7, 8, 0xD}"

definition i_test_ok :: "iformat \<Rightarrow> bool" where
  "i_test_ok f \<longleftrightarrow> (test_opcode (i_opcode f) \<longrightarrow> is_pred (i_r1 f) \<and> is_pred (i_r2 f))"

lemma not_test_opcode:
  "\<not> bit op 6 \<Longrightarrow> \<not> test_opcode op" "bit op 5 \<Longrightarrow> \<not> test_opcode op"
proof -
  have bits: "bit op 6 \<and> \<not> bit op 5" if "op AND 0xF0 = 0x50"
  proof -
    have "bit (op AND 0xF0) 6 = bit (0x50 :: u8) 6" "bit (op AND 0xF0) 5 = bit (0x50 :: u8) 5"
      using that by simp_all
    then show ?thesis by (simp add: bit_simps)
  qed
  show "\<not> bit op 6 \<Longrightarrow> \<not> test_opcode op" "bit op 5 \<Longrightarrow> \<not> test_opcode op"
    using bits by (auto simp: test_opcode_def)
qed

lemma i_opcode_bits:
  "\<not> test_opcode (ucast (push_bit 4 0 OR (x AND 0xF) :: u64))"
  "\<not> test_opcode (ucast (push_bit 4 7 OR (x AND 0xF) :: u64))"
  "\<not> test_opcode (ucast (extractBits raw 27 6))"
proof -
  have "\<not> bit (0xF :: u64) 6" by simp
  then show "\<not> test_opcode (ucast (push_bit 4 0 OR (x AND 0xF) :: u64))"
    by (intro not_test_opcode(1)) (simp add: bit_simps)
  have "bit (push_bit 4 7 :: u64) 5" by simp
  then show "\<not> test_opcode (ucast (push_bit 4 7 OR (x AND 0xF) :: u64))"
    by (intro not_test_opcode(2)) (simp add: bit_ucast_iff bit_or_iff)
  show "\<not> test_opcode (ucast (extractBits raw 27 6))"
    by (rule not_test_opcode(1)) (simp add: bit_ucast_iff bit_extractBits)
qed

lemma test_opcode_values:
  "\<not> test_opcode 0x10" "\<not> test_opcode 0x11" "\<not> test_opcode 0x50" "\<not> test_opcode 0x51" "\<not> test_opcode 0x56"
  "\<not> test_opcode 0x5E" "\<not> test_opcode 0x5F" "\<not> test_opcode 0x70" "\<not> test_opcode 0x71" "\<not> test_opcode 0x73"
  "\<not> test_opcode 0x74" "\<not> test_opcode 0x1C"
  by (simp_all add: test_opcode_def)

lemma i_test_parts:
  assumes "\<not> test_opcode (i_opcode f)"
  shows "pred_option i_test_ok (decodeMixedI raw x3 (extractBits raw 27 6) f)"
    "pred_option i_test_ok (decodeShift raw x2 x6 f)"
  using assms by (simp_all add: decodeMixedI_def decodeShift_def Let_def i_test_ok_def test_opcode_values i_opcode_bits)

lemma two_bits: "extractBits raw s 2 \<in> {0, 1, 2, 3}"
proof -
  have "unat (extractBits raw s 2) < 4"
    using extractBits_take [of raw s 2] by (simp add: take_bit_eq_mod unat_mod)
  then have "unat (extractBits raw s 2) \<in> {0, 1, 2, 3}" by auto
  then show ?thesis by (auto simp: word_unat_eq_iff)
qed

lemma one_bit: "extractBits raw s 1 = 0 \<or> extractBits raw s 1 = 1"
  by (simp add: extractBits_take take_bit_Suc mod_2_eq_odd)

lemma i_test_deposit:
  assumes "extractBits raw 34 2 = 1 \<or> extractBits raw 34 2 = 3"
  shows "pred_option i_test_ok (decodeDepositExtract raw (extractBits raw 33 1) (extractBits raw 34 2) f)"
  using assms one_bit [of raw 33]
  by (elim disjE) (simp_all add: decodeDepositExtract_def Let_def i_test_ok_def test_opcode_values)

lemma i_test_major5:
  assumes "extractBits raw 34 2 \<noteq> 2"
  shows "pred_option i_test_ok (decode_major5 raw f)"
proof -
  have test: "pred_option i_test_ok (decodeTest raw f)"
    by (simp add: decodeTest_def Let_def i_test_ok_def operands)
  have "pred_option i_test_ok (case decodeTest raw f of Some f1 \<Rightarrow> Some f1
      | None \<Rightarrow> decodeDepositExtract raw (extractBits raw 33 1) (extractBits raw 34 2) f)"
  proof (cases "extractBits raw 34 2 = 0")
    case True
    then show ?thesis using test by (simp add: decodeTest_def Let_def)
  next
    case False
    then have "extractBits raw 34 2 = 1 \<or> extractBits raw 34 2 = 3"
      using assms two_bits [of raw 34] by auto
    then show ?thesis using i_test_deposit test by (intro pred_orelse)
  qed
  then show ?thesis
    by (simp add: decode_major5_def Let_def pred_if i_test_ok_def test_opcode_values del: One_nat_def)
qed

lemma i_test_decoded:
  assumes "\<not> reserved_test raw I_UNIT"
  shows "pred_option i_test_ok (ITypeDecoder_decode raw)"
  using assms
  by (simp add: ITypeDecoder_decode_def Let_def reserved_test_def i_test_parts i_test_major5 i_opcode_bits [simplified]
      test_opcode_values pred_if)
    (simp add: i_test_ok_def test_opcode_values)

lemma i_targets: "i_test_ok f \<Longrightarrow> pred_option targets_ok (ITypeDecoder_toInstruction f)"
proof -
  assume f: "i_test_ok f"
  have "pred_option targets_ok (i_shift_instruction f)" "pred_option targets_ok (i_other_instruction f)"
    by (simp_all add: i_shift_instruction_def i_other_instruction_def Let_def operands targets_plain)
  moreover have "pred_option targets_ok (i_field_instruction f)" if "i_opcode f AND 0xF0 = 0x50"
    using f that by (simp add: i_field_instruction_def i_test_ok_def test_opcode_def Let_def operands targets_plain test_insn_def)
      (simp add: targets_ok_def setter_defs)
  ultimately show ?thesis by (simp add: ITypeDecoder_toInstruction_def Let_def pred_if pred_orelse)
qed

lemma i_type_targets: "\<not> reserved_test raw I_UNIT \<Longrightarrow> pred_option targets_ok (i_type raw)"
  unfolding i_type_def by (rule pred_case [OF i_test_decoded i_targets])

subsubsection \<open>M, B, F and X format\<close>

lemma m_targets: "pred_option targets_ok (MTypeDecoder_toInstruction f)"
  by (simp add: MTypeDecoder_toInstruction_def Let_def operands targets_plain split: mem_op.split)

lemma m_type_targets: "pred_option targets_ok (m_type raw)"
  unfolding m_type_def by (cases "MTypeDecoder_decode raw") (simp_all add: m_targets)

definition b_regs_ok :: "bformat \<Rightarrow> bool" where
  "b_regs_ok f \<longleftrightarrow> is_br (b_b1 f) \<and> is_br (b_b2 f)"

lemma b_regs_if [operands]: "b_regs_ok f \<Longrightarrow> b_regs_ok g \<Longrightarrow> b_regs_ok (if c then f else g)" by simp

lemma b_regs_update [operands]:
  "b_regs_ok f \<Longrightarrow> b_regs_ok (f\<lparr>b_indirect := x\<rparr>)" "b_regs_ok f \<Longrightarrow> b_regs_ok (f\<lparr>b_type := k\<rparr>)"
  "b_regs_ok f \<Longrightarrow> b_regs_ok (f\<lparr>b_has_target := x\<rparr>)" "b_regs_ok f \<Longrightarrow> b_regs_ok (f\<lparr>b_target_offset := v\<rparr>)"
  by (simp_all add: b_regs_ok_def)

lemma b_regs_decoded: "pred_option b_regs_ok (BTypeDecoder_decode raw ip)"
proof -
  have parts: "b_regs_ok (decodeIPRelative raw btype x6 ip f)" "b_regs_ok (decodeIndirect x6 f)" if "b_regs_ok f" for f btype x6
    using that by (simp_all add: decodeIPRelative_def decodeIndirect_def Let_def operands)
  have "b_regs_ok (BFormat\<lparr>b_qp := field8 raw 0 6, b_b1 := field8 raw 6 3, b_b2 := field8 raw 13 3, b_wh := field8 raw 33 2,
      b_dh := field8 raw 35 1, b_ph := field8 raw 12 1, b_opcode := w\<rparr>)" for w
    by (simp add: b_regs_ok_def operands)
  then show ?thesis
    by (simp add: BTypeDecoder_decode_def Let_def parts operands split: option.split)
qed

lemma b_targets: "b_regs_ok f \<Longrightarrow> targets_ok (BTypeDecoder_toInstruction f)"
  by (cases "b_type f") (simp_all add: BTypeDecoder_toInstruction_def Let_def b_regs_ok_def targets_ok_def setter_defs)

lemma f_targets: "targets_ok (FTypeDecoder_decode raw)"
  by (simp add: FTypeDecoder_decode_def Let_def operands targets_plain)
    (simp add: targets_ok_def setter_defs decodeF4_def decodeF5_def operands)

lemma x_targets: "targets_ok (XTypeDecoder_decode raw)"
  by (simp add: XTypeDecoder_decode_def Let_def operands targets_plain)

subsubsection \<open>Slots\<close>

lemma special_targets:
  "pred_option targets_ok (slot_alloc raw u)" "targets_ok (mov_ar_imm8 raw u)" "targets_ok (mov_ar_reg raw u to_ar)"
  "targets_ok (nop_with_qp raw u)"
  by (simp_all add: slot_alloc_def mov_ar_imm8_def mov_ar_reg_def nop_with_qp_def Let_def operands targets_plain)

lemma move_targets:
  "is_br b \<Longrightarrow> targets_ok (SetOperands r b x (InstructionEx (Move MOV_FROM_BR) u))"
  "is_br b \<Longrightarrow> targets_ok (SetOperands b r x (InstructionEx (Move MOV_TO_BR) u))"
  by (simp_all add: targets_ok_def setter_defs)

lemma unit_targets:
  "pred_option targets_ok (decode_m_unit raw ip)"
  "\<not> reserved_test raw I_UNIT \<Longrightarrow> pred_option targets_ok (decode_i_unit raw)"
  "pred_option targets_ok (decode_b_unit raw ip)" "pred_option targets_ok (decode_f_unit raw)"
proof -
  show "pred_option targets_ok (decode_m_unit raw ip)"
    by (simp add: decode_m_unit_def Let_def operands special_targets a_type_targets m_type_targets targets_plain)
  show "pred_option targets_ok (decode_i_unit raw)" if "\<not> reserved_test raw I_UNIT"
    using that
    by (simp add: decode_i_unit_def Let_def operands special_targets a_type_targets i_type_targets targets_plain move_targets)
  have "pred_option targets_ok (map_option BTypeDecoder_toInstruction m)" if "pred_option b_regs_ok m" for m
    using that by (cases m) (simp_all add: b_targets)
  then show "pred_option targets_ok (decode_b_unit raw ip)"
    by (simp add: decode_b_unit_def Let_def operands b_regs_decoded)
  show "pred_option targets_ok (decode_f_unit raw)"
    by (simp add: decode_f_unit_def Let_def operands special_targets f_targets)
qed

lemma slot_targets:
  assumes "\<not> reserved_test raw u"
  shows "targets_ok (DecodeSlot raw u ip)"
proof -
  have "targets_ok (case m of Some i \<Rightarrow> i | None \<Rightarrow> InstructionEx UNKNOWN u)" if "pred_option targets_ok m" for m
    using that by (cases m) (simp_all add: operands)
  moreover have "pred_option targets_ok (case u of M_UNIT \<Rightarrow> decode_m_unit raw ip | I_UNIT \<Rightarrow> decode_i_unit raw
      | B_UNIT \<Rightarrow> decode_b_unit raw ip | F_UNIT \<Rightarrow> decode_f_unit raw | L_UNIT \<Rightarrow> Some (InstructionEx NOP L_UNIT)
      | X_UNIT \<Rightarrow> Some (XTypeDecoder_decode raw) | INVALID_UNIT \<Rightarrow> None)"
    using assms by (cases u) (simp_all add: unit_targets operands x_targets)
  ultimately show ?thesis
    by (simp only: DecodeSlot_def operands)
qed

text \<open>The exception is real: a reserved slot of the I unit becomes a bit test of predicates 127 and 0, on which the
  processor throws.\<close>

lemma reserved_slot_tests_predicate_127:
  "reserved_test 0xA810001FC0 I_UNIT \<and> in_type (DecodeSlot 0xA810001FC0 I_UNIT 0) = Test TBIT_Z \<and>
   in_dst (DecodeSlot 0xA810001FC0 I_UNIT 0) = 127"
  by code_simp

text \<open>C11: decoding is total, and whatever the 41 bits of a slot and its unit, the operands exist: the qualifying and the
  second predicate are among 64, every register operand is among 128, and where an operand is a predicate target
  (compares, bit tests, floating-point compare and class) it is among 64, where it is a branch register (branches,
  moves to and from one) among 8. The only exception are the reserved slots of the I unit with major opcode 5 and
  extension 2, for which the last part does not hold.\<close>

theorem decoded_operands:
  "let i = DecodeSlot raw u ip in
   unat (in_predicate i) < 64 \<and> unat (in_predicate2 i) < 64 \<and> unat (in_dst i) < 128 \<and> unat (in_src1 i) < 128 \<and>
   unat (in_src2 i) < 128 \<and> unat (in_src3 i) < 128 \<and> in_rawBits i = raw \<and>
   (\<not> reserved_test raw u \<longrightarrow>
      (case in_type i of
         Compare_Op _ \<Rightarrow> unat (in_dst i) < 64 \<and> unat (in_src3 i) < 64
       | Test _ \<Rightarrow> unat (in_dst i) < 64 \<and> unat (in_src3 i) < 64
       | Float_Op t \<Rightarrow> t \<in> {FCMP, FCLASS} \<longrightarrow> unat (in_dst i) < 64
       | Move t \<Rightarrow> (t = MOV_TO_BR \<longrightarrow> unat (in_dst i) < 8) \<and> (t = MOV_FROM_BR \<longrightarrow> unat (in_src1 i) < 8)
       | Branch _ \<Rightarrow> unat (in_dst i) < 8 \<and> unat (in_src1 i) < 8
       | _ \<Rightarrow> True))"
proof -
  have "operands_ok (case m of Some i \<Rightarrow> i | None \<Rightarrow> InstructionEx UNKNOWN u)" if "pred_option operands_ok m" for m
    using that by (cases m) (simp_all add: operands)
  moreover have "pred_option operands_ok (case u of M_UNIT \<Rightarrow> decode_m_unit raw ip | I_UNIT \<Rightarrow> decode_i_unit raw
      | B_UNIT \<Rightarrow> decode_b_unit raw ip | F_UNIT \<Rightarrow> decode_f_unit raw | L_UNIT \<Rightarrow> Some (InstructionEx NOP L_UNIT)
      | X_UNIT \<Rightarrow> Some (XTypeDecoder_decode raw) | INVALID_UNIT \<Rightarrow> None)"
    by (cases u) (simp_all add: unit_forms_ok operands x_instruction_ok)
  ultimately have "operands_ok (DecodeSlot raw u ip)"
    by (simp only: DecodeSlot_def operands)
  moreover have "in_rawBits (DecodeSlot raw u ip) = raw" by (simp add: DecodeSlot_def SetRawBits_def)
  ultimately show ?thesis
    using slot_targets [of raw u ip] by (simp add: operands_ok_def targets_ok_def Let_def)
qed

text \<open>A slot in which every bit of the two predicate fields is set: the compare \<open>p63, p63 = r1, r2\<close>.\<close>

lemma decoded_operands_witness:
  "\<not> reserved_test 0x1C1F8201FC0 I_UNIT \<and> in_type (DecodeSlot 0x1C1F8201FC0 I_UNIT 0) = Compare_Op CMP_EQ \<and>
   unat (in_dst (DecodeSlot 0x1C1F8201FC0 I_UNIT 0)) < 64 \<and> unat (in_src3 (DecodeSlot 0x1C1F8201FC0 I_UNIT 0)) < 64"
proof -
  have "\<not> reserved_test 0x1C1F8201FC0 I_UNIT" "in_type (DecodeSlot 0x1C1F8201FC0 I_UNIT 0) = Compare_Op CMP_EQ"
    by code_simp+
  with decoded_operands [of "0x1C1F8201FC0" I_UNIT 0] show ?thesis
    by (simp add: Let_def)
qed

end
