(* ===== verification/Decoder_Props.thy ===== *)
theory Decoder_Props
  imports Decoder_Roundtrip
begin

text \<open>
  Properties of the decoder: a bundle is its template and three slots and loses nothing; assembled bundles and the
  two-slot \<open>movl\<close> decode to the instructions they encode; every decoded instruction names registers and predicates
  that exist; and the encodings the decoder reads differently from the architecture.
\<close>

subsection \<open>Bundles\<close>

definition assemble :: "u8 \<Rightarrow> u64 \<Rightarrow> u64 \<Rightarrow> u64 \<Rightarrow> u8 list" where
  "assemble tmpl s0 s1 s2 =
     le_bytes 8 (pack [(5, ucast tmpl), (41, s0), part s1 0 18]) @ le_bytes 8 (pack [part s1 18 23, (41, s2)])"

definition low_half :: "u8 list \<Rightarrow> u64" where "low_half b = le_value (take 8 b)"
definition high_half :: "u8 list \<Rightarrow> u64" where "high_half b = le_value (take 8 (drop 8 b))"

lemma slot_extract:
  "ExtractSlot b 0 = extractBits (low_half b) 5 41"
  "ExtractSlot b 1 = extractBits (low_half b) 46 18 OR push_bit 18 (extractBits (high_half b) 0 23)"
  "ExtractSlot b 2 = extractBits (high_half b) 23 41"
proof -
  have m: "0x1FFFFFFFFFF = (mask 41 :: u64)" "0x7FFFFFF = (mask 27 :: u64)" by (simp_all add: mask_eq_exp_minus_1)
  show "ExtractSlot b 0 = extractBits (low_half b) 5 41" "ExtractSlot b 2 = extractBits (high_half b) 23 41"
    by (simp_all add: ExtractSlot_def low_half_def high_half_def extractBits_take m take_bit_eq_mask Let_def)
  show "ExtractSlot b 1 = extractBits (low_half b) 46 18 OR push_bit 18 (extractBits (high_half b) 0 23)"
    unfolding ExtractSlot_def m Let_def
    by (rule bit_eqI) (auto simp: low_half_def high_half_def bit_extractBits bit_simps dest: bit_imp_le_length)
qed

lemma assemble_halves [simp]:
  "low_half (assemble tmpl s0 s1 s2) = pack [(5, ucast tmpl), (41, s0), part s1 0 18]"
  "high_half (assemble tmpl s0 s1 s2) = pack [part s1 18 23, (41, s2)]"
  by (simp_all add: low_half_def high_half_def assemble_def le_value_le_bytes del: pack.simps)

lemma template_extract: "b \<noteq> [] \<Longrightarrow> ExtractTemplate b = ucast (extractBits (low_half b) 0 5)"
proof -
  assume "b \<noteq> []"
  then obtain x xs where b: "b = x # xs" by (cases b) auto
  have m: "0x1F = (mask 5 :: u8)" by (simp add: mask_eq_exp_minus_1)
  show ?thesis
    unfolding ExtractTemplate_def m b
    by (rule bit_eqI) (auto simp: low_half_def bit_extractBits bit_simps)
qed

lemma assembled_slots:
  assumes "unat tmpl < 32"
  shows "ExtractTemplate (assemble tmpl s0 s1 s2) = tmpl"
    "ExtractSlot (assemble tmpl s0 s1 s2) 0 = take_bit 41 s0"
    "ExtractSlot (assemble tmpl s0 s1 s2) 1 = take_bit 41 s1"
    "ExtractSlot (assemble tmpl s0 s1 s2) 2 = take_bit 41 s2"
proof -
  have "length (assemble tmpl s0 s1 s2) = 16" by (simp add: assemble_def)
  then have "assemble tmpl s0 s1 s2 \<noteq> []" by (metis list.size(3) zero_neq_numeral)
  then show "ExtractTemplate (assemble tmpl s0 s1 s2) = tmpl"
    using assms by (simp add: template_extract unpack del: pack.simps)
  have "extractBits (extractBits s1 0 18) 0 18 OR push_bit 18 (extractBits (extractBits s1 18 23) 0 23) = take_bit 41 s1"
    using extract_join [of s1 0 18 23] by (simp only: extract_nested) (simp add: extract_all)
  then show "ExtractSlot (assemble tmpl s0 s1 s2) 1 = take_bit 41 s1"
    by (simp add: slot_extract [simplified] unpack del: pack.simps)
qed (simp_all add: slot_extract unpack extract_all [symmetric] del: pack.simps)


text \<open>The template and the slots of a bundle determine its sixteen bytes.\<close>

theorem bundle_lossless:
  assumes "length b = 16"
  shows "assemble (ExtractTemplate b) (ExtractSlot b 0) (ExtractSlot b 1) (ExtractSlot b 2) = b"
proof -
  let ?b' = "assemble (ExtractTemplate b) (ExtractSlot b 0) (ExtractSlot b 1) (ExtractSlot b 2)"
  have b: "b \<noteq> []" using assms by auto
  have low: "pack [(5, ucast (ExtractTemplate b)), (41, ExtractSlot b 0), part (ExtractSlot b 1) 0 18] = low_half b"
    using assms b
    by (intro bit_eqI) (auto simp: bit_pack_Cons template_extract slot_extract [simplified] bit_extractBits bit_simps simp del: pack.simps(2)
        dest: bit_imp_le_length)
  have high: "pack [part (ExtractSlot b 1) 18 23, (41, ExtractSlot b 2)] = high_half b"
    by (intro bit_eqI) (auto simp: bit_pack_Cons slot_extract [simplified] bit_extractBits bit_simps simp del: pack.simps(2) dest: bit_imp_le_length)
  have "le_bytes 8 (low_half b) = take 8 b" "le_bytes 8 (high_half b) = drop 8 b"
    using le_bytes_le_value [of "take 8 b", where 'a = 64] le_bytes_le_value [of "drop 8 b", where 'a = 64] assms
    by (simp_all add: low_half_def high_half_def)
  then show ?thesis by (simp only: assemble_def low high append_take_drop_id)
qed

lemma bundle_lossless_witness:
  "assemble (ExtractTemplate (replicate 16 0xA5)) (ExtractSlot (replicate 16 0xA5) 0) (ExtractSlot (replicate 16 0xA5) 1)
     (ExtractSlot (replicate 16 0xA5) 2) = replicate 16 0xA5"
  using bundle_lossless [of "replicate 16 0xA5"] by (simp only: length_replicate)

lemma encode_width: "take_bit 41 (encode q a) = encode q a"
proof -
  have "sum_list (map fst (slot_fields a)) = 35" by (cases a) simp_all
  then have "bit (encode q a) k \<Longrightarrow> k < 41" for k
    using pack_width [of "(6, ucast q) # slot_fields a" k] by (simp add: encode_def del: pack.simps)
  then show ?thesis by (auto intro!: bit_eqI simp: bit_take_bit_iff)
qed




text \<open>C10: \<open>movl\<close> spreads a 64-bit immediate over the long slot and the fields of the X slot.\<close>

definition encode_movl :: "u8 \<Rightarrow> u8 \<Rightarrow> u64 \<Rightarrow> u64" where
  "encode_movl qp r1 imm =
     pack [(6, ucast qp), (7, ucast r1), part imm 0 7, (1, 0), part imm 21 1, part imm 16 5, part imm 7 9, part imm 63 1, (4, 6)]"

theorem movl_roundtrip:
  assumes "tmpl = 4 \<or> tmpl = 5" "is_pred qp" "is_reg r1"
  shows "bn_instructions (DecodeBundleAt (assemble tmpl s0 (extractBits imm 22 41) (encode_movl qp r1 imm)) ip) =
    [DecodeInstruction (take_bit 41 s0) M_UNIT,
     SetRawBits (encode_movl qp r1 imm) (SetImmediate imm (insn (Move MOVL) L_UNIT qp r1 0 0))]"
proof -
  have w: "take_bit 41 (encode_movl qp r1 imm) = encode_movl qp r1 imm"
    using pack_width [of "[(6, ucast qp), (7, ucast r1), part imm 0 7, (1, 0), part imm 21 1, part imm 16 5, part imm 7 9,
      part imm 63 1, (4, 6)]"]
    by (auto intro!: bit_eqI simp: bit_take_bit_iff encode_movl_def simp del: pack.simps)
  obtain xf where x: "decodeX (encode_movl qp r1 imm) = Some xf" "x_qp xf = qp" "x_r1 xf = r1"
      "x_imm7b xf = ucast (extractBits imm 0 7)" "x_ic xf = ucast (extractBits imm 21 1)"
      "x_imm5c xf = ucast (extractBits imm 16 5)" "x_imm9d xf = ucast (extractBits imm 7 9)" "x_i xf = ucast (extractBits imm 63 1)"
    using assms by (simp add: decodeX_def x_fields_def XFormat_def field8_def encode_movl_def unpack Let_def del: pack.simps)
  have m: "0x1FFFFFFFFFF = (mask 41 :: u64)" by (simp add: mask_eq_exp_minus_1)
  have "push_bit 63 (ucast (x_i xf)) OR push_bit 22 (extractBits imm 22 41) OR push_bit 21 (ucast (x_ic xf))
      OR push_bit 16 (ucast (x_imm5c xf)) OR push_bit 7 (ucast (x_imm9d xf)) OR ucast (x_imm7b xf) = imm" (is "?v = _")
  proof (rule bit_eqI)
    fix k :: nat
    assume "possible_bit TYPE(64 word) k"
    then have "k < 64" by simp
    then consider "k < 7" | "7 \<le> k" "k < 16" | "16 \<le> k" "k < 21" | "k = 21" | "22 \<le> k" "k < 63" | "k = 63" by linarith
    then show "bit ?v k \<longleftrightarrow> bit imm k"
      by cases (auto simp: x(4-8) bit_extractBits bit_simps)
  qed
  then have "combineMOVL (decodeL (extractBits imm 22 41)) xf = SetImmediate imm (insn (Move MOVL) L_UNIT qp r1 0 0)"
    by (simp add: combineMOVL_def decodeL_def Let_def x(2,3) m take_bit_eq_mask [symmetric] extractBits_take)
  moreover have "IsMLXTemplate tmpl" "unat tmpl < 32" using assms(1) by (auto simp: IsMLXTemplate_def)
  moreover have "take_bit 41 (extractBits imm 22 41) = extractBits imm 22 41" by (simp add: extractBits_take)
  ultimately show ?thesis
    by (simp add: DecodeBundleAt_def assembled_slots [simplified] w x(1) Let_def)
qed


lemma movl_roundtrip_witness:
  "map in_immediate (bn_instructions (DecodeBundleAt (assemble 5 0 (extractBits 0x8000000000200081 22 41)
     (encode_movl 0 14 0x8000000000200081)) 0)) = [0, 0x8000000000200081]"
  using movl_roundtrip [of 5 0 14 0 "0x8000000000200081" 0]
  by (simp add: setter_defs DecodeInstruction_def DecodeSlot_def decode_m_unit_def slot_alloc_def ExtractMajorOpcode_def nop_with_qp_def)

subsection \<open>Encodings read differently from the architecture\<close>

lemmas i_decode = decode_i_unit_def slot_alloc_def ExtractMajorOpcode_def i_type_def ITypeDecoder_decode_def IFormat_def field8_def
  ITypeDecoder_toInstruction_def

text \<open>The slot of \<open>br.call b5 = target\<close> decodes to a counted-loop branch without a predicate.\<close>

theorem call_b5_becomes_cloop:
  assumes "is_pred qp" "signed_take_bit 20 disp = disp"
  shows "DecodeSlot (encode qp (Br_call 5 disp)) B_UNIT ip =
    SetRawBits (encode qp (Br_call 5 disp)) (SetBranchTarget (ip + 16 * disp) (InstructionEx (Branch BR_CLOOP) B_UNIT))"
proof (rule b_slot)
  show "decode_b_unit (encode qp (Br_call 5 disp)) ip = Some (SetBranchTarget (ip + 16 * disp) (InstructionEx (Branch BR_CLOOP) B_UNIT))"
    using assms by (simp add: b_decode encode_def unpack fits Let_def SetPredicate_def InstructionEx_def del: pack.simps)
qed

lemma call_b5_becomes_cloop_witness:
  "in_type (DecodeSlot (encode 0 (Br_call 5 0x40)) B_UNIT 0x1000) = Branch BR_CLOOP"
  using call_b5_becomes_cloop [where qp = 0 and disp = "0x40" and ip = "0x1000"] by (simp add: setter_defs)

text \<open>C37: Variable right shift and bit-field extraction, signed or not.\<close>

definition encode_shr :: "bool \<Rightarrow> u8 \<Rightarrow> u8 \<Rightarrow> u8 \<Rightarrow> u8 \<Rightarrow> u64" where
  "encode_shr signed_form qp r1 r3 r2 =
     pack [(6, ucast qp), (7, ucast r1), (7, ucast r2), (7, ucast r3), (1, 0), (2, if signed_form then 2 else 0), (2, 0), (1, 0), (1, 1),
       (2, 0), (1, 1), (4, 7)]"

definition encode_extr :: "bool \<Rightarrow> u8 \<Rightarrow> u8 \<Rightarrow> u8 \<Rightarrow> u8 \<Rightarrow> u8 \<Rightarrow> u64" where
  "encode_extr signed_form qp r1 r3 pos len1 =
     pack [(6, ucast qp), (7, ucast r1), flag signed_form, (6, ucast pos), (7, ucast r3), (6, ucast len1), (1, 0), (2, 1), (1, 0), (4, 5)]"

theorem signedness_lost:
  assumes "is_pred qp" "is_reg r1" "is_reg r2" "is_reg r3" "unat pos < 64" "unat len1 < 64"
  shows "DecodeSlot (encode_shr sg qp r1 r3 r2) I_UNIT ip =
      SetRawBits (encode_shr sg qp r1 r3 r2) (insn (Shift SHR) I_UNIT qp r1 r3 r2) \<and>
    DecodeSlot (encode_extr sg qp r1 r3 pos len1) I_UNIT ip =
      SetRawBits (encode_extr sg qp r1 r3 pos len1)
        (SetImmediate (push_bit 6 (ucast len1) OR ucast pos) (insn (Field EXTR) I_UNIT qp r1 r3 0))"
proof
  show "DecodeSlot (encode_shr sg qp r1 r3 r2) I_UNIT ip =
      SetRawBits (encode_shr sg qp r1 r3 r2) (insn (Shift SHR) I_UNIT qp r1 r3 r2)"
    using assms by (cases sg)
      (simp_all add: DecodeSlot_def i_decode decodeShift_def i_shift_instruction_def encode_shr_def unpack Let_def del: pack.simps)
  show "DecodeSlot (encode_extr sg qp r1 r3 pos len1) I_UNIT ip =
      SetRawBits (encode_extr sg qp r1 r3 pos len1)
        (SetImmediate (push_bit 6 (ucast len1) OR ucast pos) (insn (Field EXTR) I_UNIT qp r1 r3 0))"
    using assms by (cases sg)
      (simp_all add: DecodeSlot_def i_decode decode_major5_def decodeTest_def decodeDepositExtract_def i_field_instruction_def
        pos_len_def encode_extr_def unpack Let_def del: pack.simps)
qed

lemma signedness_lost_witness:
  "in_type (DecodeSlot (encode_shr True 0 4 5 6) I_UNIT 0) = in_type (DecodeSlot (encode_shr False 0 4 5 6) I_UNIT 0)"
  using signedness_lost [where qp = 0 and ?r1.0 = 4 and ?r3.0 = 5 and ?r2.0 = 6 and pos = 0 and ?len1.0 = 0 and sg = True and ip = 0]
    signedness_lost [where qp = 0 and ?r1.0 = 4 and ?r3.0 = 5 and ?r2.0 = 6 and pos = 0 and ?len1.0 = 0 and sg = False and ip = 0]
  by (simp add: setter_defs)

text \<open>C34: Moves from \<open>b\<close>, \<open>ip\<close> and \<open>pr\<close> and to \<open>b\<close> on the I unit, encoded with any qualifying predicate.\<close>

datatype i_move = From_b u8 u8 | From_ip u8 | From_pr u8 | To_b u8 u8

fun encode_i_move :: "u8 \<Rightarrow> i_move \<Rightarrow> u64" where
  "encode_i_move qp (From_b r1 b2) = pack [(6, ucast qp), (7, ucast r1), (3, ucast b2), (11, 0), (6, 0x31), (3, 0), (1, 0), (4, 0)]"
| "encode_i_move qp (From_ip r1) = pack [(6, ucast qp), (7, ucast r1), (14, 0), (6, 0x30), (3, 0), (1, 0), (4, 0)]"
| "encode_i_move qp (From_pr r1) = pack [(6, ucast qp), (7, ucast r1), (14, 0), (6, 0x33), (3, 0), (1, 0), (4, 0)]"
| "encode_i_move qp (To_b b1 r2) = pack [(6, ucast qp), (3, ucast b1), (4, 0), (7, ucast r2), (7, 0), (6, 0), (3, 7), (1, 0), (4, 0)]"

fun i_move_insn :: "i_move \<Rightarrow> instruction" where
  "i_move_insn (From_b r1 b2) = SetOperands r1 b2 0 (InstructionEx (Move MOV_FROM_BR) I_UNIT)"
| "i_move_insn (From_ip r1) = SetOperands r1 0 0 (InstructionEx (Move MOV_FROM_IP) I_UNIT)"
| "i_move_insn (From_pr r1) = SetOperands r1 0 0 (InstructionEx (Move MOV_FROM_PR) I_UNIT)"
| "i_move_insn (To_b b1 r2) = SetOperands b1 r2 0 (InstructionEx (Move MOV_TO_BR) I_UNIT)"

fun i_move_ok :: "i_move \<Rightarrow> bool" where
  "i_move_ok (From_b r1 b2) \<longleftrightarrow> is_reg r1 \<and> unat b2 < 8"
| "i_move_ok (From_ip r1) \<longleftrightarrow> is_reg r1"
| "i_move_ok (From_pr r1) \<longleftrightarrow> is_reg r1"
| "i_move_ok (To_b b1 r2) \<longleftrightarrow> unat b1 < 8 \<and> is_reg r2"

theorem i_moves_lose_predicate:
  assumes "i_move_ok mv" "is_pred qp"
  shows "DecodeSlot (encode_i_move qp mv) I_UNIT ip = SetRawBits (encode_i_move qp mv) (i_move_insn mv) \<and>
    in_predicate (DecodeSlot (encode_i_move qp mv) I_UNIT ip) = 0"
proof -
  have "DecodeSlot (encode_i_move qp mv) I_UNIT ip = SetRawBits (encode_i_move qp mv) (i_move_insn mv)"
    using assms by (cases mv) (simp_all add: DecodeSlot_def i_decode unpack Let_def del: pack.simps)
  moreover have "in_predicate (i_move_insn mv) = 0" by (cases mv) (simp_all add: setter_defs)
  ultimately show ?thesis by (simp add: SetRawBits_def)
qed

lemma i_moves_lose_predicate_witness:
  "in_predicate (DecodeSlot (encode_i_move 6 (To_b 0 32)) I_UNIT 0) = 0"
  using i_moves_lose_predicate [of "To_b 0 32" 6 0] by (simp add: setter_defs)

text \<open>\<open>dep.z r1 = imm8, pos, len\<close> is read as an extraction from the register its position field happens to name.\<close>

lemma dep_z_imm_becomes_extr:
  assumes "is_pred qp" "is_reg r1" "unat pos < 64" "unat len1 < 64"
  shows "in_type (DecodeSlot (pack [(6, ucast qp), (7, ucast r1), part imm 0 7, (6, ucast pos), (1, 1), (6, ucast len1), (1, 1), (2, 1),
      part imm 7 1, (4, 5)]) I_UNIT ip) = Field EXTR"
  using assms by (simp add: DecodeSlot_def i_decode decode_major5_def decodeTest_def decodeDepositExtract_def i_field_instruction_def
     unpack Let_def setter_defs del: pack.simps)

text \<open>\<open>ld8.s\<close> (\<open>x6 = 7\<close>) is a plain load and \<open>ld8.acq\<close> (\<open>x6 = 0x17\<close>) a speculative one.\<close>

lemma speculative_acquire_swapped:
  assumes "is_pred qp" "is_reg r1" "is_reg r3"
  shows "in_type (DecodeSlot (pack [(6, ucast qp), (7, ucast r1), (7, 0), (7, ucast r3), (1, 0), (2, 0), (6, 7), (1, 0), (4, 4)]) M_UNIT ip)
      = Memory_Op LD8"
    "in_type (DecodeSlot (pack [(6, ucast qp), (7, ucast r1), (7, 0), (7, ucast r3), (1, 0), (2, 0), (6, 0x17), (1, 0), (4, 4)]) M_UNIT ip)
      = Memory_Op LD8_S"
  using assms by (simp_all add: DecodeSlot_def decode_m_unit_def slot_alloc_def ExtractMajorOpcode_def m_decode unpack Let_def
     setter_defs del: pack.simps)

end
