(* ===== verification/Cpu_Core.thy ===== *)
theory Cpu_Core
  imports Decoder Execute
begin

text \<open>
  \<open>CPU\<close> (\<open>src/src/core/cpu_core.cpp\<close>): bundle fetch, the slot counter, interrupts, branches and the copying of
  call outputs around the executor. Trace and profiler output is left out. A step runs on the core and the memory;
  exceptions of an instruction are caught and reported, what the instruction changed before them stays.
\<close>

subsection \<open>Register files\<close>

record register_file =
  rf_registers :: "u64 list"
  rf_staticRegs :: nat

definition RegisterFile :: "nat \<Rightarrow> nat \<Rightarrow> cpp_error + register_file" where
  "RegisterFile totalRegs staticRegs =
     (if staticRegs > totalRegs then Inl InvalidArgument
      else Inr \<lparr>rf_registers = replicate totalRegs 0, rf_staticRegs = staticRegs\<rparr>)"

text \<open>A file without rotating registers has no logical register past the static ones, so the division is defined.\<close>

definition MapToPhysical :: "register_file \<Rightarrow> nat \<Rightarrow> u64 \<Rightarrow> nat" where
  "MapToPhysical f logical rotationBase =
     (if logical < rf_staticRegs f then logical
      else
        let rotatingSize = length (rf_registers f) - rf_staticRegs f
        in rf_staticRegs f + ((logical - rf_staticRegs f + unat rotationBase) mod 2 ^ 64) mod rotatingSize)"

definition rf_Read :: "register_file \<Rightarrow> nat \<Rightarrow> u64 \<Rightarrow> cpp_error + u64" where
  "rf_Read f logicalIndex rotationBase =
     (if logicalIndex \<ge> length (rf_registers f) then Inl OutOfRange
      else arr_get (rf_registers f) (MapToPhysical f logicalIndex rotationBase))"

definition rf_Write :: "nat \<Rightarrow> u64 \<Rightarrow> u64 \<Rightarrow> register_file \<Rightarrow> cpp_error + register_file" where
  "rf_Write logicalIndex value rotationBase f =
     (if logicalIndex \<ge> length (rf_registers f) then Inl OutOfRange
      else and_then (arr_set (rf_registers f) (MapToPhysical f logicalIndex rotationBase) value)
             (\<lambda>rs. Inr (f\<lparr>rf_registers := rs\<rparr>)))"

definition rf_ReadPhysical :: "register_file \<Rightarrow> nat \<Rightarrow> cpp_error + u64" where
  "rf_ReadPhysical f i = (if i \<ge> length (rf_registers f) then Inl OutOfRange else Inr (rf_registers f ! i))"

definition rf_WritePhysical :: "nat \<Rightarrow> u64 \<Rightarrow> register_file \<Rightarrow> cpp_error + register_file" where
  "rf_WritePhysical i value f =
     (if i \<ge> length (rf_registers f) then Inl OutOfRange else Inr (f\<lparr>rf_registers := (rf_registers f)[i := value]\<rparr>))"

definition rf_Reset :: "register_file \<Rightarrow> register_file" where
  "rf_Reset f = f\<lparr>rf_registers := replicate (length (rf_registers f)) 0\<rparr>"

subsection \<open>The core\<close>

record cpu_core =
  cc_state :: cpu_state
  cc_halted :: bool
  cc_currentBundle :: decoded_bundle
  cc_currentSlot :: nat
  cc_bundleValid :: bool
  cc_pendingInterrupts :: "u8 list"
  cc_pendingCallInputs :: "u64 list"
  cc_interruptVectorBase :: u64

definition empty_bundle :: decoded_bundle where
  "empty_bundle = \<lparr>bn_templateType = 0, bn_instructions = [], bn_hasStop = False, bn_stopAfterSlot = (False, False, False)\<rparr>"

definition core_reset :: cpu_core where
  "core_reset =
     \<lparr>cc_state = SetPSR 0 Reset, cc_halted = False, cc_currentBundle = empty_bundle, cc_currentSlot = 0, cc_bundleValid = False,
      cc_pendingInterrupts = [], cc_pendingCallInputs = [], cc_interruptVectorBase = 0\<rparr>"

type_synonym core_world = "cpu_core \<times> memory"
type_synonym 'a core_exec = "core_world \<Rightarrow> ((translation_error + 'a) \<times> core_world) option"

definition core_ret :: "'a \<Rightarrow> 'a core_exec" where
  "core_ret a = (\<lambda>w. Some (Inr a, w))"

definition core_bind :: "'a core_exec \<Rightarrow> ('a \<Rightarrow> 'b core_exec) \<Rightarrow> 'b core_exec" where
  "core_bind e f = (\<lambda>w. case e w of None \<Rightarrow> None
     | Some (Inl x, w') \<Rightarrow> Some (Inl x, w')
     | Some (Inr a, w') \<Rightarrow> f a w')"

definition core_update :: "(cpu_core \<Rightarrow> cpu_core) \<Rightarrow> unit core_exec" where
  "core_update f = (\<lambda>(c, m). Some (Inr (), f c, m))"

text \<open>A step of the processor state and the memory, on the state held by the core.\<close>

definition on_state :: "'a exec \<Rightarrow> 'a core_exec" where
  "on_state e = (\<lambda>(c, m). case e (cc_state c, m) of None \<Rightarrow> None | Some (r, s, m') \<Rightarrow> Some (r, c\<lparr>cc_state := s\<rparr>, m'))"

subsection \<open>Interrupts\<close>

definition core_areInterruptsEnabled :: "cpu_core \<Rightarrow> bool" where
  "core_areInterruptsEnabled c \<longleftrightarrow> cpu_psr (cc_state c) AND 1 \<noteq> 0"

definition core_setInterruptsEnabled :: "bool \<Rightarrow> cpu_core \<Rightarrow> cpu_core" where
  "core_setInterruptsEnabled enabled c =
     (let p = cpu_psr (cc_state c)
      in c\<lparr>cc_state := SetPSR (if enabled then p OR 1 else p AND NOT 1) (cc_state c)\<rparr>)"

definition core_queueInterrupt :: "u8 \<Rightarrow> cpu_core \<Rightarrow> cpu_core" where
  "core_queueInterrupt vector c = c\<lparr>cc_pendingInterrupts := cc_pendingInterrupts c @ [vector]\<rparr>"

definition core_hasPendingInterrupt :: "cpu_core \<Rightarrow> bool" where
  "core_hasPendingInterrupt c \<longleftrightarrow> cc_pendingInterrupts c \<noteq> []"

definition core_setInterruptVectorBase :: "u64 \<Rightarrow> cpu_core \<Rightarrow> cpu_core" where
  "core_setInterruptVectorBase base c = c\<lparr>cc_interruptVectorBase := base\<rparr>"

definition servicePendingInterrupt :: "bool \<Rightarrow> cpu_core \<Rightarrow> cpp_error + bool \<times> cpu_core" where
  "servicePendingInterrupt enabled c =
     (case cc_pendingInterrupts c of
        [] \<Rightarrow> Inr (False, c)
      | vector # rest \<Rightarrow>
          if \<not> enabled then Inr (False, c)
          else and_then (SetAR 0 (ucast vector) (cc_state c)) (\<lambda>s1.
               and_then (SetAR 1 (cpu_ip s1) s1) (\<lambda>s2.
               Inr (True, c\<lparr>cc_pendingInterrupts := rest, cc_state := SetIP (cc_interruptVectorBase c + ucast vector * 16) s2,
                 cc_bundleValid := False, cc_currentSlot := 0\<rparr>))))"

subsection \<open>Call outputs\<close>

text \<open>The loop that copies the outputs of the caller's frame into \<open>r32...\<close> and remembers them.\<close>

fun capture_loop :: "nat \<Rightarrow> nat \<Rightarrow> nat \<Rightarrow> cpu_core \<Rightarrow> (cpp_error + unit) \<times> cpu_core" where
  "capture_loop 0 i firstOutput c = (Inr (), c)"
| "capture_loop (Suc n) i firstOutput c =
     (if firstOutput + i \<ge> NUM_GENERAL_REGISTERS then (Inr (), c)
      else case GetGR (cc_state c) (firstOutput + i) of
        Inl e \<Rightarrow> (Inl e, c)
      | Inr value \<Rightarrow>
          let c1 = c\<lparr>cc_pendingCallInputs := cc_pendingCallInputs c @ [value]\<rparr> in
          case SetGR (32 + i) value (cc_state c1) of
            Inl e \<Rightarrow> (Inl e, c1)
          | Inr s \<Rightarrow> capture_loop n (Suc i) firstOutput (c1\<lparr>cc_state := s\<rparr>))"

definition captureCallOutputRegisters :: "unit core_exec" where
  "captureCallOutputRegisters = (\<lambda>(c, m).
     let c0 = c\<lparr>cc_pendingCallInputs := []\<rparr>; sof = GetSOF (cc_state c); sol = GetSOL (cc_state c) in
     if sof \<le> sol then Some (Inr (), c0, m)
     else case capture_loop (sof - sol) 0 (32 + sol) c0 of (r, c') \<Rightarrow> Some (lift_cpp r, c', m))"

fun apply_loop :: "u64 list \<Rightarrow> nat \<Rightarrow> cpu_state \<Rightarrow> (cpp_error + unit) \<times> cpu_state" where
  "apply_loop [] i s = (Inr (), s)"
| "apply_loop (v # vs) i s =
     (if 32 + i \<ge> NUM_GENERAL_REGISTERS then (Inr (), s)
      else case SetGR (32 + i) v s of Inl e \<Rightarrow> (Inl e, s) | Inr s' \<Rightarrow> apply_loop vs (Suc i) s')"

definition applyPendingCallInputRegisters :: "unit core_exec" where
  "applyPendingCallInputRegisters = (\<lambda>(c, m).
     if cc_pendingCallInputs c = [] then Some (Inr (), c, m)
     else case apply_loop (cc_pendingCallInputs c) 0 (cc_state c) of
       (Inl e, s) \<Rightarrow> Some (lift_cpp (Inl e), c\<lparr>cc_state := s\<rparr>, m)
     | (Inr _, s) \<Rightarrow> Some (Inr (), c\<lparr>cc_state := s, cc_pendingCallInputs := []\<rparr>, m))"

subsection \<open>One instruction\<close>

definition normalizeBranchEntryIP :: "u64 \<Rightarrow> u64" where
  "normalizeBranchEntryIP target = target AND NOT 0xF"

definition is_modulo_branch :: "instruction \<Rightarrow> bool" where
  "is_modulo_branch i \<longleftrightarrow> in_type i = Branch BR_CTOP \<or> in_type i = Branch BR_CEXIT"

text \<open>A backward \<open>br.call\<close> to \<open>b5\<close> of at most 256 bytes is taken for a counted loop.\<close>

definition callLooksLikeCountedLoop :: "u64 \<Rightarrow> instruction \<Rightarrow> bool" where
  "callLooksLikeCountedLoop currentIP i \<longleftrightarrow>
     in_type i = Branch BR_CALL \<and> in_dst i = 5 \<and> in_hasBranchTarget i \<and> in_branchTarget i \<le> currentIP \<and>
     currentIP - in_branchTarget i \<le> 0x100"

definition branch_or_register :: "instruction \<Rightarrow> u64 core_exec" where
  "branch_or_register i =
     (if in_hasBranchTarget i then core_ret (in_branchTarget i)
      else on_state (from_cpu (\<lambda>s. GetBR s (unat (in_src1 i)))))"

text \<open>The branch decision, made before the instruction executes; \<open>br.ctop\<close> and \<open>br.cexit\<close> execute here.\<close>

definition modulo_decision :: "instruction \<Rightarrow> (cpu_state \<Rightarrow> cpp_error + modulo_loop_result \<times> cpu_state) \<Rightarrow> u64 option core_exec" where
  "modulo_decision i run = (\<lambda>(c, m).
     case run (cc_state c) of
       Inl e \<Rightarrow> Some (lift_cpp (Inl e), c, m)
     | Inr (result, s) \<Rightarrow>
         Some (Inr (if branchTaken result \<and> in_hasBranchTarget i then Some (in_branchTarget i) else None), c\<lparr>cc_state := s\<rparr>, m))"

definition branch_decision :: "u64 \<Rightarrow> instruction \<Rightarrow> bool \<Rightarrow> u64 option core_exec" where
  "branch_decision currentIP i predicateTrue =
     (case in_type i of
        Branch BR_COND \<Rightarrow>
          if predicateTrue then core_bind (branch_or_register i) (\<lambda>t. core_ret (Some t)) else core_ret None
      | Branch BR_CALL \<Rightarrow>
          if callLooksLikeCountedLoop currentIP i
          then if predicateTrue
               then core_bind (on_state (ar 65)) (\<lambda>lc. core_ret (if lc \<noteq> 0 then Some (in_branchTarget i) else None))
               else core_ret None
          else if predicateTrue
          then core_bind (branch_or_register i) (\<lambda>t. core_bind captureCallOutputRegisters (\<lambda>_. core_ret (Some t)))
          else core_ret None
      | Branch BR_RET \<Rightarrow>
          if predicateTrue
          then core_bind (on_state (from_cpu (\<lambda>s. GetBR s (unat (in_src1 i))))) (\<lambda>t. core_ret (Some t))
          else core_ret None
      | Branch BR_CLOOP \<Rightarrow>
          if predicateTrue \<and> in_hasBranchTarget i
          then core_bind (on_state (ar 65)) (\<lambda>lc. core_ret (if lc \<noteq> 0 then Some (in_branchTarget i) else None))
          else core_ret None
      | Branch BR_CTOP \<Rightarrow> modulo_decision i ExecuteBrCTop
      | Branch BR_CEXIT \<Rightarrow> modulo_decision i ExecuteBrCExit
      | _ \<Rightarrow> core_ret None)"

definition perform :: "'f host_float \<Rightarrow> u64 \<Rightarrow> instruction \<Rightarrow> bool \<Rightarrow> unit core_exec" where
  "perform h currentIP i predicateTrue =
     (if is_modulo_branch i then core_ret ()
      else if callLooksLikeCountedLoop currentIP i
      then if predicateTrue
           then on_state (bind (ar 65) (\<lambda>lc. if lc \<noteq> 0 then to_cpu (SetAR 65 (lc - 1)) else ret ()))
           else core_ret ()
      else on_state (Execute h False i))"

definition take_branch :: "u64 option \<Rightarrow> unit core_exec" where
  "take_branch target =
     (case target of None \<Rightarrow> core_ret ()
      | Some t \<Rightarrow> core_update (\<lambda>c. c\<lparr>cc_state := SetIP (normalizeBranchEntryIP t) (cc_state c), cc_bundleValid := False,
          cc_currentSlot := 0\<rparr>))"

text \<open>\<open>executeInstruction\<close> inside its \<open>try\<close> block, for an instruction that is not a system call.\<close>

definition run_instruction :: "'f host_float \<Rightarrow> instruction \<Rightarrow> unit core_exec" where
  "run_instruction h i = (\<lambda>(c, m).
     let currentIP = cpu_ip (cc_state c) in
     core_bind (if is_modulo_branch i then core_ret True else on_state (CheckPredicate (in_predicate i))) (\<lambda>predicateTrue.
     core_bind (branch_decision currentIP i predicateTrue) (\<lambda>target.
     core_bind (perform h currentIP i predicateTrue) (\<lambda>_.
     core_bind (if in_type i = ALLOC \<and> predicateTrue then applyPendingCallInputRegisters else core_ret ()) (\<lambda>_.
     take_branch target)))) (c, m))"

definition is_syscall :: "instruction \<Rightarrow> bool" where
  "is_syscall i \<longleftrightarrow> in_type i = BREAK \<and> in_hasImmediate i \<and> in_immediate i = 0x100000"

text \<open>
  The system-call dispatcher is a function of its own state, the processor and the memory; \<open>None\<close> is the null pointer.
  Every exception that reaches \<open>executeInstruction\<close> is caught there; undefined behaviour is not an exception and
  is the error result.
\<close>

type_synonym 'd dispatcher =
  "('d \<Rightarrow> cpu_state \<Rightarrow> memory \<Rightarrow> (translation_error + bool) \<times> 'd \<times> cpu_state \<times> memory) option"
type_synonym 'd system = "cpu_core \<times> 'd \<times> memory"

definition caught :: "translation_error + 'a \<Rightarrow> 'w \<Rightarrow> cpp_error + 'w" where
  "caught r w = (case r of Inl (Other (Std UndefinedBehaviour)) \<Rightarrow> Inl UndefinedBehaviour | _ \<Rightarrow> Inr w)"

definition executeInstruction :: "'f host_float \<Rightarrow> 'd dispatcher \<Rightarrow> instruction \<Rightarrow> 'd system \<Rightarrow> (cpp_error + 'd system) option" where
  "executeInstruction h dispatcher i = (\<lambda>(c, d, m).
     if is_syscall i
     then case dispatcher of
         None \<Rightarrow> Some (Inr (c, d, m))
       | Some f \<Rightarrow> case f d (cc_state c) m of (r, d', s, m') \<Rightarrow> Some (caught r (c\<lparr>cc_state := s\<rparr>, d', m'))
     else case run_instruction h i (c, m) of
         None \<Rightarrow> None
       | Some (r, c', m') \<Rightarrow> Some (caught r (c', d, m')))"

subsection \<open>Fetch and step\<close>

definition fetchBundle :: "core_world \<Rightarrow> core_world" where
  "fetchBundle = (\<lambda>(c, m).
     let ip = cpu_ip (cc_state c) in
     case mem_Read m ip (replicate 16 0) of
       (Inl e, m') \<Rightarrow> (c\<lparr>cc_bundleValid := False\<rparr>, m')
     | (Inr bundleData, m') \<Rightarrow> (c\<lparr>cc_currentBundle := DecodeBundleAt bundleData ip, cc_bundleValid := True\<rparr>, m'))"

definition next_bundle :: "cpu_core \<Rightarrow> cpu_core" where
  "next_bundle c =
     (let c1 = c\<lparr>cc_currentSlot := cc_currentSlot c + 1\<rparr> in
      if cc_currentSlot c1 \<ge> length (bn_instructions (cc_currentBundle c1))
      then c1\<lparr>cc_state := SetIP (cpu_ip (cc_state c1) + 16) (cc_state c1), cc_bundleValid := False\<rparr>
      else c1)"

definition step_slot :: "'f host_float \<Rightarrow> 'd dispatcher \<Rightarrow> 'd system \<Rightarrow> (cpp_error + bool \<times> 'd system) option" where
  "step_slot h dispatcher = (\<lambda>(c, d, m).
     if bn_instructions (cc_currentBundle c) = [] then Some (Inr (False, c, d, m))
     else if cc_currentSlot c \<ge> length (bn_instructions (cc_currentBundle c)) then Some (Inl UndefinedBehaviour)
     else
       let i = bn_instructions (cc_currentBundle c) ! cc_currentSlot c in
       if in_type i = UNKNOWN
       then let slot = cc_currentSlot c + 1
            in Some (Inr (True,
                 (if slot \<ge> length (bn_instructions (cc_currentBundle c))
                  then c\<lparr>cc_state := SetIP (cpu_ip (cc_state c) + 16) (cc_state c), cc_bundleValid := False, cc_currentSlot := 0\<rparr>
                  else c\<lparr>cc_currentSlot := slot\<rparr>), d, m))
       else case executeInstruction h dispatcher i (c, d, m) of
           None \<Rightarrow> None
         | Some (Inl e) \<Rightarrow> Some (Inl e)
         | Some (Inr (c1, d1, m1)) \<Rightarrow>
             let c2 = c1\<lparr>cc_state := AdvanceITC 1 (cc_state c1)\<rparr>
             in Some (Inr (True, (if cc_bundleValid c2 then next_bundle c2 else c2), d1, m1)))"

definition fetch_if_needed :: "core_world \<Rightarrow> core_world" where
  "fetch_if_needed = (\<lambda>(c, m).
     if \<not> cc_bundleValid c \<or> cc_currentSlot c \<ge> length (bn_instructions (cc_currentBundle c))
     then case fetchBundle (c, m) of (c', m') \<Rightarrow> (c'\<lparr>cc_currentSlot := 0\<rparr>, m')
     else (c, m))"

definition core_step :: "'f host_float \<Rightarrow> 'd dispatcher \<Rightarrow> 'd system \<Rightarrow> (cpp_error + bool \<times> 'd system) option" where
  "core_step h dispatcher = (\<lambda>(c, d, m).
     case servicePendingInterrupt (core_areInterruptsEnabled c) c of
       Inl e \<Rightarrow> Some (Inl e)
     | Inr (_, c1) \<Rightarrow> case fetch_if_needed (c1, m) of (c2, m2) \<Rightarrow> step_slot h dispatcher (c2, d, m2))"

subsection \<open>The remaining operations\<close>

definition isAtBundleBoundary :: "cpu_core \<Rightarrow> bool" where
  "isAtBundleBoundary c \<longleftrightarrow> \<not> cc_bundleValid c \<or> cc_currentSlot c = 0 \<or>
     cc_currentSlot c \<ge> length (bn_instructions (cc_currentBundle c))"

definition core_setIP :: "u64 \<Rightarrow> cpu_core \<Rightarrow> cpu_core" where
  "core_setIP addr c = c\<lparr>cc_state := SetIP addr (cc_state c), cc_bundleValid := False\<rparr>"

definition core_setCFM :: "u64 \<Rightarrow> cpu_core \<Rightarrow> cpu_core" where
  "core_setCFM value c = c\<lparr>cc_state := SetCFM value (cc_state c)\<rparr>"

definition core_writeGR :: "nat \<Rightarrow> u64 \<Rightarrow> cpu_core \<Rightarrow> cpp_error + cpu_core" where
  "core_writeGR i v c = and_then (SetGR i v (cc_state c)) (\<lambda>s. Inr (c\<lparr>cc_state := s\<rparr>))"

definition core_writePR :: "nat \<Rightarrow> bool \<Rightarrow> cpu_core \<Rightarrow> cpp_error + cpu_core" where
  "core_writePR i v c = and_then (SetPR i v (cc_state c)) (\<lambda>s. Inr (c\<lparr>cc_state := s\<rparr>))"

definition core_writeBR :: "nat \<Rightarrow> u64 \<Rightarrow> cpu_core \<Rightarrow> cpp_error + cpu_core" where
  "core_writeBR i v c = and_then (SetBR i v (cc_state c)) (\<lambda>s. Inr (c\<lparr>cc_state := s\<rparr>))"

text \<open>\<open>applyRegisterRotation\<close>, the core's own copy of the register mapping; the register type is a character.\<close>

definition applyRegisterRotation :: "cpu_state \<Rightarrow> nat \<Rightarrow> char \<Rightarrow> nat" where
  "applyRegisterRotation s logicalReg regType =
     (if regType = CHR ''G'' then
        if logicalReg < 32 then logicalReg
        else let rotatingSize = GetSOR s * 8 in
             if rotatingSize = 0 \<or> logicalReg \<ge> 32 + rotatingSize then logicalReg
             else 32 + (logicalReg - 32 + GetRRB_GR s) mod rotatingSize
      else if regType = CHR ''F'' then
        if logicalReg < 32 then logicalReg else 32 + (logicalReg - 32 + GetRRB_FR s) mod 96
      else if regType = CHR ''P'' then
        if logicalReg < 16 then logicalReg else 16 + (logicalReg - 16 + GetRRB_PR s) mod 48
      else logicalReg)"

record cpu_snapshot =
  sn_architecturalState :: cpu_state
  sn_currentBundle :: decoded_bundle
  sn_currentSlot :: nat
  sn_bundleValid :: bool
  sn_pendingInterrupts :: "u8 list"
  sn_interruptVectorBase :: u64
  sn_halted :: bool
  sn_pendingCallInputs :: "u64 list"

definition core_createSnapshot :: "cpu_core \<Rightarrow> cpu_snapshot" where
  "core_createSnapshot c =
     \<lparr>sn_architecturalState = cc_state c, sn_currentBundle = cc_currentBundle c, sn_currentSlot = cc_currentSlot c,
      sn_bundleValid = cc_bundleValid c, sn_pendingInterrupts = cc_pendingInterrupts c,
      sn_interruptVectorBase = cc_interruptVectorBase c, sn_halted = cc_halted c, sn_pendingCallInputs = cc_pendingCallInputs c\<rparr>"

definition core_restoreSnapshot :: "cpu_snapshot \<Rightarrow> cpu_core \<Rightarrow> cpu_core" where
  "core_restoreSnapshot sn c =
     c\<lparr>cc_state := sn_architecturalState sn, cc_currentBundle := sn_currentBundle sn, cc_currentSlot := sn_currentSlot sn,
       cc_bundleValid := sn_bundleValid sn, cc_pendingInterrupts := sn_pendingInterrupts sn,
       cc_interruptVectorBase := sn_interruptVectorBase sn, cc_halted := sn_halted sn, cc_pendingCallInputs := sn_pendingCallInputs sn\<rparr>"

subsection \<open>The core over an instruction-set plugin\<close>

datatype isa_result = ISA_CONTINUE | ISA_HALT | ISA_EXCEPTION | ISA_INTERRUPT | ISA_SYSCALL | ISA_BREAKPOINT

text \<open>
  With a plugin, a step is the plugin's step on its own state: \<open>isaStep\<close> and \<open>advanceITC\<close> are the interface's
  operations, \<open>enabled\<close> is the answer of \<open>areInterruptsEnabled\<close>.
\<close>

definition step_plugin :: "('p \<Rightarrow> memory \<Rightarrow> isa_result \<times> 'p \<times> memory) \<Rightarrow> ('p \<Rightarrow> 'p) \<Rightarrow> bool \<Rightarrow>
    cpu_core \<times> 'p \<times> memory \<Rightarrow> cpp_error + bool \<times> cpu_core \<times> 'p \<times> memory" where
  "step_plugin isaStep advanceITC enabled = (\<lambda>(c, p, m).
     if cc_halted c then Inr (False, c, p, m)
     else and_then (servicePendingInterrupt enabled c) (\<lambda>(_, c1).
       case isaStep p m of (r, p1, m1) \<Rightarrow>
         Inr (case r of
             ISA_HALT \<Rightarrow> (False, c1\<lparr>cc_halted := True\<rparr>, p1, m1)
           | ISA_EXCEPTION \<Rightarrow> (False, c1, p1, m1)
           | ISA_BREAKPOINT \<Rightarrow> (False, c1, p1, m1)
           | _ \<Rightarrow> (True, c1, advanceITC p1, m1))))"

definition reset_plugin :: "cpu_core \<Rightarrow> cpu_core" where
  "reset_plugin c =
     c\<lparr>cc_halted := False, cc_currentSlot := 0, cc_bundleValid := False, cc_currentBundle := empty_bundle,
       cc_pendingInterrupts := [], cc_pendingCallInputs := [], cc_interruptVectorBase := 0\<rparr>"

end
