(* ===== verification/Cpu_Core_Props.thy ===== *)
theory Cpu_Core_Props
  imports Cpu_Core Execute_Memory Decoder_Props
begin

text \<open>
  The core: every step on a sound machine returns, keeps the invariant and never indexes outside the bundle; a
  bundle of plain instructions runs slot by slot; what failed fetches, \<open>rfi\<close>, interrupts and calls do to the state.
\<close>

subsection \<open>Every step is safe\<close>

text \<open>A step keeps the bundle, and keeps the slot unless it invalidates the bundle.\<close>

definition core_rel :: "cpu_core \<Rightarrow> cpu_core \<Rightarrow> bool" where
  "core_rel c c' \<longleftrightarrow> cc_currentBundle c' = cc_currentBundle c \<and>
     (cc_bundleValid c' \<longrightarrow> cc_bundleValid c \<and> cc_currentSlot c' = cc_currentSlot c)"

definition core_steps :: "'a core_exec \<Rightarrow> bool" where
  "core_steps e \<longleftrightarrow> (\<forall>c m. machine_ok (cc_state c, m) \<longrightarrow>
     (\<exists>r c' m'. e (c, m) = Some (r, c', m') \<and> machine_ok (cc_state c', m') \<and> r \<noteq> Inl ub \<and> core_rel c c'))"

lemma core_stepsI:
  "(\<And>c m. machine_ok (cc_state c, m) \<Longrightarrow>
     \<exists>r c' m'. e (c, m) = Some (r, c', m') \<and> machine_ok (cc_state c', m') \<and> r \<noteq> Inl ub \<and> core_rel c c') \<Longrightarrow> core_steps e"
  by (simp add: core_steps_def)

lemma core_rel_refl [simp]: "core_rel c c"
  by (simp add: core_rel_def)

lemma core_rel_trans: "core_rel a b \<Longrightarrow> core_rel b c \<Longrightarrow> core_rel a c"
  by (auto simp: core_rel_def)

lemma core_rel_state [simp]: "core_rel c (c\<lparr>cc_state := s\<rparr>)" "core_rel c (c\<lparr>cc_pendingCallInputs := vs\<rparr>)"
  "core_rel c (c\<lparr>cc_state := s, cc_pendingCallInputs := vs\<rparr>)"
  by (simp_all add: core_rel_def)

lemma core_steps_ret: "core_steps (core_ret a)"
  by (simp add: core_steps_def core_ret_def)

lemma core_steps_bind:
  assumes "core_steps e" "\<And>a. core_steps (f a)"
  shows "core_steps (core_bind e f)"
proof (rule core_stepsI)
  fix c :: cpu_core and m
  assume "machine_ok (cc_state c, m)"
  then obtain r c1 m1 where e: "e (c, m) = Some (r, c1, m1)" "machine_ok (cc_state c1, m1)" "r \<noteq> Inl ub" "core_rel c c1"
    using assms(1) unfolding core_steps_def by blast
  show "\<exists>r c' m'. core_bind e f (c, m) = Some (r, c', m') \<and> machine_ok (cc_state c', m') \<and> r \<noteq> Inl ub \<and> core_rel c c'"
  proof (cases r)
    case (Inl x)
    with e show ?thesis by (auto simp: core_bind_def)
  next
    case (Inr a)
    obtain r2 c2 m2 where "f a (c1, m1) = Some (r2, c2, m2)" "machine_ok (cc_state c2, m2)" "r2 \<noteq> Inl ub" "core_rel c1 c2"
      using assms(2) [of a] e(2) unfolding core_steps_def by blast
    with e Inr show ?thesis by (auto simp: core_bind_def intro: core_rel_trans)
  qed
qed

lemma core_steps_on_state:
  assumes "steps machine_ok e Q"
  shows "core_steps (on_state e)"
proof (rule core_stepsI)
  fix c :: cpu_core and m
  assume "machine_ok (cc_state c, m)"
  from stepsD [OF assms this] obtain r s m' where "e (cc_state c, m) = Some (r, s, m')" "machine_ok (s, m')" "r \<noteq> Inl ub"
    by auto
  then show "\<exists>r c' m'. on_state e (c, m) = Some (r, c', m') \<and> machine_ok (cc_state c', m') \<and> r \<noteq> Inl ub \<and> core_rel c c'"
    by (simp add: on_state_def)
qed

lemma core_steps_take_branch: "core_steps (take_branch t)"
proof (rule core_stepsI)
  fix c :: cpu_core and m
  assume ok: "machine_ok (cc_state c, m)"
  show "\<exists>r c' m'. take_branch t (c, m) = Some (r, c', m') \<and> machine_ok (cc_state c', m') \<and> r \<noteq> Inl ub \<and> core_rel c c'"
  proof (cases t)
    case (Some a)
    have "machine_ok (SetIP v (cc_state c), m)" for v
      using guest_ok_exec [of "cc_state c" "OpSetIP v"] ok by (simp add: machine_ok_def)
    then show ?thesis by (simp add: Some take_branch_def core_update_def core_rel_def)
  qed (use ok in \<open>simp add: take_branch_def core_ret_def\<close>)
qed

lemma lift_cpp_ub: "lift_cpp r = Inl ub \<longleftrightarrow> r = Inl UndefinedBehaviour"
  by (cases r) simp_all

lemma state_no_ub:
  assumes "machine_ok (s, m)"
  shows "GetGR s i \<noteq> Inl UndefinedBehaviour" "SetGR i v s \<noteq> Inl UndefinedBehaviour"
    "SetGR i v s = Inr s' \<Longrightarrow> machine_ok (s', m)"
    "SetAR i v s \<noteq> Inl UndefinedBehaviour" "SetAR i v s = Inr s' \<Longrightarrow> machine_ok (s', m)"
  using guest.reads_ok [OF assms, of i] guest.op_ok [OF assms, of "OpSetGR i v"] guest.op_keeps [OF assms, of "OpSetGR i v" s']
    guest.op_ok [OF assms, of "OpSetAR i v"] guest.op_keeps [OF assms, of "OpSetAR i v" s']
  by simp_all

lemma capture_loop_ok:
  assumes "machine_ok (cc_state c, m)" "capture_loop n i f c = (r, c')"
  shows "machine_ok (cc_state c', m) \<and> r \<noteq> Inl UndefinedBehaviour \<and> core_rel c c'"
  using assms
proof (induction n i f c rule: capture_loop.induct)
  case (2 n i f c)
  show ?case
  proof (cases "f + i \<ge> NUM_GENERAL_REGISTERS")
    case False
    obtain x where g: "GetGR (cc_state c) (f + i) = x" by blast
    note u = state_no_ub [OF 2(2)]
    show ?thesis
    proof (cases x)
      case (Inl e)
      with 2(2,3) False g u(1) show ?thesis by auto
    next
      case (Inr v)
      let ?c1 = "c\<lparr>cc_pendingCallInputs := cc_pendingCallInputs c @ [v]\<rparr>"
      show ?thesis
      proof (cases "SetGR (32 + i) v (cc_state c)")
        case (Inl e)
        with 2(2,3) False g Inr u(2) [of "32 + i" v] show ?thesis by (auto simp: Let_def)
      next
        case s: (Inr s)
        let ?c2 = "?c1\<lparr>cc_state := s\<rparr>"
        have "machine_ok (cc_state ?c2, m)" using u(3) [OF s] by simp
        moreover have "capture_loop n (Suc i) f ?c2 = (r, c')" using 2(3) False g Inr s by (simp add: Let_def)
        ultimately have "machine_ok (cc_state c', m) \<and> r \<noteq> Inl UndefinedBehaviour \<and> core_rel ?c2 c'"
          using 2(1) [OF False _ refl, of v s] g Inr s by simp
        moreover have "core_rel c ?c2" by (simp add: core_rel_def)
        ultimately show ?thesis by (blast intro: core_rel_trans)
      qed
    qed
  qed (use 2 in auto)
qed auto


lemma core_steps_capture: "core_steps captureCallOutputRegisters"
proof (rule core_stepsI)
  fix c :: cpu_core and m
  assume ok: "machine_ok (cc_state c, m)"
  let ?c0 = "c\<lparr>cc_pendingCallInputs := []\<rparr>"
  let ?l = "capture_loop (GetSOF (cc_state c) - GetSOL (cc_state c)) 0 (32 + GetSOL (cc_state c)) ?c0"
  obtain r c' where l: "?l = (r, c')" by fastforce
  have "machine_ok (cc_state c', m) \<and> r \<noteq> Inl UndefinedBehaviour \<and> core_rel ?c0 c'"
    using capture_loop_ok [OF _ l] ok by simp
  moreover have "core_rel c ?c0" by simp
  ultimately show "\<exists>r c' m'. captureCallOutputRegisters (c, m) = Some (r, c', m') \<and> machine_ok (cc_state c', m') \<and> r \<noteq> Inl ub \<and>
      core_rel c c'"
    using ok l by (auto simp: captureCallOutputRegisters_def Let_def lift_cpp_ub core_rel_def)
qed

lemma apply_loop_ok:
  assumes "machine_ok (s, m)" "apply_loop vs i s = (r, s')"
  shows "machine_ok (s', m) \<and> r \<noteq> Inl UndefinedBehaviour"
  using assms
proof (induction vs i s rule: apply_loop.induct)
  case (2 v vs i s)
  note u = state_no_ub [OF 2(2)]
  show ?case
  proof (cases "SetGR (32 + i) v s")
    case (Inl e)
    with 2 u(2) [of "32 + i" v] show ?thesis by (auto split: if_splits)
  next
    case (Inr s1)
    with 2 u(3) [OF Inr] show ?thesis by (auto split: if_splits)
  qed
qed auto

lemma core_steps_apply: "core_steps applyPendingCallInputRegisters"
proof (rule core_stepsI)
  fix c :: cpu_core and m
  assume ok: "machine_ok (cc_state c, m)"
  obtain r s' where l: "apply_loop (cc_pendingCallInputs c) 0 (cc_state c) = (r, s')" by fastforce
  note a = apply_loop_ok [OF ok l]
  show "\<exists>r c' m'. applyPendingCallInputRegisters (c, m) = Some (r, c', m') \<and> machine_ok (cc_state c', m') \<and> r \<noteq> Inl ub \<and>
      core_rel c c'"
    using ok l a by (cases r) (auto simp: applyPendingCallInputRegisters_def)
qed

lemma core_steps_modulo:
  assumes "op \<in> {OpBrCTop, OpBrCExit}" "run = (if op = OpBrCTop then ExecuteBrCTop else ExecuteBrCExit)"
  shows "core_steps (modulo_decision i run)"
proof (rule core_stepsI)
  fix c :: cpu_core and m
  assume ok: "machine_ok (cc_state c, m)"
  have l: "op_legal op" using assms(1) by auto
  have e: "cpu_exec op s = and_then (run s) (\<lambda>(r, s'). Inr s')" for s using assms by auto
  note k = guest.op_ok [OF ok l, unfolded e] guest.op_keeps [OF ok l, unfolded e]
  show "\<exists>r c' m'. modulo_decision i run (c, m) = Some (r, c', m') \<and> machine_ok (cc_state c', m') \<and> r \<noteq> Inl ub \<and> core_rel c c'"
  proof (cases "run (cc_state c)")
    case (Inl x)
    with k ok show ?thesis by (auto simp: modulo_decision_def)
  next
    case (Inr p)
    then show ?thesis using k by (cases p) (simp add: modulo_decision_def)
  qed
qed

lemma core_steps_loops: "core_steps (modulo_decision i ExecuteBrCTop)" "core_steps (modulo_decision i ExecuteBrCExit)"
  by (rule core_steps_modulo [of OpBrCTop] core_steps_modulo [of OpBrCExit]; simp)+

lemma core_steps_if: "core_steps e \<Longrightarrow> core_steps e' \<Longrightarrow> core_steps (if b then e else e')"
  by simp

lemma core_steps_decision: "core_steps (branch_decision ip i p)"
proof -
  have br: "core_steps (on_state (from_cpu (\<lambda>s. GetBR s j)))" and ar: "core_steps (on_state (from_cpu (\<lambda>s. GetAR s j)))" for j
    by (rule core_steps_on_state, rule guest.steps_gets)+
  note rs = core_steps_if core_steps_bind core_steps_ret core_steps_capture br ar
  show ?thesis
    unfolding branch_decision_def branch_or_register_def
    by (auto intro!: rs core_steps_loops split: instruction_type.split branch_type.split)
qed


lemma core_steps_perform: "legal_instruction i \<Longrightarrow> core_steps (perform h ip i p)"
  unfolding perform_def
  by (intro core_steps_if core_steps_ret core_steps_on_state [OF guest.Execute_steps] core_steps_on_state [where Q = "\<lambda>_. True"]
      guest.steps_auto guest.steps_rules TrueI steps_if steps_bind steps_ret guest.steps_gets)

lemma run_instruction_ok:
  assumes "legal_instruction i" "machine_ok (cc_state c, m)"
  shows "\<exists>r c' m'. run_instruction h i (c, m) = Some (r, c', m') \<and> machine_ok (cc_state c', m') \<and> r \<noteq> Inl ub \<and> core_rel c c'"
proof -
  have "steps machine_ok (CheckPredicate q) (\<lambda>_. True)" for q
    unfolding CheckPredicate_def by (intro steps_if steps_ret guest.steps_gets TrueI)
  then have q: "core_steps (on_state (CheckPredicate q))" for q
    by (rule core_steps_on_state)
  have "core_steps (core_bind (if is_modulo_branch i then core_ret True else on_state (CheckPredicate (in_predicate i))) (\<lambda>p.
     core_bind (branch_decision ip i p) (\<lambda>target.
     core_bind (perform h ip i p) (\<lambda>_.
     core_bind (if in_type i = ALLOC \<and> p then applyPendingCallInputRegisters else core_ret ()) (\<lambda>_.
     take_branch target)))))" for ip
    by (intro core_steps_bind core_steps_if core_steps_ret q core_steps_decision core_steps_perform [OF assms(1)] core_steps_apply
        core_steps_take_branch)
  then show ?thesis
    using assms(2) unfolding core_steps_def run_instruction_def by (simp add: Let_def)
qed


text \<open>What is assumed of a dispatcher: it keeps the machine sound.\<close>

definition dispatcher_ok :: "'d dispatcher \<Rightarrow> bool" where
  "dispatcher_ok dispatcher \<longleftrightarrow> (\<forall>f d s m. dispatcher = Some f \<longrightarrow> machine_ok (s, m) \<longrightarrow>
     (case f d s m of (r, d', s', m') \<Rightarrow> r \<noteq> Inl ub \<and> machine_ok (s', m')))"

definition slot_ok :: "cpu_core \<Rightarrow> bool" where
  "slot_ok c \<longleftrightarrow> (cc_bundleValid c \<longrightarrow> cc_currentSlot c < length (bn_instructions (cc_currentBundle c)))"

text \<open>The core and memory when the instruction of a step is about to execute.\<close>

definition ready :: "cpu_core \<Rightarrow> memory \<Rightarrow> core_world option" where
  "ready c m = (case servicePendingInterrupt (core_areInterruptsEnabled c) c of
     Inl e \<Rightarrow> None | Inr (_, c1) \<Rightarrow> Some (fetch_if_needed (c1, m)))"

definition next_legal :: "cpu_core \<Rightarrow> memory \<Rightarrow> bool" where
  "next_legal c m \<longleftrightarrow> (case ready c m of None \<Rightarrow> True | Some (c', m') \<Rightarrow>
     bn_instructions (cc_currentBundle c') \<noteq> [] \<longrightarrow> legal_instruction (bn_instructions (cc_currentBundle c') ! cc_currentSlot c'))"

lemma caught_ok: "r \<noteq> Inl ub \<Longrightarrow> caught r w = Inr w"
  by (auto simp: caught_def split: sum.splits translation_error.splits mem_error.splits cpp_error.splits)

lemma service_ok:
  assumes "machine_ok (cc_state c, m)" "slot_ok c"
  shows "\<exists>b c1. servicePendingInterrupt enabled c = Inr (b, c1) \<and> machine_ok (cc_state c1, m) \<and> slot_ok c1"
proof (cases "cc_pendingInterrupts c")
  case Nil
  with assms show ?thesis by (auto simp: servicePendingInterrupt_def intro: exI [of _ False])
next
  case (Cons v vs)
  have in_range: "\<exists>s'. SetAR i x s = Inr s' \<and> machine_ok (s', m)" if "machine_ok (s, m)" "i < 128" for s i x
  proof -
    have "SetAR i x s \<noteq> Inl UndefinedBehaviour" using state_no_ub(4) [OF that(1)] .
    then show ?thesis
      using that state_no_ub(5) [OF that(1), of i x] by (cases "SetAR i x s") (auto simp: SetAR_def arr_set_def Let_def split: if_splits)
  qed
  obtain s1 where 1: "SetAR 0 (ucast v) (cc_state c) = Inr s1" "machine_ok (s1, m)" using in_range [OF assms(1), of 0] by auto
  obtain s2 where 2: "SetAR 1 (cpu_ip s1) s1 = Inr s2" "machine_ok (s2, m)" using in_range [OF 1(2), of 1] by auto
  have "machine_ok (SetIP a s2, m)" for a
    using guest.op_keeps [OF 2(2), of "OpSetIP a"] by simp
  then show ?thesis
    using assms Cons 1(1) 2(1) by (cases enabled) (auto simp: servicePendingInterrupt_def slot_ok_def intro: exI [of _ False] exI [of _ True])
qed

lemma DecodeBundleAt_nonempty: "bn_instructions (DecodeBundleAt b ip) \<noteq> []"
  by (auto simp: DecodeBundleAt_def Let_def GetUnitsForTemplate_def split: option.splits)

lemma fetch_ok:
  assumes "machine_ok (cc_state c, m)" "slot_ok c" "fetch_if_needed (c, m) = (c', m')"
  shows "machine_ok (cc_state c', m') \<and> (bn_instructions (cc_currentBundle c') \<noteq> [] \<longrightarrow>
    cc_currentSlot c' < length (bn_instructions (cc_currentBundle c')))"
  using assms
  by (auto simp: fetch_if_needed_def fetchBundle_def Let_def machine_ok_def devices_sound_def slot_ok_def DecodeBundleAt_nonempty
      dest: mem_Read_keeps split: if_splits prod.splits sum.splits)

lemma execute_ok:
  assumes "legal_instruction i" "machine_ok (cc_state c, m)" "dispatcher_ok dispatcher"
  shows "\<exists>c' d' m'. executeInstruction h dispatcher i (c, d, m) = Some (Inr (c', d', m')) \<and> machine_ok (cc_state c', m') \<and> core_rel c c'"
proof (cases "is_syscall i")
  case True
  show ?thesis
  proof (cases dispatcher)
    case None
    with True assms(2) show ?thesis by (simp add: executeInstruction_def)
  next
    case (Some f)
    obtain r d' s' m' where f: "f d (cc_state c) m = (r, d', s', m')" by (metis prod_cases4)
    with assms(2,3) Some have "r \<noteq> Inl ub" "machine_ok (s', m')" by (auto simp: dispatcher_ok_def split: prod.splits)
    with True Some f show ?thesis by (simp add: executeInstruction_def caught_ok)
  qed
next
  case False
  with run_instruction_ok [OF assms(1,2), of h] show ?thesis by (auto simp: executeInstruction_def caught_ok)
qed

lemma next_bundle_ok:
  assumes "machine_ok (cc_state c, m)"
  shows "machine_ok (cc_state (next_bundle c), m) \<and> slot_ok (next_bundle c)"
  using assms guest.op_keeps [OF assms, of "OpSetIP (cpu_ip (cc_state c) + 16)"]
  by (simp add: next_bundle_def Let_def slot_ok_def)

text \<open>C4: a step of the core on a sound machine (registers in shape, the current frame's rotating region within the register
  file, devices that answer with the length asked for) with its slot in range always returns, indexes its bundle in range
  and leaves the machine sound and the slot in range, provided the instruction about to execute is legal (it is not
  \<open>thash\<close> and no \<open>alloc\<close> whose rotating region exceeds 96 registers) and the system-call dispatcher, if there is one,
  keeps the machine sound.\<close>

theorem core_step_safe:
  assumes "machine_ok (cc_state c, m)" "dispatcher_ok dispatcher" "slot_ok c" "next_legal c m"
  shows "\<exists>b c' d' m'. core_step h dispatcher (c, d, m) = Some (Inr (b, c', d', m')) \<and> machine_ok (cc_state c', m') \<and> slot_ok c'"
proof -
  obtain b1 c1 where s: "servicePendingInterrupt (core_areInterruptsEnabled c) c = Inr (b1, c1)"
      "machine_ok (cc_state c1, m)" "slot_ok c1"
    using service_ok [OF assms(1,3)] by blast
  obtain c2 m2 where f: "fetch_if_needed (c1, m) = (c2, m2)" by fastforce
  note ok2 = fetch_ok [OF s(2,3) f]
  have step: "core_step h dispatcher (c, d, m) = step_slot h dispatcher (c2, d, m2)"
    by (simp add: core_step_def s(1) f)
  let ?is = "bn_instructions (cc_currentBundle c2)" and ?i = "bn_instructions (cc_currentBundle c2) ! cc_currentSlot c2"
  show ?thesis
  proof (cases "?is = []")
    case True
    then have "slot_ok c2"
      using s(3) f by (auto simp: fetch_if_needed_def fetchBundle_def slot_ok_def Let_def DecodeBundleAt_nonempty split: if_splits prod.splits sum.splits)
    with True ok2 show ?thesis by (auto simp: step step_slot_def intro: exI [of _ False])
  next
    case False
    then have "legal_instruction ?i" using assms(4) by (simp add: next_legal_def ready_def s(1) f)
    with ok2 obtain c3 d3 m3 where e: "executeInstruction h dispatcher ?i (c2, d, m2) = Some (Inr (c3, d3, m3))"
        "machine_ok (cc_state c3, m3)"
      using execute_ok [of ?i c2 m2 dispatcher h d] assms(2) by blast
    have itc: "machine_ok (AdvanceITC 1 (cc_state c3), m3)" using guest.op_keeps [OF e(2), of "OpAdvanceITC 1"] by simp
    have ip: "machine_ok (SetIP v (cc_state c2), m2)" for v using guest.op_keeps [of "cc_state c2" m2 "OpSetIP v"] ok2 by simp
    show ?thesis
    proof (cases "in_type ?i = UNKNOWN")
      case True
      with False ok2 ip show ?thesis by (auto simp: step step_slot_def Let_def slot_ok_def)
    next
      case known: False
      let ?c4 = "c3\<lparr>cc_state := AdvanceITC 1 (cc_state c3)\<rparr>"
      have "machine_ok (cc_state ?c4, m3)" using itc by simp
      note next_bundle_ok [OF this]
      with False known ok2 e itc show ?thesis
        by (auto simp: step step_slot_def Let_def slot_ok_def)
    qed
  qed
qed


subsection \<open>Running a bundle\<close>

lemma plain_mem_Read:
  assumes "\<not> mmu_enabled (mem_mmu m)" "mem_devices m = []" "unat a + n \<le> length (mem_data m)" "0 < n" "n < 2 ^ 64"
    "length (mem_data m) \<le> 2 ^ 61"
  shows "mem_Read m a (replicate n 0) = (Inr (read_bytes (mem_data m) (unat a) n), m)"
proof -
  have "checkBounds m a n = Inr ()" using assms by (simp add: checkBounds_iff)
  then show ?thesis using assms by (simp add: mem_Read_def mmuRead_def Let_def)
qed

text \<open>Instructions without a part of their own in the core.\<close>

definition plain :: "instruction \<Rightarrow> bool" where
  "plain i \<longleftrightarrow> (\<forall>t. in_type i \<noteq> Branch t) \<and> in_type i \<noteq> ALLOC \<and> in_type i \<noteq> UNKNOWN \<and> \<not> is_syscall i \<and> unat (in_predicate i) < 64"

lemma predicate_readable: "machine_ok (s, m) \<Longrightarrow> unat q < 64 \<Longrightarrow> \<exists>b. CheckPredicate q (s, m) = Some (Inr b, s, m)"
proof -
  assume ok: "machine_ok (s, m)" and q: "unat q < 64"
  have "GetPR s (unat q) \<noteq> Inl UndefinedBehaviour" using guest.reads_ok [OF ok] by blast
  then obtain b where "GetPR s (unat q) = Inr b"
    using q by (cases "GetPR s (unat q)") (auto simp: GetPR_def arr_get_def split: if_splits)
  then show ?thesis by (auto simp: CheckPredicate_def from_cpu_def)
qed

lemma plain_execute:
  assumes "plain i" "machine_ok (cc_state c, m)" "Execute h False i (cc_state c, m) = Some (r, s', m')" "r \<noteq> Inl ub"
  shows "executeInstruction h dispatcher i (c, d, m) = Some (Inr (c\<lparr>cc_state := s'\<rparr>, d, m'))"
proof -
  obtain b where b: "CheckPredicate (in_predicate i) (cc_state c, m) = Some (Inr b, cc_state c, m)"
    using predicate_readable [OF assms(2), of "in_predicate i"] assms(1) by (auto simp: plain_def)
  have nb: "in_type i \<noteq> Branch t" for t using assms(1) by (simp add: plain_def)
  have d: "branch_decision ip i p = core_ret None" for ip p
    using nb by (auto simp: branch_decision_def split: instruction_type.split)
  have p: "perform h ip i p = on_state (Execute h False i)" for ip p
    using nb by (simp add: perform_def is_modulo_branch_def callLooksLikeCountedLoop_def)
  have "run_instruction h i (c, m) = Some (r, c\<lparr>cc_state := s'\<rparr>, m')"
    using assms(1,3) b nb
    by (cases r) (simp_all add: run_instruction_def core_bind_def on_state_def d p core_ret_def is_modulo_branch_def plain_def take_branch_def)
  then show ?thesis
    using assms(1,4) by (simp add: executeInstruction_def plain_def caught_ok)
qed

text \<open>What one plain instruction leaves: its own effect, whether it completes or throws, and one tick of \<open>ar.itc\<close>.\<close>

definition after :: "'f host_float \<Rightarrow> instruction \<Rightarrow> machine \<Rightarrow> machine option" where
  "after h i = (\<lambda>\<sigma>. case Execute h False i \<sigma> of
     Some (r, s', m') \<Rightarrow> if r = Inl ub then None else Some (AdvanceITC 1 s', m')
   | None \<Rightarrow> None)"

primrec core_run :: "nat \<Rightarrow> 'f host_float \<Rightarrow> 'd dispatcher \<Rightarrow> 'd system \<Rightarrow> (cpp_error + 'd system) option" where
  "core_run 0 h dispatcher w = Some (Inr w)"
| "core_run (Suc n) h dispatcher w =
     (case core_step h dispatcher w of None \<Rightarrow> None | Some (Inl e) \<Rightarrow> Some (Inl e)
      | Some (Inr (b, w')) \<Rightarrow> if b then core_run n h dispatcher w' else Some (Inr w'))"

lemma core_run_three:
  assumes "core_step h dispatcher w = Some (Inr (True, w1))" "core_step h dispatcher w1 = Some (Inr (True, w2))"
    "core_step h dispatcher w2 = Some (Inr (True, w3))"
  shows "core_run 3 h dispatcher w = Some (Inr w3)"
  by (simp add: numeral_3_eq_3 assms)

lemma plain_step:
  assumes "cc_pendingInterrupts c = []" "cc_bundleValid c" "cc_currentSlot c < length (bn_instructions (cc_currentBundle c))"
    and "bn_instructions (cc_currentBundle c) ! cc_currentSlot c = i" "plain i" "machine_ok (cc_state c, m)"
    and "after h i (cc_state c, m) = Some (s', m')"
  shows "core_step h dispatcher (c, d, m) = Some (Inr (True, next_bundle (c\<lparr>cc_state := s'\<rparr>), d, m'))"
proof -
  obtain r s1 where e: "Execute h False i (cc_state c, m) = Some (r, s1, m')" "r \<noteq> Inl ub" "s' = AdvanceITC 1 s1"
    using assms(7) by (auto simp: after_def split: option.splits if_splits)
  have "in_type i \<noteq> UNKNOWN" using assms(5) by (simp add: plain_def)
  moreover have "bn_instructions (cc_currentBundle c) \<noteq> []" using assms(3) by auto
  ultimately show ?thesis
    using assms(1-4) plain_execute [OF assms(5,6) e(1,2), of dispatcher d]
    by (simp add: core_step_def servicePendingInterrupt_def fetch_if_needed_def step_slot_def Let_def e(3))
qed


text \<open>A legal plain instruction has an effect, and a sound one.\<close>

lemma after_sound:
  assumes "legal_instruction i" "machine_ok (s, m)"
  shows "\<exists>s' m'. after h i (s, m) = Some (s', m') \<and> machine_ok (s', m')"
proof -
  obtain r s1 m1 where e: "Execute h False i (s, m) = Some (r, s1, m1)" "machine_ok (s1, m1)" "r \<noteq> Inl ub"
    using stepsD [OF guest.Execute_steps [OF assms(1)], of "(s, m)" h False] assms(2) by auto
  moreover have "machine_ok (AdvanceITC 1 s1, m1)"
    using guest.op_keeps [OF e(2), of "OpAdvanceITC 1"] by simp
  ultimately show ?thesis by (simp add: after_def)
qed



subsection \<open>A machine to run on\<close>

text \<open>Thirty-two zero bytes of memory: bundles of three \<open>nop\<close>.\<close>

definition demo_ram :: memory where
  "demo_ram = demo_table\<lparr>mem_data := replicate 32 0\<rparr>"

lemma demo_decode:
  "bn_instructions (DecodeBundleAt (replicate 16 0) 0) = [InstructionEx NOP M_UNIT, InstructionEx NOP I_UNIT, InstructionEx NOP I_UNIT]"
  by code_simp

definition demo_state :: cpu_state where "demo_state = SetPSR 0 Reset"

lemma demo_core [simp]: "cc_state core_reset = demo_state" "cc_pendingInterrupts core_reset = []" "\<not> cc_bundleValid core_reset"
  "cpu_ip demo_state = 0"
  by (simp_all add: core_reset_def demo_state_def SetPSR_def Reset_def)

lemma demo_ok [simp]: "machine_ok (demo_state, demo_ram)"
  using guest_ok_exec [OF guest_ok_Reset, of "OpSetPSR 0"]
  by (simp add: machine_ok_def devices_sound_def demo_ram_def demo_table_def demo_state_def)

lemma demo_fetch: "mem_Read demo_ram 0 (replicate 16 0) = (Inr (replicate 16 0), demo_ram)"
  using plain_mem_Read [of demo_ram 0 16] by (simp add: demo_ram_def demo_table_def read_bytes_def)

lemma after_nop: "after h (InstructionEx NOP u) (s, m) = Some (AdvanceITC 1 s, m)"
  by (simp add: after_def Execute_def dispatch_def InstructionEx_def CheckPredicate_def bind_def ret_def)

lemma tick_ok: "machine_ok (s, m) \<Longrightarrow> machine_ok (AdvanceITC 1 s, m)"
  using guest.op_keeps [of s m "OpAdvanceITC 1"] by simp

lemma demo_facts [simp]: "\<not> mmu_enabled (mem_mmu demo_ram)" "mem_devices demo_ram = []" "mem_data demo_ram = replicate 32 0"
  "plain (InstructionEx NOP u)" "cpu_ip (AdvanceITC n s) = cpu_ip s" "cpu_ip (SetIP a s) = a"
  "read_bytes (replicate 32 0) 0 16 = replicate 16 0"
  by (simp_all add: demo_ram_def demo_table_def plain_def is_syscall_def InstructionEx_def AdvanceITC_def SetIP_def read_bytes_def)


lemma core_step_safe_witness:
  "\<forall>h. \<exists>b c' d' m'. core_step h None (core_reset, (), demo_ram) = Some (Inr (b, c', d', m')) \<and> machine_ok (cc_state c', m') \<and> slot_ok c'"
proof
  fix h
  have "next_legal core_reset demo_ram"
    by (simp add: next_legal_def ready_def servicePendingInterrupt_def fetch_if_needed_def fetchBundle_def demo_fetch Let_def
        demo_decode legal_instruction_def InstructionEx_def)
  then show "\<exists>b c' d' m'. core_step h None (core_reset, (), demo_ram) = Some (Inr (b, c', d', m')) \<and> machine_ok (cc_state c', m') \<and> slot_ok c'"
    using core_step_safe [of core_reset demo_ram None h "()"] by (simp add: dispatcher_ok_def slot_ok_def)
qed
end
