(* ===== verification/Cpu_Core_Control.thy ===== *)
theory Cpu_Core_Control
  imports Cpu_Core_Props
begin

text \<open>
  Control transfers of the core: taken and untaken branches, calls with outputs, \<open>rfi\<close>, interrupts, and the bundle
  executed after a failed fetch.
\<close>

text \<open>The core is about to execute \<open>i\<close> in its current slot.\<close>

definition at_instruction :: "cpu_core \<Rightarrow> instruction \<Rightarrow> bool" where
  "at_instruction c i \<longleftrightarrow> cc_pendingInterrupts c = [] \<and> cc_bundleValid c \<and>
     cc_currentSlot c < length (bn_instructions (cc_currentBundle c)) \<and>
     bn_instructions (cc_currentBundle c) ! cc_currentSlot c = i \<and> in_type i \<noteq> UNKNOWN"

lemma at_instruction_step:
  assumes "at_instruction c i"
  shows "core_step h dispatcher (c, d, m) = (case executeInstruction h dispatcher i (c, d, m) of
      None \<Rightarrow> None | Some (Inl e) \<Rightarrow> Some (Inl e)
    | Some (Inr (c1, d1, m1)) \<Rightarrow>
        let c2 = c1\<lparr>cc_state := AdvanceITC 1 (cc_state c1)\<rparr>
        in Some (Inr (True, (if cc_bundleValid c2 then next_bundle c2 else c2), d1, m1)))"
proof -
  have "bn_instructions (cc_currentBundle c) \<noteq> []" using assms by (auto simp: at_instruction_def)
  with assms show ?thesis
    by (simp add: at_instruction_def core_step_def servicePendingInterrupt_def fetch_if_needed_def step_slot_def Let_def)
qed

lemma at_instruction_effect:
  assumes "at_instruction c i" "executeInstruction h dispatcher i (c, d, m) = Some (Inr (c\<lparr>cc_state := s'\<rparr>, d', m'))"
  shows "core_step h dispatcher (c, d, m) = Some (Inr (True, next_bundle (c\<lparr>cc_state := AdvanceITC 1 s'\<rparr>), d', m'))"
  using assms by (simp add: at_instruction_step [OF assms(1)] Let_def) (simp add: at_instruction_def)

text \<open>A conditional branch: the target with its low four bits cleared when the predicate holds, the next slot otherwise.\<close>

theorem conditional_branch_step:
  assumes "at_instruction c i" "in_type i = Branch BR_COND" "in_hasBranchTarget i"
    and "CheckPredicate (in_predicate i) (cc_state c, m) = Some (Inr p, cc_state c, m)"
  shows "core_step h dispatcher (c, d, m) = Some (Inr (True,
    (if p then c\<lparr>cc_state := AdvanceITC 1 (SetIP (in_branchTarget i AND NOT 0xF) (cc_state c)), cc_bundleValid := False,
       cc_currentSlot := 0\<rparr>
     else next_bundle (c\<lparr>cc_state := AdvanceITC 1 (cc_state c)\<rparr>)), d, m))"
proof -
  have e: "Execute h False i (cc_state c, m) = Some (Inr (), cc_state c, m)"
    using assms(2,4)
    by (cases p) (simp_all add: Execute_def bind_def dispatch_def exec_branch_def ret_def nullified_def next_step_def is_compare_def)
  have "run_instruction h i (c, m) = Some (Inr (),
      (if p then c\<lparr>cc_state := SetIP (in_branchTarget i AND NOT 0xF) (cc_state c), cc_bundleValid := False, cc_currentSlot := 0\<rparr> else c), m)"
    using assms(2-4) e
    by (simp add: run_instruction_def is_modulo_branch_def core_bind_def on_state_def branch_decision_def branch_or_register_def
        core_ret_def perform_def callLooksLikeCountedLoop_def take_branch_def core_update_def normalizeBranchEntryIP_def)
  then have x: "executeInstruction h dispatcher i (c, d, m) = Some (Inr
      ((if p then c\<lparr>cc_state := SetIP (in_branchTarget i AND NOT 0xF) (cc_state c), cc_bundleValid := False, cc_currentSlot := 0\<rparr> else c), d, m))"
    using assms(2) by (simp add: executeInstruction_def is_syscall_def caught_def)
  have "cc_bundleValid c" using assms(1) by (simp add: at_instruction_def)
  then show ?thesis
    unfolding at_instruction_step [OF assms(1)] x by (cases c) (simp add: Let_def)
qed


text \<open>\<open>rfi\<close> sets the instruction pointer but leaves the bundle valid: in the last slot the step still advances it.\<close>

lemma CheckPredicate_0 [simp]: "CheckPredicate 0 \<sigma> = Some (Inr True, \<sigma>)"
  by (simp add: CheckPredicate_def ret_def)

lemma rfi_effect:
  assumes "length (cpu_cr s) = NUM_CONTROL_REGISTERS"
  shows "exec_memory RFI i (s, m) = Some (Inr (), SetIP (cpu_cr s ! 19 AND NOT 0xF) (SetPSR (cpu_cr s ! 16) s), m)"
proof -
  have g: "GetCR t 19 = Inr (cpu_cr t ! 19)" "GetCR t 16 = Inr (cpu_cr t ! 16)" if "length (cpu_cr t) = NUM_CONTROL_REGISTERS" for t
    using that by (simp_all add: GetCR_def arr_get_def)
  show ?thesis using assms by (simp add: bind_def next_step_def from_cpu_def to_cpu_def g SetPSR_def)
qed

theorem rfi_skips_bundle:
  assumes "at_instruction c i" "in_type i = Memory_Op RFI" "in_predicate i = 0"
    and "Suc (cc_currentSlot c) = length (bn_instructions (cc_currentBundle c))" "machine_ok (cc_state c, m)"
  shows "\<exists>c'. core_step h dispatcher (c, d, m) = Some (Inr (True, c', d, m)) \<and>
    cpu_ip (cc_state c') = (cpu_cr (cc_state c) ! 19 AND NOT 0xF) + 16 \<and> cpu_psr (cc_state c') = cpu_cr (cc_state c) ! 16 \<and>
    \<not> cc_bundleValid c'"
proof -
  let ?s = "cc_state c"
  let ?s' = "SetIP (cpu_cr ?s ! 19 AND NOT 0xF) (SetPSR (cpu_cr ?s ! 16) ?s)"
  let ?c' = "next_bundle (c\<lparr>cc_state := AdvanceITC 1 ?s'\<rparr>)"
  have "cpu_shape ?s" using assms(5) unfolding machine_ok_def guest_ok_def by simp
  then have "length (cpu_cr ?s) = NUM_CONTROL_REGISTERS" unfolding cpu_shape_def by blast
  then have e: "Execute h False i (?s, m) = Some (Inr (), ?s', m)"
    using assms(2,3) by (simp add: Execute_def bind_def [of "CheckPredicate _"] dispatch_def rfi_effect del: exec_memory.simps)
  have "plain i" using assms(2,3) by (simp add: plain_def is_syscall_def)
  then have "executeInstruction h dispatcher i (c, d, m) = Some (Inr (c\<lparr>cc_state := ?s'\<rparr>, d, m))"
    by (rule plain_execute [OF _ assms(5) e]) simp
  note x = at_instruction_effect [OF assms(1) this]
  have "cpu_ip (cc_state ?c') = (cpu_cr ?s ! 19 AND NOT 0xF) + 16" "cpu_psr (cc_state ?c') = cpu_cr ?s ! 16" "\<not> cc_bundleValid ?c'"
    unfolding next_bundle_def Let_def using assms(4) by (simp_all add: AdvanceITC_def SetIP_def SetPSR_def)
  with x show ?thesis by blast
qed

text \<open>C37: When the fetch fails the old bundle stays: its first instruction executes again and the step reports success.\<close>

theorem failed_fetch_executes_stale:
  assumes "cc_pendingInterrupts c = []" "\<not> cc_bundleValid c" "bn_instructions (cc_currentBundle c) = i # rest" "plain i"
    and "mem_Read m (cpu_ip (cc_state c)) (replicate 16 0) = (Inl e, m0)" "machine_ok (cc_state c, m0)"
    and "after h i (cc_state c, m0) = Some (s', m')"
  shows "core_step h dispatcher (c, d, m) = Some (Inr (True, c\<lparr>cc_state := s', cc_currentSlot := 0\<rparr>, d, m'))"
proof -
  obtain r s1 where e: "Execute h False i (cc_state c, m0) = Some (r, s1, m')" "r \<noteq> Inl ub" "s' = AdvanceITC 1 s1"
    using assms(7) by (auto simp: after_def split: option.splits if_splits)
  let ?c = "c\<lparr>cc_bundleValid := False, cc_currentSlot := 0\<rparr>"
  have "in_type i \<noteq> UNKNOWN" using assms(4) by (simp add: plain_def)
  moreover have "executeInstruction h dispatcher i (?c, d, m0) = Some (Inr (?c\<lparr>cc_state := s1\<rparr>, d, m'))"
    using plain_execute [OF assms(4), of ?c m0 h r s1 m' dispatcher d] assms(6) e by simp
  moreover have "?c\<lparr>cc_state := s'\<rparr> = c\<lparr>cc_state := s', cc_currentSlot := 0\<rparr>"
    using assms(2) by (cases c) simp
  ultimately show ?thesis
    using assms(1-3,5) e(3)
    by (simp add: core_step_def servicePendingInterrupt_def fetch_if_needed_def fetchBundle_def step_slot_def Let_def)
qed


subsection \<open>Calls\<close>

lemma SetGR_elsewhere: "SetGR i v s = Inr s' \<Longrightarrow> cpu_ip s' = cpu_ip s \<and> cpu_br s' = cpu_br s \<and> cpu_psr s' = cpu_psr s \<and>
    cpu_pr s' = cpu_pr s \<and> cpu_cfm s' = cpu_cfm s"
  by (auto simp: SetGR_def arr_set_def Let_def split: if_splits)

lemma capture_loop_spec:
  assumes "cpu_shape (cc_state c) \<and> frame_ok (cc_state c)" "32 \<le> f" "f + i + n \<le> NUM_GENERAL_REGISTERS"
  shows "\<exists>vs s'. capture_loop n i f c = (Inr (), c\<lparr>cc_state := s', cc_pendingCallInputs := vs\<rparr>) \<and> (cpu_shape s' \<and> frame_ok s') \<and>
    (\<forall>j < NUM_GENERAL_REGISTERS. GetGR s' j = GetGR (cc_state c) (if 32 + i \<le> j \<and> j < 32 + i + n then f + (j - 32) else j)) \<and>
    cpu_ip s' = cpu_ip (cc_state c) \<and> cpu_br s' = cpu_br (cc_state c) \<and> cpu_psr s' = cpu_psr (cc_state c) \<and>
    cpu_pr s' = cpu_pr (cc_state c) \<and> cpu_cfm s' = cpu_cfm (cc_state c)"
  using assms
proof (induction n arbitrary: i c)
  case 0
  then show ?case by (intro exI [of _ "cc_pendingCallInputs c"] exI [of _ "cc_state c"]) auto
next
  case (Suc n)
  let ?s = "cc_state c"
  obtain v where v: "GetGR ?s (f + i) = Inr v" using gr_bank.get_in [OF Suc.prems(1), of "f + i"] Suc.prems(3) by auto
  obtain s1 where s1: "SetGR (32 + i) v ?s = Inr s1" "cpu_shape s1 \<and> frame_ok s1"
    using gr_bank.set_in [OF Suc.prems(1), of "32 + i" v] Suc.prems(2,3) by auto
  let ?c1 = "c\<lparr>cc_pendingCallInputs := cc_pendingCallInputs c @ [v], cc_state := s1\<rparr>"
  from Suc.IH [of ?c1 "Suc i"] s1(2) Suc.prems obtain vs s' where l: "capture_loop n (Suc i) f ?c1 =
      (Inr (), ?c1\<lparr>cc_state := s', cc_pendingCallInputs := vs\<rparr>)" "cpu_shape s' \<and> frame_ok s'"
      "\<forall>j < NUM_GENERAL_REGISTERS. GetGR s' j = GetGR s1 (if 33 + i \<le> j \<and> j < 33 + i + n then f + (j - 32) else j)"
      "cpu_ip s' = cpu_ip s1" "cpu_br s' = cpu_br s1" "cpu_psr s' = cpu_psr s1" "cpu_pr s' = cpu_pr s1" "cpu_cfm s' = cpu_cfm s1"
    by auto
  have get: "GetGR s1 j = (if j = 32 + i then Inr v else GetGR ?s j)" if "j < NUM_GENERAL_REGISTERS" for j
    using gr_bank.get_set [OF Suc.prems(1) _ s1(1) that] by simp
  have "GetGR s' j = GetGR ?s (if 32 + i \<le> j \<and> j < 32 + i + Suc n then f + (j - 32) else j)" if "j < NUM_GENERAL_REGISTERS" for j
  proof (cases "j = 32 + i")
    case True
    then show ?thesis using that l(3) get [of j] v by simp
  next
    case False
    then show ?thesis using that l(3) get [of j] get [of "f + (j - 32)"] Suc.prems(2,3) by auto
  qed
  moreover have "?c1\<lparr>cc_state := s', cc_pendingCallInputs := vs\<rparr> = c\<lparr>cc_state := s', cc_pendingCallInputs := vs\<rparr>" by (cases c) simp
  moreover have "capture_loop (Suc n) i f c = capture_loop n (Suc i) f ?c1"
    using Suc.prems(3) v s1(1) by (simp add: Let_def)
  ultimately show ?case
    using l SetGR_elsewhere [OF s1(1)] by (intro exI [of _ vs] exI [of _ s']) simp
qed

text \<open>C6: a call whose qualifying predicate holds, as the next instruction of the current bundle of a sound machine with no
  interrupt pending, saves the return address in its branch register, goes to its target, direct or in a branch register,
  with the low four bits cleared, and copies the outputs of the caller's frame down to \<open>r32...\<close>: the frame is not
  renamed, so the caller's locals are overwritten. The frame must satisfy \<open>sol <= sof <= 96\<close>, and the call must not be one
  the core mistakes for a counted loop: a direct call through \<open>b5\<close> to an address at most 256 bytes back.\<close>

theorem call_copies_outputs:
  assumes "at_instruction c i" "in_type i = Branch BR_CALL" "GetPR (cc_state c) (unat (in_predicate i)) = Inr True"
    and "if in_hasBranchTarget i then t = in_branchTarget i else GetBR (cc_state c) (unat (in_src1 i)) = Inr t"
    and "unat (in_dst i) < 8" "\<not> callLooksLikeCountedLoop (cpu_ip (cc_state c)) i" "machine_ok (cc_state c, m)"
    and "GetSOL (cc_state c) \<le> GetSOF (cc_state c)" "GetSOF (cc_state c) \<le> 96"
  shows "\<exists>c'. core_step h dispatcher (c, d, m) = Some (Inr (True, c', d, m)) \<and>
    cpu_ip (cc_state c') = t AND NOT 0xF \<and>
    GetBR (cc_state c') (unat (in_dst i)) = Inr (architecturalInstructionPointer (cc_state c) + 16) \<and>
    (\<forall>j < NUM_GENERAL_REGISTERS. GetGR (cc_state c') j = GetGR (cc_state c)
       (if 32 \<le> j \<and> j < 32 + (GetSOF (cc_state c) - GetSOL (cc_state c)) then GetSOL (cc_state c) + j else j))"
proof -
  let ?s = "cc_state c"
  let ?o = "GetSOF ?s - GetSOL ?s"
  have ok: "cpu_shape ?s" "frame_ok ?s" using assms(7) unfolding machine_ok_def guest_ok_def by simp_all
  have "\<exists>vs s'. captureCallOutputRegisters (c, m) = Some (Inr (), c\<lparr>cc_state := s', cc_pendingCallInputs := vs\<rparr>, m) \<and> (cpu_shape s' \<and> frame_ok s') \<and>
      (\<forall>j < NUM_GENERAL_REGISTERS. GetGR s' j = GetGR ?s (if 32 \<le> j \<and> j < 32 + ?o then GetSOL ?s + j else j)) \<and>
      cpu_ip s' = cpu_ip ?s \<and> cpu_br s' = cpu_br ?s \<and> cpu_psr s' = cpu_psr ?s \<and> cpu_pr s' = cpu_pr ?s \<and> cpu_cfm s' = cpu_cfm ?s"
  proof (cases "GetSOF ?s \<le> GetSOL ?s")
    case True
    then show ?thesis using ok by (intro exI [of _ "[]"] exI [of _ ?s]) (cases c, auto simp: captureCallOutputRegisters_def Let_def)
  next
    case False
    let ?c0 = "c\<lparr>cc_pendingCallInputs := []\<rparr>"
    from capture_loop_spec [of ?c0 "32 + GetSOL ?s" 0 ?o] ok assms(8,9) obtain vs s' where
      l: "capture_loop ?o 0 (32 + GetSOL ?s) ?c0 = (Inr (), ?c0\<lparr>cc_state := s', cc_pendingCallInputs := vs\<rparr>)" "cpu_shape s' \<and> frame_ok s'"
        "\<forall>j < NUM_GENERAL_REGISTERS. GetGR s' j = GetGR ?s (if 32 \<le> j \<and> j < 32 + ?o then 32 + GetSOL ?s + (j - 32) else j)"
        "cpu_ip s' = cpu_ip ?s" "cpu_br s' = cpu_br ?s" "cpu_psr s' = cpu_psr ?s" "cpu_pr s' = cpu_pr ?s" "cpu_cfm s' = cpu_cfm ?s"
      by auto
    have "?c0\<lparr>cc_state := s', cc_pendingCallInputs := vs\<rparr> = c\<lparr>cc_state := s', cc_pendingCallInputs := vs\<rparr>" by (cases c) simp
    then show ?thesis using False l
      by (intro exI [of _ vs] exI [of _ s']) (auto simp: captureCallOutputRegisters_def Let_def)
  qed
  then obtain vs s1 where cap: "captureCallOutputRegisters (c, m) = Some (Inr (), c\<lparr>cc_state := s1, cc_pendingCallInputs := vs\<rparr>, m)"
      "cpu_shape s1" "\<forall>j < NUM_GENERAL_REGISTERS. GetGR s1 j = GetGR ?s (if 32 \<le> j \<and> j < 32 + ?o then GetSOL ?s + j else j)"
      "cpu_ip s1 = cpu_ip ?s" "cpu_psr s1 = cpu_psr ?s" "cpu_pr s1 = cpu_pr ?s" "cpu_cfm s1 = cpu_cfm ?s"
    by blast
  let ?v = "architecturalInstructionPointer ?s + 16" and ?d = "unat (in_dst i)" and ?t = "t AND NOT 0xF"
  let ?s2 = "s1\<lparr>cpu_br := (cpu_br s1)[?d := ?v]\<rparr>"
  have br: "length (cpu_br s1) = 8" using cap(2) unfolding cpu_shape_def by simp
  have arch: "architecturalInstructionPointer s1 = architecturalInstructionPointer ?s"
    using cap(4,5) by (simp add: architecturalInstructionPointer_def)
  have q1: "GetPR s1 (unat (in_predicate i)) = Inr True"
  proof -
    have "GetPR s1 k = GetPR ?s k" for k
      using cap(6,7) by (simp add: GetPR_def MapPR_def GetRRB_PR_def)
    with assms(3) show ?thesis by simp
  qed
  have e: "Execute h False i (s1, m) = Some (Inr (), ?s2, m)"
    using assms(2,5) br q1 arch
    by (simp add: Execute_def bind_def dispatch_def exec_branch_def to_cpu_def SetBR_def arr_set_def CheckPredicate_def from_cpu_def)
  let ?c' = "c\<lparr>cc_state := SetIP ?t ?s2, cc_pendingCallInputs := vs, cc_bundleValid := False, cc_currentSlot := 0\<rparr>"
  have q: "CheckPredicate (in_predicate i) (cc_state c, m) = Some (Inr True, cc_state c, m)"
    using assms(3) by (simp add: CheckPredicate_def from_cpu_def)
  have target: "branch_or_register i (c, m) = Some (Inr t, c, m)"
    using assms(4) by (simp add: branch_or_register_def core_ret_def on_state_def from_cpu_def split: if_splits)
  have "run_instruction h i (c, m) = Some (Inr (), ?c', m)"
    using assms(2,6) e cap(1) q target
    by (simp add: run_instruction_def is_modulo_branch_def core_bind_def on_state_def branch_decision_def
        core_ret_def perform_def take_branch_def core_update_def normalizeBranchEntryIP_def)
  then have "executeInstruction h dispatcher i (c, d, m) = Some (Inr (?c', d, m))"
    using assms(2) by (simp add: executeInstruction_def is_syscall_def caught_def)
  then have x: "core_step h dispatcher (c, d, m) = Some (Inr (True, ?c'\<lparr>cc_state := AdvanceITC 1 (SetIP ?t ?s2)\<rparr>, d, m))"
    unfolding at_instruction_step [OF assms(1)] by (simp add: Let_def)
  have "GetGR (AdvanceITC 1 (SetIP ?t ?s2)) j = GetGR s1 j" for j
    by (simp add: GetGR_def AdvanceITC_def SetIP_def MapGR_def GetSOR_def GetRRB_GR_def Let_def)
  moreover have "GetBR (AdvanceITC 1 (SetIP ?t ?s2)) ?d = Inr ?v"
    using assms(5) br by (simp add: GetBR_def arr_get_def AdvanceITC_def SetIP_def)
  ultimately show ?thesis
    using x cap(3) by (intro exI [of _ "?c'\<lparr>cc_state := AdvanceITC 1 (SetIP ?t ?s2)\<rparr>"]) (simp add: AdvanceITC_def SetIP_def)
qed

subsection \<open>Interrupts\<close>

lemma service_shape:
  assumes "servicePendingInterrupt True c = Inr (b, c')" "cc_pendingInterrupts c = v # vs" "length (cpu_ar (cc_state c)) = 128"
  shows "cc_pendingInterrupts c' = vs \<and> cpu_ar (cc_state c') ! 1 = cpu_ip (cc_state c) \<and> length (cpu_ar (cc_state c')) = 128 \<and>
    cpu_ip (cc_state c') = cc_interruptVectorBase c + ucast v * 16 \<and> cc_interruptVectorBase c' = cc_interruptVectorBase c \<and>
    core_areInterruptsEnabled c' = core_areInterruptsEnabled c \<and> \<not> cc_bundleValid c'"
  using assms
  by (auto simp: servicePendingInterrupt_def SetAR_def arr_set_def Let_def SetIP_def core_areInterruptsEnabled_def split: if_splits)

text \<open>Delivery neither masks interrupts nor saves the old return address: the next pending vector overwrites it.\<close>

lemma second_interrupt_loses_return:
  assumes "core_areInterruptsEnabled c" "cc_pendingInterrupts c = [v, w]" "length (cpu_ar (cc_state c)) = 128"
    and "servicePendingInterrupt (core_areInterruptsEnabled c) c = Inr (b1, c1)"
    and "servicePendingInterrupt (core_areInterruptsEnabled c1) c1 = Inr (b2, c2)"
  shows "cpu_ar (cc_state c2) ! 1 = cc_interruptVectorBase c + ucast v * 16"
  using assms service_shape [of c b1 c1 v "[w]"] service_shape [of c1 b2 c2 w "[]"] by simp

subsection \<open>The theorems on a concrete core\<close>

text \<open>The reset core with a bundle of one instruction in its last slot, and a frame of two locals and one output.\<close>

definition demo_at :: "instruction \<Rightarrow> cpu_core" where
  "demo_at i = core_reset\<lparr>cc_currentBundle := empty_bundle\<lparr>bn_instructions := [i]\<rparr>, cc_bundleValid := True,
     cc_state := SetCFM 0x103 demo_state\<rparr>"

lemma demo_at [simp]: "in_type i \<noteq> UNKNOWN \<Longrightarrow> at_instruction (demo_at i) i" "cc_currentSlot (demo_at i) = 0"
  "bn_instructions (cc_currentBundle (demo_at i)) = [i]" "cpu_ip (cc_state (demo_at i)) = 0"
  "cpu_psr (cc_state (demo_at i)) = 0" "cpu_cr (cc_state (demo_at i)) = replicate 128 0"
  by (simp_all add: demo_at_def at_instruction_def core_reset_def demo_state_def SetPSR_def SetCFM_def Reset_def)

lemma demo_at_ok [simp]: "machine_ok (cc_state (demo_at i), demo_ram)"
proof -
  have "op_legal (OpSetCFM 0x103)" by (simp add: get_bits_def)
  then show ?thesis using guest.op_keeps [OF demo_ok, of "OpSetCFM 0x103"] by (simp add: demo_at_def)
qed

lemma conditional_branch_step_witness:
  "\<forall>h. \<exists>c'. core_step h None (demo_at (SetBranchTarget 0x25 (InstructionEx (Branch BR_COND) B_UNIT)), (), demo_ram) =
     Some (Inr (True, c', (), demo_ram)) \<and> cpu_ip (cc_state c') = 0x20"
proof
  fix h
  let ?i = "SetBranchTarget 0x25 (InstructionEx (Branch BR_COND) B_UNIT)"
  show "\<exists>c'. core_step h None (demo_at ?i, (), demo_ram) = Some (Inr (True, c', (), demo_ram)) \<and> cpu_ip (cc_state c') = 0x20"
    using conditional_branch_step [of "demo_at ?i" ?i demo_ram True h None "()"] by (simp add: SetBranchTarget_def InstructionEx_def)
qed

lemma rfi_skips_bundle_witness:
  "\<forall>h. \<exists>c'. core_step h None (demo_at (InstructionEx (Memory_Op RFI) B_UNIT), (), demo_ram) = Some (Inr (True, c', (), demo_ram)) \<and>
     cpu_ip (cc_state c') = 16"
proof
  fix h
  let ?i = "InstructionEx (Memory_Op RFI) B_UNIT"
  show "\<exists>c'. core_step h None (demo_at ?i, (), demo_ram) = Some (Inr (True, c', (), demo_ram)) \<and> cpu_ip (cc_state c') = 16"
    using rfi_skips_bundle [of "demo_at ?i" ?i demo_ram h None "()"] by (auto simp: InstructionEx_def)
qed

lemma call_copies_outputs_witness:
  "\<forall>h. \<exists>c'. core_step h None (demo_at (SetBranchTarget 0x1000 (InstructionEx (Branch BR_CALL) B_UNIT)), (), demo_ram) =
     Some (Inr (True, c', (), demo_ram)) \<and> GetBR (cc_state c') 0 = Inr 16"
proof
  fix h
  let ?i = "SetBranchTarget 0x1000 (InstructionEx (Branch BR_CALL) B_UNIT)"
  have "GetSOL (cc_state (demo_at ?i)) = 2" "GetSOF (cc_state (demo_at ?i)) = 3"
    by (simp_all add: GetSOL_def GetSOF_def demo_at_def get_bits_def SetCFM_def mask_eq_exp_minus_1)
  then show "\<exists>c'. core_step h None (demo_at ?i, (), demo_ram) = Some (Inr (True, c', (), demo_ram)) \<and> GetBR (cc_state c') 0 = Inr 16"
    using call_copies_outputs [where c = "demo_at ?i" and i = ?i and t = "0x1000" and m = demo_ram and h = h and dispatcher = None
        and d = "()"]
    by (auto simp: SetBranchTarget_def InstructionEx_def GetPR_def callLooksLikeCountedLoop_def architecturalInstructionPointer_def)
qed

lemma failed_fetch_executes_stale_witness:
  "\<forall>h. \<exists>c'. core_step h None ((demo_at (InstructionEx NOP M_UNIT))\<lparr>cc_bundleValid := False, cc_state := SetIP 0x1000 demo_state\<rparr>, (), demo_ram) =
     Some (Inr (True, c', (), demo_ram)) \<and> cpu_ip (cc_state c') = 0x1000"
proof
  fix h
  let ?i = "InstructionEx NOP M_UNIT"
  let ?c = "(demo_at ?i)\<lparr>cc_bundleValid := False, cc_state := SetIP 0x1000 demo_state\<rparr>"
  have "machine_ok (SetIP 0x1000 demo_state, demo_ram)" using guest.op_keeps [OF demo_ok, of "OpSetIP 0x1000"] by simp
  moreover have "cc_pendingInterrupts ?c = []" by (simp add: demo_at_def)
  moreover have "mem_Read demo_ram 0x1000 (replicate 16 0) = (Inl (Std OutOfRange), demo_ram)"
    by (simp add: mem_Read_def mmuRead_def checkBounds_def Let_def)
  ultimately show "\<exists>c'. core_step h None (?c, (), demo_ram) = Some (Inr (True, c', (), demo_ram)) \<and> cpu_ip (cc_state c') = 0x1000"
    using failed_fetch_executes_stale [OF _ _ _ _ _ _ after_nop, of ?c M_UNIT "[]" demo_ram _ demo_ram h None "()"] by simp
qed

end
