(* ===== verification/Cpu_Register_File.thy ===== *)
theory Cpu_Register_File
  imports Cpu_Core
begin

text \<open>
  The class \<open>RegisterFile\<close>: a checked, rotating bank. Its map is one to one as long as the rotation base and the
  register number do not wrap around the 64-bit sum.
\<close>

definition rf_ok :: "register_file \<Rightarrow> bool" where
  "rf_ok f \<longleftrightarrow> rf_staticRegs f \<le> length (rf_registers f) \<and> length (rf_registers f) < 2 ^ 63"

lemma RegisterFile_ok: "totalRegs < 2 ^ 63 \<Longrightarrow> RegisterFile totalRegs staticRegs = Inr f \<Longrightarrow> rf_ok f"
  by (auto simp: RegisterFile_def rf_ok_def split: if_splits)

lemma MapToPhysical_less:
  assumes "i < length (rf_registers f)"
  shows "MapToPhysical f i rot < length (rf_registers f)"
proof (cases "i < rf_staticRegs f")
  case False
  let ?n = "length (rf_registers f) - rf_staticRegs f"
  have "0 < ?n" using assms False by simp
  then have "(i - rf_staticRegs f + unat rot) mod 2 ^ 64 mod ?n < ?n" by (rule mod_less_divisor)
  with assms False show ?thesis by (simp add: MapToPhysical_def Let_def del: mod_less_divisor)
qed (use assms in \<open>simp add: MapToPhysical_def\<close>)

lemma mod_add_inject:
  assumes "(i + k) mod n = (j + k) mod n" "i < n" "j < n" "i \<le> j"
  shows "i = (j :: nat)"
proof -
  have "n dvd (j + k) - (i + k)" using assms(1,4) by (metis add_le_mono1 mod_eq_dvd_iff_nat)
  then have "n dvd j - i" by simp
  with assms show ?thesis using nat_dvd_not_less [of "j - i" n] by (cases "i = j") auto
qed

lemma MapToPhysical_inj:
  assumes "i < length (rf_registers f)" "j < length (rf_registers f)" "unat rot + length (rf_registers f) \<le> 2 ^ 64"
    and eq: "MapToPhysical f i rot = MapToPhysical f j rot"
  shows "i = j"
proof -
  let ?s = "rf_staticRegs f" and ?n = "length (rf_registers f) - rf_staticRegs f"
  consider "i < ?s \<or> j < ?s" | "?s \<le> i" "?s \<le> j" by linarith
  then show ?thesis
  proof cases
    case 1
    then show ?thesis using eq assms by (auto simp: MapToPhysical_def Let_def split: if_splits)
  next
    case 2
    have "(i - ?s + unat rot) mod ?n = (j - ?s + unat rot) mod ?n"
      using eq 2 assms(1-3) by (simp add: MapToPhysical_def Let_def)
    with 2 assms(1,2) have "i - ?s = j - ?s"
      using mod_add_inject [of "i - ?s" "unat rot" ?n "j - ?s"] mod_add_inject [of "j - ?s" "unat rot" ?n "i - ?s"]
        linorder_linear [of "i - ?s" "j - ?s"] by fastforce
    with 2 show ?thesis by simp
  qed
qed

text \<open>A checked bank: the last write wins, other registers keep their values.\<close>

theorem register_file_bank:
  assumes "i < length (rf_registers f)" "j < length (rf_registers f)" "unat rot + length (rf_registers f) \<le> 2 ^ 64"
  shows "\<exists>f'. rf_Write i v rot f = Inr f' \<and> rf_Read f' j rot = (if i = j then Inr v else rf_Read f j rot)"
proof -
  let ?f' = "f\<lparr>rf_registers := (rf_registers f)[MapToPhysical f i rot := v]\<rparr>"
  have "rf_Write i v rot f = Inr ?f'"
    using assms(1) MapToPhysical_less [OF assms(1), of rot] by (simp add: rf_Write_def arr_set_def)
  moreover have "MapToPhysical ?f' j rot = MapToPhysical f j rot" by (simp add: MapToPhysical_def)
  then have "rf_Read ?f' j rot = (if i = j then Inr v else rf_Read f j rot)"
    using assms MapToPhysical_less [OF assms(1), of rot] MapToPhysical_less [OF assms(2), of rot] MapToPhysical_inj [OF assms]
    by (auto simp: rf_Read_def arr_get_def nth_list_update)
  ultimately show ?thesis by blast
qed

lemma register_file_bank_witness:
  "\<exists>f'. rf_Write 33 7 5 \<lparr>rf_registers = replicate 128 0, rf_staticRegs = 32\<rparr> = Inr f' \<and> rf_Read f' 33 5 = Inr 7"
  using register_file_bank [of 33 "\<lparr>rf_registers = replicate 128 0, rf_staticRegs = 32\<rparr>" 33 5 7] by simp

text \<open>Past the bound two registers share one cell: the sum wraps at \<open>2\<^sup>6\<^sup>4\<close>, which is not a multiple of 96.\<close>

lemma rotation_wrap_aliases:
  "MapToPhysical \<lparr>rf_registers = replicate 128 0, rf_staticRegs = 32\<rparr> 32 0xFFFFFFFFFFFFFFFF =
   MapToPhysical \<lparr>rf_registers = replicate 128 0, rf_staticRegs = 32\<rparr> 96 0xFFFFFFFFFFFFFFFF"
  by (simp add: MapToPhysical_def Let_def)

end
