(* ===== verification/Text_Stream.thy ===== *)
theory Text_Stream
  imports Prelude
begin

text \<open>
  \<open>std::ostringstream\<close> as the program uses it: the text so far and the formatting state (adjustment, base, fill
  character, width). A chain of \<open><<\<close> is a list of items; the width applies to one item, the rest persists.
\<close>

record ostream =
  os_text :: string
  os_left :: bool
  os_hex :: bool
  os_fill :: char
  os_width :: nat

definition ostringstream :: ostream where
  "ostringstream = \<lparr>os_text = [], os_left = False, os_hex = False, os_fill = CHR '' '', os_width = 0\<rparr>"

definition digit :: "nat \<Rightarrow> char" where
  "digit d = ''0123456789abcdef'' ! d"

fun digits :: "nat \<Rightarrow> nat \<Rightarrow> string" where
  "digits b n = (if b < 2 \<or> n < b then [digit n] else digits b (n div b) @ [digit (n mod b)])"

declare digits.simps [simp del]

datatype item =
    Str string
  | U64 u64
  | I64 u64
  | Hex
  | Dec
  | SetW nat
  | SetFill char
  | AdjustLeft

definition padded :: "string \<Rightarrow> ostream \<Rightarrow> string" where
  "padded s os =
     (let p = replicate (os_width os - length s) (os_fill os) in if os_left os then s @ p else p @ s)"

definition put_text :: "string \<Rightarrow> ostream \<Rightarrow> ostream" where
  "put_text s os = os\<lparr>os_text := os_text os @ padded s os, os_width := 0\<rparr>"

text \<open>Signed numbers print their two's complement in base 16.\<close>

fun put :: "item \<Rightarrow> ostream \<Rightarrow> ostream" where
  "put (Str s) os = put_text s os"
| "put (U64 w) os = put_text (digits (if os_hex os then 16 else 10) (unat w)) os"
| "put (I64 w) os = put_text
     (if os_hex os then digits 16 (unat w)
      else if sint w < 0 then CHR ''-'' # digits 10 (nat (- sint w)) else digits 10 (nat (sint w))) os"
| "put Hex os = os\<lparr>os_hex := True\<rparr>"
| "put Dec os = os\<lparr>os_hex := False\<rparr>"
| "put (SetW n) os = os\<lparr>os_width := n\<rparr>"
| "put (SetFill c) os = os\<lparr>os_fill := c\<rparr>"
| "put AdjustLeft os = os\<lparr>os_left := True\<rparr>"

definition stream :: "item list \<Rightarrow> ostream \<Rightarrow> ostream" where
  "stream items os = fold put items os"

definition format :: "item list \<Rightarrow> string" where
  "format items = os_text (stream items ostringstream)"

subsection \<open>Reading numbers back\<close>

definition digit_value :: "char \<Rightarrow> nat" where
  "digit_value c = (if of_char c < (58 :: nat) then of_char c - 48 else of_char c - 87)"

definition number_of :: "nat \<Rightarrow> string \<Rightarrow> nat" where
  "number_of b s = foldl (\<lambda>a c. a * b + digit_value c) 0 s"

lemma digit_value_digit [simp]: "d < 16 \<Longrightarrow> digit_value (digit d) = d"
proof -
  have "\<forall>d \<in> {0..<16}. digit_value (digit d) = d" by code_simp
  then show "d < 16 \<Longrightarrow> digit_value (digit d) = d" by simp
qed

lemma digits_step: "2 \<le> b \<Longrightarrow> b \<le> n \<Longrightarrow> digits b n = digits b (n div b) @ [digit (n mod b)]"
  by (subst digits.simps) simp

lemma digits_small: "n < b \<Longrightarrow> digits b n = [digit n]"
  by (subst digits.simps) simp

text \<open>A printed number is read back, so printing is one to one.\<close>

lemma number_of_digits: "2 \<le> b \<Longrightarrow> b \<le> 16 \<Longrightarrow> number_of b (digits b n) = n"
proof (induction n rule: less_induct)
  case (less n)
  show ?case
  proof (cases "n < b")
    case True
    with less.prems show ?thesis by (simp add: digits_small number_of_def)
  next
    case False
    with less.prems have "n div b < n" by simp
    with less have "number_of b (digits b (n div b)) = n div b" by simp
    moreover have "n mod b < 16" using less.prems mod_less_divisor [of b n] by linarith
    ultimately show ?thesis
      using False less.prems by (simp add: digits_step number_of_def)
  qed
qed

lemma digits_inject: "2 \<le> b \<Longrightarrow> b \<le> 16 \<Longrightarrow> digits b m = digits b n \<longleftrightarrow> m = n"
  by (metis number_of_digits)

lemma digits_times: "2 \<le> b \<Longrightarrow> 0 < n \<Longrightarrow> digits b (n * b) = digits b n @ ''0''"
  using digits_step [of b "n * b"] by (simp add: digit_def)

lemma length_digits: "2 \<le> b \<Longrightarrow> 0 < k \<Longrightarrow> n < b ^ k \<Longrightarrow> length (digits b n) \<le> k"
proof (induction n arbitrary: k rule: less_induct)
  case (less n)
  show ?case
  proof (cases "n < b")
    case True
    with less.prems show ?thesis by (simp add: digits_small)
  next
    case False
    obtain j where k: "k = Suc j" using less.prems by (cases k) auto
    with False less.prems have "0 < j" by (cases j) auto
    have "n div b < b ^ j" using less.prems k by (simp add: less_mult_imp_div_less mult.commute)
    with less.IH [of "n div b" j] \<open>0 < j\<close> False k less.prems show ?thesis by (simp add: digits_step)
  qed
qed

text \<open>Output only extends the text.\<close>

lemma put_prefix: "\<exists>t. os_text (put i os) = os_text os @ t"
  by (cases i) (simp_all add: put_text_def)

lemma stream_append: "stream (xs @ ys) os = stream ys (stream xs os)"
  by (simp add: stream_def)

end
