(* ===== verification/Boot_Trace.thy ===== *)
theory Boot_Trace
  imports Boot_State Text_Stream Decoder
begin

text \<open>
  \<open>BootTraceSystem\<close> (\<open>src/src/vm/BootTraceSystem.cpp\<close>): a bounded log of boot events filtered by importance, its
  statistics, its queries and the three text reports.
\<close>

datatype trace_event_type =
    EV_POWER_ON | EV_HARDWARE_RESET
  | EV_MEMORY_ALLOCATED | EV_MEMORY_REGION_MAPPED | EV_MEMORY_CLEARED | EV_PAGE_TABLE_INIT
  | EV_BOOT_STATE_CHANGE
  | EV_FIRMWARE_START | EV_FIRMWARE_POST | EV_FIRMWARE_DEVICE_ENUM | EV_FIRMWARE_COMPLETE
  | EV_BOOTLOADER_START | EV_BOOTLOADER_LOAD_KERNEL | EV_BOOTLOADER_JUMP
  | EV_KERNEL_LOADED | EV_KERNEL_ENTRY_POINT | EV_KERNEL_EARLY_INIT | EV_KERNEL_SUBSYSTEM_INIT
  | EV_KERNEL_MOUNT_ROOT | EV_KERNEL_START_INIT
  | EV_SYSCALL_FIRST | EV_SYSCALL_EXECUTED
  | EV_INIT_PROCESS_START | EV_USERSPACE_READY
  | EV_CPU_INSTRUCTION_EXECUTED | EV_CPU_BUNDLE_EXECUTED | EV_CPU_CONTEXT_SWITCH
  | EV_INTERRUPT_RAISED | EV_INTERRUPT_HANDLED | EV_EXCEPTION_OCCURRED
  | EV_BOOT_FAILURE | EV_KERNEL_PANIC | EV_EMERGENCY_HALT
  | EV_CUSTOM_MARKER

fun bootTraceEventTypeToString :: "trace_event_type \<Rightarrow> string" where
  "bootTraceEventTypeToString EV_POWER_ON = ''POWER_ON''"
| "bootTraceEventTypeToString EV_HARDWARE_RESET = ''HARDWARE_RESET''"
| "bootTraceEventTypeToString EV_MEMORY_ALLOCATED = ''MEMORY_ALLOCATED''"
| "bootTraceEventTypeToString EV_MEMORY_REGION_MAPPED = ''MEMORY_REGION_MAPPED''"
| "bootTraceEventTypeToString EV_MEMORY_CLEARED = ''MEMORY_CLEARED''"
| "bootTraceEventTypeToString EV_PAGE_TABLE_INIT = ''PAGE_TABLE_INIT''"
| "bootTraceEventTypeToString EV_BOOT_STATE_CHANGE = ''BOOT_STATE_CHANGE''"
| "bootTraceEventTypeToString EV_FIRMWARE_START = ''FIRMWARE_START''"
| "bootTraceEventTypeToString EV_FIRMWARE_POST = ''FIRMWARE_POST''"
| "bootTraceEventTypeToString EV_FIRMWARE_DEVICE_ENUM = ''FIRMWARE_DEVICE_ENUM''"
| "bootTraceEventTypeToString EV_FIRMWARE_COMPLETE = ''FIRMWARE_COMPLETE''"
| "bootTraceEventTypeToString EV_BOOTLOADER_START = ''BOOTLOADER_START''"
| "bootTraceEventTypeToString EV_BOOTLOADER_LOAD_KERNEL = ''BOOTLOADER_LOAD_KERNEL''"
| "bootTraceEventTypeToString EV_BOOTLOADER_JUMP = ''BOOTLOADER_JUMP''"
| "bootTraceEventTypeToString EV_KERNEL_LOADED = ''KERNEL_LOADED''"
| "bootTraceEventTypeToString EV_KERNEL_ENTRY_POINT = ''KERNEL_ENTRY_POINT''"
| "bootTraceEventTypeToString EV_KERNEL_EARLY_INIT = ''KERNEL_EARLY_INIT''"
| "bootTraceEventTypeToString EV_KERNEL_SUBSYSTEM_INIT = ''KERNEL_SUBSYSTEM_INIT''"
| "bootTraceEventTypeToString EV_KERNEL_MOUNT_ROOT = ''KERNEL_MOUNT_ROOT''"
| "bootTraceEventTypeToString EV_KERNEL_START_INIT = ''KERNEL_START_INIT''"
| "bootTraceEventTypeToString EV_SYSCALL_FIRST = ''SYSCALL_FIRST''"
| "bootTraceEventTypeToString EV_SYSCALL_EXECUTED = ''SYSCALL_EXECUTED''"
| "bootTraceEventTypeToString EV_INIT_PROCESS_START = ''INIT_PROCESS_START''"
| "bootTraceEventTypeToString EV_USERSPACE_READY = ''USERSPACE_READY''"
| "bootTraceEventTypeToString EV_CPU_INSTRUCTION_EXECUTED = ''CPU_INSTRUCTION_EXECUTED''"
| "bootTraceEventTypeToString EV_CPU_BUNDLE_EXECUTED = ''CPU_BUNDLE_EXECUTED''"
| "bootTraceEventTypeToString EV_CPU_CONTEXT_SWITCH = ''CPU_CONTEXT_SWITCH''"
| "bootTraceEventTypeToString EV_INTERRUPT_RAISED = ''INTERRUPT_RAISED''"
| "bootTraceEventTypeToString EV_INTERRUPT_HANDLED = ''INTERRUPT_HANDLED''"
| "bootTraceEventTypeToString EV_EXCEPTION_OCCURRED = ''EXCEPTION_OCCURRED''"
| "bootTraceEventTypeToString EV_BOOT_FAILURE = ''BOOT_FAILURE''"
| "bootTraceEventTypeToString EV_KERNEL_PANIC = ''KERNEL_PANIC''"
| "bootTraceEventTypeToString EV_EMERGENCY_HALT = ''EMERGENCY_HALT''"
| "bootTraceEventTypeToString EV_CUSTOM_MARKER = ''CUSTOM_MARKER''"

fun bootStateToString :: "boot_state \<Rightarrow> string" where
  "bootStateToString POWERED_OFF = ''POWERED_OFF''"
| "bootStateToString POWER_ON = ''POWER_ON''"
| "bootStateToString FIRMWARE_INIT = ''FIRMWARE_INIT''"
| "bootStateToString BOOTLOADER_EXEC = ''BOOTLOADER_EXEC''"
| "bootStateToString KERNEL_LOAD = ''KERNEL_LOAD''"
| "bootStateToString KERNEL_ENTRY = ''KERNEL_ENTRY''"
| "bootStateToString KERNEL_INIT = ''KERNEL_INIT''"
| "bootStateToString INIT_PROCESS = ''INIT_PROCESS''"
| "bootStateToString USERSPACE_RUNNING = ''USERSPACE_RUNNING''"
| "bootStateToString SHUTDOWN_INIT = ''SHUTDOWN_INIT''"
| "bootStateToString STOPPING_SERVICES = ''STOPPING_SERVICES''"
| "bootStateToString KERNEL_SHUTDOWN = ''KERNEL_SHUTDOWN''"
| "bootStateToString FIRMWARE_SHUTDOWN = ''FIRMWARE_SHUTDOWN''"
| "bootStateToString POWER_OFF = ''POWER_OFF''"
| "bootStateToString BOOT_FAILED = ''BOOT_FAILED''"
| "bootStateToString KERNEL_PANIC = ''KERNEL_PANIC''"
| "bootStateToString EMERGENCY_HALT = ''EMERGENCY_HALT''"

primrec boot_state_number :: "boot_state \<Rightarrow> u64" where
  "boot_state_number POWERED_OFF = 0"
| "boot_state_number POWER_ON = 1"
| "boot_state_number FIRMWARE_INIT = 2"
| "boot_state_number BOOTLOADER_EXEC = 3"
| "boot_state_number KERNEL_LOAD = 4"
| "boot_state_number KERNEL_ENTRY = 5"
| "boot_state_number KERNEL_INIT = 6"
| "boot_state_number INIT_PROCESS = 7"
| "boot_state_number USERSPACE_RUNNING = 8"
| "boot_state_number SHUTDOWN_INIT = 9"
| "boot_state_number STOPPING_SERVICES = 10"
| "boot_state_number KERNEL_SHUTDOWN = 11"
| "boot_state_number FIRMWARE_SHUTDOWN = 12"
| "boot_state_number POWER_OFF = 13"
| "boot_state_number BOOT_FAILED = 14"
| "boot_state_number KERNEL_PANIC = 15"
| "boot_state_number EMERGENCY_HALT = 16"

record trace_entry =
  te_type :: trace_event_type
  te_timestamp :: u64
  te_instructionPointer :: u64
  te_bootState :: boot_state
  te_description :: string
  te_data1 :: u64
  te_data2 :: u64
  te_data3 :: u64

record trace_statistics =
  ts_totalEvents :: u64
  ts_powerOnTimestamp :: u64
  ts_kernelEntryTimestamp :: u64
  ts_userSpaceTimestamp :: u64
  ts_totalBootCycles :: u64
  ts_syscallCount :: u64
  ts_interruptCount :: u64
  ts_exceptionCount :: u64
  ts_bootCompleted :: bool
  ts_panicOccurred :: bool

definition empty_statistics :: trace_statistics where
  "empty_statistics =
     \<lparr>ts_totalEvents = 0, ts_powerOnTimestamp = 0, ts_kernelEntryTimestamp = 0, ts_userSpaceTimestamp = 0,
      ts_totalBootCycles = 0, ts_syscallCount = 0, ts_interruptCount = 0, ts_exceptionCount = 0,
      ts_bootCompleted = False, ts_panicOccurred = False\<rparr>"

record boot_trace =
  tr_enabled :: bool
  tr_verbosity :: int
  tr_maxEvents :: nat
  tr_events :: "trace_entry list"
  tr_stats :: trace_statistics

definition BootTraceSystem :: "nat \<Rightarrow> boot_trace" where
  "BootTraceSystem maxEvents =
     \<lparr>tr_enabled = True, tr_verbosity = 2, tr_maxEvents = maxEvents, tr_events = [], tr_stats = empty_statistics\<rparr>"

definition getEventImportance :: "trace_event_type \<Rightarrow> int" where
  "getEventImportance t =
     (if t \<in> {EV_POWER_ON, EV_KERNEL_ENTRY_POINT, EV_USERSPACE_READY, EV_KERNEL_PANIC, EV_EMERGENCY_HALT, EV_BOOT_FAILURE} then 0
      else if t \<in> {EV_BOOT_STATE_CHANGE, EV_KERNEL_LOADED, EV_SYSCALL_FIRST, EV_MEMORY_ALLOCATED, EV_PAGE_TABLE_INIT} then 1
      else 2)"

definition count_event :: "trace_entry \<Rightarrow> trace_statistics \<Rightarrow> trace_statistics" where
  "count_event e st =
     (case te_type e of
        EV_POWER_ON \<Rightarrow> st\<lparr>ts_powerOnTimestamp := te_timestamp e\<rparr>
      | EV_KERNEL_ENTRY_POINT \<Rightarrow> st\<lparr>ts_kernelEntryTimestamp := te_timestamp e\<rparr>
      | EV_USERSPACE_READY \<Rightarrow> st\<lparr>ts_userSpaceTimestamp := te_timestamp e, ts_bootCompleted := True,
          ts_totalBootCycles := te_timestamp e - ts_powerOnTimestamp st\<rparr>
      | EV_SYSCALL_EXECUTED \<Rightarrow> st\<lparr>ts_syscallCount := ts_syscallCount st + 1\<rparr>
      | EV_SYSCALL_FIRST \<Rightarrow> st\<lparr>ts_syscallCount := ts_syscallCount st + 1\<rparr>
      | EV_INTERRUPT_RAISED \<Rightarrow> st\<lparr>ts_interruptCount := ts_interruptCount st + 1\<rparr>
      | EV_EXCEPTION_OCCURRED \<Rightarrow> st\<lparr>ts_exceptionCount := ts_exceptionCount st + 1\<rparr>
      | EV_KERNEL_PANIC \<Rightarrow> st\<lparr>ts_panicOccurred := True\<rparr>
      | _ \<Rightarrow> st)"

definition push_event :: "nat \<Rightarrow> trace_entry \<Rightarrow> trace_entry list \<Rightarrow> trace_entry list" where
  "push_event maxEvents e es = (let es' = es @ [e] in if length es' > maxEvents then tl es' else es')"

definition addEvent :: "trace_entry \<Rightarrow> boot_trace \<Rightarrow> boot_trace" where
  "addEvent e t =
     (if \<not> tr_enabled t then t
      else if getEventImportance (te_type e) > tr_verbosity t then t
      else
        let st = tr_stats t in
        t\<lparr>tr_events := push_event (tr_maxEvents t) e (tr_events t),
          tr_stats := count_event e (st\<lparr>ts_totalEvents := ts_totalEvents st + 1\<rparr>)\<rparr>)"

definition recordEvent ::
    "trace_event_type \<Rightarrow> u64 \<Rightarrow> u64 \<Rightarrow> boot_state \<Rightarrow> string \<Rightarrow> u64 \<Rightarrow> u64 \<Rightarrow> u64 \<Rightarrow> boot_trace \<Rightarrow> boot_trace" where
  "recordEvent ty timestamp ip bootState description d1 d2 d3 =
     addEvent \<lparr>te_type = ty, te_timestamp = timestamp, te_instructionPointer = ip, te_bootState = bootState,
       te_description = description, te_data1 = d1, te_data2 = d2, te_data3 = d3\<rparr>"

subsection \<open>The recorders\<close>

definition hex16 :: "u64 \<Rightarrow> item list" where
  "hex16 w = [Hex, SetW 16, SetFill (CHR ''0''), U64 w]"

definition recordBootStateChange :: "boot_state \<Rightarrow> boot_state \<Rightarrow> u64 \<Rightarrow> u64 \<Rightarrow> string \<Rightarrow> boot_trace \<Rightarrow> boot_trace" where
  "recordBootStateChange fromState toState timestamp ip reason =
     (let desc = format ([Str ''Boot state: '', Str (bootStateToString fromState), Str '' -> '', Str (bootStateToString toState)]
                   @ (if reason \<noteq> [] then [Str '' ('', Str reason, Str '')''] else []))
      in recordEvent EV_BOOT_STATE_CHANGE timestamp ip toState desc (boot_state_number fromState) (boot_state_number toState) 0)"

definition recordMemoryAllocation :: "u64 \<Rightarrow> u64 \<Rightarrow> boot_trace \<Rightarrow> boot_trace" where
  "recordMemoryAllocation n timestamp =
     recordEvent EV_MEMORY_ALLOCATED timestamp 0 POWER_ON
       (format [Str ''Memory allocated: '', U64 n, Str '' bytes ('', U64 (n div 1024 div 1024), Str '' MB)'']) n 0 0"

definition recordMemoryRegionMap :: "u64 \<Rightarrow> u64 \<Rightarrow> u64 \<Rightarrow> boot_trace \<Rightarrow> boot_trace" where
  "recordMemoryRegionMap startAddr endAddr timestamp =
     recordEvent EV_MEMORY_REGION_MAPPED timestamp 0 FIRMWARE_INIT
       (format ([Str ''Memory region mapped: 0x''] @ hex16 startAddr @ [Str '' - 0x''] @ hex16 endAddr @
          [Str '' ('', Dec, U64 (endAddr - startAddr), Str '' bytes)''])) startAddr endAddr 0"

definition recordPageTableInit :: "u64 \<Rightarrow> u64 \<Rightarrow> boot_trace \<Rightarrow> boot_trace" where
  "recordPageTableInit pageTableBase timestamp =
     recordEvent EV_PAGE_TABLE_INIT timestamp 0 KERNEL_INIT
       (format ([Str ''Page table initialized at 0x''] @ hex16 pageTableBase)) pageTableBase 0 0"

definition recordKernelLoad :: "u64 \<Rightarrow> u64 \<Rightarrow> u64 \<Rightarrow> boot_trace \<Rightarrow> boot_trace" where
  "recordKernelLoad loadAddress n timestamp =
     recordEvent EV_KERNEL_LOADED timestamp loadAddress KERNEL_LOAD
       (format ([Str ''Kernel loaded at 0x''] @ hex16 loadAddress @ [Str '' (size: '', Dec, U64 n, Str '' bytes)'']))
       loadAddress n 0"

definition recordKernelEntry :: "u64 \<Rightarrow> u64 \<Rightarrow> boot_trace \<Rightarrow> boot_trace" where
  "recordKernelEntry entryPoint timestamp =
     recordEvent EV_KERNEL_ENTRY_POINT timestamp entryPoint KERNEL_ENTRY
       (format ([Str ''Kernel entry point reached at 0x''] @ hex16 entryPoint)) entryPoint 0 0"

definition recordSyscall :: "u64 \<Rightarrow> string \<Rightarrow> u64 \<Rightarrow> u64 \<Rightarrow> boot_trace \<Rightarrow> boot_trace" where
  "recordSyscall syscallNumber syscallName timestamp ip =
     recordEvent EV_SYSCALL_EXECUTED timestamp ip USERSPACE_RUNNING
       (format [Str ''Syscall: '', Str syscallName, Str '' (#'', U64 syscallNumber, Str '')'']) syscallNumber 0 0"

definition recordFirstSyscall :: "u64 \<Rightarrow> string \<Rightarrow> u64 \<Rightarrow> u64 \<Rightarrow> boot_trace \<Rightarrow> boot_trace" where
  "recordFirstSyscall syscallNumber syscallName timestamp ip =
     recordEvent EV_SYSCALL_FIRST timestamp ip USERSPACE_RUNNING
       (format [Str ''First syscall: '', Str syscallName, Str '' (#'', U64 syscallNumber, Str '')'']) syscallNumber 0 0"

definition recordBundleExecution :: "u64 \<Rightarrow> decoded_bundle \<Rightarrow> u64 \<Rightarrow> boot_trace \<Rightarrow> boot_trace" where
  "recordBundleExecution ip b timestamp =
     recordEvent EV_CPU_BUNDLE_EXECUTED timestamp ip USERSPACE_RUNNING
       (format ([Str ''Bundle executed at 0x''] @ hex16 ip @ [Str '' (template: 0x'', Hex, U64 (ucast (bn_templateType b)), Str '')'']))
       (ucast (bn_templateType b)) (of_nat (length (bn_instructions b))) 0"

definition recordInstructionMilestone :: "u64 \<Rightarrow> u64 \<Rightarrow> u64 \<Rightarrow> boot_trace \<Rightarrow> boot_trace" where
  "recordInstructionMilestone count timestamp ip =
     recordEvent EV_CPU_INSTRUCTION_EXECUTED timestamp ip USERSPACE_RUNNING
       (format [Str ''Instruction milestone: '', U64 count, Str '' instructions executed'']) count 0 0"

definition recordInterrupt :: "u8 \<Rightarrow> u64 \<Rightarrow> u64 \<Rightarrow> boot_trace \<Rightarrow> boot_trace" where
  "recordInterrupt vector timestamp ip =
     recordEvent EV_INTERRUPT_RAISED timestamp ip USERSPACE_RUNNING
       (format [Str ''Interrupt raised: vector 0x'', Hex, SetW 2, SetFill (CHR ''0''), U64 (ucast vector)]) (ucast vector) 0 0"

definition recordException :: "string \<Rightarrow> u64 \<Rightarrow> u64 \<Rightarrow> boot_trace \<Rightarrow> boot_trace" where
  "recordException exceptionType timestamp ip =
     recordEvent EV_EXCEPTION_OCCURRED timestamp ip USERSPACE_RUNNING (format [Str ''Exception: '', Str exceptionType]) 0 0 0"

definition recordKernelPanic :: "string \<Rightarrow> u64 \<Rightarrow> u64 \<Rightarrow> boot_trace \<Rightarrow> boot_trace" where
  "recordKernelPanic reason timestamp ip =
     recordEvent EV_KERNEL_PANIC timestamp ip KERNEL_PANIC (format [Str ''KERNEL PANIC: '', Str reason]) 0 0 0"

subsection \<open>Queries\<close>

definition getEventsByType :: "trace_event_type \<Rightarrow> boot_trace \<Rightarrow> trace_entry list" where
  "getEventsByType ty t = filter (\<lambda>e. te_type e = ty) (tr_events t)"

definition getEventsByBootState :: "boot_state \<Rightarrow> boot_trace \<Rightarrow> trace_entry list" where
  "getEventsByBootState s t = filter (\<lambda>e. te_bootState e = s) (tr_events t)"

definition getEventsInRange :: "u64 \<Rightarrow> u64 \<Rightarrow> boot_trace \<Rightarrow> trace_entry list" where
  "getEventsInRange startTime endTime t =
     filter (\<lambda>e. te_timestamp e \<ge> startTime \<and> te_timestamp e \<le> endTime) (tr_events t)"

definition getLastEvents :: "nat \<Rightarrow> boot_trace \<Rightarrow> trace_entry list" where
  "getLastEvents count t =
     (let start = (if length (tr_events t) > count then length (tr_events t) - count else 0) in drop start (tr_events t))"

definition trace_clear :: "boot_trace \<Rightarrow> boot_trace" where
  "trace_clear t = t\<lparr>tr_events := [], tr_stats := empty_statistics\<rparr>"

subsection \<open>Reports\<close>

definition yes_no :: "bool \<Rightarrow> item" where
  "yes_no b = Str (if b then ''YES'' else ''NO'')"

definition newline :: string where
  "newline = [CHR 0x0A]"

text \<open>The adjustment and the fill character set on the way stay in force for the entries that follow.\<close>

definition report_line :: "trace_entry \<Rightarrow> item list" where
  "report_line e =
     [Dec, SetW 12, U64 (te_timestamp e), Str '' | '',
      Str ''0x'', Hex, SetW 16, SetFill (CHR ''0''), U64 (te_instructionPointer e), Str '' | '',
      SetW 25, Str (bootStateToString (te_bootState e)), Str '' | '',
      SetW 30, Str (bootTraceEventTypeToString (te_type e)), Str '' | '',
      Str (te_description e), Str newline]"

definition report_header :: "trace_statistics \<Rightarrow> item list" where
  "report_header st =
     [Str ''=== BOOT TRACE REPORT ==='', Str newline, Str newline,
      Str ''Statistics:'', Str newline,
      Str ''  Total Events: '', U64 (ts_totalEvents st), Str newline,
      Str ''  Boot Completed: '', yes_no (ts_bootCompleted st), Str newline,
      Str ''  Panic Occurred: '', yes_no (ts_panicOccurred st), Str newline] @
     (if ts_bootCompleted st
      then [Str ''  Total Boot Cycles: '', U64 (ts_totalBootCycles st), Str newline] @
        (if ts_kernelEntryTimestamp st > 0
         then [Str ''  Firmware Boot Cycles: '', U64 (ts_kernelEntryTimestamp st - ts_powerOnTimestamp st), Str newline,
               Str ''  Kernel Init Cycles: '', U64 (ts_userSpaceTimestamp st - ts_kernelEntryTimestamp st), Str newline]
         else [])
      else []) @
     [Str ''  Syscalls Executed: '', U64 (ts_syscallCount st), Str newline,
      Str ''  Interrupts Raised: '', U64 (ts_interruptCount st), Str newline,
      Str ''  Exceptions: '', U64 (ts_exceptionCount st), Str newline, Str newline,
      Str ''Event Timeline:'', Str newline,
      AdjustLeft,
      SetW 12, Str ''Timestamp'', Str '' | '',
      SetW 18, Str ''IP'', Str '' | '',
      SetW 25, Str ''Boot State'', Str '' | '',
      SetW 30, Str ''Event Type'', Str '' | '',
      Str ''Description'', Str newline,
      Str (replicate 120 (CHR ''-'')), Str newline]"

definition generateTraceReport :: "boot_trace \<Rightarrow> string" where
  "generateTraceReport t = format (report_header (tr_stats t) @ concat (map report_line (tr_events t)))"

definition timeline_line :: "u64 \<Rightarrow> trace_entry \<Rightarrow> item list" where
  "timeline_line startTime e =
     [Str ''[+'', Dec, SetW 10, U64 (te_timestamp e - startTime), Str '' cycles] '',
      SetW 25, AdjustLeft, Str (bootStateToString (te_bootState e)), Str '' | '', Str (te_description e), Str newline]"

definition generateBootTimeline :: "boot_trace \<Rightarrow> string" where
  "generateBootTimeline t =
     (let milestones = filter (\<lambda>e. getEventImportance (te_type e) \<le> 1) (tr_events t);
          title = [Str ''=== BOOT TIMELINE ==='', Str newline, Str newline]
      in case milestones of
           [] \<Rightarrow> format (title @ [Str ''No milestone events recorded.'', Str newline])
         | e # _ \<Rightarrow> format (title @ concat (map (timeline_line (te_timestamp e)) milestones)))"

definition summary_line :: "trace_entry \<Rightarrow> item list" where
  "summary_line e =
     [SetW 12, U64 (te_timestamp e), Str '' | '',
      Str ''0x'', Hex, SetW 16, SetFill (CHR ''0''), U64 (te_instructionPointer e), Str '' | '',
      Dec, SetW 10, U64 (te_data1 e), Str '' | '', Str (te_description e), Str newline]"

definition generateSyscallSummary :: "boot_trace \<Rightarrow> string" where
  "generateSyscallSummary t =
     (let syscallEvents = getEventsByType EV_SYSCALL_EXECUTED t @ getEventsByType EV_SYSCALL_FIRST t;
          title = [Str ''=== SYSCALL SUMMARY ==='', Str newline, Str newline]
      in if syscallEvents = [] then format (title @ [Str ''No syscalls recorded.'', Str newline])
         else format (title @
           [Str ''Total Syscalls: '', U64 (of_nat (length syscallEvents)), Str newline, Str newline,
            AdjustLeft,
            SetW 12, Str ''Timestamp'', Str '' | '',
            SetW 18, Str ''IP'', Str '' | '',
            SetW 10, Str ''Number'', Str '' | '',
            Str ''Description'', Str newline,
            Str (replicate 80 (CHR ''-'')), Str newline] @ concat (map summary_line syscallEvents)))"

end
