(* ===== verification/Boot_Trace_Props.thy ===== *)
theory Boot_Trace_Props
  imports Boot_Trace
begin

text \<open>
  The boot trace keeps the newest admitted events and counts all of them; its report prints instruction pointers
  so that different ones look the same.
\<close>

interpretation trace_window: bounded_history maxEvents "push_event maxEvents" for maxEvents
proof
  fix h :: "trace_entry list" and x
  assume h: "length h \<le> maxEvents"
  show "push_event maxEvents x h = drop (Suc (length h) - maxEvents) (h @ [x])"
  proof (cases "Suc (length h) \<le> maxEvents")
    case False
    with h have "length h = maxEvents" by simp
    then show ?thesis by (cases h) (auto simp: push_event_def drop_Suc)
  qed (simp add: push_event_def)
qed

definition admitted :: "int \<Rightarrow> trace_entry \<Rightarrow> bool" where
  "admitted v e \<longleftrightarrow> getEventImportance (te_type e) \<le> v"

lemma addEvent_admitted: "tr_enabled t \<Longrightarrow> addEvent e t = (if admitted (tr_verbosity t) e
    then t\<lparr>tr_events := push_event (tr_maxEvents t) e (tr_events t),
      tr_stats := count_event e (tr_stats t\<lparr>ts_totalEvents := ts_totalEvents (tr_stats t) + 1\<rparr>)\<rparr> else t)"
  by (simp add: addEvent_def admitted_def Let_def not_le)

lemma fold_addEvent:
  assumes "tr_enabled t"
  shows "tr_events (fold addEvent es t) = fold (push_event (tr_maxEvents t)) (filter (admitted (tr_verbosity t)) es) (tr_events t) \<and>
    tr_stats (fold addEvent es t) = fold (\<lambda>e st. count_event e (st\<lparr>ts_totalEvents := ts_totalEvents st + 1\<rparr>))
      (filter (admitted (tr_verbosity t)) es) (tr_stats t)"
  using assms
proof (induction es arbitrary: t)
  case (Cons e es)
  have s: "tr_enabled (addEvent e t)" "tr_verbosity (addEvent e t) = tr_verbosity t" "tr_maxEvents (addEvent e t) = tr_maxEvents t"
    using Cons.prems by (simp_all add: addEvent_admitted)
  show ?case using Cons.IH [OF s(1)] Cons.prems by (simp add: s addEvent_admitted)
qed simp

lemma count_event_total [simp]: "ts_totalEvents (count_event e st) = ts_totalEvents st"
  by (simp add: count_event_def split: trace_event_type.split)

lemma count_event_syscalls: "ts_syscallCount (count_event e st) =
    ts_syscallCount st + (if te_type e \<in> {EV_SYSCALL_FIRST, EV_SYSCALL_EXECUTED} then 1 else 0)"
  by (simp add: count_event_def split: trace_event_type.split)

lemma fold_counts:
  "ts_totalEvents (fold (\<lambda>e st. count_event e (st\<lparr>ts_totalEvents := ts_totalEvents st + 1\<rparr>)) es st) =
     ts_totalEvents st + of_nat (length es) \<and>
   ts_syscallCount (fold (\<lambda>e st. count_event e (st\<lparr>ts_totalEvents := ts_totalEvents st + 1\<rparr>)) es st) =
     ts_syscallCount st + of_nat (length (filter (\<lambda>e. te_type e \<in> {EV_SYSCALL_FIRST, EV_SYSCALL_EXECUTED}) es))"
  by (induction es arbitrary: st) (simp_all add: count_event_syscalls)

text \<open>
  After any events the log holds the newest admitted ones in order, at most \<open>maxEvents\<close> of them, while the statistics count
  every admitted one.
\<close>

theorem boot_trace_keeps_newest:
  assumes "tr_enabled t" "tr_events t = []" "tr_stats t = empty_statistics"
  shows "let seen = filter (admitted (tr_verbosity t)) es; t' = fold addEvent es t in
     getLastEvents (tr_maxEvents t) t' = drop (length seen - tr_maxEvents t) seen \<and>
     tr_events t' = drop (length seen - tr_maxEvents t) seen \<and>
     ts_totalEvents (tr_stats t') = of_nat (length seen) \<and>
     ts_syscallCount (tr_stats t') = of_nat (length (filter (\<lambda>e. te_type e \<in> {EV_SYSCALL_FIRST, EV_SYSCALL_EXECUTED}) seen))"
proof -
  let ?seen = "filter (admitted (tr_verbosity t)) es"
  note f = fold_addEvent [OF assms(1), of es]
  have "fold (push_event (tr_maxEvents t)) ?seen [] = drop (length ?seen - tr_maxEvents t) ?seen"
    using trace_window.fold_newest [of "[]" "tr_maxEvents t" ?seen] by simp
  with f assms(2) have e: "tr_events (fold addEvent es t) = drop (length ?seen - tr_maxEvents t) ?seen" by simp
  then have "length (tr_events (fold addEvent es t)) \<le> tr_maxEvents t" by simp
  then have "getLastEvents (tr_maxEvents t) (fold addEvent es t) = tr_events (fold addEvent es t)"
    by (simp add: getLastEvents_def)
  then show ?thesis
    using f e fold_counts [of ?seen "tr_stats t"] assms(3) by (simp add: Let_def empty_statistics_def)
qed

lemma boot_trace_keeps_newest_witness:
  "tr_events (fold addEvent (replicate 3 \<lparr>te_type = EV_POWER_ON, te_timestamp = 5, te_instructionPointer = 0, te_bootState = POWER_ON,
     te_description = [], te_data1 = 0, te_data2 = 0, te_data3 = 0\<rparr>) (BootTraceSystem 2)) =
   replicate 2 \<lparr>te_type = EV_POWER_ON, te_timestamp = 5, te_instructionPointer = 0, te_bootState = POWER_ON,
     te_description = [], te_data1 = 0, te_data2 = 0, te_data3 = 0\<rparr>"
  using boot_trace_keeps_newest [of "BootTraceSystem 2" "replicate 3 \<lparr>te_type = EV_POWER_ON, te_timestamp = 5, te_instructionPointer = 0,
    te_bootState = POWER_ON, te_description = [], te_data1 = 0, te_data2 = 0, te_data3 = 0\<rparr>"]
  by (simp add: BootTraceSystem_def Let_def admitted_def getEventImportance_def numeral_3_eq_3 numeral_2_eq_2)

subsection \<open>The report\<close>

lemma put_keeps_left: "os_left os \<Longrightarrow> os_left (put i os)"
  by (cases i) (simp_all add: put_text_def)

lemma stream_keeps_left: "os_left os \<Longrightarrow> os_left (stream is os)"
  unfolding stream_def by (induction "is" arbitrary: os) (simp_all add: put_keeps_left)

definition shift_ip :: "trace_entry \<Rightarrow> trace_entry" where
  "shift_ip e = (let ip = te_instructionPointer e in e\<lparr>te_instructionPointer := (if 0 < ip \<and> ip < 2 ^ 60 then 16 * ip else ip)\<rparr>)"

lemma padded_left:
  assumes "0 < n" "n < 2 ^ 60" "os_left os" "os_width os = 16" "os_fill os = CHR ''0''"
  shows "padded (digits 16 (16 * n)) os = padded (digits 16 n) os"
proof -
  have "length (digits 16 n) \<le> 15" using assms(2) by (intro length_digits) simp_all
  then have "16 - length (digits 16 n) = Suc (15 - length (digits 16 n))" by simp
  moreover have "digits 16 (16 * n) = digits 16 n @ ''0''" using digits_times [of 16 n] assms(1) by (simp add: mult.commute)
  ultimately show ?thesis using assms by (simp add: padded_def Let_def)
qed

lemma hex16_shift:
  assumes "0 < ip" "ip < 2 ^ 60" "os_left os"
  shows "stream (hex16 (16 * ip)) os = stream (hex16 ip) os"
proof -
  have n: "0 < unat ip" "unat ip < 2 ^ 60" using assms by (simp_all add: word_less_nat_alt unat_gt_0)
  then have "unat (16 * ip) = 16 * unat ip" by (simp add: unat_word_ariths)
  with n assms(3) show ?thesis by (simp add: stream_def hex16_def put_text_def padded_left)
qed

lemma report_line_shift:
  assumes "os_left os"
  shows "stream (report_line (shift_ip e)) os = stream (report_line e) os"
proof -
  define pre where "pre = [Dec, SetW 12, U64 (te_timestamp e), Str '' | '', Str ''0x'']"
  define post where "post = [Str '' | '', SetW 25, Str (bootStateToString (te_bootState e)), Str '' | '',
      SetW 30, Str (bootTraceEventTypeToString (te_type e)), Str '' | '', Str (te_description e), Str newline]"
  have line: "report_line e = pre @ hex16 (te_instructionPointer e) @ post"
    "report_line (shift_ip e) = pre @ hex16 (te_instructionPointer (shift_ip e)) @ post"
    by (simp_all add: report_line_def hex16_def pre_def post_def shift_ip_def Let_def)
  have "stream (hex16 (te_instructionPointer (shift_ip e))) os' = stream (hex16 (te_instructionPointer e)) os'" if "os_left os'" for os'
    using hex16_shift [OF _ _ that, of "te_instructionPointer e"] by (simp add: shift_ip_def Let_def)
  from this [OF stream_keeps_left [OF assms]] show ?thesis by (simp add: line stream_append)
qed

text \<open>
  The report left-adjusts the address and fills with zeros on the right: multiplying instruction pointers by 16 does not
  change it.
\<close>

theorem report_ip_ambiguous:
  "generateTraceReport (t\<lparr>tr_events := map shift_ip (tr_events t)\<rparr>) = generateTraceReport t"
proof -
  have body: "stream (concat (map report_line (map shift_ip es))) os = stream (concat (map report_line es)) os" if "os_left os" for es os
    using that
    by (induction es arbitrary: os) (simp_all add: stream_append report_line_shift stream_keeps_left)
  have "os_left (stream (report_header st) os)" for st os
  proof -
    have "AdjustLeft \<in> set (report_header st)" by (simp add: report_header_def)
    then obtain xs ys where h: "report_header st = xs @ AdjustLeft # ys" by (auto simp: in_set_conv_decomp)
    have "os_left (stream (AdjustLeft # ys) os')" for os'
      using stream_keeps_left [of "put AdjustLeft os'" ys] by (simp add: stream_def)
    then show ?thesis by (simp add: h stream_append)
  qed
  then show ?thesis by (simp add: generateTraceReport_def format_def stream_append body [unfolded map_map])
qed

end
