(* ===== verification/Linux_Abi.thy ===== *)
theory Linux_Abi
  imports Execute Boot_Trace
begin

text \<open>
  The system-call layer: \<open>LinuxABI\<close> (\<open>src/src/abi/abi.cpp\<close>) with the heap and mapping cursors of the process, and
  \<open>SyscallDispatcher\<close> (\<open>src/src/syscall/SyscallDispatcher.cpp\<close>) with its trace and statistics. Diagnostics on
  standard output are left out; the bytes a guest writes to it are kept.
\<close>

subsection \<open>Results\<close>

record syscall_result =
  sr_returnValue :: u64
  sr_success :: bool
  sr_errorCode :: u32

definition SyscallResult :: "u64 \<Rightarrow> syscall_result" where
  "SyscallResult value = \<lparr>sr_returnValue = value, sr_success = True, sr_errorCode = 0\<rparr>"

definition SyscallError :: "u32 \<Rightarrow> syscall_result" where
  "SyscallError err = \<lparr>sr_returnValue = - 1, sr_success = False, sr_errorCode = err\<rparr>"

definition EBADF :: u32 where "EBADF = 9"
definition EFAULT :: u32 where "EFAULT = 14"
definition EINVAL :: u32 where "EINVAL = 22"
definition ENOSYS :: u32 where "ENOSYS = 38"

definition MAP_SHARED :: u64 where "MAP_SHARED = 1"
definition MAP_PRIVATE :: u64 where "MAP_PRIVATE = 2"
definition MAP_FIXED :: u64 where "MAP_FIXED = 0x10"
definition MAP_ANONYMOUS :: u64 where "MAP_ANONYMOUS = 0x20"

record linux_abi =
  abi_brkAddress :: u64
  abi_pid :: u32
  abi_mmapHint :: u64
  abi_stdout :: "u8 list"

definition LinuxABI :: linux_abi where
  "LinuxABI = \<lparr>abi_brkAddress = 0x40000000, abi_pid = 1000, abi_mmapHint = 0x60000000, abi_stdout = []\<rparr>"

subsection \<open>Helpers\<close>

text \<open>The loop of \<open>ReadString\<close>; \<open>None\<close> when a read throws.\<close>

fun read_string_loop :: "nat \<Rightarrow> u64 \<Rightarrow> memory \<Rightarrow> u8 list option \<times> memory" where
  "read_string_loop 0 addr m = (Some [], m)"
| "read_string_loop (Suc n) addr m =
     (case mem_Read m addr [0] of
        (Inl e, m') \<Rightarrow> (None, m')
      | (Inr bs, m') \<Rightarrow>
          if hd bs = 0 then (Some [], m')
          else (case read_string_loop n (addr + 1) m' of
                  (None, m'') \<Rightarrow> (None, m'')
                | (Some s, m'') \<Rightarrow> (Some (hd bs # s), m'')))"

definition ReadString :: "u64 \<Rightarrow> nat \<Rightarrow> memory \<Rightarrow> u8 list \<times> memory" where
  "ReadString addr maxLength m =
     (case read_string_loop maxLength addr m of (None, m') \<Rightarrow> ([], m') | (Some s, m') \<Rightarrow> (s, m'))"

definition IsValidFd :: "u64 \<Rightarrow> bool" where
  "IsValidFd fd \<longleftrightarrow> sint fd \<ge> 0 \<and> sint fd < 1024"

definition abi_pageSize :: u64 where
  "abi_pageSize = 16 * 1024"

definition round_to_page :: "u64 \<Rightarrow> u64" where
  "round_to_page a = (a + abi_pageSize - 1) AND NOT (abi_pageSize - 1)"

subsection \<open>The calls\<close>

definition SysRead :: "u64 \<Rightarrow> u64 \<Rightarrow> u64 \<Rightarrow> syscall_result" where
  "SysRead fd buf count =
     (if \<not> IsValidFd fd then SyscallError EBADF
      else if buf = 0 \<and> count > 0 then SyscallError EFAULT
      else if fd = 0 then SyscallResult 0
      else SyscallError ENOSYS)"

type_synonym process = "linux_abi \<times> memory"

definition SysWrite :: "u64 \<Rightarrow> u64 \<Rightarrow> u64 \<Rightarrow> process \<Rightarrow> syscall_result \<times> process" where
  "SysWrite fd buf count = (\<lambda>(a, m).
     if \<not> IsValidFd fd then (SyscallError EBADF, a, m)
     else if buf = 0 \<and> count > 0 then (SyscallError EFAULT, a, m)
     else if count = 0 then (SyscallResult 0, a, m)
     else if fd = 1 \<or> fd = 2
     then (case mem_Read m buf (replicate (unat count) 0) of
             (Inl e, m') \<Rightarrow> (SyscallError EFAULT, a, m')
           | (Inr bs, m') \<Rightarrow> (SyscallResult count, a\<lparr>abi_stdout := abi_stdout a @ bs\<rparr>, m'))
     else (SyscallResult count, a, m))"

definition SysOpen :: "u64 \<Rightarrow> u64 \<Rightarrow> u64 \<Rightarrow> process \<Rightarrow> syscall_result \<times> process" where
  "SysOpen pathname flags mode = (\<lambda>(a, m).
     if pathname = 0 then (SyscallError EFAULT, a, m)
     else case ReadString pathname 4096 m of
       (path, m') \<Rightarrow> if path = [] then (SyscallError EFAULT, a, m') else (SyscallResult 3, a, m'))"

definition SysClose :: "u64 \<Rightarrow> syscall_result" where
  "SysClose fd =
     (if \<not> IsValidFd fd then SyscallError EBADF
      else if fd < 3 then SyscallError EBADF
      else SyscallResult 0)"

definition SysExit :: "u64 \<Rightarrow> syscall_result" where
  "SysExit status = SyscallResult 0"

definition SysGetpid :: "linux_abi \<Rightarrow> syscall_result" where
  "SysGetpid a = SyscallResult (scast (abi_pid a))"

definition SysBrk :: "u64 \<Rightarrow> linux_abi \<Rightarrow> syscall_result \<times> linux_abi" where
  "SysBrk addr a =
     (if addr = 0 then (SyscallResult (abi_brkAddress a), a)
      else (SyscallResult addr, a\<lparr>abi_brkAddress := addr\<rparr>))"

definition SysUnknown :: "u64 \<Rightarrow> syscall_result" where
  "SysUnknown syscallNum = SyscallError ENOSYS"

definition SysMmap :: "u64 \<Rightarrow> u64 \<Rightarrow> u64 \<Rightarrow> u64 \<Rightarrow> u64 \<Rightarrow> u64 \<Rightarrow> linux_abi \<Rightarrow> syscall_result \<times> linux_abi" where
  "SysMmap addr len prot flags fd offset a =
     (let isShared = flags AND MAP_SHARED \<noteq> 0;
          isPrivate = flags AND MAP_PRIVATE \<noteq> 0;
          isAnonymous = flags AND MAP_ANONYMOUS \<noteq> 0;
          isFixed = flags AND MAP_FIXED \<noteq> 0 in
      if len = 0 then (SyscallError EINVAL, a)
      else if (isShared \<and> isPrivate) \<or> (\<not> isShared \<and> \<not> isPrivate) then (SyscallError EINVAL, a)
      else if \<not> isAnonymous \<and> \<not> IsValidFd fd then (SyscallError EBADF, a)
      else if addr \<noteq> 0 \<and> isFixed \<and> addr AND (abi_pageSize - 1) \<noteq> 0 then (SyscallError EINVAL, a)
      else
        let mappedAddr = (if addr \<noteq> 0 \<and> isFixed then addr
                          else if addr \<noteq> 0 then round_to_page addr
                          else round_to_page (abi_mmapHint a));
            alignedLength = round_to_page len
        in (SyscallResult mappedAddr,
            if addr = 0 \<or> \<not> isFixed then a\<lparr>abi_mmapHint := mappedAddr + alignedLength\<rparr> else a))"

definition SysMunmap :: "u64 \<Rightarrow> u64 \<Rightarrow> syscall_result" where
  "SysMunmap addr len =
     (if len = 0 then SyscallError EINVAL
      else if addr AND (abi_pageSize - 1) \<noteq> 0 then SyscallError EINVAL
      else SyscallResult 0)"

definition SysLseek :: "u64 \<Rightarrow> u64 \<Rightarrow> u64 \<Rightarrow> syscall_result" where
  "SysLseek fd offset whence =
     (if \<not> IsValidFd fd then SyscallError EBADF
      else if whence > 2 then SyscallError EINVAL
      else SyscallResult offset)"

subsection \<open>Dispatch\<close>

text \<open>The enumeration \<open>Syscall\<close> with its names; the number of a call is any 64-bit value.\<close>

definition syscall_names :: "(u64 \<times> string) list" where
  "syscall_names = [
     (0, ''read''), (1, ''write''), (2, ''open''), (3, ''close''), (4, ''stat''), (5, ''fstat''), (6, ''lstat''), 
     (7, ''poll''), (8, ''lseek''), (9, ''mmap''), (10, ''mprotect''), (11, ''munmap''), (12, ''brk''), 
     (13, ''rt_sigaction''), (14, ''rt_sigprocmask''), (16, ''ioctl''), (19, ''readv''), (20, ''writev''), 
     (21, ''access''), (22, ''pipe''), (23, ''select''), (24, ''sched_yield''), (25, ''mremap''), (26, ''msync''), 
     (27, ''mincore''), (28, ''madvise''), (32, ''dup''), (33, ''dup2''), (34, ''pause''), (35, ''nanosleep''), 
     (36, ''getitimer''), (37, ''alarm''), (38, ''setitimer''), (39, ''getpid''), (40, ''sendfile''), (41, ''socket''), 
     (42, ''connect''), (43, ''accept''), (44, ''sendto''), (45, ''recvfrom''), (56, ''clone''), (57, ''fork''), 
     (58, ''vfork''), (59, ''execve''), (60, ''exit''), (61, ''wait4''), (62, ''kill''), (63, ''uname''), 
     (72, ''fcntl''), (73, ''flock''), (74, ''fsync''), (79, ''getcwd''), (80, ''chdir''), (81, ''fchdir''), 
     (82, ''rename''), (83, ''mkdir''), (84, ''rmdir''), (85, ''creat''), (86, ''link''), (87, ''unlink''), 
     (88, ''symlink''), (89, ''readlink''), (90, ''chmod''), (91, ''fchmod''), (102, ''getuid''), (104, ''getgid''), 
     (107, ''geteuid''), (108, ''getegid''), (96, ''gettimeofday''), (100, ''times'')]"

definition GetSyscallName :: "u64 \<Rightarrow> string" where
  "GetSyscallName syscall = (case map_of syscall_names syscall of Some s \<Rightarrow> s | None \<Rightarrow> ''unknown'')"

definition run_syscall :: "u64 \<Rightarrow> u64 list \<Rightarrow> process \<Rightarrow> syscall_result \<times> process" where
  "run_syscall n args = (\<lambda>(a, m).
     let arg = (\<lambda>i. args ! i) in
     if n = 0 then (SysRead (arg 0) (arg 1) (arg 2), a, m)
     else if n = 1 then SysWrite (arg 0) (arg 1) (arg 2) (a, m)
     else if n = 2 then SysOpen (arg 0) (arg 1) (arg 2) (a, m)
     else if n = 3 then (SysClose (arg 0), a, m)
     else if n = 60 then (SysExit (arg 0), a, m)
     else if n = 39 then (SysGetpid a, a, m)
     else if n = 12 then (case SysBrk (arg 0) a of (r, a') \<Rightarrow> (r, a', m))
     else if n = 9 then (case SysMmap (arg 0) (arg 1) (arg 2) (arg 3) (arg 4) (arg 5) a of (r, a') \<Rightarrow> (r, a', m))
     else if n = 11 then (SysMunmap (arg 0) (arg 1), a, m)
     else (SysUnknown n, a, m))"

primrec read_grs :: "cpu_state \<Rightarrow> nat list \<Rightarrow> cpp_error + u64 list" where
  "read_grs s [] = Inr []"
| "read_grs s (i # is) = and_then (GetGR s i) (\<lambda>v. and_then (read_grs s is) (\<lambda>vs. Inr (v # vs)))"

text \<open>\<open>r15\<close> holds the number, \<open>r32..r37\<close> the arguments, \<open>r8\<close> and \<open>r10\<close> receive the value and the error code.\<close>

definition ExecuteSyscall :: "linux_abi \<Rightarrow> cpu_state \<Rightarrow> memory \<Rightarrow> (cpp_error + syscall_result) \<times> linux_abi \<times> cpu_state \<times> memory" where
  "ExecuteSyscall a cpu m =
     (case read_grs cpu [15, 32, 33, 34, 35, 36, 37] of
        Inl e \<Rightarrow> (Inl e, a, cpu, m)
      | Inr vs \<Rightarrow>
        (case run_syscall (hd vs) (tl vs) (a, m) of (result, a', m') \<Rightarrow>
          (case SetGR 8 (sr_returnValue result) cpu of
             Inl e \<Rightarrow> (Inl e, a', cpu, m')
           | Inr cpu1 \<Rightarrow>
             (case SetGR 10 (if sr_success result then 0 else scast (sr_errorCode result)) cpu1 of
                Inl e \<Rightarrow> (Inl e, a', cpu1, m')
              | Inr cpu2 \<Rightarrow> (Inr result, a', cpu2, m')))))"

subsection \<open>The dispatcher\<close>

record syscall_trace =
  st_instructionAddress :: u64
  st_syscallNumber :: u64
  st_syscallName :: string
  st_arguments :: "u64 list"
  st_returnValue :: u64
  st_errorCode :: u64
  st_success :: bool
  st_timestamp :: u64

record tracing_config =
  tc_enabled :: bool
  tc_logArguments :: bool
  tc_logReturnValues :: bool
  tc_logInstructionAddress :: bool
  tc_collectStatistics :: bool

record syscall_statistics =
  ss_totalCalls :: u64
  ss_successfulCalls :: u64
  ss_failedCalls :: u64

record syscall_dispatcher =
  sd_abi :: linux_abi
  sd_tracingConfig :: tracing_config
  sd_traceHistory :: "syscall_trace list"
  sd_statistics :: syscall_statistics
  sd_traceCounter :: u64
  sd_bootTrace :: "boot_trace option"
  sd_firstSyscallRecorded :: bool

definition default_tracing :: tracing_config where
  "default_tracing = \<lparr>tc_enabled = True, tc_logArguments = True, tc_logReturnValues = True, tc_logInstructionAddress = True,
     tc_collectStatistics = True\<rparr>"

definition zero_statistics :: syscall_statistics where
  "zero_statistics = \<lparr>ss_totalCalls = 0, ss_successfulCalls = 0, ss_failedCalls = 0\<rparr>"

definition SyscallDispatcher :: "linux_abi \<Rightarrow> syscall_dispatcher" where
  "SyscallDispatcher a = \<lparr>sd_abi = a, sd_tracingConfig = default_tracing, sd_traceHistory = [], sd_statistics = zero_statistics,
     sd_traceCounter = 0, sd_bootTrace = None, sd_firstSyscallRecorded = False\<rparr>"

definition IsSyscallInstruction :: "u64 \<Rightarrow> bool" where
  "IsSyscallInstruction raw =
     (let majorOpcode = drop_bit 37 (raw AND 0x1E00000000)
      in if majorOpcode \<noteq> 0 then False else drop_bit 6 raw AND 0x1FFFFF = 0x100000)"

definition UpdateStatistics :: "bool \<Rightarrow> syscall_statistics \<Rightarrow> syscall_statistics" where
  "UpdateStatistics success st =
     (let st = st\<lparr>ss_totalCalls := ss_totalCalls st + 1\<rparr>
      in if success then st\<lparr>ss_successfulCalls := ss_successfulCalls st + 1\<rparr>
         else st\<lparr>ss_failedCalls := ss_failedCalls st + 1\<rparr>)"

definition record_boot_trace :: "syscall_trace \<Rightarrow> syscall_dispatcher \<Rightarrow> syscall_dispatcher" where
  "record_boot_trace t d =
     (case sd_bootTrace d of
        None \<Rightarrow> d
      | Some b \<Rightarrow>
          if \<not> tr_enabled b then d
          else if \<not> sd_firstSyscallRecorded d
          then d\<lparr>sd_bootTrace := Some (recordFirstSyscall (st_syscallNumber t) (st_syscallName t) (st_timestamp t) (st_instructionAddress t) b),
                 sd_firstSyscallRecorded := True\<rparr>
          else d\<lparr>sd_bootTrace := Some (recordSyscall (st_syscallNumber t) (st_syscallName t) (st_timestamp t) (st_instructionAddress t) b)\<rparr>)"

definition DispatchSyscall :: "syscall_dispatcher \<Rightarrow> cpu_state \<Rightarrow> memory \<Rightarrow>
    (cpp_error + bool) \<times> syscall_dispatcher \<times> cpu_state \<times> memory" where
  "DispatchSyscall d cpu m =
     (case read_grs cpu [15, 32, 33, 34, 35, 36, 37] of
        Inl e \<Rightarrow> (Inl e, d, cpu, m)
      | Inr vs \<Rightarrow>
        (case ExecuteSyscall (sd_abi d) cpu m of
           (Inl e, a, cpu', m') \<Rightarrow> (Inl e, d\<lparr>sd_abi := a\<rparr>, cpu', m')
         | (Inr result, a, cpu', m') \<Rightarrow>
           let t = \<lparr>st_instructionAddress = cpu_ip cpu, st_syscallNumber = hd vs, st_syscallName = GetSyscallName (hd vs),
                    st_arguments = tl vs, st_returnValue = sr_returnValue result, st_errorCode = scast (sr_errorCode result),
                    st_success = sr_success result, st_timestamp = sd_traceCounter d\<rparr>;
               d1 = record_boot_trace t (d\<lparr>sd_abi := a, sd_traceCounter := sd_traceCounter d + 1\<rparr>);
               d2 = (if tc_enabled (sd_tracingConfig d1) then d1\<lparr>sd_traceHistory := sd_traceHistory d1 @ [t]\<rparr> else d1);
               d3 = (if tc_collectStatistics (sd_tracingConfig d2)
                     then d2\<lparr>sd_statistics := UpdateStatistics (sr_success result) (sd_statistics d2)\<rparr> else d2)
           in (Inr (sr_success result), d3, cpu', m')))"

definition ConfigureTracing :: "tracing_config \<Rightarrow> syscall_dispatcher \<Rightarrow> syscall_dispatcher" where
  "ConfigureTracing config d = d\<lparr>sd_tracingConfig := config\<rparr>"

definition ClearTraceHistory :: "syscall_dispatcher \<Rightarrow> syscall_dispatcher" where
  "ClearTraceHistory d = d\<lparr>sd_traceHistory := []\<rparr>"

definition ResetStatistics :: "syscall_dispatcher \<Rightarrow> syscall_dispatcher" where
  "ResetStatistics d = d\<lparr>sd_statistics := zero_statistics\<rparr>"

text \<open>\<open>FormatTrace\<close>: the arguments print in base 16, the rest of the line in base 10.\<close>

definition FormatTrace :: "syscall_trace \<Rightarrow> string" where
  "FormatTrace t = format (
     [Str ''[SYSCALL #'', U64 (st_timestamp t), Str ''] '', Str (st_syscallName t), Str ''(''] @
     concat (map (\<lambda>i. (if i > 0 then [Str '', ''] else []) @ [Str ''0x'', Hex, U64 (st_arguments t ! i)]) [0..<6]) @
     [Dec, Str '')'', Str '' = ''] @
     (if st_success t then [I64 (st_returnValue t)]
      else [Str ''-1 (errno='', U64 (st_errorCode t), Str '')'']) @
     [Str '' @ IP=0x'', Hex, U64 (st_instructionAddress t), Dec])"

end
