(* ===== verification/Syscall_Props.thy ===== *)
theory Syscall_Props
  imports Linux_Abi Cpu_Core_Control
begin

text \<open>
  System calls: the register convention, safety of the dispatcher as the core uses it, the regions \<open>mmap\<close> hands out,
  strings read from the guest, and the statistics.
\<close>

subsection \<open>Safety\<close>

lemma read_string_keeps: "mem_devices (snd (read_string_loop n a m)) = mem_devices m \<and> mem_data (snd (read_string_loop n a m)) = mem_data m"
  by (induction n a m rule: read_string_loop.induct) (auto dest: mem_Read_keeps split: prod.splits sum.splits option.splits)

text \<open>No call writes to guest memory.\<close>

lemma run_syscall_memory:
  assumes "run_syscall n args (a, m) = (r, a', m')"
  shows "mem_devices m' = mem_devices m \<and> mem_data m' = mem_data m"
  using assms read_string_keeps [of 4096 "args ! 0" m]
  by (auto simp: run_syscall_def Let_def SysWrite_def SysOpen_def ReadString_def
      dest: mem_Read_keeps split: if_splits prod.splits sum.splits option.splits)

lemma run_syscall_keeps: "devices_sound m \<Longrightarrow> run_syscall n args (a, m) = (r, a', m') \<Longrightarrow> devices_sound m'"
  using run_syscall_memory [of n args a m r a' m'] by (simp add: devices_sound_def)

lemma read_grs_ok:
  assumes "machine_ok (s, m)" "\<forall>i \<in> set is. i < NUM_GENERAL_REGISTERS"
  shows "\<exists>vs. read_grs s is = Inr vs \<and> length vs = length is \<and> (\<forall>k < length is. GetGR s (is ! k) = Inr (vs ! k))"
  using assms(2)
proof (induction "is")
  case (Cons i "is")
  then obtain vs where vs: "read_grs s is = Inr vs" "length vs = length is" "\<forall>k < length is. GetGR s (is ! k) = Inr (vs ! k)" by auto
  have "cpu_shape s \<and> frame_ok s" using assms(1) unfolding machine_ok_def guest_ok_def by simp
  then obtain v where "GetGR s i = Inr v" using gr_bank.get_in [of s i] Cons.prems by auto
  with vs show ?case by (auto simp: nth_Cons split: nat.split)
qed simp

text \<open>
  The register convention: the call named by \<open>r15\<close> runs on \<open>r32..r37\<close>, \<open>r8\<close> and \<open>r10\<close> receive the result and the error code,
  and every other register keeps its value.
\<close>

theorem syscall_convention:
  assumes "machine_ok (s, m)"
  shows "\<exists>n args r a' s' m'. GetGR s 15 = Inr n \<and> length args = 6 \<and> (\<forall>k < 6. GetGR s (32 + k) = Inr (args ! k)) \<and>
    run_syscall n args (a, m) = (r, a', m') \<and> ExecuteSyscall a s m = (Inr r, a', s', m') \<and>
    GetGR s' 8 = Inr (sr_returnValue r) \<and> GetGR s' 10 = Inr (if sr_success r then 0 else scast (sr_errorCode r)) \<and>
    (\<forall>j < NUM_GENERAL_REGISTERS. j \<noteq> 8 \<longrightarrow> j \<noteq> 10 \<longrightarrow> GetGR s' j = GetGR s j) \<and> machine_ok (s', m')"
proof -
  obtain vs where vs: "read_grs s [15, 32, 33, 34, 35, 36, 37] = Inr vs" "length vs = 7"
      "\<forall>k < 7. GetGR s ([15, 32, 33, 34, 35, 36, 37] ! k) = Inr (vs ! k)"
    using read_grs_ok [OF assms, of "[15, 32, 33, 34, 35, 36, 37]"] by auto
  then obtain n args where a: "vs = n # args" "length args = 6" by (cases vs) auto
  have n: "GetGR s 15 = Inr n" using vs(3) [rule_format, of 0] a by simp
  have args: "GetGR s (32 + k) = Inr (args ! k)" if "k < 6" for k
    using that vs(3) [rule_format, of "Suc k"] a by (auto simp: less_Suc_eq numeral_eq_Suc)
  obtain r a' m' where run: "run_syscall n args (a, m) = (r, a', m')" by (metis prod_cases3)
  have ok: "cpu_shape s \<and> frame_ok s" using assms unfolding machine_ok_def guest_ok_def by simp
  then obtain s1 where s1: "SetGR 8 (sr_returnValue r) s = Inr s1" "cpu_shape s1 \<and> frame_ok s1"
    using gr_bank.set_in [of s 8 "sr_returnValue r"] by auto
  let ?e = "if sr_success r then 0 else scast (sr_errorCode r) :: u64"
  obtain s2 where s2: "SetGR 10 ?e s1 = Inr s2" using gr_bank.set_in [OF s1(2), of 10 ?e] by auto
  have "ExecuteSyscall a s m = (Inr r, a', s2, m')"
    using vs(1) a run s1(1) s2 by (simp add: ExecuteSyscall_def)
  moreover have "GetGR s2 8 = Inr (sr_returnValue r)" "GetGR s2 10 = Inr ?e"
      "\<forall>j < NUM_GENERAL_REGISTERS. j \<noteq> 8 \<longrightarrow> j \<noteq> 10 \<longrightarrow> GetGR s2 j = GetGR s j"
    using gr_bank.get_set [OF s1(2) _ s2] gr_bank.get_set [OF ok _ s1(1)] by simp_all
  moreover have "machine_ok (s2, m)" using state_no_ub(3) [OF state_no_ub(3) [OF assms s1(1)] s2] .
  then have "machine_ok (s2, m')" using run_syscall_keeps [OF _ run] by (simp add: machine_ok_def)
  ultimately show ?thesis using n a(2) args run by blast
qed

text \<open>A machine holding the call number and its arguments; \<open>getpid\<close> on it.\<close>

lemma syscall_convention_witness:
  "\<exists>r a' s' m'. ExecuteSyscall LinuxABI demo_state demo_ram = (Inr r, a', s', m') \<and> GetGR s' 8 = Inr (sr_returnValue r)"
  using syscall_convention [OF demo_ok, of LinuxABI] by blast

subsection \<open>The dispatcher in the core\<close>

text \<open>The dispatcher as \<open>CPU::executeInstruction\<close> calls it.\<close>

definition core_dispatcher :: "syscall_dispatcher dispatcher" where
  "core_dispatcher = Some (\<lambda>d s m. case DispatchSyscall d s m of (r, d', s', m') \<Rightarrow> (lift_cpp r, d', s', m'))"

lemma record_boot_trace_abi [simp]: "sd_abi (record_boot_trace t d) = sd_abi d"
  by (simp add: record_boot_trace_def Let_def split: option.splits)

lemma DispatchSyscall_ok:
  assumes "machine_ok (s, m)"
  shows "\<exists>b d' s' m'. DispatchSyscall d s m = (Inr b, d', s', m') \<and> machine_ok (s', m') \<and>
    (\<exists>r a'. ExecuteSyscall (sd_abi d) s m = (Inr r, a', s', m') \<and> b = sr_success r \<and> sd_abi d' = a')"
proof -
  obtain r a' s' m' where "ExecuteSyscall (sd_abi d) s m = (Inr r, a', s', m')" "machine_ok (s', m')"
    using syscall_convention [OF assms, of "sd_abi d"] by blast
  moreover obtain vs where "read_grs s [15, 32, 33, 34, 35, 36, 37] = Inr vs"
    using read_grs_ok [OF assms, of "[15, 32, 33, 34, 35, 36, 37]"] by auto
  ultimately show ?thesis by (simp add: DispatchSyscall_def Let_def)
qed

lemma core_dispatcher_ok: "dispatcher_ok core_dispatcher"
proof -
  have "lift_cpp r \<noteq> Inl ub \<and> machine_ok (s', m')" if "machine_ok (s, m)" "DispatchSyscall d s m = (r, d', s', m')" for d s m r d' s' m'
    using DispatchSyscall_ok [OF that(1), of d] that(2) by auto
  then show ?thesis by (simp add: dispatcher_ok_def core_dispatcher_def split: prod.splits)
qed

text \<open>C7: a system-call instruction, as the next instruction of the current bundle of a sound machine with no interrupt pending:
  the call numbered by \<open>r15\<close> runs on the six arguments in \<open>r32..r37\<close>, its result is in \<open>r8\<close> and its error code in
  \<open>r10\<close>, every other general register and the bytes of guest memory keep their values, and execution continues with the
  next slot.\<close>

theorem syscall_step:
  assumes "at_instruction c i" "is_syscall i" "machine_ok (cc_state c, m)"
  shows "\<exists>n args r a' s' m' d'. GetGR (cc_state c) 15 = Inr n \<and>
    length args = 6 \<and> (\<forall>k < 6. GetGR (cc_state c) (32 + k) = Inr (args ! k)) \<and>
    run_syscall n args (sd_abi d, m) = (r, a', m') \<and> sd_abi d' = a' \<and>
    core_step h core_dispatcher (c, d, m) = Some (Inr (True, next_bundle (c\<lparr>cc_state := AdvanceITC 1 s'\<rparr>), d', m')) \<and>
    GetGR s' 8 = Inr (sr_returnValue r) \<and> GetGR s' 10 = Inr (if sr_success r then 0 else scast (sr_errorCode r)) \<and>
    (\<forall>j < NUM_GENERAL_REGISTERS. j \<noteq> 8 \<longrightarrow> j \<noteq> 10 \<longrightarrow> GetGR s' j = GetGR (cc_state c) j) \<and>
    mem_data m' = mem_data m \<and> machine_ok (s', m')"
proof -
  obtain n args r a' s' m' where x: "GetGR (cc_state c) 15 = Inr n" "length args = 6"
      "\<forall>k < 6. GetGR (cc_state c) (32 + k) = Inr (args ! k)" "run_syscall n args (sd_abi d, m) = (r, a', m')"
      "ExecuteSyscall (sd_abi d) (cc_state c) m = (Inr r, a', s', m')"
      "GetGR s' 8 = Inr (sr_returnValue r)" "GetGR s' 10 = Inr (if sr_success r then 0 else scast (sr_errorCode r))"
      "\<forall>j < NUM_GENERAL_REGISTERS. j \<noteq> 8 \<longrightarrow> j \<noteq> 10 \<longrightarrow> GetGR s' j = GetGR (cc_state c) j" "machine_ok (s', m')"
    using syscall_convention [OF assms(3), of "sd_abi d"] by blast
  obtain d' where d': "DispatchSyscall d (cc_state c) m = (Inr (sr_success r), d', s', m')" "sd_abi d' = a'"
    using DispatchSyscall_ok [OF assms(3), of d] x(5) by auto
  then have "executeInstruction h core_dispatcher i (c, d, m) = Some (Inr (c\<lparr>cc_state := s'\<rparr>, d', m'))"
    using assms(2) by (simp add: executeInstruction_def core_dispatcher_def caught_def)
  note at_instruction_effect [OF assms(1) this]
  with x d'(2) run_syscall_memory [OF x(4)] show ?thesis by blast
qed

lemma syscall_step_witness:
  "\<forall>h. \<exists>c' d' m'. core_step h core_dispatcher (demo_at (SetImmediate 0x100000 (InstructionEx BREAK X_UNIT)), SyscallDispatcher LinuxABI, demo_ram)
     = Some (Inr (True, c', d', m')) \<and> mem_data m' = replicate 32 0"
proof
  fix h :: "'a host_float"
  let ?i = "SetImmediate 0x100000 (InstructionEx BREAK X_UNIT)"
  have "at_instruction (demo_at ?i) ?i" "is_syscall ?i" by (simp_all add: SetImmediate_def InstructionEx_def is_syscall_def)
  from syscall_step [OF this demo_at_ok, of "SyscallDispatcher LinuxABI" h]
  show "\<exists>c' d' m'. core_step h core_dispatcher (demo_at ?i, SyscallDispatcher LinuxABI, demo_ram) = Some (Inr (True, c', d', m')) \<and>
      mem_data m' = replicate 32 0"
    by auto
qed

subsection \<open>Statistics\<close>

text \<open>Every dispatched call is counted once, as a success or as a failure.\<close>

lemma statistics_add_up:
  assumes "ss_totalCalls (sd_statistics d) = ss_successfulCalls (sd_statistics d) + ss_failedCalls (sd_statistics d)"
    and "DispatchSyscall d s m = (r, d', s', m')"
  shows "ss_totalCalls (sd_statistics d') = ss_successfulCalls (sd_statistics d') + ss_failedCalls (sd_statistics d')"
  using assms
  by (auto simp: DispatchSyscall_def Let_def record_boot_trace_def UpdateStatistics_def split: sum.splits prod.splits if_splits option.splits)

subsection \<open>Regions of mmap\<close>

lemma round_to_page_nat:
  assumes "unat a + 0x4000 \<le> 2 ^ 64"
  shows "unat a \<le> unat (round_to_page a)" "unat (round_to_page a) < unat a + 0x4000" "0x4000 dvd unat (round_to_page a)"
proof -
  let ?n = "unat a + 0x3FFF"
  have "unat (a + 0x3FFF) = ?n" using assms by (simp add: unat_word_ariths)
  moreover have "round_to_page a = (a + 0x3FFF) AND NOT (mask 14)"
    by (simp add: round_to_page_def abi_pageSize_def mask_eq_exp_minus_1 add.commute)
  ultimately have e: "unat (round_to_page a) = ?n - ?n mod 0x4000" by (simp add: unat_and_not_mask)
  have "?n mod 0x4000 < 0x4000" "?n mod 0x4000 \<le> ?n" by simp_all
  with e show "unat a \<le> unat (round_to_page a)" "unat (round_to_page a) < unat a + 0x4000" by linarith+
  show "0x4000 dvd unat (round_to_page a)" unfolding e by (rule dvd_minus_mod)
qed

text \<open>The regions a sequence of calls obtains from \<open>mmap\<close>: address and length.\<close>

type_synonym call = "u64 \<times> u64 list"

primrec regions :: "call list \<Rightarrow> process \<Rightarrow> (nat \<times> nat) list" where
  "regions [] p = []"
| "regions (c # cs) p = (case run_syscall (fst c) (snd c) p of (r, p') \<Rightarrow>
     (if fst c = 9 \<and> sr_success r then [(unat (sr_returnValue r), unat (snd c ! 1))] else []) @ regions cs p')"

definition mapped_bytes :: "call list \<Rightarrow> nat" where
  "mapped_bytes cs = (\<Sum>c \<leftarrow> cs. if fst c = 9 then unat (snd c ! 1) + 0x8000 else 0)"

lemma other_call_hint: "n \<noteq> 9 \<Longrightarrow> run_syscall n args (a, m) = (r, a', m') \<Longrightarrow> abi_mmapHint a' = abi_mmapHint a"
  by (auto simp: run_syscall_def Let_def SysWrite_def SysOpen_def SysBrk_def split: if_splits prod.splits sum.splits)

lemma mmap_call:
  assumes "SysMmap 0 len prot flags fd offset a = (r, a')" "unat (abi_mmapHint a) + (unat len + 0x8000) < 2 ^ 64"
  shows "sr_success r \<Longrightarrow> unat (abi_mmapHint a) \<le> unat (sr_returnValue r) \<and> 0x4000 dvd unat (sr_returnValue r) \<and>
      unat (sr_returnValue r) + unat len \<le> unat (abi_mmapHint a')"
    and "unat (abi_mmapHint a) \<le> unat (abi_mmapHint a')" "unat (abi_mmapHint a') \<le> unat (abi_mmapHint a) + (unat len + 0x8000)"
proof -
  let ?h = "round_to_page (abi_mmapHint a)" and ?l = "round_to_page len"
  have b: "unat (abi_mmapHint a) + 0x4000 \<le> 2 ^ 64" "unat len + 0x4000 \<le> 2 ^ 64" using assms(2) by simp_all
  note h = round_to_page_nat [OF b(1)] and l = round_to_page_nat [OF b(2)]
  have "unat (?h + ?l) = unat ?h + unat ?l" using h(2) l(2) assms(2) by (simp add: unat_word_ariths)
  moreover have "(\<not> sr_success r \<and> a' = a) \<or> (sr_success r \<and> sr_returnValue r = ?h \<and> abi_mmapHint a' = ?h + ?l)"
    using assms(1) by (auto simp: SysMmap_def Let_def SyscallError_def SyscallResult_def split: if_splits)
  ultimately show "sr_success r \<Longrightarrow> unat (abi_mmapHint a) \<le> unat (sr_returnValue r) \<and> 0x4000 dvd unat (sr_returnValue r) \<and>
      unat (sr_returnValue r) + unat len \<le> unat (abi_mmapHint a')"
    "unat (abi_mmapHint a) \<le> unat (abi_mmapHint a')" "unat (abi_mmapHint a') \<le> unat (abi_mmapHint a) + (unat len + 0x8000)"
    using h l by auto
qed

text \<open>C8: 
  While no call passes an address to \<open>mmap\<close> and the address space does not run out, the regions are page-aligned, ascending
  and disjoint, whatever other calls come between.
\<close>

theorem mmap_regions_disjoint:
  assumes "\<forall>c \<in> set cs. fst c = 9 \<longrightarrow> snd c ! 0 = 0" "unat (abi_mmapHint a) + mapped_bytes cs < 2 ^ 64"
  shows "sorted_wrt (\<lambda>(b, l) (b', l'). b + l \<le> b') (regions cs (a, m)) \<and>
    (\<forall>(b, l) \<in> set (regions cs (a, m)). unat (abi_mmapHint a) \<le> b \<and> 0x4000 dvd b)"
  using assms
proof (induction cs arbitrary: a m)
  case (Cons c cs)
  obtain r a' m' where run: "run_syscall (fst c) (snd c) (a, m) = (r, a', m')" by (metis prod_cases3)
  show ?case
  proof (cases "fst c = 9")
    case False
    then have "abi_mmapHint a' = abi_mmapHint a" using other_call_hint run by blast
    with Cons.IH [of a' m'] Cons.prems False run show ?thesis by (simp add: mapped_bytes_def)
  next
    case True
    then have m: "SysMmap 0 (snd c ! 1) (snd c ! 2) (snd c ! 3) (snd c ! 4) (snd c ! 5) a = (r, a')"
      using run Cons.prems(1) by (auto simp: run_syscall_def Let_def split: prod.splits)
    have b: "unat (abi_mmapHint a) + (unat (snd c ! 1) + 0x8000) < 2 ^ 64" using Cons.prems(2) True by (simp add: mapped_bytes_def)
    note mm = mmap_call [OF m b]
    have "unat (abi_mmapHint a') + mapped_bytes cs < 2 ^ 64" using mm(3) Cons.prems(2) True by (simp add: mapped_bytes_def)
    then have ih: "sorted_wrt (\<lambda>(b, l) (b', l'). b + l \<le> b') (regions cs (a', m'))"
        "\<forall>(b, l) \<in> set (regions cs (a', m')). unat (abi_mmapHint a') \<le> b \<and> 0x4000 dvd b"
      using Cons.IH [of a' m'] Cons.prems(1) by simp_all
    have later: "unat (abi_mmapHint a') \<le> b \<and> 0x4000 dvd b" if "(b, l) \<in> set (regions cs (a', m'))" for b l
      using ih(2) that by blast
    have rs: "regions (c # cs) (a, m) = (if sr_success r then [(unat (sr_returnValue r), unat (snd c ! 1))] else []) @ regions cs (a', m')"
      using run True by simp
    show ?thesis
      unfolding rs using ih(1) mm(1,2) later by (cases "sr_success r") (auto dest!: later intro: order_trans)
  qed
qed simp

definition demo_mmap :: "u64 \<Rightarrow> call" where
  "demo_mmap addr = (9, [addr, 0x4000, 3, 0x22, - 1, 0])"

lemma mmap_regions_disjoint_witness:
  "sorted_wrt (\<lambda>(b, l) (b', l'). b + l \<le> b') (regions [demo_mmap 0, (39, []), demo_mmap 0] (LinuxABI, demo_ram))"
  using mmap_regions_disjoint [of "[demo_mmap 0, (39, []), demo_mmap 0]" LinuxABI demo_ram]
  by (simp add: demo_mmap_def mapped_bytes_def LinuxABI_def)

text \<open>A hint moves the cursor back: the third mapping repeats the first one's region.\<close>

lemma mmap_hint_overlaps:
  "map fst (regions [demo_mmap 0, demo_mmap 0x5FFFC000, demo_mmap 0] (LinuxABI, m)) = [0x60000000, 0x5FFFC000, 0x60000000]"
  by (simp add: demo_mmap_def LinuxABI_def run_syscall_def SysMmap_def SyscallResult_def MAP_SHARED_def MAP_PRIVATE_def MAP_FIXED_def
      MAP_ANONYMOUS_def round_to_page_def abi_pageSize_def)

text \<open>A length within a page of \<open>2\<^sup>6\<^sup>4\<close> rounds to zero: the call succeeds and reserves nothing.\<close>

lemma mmap_huge_length:
  "SysMmap 0 0xFFFFFFFFFFFFF000 3 0x22 (- 1) 0 LinuxABI = (SyscallResult 0x60000000, LinuxABI)"
  by (simp add: LinuxABI_def SysMmap_def MAP_SHARED_def MAP_PRIVATE_def MAP_FIXED_def MAP_ANONYMOUS_def round_to_page_def abi_pageSize_def)

subsection \<open>Strings\<close>

lemma read_string_plain:
  assumes "\<not> mmu_enabled (mem_mmu m)" "mem_devices m = []" "length (mem_data m) \<le> 2 ^ 61"
    and "take (length s + 1) (drop (unat a) (mem_data m)) = s @ [0]" "0 \<notin> set s" "length s < n"
  shows "read_string_loop n a m = (Some s, m)"
  using assms(4-6)
proof (induction n arbitrary: a s)
  case (Suc n)
  let ?d = "mem_data m"
  have len: "unat a + length s + 1 \<le> length ?d"
  proof -
    have "length (take (length s + 1) (drop (unat a) ?d)) = length s + 1" using Suc.prems(1) by simp
    then show ?thesis by simp
  qed
  then have r: "mem_Read m a [0] = (Inr [?d ! unat a], m)"
    using plain_mem_Read [OF assms(1,2), of a 1] assms(3) by (simp add: read_bytes_def Cons_nth_drop_Suc [symmetric] take_Suc_conv_app_nth)
  have hd: "?d ! unat a = (s @ [0]) ! 0" using Suc.prems(1) len by (metis One_nat_def add_gr_0 add.right_neutral less_numeral_extra(1) nth_drop nth_take add_leD1 add_lessD1 le_less_linear less_le_trans)
  show ?case
  proof (cases s)
    case Nil
    with r hd show ?thesis by simp
  next
    case (Cons x xs)
    have "unat (a + 1) = unat a + 1" using len assms(3) by (simp add: unat_word_ariths)
    moreover have "drop (unat a + 1) ?d = tl (drop (unat a) ?d)" by (simp add: drop_Suc tl_drop)
    then have "take (length xs + 1) (drop (unat a + 1) ?d) = xs @ [0]"
      using Suc.prems(1) Cons len by (cases "drop (unat a) ?d") simp_all
    ultimately have "read_string_loop n (a + 1) m = (Some xs, m)" using Suc.IH [of xs "a + 1"] Suc.prems(2,3) Cons by simp
    with r hd Cons Suc.prems(2) show ?thesis by simp
  qed
qed simp

text \<open>\<open>ReadString\<close> returns the bytes up to the terminating zero.\<close>

theorem ReadString_correct:
  assumes "\<not> mmu_enabled (mem_mmu m)" "mem_devices m = []" "length (mem_data m) \<le> 2 ^ 61"
    and "take (length s + 1) (drop (unat a) (mem_data m)) = s @ [0]" "0 \<notin> set s" "length s < n"
  shows "ReadString a n m = (s, m)"
  using read_string_plain [OF assms] by (simp add: ReadString_def)

lemma ReadString_correct_witness: "ReadString 4 4096 (demo_ram\<lparr>mem_data := [0, 0, 0, 0, 0x68, 0x69, 0, 7]\<rparr>) = ([0x68, 0x69], demo_ram\<lparr>mem_data := [0, 0, 0, 0, 0x68, 0x69, 0, 7]\<rparr>)"
  using ReadString_correct [of "demo_ram\<lparr>mem_data := [0, 0, 0, 0, 0x68, 0x69, 0, 7]\<rparr>" "[0x68, 0x69]" 4 4096] by simp

end
