(* ===== verification/Firmware_Tables.thy ===== *)
theory Firmware_Tables
  imports Bytes Prelude
begin

text \<open>
  The firmware tables handed to the guest: the SAL system table with the PAL and SAL calls
  (\<open>src/src/vm/IA64SalFirmware.cpp\<close>) and the ACPI tables (\<open>src/src/vm/IA64AcpiFirmware.cpp\<close>). A table is built field by
  field in a zeroed array; its last step stores a checksum that makes the bytes sum to zero.
\<close>

subsection \<open>Fields\<close>

definition put8 :: "nat \<Rightarrow> u8 \<Rightarrow> u8 list \<Rightarrow> u8 list" where
  "put8 offset value bs = write_bytes bs offset [value]"

definition put16 :: "nat \<Rightarrow> u16 \<Rightarrow> u8 list \<Rightarrow> u8 list" where
  "put16 offset value bs = write_bytes bs offset (le_bytes 2 value)"

definition put32 :: "nat \<Rightarrow> u32 \<Rightarrow> u8 list \<Rightarrow> u8 list" where
  "put32 offset value bs = write_bytes bs offset (le_bytes 4 value)"

definition put64 :: "nat \<Rightarrow> u64 \<Rightarrow> u8 list \<Rightarrow> u8 list" where
  "put64 offset value bs = write_bytes bs offset (le_bytes 8 value)"

definition get16 :: "nat \<Rightarrow> u8 list \<Rightarrow> u16" where
  "get16 offset bs = le_value (read_bytes bs offset 2)"

definition get32 :: "nat \<Rightarrow> u8 list \<Rightarrow> u32" where
  "get32 offset bs = le_value (read_bytes bs offset 4)"

definition get64 :: "nat \<Rightarrow> u8 list \<Rightarrow> u64" where
  "get64 offset bs = le_value (read_bytes bs offset 8)"

definition checksum :: "u8 list \<Rightarrow> nat \<Rightarrow> u8" where
  "checksum bs n = sum_list (take n bs)"

definition fixedString :: "u8 list \<Rightarrow> nat \<Rightarrow> nat \<Rightarrow> u8 list" where
  "fixedString bs offset n = takeWhile (\<lambda>b. b \<noteq> 0) (read_bytes bs offset n)"

definition ascii :: "string \<Rightarrow> u8 list" where
  "ascii s = map of_char s"

text \<open>\<open>bytes[offset] = 0 - sum\<close>, the last step of every builder.\<close>

definition seal :: "nat \<Rightarrow> nat \<Rightarrow> u8 list \<Rightarrow> u8 list" where
  "seal offset n bs = put8 offset (0 - checksum bs n) bs"

subsection \<open>The SAL system table\<close>

definition kSalSystemTableHeaderSize :: nat where "kSalSystemTableHeaderSize = 96"
definition kSalEntryPointDescriptorSize :: nat where "kSalEntryPointDescriptorSize = 48"
definition kSalSystemTableSize :: nat where
  "kSalSystemTableSize = kSalSystemTableHeaderSize + kSalEntryPointDescriptorSize"
definition kSalDescEntryPoint :: u8 where "kSalDescEntryPoint = 0"

record sal_entry_point =
  sal_palProcedure :: u64
  sal_salProcedure :: u64
  sal_globalPointer :: u64

definition kSalSystemTableGuid :: "u8 list" where
  "kSalSystemTableGuid = [0x32, 0x2D, 0x9D, 0xEB, 0x88, 0x2D, 0xD3, 0x11, 0x9A, 0x16, 0x00, 0x90, 0x27, 0x3F, 0xC1, 0x4D]"

definition sal_buildEfiConfigurationTableEntry :: "u64 \<Rightarrow> u8 list" where
  "sal_buildEfiConfigurationTableEntry salSystemTableAddress =
     put64 16 salSystemTableAddress (write_bytes (replicate 24 0) 0 kSalSystemTableGuid)"

definition sal_fields :: "sal_entry_point \<Rightarrow> u8 list \<Rightarrow> u8 list" where
  "sal_fields e bs =
     (let bs = write_bytes bs 0 (ascii ''SST_'');
          bs = put32 4 (of_nat kSalSystemTableSize) bs;
          bs = put8 9 0 (put8 8 1 bs);
          bs = put16 10 1 bs;
          bs = put8 12 0 bs;
          bs = put8 23 0 (put8 22 0 (put8 21 0 (put8 20 0 bs)));
          bs = write_bytes bs 24 (ascii ''guideXOS'');
          bs = write_bytes bs 56 (ascii ''guideXOS IA-64 Virtual Platform'');
          descriptor = kSalSystemTableHeaderSize;
          bs = put8 descriptor kSalDescEntryPoint bs;
          bs = put64 (descriptor + 8) (sal_palProcedure e) bs;
          bs = put64 (descriptor + 16) (sal_salProcedure e) bs
      in put64 (descriptor + 24) (sal_globalPointer e) bs)"

definition buildSalSystemTable :: "sal_entry_point \<Rightarrow> u8 list" where
  "buildSalSystemTable e =
     (let bs = sal_fields e (replicate kSalSystemTableSize 0) in seal 12 (length bs) bs)"

record sal_call_result =
  sal_status :: u64
  sal_v0 :: u64
  sal_v1 :: u64
  sal_v2 :: u64

definition not_implemented :: sal_call_result where
  "not_implemented = \<lparr>sal_status = - 1, sal_v0 = 0, sal_v1 = 0, sal_v2 = 0\<rparr>"

definition dispatchSalCall :: "u64 \<Rightarrow> u64 \<Rightarrow> sal_call_result" where
  "dispatchSalCall function arg1 =
     (if function \<noteq> 0x01000012 then not_implemented
      else if arg1 \<noteq> 0 \<and> arg1 \<noteq> 1 \<and> arg1 \<noteq> 2 then not_implemented\<lparr>sal_status := - 2\<rparr>
      else not_implemented\<lparr>sal_status := 0, sal_v0 := 1, sal_v1 := 0\<rparr>)"

definition pal_pcci1 :: u64 where
  "pal_pcci1 = push_bit 0 1 OR push_bit 1 1 OR push_bit 8 4 OR push_bit 16 6 OR push_bit 24 6"

definition pal_pcci2 :: u64 where
  "pal_pcci2 = push_bit 0 (16 * 1024) OR push_bit 32 0 OR push_bit 40 6 OR push_bit 48 47"

definition dispatchPalCall :: "u64 \<Rightarrow> u64 \<Rightarrow> u64 \<Rightarrow> u64 \<Rightarrow> sal_call_result" where
  "dispatchPalCall function arg1 arg2 arg3 =
     (let identityRatio = push_bit 32 1 OR 1 in
      if function = 14
      then not_implemented\<lparr>sal_status := 0, sal_v0 := identityRatio, sal_v1 := identityRatio, sal_v2 := identityRatio\<rparr>
      else if function = 13 then not_implemented\<lparr>sal_status := 0, sal_v0 := 1\<rparr>
      else if function = 4
      then if arg1 \<noteq> 0 \<or> arg2 \<noteq> 0 \<or> arg3 \<noteq> 0 then not_implemented\<lparr>sal_status := - 2\<rparr>
           else not_implemented\<lparr>sal_status := 0, sal_v0 := 1, sal_v1 := 1, sal_v2 := 0\<rparr>
      else if function = 2
      then if arg1 \<noteq> 0 \<or> arg2 \<noteq> 2 \<or> arg3 \<noteq> 0 then not_implemented\<lparr>sal_status := - 2\<rparr>
           else not_implemented\<lparr>sal_status := 0, sal_v0 := pal_pcci1, sal_v1 := pal_pcci2, sal_v2 := 0\<rparr>
      else not_implemented)"

record sal_validation =
  sv_valid :: bool
  sv_size :: u32
  sv_entryCount :: u16
  sv_checksum :: u8
  sv_salRevision :: u16
  sv_salARevision :: u16
  sv_salBRevision :: u16
  sv_oemId :: "u8 list"
  sv_productId :: "u8 list"
  sv_entryPoint :: sal_entry_point

definition empty_sal_validation :: sal_validation where
  "empty_sal_validation = \<lparr>sv_valid = False, sv_size = 0, sv_entryCount = 0, sv_checksum = 0, sv_salRevision = 0,
     sv_salARevision = 0, sv_salBRevision = 0, sv_oemId = [], sv_productId = [], sv_entryPoint =
     \<lparr>sal_palProcedure = 0, sal_salProcedure = 0, sal_globalPointer = 0\<rparr>\<rparr>"

definition revision_at :: "u8 list \<Rightarrow> nat \<Rightarrow> u16" where
  "revision_at bs i = push_bit 8 (ucast (bs ! (i + 1))) OR ucast (bs ! i)"

definition parse_sal_header :: "u8 list \<Rightarrow> sal_validation" where
  "parse_sal_header bs = empty_sal_validation\<lparr>sv_size := get32 4 bs, sv_entryCount := get16 10 bs, sv_checksum := bs ! 12,
     sv_salRevision := revision_at bs 8, sv_salARevision := revision_at bs 20, sv_salBRevision := revision_at bs 22,
     sv_oemId := fixedString bs 24 32, sv_productId := fixedString bs 56 32\<rparr>"

text \<open>The answer and what is left in \<open>*validation\<close>.\<close>

definition validateSalSystemTable :: "u8 list \<Rightarrow> bool \<times> sal_validation" where
  "validateSalSystemTable bs =
     (if length bs < kSalSystemTableHeaderSize \<or> take 4 bs \<noteq> ascii ''SST_'' then (False, empty_sal_validation)
      else
        let p = parse_sal_header bs; n = unat (sv_size p); descriptor = kSalSystemTableHeaderSize in
        if n < kSalSystemTableHeaderSize \<or> n > length bs \<or> sv_entryCount p = 0 \<or>
           n < kSalSystemTableHeaderSize + kSalEntryPointDescriptorSize
        then (False, p)
        else if sv_entryCount p \<noteq> 1 \<or> bs ! descriptor \<noteq> kSalDescEntryPoint \<or>
           descriptor + kSalEntryPointDescriptorSize > n \<or> checksum bs n \<noteq> 0
        then (False, p)
        else
          let e = \<lparr>sal_palProcedure = get64 (descriptor + 8) bs, sal_salProcedure = get64 (descriptor + 16) bs,
                sal_globalPointer = get64 (descriptor + 24) bs\<rparr>;
              valid = (sal_palProcedure e \<noteq> 0 \<and> sal_salProcedure e \<noteq> 0 \<and> sal_globalPointer e \<noteq> 0)
          in (valid, p\<lparr>sv_entryPoint := e, sv_valid := valid\<rparr>))"

subsection \<open>The ACPI tables\<close>

definition kRsdpSizeAcpi2 :: nat where "kRsdpSizeAcpi2 = 36"
definition kRsdtHeaderSize :: nat where "kRsdtHeaderSize = 36"
definition kXsdtHeaderSize :: nat where "kXsdtHeaderSize = 36"
definition kXsdtSize :: nat where "kXsdtSize = kXsdtHeaderSize + 8"
definition kMadtHeaderSize :: nat where "kMadtHeaderSize = 44"
definition kProcessorLocalSapicSize :: nat where "kProcessorLocalSapicSize = 16"
definition kMadtTypeProcessorLocalSapic :: u8 where "kMadtTypeProcessorLocalSapic = 7"
definition kMadtFlagEnabled :: u32 where "kMadtFlagEnabled = 1"

definition kAcpi20TableGuid :: "u8 list" where
  "kAcpi20TableGuid = [0x71, 0xE8, 0x68, 0x88, 0xF1, 0xE4, 0xD3, 0x11, 0xBC, 0x22, 0x00, 0x80, 0xC7, 0x3C, 0x88, 0x81]"

definition writeTableHeader :: "string \<Rightarrow> u32 \<Rightarrow> u8 \<Rightarrow> string \<Rightarrow> string \<Rightarrow> u8 list \<Rightarrow> u8 list" where
  "writeTableHeader signature len revision oemId oemTableId bs =
     (let bs = write_bytes bs 0 (take 4 (ascii signature));
          bs = put32 4 len bs;
          bs = put8 9 0 (put8 8 revision bs);
          bs = write_bytes bs 10 (take 6 (ascii oemId));
          bs = write_bytes bs 16 (take 8 (ascii oemTableId));
          bs = put32 24 1 bs;
          bs = write_bytes bs 28 (ascii ''INTL'')
      in put32 32 0x20140604 bs)"

definition rsdp_fields :: "u64 \<Rightarrow> u64 \<Rightarrow> u8 list \<Rightarrow> u8 list" where
  "rsdp_fields rsdtAddress xsdtAddress bs =
     (let bs = write_bytes bs 0 (ascii ''RSD PTR '');
          bs = put8 8 0 bs;
          bs = write_bytes bs 9 (ascii ''guideX'');
          bs = put8 15 2 bs;
          bs = put32 16 (ucast rsdtAddress) bs;
          bs = put32 20 (of_nat kRsdpSizeAcpi2) bs;
          bs = put64 24 xsdtAddress bs
      in put8 35 0 (put8 34 0 (put8 33 0 (put8 32 0 bs))))"

definition buildRsdp :: "u64 \<Rightarrow> u64 \<Rightarrow> u8 list" where
  "buildRsdp rsdtAddress xsdtAddress =
     (let bs = rsdp_fields rsdtAddress xsdtAddress (replicate kRsdpSizeAcpi2 0);
          bs = seal 8 20 bs
      in seal 32 kRsdpSizeAcpi2 bs)"

definition buildRsdt :: "u64 \<Rightarrow> u8 list" where
  "buildRsdt madtAddress =
     (let bs = replicate (kRsdtHeaderSize + 4) 0;
          bs = writeTableHeader ''RSDT'' (of_nat (length bs)) 1 ''guideX'' ''GUIDE   '' bs;
          bs = put32 kRsdtHeaderSize (ucast madtAddress) bs
      in seal 9 (length bs) bs)"

definition buildXsdt :: "u64 \<Rightarrow> u8 list" where
  "buildXsdt madtAddress =
     (let bs = replicate kXsdtSize 0;
          bs = writeTableHeader ''XSDT'' (of_nat (length bs)) 1 ''guideX'' ''GUIDE   '' bs;
          bs = put64 kXsdtHeaderSize madtAddress bs
      in seal 9 (length bs) bs)"

definition sapic_entry :: "u8 \<Rightarrow> u8 \<Rightarrow> u8 \<Rightarrow> u32 \<Rightarrow> u32 \<Rightarrow> u8 list \<Rightarrow> u8 list" where
  "sapic_entry acpiProcessorId sapicId sapicEid flags uid bs =
     (let entry = kMadtHeaderSize;
          bs = put8 entry kMadtTypeProcessorLocalSapic bs;
          bs = put8 (entry + 1) (of_nat kProcessorLocalSapicSize) bs;
          bs = put8 (entry + 2) acpiProcessorId bs;
          bs = put8 (entry + 3) sapicId bs;
          bs = put8 (entry + 4) sapicEid bs;
          bs = put8 (entry + 7) 0 (put8 (entry + 6) 0 (put8 (entry + 5) 0 bs));
          bs = put32 (entry + 8) flags bs
      in put32 (entry + 12) uid bs)"

definition buildMadt :: "u8 \<Rightarrow> u8 \<Rightarrow> u8 \<Rightarrow> u32 \<Rightarrow> u32 \<Rightarrow> u8 list" where
  "buildMadt acpiProcessorId sapicId sapicEid flags uid =
     (let bs = replicate (kMadtHeaderSize + kProcessorLocalSapicSize) 0;
          bs = writeTableHeader ''APIC'' (of_nat (length bs)) 1 ''guideX'' ''GUIDE   '' bs;
          bs = put32 40 1 (put32 36 0xFEE00000 bs);
          bs = sapic_entry acpiProcessorId sapicId sapicEid flags uid bs
      in seal 9 (length bs) bs)"

definition acpi_buildEfiConfigurationTableEntry :: "u64 \<Rightarrow> u8 list" where
  "acpi_buildEfiConfigurationTableEntry rsdpAddress =
     put64 16 rsdpAddress (write_bytes (replicate 24 0) 0 kAcpi20TableGuid)"

record acpi_validation =
  av_valid :: bool
  av_rsdpLength :: u32
  av_rsdpChecksum :: u8
  av_rsdtLength :: u32
  av_rsdtChecksum :: u8
  av_madtLength :: u32
  av_madtChecksum :: u8
  av_madtRevision :: u8
  av_processorCount :: u8
  av_sapicId :: u8
  av_sapicEid :: u8
  av_enabled :: bool

definition empty_acpi_validation :: acpi_validation where
  "empty_acpi_validation = \<lparr>av_valid = False, av_rsdpLength = 0, av_rsdpChecksum = 0, av_rsdtLength = 0, av_rsdtChecksum = 0,
     av_madtLength = 0, av_madtChecksum = 0, av_madtRevision = 0, av_processorCount = 0, av_sapicId = 0, av_sapicEid = 0,
     av_enabled = False\<rparr>"

text \<open>The three parts of \<open>validateAcpiTables\<close>; the first component tells whether the next one runs.\<close>

definition validate_rsdp :: "u8 list \<Rightarrow> acpi_validation \<Rightarrow> bool \<times> acpi_validation" where
  "validate_rsdp bs p =
     (if length bs < kRsdpSizeAcpi2 \<or> take 8 bs \<noteq> ascii ''RSD PTR '' then (False, p)
      else
        let p = p\<lparr>av_rsdpLength := get32 20 bs, av_rsdpChecksum := bs ! 8\<rparr> in
        if unat (av_rsdpLength p) \<noteq> kRsdpSizeAcpi2 then (False, p)
        else if checksum bs 20 \<noteq> 0 then (False, p)
        else if checksum bs (unat (av_rsdpLength p)) \<noteq> 0 then (False, p)
        else (True, p))"

definition validate_rsdt :: "u8 list \<Rightarrow> acpi_validation \<Rightarrow> bool \<times> acpi_validation" where
  "validate_rsdt bs p =
     (if length bs < kRsdtHeaderSize \<or> take 4 bs \<noteq> ascii ''RSDT'' then (False, p)
      else
        let p = p\<lparr>av_rsdtLength := get32 4 bs, av_rsdtChecksum := bs ! 9\<rparr>; n = unat (av_rsdtLength p) in
        if n < kRsdtHeaderSize + 4 \<or> n > length bs then (False, p)
        else if checksum bs n \<noteq> 0 then (False, p)
        else (True, p))"

definition validate_madt :: "u8 list \<Rightarrow> acpi_validation \<Rightarrow> bool \<times> acpi_validation" where
  "validate_madt bs p =
     (if length bs < kMadtHeaderSize + kProcessorLocalSapicSize \<or> take 4 bs \<noteq> ascii ''APIC'' then (False, p)
      else
        let p = p\<lparr>av_madtLength := get32 4 bs, av_madtChecksum := bs ! 9, av_madtRevision := bs ! 8\<rparr>;
            n = unat (av_madtLength p); entry = kMadtHeaderSize in
        if n < kMadtHeaderSize + kProcessorLocalSapicSize \<or> n > length bs then (False, p)
        else if checksum bs n \<noteq> 0 then (False, p)
        else if bs ! entry \<noteq> kMadtTypeProcessorLocalSapic \<or> bs ! (entry + 1) \<noteq> of_nat kProcessorLocalSapicSize then (False, p)
        else
          let enabled = (get32 (entry + 8) bs AND kMadtFlagEnabled \<noteq> 0)
          in (enabled, p\<lparr>av_processorCount := 1, av_sapicId := bs ! (entry + 3), av_sapicEid := bs ! (entry + 4),
                av_enabled := enabled, av_valid := enabled\<rparr>))"

definition validateAcpiTables :: "u8 list \<Rightarrow> u8 list \<Rightarrow> u8 list \<Rightarrow> bool \<times> acpi_validation" where
  "validateAcpiTables rsdpBytes rsdtBytes madtBytes =
     (case validate_rsdp rsdpBytes empty_acpi_validation of
        (False, p) \<Rightarrow> (False, p)
      | (True, p) \<Rightarrow>
        (case validate_rsdt rsdtBytes p of
           (False, p) \<Rightarrow> (False, p)
         | (True, p) \<Rightarrow> validate_madt madtBytes p))"

end
