(* ===== verification/Firmware_Props.thy ===== *)
theory Firmware_Props
  imports Firmware_Tables
begin

text \<open>
  Every table the builders produce passes the validator, which reads back what was put in. A builder is a sequence of
  field writes; fields are read back by skipping the writes that do not touch them.
\<close>

subsection \<open>Sequences of writes\<close>

primrec writes :: "(nat \<times> u8 list) list \<Rightarrow> u8 list \<Rightarrow> u8 list" where
  "writes [] d = d"
| "writes (w # ws) d = writes ws (write_bytes d (fst w) (snd w))"

definition within :: "nat \<Rightarrow> nat \<times> u8 list \<Rightarrow> bool" where
  "within n w \<longleftrightarrow> fst w + length (snd w) \<le> n"

definition apart :: "nat \<Rightarrow> nat \<Rightarrow> nat \<times> u8 list \<Rightarrow> bool" where
  "apart b n w \<longleftrightarrow> b + n \<le> fst w \<or> fst w + length (snd w) \<le> b"

lemma within_simp [simp]: "within n (a, bs) \<longleftrightarrow> a + length bs \<le> n"
  by (simp add: within_def)

lemma apart_simp [simp]: "apart b n (a, bs) \<longleftrightarrow> b + n \<le> a \<or> a + length bs \<le> b"
  by (simp add: apart_def)

lemma length_writes: "list_all (within (length d)) ws \<Longrightarrow> length (writes ws d) = length d"
  by (induction ws arbitrary: d) (simp_all add: within_def)

lemma read_skip:
  "list_all (within (length d)) ws \<Longrightarrow> list_all (apart b n) ws \<Longrightarrow> b + n \<le> length d \<Longrightarrow> read_bytes (writes ws d) b n = read_bytes d b n"
  by (induction ws arbitrary: d) (simp_all add: within_def apart_def read_write_disjoint)

lemma writes_append: "writes (xs @ ys) d = writes ys (writes xs d)"
  by (induction xs arbitrary: d) simp_all

text \<open>The last write to a range decides it.\<close>

lemma read_field:
  assumes "ws = xs @ (a, bs) # ys" "list_all (within (length d)) ws" "list_all (apart a (length bs)) ys"
  shows "read_bytes (writes ws d) a (length bs) = bs"
proof -
  let ?d = "writes xs d"
  have l: "length ?d = length d" using assms by (intro length_writes) simp
  have "length (write_bytes ?d a bs) = length d" using assms l by simp
  with assms l have "read_bytes (writes ys (write_bytes ?d a bs)) a (length bs) = read_bytes (write_bytes ?d a bs) a (length bs)"
    by (intro read_skip) simp_all
  with assms l show ?thesis by (simp add: writes_append)
qed

lemma nth_of_read: "i < length d \<Longrightarrow> read_bytes d i 1 = [v] \<Longrightarrow> d ! i = v"
  using nth_read_bytes [of i 1 d 0] by simp

text \<open>Disjoint fields in ascending order are all read back.\<close>

definition ascending :: "(nat \<times> u8 list) list \<Rightarrow> bool" where
  "ascending ws \<longleftrightarrow> sorted_wrt (\<lambda>v w. fst v + length (snd v) \<le> fst w) ws"

lemma read_member:
  assumes "ascending ws" "list_all (within (length d)) ws" "(a, bs) \<in> set ws"
  shows "read_bytes (writes ws d) a (length bs) = bs"
proof -
  obtain xs ys where ws: "ws = xs @ (a, bs) # ys" using split_list [OF assms(3)] by blast
  then have "list_all (apart a (length bs)) ys" using assms(1) by (auto simp: ascending_def sorted_wrt_append list_all_iff apart_def)
  then show ?thesis by (rule read_field [OF ws assms(2)])
qed

lemma byte_member:
  assumes "ascending ws" "list_all (within (length d)) ws" "(a, [v]) \<in> set ws"
  shows "writes ws d ! a = v"
proof (rule nth_of_read)
  show "a < length (writes ws d)" using assms(2,3) by (auto simp: length_writes list_all_iff)
  show "read_bytes (writes ws d) a 1 = [v]" using read_member [OF assms] by simp
qed

subsection \<open>Checksums\<close>

lemma sum_list_replace: "i < length xs \<Longrightarrow> sum_list (xs[i := x]) = sum_list xs - xs ! i + (x :: u8)"
  by (subst (2) id_take_nth_drop [of i xs], assumption) (simp add: upd_conv_take_nth_drop)

lemma write_byte: "a < length d \<Longrightarrow> write_bytes d a [v] = d[a := v]"
  by (simp add: write_bytes_def upd_conv_take_nth_drop)

lemma seal_update: "a < length d \<Longrightarrow> seal a n d = d[a := - checksum d n]"
  by (simp add: seal_def put8_def write_byte)

lemma checksum_seal: "a < n \<Longrightarrow> n \<le> length d \<Longrightarrow> d ! a = 0 \<Longrightarrow> checksum (seal a n d) n = 0"
  by (simp add: seal_update) (simp add: checksum_def take_update_swap sum_list_replace)

lemma checksum_seal_later: "n \<le> a \<Longrightarrow> a < length d \<Longrightarrow> checksum (seal a k d) n = checksum d n"
  by (simp add: seal_update checksum_def take_update_cancel)

lemma length_seal [simp]: "a < length d \<Longrightarrow> length (seal a n d) = length d"
  by (simp add: seal_update)

lemma read_seal: "a < length d \<Longrightarrow> b + n \<le> length d \<Longrightarrow> b + n \<le> a \<or> a < b \<Longrightarrow> read_bytes (seal a k d) b n = read_bytes d b n"
  by (simp add: seal_def put8_def read_write_disjoint Suc_le_eq)

lemma nth_seal: "i < length d \<Longrightarrow> a < length d \<Longrightarrow> i \<noteq> a \<Longrightarrow> seal a k d ! i = d ! i"
  by (simp add: seal_update)

text \<open>A sealed table of ascending fields: its checksum is zero and every other field is intact.\<close>

lemma ascending_apart:
  assumes "ascending ws" "v \<in> set ws" "w \<in> set ws" "v \<noteq> w"
  shows "fst v + length (snd v) \<le> fst w \<or> fst w + length (snd w) \<le> fst v"
  using assms by (induction ws) (auto simp: ascending_def)

lemma sealed_table:
  assumes "ascending ws" "list_all (within N) ws" "(c, [0]) \<in> set ws" "c < n" "n \<le> N"
    and t: "t = seal c n (writes ws (replicate N 0))"
  shows "length t = N" "checksum t n = 0" "(a, bs) \<in> set ws \<Longrightarrow> a \<noteq> c \<Longrightarrow> read_bytes t a (length bs) = bs"
    "(a, [v]) \<in> set ws \<Longrightarrow> a \<noteq> c \<Longrightarrow> t ! a = v"
proof -
  let ?d = "writes ws (replicate N 0)"
  have len: "length ?d = N" using assms(2) by (simp add: length_writes)
  have "?d ! c = 0" using assms(1-3) by (intro byte_member) simp_all
  then show "length t = N" "checksum t n = 0" using len assms(4,5) by (simp_all add: t checksum_seal)
  show f: "read_bytes t a (length bs) = bs" if "(a, bs) \<in> set ws" "a \<noteq> c" for a bs
  proof -
    have "a + length bs \<le> c \<or> c < a" using ascending_apart [OF assms(1) that(1) assms(3)] that(2) by auto
    moreover have "a + length bs \<le> N" using assms(2) that(1) by (auto simp: list_all_iff)
    ultimately have "read_bytes t a (length bs) = read_bytes ?d a (length bs)" using len assms(4,5) by (simp add: t read_seal)
    then show ?thesis using read_member [OF assms(1) _ that(1), of "replicate N 0"] assms(2) by simp
  qed
  show "t ! a = v" if "(a, [v]) \<in> set ws" "a \<noteq> c"
  proof (rule nth_of_read)
    show "a < length t" using assms(2,4,5) that(1) len by (auto simp: t list_all_iff)
    show "read_bytes t a 1 = [v]" using f [OF that] by simp
  qed
qed

lemmas fields = put8_def put16_def put32_def put64_def Let_def
lemmas sizes = kSalSystemTableSize_def kSalSystemTableHeaderSize_def kSalEntryPointDescriptorSize_def kRsdpSizeAcpi2_def
  kRsdtHeaderSize_def kXsdtHeaderSize_def kXsdtSize_def kMadtHeaderSize_def kProcessorLocalSapicSize_def

subsection \<open>The SAL system table\<close>

definition sal_writes :: "sal_entry_point \<Rightarrow> (nat \<times> u8 list) list" where
  "sal_writes e = [(0, ascii ''SST_''), (4, le_bytes 4 (144 :: u32)), (8, [1]), (9, [0]), (10, le_bytes 2 (1 :: u16)), (12, [0]),
     (20, [0]), (21, [0]), (22, [0]), (23, [0]), (24, ascii ''guideXOS''), (56, ascii ''guideXOS IA-64 Virtual Platform''), (96, [0]),
     (104, le_bytes 8 (sal_palProcedure e)), (112, le_bytes 8 (sal_salProcedure e)), (120, le_bytes 8 (sal_globalPointer e))]"

lemma sal_fields_writes: "sal_fields e d = writes (sal_writes e) d"
  by (simp add: sal_fields_def sal_writes_def fields sizes kSalDescEntryPoint_def del: le_bytes.simps)

lemma length_ascii [simp]: "length (ascii s) = length s"
  by (simp add: ascii_def)

lemma sal_ok: "ascending (sal_writes e)" "list_all (within 144) (sal_writes e)"
  by (simp_all add: sal_writes_def ascending_def del: le_bytes.simps)

text \<open>The table built for an entry point is accepted exactly when its three addresses are non-zero, and yields them.\<close>

theorem sal_table_valid:
  "let (valid, p) = validateSalSystemTable (buildSalSystemTable e) in
     (valid \<longleftrightarrow> sal_palProcedure e \<noteq> 0 \<and> sal_salProcedure e \<noteq> 0 \<and> sal_globalPointer e \<noteq> 0) \<and>
     sv_entryPoint p = e \<and> sv_size p = 144 \<and> sv_entryCount p = 1 \<and> sv_valid p = valid"
proof -
  let ?t = "buildSalSystemTable e"
  have "length (writes (sal_writes e) (replicate 144 0)) = 144" by (simp add: length_writes sal_ok)
  then have t: "?t = seal 12 144 (writes (sal_writes e) (replicate 144 0))"
    by (simp add: buildSalSystemTable_def sal_fields_writes sizes)
  note st = sealed_table [OF sal_ok _ _ _ t]
  have c: "(12, [0]) \<in> set (sal_writes e)" "(12 :: nat) < 144" "(144 :: nat) \<le> 144" by (simp_all add: sal_writes_def)
  note f = st(3) [OF c]
  have "take 4 ?t = ascii ''SST_''"
    using f [of 0 "ascii ''SST_''"] by (simp add: sal_writes_def read_bytes_def numeral_eq_Suc del: le_bytes.simps)
  moreover have "get32 4 ?t = 144" "get16 10 ?t = 1" "get64 104 ?t = sal_palProcedure e"
    "get64 112 ?t = sal_salProcedure e" "get64 120 ?t = sal_globalPointer e"
    using f [of 4 "le_bytes 4 (144 :: u32)"] f [of 10 "le_bytes 2 (1 :: u16)"] f [of 104 "le_bytes 8 (sal_palProcedure e)"]
      f [of 112 "le_bytes 8 (sal_salProcedure e)"] f [of 120 "le_bytes 8 (sal_globalPointer e)"]
    by (simp_all add: sal_writes_def get16_def get32_def get64_def le_value_le_bytes del: le_bytes.simps)
  moreover have "?t ! 96 = 0" using st(4) [OF c, of 96 0] by (simp add: sal_writes_def)
  ultimately show ?thesis
    using st(1,2) [OF c]
    by (simp add: validateSalSystemTable_def parse_sal_header_def sizes kSalDescEntryPoint_def Let_def)
qed

subsection \<open>The ACPI tables\<close>

definition header_writes :: "string \<Rightarrow> u32 \<Rightarrow> (nat \<times> u8 list) list" where
  "header_writes signature len = [(0, ascii signature), (4, le_bytes 4 len), (8, [1]), (9, [0]), (10, ascii ''guideX''),
     (16, ascii ''GUIDE   ''), (24, le_bytes 4 (1 :: u32)), (28, ascii ''INTL''), (32, le_bytes 4 (0x20140604 :: u32))]"

lemma writeTableHeader_writes:
  "length signature = 4 \<Longrightarrow> writeTableHeader signature len 1 ''guideX'' ''GUIDE   '' d = writes (header_writes signature len) d"
  by (simp add: writeTableHeader_def header_writes_def fields ascii_def del: le_bytes.simps)

definition rsdp_writes :: "u64 \<Rightarrow> u64 \<Rightarrow> (nat \<times> u8 list) list" where
  "rsdp_writes r x = [(0, ascii ''RSD PTR ''), (8, [0]), (9, ascii ''guideX''), (15, [2]), (16, le_bytes 4 (ucast r :: u32)),
     (20, le_bytes 4 (36 :: u32)), (24, le_bytes 8 x), (32, [0]), (33, [0]), (34, [0]), (35, [0])]"

definition madt_writes :: "u8 \<Rightarrow> u8 \<Rightarrow> u8 \<Rightarrow> u32 \<Rightarrow> u32 \<Rightarrow> (nat \<times> u8 list) list" where
  "madt_writes p i e f u = header_writes ''APIC'' 60 @ [(36, le_bytes 4 (0xFEE00000 :: u32)), (40, le_bytes 4 (1 :: u32)), (44, [7]), (45, [16]), (46, [p]),
     (47, [i]), (48, [e]), (49, [0]), (50, [0]), (51, [0]), (52, le_bytes 4 f), (56, le_bytes 4 u)]"

lemma rsdt_eq: "buildRsdt m = seal 9 40 (writes (header_writes ''RSDT'' 40 @ [(36, le_bytes 4 (ucast m :: u32))]) (replicate 40 0))" (is "_ = seal 9 40 ?d")
proof -
  have "length ?d = 40" by (simp add: length_writes header_writes_def del: le_bytes.simps writes.simps)
  then show ?thesis
    by (simp add: buildRsdt_def sizes fields writeTableHeader_writes writes_append del: le_bytes.simps)
qed

lemma madt_eq: "buildMadt p i e f u = seal 9 60 (writes (madt_writes p i e f u) (replicate 60 0))" (is "_ = seal 9 60 ?d")
proof -
  have "length ?d = 60" by (simp add: length_writes madt_writes_def header_writes_def del: le_bytes.simps writes.simps)
  then show ?thesis
    by (simp add: buildMadt_def sizes fields writeTableHeader_writes sapic_entry_def kMadtTypeProcessorLocalSapic_def madt_writes_def writes_append
        del: le_bytes.simps)
qed

lemma rsdp_eq: "buildRsdp r x = seal 32 36 (seal 8 20 (writes (rsdp_writes r x) (replicate 36 0)))"
  by (simp add: buildRsdp_def rsdp_fields_def sizes fields rsdp_writes_def del: le_bytes.simps)

lemma acpi_ok:
  "ascending (rsdp_writes r x)" "list_all (within 36) (rsdp_writes r x)" "(8, [0]) \<in> set (rsdp_writes r x)"
  "ascending (header_writes ''RSDT'' 40 @ [(36, le_bytes 4 m)])" "list_all (within 40) (header_writes ''RSDT'' 40 @ [(36, le_bytes 4 m)])"
  "(9, [0]) \<in> set (header_writes ''RSDT'' 40 @ [(36, le_bytes 4 m)])"
  "ascending (madt_writes p i e f u)" "list_all (within 60) (madt_writes p i e f u)" "(9, [0]) \<in> set (madt_writes p i e f u)"
  by (simp_all add: rsdp_writes_def header_writes_def madt_writes_def ascending_def del: le_bytes.simps)

lemma rsdp_valid: "\<exists>p'. validate_rsdp (buildRsdp r x) p = (True, p') \<and> av_rsdpLength p' = 36"
proof -
  let ?w = "writes (rsdp_writes r x) (replicate 36 0)"
  note s = sealed_table [OF acpi_ok(1-3) _ _ refl, where n = 20, simplified]
  let ?d = "seal 8 20 ?w" and ?t = "buildRsdp r x"
  have t: "?t = seal 32 36 ?d" by (rule rsdp_eq)
  have "?d ! 32 = 0" by (rule s(4)) (simp_all add: rsdp_writes_def)
  then have c: "length ?t = 36" "checksum ?t 36 = 0" "checksum ?t 20 = 0"
    using s(1,2) by (simp_all add: t checksum_seal checksum_seal_later)
  have r: "read_bytes ?t b n = read_bytes ?d b n" if "b + n \<le> 32" for b n using that s(1) by (simp add: t read_seal)
  have "take 8 ?t = ascii ''RSD PTR ''" 
    using s(3) [of 0 "ascii ''RSD PTR ''" r x] r [of 0 8] by (simp add: rsdp_writes_def read_bytes_def numeral_eq_Suc del: le_bytes.simps)
  moreover have "get32 20 ?t = 36"
    using s(3) [of 20 "le_bytes 4 (36 :: u32)" r x] r [of 20 4] by (simp add: rsdp_writes_def get32_def le_value_le_bytes del: le_bytes.simps)
  ultimately show ?thesis using c by (simp add: validate_rsdp_def sizes Let_def)
qed

lemma rsdt_valid: "\<exists>p'. validate_rsdt (buildRsdt m) p = (True, p') \<and> av_rsdpLength p' = av_rsdpLength p \<and> av_rsdtLength p' = 40"
proof -
  let ?t = "buildRsdt m"
  note s = sealed_table [OF acpi_ok(4-6) _ _ rsdt_eq, simplified]
  have "take 4 ?t = ascii ''RSDT''" 
    using s(3) [of 0 "ascii ''RSDT''" m] by (simp add: header_writes_def read_bytes_def numeral_eq_Suc del: le_bytes.simps)
  moreover have "get32 4 ?t = 40"
    using s(3) [of 4 "le_bytes 4 (40 :: u32)" m] by (simp add: header_writes_def get32_def le_value_le_bytes del: le_bytes.simps)
  ultimately show ?thesis using s(1,2) [of m] by (simp add: validate_rsdt_def sizes Let_def)
qed

text \<open>C31: 
  The tables for one processor are accepted exactly when its enabled flag is set, and yield its identifiers.
\<close>

theorem acpi_tables_valid:
  "let (valid, v) = validateAcpiTables (buildRsdp r x) (buildRsdt m) (buildMadt p i e f u) in
     (valid \<longleftrightarrow> f AND 1 \<noteq> 0) \<and> av_valid v = valid \<and> av_processorCount v = 1 \<and> av_sapicId v = i \<and> av_sapicEid v = e \<and>
     av_rsdpLength v = 36 \<and> av_rsdtLength v = 40 \<and> av_madtLength v = 60"
proof -
  let ?t = "buildMadt p i e f u"
  note s = sealed_table [OF acpi_ok(7-9) _ _ madt_eq, simplified]
  have "take 4 ?t = ascii ''APIC''" 
    using s(3) [of 0 "ascii ''APIC''" p i e f u] by (simp add: madt_writes_def header_writes_def read_bytes_def numeral_eq_Suc del: le_bytes.simps)
  moreover have "get32 4 ?t = 60" "get32 52 ?t = f"
    using s(3) [of 4 "le_bytes 4 (60 :: u32)" p i e f u] s(3) [of 52 "le_bytes 4 f" p i e f u]
    by (simp_all add: madt_writes_def header_writes_def get32_def le_value_le_bytes del: le_bytes.simps)
  moreover have "?t ! 44 = 7" "?t ! 45 = 16" "?t ! 47 = i" "?t ! 48 = e"
    by (rule s(4); simp add: madt_writes_def)+
  moreover obtain p1 where "validate_rsdp (buildRsdp r x) empty_acpi_validation = (True, p1)" "av_rsdpLength p1 = 36"
    using rsdp_valid by blast
  moreover obtain p2 where "validate_rsdt (buildRsdt m) p1 = (True, p2)" "av_rsdpLength p2 = av_rsdpLength p1" "av_rsdtLength p2 = 40"
    using rsdt_valid by blast
  ultimately show ?thesis
    using s(1,2) [of p i e f u]
    by (simp add: validateAcpiTables_def validate_madt_def sizes Let_def kMadtTypeProcessorLocalSapic_def kMadtFlagEnabled_def)
qed

end
