(* ===== verification/Path_Resolver.thy ===== *)
theory Path_Resolver
  imports Prelude
begin

text \<open>
  Guest paths and the filesystems mounted under them: \<open>PathResolver\<close> (\<open>src/src/storage/PathResolver.cpp\<close>) and
  \<open>FilesystemMount\<close> (\<open>src/src/storage/FilesystemMount.cpp\<close>). A path is a byte string; the empty string is the
  sources' failure value. The filesystem and the device behind a mount are reached through virtual calls; \<open>storage_ops\<close>
  is that table of calls, and the mount keeps the objects they act on.
\<close>

definition slash :: char where
  "slash = CHR ''/''"

definition nul :: char where
  "nul = CHR 0x00"

record validation_options =
  allowParentRefs :: bool
  allowSymlinks :: bool
  maxPathLength :: u32
  maxDepth :: u32
  caseSensitive :: bool

definition default_options :: validation_options where
  "default_options = \<lparr>allowParentRefs = True, allowSymlinks = False, maxPathLength = 4096, maxDepth = 128, caseSensitive = True\<rparr>"

subsection \<open>Taking paths apart\<close>

definition isAbsolute :: "string \<Rightarrow> bool" where
  "isAbsolute path \<longleftrightarrow> path \<noteq> [] \<and> path ! 0 = slash"

fun split_loop :: "string \<Rightarrow> string list \<Rightarrow> string \<Rightarrow> string list" where
  "split_loop [] components current = (if current \<noteq> [] then components @ [current] else components)"
| "split_loop (c # cs) components current =
     (if c = slash
      then if current \<noteq> [] then split_loop cs (components @ [current]) [] else split_loop cs components current
      else split_loop cs components (current @ [c]))"

definition split :: "string \<Rightarrow> string list" where
  "split path = (if path = [] then [] else split_loop path [] [])"

definition join :: "string \<Rightarrow> string \<Rightarrow> string" where
  "join base component =
     (if base = [] then component
      else if component = [] then base
      else if isAbsolute component then component
      else (if last base \<noteq> slash then base @ [slash] else base) @ component)"

fun drop_slashes :: "string \<Rightarrow> string" where
  "drop_slashes s = (if 1 < length s \<and> last s = slash then drop_slashes (butlast s) else s)"

declare drop_slashes.simps [simp del]

definition find_last_slash :: "string \<Rightarrow> nat option" where
  "find_last_slash s =
     (if slash \<in> set s then Some (length s - 1 - length (takeWhile (\<lambda>c. c \<noteq> slash) (rev s))) else None)"

definition dirname :: "string \<Rightarrow> string" where
  "dirname path =
     (if path = [] \<or> path = [slash] then [slash]
      else let trimmed = drop_slashes path
           in case find_last_slash trimmed of
                None \<Rightarrow> ''.''
              | Some k \<Rightarrow> if k = 0 then [slash] else take k trimmed)"

definition basename :: "string \<Rightarrow> string" where
  "basename path =
     (if path = [] \<or> path = [slash] then [slash]
      else let trimmed = drop_slashes path
           in case find_last_slash trimmed of
                None \<Rightarrow> trimmed
              | Some k \<Rightarrow> drop (Suc k) trimmed)"

subsection \<open>Checking paths\<close>

definition isValidComponent :: "string \<Rightarrow> bool" where
  "isValidComponent component \<longleftrightarrow>
     (if component = [] then False else if nul \<in> set component then False else list_all (\<lambda>c. c \<noteq> nul) component)"

definition containsMaliciousChars :: "string \<Rightarrow> bool" where
  "containsMaliciousChars path \<longleftrightarrow> nul \<in> set path"

text \<open>\<open>errorMessage\<close> is an output parameter: it is only written when the answer is no.\<close>

fun validate_components :: "string list \<Rightarrow> string \<Rightarrow> bool \<times> string" where
  "validate_components [] errorMessage = (True, errorMessage)"
| "validate_components (c # cs) errorMessage =
     (if \<not> isValidComponent c then (False, ''Invalid path component: '' @ c) else validate_components cs errorMessage)"

definition validate :: "validation_options \<Rightarrow> string \<Rightarrow> string \<Rightarrow> bool \<times> string" where
  "validate options path errorMessage =
     (if path = [] then (False, ''Empty path'')
      else if \<not> isAbsolute path then (False, ''Path must be absolute'')
      else if unat (maxPathLength options) < length path then (False, ''Path too long'')
      else if containsMaliciousChars path then (False, ''Path contains invalid characters'')
      else if unat (maxDepth options) < length (split path) then (False, ''Path depth exceeds maximum'')
      else validate_components (split path) errorMessage)"

subsection \<open>Normalisation\<close>

fun normalize_loop :: "validation_options \<Rightarrow> string list \<Rightarrow> string list \<Rightarrow> string list option" where
  "normalize_loop options [] normalized = Some normalized"
| "normalize_loop options (component # rest) normalized =
     (if component = [] \<or> component = ''.'' then normalize_loop options rest normalized
      else if component = ''..'' then
        if allowParentRefs options
        then normalize_loop options rest (if normalized \<noteq> [] then butlast normalized else normalized)
        else None
      else if \<not> isValidComponent component then None
      else normalize_loop options rest (normalized @ [component]))"

fun render_loop :: "nat \<Rightarrow> string list \<Rightarrow> string \<Rightarrow> string" where
  "render_loop i [] result = result"
| "render_loop i (c # cs) result = render_loop (Suc i) cs ((if i > 0 then result @ [slash] else result) @ c)"

definition render :: "string list \<Rightarrow> string" where
  "render normalized = (if normalized = [] then [slash] else render_loop 0 normalized [slash])"

definition normalize :: "validation_options \<Rightarrow> string \<Rightarrow> string \<Rightarrow> string" where
  "normalize options path currentDir =
     (if path = [] then []
      else if containsMaliciousChars path then []
      else if unat (maxPathLength options) < length path then []
      else let workingPath = (if isAbsolute path then path else join currentDir path)
           in case normalize_loop options (split workingPath) [] of
                None \<Rightarrow> []
              | Some normalized \<Rightarrow> if unat (maxDepth options) < length normalized then [] else render normalized)"

definition escapesRoot :: "validation_options \<Rightarrow> string \<Rightarrow> string \<Rightarrow> bool" where
  "escapesRoot options path root =
     (let p = normalize options path [slash];
          r = normalize options root [slash]
      in if p = [] \<or> r = [] then True
         else if length p < length r then True
         else if take (length r) p \<noteq> r then True
         else if length r < length p \<and> r \<noteq> [slash] \<and> p ! length r \<noteq> slash then True
         else False)"

subsection \<open>Mounts\<close>

record mount_options =
  mo_readOnly :: bool
  mo_noExec :: bool
  mo_noSuid :: bool
  mo_fsType :: string

record ('fs, 'dev) filesystem_mount =
  mountPoint :: string
  filesystem :: "'fs option"
  device :: "'dev option"
  mountOptions :: mount_options
  mounted :: bool
  accessCount :: u64

record ('fs, 'dev) storage_ops =
  isConnected :: "'dev \<Rightarrow> bool"
  connect :: "'dev \<Rightarrow> bool \<times> 'dev"
  fs_mount :: "'fs \<Rightarrow> 'dev \<Rightarrow> bool \<times> 'fs \<times> 'dev"
  fs_unmount :: "'fs \<Rightarrow> 'fs"
  fs_isReadOnly :: "'fs \<Rightarrow> bool"

definition normalizePath :: "string \<Rightarrow> string" where
  "normalizePath path =
     (if path = [] then [slash] else drop_slashes (if path ! 0 \<noteq> slash then slash # path else path))"

definition new_mount :: "string \<Rightarrow> 'fs option \<Rightarrow> 'dev option \<Rightarrow> mount_options \<Rightarrow> ('fs, 'dev) filesystem_mount" where
  "new_mount point fs dev options =
     \<lparr>mountPoint = normalizePath point, filesystem = fs, device = dev, mountOptions = options, mounted = False, accessCount = 0\<rparr>"

definition attach :: "('fs, 'dev) storage_ops \<Rightarrow> ('fs, 'dev) filesystem_mount \<Rightarrow> bool \<times> ('fs, 'dev) filesystem_mount" where
  "attach ops m =
     (if mounted m then (True, m)
      else case (filesystem m, device m) of
        (Some fs, Some dev) \<Rightarrow>
          (let (connected, dev1) = (if isConnected ops dev then (True, dev) else connect ops dev)
           in if \<not> connected then (False, m\<lparr>device := Some dev1\<rparr>)
              else let (done, fs1, dev2) = fs_mount ops fs dev1;
                       m1 = m\<lparr>filesystem := Some fs1, device := Some dev2\<rparr>
                   in if \<not> done then (False, m1) else (True, m1\<lparr>mounted := True\<rparr>))
      | _ \<Rightarrow> (False, m))"

definition detach :: "('fs, 'dev) storage_ops \<Rightarrow> ('fs, 'dev) filesystem_mount \<Rightarrow> ('fs, 'dev) filesystem_mount" where
  "detach ops m =
     (if \<not> mounted m then m else m\<lparr>filesystem := map_option (fs_unmount ops) (filesystem m), mounted := False\<rparr>)"

definition isReadOnly :: "('fs, 'dev) storage_ops \<Rightarrow> ('fs, 'dev) filesystem_mount \<Rightarrow> bool" where
  "isReadOnly ops m \<longleftrightarrow>
     mo_readOnly (mountOptions m) \<or> (case filesystem m of None \<Rightarrow> False | Some fs \<Rightarrow> fs_isReadOnly ops fs)"

definition incrementAccessCount :: "('fs, 'dev) filesystem_mount \<Rightarrow> ('fs, 'dev) filesystem_mount" where
  "incrementAccessCount m = m\<lparr>accessCount := accessCount m + 1\<rparr>"

definition containsPath :: "('fs, 'dev) filesystem_mount \<Rightarrow> string \<Rightarrow> bool" where
  "containsPath m guestPath =
     (let g = normalizePath guestPath; p = mountPoint m
      in if length g < length p then False
         else if g = p then True
         else if take (length p) g = p
              then if length g = length p then True else g ! length p = slash
              else False)"

definition translatePath :: "('fs, 'dev) filesystem_mount \<Rightarrow> string \<Rightarrow> string" where
  "translatePath m guestPath =
     (if \<not> containsPath m guestPath then []
      else let g = normalizePath guestPath
           in if g = mountPoint m then [slash]
              else let relative = drop (length (mountPoint m)) g
                   in if relative = [] \<or> relative ! 0 \<noteq> slash then slash # relative else relative)"

subsection \<open>Resolution\<close>

text \<open>The mount list is a vector of shared pointers, some of which may be null.\<close>

fun findMount_loop :: "string \<Rightarrow> ('fs, 'dev) filesystem_mount option list \<Rightarrow> ('fs, 'dev) filesystem_mount option \<Rightarrow> nat
    \<Rightarrow> ('fs, 'dev) filesystem_mount option" where
  "findMount_loop path [] bestMatch bestMatchLength = bestMatch"
| "findMount_loop path (None # rest) bestMatch bestMatchLength = findMount_loop path rest bestMatch bestMatchLength"
| "findMount_loop path (Some m # rest) bestMatch bestMatchLength =
     (if \<not> mounted m then findMount_loop path rest bestMatch bestMatchLength
      else if containsPath m path \<and> bestMatchLength < length (mountPoint m)
           then findMount_loop path rest (Some m) (length (mountPoint m))
           else findMount_loop path rest bestMatch bestMatchLength)"

definition findMount :: "string \<Rightarrow> ('fs, 'dev) filesystem_mount option list \<Rightarrow> ('fs, 'dev) filesystem_mount option" where
  "findMount path mounts = findMount_loop path mounts None 0"

record ('fs, 'dev) resolved_path =
  valid :: bool
  normalizedPath :: string
  filesystemPath :: string
  mount :: "('fs, 'dev) filesystem_mount option"
  errorMessage :: string

definition empty_resolved_path :: "('fs, 'dev) resolved_path" where
  "empty_resolved_path = \<lparr>valid = False, normalizedPath = [], filesystemPath = [], mount = None, errorMessage = []\<rparr>"

definition resolve :: "validation_options \<Rightarrow> string \<Rightarrow> ('fs, 'dev) filesystem_mount option list \<Rightarrow> string
    \<Rightarrow> ('fs, 'dev) resolved_path" where
  "resolve options guestPath mounts currentDir =
     (let r = empty_resolved_path\<lparr>normalizedPath := normalize options guestPath currentDir\<rparr>
      in if normalizedPath r = [] then r\<lparr>valid := False, errorMessage := ''Invalid path: normalization failed''\<rparr>
         else let (ok, msg) = validate options (normalizedPath r) (errorMessage r); r = r\<lparr>errorMessage := msg\<rparr>
              in if \<not> ok then r\<lparr>valid := False\<rparr>
                 else let r = r\<lparr>mount := findMount (normalizedPath r) mounts\<rparr>
                      in case mount r of
                           None \<Rightarrow> r\<lparr>valid := False, errorMessage := ''No filesystem mounted at path''\<rparr>
                         | Some m \<Rightarrow>
                             (let r = r\<lparr>filesystemPath := translatePath m (normalizedPath r)\<rparr>
                              in if filesystemPath r = []
                                 then r\<lparr>valid := False, errorMessage := ''Path translation failed''\<rparr>
                                 else r\<lparr>valid := True\<rparr>))"

end
