(* ===== verification/Path_Props.thy ===== *)
theory Path_Props
  imports Path_Resolver "HOL-Library.Sublist"
begin

text \<open>
  The path resolver confines the guest: a normalised path is a list of real names under the root, normalising again
  changes nothing, and what a resolved path names inside a filesystem lies below its mount point. \<open>name\<close> is the
  reference notion of a path component, \<open>absolute\<close> the canonical spelling of a list of them.
\<close>

definition name :: "string \<Rightarrow> bool" where
  "name c \<longleftrightarrow> c \<noteq> [] \<and> c \<noteq> ''.'' \<and> c \<noteq> ''..'' \<and> slash \<notin> set c \<and> nul \<notin> set c"

definition absolute :: "string list \<Rightarrow> string" where
  "absolute cs = concat (map (\<lambda>c. slash # c) cs)"

lemma absolute_simps [simp]:
  "absolute [] = []"
  "absolute (c # cs) = slash # c @ absolute cs"
  "absolute (as @ bs) = absolute as @ absolute bs"
  by (simp_all add: absolute_def)

lemma slash_dots [simp]: "CHR ''.'' \<noteq> slash" "slash \<noteq> CHR ''.''" "nul \<noteq> slash" "slash \<noteq> nul" "nul \<noteq> CHR ''.''" "CHR ''.'' \<noteq> nul"
  by (simp_all add: slash_def nul_def)

subsection \<open>Splitting and rendering\<close>

lemma split_loop_acc: "split_loop s acc cur = acc @ split_loop s [] cur"
proof (induction s arbitrary: acc cur)
  case (Cons c s)
  show ?case
    using Cons.IH [of "acc @ [cur]" "[]"] Cons.IH [of "[cur]" "[]"] Cons.IH [of acc "[]"] Cons.IH [of acc "cur @ [c]"]
    by (cases "cur = []") auto
qed simp

lemma split_loop_name: "slash \<notin> set c \<Longrightarrow> split_loop (c @ s) acc cur = split_loop s acc (cur @ c)"
  by (induction c arbitrary: cur) auto

lemma split_loop_absolute:
  assumes "\<And>c. c \<in> set cs \<Longrightarrow> c \<noteq> [] \<and> slash \<notin> set c"
  shows "split_loop (absolute cs) acc cur = acc @ (if cur = [] then [] else [cur]) @ cs"
  using assms
proof (induction cs arbitrary: acc cur)
  case (Cons c cs)
  then show ?case by (simp add: split_loop_name)
qed simp

lemma split_absolute:
  "(\<And>c. c \<in> set cs \<Longrightarrow> c \<noteq> [] \<and> slash \<notin> set c) \<Longrightarrow> split (absolute cs) = cs"
  by (cases "cs = []") (simp_all add: split_def split_loop_absolute, simp add: absolute_def)

lemma split_loop_clean:
  "slash \<notin> set cur \<Longrightarrow> c \<in> set (split_loop s [] cur) \<Longrightarrow> c \<noteq> [] \<and> slash \<notin> set c"
proof (induction s arbitrary: cur)
  case (Cons x s)
  have "c \<in> set (split_loop s [] []) \<Longrightarrow> ?case"
    using Cons.IH [of "[]"] by simp
  moreover have "x \<noteq> slash \<Longrightarrow> c \<in> set (split_loop s [] (cur @ [x])) \<Longrightarrow> ?case"
    using Cons.IH [of "cur @ [x]"] Cons.prems(1) by simp
  ultimately show ?case
    using Cons.prems split_loop_acc [of s "[cur]" "[]"] by (cases "x = slash"; cases "cur = []") auto
qed (auto split: if_splits)

lemma split_clean: "c \<in> set (split s) \<Longrightarrow> c \<noteq> [] \<and> slash \<notin> set c"
  by (auto simp: split_def split: if_splits dest: split_loop_clean [rotated])

lemma split_loop_chars:
  "c \<in> set (split_loop s [] cur) \<Longrightarrow> x \<in> set c \<Longrightarrow> x \<in> set s \<union> set cur"
proof (induction s arbitrary: cur)
  case (Cons y s)
  then show ?case
    using split_loop_acc [of s "[cur]" "[]"] by (fastforce split: if_splits)
qed (auto split: if_splits)

lemma render_loop_absolute: "0 < i \<Longrightarrow> render_loop i cs result = result @ absolute cs"
  by (induction cs arbitrary: i result) simp_all

lemma render_absolute: "render cs = (if cs = [] then [slash] else absolute cs)"
  by (cases cs) (simp_all add: render_def render_loop_absolute)

lemma split_slash [simp]: "split [slash] = []"
  by (simp add: split_def)

lemma split_render: "list_all name cs \<Longrightarrow> split (render cs) = cs"
  by (auto simp: render_absolute list_all_iff name_def intro!: split_absolute)

lemma render_head: "render cs \<noteq> [] \<and> render cs ! 0 = slash"
  by (cases cs) (simp_all add: render_absolute)

lemma render_no_nul: "list_all name cs \<Longrightarrow> nul \<notin> set (render cs)"
  by (induction cs) (auto simp: render_absolute name_def split: if_splits)

subsection \<open>Normalisation\<close>

lemma normalize_loop_names:
  "normalize_loop options cs acc = Some ns \<Longrightarrow> list_all name acc \<Longrightarrow> (\<And>c. c \<in> set cs \<Longrightarrow> slash \<notin> set c)
   \<Longrightarrow> list_all name ns"
proof (induction options cs acc rule: normalize_loop.induct)
  case (2 options c rest acc)
  have b: "list_all name (butlast acc)"
    using "2.prems"(2) by (simp add: list_all_iff) (blast dest: in_set_butlastD)
  have n: "isValidComponent c \<Longrightarrow> c \<noteq> ''.'' \<Longrightarrow> c \<noteq> ''..'' \<Longrightarrow> name c"
    using "2.prems"(3) [of c] by (simp add: isValidComponent_def name_def split: if_splits)
  show ?case
    using 2 b n by (auto split: if_splits)
qed simp

lemma normalize_loop_fixed: "list_all name cs \<Longrightarrow> normalize_loop options cs acc = Some (acc @ cs)"
  by (induction cs arbitrary: acc) (auto simp: name_def isValidComponent_def list_all_iff)

lemma normalizeE:
  assumes "normalize options p cur = r" "r \<noteq> []"
  obtains cs where "r = render cs" "list_all name cs" "length cs \<le> unat (maxDepth options)"
proof -
  obtain w cs where w: "normalize_loop options (split w) [] = Some cs" "length cs \<le> unat (maxDepth options)" "r = render cs"
    using assms by (auto simp: normalize_def Let_def not_less split: if_splits option.splits)
  have "list_all name cs"
    using normalize_loop_names [OF w(1)] split_clean by simp
  then show ?thesis using w that by blast
qed

lemma normalize_render:
  assumes "list_all name cs" "length cs \<le> unat (maxDepth options)" "length (render cs) \<le> unat (maxPathLength options)"
  shows "normalize options (render cs) cur = render cs"
  using assms render_head [of cs] render_no_nul [of cs] normalize_loop_fixed [OF assms(1), of options "[]"]
  by (simp add: normalize_def containsMaliciousChars_def isAbsolute_def split_render)

lemma validate_components_names: "list_all name cs \<Longrightarrow> validate_components cs msg = (True, msg)"
  by (induction cs) (auto simp: isValidComponent_def name_def list_all_iff)

lemma validate_render:
  assumes "list_all name cs" "length cs \<le> unat (maxDepth options)"
  shows "validate options (render cs) msg =
    (if unat (maxPathLength options) < length (render cs) then (False, ''Path too long'') else (True, msg))"
  using assms render_head [of cs] render_no_nul [of cs]
  by (simp add: validate_def containsMaliciousChars_def isAbsolute_def split_render validate_components_names)

lemma normalize_canonical_length:
  "normalize options p cur \<noteq> [] \<Longrightarrow> length (split (normalize options p cur)) \<le> unat (maxDepth options)"
  by (erule normalizeE [OF refl]) (simp add: split_render)

text \<open>Normalising a path yields nothing (the failure value) or a canonical path: absolute, made of at most \<open>maxDepth\<close>
  real names, none of them empty, a dot, a double dot or containing a separator or a null byte.\<close>

theorem normalize_canonical:
  assumes "normalize options p cur \<noteq> []"
  shows "list_all name (split (normalize options p cur)) \<and> normalize options p cur = render (split (normalize options p cur))
    \<and> length (split (normalize options p cur)) \<le> unat (maxDepth options)"
proof -
  obtain cs where "normalize options p cur = render cs" "list_all name cs" "length cs \<le> unat (maxDepth options)"
    using normalizeE [OF refl assms] .
  then show ?thesis by (simp add: split_render)
qed

theorem normalize_canonical_witness:
  "normalize default_options ''../a/./b//../c'' ''/home'' = ''/a/c''
   \<and> list_all name (split ''/a/c'')"
proof -
  have n: "normalize default_options ''../a/./b//../c'' ''/home'' = ''/a/c''" by code_simp
  show ?thesis using normalize_canonical [of default_options "''../a/./b//../c''" "''/home''"] unfolding n by simp
qed

subsection \<open>Prefixes of canonical paths\<close>

lemma absolute_cut:
  assumes "\<And>c. c \<in> set cs \<Longrightarrow> slash \<notin> set c" "absolute cs = a @ slash # b"
  obtains ms es where "cs = ms @ es" "a = absolute ms" "slash # b = absolute es"
  using assms
proof (induction cs arbitrary: a thesis)
  case (Cons c cs)
  show ?case
  proof (cases a)
    case Nil
    then show ?thesis using Cons.prems(1) [of "[]" "c # cs"] Cons.prems(3) by simp
  next
    case (Cons x a')
    then have e: "c @ absolute cs = a' @ slash # b" "x = slash" using Cons.prems(3) by simp_all
    have "length c \<le> length a'"
    proof (rule ccontr)
      assume "\<not> length c \<le> length a'"
      then have "c ! length a' = slash" "length a' < length c"
        using arg_cong [OF e(1), of "\<lambda>s. s ! length a'"] by (simp_all add: nth_append)
      then show False using Cons.prems(2) [of c] by (metis list.set_intros(1) nth_mem)
    qed
    then have a: "a' = c @ drop (length c) a'" "absolute cs = drop (length c) a' @ slash # b"
      using e(1) by (simp_all add: append_eq_append_conv_if) (metis append_take_drop_id)
    obtain ms es where "cs = ms @ es" "drop (length c) a' = absolute ms" "slash # b = absolute es"
      using Cons.IH [of "drop (length c) a'"] Cons.prems(2) a(2) by auto
    then show ?thesis using Cons.prems(1) [of "c # ms" es] Cons a(1) e(2) by simp
  qed
qed simp

lemma absolute_inj:
  "list_all name cs \<Longrightarrow> list_all name ds \<Longrightarrow> absolute cs = absolute ds \<Longrightarrow> cs = ds"
  by (metis name_def split_absolute list_all_iff)

lemma name_length: "list_all name cs \<Longrightarrow> cs \<noteq> [] \<Longrightarrow> 1 < length (absolute cs)"
  by (cases cs) (auto simp: name_def Suc_lessI)

lemma absolute_last: "list_all name cs \<Longrightarrow> cs \<noteq> [] \<Longrightarrow> absolute cs \<noteq> [] \<and> last (absolute cs) \<noteq> slash"
proof (induction cs)
  case (Cons c cs)
  then have "last c \<noteq> slash" by (auto simp: name_def dest: last_in_set)
  then show ?case using Cons by (cases "cs = []") (auto simp: name_def)
qed simp

lemma render_eq: "list_all name cs \<Longrightarrow> list_all name ds \<Longrightarrow> render cs = render ds \<longleftrightarrow> cs = ds"
  by (metis split_render)

text \<open>The prefix test both sides use: the shorter path is a prefix of the longer, followed by a separator.\<close>

lemma under_iff:
  assumes "list_all name ms" "list_all name cs" "ms \<noteq> []"
  shows "(\<exists>b. absolute cs = absolute ms @ slash # b) \<or> cs = ms \<longleftrightarrow> prefix ms cs"
proof
  assume "(\<exists>b. absolute cs = absolute ms @ slash # b) \<or> cs = ms"
  then show "prefix ms cs"
  proof
    assume "\<exists>b. absolute cs = absolute ms @ slash # b"
    then obtain b where b: "absolute cs = absolute ms @ slash # b" ..
    have "slash \<notin> set c" if "c \<in> set cs" for c
      using assms(2) that by (simp add: list_all_iff name_def)
    from absolute_cut [OF this b] obtain ms' es where "cs = ms' @ es" "absolute ms = absolute ms'"
      by blast
    then show ?thesis using absolute_inj [of ms ms'] assms by simp
  qed simp
next
  assume "prefix ms cs"
  then obtain es where "cs = ms @ es" by (auto simp: prefix_def)
  then show "(\<exists>b. absolute cs = absolute ms @ slash # b) \<or> cs = ms" by (cases es) auto
qed

lemma take_slash_iff:
  "(take (length r) p = r \<and> length r < length p \<and> p ! length r = slash) \<longleftrightarrow> (\<exists>b. p = r @ slash # b)"
proof
  assume a: "take (length r) p = r \<and> length r < length p \<and> p ! length r = slash"
  then have "p = r @ p ! length r # drop (Suc (length r)) p"
    using id_take_nth_drop [of "length r" p] by simp
  then show "\<exists>b. p = r @ slash # b" using a by auto
qed auto

text \<open>C16: \<open>escapesRoot\<close> decides confinement: it answers no exactly when both paths normalise and the names of the root are a
  prefix of the names of the path.\<close>

theorem escapesRoot_iff:
  "\<not> escapesRoot options path root \<longleftrightarrow>
     (let p = normalize options path [slash]; r = normalize options root [slash]
      in p \<noteq> [] \<and> r \<noteq> [] \<and> prefix (split r) (split p))"
proof (cases "normalize options path [slash] = [] \<or> normalize options root [slash] = []")
  case True
  then show ?thesis by (auto simp: escapesRoot_def Let_def)
next
  case False
  obtain cs where cs: "normalize options path [slash] = render cs" "list_all name cs"
    using normalizeE [OF refl, of options path "[slash]"] False by blast
  obtain ms where ms: "normalize options root [slash] = render ms" "list_all name ms"
    using normalizeE [OF refl, of options root "[slash]"] False by blast
  have ne: "render cs \<noteq> []" "render ms \<noteq> []" using render_head by blast+
  show ?thesis
  proof (cases "ms = []")
    case True
    then show ?thesis
      using cs ms ne render_head [of cs]
      by (cases "render cs") (auto simp: escapesRoot_def split_render render_absolute [of "[]"])
  next
    case m: False
    then have r: "render ms = absolute ms" "absolute ms \<noteq> [slash]" "split (absolute ms) = ms"
      using name_length [OF ms(2)] split_render [OF ms(2)] by (auto simp: render_absolute)
    show ?thesis
    proof (cases "cs = []")
      case True
      then show ?thesis
        using cs ms ne m r name_length [OF ms(2)] by (simp add: escapesRoot_def split_render render_absolute)
    next
      case c: False
      have "\<not> escapesRoot options path root \<longleftrightarrow> (\<exists>b. absolute cs = absolute ms @ slash # b) \<or> absolute cs = absolute ms"
        using cs ms ne c m r take_slash_iff [of "absolute ms" "absolute cs"]
        by (auto simp: escapesRoot_def render_absolute not_less split: if_splits)
      also have "\<dots> \<longleftrightarrow> prefix ms cs"
        using under_iff [OF ms(2) cs(2) m] absolute_inj [OF cs(2) ms(2)] by blast
      finally show ?thesis using cs ms ne by (simp add: split_render)
    qed
  qed
qed

text \<open>Normalising is idempotent: a normalised path that is no longer than the length limit is its own normal form,
  whatever the current directory.\<close>

theorem normalize_idempotent:
  assumes "normalize options p cur \<noteq> []" "length (normalize options p cur) \<le> unat (maxPathLength options)"
  shows "normalize options (normalize options p cur) cur' = normalize options p cur"
proof -
  obtain cs where "normalize options p cur = render cs" "list_all name cs" "length cs \<le> unat (maxDepth options)"
    using normalizeE [OF refl assms(1)] .
  then show ?thesis using assms(2) by (simp add: normalize_render)
qed

theorem normalize_idempotent_witness:
  "normalize default_options (normalize default_options ''a//b/../c/'' ''/'') ''/x'' = ''/a/c''"
proof -
  have n: "normalize default_options ''a//b/../c/'' ''/'' = ''/a/c''" by code_simp
  show ?thesis
    using normalize_idempotent [of default_options "''a//b/../c/''" "''/''" "''/x''"] unfolding n
    by (simp add: default_options_def)
qed

subsection \<open>Mounts\<close>

lemma drop_slashes_last: "last s \<noteq> slash \<Longrightarrow> drop_slashes s = s"
  by (subst drop_slashes.simps) simp

lemma drop_slashes_slash [simp]: "drop_slashes [slash] = [slash]"
  by (subst drop_slashes.simps) simp

lemma drop_slashes_render: "list_all name cs \<Longrightarrow> drop_slashes (render cs) = render cs"
  using absolute_last [of cs] by (simp add: render_absolute drop_slashes_last)

lemma normalizePath_render: "list_all name cs \<Longrightarrow> normalizePath (render cs) = render cs"
  using render_head [of cs] by (simp add: normalizePath_def drop_slashes_render)

text \<open>What a mount says about a canonical path: its own path, or its mount point followed by the translated path.\<close>

lemma containsPath_render:
  assumes "list_all name cs" "containsPath m (render cs)"
  obtains ms es where "cs = ms @ es" "mountPoint m = render ms" "translatePath m (render cs) = render es"
    | "mountPoint m = []" "translatePath m (render cs) = render cs"
proof (cases "render cs = mountPoint m")
  case True
  then have "translatePath m (render cs) = render []"
    using assms normalizePath_render [OF assms(1)]
    by (simp add: translatePath_def render_absolute [of "[]"])
  then show ?thesis
    using that(1) [of cs "[]"] True by simp
next
  case False
  then have "take (length (mountPoint m)) (render cs) = mountPoint m \<and> length (mountPoint m) < length (render cs)
      \<and> render cs ! length (mountPoint m) = slash"
    using assms by (auto simp: containsPath_def normalizePath_render Let_def split: if_splits)
  then obtain b where b: "render cs = mountPoint m @ slash # b" using take_slash_iff by blast
  show ?thesis
  proof (cases "cs = []")
    case True
    then have "mountPoint m = []" using b by (cases "mountPoint m") (auto simp: render_absolute)
    moreover have "translatePath m (render cs) = render cs"
      using assms calculation False render_head [of cs] by (simp add: translatePath_def normalizePath_render Let_def)
    ultimately show ?thesis by (rule that(2))
  next
    case False
    have "slash \<notin> set c" if "c \<in> set cs" for c
      using assms(1) that by (simp add: list_all_iff name_def)
    moreover have ab: "absolute cs = mountPoint m @ slash # b" using b False by (simp add: render_absolute)
    ultimately obtain ms es where e: "cs = ms @ es" "mountPoint m = absolute ms" "slash # b = absolute es"
      using absolute_cut by metis
    have es: "es \<noteq> []" using e(3) by auto
    have t: "translatePath m (render cs) = render es"
      using assms(2) normalizePath_render [OF assms(1)] b es
      by (simp add: translatePath_def render_absolute [of es] e(3) [symmetric])
    show ?thesis
    proof (cases "ms = []")
      case True
      then show ?thesis using that(2) t e by simp
    next
      case False
      then show ?thesis using that(1) t e by (simp add: render_absolute)
    qed
  qed
qed

lemma containsPath_under:
  assumes "list_all name (ms @ es)" "ms \<noteq> []" "mountPoint m = render ms"
  shows "containsPath m (render (ms @ es)) \<and> translatePath m (render (ms @ es)) = render es"
proof (cases es)
  case Nil
  then show ?thesis
    using assms by (simp add: containsPath_def translatePath_def normalizePath_render render_absolute [of "[]"])
next
  case (Cons e es')
  then have r: "render (ms @ es) = mountPoint m @ slash # e @ absolute es'" "render es = slash # e @ absolute es'"
    using assms by (simp_all add: render_absolute)
  have "normalizePath (render (ms @ es)) = render (ms @ es)"
    by (rule normalizePath_render) (rule assms(1))
  then show ?thesis
    unfolding containsPath_def translatePath_def r by (simp add: Let_def)
qed

text \<open>The mounted list of a path's candidates, and the invariant of the search.\<close>

definition candidate :: "string \<Rightarrow> ('fs, 'dev) filesystem_mount option list \<Rightarrow> ('fs, 'dev) filesystem_mount \<Rightarrow> bool" where
  "candidate path mounts m \<longleftrightarrow> Some m \<in> set mounts \<and> mounted m \<and> containsPath m path"

definition best_of :: "('fs, 'dev) filesystem_mount option \<Rightarrow> nat \<Rightarrow> (('fs, 'dev) filesystem_mount \<Rightarrow> bool)
    \<Rightarrow> ('fs, 'dev) filesystem_mount option \<Rightarrow> bool" where
  "best_of best n C r \<longleftrightarrow>
     (case r of None \<Rightarrow> best = None
      | Some m \<Rightarrow> (best = Some m \<or> C m)) \<and>
     (\<forall>m'. C m' \<longrightarrow> length (mountPoint m') \<le> (case r of None \<Rightarrow> n | Some m \<Rightarrow> length (mountPoint m))) \<and>
     (\<forall>m. r = Some m \<longrightarrow> n \<le> length (mountPoint m))"

lemma best_of_take:
  "best_of (Some m) (length (mountPoint m)) C r \<Longrightarrow> n < length (mountPoint m) \<Longrightarrow>
   best_of best n (\<lambda>x. C x \<or> x = m) r"
  by (cases r) (auto simp: best_of_def)

lemma best_of_skip:
  "best_of best n C r \<Longrightarrow> length (mountPoint m) \<le> n \<Longrightarrow> best_of best n (\<lambda>x. C x \<or> x = m) r"
  by (cases r) (auto simp: best_of_def)

lemma findMount_loop_best:
  "(\<And>b. best = Some b \<Longrightarrow> n = length (mountPoint b)) \<Longrightarrow>
   best_of best n (candidate path mounts) (findMount_loop path mounts best n)"
proof (induction mounts arbitrary: best n)
  case Nil
  then show ?case by (cases best) (simp_all add: best_of_def candidate_def)
next
  case (Cons x rest)
  show ?case
  proof (cases "\<exists>m. x = Some m \<and> mounted m \<and> containsPath m path")
    case False
    then have "candidate path (x # rest) = candidate path rest"
      "findMount_loop path (x # rest) best n = findMount_loop path rest best n"
      by (auto simp: candidate_def fun_eq_iff) (cases x, auto)
    then show ?thesis using Cons by metis
  next
    case True
    then obtain m where m: "x = Some m" "mounted m" "containsPath m path" by blast
    then have c: "candidate path (x # rest) = (\<lambda>y. candidate path rest y \<or> y = m)"
      by (auto simp: candidate_def fun_eq_iff)
    show ?thesis
    proof (cases "n < length (mountPoint m)")
      case True
      then show ?thesis using Cons.IH [of "Some m" "length (mountPoint m)"] m unfolding c by (simp add: best_of_take)
    next
      case False
      then show ?thesis using Cons.IH [OF Cons.prems] m unfolding c by (simp add: best_of_skip)
    qed
  qed
qed

lemma findMount_longest:
  "findMount path mounts = Some m \<Longrightarrow> candidate path mounts m
    \<and> (\<forall>m'. candidate path mounts m' \<longrightarrow> length (mountPoint m') \<le> length (mountPoint m))"
  using findMount_loop_best [of None 0 path mounts] by (simp add: findMount_def best_of_def)

lemma findMount_found:
  assumes "candidate path mounts m" "mountPoint m \<noteq> []"
  shows "\<exists>m'. findMount path mounts = Some m'"
  using findMount_loop_best [of None 0 path mounts] assms
  by (cases "findMount path mounts") (auto simp: findMount_def best_of_def)

lemma findMount_loop_nonempty:
  "findMount_loop path mounts best n = Some m \<Longrightarrow> (\<And>b. best = Some b \<Longrightarrow> mountPoint b \<noteq> []) \<Longrightarrow> mountPoint m \<noteq> []"
proof (induction path mounts best n rule: findMount_loop.induct)
  case (3 path x rest best n)
  then show ?case by (cases "mountPoint x = []") (auto split: if_splits)
qed simp_all

subsection \<open>Resolution\<close>

lemma resolve_cases:
  assumes "normalize options p cur = render cs" "list_all name cs" "length cs \<le> unat (maxDepth options)"
  shows "resolve options p mounts cur =
    (if unat (maxPathLength options) < length (render cs)
     then empty_resolved_path\<lparr>normalizedPath := render cs, errorMessage := ''Path too long''\<rparr>
     else case findMount (render cs) mounts of
            None \<Rightarrow> empty_resolved_path\<lparr>normalizedPath := render cs, errorMessage := ''No filesystem mounted at path''\<rparr>
          | Some m \<Rightarrow>
             (if translatePath m (render cs) = []
              then empty_resolved_path\<lparr>normalizedPath := render cs, mount := Some m, errorMessage := ''Path translation failed''\<rparr>
              else empty_resolved_path\<lparr>valid := True, normalizedPath := render cs, mount := Some m,
                     filesystemPath := translatePath m (render cs)\<rparr>))"
  using assms render_head [of cs]
  by (simp add: resolve_def empty_resolved_path_def validate_render Let_def split: option.splits)

text \<open>C15: Confinement of guest paths: a path that resolves names a mounted filesystem whose mount point is a prefix of its
  canonical form, the path handed to the filesystem is the canonical rest, so no dot-dot ever reaches a
  filesystem, and no mounted filesystem with a longer mount point contains the path.\<close>

theorem resolve_confined:
  assumes "valid (resolve options p mounts cur)"
  shows "\<exists>m ms es. mount (resolve options p mounts cur) = Some m \<and> candidate (render (ms @ es)) mounts m \<and>
    list_all name (ms @ es) \<and> mountPoint m = render ms \<and>
    normalizedPath (resolve options p mounts cur) = render (ms @ es) \<and>
    filesystemPath (resolve options p mounts cur) = render es \<and>
    (\<forall>m'. candidate (render (ms @ es)) mounts m' \<longrightarrow> length (mountPoint m') \<le> length (mountPoint m))"
proof -
  have n: "normalize options p cur \<noteq> []"
    using assms by (auto simp: resolve_def empty_resolved_path_def Let_def)
  obtain cs where cs: "normalize options p cur = render cs" "list_all name cs" "length cs \<le> unat (maxDepth options)"
    using normalizeE [OF refl n] .
  note r = resolve_cases [OF cs, of mounts]
  obtain m where m: "findMount (render cs) mounts = Some m"
    using assms unfolding r by (auto simp: empty_resolved_path_def split: if_splits option.splits)
  then have best: "candidate (render cs) mounts m"
    "\<forall>m'. candidate (render cs) mounts m' \<longrightarrow> length (mountPoint m') \<le> length (mountPoint m)"
    using findMount_longest by blast+
  have "mountPoint m \<noteq> []"
    using findMount_loop_nonempty [of "render cs" mounts None 0 m] m by (simp add: findMount_def)
  then obtain ms es where e: "cs = ms @ es" "mountPoint m = render ms" "translatePath m (render cs) = render es"
    using containsPath_render [OF cs(2)] best(1) unfolding candidate_def by metis
  have v: "resolve options p mounts cur =
     empty_resolved_path\<lparr>valid := True, normalizedPath := render cs, mount := Some m, filesystemPath := render es\<rparr>"
    using assms m e(3) unfolding r by (auto simp: empty_resolved_path_def split: if_splits)
  show ?thesis
    using best cs(2) e(2) unfolding v e(1) by (intro exI [of _ m] exI [of _ ms] exI [of _ es]) simp
qed

definition demo_mount :: "string \<Rightarrow> (unit, unit) filesystem_mount" where
  "demo_mount point =
     (new_mount point (Some ()) (Some ()) \<lparr>mo_readOnly = False, mo_noExec = False, mo_noSuid = False, mo_fsType = []\<rparr>)
       \<lparr>mounted := True\<rparr>"

theorem resolve_confined_witness:
  "valid (resolve default_options ''../data/x/../y'' [None, Some (demo_mount ''data/'')] ''/'')
   \<and> (\<exists>m. mount (resolve default_options ''../data/x/../y'' [None, Some (demo_mount ''data/'')] ''/'') = Some m
        \<and> mountPoint m = ''/data'')"
proof -
  let ?r = "resolve default_options ''../data/x/../y'' [None, Some (demo_mount ''data/'')] ''/''"
  have v: "valid ?r" by code_simp
  have p: "map_option mountPoint (mount ?r) = Some ''/data''" by code_simp
  from resolve_confined [OF v] have "\<exists>m. mount ?r = Some m" by blast
  then show ?thesis using v p by auto
qed

text \<open>Nothing is refused needlessly, below the root: when a mounted filesystem's mount point, other than the root, is a
  prefix of a path within the length limit, the path resolves.\<close>

theorem resolve_complete:
  assumes "normalize options p cur = render (ms @ es)" "list_all name (ms @ es)"
    and "length (render (ms @ es)) \<le> unat (maxPathLength options)"
    and "ms \<noteq> []" "mountPoint m = render ms" "Some m \<in> set mounts" "mounted m"
  shows "valid (resolve options p mounts cur)"
proof -
  have "normalize options p cur \<noteq> []" using assms(1) render_head by metis
  then have d: "length (ms @ es) \<le> unat (maxDepth options)"
    using normalize_canonical_length [of options p cur] assms(1) by (simp add: split_render [OF assms(2)])
  have c: "candidate (render (ms @ es)) mounts m"
    using containsPath_under [OF assms(2,4,5)] assms(6,7) by (simp add: candidate_def)
  have "mountPoint m \<noteq> []" using assms(5) render_head by metis
  from findMount_found [OF c this] obtain m' where m': "findMount (render (ms @ es)) mounts = Some m'" ..
  have "containsPath m' (render (ms @ es))" using findMount_longest [OF m'] by (simp add: candidate_def)
  then have "translatePath m' (render (ms @ es)) \<noteq> []"
    using containsPath_render [OF assms(2), of m'] render_head by metis
  then show ?thesis
    using m' assms(3) unfolding resolve_cases [OF assms(1,2) d] by simp
qed

subsection \<open>Directory and base name\<close>

lemma find_last_slash_append: "slash \<notin> set c \<Longrightarrow> find_last_slash (a @ slash # c) = Some (length a)"
proof -
  assume c: "slash \<notin> set c"
  have "takeWhile (\<lambda>x. x \<noteq> slash) (rev (a @ slash # c)) = rev c"
    using c by (subst rev_append, simp, subst takeWhile_append2) auto
  then show ?thesis by (simp add: find_last_slash_def)
qed

text \<open>On a canonical path, \<open>dirname\<close> and \<open>basename\<close> are the parent and the last name, and \<open>join\<close> puts them together again.\<close>

theorem dirname_basename_join:
  assumes "list_all name (cs @ [c])"
  shows "dirname (render (cs @ [c])) = render cs \<and> basename (render (cs @ [c])) = c
    \<and> join (render cs) c = render (cs @ [c])"
proof -
  have c: "c \<noteq> []" "slash \<notin> set c" "\<not> isAbsolute c"
    using assms by (simp_all add: name_def isAbsolute_def) (metis length_greater_0_conv nth_mem)
  have r: "render (cs @ [c]) = absolute cs @ slash # c" by (simp add: render_absolute)
  have d: "drop_slashes (absolute cs @ slash # c) = absolute cs @ slash # c"
    using drop_slashes_render [OF assms] by (simp add: r)
  have f: "find_last_slash (absolute cs @ slash # c) = Some (length (absolute cs))"
    using c by (simp add: find_last_slash_append)
  have n: "absolute cs @ slash # c \<noteq> [slash]" using c by (cases cs) auto
  have z: "length (absolute cs) = 0 \<longleftrightarrow> cs = []" by (cases cs) auto
  have j: "join (render cs) c = absolute cs @ slash # c"
  proof (cases "cs = []")
    case True
    then show ?thesis using c by (simp add: join_def render_absolute)
  next
    case False
    then show ?thesis using c absolute_last [of cs] assms by (simp add: join_def render_absolute)
  qed
  have dn: "dirname (absolute cs @ slash # c) = (if length (absolute cs) = 0 then [slash] else absolute cs)"
    using n by (simp add: dirname_def d f)
  have bn: "basename (absolute cs @ slash # c) = c"
    using n by (simp add: basename_def d f)
  show ?thesis
    unfolding r j dn bn z by (simp add: render_absolute)
qed

theorem dirname_basename_join_witness:
  "dirname ''/usr/lib'' = ''/usr'' \<and> basename ''/usr/lib'' = ''lib'' \<and> join ''/usr'' ''lib'' = ''/usr/lib''"
proof -
  have r: "render ([''usr''] @ [''lib'']) = ''/usr/lib''" "render [''usr''] = ''/usr''" by code_simp+
  have n: "list_all name ([''usr''] @ [''lib''])" by (simp add: name_def slash_def nul_def)
  show ?thesis using dirname_basename_join [OF n] unfolding r .
qed

text \<open>A filesystem mounted at the root serves the root alone: every other canonical path is outside it, so a guest whose
  only mount is the root can open no file.\<close>

theorem root_mount_serves_root_only:
  assumes "list_all name cs" "mountPoint m = [slash]"
  shows "containsPath m (render cs) \<longleftrightarrow> cs = []"
proof
  assume c: "containsPath m (render cs)"
  show "cs = []"
  proof (rule ccontr)
    assume "cs \<noteq> []"
    then obtain c cs' where cs: "cs = c # cs'" by (cases cs) auto
    then have "c \<noteq> []" "slash \<notin> set c" using assms(1) by (simp_all add: name_def)
    then show False
      using \<open>containsPath m (render cs)\<close> assms cs normalizePath_render [OF assms(1)]
      by (cases c) (simp_all add: containsPath_def render_absolute)
  qed
qed (use assms(2) in \<open>simp add: containsPath_def render_absolute normalizePath_def\<close>)

theorem root_mount_witness:
  "\<not> containsPath (demo_mount ''/'') ''/etc/passwd''"
proof -
  have r: "render [''etc'', ''passwd''] = ''/etc/passwd''" by code_simp
  have n: "list_all name [''etc'', ''passwd'']" by (simp add: name_def slash_def nul_def)
  have m: "mountPoint (demo_mount ''/'') = [slash]" by code_simp
  show ?thesis using root_mount_serves_root_only [OF n m] unfolding r by simp
qed

end
