(* ===== verification/Elf_Format.thy ===== *)
theory Elf_Format
  imports Bytes Text_Stream
begin

text \<open>
  ELF64 files (\<open>src/include/loader.h\<close>) and the validator of kernel images (\<open>src/src/loader/KernelValidator.cpp\<close>). The headers
  are packed structures copied out of the file byte by byte. The file is a byte array at some address of the
  process: a pointer into it is a 64-bit address, pointer arithmetic wraps, and what lies outside the array is
  not the file's.
\<close>

subsection \<open>Headers\<close>

record elf64_ehdr =
  e_ident :: "u8 list"
  e_type :: u16
  e_machine :: u16
  e_version :: u32
  e_entry :: u64
  e_phoff :: u64
  e_shoff :: u64
  e_flags :: u32
  e_ehsize :: u16
  e_phentsize :: u16
  e_phnum :: u16
  e_shentsize :: u16
  e_shnum :: u16
  e_shstrndx :: u16

record elf64_phdr =
  p_type :: u32
  p_flags :: u32
  p_offset :: u64
  p_vaddr :: u64
  p_paddr :: u64
  p_filesz :: u64
  p_memsz :: u64
  p_align :: u64

definition sizeof_Ehdr :: nat where "sizeof_Ehdr = 64"
definition sizeof_Phdr :: nat where "sizeof_Phdr = 56"

definition field :: "nat \<Rightarrow> u8 list \<Rightarrow> 'a::len word" where
  "field offset bs = le_value (read_bytes bs offset (LENGTH('a) div 8))"

definition get_ehdr :: "u8 list \<Rightarrow> elf64_ehdr" where
  "get_ehdr bs = \<lparr>e_ident = read_bytes bs 0 16, e_type = field 16 bs, e_machine = field 18 bs, e_version = field 20 bs,
     e_entry = field 24 bs, e_phoff = field 32 bs, e_shoff = field 40 bs, e_flags = field 48 bs, e_ehsize = field 52 bs,
     e_phentsize = field 54 bs, e_phnum = field 56 bs, e_shentsize = field 58 bs, e_shnum = field 60 bs, e_shstrndx = field 62 bs\<rparr>"

definition get_phdr :: "u8 list \<Rightarrow> elf64_phdr" where
  "get_phdr bs = \<lparr>p_type = field 0 bs, p_flags = field 4 bs, p_offset = field 8 bs, p_vaddr = field 16 bs,
     p_paddr = field 24 bs, p_filesz = field 32 bs, p_memsz = field 40 bs, p_align = field 48 bs\<rparr>"

definition ELFMAG0 :: u8 where "ELFMAG0 = 0x7F"
definition ELFMAG1 :: u8 where "ELFMAG1 = 0x45"
definition ELFMAG2 :: u8 where "ELFMAG2 = 0x4C"
definition ELFMAG3 :: u8 where "ELFMAG3 = 0x46"
definition ELFCLASS64 :: u8 where "ELFCLASS64 = 2"
definition ELFDATA2LSB :: u8 where "ELFDATA2LSB = 1"
definition EV_CURRENT :: u8 where "EV_CURRENT = 1"
definition EM_IA_64 :: u16 where "EM_IA_64 = 50"

definition ET_NONE :: u16 where "ET_NONE = 0"
definition ET_REL :: u16 where "ET_REL = 1"
definition ET_EXEC :: u16 where "ET_EXEC = 2"
definition ET_DYN :: u16 where "ET_DYN = 3"
definition ET_CORE :: u16 where "ET_CORE = 4"

definition PT_LOAD :: u32 where "PT_LOAD = 1"
definition PT_DYNAMIC :: u32 where "PT_DYNAMIC = 2"
definition PT_INTERP :: u32 where "PT_INTERP = 3"
definition PT_GNU_STACK :: u32 where "PT_GNU_STACK = 0x6474e551"
definition PT_IA_64_UNWIND :: u32 where "PT_IA_64_UNWIND = 0x70000001"

definition PF_X :: u32 where "PF_X = 1"
definition PF_W :: u32 where "PF_W = 2"
definition PF_R :: u32 where "PF_R = 4"

definition magic_ok :: "elf64_ehdr \<Rightarrow> bool" where
  "magic_ok h \<longleftrightarrow> e_ident h ! 0 = ELFMAG0 \<and> e_ident h ! 1 = ELFMAG1 \<and> e_ident h ! 2 = ELFMAG2 \<and> e_ident h ! 3 = ELFMAG3"

subsection \<open>Pointers into the file\<close>

text \<open>The file at address \<open>at\<close>; \<open>None\<close> when bytes outside the array would be read.\<close>

record elf_file =
  at :: u64
  bytes :: "u8 list"

definition deref :: "elf_file \<Rightarrow> u64 \<Rightarrow> nat \<Rightarrow> u8 list option" where
  "deref f p n = (if unat (p - at f) + n \<le> length (bytes f) then Some (read_bytes (bytes f) (unat (p - at f)) n) else None)"

definition phdr_pointer :: "elf_file \<Rightarrow> elf64_ehdr \<Rightarrow> nat \<Rightarrow> u64" where
  "phdr_pointer f h i = (at f + e_phoff h) + of_nat (i * unat (e_phentsize h))"

subsection \<open>The kernel validator\<close>

record kernel_requirements =
  hasValidEntryPoint :: bool
  entryPointAligned :: bool
  entryPointExecutable :: bool
  kr_entryPoint :: u64
  hasCodeSegment :: bool
  hasDataSegment :: bool
  hasStackSpace :: bool
  codeSegmentStart :: u64
  codeSegmentSize :: u64
  dataSegmentStart :: u64
  dataSegmentSize :: u64
  stackIsValid :: bool
  stackIsAligned :: bool
  stackHasEnoughSpace :: bool
  kr_stackTop :: u64
  kr_stackBottom :: u64
  kr_stackSize :: u64
  totalMemoryRequired :: u64
  minMemoryRequired :: u64
  isIA64 :: bool
  isELF64 :: bool
  isExecutable :: bool
  hasBackingStore :: bool
  kr_backingStoreBase :: u64
  kr_backingStoreSize :: u64
  errors :: "string list"
  warnings :: "string list"

definition no_requirements :: kernel_requirements where
  "no_requirements = \<lparr>hasValidEntryPoint = False, entryPointAligned = False, entryPointExecutable = False, kr_entryPoint = 0,
     hasCodeSegment = False, hasDataSegment = False, hasStackSpace = False, codeSegmentStart = 0, codeSegmentSize = 0,
     dataSegmentStart = 0, dataSegmentSize = 0, stackIsValid = False, stackIsAligned = False, stackHasEnoughSpace = False,
     kr_stackTop = 0, kr_stackBottom = 0, kr_stackSize = 0, totalMemoryRequired = 0, minMemoryRequired = 0, isIA64 = False,
     isELF64 = False, isExecutable = False, hasBackingStore = False, kr_backingStoreBase = 0, kr_backingStoreSize = 0,
     errors = [], warnings = []\<rparr>"

datatype validation_mode = MINIMAL | STANDARD | STRICT | KERNEL

fun mode_rank :: "validation_mode \<Rightarrow> nat" where
  "mode_rank MINIMAL = 0" | "mode_rank STANDARD = 1" | "mode_rank STRICT = 2" | "mode_rank KERNEL = 3"

record kernel_validator =
  minStackSize :: u64
  minBackingStoreSize :: u64
  minMemory :: u64
  verbose :: bool

definition KernelValidator :: kernel_validator where
  "KernelValidator = \<lparr>minStackSize = 16 * 1024, minBackingStoreSize = 16 * 1024, minMemory = 1024 * 1024, verbose = False\<rparr>"

definition err :: "string \<Rightarrow> kernel_requirements \<Rightarrow> kernel_requirements" where
  "err msg req = req\<lparr>errors := errors req @ [msg]\<rparr>"

definition warn :: "string \<Rightarrow> kernel_requirements \<Rightarrow> kernel_requirements" where
  "warn msg req = req\<lparr>warnings := warnings req @ [msg]\<rparr>"

definition to_string :: "'a::len word \<Rightarrow> string" where
  "to_string w = digits 10 (unat w)"

definition kv_ValidateArchitecture :: "elf64_ehdr \<Rightarrow> kernel_requirements \<Rightarrow> kernel_requirements" where
  "kv_ValidateArchitecture h req =
     (if \<not> magic_ok h then err ''Invalid ELF magic number'' req
      else if e_ident h ! 4 \<noteq> ELFCLASS64 then err ''Not a 64-bit ELF file'' req
      else let req = req\<lparr>isELF64 := True\<rparr>
      in if e_ident h ! 5 \<noteq> ELFDATA2LSB then err ''Not little-endian (required for IA-64)'' req
      else if e_machine h \<noteq> EM_IA_64
           then err (''Not an IA-64 binary (machine type: '' @ to_string (e_machine h) @ '')'') req
      else let req = req\<lparr>isIA64 := True\<rparr>
      in if e_type h \<noteq> ET_EXEC \<and> e_type h \<noteq> ET_DYN then err ''Not an executable or shared object'' req
      else let req = req\<lparr>isExecutable := (e_type h = ET_EXEC)\<rparr>
      in if e_version h \<noteq> ucast EV_CURRENT then warn (''Unexpected ELF version: '' @ to_string (e_version h)) req
      else req)"

text \<open>The segment loop of the entry-point check: the first loadable segment with the entry point decides.\<close>

datatype entry_search = InExecutable | InOther | Nowhere

fun find_entry :: "u64 \<Rightarrow> elf64_phdr list \<Rightarrow> entry_search" where
  "find_entry entry [] = Nowhere"
| "find_entry entry (p # ps) =
     (if p_type p \<noteq> PT_LOAD then find_entry entry ps
      else let segStart = p_vaddr p; segEnd = p_vaddr p + p_memsz p
           in if entry \<ge> segStart \<and> entry < segEnd
              then if p_flags p AND PF_X \<noteq> 0 then InExecutable else InOther
              else find_entry entry ps)"

definition kv_ValidateEntryPoint :: "elf64_ehdr \<Rightarrow> elf64_phdr list \<Rightarrow> kernel_requirements \<Rightarrow> kernel_requirements" where
  "kv_ValidateEntryPoint h phdrs req =
     (let req = req\<lparr>kr_entryPoint := e_entry h\<rparr>
      in if kr_entryPoint req = 0 then err ''Entry point is zero (invalid for kernel)'' req
      else if kr_entryPoint req AND 0xF \<noteq> 0 then err ''Entry point not aligned to 16-byte boundary'' req
      else let req = req\<lparr>entryPointAligned := True\<rparr>
      in case find_entry (kr_entryPoint req) phdrs of
           InExecutable \<Rightarrow> req\<lparr>entryPointExecutable := True, hasValidEntryPoint := True\<rparr>
         | InOther \<Rightarrow> err ''Entry point is in non-executable segment'' req
         | Nowhere \<Rightarrow> err ''Entry point not found in any loadable segment'' req)"

definition note_code :: "elf64_phdr \<Rightarrow> kernel_requirements \<Rightarrow> kernel_requirements" where
  "note_code p req =
     (if p_flags p AND PF_X \<noteq> 0 \<and> p_flags p AND PF_R \<noteq> 0
      then req\<lparr>hasCodeSegment := True,
             codeSegmentStart := (if codeSegmentStart req = 0 \<or> p_vaddr p < codeSegmentStart req then p_vaddr p
                                  else codeSegmentStart req),
             codeSegmentSize := codeSegmentSize req + p_memsz p\<rparr>
      else req)"

definition note_data :: "elf64_phdr \<Rightarrow> kernel_requirements \<Rightarrow> kernel_requirements" where
  "note_data p req =
     (if p_flags p AND PF_W \<noteq> 0
      then req\<lparr>hasDataSegment := True,
             dataSegmentStart := (if dataSegmentStart req = 0 \<or> p_vaddr p < dataSegmentStart req then p_vaddr p
                                  else dataSegmentStart req),
             dataSegmentSize := dataSegmentSize req + p_memsz p\<rparr>
      else req)"

definition complain :: "bool \<Rightarrow> string \<Rightarrow> kernel_requirements \<Rightarrow> kernel_requirements" where
  "complain c msg req = (if c then err msg req else req)"

definition segment_layout_step :: "elf64_phdr \<Rightarrow> kernel_requirements \<Rightarrow> kernel_requirements" where
  "segment_layout_step p req =
     (if p_type p \<noteq> PT_LOAD then req
      else complain (p_filesz p > p_memsz p) ''Segment file size exceeds memory size''
          (complain (p_align p > 1 \<and> p_vaddr p mod p_align p \<noteq> p_offset p mod p_align p)
             ''Segment address/offset not congruent modulo alignment''
          (complain (p_align p > 1 \<and> p_align p AND (p_align p - 1) \<noteq> 0) ''Segment alignment is not power of 2''
          (note_data p (note_code p req)))))"

definition kv_ValidateSegmentLayout :: "elf64_phdr list \<Rightarrow> kernel_requirements \<Rightarrow> kernel_requirements" where
  "kv_ValidateSegmentLayout phdrs req =
     (let req = fold segment_layout_step phdrs req
      in if \<not> hasCodeSegment req then err ''No executable code segment found'' req else req)"

text \<open>The loop takes the sums and bounds; the bounds are not used further.\<close>

definition kv_ValidateMemoryRequirements :: "kernel_validator \<Rightarrow> elf64_phdr list \<Rightarrow> kernel_requirements \<Rightarrow> kernel_requirements" where
  "kv_ValidateMemoryRequirements v phdrs req =
     (let req = fold (\<lambda>p r. if p_type p \<noteq> PT_LOAD then r
                              else r\<lparr>totalMemoryRequired := totalMemoryRequired r + p_memsz p\<rparr>) phdrs req;
          req = req\<lparr>minMemoryRequired := totalMemoryRequired req + minStackSize v + minBackingStoreSize v\<rparr>
      in if minMemoryRequired req > minMemory v \<and> verbose v
         then warn (''Kernel requires '' @ to_string (minMemoryRequired req) @ '' bytes minimum'') req else req)"

fun find_stack :: "elf64_phdr list \<Rightarrow> elf64_phdr option" where
  "find_stack [] = None"
| "find_stack (p # ps) = (if p_type p = PT_GNU_STACK then Some p else find_stack ps)"

definition kv_ValidateStackRequirements :: "elf64_phdr list \<Rightarrow> validation_mode \<Rightarrow> kernel_requirements \<Rightarrow> kernel_requirements" where
  "kv_ValidateStackRequirements phdrs mode req =
     (let req = (case find_stack phdrs of
            None \<Rightarrow> req
          | Some p \<Rightarrow> let r = req\<lparr>hasStackSpace := True\<rparr>
                      in if p_flags p AND PF_X \<noteq> 0 then warn ''Stack segment is executable (security risk)'' r else r)
      in if find_stack phdrs = None \<and> mode \<noteq> KERNEL
         then if hasDataSegment req
              then warn ''No explicit stack segment, assuming stack in data segment'' (req\<lparr>hasStackSpace := True\<rparr>)
              else warn ''No stack segment found, kernel must set up stack manually'' req
         else if mode = KERNEL
         then req\<lparr>hasStackSpace := True, stackIsValid := True, stackIsAligned := True, stackHasEnoughSpace := True\<rparr>
         else req)"

definition IsKernelAddress :: "u64 \<Rightarrow> bool" where
  "IsKernelAddress address \<longleftrightarrow> address \<ge> 0xE000000000000000"

definition IsUserAddress :: "u64 \<Rightarrow> bool" where
  "IsUserAddress address \<longleftrightarrow> address < 0x0000800000000000"

definition kv_ValidateKernelSpecific :: "elf64_phdr list \<Rightarrow> kernel_requirements \<Rightarrow> kernel_requirements" where
  "kv_ValidateKernelSpecific phdrs req =
     (let req = (if \<not> IsKernelAddress (kr_entryPoint req)
                 then warn ''Entry point is not in kernel address space region (0xE000000000000000+)'' req else req);
          hasUnwindInfo = list_ex (\<lambda>p. p_type p = PT_IA_64_UNWIND) phdrs;
          req = (if \<not> hasUnwindInfo
                 then warn ''No IA-64 unwind information segment (debugging may be limited)'' req else req)
      in fold (\<lambda>p r. if p_type p \<noteq> PT_LOAD then r
                      else if IsUserAddress (p_vaddr p) \<and> IsKernelAddress (p_vaddr p + p_memsz p)
                      then err ''Segment spans user and kernel address spaces'' r else r) phdrs req)"

definition FindStackSegment :: "elf64_phdr list \<Rightarrow> (u64 \<times> u64) option" where
  "FindStackSegment phdrs = map_option (\<lambda>p. (p_vaddr p + p_memsz p, p_memsz p)) (find_stack phdrs)"

text \<open>The program headers, once the table's end has been compared with the file size.\<close>

fun kv_copy_phdrs :: "elf_file \<Rightarrow> elf64_ehdr \<Rightarrow> nat list \<Rightarrow> elf64_phdr list option" where
  "kv_copy_phdrs f h [] = Some []"
| "kv_copy_phdrs f h (i # is) =
     (case deref f (phdr_pointer f h i) sizeof_Phdr of
        None \<Rightarrow> None
      | Some bs \<Rightarrow> map_option ((#) (get_phdr bs)) (kv_copy_phdrs f h is))"

definition ValidateKernelBuffer :: "kernel_validator \<Rightarrow> elf_file \<Rightarrow> validation_mode \<Rightarrow> kernel_requirements option" where
  "ValidateKernelBuffer v f mode =
     (if length (bytes f) < sizeof_Ehdr
      then Some (err ''File too small to be a valid ELF64 binary'' no_requirements)
      else
        let h = get_ehdr (bytes f);
            req = kv_ValidateArchitecture h no_requirements
        in if \<not> isIA64 req \<or> \<not> isELF64 req then Some req
           else if e_phoff h > 0 \<and> e_phnum h > 0 \<and>
                unat (e_phoff h + ucast (e_phnum h) * ucast (e_phentsize h)) > length (bytes f)
           then Some (err ''Program header table extends beyond file size'' req)
           else
             map_option (\<lambda>phdrs.
               let req = kv_ValidateEntryPoint h phdrs req;
                   req = kv_ValidateSegmentLayout phdrs req;
                   req = (if mode_rank mode \<ge> mode_rank STANDARD then kv_ValidateMemoryRequirements v phdrs req else req);
                   req = (if mode_rank mode \<ge> mode_rank STRICT then kv_ValidateStackRequirements phdrs mode req else req);
                   req = (if mode = KERNEL then kv_ValidateKernelSpecific phdrs req else req)
               in if errors req = [] \<and> hasValidEntryPoint req \<and> hasCodeSegment req \<and> verbose v
                  then warn ''Kernel validation passed all checks'' req else req)
             (if e_phoff h > 0 \<and> e_phnum h > 0 then kv_copy_phdrs f h [0..<unat (e_phnum h)] else Some []))"

definition CanBootKernel :: "kernel_requirements \<Rightarrow> bool" where
  "CanBootKernel req \<longleftrightarrow>
     (if errors req \<noteq> [] then False
      else if \<not> hasValidEntryPoint req \<or> \<not> entryPointAligned req then False
      else if \<not> hasCodeSegment req then False
      else if \<not> isIA64 req \<or> \<not> isELF64 req then False
      else True)"

text \<open>The file system answers with the bytes, or the file does not open, or it does not read.\<close>

datatype file_answer = NotOpened | NotRead | Contents elf_file

definition ValidateKernelFile :: "kernel_validator \<Rightarrow> string \<Rightarrow> file_answer \<Rightarrow> validation_mode \<Rightarrow> kernel_requirements option" where
  "ValidateKernelFile v filePath answer mode =
     (case answer of
        NotOpened \<Rightarrow> Some (err (''Failed to open kernel file: '' @ filePath) no_requirements)
      | NotRead \<Rightarrow> Some (err (''Failed to read kernel file: '' @ filePath) no_requirements)
      | Contents f \<Rightarrow> ValidateKernelBuffer v f mode)"

subsection \<open>The report\<close>

definition nl :: string where "nl = [CHR 0x0A]"

definition says :: "bool \<Rightarrow> item" where
  "says b = Str (if b then ''Yes'' else ''No'')"

definition segment_items :: "bool \<Rightarrow> u64 \<Rightarrow> u64 \<Rightarrow> item list" where
  "segment_items present start sz =
     [says present] @ (if present then [Str '' (0x'', Hex, U64 start, Str '', size: '', Dec, U64 sz, Str '' bytes)''] else [])"

definition report_items :: "kernel_requirements \<Rightarrow> item list" where
  "report_items req =
     [Str ''=== Kernel Validation Report ==='', Str nl, Str nl,
      Str ''Architecture:'', Str nl,
      Str ''  IA-64: '', says (isIA64 req), Str nl,
      Str ''  ELF64: '', says (isELF64 req), Str nl,
      Str ''  Executable: '', says (isExecutable req), Str nl, Str nl,
      Str ''Entry Point:'', Str nl,
      Str ''  Valid: '', says (hasValidEntryPoint req), Str nl,
      Str ''  Address: 0x'', Hex, U64 (kr_entryPoint req), Dec, Str nl,
      Str ''  Aligned: '', Str (if entryPointAligned req then ''Yes (16-byte)'' else ''No''), Str nl,
      Str ''  Executable: '', says (entryPointExecutable req), Str nl, Str nl,
      Str ''Segments:'', Str nl,
      Str ''  Code Segment: ''] @ segment_items (hasCodeSegment req) (codeSegmentStart req) (codeSegmentSize req) @ [Str nl] @
     [Str ''  Data Segment: ''] @ segment_items (hasDataSegment req) (dataSegmentStart req) (dataSegmentSize req) @ [Str nl, Str nl] @
     [Str ''Stack:'', Str nl,
      Str ''  Valid: '', says (stackIsValid req), Str nl] @
     (if stackIsValid req
      then [Str ''  Top: 0x'', Hex, U64 (kr_stackTop req), Dec, Str nl,
            Str ''  Bottom: 0x'', Hex, U64 (kr_stackBottom req), Dec, Str nl,
            Str ''  Size: '', U64 (kr_stackSize req), Str '' bytes'', Str nl,
            Str ''  Aligned: '', Str (if stackIsAligned req then ''Yes (16-byte)'' else ''No''), Str nl,
            Str ''  Sufficient Space: '', says (stackHasEnoughSpace req), Str nl]
      else []) @
     [Str nl, Str ''Backing Store (RSE):'', Str nl,
      Str ''  Present: '', says (hasBackingStore req), Str nl] @
     (if hasBackingStore req
      then [Str ''  Base: 0x'', Hex, U64 (kr_backingStoreBase req), Dec, Str nl,
            Str ''  Size: '', U64 (kr_backingStoreSize req), Str '' bytes'', Str nl]
      else []) @
     [Str nl, Str ''Memory Requirements:'', Str nl,
      Str ''  Total Required: '', U64 (totalMemoryRequired req), Str '' bytes'', Str nl,
      Str ''  Minimum Required: '', U64 (minMemoryRequired req), Str '' bytes'', Str nl, Str nl] @
     (if errors req \<noteq> []
      then [Str ''ERRORS:'', Str nl] @ concat (map (\<lambda>e. [Str ''  [ERROR] '', Str e, Str nl]) (errors req)) @ [Str nl] else []) @
     (if warnings req \<noteq> []
      then [Str ''WARNINGS:'', Str nl] @ concat (map (\<lambda>w. [Str ''  [WARN] '', Str w, Str nl]) (warnings req)) @ [Str nl] else []) @
     [Str ''=== Verdict ==='', Str nl,
      Str (if CanBootKernel req then ''Kernel image PASSED validation and can be booted.''
           else ''Kernel image FAILED validation and cannot be booted.''), Str nl]"

definition GetValidationReport :: "kernel_requirements \<Rightarrow> string" where
  "GetValidationReport req = format (report_items req)"

end
