(* ===== verification/Bootstrap.thy ===== *)
theory Bootstrap
  imports Guest_Memory_Props Cpu_Guest
begin

text \<open>
  The state a loaded program starts in (\<open>src/src/loader/bootstrap.cpp\<close>, \<open>src/include/bootstrap.h\<close>): the argument block on
  the stack of a user program, the registers of a user program and of a kernel, and the kernel's boot parameters.
  Strings are the bytes the code writes; sizes and addresses are computed in 64 bits as in the code. When a call
  throws, what it had written to the guest so far is not part of the answer.
\<close>

subsection \<open>Constants\<close>

definition boot_PAGE_SIZE :: u64 where "boot_PAGE_SIZE = 4096"
definition SP_REGISTER :: nat where "SP_REGISTER = 12"
definition GP_REGISTER :: nat where "GP_REGISTER = 1"
definition TP_REGISTER :: nat where "TP_REGISTER = 13"
definition AR_RSC :: nat where "AR_RSC = 16"
definition AR_BSP :: nat where "AR_BSP = 17"
definition AR_BSPSTORE :: nat where "AR_BSPSTORE = 18"
definition AR_RNAT :: nat where "AR_RNAT = 19"
definition AR_CSD :: nat where "AR_CSD = 25"
definition AR_CCV :: nat where "AR_CCV = 32"
definition AR_UNAT :: nat where "AR_UNAT = 36"
definition AR_FPSR :: nat where "AR_FPSR = 40"
definition AR_PFS :: nat where "AR_PFS = 64"
definition AR_LC :: nat where "AR_LC = 65"
definition AR_EC :: nat where "AR_EC = 66"

definition PSR_IC :: u64 where "PSR_IC = push_bit 13 1"
definition PSR_DT :: u64 where "PSR_DT = push_bit 17 1"
definition PSR_RT :: u64 where "PSR_RT = push_bit 27 1"
definition PSR_IT :: u64 where "PSR_IT = push_bit 36 1"
definition PSR_CPL :: u64 where "PSR_CPL = push_bit 32 3"
definition PSR_BN :: u64 where "PSR_BN = push_bit 44 1"
definition PSR_CPL_KERNEL :: u64 where "PSR_CPL_KERNEL = push_bit 32 0"
definition INITIAL_PSR :: u64 where "INITIAL_PSR = PSR_IC OR PSR_DT OR PSR_RT OR PSR_IT OR PSR_CPL"
definition INITIAL_KERNEL_PSR :: u64 where "INITIAL_KERNEL_PSR = PSR_BN OR PSR_CPL_KERNEL"
definition RSC_MODE_EAGER :: u64 where "RSC_MODE_EAGER = 3"
definition RSC_PL_USER :: u64 where "RSC_PL_USER = push_bit 2 3"
definition RSC_PL_KERNEL :: u64 where "RSC_PL_KERNEL = push_bit 2 0"
definition INITIAL_RSC :: u64 where "INITIAL_RSC = RSC_MODE_EAGER OR RSC_PL_USER"
definition INITIAL_KERNEL_RSC :: u64 where "INITIAL_KERNEL_RSC = RSC_MODE_EAGER OR RSC_PL_KERNEL"
definition DEFAULT_UID :: u64 where "DEFAULT_UID = 1000"
definition DEFAULT_GID :: u64 where "DEFAULT_GID = 1000"
definition initial_fpsr :: u64 where "initial_fpsr = 0x0009804C0270033F"

datatype aux_vec_type = AT_NULL | AT_PHDR | AT_PHENT | AT_PHNUM | AT_PAGESZ | AT_BASE | AT_ENTRY | AT_UID | AT_EUID
  | AT_GID | AT_EGID | AT_HWCAP | AT_CLKTCK | AT_SECURE

fun aux_value :: "aux_vec_type \<Rightarrow> u64" where
  "aux_value AT_NULL = 0" | "aux_value AT_PHDR = 3" | "aux_value AT_PHENT = 4" | "aux_value AT_PHNUM = 5"
| "aux_value AT_PAGESZ = 6" | "aux_value AT_BASE = 7" | "aux_value AT_ENTRY = 9" | "aux_value AT_UID = 11"
| "aux_value AT_EUID = 12" | "aux_value AT_GID = 13" | "aux_value AT_EGID = 14" | "aux_value AT_HWCAP = 16"
| "aux_value AT_CLKTCK = 17" | "aux_value AT_SECURE = 23"

subsection \<open>Configurations\<close>

type_synonym byte_string = "u8 list"

record aux_vec =
  av_type :: u64
  av_value :: u64

record bootstrap_config =
  bc_entryPoint :: u64
  bc_stackTop :: u64
  bc_stackSize :: u64
  bc_backingStoreBase :: u64
  bc_backingStoreSize :: u64
  bc_globalPointer :: u64
  bc_argv :: "byte_string list"
  bc_envp :: "byte_string list"
  bc_auxv :: "aux_vec list"
  bc_programHeaderAddr :: u64
  bc_programHeaderEntrySize :: u64
  bc_programHeaderCount :: u64
  bc_baseAddress :: u64

definition BootstrapConfig :: bootstrap_config where
  "BootstrapConfig = \<lparr>bc_entryPoint = 0, bc_stackTop = 0x7FFFFFF0000, bc_stackSize = 8 * 1024 * 1024,
     bc_backingStoreBase = 0x80000000000, bc_backingStoreSize = 2 * 1024 * 1024, bc_globalPointer = 0,
     bc_argv = [map (of_nat \<circ> of_char) ''program''], bc_envp = [], bc_auxv = [],
     bc_programHeaderAddr = 0, bc_programHeaderEntrySize = 0, bc_programHeaderCount = 0, bc_baseAddress = 0\<rparr>"

record kernel_config =
  kc_entryPoint :: u64
  kc_stackTop :: u64
  kc_stackSize :: u64
  kc_backingStoreBase :: u64
  kc_backingStoreSize :: u64
  kc_globalPointer :: u64
  kc_bootParamAddress :: u64
  kc_commandLineAddress :: u64
  kc_memoryMapAddress :: u64
  kc_memoryMapSize :: u64
  kc_pageTableBase :: u64
  kc_efiSystemTable :: u64
  kc_initramfsAddress :: u64
  kc_initramfsSize :: u64
  kc_enableVirtualAddressing :: bool

definition KernelBootstrapConfig :: kernel_config where
  "KernelBootstrapConfig = \<lparr>kc_entryPoint = 0, kc_stackTop = 0xA000000000000, kc_stackSize = 16 * 1024,
     kc_backingStoreBase = 0x80000000000, kc_backingStoreSize = 2 * 1024 * 1024, kc_globalPointer = 0,
     kc_bootParamAddress = 0, kc_commandLineAddress = 0, kc_memoryMapAddress = 0, kc_memoryMapSize = 0,
     kc_pageTableBase = 0, kc_efiSystemTable = 0, kc_initramfsAddress = 0, kc_initramfsSize = 0,
     kc_enableVirtualAddressing = False\<rparr>"

subsection \<open>The stack of a user program\<close>

definition BuildDefaultAuxiliaryVector :: "bootstrap_config \<Rightarrow> aux_vec list" where
  "BuildDefaultAuxiliaryVector c =
     (let entry = (\<lambda>t v. \<lparr>av_type = aux_value t, av_value = v\<rparr>) in
      [entry AT_PAGESZ boot_PAGE_SIZE] @
      (if bc_programHeaderAddr c \<noteq> 0 then [entry AT_PHDR (bc_programHeaderAddr c)] else []) @
      (if bc_programHeaderEntrySize c \<noteq> 0 then [entry AT_PHENT (bc_programHeaderEntrySize c)] else []) @
      (if bc_programHeaderCount c \<noteq> 0 then [entry AT_PHNUM (bc_programHeaderCount c)] else []) @
      [entry AT_BASE (bc_baseAddress c), entry AT_ENTRY (bc_entryPoint c),
       entry AT_UID DEFAULT_UID, entry AT_EUID DEFAULT_UID, entry AT_GID DEFAULT_GID, entry AT_EGID DEFAULT_GID,
       entry AT_CLKTCK 100, entry AT_HWCAP 0, entry AT_SECURE 0])"

text \<open>The string loops: a pointer, then the string with its terminator.\<close>

fun write_strings :: "u64 \<Rightarrow> byte_string list \<Rightarrow> u64 \<Rightarrow> memory \<Rightarrow> cpp_error + u64 \<times> memory" where
  "write_strings ptr [] stringDataAddr m = Inr (stringDataAddr, m)"
| "write_strings ptr (s # rest) stringDataAddr m =
     and_then (mem_write ptr stringDataAddr m) (\<lambda>m1.
     and_then (loadBuffer stringDataAddr (s @ [0]) m1) (\<lambda>m2.
       write_strings (ptr + 8) rest (stringDataAddr + (of_nat (length s) + 1)) m2))"

fun write_auxv :: "u64 \<Rightarrow> aux_vec list \<Rightarrow> memory \<Rightarrow> cpp_error + u64 \<times> memory" where
  "write_auxv auxvAddr [] m = Inr (auxvAddr, m)"
| "write_auxv auxvAddr (aux # rest) m =
     and_then (mem_write auxvAddr (av_type aux) m) (\<lambda>m1.
     and_then (mem_write (auxvAddr + 8) (av_value aux) m1) (\<lambda>m2.
       write_auxv (auxvAddr + 8 + 8) rest m2))"

definition string_data_size :: "byte_string list \<Rightarrow> u64 \<Rightarrow> u64" where
  "string_data_size ss start = fold (\<lambda>s n. n + (of_nat (length s) + 1)) ss start"

definition totalStackUsage :: "bootstrap_config \<Rightarrow> u64" where
  "totalStackUsage c =
     (let argc = of_nat (length (bc_argv c)); envc = of_nat (length (bc_envp c)); auxc = of_nat (length (bc_auxv c));
          stringDataSize = string_data_size (bc_envp c) (string_data_size (bc_argv c) 0);
          pointerSpace = 8 + (argc + 1) * 8 + (envc + 1) * 8 + (auxc + 1) * 16
      in (pointerSpace + stringDataSize + 15) AND NOT 15)"

definition SetupInitialStack :: "bootstrap_config \<Rightarrow> memory \<Rightarrow> cpp_error + u64 \<times> memory" where
  "SetupInitialStack c m =
     (let argc = of_nat (length (bc_argv c)) :: u64; envc = of_nat (length (bc_envp c)) :: u64;
          auxc = of_nat (length (bc_auxv c)) :: u64
      in if totalStackUsage c > bc_stackSize c then Inl RuntimeError
         else let stackStart = (bc_stackTop c - totalStackUsage c) AND NOT 15;
                  argvPtrBase = stackStart + 8;
                  envpPtrBase = argvPtrBase + (argc + 1) * 8;
                  auxvBase = envpPtrBase + (envc + 1) * 8;
                  stringDataAddr = auxvBase + (auxc + 1) * 16
              in and_then (mem_write stackStart argc m) (\<lambda>m.
                 and_then (write_strings argvPtrBase (bc_argv c) stringDataAddr m) (\<lambda>(addr, m).
                 and_then (mem_write (argvPtrBase + argc * 8) (0 :: u64) m) (\<lambda>m.
                 and_then (write_strings envpPtrBase (bc_envp c) addr m) (\<lambda>(addr, m).
                 and_then (mem_write (envpPtrBase + envc * 8) (0 :: u64) m) (\<lambda>m.
                 and_then (write_auxv auxvBase (bc_auxv c) m) (\<lambda>(auxvAddr, m).
                 and_then (mem_write auxvAddr (aux_value AT_NULL) m) (\<lambda>m.
                 and_then (mem_write (auxvAddr + 8) (0 :: u64) m) (\<lambda>m.
                   Inr (stackStart, m))))))))))"

subsection \<open>Registers\<close>

text \<open>A counting loop over register numbers; the first throw ends it.\<close>

fun for_each :: "('i \<Rightarrow> 's \<Rightarrow> 'e + 's) \<Rightarrow> 'i list \<Rightarrow> 's \<Rightarrow> 'e + 's" where
  "for_each f [] s = Inr s"
| "for_each f (i # is) s = and_then (f i s) (for_each f is)"

definition InitializeGeneralRegisters :: "u64 \<Rightarrow> u64 \<Rightarrow> cpu_state \<Rightarrow> cpp_error + cpu_state" where
  "InitializeGeneralRegisters stackPointer globalPointer s =
     and_then (SetGR 0 0 s) (\<lambda>s.
     and_then (SetGR GP_REGISTER globalPointer s) (\<lambda>s.
     and_then (SetGR SP_REGISTER stackPointer s) (\<lambda>s.
     and_then (SetGR TP_REGISTER 0 s) (\<lambda>s.
     and_then (for_each (\<lambda>i s. if i = GP_REGISTER \<or> i = SP_REGISTER \<or> i = TP_REGISTER then Inr s else SetGR i 0 s) [2..<32] s) (\<lambda>s.
       for_each (\<lambda>i. SetGR i 0) [32..<128] s)))))"

definition InitializeKernelGeneralRegisters :: "u64 \<Rightarrow> u64 \<Rightarrow> u64 \<Rightarrow> cpu_state \<Rightarrow> cpp_error + cpu_state" where
  "InitializeKernelGeneralRegisters stackPointer globalPointer bootParamAddress s =
     and_then (SetGR 0 0 s) (\<lambda>s.
     and_then (SetGR GP_REGISTER globalPointer s) (\<lambda>s.
     and_then (SetGR SP_REGISTER stackPointer s) (\<lambda>s.
     and_then (SetGR TP_REGISTER 0 s) (\<lambda>s.
     and_then (SetGR 28 bootParamAddress s) (\<lambda>s.
     and_then (for_each (\<lambda>i s. if i = GP_REGISTER \<or> i = SP_REGISTER \<or> i = TP_REGISTER \<or> i = 28 then Inr s
                               else SetGR i 0 s) [2..<32] s) (\<lambda>s.
       for_each (\<lambda>i. SetGR i 0) [32..<128] s))))))"

definition InitializePredicateAndBranchRegisters :: "cpu_state \<Rightarrow> cpp_error + cpu_state" where
  "InitializePredicateAndBranchRegisters s =
     and_then (SetPR 0 True s) (\<lambda>s.
     and_then (for_each (\<lambda>i. SetPR i False) [1..<16] s) (\<lambda>s.
     and_then (for_each (\<lambda>i. SetPR i False) [16..<64] s) (\<lambda>s.
       for_each (\<lambda>i. SetBR i 0) [0..<8] s)))"

definition named_ar :: "nat \<Rightarrow> bool" where
  "named_ar i \<longleftrightarrow> i = AR_RSC \<or> i = AR_BSP \<or> i = AR_BSPSTORE \<or> i = AR_RNAT \<or> i = AR_CSD \<or> i = AR_CCV \<or> i = AR_UNAT
     \<or> i = AR_FPSR \<or> i = AR_PFS \<or> i = AR_LC \<or> i = AR_EC"

definition clear_unnamed :: "nat \<Rightarrow> cpu_state \<Rightarrow> cpp_error + cpu_state" where
  "clear_unnamed i s = (if named_ar i then Inr s else SetAR i 0 s)"

text \<open>The named application registers, in the order both initialisers set them.\<close>

definition set_named_ars :: "u64 \<Rightarrow> u64 \<Rightarrow> cpu_state \<Rightarrow> cpp_error + cpu_state" where
  "set_named_ars rsc backingStoreBase =
     for_each (\<lambda>(i, v). SetAR i v)
       [(AR_RSC, rsc), (AR_BSP, backingStoreBase), (AR_BSPSTORE, backingStoreBase), (AR_RNAT, 0), (AR_FPSR, initial_fpsr),
        (AR_PFS, 0), (AR_LC, 0), (AR_EC, 0), (AR_UNAT, 0), (AR_CCV, 0), (AR_CSD, 0)]"

definition InitializeApplicationRegisters :: "bootstrap_config \<Rightarrow> cpu_state \<Rightarrow> cpp_error + cpu_state" where
  "InitializeApplicationRegisters c s =
     and_then (set_named_ars INITIAL_RSC (bc_backingStoreBase c) s) (for_each clear_unnamed [0..<128])"

definition InitializeKernelApplicationRegisters :: "kernel_config \<Rightarrow> cpu_state \<Rightarrow> cpp_error + cpu_state" where
  "InitializeKernelApplicationRegisters c s =
     and_then (set_named_ars INITIAL_KERNEL_RSC (kc_backingStoreBase c) s) (\<lambda>s.
     and_then (for_each (\<lambda>i. SetAR i 0) [0..<8] s) (for_each clear_unnamed [8..<128]))"

subsection \<open>Starting a program\<close>

definition InitializeBootstrapState :: "bootstrap_config \<Rightarrow> memory \<Rightarrow> cpp_error + u64 \<times> cpu_state \<times> memory" where
  "InitializeBootstrapState config m =
     (let s = Reset;
          configCopy = (if bc_auxv config = [] then config\<lparr>bc_auxv := BuildDefaultAuxiliaryVector config\<rparr> else config)
      in and_then (SetupInitialStack configCopy m) (\<lambda>(stackPointer, m).
         and_then (InitializeGeneralRegisters stackPointer (bc_globalPointer config) s) (\<lambda>s.
         and_then (InitializePredicateAndBranchRegisters s) (\<lambda>s.
         and_then (InitializeApplicationRegisters config s) (\<lambda>s.
           Inr (stackPointer, SetPSR INITIAL_PSR (SetCFM 0 (SetIP (bc_entryPoint config) s)), m))))))"

definition SetupKernelStack :: "kernel_config \<Rightarrow> u64" where
  "SetupKernelStack config = kc_stackTop config AND NOT 15"

definition InitializeKernelBootstrapState :: "kernel_config \<Rightarrow> cpp_error + u64 \<times> cpu_state" where
  "InitializeKernelBootstrapState config =
     (let s = Reset; stackPointer = SetupKernelStack config
      in and_then (InitializeKernelGeneralRegisters stackPointer (kc_globalPointer config) (kc_bootParamAddress config) s) (\<lambda>s.
         and_then (InitializePredicateAndBranchRegisters s) (\<lambda>s.
         and_then (InitializeKernelApplicationRegisters config s) (\<lambda>s.
           let s = SetCFM 0 (SetIP (kc_entryPoint config) s);
               psr = (if kc_enableVirtualAddressing config
                      then INITIAL_KERNEL_PSR OR PSR_IC OR PSR_DT OR PSR_RT OR PSR_IT else INITIAL_KERNEL_PSR)
           in Inr (stackPointer, SetPSR psr s)))))"

definition WriteKernelBootParameters :: "u64 \<Rightarrow> kernel_config \<Rightarrow> memory \<Rightarrow> cpp_error + u64 \<times> memory" where
  "WriteKernelBootParameters address config m =
     (let offset = address;
          cmdLineSize = (if kc_commandLineAddress config \<noteq> 0 then 256 else 0) :: u32
      in and_then (mem_write offset (kc_commandLineAddress config) m) (\<lambda>m. let offset = offset + 8 in
         and_then (mem_write offset cmdLineSize m) (\<lambda>m. let offset = offset + 4 in
         and_then (mem_write offset (0 :: u32) m) (\<lambda>m. let offset = offset + 4 in
         and_then (mem_write offset (kc_initramfsAddress config) m) (\<lambda>m. let offset = offset + 8 in
         and_then (mem_write offset (kc_initramfsSize config) m) (\<lambda>m. let offset = offset + 8 in
         and_then (mem_write offset (kc_memoryMapAddress config) m) (\<lambda>m. let offset = offset + 8 in
         and_then (mem_write offset (kc_memoryMapSize config) m) (\<lambda>m. let offset = offset + 8 in
         and_then (mem_write offset (kc_efiSystemTable config) m) (\<lambda>m. let offset = offset + 8 in
         and_then (mem_write offset (0 :: u64) m) (\<lambda>m. let offset = offset + 8 in
           Inr (offset - address, m)))))))))))"

end
