(* ===== verification/Elf_Loader.thy ===== *)
theory Elf_Loader
  imports Elf_Format Bootstrap
begin

text \<open>
  The ELF loader (\<open>src/src/loader/loader.cpp\<close>): validation of the file, program headers, segments copied into guest memory, and
  the hand-over of the processor in a kernel's entry state. Exceptions carry the message they are thrown with;
  \<open>ReadOutside\<close> stands for a read outside the file's bytes, which C++ leaves undefined. Log output is left out.
\<close>

datatype load_error =
    Runtime string
  | LengthError
  | ReadOutside
  | MemoryFault cpp_error

record loaded_segment =
  ls_virtualAddress :: u64
  ls_physicalAddress :: u64
  ls_fileOffset :: u64
  ls_size :: u64
  ls_memorySize :: u64
  ls_flags :: u32
  ls_type :: u32

record elf_loader =
  el_header :: elf64_ehdr
  programHeaders :: "elf64_phdr list"
  segments :: "loaded_segment list"
  el_entryPoint :: u64
  baseAddress :: u64
  dynamicAddr :: u64
  dynamicSize :: u64
  isLoaded :: bool
  elfType :: u16
  hasInterpreter :: bool
  interpreterPath :: byte_string
  kernelValidationEnabled :: bool
  kernelValidator :: "kernel_validator option"

definition ELFLoader :: elf_loader where
  "ELFLoader = \<lparr>el_header = get_ehdr (replicate 64 0), programHeaders = [], segments = [], el_entryPoint = 0, baseAddress = 0,
     dynamicAddr = 0, dynamicSize = 0, isLoaded = False, elfType = ET_NONE, hasInterpreter = False, interpreterPath = [],
     kernelValidationEnabled = False, kernelValidator = None\<rparr>"

definition loader_PAGE_SIZE :: u64 where "loader_PAGE_SIZE = 4096"

subsection \<open>Validation\<close>

definition elfTypeName :: "u16 \<Rightarrow> string" where
  "elfTypeName t = (if t = ET_NONE then ''NONE'' else if t = ET_REL then ''REL'' else if t = ET_EXEC then ''EXEC''
     else if t = ET_DYN then ''DYN'' else if t = ET_CORE then ''CORE'' else ''UNKNOWN'')"

text \<open>\<open>None\<close> for the buffer stands for a null pointer; the empty string is the answer that nothing is wrong.\<close>

definition describeElfValidationFailure :: "u8 list option \<Rightarrow> string" where
  "describeElfValidationFailure buffer =
     (case buffer of None \<Rightarrow> ''file buffer is null''
      | Some bs \<Rightarrow>
          (if length bs < sizeof_Ehdr then ''file found but too small to be ELF64''
           else let h = get_ehdr bs in
             if \<not> magic_ok h then ''file found but not ELF: invalid magic''
             else if e_ident h ! 4 \<noteq> ELFCLASS64 then ''ELF is not ELF64''
             else if e_ident h ! 5 \<noteq> ELFDATA2LSB then ''ELF64 is not little-endian''
             else if e_ident h ! 6 \<noteq> EV_CURRENT \<or> e_version h \<noteq> ucast EV_CURRENT then ''ELF version is not current''
             else if e_machine h \<noteq> EM_IA_64 then ''ELF but not IA-64 (machine='' @ to_string (e_machine h) @ '')''
             else if e_type h \<noteq> ET_EXEC \<and> e_type h \<noteq> ET_DYN \<and> e_type h \<noteq> ET_REL \<and> e_type h \<noteq> ET_CORE
                  then ''unsupported ELF type '' @ elfTypeName (e_type h)
             else if e_ehsize h \<noteq> of_nat sizeof_Ehdr then ''ELF header size mismatch''
             else if e_phentsize h \<noteq> 0 \<and> e_phentsize h \<noteq> of_nat sizeof_Phdr then ''program header entry size mismatch''
             else []))"

definition ValidateArchitecture :: "elf64_ehdr \<Rightarrow> bool" where
  "ValidateArchitecture h \<longleftrightarrow>
     (if \<not> magic_ok h then False
      else if e_ident h ! 4 \<noteq> ELFCLASS64 then False
      else if e_ident h ! 5 \<noteq> ELFDATA2LSB then False
      else if e_ident h ! 6 \<noteq> EV_CURRENT \<or> e_version h \<noteq> ucast EV_CURRENT then False
      else if e_machine h \<noteq> EM_IA_64 then False
      else if e_type h \<noteq> ET_EXEC \<and> e_type h \<noteq> ET_DYN then False
      else if e_ehsize h \<noteq> of_nat sizeof_Ehdr then False
      else if e_phentsize h \<noteq> 0 \<and> e_phentsize h \<noteq> of_nat sizeof_Phdr then False
      else if unat (e_phnum h) > 65535 div sizeof_Phdr then False
      else True)"

definition table_in_file :: "u64 \<Rightarrow> u16 \<Rightarrow> u16 \<Rightarrow> nat \<Rightarrow> bool" where
  "table_in_file offset n entsize sz \<longleftrightarrow>
     (if offset > 0 \<and> n > 0
      then let tableEnd = offset + ucast n * ucast entsize in \<not> (tableEnd < offset \<or> unat tableEnd > sz)
      else True)"

definition ValidateELF :: "u8 list \<Rightarrow> bool" where
  "ValidateELF bs \<longleftrightarrow>
     (if length bs < sizeof_Ehdr then False
      else let h = get_ehdr bs in
        if \<not> ValidateArchitecture h then False
        else if \<not> table_in_file (e_phoff h) (e_phnum h) (e_phentsize h) (length bs) then False
        else if \<not> table_in_file (e_shoff h) (e_shnum h) (e_shentsize h) (length bs) then False
        else True)"

definition ValidateEntryPoint :: "elf64_ehdr \<Rightarrow> elf64_phdr list \<Rightarrow> bool" where
  "ValidateEntryPoint h phdrs \<longleftrightarrow>
     (if e_entry h = 0 then e_type h = ET_DYN
      else if e_entry h AND 0xF \<noteq> 0 then False
      else find_entry (e_entry h) phdrs = InExecutable)"

definition ValidateSegmentAlignment :: "elf64_phdr \<Rightarrow> bool" where
  "ValidateSegmentAlignment p \<longleftrightarrow>
     (if p_type p \<noteq> PT_LOAD then True
      else if p_align p \<noteq> 0 \<and> p_align p \<noteq> 1 \<and> p_align p AND (p_align p - 1) \<noteq> 0 then False
      else if p_align p > 1 \<and> p_vaddr p mod p_align p \<noteq> p_offset p mod p_align p then False
      else if p_align p > 1 \<and> p_align p \<ge> loader_PAGE_SIZE \<and> p_vaddr p mod p_align p \<noteq> 0 then False
      else if p_filesz p > p_memsz p then False
      else True)"

definition ValidateMemorySafety :: "elf64_phdr \<Rightarrow> nat \<Rightarrow> nat \<Rightarrow> bool" where
  "ValidateMemorySafety p fileSize memorySize \<longleftrightarrow>
     (let fileEnd = p_offset p + p_filesz p; memEnd = p_vaddr p + p_memsz p; physEnd = p_paddr p + p_memsz p in
      if p_type p \<noteq> PT_LOAD then True
      else if p_filesz p > 0 \<and> fileEnd < p_offset p then False
      else if p_filesz p > 0 \<and> unat fileEnd > fileSize then False
      else if p_memsz p > 0 \<and> memEnd < p_vaddr p then False
      else if p_memsz p > 0 \<and> unat memEnd > memorySize then False
      else if p_paddr p \<noteq> 0 \<and> p_memsz p > 0 \<and> physEnd < p_paddr p then False
      else if p_memsz p > 2 * 1024 * 1024 * 1024 then False
      else True)"

subsection \<open>Program headers\<close>

text \<open>
  The interpreter path is built by \<open>std::string(ptr, filesz - 1)\<close>: a length of \<open>2^63\<close> or more, which a size of zero gives,
  is refused with an exception.
\<close>

definition read_interpreter :: "elf_file \<Rightarrow> elf64_phdr \<Rightarrow> elf_loader \<Rightarrow> load_error + elf_loader" where
  "read_interpreter f p l =
     (let l = l\<lparr>hasInterpreter := True\<rparr> in
      if unat (p_offset p + p_filesz p) \<le> length (bytes f)
      then let n = p_filesz p - 1 in
        if unat n \<ge> 2 ^ 63 then Inl LengthError
        else case deref f (at f + p_offset p) (unat n) of
               None \<Rightarrow> Inl ReadOutside
             | Some path \<Rightarrow> Inr (l\<lparr>interpreterPath := path\<rparr>)
      else Inr l)"

fun parse_phdrs :: "elf_file \<Rightarrow> elf64_ehdr \<Rightarrow> nat list \<Rightarrow> elf_loader \<Rightarrow> load_error + bool \<times> elf_loader" where
  "parse_phdrs f h [] l = Inr (True, l)"
| "parse_phdrs f h (i # is) l =
     (let phdrData = phdr_pointer f h i in
      if phdrData + of_nat sizeof_Phdr > at f + of_nat (length (bytes f)) then Inr (False, l)
      else case deref f phdrData sizeof_Phdr of
             None \<Rightarrow> Inl ReadOutside
           | Some bs \<Rightarrow>
               (let p = get_phdr bs;
                    l = l\<lparr>programHeaders := programHeaders l @ [p]\<rparr>;
                    l = (if p_type p = PT_DYNAMIC then l\<lparr>dynamicAddr := p_vaddr p, dynamicSize := p_memsz p\<rparr> else l)
                in and_then (if p_type p = PT_INTERP then read_interpreter f p l else Inr l) (parse_phdrs f h is)))"

definition ParseHeader :: "elf_file \<Rightarrow> elf_loader \<Rightarrow> load_error + bool \<times> elf_loader" where
  "ParseHeader f l =
     (if length (bytes f) < sizeof_Ehdr then Inr (False, l)
      else let h = get_ehdr (bytes f);
               l = l\<lparr>el_header := h, el_entryPoint := e_entry h, elfType := e_type h, baseAddress := 0\<rparr>
           in if e_phoff h > 0 \<and> e_phnum h > 0 then parse_phdrs f h [0..<unat (e_phnum h)] l else Inr (True, l))"

subsection \<open>Segments\<close>

definition load_segment :: "elf_file \<Rightarrow> elf64_phdr \<Rightarrow> elf_loader \<times> memory \<Rightarrow> load_error + elf_loader \<times> memory" where
  "load_segment f p = (\<lambda>(l, m).
     if p_type p \<noteq> PT_LOAD then Inr (l, m)
     else let loadAddr = baseAddress l + p_vaddr p in
       if unat (p_offset p + p_filesz p) > length (bytes f) then Inl (Runtime ''Segment extends beyond file size'')
       else and_then
         (if p_filesz p > 0
          then case deref f (at f + p_offset p) (unat (p_filesz p)) of
                 None \<Rightarrow> Inl ReadOutside
               | Some bs \<Rightarrow> (case loadBuffer loadAddr bs m of Inl e \<Rightarrow> Inl (MemoryFault e) | Inr m \<Rightarrow> Inr m)
          else Inr m) (\<lambda>m.
         and_then
         (if p_memsz p > p_filesz p
          then case loadBuffer (loadAddr + p_filesz p) (replicate (unat (p_memsz p - p_filesz p)) 0) m of
                 Inl e \<Rightarrow> Inl (MemoryFault e) | Inr m \<Rightarrow> Inr m
          else Inr m) (\<lambda>m.
         Inr (l\<lparr>segments := segments l @ [\<lparr>ls_virtualAddress = loadAddr, ls_physicalAddress = loadAddr,
            ls_fileOffset = p_offset p, ls_size = p_filesz p, ls_memorySize = p_memsz p, ls_flags = p_flags p,
            ls_type = p_type p\<rparr>]\<rparr>, m))))"

definition minVAddr :: "elf64_phdr list \<Rightarrow> u64" where
  "minVAddr phdrs = fold (\<lambda>p a. if p_type p = PT_LOAD then min a (p_vaddr p) else a) phdrs (- 1)"

definition LoadSegments :: "elf_file \<Rightarrow> elf_loader \<Rightarrow> memory \<Rightarrow> load_error + bool \<times> elf_loader \<times> memory" where
  "LoadSegments f l m =
     (let l = l\<lparr>segments := []\<rparr>;
          l = (if elfType l = ET_DYN \<and> minVAddr (programHeaders l) > 0 then l\<lparr>baseAddress := 0x400000\<rparr> else l)
      in and_then (for_each (load_segment f) (programHeaders l) (l, m)) (\<lambda>(l, m).
           let l = (if elfType l = ET_DYN then l\<lparr>el_entryPoint := baseAddress l + e_entry (el_header l)\<rparr>
                    else l\<lparr>el_entryPoint := e_entry (el_header l)\<rparr>)
           in Inr (segments l \<noteq> [], l, m)))"

subsection \<open>Loading\<close>

fun check_segments :: "elf64_phdr list \<Rightarrow> nat \<Rightarrow> nat \<Rightarrow> load_error + unit" where
  "check_segments [] fileSize memorySize = Inr ()"
| "check_segments (p # ps) fileSize memorySize =
     (if \<not> ValidateSegmentAlignment p then Inl (Runtime ''segment alignment validation failed'')
      else if \<not> ValidateMemorySafety p fileSize memorySize then Inl (Runtime ''segment memory safety validation failed'')
      else check_segments ps fileSize memorySize)"

definition validate_kernel :: "elf_loader \<Rightarrow> elf_file \<Rightarrow> load_error + unit" where
  "validate_kernel l f =
     (if \<not> kernelValidationEnabled l then Inr ()
      else case ValidateKernelBuffer (case kernelValidator l of None \<Rightarrow> KernelValidator | Some v \<Rightarrow> v) f KERNEL of
             None \<Rightarrow> Inl ReadOutside
           | Some req \<Rightarrow> if \<not> CanBootKernel req
               then Inl (Runtime (''Kernel validation failed:'' @ nl @ GetValidationReport req)) else Inr ())"

text \<open>A null buffer is \<open>None\<close>.\<close>

definition LoadBuffer :: "elf_file option \<Rightarrow> elf_loader \<Rightarrow> memory \<Rightarrow> load_error + u64 \<times> elf_loader \<times> cpu_state \<times> memory" where
  "LoadBuffer buffer l m =
     (let l = l\<lparr>programHeaders := [], segments := [], el_entryPoint := 0, baseAddress := 0, dynamicAddr := 0, dynamicSize := 0,
                hasInterpreter := False, interpreterPath := [], isLoaded := False, elfType := ET_NONE\<rparr>;
          failure = describeElfValidationFailure (map_option bytes buffer)
      in case buffer of
           None \<Rightarrow> Inl (Runtime failure)
         | Some f \<Rightarrow>
             (if failure \<noteq> [] then Inl (Runtime failure)
              else and_then (ParseHeader f l) (\<lambda>(parsed, l).
                if \<not> parsed then Inl (Runtime ''failed to parse ELF header/program headers'')
                else let h = get_ehdr (bytes f) in
                if e_type h \<noteq> ET_EXEC
                then Inl (Runtime (''unsupported ELF type '' @ elfTypeName (e_type h) @
                       '' (minimal IA-64 Linux handoff supports ET_EXEC only)''))
                else if \<not> ValidateArchitecture h then Inl (Runtime ''ELF architecture validation failed'')
                else if \<not> ValidateEntryPoint h (programHeaders l)
                then Inl (Runtime ''invalid entry point: not aligned or not in executable segment'')
                else and_then (validate_kernel l f) (\<lambda>_.
                     and_then (check_segments (programHeaders l) (length (bytes f)) (length (mem_data m))) (\<lambda>_.
                     and_then (LoadSegments f l m) (\<lambda>(some_loaded, l, m).
                       if \<not> some_loaded then Inl (Runtime ''failed to load ELF segments'')
                       else case InitializeKernelBootstrapState (KernelBootstrapConfig\<lparr>kc_entryPoint := el_entryPoint l\<rparr>) of
                              Inl e \<Rightarrow> Inl (MemoryFault e)
                            | Inr (stackPointer, cpu) \<Rightarrow> Inr (el_entryPoint l, l\<lparr>isLoaded := True\<rparr>, cpu, m)))))))"

definition LoadFile :: "string \<Rightarrow> file_answer \<Rightarrow> elf_loader \<Rightarrow> memory \<Rightarrow> load_error + u64 \<times> elf_loader \<times> cpu_state \<times> memory" where
  "LoadFile filePath answer l m =
     (case answer of
        NotOpened \<Rightarrow> Inl (Runtime (''file not found: '' @ filePath))
      | NotRead \<Rightarrow> Inl (Runtime (''failed to read ELF file: '' @ filePath))
      | Contents f \<Rightarrow> LoadBuffer (Some f) l m)"

subsection \<open>Relocations\<close>

record elf64_rela =
  r_offset :: u64
  r_info :: u64
  r_addend :: u64

definition ELF64_R_TYPE :: "u64 \<Rightarrow> u32" where
  "ELF64_R_TYPE i = ucast (i AND 0xffffffff)"

definition ApplyRelocation :: "elf64_rela \<Rightarrow> u64 \<Rightarrow> elf_loader \<Rightarrow> memory \<Rightarrow> cpp_error + bool \<times> memory" where
  "ApplyRelocation rela symValue l m =
     (let relocAddr = baseAddress l + r_offset rela; t = ELF64_R_TYPE (r_info rela); addend = r_addend rela in
      if t = 0x27 then and_then (mem_write relocAddr (baseAddress l + symValue + addend) m) (\<lambda>m. Inr (True, m))
      else if t = 0x25 then and_then (mem_write relocAddr (ucast (baseAddress l + symValue + addend) :: u32) m) (\<lambda>m. Inr (True, m))
      else if t = 0x6f then and_then (mem_write relocAddr (baseAddress l + addend) m) (\<lambda>m. Inr (True, m))
      else Inr (True, m))"

definition ProcessRelocations :: "elf_loader \<Rightarrow> bool" where
  "ProcessRelocations l = True"

end
