(* ===== verification/Bootstrap_Props.thy ===== *)
theory Bootstrap_Props
  imports Bootstrap
begin

text \<open>
  What a freshly started program finds. The register initialisers are total: on the state \<open>Reset\<close> leaves, almost all
  their writes change nothing, so the state they produce is \<open>Reset\<close> with a handful of registers set. The
  stack of a user program is compared with the argument block of the ABI, written as one image.
\<close>

subsection \<open>Register initialisation\<close>

lemma for_each_noop: "(\<And>i. i \<in> set is \<Longrightarrow> f i s = Inr s) \<Longrightarrow> for_each f is s = Inr s"
  by (induction "is") simp_all

lemma for_each_append: "for_each f (as @ bs) s = and_then (for_each f as s) (for_each f bs)"
proof (induction as arbitrary: s)
  case (Cons a as)
  then show ?case by (cases "f a s") simp_all
qed simp

lemma for_each_noop_upt: "(\<And>i. a \<le> i \<Longrightarrow> i < b \<Longrightarrow> f i s = Inr s) \<Longrightarrow> for_each f [a..<b] s = Inr s"
  by (rule for_each_noop) (simp only: set_upt atLeastLessThan_iff)

lemma MapGR_boot: "cpu_cfm s = 0 \<Longrightarrow> cpu_psr s = IA64_PSR_BN_MASK \<Longrightarrow> MapGR s i = (if 16 \<le> i \<and> i < 32 then 112 + i else i)"
  by (simp add: MapGR_def GetSOR_def get_bits_def IA64_PSR_BN_MASK_def)

lemma SetGR_boot:
  assumes "cpu_cfm s = 0" "cpu_psr s = IA64_PSR_BN_MASK" "length (cpu_gr s) = 144" "length (cpu_gr_nat s) = 144" "0 < i" "i < 128"
    "\<not> cpu_gr_nat s ! (if 16 \<le> i \<and> i < 32 then 112 + i else i)"
  shows "SetGR i v s = Inr (s\<lparr>cpu_gr := (cpu_gr s)[if 16 \<le> i \<and> i < 32 then 112 + i else i := v]\<rparr>)"
proof -
  have "(cpu_gr_nat s)[if 16 \<le> i \<and> i < 32 then 112 + i else i := False] = cpu_gr_nat s"
    using assms(7) by (metis (full_types) list_update_id)
  then show ?thesis using assms by (simp add: SetGR_def MapGR_boot Let_def)
qed

definition boot_gr :: "u64 \<Rightarrow> u64 \<Rightarrow> u64 \<Rightarrow> u64 list" where
  "boot_gr sp gp bp = (replicate 144 0)[GP_REGISTER := gp, SP_REGISTER := sp, 112 + 28 := bp]"

lemma list_update_zero:
  "(replicate 144 0)[Suc 0 := gp, 12 := sp, 140 := 0] = (replicate 144 (0 :: u64))[Suc 0 := gp, 12 := sp]"
  by (rule list_update_same_conv [THEN iffD2]) simp_all

lemma boot_gr_zero: "i < 144 \<Longrightarrow> i \<noteq> 1 \<Longrightarrow> i \<noteq> 12 \<Longrightarrow> i \<noteq> 140 \<Longrightarrow> boot_gr sp gp bp ! i = 0"
  by (simp add: boot_gr_def GP_REGISTER_def SP_REGISTER_def)

lemma boot_gr_length [simp]: "length (boot_gr sp gp bp) = 144"
  by (simp add: boot_gr_def)

lemma SetGR_boot_noop:
  assumes "i < 128" "i \<noteq> 1" "i \<noteq> 12" "bp = 0 \<or> i \<noteq> 28"
  shows "SetGR i 0 (Reset\<lparr>cpu_gr := boot_gr sp gp bp\<rparr>) = Inr (Reset\<lparr>cpu_gr := boot_gr sp gp bp\<rparr>)"
proof (cases "i = 0")
  case True
  then show ?thesis by (simp add: SetGR_def)
next
  case False
  let ?p = "if 16 \<le> i \<and> i < 32 then 112 + i else i"
  have "boot_gr sp gp bp ! ?p = 0"
  proof (cases "i = 28")
    case True
    then show ?thesis using assms by (simp add: boot_gr_def GP_REGISTER_def SP_REGISTER_def)
  next
    case False
    then show ?thesis using assms by (intro boot_gr_zero) auto
  qed
  then have "(boot_gr sp gp bp)[?p := 0] = boot_gr sp gp bp"
    by (metis list_update_id)
  then show ?thesis
    using assms False by (subst SetGR_boot) (simp_all add: Reset_def)
qed

lemma InitializeKernelGeneralRegisters_Reset:
  "InitializeKernelGeneralRegisters sp gp bp Reset = Inr (Reset\<lparr>cpu_gr := boot_gr sp gp bp\<rparr>)"
proof -
  have w: "SetGR GP_REGISTER gp Reset = Inr (Reset\<lparr>cpu_gr := (replicate 144 0)[GP_REGISTER := gp]\<rparr>)"
    by (subst SetGR_boot) (simp_all add: Reset_def GP_REGISTER_def)
  have w2: "SetGR SP_REGISTER sp (Reset\<lparr>cpu_gr := (replicate 144 0)[GP_REGISTER := gp]\<rparr>) = Inr (Reset\<lparr>cpu_gr := boot_gr sp gp 0\<rparr>)"
    by (subst SetGR_boot) (simp_all add: Reset_def GP_REGISTER_def SP_REGISTER_def boot_gr_def list_update_zero)
  have w3: "SetGR 28 bp (Reset\<lparr>cpu_gr := boot_gr sp gp 0\<rparr>) = Inr (Reset\<lparr>cpu_gr := boot_gr sp gp bp\<rparr>)"
    by (subst SetGR_boot) (simp_all add: Reset_def boot_gr_def)
  have w0: "SetGR 0 0 Reset = Inr Reset" by (simp add: SetGR_def)
  show ?thesis
    unfolding InitializeKernelGeneralRegisters_def w0 and_then_simps w w2 TP_REGISTER_def
    by (simp add: SetGR_boot_noop w3 for_each_noop GP_REGISTER_def SP_REGISTER_def)
qed

lemma InitializeGeneralRegisters_Reset:
  "InitializeGeneralRegisters sp gp Reset = Inr (Reset\<lparr>cpu_gr := boot_gr sp gp 0\<rparr>)"
proof -
  have w: "SetGR GP_REGISTER gp Reset = Inr (Reset\<lparr>cpu_gr := (replicate 144 0)[GP_REGISTER := gp]\<rparr>)"
    by (subst SetGR_boot) (simp_all add: Reset_def GP_REGISTER_def)
  have w2: "SetGR SP_REGISTER sp (Reset\<lparr>cpu_gr := (replicate 144 0)[GP_REGISTER := gp]\<rparr>) = Inr (Reset\<lparr>cpu_gr := boot_gr sp gp 0\<rparr>)"
    by (subst SetGR_boot) (simp_all add: Reset_def GP_REGISTER_def SP_REGISTER_def boot_gr_def list_update_zero)
  have w0: "SetGR 0 0 Reset = Inr Reset" by (simp add: SetGR_def)
  show ?thesis
    unfolding InitializeGeneralRegisters_def w0 and_then_simps w w2 TP_REGISTER_def
    by (simp add: SetGR_boot_noop for_each_noop GP_REGISTER_def SP_REGISTER_def)
qed

lemma InitializePredicateAndBranchRegisters_Reset:
  "InitializePredicateAndBranchRegisters (Reset\<lparr>cpu_gr := g\<rparr>) = Inr (Reset\<lparr>cpu_gr := g\<rparr>)"
proof -
  let ?s = "Reset\<lparr>cpu_gr := g\<rparr>"
  have p: "SetPR i False ?s = Inr ?s" if "0 < i" "i < 64" for i
  proof -
    have "MapPR ?s i = i"
      using that by (simp add: MapPR_def Reset_def GetRRB_PR_def get_bits_def)
    moreover have "(cpu_pr ?s)[i := False] = cpu_pr ?s"
      using that by (intro list_update_same_conv [THEN iffD2]) (simp_all add: Reset_def)
    ultimately show ?thesis using that by (simp add: SetPR_def) (simp add: Reset_def)
  qed
  have b: "SetBR i 0 ?s = Inr ?s" if "i < 8" for i
  proof -
    have "(cpu_br ?s)[i := 0] = cpu_br ?s"
      using that by (intro list_update_same_conv [THEN iffD2]) (simp_all add: Reset_def)
    then show ?thesis using that by (simp add: SetBR_def) (simp add: Reset_def)
  qed
  have "for_each (\<lambda>i. SetPR i False) [1..<16] ?s = Inr ?s" "for_each (\<lambda>i. SetPR i False) [16..<64] ?s = Inr ?s"
    "for_each (\<lambda>i. SetBR i 0) [0..<8] ?s = Inr ?s"
    by (rule for_each_noop_upt, rule p b; simp)+
  then show ?thesis
    unfolding InitializePredicateAndBranchRegisters_def by (simp only: and_then_simps SetPR_def [of 0]) simp
qed

definition boot_ar :: "u64 \<Rightarrow> u64 \<Rightarrow> u64 list" where
  "boot_ar rsc bsp = (replicate 128 0)[AR_RSC := rsc, AR_BSP := bsp, AR_BSPSTORE := bsp, AR_FPSR := initial_fpsr]"

definition boot_rse :: "u64 \<Rightarrow> u64 \<Rightarrow> rse_state" where
  "boot_rse rsc bsp = init_rse\<lparr>rse_rsc := rsc, rse_bsp := bsp, rse_bspstore := bsp\<rparr>"

definition boot_state_of :: "u64 list \<Rightarrow> u64 \<Rightarrow> u64 \<Rightarrow> cpu_state" where
  "boot_state_of gr rsc bsp = Reset\<lparr>cpu_gr := gr, cpu_ar := boot_ar rsc bsp, cpu_rse := boot_rse rsc bsp\<rparr>"

lemma boot_ar_length [simp]: "length (boot_ar rsc bsp) = 128"
  by (simp add: boot_ar_def)

lemma SetAR_boot_noop:
  assumes "i < 128" "i \<noteq> 16" "i \<noteq> 17" "i \<noteq> 18" "i \<noteq> 40"
  shows "SetAR i 0 (boot_state_of g rsc bsp) = Inr (boot_state_of g rsc bsp)"
proof -
  have "boot_ar rsc bsp ! i = 0"
    using assms by (simp add: boot_ar_def AR_RSC_def AR_BSP_def AR_BSPSTORE_def AR_FPSR_def)
  then have "(boot_ar rsc bsp)[i := 0] = boot_ar rsc bsp" by (metis list_update_id)
  moreover have "mirror_ar i 0 (boot_rse rsc bsp) = boot_rse rsc bsp"
    using assms by (simp add: mirror_ar_def boot_rse_def init_rse_def get_bits_def)
  ultimately show ?thesis
    using assms(1) by (simp add: SetAR_def boot_state_of_def)
qed

lemma ar_rnat_zero:
  "(replicate 128 0)[16 := a, 17 := b, 18 := c, 19 := 0] = (replicate 128 (0 :: u64))[16 := a, 17 := b, 18 := c]"
  by (rule list_update_same_conv [THEN iffD2]) simp_all

lemma set_named_ars_Reset:
  "set_named_ars rsc bsp (Reset\<lparr>cpu_gr := g\<rparr>) = Inr (boot_state_of g rsc bsp)"
proof -
  have four: "for_each (\<lambda>(i, v). SetAR i v) [(AR_RSC, rsc), (AR_BSP, bsp), (AR_BSPSTORE, bsp), (AR_RNAT, 0), (AR_FPSR, initial_fpsr)]
     (Reset\<lparr>cpu_gr := g\<rparr>) = Inr (boot_state_of g rsc bsp)"
    by (simp add: SetAR_def Reset_def boot_state_of_def boot_ar_def boot_rse_def AR_RSC_def AR_BSP_def AR_BSPSTORE_def
        AR_RNAT_def AR_FPSR_def mirror_ar_def init_rse_def ar_rnat_zero)
  have rest: "for_each (\<lambda>(i, v). SetAR i v) [(AR_PFS, 0), (AR_LC, 0), (AR_EC, 0), (AR_UNAT, 0), (AR_CCV, 0), (AR_CSD, 0)]
     (boot_state_of g rsc bsp) = Inr (boot_state_of g rsc bsp)"
    by (simp add: SetAR_boot_noop AR_PFS_def AR_LC_def AR_EC_def AR_UNAT_def AR_CCV_def AR_CSD_def)
  show ?thesis
    using for_each_append [of "\<lambda>(i, v). SetAR i v" "[(AR_RSC, rsc), (AR_BSP, bsp), (AR_BSPSTORE, bsp), (AR_RNAT, 0), (AR_FPSR, initial_fpsr)]"
      "[(AR_PFS, 0), (AR_LC, 0), (AR_EC, 0), (AR_UNAT, 0), (AR_CCV, 0), (AR_CSD, 0)]"]
    unfolding set_named_ars_def by (simp only: append.simps four rest and_then_simps)
qed

lemma clear_unnamed_boot: "i < 128 \<Longrightarrow> clear_unnamed i (boot_state_of g rsc bsp) = Inr (boot_state_of g rsc bsp)"
  by (simp add: clear_unnamed_def named_ar_def SetAR_boot_noop AR_RSC_def AR_BSP_def AR_BSPSTORE_def AR_FPSR_def)

lemma InitializeApplicationRegisters_Reset:
  "InitializeApplicationRegisters c (Reset\<lparr>cpu_gr := g\<rparr>) = Inr (boot_state_of g INITIAL_RSC (bc_backingStoreBase c))"
  unfolding InitializeApplicationRegisters_def set_named_ars_Reset and_then_simps
  by (rule for_each_noop_upt) (rule clear_unnamed_boot)

lemma InitializeKernelApplicationRegisters_Reset:
  "InitializeKernelApplicationRegisters c (Reset\<lparr>cpu_gr := g\<rparr>) =
     Inr (boot_state_of g INITIAL_KERNEL_RSC (kc_backingStoreBase c))"
proof -
  let ?s = "boot_state_of g INITIAL_KERNEL_RSC (kc_backingStoreBase c)"
  have "for_each (\<lambda>i. SetAR i 0) [0..<8] ?s = Inr ?s" by (rule for_each_noop_upt) (simp add: SetAR_boot_noop)
  moreover have "for_each clear_unnamed [8..<128] ?s = Inr ?s" by (rule for_each_noop_upt) (rule clear_unnamed_boot)
  ultimately show ?thesis
    unfolding InitializeKernelApplicationRegisters_def set_named_ars_Reset and_then_simps by (simp only: and_then_simps)
qed

text \<open>Starting a kernel always succeeds and leaves exactly this state: the reset state with the aligned stack
  pointer in r12, the global pointer in r1, the boot parameters in r28 of bank 1, the register stack at the
  backing store, default floating-point status, an empty frame, the entry point as instruction pointer and a
  privileged status word, translation being enabled as configured.\<close>

theorem kernel_entry_state:
  "InitializeKernelBootstrapState c =
    Inr (kc_stackTop c AND NOT 15,
      (boot_state_of (boot_gr (kc_stackTop c AND NOT 15) (kc_globalPointer c) (kc_bootParamAddress c))
         INITIAL_KERNEL_RSC (kc_backingStoreBase c))
       \<lparr>cpu_ip := kc_entryPoint c,
        cpu_psr := (if kc_enableVirtualAddressing c
                    then INITIAL_KERNEL_PSR OR PSR_IC OR PSR_DT OR PSR_RT OR PSR_IT else INITIAL_KERNEL_PSR)\<rparr>)"
  unfolding InitializeKernelBootstrapState_def Let_def InitializeKernelGeneralRegisters_Reset and_then_simps
    InitializePredicateAndBranchRegisters_Reset InitializeKernelApplicationRegisters_Reset SetupKernelStack_def
  by (simp add: SetIP_def SetCFM_def SetPSR_def boot_state_of_def boot_rse_def init_rse_def Reset_def get_bits_def)

lemma kernel_entry_registers:
  assumes "InitializeKernelBootstrapState c = Inr (sp, s)" "i < 128"
  shows "GetGR s i = Inr (if i = 1 then kc_globalPointer c else if i = 12 then kc_stackTop c AND NOT 15
    else if i = 28 then kc_bootParamAddress c else 0)"
proof -
  let ?p = "if 16 \<le> i \<and> i < 32 then 112 + i else i"
  have bn: "(INITIAL_KERNEL_PSR OR x) AND IA64_PSR_BN_MASK \<noteq> 0" for x
    by (rule notI, drule arg_cong [where f = "\<lambda>w. bit w 44"])
      (simp add: INITIAL_KERNEL_PSR_def PSR_BN_def IA64_PSR_BN_MASK_def bit_simps)
  have "cpu_psr s AND IA64_PSR_BN_MASK \<noteq> 0"
    using assms(1) bn [of 0] bn [of "PSR_IC OR PSR_DT OR PSR_RT OR PSR_IT"] unfolding kernel_entry_state
    by (cases "kc_enableVirtualAddressing c") auto
  moreover have "cpu_cfm s = 0"
    using assms(1) by (auto simp: kernel_entry_state boot_state_of_def Reset_def)
  ultimately have "MapGR s i = ?p"
    by (simp add: MapGR_def GetSOR_def get_bits_def)
  moreover have "cpu_gr s = boot_gr (kc_stackTop c AND NOT 15) (kc_globalPointer c) (kc_bootParamAddress c)"
    using assms(1) by (auto simp: kernel_entry_state boot_state_of_def)
  ultimately show ?thesis
    using assms(2) by (auto simp: GetGR_def boot_gr_zero) (simp_all add: boot_gr_def GP_REGISTER_def SP_REGISTER_def)
qed

subsection \<open>The argument block\<close>

definition stored :: "byte_string list \<Rightarrow> u8 list" where
  "stored ss = concat (map (\<lambda>s. s @ [0]) ss)"

definition words8 :: "u64 list \<Rightarrow> u8 list" where
  "words8 ws = concat (map (le_bytes 8) ws)"

fun string_addresses :: "u64 \<Rightarrow> byte_string list \<Rightarrow> u64 list" where
  "string_addresses a [] = []"
| "string_addresses a (s # rest) = a # string_addresses (a + (of_nat (length s) + 1)) rest"

text \<open>The ABI's block at \<open>sp\<close>: count, argument pointers, null, environment pointers, null, auxiliary pairs, two nulls, strings.\<close>

definition block_header_size :: "bootstrap_config \<Rightarrow> nat" where
  "block_header_size c = 8 + (length (bc_argv c) + 1) * 8 + (length (bc_envp c) + 1) * 8 + (length (bc_auxv c) + 1) * 16"

definition block_size :: "bootstrap_config \<Rightarrow> nat" where
  "block_size c = block_header_size c + length (stored (bc_argv c)) + length (stored (bc_envp c))"

definition argument_block :: "bootstrap_config \<Rightarrow> u64 \<Rightarrow> u8 list" where
  "argument_block c sp =
     (let argvStrings = sp + of_nat (block_header_size c);
          envpStrings = argvStrings + of_nat (length (stored (bc_argv c)))
      in words8 ([of_nat (length (bc_argv c))] @ string_addresses argvStrings (bc_argv c) @ [0] @
           string_addresses envpStrings (bc_envp c) @ [0] @
           concat (map (\<lambda>x. [av_type x, av_value x]) (bc_auxv c)) @ [0, 0]) @
         stored (bc_argv c) @ stored (bc_envp c))"

definition store :: "nat \<Rightarrow> u8 list \<Rightarrow> memory \<Rightarrow> memory" where
  "store a bs m = m\<lparr>mem_data := write_bytes (mem_data m) a bs\<rparr>"

abbreviation "ram_size m \<equiv> length (mem_data m)"

lemma words8_simps [simp]:
  "words8 [] = []" "words8 (w # ws) = le_bytes 8 w @ words8 ws" "words8 (vs @ ws) = words8 vs @ words8 ws"
  "length (words8 ws) = 8 * length ws"
  by (simp_all add: words8_def length_concat comp_def sum_list_triv)

lemma stored_simps [simp]: "stored [] = []" "stored (s # ss) = s @ 0 # stored ss"
  by (simp_all add: stored_def)

lemma length_string_addresses [simp]: "length (string_addresses a ss) = length ss"
  by (induction a ss rule: string_addresses.induct) simp_all

lemma ram_size_store [simp]: "a + length bs \<le> ram_size m \<Longrightarrow> ram_size (store a bs m) = ram_size m"
  by (simp add: store_def)

lemma store_Nil [simp]: "store a [] m = m"
  by (simp add: store_def write_bytes_def)

lemma store_append:
  "a + length xs = b \<Longrightarrow> b + length ys \<le> ram_size m \<Longrightarrow> store b ys (store a xs m) = store a (xs @ ys) m"
  using write_bytes_split [of a xs ys "mem_data m"] by (auto simp: store_def)

lemma store_commute:
  assumes "a + length xs \<le> b" "b + length ys \<le> ram_size m"
  shows "store a xs (store b ys m) = store b ys (store a xs m)"
proof -
  have "write_bytes (write_bytes (mem_data m) b ys) a xs = write_bytes (write_bytes (mem_data m) a xs) b ys"
    using assms by (intro nth_equalityI) (auto simp: nth_write_bytes)
  then show ?thesis by (simp add: store_def)
qed

text \<open>Extending a block below another one.\<close>

lemma store_extend:
  assumes "a + length xs = b" "b + length ys \<le> c" "c + length zs \<le> ram_size m"
  shows "store b ys (store c zs (store a xs m)) = store c zs (store a (xs @ ys) m)"
  using assms by (subst store_commute) (simp_all add: store_append)

lemma mem_write_store:
  "unat a + 8 \<le> ram_size m \<Longrightarrow> mem_write a (v :: u64) m = Inr (store (unat a) (le_bytes 8 v) m)"
  by (auto simp: mem_write_def checkBounds_iff store_def Let_def and_then_eq_Inr)

lemma loadBuffer_store:
  "unat a + length bs \<le> ram_size m \<Longrightarrow> bs \<noteq> [] \<Longrightarrow> loadBuffer a bs m = Inr (store (unat a) bs m)"
  by (cases bs) (auto simp: loadBuffer_def checkBounds_iff store_def and_then_eq_Inr)

lemma unat_add_of_nat: "unat a + k < 2 ^ 64 \<Longrightarrow> unat (a + of_nat k :: u64) = unat a + k"
  by (simp add: unat_word_ariths unat_of_nat mod_simps)

lemma write_strings_store:
  assumes "unat p + 8 * length ss \<le> unat d" "unat d + length (stored ss) \<le> ram_size m" "ram_size m < 2 ^ 64"
  shows "write_strings p ss d m = Inr (d + of_nat (length (stored ss)),
    store (unat p) (words8 (string_addresses d ss)) (store (unat d) (stored ss) m))"
  using assms
proof (induction ss arbitrary: p d m)
  case Nil
  then show ?case by (simp add: store_def write_bytes_def)
next
  case (Cons s ss)
  let ?d = "d + (of_nat (length s) + 1)"
  have d: "unat ?d = unat d + (length s + 1)"
    using Cons.prems unat_add_of_nat [of d "length s + 1"] by (simp add: add.commute [of 1])
  have p: "unat (p + 8) = unat p + 8"
    using Cons.prems unat_add_of_nat [of p 8] by (simp add: order_le_less_trans)
  let ?m1 = "store (unat p) (le_bytes 8 d) m"
  let ?m2 = "store (unat d) (s @ [0]) ?m1"
  have "write_strings p (s # ss) d m = write_strings (p + 8) ss ?d ?m2"
    using Cons.prems by (simp add: mem_write_store loadBuffer_store)
  also have "\<dots> = Inr (?d + of_nat (length (stored ss)),
      store (unat p + 8) (words8 (string_addresses ?d ss)) (store (unat d + (length s + 1)) (stored ss) ?m2))"
    using Cons.prems Cons.IH [of "p + 8" ?d ?m2] by (simp add: d p)
  also have "store (unat d + (length s + 1)) (stored ss) ?m2 = store (unat d) (stored (s # ss)) ?m1"
    using Cons.prems by (subst store_append) simp_all
  also have "store (unat p + 8) (words8 (string_addresses ?d ss)) (store (unat d) (stored (s # ss)) ?m1) =
      store (unat d) (stored (s # ss)) (store (unat p) (words8 (string_addresses d (s # ss))) m)"
    using Cons.prems by (subst store_extend) simp_all
  also have "\<dots> = store (unat p) (words8 (string_addresses d (s # ss))) (store (unat d) (stored (s # ss)) m)"
    using Cons.prems by (intro store_commute [symmetric]) simp_all
  finally show ?case by (simp add: algebra_simps)
qed

lemma write_auxv_store:
  assumes "unat p + 16 * length xs \<le> ram_size m" "ram_size m < 2 ^ 63"
  shows "write_auxv p xs m = Inr (p + of_nat (16 * length xs),
    store (unat p) (words8 (concat (map (\<lambda>x. [av_type x, av_value x]) xs))) m)"
  using assms
proof (induction xs arbitrary: p m)
  case Nil
  then show ?case by (simp add: store_def write_bytes_def)
next
  case (Cons x xs)
  have p: "unat (p + 8) = unat p + 8" "unat (p + 16) = unat p + 16"
    using Cons.prems unat_add_of_nat [of p 8] unat_add_of_nat [of p 16] by simp_all
  let ?m2 = "store (unat p) (le_bytes 8 (av_type x) @ le_bytes 8 (av_value x)) m"
  have "write_auxv p (x # xs) m = write_auxv (p + 16) xs ?m2"
    using Cons.prems by (simp add: mem_write_store p store_append add.assoc)
  also have "\<dots> = Inr (p + 16 + of_nat (16 * length xs),
      store (unat p + 16) (words8 (concat (map (\<lambda>x. [av_type x, av_value x]) xs))) ?m2)"
    using Cons.prems Cons.IH [of "p + 16" ?m2] by (simp add: p)
  finally show ?case
    using Cons.prems by (subst (asm) store_append)
      (simp_all add: algebra_simps length_concat comp_def sum_list_triv)
qed

lemma length_aux_words: "length (concat (map (\<lambda>x. [av_type x, av_value x]) xs)) = 2 * length xs"
  by (induction xs) simp_all

lemma length_argument_block: "length (argument_block c sp) = block_size c"
  by (simp add: argument_block_def Let_def block_size_def block_header_size_def length_aux_words)

lemma string_data_size_stored: "string_data_size ss n = n + of_nat (length (stored ss))"
  unfolding string_data_size_def by (induction ss arbitrary: n) (simp_all add: algebra_simps)

text \<open>The size the code computes, rounded up to a multiple of 16.\<close>

lemma totalStackUsage_nat:
  assumes "block_size c + 15 < 2 ^ 64"
  shows "unat (totalStackUsage c) = 16 * ((block_size c + 15) div 16)"
proof -
  have "totalStackUsage c = of_nat (block_size c + 15) AND NOT (mask 4)"
    by (simp add: totalStackUsage_def Let_def string_data_size_stored block_size_def block_header_size_def mask_numeral algebra_simps)
  then show ?thesis
    using assms by (simp add: unat_and_not_mask unat_of_nat minus_mod_eq_mult_div del: of_nat_add)
qed

text \<open>The chain of writes, at an address where the block fits.\<close>

lemma stack_writes:
  fixes sp :: u64 and c :: bootstrap_config
  defines "argc \<equiv> of_nat (length (bc_argv c)) :: u64" and "envc \<equiv> of_nat (length (bc_envp c)) :: u64"
    and "auxc \<equiv> of_nat (length (bc_auxv c)) :: u64"
  defines "A \<equiv> sp + 8"
  defines "E \<equiv> A + (argc + 1) * 8"
  defines "X \<equiv> E + (envc + 1) * 8"
  defines "S \<equiv> X + (auxc + 1) * 16"
  assumes fits: "unat sp + block_size c \<le> ram_size m" and ram: "ram_size m < 2 ^ 63"
  shows "and_then (mem_write sp argc m) (\<lambda>m.
     and_then (write_strings A (bc_argv c) S m) (\<lambda>(addr, m).
     and_then (mem_write (A + argc * 8) (0 :: u64) m) (\<lambda>m.
     and_then (write_strings E (bc_envp c) addr m) (\<lambda>(addr, m).
     and_then (mem_write (E + envc * 8) (0 :: u64) m) (\<lambda>m.
     and_then (write_auxv X (bc_auxv c) m) (\<lambda>(auxvAddr, m).
     and_then (mem_write auxvAddr (aux_value AT_NULL) m) (\<lambda>m.
     and_then (mem_write (auxvAddr + 8) (0 :: u64) m) (\<lambda>m.
       Inr (sp, m))))))))) = Inr (sp, store (unat sp) (argument_block c sp) m)"
proof -
  let ?na = "length (bc_argv c)" and ?ne = "length (bc_envp c)" and ?nx = "length (bc_auxv c)"
  let ?sa = "stored (bc_argv c)" and ?se = "stored (bc_envp c)"
  let ?p = "unat sp"
  have n: "?p + (8 + (?na + 1) * 8 + (?ne + 1) * 8 + (?nx + 1) * 16 + length ?sa + length ?se) \<le> ram_size m"
    using fits by (simp add: block_size_def block_header_size_def)
  have bound: "?p + k < 2 ^ 64" if "k \<le> 8 + (?na + 1) * 8 + (?ne + 1) * 8 + (?nx + 1) * 16 + length ?sa + length ?se" for k
    using n ram that by simp
  define Y where "Y = X + of_nat (16 * ?nx)"
  have w: "A = sp + of_nat 8" "E = sp + of_nat (8 + (?na + 1) * 8)" "X = sp + of_nat (8 + (?na + 1) * 8 + (?ne + 1) * 8)"
    "S = sp + of_nat (block_header_size c)" "A + argc * 8 = sp + of_nat (8 + ?na * 8)"
    "E + envc * 8 = sp + of_nat (8 + (?na + 1) * 8 + ?ne * 8)" "Y = sp + of_nat (8 + (?na + 1) * 8 + (?ne + 1) * 8 + 16 * ?nx)"
    "Y + 8 = sp + of_nat (8 + (?na + 1) * 8 + (?ne + 1) * 8 + 16 * ?nx + 8)"
    "S + of_nat (length ?sa) = sp + of_nat (block_header_size c + length ?sa)"
    by (simp_all add: Y_def S_def X_def E_def A_def argc_def envc_def auxc_def block_header_size_def algebra_simps)
  have u: "unat A = ?p + 8" "unat E = ?p + (8 + (?na + 1) * 8)" "unat X = ?p + (8 + (?na + 1) * 8 + (?ne + 1) * 8)"
    "unat S = ?p + block_header_size c" "unat (A + argc * 8) = ?p + (8 + ?na * 8)"
    "unat (E + envc * 8) = ?p + (8 + (?na + 1) * 8 + ?ne * 8)"
    "unat Y = ?p + (8 + (?na + 1) * 8 + (?ne + 1) * 8 + 16 * ?nx)"
    "unat (Y + 8) = ?p + (8 + (?na + 1) * 8 + (?ne + 1) * 8 + 16 * ?nx + 8)"
    "unat (S + of_nat (length ?sa)) = ?p + (block_header_size c + length ?sa)"
    subgoal by (subst w(1)) (rule unat_add_of_nat, rule bound, simp add: block_header_size_def)
    subgoal by (subst w(2)) (rule unat_add_of_nat, rule bound, simp add: block_header_size_def)
    subgoal by (subst w(3)) (rule unat_add_of_nat, rule bound, simp add: block_header_size_def)
    subgoal by (subst w(4)) (rule unat_add_of_nat, rule bound, simp add: block_header_size_def)
    subgoal by (subst w(5)) (rule unat_add_of_nat, rule bound, simp add: block_header_size_def)
    subgoal by (subst w(6)) (rule unat_add_of_nat, rule bound, simp add: block_header_size_def)
    subgoal by (subst w(7)) (rule unat_add_of_nat, rule bound, simp add: block_header_size_def)
    subgoal by (subst w(8)) (rule unat_add_of_nat, rule bound, simp add: block_header_size_def)
    subgoal by (subst w(9)) (rule unat_add_of_nat, rule bound, simp add: block_header_size_def)
    done
  define PA PE AX where "PA = string_addresses S (bc_argv c)" and "PE = string_addresses (S + of_nat (length ?sa)) (bc_envp c)"
    and "AX = concat (map (\<lambda>x. [av_type x, av_value x]) (bc_auxv c))"
  have len: "length PA = ?na" "length PE = ?ne" "length AX = 2 * ?nx"
    by (simp_all add: PA_def PE_def AX_def length_aux_words)
  define T where "T = (\<lambda>ws ss. store (unat S) ss (store ?p (words8 ws) m))"
  have ram_T [simp]: "ram_size (T ws ss) = ram_size m"
    if "8 * length ws \<le> block_header_size c" "length ss \<le> length ?sa + length ?se" for ws ss
    using that n by (simp add: T_def u block_header_size_def)
  have ext: "store b (words8 vs) (T ws ss) = T (ws @ vs) ss"
    if "b = ?p + 8 * length ws" "8 * length (ws @ vs) \<le> block_header_size c" "length ss \<le> length ?sa + length ?se" for b vs ws ss
    using that n unfolding T_def by (subst store_extend) (simp_all add: u block_header_size_def)
  have ext1: "store b (le_bytes 8 v) (T ws ss) = T (ws @ [v]) ss"
    if "b = ?p + 8 * length ws" "8 * length (ws @ [v]) \<le> block_header_size c" "length ss \<le> length ?sa + length ?se" for b v ws ss
    using ext [of b ws "[v]" ss] that by simp
  have s0: "mem_write sp argc m = Inr (T [argc] [])"
    using n by (subst mem_write_store) (simp_all add: T_def)
  have s1: "write_strings A (bc_argv c) S (T [argc] []) = Inr (S + of_nat (length ?sa), T ([argc] @ PA) ?sa)"
  proof -
    have "store (unat S) ?sa (T [argc] []) = T [argc] ?sa"
      by (simp add: T_def)
    then show ?thesis
      using n ram by (subst write_strings_store) (simp_all add: u PA_def [symmetric] ext len block_header_size_def)
  qed
  have s2: "mem_write (A + argc * 8) (0 :: u64) (T ([argc] @ PA) ?sa) = Inr (T ([argc] @ PA @ [0]) ?sa)"
    using n by (subst mem_write_store) (simp_all add: u ext1 len block_header_size_def)
  have s3: "write_strings E (bc_envp c) (S + of_nat (length ?sa)) (T ([argc] @ PA @ [0]) ?sa) =
      Inr (S + of_nat (length ?sa) + of_nat (length ?se), T ([argc] @ PA @ [0] @ PE) (?sa @ ?se))"
  proof -
    have "store (?p + (block_header_size c + length ?sa)) ?se (T ([argc] @ PA @ [0]) ?sa) = T ([argc] @ PA @ [0]) (?sa @ ?se)"
      using n len unfolding T_def by (subst store_append) (simp_all add: u block_header_size_def)
    then show ?thesis
      using n ram by (subst write_strings_store) (simp_all add: u PE_def [symmetric] ext len block_header_size_def)
  qed
  have s4: "mem_write (E + envc * 8) (0 :: u64) (T ([argc] @ PA @ [0] @ PE) (?sa @ ?se)) =
      Inr (T ([argc] @ PA @ [0] @ PE @ [0]) (?sa @ ?se))"
    using n by (subst mem_write_store) (simp_all add: u ext1 len block_header_size_def)
  have s5: "write_auxv X (bc_auxv c) (T ([argc] @ PA @ [0] @ PE @ [0]) (?sa @ ?se)) =
      Inr (Y, T ([argc] @ PA @ [0] @ PE @ [0] @ AX) (?sa @ ?se))"
    using n ram by (subst write_auxv_store) (simp_all add: u AX_def [symmetric] Y_def ext len block_header_size_def)
  have s6: "mem_write Y (aux_value AT_NULL) (T ([argc] @ PA @ [0] @ PE @ [0] @ AX) (?sa @ ?se)) =
      Inr (T ([argc] @ PA @ [0] @ PE @ [0] @ AX @ [0]) (?sa @ ?se))"
    using n by (subst mem_write_store) (simp_all add: u ext1 len block_header_size_def)
  have s7: "mem_write (Y + 8) (0 :: u64) (T ([argc] @ PA @ [0] @ PE @ [0] @ AX @ [0]) (?sa @ ?se)) =
      Inr (T ([argc] @ PA @ [0] @ PE @ [0] @ AX @ [0, 0]) (?sa @ ?se))"
    using n by (subst mem_write_store) (simp_all add: u ext1 len block_header_size_def)
  have blk: "argument_block c sp = words8 ([argc] @ PA @ [0] @ PE @ [0] @ AX @ [0, 0]) @ ?sa @ ?se"
    unfolding argument_block_def Let_def PA_def PE_def AX_def w(4) argc_def ..
  have "T ([argc] @ PA @ [0] @ PE @ [0] @ AX @ [0, 0]) (?sa @ ?se) = store ?p (argument_block c sp) m"
    unfolding T_def blk using n by (subst store_append) (simp_all add: u(4) len block_header_size_def)
  then show ?thesis
    by (simp only: s0 s1 s2 s3 s4 s5 s6 s7 and_then_simps prod.case)
qed

text \<open>The stack of a new program: when the rounded-up block fits the stack and the stack top lies in memory, the call
  succeeds, the stack pointer is 16-byte aligned, and memory is as before except for the ABI's argument block at the
  stack pointer, which ends at or below the stack top.\<close>

lemma SetupInitialStack_block:
  assumes "16 * ((block_size c + 15) div 16) \<le> unat (bc_stackSize c)"
    and "16 * ((block_size c + 15) div 16) \<le> unat (bc_stackTop c)"
    and "unat (bc_stackTop c) \<le> ram_size m" "ram_size m < 2 ^ 63"
  shows "\<exists>sp. SetupInitialStack c m = Inr (sp, store (unat sp) (argument_block c sp) m) \<and>
    16 dvd unat sp \<and> unat sp + block_size c \<le> unat (bc_stackTop c)"
proof -
  let ?n = "16 * ((block_size c + 15) div 16)"
  have n: "block_size c \<le> ?n" by linarith
  have "block_size c < 2 ^ 63" using assms(2-4) n by linarith
  then have T: "unat (totalStackUsage c) = ?n" by (intro totalStackUsage_nat) simp
  define sp where "sp = (bc_stackTop c - totalStackUsage c) AND NOT 15"
  have "unat (bc_stackTop c - totalStackUsage c) = unat (bc_stackTop c) - ?n"
    using T assms(2) by (simp add: unat_sub word_le_nat_alt)
  then have sp: "unat sp = (unat (bc_stackTop c) - ?n) - (unat (bc_stackTop c) - ?n) mod 16"
    using unat_and_not_mask [of "bc_stackTop c - totalStackUsage c" 4] by (simp add: sp_def mask_numeral)
  have le: "unat sp + block_size c \<le> unat (bc_stackTop c)"
    using n assms(2) unfolding sp by linarith
  have d: "16 dvd unat sp" unfolding sp by (simp add: minus_mod_eq_mult_div)
  have "SetupInitialStack c m = Inr (sp, store (unat sp) (argument_block c sp) m)"
    unfolding SetupInitialStack_def Let_def sp_def [symmetric]
    using T assms(1) le assms(3,4) stack_writes [of sp c m] by (simp add: word_less_nat_alt not_less)
  then show ?thesis using le d by blast
qed

definition demo_ram_of :: "nat \<Rightarrow> memory" where
  "demo_ram_of n = (case Memory n False 0x1000 of Some (Inr m) \<Rightarrow> m | _ \<Rightarrow> undefined)"

lemma demo_ram_of_data: "0 < n \<Longrightarrow> mem_data (demo_ram_of n) = replicate n 0"
  by (simp add: demo_ram_of_def Memory_def MMU_def IsPowerOfTwo_def)

definition demo_config :: bootstrap_config where
  "demo_config = BootstrapConfig\<lparr>bc_stackTop := 256, bc_argv := [[97], [98, 99]]\<rparr>"

subsection \<open>Reading the block\<close>

lemma read_words8: "i < length ws \<Longrightarrow> read_bytes (words8 ws @ zs) (8 * i) 8 = le_bytes 8 (ws ! i)"
proof (induction ws arbitrary: i)
  case (Cons w ws)
  show ?case
  proof (cases i)
    case 0
    then show ?thesis by (simp add: read_bytes_def)
  next
    case (Suc k)
    then show ?thesis using Cons by (simp add: read_bytes_def)
  qed
qed simp

lemma string_addresses_nth:
  "i < length ss \<Longrightarrow> string_addresses a ss ! i = a + of_nat (length (stored (take i ss)))"
proof (induction ss arbitrary: a i)
  case (Cons s ss)
  then show ?case by (cases i) (simp_all add: algebra_simps)
qed simp

lemma stored_split: "i < length ss \<Longrightarrow> stored ss = stored (take i ss) @ ss ! i @ 0 # stored (drop (Suc i) ss)"
proof (induction ss arbitrary: i)
  case (Cons s ss)
  then show ?case by (cases i) simp_all
qed simp

lemma read_stored:
  assumes "i < length ss"
  shows "read_bytes (xs @ stored ss @ ys) (length xs + length (stored (take i ss))) (length (ss ! i) + 1) = ss ! i @ [0]"
  by (subst stored_split [OF assms]) (simp add: read_bytes_def)

lemma read_store:
  "p + length bs \<le> ram_size m \<Longrightarrow> k + n \<le> length bs \<Longrightarrow>
   read_bytes (mem_data (store p bs m)) (p + k) n = read_bytes bs k n"
  by (rule nth_equalityI) (simp_all add: store_def nth_read_bytes nth_write_bytes)

lemma mem_read_u64:
  "unat a + 8 \<le> ram_size m \<Longrightarrow> read_bytes (mem_data m) (unat a) 8 = le_bytes 8 w \<Longrightarrow> mem_read m a = Inr (w :: u64)"
  by (auto simp: mem_read_def checkBounds_iff Let_def and_then_eq_Inr le_value_le_bytes)

definition block_words :: "bootstrap_config \<Rightarrow> u64 \<Rightarrow> u64 list" where
  "block_words c sp =
     [of_nat (length (bc_argv c))] @ string_addresses (sp + of_nat (block_header_size c)) (bc_argv c) @ [0] @
     string_addresses (sp + of_nat (block_header_size c) + of_nat (length (stored (bc_argv c)))) (bc_envp c) @ [0] @
     concat (map (\<lambda>x. [av_type x, av_value x]) (bc_auxv c)) @ [0, 0]"

lemma aux_words_nth:
  "i < length xs \<Longrightarrow> concat (map (\<lambda>x. [av_type x, av_value x]) xs) ! (2 * i) = av_type (xs ! i)
     \<and> concat (map (\<lambda>x. [av_type x, av_value x]) xs) ! (2 * i + 1) = av_value (xs ! i)"
proof (induction xs arbitrary: i)
  case (Cons x xs)
  then show ?case by (cases i) auto
qed simp

lemma nth_tail: "length xs + k = n \<Longrightarrow> (xs @ ys) ! n = ys ! k"
  by auto

lemma argument_block_words: "argument_block c sp = words8 (block_words c sp) @ stored (bc_argv c) @ stored (bc_envp c)"
  by (simp only: argument_block_def block_words_def Let_def)

lemma length_block_words: "8 * length (block_words c sp) = block_header_size c"
  by (simp add: block_words_def length_aux_words block_header_size_def)

lemma block_word_read:
  assumes "unat sp + block_size c \<le> ram_size m" "ram_size m < 2 ^ 63" "i < length (block_words c sp)"
  shows "mem_read (store (unat sp) (argument_block c sp) m) (sp + of_nat (8 * i)) = Inr (block_words c sp ! i)"
proof -
  have l: "8 * i + 8 \<le> block_size c"
    using assms(3) length_block_words [of c sp] by (simp add: block_size_def)
  have u: "unat (sp + of_nat (8 * i)) = unat sp + 8 * i"
    using assms(1,2) l by (intro unat_add_of_nat) simp
  have "read_bytes (argument_block c sp) (8 * i) 8 = le_bytes 8 (block_words c sp ! i)"
    unfolding argument_block_words by (rule read_words8 [OF assms(3)])
  then show ?thesis
    using assms(1) l by (intro mem_read_u64) (simp_all only: u read_store length_argument_block ram_size_store add.assoc)
qed

lemma block_string_read:
  assumes "unat sp + block_size c \<le> ram_size m" "ram_size m < 2 ^ 63"
  shows "i < length (bc_argv c) \<Longrightarrow>
      read_bytes (mem_data (store (unat sp) (argument_block c sp) m))
        (unat (string_addresses (sp + of_nat (block_header_size c)) (bc_argv c) ! i)) (length (bc_argv c ! i) + 1) = bc_argv c ! i @ [0]"
    and "i < length (bc_envp c) \<Longrightarrow>
      read_bytes (mem_data (store (unat sp) (argument_block c sp) m))
        (unat (string_addresses (sp + of_nat (block_header_size c) + of_nat (length (stored (bc_argv c)))) (bc_envp c) ! i))
        (length (bc_envp c ! i) + 1) = bc_envp c ! i @ [0]"
proof -
  let ?h = "block_header_size c" and ?sa = "stored (bc_argv c)" and ?se = "stored (bc_envp c)"
  let ?m = "store (unat sp) (argument_block c sp) m"
  have l: "?h + length ?sa + length ?se = block_size c" by (simp add: block_size_def)
  have lim: "unat sp + block_size c < 2 ^ 64" using assms by simp
  have hw: "length (words8 (block_words c sp)) = ?h" by (simp add: length_block_words)
  show "read_bytes (mem_data ?m) (unat (string_addresses (sp + of_nat ?h) (bc_argv c) ! i)) (length (bc_argv c ! i) + 1) = bc_argv c ! i @ [0]"
    if i: "i < length (bc_argv c)"
  proof -
    let ?o = "?h + length (stored (take i (bc_argv c)))"
    have s: "?o + (length (bc_argv c ! i) + 1) \<le> ?h + length ?sa" by (subst stored_split [OF i]) simp
    have "string_addresses (sp + of_nat ?h) (bc_argv c) ! i = sp + of_nat ?o"
      using i by (simp add: string_addresses_nth add.assoc)
    moreover have "unat (sp + of_nat ?o) = unat sp + ?o"
      using lim s l by (intro unat_add_of_nat) linarith
    moreover have "read_bytes (argument_block c sp) ?o (length (bc_argv c ! i) + 1) = bc_argv c ! i @ [0]"
      using read_stored [OF i, of "words8 (block_words c sp)" ?se] unfolding argument_block_words hw .
    ultimately show ?thesis
      using assms(1) s l by (simp only: read_store length_argument_block)
  qed
  show "read_bytes (mem_data ?m) (unat (string_addresses (sp + of_nat ?h + of_nat (length ?sa)) (bc_envp c) ! i))
      (length (bc_envp c ! i) + 1) = bc_envp c ! i @ [0]"
    if i: "i < length (bc_envp c)"
  proof -
    let ?o = "?h + length ?sa + length (stored (take i (bc_envp c)))"
    have s: "?o + (length (bc_envp c ! i) + 1) \<le> ?h + length ?sa + length ?se" by (subst stored_split [OF i]) simp
    have "string_addresses (sp + of_nat ?h + of_nat (length ?sa)) (bc_envp c) ! i = sp + of_nat ?o"
      using i by (simp add: string_addresses_nth add.assoc)
    moreover have "unat (sp + of_nat ?o) = unat sp + ?o"
      using lim s l by (intro unat_add_of_nat) linarith
    moreover have "read_bytes (argument_block c sp) ?o (length (bc_envp c ! i) + 1) = bc_envp c ! i @ [0]"
      using read_stored [OF i, of "words8 (block_words c sp) @ ?sa" "[]"] unfolding argument_block_words by (simp add: length_block_words)
    ultimately show ?thesis
      using assms(1) s l by (simp only: read_store length_argument_block)
  qed
qed

text \<open>C14: A program finds its arguments and its environment: the word at the stack pointer is the argument count, each
  of the next pointers leads to the bytes of its string and a zero, a null pointer ends each array, and the
  auxiliary entries follow as pairs of type and value, ended by a pair of zeros.\<close>

theorem program_finds_arguments:
  assumes "16 * ((block_size c + 15) div 16) \<le> unat (bc_stackSize c)"
    and "16 * ((block_size c + 15) div 16) \<le> unat (bc_stackTop c)"
    and "unat (bc_stackTop c) \<le> ram_size m" "ram_size m < 2 ^ 63"
  shows "\<exists>sp m'. SetupInitialStack c m = Inr (sp, m') \<and>
    (let w = (\<lambda>k. mem_read m' (sp + of_nat (8 * k)) :: cpp_error + u64);
         str = (\<lambda>a s. read_bytes (mem_data m') (unat a) (length s + 1) = s @ [0]);
         na = length (bc_argv c); ne = length (bc_envp c)
     in w 0 = Inr (of_nat na) \<and>
        (\<forall>i < na. \<exists>a. w (1 + i) = Inr a \<and> str a (bc_argv c ! i)) \<and> w (1 + na) = Inr 0 \<and>
        (\<forall>i < ne. \<exists>a. w (2 + na + i) = Inr a \<and> str a (bc_envp c ! i)) \<and> w (2 + na + ne) = Inr 0 \<and>
        (\<forall>i < length (bc_auxv c). w (3 + na + ne + 2 * i) = Inr (av_type (bc_auxv c ! i)) \<and>
           w (4 + na + ne + 2 * i) = Inr (av_value (bc_auxv c ! i))) \<and>
        w (3 + na + ne + 2 * length (bc_auxv c)) = Inr 0 \<and> w (4 + na + ne + 2 * length (bc_auxv c)) = Inr 0)"
proof -
  obtain sp where sp: "SetupInitialStack c m = Inr (sp, store (unat sp) (argument_block c sp) m)"
    "unat sp + block_size c \<le> unat (bc_stackTop c)"
    using SetupInitialStack_block [OF assms] by blast
  then have fits: "unat sp + block_size c \<le> ram_size m" using assms(3) by linarith
  note w = block_word_read [OF fits assms(4)] and str = block_string_read [OF fits assms(4)]
  have lw: "length (block_words c sp) = 3 + length (bc_argv c) + length (bc_envp c) + 2 * length (bc_auxv c) + 2"
    by (simp add: block_words_def length_aux_words)
  let ?m' = "store (unat sp) (argument_block c sp) m"
  let ?A = "string_addresses (sp + of_nat (block_header_size c)) (bc_argv c)"
  let ?E = "string_addresses (sp + of_nat (block_header_size c) + of_nat (length (stored (bc_argv c)))) (bc_envp c)"
  let ?na = "length (bc_argv c)" and ?ne = "length (bc_envp c)"
  have w0: "mem_read ?m' (sp + of_nat (8 * 0)) = Inr (of_nat ?na :: u64)"
    by (subst w) (simp_all add: block_words_def)
  have wa: "mem_read ?m' (sp + of_nat (8 * (1 + i))) = Inr (?A ! i)" if "i < ?na" for i
    using that by (subst w) (simp add: lw, simp add: block_words_def nth_append)
  have wz: "mem_read ?m' (sp + of_nat (8 * (1 + ?na))) = Inr (0 :: u64)"
    by (subst w) (simp add: lw, simp add: block_words_def nth_append)
  have we: "mem_read ?m' (sp + of_nat (8 * (2 + ?na + i))) = Inr (?E ! i)" if "i < ?ne" for i
    using that by (subst w) (simp add: lw, simp add: block_words_def nth_append)
  have wy: "mem_read ?m' (sp + of_nat (8 * (2 + ?na + ?ne))) = Inr (0 :: u64)"
    by (subst w) (simp add: lw, simp add: block_words_def nth_append)
  have wx: "mem_read ?m' (sp + of_nat (8 * (3 + ?na + ?ne + 2 * i))) = Inr (av_type (bc_auxv c ! i))"
    "mem_read ?m' (sp + of_nat (8 * (4 + ?na + ?ne + 2 * i))) = Inr (av_value (bc_auxv c ! i))" if "i < length (bc_auxv c)" for i
    using that aux_words_nth [OF that]
    by (subst w, simp add: lw, simp add: block_words_def nth_append length_aux_words nth_tail)+
  have we0: "mem_read ?m' (sp + of_nat (8 * (3 + ?na + ?ne + 2 * length (bc_auxv c)))) = Inr (0 :: u64)"
    "mem_read ?m' (sp + of_nat (8 * (4 + ?na + ?ne + 2 * length (bc_auxv c)))) = Inr (0 :: u64)"
    by (subst w, simp add: lw, simp add: block_words_def nth_append length_aux_words nth_tail)+
  show ?thesis
    unfolding Let_def using w0 wa wz we wy wx we0 str sp(1) by blast
qed

theorem program_finds_arguments_witness:
  "\<exists>sp m' a. SetupInitialStack demo_config (demo_ram_of 256) = Inr (sp, m') \<and> mem_read m' sp = Inr (2 :: u64)
     \<and> mem_read m' (sp + 16) = Inr (a :: u64) \<and> read_bytes (mem_data m') (unat a) 3 = [98, 99, 0]"
proof -
  have b: "block_size demo_config = 61"
    by (simp add: demo_config_def BootstrapConfig_def block_size_def block_header_size_def stored_def)
  have d: "bc_argv demo_config = [[97], [98, 99]]" by (simp add: demo_config_def)
  have h: "16 * ((block_size demo_config + 15) div 16) \<le> unat (bc_stackSize demo_config)"
    "16 * ((block_size demo_config + 15) div 16) \<le> unat (bc_stackTop demo_config)"
    "unat (bc_stackTop demo_config) \<le> ram_size (demo_ram_of 256)" "ram_size (demo_ram_of 256) < 2 ^ 63"
    by (simp_all add: b demo_ram_of_data) (simp_all add: demo_config_def BootstrapConfig_def)
  obtain sp m' where r: "SetupInitialStack demo_config (demo_ram_of 256) = Inr (sp, m')" "mem_read m' sp = Inr (2 :: u64)"
    "\<forall>i < 2. \<exists>a. mem_read m' (sp + of_nat (8 * (1 + i))) = Inr (a :: u64) \<and>
       read_bytes (mem_data m') (unat a) (length ([[97 :: u8], [98, 99]] ! i) + 1) = [[97], [98, 99]] ! i @ [0]"
    using program_finds_arguments [OF h] unfolding Let_def d by auto
  from r(3) [rule_format, of 1] r(1,2) show ?thesis by (auto simp: numeral_3_eq_3)
qed

end
