(* ===== verification/Kernel_Verdict.thy ===== *)
theory Kernel_Verdict
  imports Elf_Format
begin

text \<open>
  When the kernel validator lets an image boot. Errors only accumulate, so that no error at the end means that no check has
  failed; each check is summarised by what it does to the answer's decisive fields.
\<close>

definition arch_ok :: "elf64_ehdr \<Rightarrow> bool" where
  "arch_ok h \<longleftrightarrow> magic_ok h \<and> e_ident h ! 4 = ELFCLASS64 \<and> e_ident h ! 5 = ELFDATA2LSB \<and> e_machine h = EM_IA_64 \<and>
     (e_type h = ET_EXEC \<or> e_type h = ET_DYN)"

definition layout_ok :: "elf64_phdr \<Rightarrow> bool" where
  "layout_ok p \<longleftrightarrow> (p_type p = PT_LOAD \<longrightarrow>
     (p_align p > 1 \<longrightarrow> p_align p AND (p_align p - 1) = 0 \<and> p_vaddr p mod p_align p = p_offset p mod p_align p) \<and>
     p_filesz p \<le> p_memsz p)"

definition code_segment :: "elf64_phdr \<Rightarrow> bool" where
  "code_segment p \<longleftrightarrow> p_type p = PT_LOAD \<and> p_flags p AND PF_X \<noteq> 0 \<and> p_flags p AND PF_R \<noteq> 0"

definition spans :: "elf64_phdr \<Rightarrow> bool" where
  "spans p \<longleftrightarrow> p_type p = PT_LOAD \<and> IsUserAddress (p_vaddr p) \<and> IsKernelAddress (p_vaddr p + p_memsz p)"

lemma err_warn_simps [simp]:
  "errors (err msg r) = errors r @ [msg]" "errors (warn msg r) = errors r"
  "hasCodeSegment (err msg r) = hasCodeSegment r" "hasCodeSegment (warn msg r) = hasCodeSegment r"
  "hasValidEntryPoint (err msg r) = hasValidEntryPoint r" "hasValidEntryPoint (warn msg r) = hasValidEntryPoint r"
  "entryPointAligned (err msg r) = entryPointAligned r" "entryPointAligned (warn msg r) = entryPointAligned r"
  "isIA64 (err msg r) = isIA64 r" "isIA64 (warn msg r) = isIA64 r"
  "isELF64 (err msg r) = isELF64 r" "isELF64 (warn msg r) = isELF64 r"
  by (simp_all add: err_def warn_def)

definition verdict :: "kernel_requirements \<Rightarrow> bool \<times> bool \<times> bool \<times> bool \<times> bool \<times> bool" where
  "verdict r = (errors r = [], hasValidEntryPoint r, entryPointAligned r, hasCodeSegment r, isIA64 r, isELF64 r)"

lemma CanBoot_verdict: "CanBootKernel r \<longleftrightarrow> verdict r = (True, True, True, True, True, True)"
  by (auto simp: CanBootKernel_def verdict_def)

lemma verdict_eq:
  "verdict r = (a, b, c, d, e, g) \<longleftrightarrow>
     (errors r = []) = a \<and> hasValidEntryPoint r = b \<and> entryPointAligned r = c \<and> hasCodeSegment r = d \<and> isIA64 r = e \<and> isELF64 r = g"
  by (simp add: verdict_def)

lemma verdict_arch:
  "arch_ok h \<Longrightarrow> verdict (kv_ValidateArchitecture h no_requirements) = (True, False, False, False, True, True)"
  "\<not> arch_ok h \<Longrightarrow> errors (kv_ValidateArchitecture h no_requirements) \<noteq> []"
  by (auto simp: kv_ValidateArchitecture_def arch_ok_def no_requirements_def Let_def verdict_def)

lemma entry_step:
  "verdict (kv_ValidateEntryPoint h ps r) =
     (let good = e_entry h \<noteq> 0 \<and> e_entry h AND 0xF = 0 \<and> find_entry (e_entry h) ps = InExecutable
      in (errors r = [] \<and> good, hasValidEntryPoint r \<or> good,
          entryPointAligned r \<or> (e_entry h \<noteq> 0 \<and> e_entry h AND 0xF = 0), hasCodeSegment r, isIA64 r, isELF64 r))"
  by (auto simp: kv_ValidateEntryPoint_def Let_def verdict_def split: entry_search.splits)

lemma layout_step:
  "verdict (segment_layout_step p r) =
     (errors r = [] \<and> layout_ok p, hasValidEntryPoint r, entryPointAligned r, hasCodeSegment r \<or> code_segment p, isIA64 r, isELF64 r)"
proof -
  have c: "verdict (complain b msg x) = (errors x = [] \<and> \<not> b, hasValidEntryPoint x, entryPointAligned x, hasCodeSegment x, isIA64 x, isELF64 x)"
    for b msg x by (simp add: complain_def verdict_def)
  have n: "verdict (note_data p (note_code p r)) =
      (errors r = [], hasValidEntryPoint r, entryPointAligned r, hasCodeSegment r \<or> p_flags p AND PF_X \<noteq> 0 \<and> p_flags p AND PF_R \<noteq> 0,
       isIA64 r, isELF64 r)"
    by (simp add: note_code_def note_data_def verdict_def)
  note c = c [unfolded verdict_eq] and n = n [unfolded verdict_eq]
  show ?thesis
    unfolding verdict_eq segment_layout_step_def by (auto simp: c n layout_ok_def code_segment_def)
qed

lemma layout_fold:
  "verdict (fold segment_layout_step ps r) =
     (errors r = [] \<and> list_all layout_ok ps, hasValidEntryPoint r, entryPointAligned r,
      hasCodeSegment r \<or> list_ex code_segment ps, isIA64 r, isELF64 r)"
proof (induction ps arbitrary: r)
  case (Cons p ps)
  show ?case using Cons [of "segment_layout_step p r"] layout_step [of p r, unfolded verdict_eq] by auto
qed (simp add: verdict_def)

lemma layout_all:
  "verdict (kv_ValidateSegmentLayout ps r) =
     (errors r = [] \<and> list_all layout_ok ps \<and> (hasCodeSegment r \<or> list_ex code_segment ps), hasValidEntryPoint r,
      entryPointAligned r, hasCodeSegment r \<or> list_ex code_segment ps, isIA64 r, isELF64 r)"
  using layout_fold [of ps r] by (auto simp: kv_ValidateSegmentLayout_def Let_def verdict_eq)

lemma memory_step: "verdict (kv_ValidateMemoryRequirements v ps r) = verdict r"
proof -
  have "verdict (fold (\<lambda>p r. if p_type p \<noteq> PT_LOAD then r
      else r\<lparr>totalMemoryRequired := totalMemoryRequired r + p_memsz p\<rparr>) ps r) = verdict r"
    by (induction ps arbitrary: r) (simp_all add: verdict_def)
  then show ?thesis by (simp add: kv_ValidateMemoryRequirements_def Let_def verdict_def)
qed

lemma stack_step: "verdict (kv_ValidateStackRequirements ps mode r) = verdict r"
  by (simp add: kv_ValidateStackRequirements_def Let_def verdict_def split: option.splits)

lemma specific_step:
  "verdict (kv_ValidateKernelSpecific ps r) =
     (errors r = [] \<and> \<not> list_ex spans ps, hasValidEntryPoint r, entryPointAligned r, hasCodeSegment r, isIA64 r, isELF64 r)"
proof -
  have "verdict (fold (\<lambda>p r. if p_type p \<noteq> PT_LOAD then r
      else if IsUserAddress (p_vaddr p) \<and> IsKernelAddress (p_vaddr p + p_memsz p)
      then err ''Segment spans user and kernel address spaces'' r else r) ps r) =
     (errors r = [] \<and> \<not> list_ex spans ps, hasValidEntryPoint r, entryPointAligned r, hasCodeSegment r, isIA64 r, isELF64 r)" for r
    by (induction ps arbitrary: r) (auto simp: verdict_def spans_def)
  then show ?thesis by (simp add: kv_ValidateKernelSpecific_def Let_def)
qed

definition kernel_phdrs :: "elf_file \<Rightarrow> elf64_phdr list option" where
  "kernel_phdrs f =
     (let h = get_ehdr (bytes f) in
      if e_phoff h > 0 \<and> e_phnum h > 0
      then if unat (e_phoff h + ucast (e_phnum h) * ucast (e_phentsize h)) > length (bytes f) then None
           else kv_copy_phdrs f h [0..<unat (e_phnum h)]
      else Some [])"

lemma CanBoot_cong: "verdict r = verdict r' \<Longrightarrow> CanBootKernel r = CanBootKernel r'"
  by (simp add: CanBoot_verdict)

text \<open>C13: The verdict on a kernel image, whatever the settings of the validator: it boots exactly when the file holds an
  ELF64 header for the architecture, its table of program headers ends within the file, the entry point is non-zero,
  aligned to a bundle and in an executable loadable segment, every loadable segment is properly aligned and no
  larger in the file than in memory, some loadable segment is readable and executable, and none spans the user
  and the kernel address space.\<close>

theorem kernel_boots_iff:
  assumes "ValidateKernelBuffer v f KERNEL = Some req"
  shows "CanBootKernel req \<longleftrightarrow>
    (let h = get_ehdr (bytes f) in
     sizeof_Ehdr \<le> length (bytes f) \<and> arch_ok h \<and>
     (\<exists>ps. kernel_phdrs f = Some ps \<and>
        e_entry h \<noteq> 0 \<and> e_entry h AND 0xF = 0 \<and> find_entry (e_entry h) ps = InExecutable \<and>
        list_all layout_ok ps \<and> list_ex code_segment ps \<and> \<not> list_ex spans ps))"
proof (cases "sizeof_Ehdr \<le> length (bytes f) \<and> arch_ok (get_ehdr (bytes f))")
  case False
  let ?a = "kv_ValidateArchitecture (get_ehdr (bytes f)) no_requirements"
  have "errors req \<noteq> []"
  proof (cases "sizeof_Ehdr \<le> length (bytes f)")
    case True
    then have e: "errors ?a \<noteq> []" using False verdict_arch(2) by blast
    have keep: "errors (kv_ValidateKernelSpecific ps (kv_ValidateStackRequirements ps KERNEL (kv_ValidateMemoryRequirements v ps
        (kv_ValidateSegmentLayout ps (kv_ValidateEntryPoint (get_ehdr (bytes f)) ps ?a))))) \<noteq> []" for ps
      using e specific_step [of ps] stack_step [of ps KERNEL] memory_step [of v ps] layout_all [of ps]
        entry_step [of "get_ehdr (bytes f)" ps ?a]
      by (simp add: verdict_def Let_def)
    show ?thesis
      using assms True e keep by (auto simp: ValidateKernelBuffer_def Let_def split: if_splits)
  next
    case False
    then show ?thesis using assms by (auto simp: ValidateKernelBuffer_def)
  qed
  then show ?thesis using False by (auto simp: CanBootKernel_def Let_def)
next
  case True
  let ?h = "get_ehdr (bytes f)" and ?a = "kv_ValidateArchitecture (get_ehdr (bytes f)) no_requirements"
  have a: "verdict ?a = (True, False, False, False, True, True)" using True verdict_arch(1) by blast
  then have ids: "isIA64 ?a" "isELF64 ?a" by (simp_all add: verdict_def)
  show ?thesis
  proof (cases "kernel_phdrs f")
    case None
    then have "req = err ''Program header table extends beyond file size'' ?a"
      using assms True ids by (auto simp: ValidateKernelBuffer_def kernel_phdrs_def Let_def not_less split: if_splits)
    then show ?thesis using None by (simp add: CanBootKernel_def Let_def)
  next
    case (Some ps)
    let ?r = "kv_ValidateKernelSpecific ps (kv_ValidateStackRequirements ps KERNEL (kv_ValidateMemoryRequirements v ps
        (kv_ValidateSegmentLayout ps (kv_ValidateEntryPoint ?h ps ?a))))"
    have "verdict req = verdict ?r"
      using assms True ids Some
      by (auto simp: ValidateKernelBuffer_def kernel_phdrs_def Let_def not_less verdict_def split: if_splits)
    moreover have "CanBootKernel ?r \<longleftrightarrow>
        e_entry ?h \<noteq> 0 \<and> e_entry ?h AND 0xF = 0 \<and> find_entry (e_entry ?h) ps = InExecutable \<and>
        list_all layout_ok ps \<and> list_ex code_segment ps \<and> \<not> list_ex spans ps"
      using a specific_step [of ps] stack_step [of ps KERNEL] memory_step [of v ps] layout_all [of ps] entry_step [of ?h ps ?a]
      by (auto simp: CanBoot_verdict verdict_def Let_def)
    ultimately show ?thesis
      using True Some CanBoot_cong [of req ?r] by (auto simp: Let_def)
  qed
qed

text \<open>A file of one segment, sixteen bytes loaded at 16 and eight zeros after them.\<close>

definition demo_elf :: "u64 \<Rightarrow> u8 list" where
  "demo_elf phoff =
     [0x7F, 0x45, 0x4C, 0x46, 2, 1, 1] @ replicate 9 0 @
     le_bytes 2 ET_EXEC @ le_bytes 2 EM_IA_64 @ le_bytes 4 (1 :: u32) @
     le_bytes 8 (16 :: u64) @ le_bytes 8 phoff @ le_bytes 8 (0 :: u64) @ le_bytes 4 (0 :: u32) @
     le_bytes 2 (64 :: u16) @ le_bytes 2 (56 :: u16) @ le_bytes 2 (1 :: u16) @ le_bytes 2 (0 :: u16) @ le_bytes 2 (0 :: u16) @
     le_bytes 2 (0 :: u16) @
     le_bytes 4 PT_LOAD @ le_bytes 4 (PF_R OR PF_X) @ le_bytes 8 (120 :: u64) @ le_bytes 8 (16 :: u64) @ le_bytes 8 (0 :: u64) @
     le_bytes 8 (16 :: u64) @ le_bytes 8 (24 :: u64) @ le_bytes 8 (1 :: u64) @
     [1, 2, 3, 4, 5, 6, 7, 8, 9, 10, 11, 12, 13, 14, 15, 16]"

definition demo_file :: "u64 \<Rightarrow> elf_file" where
  "demo_file phoff = \<lparr>at = 0x10000, bytes = demo_elf phoff\<rparr>"

definition demo_phdr :: elf64_phdr where
  "demo_phdr = \<lparr>p_type = PT_LOAD, p_flags = 5, p_offset = 120, p_vaddr = 16, p_paddr = 0, p_filesz = 16, p_memsz = 24, p_align = 1\<rparr>"

theorem kernel_boots_iff_witness:
  "\<exists>req. ValidateKernelBuffer KernelValidator (demo_file 64) KERNEL = Some req \<and> CanBootKernel req"
proof -
  have ps: "kernel_phdrs (demo_file 64) = Some [demo_phdr]" by code_simp
  obtain req where req: "ValidateKernelBuffer KernelValidator (demo_file 64) KERNEL = Some req"
    using ps by (cases "ValidateKernelBuffer KernelValidator (demo_file 64) KERNEL")
      (auto simp: ValidateKernelBuffer_def kernel_phdrs_def Let_def split: if_splits)
  have c: "sizeof_Ehdr \<le> length (bytes (demo_file 64))" "arch_ok (get_ehdr (bytes (demo_file 64)))"
    "e_entry (get_ehdr (bytes (demo_file 64))) = 16" "find_entry 16 [demo_phdr] = InExecutable"
    "list_all layout_ok [demo_phdr]" "list_ex code_segment [demo_phdr]" "\<not> list_ex spans [demo_phdr]"
    by (code_simp, code_simp, code_simp, code_simp, code_simp, code_simp, code_simp)
  show ?thesis
    using kernel_boots_iff [OF req] req c ps by (simp add: Let_def del: find_entry.simps)
qed

end
