(* ===== verification/Elf_Props.thy ===== *)
theory Elf_Props
  imports Elf_Loader Bootstrap_Props Kernel_Verdict
begin

text \<open>
  What a successful load leaves in the guest's memory and processor, what the kernel validator decides, and the
  two ways a malformed table of program headers makes the loader read outside the file or throw.
\<close>

subsection \<open>The image a file describes\<close>

text \<open>The program headers, read straight from the bytes; the bytes of a segment; the range it occupies.\<close>

definition file_phdrs :: "u8 list \<Rightarrow> elf64_phdr list" where
  "file_phdrs bs =
     (let h = get_ehdr bs in
      if e_phoff h > 0 \<and> e_phnum h > 0
      then map (\<lambda>i. get_phdr (read_bytes bs (unat (e_phoff h + of_nat (i * unat (e_phentsize h)))) sizeof_Phdr)) [0..<unat (e_phnum h)]
      else [])"

definition segment_image :: "u8 list \<Rightarrow> elf64_phdr \<Rightarrow> u8 list" where
  "segment_image bs p = read_bytes bs (unat (p_offset p)) (unat (p_filesz p)) @ replicate (unat (p_memsz p) - unat (p_filesz p)) 0"

definition apart :: "elf64_phdr \<Rightarrow> elf64_phdr \<Rightarrow> bool" where
  "apart p q \<longleftrightarrow> unat (p_vaddr p) + unat (p_memsz p) \<le> unat (p_vaddr q) \<or> unat (p_vaddr q) + unat (p_memsz q) \<le> unat (p_vaddr p)"

definition in_segment :: "nat \<Rightarrow> elf64_phdr \<Rightarrow> bool" where
  "in_segment a p \<longleftrightarrow> p_type p = PT_LOAD \<and> unat (p_vaddr p) \<le> a \<and> a < unat (p_vaddr p) + unat (p_memsz p)"

subsection \<open>Parsing\<close>

lemma pointer_offset: "phdr_pointer f h i - at f = e_phoff h + of_nat (i * unat (e_phentsize h))"
  by (simp add: phdr_pointer_def)

lemma read_interpreter_keeps:
  "read_interpreter f p l = Inr l' \<Longrightarrow>
   \<exists>b s. l' = l\<lparr>hasInterpreter := b, interpreterPath := s\<rparr>"
  by (cases l) (auto simp: read_interpreter_def Let_def split: if_splits option.splits)

lemma parse_phdrs_result:
  "parse_phdrs f h is l = Inr (True, l') \<Longrightarrow>
   programHeaders l' = programHeaders l @
     map (\<lambda>i. get_phdr (read_bytes (bytes f) (unat (e_phoff h + of_nat (i * unat (e_phentsize h)))) sizeof_Phdr)) is \<and>
   baseAddress l' = baseAddress l \<and> elfType l' = elfType l \<and> el_header l' = el_header l \<and>
   kernelValidationEnabled l' = kernelValidationEnabled l \<and> kernelValidator l' = kernelValidator l"
proof (induction "is" arbitrary: l)
  case (Cons i "is")
  let ?d = "phdr_pointer f h i"
  obtain bs where bs: "deref f ?d sizeof_Phdr = Some bs"
    using Cons.prems by (auto simp: Let_def split: if_splits option.splits)
  then have b: "bs = read_bytes (bytes f) (unat (e_phoff h + of_nat (i * unat (e_phentsize h)))) sizeof_Phdr"
    by (auto simp: deref_def pointer_offset split: if_splits)
  define l1 where "l1 = (let l = l\<lparr>programHeaders := programHeaders l @ [get_phdr bs]\<rparr> in
     if p_type (get_phdr bs) = PT_DYNAMIC then l\<lparr>dynamicAddr := p_vaddr (get_phdr bs), dynamicSize := p_memsz (get_phdr bs)\<rparr> else l)"
  obtain l2 where l2: "(if p_type (get_phdr bs) = PT_INTERP then read_interpreter f (get_phdr bs) l1 else Inr l1) = Inr l2"
    and rest: "parse_phdrs f h is l2 = Inr (True, l')"
    using Cons.prems bs by (auto simp: Let_def l1_def and_then_eq_Inr split: if_splits)
  have "\<exists>b s. l2 = l1\<lparr>hasInterpreter := b, interpreterPath := s\<rparr>"
  proof (cases "p_type (get_phdr bs) = PT_INTERP")
    case True
    then show ?thesis using l2 read_interpreter_keeps [of f "get_phdr bs" l1 l2] by simp
  next
    case False
    then have "l2 = l1\<lparr>hasInterpreter := hasInterpreter l1, interpreterPath := interpreterPath l1\<rparr>" using l2 by simp
    then show ?thesis by blast
  qed
  then obtain b' s where "l2 = l1\<lparr>hasInterpreter := b', interpreterPath := s\<rparr>" by blast
  then show ?case
    using Cons.IH [OF rest] by (simp add: l1_def Let_def b)
qed simp

lemma ParseHeader_result:
  assumes "ParseHeader f l = Inr (True, l')" "programHeaders l = []"
  shows "programHeaders l' = file_phdrs (bytes f) \<and> baseAddress l' = 0 \<and> elfType l' = e_type (get_ehdr (bytes f)) \<and>
    el_header l' = get_ehdr (bytes f)"
  using assms parse_phdrs_result
  by (fastforce simp: ParseHeader_def file_phdrs_def Let_def split: if_splits)

subsection \<open>Segments\<close>

lemma unat_add_nowrap: "\<not> a + b < a \<Longrightarrow> unat (a + b :: u64) = unat a + unat b"
  by (metis no_olen_add_nat not_less unat_plus_simple)

definition segment_ok :: "nat \<Rightarrow> nat \<Rightarrow> elf64_phdr \<Rightarrow> bool" where
  "segment_ok fileSize memorySize p \<longleftrightarrow> ValidateSegmentAlignment p \<and> ValidateMemorySafety p fileSize memorySize"

lemma check_segments_ok: "check_segments ps n k = Inr () \<longleftrightarrow> (\<forall>p \<in> set ps. segment_ok n k p)"
  by (induction ps n k rule: check_segments.induct) (simp_all add: segment_ok_def)

lemma segment_okD:
  assumes "segment_ok n k p" "p_type p = PT_LOAD"
  shows "unat (p_filesz p) \<le> unat (p_memsz p)"
    and "p_filesz p > 0 \<Longrightarrow> unat (p_offset p) + unat (p_filesz p) \<le> n"
    and "p_memsz p > 0 \<Longrightarrow> unat (p_vaddr p) + unat (p_memsz p) \<le> k"
  using assms
  by (auto simp: segment_ok_def ValidateSegmentAlignment_def ValidateMemorySafety_def Let_def word_le_nat_alt not_less
      unat_add_nowrap [unfolded not_less] split: if_splits)

definition segment_record :: "elf64_phdr \<Rightarrow> loaded_segment" where
  "segment_record p = \<lparr>ls_virtualAddress = p_vaddr p, ls_physicalAddress = p_vaddr p, ls_fileOffset = p_offset p,
     ls_size = p_filesz p, ls_memorySize = p_memsz p, ls_flags = p_flags p, ls_type = p_type p\<rparr>"

lemma length_segment_image:
  assumes "segment_ok (length bs) k p" "p_type p = PT_LOAD"
  shows "length (segment_image bs p) = unat (p_memsz p)"
proof (cases "p_filesz p = 0")
  case True
  then show ?thesis by (simp add: segment_image_def read_bytes_def)
next
  case False
  then have "0 < p_filesz p" by (simp add: word_gt_0)
  then show ?thesis using segment_okD [OF assms] by (simp add: segment_image_def)
qed

text \<open>An accepted segment is written as one image, whatever memory held, or its file offset lies past the file.\<close>

lemma load_segment_ok:
  assumes "segment_ok (length (bytes f)) (ram_size m) p" "p_type p = PT_LOAD" "baseAddress l = 0"
    and "load_segment f p (l, m) = Inr (l', m')"
  shows "m' = store (unat (p_vaddr p)) (segment_image (bytes f) p) m \<and> l' = l\<lparr>segments := segments l @ [segment_record p]\<rparr>"
proof -
  note D = segment_okD [OF assms(1,2)]
  let ?v = "unat (p_vaddr p)" and ?fb = "read_bytes (bytes f) (unat (p_offset p)) (unat (p_filesz p))"
  let ?z = "replicate (unat (p_memsz p - p_filesz p)) (0 :: u8)"
  have sub: "unat (p_memsz p - p_filesz p) = unat (p_memsz p) - unat (p_filesz p)"
    using D(1) by (simp add: unat_sub word_le_nat_alt)
  have l': "l' = l\<lparr>segments := segments l @ [segment_record p]\<rparr>"
    using assms(2-4) by (auto simp: load_segment_def Let_def segment_record_def and_then_eq_Inr split: if_splits)
  show ?thesis
  proof (cases "p_memsz p = 0")
    case True
    then have "p_filesz p = 0" using D(1) by (simp add: unat_eq_0)
    then show ?thesis
      using True assms(2-4) l' by (auto simp: load_segment_def Let_def segment_image_def read_bytes_def split: if_splits)
  next
    case mem: False
    then have fits: "?v + unat (p_memsz p) \<le> ram_size m" using D(3) by (simp add: word_gt_0)
    define m1 where "m1 = (if p_filesz p = 0 then m else store ?v ?fb m)"
    have m1: "m1 = store ?v ?fb m" by (simp add: m1_def read_bytes_def)
    have len: "length ?fb = unat (p_filesz p)"
      using D(2) by (cases "p_filesz p = 0") (simp_all add: read_bytes_def word_gt_0)
    have first: "(if p_filesz p > 0
          then case deref f (at f + p_offset p) (unat (p_filesz p)) of
                 None \<Rightarrow> Inl ReadOutside
               | Some bs \<Rightarrow> (case loadBuffer (p_vaddr p) bs m of Inl e \<Rightarrow> Inl (MemoryFault e) | Inr m \<Rightarrow> Inr m)
          else Inr m) = Inr m1"
    proof (cases "p_filesz p = 0")
      case False
      then have "deref f (at f + p_offset p) (unat (p_filesz p)) = Some ?fb"
        using D(2) by (simp add: deref_def word_gt_0)
      moreover have "?fb \<noteq> []" using len False by (metis list.size(3) unat_eq_0)
      ultimately show ?thesis
        using False D(1) fits len by (simp add: loadBuffer_store m1_def word_gt_0)
    qed (simp add: m1_def)
    have r1: "ram_size m1 = ram_size m" using D(1) fits len by (simp add: m1)
    have va: "unat (p_vaddr p + p_filesz p) = ?v + unat (p_filesz p)" if "p_filesz p < p_memsz p"
    proof -
      have "?v + unat (p_filesz p) < 2 ^ 64"
        using assms(1,2) mem that D(1) unat_add_nowrap [of "p_vaddr p" "p_memsz p"] unat_u64_less [of "p_vaddr p + p_memsz p"]
        by (auto simp: segment_ok_def ValidateMemorySafety_def Let_def word_gt_0 split: if_splits)
      then show ?thesis using unat_add_of_nat [of "p_vaddr p" "unat (p_filesz p)"] by simp
    qed
    have second: "(if p_memsz p > p_filesz p
          then case loadBuffer (p_vaddr p + p_filesz p) ?z m1 of Inl e \<Rightarrow> Inl (MemoryFault e) | Inr m \<Rightarrow> Inr m
          else Inr m1) = Inr (store (?v + unat (p_filesz p)) ?z m1)"
    proof (cases "p_filesz p < p_memsz p")
      case True
      then have "?z \<noteq> []" by (simp add: sub word_less_nat_alt)
      then show ?thesis using True va fits r1 D(1) by (simp add: loadBuffer_store sub)
    next
      case False
      then have "?z = []" using D(1) by (simp add: sub word_less_nat_alt)
      then show ?thesis using False by simp
    qed
    have "m' = store (?v + unat (p_filesz p)) ?z m1"
      using assms(4)
      by (simp only: load_segment_def prod.case Let_def assms(2,3) add_0_left first second and_then_simps) (simp split: if_splits)
    also have "\<dots> = store ?v (segment_image (bytes f) p) m"
      unfolding m1 segment_image_def sub [symmetric] using fits D(1) len by (subst store_append) (simp_all add: sub)
    finally show ?thesis using l' by blast
  qed
qed

subsection \<open>The memory image\<close>

definition write_segment :: "u8 list \<Rightarrow> elf64_phdr \<Rightarrow> memory \<Rightarrow> memory" where
  "write_segment bs p m = (if p_type p = PT_LOAD then store (unat (p_vaddr p)) (segment_image bs p) m else m)"

lemma ram_size_write_segment:
  "segment_ok (length bs) (ram_size m) p \<Longrightarrow> ram_size (write_segment bs p m) = ram_size m"
proof (cases "p_type p = PT_LOAD \<and> p_memsz p \<noteq> 0")
  case True
  moreover assume "segment_ok (length bs) (ram_size m) p"
  ultimately show ?thesis
    using segment_okD(3) [of "length bs" "ram_size m" p] length_segment_image [of bs "ram_size m" p]
    by (simp add: write_segment_def word_gt_0)
next
  case False
  moreover assume ok: "segment_ok (length bs) (ram_size m) p"
  ultimately show ?thesis
    using length_segment_image [OF ok] by (auto simp: write_segment_def)
qed

lemma ram_size_segments:
  "\<forall>p \<in> set ps. segment_ok (length bs) (ram_size m) p \<Longrightarrow> ram_size (fold (write_segment bs) ps m) = ram_size m"
  by (induction ps arbitrary: m) (simp_all add: ram_size_write_segment)

lemma load_segments_image:
  "for_each (load_segment f) ps (l, m) = Inr (l', m') \<Longrightarrow> \<forall>p \<in> set ps. segment_ok (length (bytes f)) (ram_size m) p \<Longrightarrow>
   baseAddress l = 0 \<Longrightarrow>
   m' = fold (write_segment (bytes f)) ps m \<and>
   l' = l\<lparr>segments := segments l @ map segment_record (filter (\<lambda>p. p_type p = PT_LOAD) ps)\<rparr>"
proof (induction ps arbitrary: l m)
  case (Cons p ps)
  obtain l1 m1 where one: "load_segment f p (l, m) = Inr (l1, m1)" and rest: "for_each (load_segment f) ps (l1, m1) = Inr (l', m')"
    using Cons.prems(1) by (auto simp: and_then_eq_Inr)
  have ok: "segment_ok (length (bytes f)) (ram_size m) p" using Cons.prems(2) by simp
  have m1: "m1 = write_segment (bytes f) p m \<and>
      l1 = l\<lparr>segments := segments l @ map segment_record (filter (\<lambda>p. p_type p = PT_LOAD) [p])\<rparr>"
  proof (cases "p_type p = PT_LOAD")
    case True
    then show ?thesis using load_segment_ok [OF ok True Cons.prems(3) one] by (simp add: write_segment_def)
  next
    case False
    then show ?thesis using one by (simp add: load_segment_def write_segment_def)
  qed
  then have "ram_size m1 = ram_size m" using ram_size_write_segment [OF ok] by simp
  then show ?case
    using Cons.IH [OF rest] Cons.prems m1 by simp
qed simp

text \<open>Reading the image back.\<close>

lemma write_segment_elsewhere:
  assumes "segment_ok (length bs) (ram_size m) p" "a < ram_size m" "\<not> in_segment a p"
  shows "mem_data (write_segment bs p m) ! a = mem_data m ! a"
proof (cases "p_type p = PT_LOAD \<and> p_memsz p \<noteq> 0")
  case True
  then show ?thesis
    using assms segment_okD(3) [OF assms(1)] length_segment_image [OF assms(1)]
    by (auto simp: write_segment_def store_def nth_write_bytes in_segment_def word_gt_0)
next
  case False
  then show ?thesis
    using length_segment_image [OF assms(1)] by (auto simp: write_segment_def)
qed

lemma segments_elsewhere:
  "\<forall>p \<in> set ps. segment_ok (length bs) (ram_size m) p \<Longrightarrow> a < ram_size m \<Longrightarrow> \<forall>p \<in> set ps. \<not> in_segment a p \<Longrightarrow>
   mem_data (fold (write_segment bs) ps m) ! a = mem_data m ! a"
  by (induction ps arbitrary: m) (simp_all add: ram_size_write_segment write_segment_elsewhere)

lemma segment_read_back:
  assumes ok: "\<forall>q \<in> set (xs @ p # ys). segment_ok (length bs) (ram_size m) q" and load: "p_type p = PT_LOAD"
    and later: "\<forall>q \<in> set ys. p_type q = PT_LOAD \<longrightarrow> apart p q"
  shows "read_bytes (mem_data (fold (write_segment bs) (xs @ p # ys) m)) (unat (p_vaddr p)) (unat (p_memsz p)) = segment_image bs p"
proof (cases "p_memsz p = 0")
  case True
  then show ?thesis using length_segment_image [of bs "ram_size m" p] ok load by (simp add: read_bytes_def)
next
  case False
  have okp: "segment_ok (length bs) (ram_size m) p" using ok by simp
  have fits: "unat (p_vaddr p) + unat (p_memsz p) \<le> ram_size m"
    using segment_okD(3) [OF okp load] False by (simp add: word_gt_0)
  have len: "length (segment_image bs p) = unat (p_memsz p)" using length_segment_image [OF okp load] .
  let ?m1 = "fold (write_segment bs) xs m" let ?m2 = "write_segment bs p ?m1" let ?m3 = "fold (write_segment bs) ys ?m2"
  have r1: "ram_size ?m1 = ram_size m" using ok by (intro ram_size_segments) simp
  have r2: "ram_size ?m2 = ram_size m" using ram_size_write_segment [of bs ?m1 p] okp r1 by simp
  have r3: "ram_size ?m3 = ram_size m" using ram_size_segments [of ys bs ?m2] ok r2 by simp
  have "read_bytes (mem_data ?m3) (unat (p_vaddr p)) (unat (p_memsz p)) = segment_image bs p"
  proof (rule nth_equalityI)
    show "length (read_bytes (mem_data ?m3) (unat (p_vaddr p)) (unat (p_memsz p))) = length (segment_image bs p)"
      using fits r3 len by simp
    fix i assume "i < length (read_bytes (mem_data ?m3) (unat (p_vaddr p)) (unat (p_memsz p)))"
    then have i: "i < unat (p_memsz p)" using fits r3 by simp
    let ?a = "unat (p_vaddr p) + i"
    have "\<not> in_segment ?a q" if "q \<in> set ys" for q
      using later that i by (auto simp: in_segment_def apart_def)
    then have "mem_data ?m3 ! ?a = mem_data ?m2 ! ?a"
      using ok r2 fits i by (intro segments_elsewhere) simp_all
    also have "\<dots> = segment_image bs p ! i"
      using fits i r1 len load by (simp add: write_segment_def store_def nth_write_bytes)
    finally show "read_bytes (mem_data ?m3) (unat (p_vaddr p)) (unat (p_memsz p)) ! i = segment_image bs p ! i"
      using fits r3 i by (simp add: nth_read_bytes)
  qed
  then show ?thesis by simp
qed

subsection \<open>A successful load\<close>

lemma LoadBuffer_result:
  assumes "LoadBuffer (Some f) l m = Inr (entry, l', cpu, m')"
  shows "describeElfValidationFailure (Some (bytes f)) = [] \<and> ValidateArchitecture (get_ehdr (bytes f)) \<and>
    e_type (get_ehdr (bytes f)) = ET_EXEC \<and>
    ValidateEntryPoint (get_ehdr (bytes f)) (file_phdrs (bytes f)) \<and>
    (\<forall>p \<in> set (file_phdrs (bytes f)). segment_ok (length (bytes f)) (ram_size m) p) \<and>
    m' = fold (write_segment (bytes f)) (file_phdrs (bytes f)) m \<and>
    entry = e_entry (get_ehdr (bytes f)) \<and> isLoaded l' \<and>
    segments l' = map segment_record (filter (\<lambda>p. p_type p = PT_LOAD) (file_phdrs (bytes f))) \<and>
    InitializeKernelBootstrapState (KernelBootstrapConfig\<lparr>kc_entryPoint := entry\<rparr>) =
      Inr (kc_stackTop KernelBootstrapConfig AND NOT 15, cpu)"
proof -
  let ?h = "get_ehdr (bytes f)" and ?ps = "file_phdrs (bytes f)"
  define l0 where "l0 = l\<lparr>programHeaders := [], segments := [], el_entryPoint := 0, baseAddress := 0, dynamicAddr := 0, dynamicSize := 0,
                hasInterpreter := False, interpreterPath := [], isLoaded := False, elfType := ET_NONE\<rparr>"
  obtain l1 where l1: "ParseHeader f l0 = Inr (True, l1)"
    and checks: "describeElfValidationFailure (Some (bytes f)) = []" "e_type ?h = ET_EXEC" "ValidateArchitecture ?h"
      "ValidateEntryPoint ?h (programHeaders l1)" "check_segments (programHeaders l1) (length (bytes f)) (ram_size m) = Inr ()"
    and load: "and_then (LoadSegments f l1 m) (\<lambda>(some_loaded, l, m).
        if \<not> some_loaded then Inl (Runtime ''failed to load ELF segments'')
        else case InitializeKernelBootstrapState (KernelBootstrapConfig\<lparr>kc_entryPoint := el_entryPoint l\<rparr>) of
               Inl e \<Rightarrow> Inl (MemoryFault e)
             | Inr (stackPointer, cpu) \<Rightarrow> Inr (el_entryPoint l, l\<lparr>isLoaded := True\<rparr>, cpu, m)) = Inr (entry, l', cpu, m')"
    using assms unfolding LoadBuffer_def l0_def [symmetric] by (auto simp: Let_def and_then_eq_Inr split: if_splits)
  have p: "programHeaders l1 = ?ps" "baseAddress l1 = 0" "elfType l1 = ET_EXEC" "el_header l1 = ?h"
    using ParseHeader_result [OF l1] checks(2) by (simp_all add: l0_def)
  have not_dyn: "ET_EXEC \<noteq> ET_DYN" by (simp add: ET_EXEC_def ET_DYN_def)
  have ok: "\<forall>p \<in> set ?ps. segment_ok (length (bytes f)) (ram_size m) p"
    using checks(5) by (simp add: check_segments_ok p(1))
  obtain b l3 m2 where LS: "LoadSegments f l1 m = Inr (b, l3, m2)"
    using load by (auto simp: and_then_eq_Inr)
  obtain l2 where each: "for_each (load_segment f) ?ps (l1\<lparr>segments := []\<rparr>, m) = Inr (l2, m2)"
    using LS p not_dyn by (auto simp: LoadSegments_def Let_def and_then_eq_Inr)
  have img: "m2 = fold (write_segment (bytes f)) ?ps m"
    "l2 = l1\<lparr>segments := map segment_record (filter (\<lambda>p. p_type p = PT_LOAD) ?ps)\<rparr>"
    using load_segments_image [OF each ok] p(2) by simp_all
  have l3: "l3 = l2\<lparr>el_entryPoint := e_entry ?h\<rparr>"
    using LS p not_dyn each img(2) by (simp add: LoadSegments_def Let_def)
  obtain c0 where K: "InitializeKernelBootstrapState (KernelBootstrapConfig\<lparr>kc_entryPoint := e_entry ?h\<rparr>) =
      Inr (kc_stackTop KernelBootstrapConfig AND NOT 15, c0)"
    by (simp add: kernel_entry_state)
  have fin: "entry = e_entry ?h \<and> l' = l3\<lparr>isLoaded := True\<rparr> \<and> m' = m2 \<and> cpu = c0"
    using load unfolding LS by (auto simp: l3 K split: if_splits)
  show ?thesis
    using checks ok img p fin l3 K by simp
qed

text \<open>C12: What a successful load leaves: the entry point is the header's, non-zero, 16-byte aligned and inside an executable
  loadable segment; the processor is in the kernel's entry state there; every loadable segment that no later one
  overlaps holds its bytes of the file followed by zeros up to its memory size; memory outside the loadable
  segments is what it was.\<close>

theorem loaded_image:
  assumes "LoadBuffer (Some f) l m = Inr (entry, l', cpu, m')"
  shows "let ps = file_phdrs (bytes f); h = get_ehdr (bytes f) in
    entry = e_entry h \<and> entry \<noteq> 0 \<and> entry AND 0xF = 0 \<and> find_entry entry ps = InExecutable \<and>
    InitializeKernelBootstrapState (KernelBootstrapConfig\<lparr>kc_entryPoint := entry\<rparr>) =
      Inr (kc_stackTop KernelBootstrapConfig AND NOT 15, cpu) \<and>
    segments l' = map segment_record (filter (\<lambda>p. p_type p = PT_LOAD) ps) \<and>
    ram_size m' = ram_size m \<and>
    (\<forall>xs p ys. ps = xs @ p # ys \<longrightarrow> p_type p = PT_LOAD \<longrightarrow> (\<forall>q \<in> set ys. p_type q = PT_LOAD \<longrightarrow> apart p q) \<longrightarrow>
       read_bytes (mem_data m') (unat (p_vaddr p)) (unat (p_memsz p)) = segment_image (bytes f) p) \<and>
    (\<forall>a < ram_size m. (\<forall>p \<in> set ps. \<not> in_segment a p) \<longrightarrow> mem_data m' ! a = mem_data m ! a)"
proof -
  let ?ps = "file_phdrs (bytes f)"
  note R = LoadBuffer_result [OF assms]
  have ok: "\<forall>p \<in> set ?ps. segment_ok (length (bytes f)) (ram_size m) p" using R by blast
  have ep: "e_entry (get_ehdr (bytes f)) \<noteq> 0 \<and> e_entry (get_ehdr (bytes f)) AND 0xF = 0 \<and> find_entry (e_entry (get_ehdr (bytes f))) ?ps = InExecutable"
    using R by (auto simp: ValidateEntryPoint_def ET_EXEC_def ET_DYN_def split: if_splits)
  have m': "m' = fold (write_segment (bytes f)) ?ps m" using R by blast
  have rs: "ram_size m' = ram_size m" unfolding m' by (rule ram_size_segments [OF ok])
  have reads: "read_bytes (mem_data m') (unat (p_vaddr p)) (unat (p_memsz p)) = segment_image (bytes f) p"
    if "?ps = xs @ p # ys" "p_type p = PT_LOAD" "\<forall>q \<in> set ys. p_type q = PT_LOAD \<longrightarrow> apart p q" for xs p ys
    using segment_read_back [of xs p ys "bytes f" m] ok that unfolding m' by simp
  have away: "mem_data m' ! a = mem_data m ! a" if "a < ram_size m" "\<forall>p \<in> set ?ps. \<not> in_segment a p" for a
    unfolding m' by (rule segments_elsewhere [OF ok that])
  have e: "entry = e_entry (get_ehdr (bytes f))" using R by blast
  show ?thesis
    unfolding Let_def
  proof (intro conjI allI impI)
    show "segments l' = map segment_record (filter (\<lambda>p. p_type p = PT_LOAD) ?ps)"
      "InitializeKernelBootstrapState (KernelBootstrapConfig\<lparr>kc_entryPoint := entry\<rparr>) =
        Inr (kc_stackTop KernelBootstrapConfig AND NOT 15, cpu)" using R by blast+
  qed (use e ep rs reads away in \<open>simp_all\<close>)
qed

lemma demo_phdrs: "file_phdrs (demo_elf 64) = [demo_phdr]"
  by code_simp

lemma demo_loads: "\<exists>l cpu m. LoadBuffer (Some (demo_file 64)) ELFLoader (demo_ram_of 64) = Inr (16, l, cpu, m)"
proof -
  let ?f = "demo_file 64" and ?h = "get_ehdr (demo_elf 64)"
  define L where "L = ELFLoader\<lparr>el_header := ?h, el_entryPoint := 16, elfType := ET_EXEC, programHeaders := [demo_phdr]\<rparr>"
  let ?m = "demo_ram_of 64"
  have b: "bytes ?f = demo_elf 64" by (simp add: demo_file_def)
  have checks: "describeElfValidationFailure (Some (demo_elf 64)) = []" "e_type ?h = ET_EXEC" "ValidateEntryPoint ?h [demo_phdr]"
    "check_segments [demo_phdr] (length (demo_elf 64)) 64 = Inr ()" "e_phnum ?h = 1"
    by (code_simp, code_simp, code_simp, code_simp, code_simp)
  have arch: "ValidateArchitecture ?h"
    using checks(1,2,5) by (simp add: describeElfValidationFailure_def ValidateArchitecture_def Let_def sizeof_Phdr_def split: if_splits)
  have parse: "ParseHeader ?f ELFLoader = Inr (True, L)" unfolding L_def by code_simp
  have len: "length (demo_elf 64) = 136" "read_bytes (demo_elf 64) 120 16 = [1, 2, 3, 4, 5, 6, 7, 8, 9, 10, 11, 12, 13, 14, 15, 16]"
    by (code_simp, code_simp)
  have L: "programHeaders L = [demo_phdr]" "kernelValidationEnabled L = False" "el_entryPoint L = 16" "baseAddress L = 0"
    "elfType L = ET_EXEC" "e_entry (el_header L) = 16"
    by (simp_all add: L_def ELFLoader_def) code_simp
  obtain m' where seg: "load_segment ?f demo_phdr (L\<lparr>segments := []\<rparr>, ?m) = Inr (L\<lparr>segments := [segment_record demo_phdr]\<rparr>, m')"
    by (simp add: load_segment_def demo_phdr_def Let_def b len L demo_ram_of_data deref_def demo_file_def loadBuffer_store segment_record_def)
  have load: "LoadSegments ?f L ?m = Inr (True, L\<lparr>segments := [segment_record demo_phdr], el_entryPoint := 16\<rparr>, m')"
    using seg L by (simp add: LoadSegments_def Let_def ET_EXEC_def ET_DYN_def)
  have r: "ELFLoader\<lparr>programHeaders := [], segments := [], el_entryPoint := 0, baseAddress := 0, dynamicAddr := 0, dynamicSize := 0,
      hasInterpreter := False, interpreterPath := [], isLoaded := False, elfType := ET_NONE\<rparr> = ELFLoader"
    by (simp add: ELFLoader_def)
  show ?thesis
    unfolding LoadBuffer_def r Let_def using checks arch L
    by (simp add: b parse load validate_kernel_def kernel_entry_state demo_ram_of_data)
qed

theorem loaded_image_witness:
  "\<exists>l cpu m. LoadBuffer (Some (demo_file 64)) ELFLoader (demo_ram_of 64) = Inr (16, l, cpu, m) \<and>
    read_bytes (mem_data m) 16 24 = [1, 2, 3, 4, 5, 6, 7, 8, 9, 10, 11, 12, 13, 14, 15, 16, 0, 0, 0, 0, 0, 0, 0, 0]"
proof -
  obtain l cpu m where m: "LoadBuffer (Some (demo_file 64)) ELFLoader (demo_ram_of 64) = Inr (16, l, cpu, m)"
    using demo_loads by blast
  have i: "segment_image (demo_elf 64) demo_phdr = [1, 2, 3, 4, 5, 6, 7, 8, 9, 10, 11, 12, 13, 14, 15, 16, 0, 0, 0, 0, 0, 0, 0, 0]"
    by code_simp
  have "read_bytes (mem_data m) (unat (p_vaddr demo_phdr)) (unat (p_memsz demo_phdr)) = segment_image (demo_elf 64) demo_phdr"
    using loaded_image [OF m] by (simp add: Let_def demo_file_def demo_phdrs Cons_eq_append_conv) (simp add: demo_phdr_def)
  then show ?thesis using m i by (auto simp: demo_phdr_def)
qed

subsection \<open>A table of program headers outside the file\<close>

text \<open>C38: \<open>ParseHeader\<close> compares only the end of a program header with the end of the file, by pointers that wrap: a table
  offset of \<open>2^64 - k\<close> makes it read the bytes before the file.\<close>

theorem ParseHeader_reads_before_file:
  assumes "sizeof_Ehdr \<le> length (bytes f)" "e_phnum (get_ehdr (bytes f)) > 0"
    and "e_phoff (get_ehdr (bytes f)) = - of_nat k" "56 \<le> k" "k \<le> unat (at f)" "unat (at f) + length (bytes f) < 2 ^ 64"
  shows "ParseHeader f l = Inl ReadOutside"
proof -
  let ?h = "get_ehdr (bytes f)"
  let ?d = "phdr_pointer f ?h 0"
  have k: "k < 2 ^ 64" using assms(5) unat_u64_less [of "at f"] by linarith
  have d: "?d = at f - of_nat k" by (simp add: phdr_pointer_def assms(3))
  have ud: "unat ?d = unat (at f) - k"
    using assms(5) k by (simp add: d unat_sub word_le_nat_alt unat_of_nat)
  have u56: "unat (?d + of_nat sizeof_Phdr) = unat (at f) - k + 56"
    using assms(4-6) unat_add_of_nat [of ?d 56] by (simp add: ud sizeof_Phdr_def)
  have ue: "unat (at f + of_nat (length (bytes f))) = unat (at f) + length (bytes f)"
    using assms(6) by (rule unat_add_of_nat)
  have not_past: "\<not> ?d + of_nat sizeof_Phdr > at f + of_nat (length (bytes f))"
    using assms(4,5) by (simp add: word_less_nat_alt u56 ue)
  have "?d - at f = - of_nat k" by (simp add: d)
  then have "unat (?d - at f) = 2 ^ 64 - k"
    using k assms(4) unat_sub_if' [of 0 "of_nat k :: u64"] by (simp add: unat_of_nat)
  then have out: "deref f ?d sizeof_Phdr = None"
    using assms(5,6) k by (simp add: deref_def)
  have n: "[0..<unat (e_phnum ?h)] = 0 # [1..<unat (e_phnum ?h)]"
    using assms(2) by (simp add: upt_conv_Cons word_gt_0 unat_gt_0)
  have "e_phoff ?h > 0"
  proof -
    have "unat (of_nat k :: u64) = k" using k by (simp add: unat_of_nat)
    then have "of_nat k \<noteq> (0 :: u64)" using assms(4) by auto
    then show ?thesis using assms(3) by (simp add: word_gt_0)
  qed
  then show ?thesis
    using assms(1,2) not_past out by (simp add: ParseHeader_def Let_def n not_less)
qed

theorem ParseHeader_reads_before_file_witness:
  "\<forall>l. describeElfValidationFailure (Some (bytes (demo_file (- 64)))) = [] \<and> ParseHeader (demo_file (- 64)) l = Inl ReadOutside"
proof
  fix l
  have c: "describeElfValidationFailure (Some (bytes (demo_file (- 64)))) = []" "length (bytes (demo_file (- 64))) = 136"
    "e_phnum (get_ehdr (bytes (demo_file (- 64)))) = 1" "e_phoff (get_ehdr (bytes (demo_file (- 64)))) = - 64"
    by (code_simp, code_simp, code_simp, code_simp)
  show "describeElfValidationFailure (Some (bytes (demo_file (- 64)))) = [] \<and> ParseHeader (demo_file (- 64)) l = Inl ReadOutside"
    using ParseHeader_reads_before_file [of "demo_file (- 64)" 64 l] c
    by (simp add: sizeof_Ehdr_def demo_file_def)
qed

end
