(* ===== verification/Plugin_Interrupts.thy ===== *)
theory Plugin_Interrupts
  imports Cpu_Core
begin

text \<open>
  The local interrupt controller, the interval timer and the frame snapshots of the IA-64 instruction-set plugin
  (\<open>src/src/isa/IA64ISAPlugin.cpp\<close>, \<open>src/include/IA64ISAPlugin.h\<close>): pending vectors, \<open>CR.IVR\<close>, \<open>CR.EOI\<close>, \<open>CR.TPR\<close>, the
  timer registers, entry to the interrupt and translation-fault handlers, \<open>rfi\<close>, and the snapshots that stand for
  the register stack across calls. The firmware emulation and the trace output of the plugin are left out.
\<close>

subsection \<open>Constants\<close>

abbreviation "IA64_CR_ITM \<equiv> 1 :: nat"
abbreviation "IA64_CR_IVA \<equiv> 2 :: nat"
abbreviation "IA64_CR_IPSR \<equiv> 16 :: nat"
abbreviation "IA64_CR_IIP \<equiv> 19 :: nat"
abbreviation "IA64_CR_IVR \<equiv> 65 :: nat"
abbreviation "IA64_CR_TPR \<equiv> 66 :: nat"
abbreviation "IA64_CR_EOI \<equiv> 67 :: nat"
abbreviation "IA64_CR_IRR0 \<equiv> 68 :: nat"
abbreviation "IA64_CR_IRR3 \<equiv> 71 :: nat"
abbreviation "IA64_CR_ITV \<equiv> 72 :: nat"

definition IA64_SPURIOUS_INT_VECTOR :: u8 where "IA64_SPURIOUS_INT_VECTOR = 0xF"
definition IA64_PSR_I :: u64 where "IA64_PSR_I = push_bit 14 1"
definition IA64_ITV_MASK :: u64 where "IA64_ITV_MASK = push_bit 16 1"
definition IA64_EXTERNAL_INTERRUPT_VECTOR :: u8 where "IA64_EXTERNAL_INTERRUPT_VECTOR = 0xC"

definition isIA64IrrSelector :: "nat \<Rightarrow> bool" where
  "isIA64IrrSelector selector \<longleftrightarrow> selector \<ge> IA64_CR_IRR0 \<and> selector \<le> IA64_CR_IRR3"

definition ia64IvtEntryOffset :: "u8 \<Rightarrow> u64" where
  "ia64IvtEntryOffset vector =
     (if unat vector < 20 then ucast vector * 0x400 else 20 * 0x400 + (ucast vector - 20) * 0x100)"

subsection \<open>Kernel addresses\<close>

definition kIa64KernelVirtualBase :: u64 where "kIa64KernelVirtualBase = 0xA000000100000000"
definition kIa64KernelPhysicalBase :: u64 where "kIa64KernelPhysicalBase = 0x04000000"
definition kIa64KernelVirtualSpan :: u64 where "kIa64KernelVirtualSpan = 0x01000000"

definition normalizeKernelEntryIP :: "u64 \<Rightarrow> u64" where
  "normalizeKernelEntryIP target =
     (let bundleTarget = target AND NOT 0xF in
      if bundleTarget \<ge> kIa64KernelVirtualBase \<and> bundleTarget - kIa64KernelVirtualBase < kIa64KernelVirtualSpan
      then kIa64KernelPhysicalBase + (bundleTarget - kIa64KernelVirtualBase)
      else bundleTarget)"

definition canonicalizeKernelInstructionPointer :: "u64 \<Rightarrow> u64" where
  "canonicalizeKernelInstructionPointer ip =
     (if ip \<ge> kIa64KernelPhysicalBase \<and> ip - kIa64KernelPhysicalBase < kIa64KernelVirtualSpan
      then kIa64KernelVirtualBase + (ip - kIa64KernelPhysicalBase)
      else ip)"

definition normalizeRfiEntryIP :: "u64 \<Rightarrow> u64" where
  "normalizeRfiEntryIP target = normalizeKernelEntryIP target"

subsection \<open>State\<close>

record isa_state =
  is_cpu :: cpu_state
  is_currentBundle :: decoded_bundle
  is_currentSlot :: nat
  is_bundleValid :: bool
  is_predicateGroupSnapshot :: "bool list"
  is_pendingInterrupts :: "u8 list"
  is_interruptVectorBase :: u64

definition IA64ISAState :: isa_state where
  "IA64ISAState = \<lparr>is_cpu = Reset, is_currentBundle = empty_bundle, is_currentSlot = 0, is_bundleValid = False,
     is_predicateGroupSnapshot = (replicate NUM_PREDICATE_REGISTERS False)[0 := True], is_pendingInterrupts = [],
     is_interruptVectorBase = 0\<rparr>"

record interrupt_telemetry =
  it_irrReads :: u64
  it_ivrReads :: u64
  it_eoiWrites :: u64
  it_tprWrites :: u64
  it_itvWrites :: u64
  it_itmWrites :: u64
  it_queuedInterrupts :: u64
  it_timerCompareEvents :: u64
  it_interruptEntries :: u64
  it_interruptReturns :: u64
  it_blockedByPsr :: u64
  it_blockedByTpr :: u64
  it_spuriousIvrReads :: u64
  it_timerVectorReads :: u64
  it_otherVectorReads :: u64
  it_transactionRepeats :: u64
  it_ivrVectorHistogram :: "u64 list"
  it_deliveredVectorHistogram :: "u64 list"
  it_readHistogram :: "u64 list"
  it_writeHistogram :: "u64 list"
  it_firstItvWriteSeen :: bool
  it_firstItvWriteIP :: u64
  it_firstItvValue :: u64
  it_firstItmWriteSeen :: bool
  it_firstItmWriteIP :: u64
  it_firstItmValue :: u64
  it_firstItmProgrammingITC :: u64
  it_firstTimerFiringSeen :: bool
  it_firstTimerFiringITC :: u64
  it_firstTimerVector :: u64
  it_firstTimerHandlerIP :: u64
  it_firstTimerEoiIP :: u64
  it_firstReplacementITM :: u64
  it_firstIrrReadSeen :: bool
  it_firstIrrReadIP :: u64
  it_firstIrrReadSlot :: nat
  it_firstIrrReadRawBits :: u64
  it_firstIrrReadSelector :: nat
  it_firstIrrReadDestination :: u8
  it_firstIrrReadValue :: u64
  it_secondIrrReadSeen :: bool
  it_secondIrrReadValue :: u64

definition IA64InterruptTelemetry :: interrupt_telemetry where
  "IA64InterruptTelemetry = \<lparr>it_irrReads = 0, it_ivrReads = 0, it_eoiWrites = 0, it_tprWrites = 0, it_itvWrites = 0,
     it_itmWrites = 0, it_queuedInterrupts = 0, it_timerCompareEvents = 0, it_interruptEntries = 0, it_interruptReturns = 0,
     it_blockedByPsr = 0, it_blockedByTpr = 0, it_spuriousIvrReads = 0, it_timerVectorReads = 0, it_otherVectorReads = 0,
     it_transactionRepeats = 0, it_ivrVectorHistogram = replicate 256 0, it_deliveredVectorHistogram = replicate 256 0,
     it_readHistogram = replicate 128 0, it_writeHistogram = replicate 128 0,
     it_firstItvWriteSeen = False, it_firstItvWriteIP = 0, it_firstItvValue = 0, it_firstItmWriteSeen = False,
     it_firstItmWriteIP = 0, it_firstItmValue = 0, it_firstItmProgrammingITC = 0, it_firstTimerFiringSeen = False,
     it_firstTimerFiringITC = 0, it_firstTimerVector = 0, it_firstTimerHandlerIP = 0, it_firstTimerEoiIP = 0,
     it_firstReplacementITM = 0, it_firstIrrReadSeen = False, it_firstIrrReadIP = 0, it_firstIrrReadSlot = 0,
     it_firstIrrReadRawBits = 0, it_firstIrrReadSelector = 0, it_firstIrrReadDestination = 0, it_firstIrrReadValue = 0,
     it_secondIrrReadSeen = False, it_secondIrrReadValue = 0\<rparr>"

record call_frame =
  cf_stackedRegisters :: "u64 list"
  cf_cfm :: u64
  cf_returnAddress :: u64

record last_transaction =
  lt_valid :: bool
  lt_IP :: u64
  lt_vector :: u8
  lt_TPR :: u64
  lt_ITV :: u64
  lt_ITM :: u64

record isa_plugin =
  pl_state :: isa_state
  pl_interruptInService :: bool
  pl_inServiceVector :: u8
  pl_timerCompareLatched :: bool
  pl_intervalTimerConfigured :: bool
  pl_telemetry :: interrupt_telemetry
  pl_lastTransaction :: last_transaction
  pl_pendingCallInputs :: "u64 list"
  pl_callFrameStack :: "call_frame list"
  pl_completedCallFrames :: "u64 \<rightharpoonup> call_frame"
  pl_interruptFrameStack :: "call_frame list"
  pl_lastBranchTargets :: "u64 list"

definition IA64ISAPlugin :: isa_plugin where
  "IA64ISAPlugin = \<lparr>pl_state = IA64ISAState, pl_interruptInService = False, pl_inServiceVector = IA64_SPURIOUS_INT_VECTOR,
     pl_timerCompareLatched = False, pl_intervalTimerConfigured = False, pl_telemetry = IA64InterruptTelemetry,
     pl_lastTransaction = \<lparr>lt_valid = False, lt_IP = 0, lt_vector = IA64_SPURIOUS_INT_VECTOR, lt_TPR = 0, lt_ITV = 0, lt_ITM = 0\<rparr>,
     pl_pendingCallInputs = [], pl_callFrameStack = [], pl_completedCallFrames = (\<lambda>_. None), pl_interruptFrameStack = [],
     pl_lastBranchTargets = []\<rparr>"

abbreviation pl_cpu :: "isa_plugin \<Rightarrow> cpu_state" where "pl_cpu p \<equiv> is_cpu (pl_state p)"
abbreviation pl_pending :: "isa_plugin \<Rightarrow> u8 list" where "pl_pending p \<equiv> is_pendingInterrupts (pl_state p)"

definition on_state_of :: "(isa_state \<Rightarrow> isa_state) \<Rightarrow> isa_plugin \<Rightarrow> isa_plugin" where
  "on_state_of f p = p\<lparr>pl_state := f (pl_state p)\<rparr>"

definition set_cpu :: "cpu_state \<Rightarrow> isa_plugin \<Rightarrow> isa_plugin" where
  "set_cpu s = on_state_of (\<lambda>st. st\<lparr>is_cpu := s\<rparr>)"

definition set_pending :: "u8 list \<Rightarrow> isa_plugin \<Rightarrow> isa_plugin" where
  "set_pending vs = on_state_of (\<lambda>st. st\<lparr>is_pendingInterrupts := vs\<rparr>)"

definition telemetry :: "(interrupt_telemetry \<Rightarrow> interrupt_telemetry) \<Rightarrow> isa_plugin \<Rightarrow> isa_plugin" where
  "telemetry f p = p\<lparr>pl_telemetry := f (pl_telemetry p)\<rparr>"

definition bump :: "nat \<Rightarrow> u64 list \<Rightarrow> u64 list" where
  "bump i xs = xs[i := xs ! i + 1]"

text \<open>The control registers the controller names are constants below 128, the length of the array of control
  registers, so \<open>GetCR\<close> and \<open>SetCR\<close> of them cannot fail; likewise the time counter, application register 44.\<close>

definition cr :: "nat \<Rightarrow> isa_plugin \<Rightarrow> u64" where
  "cr i p = cpu_cr (pl_cpu p) ! i"

definition put_cr :: "nat \<Rightarrow> u64 \<Rightarrow> isa_plugin \<Rightarrow> isa_plugin" where
  "put_cr i v p = set_cpu (pl_cpu p\<lparr>cpu_cr := (cpu_cr (pl_cpu p))[i := v]\<rparr>) p"

definition itc :: "isa_plugin \<Rightarrow> u64" where
  "itc p = cpu_ar (pl_cpu p) ! 44"

subsection \<open>Pending interrupts\<close>

definition pl_queueInterrupt :: "u8 \<Rightarrow> isa_plugin \<Rightarrow> isa_plugin" where
  "pl_queueInterrupt vector p =
     (if vector \<le> IA64_SPURIOUS_INT_VECTOR then p
      else telemetry (\<lambda>t. t\<lparr>it_queuedInterrupts := it_queuedInterrupts t + 1\<rparr>) (set_pending (pl_pending p @ [vector]) p))"

definition pl_hasPendingInterrupt :: "isa_plugin \<Rightarrow> bool" where
  "pl_hasPendingInterrupt p \<longleftrightarrow> pl_pending p \<noteq> []"

definition pl_setInterruptsEnabled :: "bool \<Rightarrow> isa_plugin \<Rightarrow> isa_plugin" where
  "pl_setInterruptsEnabled enabled p =
     (let psr = cpu_psr (pl_cpu p)
      in set_cpu (SetPSR (if enabled then psr OR IA64_PSR_I else psr AND NOT IA64_PSR_I) (pl_cpu p)) p)"

definition pl_areInterruptsEnabled :: "isa_plugin \<Rightarrow> bool" where
  "pl_areInterruptsEnabled p \<longleftrightarrow> cpu_psr (pl_cpu p) AND IA64_PSR_I \<noteq> 0"

definition pl_setInterruptVectorBase :: "u64 \<Rightarrow> isa_plugin \<Rightarrow> isa_plugin" where
  "pl_setInterruptVectorBase base = on_state_of (\<lambda>st. st\<lparr>is_interruptVectorBase := base\<rparr>)"

definition isInterruptEligible :: "u8 \<Rightarrow> isa_plugin \<Rightarrow> bool" where
  "isInterruptEligible vector p \<longleftrightarrow>
     \<not> vector \<le> IA64_SPURIOUS_INT_VECTOR \<and> ucast (drop_bit 4 vector) > (drop_bit 4 (cr IA64_CR_TPR p) AND 0xF :: u64)"

text \<open>The search loop; no index is the negative result.\<close>

fun highest_loop :: "(u8 \<Rightarrow> bool) \<Rightarrow> u8 list \<Rightarrow> nat \<Rightarrow> nat option \<Rightarrow> u8 \<Rightarrow> nat option" where
  "highest_loop eligible [] index best bestVector = best"
| "highest_loop eligible (v # vs) index best bestVector =
     (if eligible v \<and> (best = None \<or> v > bestVector) then highest_loop eligible vs (Suc index) (Some index) v
      else highest_loop eligible vs (Suc index) best bestVector)"

definition findHighestEligibleInterrupt :: "isa_plugin \<Rightarrow> nat option" where
  "findHighestEligibleInterrupt p =
     highest_loop (\<lambda>v. isInterruptEligible v p) (pl_pending p) 0 None IA64_SPURIOUS_INT_VECTOR"

subsection \<open>The interval timer\<close>

definition first_firing :: "u64 \<Rightarrow> u8 \<Rightarrow> isa_plugin \<Rightarrow> interrupt_telemetry \<Rightarrow> interrupt_telemetry" where
  "first_firing now vector p t =
     (if it_firstTimerFiringSeen t then t
      else t\<lparr>it_firstTimerFiringSeen := True, it_firstTimerFiringITC := now, it_firstTimerVector := ucast vector,
             it_firstTimerHandlerIP :=
               (if cr IA64_CR_IVA p \<noteq> 0 then cr IA64_CR_IVA p else is_interruptVectorBase (pl_state p))
                 + ia64IvtEntryOffset IA64_EXTERNAL_INTERRUPT_VECTOR\<rparr>)"

definition updateIntervalTimer :: "isa_plugin \<Rightarrow> isa_plugin" where
  "updateIntervalTimer p =
     (let itv = cr IA64_CR_ITV p; vector = ucast (itv AND 0xFF) :: u8 in
      if \<not> pl_intervalTimerConfigured p \<or> pl_timerCompareLatched p \<or> itv AND IA64_ITV_MASK \<noteq> 0 \<or>
         sint (itc p - cr IA64_CR_ITM p) < 0 then p
      else if vector \<le> IA64_SPURIOUS_INT_VECTOR then p
      else telemetry (\<lambda>t. first_firing (itc p) vector p
             (t\<lparr>it_queuedInterrupts := it_queuedInterrupts t + 1, it_timerCompareEvents := it_timerCompareEvents t + 1\<rparr>))
           (set_pending (pl_pending p @ [vector]) (p\<lparr>pl_timerCompareLatched := True\<rparr>)))"

definition pl_advanceITC :: "u64 \<Rightarrow> isa_plugin \<Rightarrow> isa_plugin" where
  "pl_advanceITC ticks p = updateIntervalTimer (set_cpu (AdvanceITC ticks (pl_cpu p)) p)"

subsection \<open>Control registers\<close>

text \<open>An exception keeps what was changed before it: a call returns the error or the value, and the plugin.\<close>

definition irr_bank :: "u8 list \<Rightarrow> nat \<Rightarrow> u64" where
  "irr_bank pending bank =
     fold (\<lambda>v irr. if unat (drop_bit 6 v) = bank then irr OR push_bit (unat (v AND 63)) 1 else irr) pending 0"

definition noteInterruptTransaction :: "u8 \<Rightarrow> isa_plugin \<Rightarrow> isa_plugin" where
  "noteInterruptTransaction vector p =
     (let now = \<lparr>lt_valid = True, lt_IP = cpu_ip (pl_cpu p), lt_vector = vector, lt_TPR = cr IA64_CR_TPR p,
                 lt_ITV = cr IA64_CR_ITV p, lt_ITM = cr IA64_CR_ITM p\<rparr>;
          p' = (if pl_lastTransaction p = now
                then telemetry (\<lambda>t. t\<lparr>it_transactionRepeats := it_transactionRepeats t + 1\<rparr>) p else p)
      in p'\<lparr>pl_lastTransaction := now\<rparr>)"

definition take_vector :: "isa_plugin \<Rightarrow> u8 \<times> isa_plugin" where
  "take_vector p =
     (if pl_interruptInService p
      then (pl_inServiceVector p, set_pending (remove1 (pl_inServiceVector p) (pl_pending p)) p)
      else case findHighestEligibleInterrupt p of
        Some i \<Rightarrow>
          let vector = pl_pending p ! i
          in (vector, (set_pending (take i (pl_pending p) @ drop (Suc i) (pl_pending p)) p)
                        \<lparr>pl_interruptInService := True, pl_inServiceVector := vector\<rparr>)
      | None \<Rightarrow> (IA64_SPURIOUS_INT_VECTOR, telemetry (\<lambda>t. t\<lparr>it_spuriousIvrReads := it_spuriousIvrReads t + 1\<rparr>) p))"

definition count_vector_read :: "u8 \<Rightarrow> isa_plugin \<Rightarrow> isa_plugin" where
  "count_vector_read vector p =
     (let timerVector = cr IA64_CR_ITV p AND 0xFF in
      telemetry (\<lambda>t.
        if ucast vector = timerVector \<and> vector \<noteq> IA64_SPURIOUS_INT_VECTOR
        then t\<lparr>it_timerVectorReads := it_timerVectorReads t + 1\<rparr>
        else if vector \<noteq> IA64_SPURIOUS_INT_VECTOR then t\<lparr>it_otherVectorReads := it_otherVectorReads t + 1\<rparr>
        else t) p)"

definition read_irr :: "nat \<Rightarrow> isa_plugin \<Rightarrow> u64 \<times> isa_plugin" where
  "read_irr selector p =
     (let irr = irr_bank (pl_pending p) (selector - IA64_CR_IRR0)
      in (irr, telemetry (\<lambda>t.
            let t1 = t\<lparr>it_irrReads := it_irrReads t + 1\<rparr>
            in if it_irrReads t1 = 2 then t1\<lparr>it_secondIrrReadSeen := True, it_secondIrrReadValue := irr\<rparr> else t1) p))"

definition read_ivr :: "isa_plugin \<Rightarrow> u8 \<times> isa_plugin" where
  "read_ivr p =
     (let (vector, p1) = take_vector (telemetry (\<lambda>t. t\<lparr>it_ivrReads := it_ivrReads t + 1\<rparr>) p);
          p2 = telemetry (\<lambda>t. t\<lparr>it_ivrVectorHistogram := bump (unat vector) (it_ivrVectorHistogram t)\<rparr>) p1
      in (vector, count_vector_read vector (noteInterruptTransaction vector p2)))"

definition readControlRegister :: "nat \<Rightarrow> isa_plugin \<Rightarrow> (cpp_error + u64) \<times> isa_plugin" where
  "readControlRegister selector p =
     (let p0 = (if selector < 128
                then telemetry (\<lambda>t. t\<lparr>it_readHistogram := bump selector (it_readHistogram t)\<rparr>) p else p) in
      if isIA64IrrSelector selector then case read_irr selector p0 of (irr, p1) \<Rightarrow> (Inr irr, p1)
      else if selector \<noteq> IA64_CR_IVR then
        (if selector \<ge> NUM_CONTROL_REGISTERS then (Inl OutOfRange, p0) else (GetCR (pl_cpu p0) selector, p0))
      else case read_ivr p0 of (vector, p1) \<Rightarrow> (Inr (ucast vector), p1))"

definition write_eoi :: "isa_plugin \<Rightarrow> isa_plugin" where
  "write_eoi p =
     (let p1 = telemetry (\<lambda>t. t\<lparr>it_eoiWrites := it_eoiWrites t + 1\<rparr>) p in
      if pl_interruptInService p1
      then (telemetry (\<lambda>t.
              let t1 = t\<lparr>it_interruptReturns := it_interruptReturns t + 1\<rparr>
              in if ucast (pl_inServiceVector p1) = cr IA64_CR_ITV p1 AND 0xFF \<and> it_firstTimerEoiIP t1 = 0
                 then t1\<lparr>it_firstTimerEoiIP := cpu_ip (pl_cpu p1)\<rparr> else t1) p1)
             \<lparr>pl_interruptInService := False, pl_inServiceVector := IA64_SPURIOUS_INT_VECTOR\<rparr>
      else p1)"

definition write_itv :: "u64 \<Rightarrow> isa_plugin \<Rightarrow> isa_plugin" where
  "write_itv v p =
     updateIntervalTimer (telemetry (\<lambda>t.
       let t1 = t\<lparr>it_itvWrites := it_itvWrites t + 1\<rparr>
       in if it_firstItvWriteSeen t1 then t1
          else t1\<lparr>it_firstItvWriteSeen := True, it_firstItvWriteIP := cpu_ip (pl_cpu p), it_firstItvValue := v\<rparr>) p)"

definition write_itm :: "u64 \<Rightarrow> isa_plugin \<Rightarrow> isa_plugin" where
  "write_itm v p =
     updateIntervalTimer ((telemetry (\<lambda>t.
       let t1 = t\<lparr>it_itmWrites := it_itmWrites t + 1\<rparr>
       in if \<not> it_firstItmWriteSeen t1
          then t1\<lparr>it_firstItmWriteSeen := True, it_firstItmWriteIP := cpu_ip (pl_cpu p), it_firstItmValue := v,
                  it_firstItmProgrammingITC := itc p\<rparr>
          else if it_firstTimerFiringSeen t1 \<and> it_firstReplacementITM t1 = 0 then t1\<lparr>it_firstReplacementITM := v\<rparr>
          else t1) p)\<lparr>pl_timerCompareLatched := False, pl_intervalTimerConfigured := True\<rparr>)"

definition writeControlRegister :: "nat \<Rightarrow> u64 \<Rightarrow> isa_plugin \<Rightarrow> (cpp_error + unit) \<times> isa_plugin" where
  "writeControlRegister selector v p =
     (if selector \<ge> NUM_CONTROL_REGISTERS then (Inl OutOfRange, p)
      else
        let p0 = telemetry (\<lambda>t. t\<lparr>it_writeHistogram := bump selector (it_writeHistogram t)\<rparr>) p;
            p1 = put_cr selector v p0 in
        if isIA64IrrSelector selector then (Inl RuntimeError, p0)
        else if selector = IA64_CR_EOI then (Inr (), write_eoi p1)
        else if selector = IA64_CR_TPR then (Inr (), telemetry (\<lambda>t. t\<lparr>it_tprWrites := it_tprWrites t + 1\<rparr>) p1)
        else if selector = IA64_CR_ITV then (Inr (), write_itv v p1)
        else if selector = IA64_CR_ITM then (Inr (), write_itm v p1)
        else (Inr (), p1))"

end
