(* ===== verification/Plugin_Frames.thy ===== *)
theory Plugin_Frames
  imports Plugin_Interrupts
begin

text \<open>
  How the IA-64 plugin (\<open>src/src/isa/IA64ISAPlugin.cpp\<close>) keeps register frames: the snapshots taken at a call and
  at an interrupt and what puts them back, entry to the external-interrupt vector, entry to a translation-fault
  vector, and \<open>rfi\<close>. An operation that reads registers through a frame marker may index past the register array,
  so it returns the error or a value; the error drops what was changed, as behaviour is undefined.
\<close>

subsection \<open>Snapshots of the stacked registers\<close>

primrec read_grs_at :: "cpu_state \<Rightarrow> nat list \<Rightarrow> cpp_error + u64 list" where
  "read_grs_at s [] = Inr []"
| "read_grs_at s (i # is) = and_then (GetGR s i) (\<lambda>v. and_then (read_grs_at s is) (\<lambda>vs. Inr (v # vs)))"

definition stacked :: "nat list" where
  "stacked = [NUM_STATIC_GR..<NUM_GENERAL_REGISTERS]"

definition write_stacked :: "u64 list \<Rightarrow> cpu_state \<Rightarrow> cpp_error + cpu_state" where
  "write_stacked vs s = (case apply_loop vs 0 s of (Inl e, _) \<Rightarrow> Inl e | (Inr _, s') \<Rightarrow> Inr s')"

definition snapshot_frame :: "u64 \<Rightarrow> cpu_state \<Rightarrow> cpp_error + call_frame" where
  "snapshot_frame returnAddress s =
     and_then (read_grs_at s stacked) (\<lambda>vs.
       Inr \<lparr>cf_stackedRegisters = vs, cf_cfm = cpu_cfm s, cf_returnAddress = returnAddress\<rparr>)"

definition put_frame :: "call_frame \<Rightarrow> cpu_state \<Rightarrow> cpp_error + cpu_state" where
  "put_frame f s = write_stacked (cf_stackedRegisters f) (SetCFM (cf_cfm f) s)"

definition saveCallFrame :: "u64 \<Rightarrow> isa_plugin \<Rightarrow> cpp_error + isa_plugin" where
  "saveCallFrame returnAddress p =
     and_then (snapshot_frame returnAddress (pl_cpu p)) (\<lambda>f. Inr (p\<lparr>pl_callFrameStack := pl_callFrameStack p @ [f]\<rparr>))"

text \<open>The search from the top of the stack; 0 when nothing matches.\<close>

fun match_index :: "call_frame list \<Rightarrow> u64 \<Rightarrow> nat \<Rightarrow> nat" where
  "match_index fs target 0 = 0"
| "match_index fs target (Suc n) = (if cf_returnAddress (fs ! n) = target then n else match_index fs target n)"

definition restoreCallFrame :: "u64 \<Rightarrow> isa_plugin \<Rightarrow> cpp_error + isa_plugin" where
  "restoreCallFrame branchTarget p =
     (let fs = pl_callFrameStack p; i = match_index fs branchTarget (length fs) in
      if i < length fs \<and> cf_returnAddress (fs ! i) = branchTarget
      then
        let f = fs ! i in
        and_then (RewindBSPForReturn (unat (get_bits 7 7 (cf_cfm f))) (pl_cpu p)) (\<lambda>s.
        and_then (put_frame f s) (\<lambda>s'.
          Inr ((set_cpu s' p)\<lparr>pl_completedCallFrames := (pl_completedCallFrames p)(cf_returnAddress f \<mapsto> f),
                 pl_callFrameStack := take i fs\<rparr>)))
      else case pl_completedCallFrames p branchTarget of
        Some f \<Rightarrow> and_then (put_frame f (pl_cpu p)) (\<lambda>s'. Inr (set_cpu s' p))
      | None \<Rightarrow> Inr p)"

subsection \<open>Calls\<close>

definition pl_captureCallOutputRegisters :: "isa_plugin \<Rightarrow> cpp_error + isa_plugin" where
  "pl_captureCallOutputRegisters p =
     (let p0 = p\<lparr>pl_pendingCallInputs := []\<rparr>; s = pl_cpu p; sof = GetSOF s; sol = GetSOL s in
      if sof \<le> sol then Inr p0
      else
        and_then (read_grs_at s (takeWhile (\<lambda>i. i < NUM_GENERAL_REGISTERS) [32 + sol ..< 32 + sol + (sof - sol)])) (\<lambda>vs.
        and_then (write_stacked (replicate (NUM_GENERAL_REGISTERS - NUM_STATIC_GR) 0) s) (\<lambda>s1.
        and_then (write_stacked vs s1) (\<lambda>s2. Inr (set_cpu s2 (p0\<lparr>pl_pendingCallInputs := vs\<rparr>))))))"

definition pl_applyPendingCallInputRegisters :: "isa_plugin \<Rightarrow> cpp_error + isa_plugin" where
  "pl_applyPendingCallInputRegisters p =
     (if pl_pendingCallInputs p = [] then Inr p
      else and_then (write_stacked (pl_pendingCallInputs p) (pl_cpu p)) (\<lambda>s.
             Inr ((set_cpu s p)\<lparr>pl_pendingCallInputs := []\<rparr>)))"

text \<open>What a taken \<open>br.call\<close> to guest code does before control is transferred.\<close>

definition enter_call :: "isa_plugin \<Rightarrow> cpp_error + isa_plugin" where
  "enter_call p =
     and_then (saveCallFrame (cpu_ip (pl_cpu p) + 16) p) (\<lambda>p1.
     and_then (pl_captureCallOutputRegisters p1) (\<lambda>p2.
       let s = pl_cpu p2; callerCfm = cpu_cfm s;
           callerOutputCount = (if GetSOF s > GetSOL s then GetSOF s - GetSOL s else 0)
       in and_then (AdvanceBSPForCall s) (\<lambda>s1.
          and_then (SetAR 64 callerCfm s1) (\<lambda>s2.
            Inr (set_cpu (SetCFM (of_nat callerOutputCount) s2) p2)))))"

definition rememberBranchTarget :: "u64 \<Rightarrow> isa_plugin \<Rightarrow> isa_plugin" where
  "rememberBranchTarget target p =
     (let ts = pl_lastBranchTargets p @ [target] in p\<lparr>pl_lastBranchTargets := (if length ts > 5 then drop 1 ts else ts)\<rparr>)"

subsection \<open>Entry to an interrupt handler\<close>

definition handler_base :: "isa_plugin \<Rightarrow> u64" where
  "handler_base p = (if cr IA64_CR_IVA p \<noteq> 0 then cr IA64_CR_IVA p else is_interruptVectorBase (pl_state p))"

definition interrupt_psr :: "u64 \<Rightarrow> u64" where
  "interrupt_psr w = w AND NOT (IA64_PSR_I OR IA64_PSR_BN_MASK)"

definition enter_interrupt :: "nat \<Rightarrow> isa_plugin \<Rightarrow> cpp_error + isa_plugin" where
  "enter_interrupt pendingIndex p =
     (let vector = pl_pending p ! pendingIndex;
          p1 = p\<lparr>pl_interruptInService := True, pl_inServiceVector := vector\<rparr>;
          p2 = put_cr IA64_CR_IIP (cpu_ip (pl_cpu p1)) p1;
          p3 = put_cr IA64_CR_IPSR (cpu_psr (pl_cpu p2)) p2;
          p4 = set_cpu (SetPSR (interrupt_psr (cpu_psr (pl_cpu p3))) (pl_cpu p3)) p3;
          handlerAddress = normalizeKernelEntryIP (handler_base p4 + ia64IvtEntryOffset IA64_EXTERNAL_INTERRUPT_VECTOR)
      in and_then (snapshot_frame (cr IA64_CR_IIP p4) (pl_cpu p4)) (\<lambda>f.
           Inr (telemetry (\<lambda>t. t\<lparr>it_interruptEntries := it_interruptEntries t + 1,
                    it_deliveredVectorHistogram := bump (unat vector) (it_deliveredVectorHistogram t)\<rparr>)
                 (on_state_of (\<lambda>st. st\<lparr>is_cpu := SetIP handlerAddress (is_cpu st), is_bundleValid := False, is_currentSlot := 0\<rparr>)
                   (p4\<lparr>pl_interruptFrameStack := pl_interruptFrameStack p4 @ [f]\<rparr>)))))"

definition pl_servicePendingInterrupt :: "isa_plugin \<Rightarrow> cpp_error + bool \<times> isa_plugin" where
  "pl_servicePendingInterrupt p =
     (if pl_interruptInService p \<or> \<not> pl_hasPendingInterrupt p then Inr (False, p)
      else if \<not> pl_areInterruptsEnabled p
      then Inr (False, telemetry (\<lambda>t. t\<lparr>it_blockedByPsr := it_blockedByPsr t + 1\<rparr>) p)
      else case findHighestEligibleInterrupt p of
        None \<Rightarrow> Inr (False, telemetry (\<lambda>t. t\<lparr>it_blockedByTpr := it_blockedByTpr t + 1\<rparr>) p)
      | Some i \<Rightarrow> and_then (enter_interrupt i p) (\<lambda>p'. Inr (True, p')))"

subsection \<open>Entry to a translation-fault handler\<close>

primrec read_prs :: "cpu_state \<Rightarrow> nat list \<Rightarrow> cpp_error + bool list" where
  "read_prs s [] = Inr []"
| "read_prs s (i # is) = and_then (GetPR s i) (\<lambda>v. and_then (read_prs s is) (\<lambda>vs. Inr (v # vs)))"

definition capturePredicateGroupSnapshot :: "isa_plugin \<Rightarrow> cpp_error + isa_plugin" where
  "capturePredicateGroupSnapshot p =
     and_then (read_prs (pl_cpu p) [0..<NUM_PREDICATE_REGISTERS]) (\<lambda>ps.
       Inr (on_state_of (\<lambda>st. st\<lparr>is_predicateGroupSnapshot := ps\<rparr>) p))"

definition fault_isr :: "access_type \<Rightarrow> u64" where
  "fault_isr a = (case a of ACC_READ \<Rightarrow> push_bit 34 1 | ACC_WRITE \<Rightarrow> push_bit 33 1 | ACC_EXECUTE \<Rightarrow> push_bit 32 1
                          | ACC_NON_ACCESS \<Rightarrow> push_bit 35 1)"

definition collect_fault :: "translation_fault \<Rightarrow> isa_plugin \<Rightarrow> isa_plugin" where
  "collect_fault f p =
     (let s = pl_cpu p;
          faultingInstructionIP = canonicalizeKernelInstructionPointer (cpu_ip s) AND NOT 0xF;
          rr = cpu_rr s ! unat (get_bits 61 3 (tf_virtualAddress f))
      in put_cr 25 (tf_hashAddress f)
        (put_cr 21 (push_bit 8 (get_bits 8 24 rr) OR push_bit 2 (get_bits 2 6 rr))
        (put_cr 20 (tf_virtualAddress f)
        (put_cr 17 (fault_isr (tf_accessType f))
        (put_cr 16 (cpu_psr s) (put_cr 19 faultingInstructionIP p))))))"

definition fault_psr :: "u64 \<Rightarrow> u64" where
  "fault_psr w = w AND NOT (push_bit 13 1 OR push_bit 14 1 OR push_bit 41 3 OR IA64_PSR_BN_MASK)"

definition deliver_translation_fault :: "translation_fault \<Rightarrow> isa_plugin \<Rightarrow> cpp_error + isa_plugin" where
  "deliver_translation_fault f p =
     (let interruptedPsr = cpu_psr (pl_cpu p);
          p1 = (if tf_kind f = NESTED_TLB_MISS then p else collect_fault f p);
          p2 = set_cpu (SetPSR (fault_psr interruptedPsr) (pl_cpu p1)) p1;
          rawHandler = normalizeKernelEntryIP (handler_base p2 + tf_vectorOffset f)
      in capturePredicateGroupSnapshot
           (on_state_of (\<lambda>st. st\<lparr>is_cpu := SetIP rawHandler (is_cpu st), is_currentSlot := 0, is_bundleValid := False\<rparr>) p2))"

subsection \<open>Return from an interruption\<close>

text \<open>What \<open>execute\<close> does for \<open>rfi\<close>: the instruction itself, the frame of the last interrupt if there is one, the
  normalised instruction pointer and the restored slot.\<close>

definition resume :: "u64 \<Rightarrow> isa_plugin \<Rightarrow> cpp_error + isa_plugin" where
  "resume restoredPSR p =
     (let fs = pl_interruptFrameStack p in
      and_then (if fs = [] then Inr p
                else and_then (put_frame (last fs) (pl_cpu p)) (\<lambda>s. Inr ((set_cpu s p)\<lparr>pl_interruptFrameStack := butlast fs\<rparr>)))
        (\<lambda>p1. capturePredicateGroupSnapshot
          (on_state_of (\<lambda>st. st\<lparr>is_cpu := SetIP (normalizeRfiEntryIP (cpu_ip (is_cpu st))) (is_cpu st),
              is_currentSlot := unat (get_bits 41 2 restoredPSR), is_bundleValid := False\<rparr>) p1)))"

definition pl_rfi :: "'f host_float \<Rightarrow> instruction \<Rightarrow> isa_plugin \<times> memory \<Rightarrow> (translation_error + isa_plugin \<times> memory) option" where
  "pl_rfi h i = (\<lambda>(p, m).
     let restoredPSR = cr IA64_CR_IPSR p in
     case Execute h True i (pl_cpu p, m) of
       None \<Rightarrow> None
     | Some (Inl e, _) \<Rightarrow> Some (Inl e)
     | Some (Inr _, s, m') \<Rightarrow>
         Some (and_then (lift_cpp (resume restoredPSR (set_cpu s p))) (\<lambda>p'. Inr (p', m'))))"

subsection \<open>Reset and replacement of the state\<close>

definition pl_setState :: "isa_state \<Rightarrow> isa_plugin \<Rightarrow> isa_plugin" where
  "pl_setState st p = p\<lparr>pl_state := st, pl_interruptInService := False, pl_inServiceVector := IA64_SPURIOUS_INT_VECTOR,
     pl_timerCompareLatched := False, pl_intervalTimerConfigured := False, pl_telemetry := IA64InterruptTelemetry,
     pl_lastTransaction := (pl_lastTransaction p)\<lparr>lt_valid := False\<rparr>, pl_pendingCallInputs := [], pl_callFrameStack := [],
     pl_completedCallFrames := (\<lambda>_. None), pl_interruptFrameStack := [], pl_lastBranchTargets := []\<rparr>"

definition pl_reset :: "isa_plugin \<Rightarrow> isa_plugin" where
  "pl_reset p = pl_setState IA64ISAState p"

end
