(* ===== verification/Plugin_Props.thy ===== *)
theory Plugin_Props
  imports Plugin_Frames Cpu_Core_Control "HOL-Library.Multiset"
begin

text \<open>
  Properties of the plugin's interrupt controller and frames: the order in which pending vectors are delivered, the
  timer, entry to a handler and the return from it, what a fault inside a handler does to the frames, and calls with
  their returns.
\<close>

lemmas plugin_defs = on_state_of_def set_cpu_def set_pending_def telemetry_def put_cr_def cr_def itc_def

subsection \<open>The highest eligible vector\<close>

definition is_best :: "(u8 \<Rightarrow> bool) \<Rightarrow> u8 list \<Rightarrow> nat \<Rightarrow> bool" where
  "is_best E vs j \<longleftrightarrow> j < length vs \<and> E (vs ! j) \<and> (\<forall>v \<in> set vs. E v \<longrightarrow> v \<le> vs ! j)"

lemma highest_loop_some:
  "\<exists>r. highest_loop E vs k (Some b) bv = Some r \<and>
     ((r = b \<and> (\<forall>v \<in> set vs. E v \<longrightarrow> v \<le> bv)) \<or> (\<exists>j. r = k + j \<and> is_best E vs j \<and> bv < vs ! j))"
proof (induction vs arbitrary: k b bv)
  case (Cons v vs)
  show ?case
  proof (cases "E v \<and> v > bv")
    case True
    from Cons.IH [of "Suc k" k v] obtain r where r: "highest_loop E vs (Suc k) (Some k) v = Some r"
      "(r = k \<and> (\<forall>x \<in> set vs. E x \<longrightarrow> x \<le> v)) \<or> (\<exists>j. r = Suc k + j \<and> is_best E vs j \<and> v < vs ! j)" by blast
    from r(2) have "\<exists>j. r = k + j \<and> is_best E (v # vs) j \<and> bv < (v # vs) ! j"
    proof
      assume "r = k \<and> (\<forall>x \<in> set vs. E x \<longrightarrow> x \<le> v)"
      then show ?thesis using True by (intro exI [of _ 0]) (simp add: is_best_def)
    next
      assume "\<exists>j. r = Suc k + j \<and> is_best E vs j \<and> v < vs ! j"
      then obtain j where "r = Suc k + j" "is_best E vs j" "v < vs ! j" by blast
      then show ?thesis using True by (intro exI [of _ "Suc j"]) (auto simp: is_best_def)
    qed
    then show ?thesis using r(1) True by auto
  next
    case False
    from Cons.IH [of "Suc k" b bv] obtain r where r: "highest_loop E vs (Suc k) (Some b) bv = Some r"
      "(r = b \<and> (\<forall>x \<in> set vs. E x \<longrightarrow> x \<le> bv)) \<or> (\<exists>j. r = Suc k + j \<and> is_best E vs j \<and> bv < vs ! j)" by blast
    have "(r = b \<and> (\<forall>x \<in> set (v # vs). E x \<longrightarrow> x \<le> bv)) \<or> (\<exists>j. r = k + j \<and> is_best E (v # vs) j \<and> bv < (v # vs) ! j)"
      using r(2)
    proof
      assume "r = b \<and> (\<forall>x \<in> set vs. E x \<longrightarrow> x \<le> bv)"
      then show ?thesis using False by auto
    next
      assume "\<exists>j. r = Suc k + j \<and> is_best E vs j \<and> bv < vs ! j"
      then obtain j where "r = Suc k + j" "is_best E vs j" "bv < vs ! j" by blast
      then have "r = k + Suc j \<and> is_best E (v # vs) (Suc j) \<and> bv < (v # vs) ! Suc j"
        using False by (auto simp: is_best_def)
      then show ?thesis by blast
    qed
    then show ?thesis using r(1) False by auto
  qed
qed simp

lemma highest_loop_none:
  "case highest_loop E vs k None bv of
     None \<Rightarrow> \<forall>v \<in> set vs. \<not> E v
   | Some r \<Rightarrow> \<exists>j. r = k + j \<and> is_best E vs j"
proof (induction vs arbitrary: k bv)
  case (Cons v vs)
  show ?case
  proof (cases "E v")
    case True
    from highest_loop_some [of E vs "Suc k" k v] obtain r where r: "highest_loop E vs (Suc k) (Some k) v = Some r"
      "(r = k \<and> (\<forall>x \<in> set vs. E x \<longrightarrow> x \<le> v)) \<or> (\<exists>j. r = Suc k + j \<and> is_best E vs j \<and> v < vs ! j)" by blast
    from r(2) have "\<exists>j. r = k + j \<and> is_best E (v # vs) j"
    proof
      assume "r = k \<and> (\<forall>x \<in> set vs. E x \<longrightarrow> x \<le> v)"
      then show ?thesis using True by (intro exI [of _ 0]) (simp add: is_best_def)
    next
      assume "\<exists>j. r = Suc k + j \<and> is_best E vs j \<and> v < vs ! j"
      then obtain j where "r = Suc k + j" "is_best E vs j" "v < vs ! j" by blast
      then show ?thesis by (intro exI [of _ "Suc j"]) (auto simp: is_best_def)
    qed
    then show ?thesis using r(1) True by simp
  next
    case False
    from Cons.IH [of "Suc k" bv] show ?thesis
    proof (cases "highest_loop E vs (Suc k) None bv")
      case None
      then show ?thesis using Cons.IH [of "Suc k" bv] False by simp
    next
      case (Some r)
      then obtain j where "r = Suc k + j" "is_best E vs j" using Cons.IH [of "Suc k" bv] by auto
      then have "r = k + Suc j" "is_best E (v # vs) (Suc j)" using False by (auto simp: is_best_def)
      then show ?thesis using Some False by auto
    qed
  qed
qed simp

lemma find_best:
  assumes "findHighestEligibleInterrupt p = Some i"
  shows "is_best (\<lambda>v. isInterruptEligible v p) (pl_pending p) i"
  using highest_loop_none [where E = "\<lambda>v. isInterruptEligible v p" and vs = "pl_pending p" and k = 0 and bv = IA64_SPURIOUS_INT_VECTOR] assms
  by (simp add: findHighestEligibleInterrupt_def)

lemma find_none_iff: "findHighestEligibleInterrupt p = None \<longleftrightarrow> filter (\<lambda>v. isInterruptEligible v p) (pl_pending p) = []"
proof
  assume "findHighestEligibleInterrupt p = None"
  then show "filter (\<lambda>v. isInterruptEligible v p) (pl_pending p) = []"
    using highest_loop_none [where E = "\<lambda>v. isInterruptEligible v p" and vs = "pl_pending p" and k = 0 and bv = IA64_SPURIOUS_INT_VECTOR]
    by (auto simp: findHighestEligibleInterrupt_def filter_empty_conv)
next
  assume e: "filter (\<lambda>v. isInterruptEligible v p) (pl_pending p) = []"
  show "findHighestEligibleInterrupt p = None"
  proof (cases "findHighestEligibleInterrupt p")
    case (Some i)
    then show ?thesis using find_best [OF Some] e by (auto simp: is_best_def filter_empty_conv)
  qed
qed

subsection \<open>Delivery order\<close>

text \<open>The handler's loop: read \<open>CR.IVR\<close>, serve, write \<open>CR.EOI\<close>.\<close>

primrec serve :: "nat \<Rightarrow> isa_plugin \<Rightarrow> (cpp_error + u64) list \<times> isa_plugin" where
  "serve 0 p = ([], p)"
| "serve (Suc n) p =
     (let (r, p1) = readControlRegister IA64_CR_IVR p;
          (_, p2) = writeControlRegister IA64_CR_EOI 0 p1;
          (rs, p3) = serve n p2
      in (r # rs, p3))"

definition delivery_order :: "isa_plugin \<Rightarrow> u8 list" where
  "delivery_order p = rev (sort (filter (\<lambda>v. isInterruptEligible v p) (pl_pending p)))"

lemma rev_sort_best:
  fixes vs :: "u8 list"
  assumes "is_best E vs j"
  shows "rev (sort (filter E vs)) = vs ! j # rev (sort (filter E (take j vs @ drop (Suc j) vs)))"
proof -
  let ?r = "filter E (take j vs @ drop (Suc j) vs)"
  have j: "j < length vs" "E (vs ! j)" "\<forall>v \<in> set vs. E v \<longrightarrow> v \<le> vs ! j" using assms by (simp_all add: is_best_def)
  have "mset (filter E vs) = mset (filter E (take j vs @ vs ! j # drop (Suc j) vs))"
    by (simp only: id_take_nth_drop [OF j(1), symmetric])
  then have m: "mset (filter E vs) = add_mset (vs ! j) (mset ?r)" by (simp add: j(2))
  have "sorted (sort ?r @ [vs ! j])"
    using j(3) by (auto simp: sorted_append dest!: in_set_takeD in_set_dropD)
  then have "sort (filter E vs) = sort ?r @ [vs ! j]"
    by (intro properties_for_sort) (simp_all add: m [simplified])
  then show ?thesis by simp
qed

lemma eligible_cong: "cr IA64_CR_TPR p = cr IA64_CR_TPR q \<Longrightarrow> isInterruptEligible v p = isInterruptEligible v q"
  by (simp add: isInterruptEligible_def)

lemma write_eoi_simps [simp]:
  "pl_state (write_eoi p) = pl_state p" "\<not> pl_interruptInService (write_eoi p)"
  "pl_interruptFrameStack (write_eoi p) = pl_interruptFrameStack p"
  by (simp_all add: write_eoi_def Let_def telemetry_def)

lemma note_simps [simp]:
  "pl_state (noteInterruptTransaction v p) = pl_state p"
  "pl_interruptInService (noteInterruptTransaction v p) = pl_interruptInService p"
  "pl_inServiceVector (noteInterruptTransaction v p) = pl_inServiceVector p"
  "pl_state (count_vector_read v p) = pl_state p"
  "pl_interruptInService (count_vector_read v p) = pl_interruptInService p"
  "pl_inServiceVector (count_vector_read v p) = pl_inServiceVector p"
  "pl_state (telemetry f p) = pl_state p" "pl_interruptInService (telemetry f p) = pl_interruptInService p"
  "pl_inServiceVector (telemetry f p) = pl_inServiceVector p"
  by (simp_all add: noteInterruptTransaction_def count_vector_read_def telemetry_def Let_def)

lemma state_only:
  assumes "pl_state p = pl_state q"
  shows "cr i p = cr i q" "isInterruptEligible v p = isInterruptEligible v q"
    "findHighestEligibleInterrupt p = findHighestEligibleInterrupt q" "delivery_order p = delivery_order q"
    "pl_areInterruptsEnabled p = pl_areInterruptsEnabled q" "pl_hasPendingInterrupt p = pl_hasPendingInterrupt q"
    "handler_base p = handler_base q" "itc p = itc q"
  using assms by (simp_all add: cr_def isInterruptEligible_def findHighestEligibleInterrupt_def delivery_order_def
    pl_areInterruptsEnabled_def pl_hasPendingInterrupt_def handler_base_def itc_def)

lemma read_ivr_idle:
  assumes "\<not> pl_interruptInService p"
  shows "case findHighestEligibleInterrupt p of
     None \<Rightarrow> fst (read_ivr p) = IA64_SPURIOUS_INT_VECTOR \<and> pl_state (snd (read_ivr p)) = pl_state p
   | Some i \<Rightarrow> fst (read_ivr p) = pl_pending p ! i \<and>
       pl_state (snd (read_ivr p)) = (pl_state p)\<lparr>is_pendingInterrupts := take i (pl_pending p) @ drop (Suc i) (pl_pending p)\<rparr>"
  using assms state_only(3) [of "telemetry (\<lambda>t. t\<lparr>it_ivrReads := it_ivrReads t + 1\<rparr>) p" p]
  by (auto simp: read_ivr_def take_vector_def Let_def on_state_of_def set_pending_def split: option.splits prod.splits)

definition after_serve :: "isa_plugin \<Rightarrow> u8 list \<Rightarrow> isa_state" where
  "after_serve p vs = (pl_state p)\<lparr>is_cpu := (pl_cpu p)\<lparr>cpu_cr := (cpu_cr (pl_cpu p))[67 := 0]\<rparr>, is_pendingInterrupts := vs\<rparr>"

lemma serve_one:
  assumes "\<not> pl_interruptInService p"
  shows "\<exists>v q. serve (Suc n) p = (Inr (ucast v) # fst (serve n q), snd (serve n q)) \<and> \<not> pl_interruptInService q \<and>
    (case findHighestEligibleInterrupt p of
       None \<Rightarrow> v = IA64_SPURIOUS_INT_VECTOR \<and> pl_state q = after_serve p (pl_pending p)
     | Some i \<Rightarrow> v = pl_pending p ! i \<and> pl_state q = after_serve p (take i (pl_pending p) @ drop (Suc i) (pl_pending p)))"
proof -
  let ?p0 = "telemetry (\<lambda>t. t\<lparr>it_readHistogram := bump 65 (it_readHistogram t)\<rparr>) p"
  let ?v = "fst (read_ivr ?p0)" and ?p1 = "snd (read_ivr ?p0)"
  let ?q = "write_eoi (put_cr 67 0 (telemetry (\<lambda>t. t\<lparr>it_writeHistogram := bump 67 (it_writeHistogram t)\<rparr>) ?p1))"
  have r: "readControlRegister 65 p = (Inr (ucast ?v), ?p1)"
    by (simp add: readControlRegister_def isIA64IrrSelector_def split: prod.splits)
  have w: "writeControlRegister 67 0 ?p1 = (Inr (), ?q)"
    by (simp add: writeControlRegister_def isIA64IrrSelector_def Let_def)
  have i: "\<not> pl_interruptInService ?p0" using assms by simp
  have f: "findHighestEligibleInterrupt ?p0 = findHighestEligibleInterrupt p" by (rule state_only) simp
  have "serve (Suc n) p = (Inr (ucast ?v) # fst (serve n ?q), snd (serve n ?q))"
    by (simp add: r w split: prod.splits)
  moreover have "case findHighestEligibleInterrupt p of
       None \<Rightarrow> ?v = IA64_SPURIOUS_INT_VECTOR \<and> pl_state ?q = after_serve p (pl_pending p)
     | Some i \<Rightarrow> ?v = pl_pending p ! i \<and> pl_state ?q = after_serve p (take i (pl_pending p) @ drop (Suc i) (pl_pending p))"
    using read_ivr_idle [OF i] unfolding f
    by (auto simp: put_cr_def set_cpu_def on_state_of_def after_serve_def split: option.splits)
  ultimately show ?thesis by (intro exI [of _ ?v] exI [of _ ?q]) simp
qed

lemma delivery_order_after:
  assumes "pl_state q = after_serve p vs" "66 < length (cpu_cr (pl_cpu p))"
  shows "delivery_order q = rev (sort (filter (\<lambda>v. isInterruptEligible v p) vs))"
proof -
  have "isInterruptEligible v q = isInterruptEligible v p" for v
    by (simp add: isInterruptEligible_def cr_def assms(1) after_serve_def)
  then show ?thesis by (simp add: delivery_order_def assms(1) after_serve_def)
qed

text \<open>While no vector is in service.\<close>

lemma idle_order:
  assumes "\<not> pl_interruptInService p" "length (cpu_cr (pl_cpu p)) = NUM_CONTROL_REGISTERS"
  shows "fst (serve n p) =
    take n (map (\<lambda>v. Inr (ucast v)) (delivery_order p) @ replicate n (Inr (ucast IA64_SPURIOUS_INT_VECTOR)))"
  using assms
proof (induction n arbitrary: p)
  case (Suc n)
  from serve_one [OF Suc.prems(1), of n] obtain v q where q:
    "serve (Suc n) p = (Inr (ucast v) # fst (serve n q), snd (serve n q))" "\<not> pl_interruptInService q"
    "case findHighestEligibleInterrupt p of
       None \<Rightarrow> v = IA64_SPURIOUS_INT_VECTOR \<and> pl_state q = after_serve p (pl_pending p)
     | Some i \<Rightarrow> v = pl_pending p ! i \<and> pl_state q = after_serve p (take i (pl_pending p) @ drop (Suc i) (pl_pending p))"
    by blast
  have len: "length (cpu_cr (pl_cpu q)) = NUM_CONTROL_REGISTERS"
    using q(3) Suc.prems(2) by (auto simp: after_serve_def split: option.splits)
  note IH = Suc.IH [OF q(2) len]
  show ?case
  proof (cases "findHighestEligibleInterrupt p")
    case None
    then have e: "filter (\<lambda>v. isInterruptEligible v p) (pl_pending p) = []" by (simp add: find_none_iff)
    have "delivery_order q = []"
      using q(3) None e Suc.prems(2) by (subst delivery_order_after [of q p "pl_pending p"]) simp_all
    moreover have "delivery_order p = []" by (simp add: delivery_order_def e)
    ultimately show ?thesis using q None IH by simp
  next
    case (Some i)
    let ?vs = "take i (pl_pending p) @ drop (Suc i) (pl_pending p)"
    have "delivery_order p = v # delivery_order q"
      using q(3) Some Suc.prems(2) rev_sort_best [OF find_best [OF Some]]
      by (subst delivery_order_after [of q p ?vs]) (simp_all add: delivery_order_def)
    then show ?thesis using q(1) IH by (simp add: take_replicate [symmetric] replicate_append_same [symmetric] del: replicate.simps)
  qed
qed simp

text \<open>While one is: the read names it again and takes one of its copies off the queue, the write ends its service.\<close>

lemma serve_in_service:
  assumes "pl_interruptInService p"
  shows "\<exists>q. serve (Suc n) p = (Inr (ucast (pl_inServiceVector p)) # fst (serve n q), snd (serve n q)) \<and>
    \<not> pl_interruptInService q \<and> pl_state q = after_serve p (remove1 (pl_inServiceVector p) (pl_pending p))"
proof -
  let ?p0 = "telemetry (\<lambda>t. t\<lparr>it_readHistogram := bump 65 (it_readHistogram t)\<rparr>) p"
  let ?p1 = "snd (read_ivr ?p0)"
  let ?q = "write_eoi (put_cr 67 0 (telemetry (\<lambda>t. t\<lparr>it_writeHistogram := bump 67 (it_writeHistogram t)\<rparr>) ?p1))"
  have v: "fst (read_ivr ?p0) = pl_inServiceVector p"
    using assms by (simp add: read_ivr_def take_vector_def Let_def)
  have r: "readControlRegister 65 p = (Inr (ucast (pl_inServiceVector p)), ?p1)"
    by (simp add: readControlRegister_def isIA64IrrSelector_def v [symmetric] split: prod.splits)
  have w: "writeControlRegister 67 0 ?p1 = (Inr (), ?q)"
    by (simp add: writeControlRegister_def isIA64IrrSelector_def Let_def)
  have "serve (Suc n) p = (Inr (ucast (pl_inServiceVector p)) # fst (serve n ?q), snd (serve n ?q))"
    by (simp add: r w split: prod.splits)
  moreover have "pl_state ?q = after_serve p (remove1 (pl_inServiceVector p) (pl_pending p))"
    using assms by (simp add: read_ivr_def take_vector_def Let_def put_cr_def set_cpu_def set_pending_def on_state_of_def
        after_serve_def)
  ultimately show ?thesis by (intro exI [of _ ?q]) simp
qed

text \<open>C17: repeated reads of \<open>CR.IVR\<close>, each followed by a write of \<open>CR.EOI\<close>, return first the vector that is in service,
  if one is (taking one pending copy of it off the queue), then the pending vectors whose priority class exceeds that of
  \<open>CR.TPR\<close>, each as often as it was queued and in descending order, and the spurious vector from then on. The array of
  control registers has its 128 entries.\<close>

theorem interrupts_by_priority:
  assumes "length (cpu_cr (pl_cpu p)) = NUM_CONTROL_REGISTERS"
  shows "fst (serve n p) =
    take n (map (\<lambda>v. Inr (ucast v))
       (if pl_interruptInService p
        then pl_inServiceVector p #
          rev (sort (filter (\<lambda>v. isInterruptEligible v p) (remove1 (pl_inServiceVector p) (pl_pending p))))
        else rev (sort (filter (\<lambda>v. isInterruptEligible v p) (pl_pending p)))) @
      replicate n (Inr (ucast IA64_SPURIOUS_INT_VECTOR)))"
proof (cases "pl_interruptInService p")
  case False
  then show ?thesis using idle_order [OF _ assms] by (simp add: delivery_order_def)
next
  case True
  show ?thesis
  proof (cases n)
    case (Suc k)
    obtain q where q: "serve n p = (Inr (ucast (pl_inServiceVector p)) # fst (serve k q), snd (serve k q))"
      "\<not> pl_interruptInService q" "pl_state q = after_serve p (remove1 (pl_inServiceVector p) (pl_pending p))"
      using serve_in_service [OF True, of k] Suc by blast
    have "length (cpu_cr (pl_cpu q)) = NUM_CONTROL_REGISTERS" using q(3) assms by (simp add: after_serve_def)
    then show ?thesis
      using True q(1) Suc idle_order [OF q(2)] delivery_order_after [OF q(3)] assms
      by (simp add: take_replicate [symmetric] replicate_append_same [symmetric] del: replicate.simps)
  qed simp
qed

definition demo_plugin :: "u8 list \<Rightarrow> u64 \<Rightarrow> isa_plugin" where
  "demo_plugin pending tpr = put_cr IA64_CR_TPR tpr (set_pending pending IA64ISAPlugin)"

text \<open>Four vectors queued, vector 0x50 already in service, priority classes up to 2 masked.\<close>

theorem interrupts_by_priority_witness:
  "fst (serve 4 ((demo_plugin [0x31, 0x50, 0x22, 0x31] 0x20)\<lparr>pl_interruptInService := True, pl_inServiceVector := 0x50\<rparr>)) =
     [Inr 0x50, Inr 0x31, Inr 0x31, Inr 0xF]"
proof -
  let ?p = "(demo_plugin [0x31, 0x50, 0x22, 0x31] 0x20)\<lparr>pl_interruptInService := True, pl_inServiceVector := 0x50\<rparr>"
  have d: "rev (sort (filter (\<lambda>v. isInterruptEligible v ?p) (remove1 0x50 (pl_pending ?p)))) = [0x31, 0x31]" by code_simp
  have h: "length (cpu_cr (pl_cpu ?p)) = NUM_CONTROL_REGISTERS" "pl_interruptInService ?p" "pl_inServiceVector ?p = 0x50"
    by (simp_all add: demo_plugin_def plugin_defs IA64ISAPlugin_def IA64ISAState_def Reset_def)
  show ?thesis
    unfolding interrupts_by_priority [OF h(1)] h(3) if_P [OF h(2)] d by code_simp
qed

subsection \<open>Frames\<close>

text \<open>The logical view of the stacked registers.\<close>

definition view :: "cpu_state \<Rightarrow> u64 list" where
  "view s = map (\<lambda>i. cpu_gr s ! MapGR s i) stacked"

lemma in_stacked [simp]: "i \<in> set stacked \<longleftrightarrow> 32 \<le> i \<and> i < 128" unfolding stacked_def set_upt by simp
lemma length_stacked [simp]: "length stacked = 96" unfolding stacked_def length_upt by simp
lemma length_view [simp]: "length (view s) = 96" by (simp add: view_def)

lemma GetGR_ok: "cpu_shape s \<Longrightarrow> frame_ok s \<Longrightarrow> 0 < i \<Longrightarrow> i < 128 \<Longrightarrow> GetGR s i = Inr (cpu_gr s ! MapGR s i)"
  using MapGR_less [of s i] by (simp add: GetGR_def)

lemma read_grs_at_ok:
  "cpu_shape s \<Longrightarrow> frame_ok s \<Longrightarrow> \<forall>i \<in> set is. 0 < i \<and> i < 128 \<Longrightarrow> read_grs_at s is = Inr (map (\<lambda>i. cpu_gr s ! MapGR s i) is)"
  by (induction "is") (simp_all add: GetGR_ok)

lemma snapshot_frame_ok:
  "cpu_shape s \<Longrightarrow> frame_ok s \<Longrightarrow> snapshot_frame a s = Inr \<lparr>cf_stackedRegisters = view s, cf_cfm = cpu_cfm s, cf_returnAddress = a\<rparr>"
  by (simp add: snapshot_frame_def read_grs_at_ok view_def)

text \<open>Writing a list of values to the stacked registers and reading the view back.\<close>

lemma apply_loop_frame:
  assumes "cpu_shape s" "frame_ok s" "32 + i + length vs \<le> 128"
  shows "\<exists>g n. apply_loop vs i s = (Inr (), s\<lparr>cpu_gr := g, cpu_gr_nat := n\<rparr>) \<and> cpu_shape (s\<lparr>cpu_gr := g, cpu_gr_nat := n\<rparr>) \<and>
    (\<forall>j < length vs. g ! MapGR s (32 + i + j) = vs ! j) \<and>
    (\<forall>k < 144. (\<forall>j < length vs. k \<noteq> MapGR s (32 + i + j)) \<longrightarrow> g ! k = cpu_gr s ! k)"
  using assms
proof (induction vs arbitrary: i s)
  case Nil
  then show ?case by (intro exI [of _ "cpu_gr s"] exI [of _ "cpu_gr_nat s"]) simp
next
  case (Cons v vs)
  let ?p = "MapGR s (32 + i)"
  let ?s = "s\<lparr>cpu_gr := (cpu_gr s)[?p := v], cpu_gr_nat := (cpu_gr_nat s)[?p := False]\<rparr>"
  have p: "?p < 144" "0 < ?p" using Cons.prems MapGR_less [of s "32 + i"] MapGR_nonzero [of "32 + i" s] by simp_all
  have set: "SetGR (32 + i) v s = Inr ?s"
    using p Cons.prems by (simp add: SetGR_def Let_def)
  have sh: "cpu_shape ?s" "frame_ok ?s" using Cons.prems p by (simp_all add: cpu_shape_set_gr)
  have map: "MapGR ?s = MapGR s" by (rule Map_cong(4)) simp_all
  from Cons.IH [OF sh, of "Suc i"] Cons.prems(3) obtain g n where gn:
    "apply_loop vs (Suc i) ?s = (Inr (), ?s\<lparr>cpu_gr := g, cpu_gr_nat := n\<rparr>)" "cpu_shape (?s\<lparr>cpu_gr := g, cpu_gr_nat := n\<rparr>)"
    "\<forall>j < length vs. g ! MapGR s (32 + Suc i + j) = vs ! j"
    "\<forall>k < 144. (\<forall>j < length vs. k \<noteq> MapGR s (32 + Suc i + j)) \<longrightarrow> g ! k = cpu_gr ?s ! k"
    unfolding map by auto
  have other: "?p \<noteq> MapGR s (32 + Suc i + j)" if "j < length vs" for j
    using MapGR_inj [OF Cons.prems(2), of "32 + i" "32 + Suc i + j"] Cons.prems(3) that by auto
  have g0: "g ! ?p = v" using gn(4) p other Cons.prems(1) by simp
  have "g ! MapGR s (32 + i + j) = (v # vs) ! j" if "j < length (v # vs)" for j
    using that g0 gn(3) [rule_format, of "j - 1"] by (cases j) (simp_all add: add.assoc)
  moreover have "g ! k = cpu_gr s ! k" if "k < 144" "\<forall>j < length (v # vs). k \<noteq> MapGR s (32 + i + j)" for k
  proof -
    have "k \<noteq> ?p" using that(2) [rule_format, of 0] by simp
    moreover have "k \<noteq> MapGR s (32 + Suc i + j)" if "j < length vs" for j
      using \<open>\<forall>j < length (v # vs). k \<noteq> MapGR s (32 + i + j)\<close> [rule_format, of "Suc j"] that
      by (simp add: add.assoc)
    ultimately show ?thesis using gn(4) that(1) by simp
  qed
  ultimately show ?case
    using set gn(1,2) Cons.prems(3) by (intro exI [of _ g] exI [of _ n]) (simp del: cpu_shapeD)
qed

lemma stacked_nth: "j < 96 \<Longrightarrow> stacked ! j = 32 + j"
  unfolding stacked_def by (subst nth_upt) simp_all

lemma write_stacked_ok:
  assumes "cpu_shape s" "frame_ok s" "length vs \<le> 96"
  obtains g n where "write_stacked vs s = Inr (s\<lparr>cpu_gr := g, cpu_gr_nat := n\<rparr>)" "cpu_shape (s\<lparr>cpu_gr := g, cpu_gr_nat := n\<rparr>)"
    "\<And>j. j < length vs \<Longrightarrow> g ! MapGR s (32 + j) = vs ! j"
    "\<And>k. k < 144 \<Longrightarrow> (\<And>j. j < length vs \<Longrightarrow> k \<noteq> MapGR s (32 + j)) \<Longrightarrow> g ! k = cpu_gr s ! k"
proof -
  obtain g n where gn: "apply_loop vs 0 s = (Inr (), s\<lparr>cpu_gr := g, cpu_gr_nat := n\<rparr>)" "cpu_shape (s\<lparr>cpu_gr := g, cpu_gr_nat := n\<rparr>)"
    "\<forall>j < length vs. g ! MapGR s (32 + j) = vs ! j"
    "\<forall>k < 144. (\<forall>j < length vs. k \<noteq> MapGR s (32 + j)) \<longrightarrow> g ! k = cpu_gr s ! k"
    using apply_loop_frame [of s 0 vs] assms by auto
  have "write_stacked vs s = Inr (s\<lparr>cpu_gr := g, cpu_gr_nat := n\<rparr>)" by (simp add: write_stacked_def gn(1))
  then show thesis by (rule that) (use gn(2-4) in blast)+
qed

lemma frame_ok_SetCFM: "frame_ok (SetCFM c s) \<longleftrightarrow> unat (get_bits 14 4 c) \<le> 12"
  by (simp add: frame_ok_def GetSOR_def SetCFM_def)

lemma cpu_shape_SetCFM [simp]: "cpu_shape (SetCFM c s) = cpu_shape s"
  unfolding SetCFM_def cpu_shape_def by simp

text \<open>Putting a snapshot back: its frame marker, and its values as the view of the stacked registers.\<close>

lemma put_frame_ok:
  assumes "cpu_shape s" "unat (get_bits 14 4 (cf_cfm f)) \<le> 12" "length (cf_stackedRegisters f) = 96"
  shows "\<exists>g n. put_frame f s = Inr ((SetCFM (cf_cfm f) s)\<lparr>cpu_gr := g, cpu_gr_nat := n\<rparr>) \<and>
    cpu_shape ((SetCFM (cf_cfm f) s)\<lparr>cpu_gr := g, cpu_gr_nat := n\<rparr>) \<and>
    view ((SetCFM (cf_cfm f) s)\<lparr>cpu_gr := g, cpu_gr_nat := n\<rparr>) = cf_stackedRegisters f"
proof -
  let ?s = "SetCFM (cf_cfm f) s"
  have fo: "frame_ok ?s" using assms(2) by (simp add: frame_ok_SetCFM)
  have sh: "cpu_shape ?s" using assms(1) by simp
  obtain g n where gn:
    "write_stacked (cf_stackedRegisters f) ?s = Inr (?s\<lparr>cpu_gr := g, cpu_gr_nat := n\<rparr>)" "cpu_shape (?s\<lparr>cpu_gr := g, cpu_gr_nat := n\<rparr>)"
    "\<And>j. j < length (cf_stackedRegisters f) \<Longrightarrow> g ! MapGR ?s (32 + j) = cf_stackedRegisters f ! j"
    by (rule write_stacked_ok [OF sh fo eq_refl [OF assms(3)]]) blast
  have v: "view (?s\<lparr>cpu_gr := g, cpu_gr_nat := n\<rparr>) = cf_stackedRegisters f"
  proof (rule nth_equalityI)
    fix j assume j: "j < length (view (?s\<lparr>cpu_gr := g, cpu_gr_nat := n\<rparr>))"
    then have "g ! MapGR ?s (32 + j) = cf_stackedRegisters f ! j" using gn(3) [of j] assms(3) by simp
    then show "view (?s\<lparr>cpu_gr := g, cpu_gr_nat := n\<rparr>) ! j = cf_stackedRegisters f ! j"
      using j by (simp add: view_def stacked_nth)
  qed (use assms(3) in simp)
  show ?thesis unfolding put_frame_def by (rule exI [of _ g], rule exI [of _ n], intro conjI gn(1,2) v)
qed

lemma put_frame_again:
  assumes "snapshot_frame a s = Inr f" "cpu_shape s" "frame_ok s" "cpu_shape t"
  obtains t' where "put_frame f t = Inr t'" "cpu_shape t'" "cpu_cfm t' = cpu_cfm s" "view t' = view s" "frame_ok t'"
    "cpu_ip t' = cpu_ip t" "cpu_psr t' = cpu_psr t" "cpu_cr t' = cpu_cr t" "cpu_ar t' = cpu_ar t"
proof -
  have f: "f = \<lparr>cf_stackedRegisters = view s, cf_cfm = cpu_cfm s, cf_returnAddress = a\<rparr>"
    using snapshot_frame_ok [OF assms(2,3)] assms(1) by simp
  have "unat (get_bits 14 4 (cpu_cfm s)) \<le> 12" using assms(3) by (simp add: frame_ok_def GetSOR_def)
  then obtain g n where "put_frame f t = Inr ((SetCFM (cpu_cfm s) t)\<lparr>cpu_gr := g, cpu_gr_nat := n\<rparr>)"
    "cpu_shape ((SetCFM (cpu_cfm s) t)\<lparr>cpu_gr := g, cpu_gr_nat := n\<rparr>)"
    "view ((SetCFM (cpu_cfm s) t)\<lparr>cpu_gr := g, cpu_gr_nat := n\<rparr>) = view s"
    using put_frame_ok [of t f] assms(4) unfolding f by fastforce
  moreover have "frame_ok ((SetCFM (cpu_cfm s) t)\<lparr>cpu_gr := g, cpu_gr_nat := n\<rparr>)"
    using assms(3) by (simp add: frame_ok_SetCFM) (simp add: frame_ok_def GetSOR_def)
  moreover have "cpu_cfm (SetCFM c t) = c" "cpu_ip (SetCFM c t) = cpu_ip t" "cpu_psr (SetCFM c t) = cpu_psr t"
    "cpu_cr (SetCFM c t) = cpu_cr t" "cpu_ar (SetCFM c t) = cpu_ar t" for c
    by (simp_all add: SetCFM_def)
  ultimately show thesis
    by (intro that [of "(SetCFM (cpu_cfm s) t)\<lparr>cpu_gr := g, cpu_gr_nat := n\<rparr>"]) simp_all
qed

text \<open>The view depends only on the registers, the frame marker and, for the banked registers, not at all.\<close>

lemma MapGR_stacked_cong: "cpu_cfm s = cpu_cfm t \<Longrightarrow> 32 \<le> i \<Longrightarrow> MapGR s i = MapGR t i"
  using frame_fields_cong [of s t] by (simp add: MapGR_def Let_def)

lemma view_cong: "cpu_gr s = cpu_gr t \<Longrightarrow> cpu_cfm s = cpu_cfm t \<Longrightarrow> view s = view t"
  using MapGR_stacked_cong [of s t] by (simp add: view_def)

subsection \<open>Entry to the handler\<close>

lemma delivery_order_hd:
  assumes "findHighestEligibleInterrupt p = Some i"
  shows "delivery_order p \<noteq> [] \<and> hd (delivery_order p) = pl_pending p ! i"
  using rev_sort_best [OF find_best [OF assms]] by (simp add: delivery_order_def)

lemma delivery_order_empty: "delivery_order p = [] \<longleftrightarrow> findHighestEligibleInterrupt p = None"
proof -
  have "length (delivery_order p) = length (filter (\<lambda>v. isInterruptEligible v p) (pl_pending p))" by (simp add: delivery_order_def)
  then show ?thesis by (metis find_none_iff length_0_conv)
qed

definition interrupted_cpu :: "isa_plugin \<Rightarrow> cpu_state" where
  "interrupted_cpu p =
     (let s = pl_cpu p
      in SetIP (normalizeKernelEntryIP (handler_base p + 0x3000))
           (SetPSR (interrupt_psr (cpu_psr s)) (s\<lparr>cpu_cr := (cpu_cr s)[19 := cpu_ip s, 16 := cpu_psr s]\<rparr>)))"

lemma external_vector_offset: "ia64IvtEntryOffset IA64_EXTERNAL_INTERRUPT_VECTOR = 0x3000"
  by (simp add: ia64IvtEntryOffset_def IA64_EXTERNAL_INTERRUPT_VECTOR_def)

lemma set_psr_ip_simps [simp]:
  "cpu_cr (SetPSR w s) = cpu_cr s" "cpu_cfm (SetPSR w s) = cpu_cfm s" "cpu_ip (SetPSR w s) = cpu_ip s" "cpu_gr (SetPSR w s) = cpu_gr s"
  "cpu_psr (SetPSR w s) = w" "cpu_rr (SetPSR w s) = cpu_rr s"
  "cpu_cr (SetIP a s) = cpu_cr s" "cpu_cfm (SetIP a s) = cpu_cfm s" "cpu_ip (SetIP a s) = a" "cpu_gr (SetIP a s) = cpu_gr s"
  "cpu_psr (SetIP a s) = cpu_psr s" "cpu_rr (SetIP a s) = cpu_rr s"
  by (simp_all add: SetPSR_def SetIP_def)

lemma enter_interrupt_ok:
  assumes "cpu_shape (pl_cpu p)" "frame_ok (pl_cpu p)"
  shows "\<exists>p'. enter_interrupt i p = Inr p' \<and> pl_interruptInService p' \<and> pl_inServiceVector p' = pl_pending p ! i \<and>
    pl_state p' = (pl_state p)\<lparr>is_cpu := interrupted_cpu p, is_bundleValid := False, is_currentSlot := 0\<rparr> \<and>
    pl_interruptFrameStack p' = pl_interruptFrameStack p @
      [\<lparr>cf_stackedRegisters = view (pl_cpu p), cf_cfm = cpu_cfm (pl_cpu p), cf_returnAddress = cpu_ip (pl_cpu p)\<rparr>]"
proof -
  let ?s = "pl_cpu p"
  let ?c = "?s\<lparr>cpu_cr := (cpu_cr ?s)[19 := cpu_ip ?s, 16 := cpu_psr ?s]\<rparr>"
  let ?t = "SetPSR (interrupt_psr (cpu_psr ?s)) ?c"
  have len: "length (cpu_cr ?s) = 128" using assms(1) by simp
  have sh: "cpu_shape ?t" using assms(1) unfolding SetPSR_def cpu_shape_def by simp
  have fo: "frame_ok ?t" using assms(2) unfolding SetPSR_def frame_ok_def GetSOR_def by simp
  have v: "view ?t = view ?s" by (rule view_cong) (simp_all add: SetPSR_def)
  have snap: "snapshot_frame (cpu_ip ?s) ?t = Inr \<lparr>cf_stackedRegisters = view ?s, cf_cfm = cpu_cfm ?s, cf_returnAddress = cpu_ip ?s\<rparr>"
    using snapshot_frame_ok [OF sh fo, of "cpu_ip ?s"] unfolding v by (simp add: SetPSR_def)
  show ?thesis
    using snap len
    by (simp add: enter_interrupt_def Let_def plugin_defs handler_base_def interrupted_cpu_def external_vector_offset
        list_update_swap [of 16 19])
qed

text \<open>Servicing interrupts enters the handler exactly when none is in service, \<open>PSR.i\<close> is set and some pending vector is
  eligible; the vector in service is the highest eligible one and stays pending until \<open>CR.IVR\<close> is read, the
  instruction pointer and \<open>PSR\<close> are saved, \<open>PSR.i\<close> and \<open>PSR.bn\<close> cleared, and a snapshot of the frame is pushed.
  Otherwise nothing but the telemetry changes.\<close>

theorem interrupt_entry:
  assumes "cpu_shape (pl_cpu p)" "frame_ok (pl_cpu p)"
  shows "\<exists>entered p'. pl_servicePendingInterrupt p = Inr (entered, p') \<and>
    entered = (\<not> pl_interruptInService p \<and> pl_areInterruptsEnabled p \<and> delivery_order p \<noteq> []) \<and>
    (if entered
     then pl_interruptInService p' \<and> pl_inServiceVector p' = hd (delivery_order p) \<and>
       pl_state p' = (pl_state p)\<lparr>is_cpu := interrupted_cpu p, is_bundleValid := False, is_currentSlot := 0\<rparr> \<and>
       pl_interruptFrameStack p' = pl_interruptFrameStack p @
         [\<lparr>cf_stackedRegisters = view (pl_cpu p), cf_cfm = cpu_cfm (pl_cpu p), cf_returnAddress = cpu_ip (pl_cpu p)\<rparr>]
     else p' = telemetry (\<lambda>_. pl_telemetry p') p)"
proof (cases "pl_interruptInService p \<or> \<not> pl_hasPendingInterrupt p \<or> \<not> pl_areInterruptsEnabled p")
  case True
  have "delivery_order p = []" if "\<not> pl_hasPendingInterrupt p"
    using that by (simp add: delivery_order_def pl_hasPendingInterrupt_def)
  then have "\<not> (\<not> pl_interruptInService p \<and> pl_areInterruptsEnabled p \<and> delivery_order p \<noteq> [])" using True by blast
  then show ?thesis
    using True unfolding pl_servicePendingInterrupt_def telemetry_def
    by (cases "pl_interruptInService p \<or> \<not> pl_hasPendingInterrupt p") (rule exI [of _ False], simp)+
next
  case False
  show ?thesis
  proof (cases "findHighestEligibleInterrupt p")
    case None
    then show ?thesis
      using False delivery_order_empty [of p]
      by (intro exI [of _ False]) (simp add: pl_servicePendingInterrupt_def telemetry_def)
  next
    case (Some i)
    obtain p' where p': "enter_interrupt i p = Inr p'" "pl_interruptInService p'" "pl_inServiceVector p' = pl_pending p ! i"
      "pl_state p' = (pl_state p)\<lparr>is_cpu := interrupted_cpu p, is_bundleValid := False, is_currentSlot := 0\<rparr>"
      "pl_interruptFrameStack p' = pl_interruptFrameStack p @
        [\<lparr>cf_stackedRegisters = view (pl_cpu p), cf_cfm = cpu_cfm (pl_cpu p), cf_returnAddress = cpu_ip (pl_cpu p)\<rparr>]"
      using enter_interrupt_ok [OF assms] by blast
    have "pl_servicePendingInterrupt p = Inr (True, p')"
      using False Some p'(1) by (simp add: pl_servicePendingInterrupt_def)
    then show ?thesis
      using False delivery_order_hd [OF Some] p'(2-5) by (intro exI [of _ True] exI [of _ p']) simp
  qed
qed

definition interruptible :: "isa_plugin \<Rightarrow> bool" where
  "interruptible p \<longleftrightarrow> \<not> pl_interruptInService p \<and> pl_areInterruptsEnabled p \<and> delivery_order p \<noteq> []"

lemma interrupt_entered:
  assumes "cpu_shape (pl_cpu p)" "frame_ok (pl_cpu p)" "interruptible p" "pl_servicePendingInterrupt p = Inr (b, p')"
  shows "pl_state p' = (pl_state p)\<lparr>is_cpu := interrupted_cpu p, is_bundleValid := False, is_currentSlot := 0\<rparr>"
    "pl_interruptFrameStack p' = pl_interruptFrameStack p @
      [\<lparr>cf_stackedRegisters = view (pl_cpu p), cf_cfm = cpu_cfm (pl_cpu p), cf_returnAddress = cpu_ip (pl_cpu p)\<rparr>]"
proof -
  obtain i where i: "findHighestEligibleInterrupt p = Some i"
    using assms(3) delivery_order_empty [of p] by (cases "findHighestEligibleInterrupt p") (simp_all add: interruptible_def)
  have "pl_hasPendingInterrupt p"
    using assms(3) by (auto simp: interruptible_def delivery_order_def pl_hasPendingInterrupt_def)
  then have e: "enter_interrupt i p = Inr p'"
    using assms(3,4) i by (cases "enter_interrupt i p") (simp_all add: interruptible_def pl_servicePendingInterrupt_def)
  show "pl_state p' = (pl_state p)\<lparr>is_cpu := interrupted_cpu p, is_bundleValid := False, is_currentSlot := 0\<rparr>"
    "pl_interruptFrameStack p' = pl_interruptFrameStack p @
      [\<lparr>cf_stackedRegisters = view (pl_cpu p), cf_cfm = cpu_cfm (pl_cpu p), cf_returnAddress = cpu_ip (pl_cpu p)\<rparr>]"
    using enter_interrupt_ok [OF assms(1,2), of i] e by auto
qed

subsection \<open>Return from the handler\<close>

lemma Execute_rfi:
  assumes "in_type i = Memory_Op RFI" "length (cpu_cr s) = NUM_CONTROL_REGISTERS"
  shows "Execute h True i (s, m) = Some (Inr (), SetIP (cpu_cr s ! 19 AND NOT 0xF) (SetPSR (cpu_cr s ! 16) s), m)"
  using assms by (simp add: Execute_def bind_def ret_def dispatch_def rfi_effect del: exec_memory.simps)

lemma read_prs_ok: "cpu_shape s \<Longrightarrow> \<forall>i \<in> set is. i < 64 \<Longrightarrow> \<exists>bs. read_prs s is = Inr bs"
proof (induction "is")
  case (Cons i "is")
  then have "\<exists>b. GetPR s i = Inr b" using MapPR_less [of i s] by (cases "i = 0") (auto simp: GetPR_def)
  then show ?case using Cons by auto
qed simp

lemma capture_ok:
  assumes "cpu_shape (pl_cpu p)"
  shows "\<exists>bs. capturePredicateGroupSnapshot p = Inr (on_state_of (\<lambda>st. st\<lparr>is_predicateGroupSnapshot := bs\<rparr>) p)"
  using read_prs_ok [OF assms, of "[0..<64]"] by (auto simp: capturePredicateGroupSnapshot_def)

lemma cpu_shape_SetIP [simp]: "cpu_shape (SetIP a s) = cpu_shape s"
  unfolding SetIP_def cpu_shape_def by simp

lemma cpu_shape_SetPSR [simp]: "cpu_shape (SetPSR a s) = cpu_shape s"
  unfolding SetPSR_def cpu_shape_def by simp

text \<open>\<open>rfi\<close> with a snapshot on the stack.\<close>

lemma rfi_restores:
  assumes "in_type i = Memory_Op RFI" "cpu_shape (pl_cpu q)" "pl_interruptFrameStack q = fs @ [f]"
    and "snapshot_frame a s = Inr f" "cpu_shape s" "frame_ok s"
  shows "\<exists>r. pl_rfi h i (q, m) = Some (Inr (r, m)) \<and> cpu_shape (pl_cpu r) \<and> cpu_cfm (pl_cpu r) = cpu_cfm s \<and> view (pl_cpu r) = view s \<and>
    cpu_psr (pl_cpu r) = cr IA64_CR_IPSR q \<and> cpu_ip (pl_cpu r) = normalizeRfiEntryIP (cr IA64_CR_IIP q AND NOT 0xF) \<and>
    is_currentSlot (pl_state r) = unat (get_bits 41 2 (cr IA64_CR_IPSR q)) \<and> \<not> is_bundleValid (pl_state r) \<and>
    pl_interruptFrameStack r = fs \<and> pl_pending r = pl_pending q \<and> pl_interruptInService r = pl_interruptInService q"
proof -
  let ?s = "pl_cpu q"
  let ?t = "SetIP (cpu_cr ?s ! 19 AND NOT 0xF) (SetPSR (cpu_cr ?s ! 16) ?s)"
  have sh: "cpu_shape ?t" using assms(2) by simp
  obtain t' where t': "put_frame f ?t = Inr t'" "cpu_shape t'" "cpu_cfm t' = cpu_cfm s" "view t' = view s"
    "cpu_ip t' = cpu_ip ?t" "cpu_psr t' = cpu_psr ?t"
    by (rule put_frame_again [OF assms(4-6) sh])
  let ?p1 = "(set_cpu t' (set_cpu ?t q))\<lparr>pl_interruptFrameStack := fs\<rparr>"
  let ?p2 = "on_state_of (\<lambda>st. st\<lparr>is_cpu := SetIP (normalizeRfiEntryIP (cpu_ip (is_cpu st))) (is_cpu st),
              is_currentSlot := unat (get_bits 41 2 (cpu_cr ?s ! 16)), is_bundleValid := False\<rparr>) ?p1"
  have "cpu_shape (pl_cpu ?p2)" using t'(2) by (simp add: on_state_of_def set_cpu_def)
  from capture_ok [OF this] obtain bs where
    c: "capturePredicateGroupSnapshot ?p2 = Inr (on_state_of (\<lambda>st. st\<lparr>is_predicateGroupSnapshot := bs\<rparr>) ?p2)" ..
  let ?r = "on_state_of (\<lambda>st. st\<lparr>is_predicateGroupSnapshot := bs\<rparr>) ?p2"
  have fs: "pl_interruptFrameStack (set_cpu ?t q) = fs @ [f]" "pl_cpu (set_cpu ?t q) = ?t"
    using assms(3) by (simp_all add: set_cpu_def on_state_of_def)
  have "resume (cpu_cr ?s ! 16) (set_cpu ?t q) = Inr ?r"
    unfolding resume_def Let_def fs using t'(1) c by simp
  then have "pl_rfi h i (q, m) = Some (Inr (?r, m))"
    using assms(2) by (simp add: pl_rfi_def Let_def cr_def Execute_rfi [OF assms(1)])
  moreover have "view (SetIP x t') = view s" for x using t'(4) view_cong [of "SetIP x t'" t'] by simp
  ultimately show ?thesis
    using t' by (intro exI [of _ ?r] conjI) (simp_all add: on_state_of_def set_cpu_def cr_def)
qed

text \<open>C18: Whatever a handler does, if it leaves the saved instruction pointer and \<open>PSR\<close>, balances the frame snapshots and
  keeps the register arrays, its \<open>rfi\<close> returns to the bundle that was interrupted with the frame marker, the stacked
  registers and \<open>PSR\<close> of the interrupted program. The slot is the one in \<open>PSR.ri\<close>, not the one the core had reached.\<close>

theorem interrupt_return:
  assumes "cpu_shape (pl_cpu p)" "frame_ok (pl_cpu p)" "interruptible p"
    and "pl_servicePendingInterrupt p = Inr (b, p')"
    and "cr IA64_CR_IIP q = cr IA64_CR_IIP p'" "cr IA64_CR_IPSR q = cr IA64_CR_IPSR p'"
    and "pl_interruptFrameStack q = pl_interruptFrameStack p'" "cpu_shape (pl_cpu q)" "in_type i = Memory_Op RFI"
  shows "\<exists>r. pl_rfi h i (q, m) = Some (Inr (r, m)) \<and> cpu_cfm (pl_cpu r) = cpu_cfm (pl_cpu p) \<and> view (pl_cpu r) = view (pl_cpu p) \<and>
    cpu_psr (pl_cpu r) = cpu_psr (pl_cpu p) \<and> cpu_ip (pl_cpu r) = normalizeRfiEntryIP (cpu_ip (pl_cpu p) AND NOT 0xF) \<and>
    is_currentSlot (pl_state r) = unat (get_bits 41 2 (cpu_psr (pl_cpu p))) \<and>
    pl_interruptFrameStack r = pl_interruptFrameStack p \<and> pl_pending r = pl_pending q"
proof -
  note e = interrupt_entered [OF assms(1-4)]
  have len: "length (cpu_cr (pl_cpu p)) = 128" using assms(1) by simp
  have saved: "cr IA64_CR_IIP p' = cpu_ip (pl_cpu p)" "cr IA64_CR_IPSR p' = cpu_psr (pl_cpu p)"
    using len by (simp_all add: cr_def e(1) interrupted_cpu_def Let_def)
  from rfi_restores [OF assms(9,8) assms(7) [unfolded e(2)] snapshot_frame_ok [OF assms(1,2)] assms(1,2), of h m]
  show ?thesis unfolding assms(5,6) saved by blast
qed

lemma demo_plugin_ok:
  "cpu_shape (pl_cpu (pl_setInterruptsEnabled b (demo_plugin vs tpr)))" "frame_ok (pl_cpu (pl_setInterruptsEnabled b (demo_plugin vs tpr)))"
  using cpu_shape_set_plain(3) [OF cpu_shape_Reset, of 66 tpr]
  by (simp_all add: pl_setInterruptsEnabled_def demo_plugin_def plugin_defs IA64ISAPlugin_def IA64ISAState_def Let_def frame_ok_def GetSOR_def
    get_bits_def del: cpu_shapeD) (simp add: Reset_def)

theorem interrupt_return_witness:
  "\<forall>h. \<exists>p' r. pl_servicePendingInterrupt (pl_setInterruptsEnabled True (demo_plugin [0x50] 0)) = Inr (True, p') \<and>
     pl_rfi h (InstructionEx (Memory_Op RFI) B_UNIT) (p', demo_ram) = Some (Inr (r, demo_ram)) \<and>
     cpu_ip (pl_cpu p') = 0x3000 \<and> cpu_ip (pl_cpu r) = 0 \<and> pl_interruptFrameStack r = [] \<and> pl_pending r = [0x50]"
proof
  fix h
  let ?p = "pl_setInterruptsEnabled True (demo_plugin [0x50] 0)" and ?i = "InstructionEx (Memory_Op RFI) B_UNIT"
  note ok = demo_plugin_ok [of True "[0x50]" 0]
  have c: "delivery_order ?p = [0x50]" "\<not> pl_interruptInService ?p" "pl_areInterruptsEnabled ?p" "pl_interruptFrameStack ?p = []"
    "pl_pending ?p = [0x50]" "normalizeKernelEntryIP (handler_base ?p + 0x3000) = 0x3000" "cpu_ip (pl_cpu ?p) = 0"
    by (simp_all add: delivery_order_def isInterruptEligible_def pl_setInterruptsEnabled_def pl_areInterruptsEnabled_def demo_plugin_def plugin_defs
      handler_base_def normalizeKernelEntryIP_def kIa64KernelVirtualBase_def IA64ISAPlugin_def IA64ISAState_def Let_def Reset_def
      IA64_SPURIOUS_INT_VECTOR_def IA64_PSR_BN_MASK_def IA64_PSR_I_def SetPSR_def)
  have int: "interruptible ?p" using c by (simp add: interruptible_def)
  obtain i where i: "findHighestEligibleInterrupt ?p = Some i"
    using c(1) delivery_order_empty [of ?p] by (cases "findHighestEligibleInterrupt ?p") simp_all
  obtain p' where e: "enter_interrupt i ?p = Inr p'"
    "pl_state p' = (pl_state ?p)\<lparr>is_cpu := interrupted_cpu ?p, is_bundleValid := False, is_currentSlot := 0\<rparr>"
    using enter_interrupt_ok [OF ok, of i] by blast
  have s: "pl_servicePendingInterrupt ?p = Inr (True, p')"
    using c(2,3,5) i e(1) by (simp add: pl_servicePendingInterrupt_def pl_hasPendingInterrupt_def)
  have "cpu_shape (pl_cpu p')"
    using ok(1) unfolding e(2) interrupted_cpu_def Let_def cpu_shape_def by (simp add: SetIP_def SetPSR_def)
  from interrupt_return [OF ok int s refl refl refl this, of ?i h demo_ram] obtain r where
    "pl_rfi h ?i (p', demo_ram) = Some (Inr (r, demo_ram))" "cpu_ip (pl_cpu r) = normalizeRfiEntryIP (cpu_ip (pl_cpu ?p) AND NOT 0xF)"
    "pl_interruptFrameStack r = pl_interruptFrameStack ?p" "pl_pending r = pl_pending p'"
    by (auto simp: InstructionEx_def)
  moreover have "pl_pending p' = [0x50]" "cpu_ip (pl_cpu p') = 0x3000"
    using c(5,6) by (simp_all add: e(2) interrupted_cpu_def Let_def)
  moreover have "normalizeRfiEntryIP 0 = 0"
    by (simp add: normalizeRfiEntryIP_def normalizeKernelEntryIP_def kIa64KernelVirtualBase_def)
  ultimately show "\<exists>p' r. pl_servicePendingInterrupt ?p = Inr (True, p') \<and>
     pl_rfi h ?i (p', demo_ram) = Some (Inr (r, demo_ram)) \<and>
     cpu_ip (pl_cpu p') = 0x3000 \<and> cpu_ip (pl_cpu r) = 0 \<and> pl_interruptFrameStack r = [] \<and> pl_pending r = [0x50]"
    using s c(4,7) by (intro exI [of _ p'] exI [of _ r]) simp
qed

subsection \<open>A translation fault inside a handler\<close>

lemma put_cr_simps [simp]:
  "pl_interruptFrameStack (put_cr i v p) = pl_interruptFrameStack p" "cpu_psr (pl_cpu (put_cr i v p)) = cpu_psr (pl_cpu p)"
  "cpu_ip (pl_cpu (put_cr i v p)) = cpu_ip (pl_cpu p)" "cpu_cr (pl_cpu (put_cr i v p)) = (cpu_cr (pl_cpu p))[i := v]"
  by (simp_all add: plugin_defs)

lemma cpu_shape_put_cr [simp]: "cpu_shape (pl_cpu (put_cr i v p)) = cpu_shape (pl_cpu p)"
  unfolding plugin_defs cpu_shape_def by simp

lemma collect_fault_simps [simp]:
  "pl_interruptFrameStack (collect_fault f p) = pl_interruptFrameStack p"
  "cpu_shape (pl_cpu (collect_fault f p)) = cpu_shape (pl_cpu p)"
  by (simp_all only: collect_fault_def Let_def put_cr_simps cpu_shape_put_cr)

text \<open>C39: A translation fault in an interrupt handler pushes no snapshot, but the \<open>rfi\<close> that ends its own handler pops one:
  it resumes the interrupt handler at the faulting bundle with the frame marker and the stacked registers of the
  program the interrupt had suspended, and the return from the interrupt finds no snapshot.\<close>

theorem fault_in_handler_takes_frame:
  assumes "pl_interruptFrameStack q = fs @ [f]" "snapshot_frame a s = Inr f" "cpu_shape s" "frame_ok s"
    and "cpu_shape (pl_cpu q)" "tf_kind e \<noteq> NESTED_TLB_MISS" "in_type i = Memory_Op RFI"
  shows "\<exists>q1 r. deliver_translation_fault e q = Inr q1 \<and> pl_rfi h i (q1, m) = Some (Inr (r, m)) \<and>
    cpu_ip (pl_cpu r) = normalizeRfiEntryIP (canonicalizeKernelInstructionPointer (cpu_ip (pl_cpu q)) AND NOT 0xF) \<and>
    cpu_psr (pl_cpu r) = cpu_psr (pl_cpu q) \<and> cpu_cfm (pl_cpu r) = cpu_cfm s \<and> view (pl_cpu r) = view s \<and>
    pl_interruptFrameStack r = fs"
proof -
  let ?p1 = "collect_fault e q"
  let ?p2 = "set_cpu (SetPSR (fault_psr (cpu_psr (pl_cpu q))) (pl_cpu ?p1)) ?p1"
  let ?p3 = "on_state_of (\<lambda>st. st\<lparr>is_cpu := SetIP (normalizeKernelEntryIP (handler_base ?p2 + tf_vectorOffset e)) (is_cpu st),
      is_currentSlot := 0, is_bundleValid := False\<rparr>) ?p2"
  have sh: "cpu_shape (pl_cpu ?p3)" using assms(5) by (simp add: on_state_of_def set_cpu_def)
  from capture_ok [OF this] obtain bs where
    c: "capturePredicateGroupSnapshot ?p3 = Inr (on_state_of (\<lambda>st. st\<lparr>is_predicateGroupSnapshot := bs\<rparr>) ?p3)" ..
  let ?q1 = "on_state_of (\<lambda>st. st\<lparr>is_predicateGroupSnapshot := bs\<rparr>) ?p3"
  have d: "deliver_translation_fault e q = Inr ?q1"
    using assms(6) c by (simp add: deliver_translation_fault_def Let_def)
  have sh1: "cpu_shape (pl_cpu ?q1)" using sh by (simp add: on_state_of_def)
  have fs1: "pl_interruptFrameStack ?q1 = fs @ [f]" using assms(1) by (simp add: on_state_of_def set_cpu_def)
  have len: "length (cpu_cr (pl_cpu q)) = 128" using assms(5) by simp
  have saved: "cr IA64_CR_IIP ?q1 = canonicalizeKernelInstructionPointer (cpu_ip (pl_cpu q)) AND NOT 0xF"
    "cr IA64_CR_IPSR ?q1 = cpu_psr (pl_cpu q)"
    using len by (simp_all add: cr_def on_state_of_def set_cpu_def collect_fault_def Let_def)
  have twice: "(x AND NOT 0xF) AND NOT 0xF = (x AND NOT 0xF :: u64)" for x by (simp add: and.assoc)
  from rfi_restores [OF assms(7) sh1 fs1 assms(2-4), of h m] d show ?thesis
    unfolding saved twice by blast
qed

definition demo_fault :: translation_fault where
  "demo_fault = \<lparr>tf_kind = TLB_MISS, tf_virtualAddress = 0x2000, tf_accessType = ACC_READ, tf_vectorOffset = 0x800, tf_hashAddress = 0\<rparr>"

lemma demo_plugin_shape: "cpu_shape (pl_cpu (demo_plugin vs tpr))"
  unfolding demo_plugin_def cpu_shape_put_cr
  by (simp add: set_pending_def on_state_of_def IA64ISAPlugin_def IA64ISAState_def cpu_shape_Reset del: cpu_shapeD)

theorem fault_in_handler_takes_frame_witness:
  "\<forall>h. \<exists>q1 r f. let q = (demo_plugin [] 0)\<lparr>pl_interruptFrameStack := [f]\<rparr> in
     cf_cfm f = 5 \<and> cpu_cfm (pl_cpu q) = 0 \<and> deliver_translation_fault demo_fault q = Inr q1 \<and>
     pl_rfi h (InstructionEx (Memory_Op RFI) B_UNIT) (q1, demo_ram) = Some (Inr (r, demo_ram)) \<and>
     cpu_cfm (pl_cpu r) = 5 \<and> pl_interruptFrameStack r = []"
proof
  fix h
  let ?s = "SetCFM 5 Reset"
  have sh: "cpu_shape ?s" "frame_ok ?s" unfolding cpu_shape_SetCFM frame_ok_SetCFM by (rule cpu_shape_Reset) (simp add: get_bits_def)
  let ?f = "\<lparr>cf_stackedRegisters = view ?s, cf_cfm = cpu_cfm ?s, cf_returnAddress = 0\<rparr>"
  let ?q = "(demo_plugin [] 0)\<lparr>pl_interruptFrameStack := [?f]\<rparr>"
  have q: "cpu_shape (pl_cpu ?q)" "pl_interruptFrameStack ?q = [] @ [?f]"
    using demo_plugin_shape [of "[]" 0] by simp_all
  have cfm: "cpu_cfm (pl_cpu ?q) = 0" "cpu_cfm ?s = 5"
    by (simp_all add: demo_plugin_def plugin_defs IA64ISAPlugin_def IA64ISAState_def Reset_def SetCFM_def)
  have k: "tf_kind demo_fault \<noteq> NESTED_TLB_MISS" "in_type (InstructionEx (Memory_Op RFI) B_UNIT) = Memory_Op RFI"
    by (simp_all add: demo_fault_def InstructionEx_def)
  obtain q1 r where qr: "deliver_translation_fault demo_fault ?q = Inr q1"
    "pl_rfi h (InstructionEx (Memory_Op RFI) B_UNIT) (q1, demo_ram) = Some (Inr (r, demo_ram))"
    "cpu_cfm (pl_cpu r) = cpu_cfm ?s" "pl_interruptFrameStack r = []"
    using fault_in_handler_takes_frame [OF q(2) snapshot_frame_ok [OF sh] sh q(1) k, of h demo_ram] by blast
  have cf: "cf_cfm ?f = 5" "cpu_cfm (pl_cpu r) = 5" using qr(3) cfm(2) by simp_all
  show "\<exists>q1 r f. let q = (demo_plugin [] 0)\<lparr>pl_interruptFrameStack := [f]\<rparr> in
     cf_cfm f = 5 \<and> cpu_cfm (pl_cpu q) = 0 \<and> deliver_translation_fault demo_fault q = Inr q1 \<and>
     pl_rfi h (InstructionEx (Memory_Op RFI) B_UNIT) (q1, demo_ram) = Some (Inr (r, demo_ram)) \<and>
     cpu_cfm (pl_cpu r) = 5 \<and> pl_interruptFrameStack r = []"
    unfolding Let_def
    by (rule exI [of _ q1], rule exI [of _ r], rule exI [of _ ?f], intro conjI cf cfm(1) qr(1,2,4))
qed

subsection \<open>The interval timer\<close>

text \<open>The comparison the code makes: the counter has reached the match register, as a signed difference.\<close>

definition expired :: "u64 \<Rightarrow> isa_plugin \<Rightarrow> bool" where
  "expired now p \<longleftrightarrow> 0 \<le> sint (now - cr IA64_CR_ITM p)"

definition armed :: "isa_plugin \<Rightarrow> bool" where
  "armed p \<longleftrightarrow> pl_intervalTimerConfigured p \<and> cr IA64_CR_ITV p AND IA64_ITV_MASK = 0 \<and>
     ucast (cr IA64_CR_ITV p AND 0xFF) > IA64_SPURIOUS_INT_VECTOR"

definition timer_vector :: "isa_plugin \<Rightarrow> u8" where
  "timer_vector p = ucast (cr IA64_CR_ITV p AND 0xFF)"

lemma advance_effect:
  assumes "44 < length (cpu_ar (pl_cpu p))"
  shows "cr i (pl_advanceITC t p) = cr i p" "itc (pl_advanceITC t p) = itc p + t"
    "pl_intervalTimerConfigured (pl_advanceITC t p) = pl_intervalTimerConfigured p"
    "length (cpu_ar (pl_cpu (pl_advanceITC t p))) = length (cpu_ar (pl_cpu p))"
  using assms by (simp_all add: pl_advanceITC_def updateIntervalTimer_def Let_def plugin_defs AdvanceITC_def)

lemma advance_fires:
  assumes "44 < length (cpu_ar (pl_cpu p))" "armed p"
  shows "pl_pending (pl_advanceITC t p) =
      (if \<not> pl_timerCompareLatched p \<and> expired (itc p + t) p then pl_pending p @ [timer_vector p] else pl_pending p)"
    "pl_timerCompareLatched (pl_advanceITC t p) \<longleftrightarrow> pl_timerCompareLatched p \<or> expired (itc p + t) p"
  using assms
  by (auto simp: pl_advanceITC_def updateIntervalTimer_def Let_def plugin_defs AdvanceITC_def armed_def expired_def timer_vector_def not_le)

lemma armed_cong: "(\<And>i. cr i q = cr i p) \<Longrightarrow> pl_intervalTimerConfigured q = pl_intervalTimerConfigured p \<Longrightarrow> armed q = armed p"
  by (simp add: armed_def)

text \<open>C20: An armed timer that has not fired queues its vector exactly once while the counter advances, at the first tick that
  reaches the match register, and never when none does.\<close>

theorem timer_fires_once:
  assumes "armed p" "\<not> pl_timerCompareLatched p" "44 < length (cpu_ar (pl_cpu p))"
  shows "pl_pending (fold pl_advanceITC ts p) = pl_pending p @
    (if \<exists>n < length ts. expired (itc p + sum_list (take (Suc n) ts)) p then [timer_vector p] else [])"
proof -
  have gen: "pl_pending (fold pl_advanceITC ts p) = pl_pending p @
      (if \<not> pl_timerCompareLatched p \<and> (\<exists>n < length ts. expired (itc p + sum_list (take (Suc n) ts)) p) then [timer_vector p] else [])"
    if "armed p" "44 < length (cpu_ar (pl_cpu p))" for p
    using that
  proof (induction ts arbitrary: p)
    case (Cons t ts)
    let ?q = "pl_advanceITC t p"
    note e = advance_effect [OF Cons.prems(2), where t = t] and f = advance_fires [OF Cons.prems(2,1), where t = t]
    have q: "armed ?q" "44 < length (cpu_ar (pl_cpu ?q))" "timer_vector ?q = timer_vector p" "expired x ?q = expired x p" for x
      using Cons.prems armed_cong [of ?q p] by (simp_all add: e timer_vector_def expired_def)
    have split: "(\<exists>n < length (t # ts). expired (itc p + sum_list (take (Suc n) (t # ts))) p) \<longleftrightarrow>
        expired (itc p + t) p \<or> (\<exists>n < length ts. expired (itc p + t + sum_list (take (Suc n) ts)) p)"
      by (simp add: Ex_less_Suc2 add.assoc)
    have "pl_pending (fold pl_advanceITC (t # ts) p) = pl_pending ?q @
        (if \<not> pl_timerCompareLatched ?q \<and> (\<exists>n < length ts. expired (itc p + t + sum_list (take (Suc n) ts)) p)
         then [timer_vector p] else [])"
      using Cons.IH [OF q(1,2)] by (simp add: q(3,4) e(2))
    then show ?case unfolding split f by (simp split: if_splits)
  qed simp
  show ?thesis using gen [OF assms(1,3)] assms(2) by simp
qed

definition demo_timer :: isa_plugin where
  "demo_timer = (put_cr IA64_CR_ITV 0x50 (put_cr IA64_CR_ITM 10 IA64ISAPlugin))\<lparr>pl_intervalTimerConfigured := True\<rparr>"

theorem timer_fires_once_witness: "pl_pending (fold pl_advanceITC [4, 4, 4, 4] demo_timer) = [0x50]"
proof -
  have f: "cr IA64_CR_ITV demo_timer = 0x50" "cr IA64_CR_ITM demo_timer = 10" "itc demo_timer = 0" "pl_pending demo_timer = []"
    "44 < length (cpu_ar (pl_cpu demo_timer))" "\<not> pl_timerCompareLatched demo_timer" "pl_intervalTimerConfigured demo_timer"
    by (simp_all add: demo_timer_def plugin_defs IA64ISAPlugin_def IA64ISAState_def Reset_def)
  have "armed demo_timer" using f by (simp add: armed_def IA64_ITV_MASK_def IA64_SPURIOUS_INT_VECTOR_def)
  note t = timer_fires_once [OF this f(6,5), of "[4, 4, 4, 4]"]
  have e: "\<exists>n < length [4, 4, 4, 4 :: u64]. expired (itc demo_timer + sum_list (take (Suc n) [4, 4, 4, 4])) demo_timer"
    by (rule exI [of _ 2]) (simp add: expired_def f f(2) [unfolded One_nat_def] numeral_2_eq_2)
  show ?thesis unfolding t if_P [OF e] by (simp add: f timer_vector_def)
qed

subsection \<open>Calls and returns\<close>

lemma capture_outputs_ok:
  assumes "cpu_shape (pl_cpu p)" "frame_ok (pl_cpu p)"
  obtains g n vs where "pl_captureCallOutputRegisters p = Inr ((set_cpu ((pl_cpu p)\<lparr>cpu_gr := g, cpu_gr_nat := n\<rparr>) p)\<lparr>pl_pendingCallInputs := vs\<rparr>)"
    "cpu_shape ((pl_cpu p)\<lparr>cpu_gr := g, cpu_gr_nat := n\<rparr>)"
proof (cases "GetSOF (pl_cpu p) \<le> GetSOL (pl_cpu p)")
  case True
  then show thesis
    using assms(1) by (intro that [where g = "cpu_gr (pl_cpu p)" and n = "cpu_gr_nat (pl_cpu p)" and vs = "[]"])
      (simp_all add: pl_captureCallOutputRegisters_def Let_def set_cpu_def on_state_of_def)
next
  case False
  let ?s = "pl_cpu p"
  let ?is = "takeWhile (\<lambda>i. i < 128) [32 + GetSOL ?s ..< 32 + GetSOL ?s + (GetSOF ?s - GetSOL ?s)]"
  have r: "read_grs_at ?s ?is = Inr (map (\<lambda>i. cpu_gr ?s ! MapGR ?s i) ?is)"
  proof (rule read_grs_at_ok [OF assms])
    show "\<forall>i \<in> set ?is. 0 < i \<and> i < 128" using set_takeWhileD by fastforce
  qed
  let ?vs = "map (\<lambda>i. cpu_gr ?s ! MapGR ?s i) ?is"
  have "set ?is \<subseteq> {32..<128}" using set_takeWhileD by fastforce
  then have len: "length ?vs \<le> 96"
    using card_mono [of "{32..<128 :: nat}" "set ?is"] distinct_card [of ?is] by (simp add: distinct_takeWhile)
  obtain g n where z: "write_stacked (replicate (NUM_GENERAL_REGISTERS - NUM_STATIC_GR) 0) ?s = Inr (?s\<lparr>cpu_gr := g, cpu_gr_nat := n\<rparr>)"
    "cpu_shape (?s\<lparr>cpu_gr := g, cpu_gr_nat := n\<rparr>)"
    by (rule write_stacked_ok [OF assms, of "replicate 96 0"]) simp_all
  have fo: "frame_ok (?s\<lparr>cpu_gr := g, cpu_gr_nat := n\<rparr>)" using assms(2) by simp
  obtain g' n' where w: "write_stacked ?vs (?s\<lparr>cpu_gr := g, cpu_gr_nat := n\<rparr>) = Inr (?s\<lparr>cpu_gr := g', cpu_gr_nat := n'\<rparr>)"
    "cpu_shape (?s\<lparr>cpu_gr := g', cpu_gr_nat := n'\<rparr>)"
    by (rule write_stacked_ok [OF z(2) fo len]) simp
  show thesis
    using False r z(1) w by (intro that [where g = g' and n = n' and vs = ?vs])
      (simp_all add: pl_captureCallOutputRegisters_def Let_def set_cpu_def on_state_of_def)
qed

lemma enter_call_ok:
  assumes "cpu_shape (pl_cpu p)" "frame_ok (pl_cpu p)"
  obtains p1 where "enter_call p = Inr p1" "cpu_shape (pl_cpu p1)"
    "pl_callFrameStack p1 = pl_callFrameStack p @
      [\<lparr>cf_stackedRegisters = view (pl_cpu p), cf_cfm = cpu_cfm (pl_cpu p), cf_returnAddress = cpu_ip (pl_cpu p) + 16\<rparr>]"
    "cpu_ar (pl_cpu p1) = (cpu_ar (pl_cpu p))[17 := skipRseRegisters (cpu_ar (pl_cpu p) ! 17) (int (GetSOL (pl_cpu p))),
        64 := cpu_cfm (pl_cpu p)]"
    "cpu_cfm (pl_cpu p1) = of_nat (if GetSOF (pl_cpu p) > GetSOL (pl_cpu p) then GetSOF (pl_cpu p) - GetSOL (pl_cpu p) else 0)"
proof -
  let ?s = "pl_cpu p"
  let ?f = "\<lparr>cf_stackedRegisters = view ?s, cf_cfm = cpu_cfm ?s, cf_returnAddress = cpu_ip ?s + 16\<rparr>"
  let ?p1 = "p\<lparr>pl_callFrameStack := pl_callFrameStack p @ [?f]\<rparr>"
  have a: "saveCallFrame (cpu_ip ?s + 16) p = Inr ?p1"
    by (simp add: saveCallFrame_def snapshot_frame_ok [OF assms])
  have ok1: "cpu_shape (pl_cpu ?p1)" "frame_ok (pl_cpu ?p1)" using assms by simp_all
  obtain g n vs where c: "pl_captureCallOutputRegisters ?p1 = Inr ((set_cpu ((pl_cpu ?p1)\<lparr>cpu_gr := g, cpu_gr_nat := n\<rparr>) ?p1)\<lparr>pl_pendingCallInputs := vs\<rparr>)"
    "cpu_shape ((pl_cpu ?p1)\<lparr>cpu_gr := g, cpu_gr_nat := n\<rparr>)"
    by (rule capture_outputs_ok [OF ok1])
  let ?s2 = "?s\<lparr>cpu_gr := g, cpu_gr_nat := n\<rparr>"
  let ?p2 = "(set_cpu ?s2 ?p1)\<lparr>pl_pendingCallInputs := vs\<rparr>"
  have c': "pl_captureCallOutputRegisters ?p1 = Inr ?p2" using c(1) by simp
  have sh2: "cpu_shape ?s2" using c(2) by simp
  have cpu2: "pl_cpu ?p2 = ?s2" by (simp add: set_cpu_def on_state_of_def)
  have same: "GetSOF ?s2 = GetSOF ?s" "GetSOL ?s2 = GetSOL ?s" by (simp_all add: GetSOF_def GetSOL_def)
  obtain s3 where s3: "AdvanceBSPForCall ?s2 = Inr s3" "cpu_shape s3"
    "cpu_ar s3 = (cpu_ar ?s)[17 := skipRseRegisters (cpu_ar ?s ! 17) (int (GetSOL ?s))]"
    by (rule SetAR_result [OF sh2, of 17 "skipRseRegisters (cpu_ar ?s2 ! 17) (int (GetSOL ?s2))"])
      (simp_all add: AdvanceBSP_ok [OF sh2] same)
  obtain s4 where s4: "SetAR 64 (cpu_cfm ?s) s3 = Inr s4" "cpu_shape s4" "cpu_ar s4 = (cpu_ar s3)[64 := cpu_cfm ?s]"
    by (rule SetAR_result [OF s3(2), of 64 "cpu_cfm ?s"]) simp_all
  let ?n = "if GetSOF ?s > GetSOL ?s then GetSOF ?s - GetSOL ?s else 0"
  let ?p3 = "set_cpu (SetCFM (of_nat ?n) s4) ?p2"
  have e: "enter_call p = Inr ?p3"
    unfolding enter_call_def a and_then_simps c' Let_def cpu2 same s3(1)
    by (simp add: s4(1))
  have P: "pl_cpu ?p3 = SetCFM (of_nat ?n) s4" "pl_callFrameStack ?p3 = pl_callFrameStack p @ [?f]"
    by (simp_all add: set_cpu_def on_state_of_def)
  have C: "cpu_ar (SetCFM x t) = cpu_ar t" "cpu_cfm (SetCFM x t) = x" for x t by (simp_all add: SetCFM_def)
  show thesis
    by (rule that [OF e]) (simp_all only: P C cpu_shape_SetCFM s4(2,3) s3(3))
qed

lemma match_index_last:
  assumes "cf_returnAddress f = t" "\<forall>x \<in> set rest. cf_returnAddress x \<noteq> t"
  shows "match_index (fs @ f # rest) t (length (fs @ f # rest)) = length fs"
proof -
  have "match_index (fs @ f # rest) t (Suc (length fs) + k) = length fs" if "k \<le> length rest" for k
    using that
  proof (induction k)
    case 0
    then show ?case using assms(1) by simp
  next
    case (Suc k)
    then have "(fs @ f # rest) ! (Suc (length fs) + k) = rest ! k" by (simp add: nth_append)
    then show ?case using Suc assms(2) by simp
  qed
  from this [of "length rest"] show ?thesis by simp
qed

text \<open>C19: a \<open>br.ret\<close> to the address a call saved gives the caller its frame marker and its stacked registers back and
  drops the snapshots of everything called since, however the callee used its own frame, also when it returns past calls
  that are still open, as long as none of these saved the same return address. The backing-store pointer only moves back
  by the caller's local registers: it is the caller's again when the callee returns with the pointer the call gave it (so
  not when open calls are skipped), up to a caller's pointer on a NaT collection slot, which comes back one word higher.
  The registers have their architectural shape and the caller's frame rotates at most the 96 stacked registers.\<close>

theorem call_then_return:
  assumes "cpu_shape (pl_cpu p)" "frame_ok (pl_cpu p)" "enter_call p = Inr p1"
    and "pl_callFrameStack q = pl_callFrameStack p1 @ rest" "\<forall>f \<in> set rest. cf_returnAddress f \<noteq> cpu_ip (pl_cpu p) + 16"
    and "cpu_shape (pl_cpu q)"
  shows "\<exists>r. restoreCallFrame (cpu_ip (pl_cpu p) + 16) q = Inr r \<and> cpu_cfm (pl_cpu r) = cpu_cfm (pl_cpu p) \<and>
    view (pl_cpu r) = view (pl_cpu p) \<and> pl_callFrameStack r = pl_callFrameStack p \<and>
    cpu_ar (pl_cpu r) ! 17 = skipRseRegisters (cpu_ar (pl_cpu q) ! 17) (- int (GetSOL (pl_cpu p))) \<and>
    (cpu_ar (pl_cpu q) ! 17 = cpu_ar (pl_cpu p1) ! 17 \<longrightarrow>
      cpu_ar (pl_cpu r) ! 17 =
        (if uint (rse_slot (cpu_ar (pl_cpu p) ! 17)) = 63 \<and> GetSOL (pl_cpu p) \<noteq> 0
         then cpu_ar (pl_cpu p) ! 17 + 8 else cpu_ar (pl_cpu p) ! 17))"
proof -
  let ?s = "pl_cpu p" and ?t = "cpu_ip (pl_cpu p) + 16" and ?q = "pl_cpu q"
  let ?f = "\<lparr>cf_stackedRegisters = view ?s, cf_cfm = cpu_cfm ?s, cf_returnAddress = ?t\<rparr>"
  obtain p1' where p1': "enter_call p = Inr p1'" "pl_callFrameStack p1' = pl_callFrameStack p @ [?f]"
    "cpu_ar (pl_cpu p1') = (cpu_ar ?s)[17 := skipRseRegisters (cpu_ar ?s ! 17) (int (GetSOL ?s)), 64 := cpu_cfm ?s]"
    by (rule enter_call_ok [OF assms(1,2)])
  have fs: "pl_callFrameStack q = pl_callFrameStack p @ ?f # rest" using assms(3,4) p1'(1,2) by simp
  have i: "match_index (pl_callFrameStack q) ?t (length (pl_callFrameStack q)) = length (pl_callFrameStack p)"
    unfolding fs by (rule match_index_last) (use assms(5) in simp_all)
  have len: "length (cpu_ar ?s) = 128" "length (cpu_ar ?q) = 128" using assms(1,6) by simp_all
  have sol: "unat (get_bits 7 7 (cpu_cfm ?s)) = GetSOL ?s" by (simp add: GetSOL_def)
  obtain s1 where s1: "RewindBSPForReturn (GetSOL ?s) ?q = Inr s1" "cpu_shape s1"
    "cpu_ar s1 = (cpu_ar ?q)[17 := skipRseRegisters (cpu_ar ?q ! 17) (- int (GetSOL ?s)),
       18 := min (cpu_ar ?q ! 18) (skipRseRegisters (cpu_ar ?q ! 17) (- int (GetSOL ?s)))]"
    by (rule RewindBSP_ok [OF assms(6), of "GetSOL ?s"])
  obtain s2 where s2: "put_frame ?f s1 = Inr s2" "cpu_cfm s2 = cpu_cfm ?s" "view s2 = view ?s" "cpu_ar s2 = cpu_ar s1"
    by (rule put_frame_again [OF snapshot_frame_ok [OF assms(1,2)] assms(1,2) s1(2)])
  have bsp: "cpu_ar s1 ! 17 = skipRseRegisters (cpu_ar ?q ! 17) (- int (GetSOL ?s))" using len(2) by (simp add: s1(3))
  have same: "cpu_ar s1 ! 17 = bsp_after_return (cpu_ar ?s ! 17) (GetSOL ?s)" if "cpu_ar ?q ! 17 = cpu_ar (pl_cpu p1) ! 17"
    unfolding bsp that using assms(3) p1'(1,3) len(1) by (simp add: skip_there_and_back)
  show ?thesis
    using s1(1) s2 i bsp same
    by (simp add: restoreCallFrame_def Let_def fs sol set_cpu_def on_state_of_def bsp_after_return_def)
qed

definition demo_caller :: isa_plugin where
  "demo_caller = set_cpu (SetCFM 0x185 Reset) IA64ISAPlugin"

theorem call_then_return_witness:
  "\<exists>p1 r. enter_call demo_caller = Inr p1 \<and> cpu_cfm (pl_cpu p1) = 2 \<and> cpu_ar (pl_cpu p1) ! 17 \<noteq> 0 \<and>
     restoreCallFrame 16 p1 = Inr r \<and> cpu_cfm (pl_cpu r) = 0x185 \<and> cpu_ar (pl_cpu r) ! 17 = 0 \<and> pl_callFrameStack r = []"
proof -
  have c: "pl_cpu demo_caller = SetCFM 0x185 Reset" "pl_callFrameStack demo_caller = []"
    by (simp_all add: demo_caller_def set_cpu_def on_state_of_def IA64ISAPlugin_def)
  have f: "cpu_cfm (SetCFM 0x185 Reset) = 0x185" "cpu_ip (SetCFM 0x185 Reset) = 0" "cpu_ar (SetCFM 0x185 Reset) = replicate 128 0"
    "cpu_ar Reset = replicate 128 0" "cpu_ip Reset = 0"
    by (simp_all add: SetCFM_def Reset_def)
  have sof: "GetSOF (SetCFM 0x185 Reset) = 5" "GetSOL (SetCFM 0x185 Reset) = 3"
    by (simp_all add: GetSOF_def GetSOL_def f get_bits_def mask_numeral)
  have ok: "cpu_shape (pl_cpu demo_caller)" "frame_ok (pl_cpu demo_caller)"
    unfolding c cpu_shape_SetCFM frame_ok_SetCFM by (rule cpu_shape_Reset) (simp add: get_bits_def mask_numeral)
  have bsp: "skipRseRegisters 0 3 = (24 :: u64)" by code_simp
  obtain p1 where p1: "enter_call demo_caller = Inr p1" "cpu_shape (pl_cpu p1)"
    "cpu_ar (pl_cpu p1) ! 17 = 24" "cpu_cfm (pl_cpu p1) = 2"
    by (rule enter_call_ok [OF ok]) (simp add: c(1) f sof bsp)
  have slot: "uint (rse_slot (cpu_ar (pl_cpu demo_caller) ! 17)) \<noteq> 63" by (simp add: c f rse_slot_def get_bits_def)
  have q: "pl_callFrameStack p1 = pl_callFrameStack p1 @ []"
    "\<forall>x \<in> set ([] :: call_frame list). cf_returnAddress x \<noteq> cpu_ip (pl_cpu demo_caller) + 16" by simp_all
  from call_then_return [OF ok p1(1) q p1(2)] p1 slot show ?thesis
    by (auto simp: c f)
qed

end
