(* ===== verification/Spec2Isabelle.thy ===== *)
theory Spec2Isabelle
  imports Guest_Memory_Props Address_Translation_Props Boot_State Scheduler Float_Props Execute_Functional Execute_Compare Execute_Memory
    Decoder_Types Decoder_Props Cpu_Core_Control Cpu_Register_File Boot_Trace_Props
    Syscall_Props Firmware_Props Path_Props Elf_Props Plugin_Props
begin

text \<open>
  Verification development of the guideXOS hypervisor, an emulator of Itanium (IA-64) machines written in C++.
  Paths are relative to the root of the repository, where the program lies in \<open>src/src\<close> and \<open>src/include\<close>.

  \<^bold>\<open>The program.\<close> A virtual machine owns a flat guest memory behind a paged MMU and memory-mapped devices, one or
  more processors, and firmware tables. A processor (\<open>CPU\<close>) fetches 128-bit bundles from memory, decodes each into
  three instructions and executes them slot by slot on the register state (\<open>CPUState\<close>), which includes rotating
  register files, the register stack engine and the TLBs. Data accesses of instructions go through data address
  translation, then through the memory, its MMU and its devices. A \<open>break\<close> with the system-call number goes to the
  system-call dispatcher. A scheduler runs the processors in turn; a boot state machine and a boot trace record the
  progress of the guest. Before that, the kernel validator and the ELF loader put an image into memory and the
  bootstrap sets up its stack and registers. The IA-64 plugin is a second driver of the same register state and
  executor, with an interrupt controller and frame snapshots of its own.

  \<^bold>\<open>Conventions.\<close> A C++ integer is a machine word of its width (\<open>u8\<close> to \<open>u64\<close>), so that sums wrap; sizes and indices
  that the code bounds first are natural numbers. A class is a record, an enumeration a datatype. A function that may
  throw returns a sum, \<open>Inl\<close> the exception; reading past a \<open>std::array\<close> or the end of a file is the error
  \<open>UndefinedBehaviour\<close> (\<open>ReadOutside\<close> in the loader), so that its absence can be proved. What an exception leaves behind is kept
  wherever the caller catches it. Where a loop may not end the result is an option, \<open>None\<close> meaning that it does not
  return. Clock readings, host floating point, the dispatcher, callbacks, plugins, storage behind a mount and the
  bytes of files are parameters. Text that is only logged, and mutexes, are left out.

  \<^bold>\<open>Theories and sources.\<close>
  \<^item> \<open>Prelude\<close>, \<open>Bytes\<close>, \<open>Text_Stream\<close>: words, bit fields, exceptions as sums, byte lists and their encodings,
    \<open>std::ostringstream\<close> with its formatting flags.
  \<^item> \<open>Register_Bank\<close>, \<open>Byte_Store\<close>, \<open>Bounded_History\<close>: interfaces as locales. Every register file is an interpretation of
    the first, the guest memory of the second, the MMU trace, the boot history, the boot trace and the console
    scrollback of the third; \<open>mmio_device\<close> in \<open>Io_Devices\<close> and \<open>execution_context\<close> in \<open>Execute_Logic\<close> are two more.
  \<^item> \<open>Rse\<close>, \<open>Tlb\<close>, \<open>Cpu_State\<close>: \<open>core/cpu.cpp\<close>, \<open>cpu_state.h\<close>. \<open>Cpu_Registers\<close>, \<open>Cpu_Loops\<close> and \<open>Cpu_Guest\<close> show the shape
    invariant, that register renaming is one to one, the laws of the accessors, modulo-scheduled loops, the
    backing-store round trips, and the invariant and memory safety of all reachable register states.
  \<^item> \<open>Mmu\<close>, \<open>Guest_Memory\<close>: \<open>mmu/mmu.cpp\<close>, \<open>memory/memory.cpp\<close>; \<open>Mmu_Props\<close>, \<open>Guest_Memory_Props\<close>: page tables, permissions, hooks,
    watchpoints, reading back writes.
  \<^item> \<open>Address_Translation\<close> and \<open>Address_Translation_Props\<close>: \<open>core/ia64_address_translation.cpp\<close>, with the page-table walk, its refill of
    the TLB, and the loops that split an access at page boundaries.
  \<^item> \<open>Io_Devices\<close>, \<open>Interrupts\<close>, \<open>Console\<close>, \<open>Framebuffer\<close>: the devices of \<open>io/\<close>.
  \<^item> \<open>Boot_State\<close>, \<open>Boot_Trace\<close>, \<open>Boot_Trace_Props\<close>, \<open>Scheduler\<close>: \<open>vm/VMBootStateMachine.cpp\<close>, \<open>vm/BootTraceSystem.cpp\<close>,
    \<open>vm/SimpleCPUScheduler.cpp\<close>, \<open>vm/CPUContext.cpp\<close>.
  \<^item> \<open>Instruction\<close>, \<open>Wide_Int\<close>, \<open>Float_Arith\<close>, \<open>Execute\<close>: \<open>InstructionEx\<close> and the executor in \<open>decoder/decoder.cpp\<close>. \<open>Float_Props\<close>,
    \<open>Execute_Logic\<close>, \<open>Execute_Props\<close>, \<open>Execute_Functional\<close>, \<open>Execute_Bits\<close>, \<open>Execute_Compare\<close>, \<open>Execute_Memory\<close>: execution of a legal
    instruction returns, is memory safe and keeps the invariant; what the instructions compute; rounding.
  \<^item> \<open>Decoder_Formats\<close>, \<open>Decoder_AI\<close>, \<open>Decoder_MBF\<close>, \<open>Decoder\<close>: the decoders of \<open>decoder/\<close>. \<open>Decoder_Fields\<close>, \<open>Decoder_Roundtrip\<close>,
    \<open>Decoder_Types\<close>, \<open>Decoder_Props\<close>: encoded instructions decode to themselves; decoded operands exist.
  \<^item> \<open>Cpu_Core\<close>, \<open>Cpu_Register_File\<close>: \<open>core/cpu_core.cpp\<close>, \<open>cpu.h\<close>. \<open>Cpu_Core_Props\<close>, \<open>Cpu_Core_Control\<close>: safety of a step, bundles in order,
    calls, branches, interrupts.
  \<^item> \<open>Linux_Abi\<close>, \<open>Syscall_Props\<close>: \<open>abi/abi.cpp\<close>, \<open>syscall/SyscallDispatcher.cpp\<close>, and system calls as a core step.
  \<^item> \<open>Firmware_Tables\<close>, \<open>Firmware_Props\<close>: \<open>vm/IA64SalFirmware.cpp\<close>, \<open>vm/IA64AcpiFirmware.cpp\<close>.
  \<^item> \<open>Path_Resolver\<close>, \<open>Path_Props\<close>: \<open>storage/PathResolver.cpp\<close>, \<open>storage/FilesystemMount.cpp\<close>, confinement of guest paths.
  \<^item> \<open>Bootstrap\<close>, \<open>Bootstrap_Props\<close>: \<open>loader/bootstrap.cpp\<close>, the argument block and the entry state.
  \<^item> \<open>Elf_Format\<close>, \<open>Elf_Loader\<close>, \<open>Kernel_Verdict\<close>, \<open>Elf_Props\<close>: \<open>loader/loader.cpp\<close>, \<open>loader/KernelValidator.cpp\<close>.
  \<^item> \<open>Plugin_Interrupts\<close>, \<open>Plugin_Frames\<close>, \<open>Plugin_Props\<close>: the interrupt controller, timer, \<open>rfi\<close>, fault entry and frame snapshots of
    \<open>isa/IA64ISAPlugin.cpp\<close>.

  \<^bold>\<open>How the components fit.\<close> Each level is proved against the one below: \<open>cpu_reachable\<close> is the closure of the register
  operations; the invariant of the single operations, \<open>guest_ok\<close>, feeds \<open>machine_ok\<close>, for which \<open>execution_context\<close> is interpreted, so that \<open>Execute\<close> is safe; that
  and the decoder's typing of operands make a core step safe, and a core step with the dispatcher of \<open>Linux_Abi\<close>
  in place of the parameter gives the system-call theorems. The loader and the bootstrap are stated over the same
  memory and register models.

  \<^bold>\<open>Bounds and fuel.\<close> No definition takes fuel. Loops over arrays and queues recurse on the list or a counter, other bounded
  loops on a measure. The loops whose end depends on wrap-around are partial functions into an option: the
  page loops of data accesses, which \<open>data_accesses_return\<close> shows to return, and the loop of \<open>MapIdentityRange\<close>, which
  \<open>MapIdentityRange_correct\<close> shows to return. Memory sizes below \<open>2 ^ 63\<close> are assumed where a sum of addresses must
  not wrap, and said so in each statement.

  \<^bold>\<open>Not modelled.\<close> The firmware emulation in \<open>isa/IA64ISAPlugin.cpp\<close> (EFI services, tied to addresses of one Linux image and
  mixed with trace output), its decode step and checkpoints, and the three merge leftovers beside it that no build
  file names (\<open>.BASE\<close>, \<open>.LOCAL\<close>, \<open>.REMOTE\<close>); \<open>vm/VMManager.cpp\<close>, \<open>vm/VirtualMachine.cpp\<close>, snapshots and checkpoints, which wire the
  components together around files, threads and logs; the API and web servers; the RISC-V and example plugins; the
  parsers of PE, FAT and ISO 9660; block devices; the dynamic linker and \<open>crt0\<close>; the libc bridge, fuzzer, profiler and tools.
\<close>

end
